(* ===== verification/Hamster_Prelude.thy ===== *)
theory Hamster_Prelude
  imports "HOL-Library.Word" "HOL-Library.List_Lexorder" "HOL-Library.Sublist"
begin

text \<open>
  Shared vocabulary of the development: Go's integer and string types, byte-wise
  lexicographic order of encoded keys, and big-endian encodings.

  A Go \<^verbatim>\<open>string\<close> and a Go \<^verbatim>\<open>[]byte\<close> are both sequences of bytes; conversions between them copy
  the bytes unchanged. Both are \<open>8 word list\<close> here, ordered lexicographically by unsigned
  byte value (the order of \<^verbatim>\<open>bytes.Compare\<close> and of \<open><\<close> on Go strings). A nil slice and an
  empty slice are identified, except where the code branches on nil, which is an
  \<open>option\<close>. Signed 64-bit integers are \<open>64 word\<close> read with \<^const>\<open>sint\<close>.
\<close>

unbundle bit_operations_syntax

named_theorems kv_simps "rewrite rules of the ordered key-value store"
named_theorems key_simps "rewrite rules of the row-key encodings"

type_synonym byte = "8 word"
type_synonym bytes = "byte list"
type_synonym gostring = "byte list"
type_synonym u32 = "32 word"
type_synonym u64 = "64 word"
type_synonym i64 = "64 word"

definition str :: "string \<Rightarrow> gostring" where
  "str s = map of_char s"

text \<open>Comparison of two \<^verbatim>\<open>int64\<close> values.\<close>

definition i64_le :: "i64 \<Rightarrow> i64 \<Rightarrow> bool" where
  "i64_le a b \<longleftrightarrow> sint a \<le> sint b"

definition i64_less :: "i64 \<Rightarrow> i64 \<Rightarrow> bool" where
  "i64_less a b \<longleftrightarrow> sint a < sint b"

lemma i64_less_iff_not_le: "i64_less a b \<longleftrightarrow> \<not> i64_le b a"
  by (auto simp: i64_less_def i64_le_def)

lemma i64_le_refl [simp]: "i64_le a a"
  by (simp add: i64_le_def)

lemma i64_le_trans: "i64_le a b \<Longrightarrow> i64_le b c \<Longrightarrow> i64_le a c"
  by (simp add: i64_le_def)

section \<open>Lexicographic order and prefixes\<close>

lemma append_less_append [simp]: "(p @ x < p @ y) = (x < (y :: 'a :: linorder list))"
  by (induction p) auto

lemma append_le_append [simp]: "(p @ x \<le> p @ y) = (x \<le> (y :: 'a :: linorder list))"
  by (induction p) auto

lemma prefix_imp_le: "prefix p x \<Longrightarrow> p \<le> (x :: 'a :: linorder list)"
proof -
  assume "prefix p x"
  then obtain r where "x = p @ r" by (auto simp: prefix_def)
  then have "p @ [] \<le> x" by (simp only: append_le_append) (cases r, auto)
  then show ?thesis by simp
qed

text \<open>
  The rows that share a prefix are contiguous: a key between the prefix itself and a key
  with that prefix has the prefix too. Every range scan of the store stops on this fact.
\<close>

lemma prefix_convex:
  "p \<le> x \<Longrightarrow> x \<le> y \<Longrightarrow> prefix p y \<Longrightarrow> prefix p (x :: 'a :: linorder list)"
proof (induction p arbitrary: x y)
  case Nil
  then show ?case by simp
next
  case (Cons a p)
  from Cons.prems(3) obtain y' where y: "y = a # y'" and py: "prefix p y'"
    by (auto simp: prefix_def)
  from Cons.prems(1) obtain b x' where x: "x = b # x'" by (cases x) auto
  from Cons.prems(1,2) have "a = b" by (auto simp: x y)
  with Cons.prems(1,2) have "p \<le> x'" and "x' \<le> y'" by (auto simp: x y)
  with py have "prefix p x'" by (blast intro: Cons.IH)
  then show ?case by (simp add: x \<open>a = b\<close>)
qed

lemma less_not_prefix: "p \<le> x \<Longrightarrow> \<not> prefix p x \<Longrightarrow> prefix p y \<Longrightarrow> y < (x :: 'a :: linorder list)"
  using prefix_convex [of p x y] by fastforce

section \<open>Machine words\<close>

lemma unat_bound: "unat (w :: 'a :: len word) < 2 ^ LENGTH('a)"
  by (fact unsigned_less)

lemma unat_minus_1: "unat (- 1 :: 'a :: len word) = 2 ^ LENGTH('a) - 1"
  by (simp add: unsigned_minus_1_eq_mask mask_eq_exp_minus_1)

lemma unat_not: "unat (NOT (w :: 'a :: len word)) = 2 ^ LENGTH('a) - 1 - unat w"
proof -
  have "NOT w = - 1 - w" by (simp add: not_eq_complement)
  then show ?thesis by (simp add: unat_sub unat_minus_1)
qed

lemma unat_ucast: "unat (ucast (w :: 'a :: len word) :: 'b :: len word) = unat w mod 2 ^ LENGTH('b)"
  by (simp add: unsigned_ucast_eq take_bit_eq_mod)

lemma unat_drop_bit: "unat (drop_bit n (w :: 'a :: len word)) = unat w div 2 ^ n"
  by (subst unsigned_drop_bit_eq) (simp add: drop_bit_eq_div take_bit_eq_mod)

section \<open>Big-endian encodings\<close>

text \<open>\<open>be_bytes n x\<close> is the \<open>n\<close>-byte big-endian encoding of \<open>x mod 256 ^ n\<close>.\<close>

fun be_bytes :: "nat \<Rightarrow> nat \<Rightarrow> bytes" where
  "be_bytes 0 x = []"
| "be_bytes (Suc n) x = be_bytes n (x div 256) @ [word_of_nat (x mod 256)]"

definition be_nat :: "bytes \<Rightarrow> nat" where
  "be_nat bs = foldl (\<lambda>a b. a * 256 + unat b) 0 bs"

lemma length_be_bytes [simp]: "length (be_bytes n x) = n"
  by (induction n arbitrary: x) auto

lemma be_nat_Nil [simp]: "be_nat [] = 0"
  by (simp add: be_nat_def)

lemma be_nat_snoc [simp]: "be_nat (bs @ [b]) = be_nat bs * 256 + unat b"
  by (simp add: be_nat_def)

lemma unat_byte_less [simp]: "unat (b :: byte) < 256"
  using unsigned_less [of b] by simp

lemma be_nat_be_bytes: "be_nat (be_bytes n x) = x mod 256 ^ n"
proof (induction n arbitrary: x)
  case 0
  then show ?case by simp
next
  case (Suc n)
  have "unat (word_of_nat (x mod 256) :: byte) = x mod 256"
    by (simp add: unat_of_nat)
  then show ?case
    by (simp add: Suc.IH mod_mult2_eq)
qed

lemma be_nat_less: "be_nat bs < 256 ^ length bs"
proof (induction bs rule: rev_induct)
  case Nil
  then show ?case by simp
next
  case (snoc b bs)
  have "be_nat bs * 256 + unat b < (be_nat bs + 1) * 256"
    using unat_byte_less [of b] by simp
  also have "\<dots> \<le> 256 ^ length bs * 256"
    using snoc.IH by (intro mult_right_mono) auto
  finally show ?case by (simp add: mult.commute)
qed

lemma be_bytes_be_nat: "length bs = n \<Longrightarrow> be_bytes n (be_nat bs) = bs"
proof (induction bs arbitrary: n rule: rev_induct)
  case Nil
  then show ?case by simp
next
  case (snoc b bs)
  then obtain m where n: "n = Suc m" and m: "length bs = m" by auto
  have "be_nat (bs @ [b]) div 256 = be_nat bs" and "be_nat (bs @ [b]) mod 256 = unat b"
    using unat_byte_less [of b] by simp_all
  with snoc.IH [OF m] show ?case
    by (simp add: n del: be_nat_snoc)
qed

lemma be_nat_append: "be_nat (xs @ ys) = be_nat xs * 256 ^ length ys + be_nat ys"
  by (induction ys rule: rev_induct) (auto simp: algebra_simps simp flip: append_assoc)

lemma be_nat_Cons: "be_nat (x # xs) = unat x * 256 ^ length xs + be_nat xs"
  using be_nat_append [of "[x]" xs] by (simp add: be_nat_def)

text \<open>On encodings of equal length the lexicographic order is the numeric order.\<close>

lemma be_nat_less_iff:
  "length xs = length ys \<Longrightarrow> (xs < ys) = (be_nat xs < be_nat ys)"
proof (induction xs ys rule: list_induct2)
  case Nil
  then show ?case by simp
next
  case (Cons x xs y ys)
  have step: "be_nat (a # as) < be_nat (b # bs)"
    if "a < b" and "length as = length bs" for a b :: byte and as bs
  proof -
    have "unat a + 1 \<le> unat b" using \<open>a < b\<close> by (simp add: word_less_nat_alt)
    then have "(unat a + 1) * 256 ^ length as \<le> unat b * 256 ^ length as"
      by (rule mult_right_mono) simp
    with be_nat_less [of as] that(2) show ?thesis by (simp add: be_nat_Cons)
  qed
  consider "x < y" | "x = y" | "y < x" by (rule linorder_cases)
  then show ?case
  proof cases
    case 1
    with step [of x y xs ys] Cons show ?thesis by simp
  next
    case 2
    with Cons show ?thesis by (simp add: be_nat_Cons)
  next
    case 3
    with step [of y x ys xs] Cons show ?thesis by auto
  qed
qed

lemma be_bytes_less_iff:
  "x < 256 ^ n \<Longrightarrow> y < 256 ^ n \<Longrightarrow> (be_bytes n x < be_bytes n y) = (x < y)"
  by (simp add: be_nat_less_iff be_nat_be_bytes)

lemma be_bytes_inject:
  "x < 256 ^ n \<Longrightarrow> y < 256 ^ n \<Longrightarrow> (be_bytes n x = be_bytes n y) = (x = y)"
  by (metis be_nat_be_bytes mod_less)

lemma byte_of_drop_bit: "(ucast (drop_bit n (w :: 'a :: len word)) :: byte) = word_of_nat (unat w div 2 ^ n mod 256)"
proof -
  have "unat (ucast (drop_bit n w) :: byte) = unat w div 2 ^ n mod 256"
    by (simp add: unat_ucast unat_drop_bit)
  also have "\<dots> = unat (word_of_nat (unat w div 2 ^ n mod 256) :: byte)"
    by (simp add: unat_of_nat)
  finally show ?thesis by (simp add: word_unat_eq_iff)
qed

lemma be_bytes_Suc_shift: "be_bytes (Suc n) x = word_of_nat (x div 256 ^ n mod 256) # be_bytes n x"
proof (induction n arbitrary: x)
  case (Suc n)
  have "be_bytes (Suc (Suc n)) x = be_bytes (Suc n) (x div 256) @ [word_of_nat (x mod 256)]" by simp
  also have "\<dots> = word_of_nat (x div 256 div 256 ^ n mod 256) # be_bytes n (x div 256) @ [word_of_nat (x mod 256)]"
    by (simp only: Suc.IH append_Cons)
  finally show ?case by (simp add: div_mult2_eq mult.commute)
qed simp

lemma be_bytes_eq: "be_bytes n x = map (\<lambda>i. word_of_nat (x div 256 ^ i mod 256)) (rev [0..<n])"
  by (induction n) (simp_all add: be_bytes_Suc_shift del: be_bytes.simps(2))

lemma word_of_be_nat: "word_of_nat (be_nat bs) = foldl (\<lambda>a b. a * 256 + ucast b) (0 :: 'a :: len word) bs"
  by (induction bs rule: rev_induct) (simp_all)

text \<open>The three fixed-width integer encodings the code uses (\<^verbatim>\<open>encoding/binary\<close>).\<close>

definition be_u32 :: "u32 \<Rightarrow> bytes" where
  "be_u32 x = be_bytes 4 (unat x)"

definition u32_of_be :: "bytes \<Rightarrow> u32" where
  "u32_of_be bs = word_of_nat (be_nat bs)"

definition be_u64 :: "u64 \<Rightarrow> bytes" where
  "be_u64 x = be_bytes 8 (unat x)"

lemma be_u32_code [code]: "be_u32 v = map (\<lambda>i. ucast (drop_bit (8 * i) v)) (rev [0..<4])"
  unfolding be_u32_def be_bytes_eq by (rule map_cong [OF refl]) (simp add: byte_of_drop_bit power_mult)

lemma u32_of_be_code [code]: "u32_of_be bs = foldl (\<lambda>a b. a * 256 + ucast b) 0 bs"
  by (simp add: u32_of_be_def word_of_be_nat)

lemma length_be_u32 [simp]: "length (be_u32 x) = 4"
  by (simp add: be_u32_def)

lemma length_be_u64 [simp]: "length (be_u64 x) = 8"
  by (simp add: be_u64_def)

lemma u32_of_be_u32 [simp]: "u32_of_be (be_u32 x) = x"
  using unat_bound [of x] by (simp add: u32_of_be_def be_u32_def be_nat_be_bytes)

lemma be_u32_of_be: "length bs = 4 \<Longrightarrow> be_u32 (u32_of_be bs) = bs"
  using be_nat_less [of bs] by (simp add: be_u32_def u32_of_be_def unat_of_nat be_bytes_be_nat)

lemma be_u32_inject [simp]: "(be_u32 x = be_u32 y) = (x = y)"
  by (metis u32_of_be_u32)

lemma be_u32_less_iff: "(be_u32 x < be_u32 y) = (x < y)"
  using unat_bound [of x] unat_bound [of y]
  by (simp add: be_u32_def be_bytes_less_iff word_less_nat_alt)

section \<open>Sums as results\<close>

text \<open>A fallible Go call is a value of \<open>'e + 'a\<close>; \<open>Inl\<close> is the error.\<close>

type_synonym ('e, 'a) result = "'e + 'a"

definition bind_res :: "'e + 'a \<Rightarrow> ('a \<Rightarrow> 'e + 'b) \<Rightarrow> 'e + 'b" where
  "bind_res r f = (case r of Inl e \<Rightarrow> Inl e | Inr a \<Rightarrow> f a)"

lemma bind_res_simps [simp]:
  "bind_res (Inl e) f = Inl e"
  "bind_res (Inr a) f = f a"
  by (simp_all add: bind_res_def)

lemma bind_res_Inr_iff: "bind_res r f = Inr b \<longleftrightarrow> (\<exists>a. r = Inr a \<and> f a = Inr b)"
  by (cases r) auto

end
