(* ===== verification/Meta_Vid.thy ===== *)
theory Meta_Vid
  imports Hamster_Prelude
begin

text \<open>
  Version identifiers (\<^verbatim>\<open>internal/meta/vid.go\<close> and \<^verbatim>\<open>complement\<close> of \<^verbatim>\<open>keys.go\<close>).

  A Go \<^verbatim>\<open>[16]byte\<close> is a 128-bit word here, with \<open>vid_bytes\<close> and \<open>vid_of_bytes\<close> the array's
  bytes. The operations work on those bytes exactly as the code's loops do; the lemmas
  show that they are the successor, the bitwise complement and the unsigned order of the
  128-bit value.
\<close>

type_synonym version_id = "128 word"

definition vid_bytes :: "version_id \<Rightarrow> bytes" where
  "vid_bytes v = be_bytes 16 (unat v)"

definition vid_of_bytes :: "bytes \<Rightarrow> version_id" where
  "vid_of_bytes bs = word_of_nat (be_nat bs)"

text \<open>
  \<^verbatim>\<open>NewVersionID\<close>: the clock reading in milliseconds and two draws of the PRNG are inputs.
\<close>

definition new_version_id :: "u64 \<Rightarrow> u64 \<Rightarrow> u64 \<Rightarrow> version_id" where
  "new_version_id ms r1 r2 =
     (let id = [ucast (drop_bit 40 ms), ucast (drop_bit 32 ms), ucast (drop_bit 24 ms),
                ucast (drop_bit 16 ms), ucast (drop_bit 8 ms), ucast ms]
               @ be_bytes 2 (unat (ucast r1 :: 16 word)) @ be_u64 r2;
          id = id[6 := (id ! 6 AND 0x0f) OR 0x70];
          id = id[8 := (id ! 8 AND 0x3f) OR 0x80]
      in vid_of_bytes id)"

text \<open>\<^verbatim>\<open>bytes.Compare\<close>: \<open>-1\<close>, \<open>0\<close> or \<open>1\<close>.\<close>

definition bytes_compare :: "bytes \<Rightarrow> bytes \<Rightarrow> int" where
  "bytes_compare a b = (if a < b then -1 else if a = b then 0 else 1)"

definition vid_compare :: "version_id \<Rightarrow> version_id \<Rightarrow> int" where
  "vid_compare v o' = bytes_compare (vid_bytes v) (vid_bytes o')"

text \<open>The carry loop of \<^verbatim>\<open>Next\<close>, last byte first: increment, stop unless it wrapped to 0.\<close>

fun inc_bytes :: "bytes \<Rightarrow> bytes" where
  "inc_bytes [] = []"
| "inc_bytes (b # bs) = (let b' = b + 1 in if b' \<noteq> 0 then b' # bs else b' # inc_bytes bs)"

definition vid_next :: "version_id \<Rightarrow> version_id" where
  "vid_next v = vid_of_bytes (rev (inc_bytes (rev (vid_bytes v))))"

definition vid_is_zero :: "version_id \<Rightarrow> bool" where
  "vid_is_zero v \<longleftrightarrow> v = 0"

definition complement :: "version_id \<Rightarrow> version_id" where
  "complement v = vid_of_bytes (map (\<lambda>b. NOT b) (vid_bytes v))"

section \<open>Bytes and values\<close>

lemma length_vid_bytes [simp]: "length (vid_bytes v) = 16"
  by (simp add: vid_bytes_def)

lemma unat_vid_less: "unat (v :: version_id) < 256 ^ 16"
  using unat_bound [of v] by simp

lemma be_nat_vid_bytes [simp]: "be_nat (vid_bytes v) = unat v"
  using unat_vid_less [of v] by (simp add: vid_bytes_def be_nat_be_bytes)

lemma vid_of_vid_bytes [simp]: "vid_of_bytes (vid_bytes v) = v"
  by (simp add: vid_of_bytes_def)

lemma vid_bytes_inject [simp]: "(vid_bytes v = vid_bytes w) = (v = w)"
  by (metis vid_of_vid_bytes)

lemma unat_vid_of_bytes: "length bs = 16 \<Longrightarrow> unat (vid_of_bytes bs) = be_nat bs"
  using be_nat_less [of bs] by (simp add: vid_of_bytes_def unat_of_nat)

lemma vid_bytes_of_bytes: "length bs = 16 \<Longrightarrow> vid_bytes (vid_of_bytes bs) = bs"
  by (simp add: vid_bytes_def unat_vid_of_bytes be_bytes_be_nat)

lemma vid_bytes_less_iff [simp]: "(vid_bytes v < vid_bytes w) = (v < w)"
  by (simp add: be_nat_less_iff word_less_nat_alt)

lemma vid_bytes_le_iff [simp]: "(vid_bytes v \<le> vid_bytes w) = (v \<le> w)"
  by (auto simp: le_less)

lemma vid_compare_le_0 [simp]: "vid_compare v w \<le> 0 \<longleftrightarrow> v \<le> w"
  by (auto simp: vid_compare_def bytes_compare_def)

section \<open>Next\<close>

lemma length_inc_bytes [simp]: "length (inc_bytes bs) = length bs"
  by (induction bs) (auto simp: Let_def)

lemma unat_byte_Suc: "(b :: byte) + 1 \<noteq> 0 \<Longrightarrow> unat (b + 1) = Suc (unat b)"
  by (simp add: unatSuc add.commute)

lemma byte_overflow: "(b :: byte) + 1 = 0 \<Longrightarrow> unat b = 255"
proof -
  assume "b + 1 = 0"
  then have "b = - 1" by (simp add: eq_neg_iff_add_eq_0)
  then show ?thesis by (simp add: unat_minus_1)
qed

lemma be_nat_inc_bytes:
  "be_nat (rev (inc_bytes bs)) = (be_nat (rev bs) + 1) mod 256 ^ length bs"
proof (induction bs)
  case Nil
  then show ?case by simp
next
  case (Cons b bs)
  show ?case
  proof (cases "b + 1 = 0")
    case True
    then have "(be_nat (rev (b # bs)) + 1) mod 256 ^ length (b # bs) =
        ((be_nat (rev bs) + 1) * 256) mod (256 ^ length bs * 256)"
      by (simp add: byte_overflow mult.commute)
    also have "\<dots> = ((be_nat (rev bs) + 1) mod 256 ^ length bs) * 256"
      by (rule mod_mult_mult2)
    finally show ?thesis using True Cons.IH by simp
  next
    case False
    have "be_nat (rev bs @ [b + 1]) < 256 ^ Suc (length bs)"
      using be_nat_less [of "rev bs @ [b + 1]"] by (simp del: be_nat_snoc)
    with False show ?thesis by (simp add: unat_byte_Suc)
  qed
qed

lemma vid_next_eq: "vid_next v = v + 1"
proof -
  have "be_nat (rev (inc_bytes (rev (vid_bytes v)))) = (unat v + 1) mod 256 ^ 16"
    by (simp only: be_nat_inc_bytes rev_rev_ident be_nat_vid_bytes length_rev length_vid_bytes)
  then have "unat (vid_next v) = unat (v + 1)"
    by (simp add: vid_next_def unat_vid_of_bytes unat_word_ariths)
  then show ?thesis by (simp add: word_unat_eq_iff)
qed

lemma less_vid_next: "v \<noteq> - 1 \<Longrightarrow> v < vid_next v"
  using inc_less_eq_self_iff_eq [of v] by (auto simp: vid_next_eq not_le)

section \<open>Complement\<close>

lemma be_nat_map_not: "be_nat (map (\<lambda>b. NOT b) bs) = 256 ^ length bs - 1 - be_nat bs"
proof (induction bs rule: rev_induct)
  case Nil
  then show ?case by simp
next
  case (snoc b bs)
  have "unat (NOT b) = 255 - unat b" by (simp add: unat_not)
  moreover have "Suc (be_nat bs) * 256 \<le> 256 ^ length bs * 256"
    using be_nat_less [of bs] by (intro mult_right_mono) auto
  ultimately show ?case
    using snoc.IH by (simp add: diff_mult_distrib) (use unat_byte_less [of b] in linarith)
qed

lemma complement_eq: "complement v = NOT v"
proof -
  have "unat (complement v) = 256 ^ 16 - 1 - unat v"
    by (simp add: complement_def unat_vid_of_bytes be_nat_map_not)
  also have "\<dots> = unat (NOT v)" by (simp add: unat_not)
  finally show ?thesis by (simp add: word_unat_eq_iff)
qed

lemma complement_complement [simp]: "complement (complement v) = v"
  by (simp add: complement_eq)

lemma complement_inject [simp]: "(complement v = complement w) = (v = w)"
  by (metis complement_complement)

lemma complement_less_iff [simp]: "(complement v < complement w) = (w < v)"
  by (simp add: complement_eq word_less_nat_alt unat_not) (use unat_bound [of v] unat_bound [of w] in auto)

lemma complement_le_iff [simp]: "(complement v \<le> complement w) = (w \<le> v)"
  by (auto simp: le_less)

section \<open>Evaluation\<close>

text \<open>Code equations on the word itself, so that concrete states evaluate.\<close>

lemma vid_bytes_code [code]: "vid_bytes v = map (\<lambda>i. ucast (drop_bit (8 * i) v)) (rev [0..<16])"
  unfolding vid_bytes_def be_bytes_eq
  by (rule map_cong [OF refl]) (simp add: byte_of_drop_bit power_mult)

lemma vid_of_bytes_code [code]: "vid_of_bytes bs = foldl (\<lambda>a b. a * 256 + ucast b) 0 bs"
  by (simp add: vid_of_bytes_def word_of_be_nat)

declare complement_eq [code] vid_next_eq [code]

section \<open>Minted identifiers\<close>

text \<open>
  The headroom of a minted identifier: the version nibble keeps it at least \<open>2 ^ 79\<close> below
  the largest value, so that many bumps cannot wrap.
\<close>

definition vid_headroom :: nat where
  "vid_headroom = 2 ^ 79"

lemma be_bytes_6: "be_bytes 6 x = map (\<lambda>i. word_of_nat (x div 2 ^ i mod 256)) [40, 32, 24, 16, 8, 0]"
proof -
  have six: "(6 :: nat) = Suc (Suc (Suc (Suc (Suc (Suc 0)))))" by simp
  show ?thesis unfolding six be_bytes.simps by (simp flip: div_mult2_eq)
qed

lemma new_version_id_bytes:
  "\<exists>b bs. vid_bytes (new_version_id ms r1 r2) = be_bytes 6 (unat ms) @ b # bs \<and>
     length bs = 9 \<and> 0x70 \<le> unat b \<and> unat b < 0x80"
proof -
  define t where "t = be_bytes 6 (unat ms)"
  have t: "t = [ucast (drop_bit 40 ms), ucast (drop_bit 32 ms), ucast (drop_bit 24 ms),
      ucast (drop_bit 16 ms), ucast (drop_bit 8 ms), ucast ms]"
    using byte_of_drop_bit [of 0 ms] by (simp add: t_def be_bytes_6 byte_of_drop_bit)
  have lt: "length t = 6" by (simp add: t_def)
  obtain x y where xy: "be_bytes 2 (unat (ucast r1 :: 16 word)) = [x, y]"
    using length_be_bytes [of 2 "unat (ucast r1 :: 16 word)"]
    by (metis (no_types, lifting) length_0_conv length_Suc_conv numeral_2_eq_2)
  obtain z zs where z: "be_u64 r2 = z # zs" and zs: "length zs = 7"
    using length_be_u64 [of r2] by (cases "be_u64 r2") auto
  define b where "b = (x AND 0x0f) OR 0x70"
  have id: "new_version_id ms r1 r2 = vid_of_bytes (t @ b # y # ((z AND 0x3f) OR 0x80) # zs)"
    using lt by (simp add: new_version_id_def Let_def xy z b_def nth_append list_update_append
        flip: t)
  have "vid_bytes (new_version_id ms r1 r2) = t @ b # y # ((z AND 0x3f) OR 0x80) # zs"
    unfolding id by (rule vid_bytes_of_bytes) (simp add: lt zs)
  moreover have "unat b = unat (x AND 0x0f) + 0x70"
  proof -
    have "b = (x AND 0x0f) + 0x70"
      unfolding b_def by (rule disjunctive_add_eq_or [symmetric]) (simp add: and.assoc)
    moreover have "unat (x AND 0x0f) < 16"
      using word_and_le1 [of x "0x0f"] by (simp add: word_le_nat_alt and.commute)
    ultimately show ?thesis by (simp add: unat_word_ariths)
  qed
  moreover have "unat (x AND 0x0f) < 16"
    using word_and_le1 [of x "0x0f"] by (simp add: word_le_nat_alt and.commute)
  ultimately show ?thesis
    using zs by (intro exI [of _ b] exI [of _ "y # ((z AND 0x3f) OR 0x80) # zs"]) (simp add: t_def)
qed

lemma new_version_id_headroom: "unat (new_version_id ms r1 r2) + vid_headroom < 2 ^ 128"
proof -
  obtain b bs where v: "vid_bytes (new_version_id ms r1 r2) = be_bytes 6 (unat ms) @ b # bs"
    and bs: "length bs = 9" and b: "unat b < 0x80"
    using new_version_id_bytes by blast
  have "unat (new_version_id ms r1 r2) = be_nat (be_bytes 6 (unat ms) @ b # bs)"
    by (metis be_nat_vid_bytes v)
  also have "\<dots> = be_nat (be_bytes 6 (unat ms)) * 256 ^ 10 + (unat b * 256 ^ 9 + be_nat bs)"
    by (simp add: be_nat_append be_nat_Cons bs)
  finally have u: "unat (new_version_id ms r1 r2) =
    be_nat (be_bytes 6 (unat ms)) * 256 ^ 10 + (unat b * 256 ^ 9 + be_nat bs)" .
  have "be_nat (be_bytes 6 (unat ms)) < 256 ^ 6"
    using be_nat_less [of "be_bytes 6 (unat ms)"] by (simp only: length_be_bytes)
  moreover have "be_nat bs < 256 ^ 9" using be_nat_less [of bs] by (simp only: bs)
  ultimately show ?thesis using b unfolding u vid_headroom_def by simp
qed

lemma new_version_id_nonzero: "\<not> vid_is_zero (new_version_id ms r1 r2)"
proof
  assume "vid_is_zero (new_version_id ms r1 r2)"
  moreover obtain b bs where v: "vid_bytes (new_version_id ms r1 r2) = be_bytes 6 (unat ms) @ b # bs"
    and "0x70 \<le> unat b"
    using new_version_id_bytes by blast
  ultimately have "be_nat (be_bytes 6 (unat ms)) * 256 ^ Suc (length bs) + (unat b * 256 ^ length bs + be_nat bs) = 0"
    using be_nat_vid_bytes [of "new_version_id ms r1 r2"]
    by (simp add: vid_is_zero_def be_nat_append be_nat_Cons)
  with \<open>0x70 \<le> unat b\<close> show False by simp
qed

text \<open>Identifiers minted at a later millisecond sort after earlier ones, whatever the PRNG drew.\<close>

lemma new_version_id_mono:
  assumes "unat ms mod 2 ^ 48 < unat ms' mod 2 ^ 48"
  shows "new_version_id ms r1 r2 < new_version_id ms' r1' r2'"
proof -
  obtain b bs where v: "vid_bytes (new_version_id ms r1 r2) = be_bytes 6 (unat ms) @ b # bs"
    using new_version_id_bytes by blast
  obtain b' bs' where v': "vid_bytes (new_version_id ms' r1' r2') = be_bytes 6 (unat ms') @ b' # bs'"
    using new_version_id_bytes by blast
  have lex: "xs @ us < ys @ vs" if "xs < ys" "length xs = length ys" for xs ys us vs :: bytes
    using that(2,1) by (induction xs ys rule: list_induct2) auto
  have "be_bytes 6 (unat ms) < be_bytes 6 (unat ms')"
    using assms by (simp add: be_nat_less_iff be_nat_be_bytes)
  then have "vid_bytes (new_version_id ms r1 r2) < vid_bytes (new_version_id ms' r1' r2')"
    unfolding v v' by (intro lex) simp_all
  then show ?thesis by simp
qed

end
