(* ===== verification/Meta_Keys.thy ===== *)
theory Meta_Keys
  imports Meta_Vid
begin

text \<open>
  The keyspace encoding (\<^verbatim>\<open>internal/meta/keys.go\<close>) and the error values of apply
  (\<^verbatim>\<open>internal/meta/meta.go\<close>).

  Row keys are byte strings; components are NUL-delimited and identifiers are fixed-width.
  The lemmas show what the store relies on: the encodings are injective on NUL-free
  components, a scan prefix selects exactly the rows of its bucket or key, and the rows of
  one object key are ordered newest version first. Go's slice expressions panic out of
  range; the decoders return \<open>None\<close> there.
\<close>

section \<open>Errors\<close>

datatype meta_error =
    ErrInvalidBucketName | ErrBucketExists | ErrNoSuchBucket | ErrBucketNotEmpty
  | ErrInvalidObjectKey | ErrNoSuchVersion | ErrObjectLocked | ErrInvalidVersioningState
  | ErrInvalidRetention | ErrNoSuchUpload | ErrUploadExists | ErrInvalidPartNumber
  | ErrInvalidPart | ErrInvalidPartOrder | ErrPartTooSmall | ErrStaleLayout | ErrInvalidLayout
  | ErrInvalidNode | ErrInvalidReEncode | ErrInvalidEncryption | ErrEncryptionDowngrade
  | ErrKEKMismatch | ErrNotEncrypting | ErrInvalidRewrap | ErrStaleTrustBundle
  | ErrInvalidTrustBundle
  | ErrPersist
  | Panic \<comment> \<open>a failed type assertion or an out-of-range slice: the Go process panics\<close>

section \<open>Row keys\<close>

definition nul :: gostring where
  "nul = [0]"

definition clusterLayoutKey :: gostring where
  "clusterLayoutKey = str ''s/layout''"

definition encryptionPostureKey :: gostring where
  "encryptionPostureKey = str ''s/enc''"

definition trustBundleKey :: gostring where
  "trustBundleKey = str ''s/trust''"

definition nodeScanPrefix :: gostring where
  "nodeScanPrefix = str ''s/node/''"

definition nodeRowKey :: "gostring \<Rightarrow> gostring" where
  "nodeRowKey nid = nodeScanPrefix @ nid"

definition bucketScanPrefix :: gostring where
  "bucketScanPrefix = str ''b/''"

definition bucketRowKey :: "gostring \<Rightarrow> gostring" where
  "bucketRowKey bucket = str ''b/'' @ bucket"

definition currentRowKey :: "gostring \<Rightarrow> gostring \<Rightarrow> gostring" where
  "currentRowKey bucket key = str ''c/'' @ bucket @ nul @ key"

definition currentScanPrefix :: "gostring \<Rightarrow> gostring" where
  "currentScanPrefix bucket = str ''c/'' @ bucket @ nul"

definition versionRowKey :: "gostring \<Rightarrow> gostring \<Rightarrow> version_id \<Rightarrow> gostring" where
  "versionRowKey bucket key vid =
     (let c = complement vid in str ''v/'' @ bucket @ nul @ key @ nul @ vid_bytes c)"

definition versionScanPrefix :: "gostring \<Rightarrow> gostring \<Rightarrow> gostring" where
  "versionScanPrefix bucket key = str ''v/'' @ bucket @ nul @ key @ nul"

definition bucketVersionsScanPrefix :: "gostring \<Rightarrow> gostring" where
  "bucketVersionsScanPrefix bucket = str ''v/'' @ bucket @ nul"

definition uploadRowKey :: "gostring \<Rightarrow> gostring \<Rightarrow> version_id \<Rightarrow> gostring" where
  "uploadRowKey bucket key uid = str ''u/'' @ bucket @ nul @ key @ nul @ vid_bytes uid"

definition partRowKey :: "gostring \<Rightarrow> gostring \<Rightarrow> version_id \<Rightarrow> u32 \<Rightarrow> gostring" where
  "partRowKey bucket key uid part = uploadRowKey bucket key uid @ be_u32 part"

definition uploadsScanPrefix :: "gostring \<Rightarrow> gostring" where
  "uploadsScanPrefix bucket = str ''u/'' @ bucket @ nul"

section \<open>Decoding row keys\<close>

text \<open>\<^verbatim>\<open>strings.IndexByte\<close>; \<open>None\<close> is the code's \<open>-1\<close>.\<close>

fun index_byte :: "bytes \<Rightarrow> byte \<Rightarrow> nat option" where
  "index_byte [] c = None"
| "index_byte (x # xs) c = (if x = c then Some 0 else map_option Suc (index_byte xs c))"

text \<open>The slice expression \<^verbatim>\<open>xs[n:]\<close>; \<open>None\<close> is the out-of-range panic.\<close>

definition slice_from :: "nat \<Rightarrow> 'a list \<Rightarrow> 'a list option" where
  "slice_from n xs = (if n \<le> length xs then Some (drop n xs) else None)"

definition uploadFromRow ::
    "gostring \<Rightarrow> gostring \<Rightarrow> (gostring \<times> version_id \<times> u32 \<times> bool) option" where
  "uploadFromRow rowKey bucket =
     (case slice_from (length (uploadsScanPrefix bucket)) rowKey of
        None \<Rightarrow> None
      | Some rest \<Rightarrow>
          (case index_byte rest 0 of
             None \<Rightarrow> None
           | Some i \<Rightarrow>
               (let key = take i rest; tail = drop (i + 1) rest
                in if length tail < 16 then None
                   else let uid = vid_of_bytes (take 16 tail)
                        in if length tail = 20
                           then Some (key, uid, u32_of_be (drop 16 tail), True)
                           else Some (key, uid, 0, False))))"

definition objectKeyFromCurrentRow :: "gostring \<Rightarrow> gostring \<Rightarrow> gostring option" where
  "objectKeyFromCurrentRow rowKey bucket = slice_from (length (currentScanPrefix bucket)) rowKey"

definition keyAndVersionFromVersionRow ::
    "gostring \<Rightarrow> gostring \<Rightarrow> (gostring \<times> version_id) option" where
  "keyAndVersionFromVersionRow rowKey bucket =
     (case slice_from (length (bucketVersionsScanPrefix bucket)) rowKey of
        None \<Rightarrow> None
      | Some rest \<Rightarrow>
          (if length rest < 17 then None
           else Some (take (length rest - 17) rest,
                      complement (vid_of_bytes (drop (length rest - 16) rest)))))"

section \<open>Validation\<close>

definition validateObjectKey :: "gostring \<Rightarrow> meta_error option" where
  "validateObjectKey key =
     (if length key = 0 \<or> length key > 1024 \<or> index_byte key 0 \<noteq> None
      then Some ErrInvalidObjectKey else None)"

definition alnum :: "byte \<Rightarrow> bool" where
  "alnum c \<longleftrightarrow> (of_char (CHR ''a'') \<le> c \<and> c \<le> of_char (CHR ''z'')) \<or>
              (of_char (CHR ''0'') \<le> c \<and> c \<le> of_char (CHR ''9''))"

text \<open>The loop of \<^verbatim>\<open>validateBucketName\<close> at index \<open>i\<close> of a name of length \<open>n\<close>.\<close>

fun validateBucketName_loop :: "nat \<Rightarrow> nat \<Rightarrow> gostring \<Rightarrow> meta_error option" where
  "validateBucketName_loop n i [] = None"
| "validateBucketName_loop n i (c # cs) =
     (if (i = 0 \<or> i = n - 1) \<and> \<not> alnum c then Some ErrInvalidBucketName
      else if \<not> alnum c \<and> c \<noteq> of_char (CHR ''.'') \<and> c \<noteq> of_char (CHR ''-'')
           then Some ErrInvalidBucketName
      else validateBucketName_loop n (i + 1) cs)"

definition validateBucketName :: "gostring \<Rightarrow> meta_error option" where
  "validateBucketName name =
     (if length name < 3 \<or> length name > 63 then Some ErrInvalidBucketName
      else validateBucketName_loop (length name) 0 name)"

section \<open>NUL-free components\<close>

definition nul_free :: "gostring \<Rightarrow> bool" where
  "nul_free s \<longleftrightarrow> 0 \<notin> set s"

lemma index_byte_None [simp]: "index_byte xs c = None \<longleftrightarrow> c \<notin> set xs"
  by (induction xs) auto

lemma index_byte_append: "c \<notin> set xs \<Longrightarrow> index_byte (xs @ c # ys) c = Some (length xs)"
  by (induction xs) auto

lemma validateObjectKey_nul_free: "validateObjectKey key = None \<Longrightarrow> nul_free key"
  by (auto simp: validateObjectKey_def nul_free_def split: if_splits)

lemma validateBucketName_loop_nul_free:
  "validateBucketName_loop n i cs = None \<Longrightarrow> nul_free cs"
  by (induction n i cs rule: validateBucketName_loop.induct)
     (auto simp: nul_free_def alnum_def split: if_splits)

lemma validateBucketName_nul_free: "validateBucketName name = None \<Longrightarrow> nul_free name"
  by (auto simp: validateBucketName_def intro: validateBucketName_loop_nul_free split: if_splits)

lemma validateBucketName_nonempty: "validateBucketName name = None \<Longrightarrow> name \<noteq> []"
  by (auto simp: validateBucketName_def)

section \<open>Injectivity\<close>

lemma split_nul:
  "nul_free x \<Longrightarrow> nul_free y \<Longrightarrow> x @ 0 # xs = y @ 0 # ys \<longleftrightarrow> x = y \<and> xs = ys"
proof (induction x arbitrary: y)
  case Nil
  then show ?case by (cases y) (auto simp: nul_free_def)
next
  case (Cons a x)
  then show ?case by (cases y) (auto simp: nul_free_def)
qed

text \<open>Two components against a NUL-free pair: the other pair need not be checked.\<close>

lemma split_nul_pair:
  assumes b: "nul_free b" and k: "nul_free k"
  shows "b' @ 0 # k' = b @ 0 # k \<longleftrightarrow> b' = b \<and> k' = k"
proof
  assume eq: "b' @ 0 # k' = b @ 0 # k"
  have "count_list (b' @ 0 # k') 0 = count_list (b @ 0 # k) 0" by (simp only: eq)
  moreover have "count_list b 0 = 0" "count_list k 0 = 0"
    using b k by (auto simp: nul_free_def count_list_0_iff)
  ultimately have "count_list b' 0 = 0" "count_list k' 0 = 0" by auto
  then have "nul_free b'" "nul_free k'" by (auto simp: nul_free_def count_list_0_iff)
  with eq b show "b' = b \<and> k' = k" by (simp add: split_nul)
qed simp

lemma split_tail:
  assumes "length t' = length (t :: bytes)"
  shows "b' @ 0 # k' @ 0 # t' = b @ 0 # k @ 0 # t \<longleftrightarrow> b' @ 0 # k' = b @ 0 # k \<and> t' = t"
proof -
  have "(b' @ 0 # k') @ (0 # t') = (b @ 0 # k) @ (0 # t) \<longleftrightarrow> b' @ 0 # k' = b @ 0 # k \<and> 0 # t' = 0 # t"
    using assms by (intro append_eq_append_conv) auto
  then show ?thesis by simp
qed

lemma versionRowKey_inject:
  "nul_free b \<Longrightarrow> nul_free k \<Longrightarrow>
   versionRowKey b' k' v' = versionRowKey b k v \<longleftrightarrow> b' = b \<and> k' = k \<and> v' = v"
  by (simp add: versionRowKey_def nul_def Let_def split_tail split_nul_pair)

lemma currentRowKey_inject:
  "nul_free b \<Longrightarrow> nul_free k \<Longrightarrow> currentRowKey b' k' = currentRowKey b k \<longleftrightarrow> b' = b \<and> k' = k"
  by (simp add: currentRowKey_def nul_def split_nul_pair)

lemma uploadRowKey_inject:
  "nul_free b \<Longrightarrow> nul_free k \<Longrightarrow>
   uploadRowKey b' k' v' = uploadRowKey b k v \<longleftrightarrow> b' = b \<and> k' = k \<and> v' = v"
  by (simp add: uploadRowKey_def nul_def split_tail split_nul_pair)

lemma partRowKey_inject:
  assumes "nul_free b" and "nul_free k"
  shows "partRowKey b' k' v' n' = partRowKey b k v n \<longleftrightarrow> b' = b \<and> k' = k \<and> v' = v \<and> n' = n"
  using uploadRowKey_inject [OF assms] by (auto simp: partRowKey_def append_eq_append_conv)

text \<open>An upload row never equals a part row: their tails have different widths.\<close>

lemma uploadRowKey_neq_partRowKey:
  assumes "nul_free b" "nul_free k" "nul_free b'" "nul_free k'"
  shows "uploadRowKey b k v \<noteq> partRowKey b' k' v' n"
proof
  assume "uploadRowKey b k v = partRowKey b' k' v' n"
  then have "b @ 0 # k @ 0 # vid_bytes v = b' @ 0 # k' @ 0 # (vid_bytes v' @ be_u32 n)"
    by (simp add: uploadRowKey_def partRowKey_def nul_def)
  with assms have "vid_bytes v = vid_bytes v' @ be_u32 n" by (simp add: split_nul)
  then have "length (vid_bytes v) = length (vid_bytes v' @ be_u32 n)" by simp
  then show False by simp
qed

lemma bucketRowKey_inject [simp]: "bucketRowKey b = bucketRowKey b' \<longleftrightarrow> b = b'"
  by (simp add: bucketRowKey_def)

lemma nodeRowKey_inject [simp]: "nodeRowKey b = nodeRowKey b' \<longleftrightarrow> b = b'"
  by (simp add: nodeRowKey_def)

section \<open>Kinds of rows never collide\<close>

lemmas row_key_defs = bucketRowKey_def currentRowKey_def versionRowKey_def uploadRowKey_def
  partRowKey_def nodeRowKey_def nodeScanPrefix_def clusterLayoutKey_def encryptionPostureKey_def
  trustBundleKey_def str_def Let_def

lemma row_kinds_distinct [simp]:
  "bucketRowKey b \<noteq> versionRowKey b' k' v'" "versionRowKey b' k' v' \<noteq> bucketRowKey b"
  "bucketRowKey b \<noteq> currentRowKey b' k'" "currentRowKey b' k' \<noteq> bucketRowKey b"
  "bucketRowKey b \<noteq> uploadRowKey b' k' v'" "uploadRowKey b' k' v' \<noteq> bucketRowKey b"
  "bucketRowKey b \<noteq> partRowKey b' k' v' n'" "partRowKey b' k' v' n' \<noteq> bucketRowKey b"
  "bucketRowKey b \<noteq> nodeRowKey i" "nodeRowKey i \<noteq> bucketRowKey b"
  "versionRowKey b k v \<noteq> currentRowKey b' k'" "currentRowKey b' k' \<noteq> versionRowKey b k v"
  "versionRowKey b k v \<noteq> uploadRowKey b' k' v'" "uploadRowKey b' k' v' \<noteq> versionRowKey b k v"
  "versionRowKey b k v \<noteq> partRowKey b' k' v' n'" "partRowKey b' k' v' n' \<noteq> versionRowKey b k v"
  "versionRowKey b k v \<noteq> nodeRowKey i" "nodeRowKey i \<noteq> versionRowKey b k v"
  "currentRowKey b k \<noteq> uploadRowKey b' k' v'" "uploadRowKey b' k' v' \<noteq> currentRowKey b k"
  "currentRowKey b k \<noteq> partRowKey b' k' v' n'" "partRowKey b' k' v' n' \<noteq> currentRowKey b k"
  "currentRowKey b k \<noteq> nodeRowKey i" "nodeRowKey i \<noteq> currentRowKey b k"
  "uploadRowKey b k v \<noteq> nodeRowKey i" "nodeRowKey i \<noteq> uploadRowKey b k v"
  "partRowKey b k v n \<noteq> nodeRowKey i" "nodeRowKey i \<noteq> partRowKey b k v n"
  by (simp_all add: row_key_defs)

lemma system_rows_distinct [simp]:
  "clusterLayoutKey \<noteq> encryptionPostureKey" "encryptionPostureKey \<noteq> clusterLayoutKey"
  "clusterLayoutKey \<noteq> trustBundleKey" "trustBundleKey \<noteq> clusterLayoutKey"
  "encryptionPostureKey \<noteq> trustBundleKey" "trustBundleKey \<noteq> encryptionPostureKey"
  "nodeRowKey i \<noteq> clusterLayoutKey" "clusterLayoutKey \<noteq> nodeRowKey i"
  "nodeRowKey i \<noteq> encryptionPostureKey" "encryptionPostureKey \<noteq> nodeRowKey i"
  "nodeRowKey i \<noteq> trustBundleKey" "trustBundleKey \<noteq> nodeRowKey i"
  by (simp_all add: row_key_defs)

lemma system_rows_no_object_rows [simp]:
  "clusterLayoutKey \<noteq> bucketRowKey b" "bucketRowKey b \<noteq> clusterLayoutKey"
  "clusterLayoutKey \<noteq> versionRowKey b k v" "versionRowKey b k v \<noteq> clusterLayoutKey"
  "clusterLayoutKey \<noteq> currentRowKey b k" "currentRowKey b k \<noteq> clusterLayoutKey"
  "clusterLayoutKey \<noteq> uploadRowKey b k v" "uploadRowKey b k v \<noteq> clusterLayoutKey"
  "clusterLayoutKey \<noteq> partRowKey b k v n" "partRowKey b k v n \<noteq> clusterLayoutKey"
  "encryptionPostureKey \<noteq> bucketRowKey b" "bucketRowKey b \<noteq> encryptionPostureKey"
  "encryptionPostureKey \<noteq> versionRowKey b k v" "versionRowKey b k v \<noteq> encryptionPostureKey"
  "encryptionPostureKey \<noteq> currentRowKey b k" "currentRowKey b k \<noteq> encryptionPostureKey"
  "encryptionPostureKey \<noteq> uploadRowKey b k v" "uploadRowKey b k v \<noteq> encryptionPostureKey"
  "encryptionPostureKey \<noteq> partRowKey b k v n" "partRowKey b k v n \<noteq> encryptionPostureKey"
  "trustBundleKey \<noteq> bucketRowKey b" "bucketRowKey b \<noteq> trustBundleKey"
  "trustBundleKey \<noteq> versionRowKey b k v" "versionRowKey b k v \<noteq> trustBundleKey"
  "trustBundleKey \<noteq> currentRowKey b k" "currentRowKey b k \<noteq> trustBundleKey"
  "trustBundleKey \<noteq> uploadRowKey b k v" "uploadRowKey b k v \<noteq> trustBundleKey"
  "trustBundleKey \<noteq> partRowKey b k v n" "partRowKey b k v n \<noteq> trustBundleKey"
  by (simp_all add: row_key_defs)

section \<open>What a scan prefix selects\<close>

lemma prefix_nul_iff:
  assumes "nul_free b" and "nul_free b'"
  shows "prefix (b @ [0] @ p) (b' @ [0] @ r) \<longleftrightarrow> b = b' \<and> prefix p r"
proof
  assume "prefix (b @ [0] @ p) (b' @ [0] @ r)"
  then obtain z where "b' @ 0 # r = b @ 0 # (p @ z)" by (auto simp: prefix_def)
  with assms show "b = b' \<and> prefix p r" by (auto simp: split_nul)
qed auto

lemma versionScanPrefix_iff [key_simps]:
  "nul_free b \<Longrightarrow> nul_free k \<Longrightarrow> nul_free b' \<Longrightarrow> nul_free k' \<Longrightarrow>
   prefix (versionScanPrefix b k) (versionRowKey b' k' v) \<longleftrightarrow> b = b' \<and> k = k'"
  using prefix_nul_iff [of b b' "k @ [0]" "k' @ [0] @ vid_bytes (complement v)"]
    prefix_nul_iff [of k k' "[]" "vid_bytes (complement v)"]
  by (simp add: versionScanPrefix_def versionRowKey_def nul_def str_def Let_def)

lemma bucketVersionsScanPrefix_iff [key_simps]:
  "nul_free b \<Longrightarrow> nul_free b' \<Longrightarrow>
   prefix (bucketVersionsScanPrefix b) (versionRowKey b' k' v) \<longleftrightarrow> b = b'"
  using prefix_nul_iff [of b b' "[]"]
  by (simp add: bucketVersionsScanPrefix_def versionRowKey_def nul_def str_def Let_def)

lemma uploadsScanPrefix_upload_iff [key_simps]:
  "nul_free b \<Longrightarrow> nul_free b' \<Longrightarrow> prefix (uploadsScanPrefix b) (uploadRowKey b' k' v) \<longleftrightarrow> b = b'"
  using prefix_nul_iff [of b b' "[]"]
  by (simp add: uploadsScanPrefix_def uploadRowKey_def nul_def str_def)

lemma uploadsScanPrefix_part_iff [key_simps]:
  "nul_free b \<Longrightarrow> nul_free b' \<Longrightarrow> prefix (uploadsScanPrefix b) (partRowKey b' k' v n) \<longleftrightarrow> b = b'"
  using prefix_nul_iff [of b b' "[]"]
  by (simp add: uploadsScanPrefix_def partRowKey_def uploadRowKey_def nul_def str_def)

lemma currentScanPrefix_iff [key_simps]:
  "nul_free b \<Longrightarrow> nul_free b' \<Longrightarrow> prefix (currentScanPrefix b @ p) (currentRowKey b' k) \<longleftrightarrow> b = b' \<and> prefix p k"
  using prefix_nul_iff [of b b' p k]
  by (simp add: currentScanPrefix_def currentRowKey_def nul_def str_def)

lemma prefix_vid_bytes_iff [simp]: "prefix (vid_bytes v) (vid_bytes w @ r) \<longleftrightarrow> v = w"
proof
  assume "prefix (vid_bytes v) (vid_bytes w @ r)"
  then obtain z where "vid_bytes w @ r = vid_bytes v @ z" by (auto simp: prefix_def)
  then show "v = w" by (simp add: append_eq_append_conv)
qed simp

lemma uploadRowKey_prefix_upload_iff [key_simps]:
  "nul_free b \<Longrightarrow> nul_free k \<Longrightarrow> nul_free b' \<Longrightarrow> nul_free k' \<Longrightarrow>
   prefix (uploadRowKey b k v) (uploadRowKey b' k' v') \<longleftrightarrow> b = b' \<and> k = k' \<and> v = v'"
  using prefix_nul_iff [of b b' "k @ [0] @ vid_bytes v" "k' @ [0] @ vid_bytes v'"]
    prefix_nul_iff [of k k' "vid_bytes v" "vid_bytes v'"] prefix_vid_bytes_iff [of v v' "[]"]
  by (simp add: uploadRowKey_def nul_def str_def)

lemma uploadRowKey_prefix_part_iff [key_simps]:
  "nul_free b \<Longrightarrow> nul_free k \<Longrightarrow> nul_free b' \<Longrightarrow> nul_free k' \<Longrightarrow>
   prefix (uploadRowKey b k v) (partRowKey b' k' v' n) \<longleftrightarrow> b = b' \<and> k = k' \<and> v = v'"
  using prefix_nul_iff [of b b' "k @ [0] @ vid_bytes v" "k' @ [0] @ vid_bytes v' @ be_u32 n"]
    prefix_nul_iff [of k k' "vid_bytes v" "vid_bytes v' @ be_u32 n"]
  by (simp add: uploadRowKey_def partRowKey_def nul_def str_def)

section \<open>Order of the rows of one key\<close>

lemma versionRowKey_less_iff [simp]:
  "versionRowKey b k v < versionRowKey b k w \<longleftrightarrow> w < v"
  by (simp add: versionRowKey_def Let_def)

lemma versionScanPrefix_le [simp]: "versionScanPrefix b k \<le> versionRowKey b k v"
  by (rule prefix_imp_le) (simp add: versionScanPrefix_def versionRowKey_def Let_def)

lemma partRowKey_less_iff [simp]: "partRowKey b k u m < partRowKey b k u n \<longleftrightarrow> m < n"
  by (simp add: partRowKey_def be_u32_less_iff)

section \<open>Decoders invert encoders\<close>

lemma uploadFromRow_uploadRowKey [simp]:
  "nul_free k \<Longrightarrow> uploadFromRow (uploadRowKey b k u) b = Some (k, u, 0, False)"
  by (simp add: uploadFromRow_def uploadRowKey_def uploadsScanPrefix_def slice_from_def nul_def
      nul_free_def index_byte_append)

lemma uploadFromRow_partRowKey [simp]:
  "nul_free k \<Longrightarrow> uploadFromRow (partRowKey b k u n) b = Some (k, u, n, True)"
  by (simp add: uploadFromRow_def partRowKey_def uploadRowKey_def uploadsScanPrefix_def
      slice_from_def nul_def nul_free_def index_byte_append)

lemma objectKeyFromCurrentRow_currentRowKey [simp]:
  "objectKeyFromCurrentRow (currentRowKey b k) b = Some k"
  by (simp add: objectKeyFromCurrentRow_def currentRowKey_def currentScanPrefix_def slice_from_def)

lemma keyAndVersionFromVersionRow_versionRowKey [simp]:
  "keyAndVersionFromVersionRow (versionRowKey b k v) b = Some (k, v)"
  by (simp add: keyAndVersionFromVersionRow_def versionRowKey_def bucketVersionsScanPrefix_def
      slice_from_def nul_def Let_def)

end
