(* ===== verification/Meta_KV.thy ===== *)
theory Meta_KV
  imports Meta_Keys
begin

text \<open>
  The ordered in-memory key-value map (\<^verbatim>\<open>internal/meta/kv.go\<close>) and its transactional
  wrapper (\<^verbatim>\<open>txKV\<close> of \<^verbatim>\<open>internal/meta/persist.go\<close>).

  \<open>memKV\<close> keeps a sorted key slice beside a Go map; every insertion and deletion locates
  its position with \<^verbatim>\<open>slices.BinarySearch\<close>, whose loop is modelled. A scan hands the rows from
  a position on to a closure; the closure's captured variables are the state it threads
  and its result says whether to go on. A row's value is an \<open>option\<close> because a Go map
  returns nil for a missing key.

  The locale \<open>ordered_kv\<close> states what the store relies on (lookup after update, finite
  contents, rows in ascending key order); it is interpreted on \<open>memKV\<close> and on \<open>txKV\<close>.
\<close>

section \<open>slices.BinarySearch\<close>

function binary_search_loop :: "gostring list \<Rightarrow> gostring \<Rightarrow> nat \<Rightarrow> nat \<Rightarrow> nat" where
  "binary_search_loop xs target i j =
     (if i < j
      then let h = (i + j) div 2
           in if xs ! h < target then binary_search_loop xs target (h + 1) j
              else binary_search_loop xs target i h
      else i)"
  by pat_completeness auto
termination
  by (relation "measure (\<lambda>(xs, target, i, j). j - i)") (auto simp: Let_def)

declare binary_search_loop.simps [simp del]

definition binary_search :: "gostring list \<Rightarrow> gostring \<Rightarrow> nat \<times> bool" where
  "binary_search xs target =
     (let n = length xs; i = binary_search_loop xs target 0 n
      in (i, i < n \<and> xs ! i = target))"

section \<open>memKV\<close>

record 'v memKV =
  keys :: "gostring list"
  vals :: "gostring \<rightharpoonup> 'v"

definition newMemKV :: "'v memKV" where
  "newMemKV = \<lparr>keys = [], vals = Map.empty\<rparr>"

definition memKV_get :: "'v memKV \<Rightarrow> gostring \<Rightarrow> 'v option" where
  "memKV_get kv k = vals kv k"

definition memKV_set :: "'v memKV \<Rightarrow> gostring \<Rightarrow> 'v \<Rightarrow> 'v memKV" where
  "memKV_set kv k v =
     (let kv = (case vals kv k of
                  None \<Rightarrow> let i = fst (binary_search (keys kv) k)
                          in kv\<lparr>keys := take i (keys kv) @ k # drop i (keys kv)\<rparr>
                | Some _ \<Rightarrow> kv)
      in kv\<lparr>vals := (vals kv)(k \<mapsto> v)\<rparr>)"

definition memKV_delete :: "'v memKV \<Rightarrow> gostring \<Rightarrow> 'v memKV" where
  "memKV_delete kv k =
     (case vals kv k of
        None \<Rightarrow> kv
      | Some _ \<Rightarrow>
          (let kv = kv\<lparr>vals := (vals kv)(k := None)\<rparr>; i = fst (binary_search (keys kv) k)
           in kv\<lparr>keys := take i (keys kv) @ drop (i + 1) (keys kv)\<rparr>))"

text \<open>The rows a scan visits, in order, and the visiting loop.\<close>

definition memKV_rows :: "'v memKV \<Rightarrow> gostring \<Rightarrow> (gostring \<times> 'v option) list" where
  "memKV_rows kv from =
     (let i = fst (binary_search (keys kv) from)
      in map (\<lambda>k. (k, vals kv k)) (drop i (keys kv)))"

fun scan_rows ::
    "(gostring \<times> 'v option) list \<Rightarrow> (gostring \<Rightarrow> 'v option \<Rightarrow> 's \<Rightarrow> 's \<times> bool) \<Rightarrow> 's \<Rightarrow> 's" where
  "scan_rows [] fn s = s"
| "scan_rows ((k, v) # rows) fn s =
     (let (s', cont) = fn k v s in if cont then scan_rows rows fn s' else s')"

definition memKV_scan ::
    "'v memKV \<Rightarrow> gostring \<Rightarrow> (gostring \<Rightarrow> 'v option \<Rightarrow> 's \<Rightarrow> 's \<times> bool) \<Rightarrow> 's \<Rightarrow> 's" where
  "memKV_scan kv from fn s = scan_rows (memKV_rows kv from) fn s"

section \<open>txKV\<close>

record 'v undoOp =
  uo_key :: gostring
  uo_prior :: "'v option"
  uo_existed :: bool

record 'v txKV =
  tx_mem :: "'v memKV"
  tx_undo :: "'v undoOp list"
  tx_dirtyKeys :: "gostring list"
  tx_dirty :: "gostring set"

definition newTxKV :: "'v txKV" where
  "newTxKV = \<lparr>tx_mem = newMemKV, tx_undo = [], tx_dirtyKeys = [], tx_dirty = {}\<rparr>"

definition tx_reset :: "'v txKV \<Rightarrow> 'v txKV" where
  "tx_reset t = t\<lparr>tx_undo := [], tx_dirtyKeys := [], tx_dirty := {}\<rparr>"

definition tx_record :: "'v txKV \<Rightarrow> gostring \<Rightarrow> 'v txKV" where
  "tx_record t k =
     (let prior = memKV_get (tx_mem t) k;
          t = t\<lparr>tx_undo := tx_undo t @ [\<lparr>uo_key = k, uo_prior = prior, uo_existed = (prior \<noteq> None)\<rparr>]\<rparr>
      in if k \<notin> tx_dirty t
         then t\<lparr>tx_dirty := insert k (tx_dirty t), tx_dirtyKeys := tx_dirtyKeys t @ [k]\<rparr>
         else t)"

definition tx_set :: "'v txKV \<Rightarrow> gostring \<Rightarrow> 'v \<Rightarrow> 'v txKV" where
  "tx_set t k v = (let t = tx_record t k in t\<lparr>tx_mem := memKV_set (tx_mem t) k v\<rparr>)"

definition tx_delete :: "'v txKV \<Rightarrow> gostring \<Rightarrow> 'v txKV" where
  "tx_delete t k = (let t = tx_record t k in t\<lparr>tx_mem := memKV_delete (tx_mem t) k\<rparr>)"

definition tx_get :: "'v txKV \<Rightarrow> gostring \<Rightarrow> 'v option" where
  "tx_get t k = memKV_get (tx_mem t) k"

definition tx_rows :: "'v txKV \<Rightarrow> gostring \<Rightarrow> (gostring \<times> 'v option) list" where
  "tx_rows t from = memKV_rows (tx_mem t) from"

definition tx_scan ::
    "'v txKV \<Rightarrow> gostring \<Rightarrow> (gostring \<Rightarrow> 'v option \<Rightarrow> 's \<Rightarrow> 's \<times> bool) \<Rightarrow> 's \<Rightarrow> 's" where
  "tx_scan t from fn s = memKV_scan (tx_mem t) from fn s"

definition undo_op :: "'v undoOp \<Rightarrow> 'v memKV \<Rightarrow> 'v memKV" where
  "undo_op op m =
     (case uo_prior op of
        Some v \<Rightarrow> if uo_existed op then memKV_set m (uo_key op) v else memKV_delete m (uo_key op)
      | None \<Rightarrow> memKV_delete m (uo_key op))"

text \<open>Newest mutation first: the undo log is walked from its end.\<close>

definition tx_rollback :: "'v txKV \<Rightarrow> 'v txKV" where
  "tx_rollback t = t\<lparr>tx_mem := fold undo_op (rev (tx_undo t)) (tx_mem t), tx_undo := []\<rparr>"

section \<open>Binary search finds the insertion point\<close>

definition splits_at :: "gostring list \<Rightarrow> gostring \<Rightarrow> nat \<Rightarrow> nat \<Rightarrow> bool" where
  "splits_at xs t i j \<longleftrightarrow> i \<le> j \<and> j \<le> length xs \<and> (\<forall>h < i. xs ! h < t) \<and>
     (\<forall>h. j \<le> h \<longrightarrow> h < length xs \<longrightarrow> t \<le> xs ! h)"

lemma splits_at_halve:
  assumes "sorted_wrt (<) xs" and "splits_at xs t i j" and "i < j"
  shows "if xs ! ((i + j) div 2) < t then splits_at xs t ((i + j) div 2 + 1) j
         else splits_at xs t i ((i + j) div 2)"
proof -
  let ?h = "(i + j) div 2"
  have h: "i \<le> ?h" "?h < j" "?h < length xs"
    using assms(2,3) by (auto simp: splits_at_def)
  have mono: "xs ! a \<le> xs ! b" if "a \<le> b" "b < length xs" for a b
    using that assms(1) by (cases "a = b") (auto simp: sorted_wrt_iff_nth_less intro: less_imp_le)
  show ?thesis
  proof (cases "xs ! ?h < t")
    case True
    have "xs ! a < t" if "a < ?h + 1" for a
      using mono [of a ?h] True that h(3) by simp
    with True assms(2) h show ?thesis by (simp add: splits_at_def)
  next
    case False
    have "t \<le> xs ! a" if "?h \<le> a" "a < length xs" for a
      using mono [of ?h a] False that by simp
    with False assms(2) h show ?thesis by (simp add: splits_at_def)
  qed
qed

lemma binary_search_loop_splits:
  assumes "sorted_wrt (<) xs" and "splits_at xs t i j"
  shows "\<exists>r. binary_search_loop xs t i j = r \<and> splits_at xs t r r"
  using assms
proof (induction xs t i j rule: binary_search_loop.induct)
  case (1 xs t i j)
  show ?case
  proof (cases "i < j")
    case True
    with splits_at_halve [OF 1(3,4) True] 1(1) [OF True refl] 1(2) [OF True refl] 1(3)
    show ?thesis by (subst binary_search_loop.simps) (auto simp: Let_def split: if_splits)
  next
    case False
    with 1(4) have "i = j" by (simp add: splits_at_def)
    with 1(4) show ?thesis by (subst binary_search_loop.simps) simp
  qed
qed

lemma binary_search_splits:
  "sorted_wrt (<) xs \<Longrightarrow> splits_at xs t (fst (binary_search xs t)) (fst (binary_search xs t))"
  using binary_search_loop_splits [of xs t 0 "length xs"]
  by (simp add: binary_search_def splits_at_def Let_def)

lemma binary_search_take:
  assumes "sorted_wrt (<) xs"
  shows "take (fst (binary_search xs t)) xs = filter (\<lambda>x. x < t) xs"
    and "drop (fst (binary_search xs t)) xs = filter (\<lambda>x. t \<le> x) xs"
proof -
  let ?r = "fst (binary_search xs t)"
  have r: "?r \<le> length xs" and lo: "\<forall>h < ?r. xs ! h < t"
    and hi: "\<forall>h. ?r \<le> h \<longrightarrow> h < length xs \<longrightarrow> t \<le> xs ! h"
    using binary_search_splits [OF assms, of t] by (auto simp: splits_at_def)
  have tk: "\<forall>x \<in> set (take ?r xs). x < t"
    using lo r by (auto simp: in_set_conv_nth)
  have dr: "\<forall>x \<in> set (drop ?r xs). t \<le> x"
    using hi r by (auto simp: in_set_conv_nth)
  have "filter (\<lambda>x. x < t) (take ?r xs @ drop ?r xs) = take ?r xs"
    unfolding filter_append using tk dr by (auto simp: filter_empty_conv not_less)
  then show "take ?r xs = filter (\<lambda>x. x < t) xs" by simp
  have "filter (\<lambda>x. t \<le> x) (take ?r xs @ drop ?r xs) = drop ?r xs"
    unfolding filter_append using tk dr by (auto simp: filter_empty_conv not_le)
  then show "drop ?r xs = filter (\<lambda>x. t \<le> x) xs" by simp
qed

section \<open>The invariant of memKV\<close>

definition memKV_inv :: "'v memKV \<Rightarrow> bool" where
  "memKV_inv kv \<longleftrightarrow> sorted_wrt (<) (keys kv) \<and> set (keys kv) = dom (vals kv)"

lemma sorted_wrt_less_iff: "sorted_wrt (<) (xs :: gostring list) \<longleftrightarrow> sorted xs \<and> distinct xs"
  by (rule strict_sorted_iff)

lemma memKV_keys: "memKV_inv kv \<Longrightarrow> keys kv = sorted_list_of_set (dom (vals kv))"
  by (metis memKV_inv_def sorted_wrt_less_iff sorted_list_of_set.idem_if_sorted_distinct)

lemma memKV_inv_finite: "memKV_inv kv \<Longrightarrow> finite (dom (vals kv))"
  by (metis List.finite_set memKV_inv_def)

text \<open>The key slice is determined by the map, so equal maps are equal stores.\<close>

lemma memKV_eqI: "memKV_inv a \<Longrightarrow> memKV_inv b \<Longrightarrow> vals a = vals b \<Longrightarrow> a = (b :: 'v memKV)"
  by (cases a, cases b) (metis memKV.select_convs memKV_keys)

lemma newMemKV_inv [simp]: "memKV_inv newMemKV"
  by (simp add: memKV_inv_def newMemKV_def)

lemma vals_newMemKV [simp]: "vals newMemKV = Map.empty"
  by (simp add: newMemKV_def)

lemma memKV_get_eq: "memKV_get kv = vals kv"
  by (simp add: memKV_get_def fun_eq_iff)

lemma vals_memKV_set [simp]: "vals (memKV_set kv k v) = (vals kv)(k \<mapsto> v)"
  by (auto simp: memKV_set_def Let_def split: option.splits)

lemma vals_memKV_delete [simp]: "vals (memKV_delete kv k) = (vals kv)(k := None)"
  by (auto simp: memKV_delete_def Let_def fun_upd_idem split: option.splits)

lemma memKV_set_inv [simp]:
  assumes "memKV_inv kv"
  shows "memKV_inv (memKV_set kv k v)"
proof (cases "vals kv k")
  case None
  with assms have k: "k \<notin> set (keys kv)" and so: "sorted_wrt (<) (keys kv)"
    by (auto simp: memKV_inv_def)
  have ks: "keys (memKV_set kv k v) =
      filter (\<lambda>x. x < k) (keys kv) @ k # filter (\<lambda>x. k \<le> x) (keys kv)"
    by (simp add: memKV_set_def Let_def None binary_search_take [OF so])
  have "sorted_wrt (<) (keys (memKV_set kv k v))"
    unfolding ks sorted_wrt_append using so k
    by (auto simp: sorted_wrt_filter order.strict_iff_order)
  moreover have "set (keys (memKV_set kv k v)) = insert k (set (keys kv))"
    unfolding ks by auto
  ultimately show ?thesis using assms by (simp add: memKV_inv_def)
next
  case (Some v')
  with assms show ?thesis by (auto simp: memKV_set_def memKV_inv_def Let_def)
qed

lemma filter_ge_split:
  "sorted_wrt (<) xs \<Longrightarrow> k \<in> set xs \<Longrightarrow> filter (\<lambda>x. k \<le> x) xs = k # filter (\<lambda>x. k < x) (xs :: gostring list)"
proof (induction xs)
  case Nil
  then show ?case by simp
next
  case (Cons a xs)
  show ?case
  proof (cases "a = k")
    case True
    with Cons.prems have "\<forall>x \<in> set xs. k < x" by simp
    then have "filter (\<lambda>x. k \<le> x) xs = filter (\<lambda>x. k < x) xs"
      by (intro filter_cong) (auto intro: less_imp_le)
    with True show ?thesis by simp
  next
    case False
    with Cons.prems have "a < k" by auto
    with False Cons show ?thesis by auto
  qed
qed

lemma memKV_delete_inv [simp]:
  assumes "memKV_inv kv"
  shows "memKV_inv (memKV_delete kv k)"
proof (cases "vals kv k")
  case None
  with assms show ?thesis by (simp add: memKV_delete_def)
next
  case (Some v)
  with assms have k: "k \<in> set (keys kv)" and so: "sorted_wrt (<) (keys kv)"
    by (auto simp: memKV_inv_def)
  let ?i = "fst (binary_search (keys kv) k)"
  note split = filter_ge_split [OF so k]
  then have "drop (?i + 1) (keys kv) = filter (\<lambda>x. k < x) (keys kv)"
    using binary_search_take(2) [OF so, of k] by (simp add: drop_Suc drop_tl)
  then have ks: "keys (memKV_delete kv k) = filter (\<lambda>x. x < k) (keys kv) @ filter (\<lambda>x. k < x) (keys kv)"
    by (simp add: memKV_delete_def Let_def Some binary_search_take(1) [OF so])
  have "sorted_wrt (<) (keys (memKV_delete kv k))"
    unfolding ks sorted_wrt_append using so by (auto simp: sorted_wrt_filter)
  moreover have "set (keys (memKV_delete kv k)) = set (keys kv) - {k}"
    unfolding ks by auto
  ultimately show ?thesis using assms by (auto simp: memKV_inv_def)
qed

lemma memKV_rows_eq:
  assumes "memKV_inv kv"
  shows "memKV_rows kv from =
    map (\<lambda>k. (k, vals kv k)) (sorted_list_of_set {k \<in> dom (vals kv). from \<le> k})"
proof -
  have so: "sorted_wrt (<) (keys kv)" and dm: "set (keys kv) = dom (vals kv)"
    using assms by (auto simp: memKV_inv_def)
  let ?f = "filter (\<lambda>x. from \<le> x) (keys kv)"
  have "sorted ?f" "distinct ?f" using so by (auto simp: sorted_wrt_less_iff sorted_wrt_filter)
  then have "sorted_list_of_set (set ?f) = ?f"
    by (rule sorted_list_of_set.idem_if_sorted_distinct)
  moreover have "set ?f = {k \<in> dom (vals kv). from \<le> k}" by (auto simp: dm)
  ultimately show ?thesis
    by (simp add: memKV_rows_def Let_def binary_search_take(2) [OF so])
qed

section \<open>Scans that stop at the end of a prefix\<close>

lemma scan_rows_takeWhile:
  assumes "\<And>k v s. \<not> P k \<Longrightarrow> fn k v s = (s, False)"
  shows "scan_rows rows fn s = scan_rows (takeWhile (\<lambda>r. P (fst r)) rows) fn s"
proof (induction rows arbitrary: s)
  case Nil
  then show ?case by simp
next
  case (Cons r rows)
  then show ?case using assms by (cases r) (auto split: prod.splits)
qed

text \<open>A closure that collects a value from every row it visits.\<close>

lemma scan_rows_collect:
  assumes "\<And>k v s. (k, v) \<in> set rows \<Longrightarrow> fn k v s = (s @ g k v, True)"
  shows "scan_rows rows fn s = s @ concat (map (\<lambda>(k, v). g k v) rows)"
  using assms
proof (induction rows arbitrary: s)
  case Nil
  then show ?case by simp
next
  case (Cons r rows)
  then show ?case by (cases r) simp
qed

lemma takeWhile_prefix_sorted:
  assumes "finite A"
  shows "takeWhile (\<lambda>k. prefix p k) (sorted_list_of_set {k \<in> A. p \<le> k}) =
    sorted_list_of_set {k \<in> A. prefix p (k :: gostring)}"
proof -
  let ?xs = "sorted_list_of_set {k \<in> A. p \<le> k}"
  have so: "sorted_wrt (<) ?xs" by (rule strict_sorted_list_of_set)
  have set: "set ?xs = {k \<in> A. p \<le> k}" using assms by simp
  have tw: "takeWhile (\<lambda>k. prefix p k) xs = filter (\<lambda>k. prefix p k) xs"
    if "sorted_wrt (<) xs" and "\<forall>x \<in> set xs. p \<le> x" for xs
    using that
  proof (induction xs)
    case Nil
    then show ?case by simp
  next
    case (Cons x xs)
    show ?case
    proof (cases "prefix p x")
      case True
      with Cons show ?thesis by simp
    next
      case False
      have "\<not> prefix p y" if "y \<in> set xs" for y
        using Cons.prems that False prefix_convex [of p x y] by (auto intro: less_imp_le)
      with False show ?thesis by (simp add: filter_empty_conv)
    qed
  qed
  have "takeWhile (\<lambda>k. prefix p k) ?xs = filter (\<lambda>k. prefix p k) ?xs"
    using so set by (intro tw) auto
  also have "\<dots> = sorted_list_of_set (set (filter (\<lambda>k. prefix p k) ?xs))"
    using so by (intro sorted_list_of_set.idem_if_sorted_distinct [symmetric])
      (auto simp: sorted_wrt_less_iff sorted_wrt_filter)
  also have "set (filter (\<lambda>k. prefix p k) ?xs) = {k \<in> A. prefix p k}"
    using set prefix_imp_le by auto
  finally show ?thesis .
qed

section \<open>The interface of an ordered store\<close>

locale ordered_kv =
  fixes get :: "'kv \<Rightarrow> gostring \<Rightarrow> 'v option"
    and set' :: "'kv \<Rightarrow> gostring \<Rightarrow> 'v \<Rightarrow> 'kv"
    and delete :: "'kv \<Rightarrow> gostring \<Rightarrow> 'kv"
    and rows :: "'kv \<Rightarrow> gostring \<Rightarrow> (gostring \<times> 'v option) list"
    and inv :: "'kv \<Rightarrow> bool"
  assumes inv_set: "inv kv \<Longrightarrow> inv (set' kv k v)"
    and inv_delete: "inv kv \<Longrightarrow> inv (delete kv k)"
    and get_set: "get (set' kv k v) = (get kv)(k \<mapsto> v)"
    and get_delete: "get (delete kv k) = (get kv)(k := None)"
    and finite_rows: "inv kv \<Longrightarrow> finite (dom (get kv))"
    and rows_eq: "inv kv \<Longrightarrow>
      rows kv from = map (\<lambda>k. (k, get kv k)) (sorted_list_of_set {k \<in> dom (get kv). from \<le> k})"
begin

lemma rows_prefix:
  assumes "inv kv"
  shows "takeWhile (\<lambda>r. prefix p (fst r)) (rows kv p) =
    map (\<lambda>k. (k, get kv k)) (sorted_list_of_set {k \<in> dom (get kv). prefix p k})"
  unfolding rows_eq [OF assms] takeWhile_map
  using takeWhile_prefix_sorted [OF finite_rows [OF assms]] by (simp add: comp_def)

text \<open>The first row from a prefix on: the smallest key with that prefix, if there is one.\<close>

lemma first_row_prefix:
  assumes "inv kv" and "m \<in> dom (get kv)" and "prefix p m"
    and "\<And>k. k \<in> dom (get kv) \<Longrightarrow> prefix p k \<Longrightarrow> m \<le> k"
  shows "\<exists>rest. rows kv p = (m, get kv m) # rest"
proof -
  let ?A = "{k \<in> dom (get kv). p \<le> k}"
  have fin: "finite ?A" using finite_rows [OF assms(1)] by simp
  have m: "m \<in> ?A" using assms(2,3) prefix_imp_le by auto
  have "m \<le> k" if "k \<in> ?A" for k
  proof (cases "prefix p k")
    case True
    with that assms(4) show ?thesis by auto
  next
    case False
    with that less_not_prefix [of p k m] assms(3) show ?thesis by (auto intro: less_imp_le)
  qed
  with m fin have "Min ?A = m" by (intro Min_eqI) auto
  with m fin have "sorted_list_of_set ?A = m # sorted_list_of_set (?A - {m})"
    using sorted_list_of_set_nonempty [of ?A] by auto
  then show ?thesis by (simp add: rows_eq [OF assms(1)])
qed

lemma no_row_prefix:
  assumes "inv kv" and "\<And>k. k \<in> dom (get kv) \<Longrightarrow> \<not> prefix p k"
  shows "rows kv p = [] \<or> (\<exists>k v rest. rows kv p = (k, v) # rest \<and> \<not> prefix p k)"
proof (cases "rows kv p")
  case (Cons r rest)
  then have "r \<in> set (rows kv p)" by simp
  then have "fst r \<in> dom (get kv)"
    using finite_rows [OF assms(1)] by (auto simp: rows_eq [OF assms(1)])
  with assms(2) Cons show ?thesis by (cases r) auto
qed simp

end

interpretation mem: ordered_kv memKV_get memKV_set memKV_delete memKV_rows memKV_inv
  by unfold_locales (simp_all add: memKV_get_eq memKV_inv_finite memKV_rows_eq)

section \<open>Transactions over a store\<close>

abbreviation tx_inv :: "'v txKV \<Rightarrow> bool" where
  "tx_inv t \<equiv> memKV_inv (tx_mem t)"

lemma tx_mem_record [simp]: "tx_mem (tx_record t k) = tx_mem t"
  by (simp add: tx_record_def Let_def)

lemma tx_mem_set [simp]: "tx_mem (tx_set t k v) = memKV_set (tx_mem t) k v"
  by (simp add: tx_set_def Let_def)

lemma tx_mem_delete [simp]: "tx_mem (tx_delete t k) = memKV_delete (tx_mem t) k"
  by (simp add: tx_delete_def Let_def)

lemma tx_mem_reset [simp]: "tx_mem (tx_reset t) = tx_mem t"
  by (simp add: tx_reset_def)

lemma tx_get_eq: "tx_get t = vals (tx_mem t)"
  by (simp add: tx_get_def memKV_get_def fun_eq_iff)

lemma tx_get_set [simp, kv_simps]: "tx_get (tx_set t k v) = (tx_get t)(k \<mapsto> v)"
  by (auto simp: tx_get_def memKV_get_def fun_eq_iff)

lemma tx_get_delete [simp, kv_simps]: "tx_get (tx_delete t k) = (tx_get t)(k := None)"
  by (auto simp: tx_get_def memKV_get_def fun_eq_iff)

lemma tx_get_reset [simp]: "tx_get (tx_reset t) = tx_get t"
  by (simp add: tx_get_def fun_eq_iff)

interpretation tx: ordered_kv tx_get tx_set tx_delete tx_rows tx_inv
  by unfold_locales (simp_all add: tx_get_eq tx_rows_def memKV_inv_finite memKV_rows_eq)

lemma tx_scan_eq: "tx_scan t from fn s = scan_rows (tx_rows t from) fn s"
  by (simp add: tx_scan_def memKV_scan_def tx_rows_def)

lemma scan_rows_cong:
  assumes "\<And>k v s. (k, v) \<in> set rows \<Longrightarrow> f k v s = g k v s"
  shows "scan_rows rows f s = scan_rows rows g s"
  using assms
proof (induction rows arbitrary: s)
  case (Cons r rows)
  then show ?case by (cases r) (simp split: prod.splits)
qed simp

text \<open>
  A scan from a prefix whose closure stops outside the prefix visits exactly the rows with
  that prefix, in key order.
\<close>

definition prefix_rows :: "'v txKV \<Rightarrow> gostring \<Rightarrow> (gostring \<times> 'v option) list" where
  "prefix_rows t p = map (\<lambda>k. (k, tx_get t k)) (sorted_list_of_set {k \<in> dom (tx_get t). prefix p k})"

lemma finite_prefix_keys: "tx_inv t \<Longrightarrow> finite {k \<in> dom (tx_get t). prefix p k}"
  using memKV_inv_finite [of "tx_mem t"] by (simp add: tx_get_eq)

lemma set_prefix_rows:
  "tx_inv t \<Longrightarrow> set (prefix_rows t p) = {(k, tx_get t k) |k. k \<in> dom (tx_get t) \<and> prefix p k}"
  using finite_prefix_keys [of t p] by (auto simp: prefix_rows_def)

lemma tx_scan_prefix:
  assumes "tx_inv t"
    and "\<And>k v s. \<not> prefix p k \<Longrightarrow> fn k v s = (s, False)"
    and "\<And>k v s. (k, v) \<in> set (prefix_rows t p) \<Longrightarrow> fn k v s = gn k v s"
  shows "tx_scan t p fn s = scan_rows (prefix_rows t p) gn s"
proof -
  have "tx_scan t p fn s = scan_rows (takeWhile (\<lambda>r. prefix p (fst r)) (tx_rows t p)) fn s"
    unfolding tx_scan_eq by (rule scan_rows_takeWhile) (rule assms(2))
  also have "\<dots> = scan_rows (prefix_rows t p) fn s"
    by (simp only: tx.rows_prefix [OF assms(1)] prefix_rows_def)
  also have "\<dots> = scan_rows (prefix_rows t p) gn s"
    by (rule scan_rows_cong) (rule assms(3))
  finally show ?thesis .
qed

text \<open>Sorting the image of a set under a monotone or antitone encoding.\<close>

lemma sorted_list_of_set_image_mono:
  fixes f :: "'a :: linorder \<Rightarrow> 'b :: linorder"
  assumes "finite A" and "\<And>x y. x \<in> A \<Longrightarrow> y \<in> A \<Longrightarrow> x < y \<Longrightarrow> f x < f y"
  shows "sorted_list_of_set (f ` A) = map f (sorted_list_of_set A)"
proof -
  have "inj_on f A" using assms(2) by (metis inj_onI linorder_less_linear order_less_irrefl)
  moreover have "sorted_wrt (<) (map f (sorted_list_of_set A))"
    unfolding sorted_wrt_map
    by (rule sorted_wrt_mono_rel [OF _ sorted_list_of_set.strict_sorted_key_list_of_set]) (use assms in auto)
  ultimately show ?thesis
    using sorted_list_of_set_unique [of "f ` A" "map f (sorted_list_of_set A)"] assms(1)
    by (auto simp: card_image)
qed

lemma sorted_list_of_set_image_antimono:
  fixes f :: "'a :: linorder \<Rightarrow> 'b :: linorder"
  assumes "finite A" and "\<And>x y. x \<in> A \<Longrightarrow> y \<in> A \<Longrightarrow> x < y \<Longrightarrow> f y < f x"
  shows "sorted_list_of_set (f ` A) = map f (rev (sorted_list_of_set A))"
proof -
  have "inj_on f A" using assms(2) by (metis inj_onI linorder_less_linear order_less_irrefl)
  moreover have "sorted_wrt (<) (map f (rev (sorted_list_of_set A)))"
    unfolding sorted_wrt_map sorted_wrt_rev
    by (rule sorted_wrt_mono_rel [OF _ sorted_list_of_set.strict_sorted_key_list_of_set]) (use assms in auto)
  ultimately show ?thesis
    using sorted_list_of_set_unique [of "f ` A" "map f (rev (sorted_list_of_set A))"] assms(1)
    by (auto simp: card_image)
qed

text \<open>
  The undo log takes the store back: \<open>undoes m t\<close> says that rolling \<open>t\<close> back yields
  \<open>m\<close>, and that only dirty keys differ from \<open>m\<close>.
\<close>

definition undoes :: "'v memKV \<Rightarrow> 'v txKV \<Rightarrow> bool" where
  "undoes m t \<longleftrightarrow> fold undo_op (rev (tx_undo t)) (tx_mem t) = m \<and> tx_inv t \<and>
     set (tx_dirtyKeys t) = tx_dirty t \<and> distinct (tx_dirtyKeys t) \<and>
     (\<forall>k. k \<notin> tx_dirty t \<longrightarrow> tx_get t k = vals m k)"

lemma undoes_reset [simp]: "tx_inv t \<Longrightarrow> undoes (tx_mem t) (tx_reset t)"
  by (simp add: undoes_def tx_reset_def tx_get_def memKV_get_def)

lemma undo_op_recorded:
  assumes "memKV_inv m"
  shows "undo_op \<lparr>uo_key = k, uo_prior = memKV_get m k, uo_existed = (memKV_get m k \<noteq> None)\<rparr> (memKV_set m k v) = m"
    and "undo_op \<lparr>uo_key = k, uo_prior = memKV_get m k, uo_existed = (memKV_get m k \<noteq> None)\<rparr> (memKV_delete m k) = m"
  using assms by (auto simp: undo_op_def memKV_get_def fun_eq_iff intro!: memKV_eqI split: option.splits)

lemma undoes_set [simp]:
  assumes "undoes m t"
  shows "undoes m (tx_set t k v)"
  using assms undo_op_recorded(1) [of "tx_mem t" k v]
  by (auto simp: undoes_def tx_set_def tx_record_def tx_get_def memKV_get_def Let_def)

lemma undoes_delete [simp]:
  assumes "undoes m t"
  shows "undoes m (tx_delete t k)"
  using assms undo_op_recorded(2) [of "tx_mem t" k]
  by (auto simp: undoes_def tx_delete_def tx_record_def tx_get_def memKV_get_def Let_def)

lemma undoes_rollback: "undoes m t \<Longrightarrow> tx_mem (tx_rollback t) = m"
  by (simp add: undoes_def tx_rollback_def)

lemma undoes_inv: "undoes m t \<Longrightarrow> tx_inv t"
  by (simp add: undoes_def)

end
