(* ===== verification/Go_Time.thy ===== *)
theory Go_Time
  imports Hamster_Prelude
begin

text \<open>
  The part of Go's \<^verbatim>\<open>time\<close> package that retention defaults use: a UTC instant in Unix
  milliseconds is split into a civil date and a time of day, \<^verbatim>\<open>AddDate\<close> adds calendar years
  and days to the date, and the result is an instant again. The calendar is the proleptic
  Gregorian one; day numbers count from 0001-01-01, and the split works by cycles of 400,
  100, 4 and 1 years. A date whose day is beyond its month is normalised by counting days
  on from the first of the month, as \<^verbatim>\<open>time.Date\<close> does.
\<close>

definition is_leap :: "int \<Rightarrow> bool" where
  "is_leap y \<longleftrightarrow> y mod 4 = 0 \<and> (y mod 100 \<noteq> 0 \<or> y mod 400 = 0)"

text \<open>Days from 0001-01-01 to 1 January of year \<open>y\<close>.\<close>

definition days_before_year :: "int \<Rightarrow> int" where
  "days_before_year y = 365 * (y - 1) + (y - 1) div 4 - (y - 1) div 100 + (y - 1) div 400"

text \<open>Days of a common year before month \<open>i\<close> (from 0; the last entry ends the year).\<close>

definition days_before_month :: "nat \<Rightarrow> int" where
  "days_before_month i =
     (let t = [0, 31, 59, 90, 120, 151, 181, 212, 243, 273, 304, 334, 365]
      in if i < 13 then t ! i else 365)"

definition day_number :: "int \<Rightarrow> nat \<Rightarrow> int \<Rightarrow> int" where
  "day_number y m d = days_before_year y + days_before_month (m - 1)
     + (if is_leap y \<and> 3 \<le> m then 1 else 0) + (d - 1)"

definition year_and_yday :: "int \<Rightarrow> int \<times> int" where
  "year_and_yday z =
     (let n400 = z div 146097; d = z mod 146097;
          n100 = min 3 (d div 36524); d = d - 36524 * n100;
          n4 = d div 1461; d = d - 1461 * n4;
          n1 = min 3 (d div 365); d = d - 365 * n1
      in (400 * n400 + 100 * n100 + 4 * n4 + n1 + 1, d))"

definition month_and_day :: "bool \<Rightarrow> int \<Rightarrow> nat \<times> int" where
  "month_and_day leap yday =
     (if leap \<and> yday = 59 then (2, 29)
      else let day = (if leap \<and> yday > 59 then yday - 1 else yday);
               month = nat (day div 31);
               month = (if day \<ge> days_before_month (month + 1) then month + 1 else month)
           in (month + 1, day - days_before_month month + 1))"

definition ms_per_day :: int where
  "ms_per_day = 86400000"

definition unix_epoch_day :: int where
  "unix_epoch_day = day_number 1970 1 1"

text \<open>\<^verbatim>\<open>time.UnixMilli(at).UTC().AddDate(years, 0, days).UnixMilli()\<close>, before the cut to 64 bits.\<close>

definition add_date :: "int \<Rightarrow> int \<Rightarrow> int \<Rightarrow> int" where
  "add_date at years days =
     (let z = at div ms_per_day + unix_epoch_day; clock = at mod ms_per_day;
          (y, yday) = year_and_yday z;
          (m, d) = month_and_day (is_leap y) yday
      in (day_number (y + years) m (d + days) - unix_epoch_day) * ms_per_day + clock)"

section \<open>Splitting and joining a date\<close>

lemma div_cycle: "0 \<le> r \<Longrightarrow> r < k \<Longrightarrow> (k * q + r) div k = (q :: int)"
  by (simp add: add.commute)

lemma days_before_year_step: "days_before_year y + 365 \<le> days_before_year (y + 1)"
proof -
  have "y div 100 - (y - 1) div 100 \<le> y div 4 - (y - 1) div 4"
  proof (cases "y mod 100 = 0")
    case True
    then obtain q where q: "y = 100 * q" by (metis mod_0_imp_dvd dvdE)
    have "(y - 1) div 100 = q - 1" using div_cycle [of 99 100 "q - 1"] by (simp add: q algebra_simps)
    moreover have "(y - 1) div 4 = 25 * q - 1"
      using div_cycle [of 3 4 "25 * q - 1"] by (simp add: q algebra_simps)
    ultimately show ?thesis by (simp add: q)
  next
    case False
    define q r where "q = y div 100" and "r = y mod 100"
    have y: "y = 100 * q + r" and r: "0 < r" "r < 100"
      using False pos_mod_sign [of 100 y] by (auto simp: q_def r_def order.strict_iff_order)
    have "(y - 1) div 100 = q" using div_cycle [of "r - 1" 100 q] r by (simp add: y)
    moreover have "(y - 1) div 4 \<le> y div 4" by (rule zdiv_mono1) auto
    ultimately show ?thesis by (simp add: q_def)
  qed
  moreover have "(y - 1) div 400 \<le> y div 400" by (rule zdiv_mono1) auto
  ultimately show ?thesis by (simp add: days_before_year_def)
qed

lemma year_and_yday:
  assumes "year_and_yday z = (y, yday)"
  shows "days_before_year y + yday = z" and "0 \<le> yday" and "yday \<le> 365"
proof -
  define a r where "a = z div 146097" and "r = z mod 146097"
  have z: "z = 146097 * a + r" and r: "0 \<le> r" "r \<le> 146096"
    by (auto simp: a_def r_def)
  define n2 where "n2 = min 3 (r div 36524)"
  define r2 where "r2 = r - 36524 * n2"
  have n2: "0 \<le> n2" "n2 \<le> 3" and r2: "0 \<le> r2" "r2 \<le> 36524"
    using r unfolding n2_def r2_def by (auto simp: min_def)
  define n3 where "n3 = r2 div 1461"
  define r3 where "r3 = r2 - 1461 * n3"
  have n3: "0 \<le> n3" "n3 \<le> 24" and r3: "0 \<le> r3" "r3 \<le> 1460"
    using r2 unfolding n3_def r3_def by auto
  define n4 where "n4 = min 3 (r3 div 365)"
  define r4 where "r4 = r3 - 365 * n4"
  have n4: "0 \<le> n4" "n4 \<le> 3" and r4: "0 \<le> r4" "r4 \<le> 365"
    using r3 unfolding n4_def r4_def by (auto simp: min_def)
  have "year_and_yday z = (400 * a + 100 * n2 + 4 * n3 + n4 + 1, r4)"
    unfolding year_and_yday_def Let_def a_def [symmetric] r_def [symmetric] n2_def [symmetric]
      r2_def [symmetric] n3_def [symmetric] r3_def [symmetric] n4_def [symmetric]
      r4_def [symmetric] ..
  with assms have y: "y = 400 * a + 100 * n2 + 4 * n3 + n4 + 1" and yd: "yday = r4"
    by simp_all
  have e4: "y - 1 = 4 * (100 * a + 25 * n2 + n3) + n4"
    and e100: "y - 1 = 100 * (4 * a + n2) + (4 * n3 + n4)"
    and e400: "y - 1 = 400 * a + (100 * n2 + 4 * n3 + n4)"
    by (simp_all add: y)
  have "(y - 1) div 4 = 100 * a + 25 * n2 + n3"
    unfolding e4 using n4 by (intro div_cycle) auto
  moreover have "(y - 1) div 100 = 4 * a + n2"
    unfolding e100 using n3 n4 by (intro div_cycle) auto
  moreover have "(y - 1) div 400 = a"
    unfolding e400 using n2 n3 n4 by (intro div_cycle) auto
  ultimately show "days_before_year y + yday = z"
    unfolding days_before_year_def yd z r4_def r3_def r2_def y by simp
  show "0 \<le> yday" and "yday \<le> 365" using r4 yd by auto
qed

lemma month_and_day:
  assumes "month_and_day leap yday = (m, d)" and "0 \<le> yday" and "yday \<le> 365"
  shows "days_before_month (m - 1) + (if leap \<and> 3 \<le> m then 1 else 0) + (d - 1) = yday"
    and "1 \<le> m"
proof -
  show "1 \<le> m" using assms(1) by (auto simp: month_and_day_def Let_def split: if_splits)
  show "days_before_month (m - 1) + (if leap \<and> 3 \<le> m then 1 else 0) + (d - 1) = yday"
  proof (cases "leap \<and> yday = 59")
    case True
    with assms(1) show ?thesis by (simp add: month_and_day_def days_before_month_def)
  next
    case False
    define day where "day = (if leap \<and> yday > 59 then yday - 1 else yday)"
    have day: "0 \<le> day" "day \<le> 365" using assms(2,3) by (auto simp: day_def)
    define mo where "mo = nat (day div 31)"
    define mo' where "mo' = (if day \<ge> days_before_month (mo + 1) then mo + 1 else mo)"
    have md: "m = mo' + 1" "d = day - days_before_month mo' + 1"
      using assms(1) False
      by (simp_all only: month_and_day_def Let_def if_False day_def [symmetric] mo_def [symmetric]
          mo'_def [symmetric] prod.inject)
    have "mo < 12" using day by (simp add: mo_def)
    then have mo_cases: "mo \<in> {0, 1, 2, 3, 4, 5, 6, 7, 8, 9, 10, 11}" unfolding insert_iff empty_iff by presburger
    have mo_eq: "int mo = day div 31" using day by (simp add: mo_def)
    have "2 \<le> mo' \<longleftrightarrow> 59 \<le> day"
      using mo_cases mo_eq day by (auto simp: mo'_def days_before_month_def)
    with False show ?thesis unfolding md by (auto simp: day_def split: if_splits)
  qed
qed

text \<open>Adding days alone is exact: the calendar split and join cancel.\<close>

lemma add_date_days: "add_date at 0 days = at + days * ms_per_day"
proof -
  define z where "z = at div ms_per_day + unix_epoch_day"
  obtain y yday where yy: "year_and_yday z = (y, yday)" by fastforce
  obtain m d where md: "month_and_day (is_leap y) yday = (m, d)" by fastforce
  have "day_number y m (d + days) = z + days"
    using year_and_yday [OF yy] month_and_day [OF md] by (simp add: day_number_def)
  then have "add_date at 0 days = (at div ms_per_day + days) * ms_per_day + at mod ms_per_day"
    by (simp add: add_date_def Let_def z_def [symmetric] yy md) (simp add: z_def)
  also have "\<dots> = at + days * ms_per_day"
    by (simp add: algebra_simps)
  finally show ?thesis .
qed

text \<open>A positive number of years moves the instant forward by at least 365 days less one.\<close>

lemma days_before_year_years:
  "0 \<le> years \<Longrightarrow> days_before_year y + 365 * years \<le> days_before_year (y + years)"
proof (induction years rule: int_ge_induct)
  case base
  then show ?case by simp
next
  case (step i)
  have "days_before_year (y + i) + 365 \<le> days_before_year (y + i + 1)"
    by (rule days_before_year_step)
  with step show ?case by (simp add: algebra_simps)
qed

lemma add_date_years:
  assumes "0 < years"
  shows "at + (365 * years - 1) * ms_per_day \<le> add_date at years 0"
proof -
  define z where "z = at div ms_per_day + unix_epoch_day"
  obtain y yday where yy: "year_and_yday z = (y, yday)" by fastforce
  obtain m d where md: "month_and_day (is_leap y) yday = (m, d)" by fastforce
  have "day_number (y + years) m d \<ge> z + 365 * years - 1"
    using year_and_yday [OF yy] month_and_day [OF md] days_before_year_years [of years y] assms
    by (auto simp: day_number_def split: if_splits)
  then have "(z + 365 * years - 1 - unix_epoch_day) * ms_per_day
      \<le> (day_number (y + years) m d - unix_epoch_day) * ms_per_day"
    by (intro mult_right_mono) (simp_all add: ms_per_day_def)
  then have "(z + 365 * years - 1 - unix_epoch_day) * ms_per_day + at mod ms_per_day \<le> add_date at years 0"
    by (simp add: add_date_def Let_def z_def [symmetric] yy md)
  moreover have "(z + 365 * years - 1 - unix_epoch_day) * ms_per_day + at mod ms_per_day =
      at + (365 * years - 1) * ms_per_day"
    by (simp add: z_def algebra_simps)
  ultimately show ?thesis by simp
qed

end
