(* ===== verification/Meta_Records.thy ===== *)
theory Meta_Records
  imports Meta_KV Go_Time "HOL-Library.Finite_Map"
begin

text \<open>
  The record types of the keyspace (\<^verbatim>\<open>internal/meta/records.go\<close>).

  Every Go struct is a record with the struct's fields. The \<^verbatim>\<open>uint8\<close> enumerations stay
  bytes: a decoder accepts any value, and several checks of apply are about values outside
  the named constants. A Go map from strings to strings is a finite map. Copies that only
  break aliasing (\<^verbatim>\<open>clone\<close>, \<^verbatim>\<open>slices.Clone\<close>) are the identity on values.
\<close>

definition currentFormatVersion :: u32 where
  "currentFormatVersion = 1"

type_synonym kind = byte

definition KindObject :: kind where "KindObject = 0"
definition KindDeleteMarker :: kind where "KindDeleteMarker = 1"

type_synonym retention_mode = byte

definition RetentionNone :: retention_mode where "RetentionNone = 0"
definition RetentionGovernance :: retention_mode where "RetentionGovernance = 1"
definition RetentionCompliance :: retention_mode where "RetentionCompliance = 2"

type_synonym enc_algorithm = byte

definition EncNone :: enc_algorithm where "EncNone = 0"
definition EncAES256GCM :: enc_algorithm where "EncAES256GCM = 1"

type_synonym versioning_state = byte

definition Unversioned :: versioning_state where "Unversioned = 0"
definition VersioningEnabled :: versioning_state where "VersioningEnabled = 1"
definition VersioningSuspended :: versioning_state where "VersioningSuspended = 2"

lemmas enum_defs = KindObject_def KindDeleteMarker_def RetentionNone_def RetentionGovernance_def
  RetentionCompliance_def EncNone_def EncAES256GCM_def Unversioned_def VersioningEnabled_def
  VersioningSuspended_def

lemma enum_distinct [simp]:
  "KindObject \<noteq> KindDeleteMarker" "KindDeleteMarker \<noteq> KindObject"
  "RetentionNone \<noteq> RetentionGovernance" "RetentionGovernance \<noteq> RetentionNone"
  "RetentionNone \<noteq> RetentionCompliance" "RetentionCompliance \<noteq> RetentionNone"
  "RetentionGovernance \<noteq> RetentionCompliance" "RetentionCompliance \<noteq> RetentionGovernance"
  "EncNone \<noteq> EncAES256GCM" "EncAES256GCM \<noteq> EncNone"
  "Unversioned \<noteq> VersioningEnabled" "VersioningEnabled \<noteq> Unversioned"
  "Unversioned \<noteq> VersioningSuspended" "VersioningSuspended \<noteq> Unversioned"
  "VersioningEnabled \<noteq> VersioningSuspended" "VersioningSuspended \<noteq> VersioningEnabled"
  by (simp_all add: enum_defs)

type_synonym user_metadata = "(gostring, gostring) fmap"

section \<open>Object records\<close>

record PartRef =
  pf_DataID :: version_id
  pf_Size :: i64
  pf_Checksum :: bytes
  pf_Partition :: u64
  pf_ECDataShards :: u32
  pf_ECParityShards :: u32
  pf_ShardChecksums :: "bytes list"
  pf_EncAlgorithm :: enc_algorithm
  pf_WrappedDEK :: bytes
  pf_KEKFingerprint :: u64
  pf_unknown :: bytes

record VersionEntry =
  ve_FormatVersion :: u32
  ve_VersionID :: version_id
  ve_DataID :: version_id
  ve_Kind :: kind
  ve_Size :: i64
  ve_CreatedUnixMS :: i64
  ve_ETag :: bytes
  ve_ContentType :: gostring
  ve_UserMetadata :: user_metadata
  ve_Partition :: u64
  ve_ECDataShards :: u32
  ve_ECParityShards :: u32
  ve_ObjectChecksum :: bytes
  ve_ShardChecksums :: "bytes list"
  ve_RetentionMode :: retention_mode
  ve_RetainUntilUnixMS :: i64
  ve_LegalHold :: bool
  ve_EncAlgorithm :: enc_algorithm
  ve_WrappedDEK :: bytes
  ve_KEKFingerprint :: u64
  ve_NullVersion :: bool
  ve_Parts :: "PartRef list"
  ve_unknown :: bytes

text \<open>The zero values of the two structs.\<close>

definition PartRef_zero :: PartRef where
  "PartRef_zero = \<lparr>pf_DataID = 0, pf_Size = 0, pf_Checksum = [], pf_Partition = 0,
     pf_ECDataShards = 0, pf_ECParityShards = 0, pf_ShardChecksums = [], pf_EncAlgorithm = 0,
     pf_WrappedDEK = [], pf_KEKFingerprint = 0, pf_unknown = []\<rparr>"

definition VersionEntry_zero :: VersionEntry where
  "VersionEntry_zero = \<lparr>ve_FormatVersion = 0, ve_VersionID = 0, ve_DataID = 0, ve_Kind = 0,
     ve_Size = 0, ve_CreatedUnixMS = 0, ve_ETag = [], ve_ContentType = [],
     ve_UserMetadata = fmempty, ve_Partition = 0, ve_ECDataShards = 0, ve_ECParityShards = 0,
     ve_ObjectChecksum = [], ve_ShardChecksums = [], ve_RetentionMode = 0,
     ve_RetainUntilUnixMS = 0, ve_LegalHold = False, ve_EncAlgorithm = 0, ve_WrappedDEK = [],
     ve_KEKFingerprint = 0, ve_NullVersion = False, ve_Parts = [], ve_unknown = []\<rparr>"

definition DataIDs :: "VersionEntry \<Rightarrow> version_id list" where
  "DataIDs e =
     (if length (ve_Parts e) > 0 then map pf_DataID (ve_Parts e)
      else if vid_is_zero (ve_DataID e) then [] else [ve_DataID e])"

definition lockedAt :: "VersionEntry \<Rightarrow> i64 \<Rightarrow> bool \<Rightarrow> bool" where
  "lockedAt e atUnixMS bypassGovernance =
     (if ve_LegalHold e then True
      else if i64_le (ve_RetainUntilUnixMS e) atUnixMS then False
      else if ve_RetentionMode e = RetentionCompliance then True
      else if ve_RetentionMode e = RetentionGovernance then \<not> bypassGovernance
      else False)"

definition retainUntilFromDefault :: "i64 \<Rightarrow> u32 \<Rightarrow> u32 \<Rightarrow> i64" where
  "retainUntilFromDefault atUnixMS days years =
     word_of_int (add_date (sint atUnixMS) (uint years) (uint days))"

record CurrentRecord =
  cr_FormatVersion :: u32
  cr_VersionID :: version_id
  cr_Size :: i64
  cr_ETag :: bytes
  cr_CreatedUnixMS :: i64
  cr_PartCount :: u32
  cr_unknown :: bytes

definition CurrentRecord_zero :: CurrentRecord where
  "CurrentRecord_zero = \<lparr>cr_FormatVersion = 0, cr_VersionID = 0, cr_Size = 0, cr_ETag = [],
     cr_CreatedUnixMS = 0, cr_PartCount = 0, cr_unknown = []\<rparr>"

definition currentRecordFor :: "VersionEntry \<Rightarrow> CurrentRecord" where
  "currentRecordFor e = \<lparr>cr_FormatVersion = currentFormatVersion, cr_VersionID = ve_VersionID e,
     cr_Size = ve_Size e, cr_ETag = ve_ETag e, cr_CreatedUnixMS = ve_CreatedUnixMS e,
     cr_PartCount = word_of_nat (length (ve_Parts e)), cr_unknown = []\<rparr>"

record BucketConfig =
  bc_FormatVersion :: u32
  bc_Name :: gostring
  bc_CreatedUnixMS :: i64
  bc_Versioning :: versioning_state
  bc_ObjectLockEnabled :: bool
  bc_DefaultRetentionMode :: retention_mode
  bc_DefaultRetentionDays :: u32
  bc_DefaultRetentionYears :: u32
  bc_unknown :: bytes

definition BucketConfig_zero :: BucketConfig where
  "BucketConfig_zero = \<lparr>bc_FormatVersion = 0, bc_Name = [], bc_CreatedUnixMS = 0,
     bc_Versioning = 0, bc_ObjectLockEnabled = False, bc_DefaultRetentionMode = 0,
     bc_DefaultRetentionDays = 0, bc_DefaultRetentionYears = 0, bc_unknown = []\<rparr>"

record UploadRecord =
  ur_FormatVersion :: u32
  ur_UploadID :: version_id
  ur_CreatedUnixMS :: i64
  ur_ContentType :: gostring
  ur_UserMetadata :: user_metadata
  ur_unknown :: bytes

definition UploadRecord_zero :: UploadRecord where
  "UploadRecord_zero = \<lparr>ur_FormatVersion = 0, ur_UploadID = 0, ur_CreatedUnixMS = 0,
     ur_ContentType = [], ur_UserMetadata = fmempty, ur_unknown = []\<rparr>"

record PartRecord =
  pr_FormatVersion :: u32
  pr_PartNumber :: u32
  pr_DataID :: version_id
  pr_Size :: i64
  pr_ETag :: bytes
  pr_Checksum :: bytes
  pr_UploadedUnixMS :: i64
  pr_Partition :: u64
  pr_ECDataShards :: u32
  pr_ECParityShards :: u32
  pr_ShardChecksums :: "bytes list"
  pr_EncAlgorithm :: enc_algorithm
  pr_WrappedDEK :: bytes
  pr_KEKFingerprint :: u64
  pr_unknown :: bytes

definition PartRecord_zero :: PartRecord where
  "PartRecord_zero = \<lparr>pr_FormatVersion = 0, pr_PartNumber = 0, pr_DataID = 0, pr_Size = 0,
     pr_ETag = [], pr_Checksum = [], pr_UploadedUnixMS = 0, pr_Partition = 0,
     pr_ECDataShards = 0, pr_ECParityShards = 0, pr_ShardChecksums = [], pr_EncAlgorithm = 0,
     pr_WrappedDEK = [], pr_KEKFingerprint = 0, pr_unknown = []\<rparr>"

section \<open>System records\<close>

record LayoutNode =
  ln_ID :: gostring
  ln_Host :: gostring
  ln_Zone :: gostring
  ln_Weight :: u32
  ln_Draining :: bool

definition LayoutNode_zero :: LayoutNode where
  "LayoutNode_zero = \<lparr>ln_ID = [], ln_Host = [], ln_Zone = [], ln_Weight = 0, ln_Draining = False\<rparr>"

record NodeRecord =
  nr_FormatVersion :: u32
  nr_NodeID :: gostring
  nr_Host :: gostring
  nr_Zone :: gostring
  nr_Capacity :: u32
  nr_Draining :: bool
  nr_ReplacedBy :: gostring
  nr_LeafCAFingerprint :: u64
  nr_BinaryVersion :: gostring
  nr_Generation :: u32
  nr_unknown :: bytes

definition NodeRecord_zero :: NodeRecord where
  "NodeRecord_zero = \<lparr>nr_FormatVersion = 0, nr_NodeID = [], nr_Host = [], nr_Zone = [],
     nr_Capacity = 0, nr_Draining = False, nr_ReplacedBy = [], nr_LeafCAFingerprint = 0,
     nr_BinaryVersion = [], nr_Generation = 0, nr_unknown = []\<rparr>"

record ClusterLayout =
  cl_FormatVersion :: u32
  cl_Version :: u64
  cl_PartitionCount :: u32
  cl_Members :: "gostring list"
  cl_Nodes :: "LayoutNode list"
  cl_Previous :: "LayoutNode list"
  cl_unknown :: bytes

definition ClusterLayout_zero :: ClusterLayout where
  "ClusterLayout_zero = \<lparr>cl_FormatVersion = 0, cl_Version = 0, cl_PartitionCount = 0,
     cl_Members = [], cl_Nodes = [], cl_Previous = [], cl_unknown = []\<rparr>"

record EncryptionPosture =
  ep_FormatVersion :: u32
  ep_Algorithm :: enc_algorithm
  ep_CurrentKEKFingerprint :: u64
  ep_RotatingToKEKFingerprint :: u64
  ep_unknown :: bytes

definition EncryptionPosture_zero :: EncryptionPosture where
  "EncryptionPosture_zero = \<lparr>ep_FormatVersion = 0, ep_Algorithm = 0,
     ep_CurrentKEKFingerprint = 0, ep_RotatingToKEKFingerprint = 0, ep_unknown = []\<rparr>"

record TrustedCA =
  ca_Fingerprint :: u64
  ca_CertPEM :: bytes

definition TrustedCA_zero :: TrustedCA where
  "TrustedCA_zero = \<lparr>ca_Fingerprint = 0, ca_CertPEM = []\<rparr>"

record TrustBundle =
  tb_FormatVersion :: u32
  tb_Version :: u64
  tb_CAs :: "TrustedCA list"
  tb_IssuerFingerprint :: u64
  tb_unknown :: bytes

definition TrustBundle_zero :: TrustBundle where
  "TrustBundle_zero = \<lparr>tb_FormatVersion = 0, tb_Version = 0, tb_CAs = [],
     tb_IssuerFingerprint = 0, tb_unknown = []\<rparr>"

definition CertPEMs :: "TrustBundle \<Rightarrow> bytes list" where
  "CertPEMs b = map ca_CertPEM (tb_CAs b)"

fun HasCA_loop :: "TrustedCA list \<Rightarrow> u64 \<Rightarrow> bool" where
  "HasCA_loop [] fingerprint = False"
| "HasCA_loop (c # cs) fingerprint =
     (if ca_Fingerprint c = fingerprint then True else HasCA_loop cs fingerprint)"

definition HasCA :: "TrustBundle \<Rightarrow> u64 \<Rightarrow> bool" where
  "HasCA b fingerprint = HasCA_loop (tb_CAs b) fingerprint"

definition EffectiveNodes :: "ClusterLayout \<Rightarrow> LayoutNode list" where
  "EffectiveNodes l =
     (if length (cl_Nodes l) > 0 then cl_Nodes l
      else map (\<lambda>nid. \<lparr>ln_ID = nid, ln_Host = nid, ln_Zone = nid, ln_Weight = 0, ln_Draining = False\<rparr>)
             (cl_Members l))"

lemmas zero_defs = PartRef_zero_def VersionEntry_zero_def CurrentRecord_zero_def
  BucketConfig_zero_def UploadRecord_zero_def PartRecord_zero_def LayoutNode_zero_def
  NodeRecord_zero_def ClusterLayout_zero_def EncryptionPosture_zero_def TrustedCA_zero_def
  TrustBundle_zero_def

section \<open>A row's value\<close>

text \<open>The dynamic types a row value (\<^verbatim>\<open>any\<close>) can have.\<close>

datatype row =
    RBucket BucketConfig
  | RVersion VersionEntry
  | RCurrent CurrentRecord
  | RUpload UploadRecord
  | RPart PartRecord
  | RLayout ClusterLayout
  | RPosture EncryptionPosture
  | RTrust TrustBundle
  | RNode NodeRecord

section \<open>Object lock\<close>

lemma HasCA_iff: "HasCA b f \<longleftrightarrow> f \<in> ca_Fingerprint ` set (tb_CAs b)"
proof -
  have "HasCA_loop cs f \<longleftrightarrow> f \<in> ca_Fingerprint ` set cs" for cs
    by (induction cs) auto
  then show ?thesis by (simp add: HasCA_def)
qed

text \<open>The lock test as a condition.\<close>

lemma lockedAt_iff:
  "lockedAt e at bypass \<longleftrightarrow>
     ve_LegalHold e \<or>
     i64_less at (ve_RetainUntilUnixMS e) \<and>
       (ve_RetentionMode e = RetentionCompliance \<or> ve_RetentionMode e = RetentionGovernance \<and> \<not> bypass)"
  by (auto simp: lockedAt_def i64_less_iff_not_le)

lemma sint_word_of_int: "- (2 ^ 63) \<le> n \<Longrightarrow> n < 2 ^ 63 \<Longrightarrow> sint (word_of_int n :: i64) = n"
  by (simp add: sint_sbintrunc' signed_take_bit_int_eq_self)

lemma retainUntilFromDefault_days:
  assumes "sint at + uint days * ms_per_day < 2 ^ 63"
  shows "sint (retainUntilFromDefault at days 0) = sint at + uint days * ms_per_day"
proof -
  have "- (2 ^ 63) \<le> sint at" using sint_greater_eq [of at] by simp
  then have "- (2 ^ 63) \<le> sint at + uint days * ms_per_day"
    by (simp add: ms_per_day_def add_increasing2)
  then have "sint (word_of_int (sint at + uint days * ms_per_day) :: i64) = sint at + uint days * ms_per_day"
    using assms by (rule sint_word_of_int)
  then show ?thesis
    by (simp only: retainUntilFromDefault_def uint_0_eq add_date_days)
qed

end
