(* ===== verification/Meta_Proposals.thy ===== *)
theory Meta_Proposals
  imports Meta_Records
begin

text \<open>
  The proposals (\<^verbatim>\<open>internal/meta/proposals.go\<close>, and the multipart ones of
  \<^verbatim>\<open>internal/meta/multipart.go\<close>): one record per Go struct, the sum type the Raft log carries
  (the Go code passes \<^verbatim>\<open>any\<close>), and the result structs of apply.
\<close>

record CompletedPart =
  cp_PartNumber :: u32
  cp_ETag :: bytes

record CreateBucket =
  cb_ProposedAtUnixMS :: i64
  cb_Bucket :: gostring
  cb_ObjectLockEnabled :: bool

record DeleteBucket =
  db_ProposedAtUnixMS :: i64
  db_Bucket :: gostring

record SetBucketVersioning =
  sv_ProposedAtUnixMS :: i64
  sv_Bucket :: gostring
  sv_State :: versioning_state

record SetObjectLockConfiguration =
  ol_ProposedAtUnixMS :: i64
  ol_Bucket :: gostring
  ol_DefaultRetentionMode :: retention_mode
  ol_DefaultRetentionDays :: u32
  ol_DefaultRetentionYears :: u32

record PutObject =
  po_ProposedAtUnixMS :: i64
  po_Bucket :: gostring
  po_Key :: gostring
  po_VersionID :: version_id
  po_Size :: i64
  po_ETag :: bytes
  po_ContentType :: gostring
  po_UserMetadata :: user_metadata
  po_Partition :: u64
  po_ECDataShards :: u32
  po_ECParityShards :: u32
  po_ObjectChecksum :: bytes
  po_ShardChecksums :: "bytes list"
  po_RetentionMode :: retention_mode
  po_RetainUntilUnixMS :: i64
  po_LegalHold :: bool
  po_EncAlgorithm :: enc_algorithm
  po_WrappedDEK :: bytes
  po_KEKFingerprint :: u64

record DeleteObject =
  dob_ProposedAtUnixMS :: i64
  dob_Bucket :: gostring
  dob_Key :: gostring
  dob_VersionID :: version_id

record DeleteVersion =
  dv_ProposedAtUnixMS :: i64
  dv_Bucket :: gostring
  dv_Key :: gostring
  dv_VersionID :: version_id
  dv_BypassGovernance :: bool

record UpdateRetention =
  ut_ProposedAtUnixMS :: i64
  ut_Bucket :: gostring
  ut_Key :: gostring
  ut_VersionID :: version_id
  ut_Mode :: retention_mode
  ut_RetainUntilUnixMS :: i64
  ut_BypassGovernance :: bool

record UpdateLegalHold =
  ul_ProposedAtUnixMS :: i64
  ul_Bucket :: gostring
  ul_Key :: gostring
  ul_VersionID :: version_id
  ul_Hold :: bool

record CreateMultipartUpload =
  cm_ProposedAtUnixMS :: i64
  cm_Bucket :: gostring
  cm_Key :: gostring
  cm_UploadID :: version_id
  cm_ContentType :: gostring
  cm_UserMetadata :: user_metadata

record UploadPart =
  up_ProposedAtUnixMS :: i64
  up_Bucket :: gostring
  up_Key :: gostring
  up_UploadID :: version_id
  up_PartNumber :: u32
  up_DataID :: version_id
  up_Size :: i64
  up_ETag :: bytes
  up_Checksum :: bytes
  up_Partition :: u64
  up_ECDataShards :: u32
  up_ECParityShards :: u32
  up_ShardChecksums :: "bytes list"
  up_EncAlgorithm :: enc_algorithm
  up_WrappedDEK :: bytes
  up_KEKFingerprint :: u64

record CompleteMultipartUpload =
  co_ProposedAtUnixMS :: i64
  co_Bucket :: gostring
  co_Key :: gostring
  co_UploadID :: version_id
  co_VersionID :: version_id
  co_ETag :: bytes
  co_Parts :: "CompletedPart list"

record AbortMultipartUpload =
  ab_ProposedAtUnixMS :: i64
  ab_Bucket :: gostring
  ab_Key :: gostring
  ab_UploadID :: version_id

record SetClusterLayout =
  sl_ProposedAtUnixMS :: i64
  sl_Version :: u64
  sl_PartitionCount :: u32
  sl_Members :: "gostring list"
  sl_Nodes :: "LayoutNode list"
  sl_Previous :: "LayoutNode list"

record SetEncryptionPosture =
  se_ProposedAtUnixMS :: i64
  se_Algorithm :: enc_algorithm
  se_KEKFingerprint :: u64

record BeginKEKRotation =
  bk_ProposedAtUnixMS :: i64
  bk_FromFingerprint :: u64
  bk_ToFingerprint :: u64

record RewrapDEK =
  rw_ProposedAtUnixMS :: i64
  rw_Bucket :: gostring
  rw_Key :: gostring
  rw_VersionID :: version_id
  rw_WrappedDEK :: bytes
  rw_KEKFingerprint :: u64

record CompleteKEKRotation =
  ck_ProposedAtUnixMS :: i64
  ck_ToFingerprint :: u64

record RegisterNode =
  rn_ProposedAtUnixMS :: i64
  rn_NodeID :: gostring
  rn_Host :: gostring
  rn_Zone :: gostring
  rn_Capacity :: u32
  rn_LeafCAFingerprint :: u64

record SetNodeDraining =
  nd_ProposedAtUnixMS :: i64
  nd_NodeID :: gostring
  nd_Draining :: bool

record SetNodeReplacedBy =
  nb_ProposedAtUnixMS :: i64
  nb_NodeID :: gostring
  nb_ReplacedBy :: gostring

record SetNodeLeafCA =
  nl_ProposedAtUnixMS :: i64
  nl_NodeID :: gostring
  nl_LeafCAFingerprint :: u64

record SetNodeVersion =
  nv_ProposedAtUnixMS :: i64
  nv_NodeID :: gostring
  nv_BinaryVersion :: gostring
  nv_Generation :: u32

record SetTrustBundle =
  st_ProposedAtUnixMS :: i64
  st_Version :: u64
  st_CAs :: "TrustedCA list"
  st_IssuerFingerprint :: u64

record ReEncodeObject =
  re_ProposedAtUnixMS :: i64
  re_Bucket :: gostring
  re_Key :: gostring
  re_VersionID :: version_id
  re_DataID :: version_id
  re_ECDataShards :: u32
  re_ECParityShards :: u32
  re_ShardChecksums :: "bytes list"

section \<open>The proposal envelope\<close>

datatype proposal =
    P_CreateBucket CreateBucket
  | P_DeleteBucket DeleteBucket
  | P_SetBucketVersioning SetBucketVersioning
  | P_SetObjectLockConfiguration SetObjectLockConfiguration
  | P_PutObject PutObject
  | P_DeleteObject DeleteObject
  | P_DeleteVersion DeleteVersion
  | P_UpdateRetention UpdateRetention
  | P_UpdateLegalHold UpdateLegalHold
  | P_CreateMultipartUpload CreateMultipartUpload
  | P_UploadPart UploadPart
  | P_CompleteMultipartUpload CompleteMultipartUpload
  | P_AbortMultipartUpload AbortMultipartUpload
  | P_SetClusterLayout SetClusterLayout
  | P_SetEncryptionPosture SetEncryptionPosture
  | P_BeginKEKRotation BeginKEKRotation
  | P_RewrapDEK RewrapDEK
  | P_CompleteKEKRotation CompleteKEKRotation
  | P_RegisterNode RegisterNode
  | P_SetNodeDraining SetNodeDraining
  | P_SetNodeReplacedBy SetNodeReplacedBy
  | P_SetNodeLeafCA SetNodeLeafCA
  | P_SetNodeVersion SetNodeVersion
  | P_SetTrustBundle SetTrustBundle
  | P_ReEncodeObject ReEncodeObject

fun proposed_at :: "proposal \<Rightarrow> i64" where
  "proposed_at (P_CreateBucket p) = cb_ProposedAtUnixMS p"
| "proposed_at (P_DeleteBucket p) = db_ProposedAtUnixMS p"
| "proposed_at (P_SetBucketVersioning p) = sv_ProposedAtUnixMS p"
| "proposed_at (P_SetObjectLockConfiguration p) = ol_ProposedAtUnixMS p"
| "proposed_at (P_PutObject p) = po_ProposedAtUnixMS p"
| "proposed_at (P_DeleteObject p) = dob_ProposedAtUnixMS p"
| "proposed_at (P_DeleteVersion p) = dv_ProposedAtUnixMS p"
| "proposed_at (P_UpdateRetention p) = ut_ProposedAtUnixMS p"
| "proposed_at (P_UpdateLegalHold p) = ul_ProposedAtUnixMS p"
| "proposed_at (P_CreateMultipartUpload p) = cm_ProposedAtUnixMS p"
| "proposed_at (P_UploadPart p) = up_ProposedAtUnixMS p"
| "proposed_at (P_CompleteMultipartUpload p) = co_ProposedAtUnixMS p"
| "proposed_at (P_AbortMultipartUpload p) = ab_ProposedAtUnixMS p"
| "proposed_at (P_SetClusterLayout p) = sl_ProposedAtUnixMS p"
| "proposed_at (P_SetEncryptionPosture p) = se_ProposedAtUnixMS p"
| "proposed_at (P_BeginKEKRotation p) = bk_ProposedAtUnixMS p"
| "proposed_at (P_RewrapDEK p) = rw_ProposedAtUnixMS p"
| "proposed_at (P_CompleteKEKRotation p) = ck_ProposedAtUnixMS p"
| "proposed_at (P_RegisterNode p) = rn_ProposedAtUnixMS p"
| "proposed_at (P_SetNodeDraining p) = nd_ProposedAtUnixMS p"
| "proposed_at (P_SetNodeReplacedBy p) = nb_ProposedAtUnixMS p"
| "proposed_at (P_SetNodeLeafCA p) = nl_ProposedAtUnixMS p"
| "proposed_at (P_SetNodeVersion p) = nv_ProposedAtUnixMS p"
| "proposed_at (P_SetTrustBundle p) = st_ProposedAtUnixMS p"
| "proposed_at (P_ReEncodeObject p) = re_ProposedAtUnixMS p"

section \<open>Results of apply\<close>

record PutResult =
  res_VersionID :: version_id
  res_ReplacedDataIDs :: "version_id list"

record DeleteObjectResult =
  dor_Removed :: bool
  dor_MarkerCreated :: bool
  dor_MarkerID :: version_id
  dor_RemovedDataIDs :: "version_id list"

record DeleteVersionResult =
  dvr_Removed :: bool

record UploadPartResult =
  upr_ReplacedDataID :: version_id

record CompleteResult =
  cor_VersionID :: version_id
  cor_DiscardedDataIDs :: "version_id list"

record AbortResult =
  abr_PartDataIDs :: "version_id list"

datatype apply_result =
    R_Nil
  | R_Put PutResult
  | R_DeleteObject DeleteObjectResult
  | R_DeleteVersion DeleteVersionResult
  | R_UploadPart UploadPartResult
  | R_Complete CompleteResult
  | R_Abort AbortResult

end
