(* ===== verification/Meta_Reads.thy ===== *)
theory Meta_Reads
  imports Meta_Proposals
begin

text \<open>
  Reads over the keyspace (\<^verbatim>\<open>internal/meta/reads.go\<close>, and the multipart reads of
  \<^verbatim>\<open>internal/meta/multipart.go\<close>). Each works on the store's key-value map. A failed type
  assertion on a row is the error \<open>Panic\<close>; the lemmas of the invariant show that it does
  not happen in a reachable store.
\<close>

type_synonym kv = "row txKV"

type_synonym 'a res = "meta_error + 'a"

section \<open>Single rows\<close>

definition GetBucket :: "kv \<Rightarrow> gostring \<Rightarrow> BucketConfig option res" where
  "GetBucket t name =
     (case tx_get t (bucketRowKey name) of
        None \<Rightarrow> Inr None
      | Some (RBucket c) \<Rightarrow> Inr (Some c)
      | Some _ \<Rightarrow> Inl Panic)"

definition ClusterLayout_read :: "kv \<Rightarrow> ClusterLayout option res" where
  "ClusterLayout_read t =
     (case tx_get t clusterLayoutKey of
        None \<Rightarrow> Inr None
      | Some (RLayout l) \<Rightarrow> Inr (Some l)
      | Some _ \<Rightarrow> Inl Panic)"

definition EncryptionPosture_read :: "kv \<Rightarrow> EncryptionPosture res" where
  "EncryptionPosture_read t =
     (case tx_get t encryptionPostureKey of
        None \<Rightarrow> Inr EncryptionPosture_zero
      | Some (RPosture p) \<Rightarrow> Inr p
      | Some _ \<Rightarrow> Inl Panic)"

definition EncryptionAlgorithm :: "kv \<Rightarrow> enc_algorithm res" where
  "EncryptionAlgorithm t =
     (case tx_get t encryptionPostureKey of
        None \<Rightarrow> Inr EncNone
      | Some (RPosture p) \<Rightarrow> Inr (ep_Algorithm p)
      | Some _ \<Rightarrow> Inl Panic)"

definition TrustBundle_read :: "kv \<Rightarrow> TrustBundle option res" where
  "TrustBundle_read t =
     (case tx_get t trustBundleKey of
        None \<Rightarrow> Inr None
      | Some (RTrust b) \<Rightarrow> Inr (Some b)
      | Some _ \<Rightarrow> Inl Panic)"

definition Node :: "kv \<Rightarrow> gostring \<Rightarrow> NodeRecord option res" where
  "Node t nid =
     (case tx_get t (nodeRowKey nid) of
        None \<Rightarrow> Inr None
      | Some (RNode n) \<Rightarrow> Inr (Some n)
      | Some _ \<Rightarrow> Inl Panic)"

definition Current :: "kv \<Rightarrow> gostring \<Rightarrow> gostring \<Rightarrow> CurrentRecord option res" where
  "Current t bucket key =
     (case tx_get t (currentRowKey bucket key) of
        None \<Rightarrow> Inr None
      | Some (RCurrent c) \<Rightarrow> Inr (Some c)
      | Some _ \<Rightarrow> Inl Panic)"

definition GetVersion :: "kv \<Rightarrow> gostring \<Rightarrow> gostring \<Rightarrow> version_id \<Rightarrow> VersionEntry option res" where
  "GetVersion t bucket key vid =
     (case tx_get t (versionRowKey bucket key vid) of
        None \<Rightarrow> Inr None
      | Some (RVersion e) \<Rightarrow> Inr (Some e)
      | Some _ \<Rightarrow> Inl Panic)"

definition GetUpload :: "kv \<Rightarrow> gostring \<Rightarrow> gostring \<Rightarrow> version_id \<Rightarrow> UploadRecord option res" where
  "GetUpload t bucket key uid =
     (case tx_get t (uploadRowKey bucket key uid) of
        None \<Rightarrow> Inr None
      | Some (RUpload u) \<Rightarrow> Inr (Some u)
      | Some _ \<Rightarrow> Inl Panic)"

section \<open>Scans\<close>

text \<open>
  The captured variables of a scan closure, behind a result so that a panic inside the
  closure stops the scan.
\<close>

definition ListBuckets :: "kv \<Rightarrow> BucketConfig list res" where
  "ListBuckets t =
     tx_scan t bucketScanPrefix
       (\<lambda>k v out.
          if \<not> prefix bucketScanPrefix k then (out, False)
          else case (v, out) of
                 (Some (RBucket c), Inr cs) \<Rightarrow> (Inr (cs @ [c]), True)
               | _ \<Rightarrow> (Inl Panic, False))
       (Inr [])"

definition Nodes :: "kv \<Rightarrow> NodeRecord list res" where
  "Nodes t =
     tx_scan t nodeScanPrefix
       (\<lambda>k v out.
          if \<not> prefix nodeScanPrefix k then (out, False)
          else case (v, out) of
                 (Some (RNode n), Inr ns) \<Rightarrow> (Inr (ns @ [n]), True)
               | _ \<Rightarrow> (Inl Panic, False))
       (Inr [])"

definition ListVersions :: "kv \<Rightarrow> gostring \<Rightarrow> gostring \<Rightarrow> VersionEntry list res" where
  "ListVersions t bucket key =
     (let p = versionScanPrefix bucket key
      in tx_scan t p
           (\<lambda>k v out.
              if \<not> prefix p k then (out, False)
              else case (v, out) of
                     (Some (RVersion e), Inr es) \<Rightarrow> (Inr (es @ [e]), True)
                   | _ \<Rightarrow> (Inl Panic, False))
           (Inr []))"

record ObjectListing =
  obl_Key :: gostring
  obl_Current :: CurrentRecord

definition ListObjects ::
    "kv \<Rightarrow> gostring \<Rightarrow> gostring \<Rightarrow> gostring \<Rightarrow> int \<Rightarrow> ObjectListing list res" where
  "ListObjects t bucket pre startAfter mx =
     (let scanPrefix = currentScanPrefix bucket @ pre;
          from = (if startAfter \<noteq> []
                  then let after = currentRowKey bucket startAfter @ nul
                       in if after > scanPrefix then after else scanPrefix
                  else scanPrefix)
      in tx_scan t from
           (\<lambda>k v out.
              if \<not> prefix scanPrefix k then (out, False)
              else case out of
                     Inl e \<Rightarrow> (Inl e, False)
                   | Inr os \<Rightarrow>
                       if mx > 0 \<and> int (length os) = mx then (out, False)
                       else case (v, objectKeyFromCurrentRow k bucket) of
                              (Some (RCurrent c), Some key) \<Rightarrow>
                                (Inr (os @ [\<lparr>obl_Key = key, obl_Current = c\<rparr>]), True)
                            | _ \<Rightarrow> (Inl Panic, False))
           (Inr []))"

record VersionListing =
  vl_Key :: gostring
  vl_Entry :: VersionEntry
  vl_IsLatest :: bool

text \<open>The variables \<^verbatim>\<open>out\<close>, \<^verbatim>\<open>truncated\<close>, \<^verbatim>\<open>prevKey\<close> and \<^verbatim>\<open>havePrev\<close> of the version listing.\<close>

record lov_state =
  lov_out :: "VersionListing list"
  lov_truncated :: bool
  lov_prevKey :: gostring
  lov_havePrev :: bool

definition ListObjectVersions ::
    "kv \<Rightarrow> gostring \<Rightarrow> gostring \<Rightarrow> gostring \<Rightarrow> version_id \<Rightarrow> int
       \<Rightarrow> (VersionListing list \<times> bool) res" where
  "ListObjectVersions t bucket pre keyMarker versionIDMarker mx =
     (if mx \<le> 0 then Inr ([], False)
      else
        let bucketPrefix = bucketVersionsScanPrefix bucket;
            from = bucketPrefix @ pre;
            resumedMidKey = (keyMarker \<noteq> [] \<and> versionIDMarker \<noteq> 0);
            from = (if keyMarker \<noteq> []
                    then let cur = versionRowKey bucket keyMarker versionIDMarker @ nul
                         in if cur > from then cur else from
                    else from);
            r = tx_scan t from
                  (\<lambda>k v st.
                     if \<not> prefix bucketPrefix k then (st, False)
                     else case (st, keyAndVersionFromVersionRow k bucket) of
                            (Inr s, Some (key, _)) \<Rightarrow>
                              if \<not> prefix pre key then (st, False)
                              else if int (length (lov_out s)) = mx
                                   then (Inr (s\<lparr>lov_truncated := True\<rparr>), False)
                              else
                                let isFirstOfKey = (\<not> lov_havePrev s \<or> key \<noteq> lov_prevKey s);
                                    isLatest = (isFirstOfKey \<and> \<not> (resumedMidKey \<and> key = keyMarker))
                                in (case v of
                                      Some (RVersion e) \<Rightarrow>
                                        (Inr (s\<lparr>lov_out := lov_out s @
                                               [\<lparr>vl_Key = key, vl_Entry = e, vl_IsLatest = isLatest\<rparr>],
                                             lov_prevKey := key, lov_havePrev := True\<rparr>), True)
                                    | _ \<Rightarrow> (Inl Panic, False))
                          | _ \<Rightarrow> (Inl Panic, False))
                  (Inr \<lparr>lov_out = [], lov_truncated = False, lov_prevKey = [], lov_havePrev = False\<rparr>)
        in case r of Inl e \<Rightarrow> Inl e | Inr s \<Rightarrow> Inr (lov_out s, lov_truncated s))"

definition newestVersion :: "kv \<Rightarrow> gostring \<Rightarrow> gostring \<Rightarrow> VersionEntry option res" where
  "newestVersion t bucket key =
     (let p = versionScanPrefix bucket key
      in tx_scan t p
           (\<lambda>k v found.
              if prefix p k
              then case v of Some (RVersion e) \<Rightarrow> (Inr (Some e), False) | _ \<Rightarrow> (Inl Panic, False)
              else (found, False))
           (Inr None))"

definition nullVersion :: "kv \<Rightarrow> gostring \<Rightarrow> gostring \<Rightarrow> VersionEntry option res" where
  "nullVersion t bucket key =
     (let p = versionScanPrefix bucket key
      in tx_scan t p
           (\<lambda>k v found.
              if \<not> prefix p k then (found, False)
              else case v of
                     Some (RVersion e) \<Rightarrow>
                       if ve_NullVersion e then (Inr (Some e), False) else (found, True)
                   | _ \<Rightarrow> (Inl Panic, False))
           (Inr None))"

text \<open>
  \<^verbatim>\<open>ScanVersions\<close> visits every version of a bucket with a callback, whose captured variables
  are the state \<open>'s\<close>.
\<close>

definition ScanVersions ::
    "kv \<Rightarrow> gostring \<Rightarrow> (gostring \<Rightarrow> VersionEntry \<Rightarrow> 's \<Rightarrow> 's \<times> bool) \<Rightarrow> 's \<Rightarrow> 's res" where
  "ScanVersions t bucket fn s0 =
     (let p = bucketVersionsScanPrefix bucket
      in tx_scan t p
           (\<lambda>k v st.
              if \<not> prefix p k then (st, False)
              else case (st, keyAndVersionFromVersionRow k bucket, v) of
                     (Inr s, Some (key, _), Some (RVersion e)) \<Rightarrow>
                       (let (s', cont) = fn key e s in (Inr s', cont))
                   | _ \<Rightarrow> (Inl Panic, False))
           (Inr s0))"

section \<open>Multipart listings\<close>

record UploadListing =
  upl_Key :: gostring
  upl_Upload :: UploadRecord

definition ListUploads ::
    "kv \<Rightarrow> gostring \<Rightarrow> gostring \<Rightarrow> gostring \<Rightarrow> version_id \<Rightarrow> int \<Rightarrow> UploadListing list res" where
  "ListUploads t bucket pre keyMarker uploadMarker mx =
     (if mx \<le> 0 then Inr []
      else
        let scanPrefix = uploadsScanPrefix bucket;
            from = scanPrefix @ pre;
            from = (if keyMarker \<noteq> []
                    then let f = scanPrefix @ keyMarker in if f > from then f else from
                    else from)
        in tx_scan t from
             (\<lambda>k v out.
                if \<not> prefix scanPrefix k then (out, False)
                else case (uploadFromRow k bucket, out) of
                       (Some (key, uid, _, isPart), Inr us) \<Rightarrow>
                         if isPart then (out, True)
                         else if \<not> prefix pre key then (out, False)
                         else if keyMarker \<noteq> [] \<and> vid_is_zero uploadMarker \<and> key \<le> keyMarker
                              then (out, True)
                         else if keyMarker \<noteq> [] \<and> \<not> vid_is_zero uploadMarker \<and>
                                 (key < keyMarker \<or> key = keyMarker \<and> vid_compare uid uploadMarker \<le> 0)
                              then (out, True)
                         else if int (length us) = mx then (out, False)
                         else (case v of
                                 Some (RUpload u) \<Rightarrow>
                                   (Inr (us @ [\<lparr>upl_Key = key, upl_Upload = u\<rparr>]), True)
                               | _ \<Rightarrow> (Inl Panic, False))
                     | _ \<Rightarrow> (Inl Panic, False))
             (Inr []))"

definition ListUploadParts ::
    "kv \<Rightarrow> gostring \<Rightarrow> gostring \<Rightarrow> version_id \<Rightarrow> u32 \<Rightarrow> int \<Rightarrow> (PartRecord list \<times> bool) res" where
  "ListUploadParts t bucket key uid afterPart mx =
     (case tx_get t (uploadRowKey bucket key uid) of
        None \<Rightarrow> Inr ([], False)
      | Some _ \<Rightarrow>
          if mx \<le> 0 then Inr ([], True)
          else
            let scanPrefix = uploadRowKey bucket key uid;
                r = tx_scan t (partRowKey bucket key uid (afterPart + 1))
                      (\<lambda>k v out.
                         case out of
                           Inl e \<Rightarrow> (Inl e, False)
                         | Inr ps \<Rightarrow>
                             if \<not> prefix scanPrefix k \<or> int (length ps) = mx then (out, False)
                             else case v of
                                    Some (RPart pr) \<Rightarrow> (Inr (ps @ [pr]), True)
                                  | _ \<Rightarrow> (Inl Panic, False))
                      (Inr [])
            in case r of Inl e \<Rightarrow> Inl e | Inr ps \<Rightarrow> Inr (ps, True))"

end
