(* ===== verification/Meta_Apply.thy ===== *)
theory Meta_Apply
  imports Meta_Reads
begin

text \<open>
  The apply functions (\<^verbatim>\<open>internal/meta/apply.go\<close>), one per S3 mutation or cluster proposal.
  Each takes the proposal and the transactional map and returns the map and the result; the
  early returns of the code are the branches here. The transaction around them
  (\<^verbatim>\<open>defer s.txn(&err)()\<close>) is modelled with persistence.
\<close>

section \<open>Buckets\<close>

definition ApplyCreateBucket :: "CreateBucket \<Rightarrow> kv \<Rightarrow> kv \<times> unit res" where
  "ApplyCreateBucket p t =
     (case validateBucketName (cb_Bucket p) of
        Some err \<Rightarrow> (t, Inl err)
      | None \<Rightarrow>
          (case tx_get t (bucketRowKey (cb_Bucket p)) of
             Some _ \<Rightarrow> (t, Inl ErrBucketExists)
           | None \<Rightarrow>
               let cfg = BucketConfig_zero\<lparr>bc_FormatVersion := currentFormatVersion,
                           bc_Name := cb_Bucket p,
                           bc_CreatedUnixMS := cb_ProposedAtUnixMS p,
                           bc_Versioning := Unversioned,
                           bc_ObjectLockEnabled := cb_ObjectLockEnabled p\<rparr>;
                   cfg = (if cb_ObjectLockEnabled p
                          then cfg\<lparr>bc_Versioning := VersioningEnabled\<rparr> else cfg)
               in (tx_set t (bucketRowKey (cb_Bucket p)) (RBucket cfg), Inr ())))"

text \<open>One prefix seek of \<^verbatim>\<open>ApplyDeleteBucket\<close>: is there no row with the prefix?\<close>

definition prefix_empty :: "kv \<Rightarrow> gostring \<Rightarrow> bool" where
  "prefix_empty t p = tx_scan t p (\<lambda>k _ empty. (\<not> prefix p k, False)) True"

definition ApplyDeleteBucket :: "DeleteBucket \<Rightarrow> kv \<Rightarrow> kv \<times> unit res" where
  "ApplyDeleteBucket p t =
     (case tx_get t (bucketRowKey (db_Bucket p)) of
        None \<Rightarrow> (t, Inl ErrNoSuchBucket)
      | Some _ \<Rightarrow>
          if \<not> list_all (prefix_empty t)
                 [bucketVersionsScanPrefix (db_Bucket p), uploadsScanPrefix (db_Bucket p)]
          then (t, Inl ErrBucketNotEmpty)
          else (tx_delete t (bucketRowKey (db_Bucket p)), Inr ()))"

definition ApplySetBucketVersioning :: "SetBucketVersioning \<Rightarrow> kv \<Rightarrow> kv \<times> unit res" where
  "ApplySetBucketVersioning p t =
     (case GetBucket t (sv_Bucket p) of
        Inl e \<Rightarrow> (t, Inl e)
      | Inr None \<Rightarrow> (t, Inl ErrNoSuchBucket)
      | Inr (Some cfg) \<Rightarrow>
          if sv_State p \<noteq> VersioningEnabled \<and> sv_State p \<noteq> VersioningSuspended
          then (t, Inl ErrInvalidVersioningState)
          else if sv_State p = VersioningSuspended \<and> bc_ObjectLockEnabled cfg
          then (t, Inl ErrInvalidVersioningState)
          else (tx_set t (bucketRowKey (sv_Bucket p)) (RBucket (cfg\<lparr>bc_Versioning := sv_State p\<rparr>)),
                Inr ()))"

definition ApplySetObjectLockConfiguration ::
    "SetObjectLockConfiguration \<Rightarrow> kv \<Rightarrow> kv \<times> unit res" where
  "ApplySetObjectLockConfiguration p t =
     (case GetBucket t (ol_Bucket p) of
        Inl e \<Rightarrow> (t, Inl e)
      | Inr None \<Rightarrow> (t, Inl ErrNoSuchBucket)
      | Inr (Some cfg) \<Rightarrow>
          if \<not> bc_ObjectLockEnabled cfg then (t, Inl ErrInvalidRetention)
          else if (if ol_DefaultRetentionMode p = RetentionNone
                   then ol_DefaultRetentionDays p \<noteq> 0 \<or> ol_DefaultRetentionYears p \<noteq> 0
                   else if ol_DefaultRetentionMode p = RetentionGovernance \<or>
                           ol_DefaultRetentionMode p = RetentionCompliance
                   then (ol_DefaultRetentionDays p = 0) = (ol_DefaultRetentionYears p = 0)
                   else True)
          then (t, Inl ErrInvalidRetention)
          else (tx_set t (bucketRowKey (ol_Bucket p))
                  (RBucket (cfg\<lparr>bc_DefaultRetentionMode := ol_DefaultRetentionMode p,
                                bc_DefaultRetentionDays := ol_DefaultRetentionDays p,
                                bc_DefaultRetentionYears := ol_DefaultRetentionYears p\<rparr>)),
                Inr ()))"

section \<open>Writing and deleting objects\<close>

definition removeNullVersion ::
    "kv \<Rightarrow> gostring \<Rightarrow> gostring \<Rightarrow> i64 \<Rightarrow> kv \<times> version_id list res" where
  "removeNullVersion t bucket key atUnixMS =
     (case nullVersion t bucket key of
        Inl e \<Rightarrow> (t, Inl e)
      | Inr None \<Rightarrow> (t, Inr [])
      | Inr (Some prior) \<Rightarrow>
          if lockedAt prior atUnixMS False then (t, Inl ErrObjectLocked)
          else (tx_delete t (versionRowKey bucket key (ve_VersionID prior)), Inr (DataIDs prior)))"

text \<open>Commit order beats clock order: a minted ID that does not sort last is bumped just past.\<close>

definition bump_vid :: "VersionEntry option \<Rightarrow> version_id \<Rightarrow> version_id" where
  "bump_vid newest vid =
     (case newest of
        Some n \<Rightarrow> if vid_compare vid (ve_VersionID n) \<le> 0 then vid_next (ve_VersionID n) else vid
      | None \<Rightarrow> vid)"

text \<open>
  The tail shared by a PUT and a completed multipart upload: replace the null version when
  the entry is one, insert the version row, upsert the current row.
\<close>

definition commit_entry ::
    "kv \<Rightarrow> gostring \<Rightarrow> gostring \<Rightarrow> i64 \<Rightarrow> VersionEntry \<Rightarrow> kv \<times> version_id list res" where
  "commit_entry t bucket key at entry =
     (let (t, replaced) = (if ve_NullVersion entry then removeNullVersion t bucket key at
                           else (t, Inr []))
      in case replaced of
           Inl e \<Rightarrow> (t, Inl e)
         | Inr ids \<Rightarrow>
             let t = tx_set t (versionRowKey bucket key (ve_VersionID entry)) (RVersion entry);
                 t = tx_set t (currentRowKey bucket key) (RCurrent (currentRecordFor entry))
             in (t, Inr ids))"

text \<open>
  The entry a PUT commits under version ID \<open>vid\<close>: with the bucket's default retention where the
  client states none.
\<close>

definition put_entry :: "PutObject \<Rightarrow> BucketConfig \<Rightarrow> version_id \<Rightarrow> VersionEntry" where
  "put_entry p cfg vid =
     (let (mode, retainUntil) =
            (if po_RetentionMode p = RetentionNone \<and> bc_ObjectLockEnabled cfg \<and>
                bc_DefaultRetentionMode cfg \<noteq> RetentionNone
             then (bc_DefaultRetentionMode cfg,
                   retainUntilFromDefault (po_ProposedAtUnixMS p)
                     (bc_DefaultRetentionDays cfg) (bc_DefaultRetentionYears cfg))
             else (po_RetentionMode p, po_RetainUntilUnixMS p))
      in VersionEntry_zero\<lparr>
           ve_FormatVersion := currentFormatVersion,
           ve_VersionID := vid,
           ve_DataID := po_VersionID p,
           ve_Kind := KindObject,
           ve_Size := po_Size p,
           ve_CreatedUnixMS := po_ProposedAtUnixMS p,
           ve_ETag := po_ETag p,
           ve_ContentType := po_ContentType p,
           ve_UserMetadata := po_UserMetadata p,
           ve_Partition := po_Partition p,
           ve_ECDataShards := po_ECDataShards p,
           ve_ECParityShards := po_ECParityShards p,
           ve_ObjectChecksum := po_ObjectChecksum p,
           ve_ShardChecksums := po_ShardChecksums p,
           ve_RetentionMode := mode,
           ve_RetainUntilUnixMS := retainUntil,
           ve_LegalHold := po_LegalHold p,
           ve_EncAlgorithm := po_EncAlgorithm p,
           ve_WrappedDEK := po_WrappedDEK p,
           ve_KEKFingerprint := po_KEKFingerprint p,
           ve_NullVersion := (bc_Versioning cfg \<noteq> VersioningEnabled)\<rparr>)"

definition ApplyPutObject :: "PutObject \<Rightarrow> kv \<Rightarrow> kv \<times> PutResult res" where
  "ApplyPutObject p t =
     (case GetBucket t (po_Bucket p) of
        Inl e \<Rightarrow> (t, Inl e)
      | Inr None \<Rightarrow> (t, Inl ErrNoSuchBucket)
      | Inr (Some cfg) \<Rightarrow>
     (case validateObjectKey (po_Key p) of
        Some err \<Rightarrow> (t, Inl err)
      | None \<Rightarrow>
          if (po_RetentionMode p \<noteq> RetentionNone \<or> po_LegalHold p) \<and> \<not> bc_ObjectLockEnabled cfg
          then (t, Inl ErrInvalidRetention)
          else if po_RetentionMode p \<noteq> RetentionNone \<and>
                  i64_le (po_RetainUntilUnixMS p) (po_ProposedAtUnixMS p)
          then (t, Inl ErrInvalidRetention)
          else
            (case newestVersion t (po_Bucket p) (po_Key p) of
               Inl e \<Rightarrow> (t, Inl e)
             | Inr newest \<Rightarrow>
                 let vid = bump_vid newest (po_VersionID p);
                     entry = put_entry p cfg vid
                 in case commit_entry t (po_Bucket p) (po_Key p) (po_ProposedAtUnixMS p) entry of
                      (t, Inl e) \<Rightarrow> (t, Inl e)
                    | (t, Inr replaced) \<Rightarrow>
                        (t, Inr \<lparr>res_VersionID = vid, res_ReplacedDataIDs = replaced\<rparr>))))"

definition DeleteObjectResult_zero :: DeleteObjectResult where
  "DeleteObjectResult_zero = \<lparr>dor_Removed = False, dor_MarkerCreated = False, dor_MarkerID = 0,
     dor_RemovedDataIDs = []\<rparr>"

definition delete_marker :: "DeleteObject \<Rightarrow> BucketConfig \<Rightarrow> version_id \<Rightarrow> VersionEntry" where
  "delete_marker p cfg vid = VersionEntry_zero\<lparr>
     ve_FormatVersion := currentFormatVersion,
     ve_VersionID := vid,
     ve_Kind := KindDeleteMarker,
     ve_CreatedUnixMS := dob_ProposedAtUnixMS p,
     ve_NullVersion := (bc_Versioning cfg = VersioningSuspended)\<rparr>"

definition ApplyDeleteObject :: "DeleteObject \<Rightarrow> kv \<Rightarrow> kv \<times> DeleteObjectResult res" where
  "ApplyDeleteObject p t =
     (case GetBucket t (dob_Bucket p) of
        Inl e \<Rightarrow> (t, Inl e)
      | Inr None \<Rightarrow> (t, Inl ErrNoSuchBucket)
      | Inr (Some cfg) \<Rightarrow>
     (case validateObjectKey (dob_Key p) of
        Some err \<Rightarrow> (t, Inl err)
      | None \<Rightarrow>
     (case newestVersion t (dob_Bucket p) (dob_Key p) of
        Inl e \<Rightarrow> (t, Inl e)
      | Inr newest \<Rightarrow>
          if bc_Versioning cfg = Unversioned
          then
            (case newest of
               None \<Rightarrow> (t, Inr DeleteObjectResult_zero)
             | Some n \<Rightarrow>
                 if lockedAt n (dob_ProposedAtUnixMS p) False then (t, Inl ErrObjectLocked)
                 else
                   let t = tx_delete t (versionRowKey (dob_Bucket p) (dob_Key p) (ve_VersionID n));
                       t = tx_delete t (currentRowKey (dob_Bucket p) (dob_Key p))
                   in (t, Inr (DeleteObjectResult_zero\<lparr>dor_Removed := True,
                                 dor_RemovedDataIDs := DataIDs n\<rparr>)))
          else
            let vid = bump_vid newest (dob_VersionID p);
                marker = delete_marker p cfg vid;
                (t, replaced) = (if ve_NullVersion marker
                                 then removeNullVersion t (dob_Bucket p) (dob_Key p) (dob_ProposedAtUnixMS p)
                                 else (t, Inr []))
            in case replaced of
                 Inl e \<Rightarrow> (t, Inl e)
               | Inr ids \<Rightarrow>
                   let t = tx_set t (versionRowKey (dob_Bucket p) (dob_Key p) vid) (RVersion marker);
                       t = tx_delete t (currentRowKey (dob_Bucket p) (dob_Key p))
                   in (t, Inr (DeleteObjectResult_zero\<lparr>dor_MarkerCreated := True,
                                 dor_MarkerID := vid, dor_RemovedDataIDs := ids\<rparr>)))))"

definition ApplyDeleteVersion :: "DeleteVersion \<Rightarrow> kv \<Rightarrow> kv \<times> DeleteVersionResult res" where
  "ApplyDeleteVersion p t =
     (case GetBucket t (dv_Bucket p) of
        Inl e \<Rightarrow> (t, Inl e)
      | Inr None \<Rightarrow> (t, Inl ErrNoSuchBucket)
      | Inr (Some _) \<Rightarrow>
     (case validateObjectKey (dv_Key p) of
        Some err \<Rightarrow> (t, Inl err)
      | None \<Rightarrow>
     (case tx_get t (versionRowKey (dv_Bucket p) (dv_Key p) (dv_VersionID p)) of
        None \<Rightarrow> (t, Inr \<lparr>dvr_Removed = False\<rparr>)
      | Some (RVersion entry) \<Rightarrow>
          if lockedAt entry (dv_ProposedAtUnixMS p) (dv_BypassGovernance p)
          then (t, Inl ErrObjectLocked)
          else
            (case newestVersion t (dv_Bucket p) (dv_Key p) of
               Inl e \<Rightarrow> (t, Inl e)
             | Inr newest \<Rightarrow>
                 let wasNewest = (ve_VersionID (case newest of Some n \<Rightarrow> n | None \<Rightarrow> VersionEntry_zero)
                                    = ve_VersionID entry);
                     t = tx_delete t (versionRowKey (dv_Bucket p) (dv_Key p) (ve_VersionID entry))
                 in if wasNewest
                    then
                      (case newestVersion t (dv_Bucket p) (dv_Key p) of
                         Inl e \<Rightarrow> (t, Inl e)
                       | Inr next \<Rightarrow>
                           (case next of
                              Some n \<Rightarrow>
                                if ve_Kind n = KindObject
                                then (tx_set t (currentRowKey (dv_Bucket p) (dv_Key p))
                                        (RCurrent (currentRecordFor n)), Inr \<lparr>dvr_Removed = True\<rparr>)
                                else (tx_delete t (currentRowKey (dv_Bucket p) (dv_Key p)),
                                      Inr \<lparr>dvr_Removed = True\<rparr>)
                            | None \<Rightarrow> (tx_delete t (currentRowKey (dv_Bucket p) (dv_Key p)),
                                       Inr \<lparr>dvr_Removed = True\<rparr>)))
                    else (t, Inr \<lparr>dvr_Removed = True\<rparr>))
      | Some _ \<Rightarrow> (t, Inl Panic))))"

section \<open>Object lock\<close>

definition lockTarget :: "kv \<Rightarrow> gostring \<Rightarrow> gostring \<Rightarrow> version_id \<Rightarrow> VersionEntry res" where
  "lockTarget t bucket key vid =
     (case GetBucket t bucket of
        Inl e \<Rightarrow> Inl e
      | Inr None \<Rightarrow> Inl ErrNoSuchBucket
      | Inr (Some cfg) \<Rightarrow>
     (case validateObjectKey key of
        Some err \<Rightarrow> Inl err
      | None \<Rightarrow>
          if \<not> bc_ObjectLockEnabled cfg then Inl ErrInvalidRetention
          else
            (case GetVersion t bucket key vid of
               Inl e \<Rightarrow> Inl e
             | Inr None \<Rightarrow> Inl ErrNoSuchVersion
             | Inr (Some entry) \<Rightarrow>
                 if ve_Kind entry \<noteq> KindObject then Inl ErrInvalidRetention else Inr entry)))"

definition ApplyUpdateRetention :: "UpdateRetention \<Rightarrow> kv \<Rightarrow> kv \<times> unit res" where
  "ApplyUpdateRetention p t =
     (case lockTarget t (ut_Bucket p) (ut_Key p) (ut_VersionID p) of
        Inl e \<Rightarrow> (t, Inl e)
      | Inr entry \<Rightarrow>
          if ut_Mode p \<noteq> RetentionNone \<and> i64_le (ut_RetainUntilUnixMS p) (ut_ProposedAtUnixMS p)
          then (t, Inl ErrInvalidRetention)
          else
            let curMode = (if ve_RetentionMode entry \<noteq> RetentionNone \<and>
                              i64_le (ve_RetainUntilUnixMS entry) (ut_ProposedAtUnixMS p)
                           then RetentionNone else ve_RetentionMode entry)
            in if curMode = RetentionCompliance \<and>
                  (ut_Mode p \<noteq> RetentionCompliance \<or>
                   i64_less (ut_RetainUntilUnixMS p) (ve_RetainUntilUnixMS entry))
               then (t, Inl ErrObjectLocked)
               else if curMode = RetentionGovernance \<and> \<not> ut_BypassGovernance p \<and>
                  (ut_Mode p = RetentionNone \<or>
                   i64_less (ut_RetainUntilUnixMS p) (ve_RetainUntilUnixMS entry))
               then (t, Inl ErrObjectLocked)
               else
                 let entry = entry\<lparr>ve_RetentionMode := ut_Mode p,
                                   ve_RetainUntilUnixMS := ut_RetainUntilUnixMS p\<rparr>;
                     entry = (if ut_Mode p = RetentionNone
                              then entry\<lparr>ve_RetainUntilUnixMS := 0\<rparr> else entry)
                 in (tx_set t (versionRowKey (ut_Bucket p) (ut_Key p) (ve_VersionID entry))
                       (RVersion entry), Inr ()))"

definition ApplyUpdateLegalHold :: "UpdateLegalHold \<Rightarrow> kv \<Rightarrow> kv \<times> unit res" where
  "ApplyUpdateLegalHold p t =
     (case lockTarget t (ul_Bucket p) (ul_Key p) (ul_VersionID p) of
        Inl e \<Rightarrow> (t, Inl e)
      | Inr entry \<Rightarrow>
          let entry = entry\<lparr>ve_LegalHold := ul_Hold p\<rparr>
          in (tx_set t (versionRowKey (ul_Bucket p) (ul_Key p) (ve_VersionID entry))
                (RVersion entry), Inr ()))"

section \<open>Re-encoding and rewrapping\<close>

definition ApplyReEncodeObject :: "ReEncodeObject \<Rightarrow> kv \<Rightarrow> kv \<times> unit res" where
  "ApplyReEncodeObject p t =
     (case tx_get t (versionRowKey (re_Bucket p) (re_Key p) (re_VersionID p)) of
        None \<Rightarrow> (t, Inl ErrNoSuchVersion)
      | Some (RVersion entry) \<Rightarrow>
          if ve_Kind entry \<noteq> KindObject \<or> length (ve_Parts entry) > 0
          then (t, Inl ErrInvalidReEncode)
          else if re_ECDataShards p = 0 \<or>
                  unat (re_ECDataShards p + re_ECParityShards p) \<noteq> length (re_ShardChecksums p)
          then (t, Inl ErrInvalidReEncode)
          else
            let entry = entry\<lparr>ve_DataID := re_DataID p,
                              ve_ECDataShards := re_ECDataShards p,
                              ve_ECParityShards := re_ECParityShards p,
                              ve_ShardChecksums := re_ShardChecksums p\<rparr>
            in (tx_set t (versionRowKey (re_Bucket p) (re_Key p) (re_VersionID p)) (RVersion entry),
                Inr ())
      | Some _ \<Rightarrow> (t, Inl Panic))"

definition ApplyRewrapDEK :: "RewrapDEK \<Rightarrow> kv \<Rightarrow> kv \<times> unit res" where
  "ApplyRewrapDEK p t =
     (case tx_get t (versionRowKey (rw_Bucket p) (rw_Key p) (rw_VersionID p)) of
        None \<Rightarrow> (t, Inl ErrNoSuchVersion)
      | Some (RVersion entry) \<Rightarrow>
          if ve_Kind entry \<noteq> KindObject \<or> ve_EncAlgorithm entry = EncNone
          then (t, Inl ErrInvalidRewrap)
          else if length (rw_WrappedDEK p) = 0 \<or> rw_KEKFingerprint p = 0
          then (t, Inl ErrInvalidRewrap)
          else if ve_KEKFingerprint entry = rw_KEKFingerprint p then (t, Inr ())
          else
            let entry = entry\<lparr>ve_WrappedDEK := rw_WrappedDEK p,
                              ve_KEKFingerprint := rw_KEKFingerprint p\<rparr>
            in (tx_set t (versionRowKey (rw_Bucket p) (rw_Key p) (rw_VersionID p)) (RVersion entry),
                Inr ())
      | Some _ \<Rightarrow> (t, Inl Panic))"

section \<open>Cluster layout and encryption posture\<close>

definition ApplySetClusterLayout :: "SetClusterLayout \<Rightarrow> kv \<Rightarrow> kv \<times> unit res" where
  "ApplySetClusterLayout p t =
     (let install =
            (\<lambda>want.
               if sl_Version p \<noteq> want then (t, Inl ErrStaleLayout)
               else if sl_PartitionCount p = 0 \<or>
                       length (sl_Members p) = 0 \<and> length (sl_Nodes p) = 0
               then (t, Inl ErrInvalidLayout)
               else (tx_set t clusterLayoutKey
                       (RLayout \<lparr>cl_FormatVersion = currentFormatVersion,
                          cl_Version = sl_Version p, cl_PartitionCount = sl_PartitionCount p,
                          cl_Members = sl_Members p, cl_Nodes = sl_Nodes p,
                          cl_Previous = sl_Previous p, cl_unknown = []\<rparr>), Inr ()))
      in case tx_get t clusterLayoutKey of
           None \<Rightarrow> install 1
         | Some (RLayout cur) \<Rightarrow>
             if sl_PartitionCount p \<noteq> cl_PartitionCount cur then (t, Inl ErrInvalidLayout)
             else install (cl_Version cur + 1)
         | Some _ \<Rightarrow> (t, Inl Panic))"

definition ApplySetEncryptionPosture :: "SetEncryptionPosture \<Rightarrow> kv \<Rightarrow> kv \<times> unit res" where
  "ApplySetEncryptionPosture p t =
     (if se_Algorithm p \<noteq> EncNone \<and> se_Algorithm p \<noteq> EncAES256GCM then (t, Inl ErrInvalidEncryption)
      else
        let post = EncryptionPosture_zero\<lparr>ep_FormatVersion := currentFormatVersion,
                     ep_Algorithm := se_Algorithm p\<rparr>;
            establish =
              (\<lambda>post.
                 if se_KEKFingerprint p = 0
                 then (tx_set t encryptionPostureKey (RPosture post), Inr ())
                 else if ep_CurrentKEKFingerprint post = 0
                 then (tx_set t encryptionPostureKey
                         (RPosture (post\<lparr>ep_CurrentKEKFingerprint := se_KEKFingerprint p\<rparr>)), Inr ())
                 else if ep_CurrentKEKFingerprint post \<noteq> se_KEKFingerprint p
                 then (t, Inl ErrKEKMismatch)
                 else (tx_set t encryptionPostureKey (RPosture post), Inr ()))
        in case tx_get t encryptionPostureKey of
             None \<Rightarrow> establish post
           | Some (RPosture prev) \<Rightarrow>
               if ep_Algorithm prev \<noteq> EncNone \<and> se_Algorithm p = EncNone
               then (t, Inl ErrEncryptionDowngrade)
               else establish (post\<lparr>ep_CurrentKEKFingerprint := ep_CurrentKEKFingerprint prev,
                                    ep_RotatingToKEKFingerprint := ep_RotatingToKEKFingerprint prev\<rparr>)
           | Some _ \<Rightarrow> (t, Inl Panic))"

definition ApplyBeginKEKRotation :: "BeginKEKRotation \<Rightarrow> kv \<Rightarrow> kv \<times> unit res" where
  "ApplyBeginKEKRotation p t =
     (case tx_get t encryptionPostureKey of
        None \<Rightarrow> (t, Inl ErrNotEncrypting)
      | Some (RPosture post) \<Rightarrow>
          if ep_Algorithm post = EncNone then (t, Inl ErrNotEncrypting)
          else if bk_ToFingerprint p = 0 \<or> bk_ToFingerprint p = ep_CurrentKEKFingerprint post
          then (t, Inl ErrInvalidRewrap)
          else if ep_CurrentKEKFingerprint post = 0 \<or>
                  bk_FromFingerprint p \<noteq> ep_CurrentKEKFingerprint post
          then (t, Inl ErrKEKMismatch)
          else if ep_RotatingToKEKFingerprint post \<noteq> 0 \<and>
                  ep_RotatingToKEKFingerprint post \<noteq> bk_ToFingerprint p
          then (t, Inl ErrKEKMismatch)
          else (tx_set t encryptionPostureKey
                  (RPosture (post\<lparr>ep_RotatingToKEKFingerprint := bk_ToFingerprint p\<rparr>)), Inr ())
      | Some _ \<Rightarrow> (t, Inl Panic))"

definition ApplyCompleteKEKRotation :: "CompleteKEKRotation \<Rightarrow> kv \<Rightarrow> kv \<times> unit res" where
  "ApplyCompleteKEKRotation p t =
     (case tx_get t encryptionPostureKey of
        None \<Rightarrow> (t, Inl ErrNotEncrypting)
      | Some (RPosture post) \<Rightarrow>
          if ep_RotatingToKEKFingerprint post = 0
          then (if ep_CurrentKEKFingerprint post = ck_ToFingerprint p then (t, Inr ())
                else (t, Inl ErrKEKMismatch))
          else if ep_RotatingToKEKFingerprint post \<noteq> ck_ToFingerprint p
          then (t, Inl ErrKEKMismatch)
          else (tx_set t encryptionPostureKey
                  (RPosture (post\<lparr>ep_CurrentKEKFingerprint := ep_RotatingToKEKFingerprint post,
                                  ep_RotatingToKEKFingerprint := 0\<rparr>)), Inr ())
      | Some _ \<Rightarrow> (t, Inl Panic))"

section \<open>Node registry and trust bundle\<close>

definition ApplyRegisterNode :: "RegisterNode \<Rightarrow> kv \<Rightarrow> kv \<times> unit res" where
  "ApplyRegisterNode p t =
     (if rn_NodeID p = [] then (t, Inl ErrInvalidNode)
      else
        let rec = NodeRecord_zero\<lparr>nr_FormatVersion := currentFormatVersion,
                    nr_NodeID := rn_NodeID p, nr_Host := rn_Host p, nr_Zone := rn_Zone p,
                    nr_Capacity := rn_Capacity p,
                    nr_LeafCAFingerprint := rn_LeafCAFingerprint p\<rparr>
        in case tx_get t (nodeRowKey (rn_NodeID p)) of
             None \<Rightarrow> (tx_set t (nodeRowKey (rn_NodeID p)) (RNode rec), Inr ())
           | Some (RNode prev) \<Rightarrow>
               (tx_set t (nodeRowKey (rn_NodeID p))
                  (RNode (rec\<lparr>nr_BinaryVersion := nr_BinaryVersion prev,
                              nr_Generation := nr_Generation prev\<rparr>)), Inr ())
           | Some _ \<Rightarrow> (t, Inl Panic))"

definition ApplySetNodeVersion :: "SetNodeVersion \<Rightarrow> kv \<Rightarrow> kv \<times> unit res" where
  "ApplySetNodeVersion p t =
     (if nv_NodeID p = [] then (t, Inl ErrInvalidNode)
      else case tx_get t (nodeRowKey (nv_NodeID p)) of
             None \<Rightarrow> (t, Inl ErrInvalidNode)
           | Some (RNode rec) \<Rightarrow>
               (tx_set t (nodeRowKey (nv_NodeID p))
                  (RNode (rec\<lparr>nr_BinaryVersion := nv_BinaryVersion p,
                              nr_Generation := nv_Generation p\<rparr>)), Inr ())
           | Some _ \<Rightarrow> (t, Inl Panic))"

definition ApplySetNodeLeafCA :: "SetNodeLeafCA \<Rightarrow> kv \<Rightarrow> kv \<times> unit res" where
  "ApplySetNodeLeafCA p t =
     (if nl_NodeID p = [] then (t, Inl ErrInvalidNode)
      else case tx_get t (nodeRowKey (nl_NodeID p)) of
             None \<Rightarrow> (t, Inl ErrInvalidNode)
           | Some (RNode rec) \<Rightarrow>
               (tx_set t (nodeRowKey (nl_NodeID p))
                  (RNode (rec\<lparr>nr_LeafCAFingerprint := nl_LeafCAFingerprint p\<rparr>)), Inr ())
           | Some _ \<Rightarrow> (t, Inl Panic))"

definition ApplySetNodeDraining :: "SetNodeDraining \<Rightarrow> kv \<Rightarrow> kv \<times> unit res" where
  "ApplySetNodeDraining p t =
     (if nd_NodeID p = [] then (t, Inl ErrInvalidNode)
      else case tx_get t (nodeRowKey (nd_NodeID p)) of
             None \<Rightarrow> (t, Inl ErrInvalidNode)
           | Some (RNode rec) \<Rightarrow>
               (tx_set t (nodeRowKey (nd_NodeID p))
                  (RNode (rec\<lparr>nr_Draining := nd_Draining p\<rparr>)), Inr ())
           | Some _ \<Rightarrow> (t, Inl Panic))"

definition ApplySetNodeReplacedBy :: "SetNodeReplacedBy \<Rightarrow> kv \<Rightarrow> kv \<times> unit res" where
  "ApplySetNodeReplacedBy p t =
     (if nb_NodeID p = [] then (t, Inl ErrInvalidNode)
      else case tx_get t (nodeRowKey (nb_NodeID p)) of
             None \<Rightarrow> (t, Inl ErrInvalidNode)
           | Some (RNode rec) \<Rightarrow>
               (tx_set t (nodeRowKey (nb_NodeID p))
                  (RNode (rec\<lparr>nr_ReplacedBy := nb_ReplacedBy p\<rparr>)), Inr ())
           | Some _ \<Rightarrow> (t, Inl Panic))"

text \<open>The copy loop of \<^verbatim>\<open>ApplySetTrustBundle\<close> with its early return on an invalid CA.\<close>

fun copy_CAs :: "TrustedCA list \<Rightarrow> TrustedCA list \<Rightarrow> TrustedCA list res" where
  "copy_CAs acc [] = Inr acc"
| "copy_CAs acc (c # cs) =
     (if ca_Fingerprint c = 0 \<or> length (ca_CertPEM c) = 0 then Inl ErrInvalidTrustBundle
      else copy_CAs (acc @ [\<lparr>ca_Fingerprint = ca_Fingerprint c, ca_CertPEM = ca_CertPEM c\<rparr>]) cs)"

definition ApplySetTrustBundle :: "SetTrustBundle \<Rightarrow> kv \<Rightarrow> kv \<times> unit res" where
  "ApplySetTrustBundle p t =
     (let install =
            (\<lambda>want.
               if st_Version p \<noteq> want then (t, Inl ErrStaleTrustBundle)
               else if length (st_CAs p) = 0 then (t, Inl ErrInvalidTrustBundle)
               else
                 (case copy_CAs [] (st_CAs p) of
                    Inl e \<Rightarrow> (t, Inl e)
                  | Inr cas \<Rightarrow>
                      let bundle = \<lparr>tb_FormatVersion = currentFormatVersion,
                                    tb_Version = st_Version p, tb_CAs = cas,
                                    tb_IssuerFingerprint = st_IssuerFingerprint p,
                                    tb_unknown = []\<rparr>
                      in if st_IssuerFingerprint p = 0 \<or> \<not> HasCA bundle (st_IssuerFingerprint p)
                         then (t, Inl ErrInvalidTrustBundle)
                         else (tx_set t trustBundleKey (RTrust bundle), Inr ())))
      in case tx_get t trustBundleKey of
           None \<Rightarrow> install 1
         | Some (RTrust prev) \<Rightarrow> install (tb_Version prev + 1)
         | Some _ \<Rightarrow> (t, Inl Panic))"

end
