(* ===== verification/Meta_Multipart.thy ===== *)
theory Meta_Multipart
  imports Meta_Apply
begin

text \<open>
  The multipart apply functions (\<^verbatim>\<open>internal/meta/multipart.go\<close>): starting an upload, committing
  a part row, completing an upload into an object version, and aborting it.
\<close>

definition MinPartSize :: i64 where
  "MinPartSize = push_bit 20 5"

definition MaxPartNumber :: u32 where
  "MaxPartNumber = 10000"

definition ApplyCreateMultipartUpload :: "CreateMultipartUpload \<Rightarrow> kv \<Rightarrow> kv \<times> unit res" where
  "ApplyCreateMultipartUpload p t =
     (case GetBucket t (cm_Bucket p) of
        Inl e \<Rightarrow> (t, Inl e)
      | Inr None \<Rightarrow> (t, Inl ErrNoSuchBucket)
      | Inr (Some _) \<Rightarrow>
     (case validateObjectKey (cm_Key p) of
        Some err \<Rightarrow> (t, Inl err)
      | None \<Rightarrow>
          let row = uploadRowKey (cm_Bucket p) (cm_Key p) (cm_UploadID p)
          in case tx_get t row of
               Some _ \<Rightarrow> (t, Inl ErrUploadExists)
             | None \<Rightarrow>
                 (tx_set t row (RUpload \<lparr>ur_FormatVersion = currentFormatVersion,
                    ur_UploadID = cm_UploadID p, ur_CreatedUnixMS = cm_ProposedAtUnixMS p,
                    ur_ContentType = cm_ContentType p, ur_UserMetadata = cm_UserMetadata p,
                    ur_unknown = []\<rparr>), Inr ())))"

definition ApplyUploadPart :: "UploadPart \<Rightarrow> kv \<Rightarrow> kv \<times> UploadPartResult res" where
  "ApplyUploadPart p t =
     (case GetBucket t (up_Bucket p) of
        Inl e \<Rightarrow> (t, Inl e)
      | Inr None \<Rightarrow> (t, Inl ErrNoSuchBucket)
      | Inr (Some _) \<Rightarrow>
     (case validateObjectKey (up_Key p) of
        Some err \<Rightarrow> (t, Inl err)
      | None \<Rightarrow>
          if up_PartNumber p < 1 \<or> up_PartNumber p > MaxPartNumber
          then (t, Inl ErrInvalidPartNumber)
          else
            (case tx_get t (uploadRowKey (up_Bucket p) (up_Key p) (up_UploadID p)) of
               None \<Rightarrow> (t, Inl ErrNoSuchUpload)
             | Some _ \<Rightarrow>
                 let row = partRowKey (up_Bucket p) (up_Key p) (up_UploadID p) (up_PartNumber p);
                     rec = \<lparr>pr_FormatVersion = currentFormatVersion,
                            pr_PartNumber = up_PartNumber p, pr_DataID = up_DataID p,
                            pr_Size = up_Size p, pr_ETag = up_ETag p,
                            pr_Checksum = up_Checksum p,
                            pr_UploadedUnixMS = up_ProposedAtUnixMS p,
                            pr_Partition = up_Partition p,
                            pr_ECDataShards = up_ECDataShards p,
                            pr_ECParityShards = up_ECParityShards p,
                            pr_ShardChecksums = up_ShardChecksums p,
                            pr_EncAlgorithm = up_EncAlgorithm p,
                            pr_WrappedDEK = up_WrappedDEK p,
                            pr_KEKFingerprint = up_KEKFingerprint p,
                            pr_unknown = []\<rparr>
                 in case tx_get t row of
                      None \<Rightarrow> (tx_set t row (RPart rec), Inr \<lparr>upr_ReplacedDataID = 0\<rparr>)
                    | Some (RPart prior) \<Rightarrow>
                        (tx_set t row (RPart rec), Inr \<lparr>upr_ReplacedDataID = pr_DataID prior\<rparr>)
                    | Some _ \<Rightarrow> (t, Inl Panic))))"

section \<open>Completing an upload\<close>

text \<open>
  The scan of the upload's rows: a row that is not a part is skipped (a comma-ok type
  assertion), the rest arrive in part-number order.
\<close>

definition scan_parts :: "kv \<Rightarrow> gostring \<Rightarrow> PartRecord list" where
  "scan_parts t uploadRow =
     tx_scan t uploadRow
       (\<lambda>k v out.
          if \<not> prefix uploadRow k then (out, False)
          else case v of Some (RPart pr) \<Rightarrow> (out @ [pr], True) | _ \<Rightarrow> (out, True))
       []"

text \<open>The lookup map \<^verbatim>\<open>stored\<close>, filled in scan order: a later part of the same number wins.\<close>

definition stored_map :: "PartRecord list \<Rightarrow> u32 \<rightharpoonup> PartRecord" where
  "stored_map ps = foldl (\<lambda>m pr. m(pr_PartNumber pr \<mapsto> pr)) Map.empty ps"

text \<open>The ordering loop: is some part number not above its predecessor?\<close>

fun part_order_ok :: "CompletedPart list \<Rightarrow> bool" where
  "part_order_ok (p # q # ps) =
     (if cp_PartNumber q \<le> cp_PartNumber p then False else part_order_ok (q # ps))"
| "part_order_ok _ = True"

definition part_ref_of :: "PartRecord \<Rightarrow> PartRef" where
  "part_ref_of pr = \<lparr>pf_DataID = pr_DataID pr, pf_Size = pr_Size pr, pf_Checksum = pr_Checksum pr,
     pf_Partition = pr_Partition pr, pf_ECDataShards = pr_ECDataShards pr,
     pf_ECParityShards = pr_ECParityShards pr, pf_ShardChecksums = pr_ShardChecksums pr,
     pf_EncAlgorithm = pr_EncAlgorithm pr, pf_WrappedDEK = pr_WrappedDEK pr,
     pf_KEKFingerprint = pr_KEKFingerprint pr, pf_unknown = []\<rparr>"

text \<open>
  The validation loop over the client's list, with the running size (an \<^verbatim>\<open>int64\<close> sum) and the
  part references collected so far. The last element is exempt from the minimum size.
\<close>

fun collect_parts ::
    "(u32 \<rightharpoonup> PartRecord) \<Rightarrow> CompletedPart list \<Rightarrow> i64 \<Rightarrow> PartRef list \<Rightarrow> (i64 \<times> PartRef list) res" where
  "collect_parts stored [] sumSize parts = Inr (sumSize, parts)"
| "collect_parts stored (cp # cps) sumSize parts =
     (case stored (cp_PartNumber cp) of
        None \<Rightarrow> Inl ErrInvalidPart
      | Some pr \<Rightarrow>
          if pr_ETag pr \<noteq> cp_ETag cp then Inl ErrInvalidPart
          else if cps \<noteq> [] \<and> i64_less (pr_Size pr) MinPartSize then Inl ErrPartTooSmall
          else collect_parts stored cps (sumSize + pr_Size pr) (parts @ [part_ref_of pr]))"

text \<open>The clean-up loop: delete every stored part's row, note the unused data.\<close>

fun discard_parts ::
    "gostring \<Rightarrow> gostring \<Rightarrow> version_id \<Rightarrow> u32 set \<Rightarrow> PartRecord list \<Rightarrow> kv \<Rightarrow> version_id list
       \<Rightarrow> kv \<times> version_id list" where
  "discard_parts bucket key uid used [] t discarded = (t, discarded)"
| "discard_parts bucket key uid used (pr # prs) t discarded =
     (let discarded = (if pr_PartNumber pr \<in> used then discarded else discarded @ [pr_DataID pr])
      in discard_parts bucket key uid used prs
           (tx_delete t (partRowKey bucket key uid (pr_PartNumber pr))) discarded)"

definition complete_entry ::
    "CompleteMultipartUpload \<Rightarrow> UploadRecord \<Rightarrow> BucketConfig \<Rightarrow> i64 \<Rightarrow> PartRef list \<Rightarrow> version_id
       \<Rightarrow> VersionEntry" where
  "complete_entry p upload cfg sumSize parts vid = VersionEntry_zero\<lparr>
     ve_FormatVersion := currentFormatVersion,
     ve_VersionID := vid,
     ve_Kind := KindObject,
     ve_Size := sumSize,
     ve_CreatedUnixMS := co_ProposedAtUnixMS p,
     ve_ETag := co_ETag p,
     ve_ContentType := ur_ContentType upload,
     ve_UserMetadata := ur_UserMetadata upload,
     ve_Parts := parts,
     ve_NullVersion := (bc_Versioning cfg \<noteq> VersioningEnabled)\<rparr>"

definition ApplyCompleteMultipartUpload ::
    "CompleteMultipartUpload \<Rightarrow> kv \<Rightarrow> kv \<times> CompleteResult res" where
  "ApplyCompleteMultipartUpload p t =
     (case GetBucket t (co_Bucket p) of
        Inl e \<Rightarrow> (t, Inl e)
      | Inr None \<Rightarrow> (t, Inl ErrNoSuchBucket)
      | Inr (Some cfg) \<Rightarrow>
     (case validateObjectKey (co_Key p) of
        Some err \<Rightarrow> (t, Inl err)
      | None \<Rightarrow>
          let uploadRow = uploadRowKey (co_Bucket p) (co_Key p) (co_UploadID p)
          in (case tx_get t uploadRow of
                None \<Rightarrow> (t, Inl ErrNoSuchUpload)
              | Some (RUpload upload) \<Rightarrow>
                  if length (co_Parts p) = 0 then (t, Inl ErrInvalidPart)
                  else
                    let storedParts = scan_parts t uploadRow;
                        stored = stored_map storedParts
                    in if \<not> part_order_ok (co_Parts p) then (t, Inl ErrInvalidPartOrder)
                       else
                         (case collect_parts stored (co_Parts p) 0 [] of
                            Inl e \<Rightarrow> (t, Inl e)
                          | Inr (sumSize, parts) \<Rightarrow>
                         (case newestVersion t (co_Bucket p) (co_Key p) of
                            Inl e \<Rightarrow> (t, Inl e)
                          | Inr newest \<Rightarrow>
                              let used = set (map cp_PartNumber (co_Parts p));
                                  vid = bump_vid newest (co_VersionID p);
                                  entry = complete_entry p upload cfg sumSize parts vid
                              in case commit_entry t (co_Bucket p) (co_Key p)
                                        (co_ProposedAtUnixMS p) entry of
                                   (t, Inl e) \<Rightarrow> (t, Inl e)
                                 | (t, Inr replaced) \<Rightarrow>
                                     let t = tx_delete t uploadRow;
                                         (t, discarded) =
                                           discard_parts (co_Bucket p) (co_Key p) (co_UploadID p)
                                             used storedParts t replaced
                                     in (t, Inr \<lparr>cor_VersionID = vid,
                                                 cor_DiscardedDataIDs = discarded\<rparr>)))
              | Some _ \<Rightarrow> (t, Inl Panic))))"

section \<open>Aborting an upload\<close>

definition ApplyAbortMultipartUpload :: "AbortMultipartUpload \<Rightarrow> kv \<Rightarrow> kv \<times> AbortResult res" where
  "ApplyAbortMultipartUpload p t =
     (case GetBucket t (ab_Bucket p) of
        Inl e \<Rightarrow> (t, Inl e)
      | Inr None \<Rightarrow> (t, Inl ErrNoSuchBucket)
      | Inr (Some _) \<Rightarrow>
     (case validateObjectKey (ab_Key p) of
        Some err \<Rightarrow> (t, Inl err)
      | None \<Rightarrow>
          let uploadRow = uploadRowKey (ab_Bucket p) (ab_Key p) (ab_UploadID p)
          in (case tx_get t uploadRow of
                None \<Rightarrow> (t, Inl ErrNoSuchUpload)
              | Some _ \<Rightarrow>
                  let (ids, rows) =
                        tx_scan t uploadRow
                          (\<lambda>k v (ids, rows).
                             if \<not> prefix uploadRow k then ((ids, rows), False)
                             else ((case v of Some (RPart pr) \<Rightarrow> ids @ [pr_DataID pr] | _ \<Rightarrow> ids,
                                    rows @ [k]), True))
                          ([], [])
                  in (foldl tx_delete t rows, Inr \<lparr>abr_PartDataIDs = ids\<rparr>))))"

end
