(* ===== verification/Meta_Dispatch.thy ===== *)
theory Meta_Dispatch
  imports Meta_Multipart
begin

text \<open>
  Dispatch of one decoded proposal to its apply function
  (\<^verbatim>\<open>internal/meta/dispatch.go\<close>). The \<^verbatim>\<open>default\<close> branch of the type switch is not reachable from
  the sum type. Every apply function opens with \<^verbatim>\<open>defer s.txn(&err)()\<close>; \<open>Apply_body\<close> is
  the switch over the bodies and the transaction is wrapped around it once, with persistence.
\<close>

definition ret_nil :: "kv \<times> unit res \<Rightarrow> kv \<times> apply_result res" where
  "ret_nil r = (fst r, map_sum id (\<lambda>_. R_Nil) (snd r))"

definition ret_with :: "('a \<Rightarrow> apply_result) \<Rightarrow> kv \<times> 'a res \<Rightarrow> kv \<times> apply_result res" where
  "ret_with f r = (fst r, map_sum id f (snd r))"

fun Apply_body :: "proposal \<Rightarrow> kv \<Rightarrow> kv \<times> apply_result res" where
  "Apply_body (P_CreateBucket c) t = ret_nil (ApplyCreateBucket c t)"
| "Apply_body (P_DeleteBucket c) t = ret_nil (ApplyDeleteBucket c t)"
| "Apply_body (P_SetBucketVersioning c) t = ret_nil (ApplySetBucketVersioning c t)"
| "Apply_body (P_SetObjectLockConfiguration c) t = ret_nil (ApplySetObjectLockConfiguration c t)"
| "Apply_body (P_PutObject c) t = ret_with R_Put (ApplyPutObject c t)"
| "Apply_body (P_DeleteObject c) t = ret_with R_DeleteObject (ApplyDeleteObject c t)"
| "Apply_body (P_DeleteVersion c) t = ret_with R_DeleteVersion (ApplyDeleteVersion c t)"
| "Apply_body (P_UpdateRetention c) t = ret_nil (ApplyUpdateRetention c t)"
| "Apply_body (P_UpdateLegalHold c) t = ret_nil (ApplyUpdateLegalHold c t)"
| "Apply_body (P_CreateMultipartUpload c) t = ret_nil (ApplyCreateMultipartUpload c t)"
| "Apply_body (P_UploadPart c) t = ret_with R_UploadPart (ApplyUploadPart c t)"
| "Apply_body (P_CompleteMultipartUpload c) t = ret_with R_Complete (ApplyCompleteMultipartUpload c t)"
| "Apply_body (P_AbortMultipartUpload c) t = ret_with R_Abort (ApplyAbortMultipartUpload c t)"
| "Apply_body (P_SetClusterLayout c) t = ret_nil (ApplySetClusterLayout c t)"
| "Apply_body (P_SetEncryptionPosture c) t = ret_nil (ApplySetEncryptionPosture c t)"
| "Apply_body (P_BeginKEKRotation c) t = ret_nil (ApplyBeginKEKRotation c t)"
| "Apply_body (P_RewrapDEK c) t = ret_nil (ApplyRewrapDEK c t)"
| "Apply_body (P_CompleteKEKRotation c) t = ret_nil (ApplyCompleteKEKRotation c t)"
| "Apply_body (P_RegisterNode c) t = ret_nil (ApplyRegisterNode c t)"
| "Apply_body (P_SetNodeDraining c) t = ret_nil (ApplySetNodeDraining c t)"
| "Apply_body (P_SetNodeReplacedBy c) t = ret_nil (ApplySetNodeReplacedBy c t)"
| "Apply_body (P_SetNodeLeafCA c) t = ret_nil (ApplySetNodeLeafCA c t)"
| "Apply_body (P_SetNodeVersion c) t = ret_nil (ApplySetNodeVersion c t)"
| "Apply_body (P_SetTrustBundle c) t = ret_nil (ApplySetTrustBundle c t)"
| "Apply_body (P_ReEncodeObject c) t = ret_nil (ApplyReEncodeObject c t)"

lemma fst_ret [simp]: "fst (ret_nil r) = fst r" "fst (ret_with f r') = fst r'"
  by (simp_all add: ret_nil_def ret_with_def)

lemma snd_ret_Inl [simp]:
  "snd (ret_nil r) = Inl e \<longleftrightarrow> snd r = Inl e"
  "snd (ret_with f r') = Inl e \<longleftrightarrow> snd r' = Inl e"
  by (cases "snd r"; simp add: ret_nil_def) (cases "snd r'"; simp add: ret_with_def)

lemma snd_ret_Inr:
  "snd (ret_nil r) = Inr x \<longleftrightarrow> snd r = Inr () \<and> x = R_Nil"
  "snd (ret_with f r') = Inr x \<longleftrightarrow> (\<exists>y. snd r' = Inr y \<and> x = f y)"
  by (cases "snd r"; auto simp: ret_nil_def) (cases "snd r'"; auto simp: ret_with_def)

end
