(* ===== verification/Meta_Views.thy ===== *)
theory Meta_Views
  imports Meta_Dispatch
begin

text \<open>
  The keyspace seen as typed maps, and what the reads compute on it.

  A store is well typed (\<open>wf_rows\<close>) when every row's value has the type its key announces,
  under a valid bucket name and object key. On such a store the type assertions of the code
  hold, \<^verbatim>\<open>newestVersion\<close> is the entry with the largest version ID and \<^verbatim>\<open>nullVersion\<close> an entry
  marked null.
\<close>

section \<open>Well-typed rows\<close>

abbreviation valid_bucket :: "gostring \<Rightarrow> bool" where
  "valid_bucket b \<equiv> validateBucketName b = None"

abbreviation valid_key :: "gostring \<Rightarrow> bool" where
  "valid_key k \<equiv> validateObjectKey k = None"

fun wf_row :: "gostring \<Rightarrow> row \<Rightarrow> bool" where
  "wf_row k (RBucket c) \<longleftrightarrow> k = bucketRowKey (bc_Name c) \<and> valid_bucket (bc_Name c)"
| "wf_row k (RVersion e) \<longleftrightarrow>
     (\<exists>b q. k = versionRowKey b q (ve_VersionID e) \<and> valid_bucket b \<and> valid_key q)"
| "wf_row k (RCurrent c) \<longleftrightarrow> (\<exists>b q. k = currentRowKey b q \<and> valid_bucket b \<and> valid_key q)"
| "wf_row k (RUpload u) \<longleftrightarrow>
     (\<exists>b q. k = uploadRowKey b q (ur_UploadID u) \<and> valid_bucket b \<and> valid_key q)"
| "wf_row k (RPart p) \<longleftrightarrow>
     (\<exists>b q u. k = partRowKey b q u (pr_PartNumber p) \<and> valid_bucket b \<and> valid_key q)"
| "wf_row k (RLayout l) \<longleftrightarrow> k = clusterLayoutKey"
| "wf_row k (RPosture p) \<longleftrightarrow> k = encryptionPostureKey"
| "wf_row k (RTrust b) \<longleftrightarrow> k = trustBundleKey"
| "wf_row k (RNode n) \<longleftrightarrow> k = nodeRowKey (nr_NodeID n) \<and> nr_NodeID n \<noteq> []"

definition wf_rows :: "kv \<Rightarrow> bool" where
  "wf_rows t \<longleftrightarrow> tx_inv t \<and> (\<forall>k r. tx_get t k = Some r \<longrightarrow> wf_row k r)"

lemma wf_rowsD: "wf_rows t \<Longrightarrow> tx_get t k = Some r \<Longrightarrow> wf_row k r"
  by (simp add: wf_rows_def)

lemma wf_rows_inv: "wf_rows t \<Longrightarrow> tx_inv t"
  by (simp add: wf_rows_def)

lemma valid_nul_free [simp]:
  "valid_bucket b \<Longrightarrow> nul_free b" "valid_key k \<Longrightarrow> nul_free k"
  by (simp_all add: validateBucketName_nul_free validateObjectKey_nul_free)

lemma validateObjectKey_error: "validateObjectKey k = Some err \<Longrightarrow> err = ErrInvalidObjectKey"
  by (simp add: validateObjectKey_def split: if_splits)

lemma validateBucketName_error: "validateBucketName b = Some err \<Longrightarrow> err = ErrInvalidBucketName"
proof -
  have "validateBucketName_loop n i cs = Some e \<Longrightarrow> e = ErrInvalidBucketName" for n i cs e
    by (induction n i cs rule: validateBucketName_loop.induct) (auto split: if_splits)
  then show "validateBucketName b = Some err \<Longrightarrow> err = ErrInvalidBucketName"
    by (auto simp: validateBucketName_def split: if_splits)
qed

lemma wf_rows_set: "wf_rows t \<Longrightarrow> wf_row k r \<Longrightarrow> wf_rows (tx_set t k r)"
  by (auto simp: wf_rows_def)

lemma wf_rows_delete: "wf_rows t \<Longrightarrow> wf_rows (tx_delete t k)"
  by (auto simp: wf_rows_def)

lemma tx_get_new [simp]: "tx_get newTxKV = Map.empty"
  by (simp add: newTxKV_def tx_get_eq)

lemma wf_rows_new [simp]: "wf_rows newTxKV"
  by (simp add: wf_rows_def) (simp add: newTxKV_def)

lemma wf_rowI [intro]:
  "valid_bucket b \<Longrightarrow> valid_key k \<Longrightarrow> ve_VersionID e = v \<Longrightarrow> wf_row (versionRowKey b k v) (RVersion e)"
  "valid_bucket b \<Longrightarrow> valid_key k \<Longrightarrow> wf_row (currentRowKey b k) (RCurrent c)"
  "valid_bucket b \<Longrightarrow> valid_key k \<Longrightarrow> ur_UploadID u = v \<Longrightarrow> wf_row (uploadRowKey b k v) (RUpload u)"
  "valid_bucket b \<Longrightarrow> valid_key k \<Longrightarrow> pr_PartNumber p = n \<Longrightarrow> wf_row (partRowKey b k v n) (RPart p)"
  by auto

text \<open>What a lookup by a key of a given kind can find.\<close>

lemma wf_row_bucket: "wf_row (bucketRowKey b) r \<Longrightarrow> \<exists>c. r = RBucket c \<and> bc_Name c = b \<and> valid_bucket b"
  by (cases r) auto

lemma wf_row_version:
  "wf_row (versionRowKey b k v) r \<Longrightarrow>
   \<exists>e. r = RVersion e \<and> ve_VersionID e = v \<and> valid_bucket b \<and> valid_key k"
  by (cases r) (auto simp: versionRowKey_inject)

lemma wf_row_current:
  "wf_row (currentRowKey b k) r \<Longrightarrow> \<exists>c. r = RCurrent c \<and> valid_bucket b \<and> valid_key k"
  by (cases r) (auto simp: currentRowKey_inject)

lemma wf_row_upload:
  "nul_free b \<Longrightarrow> nul_free k \<Longrightarrow> wf_row (uploadRowKey b k u) r \<Longrightarrow>
   \<exists>c. r = RUpload c \<and> ur_UploadID c = u \<and> valid_bucket b \<and> valid_key k"
  by (cases r) (auto simp: uploadRowKey_inject uploadRowKey_neq_partRowKey)

lemma wf_row_part:
  "nul_free b \<Longrightarrow> nul_free k \<Longrightarrow> wf_row (partRowKey b k u n) r \<Longrightarrow>
   \<exists>p. r = RPart p \<and> pr_PartNumber p = n \<and> valid_bucket b \<and> valid_key k"
  by (cases r) (auto simp: partRowKey_inject uploadRowKey_neq_partRowKey [symmetric])

lemma wf_row_system:
  "wf_row clusterLayoutKey r \<Longrightarrow> \<exists>l. r = RLayout l"
  "wf_row encryptionPostureKey r \<Longrightarrow> \<exists>p. r = RPosture p"
  "wf_row trustBundleKey r \<Longrightarrow> \<exists>b. r = RTrust b"
  "wf_row (nodeRowKey i) r \<Longrightarrow> \<exists>n. r = RNode n \<and> nr_NodeID n = i"
  by (cases r; auto)+

section \<open>Typed views\<close>

definition bucket_of :: "kv \<Rightarrow> gostring \<Rightarrow> BucketConfig option" where
  "bucket_of t b = (case tx_get t (bucketRowKey b) of Some (RBucket c) \<Rightarrow> Some c | _ \<Rightarrow> None)"

definition versions :: "kv \<Rightarrow> gostring \<Rightarrow> gostring \<Rightarrow> version_id \<rightharpoonup> VersionEntry" where
  "versions t b k v = (case tx_get t (versionRowKey b k v) of Some (RVersion e) \<Rightarrow> Some e | _ \<Rightarrow> None)"

definition current_of :: "kv \<Rightarrow> gostring \<Rightarrow> gostring \<Rightarrow> CurrentRecord option" where
  "current_of t b k = (case tx_get t (currentRowKey b k) of Some (RCurrent c) \<Rightarrow> Some c | _ \<Rightarrow> None)"

definition upload_of :: "kv \<Rightarrow> gostring \<Rightarrow> gostring \<Rightarrow> version_id \<Rightarrow> UploadRecord option" where
  "upload_of t b k u = (case tx_get t (uploadRowKey b k u) of Some (RUpload c) \<Rightarrow> Some c | _ \<Rightarrow> None)"

definition parts_of :: "kv \<Rightarrow> gostring \<Rightarrow> gostring \<Rightarrow> version_id \<Rightarrow> u32 \<rightharpoonup> PartRecord" where
  "parts_of t b k u n = (case tx_get t (partRowKey b k u n) of Some (RPart p) \<Rightarrow> Some p | _ \<Rightarrow> None)"

lemmas view_defs = bucket_of_def versions_def current_of_def upload_of_def parts_of_def

lemma wf_get_bucket: "wf_rows t \<Longrightarrow> tx_get t (bucketRowKey b) = map_option RBucket (bucket_of t b)"
  by (cases "tx_get t (bucketRowKey b)") (auto simp: bucket_of_def dest!: wf_rowsD wf_row_bucket)

lemma wf_get_version: "wf_rows t \<Longrightarrow> tx_get t (versionRowKey b k v) = map_option RVersion (versions t b k v)"
  by (cases "tx_get t (versionRowKey b k v)") (auto simp: versions_def dest!: wf_rowsD wf_row_version)

lemma wf_get_current: "wf_rows t \<Longrightarrow> tx_get t (currentRowKey b k) = map_option RCurrent (current_of t b k)"
  by (cases "tx_get t (currentRowKey b k)") (auto simp: current_of_def dest!: wf_rowsD wf_row_current)

lemma wf_get_upload:
  "wf_rows t \<Longrightarrow> nul_free b \<Longrightarrow> nul_free k \<Longrightarrow>
   tx_get t (uploadRowKey b k u) = map_option RUpload (upload_of t b k u)"
  by (cases "tx_get t (uploadRowKey b k u)")
     (auto simp: upload_of_def dest!: wf_rowsD dest: wf_row_upload)

lemma wf_get_part:
  "wf_rows t \<Longrightarrow> nul_free b \<Longrightarrow> nul_free k \<Longrightarrow>
   tx_get t (partRowKey b k u n) = map_option RPart (parts_of t b k u n)"
  by (cases "tx_get t (partRowKey b k u n)")
     (auto simp: parts_of_def dest!: wf_rowsD dest: wf_row_part)

lemmas wf_get [kv_simps] = wf_get_bucket wf_get_version wf_get_current wf_get_upload wf_get_part

lemma bucket_of_name: "wf_rows t \<Longrightarrow> bucket_of t b = Some c \<Longrightarrow> bc_Name c = b \<and> valid_bucket b"
  by (auto simp: bucket_of_def split: option.splits row.splits dest!: wf_rowsD wf_row_bucket)

lemma versions_vid:
  "wf_rows t \<Longrightarrow> versions t b k v = Some e \<Longrightarrow> ve_VersionID e = v \<and> valid_bucket b \<and> valid_key k"
  by (auto simp: versions_def split: option.splits row.splits dest!: wf_rowsD wf_row_version)

section \<open>How writes change the views\<close>

lemma bucket_of_set_bucket [simp]:
  "bucket_of (tx_set t (bucketRowKey b) (RBucket c)) = (bucket_of t)(b \<mapsto> c)"
  by (rule ext) (simp add: bucket_of_def)

lemma bucket_of_delete_bucket [simp]:
  "bucket_of (tx_delete t (bucketRowKey b)) = (bucket_of t)(b := None)"
  by (rule ext) (simp add: bucket_of_def)

lemma versions_set_version:
  "nul_free b \<Longrightarrow> nul_free k \<Longrightarrow>
   versions (tx_set t (versionRowKey b k v) (RVersion e)) b' k' =
     (if b' = b \<and> k' = k then (versions t b k)(v \<mapsto> e) else versions t b' k')"
  by (rule ext) (simp add: versions_def versionRowKey_inject)

lemma versions_delete_version:
  "nul_free b \<Longrightarrow> nul_free k \<Longrightarrow>
   versions (tx_delete t (versionRowKey b k v)) b' k' =
     (if b' = b \<and> k' = k then (versions t b k)(v := None) else versions t b' k')"
  by (rule ext) (simp add: versions_def versionRowKey_inject)

lemma current_set_current:
  "nul_free b \<Longrightarrow> nul_free k \<Longrightarrow>
   current_of (tx_set t (currentRowKey b k) (RCurrent c)) b' k' =
     (if b' = b \<and> k' = k then Some c else current_of t b' k')"
  by (simp add: current_of_def currentRowKey_inject)

lemma current_delete_current:
  "nul_free b \<Longrightarrow> nul_free k \<Longrightarrow>
   current_of (tx_delete t (currentRowKey b k)) b' k' =
     (if b' = b \<and> k' = k then None else current_of t b' k')"
  by (simp add: current_of_def currentRowKey_inject)

lemmas view_update [kv_simps] = versions_set_version versions_delete_version current_set_current
  current_delete_current

text \<open>A write of another kind of row leaves a view alone.\<close>

lemma get_other [simp]:
  "k' \<noteq> k \<Longrightarrow> tx_get (tx_set t k r) k' = tx_get t k'"
  "k' \<noteq> k \<Longrightarrow> tx_get (tx_delete t k) k' = tx_get t k'"
  by simp_all

definition not_bucket_key :: "gostring \<Rightarrow> bool" where
  "not_bucket_key k \<longleftrightarrow> (\<forall>b. k \<noteq> bucketRowKey b)"
definition not_version_key :: "gostring \<Rightarrow> bool" where
  "not_version_key k \<longleftrightarrow> (\<forall>b q v. k \<noteq> versionRowKey b q v)"
definition not_current_key :: "gostring \<Rightarrow> bool" where
  "not_current_key k \<longleftrightarrow> (\<forall>b q. k \<noteq> currentRowKey b q)"

lemmas not_key_defs = not_bucket_key_def not_version_key_def not_current_key_def

lemma not_keys [simp]:
  "not_bucket_key (versionRowKey b k v)" "not_bucket_key (currentRowKey b k)"
  "not_bucket_key (uploadRowKey b k v)" "not_bucket_key (partRowKey b k v n)"
  "not_bucket_key clusterLayoutKey" "not_bucket_key encryptionPostureKey"
  "not_bucket_key trustBundleKey" "not_bucket_key (nodeRowKey i)"
  "not_version_key (bucketRowKey b)" "not_version_key (currentRowKey b k)"
  "not_version_key (uploadRowKey b k v)" "not_version_key (partRowKey b k v n)"
  "not_version_key clusterLayoutKey" "not_version_key encryptionPostureKey"
  "not_version_key trustBundleKey" "not_version_key (nodeRowKey i)"
  "not_current_key (versionRowKey b k v)" "not_current_key (bucketRowKey b)"
  "not_current_key (uploadRowKey b k v)" "not_current_key (partRowKey b k v n)"
  "not_current_key clusterLayoutKey" "not_current_key encryptionPostureKey"
  "not_current_key trustBundleKey" "not_current_key (nodeRowKey i)"
  by (simp_all add: not_key_defs)

lemma view_frame [simp]:
  "not_bucket_key k \<Longrightarrow> bucket_of (tx_set t k r) = bucket_of t"
  "not_bucket_key k \<Longrightarrow> bucket_of (tx_delete t k) = bucket_of t"
  "not_version_key k \<Longrightarrow> versions (tx_set t k r) = versions t"
  "not_version_key k \<Longrightarrow> versions (tx_delete t k) = versions t"
  "not_current_key k \<Longrightarrow> current_of (tx_set t k r) = current_of t"
  "not_current_key k \<Longrightarrow> current_of (tx_delete t k) = current_of t"
  by (auto simp: fun_eq_iff view_defs not_key_defs)


section \<open>The reads on a well-typed store\<close>

lemma GetBucket_eq [kv_simps]: "wf_rows t \<Longrightarrow> GetBucket t b = Inr (bucket_of t b)"
  by (simp add: GetBucket_def wf_get_bucket split: option.splits)

lemma GetVersion_eq [kv_simps]: "wf_rows t \<Longrightarrow> GetVersion t b k v = Inr (versions t b k v)"
  by (simp add: GetVersion_def wf_get_version split: option.splits)

lemma Current_eq [kv_simps]: "wf_rows t \<Longrightarrow> Current t b k = Inr (current_of t b k)"
  by (simp add: Current_def wf_get_current split: option.splits)

lemma str_v_prefix: "prefix (versionScanPrefix b k) x \<Longrightarrow> take 2 x = str ''v/''"
  by (auto simp: versionScanPrefix_def prefix_def str_def)

lemma take_2_row_keys:
  "take 2 (bucketRowKey b) = str ''b/''" "take 2 (currentRowKey b k) = str ''c/''"
  "take 2 (uploadRowKey b k v) = str ''u/''" "take 2 (partRowKey b k v n) = str ''u/''"
  "take 2 clusterLayoutKey = str ''s/''" "take 2 encryptionPostureKey = str ''s/''"
  "take 2 trustBundleKey = str ''s/''" "take 2 (nodeRowKey i) = str ''s/''"
  "take 2 (versionRowKey b k v) = str ''v/''"
  by (simp_all add: row_key_defs)

lemma wf_row_take_2:
  "wf_row x r \<Longrightarrow> take 2 x = str ''v/'' \<Longrightarrow>
   \<exists>b k e. r = RVersion e \<and> x = versionRowKey b k (ve_VersionID e) \<and> valid_bucket b \<and> valid_key k"
  "wf_row x r \<Longrightarrow> take 2 x = str ''u/'' \<Longrightarrow>
   (\<exists>b k u. r = RUpload u \<and> x = uploadRowKey b k (ur_UploadID u) \<and> valid_bucket b \<and> valid_key k) \<or>
   (\<exists>b k u p. r = RPart p \<and> x = partRowKey b k u (pr_PartNumber p) \<and> valid_bucket b \<and> valid_key k)"
  "wf_row x r \<Longrightarrow> take 2 x = str ''c/'' \<Longrightarrow>
   \<exists>b k c. r = RCurrent c \<and> x = currentRowKey b k \<and> valid_bucket b \<and> valid_key k"
  "wf_row x r \<Longrightarrow> take 2 x = str ''b/'' \<Longrightarrow> \<exists>c. r = RBucket c \<and> x = bucketRowKey (bc_Name c)"
  by (cases r; auto simp: take_2_row_keys str_def)+

lemma wf_version_prefix:
  assumes "wf_row x r" and "prefix (versionScanPrefix b k) x" and "nul_free b" and "nul_free k"
  shows "\<exists>e. r = RVersion e \<and> x = versionRowKey b k (ve_VersionID e)"
  using wf_row_take_2(1) [OF assms(1) str_v_prefix [OF assms(2)]] assms(2-4)
  by (auto simp: versionScanPrefix_iff)

text \<open>The versions of one key are the rows under its scan prefix.\<close>

lemma version_rows_dom:
  assumes "wf_rows t" and "nul_free b" and "nul_free k"
  shows "{x \<in> dom (tx_get t). prefix (versionScanPrefix b k) x} = versionRowKey b k ` dom (versions t b k)"
proof (intro equalityI subsetI)
  fix x
  assume "x \<in> {x \<in> dom (tx_get t). prefix (versionScanPrefix b k) x}"
  then obtain r where r: "tx_get t x = Some r" and p: "prefix (versionScanPrefix b k) x" by auto
  from wf_version_prefix [OF wf_rowsD [OF assms(1) r] p assms(2,3)] r
  show "x \<in> versionRowKey b k ` dom (versions t b k)" by (force simp: versions_def)
next
  fix x
  assume "x \<in> versionRowKey b k ` dom (versions t b k)"
  then show "x \<in> {x \<in> dom (tx_get t). prefix (versionScanPrefix b k) x}"
    using assms by (auto simp: versions_def versionScanPrefix_iff split: option.splits)
qed

lemma finite_versions [simp]:
  assumes "wf_rows t" and "nul_free b" and "nul_free k"
  shows "finite (dom (versions t b k))"
proof -
  have "finite {x \<in> dom (tx_get t). prefix (versionScanPrefix b k) x}"
    using memKV_inv_finite [OF wf_rows_inv [OF assms(1)]] by (simp add: tx_get_eq)
  then have "finite (versionRowKey b k ` dom (versions t b k))"
    by (simp only: version_rows_dom [OF assms])
  then show ?thesis
    by (rule finite_imageD) (auto simp: inj_on_def versionRowKey_inject assms)
qed

definition newest :: "(version_id \<rightharpoonup> VersionEntry) \<Rightarrow> VersionEntry option" where
  "newest m = (if m = Map.empty then None else m (Max (dom m)))"

lemma newest_SomeD:
  assumes "newest m = Some e" and "finite (dom m)"
  shows "m (Max (dom m)) = Some e" and "\<And>v e'. m v = Some e' \<Longrightarrow> v \<le> Max (dom m)"
proof -
  show "m (Max (dom m)) = Some e" using assms by (simp add: newest_def split: if_splits)
  show "v \<le> Max (dom m)" if "m v = Some e'" for v e'
    using that assms by (intro Max_ge) auto
qed

lemma Max_dom: "finite (dom m) \<Longrightarrow> m \<noteq> Map.empty \<Longrightarrow> \<exists>e. m (Max (dom m)) = Some e"
  by (rule domD, rule Max_in) auto

lemma newest_None [simp]: "finite (dom m) \<Longrightarrow> newest m = None \<longleftrightarrow> m = Map.empty"
  using Max_dom [of m] by (auto simp: newest_def)

lemma newest_empty [simp]: "newest (\<lambda>x. None) = None"
  by (simp add: newest_def)

lemma newestI:
  assumes "finite (dom m)" and "m v = Some e" and "\<And>w e'. m w = Some e' \<Longrightarrow> w \<le> v"
  shows "newest m = Some e"
proof -
  have "Max (dom m) = v" using assms by (intro Max_eqI) auto
  with assms(2) show ?thesis by (auto simp: newest_def)
qed

lemma newestVersion_eq [kv_simps]:
  assumes "wf_rows t" and "nul_free b" and "nul_free k"
  shows "newestVersion t b k = Inr (newest (versions t b k))"
proof (cases "versions t b k = Map.empty")
  case True
  then have "\<not> prefix (versionScanPrefix b k) x" if "x \<in> dom (tx_get t)" for x
    using that version_rows_dom [OF assms] by auto
  from tx.no_row_prefix [OF wf_rows_inv [OF assms(1)] this]
  show ?thesis by (auto simp: newestVersion_def tx_scan_eq newest_def True)
next
  case False
  define v where "v = Max (dom (versions t b k))"
  have fin: "finite (dom (versions t b k))" using assms by simp
  from False obtain e where e: "versions t b k v = Some e"
    using Max_dom [OF fin] by (auto simp: v_def)
  then have row: "tx_get t (versionRowKey b k v) = Some (RVersion e)"
    by (simp add: wf_get_version assms)
  have le: "versionRowKey b k v \<le> x"
    if "x \<in> dom (tx_get t)" "prefix (versionScanPrefix b k) x" for x
  proof -
    from that version_rows_dom [OF assms] have "x \<in> versionRowKey b k ` dom (versions t b k)"
      by blast
    then obtain w where w: "w \<in> dom (versions t b k)" "x = versionRowKey b k w" by auto
    then have "w \<le> v" using fin by (simp add: v_def)
    then show ?thesis using w(2) versionRowKey_less_iff [of b k w v] by (auto simp: not_less [symmetric])
  qed
  from tx.first_row_prefix [OF wf_rows_inv [OF assms(1)], of "versionRowKey b k v" "versionScanPrefix b k"]
    row le assms
  obtain rest where "tx_rows t (versionScanPrefix b k) = (versionRowKey b k v, Some (RVersion e)) # rest"
    by (auto simp: versionScanPrefix_iff)
  with e False show ?thesis
    by (simp add: newestVersion_def tx_scan_eq newest_def versionScanPrefix_iff assms v_def)
qed


text \<open>The rows under a key's scan prefix, newest version first.\<close>

lemma version_rows:
  assumes "wf_rows t" and "nul_free b" and "nul_free k"
  shows "prefix_rows t (versionScanPrefix b k) =
    map (\<lambda>v. (versionRowKey b k v, Some (RVersion (the (versions t b k v)))))
      (rev (sorted_list_of_set (dom (versions t b k))))"
proof -
  have "sorted_list_of_set {x \<in> dom (tx_get t). prefix (versionScanPrefix b k) x} =
      map (versionRowKey b k) (rev (sorted_list_of_set (dom (versions t b k))))"
    unfolding version_rows_dom [OF assms]
    by (rule sorted_list_of_set_image_antimono) (simp_all add: assms)
  then show ?thesis
    using finite_versions [OF assms] by (auto simp: prefix_rows_def wf_get_version assms)
qed

lemma nullVersion_eq:
  assumes "wf_rows t" and "nul_free b" and "nul_free k"
  shows "nullVersion t b k =
    Inr (find ve_NullVersion (map (\<lambda>v. the (versions t b k v)) (rev (sorted_list_of_set (dom (versions t b k))))))"
proof -
  let ?step = "\<lambda>k v found. case v of
      Some (RVersion e) \<Rightarrow> if ve_NullVersion e then (Inr (Some e), False) else (found, True)
    | _ \<Rightarrow> (Inl Panic, False)"
  have "nullVersion t b k = scan_rows (prefix_rows t (versionScanPrefix b k)) ?step (Inr None)"
    unfolding nullVersion_def Let_def
    by (rule tx_scan_prefix) (auto simp: wf_rows_inv assms set_prefix_rows)
  moreover have "scan_rows (map (\<lambda>v. (f v, Some (RVersion (g v)))) vs) ?step (Inr None) =
      Inr (find ve_NullVersion (map g vs))" for f :: "version_id \<Rightarrow> gostring" and g vs
    by (induction vs) auto
  ultimately show ?thesis by (simp add: version_rows assms)
qed

lemma find_SomeD: "find P xs = Some x \<Longrightarrow> x \<in> set xs \<and> P x"
  by (induction xs) (auto split: if_splits)

text \<open>\<^verbatim>\<open>nullVersion\<close> never panics; it finds a null entry exactly when there is one.\<close>

lemma nullVersion_spec:
  assumes "wf_rows t" and "nul_free b" and "nul_free k"
  obtains r where "nullVersion t b k = Inr r"
    and "\<And>e. r = Some e \<Longrightarrow> versions t b k (ve_VersionID e) = Some e \<and> ve_NullVersion e"
    and "\<And>v e. r = None \<Longrightarrow> versions t b k v = Some e \<Longrightarrow> \<not> ve_NullVersion e"
proof -
  let ?vs = "rev (sorted_list_of_set (dom (versions t b k)))"
  let ?r = "find ve_NullVersion (map (\<lambda>v. the (versions t b k v)) ?vs)"
  have vs: "set ?vs = dom (versions t b k)" using finite_versions [OF assms] by simp
  have "versions t b k (ve_VersionID e) = Some e \<and> ve_NullVersion e" if "?r = Some e" for e
  proof -
    from that have "e \<in> set (map (\<lambda>v. the (versions t b k v)) ?vs)" "ve_NullVersion e"
      by (auto dest!: find_SomeD simp del: set_map)
    with vs show ?thesis using versions_vid [OF assms(1)] by fastforce
  qed
  moreover have "\<not> ve_NullVersion e" if "?r = None" "versions t b k v = Some e" for v e
  proof -
    have "e \<in> set (map (\<lambda>v. the (versions t b k v)) ?vs)"
      using vs that(2) by (force simp: image_iff)
    with that(1) show ?thesis by (auto simp: find_None_iff)
  qed
  ultimately show ?thesis using that [of ?r] nullVersion_eq [OF assms] by blast
qed

end
