(* ===== verification/Meta_Invariant.thy ===== *)
theory Meta_Invariant
  imports Meta_Views
begin

text \<open>
  The invariant of the metadata store, preserved by every apply function: well-typed rows;
  for every object key the current row is derived from the newest version, at most one
  version is null, and every version is null while the bucket is unversioned; versions and
  uploads live in existing buckets; system rows are consistent. The parameter \<open>n\<close> bounds the
  version IDs away from the largest value, so that \<^verbatim>\<open>VersionID.Next\<close> does not wrap.
\<close>

section \<open>The invariant\<close>

definition derived_current :: "(version_id \<rightharpoonup> VersionEntry) \<Rightarrow> CurrentRecord option" where
  "derived_current m =
     (case newest m of
        Some e \<Rightarrow> if ve_Kind e = KindObject then Some (currentRecordFor e) else None
      | None \<Rightarrow> None)"

definition one_null :: "(version_id \<rightharpoonup> VersionEntry) \<Rightarrow> bool" where
  "one_null m \<longleftrightarrow> (\<forall>v w e f. m v = Some e \<longrightarrow> m w = Some f \<longrightarrow> ve_NullVersion e \<longrightarrow> ve_NullVersion f \<longrightarrow> v = w)"

definition all_null :: "(version_id \<rightharpoonup> VersionEntry) \<Rightarrow> bool" where
  "all_null m \<longleftrightarrow> (\<forall>v e. m v = Some e \<longrightarrow> ve_NullVersion e)"

definition vids_below :: "nat \<Rightarrow> (version_id \<rightharpoonup> VersionEntry) \<Rightarrow> bool" where
  "vids_below n m \<longleftrightarrow> (\<forall>v e. m v = Some e \<longrightarrow> unat v + n < 2 ^ 128)"

definition key_ok :: "nat \<Rightarrow> BucketConfig option \<Rightarrow> (version_id \<rightharpoonup> VersionEntry) \<Rightarrow> CurrentRecord option \<Rightarrow> bool" where
  "key_ok n cfg m cur \<longleftrightarrow>
     cur = derived_current m \<and> one_null m \<and> vids_below n m \<and>
     (m \<noteq> Map.empty \<longrightarrow> (\<exists>c. cfg = Some c \<and> (bc_Versioning c = Unversioned \<longrightarrow> all_null m)))"

definition bucket_ok :: "BucketConfig \<Rightarrow> bool" where
  "bucket_ok c \<longleftrightarrow> bc_Versioning c \<in> {Unversioned, VersioningEnabled, VersioningSuspended} \<and>
     (bc_ObjectLockEnabled c \<longrightarrow> bc_Versioning c = VersioningEnabled)"

definition uploads_ok :: "kv \<Rightarrow> bool" where
  "uploads_ok t \<longleftrightarrow>
     (\<forall>b k u. valid_bucket b \<longrightarrow> valid_key k \<longrightarrow>
        (upload_of t b k u \<noteq> None \<longrightarrow> bucket_of t b \<noteq> None) \<and>
        (\<forall>n p. parts_of t b k u n = Some p \<longrightarrow>
           upload_of t b k u \<noteq> None \<and> n \<noteq> 0 \<and> n \<le> MaxPartNumber))"

definition layout_ok :: "ClusterLayout \<Rightarrow> bool" where
  "layout_ok l \<longleftrightarrow> cl_PartitionCount l \<noteq> 0 \<and> (cl_Members l \<noteq> [] \<or> cl_Nodes l \<noteq> [])"

definition posture_ok :: "EncryptionPosture \<Rightarrow> bool" where
  "posture_ok p \<longleftrightarrow>
     (ep_RotatingToKEKFingerprint p \<noteq> 0 \<longrightarrow>
        ep_Algorithm p \<noteq> EncNone \<and> ep_CurrentKEKFingerprint p \<noteq> 0 \<and>
        ep_RotatingToKEKFingerprint p \<noteq> ep_CurrentKEKFingerprint p)"

definition trust_ok :: "TrustBundle \<Rightarrow> bool" where
  "trust_ok b \<longleftrightarrow> tb_IssuerFingerprint b \<in> ca_Fingerprint ` set (tb_CAs b) \<and>
     (\<forall>c \<in> set (tb_CAs b). ca_Fingerprint c \<noteq> 0 \<and> ca_CertPEM c \<noteq> [])"

definition system_ok :: "kv \<Rightarrow> bool" where
  "system_ok t \<longleftrightarrow>
     (\<forall>l. tx_get t clusterLayoutKey = Some (RLayout l) \<longrightarrow> layout_ok l) \<and>
     (\<forall>p. tx_get t encryptionPostureKey = Some (RPosture p) \<longrightarrow> posture_ok p) \<and>
     (\<forall>b. tx_get t trustBundleKey = Some (RTrust b) \<longrightarrow> trust_ok b)"

definition store_inv :: "nat \<Rightarrow> kv \<Rightarrow> bool" where
  "store_inv n t \<longleftrightarrow>
     wf_rows t \<and>
     (\<forall>b k. key_ok n (bucket_of t b) (versions t b k) (current_of t b k)) \<and>
     (\<forall>b c. bucket_of t b = Some c \<longrightarrow> bucket_ok c) \<and>
     uploads_ok t \<and> system_ok t"

lemma store_invD:
  assumes "store_inv n t"
  shows "wf_rows t" "key_ok n (bucket_of t b) (versions t b k) (current_of t b k)"
    "bucket_of t b = Some c \<Longrightarrow> bucket_ok c" "uploads_ok t" "system_ok t"
  using assms by (auto simp: store_inv_def)

lemma uploads_okI:
  assumes "\<And>b k u r. valid_bucket b \<Longrightarrow> valid_key k \<Longrightarrow> upload_of t b k u = Some r \<Longrightarrow> bucket_of t b \<noteq> None"
    and "\<And>b k u m p. valid_bucket b \<Longrightarrow> valid_key k \<Longrightarrow> parts_of t b k u m = Some p \<Longrightarrow>
      upload_of t b k u \<noteq> None \<and> m \<noteq> 0 \<and> m \<le> MaxPartNumber"
  shows "uploads_ok t"
  using assms by (fastforce simp: uploads_ok_def)

lemma uploads_okD:
  assumes "uploads_ok t" and "valid_bucket b" and "valid_key k"
  shows "upload_of t b k u = Some r \<Longrightarrow> bucket_of t b \<noteq> None"
    and "parts_of t b k u m = Some p \<Longrightarrow> upload_of t b k u \<noteq> None \<and> m \<noteq> 0 \<and> m \<le> MaxPartNumber"
  using assms unfolding uploads_ok_def by blast+

lemma store_inv_new: "store_inv n newTxKV"
  by (auto simp: store_inv_def key_ok_def derived_current_def one_null_def vids_below_def
      uploads_ok_def system_ok_def view_defs newest_def)

lemma vids_below_mono: "vids_below n m \<Longrightarrow> n' \<le> n \<Longrightarrow> vids_below n' m"
  by (fastforce simp: vids_below_def)

lemma key_ok_mono: "key_ok n cfg m cur \<Longrightarrow> n' \<le> n \<Longrightarrow> key_ok n' cfg m cur"
  using vids_below_mono by (auto simp: key_ok_def)

lemma store_inv_mono: "store_inv n t \<Longrightarrow> n' \<le> n \<Longrightarrow> store_inv n' t"
  by (auto simp: store_inv_def intro: key_ok_mono)

section \<open>Upload views\<close>

definition not_upload_key :: "gostring \<Rightarrow> bool" where
  "not_upload_key x \<longleftrightarrow> (\<forall>b k u n. x \<noteq> uploadRowKey b k u \<and> x \<noteq> partRowKey b k u n)"

definition not_system_key :: "gostring \<Rightarrow> bool" where
  "not_system_key x \<longleftrightarrow> x \<notin> {clusterLayoutKey, encryptionPostureKey, trustBundleKey}"

lemma not_upload_keys [simp]:
  "not_upload_key (bucketRowKey b)" "not_upload_key (currentRowKey b k)"
  "not_upload_key (versionRowKey b k v)" "not_upload_key (nodeRowKey i)"
  "not_upload_key clusterLayoutKey" "not_upload_key encryptionPostureKey"
  "not_upload_key trustBundleKey"
  by (simp_all add: not_upload_key_def)

lemma not_system_keys [simp]:
  "not_system_key (bucketRowKey b)" "not_system_key (currentRowKey b k)"
  "not_system_key (versionRowKey b k v)" "not_system_key (nodeRowKey i)"
  "not_system_key (uploadRowKey b k v)" "not_system_key (partRowKey b k v n)"
  by (simp_all add: not_system_key_def)

lemma upload_frame [simp]:
  "not_upload_key x \<Longrightarrow> upload_of (tx_set t x r) = upload_of t"
  "not_upload_key x \<Longrightarrow> upload_of (tx_delete t x) = upload_of t"
  "not_upload_key x \<Longrightarrow> parts_of (tx_set t x r) = parts_of t"
  "not_upload_key x \<Longrightarrow> parts_of (tx_delete t x) = parts_of t"
  by (auto simp: fun_eq_iff view_defs not_upload_key_def)

lemma system_frame [simp]:
  "not_system_key x \<Longrightarrow> system_ok (tx_set t x r) = system_ok t"
  "not_system_key x \<Longrightarrow> system_ok (tx_delete t x) = system_ok t"
  by (auto simp: system_ok_def not_system_key_def)

text \<open>A write of object rows, as seen by the rest of the store.\<close>

definition same_rest :: "kv \<Rightarrow> kv \<Rightarrow> bool" where
  "same_rest t t' \<longleftrightarrow> bucket_of t' = bucket_of t \<and> upload_of t' = upload_of t \<and>
     parts_of t' = parts_of t \<and> system_ok t' = system_ok t"

lemma same_rest_refl [simp]: "same_rest t t"
  by (simp add: same_rest_def)

lemma same_rest_writes [simp]:
  "same_rest t (tx_set u (versionRowKey b k v) r) = same_rest t u"
  "same_rest t (tx_delete u (versionRowKey b k v)) = same_rest t u"
  "same_rest t (tx_set u (currentRowKey b k) r) = same_rest t u"
  "same_rest t (tx_delete u (currentRowKey b k)) = same_rest t u"
  by (simp_all add: same_rest_def)

lemma uploads_ok_same_rest: "same_rest t t' \<Longrightarrow> uploads_ok t' = uploads_ok t"
  by (simp add: same_rest_def uploads_ok_def)

text \<open>
  The effect of an object write: the versions of one key become \<open>m\<close> and its current row
  \<open>c\<close>; everything else stays. The invariant has to be shown for that key only.
\<close>

definition object_effect ::
    "kv \<Rightarrow> gostring \<Rightarrow> gostring \<Rightarrow> (version_id \<rightharpoonup> VersionEntry) \<Rightarrow> CurrentRecord option \<Rightarrow> kv \<Rightarrow> bool" where
  "object_effect t b k m c t' \<longleftrightarrow> wf_rows t' \<and> same_rest t t' \<and>
     (\<forall>b' k'. versions t' b' k' = (if b' = b \<and> k' = k then m else versions t b' k')) \<and>
     (\<forall>b' k'. current_of t' b' k' = (if b' = b \<and> k' = k then c else current_of t b' k'))"

lemma object_effect_refl: "wf_rows t \<Longrightarrow> object_effect t b k (versions t b k) (current_of t b k) t"
  by (auto simp: object_effect_def)

lemma object_effect_set_version:
  "object_effect t b k m c t' \<Longrightarrow> valid_bucket b \<Longrightarrow> valid_key k \<Longrightarrow> ve_VersionID e = v \<Longrightarrow>
   object_effect t b k (m(v \<mapsto> e)) c (tx_set t' (versionRowKey b k v) (RVersion e))"
  by (auto simp: object_effect_def versions_set_version simp del: wf_row.simps intro!: wf_rows_set)

lemma object_effect_delete_version:
  "object_effect t b k m c t' \<Longrightarrow> valid_bucket b \<Longrightarrow> valid_key k \<Longrightarrow>
   object_effect t b k (m(v := None)) c (tx_delete t' (versionRowKey b k v))"
  by (auto simp: object_effect_def versions_delete_version intro!: wf_rows_delete)

lemma object_effect_set_current:
  "object_effect t b k m c t' \<Longrightarrow> valid_bucket b \<Longrightarrow> valid_key k \<Longrightarrow>
   object_effect t b k m (Some r) (tx_set t' (currentRowKey b k) (RCurrent r))"
  by (auto simp: object_effect_def current_set_current simp del: wf_row.simps intro!: wf_rows_set)

lemma object_effect_delete_current:
  "object_effect t b k m c t' \<Longrightarrow> valid_bucket b \<Longrightarrow> valid_key k \<Longrightarrow>
   object_effect t b k m None (tx_delete t' (currentRowKey b k))"
  by (auto simp: object_effect_def current_delete_current intro!: wf_rows_delete)

lemmas object_effect_intros = object_effect_refl object_effect_set_version
  object_effect_delete_version object_effect_set_current object_effect_delete_current

lemma object_effectD:
  assumes "object_effect t b k m c t'"
  shows "wf_rows t'" "same_rest t t'" "versions t' b k = m" "current_of t' b k = c"
    "\<not> (b' = b \<and> k' = k) \<Longrightarrow> versions t' b' k' = versions t b' k'"
  using assms by (auto simp: object_effect_def)

lemma store_inv_object:
  assumes "store_inv n t" and "n' \<le> n" and "object_effect t b k m c t'"
    and "key_ok n' (bucket_of t b) m c"
  shows "store_inv n' t'"
proof -
  have bucket: "bucket_of t' = bucket_of t" and sys: "system_ok t' = system_ok t"
    using object_effectD(2) [OF assms(3)] by (simp_all add: same_rest_def)
  have "key_ok n' (bucket_of t' b') (versions t' b' k') (current_of t' b' k')" for b' k'
    using assms(3,4) key_ok_mono [OF store_invD(2) [OF assms(1)] assms(2)]
    by (cases "b' = b \<and> k' = k") (auto simp: bucket object_effect_def)
  with assms(1) uploads_ok_same_rest [OF object_effectD(2) [OF assms(3)]] object_effectD(1) [OF assms(3)]
  show ?thesis by (simp add: store_inv_def bucket sys)
qed

section \<open>Inserting a newest version\<close>

lemma newest_insert:
  "finite (dom m) \<Longrightarrow> (\<And>v e'. m v = Some e' \<Longrightarrow> v < vid) \<Longrightarrow> newest (m(vid \<mapsto> e)) = Some e"
  by (rule newestI [where v = vid]) (auto intro: less_imp_le split: if_splits)

text \<open>What an overwrite of the null version leaves.\<close>

definition without_null :: "(version_id \<rightharpoonup> VersionEntry) \<Rightarrow> version_id \<rightharpoonup> VersionEntry" where
  "without_null m v = (case m v of Some e \<Rightarrow> if ve_NullVersion e then None else Some e | None \<Rightarrow> None)"

lemma without_null_Some: "without_null m v = Some e \<longleftrightarrow> m v = Some e \<and> \<not> ve_NullVersion e"
  by (auto simp: without_null_def split: option.splits)

lemma finite_without_null: "finite (dom m) \<Longrightarrow> finite (dom (without_null m))"
  by (rule finite_subset [of _ "dom m"]) (auto simp: without_null_Some)

lemma without_null_absent: "(\<And>v e. m v = Some e \<Longrightarrow> \<not> ve_NullVersion e) \<Longrightarrow> without_null m = m"
  by (rule ext) (auto simp: without_null_def split: option.splits)

lemma without_null_unique:
  "one_null m \<Longrightarrow> m v = Some e \<Longrightarrow> ve_NullVersion e \<Longrightarrow> without_null m = m(v := None)"
  by (rule ext) (auto simp: without_null_def one_null_def split: option.splits)

lemma all_null_without_null: "all_null m \<Longrightarrow> without_null m = Map.empty"
  by (rule ext) (auto simp: without_null_def all_null_def split: option.splits)

text \<open>The bumped ID sorts after every version of the key.\<close>

lemma vids_below_not_max: "vids_below (Suc n) m \<Longrightarrow> m v = Some e \<Longrightarrow> v \<noteq> - 1"
proof
  assume b: "vids_below (Suc n) m" "m v = Some e" and "v = - 1"
  then have "unat (- 1 :: version_id) + Suc n < 2 ^ 128" unfolding vids_below_def by blast
  then show False by (simp add: unat_minus_1)
qed

lemma bump_vid_above:
  assumes "finite (dom m)" and "vids_below (Suc n) m"
    and "\<And>v e. m v = Some e \<Longrightarrow> ve_VersionID e = v" and "m v = Some e"
  shows "v < bump_vid (newest m) vid"
proof -
  obtain top where top: "newest m = Some top"
    using newest_None [OF assms(1)] assms(4) by (cases "newest m") auto
  from newest_SomeD [OF top assms(1)] assms(4) have "m (Max (dom m)) = Some top" "v \<le> Max (dom m)"
    by auto
  with assms(3) have "v \<le> ve_VersionID top" "ve_VersionID top \<noteq> - 1"
    using vids_below_not_max [OF assms(2)] by auto
  then show ?thesis
    using less_vid_next [of "ve_VersionID top"] by (auto simp: bump_vid_def top)
qed

lemma bump_vid_below:
  assumes "finite (dom m)" and "vids_below (Suc n) m"
    and "\<And>v e. m v = Some e \<Longrightarrow> ve_VersionID e = v" and "unat vid + n < 2 ^ 128"
  shows "unat (bump_vid (newest m) vid) + n < 2 ^ 128"
proof (cases "newest m")
  case None
  then show ?thesis using assms(4) by (simp only: bump_vid_def option.case)
next
  case (Some top)
  from newest_SomeD(1) [OF Some assms(1)] have top: "m (ve_VersionID top) = Some top"
    using assms(3) by auto
  then have "unat (ve_VersionID top) + Suc n < 2 ^ 128"
    using assms(2) unfolding vids_below_def by blast
  moreover have "unat (vid_next (ve_VersionID top)) \<le> Suc (unat (ve_VersionID top))"
    by (simp add: vid_next_eq unat_word_ariths)
  ultimately show ?thesis using assms(4) by (auto simp: bump_vid_def Some)
qed

text \<open>
  The version list after a commit: the new entry on top, the null version gone when the new
  entry replaces it.
\<close>

definition pushed :: "(version_id \<rightharpoonup> VersionEntry) \<Rightarrow> VersionEntry \<Rightarrow> version_id \<rightharpoonup> VersionEntry" where
  "pushed m e = (if ve_NullVersion e then without_null m else m)(ve_VersionID e \<mapsto> e)"

lemma key_ok_pushed:
  assumes "key_ok (Suc n) (Some cfg) m cur" and "finite (dom m)"
    and "\<And>v e. m v = Some e \<Longrightarrow> ve_VersionID e = v"
    and "ve_VersionID e = bump_vid (newest m) vid" and "unat vid + n < 2 ^ 128"
    and "bc_Versioning cfg = Unversioned \<Longrightarrow> ve_NullVersion e"
  shows "newest (pushed m e) = Some e"
    and "key_ok n (Some cfg) (pushed m e) (if ve_Kind e = KindObject then Some (currentRecordFor e) else None)"
proof -
  have below: "vids_below (Suc n) m" and one: "one_null m"
    and unv: "bc_Versioning cfg = Unversioned \<Longrightarrow> m \<noteq> Map.empty \<Longrightarrow> all_null m"
    using assms(1) by (auto simp: key_ok_def)
  have above: "v < ve_VersionID e" if "m v = Some e'" for v e'
    unfolding assms(4) by (rule bump_vid_above [OF assms(2) below assms(3) that]) simp_all
  show newest: "newest (pushed m e) = Some e"
    unfolding pushed_def
    by (rule newest_insert)
       (auto simp: without_null_Some finite_without_null assms(2) intro: above split: if_splits)
  have "unat (ve_VersionID e) + n < 2 ^ 128"
    unfolding assms(4) by (rule bump_vid_below [OF assms(2) below assms(3) assms(5)]) simp
  with vids_below_mono [OF below, of n] have "vids_below n (pushed m e)"
    by (auto simp: vids_below_def pushed_def without_null_Some)
  moreover have "one_null (pushed m e)"
    using one by (auto simp: one_null_def pushed_def without_null_Some)
  moreover have "all_null (pushed m e)" if "bc_Versioning cfg = Unversioned"
    using unv assms(6) that all_null_without_null [of m]
    by (cases "m = Map.empty") (auto simp: all_null_def pushed_def without_null_Some)
  ultimately show "key_ok n (Some cfg) (pushed m e)
      (if ve_Kind e = KindObject then Some (currentRecordFor e) else None)"
    by (auto simp: key_ok_def derived_current_def newest)
qed


section \<open>Replacing the null version\<close>

lemma removeNullVersion_spec:
  assumes "wf_rows t" and "valid_bucket b" and "valid_key k" and "one_null (versions t b k)"
    and "removeNullVersion t b k at = (t', r)"
  shows "r = Inl err \<Longrightarrow> t' = t \<and> err = ErrObjectLocked"
    and "r = Inr ids \<Longrightarrow> object_effect t b k (without_null (versions t b k)) (current_of t b k) t'"
    and "r = Inr ids \<Longrightarrow> versions t b k v = Some e \<Longrightarrow> ve_NullVersion e \<Longrightarrow>
      \<not> lockedAt e at False \<and> ids = DataIDs e"
proof -
  obtain nv where nv: "nullVersion t b k = Inr nv"
    and some: "\<And>e. nv = Some e \<Longrightarrow> versions t b k (ve_VersionID e) = Some e \<and> ve_NullVersion e"
    and none: "\<And>v e. nv = None \<Longrightarrow> versions t b k v = Some e \<Longrightarrow> \<not> ve_NullVersion e"
    using nullVersion_spec [OF assms(1), of b k] assms(2,3) by auto
  note body = assms(5) [unfolded removeNullVersion_def nv sum.case]
  show "t' = t \<and> err = ErrObjectLocked" if "r = Inl err"
    using body that by (auto split: option.splits if_splits)
  show "object_effect t b k (without_null (versions t b k)) (current_of t b k) t'" if "r = Inr ids"
  proof (cases nv)
    case None
    with body none [OF None] that object_effect_refl [OF assms(1)] show ?thesis
      by (auto simp: without_null_absent)
  next
    case (Some p)
    with body that have "t' = tx_delete t (versionRowKey b k (ve_VersionID p))"
      by (auto split: if_splits)
    moreover have "without_null (versions t b k) = (versions t b k)(ve_VersionID p := None)"
      using some [OF Some] without_null_unique [OF assms(4)] by blast
    ultimately show ?thesis
      using object_effect_delete_version [OF object_effect_refl [OF assms(1)] assms(2,3)] by simp
  qed
  show "\<not> lockedAt e at False \<and> ids = DataIDs e"
    if "r = Inr ids" "versions t b k v = Some e" "ve_NullVersion e"
  proof (cases nv)
    case None
    with none that show ?thesis by auto
  next
    case (Some p)
    with some have "ve_VersionID p = v" using assms(4) that unfolding one_null_def by blast
    with Some some that have "p = e" by auto
    with body Some that show ?thesis by (auto split: if_splits)
  qed
qed

lemma commit_entry_spec:
  assumes "wf_rows t" and "valid_bucket b" and "valid_key k" and "one_null (versions t b k)"
    and "commit_entry t b k at e = (t', r)"
  shows "r = Inl err \<Longrightarrow> t' = t \<and> err = ErrObjectLocked"
    and "r = Inr ids \<Longrightarrow> object_effect t b k (pushed (versions t b k) e) (Some (currentRecordFor e)) t'"
    and "r = Inr ids \<Longrightarrow> ve_NullVersion e \<Longrightarrow> versions t b k v = Some e' \<Longrightarrow> ve_NullVersion e' \<Longrightarrow>
      \<not> lockedAt e' at False \<and> ids = DataIDs e'"
proof -
  let ?m = "versions t b k"
  obtain u r' where rm: "(if ve_NullVersion e then removeNullVersion t b k at else (t, Inr [])) = (u, r')"
    by fastforce
  note body = assms(5) [unfolded commit_entry_def rm Let_def prod.case]
  have err: "u = t \<and> x = ErrObjectLocked" if "r' = Inl x" for x
    using rm that removeNullVersion_spec(1) [OF assms(1-4)] by (auto split: if_splits)
  then show "t' = t \<and> err = ErrObjectLocked" if "r = Inl err"
    using body that by (auto split: sum.splits)
  have u: "object_effect t b k (if ve_NullVersion e then without_null ?m else ?m) (current_of t b k) u"
    if "r' = Inr x" for x
    using rm that removeNullVersion_spec(2) [OF assms(1-4)] object_effect_refl [OF assms(1)]
    by (auto split: if_splits)
  show "object_effect t b k (pushed ?m e) (Some (currentRecordFor e)) t'" if "r = Inr ids"
    using body that assms(2,3) u
    by (auto simp: pushed_def split: sum.splits intro!: object_effect_set_current object_effect_set_version)
  show "\<not> lockedAt e' at False \<and> ids = DataIDs e'"
    if "r = Inr ids" "ve_NullVersion e" "versions t b k v = Some e'" "ve_NullVersion e'"
    using body rm that removeNullVersion_spec(3) [OF assms(1-4), of at u r']
    by (auto split: sum.splits)
qed

end
