(* ===== verification/Meta_Txn.thy ===== *)
theory Meta_Txn
  imports Meta_Dispatch
begin

text \<open>
  The apply functions change the store through \<^verbatim>\<open>txKV.set\<close> and \<^verbatim>\<open>txKV.delete\<close> only, and what they
  write is either a record made at the current format version or a stored record with other
  fields changed. Whatever such writes keep, every apply function keeps. Instances: the store's
  representation invariant, the correctness of the undo log, and that every stored record
  carries a format version, so that its encoding is not empty.
\<close>

fun row_version :: "row \<Rightarrow> u32" where
  "row_version (RBucket r) = bc_FormatVersion r"
| "row_version (RVersion r) = ve_FormatVersion r"
| "row_version (RCurrent r) = cr_FormatVersion r"
| "row_version (RUpload r) = ur_FormatVersion r"
| "row_version (RPart r) = pr_FormatVersion r"
| "row_version (RLayout r) = cl_FormatVersion r"
| "row_version (RPosture r) = ep_FormatVersion r"
| "row_version (RTrust r) = tb_FormatVersion r"
| "row_version (RNode r) = nr_FormatVersion r"

definition formatted :: "kv \<Rightarrow> bool" where
  "formatted t \<longleftrightarrow> (\<forall>k r. tx_get t k = Some r \<longrightarrow> row_version r \<noteq> 0)"

fun system_proposal :: "proposal \<Rightarrow> bool" where
  "system_proposal (P_SetClusterLayout c) = True"
| "system_proposal (P_SetEncryptionPosture c) = True"
| "system_proposal (P_BeginKEKRotation c) = True"
| "system_proposal (P_CompleteKEKRotation c) = True"
| "system_proposal (P_RegisterNode c) = True"
| "system_proposal (P_SetNodeDraining c) = True"
| "system_proposal (P_SetNodeReplacedBy c) = True"
| "system_proposal (P_SetNodeLeafCA c) = True"
| "system_proposal (P_SetNodeVersion c) = True"
| "system_proposal (P_SetTrustBundle c) = True"
| "system_proposal p = False"

text \<open>\<open>K\<close> holds the keys that may be written; the object operations write object keys only.\<close>

locale write_closed =
  fixes P :: "kv \<Rightarrow> bool" and Q :: "row \<Rightarrow> bool" and K :: "gostring \<Rightarrow> bool"
  assumes set_closed: "P t \<Longrightarrow> Q r \<Longrightarrow> K k \<Longrightarrow> P (tx_set t k r)"
    and delete_closed: "P t \<Longrightarrow> K k \<Longrightarrow> P (tx_delete t k)"
    and fresh_row: "row_version r = currentFormatVersion \<Longrightarrow> Q r"
    and kept_row: "P t \<Longrightarrow> tx_get t k = Some r \<Longrightarrow> row_version r' = row_version r \<Longrightarrow> Q r'"
    and object_keys: "K (bucketRowKey b)" "K (currentRowKey b q)" "K (versionRowKey b q v)"
    and upload_keys: "prefix (uploadRowKey b q v) x \<Longrightarrow> K x"
begin

lemma part_keys: "K (uploadRowKey b q v)" "K (partRowKey b q v n)"
  by (rule upload_keys [of b q v], simp add: uploadRowKey_def partRowKey_def)+

lemmas closed = set_closed delete_closed fresh_row object_keys part_keys

lemma bucket_row: "GetBucket t b = Inr (Some c) \<Longrightarrow> P t \<Longrightarrow> bc_FormatVersion c' = bc_FormatVersion c \<Longrightarrow> Q (RBucket c')"
  by (auto simp: GetBucket_def intro: kept_row split: option.splits row.splits)

lemma lock_row:
  "lockTarget t b k v = Inr e \<Longrightarrow> P t \<Longrightarrow> ve_FormatVersion e' = ve_FormatVersion e \<Longrightarrow> Q (RVersion e')"
  by (auto simp: lockTarget_def GetVersion_def intro: kept_row split: option.splits row.splits sum.splits if_splits)

lemma stored_row:
  assumes "P t"
  shows "tx_get t k = Some (RVersion e) \<Longrightarrow> ve_FormatVersion e' = ve_FormatVersion e \<Longrightarrow> Q (RVersion e')"
    "tx_get t k = Some (RPosture p) \<Longrightarrow> ep_FormatVersion p' = ep_FormatVersion p \<Longrightarrow> Q (RPosture p')"
    "tx_get t k = Some (RNode n) \<Longrightarrow> nr_FormatVersion n' = nr_FormatVersion n \<Longrightarrow> Q (RNode n')"
  using kept_row [OF assms] by fastforce+

lemma bucket_applies:
  assumes "P t"
  shows "P (fst (ApplyCreateBucket p1 t))" "P (fst (ApplyDeleteBucket p2 t))"
    "P (fst (ApplySetBucketVersioning p3 t))" "P (fst (ApplySetObjectLockConfiguration p4 t))"
  using assms
  by (auto simp: ApplyCreateBucket_def ApplyDeleteBucket_def ApplySetBucketVersioning_def
      ApplySetObjectLockConfiguration_def Let_def closed bucket_row split: option.split sum.split)

lemma removeNullVersion_closed: "removeNullVersion t b k at = (u, r) \<Longrightarrow> P t \<Longrightarrow> P u"
  by (auto simp: removeNullVersion_def closed split: option.splits sum.splits if_splits)

lemma commit_entry_closed:
  "commit_entry t b k at e = (u, r) \<Longrightarrow> ve_FormatVersion e = currentFormatVersion \<Longrightarrow> P t \<Longrightarrow> P u"
  by (auto simp: commit_entry_def Let_def currentRecordFor_def intro!: closed dest: removeNullVersion_closed
      split: option.splits sum.splits if_splits prod.splits)

lemma ApplyPutObject_closed: "P t \<Longrightarrow> P (fst (ApplyPutObject p t))"
  unfolding ApplyPutObject_def Let_def
  by (auto dest!: commit_entry_closed simp: put_entry_def split: option.split sum.split prod.split prod.splits)

lemma ApplyDeleteObject_closed: "P t \<Longrightarrow> P (fst (ApplyDeleteObject p t))"
  by (auto simp: ApplyDeleteObject_def delete_marker_def Let_def intro!: closed dest: removeNullVersion_closed
      split: option.split sum.split prod.split)

lemma ApplyDeleteVersion_closed: "P t \<Longrightarrow> P (fst (ApplyDeleteVersion p t))"
  by (simp add: ApplyDeleteVersion_def currentRecordFor_def Let_def closed split: option.split sum.split row.split)

lemma lock_applies:
  assumes "P t"
  shows "P (fst (ApplyUpdateRetention p1 t))" "P (fst (ApplyUpdateLegalHold p2 t))"
    "P (fst (ApplyReEncodeObject p3 t))" "P (fst (ApplyRewrapDEK p4 t))"
  using assms
  by (auto simp: ApplyUpdateRetention_def ApplyUpdateLegalHold_def ApplyReEncodeObject_def
      ApplyRewrapDEK_def Let_def object_keys intro!: set_closed intro: lock_row stored_row split: option.split sum.split row.split)

lemma discard_parts_closed: "P t \<Longrightarrow> P (fst (discard_parts b k u used prs t ids))"
  by (induction b k u used prs t ids rule: discard_parts.induct) (simp_all add: Let_def closed)

lemma delete_all_closed: "P t \<Longrightarrow> list_all K ks \<Longrightarrow> P (foldl tx_delete t ks)"
  by (induction ks arbitrary: t) (simp_all add: closed)

lemma abort_keys:
  "list_all K ks \<Longrightarrow> list_all K (snd (scan_rows rows (\<lambda>x v (ids, ks).
     if \<not> prefix (uploadRowKey b q u) x then ((ids, ks), False)
     else ((case v of Some (RPart pr) \<Rightarrow> ids @ [pr_DataID pr] | _ \<Rightarrow> ids, ks @ [x]), True)) (ids, ks)))"
proof (induction rows arbitrary: ids ks)
  case (Cons r rows)
  then show ?case using upload_keys [of b q u] by (cases r) auto
qed simp

lemma upload_applies:
  assumes "P t"
  shows "P (fst (ApplyCreateMultipartUpload p1 t))" "P (fst (ApplyUploadPart p2 t))"
    "P (fst (ApplyAbortMultipartUpload p3 t))"
  using assms abort_keys [of "[]"]
  by (auto simp: ApplyCreateMultipartUpload_def ApplyUploadPart_def ApplyAbortMultipartUpload_def
      Let_def closed tx_scan_eq case_prod_beta intro!: delete_all_closed split: option.split sum.split row.split)

lemma ApplyCompleteMultipartUpload_closed: "P t \<Longrightarrow> P (fst (ApplyCompleteMultipartUpload p t))"
proof -
  assume P: "P t"
  have commit: "P u" if "commit_entry t b k at (complete_entry q ul cfg sz ps v) = (u, r)" for b k at q ul cfg sz ps v u r
    using commit_entry_closed [OF that _ P] by (simp add: complete_entry_def)
  have discard: "P w" if "discard_parts b k u used prs (tx_delete v x) ids = (w, ids')" "P v"
    "K x" for b k u used prs v x ids w ids'
    using discard_parts_closed [OF delete_closed [OF that(2,3)], of b k u used prs ids] that(1) by simp
  show ?thesis
    using P
    by (auto simp: ApplyCompleteMultipartUpload_def Let_def part_keys dest: commit discard
        split: option.split sum.split row.split prod.split)
qed

lemmas applies = bucket_applies ApplyPutObject_closed ApplyDeleteObject_closed
  ApplyDeleteVersion_closed lock_applies upload_applies
  ApplyCompleteMultipartUpload_closed

lemma object_proposal_closed: "\<not> system_proposal p \<Longrightarrow> P t \<Longrightarrow> P (fst (Apply_body p t))"
  by (cases p) (simp_all add: applies)

end

locale all_writes_closed = write_closed +
  assumes system_keys: "K clusterLayoutKey" "K encryptionPostureKey" "K trustBundleKey" "K (nodeRowKey i)"
begin

lemma system_applies:
  assumes "P t"
  shows "P (fst (ApplySetClusterLayout p1 t))" "P (fst (ApplySetEncryptionPosture p2 t))"
    "P (fst (ApplyBeginKEKRotation p3 t))" "P (fst (ApplyCompleteKEKRotation p4 t))"
    "P (fst (ApplyRegisterNode p5 t))" "P (fst (ApplySetNodeDraining p6 t))"
    "P (fst (ApplySetNodeReplacedBy p7 t))" "P (fst (ApplySetNodeLeafCA p8 t))"
    "P (fst (ApplySetNodeVersion p9 t))" "P (fst (ApplySetTrustBundle p10 t))"
  using assms
  by (auto simp: ApplySetClusterLayout_def ApplySetEncryptionPosture_def ApplyBeginKEKRotation_def
      ApplyCompleteKEKRotation_def ApplyRegisterNode_def ApplySetNodeDraining_def
      ApplySetNodeReplacedBy_def ApplySetNodeLeafCA_def ApplySetNodeVersion_def
      ApplySetTrustBundle_def Let_def system_keys intro!: set_closed intro: fresh_row stored_row
      split: option.split sum.split row.split)

lemma Apply_body_closed: "P t \<Longrightarrow> P (fst (Apply_body p t))"
proof (cases "system_proposal p")
  case True
  then show "P t \<Longrightarrow> ?thesis" by (cases p) (simp_all add: system_applies)
qed (rule object_proposal_closed)

end

interpretation rep: all_writes_closed tx_inv "\<lambda>_. True" "\<lambda>_. True"
  by unfold_locales simp_all

interpretation undo: all_writes_closed "undoes m" "\<lambda>_. True" "\<lambda>_. True" for m
  by unfold_locales simp_all

interpretation fmt: all_writes_closed formatted "\<lambda>r. row_version r \<noteq> 0" "\<lambda>_. True"
  by unfold_locales (auto simp: formatted_def currentFormatVersion_def)

text \<open>The object operations leave the rows of the system keyspace alone.\<close>

definition system_rows_are :: "(gostring \<rightharpoonup> row) \<Rightarrow> kv \<Rightarrow> bool" where
  "system_rows_are m t \<longleftrightarrow> (\<forall>x. take 2 x = str ''s/'' \<longrightarrow> tx_get t x = m x)"

lemma prefix_take_2: "prefix p x \<Longrightarrow> 2 \<le> length p \<Longrightarrow> take 2 x = take 2 p"
  by (auto simp: prefix_def)

interpretation sysframe: write_closed "system_rows_are m" "\<lambda>_. True" "\<lambda>x. take 2 x \<noteq> str ''s/''" for m
proof unfold_locales
  show "take 2 x \<noteq> str ''s/''" if "prefix (uploadRowKey b q v) x" for b q v x
    using prefix_take_2 [OF that] by (simp add: uploadRowKey_def str_def)
qed (auto simp: system_rows_are_def row_key_defs str_def)

end
