(* ===== verification/Meta_Object_Steps.thy ===== *)
theory Meta_Object_Steps
  imports Meta_Invariant Meta_Txn
begin

text \<open>
  What each apply function does to a store that satisfies the invariant: its effect in terms
  of the typed views when it succeeds, and that it fails with an error of the API, never with
  a panic.
\<close>

section \<open>Object writes\<close>

lemma put_entry_fields [simp]:
  "ve_VersionID (put_entry p cfg vid) = vid"
  "ve_Kind (put_entry p cfg vid) = KindObject"
  "ve_NullVersion (put_entry p cfg vid) \<longleftrightarrow> bc_Versioning cfg \<noteq> VersioningEnabled"
  by (simp_all add: put_entry_def Let_def split: prod.split)

lemma delete_marker_fields [simp]:
  "ve_VersionID (delete_marker p cfg vid) = vid"
  "ve_Kind (delete_marker p cfg vid) = KindDeleteMarker"
  "ve_NullVersion (delete_marker p cfg vid) \<longleftrightarrow> bc_Versioning cfg = VersioningSuspended"
  by (simp_all add: delete_marker_def)

lemma complete_entry_fields [simp]:
  "ve_VersionID (complete_entry p u cfg s ps vid) = vid"
  "ve_Kind (complete_entry p u cfg s ps vid) = KindObject"
  "ve_NullVersion (complete_entry p u cfg s ps vid) \<longleftrightarrow> bc_Versioning cfg \<noteq> VersioningEnabled"
  "ve_Parts (complete_entry p u cfg s ps vid) = ps"
  "ve_Size (complete_entry p u cfg s ps vid) = s"
  by (simp_all add: complete_entry_def)

text \<open>The facts about one key that the object operations use.\<close>

lemma inv_key:
  assumes "store_inv n t" and "valid_bucket b" and "valid_key k"
  shows "finite (dom (versions t b k))" "one_null (versions t b k)" "vids_below n (versions t b k)"
    "\<And>v e. versions t b k v = Some e \<Longrightarrow> ve_VersionID e = v"
    "current_of t b k = derived_current (versions t b k)"
  using store_invD(1,2) [OF assms(1)] assms(2,3) versions_vid
  by (auto simp: key_ok_def)

lemma store_inv_push:
  assumes "store_inv (Suc n) t" and "bucket_of t b = Some cfg" and "valid_key k"
    and "object_effect t b k (pushed (versions t b k) e)
           (if ve_Kind e = KindObject then Some (currentRecordFor e) else None) t'"
    and "ve_VersionID e = bump_vid (newest (versions t b k)) vid" and "unat vid + n < 2 ^ 128"
    and "bc_Versioning cfg = Unversioned \<Longrightarrow> ve_NullVersion e"
  shows "store_inv n t'" and "newest (versions t' b k) = Some e"
proof -
  have b: "valid_bucket b" using bucket_of_name store_invD(1) assms(1,2) by blast
  note key = inv_key [OF assms(1) b assms(3)]
  note ok = store_invD(2) [OF assms(1), of b k, unfolded assms(2)]
  from key_ok_pushed [OF ok key(1) _ assms(5,6,7)] key(4)
  have "key_ok n (Some cfg) (pushed (versions t b k) e)
      (if ve_Kind e = KindObject then Some (currentRecordFor e) else None)"
    and top: "newest (pushed (versions t b k) e) = Some e" by auto
  then show "store_inv n t'"
    by (intro store_inv_object [OF assms(1) _ assms(4)]) (simp_all add: assms(2))
  show "newest (versions t' b k) = Some e"
    using top by (simp add: object_effectD(3) [OF assms(4)])
qed

lemma ApplyPutObject_effect:
  assumes "store_inv (Suc n) t" and "ApplyPutObject p t = (t', Inr res)"
  obtains cfg e where "bucket_of t (po_Bucket p) = Some cfg" "valid_key (po_Key p)"
    "e = put_entry p cfg (bump_vid (newest (versions t (po_Bucket p) (po_Key p))) (po_VersionID p))"
    "object_effect t (po_Bucket p) (po_Key p) (pushed (versions t (po_Bucket p) (po_Key p)) e)
       (Some (currentRecordFor e)) t'"
    "res_VersionID res = ve_VersionID e"
    "\<And>v e'. ve_NullVersion e \<Longrightarrow> versions t (po_Bucket p) (po_Key p) v = Some e' \<Longrightarrow> ve_NullVersion e' \<Longrightarrow>
       \<not> lockedAt e' (po_ProposedAtUnixMS p) False \<and> res_ReplacedDataIDs res = DataIDs e'"
    "(po_RetentionMode p \<noteq> RetentionNone \<or> po_LegalHold p) \<longrightarrow> bc_ObjectLockEnabled cfg"
    "po_RetentionMode p \<noteq> RetentionNone \<longrightarrow> i64_less (po_ProposedAtUnixMS p) (po_RetainUntilUnixMS p)"
proof -
  let ?b = "po_Bucket p" and ?k = "po_Key p"
  note wf = store_invD(1) [OF assms(1)]
  from assms(2) obtain cfg where cfg: "bucket_of t ?b = Some cfg" and k: "valid_key ?k"
    by (auto simp: ApplyPutObject_def GetBucket_eq [OF wf] split: option.splits)
  have b: "valid_bucket ?b" using bucket_of_name [OF wf cfg] by simp
  note key = inv_key [OF assms(1) b k]
  let ?e = "put_entry p cfg (bump_vid (newest (versions t ?b ?k)) (po_VersionID p))"
  from assms(2) cfg k b obtain ids where
    c: "commit_entry t ?b ?k (po_ProposedAtUnixMS p) ?e = (t', Inr ids)"
    and res: "res = \<lparr>res_VersionID = ve_VersionID ?e, res_ReplacedDataIDs = ids\<rparr>"
    and guards: "(po_RetentionMode p \<noteq> RetentionNone \<or> po_LegalHold p) \<longrightarrow> bc_ObjectLockEnabled cfg"
      "po_RetentionMode p \<noteq> RetentionNone \<longrightarrow> i64_less (po_ProposedAtUnixMS p) (po_RetainUntilUnixMS p)"
    by (auto simp: ApplyPutObject_def GetBucket_eq [OF wf] newestVersion_eq [OF wf] Let_def
        i64_less_iff_not_le split: if_splits prod.splits sum.splits)
  note spec = commit_entry_spec [OF wf b k key(2) c]
  show thesis
    by (rule that [OF cfg k refl spec(2) [OF refl] _ _ guards])
       (use spec(3) [OF refl] res in auto)
qed

lemma ApplyPutObject_error:
  assumes "store_inv n t" and "ApplyPutObject p t = (t', Inl err)"
  shows "err \<in> {ErrNoSuchBucket, ErrInvalidObjectKey, ErrInvalidRetention, ErrObjectLocked} \<and> t' = t"
proof -
  note wf = store_invD(1) [OF assms(1)]
  have commit: "e = ErrObjectLocked \<and> u = t"
    if "bucket_of t (po_Bucket p) = Some cfg" "valid_key (po_Key p)"
      "commit_entry t (po_Bucket p) (po_Key p) at entry = (u, Inl e)" for cfg at entry u e
  proof -
    have b: "valid_bucket (po_Bucket p)" using bucket_of_name [OF wf that(1)] by simp
    from commit_entry_spec(1) [OF wf b that(2) inv_key(2) [OF assms(1) b that(2)] that(3) refl]
    show ?thesis by simp
  qed
  show ?thesis
    using assms(2) bucket_of_name [OF wf]
    by (auto simp: ApplyPutObject_def GetBucket_eq [OF wf] newestVersion_eq [OF wf] Let_def
        split: if_splits prod.splits sum.splits option.splits
        dest: commit validateObjectKey_error)
qed

section \<open>Deletes\<close>

text \<open>In an unversioned bucket a key has at most one version.\<close>

lemma unversioned_single:
  assumes "store_inv n t" and "bucket_of t b = Some cfg" and "bc_Versioning cfg = Unversioned"
    and "valid_key k" and "versions t b k v = Some e"
  shows "versions t b k = [v \<mapsto> e]"
proof -
  have null: "all_null (versions t b k)" and one: "one_null (versions t b k)"
    using store_invD(2) [OF assms(1), of b k] assms(2,3,5) by (auto simp: key_ok_def)
  show ?thesis
  proof (rule ext)
    fix w
    show "versions t b k w = [v \<mapsto> e] w"
    proof (cases "versions t b k w")
      case (Some f)
      with null one assms(5) have "v = w" unfolding all_null_def one_null_def by blast
      with assms(5) show ?thesis by simp
    qed (use assms(5) in auto)
  qed
qed

text \<open>
  What a DELETE does: in an unversioned bucket it removes the single version, otherwise it
  pushes a delete marker.
\<close>

lemma ApplyDeleteObject_guards:
  assumes "store_inv n t" and "ApplyDeleteObject p t = (t', Inr res)"
  obtains cfg where "bucket_of t (dob_Bucket p) = Some cfg" "valid_bucket (dob_Bucket p)" "valid_key (dob_Key p)"
proof -
  note wf = store_invD(1) [OF assms(1)]
  from assms(2) that bucket_of_name [OF wf] show thesis
    by (auto simp: ApplyDeleteObject_def GetBucket_eq [OF wf] split: option.splits)
qed

lemma ApplyDeleteObject_unversioned:
  assumes "store_inv n t" and "ApplyDeleteObject p t = (t', Inr res)"
    and cfg: "bucket_of t (dob_Bucket p) = Some cfg" and u: "bc_Versioning cfg = Unversioned"
  shows "object_effect t (dob_Bucket p) (dob_Key p) Map.empty None t'"
    and "versions t (dob_Bucket p) (dob_Key p) v = Some e \<Longrightarrow> \<not> lockedAt e (dob_ProposedAtUnixMS p) False"
proof -
  let ?b = "dob_Bucket p" and ?k = "dob_Key p" and ?m = "versions t (dob_Bucket p) (dob_Key p)"
  note wf = store_invD(1) [OF assms(1)]
  from ApplyDeleteObject_guards [OF assms(1,2)] have b: "valid_bucket ?b" and k: "valid_key ?k" by blast+
  note key = inv_key [OF assms(1) b k]
  note body = assms(2) [unfolded ApplyDeleteObject_def GetBucket_eq [OF wf] cfg k
      newestVersion_eq [OF wf valid_nul_free(1) [OF b] valid_nul_free(2) [OF k]] sum.case option.case]
  have "object_effect t ?b ?k Map.empty None t' \<and>
      (\<forall>v e. ?m v = Some e \<longrightarrow> \<not> lockedAt e (dob_ProposedAtUnixMS p) False)"
  proof (cases "newest ?m")
    case None
    then have m: "?m = Map.empty" using newest_None [OF key(1)] by simp
    with body u have "t' = t" by (simp add: newest_def)
    with m object_effect_refl [OF wf, of ?b ?k] key(5) show ?thesis
      by (simp add: derived_current_def newest_def)
  next
    case (Some top)
    from newest_SomeD(1) [OF Some key(1)] key(4) have top: "?m (ve_VersionID top) = Some top"
      by auto
    note single = unversioned_single [OF assms(1) cfg u k top]
    have t': "t' = tx_delete (tx_delete t (versionRowKey ?b ?k (ve_VersionID top))) (currentRowKey ?b ?k)"
      and unlocked: "\<not> lockedAt top (dob_ProposedAtUnixMS p) False"
      using body u Some by (auto simp: Let_def split: if_splits)
    have "object_effect t ?b ?k (?m(ve_VersionID top := None)) None t'"
      unfolding t'
      by (rule object_effect_delete_current [OF object_effect_delete_version [OF object_effect_refl [OF wf] b k] b k])
    with unlocked show ?thesis by (auto simp: single split: if_splits)
  qed
  then show "object_effect t ?b ?k Map.empty None t'"
    and "?m v = Some e \<Longrightarrow> \<not> lockedAt e (dob_ProposedAtUnixMS p) False" by auto
qed

lemma ApplyDeleteObject_versioned:
  assumes "store_inv n t" and "ApplyDeleteObject p t = (t', Inr res)"
    and cfg: "bucket_of t (dob_Bucket p) = Some cfg" and v: "bc_Versioning cfg \<noteq> Unversioned"
  defines "e \<equiv> delete_marker p cfg (bump_vid (newest (versions t (dob_Bucket p) (dob_Key p))) (dob_VersionID p))"
  shows "object_effect t (dob_Bucket p) (dob_Key p) (pushed (versions t (dob_Bucket p) (dob_Key p)) e) None t'"
    and "dor_MarkerCreated res \<and> dor_MarkerID res = ve_VersionID e"
    and "ve_NullVersion e \<Longrightarrow> versions t (dob_Bucket p) (dob_Key p) w = Some e' \<Longrightarrow> ve_NullVersion e' \<Longrightarrow>
      \<not> lockedAt e' (dob_ProposedAtUnixMS p) False"
proof -
  let ?b = "dob_Bucket p" and ?k = "dob_Key p" and ?m = "versions t (dob_Bucket p) (dob_Key p)"
  note wf = store_invD(1) [OF assms(1)]
  from ApplyDeleteObject_guards [OF assms(1,2)] have b: "valid_bucket ?b" and k: "valid_key ?k" by blast+
  note key = inv_key [OF assms(1) b k]
  note body = assms(2) [unfolded ApplyDeleteObject_def GetBucket_eq [OF wf] cfg k
      newestVersion_eq [OF wf valid_nul_free(1) [OF b] valid_nul_free(2) [OF k]] sum.case option.case]
  obtain u r where rm: "(if ve_NullVersion e then removeNullVersion t ?b ?k (dob_ProposedAtUnixMS p)
      else (t, Inr [])) = (u, r)" by fastforce
  from body v rm obtain ids where r: "r = Inr ids"
    and t': "t' = tx_delete (tx_set u (versionRowKey ?b ?k (ve_VersionID e)) (RVersion e)) (currentRowKey ?b ?k)"
    and res: "dor_MarkerCreated res \<and> dor_MarkerID res = ve_VersionID e"
    by (auto simp: Let_def e_def split: sum.splits)
  note null = removeNullVersion_spec [OF wf b k key(2), of "dob_ProposedAtUnixMS p" u r]
  have "object_effect t ?b ?k (if ve_NullVersion e then without_null ?m else ?m) (current_of t ?b ?k) u"
    using rm r null(2) object_effect_refl [OF wf] by (auto split: if_splits)
  then show "object_effect t ?b ?k (pushed ?m e) None t'"
    unfolding t' pushed_def
    by (intro object_effect_delete_current object_effect_set_version b k) simp_all
  show "dor_MarkerCreated res \<and> dor_MarkerID res = ve_VersionID e" by (fact res)
  show "\<not> lockedAt e' (dob_ProposedAtUnixMS p) False"
    if "ve_NullVersion e" "?m w = Some e'" "ve_NullVersion e'"
    using that rm r null(3) by (auto split: if_splits)
qed

lemma newest_remove_other:
  assumes "finite (dom m)" and "newest m = Some hi"
    and "\<And>v e. m v = Some e \<Longrightarrow> ve_VersionID e = v" and "ve_VersionID hi \<noteq> v"
  shows "newest (m(v := None)) = Some hi"
proof (rule newestI)
  show "finite (dom (m(v := None)))" using assms(1) by simp
  have "m (ve_VersionID hi) = Some hi"
    using newest_SomeD(1) [OF assms(2,1)] assms(3) by auto
  then show "(m(v := None)) (ve_VersionID hi) = Some hi" using assms(4) by simp
  show "w \<le> ve_VersionID hi" if "(m(v := None)) w = Some e'" for w e'
    using newest_SomeD [OF assms(2,1)] assms(3) that by (auto split: if_splits)
qed

lemma ApplyDeleteVersion_effect:
  assumes "store_inv n t" and "ApplyDeleteVersion p t = (t', Inr res)"
  defines "m \<equiv> versions t (dv_Bucket p) (dv_Key p)"
  shows "object_effect t (dv_Bucket p) (dv_Key p) (m(dv_VersionID p := None))
      (derived_current (m(dv_VersionID p := None))) t'"
    and "m (dv_VersionID p) = Some e \<Longrightarrow> \<not> lockedAt e (dv_ProposedAtUnixMS p) (dv_BypassGovernance p)"
    and "dvr_Removed res \<longleftrightarrow> m (dv_VersionID p) \<noteq> None"
    and "bucket_of t (dv_Bucket p) \<noteq> None" and "valid_key (dv_Key p)"
proof -
  let ?b = "dv_Bucket p" and ?k = "dv_Key p" and ?v = "dv_VersionID p"
  note wf = store_invD(1) [OF assms(1)]
  from assms(2) obtain cfg where cfg: "bucket_of t ?b = Some cfg" and k: "valid_key ?k"
    by (auto simp: ApplyDeleteVersion_def GetBucket_eq [OF wf] split: option.splits)
  then show "bucket_of t (dv_Bucket p) \<noteq> None" and "valid_key (dv_Key p)" by auto
  have b: "valid_bucket ?b" using bucket_of_name [OF wf cfg] by simp
  note key = inv_key [OF assms(1) b k, folded m_def]
  note nf = valid_nul_free(1) [OF b] valid_nul_free(2) [OF k]
  note body = assms(2) [unfolded ApplyDeleteVersion_def GetBucket_eq [OF wf] cfg k wf_get_version [OF wf]
      newestVersion_eq [OF wf nf] sum.case option.case, folded m_def]
  show "\<not> lockedAt e (dv_ProposedAtUnixMS p) (dv_BypassGovernance p)" if "m ?v = Some e"
    using body that by (auto split: if_splits)
  show "dvr_Removed res \<longleftrightarrow> m ?v \<noteq> None"
    using body by (auto simp: Let_def split: option.splits if_splits sum.splits)
  show "object_effect t ?b ?k (m(?v := None)) (derived_current (m(?v := None))) t'"
  proof (cases "m ?v")
    case None
    then have "m(?v := None) = m" by auto
    with None body object_effect_refl [OF wf, of ?b ?k] key(5) show ?thesis by (simp add: m_def)
  next
    case (Some e)
    let ?u = "tx_delete t (versionRowKey ?b ?k ?v)"
    have u: "object_effect t ?b ?k (m(?v := None)) (current_of t ?b ?k) ?u"
      unfolding m_def by (rule object_effect_delete_version [OF object_effect_refl [OF wf] b k])
    note next_newest = newestVersion_eq [OF object_effectD(1) [OF u] nf, unfolded object_effectD(3) [OF u]]
    obtain top where top: "newest m = Some top" using newest_None [OF key(1)] Some by (cases "newest m") auto
    from body Some key(4) [OF Some] top
    have t': "t' = (if ve_VersionID top = ?v
          then case newest (m(?v := None)) of
                 Some x \<Rightarrow> if ve_Kind x = KindObject then tx_set ?u (currentRowKey ?b ?k) (RCurrent (currentRecordFor x))
                           else tx_delete ?u (currentRowKey ?b ?k)
               | None \<Rightarrow> tx_delete ?u (currentRowKey ?b ?k)
          else ?u)"
      by (auto simp: Let_def next_newest split: if_splits option.splits)
    show ?thesis
    proof (cases "ve_VersionID top = ?v")
      case True
      show ?thesis
        unfolding t' using True object_effect_set_current [OF u b k] object_effect_delete_current [OF u b k]
        by (auto simp: derived_current_def split: option.splits)
    next
      case False
      with newest_remove_other [OF key(1) top key(4)] key(5) u show ?thesis
        by (simp add: t' derived_current_def top)
    qed
  qed
qed


section \<open>Rewriting an entry in place\<close>

text \<open>The fields no operation changes after the commit.\<close>

definition same_core :: "VersionEntry \<Rightarrow> VersionEntry \<Rightarrow> bool" where
  "same_core e e' \<longleftrightarrow> ve_VersionID e' = ve_VersionID e \<and> ve_Kind e' = ve_Kind e \<and>
     ve_Size e' = ve_Size e \<and> ve_CreatedUnixMS e' = ve_CreatedUnixMS e \<and> ve_ETag e' = ve_ETag e \<and>
     ve_Parts e' = ve_Parts e \<and> ve_NullVersion e' = ve_NullVersion e \<and> ve_FormatVersion e' = ve_FormatVersion e \<and>
     ve_ObjectChecksum e' = ve_ObjectChecksum e \<and> ve_ContentType e' = ve_ContentType e \<and> ve_UserMetadata e' = ve_UserMetadata e \<and>
     ve_Partition e' = ve_Partition e \<and> ve_EncAlgorithm e' = ve_EncAlgorithm e \<and> ve_unknown e' = ve_unknown e"

lemma derived_current_update:
  assumes "finite (dom m)" and "m v = Some e" and "same_core e e'"
  shows "derived_current (m(v \<mapsto> e')) = derived_current m"
proof (cases "v = Max (dom m)")
  case True
  have "newest m = Some e" using True assms(2) by (auto simp: newest_def)
  moreover have "newest (m(v \<mapsto> e')) = Some e'"
    using True assms(1,2)
    by (intro newestI [where v = v]) (auto split: if_splits intro!: Max_ge [OF assms(1)])
  ultimately show ?thesis
    using assms(3) by (auto simp: derived_current_def same_core_def currentRecordFor_def)
next
  case False
  obtain x where x: "newest m = Some x" using newest_None [OF assms(1)] assms(2) by (cases "newest m") auto
  have "newest (m(v \<mapsto> e')) = Some x"
    using newest_SomeD [OF x assms(1)] False assms(1,2)
    by (intro newestI [where v = "Max (dom m)"]) (auto split: if_splits)
  with x show ?thesis by (simp add: derived_current_def)
qed

lemma key_ok_update:
  assumes "key_ok n cfg m cur" and "finite (dom m)" and "m v = Some e" and "same_core e e'"
  shows "key_ok n cfg (m(v \<mapsto> e')) cur"
proof -
  have "one_null (m(v \<mapsto> e'))" and "all_null m \<Longrightarrow> all_null (m(v \<mapsto> e'))"
    using assms by (auto simp: key_ok_def one_null_def all_null_def same_core_def)
  moreover have "vids_below n (m(v \<mapsto> e'))"
    using assms unfolding key_ok_def vids_below_def by auto
  ultimately show ?thesis
    using assms derived_current_update [OF assms(2-4)] by (auto simp: key_ok_def)
qed

lemma store_inv_update:
  assumes "store_inv n t" and "object_effect t b k ((versions t b k)(v \<mapsto> e')) (current_of t b k) t'"
    and "versions t b k v = Some e" and "same_core e e'"
  shows "store_inv n t'"
proof -
  have "valid_bucket b" "valid_key k" using versions_vid [OF store_invD(1) [OF assms(1)] assms(3)] by auto
  then show ?thesis
    using assms inv_key(1) [OF assms(1)]
    by (intro store_inv_object [OF assms(1) order.refl assms(2)] key_ok_update [OF store_invD(2) [OF assms(1)]])
qed

lemma lockTarget_spec:
  assumes "store_inv n t"
  shows "lockTarget t b k v = Inr e \<Longrightarrow> versions t b k v = Some e \<and> ve_VersionID e = v \<and>
      ve_Kind e = KindObject \<and> (\<exists>cfg. bucket_of t b = Some cfg \<and> bc_ObjectLockEnabled cfg) \<and>
      valid_bucket b \<and> valid_key k"
    and "lockTarget t b k v = Inl err \<Longrightarrow>
      err \<in> {ErrNoSuchBucket, ErrInvalidObjectKey, ErrInvalidRetention, ErrNoSuchVersion}"
  using store_invD(1) [OF assms] versions_vid [OF store_invD(1) [OF assms]]
  by (auto simp: lockTarget_def GetBucket_eq GetVersion_eq validateObjectKey_error
      split: option.splits if_splits dest: bucket_of_name)

lemma object_effect_rewrite:
  assumes "store_inv n t" and "versions t b k v = Some e" and "ve_VersionID e' = v"
  shows "object_effect t b k ((versions t b k)(v \<mapsto> e')) (current_of t b k)
    (tx_set t (versionRowKey b k v) (RVersion e'))"
  using versions_vid [OF store_invD(1) [OF assms(1)] assms(2)] assms(3)
  by (intro object_effect_set_version object_effect_refl store_invD(1) [OF assms(1)]) auto

text \<open>The retention an update writes, and the cases in which it is accepted.\<close>

definition retained :: "UpdateRetention \<Rightarrow> VersionEntry \<Rightarrow> VersionEntry" where
  "retained p e = e\<lparr>ve_RetentionMode := ut_Mode p,
     ve_RetainUntilUnixMS := (if ut_Mode p = RetentionNone then 0 else ut_RetainUntilUnixMS p)\<rparr>"

lemma ApplyUpdateRetention_effect:
  assumes "store_inv n t" and "ApplyUpdateRetention p t = (t', Inr res)"
  obtains e where "versions t (ut_Bucket p) (ut_Key p) (ut_VersionID p) = Some e" "ve_Kind e = KindObject"
    "object_effect t (ut_Bucket p) (ut_Key p)
       ((versions t (ut_Bucket p) (ut_Key p))(ut_VersionID p \<mapsto> retained p e))
       (current_of t (ut_Bucket p) (ut_Key p)) t'"
    "ut_Mode p \<noteq> RetentionNone \<longrightarrow> i64_less (ut_ProposedAtUnixMS p) (ut_RetainUntilUnixMS p)"
    "i64_less (ut_ProposedAtUnixMS p) (ve_RetainUntilUnixMS e) \<Longrightarrow> ve_RetentionMode e = RetentionCompliance \<Longrightarrow>
       ut_Mode p = RetentionCompliance \<and> i64_le (ve_RetainUntilUnixMS e) (ut_RetainUntilUnixMS p)"
    "i64_less (ut_ProposedAtUnixMS p) (ve_RetainUntilUnixMS e) \<Longrightarrow> ve_RetentionMode e = RetentionGovernance \<Longrightarrow>
       \<not> ut_BypassGovernance p \<Longrightarrow>
       ut_Mode p \<noteq> RetentionNone \<and> i64_le (ve_RetainUntilUnixMS e) (ut_RetainUntilUnixMS p)"
proof -
  from assms(2) obtain e where e: "lockTarget t (ut_Bucket p) (ut_Key p) (ut_VersionID p) = Inr e"
    by (auto simp: ApplyUpdateRetention_def split: sum.splits)
  note spec = lockTarget_spec(1) [OF assms(1) e]
  note body = assms(2) [unfolded ApplyUpdateRetention_def e sum.case]
  have "t' = tx_set t (versionRowKey (ut_Bucket p) (ut_Key p) (ut_VersionID p)) (RVersion (retained p e))"
    using body spec by (auto simp: Let_def retained_def split: if_splits)
  moreover have "object_effect t (ut_Bucket p) (ut_Key p)
       ((versions t (ut_Bucket p) (ut_Key p))(ut_VersionID p \<mapsto> retained p e)) (current_of t (ut_Bucket p) (ut_Key p))
       (tx_set t (versionRowKey (ut_Bucket p) (ut_Key p) (ut_VersionID p)) (RVersion (retained p e)))"
    using spec by (intro object_effect_rewrite [OF assms(1)]) (auto simp: retained_def)
  ultimately show thesis
    using spec body by (intro that [of e]) (auto simp: i64_less_iff_not_le Let_def split: if_splits)
qed

lemma ApplyUpdateLegalHold_effect:
  assumes "store_inv n t" and "ApplyUpdateLegalHold p t = (t', Inr res)"
  obtains e where "versions t (ul_Bucket p) (ul_Key p) (ul_VersionID p) = Some e" "ve_Kind e = KindObject"
    "object_effect t (ul_Bucket p) (ul_Key p)
       ((versions t (ul_Bucket p) (ul_Key p))(ul_VersionID p \<mapsto> e\<lparr>ve_LegalHold := ul_Hold p\<rparr>))
       (current_of t (ul_Bucket p) (ul_Key p)) t'"
proof -
  from assms(2) obtain e where e: "lockTarget t (ul_Bucket p) (ul_Key p) (ul_VersionID p) = Inr e"
    by (auto simp: ApplyUpdateLegalHold_def split: sum.splits)
  note spec = lockTarget_spec(1) [OF assms(1) e]
  with assms(2) e have "t' = tx_set t (versionRowKey (ul_Bucket p) (ul_Key p) (ul_VersionID p))
      (RVersion (e\<lparr>ve_LegalHold := ul_Hold p\<rparr>))"
    by (auto simp: ApplyUpdateLegalHold_def Let_def)
  with object_effect_rewrite [OF assms(1)] spec show thesis by (intro that [of e]) auto
qed

definition reencoded :: "ReEncodeObject \<Rightarrow> VersionEntry \<Rightarrow> VersionEntry" where
  "reencoded p e = e\<lparr>ve_DataID := re_DataID p, ve_ECDataShards := re_ECDataShards p,
     ve_ECParityShards := re_ECParityShards p, ve_ShardChecksums := re_ShardChecksums p\<rparr>"

lemma ApplyReEncodeObject_effect:
  assumes "store_inv n t" and "ApplyReEncodeObject p t = (t', Inr res)"
  obtains e where "versions t (re_Bucket p) (re_Key p) (re_VersionID p) = Some e"
    "ve_Kind e = KindObject" "ve_Parts e = []"
    "object_effect t (re_Bucket p) (re_Key p)
       ((versions t (re_Bucket p) (re_Key p))(re_VersionID p \<mapsto> reencoded p e))
       (current_of t (re_Bucket p) (re_Key p)) t'"
proof -
  note wf = store_invD(1) [OF assms(1)]
  from assms(2) obtain e where e: "versions t (re_Bucket p) (re_Key p) (re_VersionID p) = Some e"
    and kind: "ve_Kind e = KindObject" "ve_Parts e = []"
    and t': "t' = tx_set t (versionRowKey (re_Bucket p) (re_Key p) (re_VersionID p)) (RVersion (reencoded p e))"
    by (auto simp: ApplyReEncodeObject_def wf_get_version [OF wf] reencoded_def Let_def
        split: option.splits if_splits)
  show thesis
    by (rule that [OF e kind]) (use object_effect_rewrite [OF assms(1) e] versions_vid [OF wf e] in
        \<open>auto simp: t' reencoded_def\<close>)
qed

definition rewrapped :: "RewrapDEK \<Rightarrow> VersionEntry \<Rightarrow> VersionEntry" where
  "rewrapped p e = (if ve_KEKFingerprint e = rw_KEKFingerprint p then e
     else e\<lparr>ve_WrappedDEK := rw_WrappedDEK p, ve_KEKFingerprint := rw_KEKFingerprint p\<rparr>)"

lemma ApplyRewrapDEK_effect:
  assumes "store_inv n t" and "ApplyRewrapDEK p t = (t', Inr res)"
  obtains e where "versions t (rw_Bucket p) (rw_Key p) (rw_VersionID p) = Some e" "ve_Kind e = KindObject"
    "ve_EncAlgorithm e \<noteq> EncNone" "rw_WrappedDEK p \<noteq> []" "rw_KEKFingerprint p \<noteq> 0"
    "object_effect t (rw_Bucket p) (rw_Key p)
       ((versions t (rw_Bucket p) (rw_Key p))(rw_VersionID p \<mapsto> rewrapped p e))
       (current_of t (rw_Bucket p) (rw_Key p)) t'"
proof -
  note wf = store_invD(1) [OF assms(1)]
  from assms(2) obtain e where e: "versions t (rw_Bucket p) (rw_Key p) (rw_VersionID p) = Some e"
    and g: "ve_Kind e = KindObject" "ve_EncAlgorithm e \<noteq> EncNone" "rw_WrappedDEK p \<noteq> []" "rw_KEKFingerprint p \<noteq> 0"
    and t': "t' = (if ve_KEKFingerprint e = rw_KEKFingerprint p then t
      else tx_set t (versionRowKey (rw_Bucket p) (rw_Key p) (rw_VersionID p)) (RVersion (rewrapped p e)))"
    by (auto simp: ApplyRewrapDEK_def wf_get_version [OF wf] rewrapped_def Let_def
        split: option.splits if_splits)
  have "(versions t (rw_Bucket p) (rw_Key p))(rw_VersionID p \<mapsto> e) = versions t (rw_Bucket p) (rw_Key p)"
    using e by auto
  with object_effect_rewrite [OF assms(1) e, of "rewrapped p e"] object_effect_refl [OF wf] versions_vid [OF wf e]
  show thesis by (intro that [OF e g]) (auto simp: t' rewrapped_def)
qed


lemma same_core_rewrites [simp]:
  "same_core e e" "same_core e (retained p1 e)" "same_core e (e\<lparr>ve_LegalHold := h\<rparr>)"
  "same_core e (reencoded p3 e)" "same_core e (rewrapped p4 e)"
  by (simp_all add: same_core_def retained_def reencoded_def rewrapped_def)

section \<open>No panics\<close>

lemma ApplyDeleteObject_no_panic:
  assumes "store_inv n t"
  shows "snd (ApplyDeleteObject p t) \<noteq> Inl Panic"
proof
  assume panic: "snd (ApplyDeleteObject p t) = Inl Panic"
  note wf = store_invD(1) [OF assms]
  from panic obtain cfg where cfg: "bucket_of t (dob_Bucket p) = Some cfg" and k: "valid_key (dob_Key p)"
    by (auto simp: ApplyDeleteObject_def GetBucket_eq [OF wf] dest: validateObjectKey_error
        split: option.splits)
  have b: "valid_bucket (dob_Bucket p)" using bucket_of_name [OF wf cfg] by simp
  note nf = valid_nul_free(1) [OF b] valid_nul_free(2) [OF k]
  from panic show False
    by (auto simp: ApplyDeleteObject_def GetBucket_eq [OF wf] cfg k newestVersion_eq [OF wf nf] Let_def
        split: option.splits sum.splits if_splits prod.splits
        dest: removeNullVersion_spec(1) [OF wf b k inv_key(2) [OF assms b k]])
qed

lemma ApplyDeleteVersion_no_panic:
  assumes "store_inv n t"
  shows "snd (ApplyDeleteVersion p t) \<noteq> Inl Panic"
proof
  assume panic: "snd (ApplyDeleteVersion p t) = Inl Panic"
  note wf = store_invD(1) [OF assms]
  from panic obtain cfg where cfg: "bucket_of t (dv_Bucket p) = Some cfg" and k: "valid_key (dv_Key p)"
    by (auto simp: ApplyDeleteVersion_def GetBucket_eq [OF wf] dest: validateObjectKey_error
        split: option.splits)
  have b: "valid_bucket (dv_Bucket p)" using bucket_of_name [OF wf cfg] by simp
  note nf = valid_nul_free(1) [OF b] valid_nul_free(2) [OF k]
  from panic show False
    by (auto simp: ApplyDeleteVersion_def GetBucket_eq [OF wf] cfg k newestVersion_eq [OF wf nf]
        newestVersion_eq [OF wf_rows_delete [OF wf] nf] wf_get_version [OF wf] Let_def
        split: option.splits sum.splits if_splits)
qed

lemma rewrite_applies_no_panic:
  assumes "store_inv n t"
  shows "snd (ApplyUpdateRetention p1 t) \<noteq> Inl Panic" "snd (ApplyUpdateLegalHold p2 t) \<noteq> Inl Panic"
    "snd (ApplyReEncodeObject p3 t) \<noteq> Inl Panic" "snd (ApplyRewrapDEK p4 t) \<noteq> Inl Panic"
  using store_invD(1) [OF assms]
  by (auto simp: ApplyUpdateRetention_def ApplyUpdateLegalHold_def ApplyReEncodeObject_def
      ApplyRewrapDEK_def wf_get_version Let_def split: option.split sum.split
      dest: lockTarget_spec(2) [OF assms])

end
