(* ===== verification/Meta_Upload_Steps.thy ===== *)
theory Meta_Upload_Steps
  imports Meta_Object_Steps
begin

text \<open>
  The multipart operations: part rows are scanned in part-number order, a completion installs
  one object version with the listed parts, removes every row of the upload and reports the
  data it does not use, and an abort removes every row of the upload.
\<close>

section \<open>How writes of upload rows change the views\<close>

lemma upload_view_update [kv_simps]:
  assumes "nul_free b" "nul_free k" "nul_free b'" "nul_free k'"
  shows "upload_of (tx_set t (uploadRowKey b k u) (RUpload r)) b' k' u' =
      (if b' = b \<and> k' = k \<and> u' = u then Some r else upload_of t b' k' u')"
    "upload_of (tx_delete t (uploadRowKey b k u)) b' k' u' =
      (if b' = b \<and> k' = k \<and> u' = u then None else upload_of t b' k' u')"
    "upload_of (tx_set t (partRowKey b k u n) x) b' k' u' = upload_of t b' k' u'"
    "upload_of (tx_delete t (partRowKey b k u n)) b' k' u' = upload_of t b' k' u'"
  using assms by (auto simp: upload_of_def uploadRowKey_inject uploadRowKey_neq_partRowKey)

lemma parts_view_update [kv_simps]:
  assumes "nul_free b" "nul_free k" "nul_free b'" "nul_free k'"
  shows "parts_of (tx_set t (partRowKey b k u n) (RPart p)) b' k' u' n' =
      (if b' = b \<and> k' = k \<and> u' = u \<and> n' = n then Some p else parts_of t b' k' u' n')"
    "parts_of (tx_delete t (partRowKey b k u n)) b' k' u' n' =
      (if b' = b \<and> k' = k \<and> u' = u \<and> n' = n then None else parts_of t b' k' u' n')"
    "parts_of (tx_set t (uploadRowKey b k u) x) b' k' u' n' = parts_of t b' k' u' n'"
    "parts_of (tx_delete t (uploadRowKey b k u)) b' k' u' n' = parts_of t b' k' u' n'"
  using assms by (auto simp: parts_of_def partRowKey_inject uploadRowKey_neq_partRowKey [symmetric])

lemma upload_row_prefix_cases:
  assumes "wf_row x r" and "prefix (uploadRowKey b k u) x" and "nul_free b" and "nul_free k"
  shows "x = uploadRowKey b k u \<and> (\<exists>c. r = RUpload c) \<or>
    (\<exists>p. r = RPart p \<and> x = partRowKey b k u (pr_PartNumber p))"
proof -
  have "take 2 x = str ''u/''" using assms(2) by (auto simp: prefix_def take_2_row_keys row_key_defs)
  from wf_row_take_2(2) [OF assms(1) this] assms(2-4) show ?thesis
    by (auto simp: uploadRowKey_prefix_upload_iff uploadRowKey_prefix_part_iff)
qed

section \<open>Scanning the parts of an upload\<close>

lemma filter_sorted_list_of_set:
  "finite A \<Longrightarrow> filter P (sorted_list_of_set A) = sorted_list_of_set {x \<in> A. P x}"
  using sorted_list_of_set_unique [of "{x \<in> A. P x}" "filter P (sorted_list_of_set A)"]
  by (simp add: sorted_wrt_filter distinct_card [symmetric] del: sorted_list_of_set_unique)


lemma parts_vid:
  "wf_rows t \<Longrightarrow> nul_free b \<Longrightarrow> nul_free k \<Longrightarrow> parts_of t b k u n = Some p \<Longrightarrow> pr_PartNumber p = n"
  by (auto simp: parts_of_def split: option.splits row.splits dest!: wf_rowsD dest: wf_row_part)

lemma part_rows_dom:
  assumes "wf_rows t" and "nul_free b" and "nul_free k"
  shows "{x \<in> dom (tx_get t). prefix (uploadRowKey b k u) x \<and> x \<noteq> uploadRowKey b k u} =
    partRowKey b k u ` dom (parts_of t b k u)"
proof (intro equalityI subsetI)
  fix x
  assume "x \<in> {x \<in> dom (tx_get t). prefix (uploadRowKey b k u) x \<and> x \<noteq> uploadRowKey b k u}"
  then obtain r where r: "tx_get t x = Some r" and p: "prefix (uploadRowKey b k u) x"
    and ne: "x \<noteq> uploadRowKey b k u" by auto
  from upload_row_prefix_cases [OF wf_rowsD [OF assms(1) r] p assms(2,3)] ne r
  show "x \<in> partRowKey b k u ` dom (parts_of t b k u)" by (force simp: parts_of_def)
next
  fix x
  assume "x \<in> partRowKey b k u ` dom (parts_of t b k u)"
  then show "x \<in> {x \<in> dom (tx_get t). prefix (uploadRowKey b k u) x \<and> x \<noteq> uploadRowKey b k u}"
    using assms
    by (auto simp: parts_of_def uploadRowKey_prefix_part_iff uploadRowKey_neq_partRowKey [symmetric]
        split: option.splits)
qed

lemma finite_parts:
  assumes "wf_rows t" and "nul_free b" and "nul_free k"
  shows "finite (dom (parts_of t b k u))"
proof -
  have "finite {x \<in> dom (tx_get t). prefix (uploadRowKey b k u) x \<and> x \<noteq> uploadRowKey b k u}"
    using finite_prefix_keys [OF wf_rows_inv [OF assms(1)], of "uploadRowKey b k u"]
    by (rule rev_finite_subset) auto
  then have "finite (partRowKey b k u ` dom (parts_of t b k u))"
    by (simp only: part_rows_dom [OF assms])
  then show ?thesis by (rule finite_imageD) (auto simp: inj_on_def partRowKey_inject assms)
qed

text \<open>The stored parts in part-number order.\<close>

definition part_list :: "kv \<Rightarrow> gostring \<Rightarrow> gostring \<Rightarrow> version_id \<Rightarrow> PartRecord list" where
  "part_list t b k u = map (\<lambda>n. the (parts_of t b k u n)) (sorted_list_of_set (dom (parts_of t b k u)))"

lemma concat_map_if: "concat (map (\<lambda>x. if P x then [f x] else []) xs) = map f (filter P xs)"
  by (induction xs) auto

definition part_of_row :: "row option \<Rightarrow> PartRecord list" where
  "part_of_row v = (case v of Some (RPart pr) \<Rightarrow> [pr] | _ \<Rightarrow> [])"

lemma part_of_row_simps [simp]:
  "part_of_row (Some (RPart pr)) = [pr]" "part_of_row (Some (RUpload c)) = []"
  by (simp_all add: part_of_row_def)

lemma scan_parts_concat:
  assumes "tx_inv t"
  shows "scan_parts t row = concat (map (\<lambda>(x, v). part_of_row v) (prefix_rows t row))"
proof -
  have "scan_parts t row = scan_rows (prefix_rows t row) (\<lambda>x v out. (out @ part_of_row v, True)) []"
    unfolding scan_parts_def
    by (rule tx_scan_prefix [OF assms])
       (auto simp: set_prefix_rows [OF assms] part_of_row_def split: option.split row.split)
  also have "\<dots> = concat (map (\<lambda>(x, v). part_of_row v) (prefix_rows t row))"
    by (subst scan_rows_collect [where g = "\<lambda>x v. part_of_row v"]) simp_all
  finally show ?thesis .
qed

lemma scan_parts_eq:
  assumes "wf_rows t" and "nul_free b" and "nul_free k"
  shows "scan_parts t (uploadRowKey b k u) = part_list t b k u"
proof -
  let ?row = "uploadRowKey b k u" and ?S = "sorted_list_of_set {x \<in> dom (tx_get t). prefix (uploadRowKey b k u) x}"
  note inv = wf_rows_inv [OF assms(1)]
  have S: "set ?S = {x \<in> dom (tx_get t). prefix ?row x}" using finite_prefix_keys [OF inv] by simp
  have "scan_parts t ?row = concat (map (\<lambda>x. part_of_row (tx_get t x)) ?S)"
    by (simp add: scan_parts_concat [OF inv] prefix_rows_def comp_def)
  also have "\<dots> = concat (map (\<lambda>x. if x \<noteq> ?row then [hd (part_of_row (tx_get t x))] else []) ?S)"
  proof (rule arg_cong [where f = concat], rule map_cong [OF refl])
    fix x assume "x \<in> set ?S"
    then obtain r where r: "tx_get t x = Some r" and p: "prefix ?row x" using S by auto
    have "?row \<noteq> partRowKey b k u m" for m by (rule uploadRowKey_neq_partRowKey) (fact assms)+
    with upload_row_prefix_cases [OF wf_rowsD [OF assms(1) r] p assms(2,3)] r
    show "part_of_row (tx_get t x) = (if x \<noteq> ?row then [hd (part_of_row (tx_get t x))] else [])"
      by (auto simp: wf_get_upload assms)
  qed
  also have "\<dots> = map (\<lambda>x. hd (part_of_row (tx_get t x)))
      (sorted_list_of_set (partRowKey b k u ` dom (parts_of t b k u)))"
    unfolding concat_map_if part_rows_dom [OF assms, symmetric]
    by (subst filter_sorted_list_of_set) (simp_all add: finite_prefix_keys [OF inv] conj_commute conj_left_commute)
  also have "sorted_list_of_set (partRowKey b k u ` dom (parts_of t b k u)) =
      map (partRowKey b k u) (sorted_list_of_set (dom (parts_of t b k u)))"
    by (rule sorted_list_of_set_image_mono) (simp_all add: finite_parts [OF assms])
  finally show ?thesis
    using finite_parts [OF assms] by (auto simp: part_list_def wf_get_part assms)
qed

lemma stored_map_list:
  "(\<And>n. n \<in> set ns \<Longrightarrow> pr_PartNumber (f n) = n) \<Longrightarrow>
   stored_map (map f ns) = (\<lambda>n. if n \<in> set ns then Some (f n) else None)"
  by (induction ns rule: rev_induct) (auto simp: stored_map_def)

lemma stored_map_part_list:
  assumes "wf_rows t" and "nul_free b" and "nul_free k"
  shows "stored_map (part_list t b k u) = parts_of t b k u"
proof -
  have "stored_map (part_list t b k u) =
      (\<lambda>n. if n \<in> set (sorted_list_of_set (dom (parts_of t b k u))) then Some (the (parts_of t b k u n)) else None)"
    unfolding part_list_def using parts_vid [OF assms] finite_parts [OF assms]
    by (intro stored_map_list) auto
  then show ?thesis using finite_parts [OF assms] by (simp add: fun_eq_iff domIff)
qed

section \<open>Validating the client's list\<close>

definition big_enough :: "PartRecord list \<Rightarrow> bool" where
  "big_enough prs \<longleftrightarrow> (\<forall>pr \<in> set (butlast prs). i64_le MinPartSize (pr_Size pr))"

lemma collect_parts_Inr:
  "collect_parts stored cps s ps = Inr (s', ps') \<Longrightarrow>
   \<exists>prs. map (\<lambda>cp. stored (cp_PartNumber cp)) cps = map Some prs \<and> map pr_ETag prs = map cp_ETag cps \<and>
     big_enough prs \<and> ps' = ps @ map part_ref_of prs \<and> s' = s + sum_list (map pr_Size prs)"
proof (induction stored cps s ps rule: collect_parts.induct)
  case (2 stored cp cps s ps)
  from "2.prems" obtain pr where pr: "stored (cp_PartNumber cp) = Some pr" "pr_ETag pr = cp_ETag cp"
    and big: "cps \<noteq> [] \<longrightarrow> i64_le MinPartSize (pr_Size pr)"
    and rest: "collect_parts stored cps (s + pr_Size pr) (ps @ [part_ref_of pr]) = Inr (s', ps')"
    by (auto simp: i64_less_iff_not_le split: option.splits if_splits)
  from "2.IH" [OF pr(1)] pr(2) big rest obtain prs where
    "map (\<lambda>cp. stored (cp_PartNumber cp)) cps = map Some prs \<and> map pr_ETag prs = map cp_ETag cps \<and>
     big_enough prs \<and> ps' = (ps @ [part_ref_of pr]) @ map part_ref_of prs \<and>
     s' = (s + pr_Size pr) + sum_list (map pr_Size prs)"
    by (auto simp: i64_less_iff_not_le)
  moreover from this have "cps = [] \<longleftrightarrow> prs = []" by (metis map_is_Nil_conv)
  ultimately show ?case
    using pr big by (intro exI [of _ "pr # prs"]) (auto simp: big_enough_def algebra_simps)
qed (auto simp: big_enough_def)

lemma collect_parts_Inl: "collect_parts stored cps s ps = Inl e \<Longrightarrow> e \<in> {ErrInvalidPart, ErrPartTooSmall}"
  by (induction stored cps s ps rule: collect_parts.induct) (auto split: option.splits if_splits)

lemma part_order_ok_iff: "part_order_ok cps \<longleftrightarrow> sorted_wrt (<) (map cp_PartNumber cps)"
  by (induction cps rule: part_order_ok.induct) (auto intro: less_trans dest: order.strict_trans)

lemma discard_parts_eq:
  "discard_parts b k u used prs t ids =
     (foldl tx_delete t (map (\<lambda>pr. partRowKey b k u (pr_PartNumber pr)) prs),
      ids @ map pr_DataID (filter (\<lambda>pr. pr_PartNumber pr \<notin> used) prs))"
  by (induction b k u used prs t ids rule: discard_parts.induct) (auto simp: Let_def)


section \<open>Removing the rows of an upload\<close>

lemma tx_get_delete_all: "tx_get (foldl tx_delete t xs) x = (if x \<in> set xs then None else tx_get t x)"
  by (induction xs arbitrary: t) auto

lemma wf_rows_delete_all: "wf_rows t \<Longrightarrow> wf_rows (foldl tx_delete t xs)"
  by (induction xs arbitrary: t) (auto intro: wf_rows_delete)

text \<open>\<open>t'\<close> is \<open>t\<close> without the rows of one upload.\<close>

definition upload_dropped :: "kv \<Rightarrow> gostring \<Rightarrow> gostring \<Rightarrow> version_id \<Rightarrow> kv \<Rightarrow> bool" where
  "upload_dropped t b k u t' \<longleftrightarrow> wf_rows t' \<and>
     (\<forall>x. tx_get t' x = (if prefix (uploadRowKey b k u) x then None else tx_get t x))"

lemma upload_dropped_views:
  assumes "upload_dropped t b k u t'" and "valid_bucket b" and "valid_key k"
  shows "bucket_of t' = bucket_of t" "versions t' = versions t" "current_of t' = current_of t"
    "system_ok t' = system_ok t"
    "valid_bucket b' \<Longrightarrow> valid_key k' \<Longrightarrow>
       upload_of t' b' k' u' = (if b' = b \<and> k' = k \<and> u' = u then None else upload_of t b' k' u')"
    "valid_bucket b' \<Longrightarrow> valid_key k' \<Longrightarrow>
       parts_of t' b' k' u' n = (if b' = b \<and> k' = k \<and> u' = u then None else parts_of t b' k' u' n)"
proof -
  have get: "tx_get t' x = (if prefix (uploadRowKey b k u) x then None else tx_get t x)" for x
    using assms(1) by (simp add: upload_dropped_def)
  have other: "tx_get t' x = tx_get t x" if "take 2 x \<noteq> str ''u/''" for x
    using that by (auto simp: get prefix_def take_2_row_keys row_key_defs)
  show "bucket_of t' = bucket_of t" "versions t' = versions t" "current_of t' = current_of t"
    "system_ok t' = system_ok t"
    by (auto simp: fun_eq_iff view_defs system_ok_def other take_2_row_keys str_def)
  show "upload_of t' b' k' u' = (if b' = b \<and> k' = k \<and> u' = u then None else upload_of t b' k' u')"
    if "valid_bucket b'" "valid_key k'"
    using that assms(2,3) by (auto simp: upload_of_def get uploadRowKey_prefix_upload_iff)
  show "parts_of t' b' k' u' n = (if b' = b \<and> k' = k \<and> u' = u then None else parts_of t b' k' u' n)"
    if "valid_bucket b'" "valid_key k'"
    using that assms(2,3) by (auto simp: parts_of_def get uploadRowKey_prefix_part_iff)
qed

lemma store_inv_upload_dropped:
  assumes "store_inv n t" and "upload_dropped t b k u t'" and "valid_bucket b" and "valid_key k"
  shows "store_inv n t'"
proof -
  note views = upload_dropped_views [OF assms(2-4)]
  have "uploads_ok t'"
    using uploads_okD [OF store_invD(4) [OF assms(1)]]
    by (intro uploads_okI) (auto simp: views split: if_splits)
  with assms(1,2) show ?thesis by (simp add: store_inv_def views upload_dropped_def)
qed

lemma upload_droppedI:
  assumes "wf_rows t" and "valid_bucket b" and "valid_key k"
    and "dom (parts_of t b k u) \<subseteq> set ns"
  shows "upload_dropped t b k u (foldl tx_delete t (uploadRowKey b k u # map (partRowKey b k u) ns))"
proof -
  have "x \<in> set (uploadRowKey b k u # map (partRowKey b k u) ns)"
    if "prefix (uploadRowKey b k u) x" "tx_get t x \<noteq> None" for x
  proof -
    from that have "x = uploadRowKey b k u \<or> x \<in> partRowKey b k u ` dom (parts_of t b k u)"
      using part_rows_dom [OF assms(1), of b k u] assms(2,3) by auto
    with assms(4) show ?thesis by auto
  qed
  moreover have "prefix (uploadRowKey b k u) x"
    if "x \<in> set (uploadRowKey b k u # map (partRowKey b k u) ns)" for x
    using that by (auto simp: partRowKey_def)
  ultimately show ?thesis
    unfolding upload_dropped_def using wf_rows_delete_all [OF assms(1)] tx_get_delete_all by metis
qed

section \<open>The multipart operations\<close>

lemma ApplyCompleteMultipartUpload_effect:
  assumes "store_inv (Suc n) t" and "ApplyCompleteMultipartUpload p t = (t', Inr res)"
  defines "b \<equiv> co_Bucket p" and "k \<equiv> co_Key p" and "u \<equiv> co_UploadID p"
  obtains cfg upload prs e t1 where "bucket_of t b = Some cfg" "valid_bucket b" "valid_key k"
    "upload_of t b k u = Some upload" "co_Parts p \<noteq> []"
    "sorted_wrt (<) (map cp_PartNumber (co_Parts p))"
    "map (\<lambda>cp. parts_of t b k u (cp_PartNumber cp)) (co_Parts p) = map Some prs"
    "map pr_ETag prs = map cp_ETag (co_Parts p)" "big_enough prs"
    "e = complete_entry p upload cfg (sum_list (map pr_Size prs)) (map part_ref_of prs)
       (bump_vid (newest (versions t b k)) (co_VersionID p))"
    "object_effect t b k (pushed (versions t b k) e) (Some (currentRecordFor e)) t1"
    "upload_dropped t1 b k u t'" "cor_VersionID res = ve_VersionID e"
    "\<And>v e'. ve_NullVersion e \<Longrightarrow> versions t b k v = Some e' \<Longrightarrow> ve_NullVersion e' \<Longrightarrow>
       \<not> lockedAt e' (co_ProposedAtUnixMS p) False"
    "\<exists>replaced. cor_DiscardedDataIDs res = replaced @ map pr_DataID
       (filter (\<lambda>pr. pr_PartNumber pr \<notin> set (map cp_PartNumber (co_Parts p))) (part_list t b k u))"
proof -
  note wf = store_invD(1) [OF assms(1)]
  from assms(2) obtain cfg where cfg: "bucket_of t b = Some cfg" and k: "valid_key k"
    by (auto simp: ApplyCompleteMultipartUpload_def GetBucket_eq [OF wf] b_def k_def split: option.splits)
  have b: "valid_bucket b" using bucket_of_name [OF wf cfg] by simp
  note nf = valid_nul_free(1) [OF b] valid_nul_free(2) [OF k]
  note body = assms(2) [unfolded ApplyCompleteMultipartUpload_def GetBucket_eq [OF wf] Let_def,
      folded b_def k_def u_def, unfolded cfg k wf_get_upload [OF wf nf] scan_parts_eq [OF wf nf]
      stored_map_part_list [OF wf nf] newestVersion_eq [OF wf nf] discard_parts_eq sum.case option.case]
  from body obtain upload s ps where up: "upload_of t b k u = Some upload" and ne: "co_Parts p \<noteq> []"
    and ord: "part_order_ok (co_Parts p)" and col: "collect_parts (parts_of t b k u) (co_Parts p) 0 [] = Inr (s, ps)"
    by (auto split: option.splits if_splits sum.splits)
  define e where "e = complete_entry p upload cfg s ps (bump_vid (newest (versions t b k)) (co_VersionID p))"
  from body up ne ord col obtain t1 ids where c: "commit_entry t b k (co_ProposedAtUnixMS p) e = (t1, Inr ids)"
    and t': "t' = foldl tx_delete t1 (uploadRowKey b k u #
      map (\<lambda>pr. partRowKey b k u (pr_PartNumber pr)) (part_list t b k u))"
    and res: "res = \<lparr>cor_VersionID = ve_VersionID e, cor_DiscardedDataIDs = ids @ map pr_DataID
      (filter (\<lambda>pr. pr_PartNumber pr \<notin> set (map cp_PartNumber (co_Parts p))) (part_list t b k u))\<rparr>"
    by (auto simp: e_def split: sum.splits prod.splits)
  note spec = commit_entry_spec [OF wf b k inv_key(2) [OF assms(1) b k] c]
  note eff = spec(2) [OF refl]
  have parts: "parts_of t1 b k u = parts_of t b k u"
    using object_effectD(2) [OF eff] by (simp add: same_rest_def)
  have nums: "map (\<lambda>pr. partRowKey b k u (pr_PartNumber pr)) (part_list t b k u) =
      map (partRowKey b k u) (sorted_list_of_set (dom (parts_of t b k u)))"
    using parts_vid [OF wf nf] finite_parts [OF wf nf] by (auto simp: part_list_def)
  have drop: "upload_dropped t1 b k u t'"
    unfolding t' nums using finite_parts [OF wf nf]
    by (intro upload_droppedI object_effectD(1) [OF eff] b k) (simp add: parts)
  from collect_parts_Inr [OF col] obtain prs where prs:
    "map (\<lambda>cp. parts_of t b k u (cp_PartNumber cp)) (co_Parts p) = map Some prs"
    "map pr_ETag prs = map cp_ETag (co_Parts p)" "big_enough prs" "ps = map part_ref_of prs"
    "s = sum_list (map pr_Size prs)" by auto
  show thesis
    by (rule that [OF cfg b k up ne ord [unfolded part_order_ok_iff] prs(1-3) _ eff drop])
       (use e_def prs res spec(3) [OF refl] in auto)
qed


text \<open>The scan of an abort: the parts' data and every row key of the upload.\<close>

lemma abort_scan:
  assumes "tx_inv t"
  shows "tx_scan t row
     (\<lambda>x v (ids, rows). if \<not> prefix row x then ((ids, rows), False)
        else ((case v of Some (RPart pr) \<Rightarrow> ids @ [pr_DataID pr] | _ \<Rightarrow> ids, rows @ [x]), True)) ([], []) =
     (map pr_DataID (scan_parts t row), map fst (prefix_rows t row))" (is "?scan = _")
proof -
  let ?step = "\<lambda>x v (ids, rows). ((ids @ map pr_DataID (part_of_row v), rows @ [x]), True)"
  have "scan_rows xs ?step (ids, ks) =
      (ids @ map pr_DataID (concat (map (\<lambda>(x, v). part_of_row v) xs)), ks @ map fst xs)" for xs ids ks
    by (induction xs arbitrary: ids ks) auto
  moreover have "?scan = scan_rows (prefix_rows t row) ?step ([], [])"
    by (rule tx_scan_prefix [OF assms])
       (auto simp: set_prefix_rows [OF assms] part_of_row_def split: option.split row.split)
  ultimately show ?thesis by (simp add: scan_parts_concat [OF assms])
qed

lemma ApplyAbortMultipartUpload_effect:
  assumes "store_inv n t" and "ApplyAbortMultipartUpload p t = (t', Inr res)"
  defines "b \<equiv> ab_Bucket p" and "k \<equiv> ab_Key p" and "u \<equiv> ab_UploadID p"
  shows "upload_dropped t b k u t'" and "upload_of t b k u \<noteq> None" and "valid_bucket b" and "valid_key k"
    and "abr_PartDataIDs res = map pr_DataID (part_list t b k u)"
proof -
  note wf = store_invD(1) [OF assms(1)]
  note inv = wf_rows_inv [OF wf]
  from assms(2) obtain cfg where cfg: "bucket_of t b = Some cfg" and k: "valid_key k"
    by (auto simp: ApplyAbortMultipartUpload_def GetBucket_eq [OF wf] b_def k_def split: option.splits)
  have b: "valid_bucket b" using bucket_of_name [OF wf cfg] by simp
  note nf = valid_nul_free(1) [OF b] valid_nul_free(2) [OF k]
  show "valid_bucket b" "valid_key k" by (fact b k)+
  let ?row = "uploadRowKey b k u"
  note body = assms(2) [unfolded ApplyAbortMultipartUpload_def GetBucket_eq [OF wf] Let_def abort_scan [OF inv],
      folded b_def k_def u_def, unfolded cfg k scan_parts_eq [OF wf nf] sum.case option.case prod.case]
  show "upload_of t b k u \<noteq> None"
    using body by (auto simp: wf_get_upload [OF wf nf] split: option.splits)
  from body have t': "t' = foldl tx_delete t (map fst (prefix_rows t ?row))"
    and ids: "abr_PartDataIDs res = map pr_DataID (part_list t b k u)"
    by (auto split: option.splits)
  show "abr_PartDataIDs res = map pr_DataID (part_list t b k u)" by (fact ids)
  have "set (map fst (prefix_rows t ?row)) = {x \<in> dom (tx_get t). prefix ?row x}"
    using set_prefix_rows [OF inv, of ?row] by force
  then show "upload_dropped t b k u t'"
    using wf_rows_delete_all [OF wf] by (auto simp: upload_dropped_def t' tx_get_delete_all)
qed

text \<open>Writing an upload or part row.\<close>

lemma store_inv_set_upload:
  assumes "store_inv n t" and "valid_bucket b" and "valid_key k" and "bucket_of t b \<noteq> None"
    and "ur_UploadID r = u"
  shows "store_inv n (tx_set t (uploadRowKey b k u) (RUpload r))"
proof -
  have "wf_rows (tx_set t (uploadRowKey b k u) (RUpload r))"
    using assms by (intro wf_rows_set store_invD(1) [OF assms(1)] wf_rowI)
  moreover have "uploads_ok (tx_set t (uploadRowKey b k u) (RUpload r))"
    using uploads_okD [OF store_invD(4) [OF assms(1)]] assms(2-4)
    by (intro uploads_okI) (auto simp: upload_view_update parts_view_update split: if_splits)
  ultimately show ?thesis using assms(1) by (simp add: store_inv_def)
qed

lemma store_inv_set_part:
  assumes "store_inv n t" and "valid_bucket b" and "valid_key k" and "upload_of t b k u \<noteq> None"
    and "pr_PartNumber r = m" and "m \<noteq> 0" and "m \<le> MaxPartNumber"
  shows "store_inv n (tx_set t (partRowKey b k u m) (RPart r))"
proof -
  have "wf_rows (tx_set t (partRowKey b k u m) (RPart r))"
    using assms by (intro wf_rows_set store_invD(1) [OF assms(1)] wf_rowI)
  moreover have "uploads_ok (tx_set t (partRowKey b k u m) (RPart r))"
    using uploads_okD [OF store_invD(4) [OF assms(1)]] assms(2-7)
    by (intro uploads_okI) (auto simp: upload_view_update parts_view_update split: if_splits)
  ultimately show ?thesis using assms(1) by (simp add: store_inv_def)
qed

lemma ApplyCreateMultipartUpload_inv:
  assumes "store_inv n t" and "ApplyCreateMultipartUpload p t = (t', Inr r)"
  shows "store_inv n t'" and "versions t' = versions t" and "bucket_of t' = bucket_of t"
proof -
  note wf = store_invD(1) [OF assms(1)]
  from assms(2) obtain cfg up where cfg: "bucket_of t (cm_Bucket p) = Some cfg" and k: "valid_key (cm_Key p)"
    and t': "t' = tx_set t (uploadRowKey (cm_Bucket p) (cm_Key p) (cm_UploadID p)) (RUpload up)"
      "ur_UploadID up = cm_UploadID p"
    by (auto simp: ApplyCreateMultipartUpload_def GetBucket_eq [OF wf] Let_def split: option.splits)
  show "store_inv n t'" unfolding t'(1)
    by (rule store_inv_set_upload [OF assms(1)]) (use bucket_of_name [OF wf cfg] cfg k t'(2) in auto)
  show "versions t' = versions t" "bucket_of t' = bucket_of t" by (simp_all add: t'(1))
qed

lemma ApplyUploadPart_inv:
  assumes "store_inv n t" and "ApplyUploadPart p t = (t', Inr r)"
  shows "store_inv n t'" and "versions t' = versions t" and "bucket_of t' = bucket_of t"
proof -
  note wf = store_invD(1) [OF assms(1)]
  from assms(2) obtain cfg where cfg: "bucket_of t (up_Bucket p) = Some cfg" and k: "valid_key (up_Key p)"
    by (auto simp: ApplyUploadPart_def GetBucket_eq [OF wf] split: option.splits)
  have b: "valid_bucket (up_Bucket p)" using bucket_of_name [OF wf cfg] by simp
  note nf = valid_nul_free(1) [OF b] valid_nul_free(2) [OF k]
  from assms(2) cfg k obtain rec where
    t': "t' = tx_set t (partRowKey (up_Bucket p) (up_Key p) (up_UploadID p) (up_PartNumber p)) (RPart rec)"
      "pr_PartNumber rec = up_PartNumber p"
    and up: "upload_of t (up_Bucket p) (up_Key p) (up_UploadID p) \<noteq> None"
    and num: "up_PartNumber p \<noteq> 0" "up_PartNumber p \<le> MaxPartNumber"
    by (auto simp: ApplyUploadPart_def GetBucket_eq [OF wf] wf_get_upload [OF wf nf] wf_get_part [OF wf nf] Let_def
        not_less split: option.splits if_splits)
  show "store_inv n t'" unfolding t'(1)
    by (rule store_inv_set_part [OF assms(1) b k up t'(2) num])
  show "versions t' = versions t" "bucket_of t' = bucket_of t" by (simp_all add: t'(1))
qed

lemma upload_applies_no_panic:
  assumes "store_inv n t"
  shows "snd (ApplyCreateMultipartUpload p1 t) \<noteq> Inl Panic" "snd (ApplyUploadPart p2 t) \<noteq> Inl Panic"
    "snd (ApplyAbortMultipartUpload p3 t) \<noteq> Inl Panic"
  using store_invD(1) [OF assms] bucket_of_name [OF store_invD(1) [OF assms]]
  by (auto simp: ApplyCreateMultipartUpload_def ApplyUploadPart_def ApplyAbortMultipartUpload_def
      GetBucket_eq wf_get_upload wf_get_part Let_def split: option.split prod.split
      dest: validateObjectKey_error)

lemma ApplyCompleteMultipartUpload_no_panic:
  assumes "store_inv n t"
  shows "snd (ApplyCompleteMultipartUpload p t) \<noteq> Inl Panic"
proof
  assume panic: "snd (ApplyCompleteMultipartUpload p t) = Inl Panic"
  note wf = store_invD(1) [OF assms]
  from panic obtain cfg where cfg: "bucket_of t (co_Bucket p) = Some cfg" and k: "valid_key (co_Key p)"
    by (auto simp: ApplyCompleteMultipartUpload_def GetBucket_eq [OF wf] dest: validateObjectKey_error
        split: option.splits)
  have b: "valid_bucket (co_Bucket p)" using bucket_of_name [OF wf cfg] by simp
  note nf = valid_nul_free(1) [OF b] valid_nul_free(2) [OF k]
  from panic show False
    by (auto simp: ApplyCompleteMultipartUpload_def GetBucket_eq [OF wf] cfg k wf_get_upload [OF wf nf]
        newestVersion_eq [OF wf nf] Let_def discard_parts_eq split: option.splits sum.splits if_splits prod.splits
        dest: collect_parts_Inl commit_entry_spec(1) [OF wf b k inv_key(2) [OF assms b k]])
qed

end
