(* ===== verification/Meta_System_Steps.thy ===== *)
theory Meta_System_Steps
  imports Meta_Invariant Meta_Txn
begin

text \<open>
  The bucket operations and the operations on system rows (cluster layout, encryption posture,
  node registry, trust bundle) preserve the store invariant and do not panic.
\<close>

section \<open>Buckets\<close>

lemma store_inv_set_bucket:
  assumes "store_inv n t" and "bucket_ok c" and "valid_bucket (bc_Name c)"
    and "\<And>k. bc_Versioning c = Unversioned \<Longrightarrow> all_null (versions t (bc_Name c) k)"
  shows "store_inv n (tx_set t (bucketRowKey (bc_Name c)) (RBucket c))"
proof -
  have wf: "wf_rows (tx_set t (bucketRowKey (bc_Name c)) (RBucket c))"
    using assms(3) by (intro wf_rows_set store_invD(1) [OF assms(1)]) simp
  have up: "uploads_ok (tx_set t (bucketRowKey (bc_Name c)) (RBucket c))"
    using uploads_okD [OF store_invD(4) [OF assms(1)]] by (intro uploads_okI) auto
  have key: "key_ok n (Some c) (versions t (bc_Name c) k) (current_of t (bc_Name c) k)" for k
    using store_invD(2) [OF assms(1), of "bc_Name c" k] assms(4) [of k] by (auto simp: key_ok_def)
  show ?thesis
    using wf up key assms(1,2) by (auto simp: store_inv_def)
qed

lemma ApplyCreateBucket_inv:
  assumes "store_inv n t" and "ApplyCreateBucket p t = (t', Inr r)"
  shows "store_inv n t'"
    and "\<exists>c. bucket_of t' = (bucket_of t)(cb_Bucket p \<mapsto> c) \<and> bc_ObjectLockEnabled c = cb_ObjectLockEnabled p"
    and "bucket_of t (cb_Bucket p) = None" and "versions t' = versions t"
proof -
  let ?b = "cb_Bucket p"
  define c where "c = BucketConfig_zero\<lparr>bc_FormatVersion := currentFormatVersion, bc_Name := ?b,
      bc_CreatedUnixMS := cb_ProposedAtUnixMS p,
      bc_Versioning := (if cb_ObjectLockEnabled p then VersioningEnabled else Unversioned),
      bc_ObjectLockEnabled := cb_ObjectLockEnabled p\<rparr>"
  note wf = store_invD(1) [OF assms(1)]
  from assms(2) have valid: "valid_bucket ?b" and none: "bucket_of t ?b = None"
    and t': "t' = tx_set t (bucketRowKey (bc_Name c)) (RBucket c)"
    by (auto simp: ApplyCreateBucket_def wf_get_bucket [OF wf] c_def BucketConfig_zero_def Let_def split: option.splits if_splits)
  have "versions t ?b k = Map.empty" for k
    using store_invD(2) [OF assms(1), of ?b k] none by (auto simp: key_ok_def)
  then show "store_inv n t'"
    unfolding t' by (intro store_inv_set_bucket [OF assms(1)])
      (auto simp: c_def valid bucket_ok_def all_null_def)
  show "\<exists>c. bucket_of t' = (bucket_of t)(?b \<mapsto> c) \<and> bc_ObjectLockEnabled c = cb_ObjectLockEnabled p"
    using t' by (auto simp: c_def)
  show "bucket_of t ?b = None" "versions t' = versions t" by (simp_all add: none t')
qed

text \<open>The prefix seek of a bucket delete tests that no row has the prefix.\<close>

lemma prefix_empty_iff:
  assumes "tx_inv t"
  shows "prefix_empty t p \<longleftrightarrow> (\<forall>x \<in> dom (tx_get t). \<not> prefix p x)"
proof (cases "\<exists>x \<in> dom (tx_get t). prefix p x")
  case True
  then have "{x \<in> dom (tx_get t). prefix p x} \<noteq> {}" by auto
  then have "takeWhile (\<lambda>r. prefix p (fst r)) (tx_rows t p) \<noteq> []"
    using tx.rows_prefix [OF assms, of p] finite_prefix_keys [OF assms, of p] by auto
  then obtain k v rest where "tx_rows t p = (k, v) # rest" "prefix p k"
    by (cases "tx_rows t p") (auto split: if_splits)
  with True show ?thesis by (auto simp: prefix_empty_def tx_scan_eq)
next
  case False
  with tx.no_row_prefix [OF assms, of p] show ?thesis
    by (auto simp: prefix_empty_def tx_scan_eq)
qed

lemma ApplyDeleteBucket_inv:
  assumes "store_inv n t" and "ApplyDeleteBucket p t = (t', Inr r)"
  shows "store_inv n t'" and "bucket_of t' = (bucket_of t)(db_Bucket p := None)" and "versions t' = versions t"
    and "versions t (db_Bucket p) k = Map.empty"
proof -
  let ?b = "db_Bucket p"
  note wf = store_invD(1) [OF assms(1)]
  from assms(2) obtain c where c: "bucket_of t ?b = Some c"
    and t': "t' = tx_delete t (bucketRowKey ?b)"
    and empty: "prefix_empty t (bucketVersionsScanPrefix ?b)" "prefix_empty t (uploadsScanPrefix ?b)"
    by (auto simp: ApplyDeleteBucket_def wf_get_bucket [OF wf] split: option.splits if_splits)
  have b: "valid_bucket ?b" using bucket_of_name [OF wf c] by simp
  have none: "versions t ?b q = Map.empty" for q
  proof (rule ext, rule ccontr)
    fix v
    assume "versions t ?b q v \<noteq> None"
    then have "versionRowKey ?b q v \<in> dom (tx_get t)" by (auto simp: wf_get_version [OF wf])
    with empty(1) show False
      using bucketVersionsScanPrefix_iff [of ?b ?b] b by (auto simp: prefix_empty_iff [OF wf_rows_inv [OF wf]])
  qed
  have no_upload: "upload_of t ?b q u = None" if "valid_key q" for q u
  proof (rule ccontr)
    assume "upload_of t ?b q u \<noteq> None"
    then have "uploadRowKey ?b q u \<in> dom (tx_get t)" using b that by (auto simp: wf_get_upload [OF wf])
    with empty(2) show False
      using uploadsScanPrefix_upload_iff [of ?b ?b] b by (auto simp: prefix_empty_iff [OF wf_rows_inv [OF wf]])
  qed
  have "current_of t ?b q = None" for q
    using store_invD(2) [OF assms(1), of ?b q] none by (simp add: key_ok_def derived_current_def)
  then have key: "key_ok n None (versions t ?b q) (current_of t ?b q)" for q
    using store_invD(2) [OF assms(1), of ?b q] none [of q] by (auto simp: key_ok_def)
  have "uploads_ok t'"
    using uploads_okD [OF store_invD(4) [OF assms(1)]] no_upload unfolding t'
    by (intro uploads_okI) (auto split: if_splits)
  moreover have "wf_rows t'" unfolding t' by (rule wf_rows_delete [OF wf])
  ultimately show "store_inv n t'"
    using assms(1) key by (auto simp: store_inv_def t')
  show "bucket_of t' = (bucket_of t)(?b := None)" "versions t' = versions t" "versions t ?b k = Map.empty"
    using none by (simp_all add: t')
qed

lemma ApplySetBucketVersioning_inv:
  assumes "store_inv n t" and "ApplySetBucketVersioning p t = (t', Inr r)"
  obtains c where "store_inv n t'" "bucket_of t (sv_Bucket p) = Some c"
    "bucket_of t' = (bucket_of t)(sv_Bucket p \<mapsto> c\<lparr>bc_Versioning := sv_State p\<rparr>)" "versions t' = versions t"
proof -
  note wf = store_invD(1) [OF assms(1)]
  from assms(2) obtain c where c: "bucket_of t (sv_Bucket p) = Some c"
    and st: "sv_State p = VersioningEnabled \<or> sv_State p = VersioningSuspended \<and> \<not> bc_ObjectLockEnabled c"
    and t': "t' = tx_set t (bucketRowKey (sv_Bucket p)) (RBucket (c\<lparr>bc_Versioning := sv_State p\<rparr>))"
    by (auto simp: ApplySetBucketVersioning_def GetBucket_eq [OF wf] split: option.splits if_splits)
  have name: "bc_Name c = sv_Bucket p" "valid_bucket (sv_Bucket p)" using bucket_of_name [OF wf c] by auto
  have "store_inv n t'"
    using store_inv_set_bucket [OF assms(1), of "c\<lparr>bc_Versioning := sv_State p\<rparr>"] name st
    by (auto simp: t' bucket_ok_def)
  then show thesis by (rule that [OF _ c]) (simp_all add: t')
qed

lemma ApplySetObjectLockConfiguration_inv:
  assumes "store_inv n t" and "ApplySetObjectLockConfiguration p t = (t', Inr r)"
  shows "store_inv n t'" and "versions t' = versions t"
    and "bucket_of t b = Some c \<Longrightarrow> \<exists>c'. bucket_of t' b = Some c' \<and> bc_ObjectLockEnabled c' = bc_ObjectLockEnabled c"
proof -
  note wf = store_invD(1) [OF assms(1)]
  from assms(2) obtain c0 where c: "bucket_of t (ol_Bucket p) = Some c0"
    and t': "t' = tx_set t (bucketRowKey (ol_Bucket p)) (RBucket (c0\<lparr>
      bc_DefaultRetentionMode := ol_DefaultRetentionMode p, bc_DefaultRetentionDays := ol_DefaultRetentionDays p,
      bc_DefaultRetentionYears := ol_DefaultRetentionYears p\<rparr>))"
    by (auto simp: ApplySetObjectLockConfiguration_def GetBucket_eq [OF wf] split: option.splits if_splits)
  have name: "bc_Name c0 = ol_Bucket p" "valid_bucket (ol_Bucket p)" using bucket_of_name [OF wf c] by auto
  have null: "all_null (versions t (ol_Bucket p) k)" if "bc_Versioning c0 = Unversioned" for k
    using store_invD(2) [OF assms(1), of "ol_Bucket p" k] c that by (auto simp: key_ok_def all_null_def)
  show "store_inv n t'"
    using store_inv_set_bucket [OF assms(1), of "c0\<lparr>bc_DefaultRetentionMode := ol_DefaultRetentionMode p,
        bc_DefaultRetentionDays := ol_DefaultRetentionDays p,
        bc_DefaultRetentionYears := ol_DefaultRetentionYears p\<rparr>"] name null store_invD(3) [OF assms(1) c]
    by (simp add: t' bucket_ok_def)
  show "versions t' = versions t" by (simp add: t')
  show "\<exists>c'. bucket_of t' b = Some c' \<and> bc_ObjectLockEnabled c' = bc_ObjectLockEnabled c"
    if "bucket_of t b = Some c" using that c by (auto simp: t')
qed

lemma bucket_applies_no_panic:
  assumes "store_inv n t"
  shows "snd (ApplyCreateBucket p1 t) \<noteq> Inl Panic" "snd (ApplyDeleteBucket p2 t) \<noteq> Inl Panic"
    "snd (ApplySetBucketVersioning p3 t) \<noteq> Inl Panic" "snd (ApplySetObjectLockConfiguration p4 t) \<noteq> Inl Panic"
  using store_invD(1) [OF assms]
  by (auto simp: ApplyCreateBucket_def ApplyDeleteBucket_def ApplySetBucketVersioning_def
      ApplySetObjectLockConfiguration_def GetBucket_eq Let_def split: option.split
      dest: validateBucketName_error)


section \<open>System rows\<close>

definition outside_objects :: "gostring \<Rightarrow> bool" where
  "outside_objects x \<longleftrightarrow> not_bucket_key x \<and> not_version_key x \<and> not_current_key x \<and> not_upload_key x"

lemma outside_objects [simp]:
  "outside_objects clusterLayoutKey" "outside_objects encryptionPostureKey"
  "outside_objects trustBundleKey" "outside_objects (nodeRowKey i)"
  by (simp_all add: outside_objects_def)

text \<open>A system operation that succeeds: the object rows stay, the invariant is kept.\<close>

definition system_step :: "nat \<Rightarrow> kv \<Rightarrow> kv \<Rightarrow> bool" where
  "system_step n t t' \<longleftrightarrow> store_inv n t' \<and> versions t' = versions t \<and> bucket_of t' = bucket_of t"

lemma system_step_refl: "store_inv n t \<Longrightarrow> system_step n t t"
  by (simp add: system_step_def)

lemma system_step_set:
  assumes "store_inv n t" and "outside_objects x" and "wf_row x r" and "system_ok (tx_set t x r)"
  shows "system_step n t (tx_set t x r)"
proof -
  have "uploads_ok (tx_set t x r) = uploads_ok t"
    using assms(2) by (simp add: uploads_ok_def outside_objects_def)
  then show ?thesis
    using assms wf_rows_set [OF store_invD(1) [OF assms(1)] assms(3)]
    by (simp add: system_step_def store_inv_def outside_objects_def)
qed

lemma system_step_node:
  "store_inv n t \<Longrightarrow> nr_NodeID r = i \<Longrightarrow> i \<noteq> [] \<Longrightarrow> system_step n t (tx_set t (nodeRowKey i) (RNode r))"
  by (rule system_step_set) (auto simp: store_invD(5))

lemma system_step_layout:
  "store_inv n t \<Longrightarrow> layout_ok l \<Longrightarrow> system_step n t (tx_set t clusterLayoutKey (RLayout l))"
  using store_invD(5) [of n t] by (intro system_step_set) (auto simp: system_ok_def)

lemma system_step_posture:
  "store_inv n t \<Longrightarrow> posture_ok p \<Longrightarrow> system_step n t (tx_set t encryptionPostureKey (RPosture p))"
  using store_invD(5) [of n t] by (intro system_step_set) (auto simp: system_ok_def)

lemma system_step_trust:
  "store_inv n t \<Longrightarrow> trust_ok b \<Longrightarrow> system_step n t (tx_set t trustBundleKey (RTrust b))"
  using store_invD(5) [of n t] by (intro system_step_set) (auto simp: system_ok_def)

text \<open>What a lookup of a system row returns.\<close>

lemma layout_cases:
  assumes "store_inv n t"
  obtains "tx_get t clusterLayoutKey = None"
  | l where "tx_get t clusterLayoutKey = Some (RLayout l)" "layout_ok l"
  using wf_row_system(1) [OF wf_rowsD [OF store_invD(1) [OF assms]]] store_invD(5) [OF assms]
  by (cases "tx_get t clusterLayoutKey") (auto simp: system_ok_def)

lemma posture_cases:
  assumes "store_inv n t"
  obtains "tx_get t encryptionPostureKey = None"
  | p where "tx_get t encryptionPostureKey = Some (RPosture p)" "posture_ok p"
  using wf_row_system(2) [OF wf_rowsD [OF store_invD(1) [OF assms]]] store_invD(5) [OF assms]
  by (cases "tx_get t encryptionPostureKey") (auto simp: system_ok_def)

lemma trust_cases:
  assumes "store_inv n t"
  obtains "tx_get t trustBundleKey = None"
  | b where "tx_get t trustBundleKey = Some (RTrust b)" "trust_ok b"
  using wf_row_system(3) [OF wf_rowsD [OF store_invD(1) [OF assms]]] store_invD(5) [OF assms]
  by (cases "tx_get t trustBundleKey") (auto simp: system_ok_def)

lemma node_cases:
  assumes "store_inv n t"
  obtains "tx_get t (nodeRowKey i) = None"
  | r where "tx_get t (nodeRowKey i) = Some (RNode r)" "nr_NodeID r = i"
  using wf_row_system(4) [OF wf_rowsD [OF store_invD(1) [OF assms]]]
  by (cases "tx_get t (nodeRowKey i)") auto

lemma node_applies:
  assumes "store_inv n t"
  shows "snd (ApplyRegisterNode p1 t) = Inr r \<Longrightarrow> system_step n t (fst (ApplyRegisterNode p1 t))"
    "snd (ApplySetNodeDraining p2 t) = Inr r \<Longrightarrow> system_step n t (fst (ApplySetNodeDraining p2 t))"
    "snd (ApplySetNodeReplacedBy p3 t) = Inr r \<Longrightarrow> system_step n t (fst (ApplySetNodeReplacedBy p3 t))"
    "snd (ApplySetNodeLeafCA p4 t) = Inr r \<Longrightarrow> system_step n t (fst (ApplySetNodeLeafCA p4 t))"
    "snd (ApplySetNodeVersion p5 t) = Inr r \<Longrightarrow> system_step n t (fst (ApplySetNodeVersion p5 t))"
    "snd (ApplyRegisterNode p1 t) \<noteq> Inl Panic" "snd (ApplySetNodeDraining p2 t) \<noteq> Inl Panic"
    "snd (ApplySetNodeReplacedBy p3 t) \<noteq> Inl Panic" "snd (ApplySetNodeLeafCA p4 t) \<noteq> Inl Panic"
    "snd (ApplySetNodeVersion p5 t) \<noteq> Inl Panic"
          apply (rule node_cases [OF assms, of "rn_NodeID p1"];
            auto simp: ApplyRegisterNode_def NodeRecord_zero_def Let_def intro!: system_step_node assms split: if_splits)
         apply (rule node_cases [OF assms, of "nd_NodeID p2"];
            auto simp: ApplySetNodeDraining_def intro!: system_step_node assms split: if_splits)
        apply (rule node_cases [OF assms, of "nb_NodeID p3"];
            auto simp: ApplySetNodeReplacedBy_def intro!: system_step_node assms split: if_splits)
       apply (rule node_cases [OF assms, of "nl_NodeID p4"];
            auto simp: ApplySetNodeLeafCA_def intro!: system_step_node assms split: if_splits)
      apply (rule node_cases [OF assms, of "nv_NodeID p5"];
            auto simp: ApplySetNodeVersion_def intro!: system_step_node assms split: if_splits)
     apply (rule node_cases [OF assms, of "rn_NodeID p1"]; simp add: ApplyRegisterNode_def Let_def)
    apply (rule node_cases [OF assms, of "nd_NodeID p2"]; simp add: ApplySetNodeDraining_def)
   apply (rule node_cases [OF assms, of "nb_NodeID p3"]; simp add: ApplySetNodeReplacedBy_def)
  apply (rule node_cases [OF assms, of "nl_NodeID p4"]; simp add: ApplySetNodeLeafCA_def)
  apply (rule node_cases [OF assms, of "nv_NodeID p5"]; simp add: ApplySetNodeVersion_def)
  done

lemma layout_apply:
  assumes "store_inv n t"
  shows "snd (ApplySetClusterLayout p t) = Inr r \<Longrightarrow> system_step n t (fst (ApplySetClusterLayout p t))"
    and "snd (ApplySetClusterLayout p t) \<noteq> Inl Panic"
  using assms
  by (auto simp: ApplySetClusterLayout_def Let_def layout_ok_def elim!: layout_cases
      intro!: system_step_layout [OF assms] split: if_splits)

lemma copy_CAs_Inr:
  "copy_CAs acc cs = Inr cas \<Longrightarrow>
     cas = acc @ cs \<and> (\<forall>c \<in> set cs. ca_Fingerprint c \<noteq> 0 \<and> ca_CertPEM c \<noteq> [])"
proof (induction cs arbitrary: acc)
  case (Cons c cs)
  then show ?case
    using Cons.IH [of "acc @ [c]"] by (cases c) (auto split: if_splits)
qed simp

lemma copy_CAs_Inl: "copy_CAs acc cs = Inl e \<Longrightarrow> e = ErrInvalidTrustBundle"
  by (induction cs arbitrary: acc) (simp_all split: if_splits)

lemma trust_apply:
  assumes "store_inv n t"
  shows "snd (ApplySetTrustBundle p t) = Inr r \<Longrightarrow> system_step n t (fst (ApplySetTrustBundle p t))"
    and "snd (ApplySetTrustBundle p t) \<noteq> Inl Panic"
  using assms
  by (auto simp: ApplySetTrustBundle_def Let_def trust_ok_def HasCA_iff elim!: trust_cases
      intro!: system_step_trust [OF assms] dest!: copy_CAs_Inr copy_CAs_Inl split: if_splits sum.splits)

lemma posture_applies:
  assumes "store_inv n t"
  shows "snd (ApplySetEncryptionPosture p1 t) = Inr r \<Longrightarrow> system_step n t (fst (ApplySetEncryptionPosture p1 t))"
    "snd (ApplyBeginKEKRotation p2 t) = Inr r \<Longrightarrow> system_step n t (fst (ApplyBeginKEKRotation p2 t))"
    "snd (ApplyCompleteKEKRotation p3 t) = Inr r \<Longrightarrow> system_step n t (fst (ApplyCompleteKEKRotation p3 t))"
    "snd (ApplySetEncryptionPosture p1 t) \<noteq> Inl Panic" "snd (ApplyBeginKEKRotation p2 t) \<noteq> Inl Panic"
    "snd (ApplyCompleteKEKRotation p3 t) \<noteq> Inl Panic"
  using assms
  by (auto simp: ApplySetEncryptionPosture_def ApplyBeginKEKRotation_def ApplyCompleteKEKRotation_def
      EncryptionPosture_zero_def Let_def posture_ok_def elim!: posture_cases
      intro!: system_step_posture [OF assms] system_step_refl [OF assms] split: if_splits)

lemmas system_steps = node_applies(1-5) layout_apply(1) trust_apply(1) posture_applies(1-3)
lemmas system_no_panic = node_applies(6-10) layout_apply(2) trust_apply(2) posture_applies(4-6)

end
