(* ===== verification/Meta_Demo.thy ===== *)
theory Meta_Demo
  imports Meta_Dispatch
begin

text \<open>
  A small concrete history, used to instantiate the theorems: a lock-enabled bucket, an object
  under COMPLIANCE retention, and attempts to remove it.
\<close>

definition demo_bucket :: gostring where
  "demo_bucket = str ''abc''"

definition demo_key :: gostring where
  "demo_key = str ''k''"

definition demo_create :: CreateBucket where
  "demo_create = \<lparr>cb_ProposedAtUnixMS = 1, cb_Bucket = demo_bucket, cb_ObjectLockEnabled = True\<rparr>"

definition demo_put :: PutObject where
  "demo_put = \<lparr>po_ProposedAtUnixMS = 2, po_Bucket = demo_bucket, po_Key = demo_key,
     po_VersionID = 5, po_Size = 7, po_ETag = [1], po_ContentType = [], po_UserMetadata = fmempty,
     po_Partition = 0, po_ECDataShards = 0, po_ECParityShards = 0, po_ObjectChecksum = [],
     po_ShardChecksums = [], po_RetentionMode = RetentionCompliance, po_RetainUntilUnixMS = 100,
     po_LegalHold = False, po_EncAlgorithm = 0, po_WrappedDEK = [], po_KEKFingerprint = 0\<rparr>"

definition demo_delete :: DeleteVersion where
  "demo_delete = \<lparr>dv_ProposedAtUnixMS = 50, dv_Bucket = demo_bucket, dv_Key = demo_key,
     dv_VersionID = 5, dv_BypassGovernance = True\<rparr>"

definition demo_marker :: DeleteObject where
  "demo_marker = \<lparr>dob_ProposedAtUnixMS = 60, dob_Bucket = demo_bucket, dob_Key = demo_key,
     dob_VersionID = 3\<rparr>"

definition demo_kv1 :: kv where
  "demo_kv1 = fst (Apply_body (P_CreateBucket demo_create) newTxKV)"

definition demo_kv2 :: kv where
  "demo_kv2 = fst (Apply_body (P_PutObject demo_put) demo_kv1)"

definition demo_hold :: UpdateLegalHold where
  "demo_hold = \<lparr>ul_ProposedAtUnixMS = 3, ul_Bucket = demo_bucket, ul_Key = demo_key,
     ul_VersionID = 5, ul_Hold = True\<rparr>"

definition demo_key2 :: gostring where
  "demo_key2 = str ''g''"

definition demo_put2 :: PutObject where
  "demo_put2 = demo_put\<lparr>po_Key := demo_key2, po_VersionID := 6, po_RetentionMode := RetentionGovernance\<rparr>"

definition demo_kv3 :: kv where
  "demo_kv3 = fst (Apply_body (P_UpdateLegalHold demo_hold) demo_kv2)"

definition demo_kv4 :: kv where
  "demo_kv4 = fst (Apply_body (P_PutObject demo_put2) demo_kv3)"

lemma demo_create_ok: "Apply_body (P_CreateBucket demo_create) newTxKV = (demo_kv1, Inr R_Nil)"
proof (rule prod_eqI)
  show "snd (Apply_body (P_CreateBucket demo_create) newTxKV) = snd (demo_kv1, Inr R_Nil)" by code_simp
qed (simp add: demo_kv1_def)

lemma demo_put_ok:
  "Apply_body (P_PutObject demo_put) demo_kv1 =
     (demo_kv2, Inr (R_Put \<lparr>res_VersionID = 5, res_ReplacedDataIDs = []\<rparr>))"
proof (rule prod_eqI)
  show "snd (Apply_body (P_PutObject demo_put) demo_kv1) =
      snd (demo_kv2, Inr (R_Put \<lparr>res_VersionID = 5, res_ReplacedDataIDs = []\<rparr>))" by code_simp
qed (simp add: demo_kv2_def)

lemma demo_hold_ok: "Apply_body (P_UpdateLegalHold demo_hold) demo_kv2 = (demo_kv3, Inr R_Nil)"
proof (rule prod_eqI)
  show "snd (Apply_body (P_UpdateLegalHold demo_hold) demo_kv2) = snd (demo_kv3, Inr R_Nil)" by code_simp
qed (simp add: demo_kv3_def)

lemma demo_put2_ok:
  "Apply_body (P_PutObject demo_put2) demo_kv3 =
     (demo_kv4, Inr (R_Put \<lparr>res_VersionID = 6, res_ReplacedDataIDs = []\<rparr>))"
proof (rule prod_eqI)
  show "snd (Apply_body (P_PutObject demo_put2) demo_kv3) =
      snd (demo_kv4, Inr (R_Put \<lparr>res_VersionID = 6, res_ReplacedDataIDs = []\<rparr>))" by code_simp
qed (simp add: demo_kv4_def)

end
