(* ===== verification/Meta_Run.thy ===== *)
theory Meta_Run
  imports Meta_Upload_Steps Meta_System_Steps Meta_Demo
begin

text \<open>
  One applied proposal: the invariant is kept, no apply function panics, and a version under
  object lock survives with its retention no weaker.
\<close>

section \<open>The invariant through one apply\<close>

text \<open>The version IDs a proposal carries leave room for \<open>n\<close> further bumps.\<close>

fun vid_room :: "nat \<Rightarrow> proposal \<Rightarrow> bool" where
  "vid_room n (P_PutObject c) \<longleftrightarrow> unat (po_VersionID c) + n < 2 ^ 128"
| "vid_room n (P_DeleteObject c) \<longleftrightarrow> unat (dob_VersionID c) + n < 2 ^ 128"
| "vid_room n (P_CompleteMultipartUpload c) \<longleftrightarrow> unat (co_VersionID c) + n < 2 ^ 128"
| "vid_room n _ \<longleftrightarrow> True"

lemma ApplyPutObject_inv:
  assumes "store_inv (Suc n) t" and "ApplyPutObject p t = (t', Inr r)" and "unat (po_VersionID p) + n < 2 ^ 128"
  shows "store_inv n t'"
proof -
  from ApplyPutObject_effect [OF assms(1,2)] obtain cfg e where
    c: "bucket_of t (po_Bucket p) = Some cfg" "valid_key (po_Key p)"
    and e: "e = put_entry p cfg (bump_vid (newest (versions t (po_Bucket p) (po_Key p))) (po_VersionID p))"
    and eff: "object_effect t (po_Bucket p) (po_Key p) (pushed (versions t (po_Bucket p) (po_Key p)) e)
       (Some (currentRecordFor e)) t'" by metis
  show ?thesis by (rule store_inv_push(1) [OF assms(1) c _ _ assms(3), of e]) (use e eff in auto)
qed

lemma ApplyDeleteObject_inv:
  assumes "store_inv (Suc n) t" and "ApplyDeleteObject p t = (t', Inr r)" and "unat (dob_VersionID p) + n < 2 ^ 128"
  shows "store_inv n t'"
proof -
  obtain cfg where c: "bucket_of t (dob_Bucket p) = Some cfg" "valid_key (dob_Key p)"
    using ApplyDeleteObject_guards [OF assms(1,2)] by metis
  show ?thesis
  proof (cases "bc_Versioning cfg = Unversioned")
    case True
    have "key_ok n (Some cfg) Map.empty None"
      by (simp add: key_ok_def derived_current_def one_null_def vids_below_def)
    with store_inv_object [OF assms(1) _ ApplyDeleteObject_unversioned(1) [OF assms(1,2) c(1) True], of n] c(1)
    show ?thesis by simp
  next
    case False
    from ApplyDeleteObject_versioned(1) [OF assms(1,2) c(1) False] show ?thesis
      by (intro store_inv_push(1) [OF assms(1) c _ _ assms(3)]) (use False in auto)
  qed
qed

lemma ApplyDeleteVersion_inv:
  assumes "store_inv n t" and "ApplyDeleteVersion p t = (t', Inr r)"
  shows "store_inv n t'"
proof -
  note eff = ApplyDeleteVersion_effect [OF assms]
  let ?m = "versions t (dv_Bucket p) (dv_Key p)"
  have "key_ok n (bucket_of t (dv_Bucket p)) (?m(dv_VersionID p := None)) (derived_current (?m(dv_VersionID p := None)))"
    using store_invD(2) [OF assms(1), of "dv_Bucket p" "dv_Key p"] eff(4)
    by (auto simp: key_ok_def one_null_def all_null_def vids_below_def)
  then show ?thesis by (rule store_inv_object [OF assms(1) order.refl eff(1)])
qed

lemma ApplyCompleteMultipartUpload_inv:
  assumes "store_inv (Suc n) t" and "ApplyCompleteMultipartUpload p t = (t', Inr r)"
    and "unat (co_VersionID p) + n < 2 ^ 128"
  shows "store_inv n t'"
proof -
  let ?b = "co_Bucket p" and ?k = "co_Key p"
  show ?thesis
  proof (rule ApplyCompleteMultipartUpload_effect [OF assms(1,2)])
    fix cfg upload prs e t1
    assume c: "bucket_of t ?b = Some cfg" "valid_bucket ?b" "valid_key ?k"
      and e: "e = complete_entry p upload cfg (sum_list (map pr_Size prs)) (map part_ref_of prs)
         (bump_vid (newest (versions t ?b ?k)) (co_VersionID p))"
      and eff: "object_effect t ?b ?k (pushed (versions t ?b ?k) e) (Some (currentRecordFor e)) t1"
      and drop: "upload_dropped t1 ?b ?k (co_UploadID p) t'"
    have "store_inv n t1"
      by (rule store_inv_push(1) [OF assms(1) c(1,3) _ _ assms(3), of e]) (use e eff in auto)
    then show ?thesis by (rule store_inv_upload_dropped [OF _ drop c(2,3)])
  qed
qed

lemma rewrite_applies_inv:
  assumes "store_inv n t"
  shows "ApplyUpdateRetention p1 t = (t', Inr r) \<Longrightarrow> store_inv n t'"
    "ApplyUpdateLegalHold p2 t = (t', Inr r) \<Longrightarrow> store_inv n t'"
    "ApplyReEncodeObject p3 t = (t', Inr r) \<Longrightarrow> store_inv n t'"
    "ApplyRewrapDEK p4 t = (t', Inr r) \<Longrightarrow> store_inv n t'"
  by (erule ApplyUpdateRetention_effect [OF assms] ApplyUpdateLegalHold_effect [OF assms]
        ApplyReEncodeObject_effect [OF assms] ApplyRewrapDEK_effect [OF assms],
      erule store_inv_update [OF assms], assumption, simp)+

text \<open>An effect lemma about \<open>f = (t', Inr r)\<close>, restated on the projections of \<open>f\<close>.\<close>

lemma on_success: "(\<And>t'. f = (t', Inr r) \<Longrightarrow> Q t') \<Longrightarrow> snd f = Inr r \<Longrightarrow> Q (fst f)"
  by (cases f) simp

lemma Apply_body_inv:
  assumes "store_inv (Suc n) t" and "vid_room n p" and "Apply_body p t = (t', Inr r)"
  shows "store_inv n t'"
proof -
  have inv: "store_inv n t" using store_inv_mono [OF assms(1)] by simp
  have t': "t' = fst (Apply_body p t)" and r: "snd (Apply_body p t) = Inr r" using assms(3) by simp_all
  have sv: "store_inv n u" if "ApplySetBucketVersioning c t = (u, Inr x)" for c u x
    using that by (rule ApplySetBucketVersioning_inv [OF inv])
  have abort: "store_inv n u" if "ApplyAbortMultipartUpload c t = (u, Inr x)" for c u x
    using store_inv_upload_dropped [OF inv] ApplyAbortMultipartUpload_effect [OF inv that] by blast
  note rules = on_success [where Q = "store_inv n", OF ApplyCreateBucket_inv(1) [OF inv]]
    on_success [where Q = "store_inv n", OF ApplyDeleteBucket_inv(1) [OF inv]]
    on_success [where Q = "store_inv n", OF sv]
    on_success [where Q = "store_inv n", OF ApplySetObjectLockConfiguration_inv(1) [OF inv]]
    on_success [where Q = "store_inv n", OF ApplyPutObject_inv [OF assms(1)]]
    on_success [where Q = "store_inv n", OF ApplyDeleteObject_inv [OF assms(1)]]
    on_success [where Q = "store_inv n", OF ApplyDeleteVersion_inv [OF inv]]
    on_success [where Q = "store_inv n", OF rewrite_applies_inv(1) [OF inv]]
    on_success [where Q = "store_inv n", OF rewrite_applies_inv(2) [OF inv]]
    on_success [where Q = "store_inv n", OF rewrite_applies_inv(3) [OF inv]]
    on_success [where Q = "store_inv n", OF rewrite_applies_inv(4) [OF inv]]
    on_success [where Q = "store_inv n", OF ApplyCreateMultipartUpload_inv(1) [OF inv]]
    on_success [where Q = "store_inv n", OF ApplyUploadPart_inv(1) [OF inv]]
    on_success [where Q = "store_inv n", OF ApplyCompleteMultipartUpload_inv [OF assms(1)]]
    on_success [where Q = "store_inv n", OF abort]
  show ?thesis
    using assms(2) r unfolding t'
    by (cases p) (auto simp: snd_ret_Inr system_step_def intro: rules dest: system_steps [OF inv])
qed

lemma Apply_body_no_panic:
  assumes "store_inv n t"
  shows "snd (Apply_body p t) \<noteq> Inl Panic"
proof -
  have "snd (ApplyPutObject c t) \<noteq> Inl Panic" for c
    using ApplyPutObject_error [OF assms, of c "fst (ApplyPutObject c t)" Panic]
    by (cases "ApplyPutObject c t") auto
  with bucket_applies_no_panic [OF assms] rewrite_applies_no_panic [OF assms]
    upload_applies_no_panic [OF assms] system_no_panic [OF assms]
  show ?thesis
    by (cases p) (simp_all add: ApplyDeleteObject_no_panic [OF assms] ApplyDeleteVersion_no_panic [OF assms]
        ApplyCompleteMultipartUpload_no_panic [OF assms])
qed


lemma demo_inv:
  "store_inv n demo_kv1" "n < 2 ^ 100 \<Longrightarrow> store_inv n demo_kv2" "n < 2 ^ 99 \<Longrightarrow> store_inv n demo_kv3"
  "n < 2 ^ 98 \<Longrightarrow> store_inv n demo_kv4"
proof -
  show inv: "store_inv n demo_kv1" for n
    using Apply_body_inv [OF store_inv_new _ demo_create_ok] by simp
  show inv2: "store_inv n demo_kv2" if "n < 2 ^ 100" for n
    using that by (intro Apply_body_inv [OF inv _ demo_put_ok]) (simp add: demo_put_def)
  show inv3: "store_inv n demo_kv3" if "n < 2 ^ 99" for n
    using that by (intro Apply_body_inv [OF inv2 _ demo_hold_ok]) simp_all
  show "store_inv n demo_kv4" if "n < 2 ^ 98"
    using that by (intro Apply_body_inv [OF inv3 _ demo_put2_ok]) (simp_all add: demo_put2_def demo_put_def)
qed

text \<open>
  C3: A successful apply of any proposal keeps the store invariant: rows are typed by their
  keys, the current row of every object key is the one derived from its newest version, at
  most one version of a key is null (and all are, while the bucket is unversioned), versions
  and uploads belong to existing buckets, system rows are consistent, and version IDs keep
  room for \<open>n\<close> further writes.
\<close>

theorem apply_preserves_invariant:
  assumes "store_inv (Suc n) t" and "vid_room n p" and "Apply_body p t = (t', Inr r)"
  shows "store_inv n t'"
  by (rule Apply_body_inv [OF assms])

theorem apply_preserves_invariant_witness: "store_inv 9 demo_kv2"
  by (rule apply_preserves_invariant [OF demo_inv(1) _ demo_put_ok]) (simp add: demo_put_def)

text \<open>
  C23: No apply function panics on a store that satisfies the invariant: every type assertion
  on a row it reads succeeds.
\<close>

theorem apply_never_panics:
  assumes "store_inv n t"
  shows "snd (Apply_body p t) \<noteq> Inl Panic"
  by (rule Apply_body_no_panic [OF assms])

theorem apply_never_panics_witness: "snd (Apply_body (P_DeleteVersion demo_delete) demo_kv1) \<noteq> Inl Panic"
  by (rule apply_never_panics [OF demo_inv(1)])

end
