(* ===== verification/Meta_Lock.thy ===== *)
theory Meta_Lock
  imports Meta_Run
begin

text \<open>
  Object lock across the whole API: what an applied proposal can do to a version that is
  locked at the proposal's time. Only a delete of that version with a governance bypass, or
  an update of its own lock, can weaken the protection; under COMPLIANCE nothing can.
\<close>

section \<open>Which change a proposal can make to a version that stays\<close>

text \<open>The bypass of governance that a delete by version ID can carry.\<close>

fun bypasses :: "proposal \<Rightarrow> bool" where
  "bypasses (P_DeleteVersion c) = dv_BypassGovernance c"
| "bypasses _ = False"

definition retention_accepted :: "UpdateRetention \<Rightarrow> VersionEntry \<Rightarrow> bool" where
  "retention_accepted c e \<longleftrightarrow>
     (i64_less (ut_ProposedAtUnixMS c) (ve_RetainUntilUnixMS e) \<longrightarrow>
        (ve_RetentionMode e = RetentionCompliance \<longrightarrow>
           ut_Mode c = RetentionCompliance \<and> i64_le (ve_RetainUntilUnixMS e) (ut_RetainUntilUnixMS c)) \<and>
        (ve_RetentionMode e = RetentionGovernance \<longrightarrow> \<not> ut_BypassGovernance c \<longrightarrow>
           ut_Mode c \<noteq> RetentionNone \<and> i64_le (ve_RetainUntilUnixMS e) (ut_RetainUntilUnixMS c)))"

lemma rewrite_locks [simp]:
  "ve_LegalHold (reencoded c e) = ve_LegalHold e" "ve_LegalHold (rewrapped d e) = ve_LegalHold e"
  "ve_RetentionMode (reencoded c e) = ve_RetentionMode e" "ve_RetentionMode (rewrapped d e) = ve_RetentionMode e"
  "ve_RetainUntilUnixMS (reencoded c e) = ve_RetainUntilUnixMS e"
  "ve_RetainUntilUnixMS (rewrapped d e) = ve_RetainUntilUnixMS e"
  by (simp_all add: reencoded_def rewrapped_def)

fun rewritten :: "proposal \<Rightarrow> VersionEntry \<Rightarrow> VersionEntry \<Rightarrow> bool" where
  "rewritten (P_UpdateRetention c) e e' \<longleftrightarrow> e' = e \<or> e' = retained c e \<and> retention_accepted c e"
| "rewritten (P_UpdateLegalHold c) e e' \<longleftrightarrow> e' = e \<or> e' = e\<lparr>ve_LegalHold := ul_Hold c\<rparr>"
| "rewritten (P_ReEncodeObject c) e e' \<longleftrightarrow> e' = e \<or> e' = reencoded c e"
| "rewritten (P_RewrapDEK c) e e' \<longleftrightarrow> e' = e \<or> e' = rewrapped c e"
| "rewritten _ e e' \<longleftrightarrow> e' = e"

lemma rewritten_refl [simp]: "rewritten p e e"
  by (cases p) simp_all

lemma rewritten_same_core: "rewritten p e e' \<Longrightarrow> same_core e e'"
  by (cases p) auto

text \<open>The version whose entry a proposal rewrites in place.\<close>

fun targets :: "proposal \<Rightarrow> gostring \<Rightarrow> gostring \<Rightarrow> version_id \<Rightarrow> bool" where
  "targets (P_UpdateRetention c) b k v \<longleftrightarrow> ut_Bucket c = b \<and> ut_Key c = k \<and> ut_VersionID c = v"
| "targets (P_UpdateLegalHold c) b k v \<longleftrightarrow> ul_Bucket c = b \<and> ul_Key c = k \<and> ul_VersionID c = v"
| "targets (P_ReEncodeObject c) b k v \<longleftrightarrow> re_Bucket c = b \<and> re_Key c = k \<and> re_VersionID c = v"
| "targets (P_RewrapDEK c) b k v \<longleftrightarrow> rw_Bucket c = b \<and> rw_Key c = k \<and> rw_VersionID c = v"
| "targets _ b k v \<longleftrightarrow> False"

definition kept :: "proposal \<Rightarrow> kv \<Rightarrow> kv \<Rightarrow> bool" where
  "kept p t t' \<longleftrightarrow>
     (\<forall>b k v e. versions t b k v = Some e \<longrightarrow> lockedAt e (proposed_at p) (bypasses p) \<longrightarrow>
        (\<exists>e'. versions t' b k v = Some e' \<and> (e' = e \<or> targets p b k v \<and> rewritten p e e')))"

lemma kept_same: "versions t' = versions t \<Longrightarrow> kept p t t'"
  by (auto simp: kept_def)

lemma kept_pushed:
  assumes "object_effect t b k (pushed (versions t b k) f) c t'" and "\<not> bypasses p"
    and "\<And>v e. versions t b k v = Some e \<Longrightarrow> v < ve_VersionID f"
    and "\<And>v e. ve_NullVersion f \<Longrightarrow> versions t b k v = Some e \<Longrightarrow> ve_NullVersion e \<Longrightarrow>
      \<not> lockedAt e (proposed_at p) False"
  shows "kept p t t'"
  unfolding kept_def
proof (intro allI impI)
  fix b' k' v e
  assume e: "versions t b' k' v = Some e" and lock: "lockedAt e (proposed_at p) (bypasses p)"
  have "versions t' b' k' v = Some e"
  proof (cases "b' = b \<and> k' = k")
    case True
    with assms e lock show ?thesis
      by (fastforce simp: object_effectD(3) [OF assms(1)] pushed_def without_null_Some)
  qed (use e object_effectD(5) [OF assms(1)] in simp)
  then show "\<exists>e'. versions t' b' k' v = Some e' \<and> (e' = e \<or> targets p b' k' v \<and> rewritten p e e')" by simp
qed

lemma kept_rewrite:
  assumes "object_effect t b k ((versions t b k)(v \<mapsto> f)) c t'" and "versions t b k v = Some e" and "rewritten p e f"
    and "targets p b k v"
  shows "kept p t t'"
proof -
  have "versions t' b' k' w = (if b' = b \<and> k' = k \<and> w = v then Some f else versions t b' k' w)" for b' k' w
    using object_effectD(3,5) [OF assms(1)] by (cases "b' = b \<and> k' = k") auto
  with assms(2-4) show ?thesis by (auto simp: kept_def)
qed

lemma bump_above_all:
  assumes "store_inv (Suc n) t" and "bucket_of t b = Some cfg" and "valid_key k" and "versions t b k v = Some e"
  shows "v < bump_vid (newest (versions t b k)) vid"
proof -
  have b: "valid_bucket b" using bucket_of_name [OF store_invD(1) [OF assms(1)] assms(2)] by simp
  note key = inv_key [OF assms(1) b assms(3)]
  show ?thesis by (rule bump_vid_above [OF key(1,3,4) assms(4)])
qed

section \<open>Every apply function keeps locked versions\<close>

lemma ApplyPutObject_kept:
  assumes "store_inv (Suc n) t" and "ApplyPutObject c t = (t', Inr r)"
  shows "kept (P_PutObject c) t t'"
proof (rule ApplyPutObject_effect [OF assms])
  fix cfg e
  assume b: "bucket_of t (po_Bucket c) = Some cfg" and k: "valid_key (po_Key c)"
    and e: "e = put_entry c cfg (bump_vid (newest (versions t (po_Bucket c) (po_Key c))) (po_VersionID c))"
    and eff: "object_effect t (po_Bucket c) (po_Key c) (pushed (versions t (po_Bucket c) (po_Key c)) e)
       (Some (currentRecordFor e)) t'"
    and null: "\<And>v e'. ve_NullVersion e \<Longrightarrow> versions t (po_Bucket c) (po_Key c) v = Some e' \<Longrightarrow> ve_NullVersion e' \<Longrightarrow>
       \<not> lockedAt e' (po_ProposedAtUnixMS c) False \<and> res_ReplacedDataIDs r = DataIDs e'"
  show ?thesis
    by (rule kept_pushed [OF eff]) (use bump_above_all [OF assms(1) b k] null in \<open>auto simp: e\<close>)
qed

lemma ApplyCompleteMultipartUpload_kept:
  assumes "store_inv (Suc n) t" and "ApplyCompleteMultipartUpload c t = (t', Inr r)"
  shows "kept (P_CompleteMultipartUpload c) t t'"
proof (rule ApplyCompleteMultipartUpload_effect [OF assms])
  let ?b = "co_Bucket c" and ?k = "co_Key c"
  fix cfg upload prs e t1
  assume b: "bucket_of t ?b = Some cfg" "valid_bucket ?b" and k: "valid_key ?k"
    and e: "e = complete_entry c upload cfg (sum_list (map pr_Size prs)) (map part_ref_of prs)
       (bump_vid (newest (versions t ?b ?k)) (co_VersionID c))"
    and eff: "object_effect t ?b ?k (pushed (versions t ?b ?k) e) (Some (currentRecordFor e)) t1"
    and drop: "upload_dropped t1 ?b ?k (co_UploadID c) t'"
    and null: "\<And>v e'. ve_NullVersion e \<Longrightarrow> versions t ?b ?k v = Some e' \<Longrightarrow> ve_NullVersion e' \<Longrightarrow>
       \<not> lockedAt e' (co_ProposedAtUnixMS c) False"
  have "kept (P_CompleteMultipartUpload c) t t1"
    by (rule kept_pushed [OF eff]) (use bump_above_all [OF assms(1) b(1) k] null in \<open>auto simp: e\<close>)
  then show ?thesis by (simp add: kept_def upload_dropped_views(2) [OF drop b(2) k])
qed

lemma ApplyDeleteObject_kept:
  assumes "store_inv (Suc n) t" and "ApplyDeleteObject c t = (t', Inr r)"
  shows "kept (P_DeleteObject c) t t'"
proof (rule ApplyDeleteObject_guards [OF assms])
  let ?b = "dob_Bucket c" and ?k = "dob_Key c"
  fix cfg
  assume b: "bucket_of t ?b = Some cfg" and k: "valid_key ?k"
  show ?thesis
  proof (cases "bc_Versioning cfg = Unversioned")
    case True
    note eff = ApplyDeleteObject_unversioned [OF assms b True]
    show ?thesis
      unfolding kept_def
    proof (intro allI impI)
      fix b' k' v e
      assume e: "versions t b' k' v = Some e" and lock: "lockedAt e (proposed_at (P_DeleteObject c)) (bypasses (P_DeleteObject c))"
      with eff(2) have "\<not> (b' = ?b \<and> k' = ?k)" by auto
      with object_effectD(5) [OF eff(1)] e
      show "\<exists>e'. versions t' b' k' v = Some e' \<and>
          (e' = e \<or> targets (P_DeleteObject c) b' k' v \<and> rewritten (P_DeleteObject c) e e')" by auto
    qed
  next
    case False
    note eff = ApplyDeleteObject_versioned [OF assms b False]
    show ?thesis
      by (rule kept_pushed [OF eff(1)]) (use bump_above_all [OF assms(1) b k] eff(3) in auto)
  qed
qed

lemma ApplyDeleteVersion_kept:
  assumes "store_inv n t" and "ApplyDeleteVersion c t = (t', Inr r)"
  shows "kept (P_DeleteVersion c) t t'"
  unfolding kept_def
proof (intro allI impI)
  fix b k v e
  note eff = ApplyDeleteVersion_effect [OF assms]
  assume e: "versions t b k v = Some e"
    and lock: "lockedAt e (proposed_at (P_DeleteVersion c)) (bypasses (P_DeleteVersion c))"
  then have "\<not> (b = dv_Bucket c \<and> k = dv_Key c \<and> v = dv_VersionID c)" using eff(2) by auto
  then have "versions t' b k v = Some e"
    using e object_effectD(3,5) [OF eff(1)] by (cases "b = dv_Bucket c \<and> k = dv_Key c") auto
  then show "\<exists>e'. versions t' b k v = Some e' \<and>
      (e' = e \<or> targets (P_DeleteVersion c) b k v \<and> rewritten (P_DeleteVersion c) e e')" by simp
qed

lemma rewrite_applies_kept:
  assumes "store_inv n t"
  shows "ApplyUpdateRetention p1 t = (t', Inr r) \<Longrightarrow> kept (P_UpdateRetention p1) t t'"
    "ApplyUpdateLegalHold p2 t = (t', Inr r) \<Longrightarrow> kept (P_UpdateLegalHold p2) t t'"
    "ApplyReEncodeObject p3 t = (t', Inr r) \<Longrightarrow> kept (P_ReEncodeObject p3) t t'"
    "ApplyRewrapDEK p4 t = (t', Inr r) \<Longrightarrow> kept (P_RewrapDEK p4) t t'"
  by (erule ApplyUpdateRetention_effect [OF assms] ApplyUpdateLegalHold_effect [OF assms]
        ApplyReEncodeObject_effect [OF assms] ApplyRewrapDEK_effect [OF assms],
      erule kept_rewrite, assumption, simp_all add: retention_accepted_def)+

lemma Apply_body_kept:
  assumes "store_inv (Suc n) t" and "Apply_body p t = (t', Inr r)"
  shows "kept p t t'"
proof -
  have inv: "store_inv n t" using store_inv_mono [OF assms(1)] by simp
  have t': "t' = fst (Apply_body p t)" and r: "snd (Apply_body p t) = Inr r" using assms(2) by simp_all
  have sv: "versions u = versions t" if "ApplySetBucketVersioning c t = (u, Inr x)" for c u x
    using that by (rule ApplySetBucketVersioning_inv [OF inv])
  have abort: "versions u = versions t" if "ApplyAbortMultipartUpload c t = (u, Inr x)" for c u x
    using ApplyAbortMultipartUpload_effect [OF inv that] upload_dropped_views(2) by blast
  have system: "kept q t u" if "system_step n t u" for q u
    using that by (intro kept_same) (simp add: system_step_def)
  note rules = on_success [OF ApplyPutObject_kept [OF assms(1)]]
    on_success [OF ApplyDeleteObject_kept [OF assms(1)]] on_success [OF ApplyDeleteVersion_kept [OF inv]]
    on_success [OF ApplyCompleteMultipartUpload_kept [OF assms(1)]]
    on_success [OF rewrite_applies_kept(1) [OF inv]] on_success [OF rewrite_applies_kept(2) [OF inv]]
    on_success [OF rewrite_applies_kept(3) [OF inv]] on_success [OF rewrite_applies_kept(4) [OF inv]]
    on_success [OF kept_same [OF sv]] on_success [OF kept_same [OF abort]]
    on_success [OF kept_same [OF ApplySetObjectLockConfiguration_inv(2) [OF inv]]]
    on_success [OF kept_same [OF ApplyCreateBucket_inv(4) [OF inv]]]
    on_success [OF kept_same [OF ApplyDeleteBucket_inv(3) [OF inv]]]
    on_success [OF kept_same [OF ApplyCreateMultipartUpload_inv(2) [OF inv]]]
    on_success [OF kept_same [OF ApplyUploadPart_inv(2) [OF inv]]]
  show ?thesis
    using r unfolding t'
    by (cases p) (auto simp: snd_ret_Inr intro: rules system system_steps [OF inv])
qed

end
