(* ===== verification/Wire.thy ===== *)
theory Wire
  imports Hamster_Prelude Meta_Vid "HOL-Library.Finite_Map"
begin

text \<open>
  The protobuf wire format as the codecs use it.

  \<^verbatim>\<open>google.golang.org/protobuf/encoding/protowire\<close> is third-party code: it is the record
  \<open>protowire\<close> of the functions the codecs call, a parameter of every codec. The locale
  \<open>wire\<close> states what its documentation promises: \<^verbatim>\<open>Append*\<close> appends to the buffer, \<^verbatim>\<open>Consume*\<close>
  parses from the front what \<^verbatim>\<open>Append*\<close> wrote, reports a length within the buffer, and looks at
  nothing behind it. \<^verbatim>\<open>None\<close> is a negative length, the parse error. On top of it are the encode helpers and
  the field walker \<^verbatim>\<open>dec\<close> of \<^verbatim>\<open>internal/meta/codec.go\<close>.
\<close>

record protowire =
  AppendTag :: "bytes \<Rightarrow> nat \<Rightarrow> nat \<Rightarrow> bytes"
  AppendVarint :: "bytes \<Rightarrow> u64 \<Rightarrow> bytes"
  AppendBytes :: "bytes \<Rightarrow> bytes \<Rightarrow> bytes"
  AppendString :: "bytes \<Rightarrow> gostring \<Rightarrow> bytes"
  ConsumeTag :: "bytes \<Rightarrow> (nat \<times> nat \<times> nat) option"
  ConsumeVarint :: "bytes \<Rightarrow> (u64 \<times> nat) option"
  ConsumeBytes :: "bytes \<Rightarrow> (bytes \<times> nat) option"
  ConsumeFieldValue :: "nat \<Rightarrow> nat \<Rightarrow> bytes \<Rightarrow> nat option"

definition VarintType :: nat where "VarintType = 0"
definition BytesType :: nat where "BytesType = 2"

lemmas type_defs = VarintType_def BytesType_def

section \<open>Encode helpers\<close>

definition putUvarint :: "protowire \<Rightarrow> bytes \<Rightarrow> nat \<Rightarrow> u64 \<Rightarrow> bytes" where
  "putUvarint pw b num v =
     (if v = 0 then b else AppendVarint pw (AppendTag pw b num VarintType) v)"

definition putBool :: "protowire \<Rightarrow> bytes \<Rightarrow> nat \<Rightarrow> bool \<Rightarrow> bytes" where
  "putBool pw b num v = (if \<not> v then b else putUvarint pw b num 1)"

definition putBytes :: "protowire \<Rightarrow> bytes \<Rightarrow> nat \<Rightarrow> bytes \<Rightarrow> bytes" where
  "putBytes pw b num v =
     (if length v = 0 then b else AppendBytes pw (AppendTag pw b num BytesType) v)"

definition putString :: "protowire \<Rightarrow> bytes \<Rightarrow> nat \<Rightarrow> gostring \<Rightarrow> bytes" where
  "putString pw b num v =
     (if v = [] then b else AppendString pw (AppendTag pw b num BytesType) v)"

definition putID :: "protowire \<Rightarrow> bytes \<Rightarrow> nat \<Rightarrow> version_id \<Rightarrow> bytes" where
  "putID pw b num i = (if vid_is_zero i then b else putBytes pw b num (vid_bytes i))"

definition putEntry :: "protowire \<Rightarrow> nat \<Rightarrow> gostring \<Rightarrow> gostring \<Rightarrow> bytes \<Rightarrow> bytes" where
  "putEntry pw num k v b =
     (let entry = putString pw [] 1 k; entry = putString pw entry 2 v
      in AppendBytes pw (AppendTag pw b num BytesType) entry)"

definition putMap :: "protowire \<Rightarrow> bytes \<Rightarrow> nat \<Rightarrow> (gostring, gostring) fmap \<Rightarrow> bytes" where
  "putMap pw b num m =
     foldl (\<lambda>b k. putEntry pw num k (the (fmlookup m k)) b) b (sorted_list_of_set (fset (fmdom m)))"

text \<open>A repeated field of byte strings, one tagged entry per element.\<close>

definition putRepeated :: "protowire \<Rightarrow> bytes \<Rightarrow> nat \<Rightarrow> bytes list \<Rightarrow> bytes" where
  "putRepeated pw b num vs = foldl (\<lambda>b v. AppendBytes pw (AppendTag pw b num BytesType) v) b vs"

text \<open>A repeated field of strings, written element by element with \<^verbatim>\<open>putString\<close>.\<close>

definition putStrings :: "protowire \<Rightarrow> bytes \<Rightarrow> nat \<Rightarrow> gostring list \<Rightarrow> bytes" where
  "putStrings pw b num vs = foldl (\<lambda>b v. putString pw b num v) b vs"

section \<open>Decode helpers\<close>

text \<open>
  The walker over one message. \<open>d_err\<close> says that an error is recorded; its text is not
  modelled. The slices \<^verbatim>\<open>d.b[d.tagLen:]\<close> stay in range because a consumed length never exceeds the
  buffer.
\<close>

record dec =
  d_b :: bytes
  d_err :: bool
  d_num :: nat
  d_typ :: nat
  d_tagLen :: nat

definition dec_new :: "bytes \<Rightarrow> dec" where
  "dec_new b = \<lparr>d_b = b, d_err = False, d_num = 0, d_typ = 0, d_tagLen = 0\<rparr>"

definition dec_next :: "protowire \<Rightarrow> dec \<Rightarrow> dec \<times> bool" where
  "dec_next pw d =
     (if d_err d \<or> length (d_b d) = 0 then (d, False)
      else case ConsumeTag pw (d_b d) of
             None \<Rightarrow> (d\<lparr>d_err := True\<rparr>, False)
           | Some (num, typ, n) \<Rightarrow> (d\<lparr>d_num := num, d_typ := typ, d_tagLen := n\<rparr>, True))"

definition dec_fail :: "dec \<Rightarrow> dec" where
  "dec_fail d = d\<lparr>d_err := True\<rparr>"

definition dec_uvarint :: "protowire \<Rightarrow> dec \<Rightarrow> u64 \<times> dec" where
  "dec_uvarint pw d =
     (if d_typ d \<noteq> VarintType then (0, dec_fail d)
      else case ConsumeVarint pw (drop (d_tagLen d) (d_b d)) of
             None \<Rightarrow> (0, d\<lparr>d_err := True\<rparr>)
           | Some (v, n) \<Rightarrow> (v, d\<lparr>d_b := drop (d_tagLen d + n) (d_b d)\<rparr>))"

definition dec_int64 :: "protowire \<Rightarrow> dec \<Rightarrow> i64 \<times> dec" where
  "dec_int64 pw d = dec_uvarint pw d"

definition dec_uint32 :: "protowire \<Rightarrow> dec \<Rightarrow> u32 \<times> dec" where
  "dec_uint32 pw d =
     (let (v, d) = dec_uvarint pw d; d = (if v > 0xFFFFFFFF then dec_fail d else d) in (ucast v, d))"

definition dec_enum8 :: "protowire \<Rightarrow> dec \<Rightarrow> byte \<times> dec" where
  "dec_enum8 pw d =
     (let (v, d) = dec_uvarint pw d; d = (if v > 255 then dec_fail d else d) in (ucast v, d))"

text \<open>The two conversions without a range check: \<^verbatim>\<open>uint32(d.uvarint())\<close> and \<^verbatim>\<open>d.uvarint() != 0\<close>.\<close>

definition dec_trunc32 :: "protowire \<Rightarrow> dec \<Rightarrow> u32 \<times> dec" where
  "dec_trunc32 pw d = (let (v, d) = dec_uvarint pw d in (ucast v, d))"

definition dec_bool :: "protowire \<Rightarrow> dec \<Rightarrow> bool \<times> dec" where
  "dec_bool pw d = (let (v, d) = dec_uvarint pw d in (v \<noteq> 0, d))"

definition dec_bytes :: "protowire \<Rightarrow> dec \<Rightarrow> bytes \<times> dec" where
  "dec_bytes pw d =
     (if d_typ d \<noteq> BytesType then ([], dec_fail d)
      else case ConsumeBytes pw (drop (d_tagLen d) (d_b d)) of
             None \<Rightarrow> ([], d\<lparr>d_err := True\<rparr>)
           | Some (v, n) \<Rightarrow> (v, d\<lparr>d_b := drop (d_tagLen d + n) (d_b d)\<rparr>))"

definition dec_str :: "protowire \<Rightarrow> dec \<Rightarrow> gostring \<times> dec" where
  "dec_str pw d = dec_bytes pw d"

definition dec_id :: "protowire \<Rightarrow> dec \<Rightarrow> version_id \<times> dec" where
  "dec_id pw d =
     (let (v, d) = dec_bytes pw d
      in if d_err d then (0, d)
         else if length v \<noteq> 16 then (0, dec_fail d)
         else (vid_of_bytes v, d))"

text \<open>\<^verbatim>\<open>skipUnknown\<close> returns the raw field; the caller keeps or drops it.\<close>

definition dec_skipUnknown :: "protowire \<Rightarrow> dec \<Rightarrow> bytes \<times> dec" where
  "dec_skipUnknown pw d =
     (case ConsumeFieldValue pw (d_num d) (d_typ d) (drop (d_tagLen d) (d_b d)) of
        None \<Rightarrow> ([], d\<lparr>d_err := True\<rparr>)
      | Some n \<Rightarrow> (take (d_tagLen d + n) (d_b d), d\<lparr>d_b := drop (d_tagLen d + n) (d_b d)\<rparr>))"

text \<open>
  The loop \<^verbatim>\<open>for d.next() { switch d.num ... }\<close> over a field function. Not returning is \<open>None\<close>.
  \<open>dec_msg\<close> is the whole decoder of a message: \<open>Some None\<close> is the decode error.
\<close>

partial_function (option) dec_loop ::
    "protowire \<Rightarrow> (dec \<Rightarrow> 'r \<Rightarrow> (dec \<times> 'r) option) \<Rightarrow> dec \<Rightarrow> 'r \<Rightarrow> (dec \<times> 'r) option" where
  "dec_loop pw field d r =
     (let d1 = fst (dec_next pw d)
      in if \<not> snd (dec_next pw d) then Some (d1, r)
         else Option.bind (field d1 r) (\<lambda>s. dec_loop pw field (fst s) (snd s)))"

definition dec_msg ::
    "protowire \<Rightarrow> (dec \<Rightarrow> 'r \<Rightarrow> (dec \<times> 'r) option) \<Rightarrow> bytes \<Rightarrow> 'r \<Rightarrow> 'r option option" where
  "dec_msg pw field b r =
     map_option (\<lambda>(d, r). if d_err d then None else Some r) (dec_loop pw field (dec_new b) r)"

text \<open>An assignment from a decode method, and one from a nested message.\<close>

definition fld :: "'v \<times> dec \<Rightarrow> ('v \<Rightarrow> 'r) \<Rightarrow> (dec \<times> 'r) option" where
  "fld x f = Some (snd x, f (fst x))"

definition sub :: "bytes \<times> dec \<Rightarrow> (bytes \<Rightarrow> 'v option option) \<Rightarrow> ('v \<Rightarrow> 'r) \<Rightarrow> 'r \<Rightarrow> (dec \<times> 'r) option" where
  "sub x um f r =
     (case um (fst x) of
        None \<Rightarrow> None
      | Some None \<Rightarrow> Some (dec_fail (snd x), r)
      | Some (Some v) \<Rightarrow> Some (snd x, f v))"

definition entry_field :: "protowire \<Rightarrow> dec \<Rightarrow> gostring \<times> gostring \<Rightarrow> (dec \<times> gostring \<times> gostring) option" where
  "entry_field pw d e =
     (if d_num d = 1 then fld (dec_str pw d) (\<lambda>k. (k, snd e))
      else if d_num d = 2 then fld (dec_str pw d) (\<lambda>v. (fst e, v))
      else fld (dec_skipUnknown pw d) (\<lambda>_. e))"

definition mapEntry :: "protowire \<Rightarrow> bytes \<Rightarrow> (gostring \<times> gostring) option option" where
  "mapEntry pw b = dec_msg pw (entry_field pw) b ([], [])"


text \<open>The walker standing at a field.\<close>

definition at_field :: "bytes \<Rightarrow> nat \<Rightarrow> nat \<Rightarrow> nat \<Rightarrow> dec" where
  "at_field b n t k = \<lparr>d_b = b, d_err = False, d_num = n, d_typ = t, d_tagLen = k\<rparr>"

lemma at_field_simps [simp]:
  "d_b (at_field b n t k) = b" "d_err (at_field b n t k) = False" "d_num (at_field b n t k) = n"
  by (simp_all add: at_field_def)

definition after_field :: "protowire \<Rightarrow> nat \<Rightarrow> nat \<Rightarrow> bytes \<Rightarrow> dec" where
  "after_field pw n t b = at_field b n t (length (AppendTag pw [] n t))"

definition varint_at :: "protowire \<Rightarrow> nat \<Rightarrow> u64 \<Rightarrow> bytes \<Rightarrow> dec" where
  "varint_at pw n v b = after_field pw n VarintType (AppendTag pw [] n VarintType @ AppendVarint pw [] v @ b)"

definition bytes_at :: "protowire \<Rightarrow> nat \<Rightarrow> bytes \<Rightarrow> bytes \<Rightarrow> dec" where
  "bytes_at pw n v b = after_field pw n BytesType (AppendTag pw [] n BytesType @ AppendBytes pw [] v @ b)"

lemma d_num_at [simp]: "d_num (varint_at pw n v b) = n" "d_num (bytes_at pw n v' b) = n"
  by (simp_all add: varint_at_def bytes_at_def after_field_def)

lemma after_field_simps [simp]: "d_b (after_field pw n t b) = b" "\<not> d_err (after_field pw n t b)"
  by (simp_all add: after_field_def)

definition valid_num :: "nat \<Rightarrow> bool" where
  "valid_num n \<longleftrightarrow> 1 \<le> n \<and> n < 2 ^ 29"

lemma valid_num_code [code]: "valid_num n \<longleftrightarrow> 1 \<le> n \<and> int n < 536870912"
  by (simp add: valid_num_def)

lemma valid_num_numerals [simp]:
  "valid_num 1" "valid_num (Suc 0)" "valid_num (numeral k) = ((numeral k :: nat) < 2 ^ 29)"
  by (simp_all add: valid_num_def)

lemma unat_widen: "unat (ucast (v :: u32) :: u64) = unat v" "unat (ucast (w :: byte) :: u64) = unat w"
proof -
  have "unat v < 2 ^ 64" "unat w < 2 ^ 64"
    using unat_bound [of v] order.strict_trans [OF unat_byte_less [of w], of "2 ^ 64"] by auto
  then show "unat (ucast v :: u64) = unat v" "unat (ucast w :: u64) = unat w" by (simp_all add: unat_ucast)
qed

lemma ucast_small [simp]: "ucast (ucast (v :: u32) :: u64) = v" "ucast (ucast (w :: byte) :: u64) = w"
  using unat_bound [of v] unat_byte_less [of w]
  by (simp_all add: word_unat_eq_iff unat_ucast [where 'b = 32] unat_ucast [where 'b = 8] unat_widen
      del: unat_byte_less)

lemma ucast_zero [simp]: "ucast (v :: u32) = (0 :: u64) \<longleftrightarrow> v = 0" "ucast (w :: byte) = (0 :: u64) \<longleftrightarrow> w = 0"
  by (simp_all add: word_unat_eq_iff unat_widen)

lemma ucast_bounds [simp]: "\<not> (0xFFFFFFFF < (ucast (v :: u32) :: u64))" "\<not> (0xFF < (ucast (w :: byte) :: u64))"
  using unat_bound [of v] unat_byte_less [of w]
  by (simp_all add: word_less_nat_alt unat_widen del: unat_byte_less)

section \<open>What the wire library promises\<close>

text \<open>Raw fields outside a set of known field numbers: what a decoder keeps as unknown bytes.\<close>

inductive raw_fields :: "protowire \<Rightarrow> nat set \<Rightarrow> bytes \<Rightarrow> bool" for pw known where
  raw_nil: "raw_fields pw known []"
| raw_field: "raw_fields pw known (f @ rest)"
    if "ConsumeTag pw f = Some (n, t, k)" and "n \<notin> known"
      and "ConsumeFieldValue pw n t (drop k f) = Some m" and "length f = k + m"
      and "raw_fields pw known rest"

text \<open>Go slices and strings have a length below \<open>2 ^ 63\<close>.\<close>

definition go_sized :: "'a list \<Rightarrow> bool" where
  "go_sized v \<longleftrightarrow> length v < 2 ^ 63"

lemma go_sized_Nil [simp]: "go_sized []"
  by (simp add: go_sized_def)

text \<open>Every entry of a string map fits in memory, and so does its encoding.\<close>

definition sized_map :: "protowire \<Rightarrow> (gostring, gostring) fmap \<Rightarrow> bool" where
  "sized_map pw m \<longleftrightarrow> (\<forall>k v. fmlookup m k = Some v \<longrightarrow> go_sized k \<and> go_sized v \<and>
     go_sized (putString pw (putString pw [] 1 k) 2 v))"

lemma go_sized_code [code]: "go_sized v \<longleftrightarrow> int (length v) < 9223372036854775808"
  by (simp add: go_sized_def)

lemma sized_map_code [code]:
  "sized_map pw m \<longleftrightarrow> fmpred (\<lambda>k v. go_sized k \<and> go_sized v \<and> go_sized (putString pw (putString pw [] 1 k) 2 v)) m"
  by (auto simp: sized_map_def fmpred_iff)

lemma sized_map_empty [simp]: "sized_map pw fmempty"
  by (simp add: sized_map_def)

locale wire =
  fixes pw :: protowire
  assumes tag_append: "AppendTag pw b n t = b @ AppendTag pw [] n t"
    and varint_append: "AppendVarint pw b v = b @ AppendVarint pw [] v"
    and bytes_append: "AppendBytes pw b x = b @ AppendBytes pw [] x"
    and string_bytes: "AppendString pw b x = AppendBytes pw b x"
    and consume_tag: "1 \<le> n \<Longrightarrow> n < 2 ^ 29 \<Longrightarrow> t \<le> 5 \<Longrightarrow>
      ConsumeTag pw (AppendTag pw [] n t @ r) = Some (n, t, length (AppendTag pw [] n t))"
    and consume_varint: "ConsumeVarint pw (AppendVarint pw [] v @ r) = Some (v, length (AppendVarint pw [] v))"
    and consume_bytes: "go_sized x \<Longrightarrow>
      ConsumeBytes pw (AppendBytes pw [] x @ r) = Some (x, length (AppendBytes pw [] x))"
    and tag_bounds: "ConsumeTag pw b = Some (n, t, k) \<Longrightarrow> 0 < k \<and> k \<le> length b"
    and varint_bounds: "ConsumeVarint pw b = Some (v, k) \<Longrightarrow> k \<le> length b"
    and bytes_bounds: "ConsumeBytes pw b = Some (x, k) \<Longrightarrow> k \<le> length b"
    and field_bounds: "ConsumeFieldValue pw n t b = Some k \<Longrightarrow> k \<le> length b"
    and tag_local: "ConsumeTag pw b = Some (n, t, k) \<Longrightarrow> take k b' = take k b \<Longrightarrow>
      ConsumeTag pw b' = Some (n, t, k)"
    and field_varint: "ConsumeFieldValue pw n VarintType (AppendVarint pw [] v @ r) = Some (length (AppendVarint pw [] v))"
    and field_local: "ConsumeFieldValue pw n t b = Some k \<Longrightarrow> take k b' = take k b \<Longrightarrow>
      ConsumeFieldValue pw n t b' = Some k"
begin

section \<open>The loop, one field at a time\<close>

lemma dec_loop_cong:
  assumes "d_b d = d_b d'" and "\<not> d_err d" and "\<not> d_err d'"
  shows "map_option (\<lambda>(d, r). if d_err d then None else Some r) (dec_loop pw field d r) =
    map_option (\<lambda>(d, r). if d_err d then None else Some r) (dec_loop pw field d' r)"
proof -
  have "dec_next pw d = (e, go) \<Longrightarrow> \<exists>e'. dec_next pw d' = (e', go) \<and> (go \<longrightarrow> e' = e) \<and> d_err e' = d_err e" for e go
    using assms by (cases d; cases d') (auto simp: dec_next_def split: option.splits if_splits)
  then obtain e e' go where "dec_next pw d = (e, go)" "dec_next pw d' = (e', go)" "go \<longrightarrow> e' = e" "d_err e' = d_err e"
    by (metis surj_pair)
  then show ?thesis
    by (subst (1 2) dec_loop.simps) (auto simp: Let_def)
qed

lemma dec_loop_err: "d_err d \<Longrightarrow> dec_loop pw field d r = Some (d, r)"
  by (subst dec_loop.simps) (simp add: dec_next_def)

lemma dec_msg_Nil [simp]: "dec_msg pw field [] r = Some (Some r)"
  unfolding dec_msg_def by (subst dec_loop.simps) (simp add: dec_next_def dec_new_def)

lemma dec_msg_step:
  assumes "b \<noteq> []" and "ConsumeTag pw b = Some (n, t, k)"
  shows "dec_msg pw field b r =
    (case field (at_field b n t k) r of
       None \<Rightarrow> None
     | Some (d, r') \<Rightarrow> if d_err d then Some None else dec_msg pw field (d_b d) r')"
proof -
  have "dec_next pw (dec_new b) = (at_field b n t k, True)"
    using assms by (simp add: dec_next_def dec_new_def at_field_def)
  then have "dec_loop pw field (dec_new b) r =
      Option.bind (field (at_field b n t k) r) (\<lambda>s. dec_loop pw field (fst s) (snd s))"
    by (subst dec_loop.simps) (simp add: Let_def)
  moreover have "map_option (\<lambda>(d, r). if d_err d then None else Some r) (dec_loop pw field d r') =
      dec_msg pw field (d_b d) r'" if "\<not> d_err d" for d r'
    unfolding dec_msg_def by (rule dec_loop_cong) (use that in \<open>simp_all add: dec_new_def\<close>)
  ultimately show ?thesis
    by (cases "field (at_field b n t k) r") (auto simp: dec_msg_def dec_loop_err)
qed

lemma tag_nonempty: "1 \<le> n \<Longrightarrow> n < 2 ^ 29 \<Longrightarrow> t \<le> 5 \<Longrightarrow> AppendTag pw [] n t @ r \<noteq> []"
  using tag_bounds [OF consume_tag [of n t r]] by auto

lemma dec_msg_tag:
  assumes "1 \<le> n" and "n < 2 ^ 29" and "t \<le> 5"
    and "field (at_field (AppendTag pw [] n t @ b) n t (length (AppendTag pw [] n t))) r = Some (d, r')"
    and "\<not> d_err d"
  shows "dec_msg pw field (AppendTag pw [] n t @ b) r = dec_msg pw field (d_b d) r'"
  by (subst dec_msg_step [OF tag_nonempty [OF assms(1-3)] consume_tag [OF assms(1-3)]])
     (simp add: assms(4,5))

section \<open>Values read back\<close>

lemma uvarint_at [simp]:
  "dec_uvarint pw (varint_at pw n v b) = (v, after_field pw n VarintType b)"
  by (simp add: varint_at_def after_field_def dec_uvarint_def at_field_def consume_varint)

lemma varint_values [simp]:
  "dec_int64 pw (varint_at pw n v b) = (v, after_field pw n VarintType b)"
  "dec_uint32 pw (varint_at pw n (ucast (w :: u32)) b) = (w, after_field pw n VarintType b)"
  "dec_trunc32 pw (varint_at pw n (ucast w) b) = (w, after_field pw n VarintType b)"
  "dec_enum8 pw (varint_at pw n (ucast (e :: byte)) b) = (e, after_field pw n VarintType b)"
  "dec_bool pw (varint_at pw n (of_bool x) b) = (x, after_field pw n VarintType b)"
  by (simp_all add: dec_int64_def dec_uint32_def dec_trunc32_def dec_enum8_def dec_bool_def)

lemma varint_literals [simp]:
  "dec_uint32 pw (varint_at pw n 0 b) = (0, after_field pw n VarintType b)"
  "dec_trunc32 pw (varint_at pw n 0 b) = (0, after_field pw n VarintType b)"
  "dec_enum8 pw (varint_at pw n 0 b) = (0, after_field pw n VarintType b)"
  "dec_bool pw (varint_at pw n 0 b) = (False, after_field pw n VarintType b)"
  "dec_bool pw (varint_at pw n 1 b) = (True, after_field pw n VarintType b)"
  by (simp_all add: dec_uint32_def dec_trunc32_def dec_enum8_def dec_bool_def)

lemma bytes_values [simp]:
  "go_sized v \<Longrightarrow> dec_bytes pw (bytes_at pw n v b) = (v, after_field pw n BytesType b)"
  "go_sized v \<Longrightarrow> dec_str pw (bytes_at pw n v b) = (v, after_field pw n BytesType b)"
  "dec_id pw (bytes_at pw n (vid_bytes i) b) = (i, after_field pw n BytesType b)"
proof -
  show gen: "dec_bytes pw (bytes_at pw n v b) = (v, after_field pw n BytesType b)" if "go_sized v" for v
    using that by (simp add: bytes_at_def after_field_def dec_bytes_def at_field_def consume_bytes)
  then show "go_sized v \<Longrightarrow> dec_str pw (bytes_at pw n v b) = (v, after_field pw n BytesType b)"
    by (simp add: dec_str_def)
  have "go_sized (vid_bytes i)" by (simp add: go_sized_def)
  then show "dec_id pw (bytes_at pw n (vid_bytes i) b) = (i, after_field pw n BytesType b)"
    by (simp add: dec_id_def gen)
qed

text \<open>
  One encoded field is consumed by the field function and the decoder goes on with the rest.
  An omitted zero value leaves the record as it was.
\<close>

lemma bytes_field:
  assumes "valid_num n" and "map_option fst (field (bytes_at pw n v b) r) = Some (after_field pw n BytesType b)"
  shows "dec_msg pw field (AppendTag pw [] n BytesType @ AppendBytes pw [] v @ b) r =
    dec_msg pw field b (snd (the (field (bytes_at pw n v b) r)))"
  using dec_msg_tag [where t = BytesType and n = n and field = field and d = "after_field pw n BytesType b"]
    assms by (auto simp: valid_num_def BytesType_def bytes_at_def after_field_def)

lemma varint_field:
  assumes "valid_num n" and "map_option fst (field (varint_at pw n v b) r) = Some (after_field pw n VarintType b)"
    and "v = 0 \<Longrightarrow> snd (the (field (varint_at pw n v b) r)) = r"
  shows "dec_msg pw field (putUvarint pw [] n v @ b) r =
    dec_msg pw field b (snd (the (field (varint_at pw n v b) r)))"
proof (cases "v = 0")
  case False
  then have put: "putUvarint pw [] n v @ b = AppendTag pw [] n VarintType @ AppendVarint pw [] v @ b"
    by (simp add: putUvarint_def varint_append [of "AppendTag pw [] n VarintType"])
  show ?thesis
    unfolding put
    using dec_msg_tag [where t = VarintType and n = n and field = field and d = "after_field pw n VarintType b"]
      assms(1,2) by (auto simp: valid_num_def VarintType_def varint_at_def after_field_def)
qed (use assms(3) in \<open>simp add: putUvarint_def\<close>)

lemma blob_field:
  assumes "valid_num n" and "map_option fst (field (bytes_at pw n v b) r) = Some (after_field pw n BytesType b)"
    and "v = [] \<Longrightarrow> snd (the (field (bytes_at pw n v b) r)) = r"
  shows "dec_msg pw field (putBytes pw [] n v @ b) r = dec_msg pw field b (snd (the (field (bytes_at pw n v b) r)))"
proof (cases "v = []")
  case False
  then have "putBytes pw [] n v @ b = AppendTag pw [] n BytesType @ AppendBytes pw [] v @ b"
    by (simp add: putBytes_def bytes_append [of "AppendTag pw [] n BytesType"])
  then show ?thesis using bytes_field [where field = field, OF assms(1,2)] by simp
qed (use assms(3) in \<open>simp add: putBytes_def\<close>)

lemma string_field:
  assumes "valid_num n" and "map_option fst (field (bytes_at pw n v b) r) = Some (after_field pw n BytesType b)"
    and "v = [] \<Longrightarrow> snd (the (field (bytes_at pw n v b) r)) = r"
  shows "dec_msg pw field (putString pw [] n v @ b) r = dec_msg pw field b (snd (the (field (bytes_at pw n v b) r)))"
proof -
  have "putString pw [] n v = putBytes pw [] n v" by (simp add: putString_def putBytes_def string_bytes)
  then show ?thesis using blob_field [where field = field, OF assms] by simp
qed

lemma id_field:
  assumes "valid_num n" and "map_option fst (field (bytes_at pw n (vid_bytes i) b) r) = Some (after_field pw n BytesType b)"
    and "i = 0 \<Longrightarrow> snd (the (field (bytes_at pw n (vid_bytes i) b) r)) = r"
  shows "dec_msg pw field (putID pw [] n i @ b) r =
    dec_msg pw field b (snd (the (field (bytes_at pw n (vid_bytes i) b) r)))"
proof (cases "i = 0")
  case False
  have "vid_bytes i \<noteq> []" using length_vid_bytes [of i] by (metis list.size(3) zero_neq_numeral)
  with blob_field [where field = field and v = "vid_bytes i", OF assms(1,2)] False show ?thesis by (simp add: putID_def vid_is_zero_def)
qed (use assms(3) in \<open>simp add: putID_def vid_is_zero_def\<close>)

lemmas field_rules = varint_field blob_field string_field id_field

lemmas decode_rules = field_rules field_rules [where b = "[]", unfolded append_Nil2]


lemma bool_uvarint: "putBool pw b n x = putUvarint pw b n (of_bool x)"
  by (simp add: putBool_def putUvarint_def)

lemma if_uvarint:
  "(if x then putUvarint pw b n 1 else b) = putUvarint pw b n (of_bool x)"
  "(if w \<noteq> 0 then putUvarint pw b n (ucast (w :: u32)) else b) = putUvarint pw b n (ucast w)"
  by (simp_all add: putUvarint_def)

section \<open>Encoders append\<close>

lemma put_append:
  "putUvarint pw b n v = b @ putUvarint pw [] n v"
  "putBool pw b n x = b @ putBool pw [] n x"
  "putBytes pw b n y = b @ putBytes pw [] n y"
  "putString pw b n y = b @ putString pw [] n y"
  "putID pw b n i = b @ putID pw [] n i"
proof -
  show u: "putUvarint pw b n v = b @ putUvarint pw [] n v" for v
    by (simp add: putUvarint_def tag_append [of b] varint_append [of "b @ c" for c]
        varint_append [of "AppendTag pw [] n VarintType"])
  show "putBool pw b n x = b @ putBool pw [] n x" using u [of 1] by (simp add: putBool_def)
  show p: "putBytes pw b n y = b @ putBytes pw [] n y" for y
    by (simp add: putBytes_def tag_append [of b] bytes_append [of "b @ c" for c]
        bytes_append [of "AppendTag pw [] n BytesType"])
  show "putString pw b n y = b @ putString pw [] n y"
    using p [of y] by (cases "y = []") (simp_all add: putString_def putBytes_def string_bytes)
  show "putID pw b n i = b @ putID pw [] n i" using p by (simp add: putID_def)
qed

text \<open>The same as rewrite rules that stop at the empty buffer.\<close>

lemma put_splits:
  "NO_MATCH [] b \<Longrightarrow> putUvarint pw b n v = b @ putUvarint pw [] n v"
  "NO_MATCH [] b \<Longrightarrow> putBool pw b n x = b @ putBool pw [] n x"
  "NO_MATCH [] b \<Longrightarrow> putBytes pw b n y = b @ putBytes pw [] n y"
  "NO_MATCH [] b \<Longrightarrow> putString pw b n y = b @ putString pw [] n y"
  "NO_MATCH [] b \<Longrightarrow> putID pw b n i = b @ putID pw [] n i"
  by (rule put_append)+

text \<open>One element of a repeated field.\<close>

lemma repeated_Cons: "putRepeated pw b n vs = b @ putRepeated pw [] n vs"
  "putRepeated pw [] n (v # vs) = AppendTag pw [] n BytesType @ AppendBytes pw [] v @ putRepeated pw [] n vs"
proof -
  have el: "AppendBytes pw (AppendTag pw b n BytesType) v = b @ AppendTag pw [] n BytesType @ AppendBytes pw [] v" for b v
    by (simp add: tag_append [of b] bytes_append [of "b @ c" for c])
  show gen: "putRepeated pw b n vs = b @ putRepeated pw [] n vs" for b vs
  proof (induction vs arbitrary: b)
    case (Cons v vs)
    from Cons.IH [of "b @ AppendTag pw [] n BytesType @ AppendBytes pw [] v"]
      Cons.IH [of "AppendTag pw [] n BytesType @ AppendBytes pw [] v"]
    show ?case using el [of "[]" v] by (simp add: putRepeated_def el)
  qed (simp add: putRepeated_def)
  show "putRepeated pw [] n (v # vs) = AppendTag pw [] n BytesType @ AppendBytes pw [] v @ putRepeated pw [] n vs"
    using gen [of "AppendTag pw [] n BytesType @ AppendBytes pw [] v" vs] el [of "[]" v]
    by (simp add: putRepeated_def)
qed

lemma message_list_field:
  assumes "valid_num n" and "\<And>p. p \<in> set ps \<Longrightarrow> go_sized (enc p) \<and> um (enc p) = Some (Some p)"
    and "\<And>d r. d_num d = n \<Longrightarrow> field d r = sub (dec_bytes pw d) um (\<lambda>p. upd (\<lambda>ys. ys @ [p]) r) r"
    and "\<And>f g r. upd f (upd g r) = upd (\<lambda>x. f (g x)) r" and "\<And>r. upd (\<lambda>x. x) r = r"
  shows "dec_msg pw field (putRepeated pw [] n (map enc ps) @ b) r = dec_msg pw field b (upd (\<lambda>ys. ys @ ps) r)"
  using assms(2)
proof (induction ps arbitrary: r)
  case (Cons p ps)
  have p: "go_sized (enc p)" "um (enc p) = Some (Some p)" using Cons.prems by auto
  have "dec_msg pw field (putRepeated pw [] n (map enc (p # ps)) @ b) r =
      dec_msg pw field (putRepeated pw [] n (map enc ps) @ b) (upd (\<lambda>ys. ys @ [p]) r)"
    unfolding list.map(2) repeated_Cons(2) append_assoc
    using bytes_field [where field = field and v = "enc p", OF assms(1)] p by (simp add: assms(3) sub_def)
  also have "\<dots> = dec_msg pw field b (upd (\<lambda>ys. ys @ p # ps) r)"
    using Cons.IH [of "upd (\<lambda>ys. ys @ [p]) r"] Cons.prems by (simp add: assms(4))
  finally show ?case .
qed (simp add: putRepeated_def assms(5))

lemma blob_list_field:
  assumes "valid_num n" and "\<And>v. v \<in> set vs \<Longrightarrow> go_sized v"
    and "\<And>d r. d_num d = n \<Longrightarrow> field d r = fld (dec_bytes pw d) (\<lambda>v. upd (\<lambda>ys. ys @ [v]) r)"
    and "\<And>f g r. upd f (upd g r) = upd (\<lambda>x. f (g x)) r" and "\<And>r. upd (\<lambda>x. x) r = r"
  shows "dec_msg pw field (putRepeated pw [] n vs @ b) r = dec_msg pw field b (upd (\<lambda>ys. ys @ vs) r)"
  using message_list_field [where enc = "\<lambda>v. v" and um = "\<lambda>v. Some (Some v)" and ps = vs and field = field
      and upd = upd, OF assms(1) _ _ assms(4,5)] assms(2,3)
  by (simp add: sub_def fld_def)

text \<open>A repeated string field written with \<^verbatim>\<open>putString\<close>: empty elements would be dropped.\<close>

lemma string_list_field:
  assumes "valid_num n" and "\<And>v. v \<in> set vs \<Longrightarrow> go_sized v \<and> v \<noteq> []"
    and "\<And>d r. d_num d = n \<Longrightarrow> field d r = fld (dec_str pw d) (\<lambda>v. upd (\<lambda>ys. ys @ [v]) r)"
    and "\<And>f g r. upd f (upd g r) = upd (\<lambda>x. f (g x)) r" and "\<And>r. upd (\<lambda>x. x) r = r"
  shows "dec_msg pw field (putStrings pw [] n vs @ b) r = dec_msg pw field b (upd (\<lambda>ys. ys @ vs) r)"
proof -
  have "putStrings pw c n vs = putRepeated pw c n vs" for c
    using assms(2)
    by (induction vs arbitrary: c) (simp_all add: putStrings_def putRepeated_def putString_def string_bytes)
  then show ?thesis
    using blob_list_field [where field = field and upd = upd, OF assms(1) _ _ assms(4,5)] assms(2,3)
    by (simp add: dec_str_def)
qed

lemma string_list_append:
  "putStrings pw c n vs = c @ putStrings pw [] n vs"
  unfolding putStrings_def
proof (induction vs arbitrary: c)
  case (Cons v vs)
  from Cons.IH [of "putString pw c n v"] Cons.IH [of "putString pw [] n v"] show ?case
    by (simp add: put_append(4) [of c])
qed simp

lemma list_splits:
  "NO_MATCH [] c \<Longrightarrow> putRepeated pw c n bs = c @ putRepeated pw [] n bs"
  "NO_MATCH [] c \<Longrightarrow> putStrings pw c n vs = c @ putStrings pw [] n vs"
  by (rule repeated_Cons(1), rule string_list_append)

section \<open>Maps\<close>

lemma mapEntry_putEntry:
  assumes "go_sized k" and "go_sized v"
  shows "mapEntry pw (putString pw (putString pw [] 1 k) 2 v) = Some (Some (k, v))"
proof -
  have "dec_msg pw (entry_field pw) (putString pw [] 1 k @ putString pw [] 2 v @ []) ([], []) =
      dec_msg pw (entry_field pw) (putString pw [] 2 v @ []) (k, [])"
    by (subst string_field) (simp_all add: entry_field_def fld_def assms)
  also have "\<dots> = dec_msg pw (entry_field pw) [] (k, v)"
    by (subst string_field) (simp_all add: entry_field_def fld_def assms)
  finally show ?thesis
    by (simp add: mapEntry_def put_append(4) [of "putString pw [] 1 k"] del: One_nat_def)
qed

lemma foldl_fmupd:
  "foldl (\<lambda>m k. fmupd k (the (fmlookup n k)) m) m ks = m ++\<^sub>f fmrestrict_set (set ks \<inter> fset (fmdom n)) n"
  if "set ks \<subseteq> fset (fmdom n)"
  using that
proof (induction ks arbitrary: m)
  case (Cons k ks)
  then show ?case
    by (intro fmap_ext) (auto simp: fmlookup_dom_iff)
qed (intro fmap_ext, simp)

lemma putMap_repeated:
  "putMap pw b n m = putRepeated pw b n (map (\<lambda>k. putString pw (putString pw [] 1 k) 2 (the (fmlookup m k)))
     (sorted_list_of_set (fset (fmdom m))))"
proof -
  have "foldl (\<lambda>b k. putEntry pw n k (the (fmlookup m k)) b) b ks =
      putRepeated pw b n (map (\<lambda>k. putString pw (putString pw [] 1 k) 2 (the (fmlookup m k))) ks)" for ks
    by (induction ks arbitrary: b) (simp_all add: putRepeated_def putEntry_def Let_def)
  then show ?thesis by (simp add: putMap_def)
qed

lemma map_splits: "NO_MATCH [] c \<Longrightarrow> putMap pw c n m = c @ putMap pw [] n m"
  unfolding putMap_repeated by (rule repeated_Cons(1))

lemmas encode_rules = bool_uvarint if_uvarint put_splits list_splits map_splits

lemma map_field:
  assumes "valid_num n" and "sized_map pw m"
    and "\<And>d r. d_num d = n \<Longrightarrow> field d r = sub (dec_bytes pw d) (mapEntry pw) (\<lambda>e. upd (fmupd (fst e) (snd e)) r) r"
    and "\<And>f g r. upd f (upd g r) = upd (\<lambda>x. f (g x)) r" and "\<And>r. upd (\<lambda>x. x) r = r"
  shows "dec_msg pw field (putMap pw [] n m @ b) r = dec_msg pw field b (upd (\<lambda>m0. m0 ++\<^sub>f m) r)"
proof -
  let ?enc = "\<lambda>k. putString pw (putString pw [] 1 k) 2 (the (fmlookup m k))"
  have step: "dec_msg pw field (putRepeated pw [] n (map ?enc ks) @ b) r =
      dec_msg pw field b (upd (\<lambda>m0. foldl (\<lambda>m0 k. fmupd k (the (fmlookup m k)) m0) m0 ks) r)"
    if "set ks \<subseteq> fset (fmdom m)" for ks
    using that
  proof (induction ks arbitrary: r)
    case (Cons k ks)
    then obtain v where v: "fmlookup m k = Some v" by (auto simp: fmlookup_dom_iff)
    with assms(2) have sized: "go_sized k" "go_sized v" "go_sized (putString pw (putString pw [] 1 k) 2 v)"
      by (auto simp: sized_map_def)
    have "dec_msg pw field (putRepeated pw [] n (map ?enc (k # ks)) @ b) r =
        dec_msg pw field (putRepeated pw [] n (map ?enc ks) @ b) (upd (fmupd k v) r)"
      unfolding list.map(2) repeated_Cons(2) append_assoc v option.sel
      using bytes_field [where field = field and v = "putString pw (putString pw [] 1 k) 2 v", OF assms(1)] sized(3)
      by (simp add: assms(3) sub_def mapEntry_putEntry [OF sized(1,2)] del: One_nat_def)
    with Cons.IH [of "upd (fmupd k v) r"] Cons.prems v show ?case by (simp add: assms(4))
  qed (simp add: putRepeated_def assms(5))
  have ks: "set (sorted_list_of_set (fset (fmdom m))) = fset (fmdom m)" by simp
  have "fmrestrict_set (fset (fmdom m)) m = m" by (intro fmap_ext) (auto simp: fmlookup_dom_iff)
  then show ?thesis
    using step [of "sorted_list_of_set (fset (fmdom m))"] by (simp add: putMap_repeated foldl_fmupd)
qed

section \<open>Unknown fields\<close>

lemma unknown_fields:
  assumes "raw_fields pw known u"
    and "\<And>d r. d_num d \<notin> known \<Longrightarrow> field d r = fld (dec_skipUnknown pw d) (\<lambda>x. upd (\<lambda>w. w @ x) r)"
    and "\<And>f g r. upd f (upd g r) = upd (\<lambda>x. f (g x)) r" and "\<And>r. upd (\<lambda>x. x) r = r"
  shows "dec_msg pw field (u @ b) r = dec_msg pw field b (upd (\<lambda>w. w @ u) r)"
  using assms(1)
proof (induction arbitrary: r)
  case raw_nil
  then show ?case by (simp add: assms(4))
next
  case (raw_field f n t k m rest)
  have k: "0 < k" "k \<le> length f" using tag_bounds [OF raw_field.hyps(1)] by auto
  have tag: "ConsumeTag pw (f @ rest @ b) = Some (n, t, k)"
    by (rule tag_local [OF raw_field.hyps(1)]) (use k in simp)
  have val: "ConsumeFieldValue pw n t (drop k (f @ rest @ b)) = Some m"
    by (rule field_local [OF raw_field.hyps(3)]) (use k raw_field.hyps(4) in simp)
  have "f @ rest @ b \<noteq> []" using k by auto
  from dec_msg_step [OF this tag, of field r] val k raw_field.hyps(2,4)
  have "dec_msg pw field (f @ rest @ b) r = dec_msg pw field (rest @ b) (upd (\<lambda>w. w @ f) r)"
    by (simp add: assms(2) fld_def dec_skipUnknown_def) (simp add: at_field_def)
  with raw_field.IH [of "upd (\<lambda>w. w @ f) r"] show ?case by (simp add: assms(3))
qed

lemmas unknown_end = unknown_fields [where b = "[]", unfolded append_Nil2 dec_msg_Nil]

section \<open>Every decoder returns, and what it keeps as unknown\<close>

text \<open>A decode method either records an error or consumes at least the tag.\<close>

definition consumes :: "bytes \<Rightarrow> 'v \<times> dec \<Rightarrow> bool" where
  "consumes b x \<longleftrightarrow> d_err (snd x) \<or> length (d_b (snd x)) < length b"

text \<open>The walker \<open>d\<close> stands at the first field of \<open>b\<close>.\<close>

definition stands :: "bytes \<Rightarrow> dec \<Rightarrow> bool" where
  "stands b d \<longleftrightarrow> b \<noteq> [] \<and> (\<exists>n t k. ConsumeTag pw b = Some (n, t, k) \<and> d = at_field b n t k)"

lemma standsE:
  assumes "stands b d"
  obtains n t k where "b \<noteq> []" and "ConsumeTag pw b = Some (n, t, k)" and "d = at_field b n t k"
  using assms by (simp only: stands_def) (elim conjE exE, rule that)

lemma consumes_values [intro]:
  assumes "stands b d"
  shows "consumes b (dec_uvarint pw d)" "consumes b (dec_int64 pw d)" "consumes b (dec_uint32 pw d)"
    "consumes b (dec_trunc32 pw d)" "consumes b (dec_enum8 pw d)" "consumes b (dec_bool pw d)"
    "consumes b (dec_bytes pw d)" "consumes b (dec_str pw d)" "consumes b (dec_id pw d)"
    "consumes b (dec_skipUnknown pw d)"
proof -
  obtain n t k where b: "b \<noteq> []" and tag: "ConsumeTag pw b = Some (n, t, k)" and d: "d = at_field b n t k"
    by (rule standsE [OF assms])
  have k: "0 < k" "k \<le> length b" using tag_bounds [OF tag] by auto
  show u: "consumes b (dec_uvarint pw d)"
    using k b by (auto simp: d consumes_def dec_uvarint_def at_field_def dec_fail_def split: option.split)
  show y: "consumes b (dec_bytes pw d)"
    using k b by (auto simp: d consumes_def dec_bytes_def at_field_def dec_fail_def split: option.split)
  show "consumes b (dec_int64 pw d)" "consumes b (dec_uint32 pw d)" "consumes b (dec_trunc32 pw d)"
    "consumes b (dec_enum8 pw d)" "consumes b (dec_bool pw d)"
    using u by (cases "dec_uvarint pw d"; simp add: consumes_def dec_int64_def dec_uint32_def dec_trunc32_def
        dec_enum8_def dec_bool_def dec_fail_def Let_def)+
  show "consumes b (dec_str pw d)" "consumes b (dec_id pw d)"
  proof -
    obtain v e where v: "dec_bytes pw d = (v, e)" by fastforce
    with y show "consumes b (dec_str pw d)" by (simp only: dec_str_def)
    show "consumes b (dec_id pw d)"
      using y unfolding dec_id_def v by (auto simp: consumes_def dec_fail_def)
  qed
  show "consumes b (dec_skipUnknown pw d)"
    using k b by (auto simp: d consumes_def dec_skipUnknown_def at_field_def split: option.split)
qed

text \<open>The raw bytes a skip returns are one raw field.\<close>

lemma skipUnknown_raw:
  assumes "stands b d" and "d_num d \<notin> known" and "\<not> d_err (snd (dec_skipUnknown pw d))"
  shows "raw_fields pw known (fst (dec_skipUnknown pw d))"
proof -
  define x where "x = fst (dec_skipUnknown pw d)"
  obtain n t k where tag: "ConsumeTag pw b = Some (n, t, k)" and d: "d = at_field b n t k"
    by (rule standsE [OF assms(1)])
  with assms(2) have n: "n \<notin> known" by simp
  obtain m where m: "ConsumeFieldValue pw n t (drop k b) = Some m"
    using assms(3) unfolding d
    by (cases "ConsumeFieldValue pw n t (drop k b)") (simp_all add: dec_skipUnknown_def at_field_def)
  then have x: "x = take (k + m) b" by (simp add: d x_def dec_skipUnknown_def at_field_def)
  have k: "k \<le> length b" using tag_bounds [OF tag] by auto
  have len: "length x = k + m" using field_bounds [OF m] k by (simp add: x)
  have "ConsumeTag pw x = Some (n, t, k)"
    by (rule tag_local [OF tag]) (simp add: x min_def)
  moreover have "ConsumeFieldValue pw n t (drop k x) = Some m"
    by (rule field_local [OF m]) (simp add: x drop_take)
  ultimately show ?thesis using raw_fields.raw_field [OF _ n _ len raw_nil] by (simp add: x_def)
qed

lemma raw_fields_append: "raw_fields pw known u \<Longrightarrow> raw_fields pw known w \<Longrightarrow> raw_fields pw known (u @ w)"
proof (induction rule: raw_fields.induct)
  case (raw_field f n t k m rest)
  from raw_fields.raw_field [OF raw_field.hyps(1-4) raw_field.IH [OF raw_field.prems]] show ?case by simp
qed simp

text \<open>
  A field function that returns, consumes and keeps \<open>I\<close> makes a decoder that returns and keeps
  \<open>I\<close>.
\<close>

definition good_result :: "bytes \<Rightarrow> ('r \<Rightarrow> bool) \<Rightarrow> (dec \<times> 'r) option \<Rightarrow> bool" where
  "good_result b I x \<longleftrightarrow> (\<exists>d r. x = Some (d, r) \<and> (d_err d \<or> length (d_b d) < length b \<and> I r))"

definition good_field :: "(dec \<Rightarrow> 'r \<Rightarrow> (dec \<times> 'r) option) \<Rightarrow> ('r \<Rightarrow> bool) \<Rightarrow> bool" where
  "good_field field I \<longleftrightarrow> (\<forall>b d r. stands b d \<longrightarrow> I r \<longrightarrow> good_result b I (field d r))"

lemma good_fieldI: "(\<And>b d r. stands b d \<Longrightarrow> I r \<Longrightarrow> good_result b I (field d r)) \<Longrightarrow> good_field field I"
  by (simp add: good_field_def)

lemma good_fld: "consumes b x \<Longrightarrow> (\<not> d_err (snd x) \<Longrightarrow> I (f (fst x))) \<Longrightarrow> good_result b I (fld x f)"
  by (auto simp: good_result_def fld_def consumes_def)

lemma good_sub:
  "consumes b x \<Longrightarrow> um (fst x) \<noteq> None \<Longrightarrow> (\<And>v. um (fst x) = Some (Some v) \<Longrightarrow> I (f v)) \<Longrightarrow>
   good_result b I (sub x um f r)"
  by (auto simp: good_result_def sub_def consumes_def dec_fail_def split: option.splits)

lemma good_if:
  "(c \<Longrightarrow> good_result b I x) \<Longrightarrow> (\<not> c \<Longrightarrow> good_result b I y) \<Longrightarrow> good_result b I (if c then x else y)"
  by simp

lemmas good_intros = good_if good_fld good_sub consumes_values

lemma dec_msg_returns:
  assumes "good_field field I" and "I r"
  shows "dec_msg pw field b r = Some None \<or> (\<exists>r'. dec_msg pw field b r = Some (Some r') \<and> I r')"
  using assms(2)
proof (induction "length b" arbitrary: b r rule: less_induct)
  case less
  show ?case
  proof (cases "b = []")
    case True
    with less.prems show ?thesis by simp
  next
    case ne: False
    show ?thesis
    proof (cases "ConsumeTag pw b")
      case None
      then show ?thesis
        unfolding dec_msg_def using ne
        by (subst (1 2) dec_loop.simps) (simp add: dec_next_def dec_new_def)
    next
      case (Some x)
      obtain n t k where x: "ConsumeTag pw b = Some (n, t, k)" using Some by (cases x) auto
      have "stands b (at_field b n t k)" using ne x by (auto simp: stands_def)
      with assms(1) less.prems obtain d r' where f: "field (at_field b n t k) r = Some (d, r')"
        and d: "d_err d \<or> length (d_b d) < length b \<and> I r'"
        unfolding good_field_def good_result_def by blast
      show ?thesis
        using less.hyps [of "d_b d" r'] d by (subst (1 2) dec_msg_step [OF ne x]) (auto simp: f)
    qed
  qed
qed

lemma mapEntry_returns: "mapEntry pw b \<noteq> None"
proof -
  have "good_field (entry_field pw) (\<lambda>_. True)"
    unfolding entry_field_def by (intro good_fieldI good_intros TrueI)
  from dec_msg_returns [OF this, where r = "([], [])" and b = b] show ?thesis by (auto simp: mapEntry_def)
qed

end

end
