(* ===== verification/Meta_Codec.thy ===== *)
theory Meta_Codec
  imports Meta_Views Wire
begin

text \<open>
  The record codecs (\<^verbatim>\<open>internal/meta/codec.go\<close>).

  Each record has its encoder \<^verbatim>\<open>marshalX\<close>, the body \<open>X_field\<close> of its decode loop (one branch per
  field number) and its decoder \<^verbatim>\<open>unmarshalX\<close>. \<open>sized_X\<close> says what of a record an encoding can
  carry: byte strings that fit in memory, a tail of raw fields with foreign numbers, and no
  empty member names, which \<^verbatim>\<open>putString\<close> would drop. Under the contract of the wire library
  every decoder returns, a decoder inverts its encoder, and what a decoder keeps as unknown
  is a sequence of raw fields that survives the next encoding.
\<close>

section \<open>Object records\<close>

definition marshalPartRef :: "protowire \<Rightarrow> PartRef \<Rightarrow> bytes" where
  "marshalPartRef pw p =
     (let b = [];
          b = putID pw b 1 (pf_DataID p);
          b = putUvarint pw b 2 (pf_Size p);
          b = putBytes pw b 3 (pf_Checksum p);
          b = putUvarint pw b 4 (pf_Partition p);
          b = putUvarint pw b 5 (ucast (pf_ECDataShards p));
          b = putUvarint pw b 6 (ucast (pf_ECParityShards p));
          b = putRepeated pw b 7 (pf_ShardChecksums p);
          b = putUvarint pw b 8 (ucast (pf_EncAlgorithm p));
          b = putBytes pw b 9 (pf_WrappedDEK p);
          b = putUvarint pw b 10 (pf_KEKFingerprint p)
      in b @ pf_unknown p)"

definition PartRef_field ::
    "protowire \<Rightarrow> dec \<Rightarrow> PartRef \<Rightarrow> (dec \<times> PartRef) option" where
  "PartRef_field pw d p =
     (if d_num d = 1 then fld (dec_id pw d) (\<lambda>v. p\<lparr>pf_DataID := v\<rparr>)
      else if d_num d = 2 then fld (dec_int64 pw d) (\<lambda>v. p\<lparr>pf_Size := v\<rparr>)
      else if d_num d = 3 then fld (dec_bytes pw d) (\<lambda>v. p\<lparr>pf_Checksum := v\<rparr>)
      else if d_num d = 4 then fld (dec_uvarint pw d) (\<lambda>v. p\<lparr>pf_Partition := v\<rparr>)
      else if d_num d = 5 then fld (dec_uint32 pw d) (\<lambda>v. p\<lparr>pf_ECDataShards := v\<rparr>)
      else if d_num d = 6 then fld (dec_uint32 pw d) (\<lambda>v. p\<lparr>pf_ECParityShards := v\<rparr>)
      else if d_num d = 7 then fld (dec_bytes pw d) (\<lambda>v. pf_ShardChecksums_update (\<lambda>ys. ys @ [v]) p)
      else if d_num d = 8 then fld (dec_enum8 pw d) (\<lambda>v. p\<lparr>pf_EncAlgorithm := v\<rparr>)
      else if d_num d = 9 then fld (dec_bytes pw d) (\<lambda>v. p\<lparr>pf_WrappedDEK := v\<rparr>)
      else if d_num d = 10 then fld (dec_uvarint pw d) (\<lambda>v. p\<lparr>pf_KEKFingerprint := v\<rparr>)
      else fld (dec_skipUnknown pw d) (\<lambda>x. pf_unknown_update (\<lambda>w. w @ x) p))"

definition unmarshalPartRef :: "protowire \<Rightarrow> bytes \<Rightarrow> PartRef option option" where
  "unmarshalPartRef pw b = dec_msg pw (PartRef_field pw) b PartRef_zero"

definition sized_PartRef :: "protowire \<Rightarrow> PartRef \<Rightarrow> bool" where
  "sized_PartRef pw p \<longleftrightarrow>
     go_sized (pf_Checksum p) \<and>
     (\<forall>v \<in> set (pf_ShardChecksums p). go_sized v) \<and>
     go_sized (pf_WrappedDEK p) \<and>
     raw_fields pw {1, 2, 3, 4, 5, 6, 7, 8, 9, 10} (pf_unknown p)"

definition marshalVersionEntry :: "protowire \<Rightarrow> VersionEntry \<Rightarrow> bytes" where
  "marshalVersionEntry pw e =
     (let b = [];
          b = putUvarint pw b 1 (ucast (ve_FormatVersion e));
          b = putID pw b 2 (ve_VersionID e);
          b = putUvarint pw b 3 (ucast (ve_Kind e));
          b = putUvarint pw b 4 (ve_Size e);
          b = putUvarint pw b 5 (ve_CreatedUnixMS e);
          b = putBytes pw b 6 (ve_ETag e);
          b = putString pw b 7 (ve_ContentType e);
          b = putMap pw b 8 (ve_UserMetadata e);
          b = putUvarint pw b 9 (ve_Partition e);
          b = putUvarint pw b 10 (ucast (ve_ECDataShards e));
          b = putUvarint pw b 11 (ucast (ve_ECParityShards e));
          b = putBytes pw b 12 (ve_ObjectChecksum e);
          b = putRepeated pw b 13 (ve_ShardChecksums e);
          b = putUvarint pw b 14 (ucast (ve_RetentionMode e));
          b = putUvarint pw b 15 (ve_RetainUntilUnixMS e);
          b = putBool pw b 16 (ve_LegalHold e);
          b = putBool pw b 17 (ve_NullVersion e);
          b = putID pw b 18 (ve_DataID e);
          b = putRepeated pw b 19 (map (marshalPartRef pw) (ve_Parts e));
          b = putUvarint pw b 20 (ucast (ve_EncAlgorithm e));
          b = putBytes pw b 21 (ve_WrappedDEK e);
          b = putUvarint pw b 22 (ve_KEKFingerprint e)
      in b @ ve_unknown e)"

definition VersionEntry_field ::
    "protowire \<Rightarrow> dec \<Rightarrow> VersionEntry \<Rightarrow> (dec \<times> VersionEntry) option" where
  "VersionEntry_field pw d e =
     (if d_num d = 1 then fld (dec_uint32 pw d) (\<lambda>v. e\<lparr>ve_FormatVersion := v\<rparr>)
      else if d_num d = 2 then fld (dec_id pw d) (\<lambda>v. e\<lparr>ve_VersionID := v\<rparr>)
      else if d_num d = 3 then fld (dec_enum8 pw d) (\<lambda>v. e\<lparr>ve_Kind := v\<rparr>)
      else if d_num d = 4 then fld (dec_int64 pw d) (\<lambda>v. e\<lparr>ve_Size := v\<rparr>)
      else if d_num d = 5 then fld (dec_int64 pw d) (\<lambda>v. e\<lparr>ve_CreatedUnixMS := v\<rparr>)
      else if d_num d = 6 then fld (dec_bytes pw d) (\<lambda>v. e\<lparr>ve_ETag := v\<rparr>)
      else if d_num d = 7 then fld (dec_str pw d) (\<lambda>v. e\<lparr>ve_ContentType := v\<rparr>)
      else if d_num d = 8
           then sub (dec_bytes pw d) (mapEntry pw) (\<lambda>kv. ve_UserMetadata_update (fmupd (fst kv) (snd kv)) e) e
      else if d_num d = 9 then fld (dec_uvarint pw d) (\<lambda>v. e\<lparr>ve_Partition := v\<rparr>)
      else if d_num d = 10 then fld (dec_uint32 pw d) (\<lambda>v. e\<lparr>ve_ECDataShards := v\<rparr>)
      else if d_num d = 11 then fld (dec_uint32 pw d) (\<lambda>v. e\<lparr>ve_ECParityShards := v\<rparr>)
      else if d_num d = 12 then fld (dec_bytes pw d) (\<lambda>v. e\<lparr>ve_ObjectChecksum := v\<rparr>)
      else if d_num d = 13 then fld (dec_bytes pw d) (\<lambda>v. ve_ShardChecksums_update (\<lambda>ys. ys @ [v]) e)
      else if d_num d = 14 then fld (dec_enum8 pw d) (\<lambda>v. e\<lparr>ve_RetentionMode := v\<rparr>)
      else if d_num d = 15 then fld (dec_int64 pw d) (\<lambda>v. e\<lparr>ve_RetainUntilUnixMS := v\<rparr>)
      else if d_num d = 16 then fld (dec_bool pw d) (\<lambda>v. e\<lparr>ve_LegalHold := v\<rparr>)
      else if d_num d = 17 then fld (dec_bool pw d) (\<lambda>v. e\<lparr>ve_NullVersion := v\<rparr>)
      else if d_num d = 18 then fld (dec_id pw d) (\<lambda>v. e\<lparr>ve_DataID := v\<rparr>)
      else if d_num d = 19
           then sub (dec_bytes pw d) (unmarshalPartRef pw) (\<lambda>v. ve_Parts_update (\<lambda>ys. ys @ [v]) e) e
      else if d_num d = 20 then fld (dec_enum8 pw d) (\<lambda>v. e\<lparr>ve_EncAlgorithm := v\<rparr>)
      else if d_num d = 21 then fld (dec_bytes pw d) (\<lambda>v. e\<lparr>ve_WrappedDEK := v\<rparr>)
      else if d_num d = 22 then fld (dec_uvarint pw d) (\<lambda>v. e\<lparr>ve_KEKFingerprint := v\<rparr>)
      else fld (dec_skipUnknown pw d) (\<lambda>x. ve_unknown_update (\<lambda>w. w @ x) e))"

definition unmarshalVersionEntry :: "protowire \<Rightarrow> bytes \<Rightarrow> VersionEntry option option" where
  "unmarshalVersionEntry pw b = dec_msg pw (VersionEntry_field pw) b VersionEntry_zero"

definition sized_VersionEntry :: "protowire \<Rightarrow> VersionEntry \<Rightarrow> bool" where
  "sized_VersionEntry pw e \<longleftrightarrow>
     go_sized (ve_ETag e) \<and>
     go_sized (ve_ContentType e) \<and>
     sized_map pw (ve_UserMetadata e) \<and>
     go_sized (ve_ObjectChecksum e) \<and>
     (\<forall>v \<in> set (ve_ShardChecksums e). go_sized v) \<and>
     (\<forall>p \<in> set (ve_Parts e). sized_PartRef pw p \<and> go_sized (marshalPartRef pw p)) \<and>
     go_sized (ve_WrappedDEK e) \<and>
     raw_fields pw {1, 2, 3, 4, 5, 6, 7, 8, 9, 10, 11, 12, 13, 14, 15, 16, 17, 18, 19, 20, 21, 22} (ve_unknown e)"

section \<open>Buckets, current records, uploads\<close>

definition marshalBucketConfig :: "protowire \<Rightarrow> BucketConfig \<Rightarrow> bytes" where
  "marshalBucketConfig pw c =
     (let b = [];
          b = putUvarint pw b 1 (ucast (bc_FormatVersion c));
          b = putString pw b 2 (bc_Name c);
          b = putUvarint pw b 3 (bc_CreatedUnixMS c);
          b = putUvarint pw b 4 (ucast (bc_Versioning c));
          b = putBool pw b 5 (bc_ObjectLockEnabled c);
          b = putUvarint pw b 6 (ucast (bc_DefaultRetentionMode c));
          b = putUvarint pw b 7 (ucast (bc_DefaultRetentionDays c));
          b = putUvarint pw b 8 (ucast (bc_DefaultRetentionYears c))
      in b @ bc_unknown c)"

definition BucketConfig_field ::
    "protowire \<Rightarrow> dec \<Rightarrow> BucketConfig \<Rightarrow> (dec \<times> BucketConfig) option" where
  "BucketConfig_field pw d c =
     (if d_num d = 1 then fld (dec_uint32 pw d) (\<lambda>v. c\<lparr>bc_FormatVersion := v\<rparr>)
      else if d_num d = 2 then fld (dec_str pw d) (\<lambda>v. c\<lparr>bc_Name := v\<rparr>)
      else if d_num d = 3 then fld (dec_int64 pw d) (\<lambda>v. c\<lparr>bc_CreatedUnixMS := v\<rparr>)
      else if d_num d = 4 then fld (dec_enum8 pw d) (\<lambda>v. c\<lparr>bc_Versioning := v\<rparr>)
      else if d_num d = 5 then fld (dec_bool pw d) (\<lambda>v. c\<lparr>bc_ObjectLockEnabled := v\<rparr>)
      else if d_num d = 6 then fld (dec_enum8 pw d) (\<lambda>v. c\<lparr>bc_DefaultRetentionMode := v\<rparr>)
      else if d_num d = 7 then fld (dec_uint32 pw d) (\<lambda>v. c\<lparr>bc_DefaultRetentionDays := v\<rparr>)
      else if d_num d = 8 then fld (dec_uint32 pw d) (\<lambda>v. c\<lparr>bc_DefaultRetentionYears := v\<rparr>)
      else fld (dec_skipUnknown pw d) (\<lambda>x. bc_unknown_update (\<lambda>w. w @ x) c))"

definition unmarshalBucketConfig :: "protowire \<Rightarrow> bytes \<Rightarrow> BucketConfig option option" where
  "unmarshalBucketConfig pw b = dec_msg pw (BucketConfig_field pw) b BucketConfig_zero"

definition sized_BucketConfig :: "protowire \<Rightarrow> BucketConfig \<Rightarrow> bool" where
  "sized_BucketConfig pw c \<longleftrightarrow>
     go_sized (bc_Name c) \<and>
     raw_fields pw {1, 2, 3, 4, 5, 6, 7, 8} (bc_unknown c)"

definition marshalCurrentRecord :: "protowire \<Rightarrow> CurrentRecord \<Rightarrow> bytes" where
  "marshalCurrentRecord pw c =
     (let b = [];
          b = putUvarint pw b 1 (ucast (cr_FormatVersion c));
          b = putID pw b 2 (cr_VersionID c);
          b = putUvarint pw b 3 (cr_Size c);
          b = putBytes pw b 4 (cr_ETag c);
          b = putUvarint pw b 5 (cr_CreatedUnixMS c);
          b = putUvarint pw b 6 (ucast (cr_PartCount c))
      in b @ cr_unknown c)"

definition CurrentRecord_field ::
    "protowire \<Rightarrow> dec \<Rightarrow> CurrentRecord \<Rightarrow> (dec \<times> CurrentRecord) option" where
  "CurrentRecord_field pw d c =
     (if d_num d = 1 then fld (dec_uint32 pw d) (\<lambda>v. c\<lparr>cr_FormatVersion := v\<rparr>)
      else if d_num d = 2 then fld (dec_id pw d) (\<lambda>v. c\<lparr>cr_VersionID := v\<rparr>)
      else if d_num d = 3 then fld (dec_int64 pw d) (\<lambda>v. c\<lparr>cr_Size := v\<rparr>)
      else if d_num d = 4 then fld (dec_bytes pw d) (\<lambda>v. c\<lparr>cr_ETag := v\<rparr>)
      else if d_num d = 5 then fld (dec_int64 pw d) (\<lambda>v. c\<lparr>cr_CreatedUnixMS := v\<rparr>)
      else if d_num d = 6 then fld (dec_uint32 pw d) (\<lambda>v. c\<lparr>cr_PartCount := v\<rparr>)
      else fld (dec_skipUnknown pw d) (\<lambda>x. cr_unknown_update (\<lambda>w. w @ x) c))"

definition unmarshalCurrentRecord :: "protowire \<Rightarrow> bytes \<Rightarrow> CurrentRecord option option" where
  "unmarshalCurrentRecord pw b = dec_msg pw (CurrentRecord_field pw) b CurrentRecord_zero"

definition sized_CurrentRecord :: "protowire \<Rightarrow> CurrentRecord \<Rightarrow> bool" where
  "sized_CurrentRecord pw c \<longleftrightarrow>
     go_sized (cr_ETag c) \<and>
     raw_fields pw {1, 2, 3, 4, 5, 6} (cr_unknown c)"

definition marshalUploadRecord :: "protowire \<Rightarrow> UploadRecord \<Rightarrow> bytes" where
  "marshalUploadRecord pw u =
     (let b = [];
          b = putUvarint pw b 1 (ucast (ur_FormatVersion u));
          b = putID pw b 2 (ur_UploadID u);
          b = putUvarint pw b 3 (ur_CreatedUnixMS u);
          b = putString pw b 4 (ur_ContentType u);
          b = putMap pw b 5 (ur_UserMetadata u)
      in b @ ur_unknown u)"

definition UploadRecord_field ::
    "protowire \<Rightarrow> dec \<Rightarrow> UploadRecord \<Rightarrow> (dec \<times> UploadRecord) option" where
  "UploadRecord_field pw d u =
     (if d_num d = 1 then fld (dec_uint32 pw d) (\<lambda>v. u\<lparr>ur_FormatVersion := v\<rparr>)
      else if d_num d = 2 then fld (dec_id pw d) (\<lambda>v. u\<lparr>ur_UploadID := v\<rparr>)
      else if d_num d = 3 then fld (dec_int64 pw d) (\<lambda>v. u\<lparr>ur_CreatedUnixMS := v\<rparr>)
      else if d_num d = 4 then fld (dec_str pw d) (\<lambda>v. u\<lparr>ur_ContentType := v\<rparr>)
      else if d_num d = 5
           then sub (dec_bytes pw d) (mapEntry pw) (\<lambda>kv. ur_UserMetadata_update (fmupd (fst kv) (snd kv)) u) u
      else fld (dec_skipUnknown pw d) (\<lambda>x. ur_unknown_update (\<lambda>w. w @ x) u))"

definition unmarshalUploadRecord :: "protowire \<Rightarrow> bytes \<Rightarrow> UploadRecord option option" where
  "unmarshalUploadRecord pw b = dec_msg pw (UploadRecord_field pw) b UploadRecord_zero"

definition sized_UploadRecord :: "protowire \<Rightarrow> UploadRecord \<Rightarrow> bool" where
  "sized_UploadRecord pw u \<longleftrightarrow>
     go_sized (ur_ContentType u) \<and>
     sized_map pw (ur_UserMetadata u) \<and>
     raw_fields pw {1, 2, 3, 4, 5} (ur_unknown u)"

definition marshalPartRecord :: "protowire \<Rightarrow> PartRecord \<Rightarrow> bytes" where
  "marshalPartRecord pw p =
     (let b = [];
          b = putUvarint pw b 1 (ucast (pr_FormatVersion p));
          b = putUvarint pw b 2 (ucast (pr_PartNumber p));
          b = putID pw b 3 (pr_DataID p);
          b = putUvarint pw b 4 (pr_Size p);
          b = putBytes pw b 5 (pr_ETag p);
          b = putBytes pw b 6 (pr_Checksum p);
          b = putUvarint pw b 7 (pr_UploadedUnixMS p);
          b = putUvarint pw b 8 (pr_Partition p);
          b = putUvarint pw b 9 (ucast (pr_ECDataShards p));
          b = putUvarint pw b 10 (ucast (pr_ECParityShards p));
          b = putRepeated pw b 11 (pr_ShardChecksums p);
          b = putUvarint pw b 12 (ucast (pr_EncAlgorithm p));
          b = putBytes pw b 13 (pr_WrappedDEK p);
          b = putUvarint pw b 14 (pr_KEKFingerprint p)
      in b @ pr_unknown p)"

definition PartRecord_field ::
    "protowire \<Rightarrow> dec \<Rightarrow> PartRecord \<Rightarrow> (dec \<times> PartRecord) option" where
  "PartRecord_field pw d p =
     (if d_num d = 1 then fld (dec_uint32 pw d) (\<lambda>v. p\<lparr>pr_FormatVersion := v\<rparr>)
      else if d_num d = 2 then fld (dec_uint32 pw d) (\<lambda>v. p\<lparr>pr_PartNumber := v\<rparr>)
      else if d_num d = 3 then fld (dec_id pw d) (\<lambda>v. p\<lparr>pr_DataID := v\<rparr>)
      else if d_num d = 4 then fld (dec_int64 pw d) (\<lambda>v. p\<lparr>pr_Size := v\<rparr>)
      else if d_num d = 5 then fld (dec_bytes pw d) (\<lambda>v. p\<lparr>pr_ETag := v\<rparr>)
      else if d_num d = 6 then fld (dec_bytes pw d) (\<lambda>v. p\<lparr>pr_Checksum := v\<rparr>)
      else if d_num d = 7 then fld (dec_int64 pw d) (\<lambda>v. p\<lparr>pr_UploadedUnixMS := v\<rparr>)
      else if d_num d = 8 then fld (dec_uvarint pw d) (\<lambda>v. p\<lparr>pr_Partition := v\<rparr>)
      else if d_num d = 9 then fld (dec_uint32 pw d) (\<lambda>v. p\<lparr>pr_ECDataShards := v\<rparr>)
      else if d_num d = 10 then fld (dec_uint32 pw d) (\<lambda>v. p\<lparr>pr_ECParityShards := v\<rparr>)
      else if d_num d = 11 then fld (dec_bytes pw d) (\<lambda>v. pr_ShardChecksums_update (\<lambda>ys. ys @ [v]) p)
      else if d_num d = 12 then fld (dec_enum8 pw d) (\<lambda>v. p\<lparr>pr_EncAlgorithm := v\<rparr>)
      else if d_num d = 13 then fld (dec_bytes pw d) (\<lambda>v. p\<lparr>pr_WrappedDEK := v\<rparr>)
      else if d_num d = 14 then fld (dec_uvarint pw d) (\<lambda>v. p\<lparr>pr_KEKFingerprint := v\<rparr>)
      else fld (dec_skipUnknown pw d) (\<lambda>x. pr_unknown_update (\<lambda>w. w @ x) p))"

definition unmarshalPartRecord :: "protowire \<Rightarrow> bytes \<Rightarrow> PartRecord option option" where
  "unmarshalPartRecord pw b = dec_msg pw (PartRecord_field pw) b PartRecord_zero"

definition sized_PartRecord :: "protowire \<Rightarrow> PartRecord \<Rightarrow> bool" where
  "sized_PartRecord pw p \<longleftrightarrow>
     go_sized (pr_ETag p) \<and>
     go_sized (pr_Checksum p) \<and>
     (\<forall>v \<in> set (pr_ShardChecksums p). go_sized v) \<and>
     go_sized (pr_WrappedDEK p) \<and>
     raw_fields pw {1, 2, 3, 4, 5, 6, 7, 8, 9, 10, 11, 12, 13, 14} (pr_unknown p)"

section \<open>System records\<close>

definition marshalLayoutNode :: "protowire \<Rightarrow> LayoutNode \<Rightarrow> bytes" where
  "marshalLayoutNode pw n =
     (let b = [];
          b = putString pw b 1 (ln_ID n);
          b = putString pw b 2 (ln_Host n);
          b = putString pw b 3 (ln_Zone n);
          b = (if ln_Weight n \<noteq> 0 then putUvarint pw b 4 (ucast (ln_Weight n)) else b);
          b = (if ln_Draining n then putUvarint pw b 5 1 else b)
      in b)"

definition LayoutNode_field ::
    "protowire \<Rightarrow> dec \<Rightarrow> LayoutNode \<Rightarrow> (dec \<times> LayoutNode) option" where
  "LayoutNode_field pw d n =
     (if d_num d = 1 then fld (dec_str pw d) (\<lambda>v. n\<lparr>ln_ID := v\<rparr>)
      else if d_num d = 2 then fld (dec_str pw d) (\<lambda>v. n\<lparr>ln_Host := v\<rparr>)
      else if d_num d = 3 then fld (dec_str pw d) (\<lambda>v. n\<lparr>ln_Zone := v\<rparr>)
      else if d_num d = 4 then fld (dec_trunc32 pw d) (\<lambda>v. n\<lparr>ln_Weight := v\<rparr>)
      else if d_num d = 5 then fld (dec_bool pw d) (\<lambda>v. n\<lparr>ln_Draining := v\<rparr>)
      else fld (dec_skipUnknown pw d) (\<lambda>_. n))"

definition unmarshalLayoutNode :: "protowire \<Rightarrow> bytes \<Rightarrow> LayoutNode option option" where
  "unmarshalLayoutNode pw b = dec_msg pw (LayoutNode_field pw) b LayoutNode_zero"

definition sized_LayoutNode :: "protowire \<Rightarrow> LayoutNode \<Rightarrow> bool" where
  "sized_LayoutNode pw n \<longleftrightarrow>
     go_sized (ln_ID n) \<and>
     go_sized (ln_Host n) \<and>
     go_sized (ln_Zone n)"

definition marshalClusterLayout :: "protowire \<Rightarrow> ClusterLayout \<Rightarrow> bytes" where
  "marshalClusterLayout pw l =
     (let b = [];
          b = putUvarint pw b 1 (ucast (cl_FormatVersion l));
          b = putUvarint pw b 2 (cl_Version l);
          b = putUvarint pw b 3 (ucast (cl_PartitionCount l));
          b = putStrings pw b 4 (cl_Members l);
          b = putRepeated pw b 5 (map (marshalLayoutNode pw) (cl_Nodes l));
          b = putRepeated pw b 6 (map (marshalLayoutNode pw) (cl_Previous l))
      in b @ cl_unknown l)"

definition ClusterLayout_field ::
    "protowire \<Rightarrow> dec \<Rightarrow> ClusterLayout \<Rightarrow> (dec \<times> ClusterLayout) option" where
  "ClusterLayout_field pw d l =
     (if d_num d = 1 then fld (dec_uint32 pw d) (\<lambda>v. l\<lparr>cl_FormatVersion := v\<rparr>)
      else if d_num d = 2 then fld (dec_uvarint pw d) (\<lambda>v. l\<lparr>cl_Version := v\<rparr>)
      else if d_num d = 3 then fld (dec_uint32 pw d) (\<lambda>v. l\<lparr>cl_PartitionCount := v\<rparr>)
      else if d_num d = 4 then fld (dec_str pw d) (\<lambda>v. cl_Members_update (\<lambda>ys. ys @ [v]) l)
      else if d_num d = 5
           then sub (dec_bytes pw d) (unmarshalLayoutNode pw) (\<lambda>v. cl_Nodes_update (\<lambda>ys. ys @ [v]) l) l
      else if d_num d = 6
           then sub (dec_bytes pw d) (unmarshalLayoutNode pw) (\<lambda>v. cl_Previous_update (\<lambda>ys. ys @ [v]) l) l
      else fld (dec_skipUnknown pw d) (\<lambda>x. cl_unknown_update (\<lambda>w. w @ x) l))"

definition unmarshalClusterLayout :: "protowire \<Rightarrow> bytes \<Rightarrow> ClusterLayout option option" where
  "unmarshalClusterLayout pw b = dec_msg pw (ClusterLayout_field pw) b ClusterLayout_zero"

definition sized_ClusterLayout :: "protowire \<Rightarrow> ClusterLayout \<Rightarrow> bool" where
  "sized_ClusterLayout pw l \<longleftrightarrow>
     (\<forall>m \<in> set (cl_Members l). go_sized m \<and> m \<noteq> []) \<and>
     (\<forall>p \<in> set (cl_Nodes l). sized_LayoutNode pw p \<and> go_sized (marshalLayoutNode pw p)) \<and>
     (\<forall>p \<in> set (cl_Previous l). sized_LayoutNode pw p \<and> go_sized (marshalLayoutNode pw p)) \<and>
     raw_fields pw {1, 2, 3, 4, 5, 6} (cl_unknown l)"

definition marshalEncryptionPosture :: "protowire \<Rightarrow> EncryptionPosture \<Rightarrow> bytes" where
  "marshalEncryptionPosture pw p =
     (let b = [];
          b = putUvarint pw b 1 (ucast (ep_FormatVersion p));
          b = putUvarint pw b 2 (ucast (ep_Algorithm p));
          b = putUvarint pw b 3 (ep_CurrentKEKFingerprint p);
          b = putUvarint pw b 4 (ep_RotatingToKEKFingerprint p)
      in b @ ep_unknown p)"

definition EncryptionPosture_field ::
    "protowire \<Rightarrow> dec \<Rightarrow> EncryptionPosture \<Rightarrow> (dec \<times> EncryptionPosture) option" where
  "EncryptionPosture_field pw d p =
     (if d_num d = 1 then fld (dec_uint32 pw d) (\<lambda>v. p\<lparr>ep_FormatVersion := v\<rparr>)
      else if d_num d = 2 then fld (dec_enum8 pw d) (\<lambda>v. p\<lparr>ep_Algorithm := v\<rparr>)
      else if d_num d = 3 then fld (dec_uvarint pw d) (\<lambda>v. p\<lparr>ep_CurrentKEKFingerprint := v\<rparr>)
      else if d_num d = 4 then fld (dec_uvarint pw d) (\<lambda>v. p\<lparr>ep_RotatingToKEKFingerprint := v\<rparr>)
      else fld (dec_skipUnknown pw d) (\<lambda>x. ep_unknown_update (\<lambda>w. w @ x) p))"

definition unmarshalEncryptionPosture ::
    "protowire \<Rightarrow> bytes \<Rightarrow> EncryptionPosture option option" where
  "unmarshalEncryptionPosture pw b = dec_msg pw (EncryptionPosture_field pw) b EncryptionPosture_zero"

definition sized_EncryptionPosture :: "protowire \<Rightarrow> EncryptionPosture \<Rightarrow> bool" where
  "sized_EncryptionPosture pw p \<longleftrightarrow>
     raw_fields pw {1, 2, 3, 4} (ep_unknown p)"

definition marshalNodeRecord :: "protowire \<Rightarrow> NodeRecord \<Rightarrow> bytes" where
  "marshalNodeRecord pw n =
     (let b = [];
          b = putUvarint pw b 1 (ucast (nr_FormatVersion n));
          b = putString pw b 2 (nr_NodeID n);
          b = putString pw b 3 (nr_Host n);
          b = putString pw b 4 (nr_Zone n);
          b = putUvarint pw b 5 (ucast (nr_Capacity n));
          b = (if nr_Draining n then putUvarint pw b 6 1 else b);
          b = putString pw b 7 (nr_ReplacedBy n);
          b = putUvarint pw b 8 (nr_LeafCAFingerprint n);
          b = putString pw b 9 (nr_BinaryVersion n);
          b = putUvarint pw b 10 (ucast (nr_Generation n))
      in b @ nr_unknown n)"

definition NodeRecord_field ::
    "protowire \<Rightarrow> dec \<Rightarrow> NodeRecord \<Rightarrow> (dec \<times> NodeRecord) option" where
  "NodeRecord_field pw d n =
     (if d_num d = 1 then fld (dec_uint32 pw d) (\<lambda>v. n\<lparr>nr_FormatVersion := v\<rparr>)
      else if d_num d = 2 then fld (dec_str pw d) (\<lambda>v. n\<lparr>nr_NodeID := v\<rparr>)
      else if d_num d = 3 then fld (dec_str pw d) (\<lambda>v. n\<lparr>nr_Host := v\<rparr>)
      else if d_num d = 4 then fld (dec_str pw d) (\<lambda>v. n\<lparr>nr_Zone := v\<rparr>)
      else if d_num d = 5 then fld (dec_uint32 pw d) (\<lambda>v. n\<lparr>nr_Capacity := v\<rparr>)
      else if d_num d = 6 then fld (dec_bool pw d) (\<lambda>v. n\<lparr>nr_Draining := v\<rparr>)
      else if d_num d = 7 then fld (dec_str pw d) (\<lambda>v. n\<lparr>nr_ReplacedBy := v\<rparr>)
      else if d_num d = 8 then fld (dec_uvarint pw d) (\<lambda>v. n\<lparr>nr_LeafCAFingerprint := v\<rparr>)
      else if d_num d = 9 then fld (dec_str pw d) (\<lambda>v. n\<lparr>nr_BinaryVersion := v\<rparr>)
      else if d_num d = 10 then fld (dec_uint32 pw d) (\<lambda>v. n\<lparr>nr_Generation := v\<rparr>)
      else fld (dec_skipUnknown pw d) (\<lambda>x. nr_unknown_update (\<lambda>w. w @ x) n))"

definition unmarshalNodeRecord :: "protowire \<Rightarrow> bytes \<Rightarrow> NodeRecord option option" where
  "unmarshalNodeRecord pw b = dec_msg pw (NodeRecord_field pw) b NodeRecord_zero"

definition sized_NodeRecord :: "protowire \<Rightarrow> NodeRecord \<Rightarrow> bool" where
  "sized_NodeRecord pw n \<longleftrightarrow>
     go_sized (nr_NodeID n) \<and>
     go_sized (nr_Host n) \<and>
     go_sized (nr_Zone n) \<and>
     go_sized (nr_ReplacedBy n) \<and>
     go_sized (nr_BinaryVersion n) \<and>
     raw_fields pw {1, 2, 3, 4, 5, 6, 7, 8, 9, 10} (nr_unknown n)"

definition marshalTrustedCA :: "protowire \<Rightarrow> TrustedCA \<Rightarrow> bytes" where
  "marshalTrustedCA pw c =
     (let b = [];
          b = putUvarint pw b 1 (ca_Fingerprint c);
          b = putBytes pw b 2 (ca_CertPEM c)
      in b)"

definition TrustedCA_field ::
    "protowire \<Rightarrow> dec \<Rightarrow> TrustedCA \<Rightarrow> (dec \<times> TrustedCA) option" where
  "TrustedCA_field pw d c =
     (if d_num d = 1 then fld (dec_uvarint pw d) (\<lambda>v. c\<lparr>ca_Fingerprint := v\<rparr>)
      else if d_num d = 2 then fld (dec_bytes pw d) (\<lambda>v. c\<lparr>ca_CertPEM := v\<rparr>)
      else fld (dec_skipUnknown pw d) (\<lambda>_. c))"

definition unmarshalTrustedCA :: "protowire \<Rightarrow> bytes \<Rightarrow> TrustedCA option option" where
  "unmarshalTrustedCA pw b = dec_msg pw (TrustedCA_field pw) b TrustedCA_zero"

definition sized_TrustedCA :: "protowire \<Rightarrow> TrustedCA \<Rightarrow> bool" where
  "sized_TrustedCA pw c \<longleftrightarrow>
     go_sized (ca_CertPEM c)"

definition marshalTrustBundle :: "protowire \<Rightarrow> TrustBundle \<Rightarrow> bytes" where
  "marshalTrustBundle pw t =
     (let b = [];
          b = putUvarint pw b 1 (ucast (tb_FormatVersion t));
          b = putUvarint pw b 2 (tb_Version t);
          b = putRepeated pw b 3 (map (marshalTrustedCA pw) (tb_CAs t));
          b = putUvarint pw b 4 (tb_IssuerFingerprint t)
      in b @ tb_unknown t)"

definition TrustBundle_field ::
    "protowire \<Rightarrow> dec \<Rightarrow> TrustBundle \<Rightarrow> (dec \<times> TrustBundle) option" where
  "TrustBundle_field pw d t =
     (if d_num d = 1 then fld (dec_uint32 pw d) (\<lambda>v. t\<lparr>tb_FormatVersion := v\<rparr>)
      else if d_num d = 2 then fld (dec_uvarint pw d) (\<lambda>v. t\<lparr>tb_Version := v\<rparr>)
      else if d_num d = 3
           then sub (dec_bytes pw d) (unmarshalTrustedCA pw) (\<lambda>v. tb_CAs_update (\<lambda>ys. ys @ [v]) t) t
      else if d_num d = 4 then fld (dec_uvarint pw d) (\<lambda>v. t\<lparr>tb_IssuerFingerprint := v\<rparr>)
      else fld (dec_skipUnknown pw d) (\<lambda>x. tb_unknown_update (\<lambda>w. w @ x) t))"

definition unmarshalTrustBundle :: "protowire \<Rightarrow> bytes \<Rightarrow> TrustBundle option option" where
  "unmarshalTrustBundle pw b = dec_msg pw (TrustBundle_field pw) b TrustBundle_zero"

definition sized_TrustBundle :: "protowire \<Rightarrow> TrustBundle \<Rightarrow> bool" where
  "sized_TrustBundle pw t \<longleftrightarrow>
     (\<forall>p \<in> set (tb_CAs t). sized_TrustedCA pw p \<and> go_sized (marshalTrustedCA pw p)) \<and>
     raw_fields pw {1, 2, 3, 4} (tb_unknown t)"

section \<open>Row dispatch\<close>

fun marshalRecord :: "protowire \<Rightarrow> row \<Rightarrow> bytes" where
  "marshalRecord pw (RBucket r) = marshalBucketConfig pw r"
| "marshalRecord pw (RVersion r) = marshalVersionEntry pw r"
| "marshalRecord pw (RCurrent r) = marshalCurrentRecord pw r"
| "marshalRecord pw (RUpload r) = marshalUploadRecord pw r"
| "marshalRecord pw (RPart r) = marshalPartRecord pw r"
| "marshalRecord pw (RLayout r) = marshalClusterLayout pw r"
| "marshalRecord pw (RPosture r) = marshalEncryptionPosture pw r"
| "marshalRecord pw (RTrust r) = marshalTrustBundle pw r"
| "marshalRecord pw (RNode r) = marshalNodeRecord pw r"

text \<open>The result of a decoder, wrapped as a row.\<close>

abbreviation as_row :: "('r \<Rightarrow> row) \<Rightarrow> 'r option option \<Rightarrow> row option option" where
  "as_row c x \<equiv> map_option (map_option c) x"

definition decodeRow :: "protowire \<Rightarrow> gostring \<Rightarrow> bytes \<Rightarrow> row option option" where
  "decodeRow pw key value =
     (if key = clusterLayoutKey then as_row RLayout (unmarshalClusterLayout pw value)
      else if key = encryptionPostureKey then as_row RPosture (unmarshalEncryptionPosture pw value)
      else if key = trustBundleKey then as_row RTrust (unmarshalTrustBundle pw value)
      else if prefix nodeScanPrefix key then as_row RNode (unmarshalNodeRecord pw value)
      else if prefix bucketScanPrefix key then as_row RBucket (unmarshalBucketConfig pw value)
      else if prefix (str ''v/'') key then as_row RVersion (unmarshalVersionEntry pw value)
      else if prefix (str ''c/'') key then as_row RCurrent (unmarshalCurrentRecord pw value)
      else if prefix (str ''u/'') key
      then let rest = drop 2 key
           in case index_byte rest 0 of
                None \<Rightarrow> Some None
              | Some i \<Rightarrow>
                  (case index_byte (drop (i + 1) rest) 0 of
                     None \<Rightarrow> Some None
                   | Some j \<Rightarrow>
                       (let n = length rest - (i + 1 + j + 1)
                        in if n = 16 then as_row RUpload (unmarshalUploadRecord pw value)
                           else if n = 20 then as_row RPart (unmarshalPartRecord pw value)
                           else Some None))
      else Some None)"

fun sized_row :: "protowire \<Rightarrow> row \<Rightarrow> bool" where
  "sized_row pw (RBucket r) = sized_BucketConfig pw r"
| "sized_row pw (RVersion r) = sized_VersionEntry pw r"
| "sized_row pw (RCurrent r) = sized_CurrentRecord pw r"
| "sized_row pw (RUpload r) = sized_UploadRecord pw r"
| "sized_row pw (RPart r) = sized_PartRecord pw r"
| "sized_row pw (RLayout r) = sized_ClusterLayout pw r"
| "sized_row pw (RPosture r) = sized_EncryptionPosture pw r"
| "sized_row pw (RTrust r) = sized_TrustBundle pw r"
| "sized_row pw (RNode r) = sized_NodeRecord pw r"

section \<open>Round trips, termination and unknown fields\<close>

context wire
begin

lemma PartRef_ShardChecksums_list:
  "\<forall>v \<in> set vs. go_sized v \<Longrightarrow> dec_msg pw (PartRef_field pw) (putRepeated pw [] 7 vs @ b) r =
    dec_msg pw (PartRef_field pw) b (pf_ShardChecksums_update (\<lambda>ys. ys @ vs) r)"
  by (rule blob_list_field [where field = "PartRef_field pw" and upd = "pf_ShardChecksums_update"])
     (simp_all add: PartRef_field_def)

lemma PartRef_unknown:
  "raw_fields pw {1, 2, 3, 4, 5, 6, 7, 8, 9, 10} u \<Longrightarrow>
   dec_msg pw (PartRef_field pw) u r = Some (Some (pf_unknown_update (\<lambda>w. w @ u) r))"
  by (rule unknown_end [where field = "PartRef_field pw" and upd = "pf_unknown_update"])
     (auto simp: PartRef_field_def)

lemma PartRef_roundtrip:
  "sized_PartRef pw p \<Longrightarrow> unmarshalPartRef pw (marshalPartRef pw p) = Some (Some p)"
  by (cases p)
       (simp add: sized_PartRef_def marshalPartRef_def unmarshalPartRef_def PartRef_zero_def PartRef_field_def
        fld_def Let_def encode_rules decode_rules PartRef_ShardChecksums_list PartRef_unknown split del:
        if_split)

lemma PartRef_field_good:
  "good_field (PartRef_field pw) (\<lambda>r. raw_fields pw {1, 2, 3, 4, 5, 6, 7, 8, 9, 10} (pf_unknown r))"
  unfolding PartRef_field_def
  by (intro good_fieldI good_intros) (auto intro: raw_fields_append skipUnknown_raw)

lemma PartRef_returns: "unmarshalPartRef pw b \<noteq> None"
  using dec_msg_returns [OF PartRef_field_good, where r = "PartRef_zero" and b = b]
  by (auto simp: unmarshalPartRef_def PartRef_zero_def raw_nil)

lemma PartRef_keeps_unknown:
  "unmarshalPartRef pw b = Some (Some r) \<Longrightarrow>
     raw_fields pw {1, 2, 3, 4, 5, 6, 7, 8, 9, 10} (pf_unknown r)"
  using dec_msg_returns [OF PartRef_field_good, where r = "PartRef_zero" and b = b]
  by (auto simp: unmarshalPartRef_def PartRef_zero_def raw_nil)

lemma VersionEntry_UserMetadata_list:
  "sized_map pw m \<Longrightarrow> dec_msg pw (VersionEntry_field pw) (putMap pw [] 8 m @ b) r =
    dec_msg pw (VersionEntry_field pw) b (ve_UserMetadata_update (\<lambda>m0. m0 ++\<^sub>f m) r)"
  by (rule map_field [where field = "VersionEntry_field pw" and upd = "ve_UserMetadata_update"])
     (simp_all add: VersionEntry_field_def)

lemma VersionEntry_ShardChecksums_list:
  "\<forall>v \<in> set vs. go_sized v \<Longrightarrow> dec_msg pw (VersionEntry_field pw) (putRepeated pw [] 13 vs @ b) r =
    dec_msg pw (VersionEntry_field pw) b (ve_ShardChecksums_update (\<lambda>ys. ys @ vs) r)"
  by (rule blob_list_field [where field = "VersionEntry_field pw" and upd = "ve_ShardChecksums_update"])
     (simp_all add: VersionEntry_field_def)

lemma VersionEntry_Parts_list:
  "\<forall>p \<in> set ps. sized_PartRef pw p \<and> go_sized (marshalPartRef pw p) \<Longrightarrow>
   dec_msg pw (VersionEntry_field pw) (putRepeated pw [] 19 (map (marshalPartRef pw) ps) @ b) r =
    dec_msg pw (VersionEntry_field pw) b (ve_Parts_update (\<lambda>ys. ys @ ps) r)"
  by (rule message_list_field [where field = "VersionEntry_field pw" and upd = "ve_Parts_update"
      and um = "unmarshalPartRef pw"])
     (simp_all add: VersionEntry_field_def PartRef_roundtrip)

lemma VersionEntry_unknown:
  "raw_fields pw {1, 2, 3, 4, 5, 6, 7, 8, 9, 10, 11, 12, 13, 14, 15, 16, 17, 18, 19, 20, 21, 22} u \<Longrightarrow>
   dec_msg pw (VersionEntry_field pw) u r = Some (Some (ve_unknown_update (\<lambda>w. w @ u) r))"
  by (rule unknown_end [where field = "VersionEntry_field pw" and upd = "ve_unknown_update"])
     (auto simp: VersionEntry_field_def)

lemma VersionEntry_roundtrip:
  "sized_VersionEntry pw e \<Longrightarrow> unmarshalVersionEntry pw (marshalVersionEntry pw e) = Some (Some e)"
  by (cases e)
       (simp add: sized_VersionEntry_def marshalVersionEntry_def unmarshalVersionEntry_def
        VersionEntry_zero_def VersionEntry_field_def fld_def Let_def encode_rules decode_rules
        VersionEntry_UserMetadata_list VersionEntry_ShardChecksums_list VersionEntry_Parts_list
        VersionEntry_unknown split del: if_split)

lemma VersionEntry_field_good:
  "good_field (VersionEntry_field pw) (\<lambda>r.
     raw_fields pw {1, 2, 3, 4, 5, 6, 7, 8, 9, 10, 11, 12, 13, 14, 15, 16, 17, 18, 19, 20, 21, 22} (ve_unknown r))"
  unfolding VersionEntry_field_def
  by (intro good_fieldI good_intros) (auto simp: mapEntry_returns PartRef_returns intro: raw_fields_append skipUnknown_raw)

lemma VersionEntry_returns: "unmarshalVersionEntry pw b \<noteq> None"
  using dec_msg_returns [OF VersionEntry_field_good, where r = "VersionEntry_zero" and b = b]
  by (auto simp: unmarshalVersionEntry_def VersionEntry_zero_def raw_nil)

lemma VersionEntry_keeps_unknown:
  "unmarshalVersionEntry pw b = Some (Some r) \<Longrightarrow>
     raw_fields pw {1, 2, 3, 4, 5, 6, 7, 8, 9, 10, 11, 12, 13, 14, 15, 16, 17, 18, 19, 20, 21, 22} (ve_unknown r)"
  using dec_msg_returns [OF VersionEntry_field_good, where r = "VersionEntry_zero" and b = b]
  by (auto simp: unmarshalVersionEntry_def VersionEntry_zero_def raw_nil)

lemma BucketConfig_unknown:
  "raw_fields pw {1, 2, 3, 4, 5, 6, 7, 8} u \<Longrightarrow>
   dec_msg pw (BucketConfig_field pw) u r = Some (Some (bc_unknown_update (\<lambda>w. w @ u) r))"
  by (rule unknown_end [where field = "BucketConfig_field pw" and upd = "bc_unknown_update"])
     (auto simp: BucketConfig_field_def)

lemma BucketConfig_roundtrip:
  "sized_BucketConfig pw c \<Longrightarrow> unmarshalBucketConfig pw (marshalBucketConfig pw c) = Some (Some c)"
  by (cases c)
       (simp add: sized_BucketConfig_def marshalBucketConfig_def unmarshalBucketConfig_def
        BucketConfig_zero_def BucketConfig_field_def fld_def Let_def encode_rules decode_rules
        BucketConfig_unknown split del: if_split)

lemma BucketConfig_field_good:
  "good_field (BucketConfig_field pw) (\<lambda>r. raw_fields pw {1, 2, 3, 4, 5, 6, 7, 8} (bc_unknown r))"
  unfolding BucketConfig_field_def
  by (intro good_fieldI good_intros) (auto intro: raw_fields_append skipUnknown_raw)

lemma BucketConfig_returns: "unmarshalBucketConfig pw b \<noteq> None"
  using dec_msg_returns [OF BucketConfig_field_good, where r = "BucketConfig_zero" and b = b]
  by (auto simp: unmarshalBucketConfig_def BucketConfig_zero_def raw_nil)

lemma BucketConfig_keeps_unknown:
  "unmarshalBucketConfig pw b = Some (Some r) \<Longrightarrow> raw_fields pw {1, 2, 3, 4, 5, 6, 7, 8} (bc_unknown r)"
  using dec_msg_returns [OF BucketConfig_field_good, where r = "BucketConfig_zero" and b = b]
  by (auto simp: unmarshalBucketConfig_def BucketConfig_zero_def raw_nil)

lemma CurrentRecord_unknown:
  "raw_fields pw {1, 2, 3, 4, 5, 6} u \<Longrightarrow>
   dec_msg pw (CurrentRecord_field pw) u r = Some (Some (cr_unknown_update (\<lambda>w. w @ u) r))"
  by (rule unknown_end [where field = "CurrentRecord_field pw" and upd = "cr_unknown_update"])
     (auto simp: CurrentRecord_field_def)

lemma CurrentRecord_roundtrip:
  "sized_CurrentRecord pw c \<Longrightarrow> unmarshalCurrentRecord pw (marshalCurrentRecord pw c) = Some (Some c)"
  by (cases c)
       (simp add: sized_CurrentRecord_def marshalCurrentRecord_def unmarshalCurrentRecord_def
        CurrentRecord_zero_def CurrentRecord_field_def fld_def Let_def encode_rules decode_rules
        CurrentRecord_unknown split del: if_split)

lemma CurrentRecord_field_good:
  "good_field (CurrentRecord_field pw) (\<lambda>r. raw_fields pw {1, 2, 3, 4, 5, 6} (cr_unknown r))"
  unfolding CurrentRecord_field_def
  by (intro good_fieldI good_intros) (auto intro: raw_fields_append skipUnknown_raw)

lemma CurrentRecord_returns: "unmarshalCurrentRecord pw b \<noteq> None"
  using dec_msg_returns [OF CurrentRecord_field_good, where r = "CurrentRecord_zero" and b = b]
  by (auto simp: unmarshalCurrentRecord_def CurrentRecord_zero_def raw_nil)

lemma CurrentRecord_keeps_unknown:
  "unmarshalCurrentRecord pw b = Some (Some r) \<Longrightarrow> raw_fields pw {1, 2, 3, 4, 5, 6} (cr_unknown r)"
  using dec_msg_returns [OF CurrentRecord_field_good, where r = "CurrentRecord_zero" and b = b]
  by (auto simp: unmarshalCurrentRecord_def CurrentRecord_zero_def raw_nil)

lemma UploadRecord_UserMetadata_list:
  "sized_map pw m \<Longrightarrow> dec_msg pw (UploadRecord_field pw) (putMap pw [] 5 m @ b) r =
    dec_msg pw (UploadRecord_field pw) b (ur_UserMetadata_update (\<lambda>m0. m0 ++\<^sub>f m) r)"
  by (rule map_field [where field = "UploadRecord_field pw" and upd = "ur_UserMetadata_update"])
     (simp_all add: UploadRecord_field_def)

lemma UploadRecord_unknown:
  "raw_fields pw {1, 2, 3, 4, 5} u \<Longrightarrow>
   dec_msg pw (UploadRecord_field pw) u r = Some (Some (ur_unknown_update (\<lambda>w. w @ u) r))"
  by (rule unknown_end [where field = "UploadRecord_field pw" and upd = "ur_unknown_update"])
     (auto simp: UploadRecord_field_def)

lemma UploadRecord_roundtrip:
  "sized_UploadRecord pw u \<Longrightarrow> unmarshalUploadRecord pw (marshalUploadRecord pw u) = Some (Some u)"
  by (cases u)
       (simp add: sized_UploadRecord_def marshalUploadRecord_def unmarshalUploadRecord_def
        UploadRecord_zero_def UploadRecord_field_def fld_def Let_def encode_rules decode_rules
        UploadRecord_UserMetadata_list UploadRecord_unknown split del: if_split)

lemma UploadRecord_field_good:
  "good_field (UploadRecord_field pw) (\<lambda>r. raw_fields pw {1, 2, 3, 4, 5} (ur_unknown r))"
  unfolding UploadRecord_field_def
  by (intro good_fieldI good_intros) (auto simp: mapEntry_returns intro: raw_fields_append skipUnknown_raw)

lemma UploadRecord_returns: "unmarshalUploadRecord pw b \<noteq> None"
  using dec_msg_returns [OF UploadRecord_field_good, where r = "UploadRecord_zero" and b = b]
  by (auto simp: unmarshalUploadRecord_def UploadRecord_zero_def raw_nil)

lemma UploadRecord_keeps_unknown:
  "unmarshalUploadRecord pw b = Some (Some r) \<Longrightarrow> raw_fields pw {1, 2, 3, 4, 5} (ur_unknown r)"
  using dec_msg_returns [OF UploadRecord_field_good, where r = "UploadRecord_zero" and b = b]
  by (auto simp: unmarshalUploadRecord_def UploadRecord_zero_def raw_nil)

lemma PartRecord_ShardChecksums_list:
  "\<forall>v \<in> set vs. go_sized v \<Longrightarrow> dec_msg pw (PartRecord_field pw) (putRepeated pw [] 11 vs @ b) r =
    dec_msg pw (PartRecord_field pw) b (pr_ShardChecksums_update (\<lambda>ys. ys @ vs) r)"
  by (rule blob_list_field [where field = "PartRecord_field pw" and upd = "pr_ShardChecksums_update"])
     (simp_all add: PartRecord_field_def)

lemma PartRecord_unknown:
  "raw_fields pw {1, 2, 3, 4, 5, 6, 7, 8, 9, 10, 11, 12, 13, 14} u \<Longrightarrow>
   dec_msg pw (PartRecord_field pw) u r = Some (Some (pr_unknown_update (\<lambda>w. w @ u) r))"
  by (rule unknown_end [where field = "PartRecord_field pw" and upd = "pr_unknown_update"])
     (auto simp: PartRecord_field_def)

lemma PartRecord_roundtrip:
  "sized_PartRecord pw p \<Longrightarrow> unmarshalPartRecord pw (marshalPartRecord pw p) = Some (Some p)"
  by (cases p)
       (simp add: sized_PartRecord_def marshalPartRecord_def unmarshalPartRecord_def PartRecord_zero_def
        PartRecord_field_def fld_def Let_def encode_rules decode_rules PartRecord_ShardChecksums_list
        PartRecord_unknown split del: if_split)

lemma PartRecord_field_good:
  "good_field (PartRecord_field pw) (\<lambda>r.
     raw_fields pw {1, 2, 3, 4, 5, 6, 7, 8, 9, 10, 11, 12, 13, 14} (pr_unknown r))"
  unfolding PartRecord_field_def
  by (intro good_fieldI good_intros) (auto intro: raw_fields_append skipUnknown_raw)

lemma PartRecord_returns: "unmarshalPartRecord pw b \<noteq> None"
  using dec_msg_returns [OF PartRecord_field_good, where r = "PartRecord_zero" and b = b]
  by (auto simp: unmarshalPartRecord_def PartRecord_zero_def raw_nil)

lemma PartRecord_keeps_unknown:
  "unmarshalPartRecord pw b = Some (Some r) \<Longrightarrow>
     raw_fields pw {1, 2, 3, 4, 5, 6, 7, 8, 9, 10, 11, 12, 13, 14} (pr_unknown r)"
  using dec_msg_returns [OF PartRecord_field_good, where r = "PartRecord_zero" and b = b]
  by (auto simp: unmarshalPartRecord_def PartRecord_zero_def raw_nil)

lemma LayoutNode_roundtrip:
  "sized_LayoutNode pw n \<Longrightarrow> unmarshalLayoutNode pw (marshalLayoutNode pw n) = Some (Some n)"
  unfolding marshalLayoutNode_def Let_def if_uvarint
  by (cases n)
       (simp add: sized_LayoutNode_def marshalLayoutNode_def unmarshalLayoutNode_def LayoutNode_zero_def
        LayoutNode_field_def fld_def Let_def encode_rules decode_rules split del: if_split)

lemma LayoutNode_field_good: "good_field (LayoutNode_field pw) (\<lambda>_. True)"
  unfolding LayoutNode_field_def by (intro good_fieldI good_intros TrueI)

lemma LayoutNode_returns: "unmarshalLayoutNode pw b \<noteq> None"
  using dec_msg_returns [OF LayoutNode_field_good, where r = "LayoutNode_zero" and b = b]
  by (auto simp: unmarshalLayoutNode_def LayoutNode_zero_def)

lemma ClusterLayout_Members_list:
  "\<forall>v \<in> set vs. go_sized v \<and> v \<noteq> [] \<Longrightarrow>
   dec_msg pw (ClusterLayout_field pw) (putStrings pw [] 4 vs @ b) r =
    dec_msg pw (ClusterLayout_field pw) b (cl_Members_update (\<lambda>ys. ys @ vs) r)"
  by (rule string_list_field [where field = "ClusterLayout_field pw" and upd = "cl_Members_update"])
     (simp_all add: ClusterLayout_field_def)

lemma ClusterLayout_Nodes_list:
  "\<forall>p \<in> set ps. sized_LayoutNode pw p \<and> go_sized (marshalLayoutNode pw p) \<Longrightarrow>
   dec_msg pw (ClusterLayout_field pw) (putRepeated pw [] 5 (map (marshalLayoutNode pw) ps) @ b) r =
    dec_msg pw (ClusterLayout_field pw) b (cl_Nodes_update (\<lambda>ys. ys @ ps) r)"
  by (rule message_list_field [where field = "ClusterLayout_field pw" and upd = "cl_Nodes_update"
      and um = "unmarshalLayoutNode pw"])
     (simp_all add: ClusterLayout_field_def LayoutNode_roundtrip)

lemma ClusterLayout_Previous_list:
  "\<forall>p \<in> set ps. sized_LayoutNode pw p \<and> go_sized (marshalLayoutNode pw p) \<Longrightarrow>
   dec_msg pw (ClusterLayout_field pw) (putRepeated pw [] 6 (map (marshalLayoutNode pw) ps) @ b) r =
    dec_msg pw (ClusterLayout_field pw) b (cl_Previous_update (\<lambda>ys. ys @ ps) r)"
  by (rule message_list_field [where field = "ClusterLayout_field pw" and upd = "cl_Previous_update"
      and um = "unmarshalLayoutNode pw"])
     (simp_all add: ClusterLayout_field_def LayoutNode_roundtrip)

lemma ClusterLayout_unknown:
  "raw_fields pw {1, 2, 3, 4, 5, 6} u \<Longrightarrow>
   dec_msg pw (ClusterLayout_field pw) u r = Some (Some (cl_unknown_update (\<lambda>w. w @ u) r))"
  by (rule unknown_end [where field = "ClusterLayout_field pw" and upd = "cl_unknown_update"])
     (auto simp: ClusterLayout_field_def)

lemma ClusterLayout_roundtrip:
  "sized_ClusterLayout pw l \<Longrightarrow> unmarshalClusterLayout pw (marshalClusterLayout pw l) = Some (Some l)"
  by (cases l)
       (simp add: sized_ClusterLayout_def marshalClusterLayout_def unmarshalClusterLayout_def
        ClusterLayout_zero_def ClusterLayout_field_def fld_def Let_def encode_rules decode_rules
        ClusterLayout_Members_list ClusterLayout_Nodes_list ClusterLayout_Previous_list ClusterLayout_unknown
        split del: if_split)

lemma ClusterLayout_field_good:
  "good_field (ClusterLayout_field pw) (\<lambda>r. raw_fields pw {1, 2, 3, 4, 5, 6} (cl_unknown r))"
  unfolding ClusterLayout_field_def
  by (intro good_fieldI good_intros) (auto simp: LayoutNode_returns intro: raw_fields_append skipUnknown_raw)

lemma ClusterLayout_returns: "unmarshalClusterLayout pw b \<noteq> None"
  using dec_msg_returns [OF ClusterLayout_field_good, where r = "ClusterLayout_zero" and b = b]
  by (auto simp: unmarshalClusterLayout_def ClusterLayout_zero_def raw_nil)

lemma ClusterLayout_keeps_unknown:
  "unmarshalClusterLayout pw b = Some (Some r) \<Longrightarrow> raw_fields pw {1, 2, 3, 4, 5, 6} (cl_unknown r)"
  using dec_msg_returns [OF ClusterLayout_field_good, where r = "ClusterLayout_zero" and b = b]
  by (auto simp: unmarshalClusterLayout_def ClusterLayout_zero_def raw_nil)

lemma EncryptionPosture_unknown:
  "raw_fields pw {1, 2, 3, 4} u \<Longrightarrow>
   dec_msg pw (EncryptionPosture_field pw) u r = Some (Some (ep_unknown_update (\<lambda>w. w @ u) r))"
  by (rule unknown_end [where field = "EncryptionPosture_field pw" and upd = "ep_unknown_update"])
     (auto simp: EncryptionPosture_field_def)

lemma EncryptionPosture_roundtrip:
  "sized_EncryptionPosture pw p \<Longrightarrow> unmarshalEncryptionPosture pw (marshalEncryptionPosture pw p) = Some (Some p)"
  by (cases p)
       (simp add: sized_EncryptionPosture_def marshalEncryptionPosture_def unmarshalEncryptionPosture_def
        EncryptionPosture_zero_def EncryptionPosture_field_def fld_def Let_def encode_rules decode_rules
        EncryptionPosture_unknown split del: if_split)

lemma EncryptionPosture_field_good:
  "good_field (EncryptionPosture_field pw) (\<lambda>r. raw_fields pw {1, 2, 3, 4} (ep_unknown r))"
  unfolding EncryptionPosture_field_def
  by (intro good_fieldI good_intros) (auto intro: raw_fields_append skipUnknown_raw)

lemma EncryptionPosture_returns: "unmarshalEncryptionPosture pw b \<noteq> None"
  using dec_msg_returns [OF EncryptionPosture_field_good, where r = "EncryptionPosture_zero" and b = b]
  by (auto simp: unmarshalEncryptionPosture_def EncryptionPosture_zero_def raw_nil)

lemma EncryptionPosture_keeps_unknown:
  "unmarshalEncryptionPosture pw b = Some (Some r) \<Longrightarrow> raw_fields pw {1, 2, 3, 4} (ep_unknown r)"
  using dec_msg_returns [OF EncryptionPosture_field_good, where r = "EncryptionPosture_zero" and b = b]
  by (auto simp: unmarshalEncryptionPosture_def EncryptionPosture_zero_def raw_nil)

lemma NodeRecord_unknown:
  "raw_fields pw {1, 2, 3, 4, 5, 6, 7, 8, 9, 10} u \<Longrightarrow>
   dec_msg pw (NodeRecord_field pw) u r = Some (Some (nr_unknown_update (\<lambda>w. w @ u) r))"
  by (rule unknown_end [where field = "NodeRecord_field pw" and upd = "nr_unknown_update"])
     (auto simp: NodeRecord_field_def)

lemma NodeRecord_roundtrip:
  "sized_NodeRecord pw n \<Longrightarrow> unmarshalNodeRecord pw (marshalNodeRecord pw n) = Some (Some n)"
  unfolding marshalNodeRecord_def Let_def if_uvarint
  by (cases n)
       (simp add: sized_NodeRecord_def marshalNodeRecord_def unmarshalNodeRecord_def NodeRecord_zero_def
        NodeRecord_field_def fld_def Let_def encode_rules decode_rules NodeRecord_unknown split del: if_split)

lemma NodeRecord_field_good:
  "good_field (NodeRecord_field pw) (\<lambda>r. raw_fields pw {1, 2, 3, 4, 5, 6, 7, 8, 9, 10} (nr_unknown r))"
  unfolding NodeRecord_field_def
  by (intro good_fieldI good_intros) (auto intro: raw_fields_append skipUnknown_raw)

lemma NodeRecord_returns: "unmarshalNodeRecord pw b \<noteq> None"
  using dec_msg_returns [OF NodeRecord_field_good, where r = "NodeRecord_zero" and b = b]
  by (auto simp: unmarshalNodeRecord_def NodeRecord_zero_def raw_nil)

lemma NodeRecord_keeps_unknown:
  "unmarshalNodeRecord pw b = Some (Some r) \<Longrightarrow>
     raw_fields pw {1, 2, 3, 4, 5, 6, 7, 8, 9, 10} (nr_unknown r)"
  using dec_msg_returns [OF NodeRecord_field_good, where r = "NodeRecord_zero" and b = b]
  by (auto simp: unmarshalNodeRecord_def NodeRecord_zero_def raw_nil)

lemma TrustedCA_roundtrip:
  "sized_TrustedCA pw c \<Longrightarrow> unmarshalTrustedCA pw (marshalTrustedCA pw c) = Some (Some c)"
  by (cases c)
       (simp add: sized_TrustedCA_def marshalTrustedCA_def unmarshalTrustedCA_def TrustedCA_zero_def
        TrustedCA_field_def fld_def Let_def encode_rules decode_rules split del: if_split)

lemma TrustedCA_field_good: "good_field (TrustedCA_field pw) (\<lambda>_. True)"
  unfolding TrustedCA_field_def by (intro good_fieldI good_intros TrueI)

lemma TrustedCA_returns: "unmarshalTrustedCA pw b \<noteq> None"
  using dec_msg_returns [OF TrustedCA_field_good, where r = "TrustedCA_zero" and b = b]
  by (auto simp: unmarshalTrustedCA_def TrustedCA_zero_def)

lemma TrustBundle_CAs_list:
  "\<forall>p \<in> set ps. sized_TrustedCA pw p \<and> go_sized (marshalTrustedCA pw p) \<Longrightarrow>
   dec_msg pw (TrustBundle_field pw) (putRepeated pw [] 3 (map (marshalTrustedCA pw) ps) @ b) r =
    dec_msg pw (TrustBundle_field pw) b (tb_CAs_update (\<lambda>ys. ys @ ps) r)"
  by (rule message_list_field [where field = "TrustBundle_field pw" and upd = "tb_CAs_update"
      and um = "unmarshalTrustedCA pw"])
     (simp_all add: TrustBundle_field_def TrustedCA_roundtrip)

lemma TrustBundle_unknown:
  "raw_fields pw {1, 2, 3, 4} u \<Longrightarrow>
   dec_msg pw (TrustBundle_field pw) u r = Some (Some (tb_unknown_update (\<lambda>w. w @ u) r))"
  by (rule unknown_end [where field = "TrustBundle_field pw" and upd = "tb_unknown_update"])
     (auto simp: TrustBundle_field_def)

lemma TrustBundle_roundtrip:
  "sized_TrustBundle pw t \<Longrightarrow> unmarshalTrustBundle pw (marshalTrustBundle pw t) = Some (Some t)"
  by (cases t)
       (simp add: sized_TrustBundle_def marshalTrustBundle_def unmarshalTrustBundle_def TrustBundle_zero_def
        TrustBundle_field_def fld_def Let_def encode_rules decode_rules TrustBundle_CAs_list
        TrustBundle_unknown split del: if_split)

lemma TrustBundle_field_good:
  "good_field (TrustBundle_field pw) (\<lambda>r. raw_fields pw {1, 2, 3, 4} (tb_unknown r))"
  unfolding TrustBundle_field_def
  by (intro good_fieldI good_intros) (auto simp: TrustedCA_returns intro: raw_fields_append skipUnknown_raw)

lemma TrustBundle_returns: "unmarshalTrustBundle pw b \<noteq> None"
  using dec_msg_returns [OF TrustBundle_field_good, where r = "TrustBundle_zero" and b = b]
  by (auto simp: unmarshalTrustBundle_def TrustBundle_zero_def raw_nil)

lemma TrustBundle_keeps_unknown:
  "unmarshalTrustBundle pw b = Some (Some r) \<Longrightarrow> raw_fields pw {1, 2, 3, 4} (tb_unknown r)"
  using dec_msg_returns [OF TrustBundle_field_good, where r = "TrustBundle_zero" and b = b]
  by (auto simp: unmarshalTrustBundle_def TrustBundle_zero_def raw_nil)

lemmas record_roundtrips =
  BucketConfig_roundtrip VersionEntry_roundtrip CurrentRecord_roundtrip UploadRecord_roundtrip
  PartRecord_roundtrip ClusterLayout_roundtrip EncryptionPosture_roundtrip TrustBundle_roundtrip
  NodeRecord_roundtrip

lemmas record_returns =
  BucketConfig_returns VersionEntry_returns CurrentRecord_returns UploadRecord_returns PartRecord_returns
  ClusterLayout_returns EncryptionPosture_returns TrustBundle_returns NodeRecord_returns

section \<open>Rows\<close>

lemma decodeRow_returns: "decodeRow pw key value \<noteq> None"
  by (simp add: decodeRow_def record_returns Let_def del: not_None_eq split: option.split)

text \<open>The key of a well-typed row selects the decoder of its record type.\<close>

lemma decodeRow_marshalRecord:
  assumes "wf_row k r" and "sized_row pw r"
  shows "decodeRow pw k (marshalRecord pw r) = Some (Some r)"
  using assms
proof (cases r)
  case (RUpload u)
  with assms obtain b q where k: "k = uploadRowKey b q (ur_UploadID u)" and "nul_free b" "nul_free q" by auto
  then show ?thesis
    using RUpload assms
    by (simp add: decodeRow_def row_key_defs bucketScanPrefix_def nul_def Let_def index_byte_append nul_free_def
        record_roundtrips)
next
  case (RPart p)
  with assms obtain b q v where k: "k = partRowKey b q v (pr_PartNumber p)" and "nul_free b" "nul_free q" by auto
  then show ?thesis
    using RPart assms
    by (simp add: decodeRow_def row_key_defs bucketScanPrefix_def nul_def Let_def index_byte_append nul_free_def
        record_roundtrips)
qed (auto simp: decodeRow_def row_key_defs bucketScanPrefix_def record_roundtrips)

end

end
