(* ===== verification/Meta_Persist.thy ===== *)
theory Meta_Persist
  imports Meta_Codec Meta_Txn
begin

text \<open>
  The store with its transactions and its persistence (\<^verbatim>\<open>internal/meta/persist.go\<close>, the store of
  \<^verbatim>\<open>internal/meta/meta.go\<close> and the entry point of \<^verbatim>\<open>internal/meta/dispatch.go\<close>).

  A nil value of a row is the empty byte string: the encoders build from a nil slice, so an
  encoding is nil exactly when it is empty. A \<^verbatim>\<open>Persister\<close> is its state and the function
  \<open>commit\<close>, a parameter of the model that returns the new state and whether it succeeded. The
  locale \<open>persister\<close> states the contract of the interface: a commit that succeeds makes every
  row durable, one that fails makes none durable. Under it, memory and durable storage agree
  after every apply, and restoring the durable rows gives the store back.

  Go runs the deferred function of \<^verbatim>\<open>txn\<close> with a nil error when the body panics; the model
  treats \<open>Panic\<close> as an error, and no apply function panics on a store that satisfies the
  store invariant.
\<close>

section \<open>Rows, stores and transactions\<close>

record Row =
  row_Key :: gostring
  row_Value :: bytes

record 'p Store =
  s_kv :: kv
  s_persist :: "'p option"

definition NewStore :: "'p Store" where
  "NewStore = \<lparr>s_kv = newTxKV, s_persist = None\<rparr>"

definition SetPersister :: "'p Store \<Rightarrow> 'p \<Rightarrow> 'p Store" where
  "SetPersister s p = s\<lparr>s_persist := Some p\<rparr>"

text \<open>
  \<open>None\<close>: the decoder does not return; \<open>Some None\<close>: the restore error; \<open>memKV.set\<close> bypasses the
  transaction log.
\<close>

definition Restore :: "protowire \<Rightarrow> 'p Store \<Rightarrow> gostring \<Rightarrow> bytes \<Rightarrow> 'p Store option option" where
  "Restore pw s key value =
     (case decodeRow pw key value of
        None \<Rightarrow> None
      | Some None \<Rightarrow> Some None
      | Some (Some rec) \<Rightarrow>
          Some (Some (s\<lparr>s_kv := (s_kv s)\<lparr>tx_mem := memKV_set (tx_mem (s_kv s)) key rec\<rparr>\<rparr>)))"

text \<open>\<open>None\<close> is the panic of \<^verbatim>\<open>marshalRecord\<close> on a nil value.\<close>

definition Dump :: "protowire \<Rightarrow> 'p Store \<Rightarrow> Row list option" where
  "Dump pw s =
     tx_scan (s_kv s) []
       (\<lambda>k v rows.
          case v of
            Some r \<Rightarrow> (map_option (\<lambda>rs. rs @ [\<lparr>row_Key = k, row_Value = marshalRecord pw r\<rparr>]) rows, True)
          | None \<Rightarrow> (None, False))
       (Some [])"

text \<open>One row of the changeset: a key that is gone after the transaction has no value.\<close>

definition dirty_row :: "protowire \<Rightarrow> kv \<Rightarrow> gostring \<Rightarrow> Row" where
  "dirty_row pw t k =
     \<lparr>row_Key = k, row_Value = (case tx_get t k of Some v \<Rightarrow> marshalRecord pw v | None \<Rightarrow> [])\<rparr>"

definition changeset :: "protowire \<Rightarrow> kv \<Rightarrow> Row list" where
  "changeset pw t = map (dirty_row pw t) (tx_dirtyKeys t)"

definition Store_txn ::
    "protowire \<Rightarrow> ('p \<Rightarrow> Row list \<Rightarrow> 'p \<times> bool) \<Rightarrow> (kv \<Rightarrow> kv \<times> 'a res) \<Rightarrow> 'p Store \<Rightarrow> 'p Store \<times> 'a res" where
  "Store_txn pw commit body s =
     (let (t, r) = body (tx_reset (s_kv s))
      in case r of
           Inl e \<Rightarrow> (s\<lparr>s_kv := tx_rollback t\<rparr>, Inl e)
         | Inr x \<Rightarrow>
             (case s_persist s of
                None \<Rightarrow> (s\<lparr>s_kv := t\<rparr>, Inr x)
              | Some p \<Rightarrow>
                  if length (tx_dirtyKeys t) = 0 then (s\<lparr>s_kv := t\<rparr>, Inr x)
                  else let (p', ok) = commit p (changeset pw t)
                       in if ok then (s\<lparr>s_kv := t, s_persist := Some p'\<rparr>, Inr x)
                          else (s\<lparr>s_kv := tx_rollback t, s_persist := Some p'\<rparr>, Inl ErrPersist)))"

definition Apply ::
    "protowire \<Rightarrow> ('p \<Rightarrow> Row list \<Rightarrow> 'p \<times> bool) \<Rightarrow> proposal \<Rightarrow> 'p Store \<Rightarrow> 'p Store \<times> apply_result res" where
  "Apply pw commit p s = Store_txn pw commit (Apply_body p) s"

section \<open>An apply is all or nothing\<close>

lemma Apply_eq:
  assumes "Apply_body p (tx_reset (s_kv s)) = (t, r)"
  shows "Apply pw commit p s =
    (case r of
       Inl e \<Rightarrow> (s\<lparr>s_kv := tx_rollback t\<rparr>, Inl e)
     | Inr x \<Rightarrow>
         (case s_persist s of
            None \<Rightarrow> (s\<lparr>s_kv := t\<rparr>, Inr x)
          | Some d \<Rightarrow>
              if tx_dirtyKeys t = [] then (s\<lparr>s_kv := t\<rparr>, Inr x)
              else if snd (commit d (changeset pw t))
              then (s\<lparr>s_kv := t, s_persist := Some (fst (commit d (changeset pw t)))\<rparr>, Inr x)
              else (s\<lparr>s_kv := tx_rollback t, s_persist := Some (fst (commit d (changeset pw t)))\<rparr>, Inl ErrPersist)))"
  by (simp add: Apply_def Store_txn_def assms Let_def case_prod_beta split: sum.split option.split)

lemma Apply_error:
  assumes "tx_inv (s_kv s)" and "snd (Apply pw commit p s) = Inl e"
  shows "tx_mem (s_kv (fst (Apply pw commit p s))) = tx_mem (s_kv s)"
proof -
  obtain t r where b: "Apply_body p (tx_reset (s_kv s)) = (t, r)" by fastforce
  have "undoes (tx_mem (s_kv s)) t"
    using undo.Apply_body_closed [OF undoes_reset [OF assms(1)], of p] by (simp add: b)
  then show ?thesis
    using assms(2) undoes_rollback
    by (auto simp: Apply_eq [OF b] split: sum.splits option.splits if_splits)
qed

lemma Apply_ok:
  assumes "snd (Apply pw commit p s) = Inr x"
  shows "\<exists>t. Apply_body p (tx_reset (s_kv s)) = (t, Inr x) \<and> s_kv (fst (Apply pw commit p s)) = t"
proof -
  obtain t r where b: "Apply_body p (tx_reset (s_kv s)) = (t, r)" by fastforce
  then show ?thesis
    using assms by (auto simp: Apply_eq [OF b] split: sum.splits option.splits if_splits)
qed

lemma tx_inv_reset [simp]: "tx_inv (tx_reset t) = tx_inv t"
  by simp

lemma Apply_inv: "tx_inv (s_kv s) \<Longrightarrow> tx_inv (s_kv (fst (Apply pw commit p s)))"
proof (cases "snd (Apply pw commit p s)")
  case (Inl e)
  then show "tx_inv (s_kv s) \<Longrightarrow> ?thesis" using Apply_error [of s pw commit p e] by simp
next
  case (Inr x)
  then show "tx_inv (s_kv s) \<Longrightarrow> ?thesis"
    using Apply_ok [OF Inr] rep.Apply_body_closed [of "tx_reset (s_kv s)" p] by auto
qed

lemma Apply_formatted:
  assumes "tx_inv (s_kv s)" and "formatted (s_kv s)"
  shows "formatted (s_kv (fst (Apply pw commit p s)))"
proof (cases "snd (Apply pw commit p s)")
  case (Inl e)
  then show ?thesis using Apply_error [OF assms(1) Inl] assms(2) by (simp add: formatted_def tx_get_eq)
next
  case (Inr x)
  have "formatted (tx_reset (s_kv s))" using assms(2) by (simp add: formatted_def)
  then show ?thesis using Apply_ok [OF Inr] fmt.Apply_body_closed [of "tx_reset (s_kv s)" p] by auto
qed

section \<open>The changeset names every row that changed\<close>

definition tracks :: "(gostring \<rightharpoonup> row) \<Rightarrow> kv \<Rightarrow> bool" where
  "tracks m t \<longleftrightarrow> tx_dirty t = set (tx_dirtyKeys t) \<and>
     (\<forall>k. k \<notin> set (tx_dirtyKeys t) \<longrightarrow> tx_get t k = m k)"

lemma tracks_reset [simp]: "tracks (tx_get t) (tx_reset t)"
  by (simp add: tracks_def) (simp add: tx_reset_def)

lemma tracks_write:
  "tracks m t \<Longrightarrow> tracks m (tx_set t k r)" "tracks m t \<Longrightarrow> tracks m (tx_delete t k)"
  by (auto simp: tracks_def) (auto simp: tx_set_def tx_delete_def tx_record_def Let_def split: if_splits)

interpretation dirty: all_writes_closed "tracks m" "\<lambda>_. True" "\<lambda>_. True" for m
  by unfold_locales (simp_all add: tracks_write)

section \<open>Durable rows\<close>

text \<open>What a committed row does to the durable rows, and what a committed transaction does.\<close>

definition commit_row :: "(gostring \<rightharpoonup> bytes) \<Rightarrow> Row \<Rightarrow> (gostring \<rightharpoonup> bytes)" where
  "commit_row m r = (if row_Value r = [] then m(row_Key r := None) else m(row_Key r \<mapsto> row_Value r))"

definition commit_rows :: "(gostring \<rightharpoonup> bytes) \<Rightarrow> Row list \<Rightarrow> (gostring \<rightharpoonup> bytes)" where
  "commit_rows m rows = foldl commit_row m rows"

definition encoded :: "protowire \<Rightarrow> kv \<Rightarrow> (gostring \<rightharpoonup> bytes)" where
  "encoded pw t k = map_option (marshalRecord pw) (tx_get t k)"

lemma commit_rows_append: "commit_rows m (a @ b) = commit_rows (commit_rows m a) b"
  by (simp add: commit_rows_def)

lemma commit_rows_dirty:
  assumes "\<And>k r. tx_get t k = Some r \<Longrightarrow> marshalRecord pw r \<noteq> []"
  shows "commit_rows m (map (dirty_row pw t) ks) = (\<lambda>k. if k \<in> set ks then encoded pw t k else m k)"
proof (induction ks rule: rev_induct)
  case (snoc k ks)
  then show ?case
    using assms
    by (auto simp: commit_rows_append) (auto simp: commit_rows_def commit_row_def dirty_row_def encoded_def
        fun_eq_iff split: option.split)
qed (simp add: commit_rows_def)

context wire
begin

lemma putUvarint_nonempty: "v \<noteq> 0 \<Longrightarrow> valid_num n \<Longrightarrow> putUvarint pw [] n v \<noteq> []"
  using tag_nonempty [of n VarintType "AppendVarint pw [] v"]
  by (simp add: putUvarint_def valid_num_def VarintType_def varint_append [of "AppendTag pw [] n t" for t])

lemmas marshal_defs =
  marshalBucketConfig_def marshalVersionEntry_def marshalCurrentRecord_def marshalUploadRecord_def
  marshalPartRecord_def marshalClusterLayout_def marshalEncryptionPosture_def marshalTrustBundle_def
  marshalNodeRecord_def

text \<open>A record with a format version has a non-empty encoding: it is not taken for a deletion.\<close>

lemma marshalRecord_nonempty: "row_version r \<noteq> 0 \<Longrightarrow> marshalRecord pw r \<noteq> []"
  by (cases r) (simp_all add: marshal_defs Let_def encode_rules putUvarint_nonempty)

text \<open>The changeset of a successful apply carries the durable rows to the new state.\<close>

lemma changeset_commit:
  assumes "tracks (tx_get t) u" and "formatted u"
  shows "commit_rows (encoded pw t) (changeset pw u) = encoded pw u"
proof -
  have "\<And>k r. tx_get u k = Some r \<Longrightarrow> marshalRecord pw r \<noteq> []"
    using assms(2) marshalRecord_nonempty by (auto simp: formatted_def)
  from commit_rows_dirty [OF this] show ?thesis
    using assms(1) by (auto simp: changeset_def tracks_def encoded_def fun_eq_iff)
qed

end

text \<open>
  The contract of \<^verbatim>\<open>Persister\<close>. \<open>durable\<close> is what a restart would find, \<open>good\<close> the states the
  implementation passes through, \<open>fits\<close> the transactions within its size limits.
\<close>

locale persister =
  fixes commit :: "'p \<Rightarrow> Row list \<Rightarrow> 'p \<times> bool"
    and durable :: "'p \<Rightarrow> gostring \<rightharpoonup> bytes"
    and good :: "'p \<Rightarrow> bool"
    and fits :: "Row list \<Rightarrow> bool"
  assumes commit_good: "good p \<Longrightarrow> fits rows \<Longrightarrow> good (fst (commit p rows))"
    and commit_ok: "good p \<Longrightarrow> fits rows \<Longrightarrow> snd (commit p rows) \<Longrightarrow>
      durable (fst (commit p rows)) = commit_rows (durable p) rows"
    and commit_failed: "good p \<Longrightarrow> fits rows \<Longrightarrow> \<not> snd (commit p rows) \<Longrightarrow>
      durable (fst (commit p rows)) = durable p"

locale persistent_store = wire pw + persister commit durable good fits
  for pw :: protowire and commit :: "'p \<Rightarrow> Row list \<Rightarrow> 'p \<times> bool" and durable good fits
begin

text \<open>Memory and durable storage agree.\<close>

definition mirrors :: "'p Store \<Rightarrow> bool" where
  "mirrors s \<longleftrightarrow> tx_inv (s_kv s) \<and> formatted (s_kv s) \<and>
     (\<exists>d. s_persist s = Some d \<and> good d \<and> durable d = encoded pw (s_kv s))"

text \<open>The transaction an apply would commit.\<close>

definition apply_changes :: "proposal \<Rightarrow> 'p Store \<Rightarrow> Row list" where
  "apply_changes p s = changeset pw (fst (Apply_body p (tx_reset (s_kv s))))"

lemma Apply_mirrors:
  assumes "mirrors s" and "fits (apply_changes p s)"
  shows "mirrors (fst (Apply pw commit p s))"
proof -
  obtain t r where b: "Apply_body p (tx_reset (s_kv s)) = (t, r)" by fastforce
  obtain d where inv: "tx_inv (s_kv s)" "formatted (s_kv s)" and d: "s_persist s = Some d" "good d"
    and dur: "durable d = encoded pw (s_kv s)"
    using assms(1) by (auto simp: mirrors_def)
  have fits: "fits (changeset pw t)" using assms(2) by (simp add: apply_changes_def b)
  have kept: "tx_inv (s_kv (fst (Apply pw commit p s)))" "formatted (s_kv (fst (Apply pw commit p s)))"
    using Apply_inv Apply_formatted inv by blast+
  have tr: "tracks (tx_get (s_kv s)) t"
    using dirty.Apply_body_closed [OF tracks_reset, of "s_kv s" p] by (simp add: b)
  have u: "undoes (tx_mem (s_kv s)) t"
    using undo.Apply_body_closed [OF undoes_reset [OF inv(1)], of p] by (simp add: b)
  have undone: "encoded pw (tx_rollback t) = encoded pw (s_kv s)"
    using undoes_rollback [OF u] by (simp add: encoded_def tx_get_eq fun_eq_iff)
  have same: "encoded pw t = encoded pw (s_kv s)" if "tx_dirtyKeys t = []"
    using tr that by (simp add: tracks_def encoded_def fun_eq_iff)
  have new: "commit_rows (encoded pw (s_kv s)) (changeset pw t) = encoded pw t" if "formatted t"
    by (rule changeset_commit [OF tr that])
  show ?thesis
    using kept d dur fits undone same new commit_good [OF d(2) fits] commit_ok [OF d(2) fits] commit_failed [OF d(2) fits]
    by (auto simp: mirrors_def Apply_eq [OF b] split: sum.splits if_splits)
qed

end

section \<open>Restoring\<close>

fun restore_rows :: "protowire \<Rightarrow> 'p Store \<Rightarrow> (gostring \<times> bytes) list \<Rightarrow> 'p Store option option" where
  "restore_rows pw s [] = Some (Some s)"
| "restore_rows pw s ((k, v) # rows) =
     (case Restore pw s k v of
        None \<Rightarrow> None
      | Some None \<Rightarrow> Some None
      | Some (Some s) \<Rightarrow> restore_rows pw s rows)"

text \<open>Every row fits its encoding.\<close>

definition encodable :: "protowire \<Rightarrow> kv \<Rightarrow> bool" where
  "encodable pw t \<longleftrightarrow> (\<forall>k r. tx_get t k = Some r \<longrightarrow> sized_row pw r)"

context wire
begin

lemma restore_rows_eq:
  assumes "wf_rows t" and "encodable pw t" and "\<forall>(k, v) \<in> set rows. encoded pw t k = Some v"
  shows "\<exists>s'. restore_rows pw s rows = Some (Some s') \<and> s_persist s' = s_persist s \<and>
    (tx_inv (s_kv s) \<longrightarrow> tx_inv (s_kv s')) \<and>
    tx_get (s_kv s') = tx_get (s_kv s) ++ (tx_get t |` (fst ` set rows))"
  using assms(3)
proof (induction rows arbitrary: s)
  case (Cons kv rows)
  obtain k v where kv: "kv = (k, v)" by fastforce
  then obtain r where r: "tx_get t k = Some r" "v = marshalRecord pw r"
    using Cons.prems by (auto simp: encoded_def)
  have "decodeRow pw k v = Some (Some r)"
    using decodeRow_marshalRecord [of k r] wf_rowsD [OF assms(1) r(1)] assms(2) r by (auto simp: encodable_def)
  then have step: "Restore pw s k v = Some (Some (s\<lparr>s_kv := (s_kv s)\<lparr>tx_mem := memKV_set (tx_mem (s_kv s)) k r\<rparr>\<rparr>))"
    by (simp add: Restore_def)
  let ?s = "s\<lparr>s_kv := (s_kv s)\<lparr>tx_mem := memKV_set (tx_mem (s_kv s)) k r\<rparr>\<rparr>"
  obtain s' where s': "restore_rows pw ?s rows = Some (Some s')" "s_persist s' = s_persist s"
    "tx_inv (s_kv ?s) \<longrightarrow> tx_inv (s_kv s')"
    "tx_get (s_kv s') = tx_get (s_kv ?s) ++ (tx_get t |` (fst ` set rows))"
    using Cons.IH [of ?s] Cons.prems kv by auto
  have "tx_get (s_kv ?s) = (tx_get (s_kv s))(k \<mapsto> r)" by (simp add: tx_get_eq)
  then have "tx_get (s_kv s') = tx_get (s_kv s) ++ (tx_get t |` (fst ` set (kv # rows)))"
    using s'(4) r(1) by (auto simp: kv fun_eq_iff map_add_def restrict_map_def split: option.split)
  then show ?case using s' step by (auto simp: kv)
qed simp

text \<open>The rows of an encodable store, replayed in any order into a fresh store, give it back.\<close>

lemma restore_fresh:
  assumes "wf_rows t" and "encodable pw t" and "map_of rows = encoded pw t" and "distinct (map fst rows)"
  shows "\<exists>s :: 'p Store. restore_rows pw NewStore rows = Some (Some s) \<and> tx_mem (s_kv s) = tx_mem t"
proof -
  have "\<forall>(k, v) \<in> set rows. encoded pw t k = Some v"
    using assms(3,4) by (auto simp flip: assms(3))
  from restore_rows_eq [OF assms(1,2) this, of NewStore] obtain s :: "'p Store" where s:
    "restore_rows pw NewStore rows = Some (Some s)" "tx_inv (s_kv s)"
    "tx_get (s_kv s) = Map.empty ++ (tx_get t |` (fst ` set rows))"
    by (auto simp: NewStore_def newTxKV_def tx_get_eq)
  have "dom (tx_get t) = fst ` set rows"
    using arg_cong [OF assms(3), of dom] by (simp add: dom_map_of_conv_image_fst) (auto simp: encoded_def dom_def)
  moreover have "tx_get t |` dom (tx_get t) = tx_get t"
    by (intro ext) (simp add: restrict_map_def domIff)
  ultimately have "tx_get (s_kv s) = tx_get t" using s(3) by simp
  then have "tx_mem (s_kv s) = tx_mem t"
    using memKV_eqI [OF s(2) wf_rows_inv [OF assms(1)]] by (simp add: tx_get_eq)
  then show ?thesis using s(1) by blast
qed

section \<open>Dump\<close>

lemma Dump_eq:
  assumes "tx_inv (s_kv s)"
  shows "Dump pw s = Some (map (\<lambda>k. \<lparr>row_Key = k, row_Value = marshalRecord pw (the (tx_get (s_kv s) k))\<rparr>)
    (sorted_list_of_set (dom (tx_get (s_kv s)))))"
proof -
  let ?t = "s_kv s"
  let ?f = "\<lambda>k. \<lparr>row_Key = k, row_Value = marshalRecord pw (the (tx_get ?t k))\<rparr>"
  let ?ks = "sorted_list_of_set (dom (tx_get ?t))"
  have rows: "tx_rows ?t [] = map (\<lambda>k. (k, tx_get ?t k)) ?ks"
    using assms memKV_inv_finite [OF assms] by (simp add: tx_rows_def memKV_rows_eq tx_get_eq)
  have "scan_rows (map (\<lambda>k. (k, tx_get ?t k)) ks) (\<lambda>k v rows. case v of
       Some r \<Rightarrow> (map_option (\<lambda>rs. rs @ [\<lparr>row_Key = k, row_Value = marshalRecord pw r\<rparr>]) rows, True)
     | None \<Rightarrow> (None, False)) (Some acc) = Some (acc @ map ?f ks)"
    if "set ks \<subseteq> dom (tx_get ?t)" for ks acc
    using that by (induction ks arbitrary: acc) auto
  from this [of ?ks "[]"] show ?thesis
    unfolding Dump_def tx_scan_eq rows using memKV_inv_finite [OF assms] by (simp add: tx_get_eq)
qed

end

end
