(* ===== verification/Meta_History.thy ===== *)
theory Meta_History
  imports Meta_Lock Meta_Persist
begin

text \<open>
  Histories: a store with any persister applies a list of proposals. A proposal that fails, in
  apply or in the commit, leaves the store as it was; one that succeeds keeps the invariant and
  what object lock protects. The lemmas of this theory carry both through a history.
\<close>

fun run :: "protowire \<Rightarrow> ('p \<Rightarrow> Row list \<Rightarrow> 'p \<times> bool) \<Rightarrow> proposal list \<Rightarrow> 'p Store \<Rightarrow> 'p Store" where
  "run pw commit [] s = s"
| "run pw commit (p # ps) s = run pw commit ps (fst (Apply pw commit p s))"

text \<open>The version IDs of the proposals leave room for the bumps that may still come.\<close>

fun roomy :: "nat \<Rightarrow> proposal list \<Rightarrow> bool" where
  "roomy n [] \<longleftrightarrow> True"
| "roomy n (p # ps) \<longleftrightarrow> vid_room (n + length ps) p \<and> roomy n ps"

section \<open>The invariant depends on the rows only\<close>

lemma views_mem:
  assumes "tx_mem t = tx_mem u"
  shows "tx_get t = tx_get u" "bucket_of t = bucket_of u" "versions t = versions u"
    "current_of t = current_of u" "upload_of t = upload_of u" "parts_of t = parts_of u"
proof -
  show get: "tx_get t = tx_get u" by (simp add: tx_get_eq assms)
  show "bucket_of t = bucket_of u" "versions t = versions u" "current_of t = current_of u"
    "upload_of t = upload_of u" "parts_of t = parts_of u"
    unfolding bucket_of_def versions_def current_of_def upload_of_def parts_of_def get by (rule refl)+
qed

lemma store_inv_mem: "tx_mem t = tx_mem u \<Longrightarrow> store_inv n t = store_inv n u"
  using views_mem [of t u] by (simp only: store_inv_def wf_rows_def uploads_ok_def system_ok_def)

lemma store_inv_reset [simp]: "store_inv n (tx_reset t) = store_inv n t"
  by (rule store_inv_mem) simp

lemma versions_reset [simp]: "versions (tx_reset t) = versions t"
  by (rule views_mem) simp

section \<open>One step\<close>

lemma Apply_step:
  assumes "store_inv (Suc n) (s_kv s)" and "vid_room n p"
  shows "store_inv n (s_kv (fst (Apply pw commit p s)))"
    and "kept p (s_kv s) (s_kv (fst (Apply pw commit p s)))"
proof -
  have inv: "tx_inv (s_kv s)" using store_invD(1) [OF assms(1)] by (rule wf_rows_inv)
  have step: "store_inv n u \<and> kept p (s_kv s) u" if "Apply_body p (tx_reset (s_kv s)) = (u, Inr x)" for u x
    using Apply_body_inv [OF _ assms(2) that] Apply_body_kept [OF _ that, of n] assms(1) by (simp add: kept_def)
  have "store_inv n (s_kv (fst (Apply pw commit p s))) \<and> kept p (s_kv s) (s_kv (fst (Apply pw commit p s)))"
  proof (cases "snd (Apply pw commit p s)")
    case (Inl e)
    note same = Apply_error [OF inv Inl]
    have "store_inv n (s_kv s)" using store_inv_mono [OF assms(1)] by simp
    then show ?thesis using store_inv_mem [OF same] kept_same [OF views_mem(3) [OF same]] by simp
  next
    case (Inr x)
    from Apply_ok [OF Inr] step show ?thesis by blast
  qed
  then show "store_inv n (s_kv (fst (Apply pw commit p s)))" "kept p (s_kv s) (s_kv (fst (Apply pw commit p s)))"
    by simp_all
qed

lemma run_inv:
  "store_inv (n + length ps) (s_kv s) \<Longrightarrow> roomy n ps \<Longrightarrow> store_inv n (s_kv (run pw commit ps s))"
proof (induction ps arbitrary: s)
  case (Cons p ps)
  then show ?case using Apply_step(1) [of "n + length ps" s p pw commit] by simp
qed simp

text \<open>
  A property of entries that holds only of locked entries and that every accepted rewrite keeps
  is carried through a history.
\<close>

lemma run_keeps:
  assumes "store_inv (n + length ps) (s_kv s)" and "roomy n ps"
    and "versions (s_kv s) b k v = Some e" and "I e"
    and locked: "\<And>p f. p \<in> set ps \<Longrightarrow> I f \<Longrightarrow> lockedAt f (proposed_at p) (bypasses p)"
    and rewr: "\<And>p f f'. p \<in> set ps \<Longrightarrow> I f \<Longrightarrow> targets p b k v \<Longrightarrow> rewritten p f f' \<Longrightarrow> I f'"
  shows "\<exists>e'. versions (s_kv (run pw commit ps s)) b k v = Some e' \<and> I e' \<and> same_core e e'"
  using assms
proof (induction ps arbitrary: s e)
  case Nil
  then show ?case by (auto simp: same_core_def)
next
  case (Cons p ps)
  let ?s = "fst (Apply pw commit p s)"
  have st: "store_inv (n + length ps) (s_kv ?s)" "kept p (s_kv s) (s_kv ?s)"
    using Apply_step [of "n + length ps" s p pw commit] Cons.prems(1,2) by simp_all
  have "lockedAt e (proposed_at p) (bypasses p)" using Cons.prems(4,5) by simp
  with st(2) Cons.prems(3) obtain e1 where
    e1: "versions (s_kv ?s) b k v = Some e1" "e1 = e \<or> targets p b k v \<and> rewritten p e e1"
    unfolding kept_def by blast
  have I1: "I e1" using e1(2) Cons.prems(4) Cons.prems(6) [of p e e1] by auto
  have core: "same_core e e1" using e1(2) rewritten_same_core by (auto simp: same_core_def)
  have "\<exists>e2. versions (s_kv (run pw commit ps ?s)) b k v = Some e2 \<and> I e2 \<and> same_core e1 e2"
  proof (rule Cons.IH [OF st(1) _ e1(1) I1])
    show "roomy n ps" using Cons.prems(2) by simp
    show "lockedAt f (proposed_at q) (bypasses q)" if "q \<in> set ps" "I f" for q f
      using Cons.prems(5) that by simp
    show "I f'" if "q \<in> set ps" "I f" "targets q b k v" "rewritten q f f'" for q f f'
      using Cons.prems(6) [of q f f'] that by simp
  qed
  with core show ?case by (auto simp: same_core_def)
qed

end
