(* ===== verification/Wire_Ref.thy ===== *)
theory Wire_Ref
  imports Wire
begin

text \<open>
  A reference implementation of the wire format (base-128 varints, tags, length-delimited
  payloads), which shows that the promises of the locale \<open>wire\<close> can be kept. It follows the
  protobuf encoding specification for the wire types the codecs write; groups are not
  implemented and parse as errors.
\<close>

fun varint_enc :: "nat \<Rightarrow> bytes" where
  "varint_enc n = (if n < 128 then [word_of_nat n] else word_of_nat (n mod 128 + 128) # varint_enc (n div 128))"

declare varint_enc.simps [simp del]

fun varint_dec :: "bytes \<Rightarrow> (nat \<times> nat) option" where
  "varint_dec [] = None"
| "varint_dec (b # bs) =
     (if unat b < 128 then Some (unat b, 1)
      else case varint_dec bs of None \<Rightarrow> None | Some (v, k) \<Rightarrow> Some (unat b - 128 + 128 * v, Suc k))"

definition bounded_varint :: "nat \<Rightarrow> bytes \<Rightarrow> (nat \<times> nat) option" where
  "bounded_varint w b = (case varint_dec b of Some (v, k) \<Rightarrow> if v < 2 ^ w then Some (v, k) else None | None \<Rightarrow> None)"

lemma bounded_varint_code [code]:
  "bounded_varint w b = (case varint_dec b of Some (v, k) \<Rightarrow> if int v < 2 ^ w then Some (v, k) else None | None \<Rightarrow> None)"
  by (simp add: bounded_varint_def split: option.split)

definition len_prefixed :: "bytes \<Rightarrow> (bytes \<times> nat) option" where
  "len_prefixed b =
     (case varint_dec b of
        Some (m, k) \<Rightarrow> if m \<le> length b - k then Some (take m (drop k b), k + m) else None
      | None \<Rightarrow> None)"

definition ref_wire :: protowire where
  "ref_wire = \<lparr>AppendTag = (\<lambda>b n t. b @ varint_enc (n * 8 + t)),
     AppendVarint = (\<lambda>b v. b @ varint_enc (unat v)),
     AppendBytes = (\<lambda>b x. b @ varint_enc (length x) @ x),
     AppendString = (\<lambda>b x. b @ varint_enc (length x) @ x),
     ConsumeTag = (\<lambda>b. case bounded_varint 32 b of
        Some (v, k) \<Rightarrow> if v div 8 = 0 then None else Some (v div 8, v mod 8, k) | None \<Rightarrow> None),
     ConsumeVarint = (\<lambda>b. case bounded_varint 64 b of
        Some (v, k) \<Rightarrow> Some (word_of_nat v, k) | None \<Rightarrow> None),
     ConsumeBytes = len_prefixed,
     ConsumeFieldValue = (\<lambda>n t b.
        if t = 0 then map_option snd (bounded_varint 64 b)
        else if t = 1 then (if 8 \<le> length b then Some 8 else None)
        else if t = 2 then map_option snd (len_prefixed b)
        else if t = 5 then (if 4 \<le> length b then Some 4 else None)
        else None)\<rparr>"

lemma varint_dec_enc: "varint_dec (varint_enc n @ r) = Some (n, length (varint_enc n))"
proof (induction n rule: varint_enc.induct)
  case (1 n)
  show ?case
  proof (cases "n < 128")
    case True
    then have "unat (word_of_nat n :: byte) = n" by (simp add: unat_of_nat)
    with True show ?thesis by (simp add: varint_enc.simps [of n])
  next
    case False
    have "unat (word_of_nat (n mod 128 + 128) :: byte) = n mod 128 + 128" by (subst unat_of_nat) simp
    with False 1 show ?thesis by (simp add: varint_enc.simps [of n])
  qed
qed

lemma varint_dec_bounds: "varint_dec b = Some (v, k) \<Longrightarrow> 0 < k \<and> k \<le> length b"
  by (induction b arbitrary: v k) (auto split: if_splits option.splits)

lemma varint_dec_local:
  "varint_dec b = Some (v, k) \<Longrightarrow> take k b' = take k b \<Longrightarrow> varint_dec b' = Some (v, k)"
proof (induction b arbitrary: v k b')
  case (Cons x b)
  obtain k' where k: "k = Suc k'" using varint_dec_bounds [OF Cons.prems(1)] by (cases k) auto
  with Cons.prems(2) obtain c where b': "b' = x # c" and c: "take k' c = take k' b" by (cases b') auto
  show ?case
  proof (cases "unat x < 128")
    case True
    with Cons.prems(1) show ?thesis by (simp add: b')
  next
    case False
    with Cons.prems(1) obtain w where "varint_dec b = Some (w, k')" "v = unat x - 128 + 128 * w"
      by (auto simp: k split: option.splits)
    with Cons.IH [OF _ c] False show ?thesis by (simp add: b' k)
  qed
qed simp

lemma len_prefixed_bounds: "len_prefixed b = Some (x, k) \<Longrightarrow> k \<le> length b"
  by (auto simp: len_prefixed_def dest!: varint_dec_bounds split: option.splits if_splits)

lemma len_prefixed_local:
  assumes "len_prefixed b = Some (x, k)" and "take k b' = take k b"
  shows "len_prefixed b' = Some (x, k)"
proof -
  from assms(1) obtain m j where v: "varint_dec b = Some (m, j)" and m: "m \<le> length b - j"
    and x: "x = take m (drop j b)" and k: "k = j + m"
    by (auto simp: len_prefixed_def split: option.splits if_splits)
  have j: "j \<le> length b" using varint_dec_bounds [OF v] by simp
  have "length (take k b') = k" using assms(2) m j k by simp
  then have len: "k \<le> length b'" by (metis length_take min.cobounded1)
  have "take j b' = take j (take k b')" "take j b = take j (take k b)" by (simp_all add: k min_def)
  then have v': "varint_dec b' = Some (m, j)" using varint_dec_local [OF v, of b'] assms(2) by simp
  have "take m (drop j b') = drop j (take k b')" "take m (drop j b) = drop j (take k b)"
    by (simp_all add: k drop_take)
  then have "take m (drop j b') = x" using assms(2) by (simp add: x)
  with v' len k show ?thesis by (simp add: len_prefixed_def)
qed

lemma bounded_varint_local:
  "bounded_varint w b = Some (v, k) \<Longrightarrow> take k b' = take k b \<Longrightarrow> bounded_varint w b' = Some (v, k)"
  using varint_dec_local [of b v k b']
  by (simp add: bounded_varint_def split: option.splits prod.splits if_splits)

lemma bounded_varint_bounds: "bounded_varint w b = Some (v, k) \<Longrightarrow> 0 < k \<and> k \<le> length b"
  by (auto simp: bounded_varint_def dest: varint_dec_bounds split: option.splits if_splits)

lemma take_length: "take k b' = take k b \<Longrightarrow> k \<le> length b \<Longrightarrow> k \<le> length b'"
  by (metis length_take min.absorb2 min.cobounded1)

interpretation ref: wire ref_wire
proof unfold_locales
  fix n t :: nat and r :: bytes
  assume n: "1 \<le> n" "n < 2 ^ 29" "t \<le> 5"
  have "(n * 8 + t) div 8 = n" "(n * 8 + t) mod 8 = t" "n * 8 + t < 2 ^ 32" using n by auto
  with n show "ConsumeTag ref_wire (AppendTag ref_wire [] n t @ r) = Some (n, t, length (AppendTag ref_wire [] n t))"
    by (simp add: ref_wire_def bounded_varint_def varint_dec_enc)
next
  fix v :: u64 and r :: bytes
  show "ConsumeVarint ref_wire (AppendVarint ref_wire [] v @ r) = Some (v, length (AppendVarint ref_wire [] v))"
    using unat_bound [of v] by (simp add: ref_wire_def bounded_varint_def varint_dec_enc)
  fix n
  show "ConsumeFieldValue ref_wire n VarintType (AppendVarint ref_wire [] v @ r) = Some (length (AppendVarint ref_wire [] v))"
    using unat_bound [of v] by (simp add: ref_wire_def bounded_varint_def varint_dec_enc VarintType_def)
next
  fix x r :: bytes
  show "ConsumeBytes ref_wire (AppendBytes ref_wire [] x @ r) = Some (x, length (AppendBytes ref_wire [] x))"
    by (simp add: ref_wire_def len_prefixed_def varint_dec_enc)
next
  fix b b' :: bytes and n t k
  show "0 < k \<and> k \<le> length b" if "ConsumeTag ref_wire b = Some (n, t, k)"
    using that by (auto simp: ref_wire_def dest: bounded_varint_bounds split: option.splits if_splits)
  show "ConsumeTag ref_wire b' = Some (n, t, k)"
    if "ConsumeTag ref_wire b = Some (n, t, k)" "take k b' = take k b"
    using that bounded_varint_local [of 32 b _ k b']
    by (auto simp: ref_wire_def split: option.splits prod.splits if_splits)
  show "k \<le> length b" if "ConsumeFieldValue ref_wire n t b = Some k"
    using that by (auto simp: ref_wire_def dest: bounded_varint_bounds len_prefixed_bounds split: if_splits)
  show "ConsumeFieldValue ref_wire n t b' = Some k"
    if "ConsumeFieldValue ref_wire n t b = Some k" "take k b' = take k b"
    using that take_length [of k b' b] bounded_varint_local [of 64 b _ k b'] len_prefixed_local [of b _ k b']
    by (force simp: ref_wire_def split: if_splits)
next
  fix b :: bytes and v x k
  show "k \<le> length b" if "ConsumeVarint ref_wire b = Some (v, k)"
    using that by (auto simp: ref_wire_def dest: bounded_varint_bounds split: option.splits)
  show "k \<le> length b" if "ConsumeBytes ref_wire b = Some (x, k)"
    using that by (auto simp: ref_wire_def dest: len_prefixed_bounds)
qed (simp_all add: ref_wire_def)

end
