(* ===== verification/Object_Properties.thy ===== *)
theory Object_Properties
  imports Meta_History Wire_Ref
begin

text \<open>
  What the metadata store promises about objects: write-once-read-many protection over
  arbitrary histories, atomicity of an apply, and the effect of a write, a delete and a
  multipart completion on what the reads return.
\<close>

text \<open>A store over the demo history, with no persister.\<close>

abbreviation no_commit :: "unit \<Rightarrow> Row list \<Rightarrow> unit \<times> bool" where
  "no_commit \<equiv> \<lambda>p rows. (p, True)"

definition demo_store :: "unit Store" where
  "demo_store = \<lparr>s_kv = demo_kv4, s_persist = None\<rparr>"

definition demo_entry :: VersionEntry where
  "demo_entry = the (versions demo_kv4 demo_bucket demo_key 5)"

definition demo_entry2 :: VersionEntry where
  "demo_entry2 = the (versions demo_kv4 demo_bucket demo_key2 6)"

lemma demo_store_inv: "n < 2 ^ 98 \<Longrightarrow> store_inv n (s_kv demo_store)"
  using demo_inv(4) by (simp add: demo_store_def)

lemma demo_versions:
  "GetVersion (s_kv demo_store) demo_bucket demo_key 5 = Inr (Some demo_entry)"
  "GetVersion (s_kv demo_store) demo_bucket demo_key2 6 = Inr (Some demo_entry2)"
proof -
  have "versions demo_kv4 demo_bucket demo_key 5 \<noteq> None" "versions demo_kv4 demo_bucket demo_key2 6 \<noteq> None"
    by code_simp+
  then show "GetVersion (s_kv demo_store) demo_bucket demo_key 5 = Inr (Some demo_entry)"
    "GetVersion (s_kv demo_store) demo_bucket demo_key2 6 = Inr (Some demo_entry2)"
    using GetVersion_eq [OF store_invD(1) [OF demo_inv(4) [of 0]]]
    by (auto simp: demo_store_def demo_entry_def demo_entry2_def)
qed

lemma demo_entry_fields:
  "ve_RetentionMode demo_entry = RetentionCompliance" "ve_RetainUntilUnixMS demo_entry = 100"
  "ve_LegalHold demo_entry" "ve_RetentionMode demo_entry2 = RetentionGovernance"
  "ve_RetainUntilUnixMS demo_entry2 = 100"
  by code_simp+

text \<open>Two attempts to remove the object: a delete with a governance bypass and a marker.\<close>

definition demo_attack :: "proposal list" where
  "demo_attack = [P_DeleteVersion demo_delete, P_DeleteObject demo_marker]"

definition demo_attack2 :: "proposal list" where
  "demo_attack2 = [P_DeleteVersion (demo_delete\<lparr>dv_Key := demo_key2, dv_VersionID := 6, dv_BypassGovernance := False\<rparr>)]"

lemmas demo_attack_defs = demo_attack_def demo_attack2_def demo_delete_def demo_marker_def

section \<open>Object lock over histories\<close>

text \<open>
  C1: COMPLIANCE retention is WORM. Whatever proposals a store applies before the date of a
  COMPLIANCE-retained version, governance bypasses included and whether they succeed or fail,
  the version is still there, its mode COMPLIANCE, its date no earlier, and with the same size, ETag,
  object checksum, content type, user metadata, parts, partition, kind, creation time and unknown fields.
  (Where the bytes lie may change: a re-encode moves the data ID and the shards, a rewrap the wrapped key.)
\<close>

theorem compliance_worm:
  assumes "store_inv (n + length ps) (s_kv s)" and "roomy n ps"
    and "GetVersion (s_kv s) b k v = Inr (Some e)" and "ve_RetentionMode e = RetentionCompliance"
    and "\<forall>p \<in> set ps. i64_less (proposed_at p) (ve_RetainUntilUnixMS e)"
  shows "\<exists>e'. GetVersion (s_kv (run pw commit ps s)) b k v = Inr (Some e') \<and> same_core e e' \<and>
    ve_RetentionMode e' = RetentionCompliance \<and> i64_le (ve_RetainUntilUnixMS e) (ve_RetainUntilUnixMS e')"
proof -
  let ?I = "\<lambda>f. ve_RetentionMode f = RetentionCompliance \<and> i64_le (ve_RetainUntilUnixMS e) (ve_RetainUntilUnixMS f)"
  have before: "i64_less (proposed_at p) (ve_RetainUntilUnixMS f)" if "p \<in> set ps" "?I f" for p f
    using assms(5) that by (auto simp: i64_less_def i64_le_def)
  have "\<exists>e'. versions (s_kv (run pw commit ps s)) b k v = Some e' \<and> ?I e' \<and> same_core e e'"
  proof (rule run_keeps [OF assms(1,2)])
    show "versions (s_kv s) b k v = Some e" using assms(3) GetVersion_eq [OF store_invD(1) [OF assms(1)]] by simp
    show "lockedAt f (proposed_at p) (bypasses p)" if "p \<in> set ps" "?I f" for p f
      using before [OF that] that(2) by (simp add: lockedAt_iff)
    show "?I f'" if "p \<in> set ps" "?I f" "targets p b k v" "rewritten p f f'" for p f f'
      using before [OF that(1,2)] that
      by (cases p) (auto simp: retained_def retention_accepted_def intro: i64_le_trans)
  qed (use assms(4) in simp)
  then show ?thesis using GetVersion_eq [OF store_invD(1) [OF run_inv [OF assms(1,2)]]] by auto
qed

theorem compliance_worm_witness:
  "\<exists>e'. GetVersion (s_kv (run ref_wire no_commit demo_attack demo_store)) demo_bucket demo_key 5 = Inr (Some e') \<and>
    same_core demo_entry e' \<and> ve_RetentionMode e' = RetentionCompliance \<and>
    i64_le (ve_RetainUntilUnixMS demo_entry) (ve_RetainUntilUnixMS e')"
  by (rule compliance_worm [where n = 3])
     (simp_all add: demo_store_inv demo_versions demo_entry_fields demo_attack_defs i64_less_def)

text \<open>
  C15: A legal hold protects without a date. As long as no proposal lifts the hold of that
  version, no history removes the version or its hold.
\<close>

theorem legal_hold_worm:
  assumes "store_inv (n + length ps) (s_kv s)" and "roomy n ps"
    and "GetVersion (s_kv s) b k v = Inr (Some e)" and "ve_LegalHold e"
    and "\<forall>c. P_UpdateLegalHold c \<in> set ps \<longrightarrow> targets (P_UpdateLegalHold c) b k v \<longrightarrow> ul_Hold c"
  shows "\<exists>e'. GetVersion (s_kv (run pw commit ps s)) b k v = Inr (Some e') \<and> same_core e e' \<and> ve_LegalHold e'"
proof -
  have "\<exists>e'. versions (s_kv (run pw commit ps s)) b k v = Some e' \<and> ve_LegalHold e' \<and> same_core e e'"
  proof (rule run_keeps [OF assms(1,2)])
    show "versions (s_kv s) b k v = Some e" using assms(3) GetVersion_eq [OF store_invD(1) [OF assms(1)]] by simp
    show "ve_LegalHold f'" if "p \<in> set ps" "ve_LegalHold f" "targets p b k v" "rewritten p f f'" for p f f'
      using assms(5) that by (cases p) (auto simp: retained_def)
  qed (use assms(4) in \<open>simp_all add: lockedAt_iff\<close>)
  then show ?thesis using GetVersion_eq [OF store_invD(1) [OF run_inv [OF assms(1,2)]]] by auto
qed

theorem legal_hold_worm_witness:
  "\<exists>e'. GetVersion (s_kv (run ref_wire no_commit demo_attack demo_store)) demo_bucket demo_key 5 = Inr (Some e') \<and>
    same_core demo_entry e' \<and> ve_LegalHold e'"
  by (rule legal_hold_worm [where n = 3])
     (simp_all add: demo_store_inv demo_versions demo_entry_fields demo_attack_defs)

text \<open>
  C16: GOVERNANCE retention protects against everyone who does not bypass it: if every proposal of
  a history comes before the date, none bypasses governance, and updates of that version's
  retention ask for a known mode, the version survives with a date no earlier.
\<close>

theorem governance_worm:
  assumes "store_inv (n + length ps) (s_kv s)" and "roomy n ps"
    and "GetVersion (s_kv s) b k v = Inr (Some e)" and "ve_RetentionMode e = RetentionGovernance"
    and "\<forall>p \<in> set ps. i64_less (proposed_at p) (ve_RetainUntilUnixMS e) \<and> \<not> bypasses p"
    and "\<forall>c. P_UpdateRetention c \<in> set ps \<longrightarrow> targets (P_UpdateRetention c) b k v \<longrightarrow>
      \<not> ut_BypassGovernance c \<and> ut_Mode c \<in> {RetentionNone, RetentionGovernance, RetentionCompliance}"
  shows "\<exists>e'. GetVersion (s_kv (run pw commit ps s)) b k v = Inr (Some e') \<and> same_core e e' \<and>
    ve_RetentionMode e' \<in> {RetentionGovernance, RetentionCompliance} \<and>
    i64_le (ve_RetainUntilUnixMS e) (ve_RetainUntilUnixMS e')"
proof -
  let ?I = "\<lambda>f. ve_RetentionMode f \<in> {RetentionGovernance, RetentionCompliance} \<and>
    i64_le (ve_RetainUntilUnixMS e) (ve_RetainUntilUnixMS f)"
  have before: "i64_less (proposed_at p) (ve_RetainUntilUnixMS f)" if "p \<in> set ps" "?I f" for p f
    using assms(5) that by (auto simp: i64_less_def i64_le_def)
  have "\<exists>e'. versions (s_kv (run pw commit ps s)) b k v = Some e' \<and> ?I e' \<and> same_core e e'"
  proof (rule run_keeps [OF assms(1,2)])
    show "versions (s_kv s) b k v = Some e" using assms(3) GetVersion_eq [OF store_invD(1) [OF assms(1)]] by simp
    show "lockedAt f (proposed_at p) (bypasses p)" if "p \<in> set ps" "?I f" for p f
      using before [OF that] that assms(5) by (auto simp: lockedAt_iff)
    show "?I f'" if "p \<in> set ps" "?I f" "targets p b k v" "rewritten p f f'" for p f f'
      using before [OF that(1,2)] that assms(6)
      by (cases p) (auto simp: retained_def retention_accepted_def intro: i64_le_trans)
  qed (use assms(4) in simp)
  then show ?thesis using GetVersion_eq [OF store_invD(1) [OF run_inv [OF assms(1,2)]]] by auto
qed

theorem governance_worm_witness:
  "\<exists>e'. GetVersion (s_kv (run ref_wire no_commit demo_attack2 demo_store)) demo_bucket demo_key2 6 = Inr (Some e') \<and>
    same_core demo_entry2 e' \<and> ve_RetentionMode e' \<in> {RetentionGovernance, RetentionCompliance} \<and>
    i64_le (ve_RetainUntilUnixMS demo_entry2) (ve_RetainUntilUnixMS e')"
  by (rule governance_worm [where n = 3])
     (simp_all add: demo_store_inv demo_versions demo_entry_fields demo_attack_defs i64_less_def)

section \<open>An apply is atomic\<close>

text \<open>
  C4: An apply that returns an error, from a guard or from the failed commit, leaves every row of
  the store as it was; one that succeeds leaves exactly the rows its body wrote.
\<close>

theorem apply_all_or_nothing:
  assumes "store_inv n (s_kv s)"
  shows "case snd (Apply pw commit p s) of
      Inl e \<Rightarrow> tx_mem (s_kv (fst (Apply pw commit p s))) = tx_mem (s_kv s)
    | Inr r \<Rightarrow> Apply_body p (tx_reset (s_kv s)) = (s_kv (fst (Apply pw commit p s)), Inr r)"
  using Apply_error [OF wf_rows_inv [OF store_invD(1) [OF assms]]] Apply_ok by (force split: sum.split)

theorem apply_all_or_nothing_witness:
  "case snd (Apply ref_wire no_commit (P_DeleteVersion demo_delete) demo_store) of
      Inl e \<Rightarrow> tx_mem (s_kv (fst (Apply ref_wire no_commit (P_DeleteVersion demo_delete) demo_store))) =
        tx_mem (s_kv demo_store)
    | Inr r \<Rightarrow> Apply_body (P_DeleteVersion demo_delete) (tx_reset (s_kv demo_store)) =
        (s_kv (fst (Apply ref_wire no_commit (P_DeleteVersion demo_delete) demo_store)), Inr r)"
  by (rule apply_all_or_nothing [OF demo_store_inv [of 0]]) simp

section \<open>Writing and deleting objects\<close>

text \<open>
  C14: A PUT that succeeds returns the version ID under which the object can be read, and that
  version is the current one: it sorts above every version the key had. Other keys are as
  before.
\<close>

theorem put_becomes_current:
  assumes "store_inv (Suc n) t" and "vid_room n (P_PutObject p)" and "ApplyPutObject p t = (t', Inr r)"
  shows "\<exists>cfg. GetBucket t (po_Bucket p) = Inr (Some cfg) \<and>
    GetVersion t' (po_Bucket p) (po_Key p) (res_VersionID r) = Inr (Some (put_entry p cfg (res_VersionID r))) \<and>
    Current t' (po_Bucket p) (po_Key p) = Inr (Some (currentRecordFor (put_entry p cfg (res_VersionID r)))) \<and>
    newestVersion t' (po_Bucket p) (po_Key p) = Inr (Some (put_entry p cfg (res_VersionID r))) \<and>
    (\<forall>v e. GetVersion t (po_Bucket p) (po_Key p) v = Inr (Some e) \<longrightarrow> v < res_VersionID r) \<and>
    (\<forall>b k v. (b, k) \<noteq> (po_Bucket p, po_Key p) \<longrightarrow> GetVersion t' b k v = GetVersion t b k v)"
proof -
  let ?b = "po_Bucket p" and ?k = "po_Key p"
  note wf = store_invD(1) [OF assms(1)]
  from ApplyPutObject_effect [OF assms(1,3)] obtain cfg e where c: "bucket_of t ?b = Some cfg" "valid_key ?k"
    and e: "e = put_entry p cfg (bump_vid (newest (versions t ?b ?k)) (po_VersionID p))"
    and eff: "object_effect t ?b ?k (pushed (versions t ?b ?k) e) (Some (currentRecordFor e)) t'"
    and r: "res_VersionID r = ve_VersionID e" by metis
  note wf' = object_effectD(1) [OF eff]
  have b: "valid_bucket ?b" using bucket_of_name [OF wf c(1)] by simp
  have new: "newest (versions t' ?b ?k) = Some e"
    by (rule store_inv_push(2) [OF assms(1) c, of e]) (use e eff assms(2) in auto)
  have e': "e = put_entry p cfg (res_VersionID r)" using r e by simp
  have at: "versions t' ?b ?k (res_VersionID r) = Some e" using object_effectD(3) [OF eff] r by (simp add: pushed_def)
  have cur: "current_of t' ?b ?k = Some (currentRecordFor e)" using object_effectD(4) [OF eff] by simp
  have above: "v < res_VersionID r" if "versions t ?b ?k v = Some x" for v x
    using bump_above_all [OF assms(1) c that, of "po_VersionID p"] e r by simp
  show ?thesis
    using c(1) at cur new above object_effectD(5) [OF eff] b c(2)
    by (intro exI [of _ cfg])
       (simp add: GetBucket_eq [OF wf] GetVersion_eq [OF wf] GetVersion_eq [OF wf'] Current_eq [OF wf']
         newestVersion_eq [OF wf'] flip: e')
qed

theorem put_becomes_current_witness:
  "\<exists>cfg. GetBucket demo_kv1 demo_bucket = Inr (Some cfg) \<and>
    GetVersion demo_kv2 demo_bucket demo_key 5 = Inr (Some (put_entry demo_put cfg 5))"
proof -
  have "ApplyPutObject demo_put demo_kv1 = (demo_kv2, Inr \<lparr>res_VersionID = 5, res_ReplacedDataIDs = []\<rparr>)"
    using demo_put_ok snd_ret_Inr(2) [of R_Put "ApplyPutObject demo_put demo_kv1"] by (auto simp: prod_eq_iff demo_kv2_def)
  from put_becomes_current [where n = 1, OF demo_inv(1) _ this] show ?thesis by (auto simp: demo_put_def)
qed

end
