(* ===== verification/Object_Effects.thy ===== *)
theory Object_Effects
  imports Object_Properties
begin

text \<open>
  C21: Deleting a version removes exactly that version, only when it is not locked, and leaves as
  current the newest version that remains, if that is an object. Other keys are as before.
\<close>

theorem delete_version_promotes:
  assumes "store_inv n t" and "ApplyDeleteVersion p t = (t', Inr r)"
    and "m = (versions t (dv_Bucket p) (dv_Key p))(dv_VersionID p := None)"
  shows "versions t' (dv_Bucket p) (dv_Key p) = m \<and>
    Current t' (dv_Bucket p) (dv_Key p) = Inr (case newest m of
      Some e \<Rightarrow> if ve_Kind e = KindObject then Some (currentRecordFor e) else None | None \<Rightarrow> None) \<and>
    (\<forall>e. GetVersion t (dv_Bucket p) (dv_Key p) (dv_VersionID p) = Inr (Some e) \<longrightarrow>
      \<not> lockedAt e (dv_ProposedAtUnixMS p) (dv_BypassGovernance p)) \<and>
    (\<forall>b k v. (b, k) \<noteq> (dv_Bucket p, dv_Key p) \<longrightarrow> GetVersion t' b k v = GetVersion t b k v)"
proof -
  note eff = ApplyDeleteVersion_effect [OF assms(1,2), folded assms(3)]
  note wf = store_invD(1) [OF assms(1)] object_effectD(1) [OF eff(1)]
  show ?thesis
    using object_effectD(3-5) [OF eff(1)] eff(2)
    by (simp add: Current_eq [OF wf(2)] GetVersion_eq [OF wf(1)] GetVersion_eq [OF wf(2)] derived_current_def)
qed

definition demo_remove :: DeleteVersion where
  "demo_remove = demo_delete\<lparr>dv_Key := demo_key2, dv_VersionID := 6\<rparr>"

theorem delete_version_promotes_witness:
  "versions (fst (ApplyDeleteVersion demo_remove demo_kv4)) demo_bucket demo_key2 =
     (versions demo_kv4 demo_bucket demo_key2)(6 := None)"
proof -
  have "snd (ApplyDeleteVersion demo_remove demo_kv4) = Inr \<lparr>dvr_Removed = True\<rparr>" by code_simp
  then have "ApplyDeleteVersion demo_remove demo_kv4 =
      (fst (ApplyDeleteVersion demo_remove demo_kv4), Inr \<lparr>dvr_Removed = True\<rparr>)" by (simp add: prod_eq_iff)
  from delete_version_promotes [OF demo_inv(4) [of 0] this refl] show ?thesis
    by (simp add: demo_remove_def demo_delete_def)
qed

text \<open>
  In a bucket whose versioning was ever enabled, deleting an object creates a delete marker
  above every version and hides the object; no version is removed except, while versioning is
  suspended, the unlocked null version that the marker replaces.
\<close>

theorem delete_object_hides:
  assumes "store_inv (Suc n) t" and "vid_room n (P_DeleteObject p)" and "ApplyDeleteObject p t = (t', Inr r)"
    and "GetBucket t (dob_Bucket p) = Inr (Some cfg)" and "bc_Versioning cfg \<noteq> Unversioned"
  shows "Current t' (dob_Bucket p) (dob_Key p) = Inr None \<and>
    newestVersion t' (dob_Bucket p) (dob_Key p) = Inr (Some (delete_marker p cfg (dor_MarkerID r))) \<and>
    (\<forall>v e. GetVersion t (dob_Bucket p) (dob_Key p) v = Inr (Some e) \<longrightarrow> v < dor_MarkerID r \<and>
      (GetVersion t' (dob_Bucket p) (dob_Key p) v = Inr (Some e) \<or>
       bc_Versioning cfg = VersioningSuspended \<and> ve_NullVersion e \<and> \<not> lockedAt e (dob_ProposedAtUnixMS p) False))"
proof -
  let ?b = "dob_Bucket p" and ?k = "dob_Key p"
  note wf = store_invD(1) [OF assms(1)]
  have cfg: "bucket_of t ?b = Some cfg" using assms(4) by (simp add: GetBucket_eq [OF wf])
  have b: "valid_bucket ?b" and k: "valid_key ?k" using ApplyDeleteObject_guards [OF assms(1,3)] by blast+
  note eff = ApplyDeleteObject_versioned [OF assms(1,3) cfg assms(5)]
  let ?e = "delete_marker p cfg (bump_vid (newest (versions t ?b ?k)) (dob_VersionID p))"
  note wf' = object_effectD(1) [OF eff(1)]
  have id: "dor_MarkerID r = bump_vid (newest (versions t ?b ?k)) (dob_VersionID p)" using eff(2) by simp
  have new: "newest (versions t' ?b ?k) = Some ?e"
    by (rule store_inv_push(2) [OF assms(1) cfg k, of ?e]) (use eff(1) assms(2,5) in auto)
  have vs: "versions t' ?b ?k v = Some e \<or> bc_Versioning cfg = VersioningSuspended \<and> ve_NullVersion e \<and>
      \<not> lockedAt e (dob_ProposedAtUnixMS p) False" "v < dor_MarkerID r" if "versions t ?b ?k v = Some e" for v e
  proof -
    show lt: "v < dor_MarkerID r" using bump_above_all [OF assms(1) cfg k that] id by simp
    show "versions t' ?b ?k v = Some e \<or> bc_Versioning cfg = VersioningSuspended \<and> ve_NullVersion e \<and>
      \<not> lockedAt e (dob_ProposedAtUnixMS p) False"
      using object_effectD(3) [OF eff(1)] that lt id eff(3) by (auto simp: pushed_def without_null_Some)
  qed
  show ?thesis
    using new vs object_effectD(4) [OF eff(1)] b k
    by (simp add: Current_eq [OF wf'] GetVersion_eq [OF wf] GetVersion_eq [OF wf'] newestVersion_eq [OF wf'] id)
qed

theorem delete_object_hides_witness:
  "Current (fst (ApplyDeleteObject demo_marker demo_kv4)) demo_bucket demo_key = Inr None"
proof -
  have "snd (ApplyDeleteObject demo_marker demo_kv4) =
      Inr \<lparr>dor_Removed = False, dor_MarkerCreated = True, dor_MarkerID = 6, dor_RemovedDataIDs = []\<rparr>" by code_simp
  then have ok: "ApplyDeleteObject demo_marker demo_kv4 = (fst (ApplyDeleteObject demo_marker demo_kv4),
      Inr \<lparr>dor_Removed = False, dor_MarkerCreated = True, dor_MarkerID = 6, dor_RemovedDataIDs = []\<rparr>)"
    by (simp add: prod_eq_iff)
  obtain cfg where "GetBucket demo_kv4 demo_bucket = Inr (Some cfg)" "bc_Versioning cfg \<noteq> Unversioned"
  proof -
    have "GetBucket demo_kv4 demo_bucket \<noteq> Inl Panic \<and> GetBucket demo_kv4 demo_bucket \<noteq> Inr None \<and>
      (case GetBucket demo_kv4 demo_bucket of Inr (Some c) \<Rightarrow> bc_Versioning c \<noteq> Unversioned | _ \<Rightarrow> False)"
      by code_simp
    then show ?thesis using that by (auto split: sum.splits option.splits)
  qed
  with delete_object_hides [where n = 3 and p = demo_marker, OF demo_inv(4) _ ok] show ?thesis
    by (simp add: demo_marker_def)
qed

section \<open>Multipart uploads\<close>

text \<open>An upload of one part into the demo bucket.\<close>

definition demo_begin :: CreateMultipartUpload where
  "demo_begin = \<lparr>cm_ProposedAtUnixMS = 5, cm_Bucket = demo_bucket, cm_Key = demo_key2, cm_UploadID = 20,
     cm_ContentType = [], cm_UserMetadata = fmempty\<rparr>"

definition demo_part :: UploadPart where
  "demo_part = \<lparr>up_ProposedAtUnixMS = 6, up_Bucket = demo_bucket, up_Key = demo_key2, up_UploadID = 20,
     up_PartNumber = 1, up_DataID = 21, up_Size = 4, up_ETag = [9], up_Checksum = [], up_Partition = 0,
     up_ECDataShards = 0, up_ECParityShards = 0, up_ShardChecksums = [], up_EncAlgorithm = 0,
     up_WrappedDEK = [], up_KEKFingerprint = 0\<rparr>"

definition demo_complete :: CompleteMultipartUpload where
  "demo_complete = \<lparr>co_ProposedAtUnixMS = 7, co_Bucket = demo_bucket, co_Key = demo_key2, co_UploadID = 20,
     co_VersionID = 30, co_ETag = [9], co_Parts = [\<lparr>cp_PartNumber = 1, cp_ETag = [9]\<rparr>]\<rparr>"

definition demo_abort :: AbortMultipartUpload where
  "demo_abort = \<lparr>ab_ProposedAtUnixMS = 7, ab_Bucket = demo_bucket, ab_Key = demo_key2, ab_UploadID = 20\<rparr>"

definition demo_kv5 :: kv where
  "demo_kv5 = fst (Apply_body (P_CreateMultipartUpload demo_begin) demo_kv1)"

definition demo_kv6 :: kv where
  "demo_kv6 = fst (Apply_body (P_UploadPart demo_part) demo_kv5)"

lemma demo_kv6_inv: "store_inv n demo_kv6"
proof -
  have "snd (Apply_body (P_CreateMultipartUpload demo_begin) demo_kv1) = Inr R_Nil" by code_simp
  then have ok: "Apply_body (P_CreateMultipartUpload demo_begin) demo_kv1 = (demo_kv5, Inr R_Nil)"
    by (simp add: demo_kv5_def prod_eq_iff)
  have inv: "store_inv n demo_kv5" for n using Apply_body_inv [OF demo_inv(1) _ ok] by simp
  have "snd (Apply_body (P_UploadPart demo_part) demo_kv5) = Inr (R_UploadPart \<lparr>upr_ReplacedDataID = 0\<rparr>)" by code_simp
  then have ok2: "Apply_body (P_UploadPart demo_part) demo_kv5 = (demo_kv6, Inr (R_UploadPart \<lparr>upr_ReplacedDataID = 0\<rparr>))"
    by (simp add: demo_kv6_def prod_eq_iff)
  show ?thesis using Apply_body_inv [OF inv _ ok2] by simp
qed

text \<open>
  C20: Completing a multipart upload publishes one version whose parts are the stored parts the
  client names, in ascending part number, with matching ETags and every part but the last at
  least 5 MiB; the version is current, and the upload and all its parts are gone.
\<close>

theorem complete_multipart_publishes:
  assumes "store_inv (Suc n) t" and "vid_room n (P_CompleteMultipartUpload p)"
    and "ApplyCompleteMultipartUpload p t = (t', Inr r)"
    and "b = co_Bucket p" and "k = co_Key p" and "u = co_UploadID p"
  shows "\<exists>cfg upload prs e. GetBucket t b = Inr (Some cfg) \<and> upload_of t b k u = Some upload \<and>
    sorted_wrt (<) (map cp_PartNumber (co_Parts p)) \<and>
    map (\<lambda>c. parts_of t b k u (cp_PartNumber c)) (co_Parts p) = map Some prs \<and>
    map pr_ETag prs = map cp_ETag (co_Parts p) \<and> big_enough prs \<and>
    e = complete_entry p upload cfg (sum_list (map pr_Size prs)) (map part_ref_of prs) (cor_VersionID r) \<and>
    GetVersion t' b k (cor_VersionID r) = Inr (Some e) \<and> newestVersion t' b k = Inr (Some e) \<and>
    Current t' b k = Inr (Some (currentRecordFor e)) \<and>
    upload_of t' b k u = None \<and> (\<forall>i. parts_of t' b k u i = None)"
proof -
  note wf = store_invD(1) [OF assms(1)]
  show ?thesis
  proof (rule ApplyCompleteMultipartUpload_effect [OF assms(1,3), folded assms(4-6)])
    fix cfg upload prs e t1
    assume c: "bucket_of t b = Some cfg" "valid_bucket b" "valid_key k" and u: "upload_of t b k u = Some upload"
      and ps: "sorted_wrt (<) (map cp_PartNumber (co_Parts p))"
        "map (\<lambda>c. parts_of t b k u (cp_PartNumber c)) (co_Parts p) = map Some prs"
        "map pr_ETag prs = map cp_ETag (co_Parts p)" "big_enough prs"
      and e: "e = complete_entry p upload cfg (sum_list (map pr_Size prs)) (map part_ref_of prs)
         (bump_vid (newest (versions t b k)) (co_VersionID p))"
      and eff: "object_effect t b k (pushed (versions t b k) e) (Some (currentRecordFor e)) t1"
      and drop: "upload_dropped t1 b k u t'" and r: "cor_VersionID r = ve_VersionID e"
    note views = upload_dropped_views [OF drop c(2,3)]
    have wf': "wf_rows t'" using drop by (simp add: upload_dropped_def)
    have new: "newest (versions t1 b k) = Some e"
      by (rule store_inv_push(2) [OF assms(1) c(1,3), of e]) (use e eff assms(2) in auto)
    have e': "e = complete_entry p upload cfg (sum_list (map pr_Size prs)) (map part_ref_of prs) (cor_VersionID r)"
      using r e by simp
    have at: "versions t1 b k (cor_VersionID r) = Some e" using object_effectD(3) [OF eff] r by (simp add: pushed_def)
    show ?thesis
      using c u ps e' at new object_effectD(4) [OF eff] views
      by (intro exI [of _ cfg] exI [of _ upload] exI [of _ prs] exI [of _ e])
         (simp add: GetBucket_eq [OF wf] GetVersion_eq [OF wf'] Current_eq [OF wf'] newestVersion_eq [OF wf'])
  qed
qed

theorem complete_multipart_publishes_witness:
  "\<exists>e. GetVersion (fst (ApplyCompleteMultipartUpload demo_complete demo_kv6)) demo_bucket demo_key2 30 = Inr (Some e)"
proof -
  have "snd (ApplyCompleteMultipartUpload demo_complete demo_kv6) =
      Inr \<lparr>cor_VersionID = 30, cor_DiscardedDataIDs = []\<rparr>" by code_simp
  then have "ApplyCompleteMultipartUpload demo_complete demo_kv6 =
      (fst (ApplyCompleteMultipartUpload demo_complete demo_kv6), Inr \<lparr>cor_VersionID = 30, cor_DiscardedDataIDs = []\<rparr>)"
    by (simp add: prod_eq_iff)
  from complete_multipart_publishes [where n = 1, OF demo_kv6_inv _ this refl refl refl] show ?thesis
    by (auto simp: demo_complete_def)
qed

text \<open>
  Aborting an upload removes the upload and all its parts, reports the data of exactly those
  parts for reclamation, and touches no object version.
\<close>

theorem abort_multipart_discards:
  assumes "store_inv n t" and "ApplyAbortMultipartUpload p t = (t', Inr r)"
    and "b = ab_Bucket p" and "k = ab_Key p" and "u = ab_UploadID p"
  shows "upload_of t b k u \<noteq> None \<and> upload_of t' b k u = None \<and> (\<forall>i. parts_of t' b k u i = None) \<and>
    set (abr_PartDataIDs r) = {pr_DataID pr |i pr. parts_of t b k u i = Some pr} \<and>
    versions t' = versions t \<and> current_of t' = current_of t"
proof -
  note eff = ApplyAbortMultipartUpload_effect [OF assms(1,2), folded assms(3-5)]
  note views = upload_dropped_views [OF eff(1,3,4)]
  have "set (part_list t b k u) = {pr. \<exists>i. parts_of t b k u i = Some pr}"
    using finite_parts [OF store_invD(1) [OF assms(1)] valid_nul_free(1) [OF eff(3)] valid_nul_free(2) [OF eff(4)], of u]
    by (force simp: part_list_def image_iff)
  then show ?thesis using eff(2,3,4,5) views by auto
qed

theorem abort_multipart_discards_witness:
  "upload_of (fst (ApplyAbortMultipartUpload demo_abort demo_kv6)) demo_bucket demo_key2 20 = None"
proof -
  have "snd (ApplyAbortMultipartUpload demo_abort demo_kv6) = Inr \<lparr>abr_PartDataIDs = [21]\<rparr>" by code_simp
  then have "ApplyAbortMultipartUpload demo_abort demo_kv6 =
      (fst (ApplyAbortMultipartUpload demo_abort demo_kv6), Inr \<lparr>abr_PartDataIDs = [21]\<rparr>)" by (simp add: prod_eq_iff)
  from abort_multipart_discards [where n = 1, OF demo_kv6_inv this refl refl refl] show ?thesis
    by (simp add: demo_abort_def)
qed

end
