(* ===== verification/Listing_Properties.thy ===== *)
theory Listing_Properties
  imports Object_Properties
begin

text \<open>
  What the listings return: the ordered scan of the row store, seen through the key encoding, is
  a listing of keys in ascending order or of versions newest first, from a given key on and up
  to a limit.
\<close>

section \<open>Scans from a key inside a prefix\<close>

lemma takeWhile_prefix_from:
  assumes "finite A" and "p \<le> from"
  shows "takeWhile (\<lambda>k. prefix p k) (sorted_list_of_set {k \<in> A. from \<le> k}) =
    sorted_list_of_set {k \<in> A. from \<le> k \<and> prefix p (k :: gostring)}"
proof -
  have "{k \<in> {k \<in> A. from \<le> k}. p \<le> k} = {k \<in> A. from \<le> k}" using assms(2) by auto
  then show ?thesis using takeWhile_prefix_sorted [of "{k \<in> A. from \<le> k}" p] assms(1) by simp
qed

lemma tx_scan_from:
  assumes "tx_inv t" and "p \<le> from"
    and "\<And>k v s. \<not> prefix p k \<Longrightarrow> fn k v s = (s, False)"
  shows "tx_scan t from fn s =
    scan_rows (map (\<lambda>k. (k, tx_get t k)) (sorted_list_of_set {k \<in> dom (tx_get t). from \<le> k \<and> prefix p k})) fn s"
proof -
  have "tx_scan t from fn s = scan_rows (takeWhile (\<lambda>r. prefix p (fst r)) (tx_rows t from)) fn s"
    unfolding tx_scan_eq by (rule scan_rows_takeWhile) (rule assms(3))
  then show ?thesis
    using takeWhile_prefix_from [OF tx.finite_rows [OF assms(1)] assms(2)]
    by (simp add: tx.rows_eq [OF assms(1)] takeWhile_map comp_def)
qed

text \<open>A key followed by a NUL is the least key above it.\<close>

lemma snoc_zero_le: "x @ [0] \<le> (y :: gostring) \<longleftrightarrow> x < y"
proof (induction x arbitrary: y)
  case Nil
  have "[0] \<le> b # bs" for b :: byte and bs
    by (cases "b = 0") (simp_all add: word_gt_0)
  then show ?case by (cases y) simp_all
next
  case (Cons a x)
  then show ?case by (cases y) auto
qed

section \<open>Listing objects\<close>

text \<open>The reference listing: keys in order, from just after a key, up to a positive limit.\<close>

definition limit :: "int \<Rightarrow> 'a list \<Rightarrow> 'a list" where
  "limit mx xs = (if mx > 0 then take (nat mx) xs else xs)"

definition listed_keys :: "kv \<Rightarrow> gostring \<Rightarrow> gostring \<Rightarrow> gostring \<Rightarrow> gostring set" where
  "listed_keys t b pre after = {k \<in> dom (current_of t b). prefix pre k \<and> (after \<noteq> [] \<longrightarrow> after < k)}"

lemma current_rows_dom:
  assumes "wf_rows t" and "valid_bucket b"
  shows "{x \<in> dom (tx_get t). prefix (currentScanPrefix b @ pre) x} =
    currentRowKey b ` {k \<in> dom (current_of t b). prefix pre k}"
proof (intro equalityI subsetI)
  fix x
  assume "x \<in> {x \<in> dom (tx_get t). prefix (currentScanPrefix b @ pre) x}"
  then obtain r where r: "tx_get t x = Some r" and p: "prefix (currentScanPrefix b @ pre) x" by auto
  have "take 2 x = str ''c/''" using p by (auto simp: currentScanPrefix_def prefix_def str_def)
  from wf_row_take_2(3) [OF wf_rowsD [OF assms(1) r] this] obtain b' k c where
    x: "r = RCurrent c" "x = currentRowKey b' k" "valid_bucket b'" by blast
  then have "b' = b" "prefix pre k" using p assms(2) by (auto simp: currentScanPrefix_iff)
  with x r show "x \<in> currentRowKey b ` {k \<in> dom (current_of t b). prefix pre k}" by (auto simp: current_of_def)
next
  fix x
  assume "x \<in> currentRowKey b ` {k \<in> dom (current_of t b). prefix pre k}"
  then show "x \<in> {x \<in> dom (tx_get t). prefix (currentScanPrefix b @ pre) x}"
    using assms by (auto simp: wf_get_current currentScanPrefix_iff)
qed

lemma finite_current:
  assumes "wf_rows t" and "valid_bucket b"
  shows "finite {k \<in> dom (current_of t b). prefix pre k}"
proof (rule finite_imageD)
  show "finite (currentRowKey b ` {k \<in> dom (current_of t b). prefix pre k})"
    using finite_prefix_keys [OF wf_rows_inv [OF assms(1)]] by (simp flip: current_rows_dom [OF assms])
  show "inj_on (currentRowKey b) {k \<in> dom (current_of t b). prefix pre k}"
    by (simp add: inj_on_def currentRowKey_def)
qed

lemma finite_listed: "wf_rows t \<Longrightarrow> valid_bucket b \<Longrightarrow> finite (listed_keys t b pre after)"
  by (rule finite_subset [OF _ finite_current [of t b pre]]) (auto simp: listed_keys_def)

text \<open>A collecting scan with a limit.\<close>

lemma scan_rows_limit:
  assumes "\<And>k os. k \<in> set ks \<Longrightarrow> fn (f k) (g k) (Inr os) =
      (if mx > 0 \<and> int (length os) = mx then (Inr os, False) else (Inr (os @ [h k]), True))"
    and "mx > 0 \<Longrightarrow> int (length os) \<le> mx"
  shows "scan_rows (map (\<lambda>k. (f k, g k)) ks) fn (Inr os) =
    (Inr (if mx > 0 then os @ take (nat mx - length os) (map h ks) else os @ map h ks) :: 'e + 'o list)"
  using assms
proof (induction ks arbitrary: os)
  case (Cons k ks)
  show ?case
  proof (cases "mx > 0 \<and> int (length os) = mx")
    case True
    then show ?thesis using Cons.prems(1) [of k os] by auto
  next
    case False
    then have "mx > 0 \<Longrightarrow> int (length (os @ [h k])) \<le> mx" "mx > 0 \<Longrightarrow> nat mx - length os = Suc (nat mx - Suc (length os))"
      using Cons.prems(2) by auto
    with False show ?thesis using Cons.prems(1) [of k os] Cons.IH [of "os @ [h k]"] Cons.prems(1) by simp
  qed
qed simp

text \<open>
  C22: Listing a bucket returns exactly the objects whose key has the prefix and lies after
  \<^verbatim>\<open>startAfter\<close>, in ascending byte order of the key, each with its current record, cut at the
  limit; delete markers and removed keys are not listed.
\<close>

theorem list_objects_spec:
  assumes "store_inv n t" and "valid_bucket b"
  shows "ListObjects t b pre after mx = Inr (limit mx
    (map (\<lambda>k. \<lparr>obl_Key = k, obl_Current = the (current_of t b k)\<rparr>) (sorted_list_of_set (listed_keys t b pre after))))"
proof -
  note wf = store_invD(1) [OF assms(1)]
  note inv = wf_rows_inv [OF wf]
  let ?p = "currentScanPrefix b @ pre" and ?h = "\<lambda>k. \<lparr>obl_Key = k, obl_Current = the (current_of t b k)\<rparr>"
  let ?after = "currentRowKey b after @ nul" and ?ks = "sorted_list_of_set (listed_keys t b pre after)"
  define lo where "lo = (if after \<noteq> [] then if ?after > ?p then ?after else ?p else ?p)"
  define fn where "fn = (\<lambda>k v out. if \<not> prefix ?p k then (out, False)
     else case out of Inl e \<Rightarrow> (Inl e, False)
       | Inr os \<Rightarrow> if mx > 0 \<and> int (length os) = mx then (out, False)
           else case (v, objectKeyFromCurrentRow k b) of
              (Some (RCurrent c), Some key) \<Rightarrow> (Inr (os @ [\<lparr>obl_Key = key, obl_Current = c\<rparr>]), True)
            | _ \<Rightarrow> (Inl Panic, False))"
  have lo: "lo \<le> currentRowKey b k \<longleftrightarrow> (after \<noteq> [] \<longrightarrow> after < k)" if "prefix pre k" for k
  proof -
    have "prefix ?p (currentRowKey b k)" using that assms(2) by (simp add: currentScanPrefix_iff)
    then have "?p \<le> currentRowKey b k" by (rule prefix_imp_le)
    moreover have "?after \<le> currentRowKey b k \<longleftrightarrow> after < k"
      using snoc_zero_le [of after k] by (simp add: currentRowKey_def nul_def)
    ultimately show ?thesis by (auto simp: lo_def)
  qed
  have le: "?p \<le> lo" by (auto simp: lo_def)
  have "{x \<in> dom (tx_get t). lo \<le> x \<and> prefix ?p x} = {x \<in> {x \<in> dom (tx_get t). prefix ?p x}. lo \<le> x}" by blast
  also have "\<dots> = currentRowKey b ` listed_keys t b pre after"
    using lo by (auto simp: current_rows_dom [OF wf assms(2)] listed_keys_def)
  finally have keys: "sorted_list_of_set {x \<in> dom (tx_get t). lo \<le> x \<and> prefix ?p x} = map (currentRowKey b) ?ks"
    by (simp only:) (rule sorted_list_of_set_image_mono, simp_all add: finite_listed [OF wf assms(2)] currentRowKey_def)
  have "ListObjects t b pre after mx = tx_scan t lo fn (Inr [])"
    by (simp add: ListObjects_def Let_def lo_def fn_def)
  also have "\<dots> = scan_rows (map (\<lambda>k. (currentRowKey b k, tx_get t (currentRowKey b k))) ?ks) fn (Inr [])"
    using tx_scan_from [OF inv le, of fn] by (simp add: keys fn_def comp_def)
  also have "\<dots> = Inr (if mx > 0 then [] @ take (nat mx - length ([] :: ObjectListing list)) (map ?h ?ks) else [] @ map ?h ?ks)"
  proof (rule scan_rows_limit)
    fix k and os :: "ObjectListing list"
    assume "k \<in> set ?ks"
    then have "k \<in> dom (current_of t b)" "prefix pre k"
      using finite_listed [OF wf assms(2)] by (auto simp: listed_keys_def)
    then show "fn (currentRowKey b k) (tx_get t (currentRowKey b k)) (Inr os) =
        (if mx > 0 \<and> int (length os) = mx then (Inr os, False) else (Inr (os @ [?h k]), True))"
      using assms(2) by (auto simp: fn_def wf_get_current [OF wf] currentScanPrefix_iff)
  qed simp
  finally show ?thesis by (simp add: limit_def)
qed

theorem list_objects_spec_witness:
  "ListObjects demo_kv4 demo_bucket [] demo_key2 10 = Inr (limit 10
    (map (\<lambda>k. \<lparr>obl_Key = k, obl_Current = the (current_of demo_kv4 demo_bucket k)\<rparr>)
      (sorted_list_of_set (listed_keys demo_kv4 demo_bucket [] demo_key2))))"
proof (rule list_objects_spec)
  show "store_inv 0 demo_kv4" by (rule demo_inv(4)) simp
  show "valid_bucket demo_bucket" by code_simp
qed

section \<open>Listing versions\<close>

text \<open>
  The versions of a key are listed completely and newest first: in descending order of version
  ID, and the first of them is the version that is current.
\<close>

theorem list_versions_newest_first:
  assumes "store_inv n t" and "valid_bucket b" and "valid_key k"
  shows "\<exists>es. ListVersions t b k = Inr es \<and> sorted_wrt (\<lambda>e e'. ve_VersionID e > ve_VersionID e') es \<and>
    set es = ran (versions t b k) \<and> newestVersion t b k = Inr (if es = [] then None else Some (hd es))"
proof -
  note wf = store_invD(1) [OF assms(1)]
  note nf = valid_nul_free(1) [OF assms(2)] valid_nul_free(2) [OF assms(3)]
  let ?m = "versions t b k"
  let ?vs = "rev (sorted_list_of_set (dom ?m))"
  let ?es = "map (\<lambda>v. the (?m v)) ?vs"
  have fin: "finite (dom ?m)" using finite_versions [OF wf nf] .
  have id: "ve_VersionID (the (?m v)) = v" if "v \<in> dom ?m" for v
    using that versions_vid [OF wf] by auto
  let ?step = "\<lambda>k v out. case (v, out) of (Some (RVersion e), Inr es) \<Rightarrow> (Inr (es @ [e]), True) | _ \<Rightarrow> (Inl Panic, False)"
  have "ListVersions t b k = scan_rows (prefix_rows t (versionScanPrefix b k)) ?step (Inr [])"
    unfolding ListVersions_def Let_def
    by (rule tx_scan_prefix) (auto simp: wf_rows_inv wf set_prefix_rows)
  moreover have "scan_rows (map (\<lambda>v. (f v, Some (RVersion (g v)))) vs) ?step (Inr es) = Inr (es @ map g vs)"
    for f :: "version_id \<Rightarrow> gostring" and g vs es by (induction vs arbitrary: es) simp_all
  ultimately have list: "ListVersions t b k = Inr ?es" by (simp add: version_rows [OF wf nf])
  have "sorted_wrt (>) ?vs" by (simp add: sorted_wrt_rev)
  then have sorted: "sorted_wrt (\<lambda>e e'. ve_VersionID e > ve_VersionID e') ?es"
    unfolding sorted_wrt_map by (rule sorted_wrt_mono_rel [rotated]) (use fin id in auto)
  have elems: "set ?es = ran ?m" using fin by (force simp: ran_def image_iff)
  have "newest ?m = (if ?es = [] then None else Some (hd ?es))"
  proof (cases "?es = []")
    case True
    then have "dom ?m = {}" using fin by simp
    then show ?thesis using True by (simp add: newest_def)
  next
    case False
    then obtain v vs where vs: "?vs = v # vs" by (cases ?vs) auto
    have "v \<in> dom ?m" using vs fin by (metis list.set_intros(1) set_rev set_sorted_list_of_set)
    moreover have "w \<le> v" if "?m w = Some e'" for w e'
    proof -
      have "w \<in> set (v # vs)" using that fin vs by (metis domI set_rev set_sorted_list_of_set)
      then show ?thesis using \<open>sorted_wrt (>) ?vs\<close> vs by auto
    qed
    ultimately have "newest ?m = Some (the (?m v))" using fin by (intro newestI) auto
    then show ?thesis using vs by simp
  qed
  then show ?thesis using list sorted elems newestVersion_eq [OF wf nf] by (intro exI [of _ ?es]) simp
qed

theorem list_versions_newest_first_witness:
  "\<exists>es. ListVersions demo_kv4 demo_bucket demo_key2 = Inr es \<and>
    sorted_wrt (\<lambda>e e'. ve_VersionID e > ve_VersionID e') es"
proof -
  have "valid_bucket demo_bucket" "valid_key demo_key2" by code_simp+
  from list_versions_newest_first [where n = 0, OF demo_inv(4) this] show ?thesis by auto
qed

end
