(* ===== verification/System_Properties.thy ===== *)
theory System_Properties
  imports Object_Effects
begin

text \<open>
  What the store promises about its system rows over histories (encryption posture, cluster
  layout), about buckets and about default retention.
\<close>

section \<open>System rows over histories\<close>

text \<open>A property of the row under one key that every successful apply keeps is kept by a history.\<close>

lemma run_row:
  assumes "tx_inv (s_kv s)" and "I (tx_get (s_kv s) x)"
    and "\<And>p t t' r. I (tx_get t x) \<Longrightarrow> Apply_body p t = (t', Inr r) \<Longrightarrow> I (tx_get t' x)"
  shows "I (tx_get (s_kv (run pw commit ps s)) x)"
  using assms(1,2)
proof (induction ps arbitrary: s)
  case (Cons p ps)
  have "I (tx_get (s_kv (fst (Apply pw commit p s))) x)"
  proof (cases "snd (Apply pw commit p s)")
    case (Inl e)
    then show ?thesis using Apply_error [OF Cons.prems(1) Inl] Cons.prems(2) by (simp add: tx_get_eq)
  next
    case (Inr r)
    then show ?thesis using Apply_ok [OF Inr] assms(3) [of "tx_reset (s_kv s)" p] Cons.prems(2) by auto
  qed
  then show ?case using Cons.IH [OF Apply_inv [OF Cons.prems(1)]] by simp
qed simp

text \<open>The object operations do not touch a system row.\<close>

lemma object_proposal_system:
  assumes "Apply_body p t = (t', r)" and "\<not> system_proposal p"
  shows "tx_get t' clusterLayoutKey = tx_get t clusterLayoutKey"
    "tx_get t' encryptionPostureKey = tx_get t encryptionPostureKey"
  using sysframe.object_proposal_closed [OF assms(2), of "tx_get t" t] assms(1)
  by (simp_all add: system_rows_are_def take_2_row_keys)

lemmas system_apply_defs = ApplySetClusterLayout_def ApplySetEncryptionPosture_def ApplyBeginKEKRotation_def
  ApplyCompleteKEKRotation_def ApplyRegisterNode_def ApplySetNodeDraining_def ApplySetNodeReplacedBy_def
  ApplySetNodeLeafCA_def ApplySetNodeVersion_def ApplySetTrustBundle_def

text \<open>A successful system operation, inverted: what it wrote.\<close>

lemma ret_nil_Inr: "ret_nil r = (t, Inr x) \<longleftrightarrow> r = (t, Inr ()) \<and> x = R_Nil"
  by (cases r; cases "snd r") (auto simp: ret_nil_def)

definition encrypts :: "row option \<Rightarrow> bool" where
  "encrypts r \<longleftrightarrow> (\<exists>p. r = Some (RPosture p) \<and> ep_Algorithm p \<noteq> EncNone)"

lemma encrypts_step:
  assumes "encrypts (tx_get t encryptionPostureKey)" and "Apply_body p t = (t', Inr r)"
  shows "encrypts (tx_get t' encryptionPostureKey)"
proof (cases "system_proposal p")
  case True
  obtain q where q: "tx_get t encryptionPostureKey = Some (RPosture q)" "ep_Algorithm q \<noteq> EncNone"
    using assms(1) by (auto simp: encrypts_def)
  with True assms(2) show ?thesis
    by (cases p)
       (auto simp: encrypts_def ret_nil_Inr system_apply_defs Let_def EncryptionPosture_zero_def
         split: option.splits row.splits if_splits sum.splits)
qed (use assms object_proposal_system(2) [of p t] in auto)

text \<open>
  C26: Encryption at rest is enable-only. Once the cluster encrypts, no history of proposals turns
  it off, whether they succeed or fail.
\<close>

theorem encryption_never_downgraded:
  assumes "store_inv n (s_kv s)" and "EncryptionAlgorithm (s_kv s) = Inr a" and "a \<noteq> EncNone"
  shows "\<exists>a'. EncryptionAlgorithm (s_kv (run pw commit ps s)) = Inr a' \<and> a' \<noteq> EncNone"
proof -
  have "encrypts (tx_get (s_kv (run pw commit ps s)) encryptionPostureKey)"
  proof (rule run_row [where I = encrypts])
    show "encrypts (tx_get (s_kv s) encryptionPostureKey)"
      using assms(2,3) by (auto simp: EncryptionAlgorithm_def encrypts_def split: option.splits row.splits)
  qed (use assms(1) encrypts_step in \<open>auto intro: wf_rows_inv store_invD(1)\<close>)
  then show ?thesis by (auto simp: encrypts_def EncryptionAlgorithm_def)
qed

definition demo_encrypt :: SetEncryptionPosture where
  "demo_encrypt = \<lparr>se_ProposedAtUnixMS = 1, se_Algorithm = EncAES256GCM, se_KEKFingerprint = 0\<rparr>"

definition demo_plain :: SetEncryptionPosture where
  "demo_plain = \<lparr>se_ProposedAtUnixMS = 2, se_Algorithm = EncNone, se_KEKFingerprint = 0\<rparr>"

definition demo_encrypted :: "unit Store" where
  "demo_encrypted = \<lparr>s_kv = fst (Apply_body (P_SetEncryptionPosture demo_encrypt) demo_kv1), s_persist = None\<rparr>"

lemma demo_encrypted_inv: "store_inv n (s_kv demo_encrypted)"
proof -
  have "snd (Apply_body (P_SetEncryptionPosture demo_encrypt) demo_kv1) = Inr R_Nil" by code_simp
  then have ok: "Apply_body (P_SetEncryptionPosture demo_encrypt) demo_kv1 = (s_kv demo_encrypted, Inr R_Nil)"
    by (simp add: demo_encrypted_def prod_eq_iff)
  show ?thesis using Apply_body_inv [OF demo_inv(1) _ ok] by simp
qed

theorem encryption_never_downgraded_witness:
  "\<exists>a'. EncryptionAlgorithm (s_kv (run ref_wire no_commit [P_SetEncryptionPosture demo_plain] demo_encrypted)) = Inr a' \<and>
    a' \<noteq> EncNone"
proof (rule encryption_never_downgraded [OF demo_encrypted_inv [of 0], where a = EncAES256GCM])
  show "EncryptionAlgorithm (s_kv demo_encrypted) = Inr EncAES256GCM" by code_simp
  show "EncAES256GCM \<noteq> EncNone" by code_simp
qed

definition has_partitions :: "u32 \<Rightarrow> row option \<Rightarrow> bool" where
  "has_partitions c r \<longleftrightarrow> (\<exists>l. r = Some (RLayout l) \<and> cl_PartitionCount l = c)"

lemma has_partitions_step:
  assumes "has_partitions c (tx_get t clusterLayoutKey)" and "Apply_body p t = (t', Inr r)"
  shows "has_partitions c (tx_get t' clusterLayoutKey)"
proof (cases "system_proposal p")
  case True
  obtain l where "tx_get t clusterLayoutKey = Some (RLayout l)" "cl_PartitionCount l = c"
    using assms(1) by (auto simp: has_partitions_def)
  with True assms(2) show ?thesis
    by (cases p)
       (auto simp: has_partitions_def ret_nil_Inr system_apply_defs Let_def
         split: option.splits row.splits if_splits sum.splits)
qed (use assms object_proposal_system(1) [of p t] in auto)

text \<open>
  The partition count is fixed for life: once a layout is installed, every history leaves a
  layout with the same number of partitions, so that the partition of a key never changes.
\<close>

theorem partition_count_constant:
  assumes "store_inv n (s_kv s)" and "ClusterLayout_read (s_kv s) = Inr (Some l)"
  shows "\<exists>l'. ClusterLayout_read (s_kv (run pw commit ps s)) = Inr (Some l') \<and> cl_PartitionCount l' = cl_PartitionCount l"
proof -
  have "has_partitions (cl_PartitionCount l) (tx_get (s_kv (run pw commit ps s)) clusterLayoutKey)"
  proof (rule run_row [where I = "has_partitions (cl_PartitionCount l)"])
    show "has_partitions (cl_PartitionCount l) (tx_get (s_kv s) clusterLayoutKey)"
      using assms(2) by (auto simp: ClusterLayout_read_def has_partitions_def split: option.splits row.splits)
  qed (use assms(1) has_partitions_step in \<open>auto intro: wf_rows_inv store_invD(1)\<close>)
  then show ?thesis by (auto simp: has_partitions_def ClusterLayout_read_def)
qed

definition demo_layout :: SetClusterLayout where
  "demo_layout = \<lparr>sl_ProposedAtUnixMS = 1, sl_Version = 1, sl_PartitionCount = 64, sl_Members = [str ''n''],
     sl_Nodes = [], sl_Previous = []\<rparr>"

definition demo_laid :: "unit Store" where
  "demo_laid = \<lparr>s_kv = fst (Apply_body (P_SetClusterLayout demo_layout) demo_kv1), s_persist = None\<rparr>"

lemma demo_layout_ok: "ApplySetClusterLayout demo_layout demo_kv1 = (s_kv demo_laid, Inr ())"
proof -
  have "snd (ApplySetClusterLayout demo_layout demo_kv1) = Inr ()" by code_simp
  then show ?thesis by (simp add: demo_laid_def prod_eq_iff ret_nil_def)
qed

lemma demo_laid_inv: "store_inv n (s_kv demo_laid)"
proof -
  have ok: "Apply_body (P_SetClusterLayout demo_layout) demo_kv1 = (s_kv demo_laid, Inr R_Nil)"
    using demo_layout_ok by (simp add: ret_nil_Inr)
  show ?thesis using Apply_body_inv [OF demo_inv(1) _ ok] by simp
qed

theorem partition_count_constant_witness:
  "\<exists>l'. ClusterLayout_read (s_kv (run ref_wire no_commit
      [P_SetClusterLayout (demo_layout\<lparr>sl_Version := 2, sl_PartitionCount := 65\<rparr>)] demo_laid)) = Inr (Some l') \<and>
    cl_PartitionCount l' = 64"
proof -
  have "case ClusterLayout_read (s_kv demo_laid) of Inr (Some l) \<Rightarrow> cl_PartitionCount l = 64 | _ \<Rightarrow> False" by code_simp
  then obtain l where "ClusterLayout_read (s_kv demo_laid) = Inr (Some l)" "cl_PartitionCount l = 64"
    by (auto split: sum.splits option.splits)
  with partition_count_constant [OF demo_laid_inv [of 0]] show ?thesis by metis
qed

text \<open>
  A layout change is a compare-and-swap: of two layouts proposed against the same version
  only the first to be applied is installed, the other is refused and changes nothing.
\<close>

theorem layout_compare_and_swap:
  assumes "store_inv n t" and "ApplySetClusterLayout p t = (t', Inr ())" and "sl_Version q = sl_Version p"
  shows "ClusterLayout_read t' = Inr (Some \<lparr>cl_FormatVersion = currentFormatVersion, cl_Version = sl_Version p,
      cl_PartitionCount = sl_PartitionCount p, cl_Members = sl_Members p, cl_Nodes = sl_Nodes p,
      cl_Previous = sl_Previous p, cl_unknown = []\<rparr>) \<and>
    (\<exists>e. e \<in> {ErrStaleLayout, ErrInvalidLayout} \<and> ApplySetClusterLayout q t' = (t', Inl e))"
proof (rule layout_cases [OF assms(1)])
  assume "tx_get t clusterLayoutKey = None"
  then show ?thesis
    using assms(2,3) by (auto simp: ApplySetClusterLayout_def ClusterLayout_read_def Let_def split: if_splits)
next
  fix l
  assume "tx_get t clusterLayoutKey = Some (RLayout l)"
  then show ?thesis
    using assms(2,3) by (auto simp: ApplySetClusterLayout_def ClusterLayout_read_def Let_def split: if_splits)
qed

theorem layout_compare_and_swap_witness:
  "\<exists>e. e \<in> {ErrStaleLayout, ErrInvalidLayout} \<and>
    ApplySetClusterLayout demo_layout (s_kv demo_laid) = (s_kv demo_laid, Inl e)"
  using layout_compare_and_swap [OF demo_inv(1) demo_layout_ok refl] by blast

section \<open>Default retention\<close>

text \<open>
  A PUT into a bucket with a default retention of \<open>d\<close> days, without a retention of its own, is
  locked at every instant before \<open>d\<close> times 24 hours after the PUT.
\<close>

theorem default_retention_locks:
  assumes "store_inv (Suc n) t" and "ApplyPutObject p t = (t', Inr r)"
    and "GetBucket t (po_Bucket p) = Inr (Some cfg)" and "bc_ObjectLockEnabled cfg"
    and "bc_DefaultRetentionMode cfg \<in> {RetentionGovernance, RetentionCompliance}"
    and "bc_DefaultRetentionYears cfg = 0" and "po_RetentionMode p = RetentionNone"
    and "until = sint (po_ProposedAtUnixMS p) + uint (bc_DefaultRetentionDays cfg) * 86400000" and "until < 2 ^ 63"
  shows "\<exists>e. GetVersion t' (po_Bucket p) (po_Key p) (res_VersionID r) = Inr (Some e) \<and>
    (\<forall>now. sint now < until \<longrightarrow> lockedAt e now False)"
proof -
  note wf = store_invD(1) [OF assms(1)]
  from ApplyPutObject_effect [OF assms(1,2)] obtain c e where
    c: "bucket_of t (po_Bucket p) = Some c"
    and e: "e = put_entry p c (bump_vid (newest (versions t (po_Bucket p) (po_Key p))) (po_VersionID p))"
    and eff: "object_effect t (po_Bucket p) (po_Key p) (pushed (versions t (po_Bucket p) (po_Key p)) e)
       (Some (currentRecordFor e)) t'" and r: "res_VersionID r = ve_VersionID e" by metis
  have "c = cfg" using c assms(3) by (simp add: GetBucket_eq [OF wf])
  then have mode: "ve_RetentionMode e = bc_DefaultRetentionMode cfg"
    and date: "ve_RetainUntilUnixMS e = retainUntilFromDefault (po_ProposedAtUnixMS p) (bc_DefaultRetentionDays cfg) 0"
    using e assms(4-7) by (auto simp: put_entry_def VersionEntry_zero_def Let_def RetentionNone_def
        RetentionGovernance_def RetentionCompliance_def)
  have "sint (ve_RetainUntilUnixMS e) = until"
    unfolding date assms(8) using retainUntilFromDefault_days [of "po_ProposedAtUnixMS p"] assms(8,9)
    by (simp add: ms_per_day_def)
  then have "lockedAt e now False" if "sint now < until" for now
    using that mode assms(5) by (auto simp: lockedAt_iff i64_less_def word_sless_alt)
  moreover have "versions t' (po_Bucket p) (po_Key p) (res_VersionID r) = Some e"
    using object_effectD(3) [OF eff] r by (simp add: pushed_def)
  ultimately show ?thesis using GetVersion_eq [OF object_effectD(1) [OF eff]] by auto
qed

definition demo_default :: SetObjectLockConfiguration where
  "demo_default = \<lparr>ol_ProposedAtUnixMS = 1, ol_Bucket = demo_bucket, ol_DefaultRetentionMode = RetentionGovernance,
     ol_DefaultRetentionDays = 30, ol_DefaultRetentionYears = 0\<rparr>"

definition demo_kv_default :: kv where
  "demo_kv_default = fst (Apply_body (P_SetObjectLockConfiguration demo_default) demo_kv1)"

lemma demo_default_inv: "store_inv n demo_kv_default"
proof -
  have "snd (Apply_body (P_SetObjectLockConfiguration demo_default) demo_kv1) = Inr R_Nil" by code_simp
  then have ok: "Apply_body (P_SetObjectLockConfiguration demo_default) demo_kv1 = (demo_kv_default, Inr R_Nil)"
    by (simp add: demo_kv_default_def prod_eq_iff)
  show ?thesis using Apply_body_inv [OF demo_inv(1) _ ok] by simp
qed

abbreviation demo_plain_put :: PutObject where
  "demo_plain_put \<equiv> demo_put\<lparr>po_RetentionMode := RetentionNone, po_RetainUntilUnixMS := 0\<rparr>"

theorem default_retention_locks_witness:
  "\<exists>e. GetVersion (fst (ApplyPutObject demo_plain_put demo_kv_default)) demo_bucket demo_key 5 = Inr (Some e) \<and>
    lockedAt e 2592000001 False"
proof -
  let ?r = "\<lparr>res_VersionID = 5, res_ReplacedDataIDs = []\<rparr>"
  have "snd (ApplyPutObject demo_plain_put demo_kv_default) = Inr ?r" by code_simp
  then have ok: "ApplyPutObject demo_plain_put demo_kv_default =
      (fst (ApplyPutObject demo_plain_put demo_kv_default), Inr ?r)" by (simp add: prod_eq_iff)
  have "case GetBucket demo_kv_default demo_bucket of Inr (Some c) \<Rightarrow> bc_ObjectLockEnabled c \<and>
      bc_DefaultRetentionMode c = RetentionGovernance \<and> bc_DefaultRetentionYears c = 0 \<and>
      bc_DefaultRetentionDays c = 30 | _ \<Rightarrow> False" by code_simp
  then obtain c where c: "GetBucket demo_kv_default demo_bucket = Inr (Some c)" "bc_ObjectLockEnabled c"
    "bc_DefaultRetentionMode c = RetentionGovernance" "bc_DefaultRetentionYears c = 0" "bc_DefaultRetentionDays c = 30"
    by (auto split: sum.splits option.splits)
  have "uint (30 :: u32) = 30" "sint (2 :: i64) = 2" "sint (2592000001 :: i64) = 2592000001" by code_simp+
  with default_retention_locks [where n = 0 and p = demo_plain_put and cfg = c and until = 2592000002,
      OF demo_default_inv ok] c show ?thesis
    by (auto simp: demo_put_def)
qed

text \<open>
  A multipart upload completed in a bucket with a default retention gets none: its version can
  be deleted at once, where a PUT of the same object at the same time is locked.
\<close>

theorem multipart_ignores_default_retention:
  assumes "store_inv (Suc n) t" and "ApplyCompleteMultipartUpload p t = (t', Inr r)"
  shows "\<exists>e. GetVersion t' (co_Bucket p) (co_Key p) (cor_VersionID r) = Inr (Some e) \<and>
    ve_RetentionMode e = RetentionNone \<and> (\<forall>now. \<not> lockedAt e now False)"
proof (rule ApplyCompleteMultipartUpload_effect [OF assms])
  fix cfg upload prs e t1
  assume v: "valid_bucket (co_Bucket p)" "valid_key (co_Key p)"
    and e: "e = complete_entry p upload cfg (sum_list (map pr_Size prs)) (map part_ref_of prs)
       (bump_vid (newest (versions t (co_Bucket p) (co_Key p))) (co_VersionID p))"
    and eff: "object_effect t (co_Bucket p) (co_Key p) (pushed (versions t (co_Bucket p) (co_Key p)) e)
       (Some (currentRecordFor e)) t1"
    and drop: "upload_dropped t1 (co_Bucket p) (co_Key p) (co_UploadID p) t'" and r: "cor_VersionID r = ve_VersionID e"
  have none: "ve_RetentionMode e = RetentionNone" "\<not> ve_LegalHold e"
    using e by (simp_all add: complete_entry_def VersionEntry_zero_def RetentionNone_def)
  then have "\<not> lockedAt e now False" for now
    by (simp add: lockedAt_iff RetentionNone_def RetentionGovernance_def RetentionCompliance_def)
  moreover have "versions t' (co_Bucket p) (co_Key p) (cor_VersionID r) = Some e"
    using object_effectD(3) [OF eff] r upload_dropped_views [OF drop v] by (simp add: pushed_def)
  ultimately show ?thesis using none drop GetVersion_eq [of t'] by (auto simp: upload_dropped_def)
qed

definition demo_kv_uploaded :: kv where
  "demo_kv_uploaded = fst (ApplyUploadPart demo_part (fst (ApplyCreateMultipartUpload demo_begin demo_kv_default)))"

lemma demo_uploaded_inv: "store_inv n demo_kv_uploaded"
proof -
  let ?t = "fst (ApplyCreateMultipartUpload demo_begin demo_kv_default)"
  have "snd (Apply_body (P_CreateMultipartUpload demo_begin) demo_kv_default) = Inr R_Nil"
    "snd (Apply_body (P_UploadPart demo_part) ?t) = Inr (R_UploadPart \<lparr>upr_ReplacedDataID = 0\<rparr>)" by code_simp+
  then have ok: "Apply_body (P_CreateMultipartUpload demo_begin) demo_kv_default = (?t, Inr R_Nil)"
    "Apply_body (P_UploadPart demo_part) ?t = (demo_kv_uploaded, Inr (R_UploadPart \<lparr>upr_ReplacedDataID = 0\<rparr>))"
    by (simp_all add: demo_kv_uploaded_def prod_eq_iff ret_nil_def ret_with_def)
  have inv: "store_inv n ?t" for n using Apply_body_inv [OF demo_default_inv _ ok(1)] by simp
  show ?thesis using Apply_body_inv [OF inv _ ok(2)] by simp
qed

theorem multipart_ignores_default_retention_witness:
  "\<exists>e. GetVersion (fst (ApplyCompleteMultipartUpload demo_complete demo_kv_uploaded)) demo_bucket demo_key2 30 = Inr (Some e) \<and>
    ve_RetentionMode e = RetentionNone \<and> (\<forall>now. \<not> lockedAt e now False)"
proof -
  have "snd (ApplyCompleteMultipartUpload demo_complete demo_kv_uploaded) =
      Inr \<lparr>cor_VersionID = 30, cor_DiscardedDataIDs = []\<rparr>" by code_simp
  then have "ApplyCompleteMultipartUpload demo_complete demo_kv_uploaded =
      (fst (ApplyCompleteMultipartUpload demo_complete demo_kv_uploaded), Inr \<lparr>cor_VersionID = 30, cor_DiscardedDataIDs = []\<rparr>)"
    by (simp add: prod_eq_iff)
  from multipart_ignores_default_retention [OF demo_uploaded_inv this] show ?thesis by (simp add: demo_complete_def)
qed

section \<open>An unknown retention mode\<close>

definition demo_downgrade :: UpdateRetention where
  "demo_downgrade = \<lparr>ut_ProposedAtUnixMS = 50, ut_Bucket = demo_bucket, ut_Key = demo_key2, ut_VersionID = 6,
     ut_Mode = 7, ut_RetainUntilUnixMS = 100, ut_BypassGovernance = False\<rparr>"

definition demo_plain_delete :: DeleteVersion where
  "demo_plain_delete = demo_delete\<lparr>dv_Key := demo_key2, dv_VersionID := 6, dv_BypassGovernance := False\<rparr>"

lemma ApplyDeleteVersion_locked:
  assumes "store_inv n t" and "bucket_of t (dv_Bucket p) = Some cfg" and "valid_key (dv_Key p)"
    and "versions t (dv_Bucket p) (dv_Key p) (dv_VersionID p) = Some e"
    and "lockedAt e (dv_ProposedAtUnixMS p) (dv_BypassGovernance p)"
  shows "ApplyDeleteVersion p t = (t, Inl ErrObjectLocked)"
proof -
  note wf = store_invD(1) [OF assms(1)]
  show ?thesis using assms(2-5) by (simp add: ApplyDeleteVersion_def GetBucket_eq [OF wf] wf_get_version [OF wf])
qed

lemma ApplyDeleteVersion_removes:
  assumes "store_inv n t" and "bucket_of t (dv_Bucket p) = Some cfg" and "valid_key (dv_Key p)"
    and "versions t (dv_Bucket p) (dv_Key p) (dv_VersionID p) = Some e"
    and "\<not> lockedAt e (dv_ProposedAtUnixMS p) (dv_BypassGovernance p)"
  shows "\<exists>t'. ApplyDeleteVersion p t = (t', Inr \<lparr>dvr_Removed = True\<rparr>)"
proof -
  note wf = store_invD(1) [OF assms(1)]
  have b: "valid_bucket (dv_Bucket p)" using bucket_of_name [OF wf assms(2)] by simp
  note nf = valid_nul_free(1) [OF b] valid_nul_free(2) [OF assms(3)]
  show ?thesis
    using assms(2-5)
    by (simp add: ApplyDeleteVersion_def GetBucket_eq [OF wf] wf_get_version [OF wf] newestVersion_eq [OF wf nf]
        newestVersion_eq [OF wf_rows_delete [OF wf] nf] Let_def split: option.split)
qed

lemma ApplyUpdateRetention_unknown:
  assumes "lockTarget t (ut_Bucket u) (ut_Key u) (ut_VersionID u) = Inr e" and "ve_RetentionMode e = RetentionGovernance"
    and "ut_Mode u \<notin> {RetentionNone, RetentionGovernance, RetentionCompliance}"
    and "i64_less (ut_ProposedAtUnixMS u) (ve_RetainUntilUnixMS e)" and "i64_le (ve_RetainUntilUnixMS e) (ut_RetainUntilUnixMS u)"
  shows "\<exists>t'. ApplyUpdateRetention u t = (t', Inr ())"
proof -
  have "\<not> i64_le (ut_RetainUntilUnixMS u) (ut_ProposedAtUnixMS u)" "\<not> i64_le (ve_RetainUntilUnixMS e) (ut_ProposedAtUnixMS u)"
    using assms(4,5) i64_le_trans by (auto simp: i64_less_iff_not_le)
  then show ?thesis using assms by (simp add: ApplyUpdateRetention_def Let_def i64_less_iff_not_le)
qed

text \<open>
  C29: The update of a retention does not check that the mode is a known one, and so lifts GOVERNANCE. Take any object version under
  unexpired GOVERNANCE retention and no legal hold, in any store that satisfies the invariant: a delete without bypass is refused before
  the date. An update of the retention to a mode that is none of the three known ones, with the same date or a later one, is accepted,
  with or without bypass, and after it the same delete, without bypass and before the date, removes exactly that version.
\<close>

theorem unknown_mode_lifts_governance:
  assumes "store_inv n t" and "lockTarget t (ut_Bucket u) (ut_Key u) (ut_VersionID u) = Inr e"
    and "ve_RetentionMode e = RetentionGovernance" and "\<not> ve_LegalHold e"
    and "ut_Mode u \<notin> {RetentionNone, RetentionGovernance, RetentionCompliance}"
    and "i64_less (ut_ProposedAtUnixMS u) (ve_RetainUntilUnixMS e)" and "i64_le (ve_RetainUntilUnixMS e) (ut_RetainUntilUnixMS u)"
    and "dv_Bucket p = ut_Bucket u" and "dv_Key p = ut_Key u" and "dv_VersionID p = ut_VersionID u"
    and "\<not> dv_BypassGovernance p" and "i64_less (dv_ProposedAtUnixMS p) (ve_RetainUntilUnixMS e)"
  shows "ApplyDeleteVersion p t = (t, Inl ErrObjectLocked) \<and>
    (\<exists>t' t''. ApplyUpdateRetention u t = (t', Inr ()) \<and> ApplyDeleteVersion p t' = (t'', Inr \<lparr>dvr_Removed = True\<rparr>) \<and>
      versions t'' (ut_Bucket u) (ut_Key u) = (versions t (ut_Bucket u) (ut_Key u))(ut_VersionID u := None))"
proof -
  from lockTarget_spec(1) [OF assms(1,2)] obtain cfg where e: "versions t (ut_Bucket u) (ut_Key u) (ut_VersionID u) = Some e"
    "bucket_of t (ut_Bucket u) = Some cfg" "valid_key (ut_Key u)" by blast
  have "lockedAt e (dv_ProposedAtUnixMS p) (dv_BypassGovernance p)"
    using assms(3,11,12) by (simp add: lockedAt_def i64_less_iff_not_le)
  then have locked: "ApplyDeleteVersion p t = (t, Inl ErrObjectLocked)"
    using ApplyDeleteVersion_locked [OF assms(1), of p cfg e] e assms(8-10) by simp
  obtain t' where t': "ApplyUpdateRetention u t = (t', Inr ())" using ApplyUpdateRetention_unknown [OF assms(2,3,5-7)] by blast
  note inv = rewrite_applies_inv(1) [OF assms(1) t']
  have eff: "object_effect t (ut_Bucket u) (ut_Key u) ((versions t (ut_Bucket u) (ut_Key u))(ut_VersionID u \<mapsto> retained u e))
      (current_of t (ut_Bucket u) (ut_Key u)) t'"
    by (rule ApplyUpdateRetention_effect [OF assms(1) t']) (use e(1) in simp)
  have "bucket_of t' (ut_Bucket u) = Some cfg" using object_effectD(2) [OF eff] e(2) by (simp add: same_rest_def)
  moreover have "\<not> lockedAt (retained u e) (dv_ProposedAtUnixMS p) (dv_BypassGovernance p)"
    using assms(4,5) by (auto simp: lockedAt_def retained_def)
  ultimately obtain t'' where t'': "ApplyDeleteVersion p t' = (t'', Inr \<lparr>dvr_Removed = True\<rparr>)"
    using ApplyDeleteVersion_removes [OF inv, of p cfg "retained u e"] e(3) object_effectD(3) [OF eff] assms(8-10) by auto
  have "versions t'' (ut_Bucket u) (ut_Key u) = (versions t (ut_Bucket u) (ut_Key u))(ut_VersionID u := None)"
    using object_effectD(3) [OF ApplyDeleteVersion_effect(1) [OF inv t'']] object_effectD(3) [OF eff] assms(8-10) by simp
  with locked t' t'' show ?thesis by blast
qed

theorem unknown_mode_lifts_governance_witness:
  "\<exists>t' t''. ApplyUpdateRetention demo_downgrade demo_kv4 = (t', Inr ()) \<and>
    ApplyDeleteVersion demo_plain_delete t' = (t'', Inr \<lparr>dvr_Removed = True\<rparr>) \<and> versions t'' demo_bucket demo_key2 6 = None"
proof -
  have "case lockTarget demo_kv4 demo_bucket demo_key2 6 of
      Inr e \<Rightarrow> ve_RetentionMode e = RetentionGovernance \<and> \<not> ve_LegalHold e \<and> i64_less 50 (ve_RetainUntilUnixMS e) \<and>
        i64_le (ve_RetainUntilUnixMS e) 100
    | Inl _ \<Rightarrow> False" by code_simp
  then obtain e where e: "lockTarget demo_kv4 demo_bucket demo_key2 6 = Inr e" "ve_RetentionMode e = RetentionGovernance"
    "\<not> ve_LegalHold e" "i64_less 50 (ve_RetainUntilUnixMS e)" "i64_le (ve_RetainUntilUnixMS e) 100"
    by (auto split: sum.splits)
  have "dv_ProposedAtUnixMS demo_plain_delete = 50" "dv_Bucket demo_plain_delete = demo_bucket"
    by (simp_all add: demo_plain_delete_def demo_delete_def)
  from unknown_mode_lifts_governance [OF demo_inv(4) [of 0], of demo_downgrade e demo_plain_delete] e this show ?thesis
    by (auto simp: demo_downgrade_def demo_plain_delete_def enum_defs)
qed

section \<open>Buckets\<close>

text \<open>The two prefixes a bucket delete probes are empty exactly when the views are.\<close>

lemma version_rows_empty_iff:
  assumes "wf_rows t" and "valid_bucket b"
  shows "prefix_empty t (bucketVersionsScanPrefix b) \<longleftrightarrow> (\<forall>k v. versions t b k v = None)"
  unfolding prefix_empty_iff [OF wf_rows_inv [OF assms(1)]]
proof (intro iffI allI ballI)
  fix k v
  assume "\<forall>x \<in> dom (tx_get t). \<not> prefix (bucketVersionsScanPrefix b) x"
  moreover have "prefix (bucketVersionsScanPrefix b) (versionRowKey b k v)"
    using assms(2) by (simp add: bucketVersionsScanPrefix_iff)
  ultimately have "versionRowKey b k v \<notin> dom (tx_get t)" by blast
  then show "versions t b k v = None" by (simp add: wf_get_version [OF assms(1)] domIff)
next
  fix x
  assume none: "\<forall>k v. versions t b k v = None" and "x \<in> dom (tx_get t)"
  then obtain r where r: "tx_get t x = Some r" by blast
  show "\<not> prefix (bucketVersionsScanPrefix b) x"
  proof
    assume x: "prefix (bucketVersionsScanPrefix b) x"
    have "take 2 x = str ''v/''" using prefix_take_2 [OF x] by (simp add: bucketVersionsScanPrefix_def str_def)
    from wf_row_take_2(1) [OF wf_rowsD [OF assms(1) r] this] x assms(2) none r show False
      by (auto simp: bucketVersionsScanPrefix_iff wf_get_version [OF assms(1)])
  qed
qed

lemma upload_rows_empty_iff:
  assumes "wf_rows t" and "uploads_ok t" and "valid_bucket b"
  shows "prefix_empty t (uploadsScanPrefix b) \<longleftrightarrow> (\<forall>k u. valid_key k \<longrightarrow> upload_of t b k u = None)"
  unfolding prefix_empty_iff [OF wf_rows_inv [OF assms(1)]]
proof (intro iffI allI impI ballI)
  fix k u
  assume "\<forall>x \<in> dom (tx_get t). \<not> prefix (uploadsScanPrefix b) x" and k: "valid_key k"
  moreover have "prefix (uploadsScanPrefix b) (uploadRowKey b k u)"
    using assms(3) by (simp add: uploadsScanPrefix_upload_iff)
  ultimately have "uploadRowKey b k u \<notin> dom (tx_get t)" by blast
  then show "upload_of t b k u = None" using assms(3) k by (simp add: wf_get_upload [OF assms(1)] domIff)
next
  fix x
  assume none: "\<forall>k u. valid_key k \<longrightarrow> upload_of t b k u = None" and "x \<in> dom (tx_get t)"
  then obtain r where r: "tx_get t x = Some r" by blast
  have parts: "parts_of t b k u i = None" if "valid_key k" for k u i
    using assms(2,3) that none unfolding uploads_ok_def by (meson not_None_eq)
  show "\<not> prefix (uploadsScanPrefix b) x"
  proof
    assume x: "prefix (uploadsScanPrefix b) x"
    have "take 2 x = str ''u/''" using prefix_take_2 [OF x] by (simp add: uploadsScanPrefix_def str_def)
    then consider b' k u where "x = uploadRowKey b' k u" "valid_bucket b'" "valid_key k"
      | b' k u i where "x = partRowKey b' k u i" "valid_bucket b'" "valid_key k"
      using wf_row_take_2(2) [OF wf_rowsD [OF assms(1) r]] by metis
    then show False
      using x assms(3) none parts r
      by cases (auto simp: uploadsScanPrefix_upload_iff uploadsScanPrefix_part_iff wf_get_upload [OF assms(1)]
          wf_get_part [OF assms(1)])
  qed
qed

text \<open>
  A bucket can be deleted exactly when it exists and holds no version (delete markers count)
  and no pending upload; the delete then removes it and nothing else.
\<close>

theorem bucket_deleted_iff_empty:
  assumes "store_inv n t" and "b = db_Bucket p"
  shows "(snd (ApplyDeleteBucket p t) = Inr () \<longleftrightarrow> bucket_of t b \<noteq> None \<and> (\<forall>k v. versions t b k v = None) \<and>
      (\<forall>k u. valid_key k \<longrightarrow> upload_of t b k u = None)) \<and>
    (snd (ApplyDeleteBucket p t) = Inr () \<longrightarrow>
      tx_get (fst (ApplyDeleteBucket p t)) = (tx_get t)(bucketRowKey b := None))"
proof -
  note wf = store_invD(1) [OF assms(1)]
  have "bucket_of t b \<noteq> None \<Longrightarrow> valid_bucket b" using bucket_of_name [OF wf] by blast
  with version_rows_empty_iff [OF wf, of b] upload_rows_empty_iff [OF wf store_invD(4) [OF assms(1)], of b]
  show ?thesis
    by (auto simp: ApplyDeleteBucket_def wf_get_bucket [OF wf] assms(2) split: option.splits)
qed

theorem bucket_deleted_iff_empty_witness:
  "snd (ApplyDeleteBucket \<lparr>db_ProposedAtUnixMS = 9, db_Bucket = demo_bucket\<rparr> demo_kv2) \<noteq> Inr ()"
proof -
  have "versions demo_kv2 demo_bucket demo_key 5 \<noteq> None" by code_simp
  with bucket_deleted_iff_empty [OF demo_inv(2) [of 0] refl, of "\<lparr>db_ProposedAtUnixMS = 9, db_Bucket = demo_bucket\<rparr>"]
  show ?thesis by auto
qed

section \<open>The ordered store and the version identifiers\<close>

text \<open>
  The in-memory store, a sorted key slice with binary search beside a hash map, implements a
  finite map with an ordered scan: look-ups see the latest write, and a scan visits exactly the
  keys from its start on, in ascending order with their values.
\<close>

theorem memkv_refines_map:
  assumes "memKV_inv kv"
  shows "memKV_inv (memKV_set kv k v) \<and> memKV_get (memKV_set kv k v) = (memKV_get kv)(k \<mapsto> v) \<and>
    memKV_inv (memKV_delete kv k) \<and> memKV_get (memKV_delete kv k) = (memKV_get kv)(k := None) \<and>
    memKV_rows kv from = map (\<lambda>k. (k, memKV_get kv k)) (sorted_list_of_set {k \<in> dom (memKV_get kv). from \<le> k})"
  by (intro conjI mem.inv_set [OF assms] mem.inv_delete [OF assms] mem.get_set mem.get_delete mem.rows_eq [OF assms])

theorem memkv_refines_map_witness:
  "memKV_get (memKV_set newMemKV (str ''a'') (1 :: nat)) = (memKV_get newMemKV)(str ''a'' \<mapsto> 1)"
  using memkv_refines_map [OF newMemKV_inv, where k = "str ''a''" and v = "1 :: nat"] by simp

text \<open>
  C28: Version identifiers sort by the millisecond they were minted in, whatever the random bits;
  the successor that commit order falls back to is strictly above, and a minted identifier
  leaves room for more than \<open>2 ^ 70\<close> successors before the value wraps.
\<close>

theorem version_ids_ordered:
  assumes "unat ms mod 2 ^ 48 < unat ms' mod 2 ^ 48" and "v \<noteq> - 1"
  shows "new_version_id ms r1 r2 < new_version_id ms' r1' r2' \<and> v < vid_next v \<and>
    vid_compare v (vid_next v) = -1 \<and> unat (new_version_id ms r1 r2) + 2 ^ 70 < 2 ^ 128"
proof -
  have "(2 :: nat) ^ 70 \<le> vid_headroom" by (simp add: vid_headroom_def)
  with new_version_id_headroom [of ms r1 r2] have "unat (new_version_id ms r1 r2) + 2 ^ 70 < 2 ^ 128" by linarith
  then show ?thesis
    using new_version_id_mono [OF assms(1)] less_vid_next [OF assms(2)] by (simp add: vid_compare_def bytes_compare_def)
qed

theorem version_ids_ordered_witness: "new_version_id 1 0 0 < new_version_id 2 7 7 \<and> (5 :: version_id) < vid_next 5"
  using version_ids_ordered [of 1 2 5] by simp

end
