(* ===== verification/Sim_Disk.thy ===== *)
theory Sim_Disk
  imports Hamster_Prelude "HOL-Library.Finite_Map"
begin

text \<open>
  The disk of the simulation harness (\<^verbatim>\<open>internal/sim/disk.go\<close>), an implementation of the
  interface \<^verbatim>\<open>seam.Disk\<close> (\<^verbatim>\<open>internal/seam/seam.go\<close>).

  Every change is staged until \<^verbatim>\<open>Sync\<close> makes it durable; a crash reverts, tears or keeps each
  staged change by random draws. The generator is a tape of draws: \<open>IntN n\<close> is the next draw
  reduced below \<open>n\<close>, so every outcome the generator can produce is covered.
  \<^verbatim>\<open>fs.ValidPath\<close> and \<^verbatim>\<open>utf8.ValidString\<close> of the standard library are written out.

  The locale \<open>seam_disk\<close> states the crash contract of the interface for one file written by
  appends; it is interpreted on the simulated disk.
\<close>

section \<open>Names\<close>

abbreviation is_cont :: "byte \<Rightarrow> bool" where
  "is_cont b \<equiv> 0x80 \<le> b \<and> b \<le> 0xBF"

fun utf8_valid :: "gostring \<Rightarrow> bool" where
  "utf8_valid [] = True"
| "utf8_valid (a # s) =
     (if a < 0x80 then utf8_valid s
      else case s of
             [] \<Rightarrow> False
           | b # s \<Rightarrow>
               if 0xC2 \<le> a \<and> a \<le> 0xDF then is_cont b \<and> utf8_valid s
               else case s of
                      [] \<Rightarrow> False
                    | c # s \<Rightarrow>
                        if 0xE0 \<le> a \<and> a \<le> 0xEF
                        then (if a = 0xE0 then 0xA0 \<le> b \<and> b \<le> 0xBF
                              else if a = 0xED then 0x80 \<le> b \<and> b \<le> 0x9F else is_cont b) \<and>
                             is_cont c \<and> utf8_valid s
                        else case s of
                               [] \<Rightarrow> False
                             | d # s \<Rightarrow>
                                 0xF0 \<le> a \<and> a \<le> 0xF4 \<and>
                                 (if a = 0xF0 then 0x90 \<le> b \<and> b \<le> 0xBF
                                  else if a = 0xF4 then 0x80 \<le> b \<and> b \<le> 0x8F else is_cont b) \<and>
                                 is_cont c \<and> is_cont d \<and> utf8_valid s)"

text \<open>The element loop of \<^verbatim>\<open>fs.ValidPath\<close>; \<open>elem\<close> is the element read so far.\<close>

fun path_elements_ok :: "gostring \<Rightarrow> gostring \<Rightarrow> bool" where
  "path_elements_ok elem [] = (elem \<notin> {[], str ''.'', str ''..''})"
| "path_elements_ok elem (c # cs) =
     (if c = of_char (CHR ''/'')
      then elem \<notin> {[], str ''.'', str ''..''} \<and> path_elements_ok [] cs
      else path_elements_ok (elem @ [c]) cs)"

definition ValidPath :: "gostring \<Rightarrow> bool" where
  "ValidPath name = (utf8_valid name \<and> (name = str ''.'' \<or> path_elements_ok [] name))"

section \<open>The disk\<close>

datatype disk_error = ErrInvalid | ErrNotExist | DiskPanic

record stagedChange =
  sc_data :: bytes
  sc_keep :: nat
  sc_removed :: bool

record disk =
  dk_durable :: "(gostring, bytes) fmap"
  dk_staged :: "(gostring, stagedChange) fmap"

definition newDisk :: disk where
  "newDisk = \<lparr>dk_durable = fmempty, dk_staged = fmempty\<rparr>"

text \<open>An operation returns the new disk and the error, if any.\<close>

definition disk_WriteFile :: "disk \<Rightarrow> gostring \<Rightarrow> bytes \<Rightarrow> disk \<times> disk_error option" where
  "disk_WriteFile d name data =
     (if \<not> ValidPath name then (d, Some ErrInvalid)
      else (d\<lparr>dk_staged := fmupd name \<lparr>sc_data = data, sc_keep = 0, sc_removed = False\<rparr> (dk_staged d)\<rparr>, None))"

definition disk_Append :: "disk \<Rightarrow> gostring \<Rightarrow> bytes \<Rightarrow> disk \<times> disk_error option" where
  "disk_Append d name data =
     (if \<not> ValidPath name then (d, Some ErrInvalid)
      else
        let st = (case fmlookup (dk_staged d) name of
                    None \<Rightarrow>
                      (let durable = (case fmlookup (dk_durable d) name of Some x \<Rightarrow> x | None \<Rightarrow> [])
                       in \<lparr>sc_data = durable, sc_keep = length durable, sc_removed = False\<rparr>)
                  | Some st \<Rightarrow>
                      if sc_removed st then \<lparr>sc_data = [], sc_keep = 0, sc_removed = False\<rparr> else st);
            st = st\<lparr>sc_data := sc_data st @ data\<rparr>
        in (d\<lparr>dk_staged := fmupd name st (dk_staged d)\<rparr>, None))"

definition disk_Sync :: "disk \<Rightarrow> gostring \<Rightarrow> disk \<times> disk_error option" where
  "disk_Sync d name =
     (if \<not> ValidPath name then (d, Some ErrInvalid)
      else case fmlookup (dk_staged d) name of
             None \<Rightarrow> (d, None)
           | Some st \<Rightarrow>
               let d = (if sc_removed st then d\<lparr>dk_durable := fmdrop name (dk_durable d)\<rparr>
                        else d\<lparr>dk_durable := fmupd name (sc_data st) (dk_durable d)\<rparr>)
               in (d\<lparr>dk_staged := fmdrop name (dk_staged d)\<rparr>, None))"

definition disk_ReadFile :: "disk \<Rightarrow> gostring \<Rightarrow> disk_error + bytes" where
  "disk_ReadFile d name =
     (if \<not> ValidPath name then Inl ErrInvalid
      else case fmlookup (dk_staged d) name of
             Some st \<Rightarrow> if sc_removed st then Inl ErrNotExist else Inr (sc_data st)
           | None \<Rightarrow> (case fmlookup (dk_durable d) name of Some x \<Rightarrow> Inr x | None \<Rightarrow> Inl ErrNotExist))"

text \<open>
  The sum of offset and length is an \<^verbatim>\<open>int64\<close> and may wrap; the slice then panics.
\<close>

definition disk_ReadFileAt :: "disk \<Rightarrow> gostring \<Rightarrow> i64 \<Rightarrow> i64 \<Rightarrow> disk_error + bytes" where
  "disk_ReadFileAt d name off len =
     (if \<not> ValidPath name \<or> i64_less off 0 \<or> i64_less len 0 then Inl ErrInvalid
      else
        let slice = (\<lambda>content.
              if int (length content) \<le> sint off then Inr []
              else let e = min (sint (off + len)) (int (length content))
                   in if e < sint off then Inl DiskPanic
                      else Inr (take (nat (e - sint off)) (drop (nat (sint off)) content)))
        in case fmlookup (dk_staged d) name of
             Some st \<Rightarrow> if sc_removed st then Inl ErrNotExist else slice (sc_data st)
           | None \<Rightarrow> (case fmlookup (dk_durable d) name of Some x \<Rightarrow> slice x | None \<Rightarrow> Inl ErrNotExist))"

definition disk_Remove :: "disk \<Rightarrow> gostring \<Rightarrow> disk \<times> disk_error option" where
  "disk_Remove d name =
     (let gone = d\<lparr>dk_staged := fmupd name \<lparr>sc_data = [], sc_keep = 0, sc_removed = True\<rparr> (dk_staged d)\<rparr>
      in if \<not> ValidPath name then (d, Some ErrInvalid)
         else case fmlookup (dk_staged d) name of
                Some st \<Rightarrow> if sc_removed st then (d, Some ErrNotExist) else (gone, None)
              | None \<Rightarrow>
                  (case fmlookup (dk_durable d) name of
                     None \<Rightarrow> (d, Some ErrNotExist)
                   | Some _ \<Rightarrow> (gone, None)))"

text \<open>The two loops range over Go maps, in any order, and the names are then sorted.\<close>

definition disk_List :: "disk \<Rightarrow> gostring list" where
  "disk_List d =
     (let kept = filter (\<lambda>name. case fmlookup (dk_staged d) name of Some st \<Rightarrow> \<not> sc_removed st | None \<Rightarrow> True)
                   (sorted_list_of_set (fset (fmdom (dk_durable d))));
          fresh = filter (\<lambda>name. (case fmlookup (dk_staged d) name of Some st \<Rightarrow> \<not> sc_removed st | None \<Rightarrow> False) \<and>
                                fmlookup (dk_durable d) name = None)
                    (sorted_list_of_set (fset (fmdom (dk_staged d))))
      in sort (kept @ fresh))"

section \<open>Crashes\<close>

definition IntN :: "nat list \<Rightarrow> nat \<Rightarrow> nat \<times> nat list" where
  "IntN rng n = (case rng of [] \<Rightarrow> (0, []) | x # xs \<Rightarrow> (x mod n, xs))"

fun crash_loop :: "gostring list \<Rightarrow> disk \<Rightarrow> nat list \<Rightarrow> disk \<times> nat list" where
  "crash_loop [] d rng = (d, rng)"
| "crash_loop (name # names) d rng =
     (case fmlookup (dk_staged d) name of
        None \<Rightarrow> crash_loop names d rng
      | Some st \<Rightarrow>
          if sc_removed st then crash_loop names d rng
          else let (coin, rng) = IntN rng 2
               in if coin = 0 then crash_loop names d rng
                  else let (cut, rng) = IntN rng (length (sc_data st) - sc_keep st + 1)
                       in crash_loop names
                            (d\<lparr>dk_durable := fmupd name (take (sc_keep st + cut) (sc_data st)) (dk_durable d)\<rparr>) rng)"

definition disk_crash :: "disk \<Rightarrow> nat list \<Rightarrow> disk" where
  "disk_crash d rng =
     (fst (crash_loop (sorted_list_of_set (fset (fmdom (dk_staged d)))) d rng))\<lparr>dk_staged := fmempty\<rparr>"

section \<open>The interface\<close>

record 'd Disk =
  WriteFile :: "'d \<Rightarrow> gostring \<Rightarrow> bytes \<Rightarrow> 'd \<times> disk_error option"
  Append :: "'d \<Rightarrow> gostring \<Rightarrow> bytes \<Rightarrow> 'd \<times> disk_error option"
  Sync :: "'d \<Rightarrow> gostring \<Rightarrow> 'd \<times> disk_error option"
  ReadFile :: "'d \<Rightarrow> gostring \<Rightarrow> disk_error + bytes"
  ReadFileAt :: "'d \<Rightarrow> gostring \<Rightarrow> i64 \<Rightarrow> i64 \<Rightarrow> disk_error + bytes"
  Remove :: "'d \<Rightarrow> gostring \<Rightarrow> 'd \<times> disk_error option"
  ListNames :: "'d \<Rightarrow> disk_error + gostring list"

definition sim_disk :: "disk Disk" where
  "sim_disk = \<lparr>WriteFile = disk_WriteFile, Append = disk_Append, Sync = disk_Sync, ReadFile = disk_ReadFile,
     ReadFileAt = disk_ReadFileAt, Remove = disk_Remove, ListNames = (\<lambda>d. Inr (disk_List d))\<rparr>"

text \<open>
  What a client that only appends to a file relies on, for names \<open>ok\<close>. \<open>durable\<close> is the content a
  crash cannot take back, \<open>clean\<close> says that nothing is staged under the name, and \<open>crash\<close> resolves
  the staged changes.
\<close>

locale seam_disk =
  fixes ops :: "'d Disk"
    and durable :: "'d \<Rightarrow> gostring \<Rightarrow> bytes option"
    and clean :: "'d \<Rightarrow> gostring \<Rightarrow> bool"
    and crash :: "'d \<Rightarrow> nat list \<Rightarrow> 'd"
    and ok :: "gostring \<Rightarrow> bool"
  assumes read_clean: "ok n \<Longrightarrow> clean d n \<Longrightarrow>
      ReadFile ops d n = (case durable d n of None \<Rightarrow> Inl ErrNotExist | Some x \<Rightarrow> Inr x)"
    and append_refused: "\<not> ok n \<Longrightarrow> Append ops d n x = (d, Some ErrInvalid)"
    and append_staged: "ok n \<Longrightarrow> snd (Append ops d n x) = None"
    and append_sync: "ok n \<Longrightarrow> clean d n \<Longrightarrow> Sync ops (fst (Append ops d n x)) n = (d', e) \<Longrightarrow>
      e = None \<and> clean d' n \<and> durable d' n = Some (case_option [] id (durable d n) @ x)"
    and append_crash: "ok n \<Longrightarrow> clean d n \<Longrightarrow> d' = crash (fst (Append ops d n x)) rng \<Longrightarrow>
      clean d' n \<and> (durable d' n = durable d n \<or>
        (\<exists>p. prefix p x \<and> durable d' n = Some (case_option [] id (durable d n) @ p)))"
    and write_sync: "ok n \<Longrightarrow> WriteFile ops d n x = (d1, e1) \<Longrightarrow> Sync ops d1 n = (d2, e2) \<Longrightarrow>
      e1 = None \<and> e2 = None \<and> clean d2 n \<and> durable d2 n = Some x"
    and write_crash: "ok n \<Longrightarrow> clean d n \<Longrightarrow> d' = crash (fst (WriteFile ops d n x)) rng \<Longrightarrow>
      clean d' n \<and> (durable d' n = durable d n \<or> (\<exists>p. prefix p x \<and> durable d' n = Some p))"
    and crash_clean: "clean d n \<Longrightarrow> clean (crash d rng) n \<and> durable (crash d rng) n = durable d n"

section \<open>The simulated disk keeps the contract\<close>

definition disk_clean :: "disk \<Rightarrow> gostring \<Rightarrow> bool" where
  "disk_clean d name \<longleftrightarrow> fmlookup (dk_staged d) name = None"

definition disk_durable :: "disk \<Rightarrow> gostring \<Rightarrow> bytes option" where
  "disk_durable d name = fmlookup (dk_durable d) name"

lemma crash_loop_staged [simp]: "dk_staged (fst (crash_loop names d rng)) = dk_staged d"
  by (induction names arbitrary: d rng) (simp_all add: case_prod_beta Let_def split: option.split)

lemma crash_loop_untouched:
  "fmlookup (dk_staged d) n = None \<Longrightarrow>
   fmlookup (dk_durable (fst (crash_loop names d rng))) n = fmlookup (dk_durable d) n"
  by (induction names arbitrary: d rng) (auto simp: case_prod_beta Let_def split: option.split)

lemma crash_loop_torn:
  assumes "fmlookup (dk_staged d) n = Some st"
  shows "fmlookup (dk_durable (fst (crash_loop names d rng))) n = fmlookup (dk_durable d) n \<or>
    (\<exists>c. fmlookup (dk_durable (fst (crash_loop names d rng))) n = Some (take (sc_keep st + c) (sc_data st)))"
  using assms
proof (induction names arbitrary: d rng)
  case (Cons name names)
  show ?case
  proof (cases "fmlookup (dk_staged d) name")
    case None
    then show ?thesis using Cons by simp
  next
    case (Some sx)
    let ?cut = "IntN (snd (IntN rng 2)) (length (sc_data sx) - sc_keep sx + 1)"
    let ?d = "d\<lparr>dk_durable := fmupd name (take (sc_keep sx + fst ?cut) (sc_data sx)) (dk_durable d)\<rparr>"
    have kept: "fmlookup (dk_durable ?d) n = fmlookup (dk_durable d) n \<or>
        fmlookup (dk_durable ?d) n = Some (take (sc_keep st + fst ?cut) (sc_data st))"
      using Some Cons.prems by auto
    have "crash_loop (name # names) d rng = crash_loop names d rng \<or>
        crash_loop (name # names) d rng = crash_loop names d (snd (IntN rng 2)) \<or>
        crash_loop (name # names) d rng = crash_loop names ?d (snd ?cut)"
      using Some by (simp add: case_prod_beta Let_def)
    then show ?thesis
      using Cons.IH [of d] Cons.IH [of ?d "snd ?cut"] Cons.prems kept by (elim disjE) (simp_all, metis+)
  qed
qed simp

lemma disk_crash_simps [simp]:
  "disk_clean (disk_crash d rng) n"
  "disk_durable (disk_crash d rng) n =
     fmlookup (dk_durable (fst (crash_loop (sorted_list_of_set (fset (fmdom (dk_staged d)))) d rng))) n"
  by (simp_all add: disk_clean_def disk_durable_def disk_crash_def)

lemma take_append_keep: "\<exists>p. prefix p x \<and> take (length b + c) (b @ x) = b @ p"
  by (intro exI [of _ "take c x"]) (simp add: take_is_prefix)

lemma disk_append_crash:
  assumes "ValidPath n" and "disk_clean d n"
  shows "disk_durable (disk_crash (fst (disk_Append d n x)) rng) n = disk_durable d n \<or>
    (\<exists>p. prefix p x \<and> disk_durable (disk_crash (fst (disk_Append d n x)) rng) n =
       Some (case_option [] id (disk_durable d n) @ p))"
proof -
  let ?b = "case_option [] id (disk_durable d n)"
  have st: "fmlookup (dk_staged (fst (disk_Append d n x))) n =
      Some \<lparr>sc_data = ?b @ x, sc_keep = length ?b, sc_removed = False\<rparr>"
    "dk_durable (fst (disk_Append d n x)) = dk_durable d"
    using assms by (simp_all add: disk_Append_def disk_clean_def disk_durable_def Let_def split: option.split)
  show ?thesis
    using crash_loop_torn [OF st(1)] take_append_keep [of x ?b]
    unfolding disk_crash_simps by (simp add: st(2) disk_durable_def) (metis)
qed

lemma disk_write_crash:
  assumes "ValidPath n"
  shows "disk_durable (disk_crash (fst (disk_WriteFile d n x)) rng) n = disk_durable d n \<or>
    (\<exists>p. prefix p x \<and> disk_durable (disk_crash (fst (disk_WriteFile d n x)) rng) n = Some p)"
proof -
  have st: "fmlookup (dk_staged (fst (disk_WriteFile d n x))) n =
      Some \<lparr>sc_data = x, sc_keep = 0, sc_removed = False\<rparr>"
    "dk_durable (fst (disk_WriteFile d n x)) = dk_durable d"
    using assms by (simp_all add: disk_WriteFile_def)
  show ?thesis
    using crash_loop_torn [OF st(1)] unfolding disk_crash_simps
    by (simp add: st(2) disk_durable_def) (metis take_is_prefix)
qed

interpretation sim: seam_disk sim_disk disk_durable disk_clean disk_crash ValidPath
proof unfold_locales
  fix n d and x :: bytes and d' d1 d2 :: disk and e e1 e2 :: "disk_error option" and rng
  show "ReadFile sim_disk d n = (case disk_durable d n of None \<Rightarrow> Inl ErrNotExist | Some x \<Rightarrow> Inr x)"
    if "ValidPath n" "disk_clean d n"
    using that by (simp add: sim_disk_def disk_ReadFile_def disk_clean_def disk_durable_def)
  show "Append sim_disk d n x = (d, Some ErrInvalid)" if "\<not> ValidPath n"
    using that by (simp add: sim_disk_def disk_Append_def)
  show "snd (Append sim_disk d n x) = None" if "ValidPath n"
    using that by (simp add: sim_disk_def disk_Append_def Let_def)
  show "e = None \<and> disk_clean d' n \<and> disk_durable d' n = Some (case_option [] id (disk_durable d n) @ x)"
    if "ValidPath n" "disk_clean d n" "Sync sim_disk (fst (Append sim_disk d n x)) n = (d', e)"
    using that by (auto simp: sim_disk_def disk_Append_def disk_Sync_def disk_clean_def disk_durable_def Let_def
        split: option.splits)
  show "disk_clean d' n \<and> (disk_durable d' n = disk_durable d n \<or>
      (\<exists>p. prefix p x \<and> disk_durable d' n = Some (case_option [] id (disk_durable d n) @ p)))"
    if "ValidPath n" "disk_clean d n" "d' = disk_crash (fst (Append sim_disk d n x)) rng"
    using disk_append_crash [OF that(1,2), of x rng] that(3) by (simp add: sim_disk_def del: disk_crash_simps(2))
  show "e1 = None \<and> e2 = None \<and> disk_clean d2 n \<and> disk_durable d2 n = Some x"
    if "ValidPath n" "WriteFile sim_disk d n x = (d1, e1)" "Sync sim_disk d1 n = (d2, e2)"
    using that by (auto simp: sim_disk_def disk_WriteFile_def disk_Sync_def disk_clean_def disk_durable_def Let_def
        split: option.splits)
  show "disk_clean d' n \<and> (disk_durable d' n = disk_durable d n \<or> (\<exists>p. prefix p x \<and> disk_durable d' n = Some p))"
    if "ValidPath n" "disk_clean d n" "d' = disk_crash (fst (WriteFile sim_disk d n x)) rng"
    using disk_write_crash [OF that(1), of d x rng] that(3) by (simp add: sim_disk_def del: disk_crash_simps(2))
  show "disk_clean (disk_crash d rng) n \<and> disk_durable (disk_crash d rng) n = disk_durable d n"
    if "disk_clean d n"
    using that crash_loop_untouched by (simp add: disk_clean_def disk_durable_def disk_crash_def)
qed

end
