(* ===== verification/Wal.thy ===== *)
theory Wal
  imports Meta_Persist Sim_Disk
begin

text \<open>
  The append-only record log (\<^verbatim>\<open>internal/wal/wal.go\<close>) and the metadata row log on top of it
  (\<^verbatim>\<open>internal/wal/rows.go\<close>).

  The log is written against the operations of \<^verbatim>\<open>seam.Disk\<close>, the row codec against the wire
  library; both are parameters. Of the standard library, \<^verbatim>\<open>binary.Uvarint\<close>,
  \<^verbatim>\<open>binary.AppendUvarint\<close>, the little-endian 32-bit encoding and the Castagnoli CRC are
  written out.
\<close>

section \<open>encoding/binary and hash/crc32\<close>

function AppendUvarint :: "u64 \<Rightarrow> bytes" where
  "AppendUvarint x = (if x \<ge> 0x80 then (ucast x OR 0x80) # AppendUvarint (drop_bit 7 x) else [ucast x])"
  by pat_completeness auto
termination
proof (relation "measure unat")
  fix x :: u64
  assume "x \<ge> 0x80"
  then have "unat x \<ge> 128" by (simp add: word_le_nat_alt)
  then show "(drop_bit 7 x, x) \<in> measure unat" by (simp add: unat_drop_bit)
qed simp

declare AppendUvarint.simps [simp del]

fun Uvarint_loop :: "bytes \<Rightarrow> nat \<Rightarrow> u64 \<Rightarrow> nat \<Rightarrow> u64 \<times> int" where
  "Uvarint_loop [] i x s = (0, 0)"
| "Uvarint_loop (b # buf) i x s =
     (if i = 10 then (0, - (int i + 1))
      else if b < 0x80
      then (if i = 9 \<and> b > 1 then (0, - (int i + 1)) else (x OR push_bit s (ucast b), int i + 1))
      else Uvarint_loop buf (i + 1) (x OR push_bit s (ucast (b AND 0x7F))) (s + 7))"

definition Uvarint :: "bytes \<Rightarrow> u64 \<times> int" where
  "Uvarint buf = Uvarint_loop buf 0 0 0"

definition le_u32 :: "u32 \<Rightarrow> bytes" where
  "le_u32 v = rev (be_u32 v)"

definition u32_of_le :: "bytes \<Rightarrow> u32" where
  "u32_of_le bs = u32_of_be (rev bs)"

text \<open>One bit and one byte of the reflected CRC with the Castagnoli polynomial.\<close>

definition crc_bit :: "u32 \<Rightarrow> u32" where
  "crc_bit c = (if bit c 0 then drop_bit 1 c XOR 0x82F63B78 else drop_bit 1 c)"

definition crc_byte :: "u32 \<Rightarrow> byte \<Rightarrow> u32" where
  "crc_byte c b = (crc_bit ^^ 8) (c XOR ucast b)"

definition crc32c :: "bytes \<Rightarrow> u32" where
  "crc32c data = NOT (foldl crc_byte (NOT 0) data)"

section \<open>Frames\<close>

definition MaxInt32 :: nat where
  "MaxInt32 = 2147483647"

definition frame :: "bytes \<Rightarrow> bytes" where
  "frame rec = AppendUvarint (word_of_nat (length rec)) @ le_u32 (crc32c rec) @ rec"

definition parseFrame :: "bytes \<Rightarrow> (bytes \<times> nat) option" where
  "parseFrame b =
     (let (len, ln) = Uvarint b
      in if ln \<le> 0 \<or> unat len > MaxInt32 then None
         else let e = nat ln + 4 + unat len
              in if e > length b then None
                 else let crc = u32_of_le (take 4 (drop (nat ln) b));
                          payload = take (e - (nat ln + 4)) (drop (nat ln + 4) b)
                      in if crc32c payload \<noteq> crc then None else Some (payload, e))"

lemma parseFrame_code [code]:
  "parseFrame b =
     (let (len, ln) = Uvarint b
      in if ln \<le> 0 \<or> len > 0x7FFFFFFF then None
         else let e = nat ln + 4 + unat len
              in if e > length b then None
                 else let crc = u32_of_le (take 4 (drop (nat ln) b));
                          payload = take (e - (nat ln + 4)) (drop (nat ln + 4) b)
                      in if crc32c payload \<noteq> crc then None else Some (payload, e))"
  by (simp add: parseFrame_def MaxInt32_def word_less_nat_alt)

text \<open>The loop of \<^verbatim>\<open>Open\<close>: the records and the length of the intact prefix.\<close>

lemma parseFrame_progress: "parseFrame b = Some (payload, n) \<Longrightarrow> 0 < n \<and> n \<le> length b"
  by (auto simp: parseFrame_def Let_def split: prod.splits if_splits)

function read_frames :: "bytes \<Rightarrow> nat \<Rightarrow> bytes list \<Rightarrow> nat \<times> bytes list" where
  "read_frames data good records =
     (if good < length data
      then case parseFrame (drop good data) of
             None \<Rightarrow> (good, records)
           | Some (payload, n) \<Rightarrow> read_frames data (good + n) (records @ [payload])
      else (good, records))"
  by pat_completeness auto
termination
  by (relation "measure (\<lambda>(data, good, records). length data - good)") (auto dest: parseFrame_progress)

declare read_frames.simps [simp del]

section \<open>The log\<close>

definition Log_Open :: "'d Disk \<Rightarrow> 'd \<Rightarrow> gostring \<Rightarrow> 'd \<times> (disk_error + bytes list)" where
  "Log_Open ops d name =
     (case ReadFile ops d name of
        Inl ErrNotExist \<Rightarrow> (d, Inr [])
      | Inl e \<Rightarrow> (d, Inl e)
      | Inr data \<Rightarrow>
          let (good, records) = read_frames data 0 []
          in if good \<noteq> length data
             then let (d, e) = WriteFile ops d name (take good data)
                  in case e of
                       Some e \<Rightarrow> (d, Inl e)
                     | None \<Rightarrow>
                         let (d, e) = Sync ops d name
                         in case e of Some e \<Rightarrow> (d, Inl e) | None \<Rightarrow> (d, Inr records)
             else (d, Inr records))"

definition Log_Append :: "'d Disk \<Rightarrow> gostring \<Rightarrow> 'd \<Rightarrow> bytes \<Rightarrow> 'd \<times> disk_error option" where
  "Log_Append ops name d rec =
     (let (d, e) = Append ops d name (frame rec)
      in case e of Some e \<Rightarrow> (d, Some e) | None \<Rightarrow> Sync ops d name)"

section \<open>The row log\<close>

definition rowBatchFormatVersion :: u64 where
  "rowBatchFormatVersion = 1"

definition encodeRow :: "protowire \<Rightarrow> Row \<Rightarrow> bytes" where
  "encodeRow pw r =
     (let row = AppendTag pw [] 1 BytesType;
          row = AppendString pw row (row_Key r)
      in if row_Value r = []
         then let row = AppendTag pw row 3 VarintType in AppendVarint pw row 1
         else let row = AppendTag pw row 2 BytesType in AppendBytes pw row (row_Value r))"

definition encodeBatch :: "protowire \<Rightarrow> Row list \<Rightarrow> bytes" where
  "encodeBatch pw batch =
     (let b = AppendTag pw [] 1 VarintType;
          b = AppendVarint pw b rowBatchFormatVersion
      in foldl (\<lambda>b r. AppendBytes pw (AppendTag pw b 2 BytesType) (encodeRow pw r)) b batch)"

record row_state =
  rs_key :: gostring
  rs_value :: bytes
  rs_tombstone :: bool

text \<open>One turn of the loop of \<^verbatim>\<open>applyRow\<close>; \<open>None\<close> is a parse error.\<close>

definition applyRow_step :: "protowire \<Rightarrow> bytes \<Rightarrow> row_state \<Rightarrow> (bytes \<times> row_state) option" where
  "applyRow_step pw row st =
     (case ConsumeTag pw row of
        None \<Rightarrow> None
      | Some (num, typ, n) \<Rightarrow>
          let row = drop n row
          in if num = 1 \<and> typ = BytesType
             then map_option (\<lambda>(v, n). (drop n row, st\<lparr>rs_key := v\<rparr>)) (ConsumeBytes pw row)
             else if num = 2 \<and> typ = BytesType
             then map_option (\<lambda>(v, n). (drop n row, st\<lparr>rs_value := v\<rparr>)) (ConsumeBytes pw row)
             else if num = 3 \<and> typ = VarintType
             then map_option (\<lambda>(v, n). (drop n row, st\<lparr>rs_tombstone := (v \<noteq> 0)\<rparr>)) (ConsumeVarint pw row)
             else map_option (\<lambda>n. (drop n row, st)) (ConsumeFieldValue pw num typ row))"

text \<open>The loops do not return (\<open>None\<close>) when a consumed length is zero for ever.\<close>

partial_function (option) applyRow_loop :: "protowire \<Rightarrow> bytes \<Rightarrow> row_state \<Rightarrow> row_state option option" where
  "applyRow_loop pw row st =
     (if length row = 0 then Some (Some st)
      else case applyRow_step pw row st of
             None \<Rightarrow> Some None
           | Some x \<Rightarrow> applyRow_loop pw (fst x) (snd x))"

definition applyRow :: "protowire \<Rightarrow> (gostring, bytes) fmap \<Rightarrow> bytes \<Rightarrow> (gostring, bytes) fmap option option" where
  "applyRow pw rows row =
     (case applyRow_loop pw row \<lparr>rs_key = [], rs_value = [], rs_tombstone = False\<rparr> of
        None \<Rightarrow> None
      | Some None \<Rightarrow> Some None
      | Some (Some st) \<Rightarrow>
          if rs_key st = [] then Some None
          else if rs_tombstone st then Some (Some (fmdrop (rs_key st) rows))
          else Some (Some (fmupd (rs_key st) (rs_value st) rows)))"

text \<open>
  One turn of the loop of \<^verbatim>\<open>applyBatch\<close>: the rest of the record and the rows. The outer option
  is the return of \<^verbatim>\<open>applyRow\<close>, the inner one the parse error.
\<close>

definition applyBatch_step ::
    "protowire \<Rightarrow> bytes \<Rightarrow> (gostring, bytes) fmap \<Rightarrow> (bytes \<times> (gostring, bytes) fmap) option option" where
  "applyBatch_step pw rec rows =
     (case ConsumeTag pw rec of
        None \<Rightarrow> Some None
      | Some (num, typ, n) \<Rightarrow>
          let rec = drop n rec
          in if num = 2 \<and> typ = BytesType
             then case ConsumeBytes pw rec of
                    None \<Rightarrow> Some None
                  | Some (row, n) \<Rightarrow> map_option (map_option (\<lambda>rows. (drop n rec, rows))) (applyRow pw rows row)
             else Some (map_option (\<lambda>n. (drop n rec, rows)) (ConsumeFieldValue pw num typ rec)))"

partial_function (option) applyBatch ::
    "protowire \<Rightarrow> (gostring, bytes) fmap \<Rightarrow> bytes \<Rightarrow> (gostring, bytes) fmap option option" where
  "applyBatch pw rows rec =
     (if length rec = 0 then Some (Some rows)
      else Option.bind (applyBatch_step pw rec rows) (\<lambda>y.
             case y of None \<Rightarrow> Some None | Some x \<Rightarrow> applyBatch pw (snd x) (fst x)))"

fun replay :: "protowire \<Rightarrow> (gostring, bytes) fmap \<Rightarrow> bytes list \<Rightarrow> (gostring, bytes) fmap option option" where
  "replay pw rows [] = Some (Some rows)"
| "replay pw rows (rec # recs) =
     (case applyBatch pw rows rec of
        None \<Rightarrow> None
      | Some None \<Rightarrow> Some None
      | Some (Some rows) \<Rightarrow> replay pw rows recs)"

text \<open>The errors of opening: of the log, or of a batch that does not decode.\<close>

datatype rows_error = LogError disk_error | BatchError

definition OpenRows ::
    "protowire \<Rightarrow> 'd Disk \<Rightarrow> 'd \<Rightarrow> gostring \<Rightarrow> ('d \<times> (rows_error + (gostring, bytes) fmap)) option" where
  "OpenRows pw ops d name =
     (case Log_Open ops d name of
        (d, Inl e) \<Rightarrow> Some (d, Inl (LogError e))
      | (d, Inr records) \<Rightarrow>
          (case replay pw fmempty records of
             None \<Rightarrow> None
           | Some None \<Rightarrow> Some (d, Inl BatchError)
           | Some (Some rows) \<Rightarrow> Some (d, Inr rows)))"

definition RowLog_Commit :: "protowire \<Rightarrow> 'd Disk \<Rightarrow> gostring \<Rightarrow> 'd \<Rightarrow> Row list \<Rightarrow> 'd \<times> bool" where
  "RowLog_Commit pw ops name d batch =
     (let (d, e) = Log_Append ops name d (encodeBatch pw batch) in (d, e = None))"

end
