(* ===== verification/Wal_Recovery.thy ===== *)
theory Wal_Recovery
  imports Wal
begin

text \<open>
  Crash safety of the log and of the metadata row log.

  A frame is read back whole, and a strict prefix of a frame is never read as a record. So
  opening a log after a crash in the middle of an append returns the records of before the
  append, or those and the new one, and leaves the file on a frame boundary. The row log is a
  persister: a commit that returns is durable, and replaying the log gives the committed rows.
\<close>

section \<open>Varints\<close>

lemma cont_byte [simp]: "\<not> (ucast (v :: u64) OR 0x80 :: byte) < 0x80"
proof -
  have "(0x80 :: byte) \<le> ucast v OR 0x80" by (rule le_word_or1)
  then show ?thesis by simp
qed

lemma low_bits: "ucast ((ucast (v :: u64) OR 0x80 :: byte) AND 0x7F) = take_bit 7 v"
proof -
  have "(x OR 0x80) AND 0x7F = take_bit 7 x" for x :: byte
  proof -
    have m: "(0x7F :: byte) = mask 7" by (simp add: mask_eq_exp_minus_1)
    show ?thesis by (simp add: m word_ao_dist flip: take_bit_eq_mask)
  qed
  moreover have "ucast (take_bit 7 (ucast v :: byte)) = take_bit 7 v"
    by (rule bit_eqI) (auto simp: bit_simps)
  ultimately show ?thesis by simp
qed

lemma join_bits: "push_bit s (take_bit 7 v) OR push_bit (s + 7) (drop_bit 7 v) = push_bit s (v :: u64)"
proof -
  have "bit (take_bit 7 v OR push_bit 7 (drop_bit 7 v)) n = bit v n" for n
    by (cases "n < 7") (auto simp: bit_simps dest: bit_imp_le_length)
  then have "take_bit 7 v OR push_bit 7 (drop_bit 7 v) = v" by (rule bit_eqI)
  then have "push_bit s (take_bit 7 v OR push_bit 7 (drop_bit 7 v)) = push_bit s v" by simp
  then show ?thesis by (simp add: push_bit_or add.commute)
qed

text \<open>
  The loop, after \<open>i\<close> bytes of a value whose remaining part is \<open>v\<close>: it returns the whole value,
  and on a strict prefix of the encoding it runs out of bytes.
\<close>

lemma Uvarint_loop_Append:
  "unat v < 2 ^ (64 - 7 * i) \<Longrightarrow> i \<le> 9 \<Longrightarrow>
   Uvarint_loop (AppendUvarint v @ r) i x (7 * i) =
     (x OR push_bit (7 * i) v, int i + int (length (AppendUvarint v)))"
proof (induction v arbitrary: i x rule: AppendUvarint.induct)
  case (1 v)
  show ?case
  proof (cases "v \<ge> 0x80")
    case True
    have "unat v \<ge> 128" using True by (simp add: word_le_nat_alt)
    with 1(2) have "(2 :: nat) ^ 7 < 2 ^ (64 - 7 * i)" by simp
    then have i: "i \<le> 8" using 1(3) by (cases "i = 9") simp_all
    then have "64 - 7 * i = (64 - 7 * (i + 1)) + 7" by simp
    then have "(2 :: nat) ^ (64 - 7 * i) = 2 ^ (64 - 7 * (i + 1)) * 128" by (simp only: power_add) simp
    with 1(2) have "unat (drop_bit 7 v) < 2 ^ (64 - 7 * (i + 1))"
      by (simp add: unat_drop_bit less_mult_imp_div_less)
    from 1(1) [OF True this, of "x OR push_bit (7 * i) (take_bit 7 v)"] i True show ?thesis
      using join_bits [of "7 * i" v] by (simp add: AppendUvarint.simps [of v] low_bits or.assoc add.commute mult.commute)
  next
    case False
    then have v: "unat v < 128" by (simp add: word_le_nat_alt)
    have "unat v \<le> 1" if "i = 9" using 1(2) that by simp
    moreover have "ucast (ucast v :: byte) = v" using v by (simp add: word_unat_eq_iff unat_ucast)
    ultimately show ?thesis
      using False v 1(3)
      by (auto simp add: AppendUvarint.simps [of v] word_less_nat_alt unat_ucast)
  qed
qed

lemma Uvarint_loop_short:
  "strict_prefix p (AppendUvarint v) \<Longrightarrow> unat v < 2 ^ (64 - 7 * i) \<Longrightarrow> i \<le> 9 \<Longrightarrow>
   Uvarint_loop p i x (7 * i) = (0, 0)"
proof (induction v arbitrary: i x p rule: AppendUvarint.induct)
  case (1 v)
  show ?case
  proof (cases p)
    case (Cons c q)
    have v: "v \<ge> 0x80"
      using 1(2) by (rule contrapos_pp) (simp add: Cons AppendUvarint.simps [of v])
    then have c: "c = ucast v OR 0x80" and q: "strict_prefix q (AppendUvarint (drop_bit 7 v))"
      using 1(2) by (simp_all add: Cons AppendUvarint.simps [of v])
    have "unat v \<ge> 128" using v by (simp add: word_le_nat_alt)
    with 1(3) have "(2 :: nat) ^ 7 < 2 ^ (64 - 7 * i)" by simp
    then have i: "i \<le> 8" using 1(4) by (cases "i = 9") simp_all
    then have "64 - 7 * i = (64 - 7 * (i + 1)) + 7" by simp
    then have "(2 :: nat) ^ (64 - 7 * i) = 2 ^ (64 - 7 * (i + 1)) * 128" by (simp only: power_add) simp
    with 1(3) have "unat (drop_bit 7 v) < 2 ^ (64 - 7 * (i + 1))"
      by (simp add: unat_drop_bit less_mult_imp_div_less)
    from 1(1) [OF v q this] i show ?thesis by (simp add: Cons c add.commute)
  qed simp
qed

lemma Uvarint_Append [simp]: "Uvarint (AppendUvarint v @ r) = (v, int (length (AppendUvarint v)))"
  using Uvarint_loop_Append [of v 0 r 0] unat_bound [of v] by (simp add: Uvarint_def)

lemma Uvarint_short: "strict_prefix p (AppendUvarint v) \<Longrightarrow> Uvarint p = (0, 0)"
  using Uvarint_loop_short [of p v 0 0] unat_bound [of v] by (simp add: Uvarint_def)

lemma AppendUvarint_nonempty: "AppendUvarint v \<noteq> []"
  by (simp add: AppendUvarint.simps [of v])

section \<open>Frames\<close>

lemma length_le_u32 [simp]: "length (le_u32 v) = 4"
  by (simp add: le_u32_def)

lemma u32_of_le_u32 [simp]: "u32_of_le (le_u32 v) = v"
  by (simp add: u32_of_le_def le_u32_def)

lemma frame_nonempty: "frame rec \<noteq> []"
  by (simp add: frame_def AppendUvarint_nonempty)

lemma unat_length: "length rec \<le> MaxInt32 \<Longrightarrow> unat (word_of_nat (length rec) :: u64) = length rec"
  by (simp add: MaxInt32_def unat_of_nat)

lemma parseFrame_frame:
  "length rec \<le> MaxInt32 \<Longrightarrow> parseFrame (frame rec @ r) = Some (rec, length (frame rec))"
  by (simp add: parseFrame_def frame_def Let_def unat_length)
     (simp add: AppendUvarint_nonempty)

text \<open>A torn frame is never taken for a record: what is missing shows in the length.\<close>

lemma parseFrame_torn:
  assumes "strict_prefix p (frame rec)" and "length rec \<le> MaxInt32"
  shows "parseFrame p = None"
proof (cases "strict_prefix p (AppendUvarint (word_of_nat (length rec)))")
  case True
  then show ?thesis by (simp add: parseFrame_def Uvarint_short)
next
  case False
  let ?u = "AppendUvarint (word_of_nat (length rec))"
  have "prefix p ?u \<or> (\<exists>q. p = ?u @ q)"
    using assms(1) by (auto simp: frame_def strict_prefix_def prefix_append)
  then obtain q where p: "p = ?u @ q"
    using False by (auto simp: strict_prefix_def)
  have "length p < length (frame rec)" using assms(1) by (rule prefix_length_less)
  then show ?thesis
    using assms(2) by (simp add: parseFrame_def p frame_def Let_def unat_length)
qed

section \<open>The checksum\<close>

text \<open>The top bit after a step is the bottom bit before it, so a step loses nothing.\<close>

lemma bit_crc_bit: "bit (crc_bit c) 31 = bit c 0"
proof -
  have "bit (0x82F63B78 :: u32) 31" by code_simp
  moreover have "\<not> bit c 32" using bit_imp_le_length [of c 32] by auto
  ultimately show ?thesis by (simp add: crc_bit_def bit_xor_iff bit_drop_bit_eq)
qed

lemma crc_bit_inject: "crc_bit c = crc_bit c' \<longleftrightarrow> c = c'"
proof
  assume eq: "crc_bit c = crc_bit c'"
  have low: "bit c 0 = bit c' 0" using bit_crc_bit [of c] bit_crc_bit [of c'] eq by simp
  have "drop_bit 1 c = drop_bit 1 c'"
  proof (cases "bit c 0")
    case True
    then have "drop_bit 1 c XOR 0x82F63B78 = drop_bit 1 c' XOR 0x82F63B78"
      using eq low by (simp add: crc_bit_def)
    then have "(drop_bit 1 c XOR 0x82F63B78) XOR 0x82F63B78 = (drop_bit 1 c' XOR 0x82F63B78) XOR (0x82F63B78 :: u32)"
      by (rule arg_cong)
    then show ?thesis by (simp add: xor.assoc)
  next
    case False
    then show ?thesis using eq low by (simp add: crc_bit_def)
  qed
  then have "bit c (Suc n) = bit c' (Suc n)" for n
    using bit_drop_bit_eq [of 1 c] bit_drop_bit_eq [of 1 c'] by (simp add: fun_eq_iff)
  with low show "c = c'" by (intro bit_eqI) (metis not0_implies_Suc)
qed simp

lemma crc_bits_inject: "(crc_bit ^^ n) c = (crc_bit ^^ n) c' \<longleftrightarrow> c = c'"
  by (induction n) (simp_all add: crc_bit_inject)

lemma xor_right_cancel: "c XOR x = c' XOR x \<longleftrightarrow> c = (c' :: 'a :: len word)"
  by (metis xor.assoc xor.right_neutral xor_self_eq)

lemma crc_byte_inject:
  "crc_byte c b = crc_byte c' b \<longleftrightarrow> c = c'" "crc_byte c b = crc_byte c b' \<longleftrightarrow> b = b'"
proof -
  show "crc_byte c b = crc_byte c' b \<longleftrightarrow> c = c'" by (simp add: crc_byte_def crc_bits_inject xor_right_cancel)
  have "ucast b = (ucast b' :: u32) \<longleftrightarrow> b = b'"
    using unat_byte_less [of b] unat_byte_less [of b'] by (simp add: word_unat_eq_iff unat_ucast del: unat_byte_less)
  then show "crc_byte c b = crc_byte c b' \<longleftrightarrow> b = b'"
    using xor_right_cancel [of "ucast b" c "ucast b'"] by (simp add: crc_byte_def crc_bits_inject xor.commute)
qed

lemma foldl_crc_inject: "foldl crc_byte c bs = foldl crc_byte c' bs \<longleftrightarrow> c = c'"
  by (induction bs arbitrary: c c') (simp_all add: crc_byte_inject)

text \<open>Two payloads that differ in one byte have different checksums.\<close>

lemma crc32c_one_byte:
  assumes "i < length bs"
  shows "crc32c (bs[i := b]) = crc32c bs \<longleftrightarrow> b = bs ! i"
proof -
  have "foldl crc_byte c (xs @ x # ys) = foldl crc_byte c (xs @ y # ys) \<longleftrightarrow> x = y" for c xs x y ys
    by (simp add: foldl_crc_inject crc_byte_inject)
  then have "foldl crc_byte c (bs[i := b]) = foldl crc_byte c bs \<longleftrightarrow> b = bs ! i" for c
    using assms id_take_nth_drop [OF assms] by (metis upd_conv_take_nth_drop)
  moreover have "NOT x = NOT y \<longleftrightarrow> x = y" for x y :: u32 by (metis bit.double_compl)
  ultimately show ?thesis by (simp add: crc32c_def)
qed

lemma parseFrame_corrupt:
  assumes "length rec \<le> MaxInt32" and "i < length rec" and "b \<noteq> rec ! i"
  shows "parseFrame (AppendUvarint (word_of_nat (length rec)) @ le_u32 (crc32c rec) @ rec[i := b] @ rest) = None"
  using assms crc32c_one_byte [OF assms(2), of b]
  by (simp add: parseFrame_def Let_def unat_length)

section \<open>Logs\<close>

definition log_bytes :: "bytes list \<Rightarrow> bytes" where
  "log_bytes recs = concat (map frame recs)"

definition intact :: "bytes list \<Rightarrow> bool" where
  "intact recs \<longleftrightarrow> (\<forall>rec \<in> set recs. length rec \<le> MaxInt32)"

lemma log_bytes_snoc [simp]: "log_bytes (recs @ [rec]) = log_bytes recs @ frame rec"
  by (simp add: log_bytes_def)

lemma log_bytes_Nil [simp]: "log_bytes [] = []"
  by (simp add: log_bytes_def)

lemma intact_simps [simp]: "intact []" "intact (recs @ [rec]) \<longleftrightarrow> intact recs \<and> length rec \<le> MaxInt32"
  by (auto simp: intact_def)

lemma read_frames_log:
  assumes "intact recs" and "torn = [] \<or> parseFrame torn = None"
  shows "read_frames (pre @ log_bytes recs @ torn) (length pre) acc =
    (length pre + length (log_bytes recs), acc @ recs)"
  using assms(1)
proof (induction recs arbitrary: pre acc)
  case Nil
  then show ?case using assms(2) by (subst read_frames.simps) (auto simp: log_bytes_def)
next
  case (Cons rec recs)
  then have "length rec \<le> MaxInt32" "intact recs" by (simp_all add: intact_def)
  from Cons.IH [OF this(2), of "pre @ frame rec" "acc @ [rec]"] parseFrame_frame [OF this(1), of "log_bytes recs @ torn"]
  show ?case
    by (subst read_frames.simps) (simp add: log_bytes_def frame_nonempty)
qed

context seam_disk
begin

abbreviation content :: "'d \<Rightarrow> gostring \<Rightarrow> bytes" where
  "content d n \<equiv> case_option [] id (durable d n)"

text \<open>The file holds exactly the records, durably, with nothing staged.\<close>

definition holds_log :: "'d \<Rightarrow> gostring \<Rightarrow> bytes list \<Rightarrow> bool" where
  "holds_log d n recs \<longleftrightarrow> ok n \<and> clean d n \<and> intact recs \<and> content d n = log_bytes recs"

lemma Log_Append_durable:
  assumes "holds_log d n recs" and "length rec \<le> MaxInt32"
  shows "\<exists>d'. Log_Append ops n d rec = (d', None) \<and> holds_log d' n (recs @ [rec])"
proof -
  have ok: "ok n" and cl: "clean d n" using assms(1) by (simp_all add: holds_log_def)
  obtain d1 where a: "Append ops d n (frame rec) = (d1, None)"
    using append_staged [OF ok, of d "frame rec"] by (metis prod.collapse)
  obtain d2 e where s: "Sync ops d1 n = (d2, e)" by fastforce
  from append_sync [OF ok cl, of "frame rec" d2 e] a s
  have "e = None" "clean d2 n" "durable d2 n = Some (content d n @ frame rec)" by simp_all
  with a s assms show ?thesis by (simp add: Log_Append_def holds_log_def)
qed

lemma Log_Append_refused: "\<not> ok n \<Longrightarrow> Log_Append ops n d rec = (d, Some ErrInvalid)"
  by (simp add: Log_Append_def append_refused)

text \<open>Opening cuts a torn tail off durably and returns the records in front of it.\<close>

lemma Log_Open_torn:
  assumes "ok n" and "clean d n" and "intact recs" and "content d n = log_bytes recs @ torn"
    and "torn = [] \<or> parseFrame torn = None"
  shows "\<exists>d'. Log_Open ops d n = (d', Inr recs) \<and> holds_log d' n recs \<and> (torn = [] \<longrightarrow> d' = d)"
proof (cases "durable d n")
  case None
  then have "log_bytes recs = []" "torn = []" using assms(4) by simp_all
  then have "recs = []" by (cases recs) (simp_all add: log_bytes_def frame_nonempty)
  with None assms show ?thesis by (simp add: Log_Open_def read_clean holds_log_def)
next
  case (Some data)
  then have data: "data = log_bytes recs @ torn" using assms(4) by simp
  have rf: "read_frames data 0 [] = (length (log_bytes recs), recs)"
    using read_frames_log [OF assms(3,5), of "[]" "[]"] by (simp add: data)
  show ?thesis
  proof (cases "torn = []")
    case True
    with Some rf assms show ?thesis by (simp add: Log_Open_def read_clean data holds_log_def)
  next
    case False
    obtain d1 e1 d2 e2 where w: "WriteFile ops d n (log_bytes recs) = (d1, e1)" "Sync ops d1 n = (d2, e2)"
      by (metis prod.collapse)
    with write_sync [OF assms(1) w] False Some rf assms(1-3) show ?thesis
      by (simp add: Log_Open_def read_clean data holds_log_def)
  qed
qed

lemma Log_Open_log: "holds_log d n recs \<Longrightarrow> Log_Open ops d n = (d, Inr recs)"
  using Log_Open_torn [of n d recs "[]"] by (auto simp: holds_log_def)

text \<open>A crash before the sync of an append: the append happened as a whole or not at all.\<close>

lemma Log_Append_crash:
  assumes "holds_log d n recs" and "length rec \<le> MaxInt32"
  shows "\<exists>d' recs'. Log_Open ops (crash (fst (Append ops d n (frame rec))) rng) n = (d', Inr recs') \<and>
    holds_log d' n recs' \<and> (recs' = recs \<or> recs' = recs @ [rec])"
proof -
  let ?c = "crash (fst (Append ops d n (frame rec))) rng"
  have ok: "ok n" and cl: "clean d n" and i: "intact recs" and c: "content d n = log_bytes recs"
    using assms(1) by (simp_all add: holds_log_def)
  have "clean ?c n" and cases: "durable ?c n = durable d n \<or>
      (\<exists>p. prefix p (frame rec) \<and> durable ?c n = Some (content d n @ p))"
    using append_crash [OF ok cl refl, of "frame rec" rng] by simp_all
  from cases show ?thesis
  proof (elim disjE exE conjE)
    assume "durable ?c n = durable d n"
    with Log_Open_torn [OF ok \<open>clean ?c n\<close> i, of "[]"] c show ?thesis by auto
  next
    fix p assume p: "prefix p (frame rec)" "durable ?c n = Some (content d n @ p)"
    show ?thesis
    proof (cases "p = frame rec")
      case True
      with Log_Open_torn [OF ok \<open>clean ?c n\<close>, of "recs @ [rec]" "[]"] i c p assms(2) show ?thesis by auto
    next
      case False
      then have "parseFrame p = None" using p(1) assms(2) by (intro parseFrame_torn) (simp_all add: strict_prefix_def)
      with Log_Open_torn [OF ok \<open>clean ?c n\<close> i, of p] c p show ?thesis by auto
    qed
  qed
qed

lemma crash_log: "holds_log d n recs \<Longrightarrow> holds_log (crash d rng) n recs"
  using crash_clean [of d n rng] by (simp add: holds_log_def)

end

section \<open>Row batches\<close>

text \<open>The rows a batch leaves behind, on the finite map of the code.\<close>

definition commit_fmap :: "(gostring, bytes) fmap \<Rightarrow> Row \<Rightarrow> (gostring, bytes) fmap" where
  "commit_fmap m r = (if row_Value r = [] then fmdrop (row_Key r) m else fmupd (row_Key r) (row_Value r) m)"

lemma fmlookup_commit: "fmlookup (foldl commit_fmap m rows) = commit_rows (fmlookup m) rows"
proof (induction rows arbitrary: m)
  case (Cons r rows)
  have "fmlookup (commit_fmap m r) = commit_row (fmlookup m) r"
    by (auto simp: commit_fmap_def commit_row_def fun_eq_iff)
  with Cons show ?case by (simp add: commit_rows_def)
qed (simp add: commit_rows_def)

text \<open>A transaction within the limits of the row log.\<close>

definition batch_fits :: "protowire \<Rightarrow> Row list \<Rightarrow> bool" where
  "batch_fits pw rows \<longleftrightarrow> length (encodeBatch pw rows) \<le> MaxInt32 \<and>
     (\<forall>r \<in> set rows. row_Key r \<noteq> [] \<and> go_sized (row_Key r) \<and> go_sized (row_Value r) \<and> go_sized (encodeRow pw r))"

lemma batch_fits_code [code]:
  "batch_fits pw rows \<longleftrightarrow> int (length (encodeBatch pw rows)) \<le> 2147483647 \<and>
     list_all (\<lambda>r. row_Key r \<noteq> [] \<and> go_sized (row_Key r) \<and> go_sized (row_Value r) \<and> go_sized (encodeRow pw r)) rows"
  by (simp add: batch_fits_def MaxInt32_def list_all_iff)

context wire
begin

lemma applyRow_loop_Nil [simp]: "applyRow_loop pw [] st = Some (Some st)"
  by (subst applyRow_loop.simps) simp

lemma applyRow_loop_next:
  "row \<noteq> [] \<Longrightarrow> applyRow_step pw row st = Some x \<Longrightarrow> applyRow_loop pw row st = applyRow_loop pw (fst x) (snd x)"
  by (subst applyRow_loop.simps) simp

lemma row_key_field:
  "go_sized k \<Longrightarrow> applyRow_loop pw (AppendTag pw [] 1 BytesType @ AppendBytes pw [] k @ r) st =
     applyRow_loop pw r (st\<lparr>rs_key := k\<rparr>)"
  using applyRow_loop_next [OF tag_nonempty [of 1 BytesType]]
  by (simp add: applyRow_step_def consume_tag consume_bytes BytesType_def del: One_nat_def)

lemma row_value_field:
  "go_sized v \<Longrightarrow> applyRow_loop pw (AppendTag pw [] 2 BytesType @ AppendBytes pw [] v) st =
     Some (Some (st\<lparr>rs_value := v\<rparr>))"
  using applyRow_loop_next [OF tag_nonempty [of 2 BytesType]] consume_bytes [of v "[]"]
  by (simp add: applyRow_step_def consume_tag BytesType_def)

lemma row_tombstone_field:
  "applyRow_loop pw (AppendTag pw [] 3 VarintType @ AppendVarint pw [] 1) st = Some (Some (st\<lparr>rs_tombstone := True\<rparr>))"
  using applyRow_loop_next [OF tag_nonempty [of 3 VarintType]] consume_varint [of 1 "[]"]
  by (simp add: applyRow_step_def consume_tag VarintType_def BytesType_def)

lemma encodeRow_eq:
  "encodeRow pw r = AppendTag pw [] 1 BytesType @ AppendBytes pw [] (row_Key r) @
     (if row_Value r = [] then AppendTag pw [] 3 VarintType @ AppendVarint pw [] 1
      else AppendTag pw [] 2 BytesType @ AppendBytes pw [] (row_Value r))"
  by (simp add: encodeRow_def Let_def string_bytes tag_append [of "b @ c" for b c]
      bytes_append [of "AppendTag pw [] n t" for n t] bytes_append [of "b @ c" for b c]
      varint_append [of "b @ c" for b c])

lemma applyRow_encodeRow:
  assumes "row_Key r \<noteq> []" and "go_sized (row_Key r)" and "go_sized (row_Value r)"
  shows "applyRow pw m (encodeRow pw r) = Some (Some (commit_fmap m r))"
  using assms
  by (simp add: applyRow_def encodeRow_eq row_key_field row_value_field row_tombstone_field commit_fmap_def
      del: One_nat_def)

lemma applyBatch_Nil [simp]: "applyBatch pw m [] = Some (Some m)"
  by (subst applyBatch.simps) simp

lemma applyBatch_next:
  "rec \<noteq> [] \<Longrightarrow> applyBatch_step pw rec m = Some (Some x) \<Longrightarrow> applyBatch pw m rec = applyBatch pw (snd x) (fst x)"
  by (subst applyBatch.simps) simp

lemma batch_row_field:
  assumes "row_Key r \<noteq> []" and "go_sized (row_Key r)" and "go_sized (row_Value r)" and "go_sized (encodeRow pw r)"
  shows "applyBatch pw m (AppendTag pw [] 2 BytesType @ AppendBytes pw [] (encodeRow pw r) @ b) =
    applyBatch pw (commit_fmap m r) b"
  using applyBatch_next [OF tag_nonempty [of 2 BytesType]] assms
  by (simp add: applyBatch_step_def consume_tag consume_bytes BytesType_def applyRow_encodeRow)

lemma encodeBatch_eq:
  "encodeBatch pw rows = AppendTag pw [] 1 VarintType @ AppendVarint pw [] 1 @
     concat (map (\<lambda>r. AppendTag pw [] 2 BytesType @ AppendBytes pw [] (encodeRow pw r)) rows)"
proof -
  have el: "AppendBytes pw (AppendTag pw b 2 BytesType) x = b @ AppendTag pw [] 2 BytesType @ AppendBytes pw [] x" for b x
    by (simp add: tag_append [of b] bytes_append [of "b @ c" for c])
  have "foldl (\<lambda>b r. AppendBytes pw (AppendTag pw b 2 BytesType) (encodeRow pw r)) c rows =
      c @ concat (map (\<lambda>r. AppendTag pw [] 2 BytesType @ AppendBytes pw [] (encodeRow pw r)) rows)" for c
    by (induction rows arbitrary: c) (simp_all add: el)
  then show ?thesis
    by (simp add: encodeBatch_def Let_def rowBatchFormatVersion_def varint_append [of "AppendTag pw [] 1 VarintType"]
        del: One_nat_def)
qed

text \<open>The version field is skipped as an unknown one.\<close>

lemma applyBatch_version:
  "applyBatch pw m (AppendTag pw [] 1 VarintType @ AppendVarint pw [] 1 @ b) = applyBatch pw m b"
  using applyBatch_next [OF tag_nonempty [of 1 VarintType]] field_varint [of 1 1 b]
  by (simp add: applyBatch_step_def consume_tag VarintType_def BytesType_def del: One_nat_def)

lemma applyBatch_encodeBatch:
  assumes "batch_fits pw rows"
  shows "applyBatch pw m (encodeBatch pw rows) = Some (Some (foldl commit_fmap m rows))"
proof -
  have "\<forall>r \<in> set rows. row_Key r \<noteq> [] \<and> go_sized (row_Key r) \<and> go_sized (row_Value r) \<and> go_sized (encodeRow pw r)"
    using assms by (simp add: batch_fits_def)
  then have "applyBatch pw m (concat (map (\<lambda>r. AppendTag pw [] 2 BytesType @ AppendBytes pw [] (encodeRow pw r)) rows)) =
      Some (Some (foldl commit_fmap m rows))" for m
    by (induction rows arbitrary: m) (simp_all add: batch_row_field)
  then show ?thesis by (simp add: encodeBatch_eq applyBatch_version del: One_nat_def)
qed

lemma replay_append:
  "replay pw m (recs @ recs') =
     (case replay pw m recs of None \<Rightarrow> None | Some None \<Rightarrow> Some None | Some (Some m') \<Rightarrow> replay pw m' recs')"
  by (induction recs arbitrary: m) (simp_all split: option.split)

end

section \<open>The row log is a persister\<close>

locale row_log = wire pw + seam_disk ops durable clean crash ok
  for pw :: protowire and ops :: "'d Disk" and durable clean crash ok
begin

text \<open>The file holds a log of committed transactions that replays to \<open>m\<close>.\<close>

definition committed :: "gostring \<Rightarrow> 'd \<Rightarrow> (gostring, bytes) fmap \<Rightarrow> bool" where
  "committed n d m \<longleftrightarrow> (\<exists>recs. holds_log d n recs \<and> replay pw fmempty recs = Some (Some m))"

lemma committed_unique: "committed n d m \<Longrightarrow> committed n d m' \<Longrightarrow> m = m'"
proof -
  assume "committed n d m" "committed n d m'"
  then obtain r r' where "holds_log d n r" "holds_log d n r'"
    "replay pw fmempty r = Some (Some m)" "replay pw fmempty r' = Some (Some m')"
    by (auto simp: committed_def)
  moreover have "r = r'" using Log_Open_log [OF calculation(1)] Log_Open_log [OF calculation(2)] by simp
  ultimately show ?thesis by simp
qed

lemma OpenRows_committed: "committed n d m \<Longrightarrow> OpenRows pw ops d n = Some (d, Inr m)"
  by (auto simp: committed_def OpenRows_def Log_Open_log)

lemma Commit_committed:
  assumes "committed n d m" and "batch_fits pw rows"
  shows "\<exists>d'. RowLog_Commit pw ops n d rows = (d', True) \<and> committed n d' (foldl commit_fmap m rows)"
proof -
  obtain recs where r: "holds_log d n recs" "replay pw fmempty recs = Some (Some m)"
    using assms(1) by (auto simp: committed_def)
  obtain d' where "Log_Append ops n d (encodeBatch pw rows) = (d', None)"
    "holds_log d' n (recs @ [encodeBatch pw rows])"
    using Log_Append_durable [OF r(1), of "encodeBatch pw rows"] assms(2) by (auto simp: batch_fits_def)
  moreover have "replay pw fmempty (recs @ [encodeBatch pw rows]) = Some (Some (foldl commit_fmap m rows))"
    using r(2) assms(2) by (simp add: replay_append applyBatch_encodeBatch)
  ultimately show ?thesis by (auto simp: RowLog_Commit_def committed_def)
qed

text \<open>
  A crash between the append and the sync of a commit: a restart finds the rows of before the
  transaction or those of after it, and the log is ready for the next commit.
\<close>

lemma Commit_crash:
  assumes "committed n d m" and "batch_fits pw rows"
  shows "\<exists>d' m'. OpenRows pw ops (crash (fst (Append ops d n (frame (encodeBatch pw rows)))) rng) n = Some (d', Inr m') \<and>
    committed n d' m' \<and> (m' = m \<or> m' = foldl commit_fmap m rows)"
proof -
  let ?rec = "encodeBatch pw rows"
  obtain recs where r: "holds_log d n recs" "replay pw fmempty recs = Some (Some m)"
    using assms(1) by (auto simp: committed_def)
  have after: "replay pw fmempty (recs @ [?rec]) = Some (Some (foldl commit_fmap m rows))"
    using r(2) assms(2) by (simp add: replay_append applyBatch_encodeBatch)
  obtain d' recs' where "Log_Open ops (crash (fst (Append ops d n (frame ?rec))) rng) n = (d', Inr recs')"
    "holds_log d' n recs'" "recs' = recs \<or> recs' = recs @ [?rec]"
    using Log_Append_crash [OF r(1), of ?rec rng] assms(2) by (auto simp: batch_fits_def)
  with r(2) after show ?thesis by (auto simp: OpenRows_def committed_def)
qed

lemma crash_committed: "committed n d m \<Longrightarrow> committed n (crash d rng) m"
  unfolding committed_def using crash_log by blast

text \<open>What a restart finds.\<close>

definition restart_rows :: "gostring \<Rightarrow> 'd \<Rightarrow> (gostring \<rightharpoonup> bytes)" where
  "restart_rows n d = (case OpenRows pw ops d n of Some (_, Inr m) \<Rightarrow> fmlookup m | _ \<Rightarrow> Map.empty)"

lemma restart_committed [simp]: "committed n d m \<Longrightarrow> restart_rows n d = fmlookup m"
  by (simp add: restart_rows_def OpenRows_committed)

lemma row_log_persister:
  "persister (RowLog_Commit pw ops n) (restart_rows n) (\<lambda>d. \<exists>m. committed n d m) (batch_fits pw)"
proof unfold_locales
  fix d rows
  assume "\<exists>m. committed n d m" and f: "batch_fits pw rows"
  then obtain m where m: "committed n d m" by blast
  obtain d' where c: "RowLog_Commit pw ops n d rows = (d', True)" "committed n d' (foldl commit_fmap m rows)"
    using Commit_committed [OF m f] by blast
  then show "\<exists>m. committed n (fst (RowLog_Commit pw ops n d rows)) m" by auto
  show "restart_rows n (fst (RowLog_Commit pw ops n d rows)) = commit_rows (restart_rows n d) rows"
    using m c by (simp add: fmlookup_commit)
  show "restart_rows n (fst (RowLog_Commit pw ops n d rows)) = restart_rows n d"
    if "\<not> snd (RowLog_Commit pw ops n d rows)"
    using that c(1) by simp
qed

sublocale persister "RowLog_Commit pw ops n" "restart_rows n" "\<lambda>d. \<exists>m. committed n d m" "batch_fits pw" for n
  by (rule row_log_persister)

end

end
