(* ===== verification/Store_Recovery.thy ===== *)
theory Store_Recovery
  imports Meta_History Wal_Recovery Wire_Ref
begin

text \<open>
  The whole stack: a metadata store persisting through the row log on a crash-faithful disk.

  \<open>mirrors\<close> (memory equals what a restart would find) is carried through a history; opening the
  log after a crash and restoring the rows gives the store back.
\<close>

text \<open>Every transaction of a history is within the limits of the persister.\<close>

fun run_fits ::
    "protowire \<Rightarrow> ('p \<Rightarrow> Row list \<Rightarrow> 'p \<times> bool) \<Rightarrow> (Row list \<Rightarrow> bool) \<Rightarrow> proposal list \<Rightarrow> 'p Store \<Rightarrow> bool" where
  "run_fits pw commit fits [] s \<longleftrightarrow> True"
| "run_fits pw commit fits (p # ps) s \<longleftrightarrow>
     fits (changeset pw (fst (Apply_body p (tx_reset (s_kv s))))) \<and>
     run_fits pw commit fits ps (fst (Apply pw commit p s))"

context persistent_store
begin

lemma run_mirrors: "mirrors s \<Longrightarrow> run_fits pw commit fits ps s \<Longrightarrow> mirrors (run pw commit ps s)"
proof (induction ps arbitrary: s)
  case (Cons p ps)
  then show ?case using Apply_mirrors [of s p] by (simp add: apply_changes_def)
qed simp

lemma mirrors_start:
  assumes "good d" and "durable d = Map.empty"
  shows "mirrors (SetPersister NewStore d)"
  using assms
  by (auto simp: mirrors_def SetPersister_def NewStore_def formatted_def encoded_def fun_eq_iff)
     (simp add: newTxKV_def)

end

context row_log
begin

text \<open>A missing file is an empty log.\<close>

lemma committed_missing: "ok n \<Longrightarrow> clean d n \<Longrightarrow> durable d n = None \<Longrightarrow> committed n d fmempty"
  unfolding committed_def by (intro exI [of _ "[]"]) (simp add: holds_log_def)

end

section \<open>The stack over the simulated disk\<close>

interpretation simrows: row_log ref_wire sim_disk disk_durable disk_clean disk_crash ValidPath
  by unfold_locales

text \<open>What a restart finds in the file \<open>n\<close> of a simulated disk, and that the file is a log.\<close>

abbreviation disk_rows :: "protowire \<Rightarrow> gostring \<Rightarrow> disk \<Rightarrow> (gostring \<rightharpoonup> bytes)" where
  "disk_rows pw \<equiv> row_log.restart_rows pw sim_disk"

abbreviation disk_log :: "protowire \<Rightarrow> gostring \<Rightarrow> disk \<Rightarrow> (gostring, bytes) fmap \<Rightarrow> bool" where
  "disk_log pw \<equiv> row_log.committed pw disk_durable disk_clean ValidPath"

lemma sim_row_log: "wire pw \<Longrightarrow> row_log pw sim_disk disk_durable disk_clean disk_crash ValidPath"
  by (intro row_log.intro sim.seam_disk_axioms)

lemma sim_store:
  "wire pw \<Longrightarrow> persistent_store pw (RowLog_Commit pw sim_disk n) (disk_rows pw n) (\<lambda>d. \<exists>m. disk_log pw n d m) (batch_fits pw)"
  using row_log.row_log_persister [OF sim_row_log] by (intro persistent_store.intro)

interpretation simstore: persistent_store ref_wire "RowLog_Commit ref_wire sim_disk n" "disk_rows ref_wire n"
    "\<lambda>d. \<exists>m. disk_log ref_wire n d m" "batch_fits ref_wire" for n
  by (rule sim_store) (rule ref.wire_axioms)

section \<open>Recovery\<close>

abbreviation start_store :: "disk Store" where
  "start_store \<equiv> SetPersister NewStore newDisk"

text \<open>After a history that began with an empty disk, the log on disk holds the encoded rows.\<close>

lemma run_logged:
  assumes "wire pw" and "ValidPath n"
    and "run_fits pw (RowLog_Commit pw sim_disk n) (batch_fits pw) ps start_store"
    and "s = run pw (RowLog_Commit pw sim_disk n) ps start_store"
  shows "\<exists>d m. s_persist s = Some d \<and> disk_log pw n d m \<and> fmlookup m = encoded pw (s_kv s) \<and>
    tx_inv (s_kv s) \<and> formatted (s_kv s)"
proof -
  note st = sim_store [OF assms(1), of n] and rl = sim_row_log [OF assms(1)]
  have "disk_log pw n newDisk fmempty"
    using row_log.committed_missing [OF rl assms(2), of newDisk]
    by (simp add: newDisk_def disk_clean_def disk_durable_def)
  then have "persistent_store.mirrors pw (disk_rows pw n) (\<lambda>d. \<exists>m. disk_log pw n d m) start_store"
    using persistent_store.mirrors_start [OF st] row_log.restart_committed [OF rl] by fastforce
  from persistent_store.run_mirrors [OF st this assms(3)] show ?thesis
    using row_log.restart_committed [OF rl] assms(4)
    by (auto simp: persistent_store.mirrors_def [OF st])
qed

text \<open>Rows found on disk are restored into the store they encode.\<close>

lemma restored:
  assumes "wire pw" and "wf_rows t" and "encodable pw t" and "fmlookup m = encoded pw t"
    and "map_of rows = fmlookup m" and "distinct (map fst rows)"
  shows "\<exists>s' :: 'p Store. restore_rows pw NewStore rows = Some (Some s') \<and> tx_mem (s_kv s') = tx_mem t"
  using wire.restore_fresh [OF assms(1-3), of rows] assms(4-6) by simp

end
