(* ===== verification/Meta_ProposalCodec.thy ===== *)
theory Meta_ProposalCodec
  imports Meta_Codec Meta_Proposals
begin

text \<open>
  The proposal codec (\<^verbatim>\<open>internal/meta/proposal_codec.go\<close>): the entries of the replicated log.

  Each command has the branch \<open>encode_X\<close> of \<^verbatim>\<open>EncodeProposal\<close>, the loop body \<open>X_field\<close> and the branch
  \<open>decode_X\<close> of \<^verbatim>\<open>decodeCommand\<close>. The envelope carries the format version, the proposal time and
  exactly one command. A decoder always returns; it inverts the encoder; a second command, a
  missing command and an unknown envelope field are refused.
\<close>

section \<open>Commands\<close>

definition encode_CompletedPart :: "protowire \<Rightarrow> CompletedPart \<Rightarrow> bytes" where
  "encode_CompletedPart pw p =
     (let part = [];
          part = putUvarint pw part 1 (ucast (cp_PartNumber p));
          part = putBytes pw part 2 (cp_ETag p)
      in part)"

definition CompletedPart_field ::
    "protowire \<Rightarrow> dec \<Rightarrow> CompletedPart \<Rightarrow> (dec \<times> CompletedPart) option" where
  "CompletedPart_field pw d p =
     (if d_num d = 1 then fld (dec_uint32 pw d) (\<lambda>v. p\<lparr>cp_PartNumber := v\<rparr>)
      else if d_num d = 2 then fld (dec_bytes pw d) (\<lambda>v. p\<lparr>cp_ETag := v\<rparr>)
      else fld (dec_skipUnknown pw d) (\<lambda>_. p))"

definition decodeCompletedPart :: "protowire \<Rightarrow> bytes \<Rightarrow> CompletedPart option option" where
  "decodeCompletedPart pw b = dec_msg pw (CompletedPart_field pw) b \<lparr>cp_PartNumber = 0, cp_ETag = []\<rparr>"

definition encode_CreateBucket :: "protowire \<Rightarrow> CreateBucket \<Rightarrow> bytes" where
  "encode_CreateBucket pw c =
     (let b = [];
          b = putString pw b 1 (cb_Bucket c);
          b = putBool pw b 2 (cb_ObjectLockEnabled c)
      in b)"

definition CreateBucket_field ::
    "protowire \<Rightarrow> dec \<Rightarrow> CreateBucket \<Rightarrow> (dec \<times> CreateBucket) option" where
  "CreateBucket_field pw d c =
     (if d_num d = 1 then fld (dec_str pw d) (\<lambda>v. c\<lparr>cb_Bucket := v\<rparr>)
      else if d_num d = 2 then fld (dec_bool pw d) (\<lambda>v. c\<lparr>cb_ObjectLockEnabled := v\<rparr>)
      else fld (dec_skipUnknown pw d) (\<lambda>_. c))"

definition CreateBucket_at :: "i64 \<Rightarrow> CreateBucket" where
  "CreateBucket_at at = \<lparr>cb_ProposedAtUnixMS = at, cb_Bucket = [], cb_ObjectLockEnabled = False\<rparr>"

definition decode_CreateBucket ::
    "protowire \<Rightarrow> i64 \<Rightarrow> bytes \<Rightarrow> CreateBucket option option" where
  "decode_CreateBucket pw at b = dec_msg pw (CreateBucket_field pw) b (CreateBucket_at at)"

definition sized_CreateBucket :: "protowire \<Rightarrow> CreateBucket \<Rightarrow> bool" where
  "sized_CreateBucket pw c \<longleftrightarrow>
     go_sized (cb_Bucket c)"

definition encode_DeleteBucket :: "protowire \<Rightarrow> DeleteBucket \<Rightarrow> bytes" where
  "encode_DeleteBucket pw c =
     (let b = [];
          b = putString pw b 1 (db_Bucket c)
      in b)"

definition DeleteBucket_field ::
    "protowire \<Rightarrow> dec \<Rightarrow> DeleteBucket \<Rightarrow> (dec \<times> DeleteBucket) option" where
  "DeleteBucket_field pw d c =
     (if d_num d = 1 then fld (dec_str pw d) (\<lambda>v. c\<lparr>db_Bucket := v\<rparr>)
      else fld (dec_skipUnknown pw d) (\<lambda>_. c))"

definition DeleteBucket_at :: "i64 \<Rightarrow> DeleteBucket" where
  "DeleteBucket_at at = \<lparr>db_ProposedAtUnixMS = at, db_Bucket = []\<rparr>"

definition decode_DeleteBucket ::
    "protowire \<Rightarrow> i64 \<Rightarrow> bytes \<Rightarrow> DeleteBucket option option" where
  "decode_DeleteBucket pw at b = dec_msg pw (DeleteBucket_field pw) b (DeleteBucket_at at)"

definition sized_DeleteBucket :: "protowire \<Rightarrow> DeleteBucket \<Rightarrow> bool" where
  "sized_DeleteBucket pw c \<longleftrightarrow>
     go_sized (db_Bucket c)"

definition encode_SetBucketVersioning :: "protowire \<Rightarrow> SetBucketVersioning \<Rightarrow> bytes" where
  "encode_SetBucketVersioning pw c =
     (let b = [];
          b = putString pw b 1 (sv_Bucket c);
          b = putUvarint pw b 2 (ucast (sv_State c))
      in b)"

definition SetBucketVersioning_field ::
    "protowire \<Rightarrow> dec \<Rightarrow> SetBucketVersioning \<Rightarrow> (dec \<times> SetBucketVersioning) option" where
  "SetBucketVersioning_field pw d c =
     (if d_num d = 1 then fld (dec_str pw d) (\<lambda>v. c\<lparr>sv_Bucket := v\<rparr>)
      else if d_num d = 2 then fld (dec_enum8 pw d) (\<lambda>v. c\<lparr>sv_State := v\<rparr>)
      else fld (dec_skipUnknown pw d) (\<lambda>_. c))"

definition SetBucketVersioning_at :: "i64 \<Rightarrow> SetBucketVersioning" where
  "SetBucketVersioning_at at = \<lparr>sv_ProposedAtUnixMS = at, sv_Bucket = [], sv_State = 0\<rparr>"

definition decode_SetBucketVersioning ::
    "protowire \<Rightarrow> i64 \<Rightarrow> bytes \<Rightarrow> SetBucketVersioning option option" where
  "decode_SetBucketVersioning pw at b = dec_msg pw (SetBucketVersioning_field pw) b (SetBucketVersioning_at at)"

definition sized_SetBucketVersioning :: "protowire \<Rightarrow> SetBucketVersioning \<Rightarrow> bool" where
  "sized_SetBucketVersioning pw c \<longleftrightarrow>
     go_sized (sv_Bucket c)"

definition encode_SetObjectLockConfiguration ::
    "protowire \<Rightarrow> SetObjectLockConfiguration \<Rightarrow> bytes" where
  "encode_SetObjectLockConfiguration pw c =
     (let b = [];
          b = putString pw b 1 (ol_Bucket c);
          b = putUvarint pw b 2 (ucast (ol_DefaultRetentionMode c));
          b = putUvarint pw b 3 (ucast (ol_DefaultRetentionDays c));
          b = putUvarint pw b 4 (ucast (ol_DefaultRetentionYears c))
      in b)"

definition SetObjectLockConfiguration_field ::
    "protowire \<Rightarrow> dec \<Rightarrow> SetObjectLockConfiguration \<Rightarrow> (dec \<times> SetObjectLockConfiguration) option" where
  "SetObjectLockConfiguration_field pw d c =
     (if d_num d = 1 then fld (dec_str pw d) (\<lambda>v. c\<lparr>ol_Bucket := v\<rparr>)
      else if d_num d = 2 then fld (dec_enum8 pw d) (\<lambda>v. c\<lparr>ol_DefaultRetentionMode := v\<rparr>)
      else if d_num d = 3 then fld (dec_uint32 pw d) (\<lambda>v. c\<lparr>ol_DefaultRetentionDays := v\<rparr>)
      else if d_num d = 4 then fld (dec_uint32 pw d) (\<lambda>v. c\<lparr>ol_DefaultRetentionYears := v\<rparr>)
      else fld (dec_skipUnknown pw d) (\<lambda>_. c))"

definition SetObjectLockConfiguration_at :: "i64 \<Rightarrow> SetObjectLockConfiguration" where
  "SetObjectLockConfiguration_at at = \<lparr>ol_ProposedAtUnixMS = at, ol_Bucket = [], ol_DefaultRetentionMode = 0,
       ol_DefaultRetentionDays = 0, ol_DefaultRetentionYears = 0\<rparr>"

definition decode_SetObjectLockConfiguration ::
    "protowire \<Rightarrow> i64 \<Rightarrow> bytes \<Rightarrow> SetObjectLockConfiguration option option" where
  "decode_SetObjectLockConfiguration pw at b = dec_msg pw (SetObjectLockConfiguration_field pw) b (SetObjectLockConfiguration_at at)"

definition sized_SetObjectLockConfiguration ::
    "protowire \<Rightarrow> SetObjectLockConfiguration \<Rightarrow> bool" where
  "sized_SetObjectLockConfiguration pw c \<longleftrightarrow>
     go_sized (ol_Bucket c)"

definition encode_PutObject :: "protowire \<Rightarrow> PutObject \<Rightarrow> bytes" where
  "encode_PutObject pw c =
     (let b = [];
          b = putString pw b 1 (po_Bucket c);
          b = putString pw b 2 (po_Key c);
          b = putID pw b 3 (po_VersionID c);
          b = putUvarint pw b 4 (po_Size c);
          b = putBytes pw b 5 (po_ETag c);
          b = putString pw b 6 (po_ContentType c);
          b = putMap pw b 7 (po_UserMetadata c);
          b = putUvarint pw b 8 (po_Partition c);
          b = putUvarint pw b 9 (ucast (po_ECDataShards c));
          b = putUvarint pw b 10 (ucast (po_ECParityShards c));
          b = putBytes pw b 11 (po_ObjectChecksum c);
          b = putRepeated pw b 12 (po_ShardChecksums c);
          b = putUvarint pw b 13 (ucast (po_RetentionMode c));
          b = putUvarint pw b 14 (po_RetainUntilUnixMS c);
          b = putBool pw b 15 (po_LegalHold c);
          b = putUvarint pw b 16 (ucast (po_EncAlgorithm c));
          b = putBytes pw b 17 (po_WrappedDEK c);
          b = putUvarint pw b 18 (po_KEKFingerprint c)
      in b)"

definition PutObject_field ::
    "protowire \<Rightarrow> dec \<Rightarrow> PutObject \<Rightarrow> (dec \<times> PutObject) option" where
  "PutObject_field pw d c =
     (if d_num d = 1 then fld (dec_str pw d) (\<lambda>v. c\<lparr>po_Bucket := v\<rparr>)
      else if d_num d = 2 then fld (dec_str pw d) (\<lambda>v. c\<lparr>po_Key := v\<rparr>)
      else if d_num d = 3 then fld (dec_id pw d) (\<lambda>v. c\<lparr>po_VersionID := v\<rparr>)
      else if d_num d = 4 then fld (dec_int64 pw d) (\<lambda>v. c\<lparr>po_Size := v\<rparr>)
      else if d_num d = 5 then fld (dec_bytes pw d) (\<lambda>v. c\<lparr>po_ETag := v\<rparr>)
      else if d_num d = 6 then fld (dec_str pw d) (\<lambda>v. c\<lparr>po_ContentType := v\<rparr>)
      else if d_num d = 7
           then sub (dec_bytes pw d) (mapEntry pw) (\<lambda>kv. po_UserMetadata_update (fmupd (fst kv) (snd kv)) c) c
      else if d_num d = 8 then fld (dec_uvarint pw d) (\<lambda>v. c\<lparr>po_Partition := v\<rparr>)
      else if d_num d = 9 then fld (dec_uint32 pw d) (\<lambda>v. c\<lparr>po_ECDataShards := v\<rparr>)
      else if d_num d = 10 then fld (dec_uint32 pw d) (\<lambda>v. c\<lparr>po_ECParityShards := v\<rparr>)
      else if d_num d = 11 then fld (dec_bytes pw d) (\<lambda>v. c\<lparr>po_ObjectChecksum := v\<rparr>)
      else if d_num d = 12 then fld (dec_bytes pw d) (\<lambda>v. po_ShardChecksums_update (\<lambda>ys. ys @ [v]) c)
      else if d_num d = 13 then fld (dec_enum8 pw d) (\<lambda>v. c\<lparr>po_RetentionMode := v\<rparr>)
      else if d_num d = 14 then fld (dec_int64 pw d) (\<lambda>v. c\<lparr>po_RetainUntilUnixMS := v\<rparr>)
      else if d_num d = 15 then fld (dec_bool pw d) (\<lambda>v. c\<lparr>po_LegalHold := v\<rparr>)
      else if d_num d = 16 then fld (dec_enum8 pw d) (\<lambda>v. c\<lparr>po_EncAlgorithm := v\<rparr>)
      else if d_num d = 17 then fld (dec_bytes pw d) (\<lambda>v. c\<lparr>po_WrappedDEK := v\<rparr>)
      else if d_num d = 18 then fld (dec_uvarint pw d) (\<lambda>v. c\<lparr>po_KEKFingerprint := v\<rparr>)
      else fld (dec_skipUnknown pw d) (\<lambda>_. c))"

definition PutObject_at :: "i64 \<Rightarrow> PutObject" where
  "PutObject_at at = \<lparr>po_ProposedAtUnixMS = at, po_Bucket = [], po_Key = [], po_VersionID = 0, po_Size = 0,
       po_ETag = [], po_ContentType = [], po_UserMetadata = fmempty, po_Partition = 0,
       po_ECDataShards = 0, po_ECParityShards = 0, po_ObjectChecksum = [], po_ShardChecksums =
       [], po_RetentionMode = 0, po_RetainUntilUnixMS = 0, po_LegalHold = False,
       po_EncAlgorithm = 0, po_WrappedDEK = [], po_KEKFingerprint = 0\<rparr>"

definition decode_PutObject ::
    "protowire \<Rightarrow> i64 \<Rightarrow> bytes \<Rightarrow> PutObject option option" where
  "decode_PutObject pw at b = dec_msg pw (PutObject_field pw) b (PutObject_at at)"

definition sized_PutObject :: "protowire \<Rightarrow> PutObject \<Rightarrow> bool" where
  "sized_PutObject pw c \<longleftrightarrow>
     go_sized (po_Bucket c) \<and>
     go_sized (po_Key c) \<and>
     go_sized (po_ETag c) \<and>
     go_sized (po_ContentType c) \<and>
     sized_map pw (po_UserMetadata c) \<and>
     go_sized (po_ObjectChecksum c) \<and>
     (\<forall>v \<in> set (po_ShardChecksums c). go_sized v) \<and>
     go_sized (po_WrappedDEK c)"

definition encode_DeleteObject :: "protowire \<Rightarrow> DeleteObject \<Rightarrow> bytes" where
  "encode_DeleteObject pw c =
     (let b = [];
          b = putString pw b 1 (dob_Bucket c);
          b = putString pw b 2 (dob_Key c);
          b = putID pw b 3 (dob_VersionID c)
      in b)"

definition DeleteObject_field ::
    "protowire \<Rightarrow> dec \<Rightarrow> DeleteObject \<Rightarrow> (dec \<times> DeleteObject) option" where
  "DeleteObject_field pw d c =
     (if d_num d = 1 then fld (dec_str pw d) (\<lambda>v. c\<lparr>dob_Bucket := v\<rparr>)
      else if d_num d = 2 then fld (dec_str pw d) (\<lambda>v. c\<lparr>dob_Key := v\<rparr>)
      else if d_num d = 3 then fld (dec_id pw d) (\<lambda>v. c\<lparr>dob_VersionID := v\<rparr>)
      else fld (dec_skipUnknown pw d) (\<lambda>_. c))"

definition DeleteObject_at :: "i64 \<Rightarrow> DeleteObject" where
  "DeleteObject_at at = \<lparr>dob_ProposedAtUnixMS = at, dob_Bucket = [], dob_Key = [], dob_VersionID = 0\<rparr>"

definition decode_DeleteObject ::
    "protowire \<Rightarrow> i64 \<Rightarrow> bytes \<Rightarrow> DeleteObject option option" where
  "decode_DeleteObject pw at b = dec_msg pw (DeleteObject_field pw) b (DeleteObject_at at)"

definition sized_DeleteObject :: "protowire \<Rightarrow> DeleteObject \<Rightarrow> bool" where
  "sized_DeleteObject pw c \<longleftrightarrow>
     go_sized (dob_Bucket c) \<and>
     go_sized (dob_Key c)"

definition encode_DeleteVersion :: "protowire \<Rightarrow> DeleteVersion \<Rightarrow> bytes" where
  "encode_DeleteVersion pw c =
     (let b = [];
          b = putString pw b 1 (dv_Bucket c);
          b = putString pw b 2 (dv_Key c);
          b = putID pw b 3 (dv_VersionID c);
          b = putBool pw b 4 (dv_BypassGovernance c)
      in b)"

definition DeleteVersion_field ::
    "protowire \<Rightarrow> dec \<Rightarrow> DeleteVersion \<Rightarrow> (dec \<times> DeleteVersion) option" where
  "DeleteVersion_field pw d c =
     (if d_num d = 1 then fld (dec_str pw d) (\<lambda>v. c\<lparr>dv_Bucket := v\<rparr>)
      else if d_num d = 2 then fld (dec_str pw d) (\<lambda>v. c\<lparr>dv_Key := v\<rparr>)
      else if d_num d = 3 then fld (dec_id pw d) (\<lambda>v. c\<lparr>dv_VersionID := v\<rparr>)
      else if d_num d = 4 then fld (dec_bool pw d) (\<lambda>v. c\<lparr>dv_BypassGovernance := v\<rparr>)
      else fld (dec_skipUnknown pw d) (\<lambda>_. c))"

definition DeleteVersion_at :: "i64 \<Rightarrow> DeleteVersion" where
  "DeleteVersion_at at = \<lparr>dv_ProposedAtUnixMS = at, dv_Bucket = [], dv_Key = [], dv_VersionID = 0,
       dv_BypassGovernance = False\<rparr>"

definition decode_DeleteVersion ::
    "protowire \<Rightarrow> i64 \<Rightarrow> bytes \<Rightarrow> DeleteVersion option option" where
  "decode_DeleteVersion pw at b = dec_msg pw (DeleteVersion_field pw) b (DeleteVersion_at at)"

definition sized_DeleteVersion :: "protowire \<Rightarrow> DeleteVersion \<Rightarrow> bool" where
  "sized_DeleteVersion pw c \<longleftrightarrow>
     go_sized (dv_Bucket c) \<and>
     go_sized (dv_Key c)"

definition encode_UpdateRetention :: "protowire \<Rightarrow> UpdateRetention \<Rightarrow> bytes" where
  "encode_UpdateRetention pw c =
     (let b = [];
          b = putString pw b 1 (ut_Bucket c);
          b = putString pw b 2 (ut_Key c);
          b = putID pw b 3 (ut_VersionID c);
          b = putUvarint pw b 4 (ucast (ut_Mode c));
          b = putUvarint pw b 5 (ut_RetainUntilUnixMS c);
          b = putBool pw b 6 (ut_BypassGovernance c)
      in b)"

definition UpdateRetention_field ::
    "protowire \<Rightarrow> dec \<Rightarrow> UpdateRetention \<Rightarrow> (dec \<times> UpdateRetention) option" where
  "UpdateRetention_field pw d c =
     (if d_num d = 1 then fld (dec_str pw d) (\<lambda>v. c\<lparr>ut_Bucket := v\<rparr>)
      else if d_num d = 2 then fld (dec_str pw d) (\<lambda>v. c\<lparr>ut_Key := v\<rparr>)
      else if d_num d = 3 then fld (dec_id pw d) (\<lambda>v. c\<lparr>ut_VersionID := v\<rparr>)
      else if d_num d = 4 then fld (dec_enum8 pw d) (\<lambda>v. c\<lparr>ut_Mode := v\<rparr>)
      else if d_num d = 5 then fld (dec_int64 pw d) (\<lambda>v. c\<lparr>ut_RetainUntilUnixMS := v\<rparr>)
      else if d_num d = 6 then fld (dec_bool pw d) (\<lambda>v. c\<lparr>ut_BypassGovernance := v\<rparr>)
      else fld (dec_skipUnknown pw d) (\<lambda>_. c))"

definition UpdateRetention_at :: "i64 \<Rightarrow> UpdateRetention" where
  "UpdateRetention_at at = \<lparr>ut_ProposedAtUnixMS = at, ut_Bucket = [], ut_Key = [], ut_VersionID = 0, ut_Mode = 0,
       ut_RetainUntilUnixMS = 0, ut_BypassGovernance = False\<rparr>"

definition decode_UpdateRetention ::
    "protowire \<Rightarrow> i64 \<Rightarrow> bytes \<Rightarrow> UpdateRetention option option" where
  "decode_UpdateRetention pw at b = dec_msg pw (UpdateRetention_field pw) b (UpdateRetention_at at)"

definition sized_UpdateRetention :: "protowire \<Rightarrow> UpdateRetention \<Rightarrow> bool" where
  "sized_UpdateRetention pw c \<longleftrightarrow>
     go_sized (ut_Bucket c) \<and>
     go_sized (ut_Key c)"

definition encode_UpdateLegalHold :: "protowire \<Rightarrow> UpdateLegalHold \<Rightarrow> bytes" where
  "encode_UpdateLegalHold pw c =
     (let b = [];
          b = putString pw b 1 (ul_Bucket c);
          b = putString pw b 2 (ul_Key c);
          b = putID pw b 3 (ul_VersionID c);
          b = putBool pw b 4 (ul_Hold c)
      in b)"

definition UpdateLegalHold_field ::
    "protowire \<Rightarrow> dec \<Rightarrow> UpdateLegalHold \<Rightarrow> (dec \<times> UpdateLegalHold) option" where
  "UpdateLegalHold_field pw d c =
     (if d_num d = 1 then fld (dec_str pw d) (\<lambda>v. c\<lparr>ul_Bucket := v\<rparr>)
      else if d_num d = 2 then fld (dec_str pw d) (\<lambda>v. c\<lparr>ul_Key := v\<rparr>)
      else if d_num d = 3 then fld (dec_id pw d) (\<lambda>v. c\<lparr>ul_VersionID := v\<rparr>)
      else if d_num d = 4 then fld (dec_bool pw d) (\<lambda>v. c\<lparr>ul_Hold := v\<rparr>)
      else fld (dec_skipUnknown pw d) (\<lambda>_. c))"

definition UpdateLegalHold_at :: "i64 \<Rightarrow> UpdateLegalHold" where
  "UpdateLegalHold_at at = \<lparr>ul_ProposedAtUnixMS = at, ul_Bucket = [], ul_Key = [], ul_VersionID = 0, ul_Hold = False\<rparr>"

definition decode_UpdateLegalHold ::
    "protowire \<Rightarrow> i64 \<Rightarrow> bytes \<Rightarrow> UpdateLegalHold option option" where
  "decode_UpdateLegalHold pw at b = dec_msg pw (UpdateLegalHold_field pw) b (UpdateLegalHold_at at)"

definition sized_UpdateLegalHold :: "protowire \<Rightarrow> UpdateLegalHold \<Rightarrow> bool" where
  "sized_UpdateLegalHold pw c \<longleftrightarrow>
     go_sized (ul_Bucket c) \<and>
     go_sized (ul_Key c)"

definition encode_CreateMultipartUpload :: "protowire \<Rightarrow> CreateMultipartUpload \<Rightarrow> bytes" where
  "encode_CreateMultipartUpload pw c =
     (let b = [];
          b = putString pw b 1 (cm_Bucket c);
          b = putString pw b 2 (cm_Key c);
          b = putID pw b 3 (cm_UploadID c);
          b = putString pw b 4 (cm_ContentType c);
          b = putMap pw b 5 (cm_UserMetadata c)
      in b)"

definition CreateMultipartUpload_field ::
    "protowire \<Rightarrow> dec \<Rightarrow> CreateMultipartUpload \<Rightarrow> (dec \<times> CreateMultipartUpload) option" where
  "CreateMultipartUpload_field pw d c =
     (if d_num d = 1 then fld (dec_str pw d) (\<lambda>v. c\<lparr>cm_Bucket := v\<rparr>)
      else if d_num d = 2 then fld (dec_str pw d) (\<lambda>v. c\<lparr>cm_Key := v\<rparr>)
      else if d_num d = 3 then fld (dec_id pw d) (\<lambda>v. c\<lparr>cm_UploadID := v\<rparr>)
      else if d_num d = 4 then fld (dec_str pw d) (\<lambda>v. c\<lparr>cm_ContentType := v\<rparr>)
      else if d_num d = 5
           then sub (dec_bytes pw d) (mapEntry pw) (\<lambda>kv. cm_UserMetadata_update (fmupd (fst kv) (snd kv)) c) c
      else fld (dec_skipUnknown pw d) (\<lambda>_. c))"

definition CreateMultipartUpload_at :: "i64 \<Rightarrow> CreateMultipartUpload" where
  "CreateMultipartUpload_at at = \<lparr>cm_ProposedAtUnixMS = at, cm_Bucket = [], cm_Key = [], cm_UploadID = 0, cm_ContentType =
       [], cm_UserMetadata = fmempty\<rparr>"

definition decode_CreateMultipartUpload ::
    "protowire \<Rightarrow> i64 \<Rightarrow> bytes \<Rightarrow> CreateMultipartUpload option option" where
  "decode_CreateMultipartUpload pw at b = dec_msg pw (CreateMultipartUpload_field pw) b (CreateMultipartUpload_at at)"

definition sized_CreateMultipartUpload :: "protowire \<Rightarrow> CreateMultipartUpload \<Rightarrow> bool" where
  "sized_CreateMultipartUpload pw c \<longleftrightarrow>
     go_sized (cm_Bucket c) \<and>
     go_sized (cm_Key c) \<and>
     go_sized (cm_ContentType c) \<and>
     sized_map pw (cm_UserMetadata c)"

definition encode_UploadPart :: "protowire \<Rightarrow> UploadPart \<Rightarrow> bytes" where
  "encode_UploadPart pw c =
     (let b = [];
          b = putString pw b 1 (up_Bucket c);
          b = putString pw b 2 (up_Key c);
          b = putID pw b 3 (up_UploadID c);
          b = putUvarint pw b 4 (ucast (up_PartNumber c));
          b = putID pw b 5 (up_DataID c);
          b = putUvarint pw b 6 (up_Size c);
          b = putBytes pw b 7 (up_ETag c);
          b = putBytes pw b 8 (up_Checksum c);
          b = putUvarint pw b 9 (up_Partition c);
          b = putUvarint pw b 10 (ucast (up_ECDataShards c));
          b = putUvarint pw b 11 (ucast (up_ECParityShards c));
          b = putRepeated pw b 12 (up_ShardChecksums c);
          b = putUvarint pw b 13 (ucast (up_EncAlgorithm c));
          b = putBytes pw b 14 (up_WrappedDEK c);
          b = putUvarint pw b 15 (up_KEKFingerprint c)
      in b)"

definition UploadPart_field ::
    "protowire \<Rightarrow> dec \<Rightarrow> UploadPart \<Rightarrow> (dec \<times> UploadPart) option" where
  "UploadPart_field pw d c =
     (if d_num d = 1 then fld (dec_str pw d) (\<lambda>v. c\<lparr>up_Bucket := v\<rparr>)
      else if d_num d = 2 then fld (dec_str pw d) (\<lambda>v. c\<lparr>up_Key := v\<rparr>)
      else if d_num d = 3 then fld (dec_id pw d) (\<lambda>v. c\<lparr>up_UploadID := v\<rparr>)
      else if d_num d = 4 then fld (dec_uint32 pw d) (\<lambda>v. c\<lparr>up_PartNumber := v\<rparr>)
      else if d_num d = 5 then fld (dec_id pw d) (\<lambda>v. c\<lparr>up_DataID := v\<rparr>)
      else if d_num d = 6 then fld (dec_int64 pw d) (\<lambda>v. c\<lparr>up_Size := v\<rparr>)
      else if d_num d = 7 then fld (dec_bytes pw d) (\<lambda>v. c\<lparr>up_ETag := v\<rparr>)
      else if d_num d = 8 then fld (dec_bytes pw d) (\<lambda>v. c\<lparr>up_Checksum := v\<rparr>)
      else if d_num d = 9 then fld (dec_uvarint pw d) (\<lambda>v. c\<lparr>up_Partition := v\<rparr>)
      else if d_num d = 10 then fld (dec_uint32 pw d) (\<lambda>v. c\<lparr>up_ECDataShards := v\<rparr>)
      else if d_num d = 11 then fld (dec_uint32 pw d) (\<lambda>v. c\<lparr>up_ECParityShards := v\<rparr>)
      else if d_num d = 12 then fld (dec_bytes pw d) (\<lambda>v. up_ShardChecksums_update (\<lambda>ys. ys @ [v]) c)
      else if d_num d = 13 then fld (dec_enum8 pw d) (\<lambda>v. c\<lparr>up_EncAlgorithm := v\<rparr>)
      else if d_num d = 14 then fld (dec_bytes pw d) (\<lambda>v. c\<lparr>up_WrappedDEK := v\<rparr>)
      else if d_num d = 15 then fld (dec_uvarint pw d) (\<lambda>v. c\<lparr>up_KEKFingerprint := v\<rparr>)
      else fld (dec_skipUnknown pw d) (\<lambda>_. c))"

definition UploadPart_at :: "i64 \<Rightarrow> UploadPart" where
  "UploadPart_at at = \<lparr>up_ProposedAtUnixMS = at, up_Bucket = [], up_Key = [], up_UploadID = 0, up_PartNumber =
       0, up_DataID = 0, up_Size = 0, up_ETag = [], up_Checksum = [], up_Partition = 0,
       up_ECDataShards = 0, up_ECParityShards = 0, up_ShardChecksums = [], up_EncAlgorithm = 0,
       up_WrappedDEK = [], up_KEKFingerprint = 0\<rparr>"

definition decode_UploadPart ::
    "protowire \<Rightarrow> i64 \<Rightarrow> bytes \<Rightarrow> UploadPart option option" where
  "decode_UploadPart pw at b = dec_msg pw (UploadPart_field pw) b (UploadPart_at at)"

definition sized_UploadPart :: "protowire \<Rightarrow> UploadPart \<Rightarrow> bool" where
  "sized_UploadPart pw c \<longleftrightarrow>
     go_sized (up_Bucket c) \<and>
     go_sized (up_Key c) \<and>
     go_sized (up_ETag c) \<and>
     go_sized (up_Checksum c) \<and>
     (\<forall>v \<in> set (up_ShardChecksums c). go_sized v) \<and>
     go_sized (up_WrappedDEK c)"

definition encode_CompleteMultipartUpload ::
    "protowire \<Rightarrow> CompleteMultipartUpload \<Rightarrow> bytes" where
  "encode_CompleteMultipartUpload pw c =
     (let b = [];
          b = putString pw b 1 (co_Bucket c);
          b = putString pw b 2 (co_Key c);
          b = putID pw b 3 (co_UploadID c);
          b = putID pw b 4 (co_VersionID c);
          b = putBytes pw b 5 (co_ETag c);
          b = putRepeated pw b 6 (map (encode_CompletedPart pw) (co_Parts c))
      in b)"

definition CompleteMultipartUpload_field ::
    "protowire \<Rightarrow> dec \<Rightarrow> CompleteMultipartUpload \<Rightarrow> (dec \<times> CompleteMultipartUpload) option" where
  "CompleteMultipartUpload_field pw d c =
     (if d_num d = 1 then fld (dec_str pw d) (\<lambda>v. c\<lparr>co_Bucket := v\<rparr>)
      else if d_num d = 2 then fld (dec_str pw d) (\<lambda>v. c\<lparr>co_Key := v\<rparr>)
      else if d_num d = 3 then fld (dec_id pw d) (\<lambda>v. c\<lparr>co_UploadID := v\<rparr>)
      else if d_num d = 4 then fld (dec_id pw d) (\<lambda>v. c\<lparr>co_VersionID := v\<rparr>)
      else if d_num d = 5 then fld (dec_bytes pw d) (\<lambda>v. c\<lparr>co_ETag := v\<rparr>)
      else if d_num d = 6
           then sub (dec_bytes pw d) (decodeCompletedPart pw) (\<lambda>v. co_Parts_update (\<lambda>ys. ys @ [v]) c) c
      else fld (dec_skipUnknown pw d) (\<lambda>_. c))"

definition CompleteMultipartUpload_at :: "i64 \<Rightarrow> CompleteMultipartUpload" where
  "CompleteMultipartUpload_at at = \<lparr>co_ProposedAtUnixMS = at, co_Bucket = [], co_Key = [], co_UploadID = 0, co_VersionID =
       0, co_ETag = [], co_Parts = []\<rparr>"

definition decode_CompleteMultipartUpload ::
    "protowire \<Rightarrow> i64 \<Rightarrow> bytes \<Rightarrow> CompleteMultipartUpload option option" where
  "decode_CompleteMultipartUpload pw at b = dec_msg pw (CompleteMultipartUpload_field pw) b (CompleteMultipartUpload_at at)"

definition sized_CompleteMultipartUpload :: "protowire \<Rightarrow> CompleteMultipartUpload \<Rightarrow> bool" where
  "sized_CompleteMultipartUpload pw c \<longleftrightarrow>
     go_sized (co_Bucket c) \<and>
     go_sized (co_Key c) \<and>
     go_sized (co_ETag c) \<and>
     (\<forall>p \<in> set (co_Parts c). go_sized (cp_ETag p) \<and> go_sized (encode_CompletedPart pw p))"

definition encode_AbortMultipartUpload :: "protowire \<Rightarrow> AbortMultipartUpload \<Rightarrow> bytes" where
  "encode_AbortMultipartUpload pw c =
     (let b = [];
          b = putString pw b 1 (ab_Bucket c);
          b = putString pw b 2 (ab_Key c);
          b = putID pw b 3 (ab_UploadID c)
      in b)"

definition AbortMultipartUpload_field ::
    "protowire \<Rightarrow> dec \<Rightarrow> AbortMultipartUpload \<Rightarrow> (dec \<times> AbortMultipartUpload) option" where
  "AbortMultipartUpload_field pw d c =
     (if d_num d = 1 then fld (dec_str pw d) (\<lambda>v. c\<lparr>ab_Bucket := v\<rparr>)
      else if d_num d = 2 then fld (dec_str pw d) (\<lambda>v. c\<lparr>ab_Key := v\<rparr>)
      else if d_num d = 3 then fld (dec_id pw d) (\<lambda>v. c\<lparr>ab_UploadID := v\<rparr>)
      else fld (dec_skipUnknown pw d) (\<lambda>_. c))"

definition AbortMultipartUpload_at :: "i64 \<Rightarrow> AbortMultipartUpload" where
  "AbortMultipartUpload_at at = \<lparr>ab_ProposedAtUnixMS = at, ab_Bucket = [], ab_Key = [], ab_UploadID = 0\<rparr>"

definition decode_AbortMultipartUpload ::
    "protowire \<Rightarrow> i64 \<Rightarrow> bytes \<Rightarrow> AbortMultipartUpload option option" where
  "decode_AbortMultipartUpload pw at b = dec_msg pw (AbortMultipartUpload_field pw) b (AbortMultipartUpload_at at)"

definition sized_AbortMultipartUpload :: "protowire \<Rightarrow> AbortMultipartUpload \<Rightarrow> bool" where
  "sized_AbortMultipartUpload pw c \<longleftrightarrow>
     go_sized (ab_Bucket c) \<and>
     go_sized (ab_Key c)"

definition encode_SetEncryptionPosture :: "protowire \<Rightarrow> SetEncryptionPosture \<Rightarrow> bytes" where
  "encode_SetEncryptionPosture pw c =
     (let b = [];
          b = putUvarint pw b 1 (ucast (se_Algorithm c));
          b = putUvarint pw b 2 (se_KEKFingerprint c)
      in b)"

definition SetEncryptionPosture_field ::
    "protowire \<Rightarrow> dec \<Rightarrow> SetEncryptionPosture \<Rightarrow> (dec \<times> SetEncryptionPosture) option" where
  "SetEncryptionPosture_field pw d c =
     (if d_num d = 1 then fld (dec_enum8 pw d) (\<lambda>v. c\<lparr>se_Algorithm := v\<rparr>)
      else if d_num d = 2 then fld (dec_uvarint pw d) (\<lambda>v. c\<lparr>se_KEKFingerprint := v\<rparr>)
      else fld (dec_skipUnknown pw d) (\<lambda>_. c))"

definition SetEncryptionPosture_at :: "i64 \<Rightarrow> SetEncryptionPosture" where
  "SetEncryptionPosture_at at = \<lparr>se_ProposedAtUnixMS = at, se_Algorithm = 0, se_KEKFingerprint = 0\<rparr>"

definition decode_SetEncryptionPosture ::
    "protowire \<Rightarrow> i64 \<Rightarrow> bytes \<Rightarrow> SetEncryptionPosture option option" where
  "decode_SetEncryptionPosture pw at b = dec_msg pw (SetEncryptionPosture_field pw) b (SetEncryptionPosture_at at)"

definition sized_SetEncryptionPosture :: "protowire \<Rightarrow> SetEncryptionPosture \<Rightarrow> bool" where
  "sized_SetEncryptionPosture pw c \<longleftrightarrow>
     True"

definition encode_BeginKEKRotation :: "protowire \<Rightarrow> BeginKEKRotation \<Rightarrow> bytes" where
  "encode_BeginKEKRotation pw c =
     (let b = [];
          b = putUvarint pw b 1 (bk_FromFingerprint c);
          b = putUvarint pw b 2 (bk_ToFingerprint c)
      in b)"

definition BeginKEKRotation_field ::
    "protowire \<Rightarrow> dec \<Rightarrow> BeginKEKRotation \<Rightarrow> (dec \<times> BeginKEKRotation) option" where
  "BeginKEKRotation_field pw d c =
     (if d_num d = 1 then fld (dec_uvarint pw d) (\<lambda>v. c\<lparr>bk_FromFingerprint := v\<rparr>)
      else if d_num d = 2 then fld (dec_uvarint pw d) (\<lambda>v. c\<lparr>bk_ToFingerprint := v\<rparr>)
      else fld (dec_skipUnknown pw d) (\<lambda>_. c))"

definition BeginKEKRotation_at :: "i64 \<Rightarrow> BeginKEKRotation" where
  "BeginKEKRotation_at at = \<lparr>bk_ProposedAtUnixMS = at, bk_FromFingerprint = 0, bk_ToFingerprint = 0\<rparr>"

definition decode_BeginKEKRotation ::
    "protowire \<Rightarrow> i64 \<Rightarrow> bytes \<Rightarrow> BeginKEKRotation option option" where
  "decode_BeginKEKRotation pw at b = dec_msg pw (BeginKEKRotation_field pw) b (BeginKEKRotation_at at)"

definition sized_BeginKEKRotation :: "protowire \<Rightarrow> BeginKEKRotation \<Rightarrow> bool" where
  "sized_BeginKEKRotation pw c \<longleftrightarrow>
     True"

definition encode_RewrapDEK :: "protowire \<Rightarrow> RewrapDEK \<Rightarrow> bytes" where
  "encode_RewrapDEK pw c =
     (let b = [];
          b = putString pw b 1 (rw_Bucket c);
          b = putString pw b 2 (rw_Key c);
          b = putID pw b 3 (rw_VersionID c);
          b = putBytes pw b 4 (rw_WrappedDEK c);
          b = putUvarint pw b 5 (rw_KEKFingerprint c)
      in b)"

definition RewrapDEK_field ::
    "protowire \<Rightarrow> dec \<Rightarrow> RewrapDEK \<Rightarrow> (dec \<times> RewrapDEK) option" where
  "RewrapDEK_field pw d c =
     (if d_num d = 1 then fld (dec_str pw d) (\<lambda>v. c\<lparr>rw_Bucket := v\<rparr>)
      else if d_num d = 2 then fld (dec_str pw d) (\<lambda>v. c\<lparr>rw_Key := v\<rparr>)
      else if d_num d = 3 then fld (dec_id pw d) (\<lambda>v. c\<lparr>rw_VersionID := v\<rparr>)
      else if d_num d = 4 then fld (dec_bytes pw d) (\<lambda>v. c\<lparr>rw_WrappedDEK := v\<rparr>)
      else if d_num d = 5 then fld (dec_uvarint pw d) (\<lambda>v. c\<lparr>rw_KEKFingerprint := v\<rparr>)
      else fld (dec_skipUnknown pw d) (\<lambda>_. c))"

definition RewrapDEK_at :: "i64 \<Rightarrow> RewrapDEK" where
  "RewrapDEK_at at = \<lparr>rw_ProposedAtUnixMS = at, rw_Bucket = [], rw_Key = [], rw_VersionID = 0, rw_WrappedDEK =
       [], rw_KEKFingerprint = 0\<rparr>"

definition decode_RewrapDEK ::
    "protowire \<Rightarrow> i64 \<Rightarrow> bytes \<Rightarrow> RewrapDEK option option" where
  "decode_RewrapDEK pw at b = dec_msg pw (RewrapDEK_field pw) b (RewrapDEK_at at)"

definition sized_RewrapDEK :: "protowire \<Rightarrow> RewrapDEK \<Rightarrow> bool" where
  "sized_RewrapDEK pw c \<longleftrightarrow>
     go_sized (rw_Bucket c) \<and>
     go_sized (rw_Key c) \<and>
     go_sized (rw_WrappedDEK c)"

definition encode_CompleteKEKRotation :: "protowire \<Rightarrow> CompleteKEKRotation \<Rightarrow> bytes" where
  "encode_CompleteKEKRotation pw c =
     (let b = [];
          b = putUvarint pw b 1 (ck_ToFingerprint c)
      in b)"

definition CompleteKEKRotation_field ::
    "protowire \<Rightarrow> dec \<Rightarrow> CompleteKEKRotation \<Rightarrow> (dec \<times> CompleteKEKRotation) option" where
  "CompleteKEKRotation_field pw d c =
     (if d_num d = 1 then fld (dec_uvarint pw d) (\<lambda>v. c\<lparr>ck_ToFingerprint := v\<rparr>)
      else fld (dec_skipUnknown pw d) (\<lambda>_. c))"

definition CompleteKEKRotation_at :: "i64 \<Rightarrow> CompleteKEKRotation" where
  "CompleteKEKRotation_at at = \<lparr>ck_ProposedAtUnixMS = at, ck_ToFingerprint = 0\<rparr>"

definition decode_CompleteKEKRotation ::
    "protowire \<Rightarrow> i64 \<Rightarrow> bytes \<Rightarrow> CompleteKEKRotation option option" where
  "decode_CompleteKEKRotation pw at b = dec_msg pw (CompleteKEKRotation_field pw) b (CompleteKEKRotation_at at)"

definition sized_CompleteKEKRotation :: "protowire \<Rightarrow> CompleteKEKRotation \<Rightarrow> bool" where
  "sized_CompleteKEKRotation pw c \<longleftrightarrow>
     True"

definition encode_SetClusterLayout :: "protowire \<Rightarrow> SetClusterLayout \<Rightarrow> bytes" where
  "encode_SetClusterLayout pw c =
     (let b = [];
          b = putUvarint pw b 1 (sl_Version c);
          b = putUvarint pw b 2 (ucast (sl_PartitionCount c));
          b = putStrings pw b 3 (sl_Members c);
          b = putRepeated pw b 4 (map (marshalLayoutNode pw) (sl_Nodes c));
          b = putRepeated pw b 5 (map (marshalLayoutNode pw) (sl_Previous c))
      in b)"

definition SetClusterLayout_field ::
    "protowire \<Rightarrow> dec \<Rightarrow> SetClusterLayout \<Rightarrow> (dec \<times> SetClusterLayout) option" where
  "SetClusterLayout_field pw d c =
     (if d_num d = 1 then fld (dec_uvarint pw d) (\<lambda>v. c\<lparr>sl_Version := v\<rparr>)
      else if d_num d = 2 then fld (dec_uint32 pw d) (\<lambda>v. c\<lparr>sl_PartitionCount := v\<rparr>)
      else if d_num d = 3 then fld (dec_str pw d) (\<lambda>v. sl_Members_update (\<lambda>ys. ys @ [v]) c)
      else if d_num d = 4
           then sub (dec_bytes pw d) (unmarshalLayoutNode pw) (\<lambda>v. sl_Nodes_update (\<lambda>ys. ys @ [v]) c) c
      else if d_num d = 5
           then sub (dec_bytes pw d) (unmarshalLayoutNode pw) (\<lambda>v. sl_Previous_update (\<lambda>ys. ys @ [v]) c) c
      else fld (dec_skipUnknown pw d) (\<lambda>_. c))"

definition SetClusterLayout_at :: "i64 \<Rightarrow> SetClusterLayout" where
  "SetClusterLayout_at at = \<lparr>sl_ProposedAtUnixMS = at, sl_Version = 0, sl_PartitionCount = 0, sl_Members = [],
       sl_Nodes = [], sl_Previous = []\<rparr>"

definition decode_SetClusterLayout ::
    "protowire \<Rightarrow> i64 \<Rightarrow> bytes \<Rightarrow> SetClusterLayout option option" where
  "decode_SetClusterLayout pw at b = dec_msg pw (SetClusterLayout_field pw) b (SetClusterLayout_at at)"

definition sized_SetClusterLayout :: "protowire \<Rightarrow> SetClusterLayout \<Rightarrow> bool" where
  "sized_SetClusterLayout pw c \<longleftrightarrow>
     (\<forall>m \<in> set (sl_Members c). go_sized m \<and> m \<noteq> []) \<and>
     (\<forall>p \<in> set (sl_Nodes c). sized_LayoutNode pw p \<and> go_sized (marshalLayoutNode pw p)) \<and>
     (\<forall>p \<in> set (sl_Previous c). sized_LayoutNode pw p \<and> go_sized (marshalLayoutNode pw p))"

definition encode_RegisterNode :: "protowire \<Rightarrow> RegisterNode \<Rightarrow> bytes" where
  "encode_RegisterNode pw c =
     (let b = [];
          b = putString pw b 1 (rn_NodeID c);
          b = putString pw b 2 (rn_Host c);
          b = putString pw b 3 (rn_Zone c);
          b = putUvarint pw b 4 (ucast (rn_Capacity c));
          b = putUvarint pw b 5 (rn_LeafCAFingerprint c)
      in b)"

definition RegisterNode_field ::
    "protowire \<Rightarrow> dec \<Rightarrow> RegisterNode \<Rightarrow> (dec \<times> RegisterNode) option" where
  "RegisterNode_field pw d c =
     (if d_num d = 1 then fld (dec_str pw d) (\<lambda>v. c\<lparr>rn_NodeID := v\<rparr>)
      else if d_num d = 2 then fld (dec_str pw d) (\<lambda>v. c\<lparr>rn_Host := v\<rparr>)
      else if d_num d = 3 then fld (dec_str pw d) (\<lambda>v. c\<lparr>rn_Zone := v\<rparr>)
      else if d_num d = 4 then fld (dec_uint32 pw d) (\<lambda>v. c\<lparr>rn_Capacity := v\<rparr>)
      else if d_num d = 5 then fld (dec_uvarint pw d) (\<lambda>v. c\<lparr>rn_LeafCAFingerprint := v\<rparr>)
      else fld (dec_skipUnknown pw d) (\<lambda>_. c))"

definition RegisterNode_at :: "i64 \<Rightarrow> RegisterNode" where
  "RegisterNode_at at = \<lparr>rn_ProposedAtUnixMS = at, rn_NodeID = [], rn_Host = [], rn_Zone = [], rn_Capacity = 0,
       rn_LeafCAFingerprint = 0\<rparr>"

definition decode_RegisterNode ::
    "protowire \<Rightarrow> i64 \<Rightarrow> bytes \<Rightarrow> RegisterNode option option" where
  "decode_RegisterNode pw at b = dec_msg pw (RegisterNode_field pw) b (RegisterNode_at at)"

definition sized_RegisterNode :: "protowire \<Rightarrow> RegisterNode \<Rightarrow> bool" where
  "sized_RegisterNode pw c \<longleftrightarrow>
     go_sized (rn_NodeID c) \<and>
     go_sized (rn_Host c) \<and>
     go_sized (rn_Zone c)"

definition encode_SetNodeLeafCA :: "protowire \<Rightarrow> SetNodeLeafCA \<Rightarrow> bytes" where
  "encode_SetNodeLeafCA pw c =
     (let b = [];
          b = putString pw b 1 (nl_NodeID c);
          b = putUvarint pw b 2 (nl_LeafCAFingerprint c)
      in b)"

definition SetNodeLeafCA_field ::
    "protowire \<Rightarrow> dec \<Rightarrow> SetNodeLeafCA \<Rightarrow> (dec \<times> SetNodeLeafCA) option" where
  "SetNodeLeafCA_field pw d c =
     (if d_num d = 1 then fld (dec_str pw d) (\<lambda>v. c\<lparr>nl_NodeID := v\<rparr>)
      else if d_num d = 2 then fld (dec_uvarint pw d) (\<lambda>v. c\<lparr>nl_LeafCAFingerprint := v\<rparr>)
      else fld (dec_skipUnknown pw d) (\<lambda>_. c))"

definition SetNodeLeafCA_at :: "i64 \<Rightarrow> SetNodeLeafCA" where
  "SetNodeLeafCA_at at = \<lparr>nl_ProposedAtUnixMS = at, nl_NodeID = [], nl_LeafCAFingerprint = 0\<rparr>"

definition decode_SetNodeLeafCA ::
    "protowire \<Rightarrow> i64 \<Rightarrow> bytes \<Rightarrow> SetNodeLeafCA option option" where
  "decode_SetNodeLeafCA pw at b = dec_msg pw (SetNodeLeafCA_field pw) b (SetNodeLeafCA_at at)"

definition sized_SetNodeLeafCA :: "protowire \<Rightarrow> SetNodeLeafCA \<Rightarrow> bool" where
  "sized_SetNodeLeafCA pw c \<longleftrightarrow>
     go_sized (nl_NodeID c)"

definition encode_SetNodeVersion :: "protowire \<Rightarrow> SetNodeVersion \<Rightarrow> bytes" where
  "encode_SetNodeVersion pw c =
     (let b = [];
          b = putString pw b 1 (nv_NodeID c);
          b = putString pw b 2 (nv_BinaryVersion c);
          b = putUvarint pw b 3 (ucast (nv_Generation c))
      in b)"

definition SetNodeVersion_field ::
    "protowire \<Rightarrow> dec \<Rightarrow> SetNodeVersion \<Rightarrow> (dec \<times> SetNodeVersion) option" where
  "SetNodeVersion_field pw d c =
     (if d_num d = 1 then fld (dec_str pw d) (\<lambda>v. c\<lparr>nv_NodeID := v\<rparr>)
      else if d_num d = 2 then fld (dec_str pw d) (\<lambda>v. c\<lparr>nv_BinaryVersion := v\<rparr>)
      else if d_num d = 3 then fld (dec_uint32 pw d) (\<lambda>v. c\<lparr>nv_Generation := v\<rparr>)
      else fld (dec_skipUnknown pw d) (\<lambda>_. c))"

definition SetNodeVersion_at :: "i64 \<Rightarrow> SetNodeVersion" where
  "SetNodeVersion_at at = \<lparr>nv_ProposedAtUnixMS = at, nv_NodeID = [], nv_BinaryVersion = [], nv_Generation = 0\<rparr>"

definition decode_SetNodeVersion ::
    "protowire \<Rightarrow> i64 \<Rightarrow> bytes \<Rightarrow> SetNodeVersion option option" where
  "decode_SetNodeVersion pw at b = dec_msg pw (SetNodeVersion_field pw) b (SetNodeVersion_at at)"

definition sized_SetNodeVersion :: "protowire \<Rightarrow> SetNodeVersion \<Rightarrow> bool" where
  "sized_SetNodeVersion pw c \<longleftrightarrow>
     go_sized (nv_NodeID c) \<and>
     go_sized (nv_BinaryVersion c)"

definition encode_SetTrustBundle :: "protowire \<Rightarrow> SetTrustBundle \<Rightarrow> bytes" where
  "encode_SetTrustBundle pw c =
     (let b = [];
          b = putUvarint pw b 1 (st_Version c);
          b = putRepeated pw b 2 (map (marshalTrustedCA pw) (st_CAs c));
          b = putUvarint pw b 3 (st_IssuerFingerprint c)
      in b)"

definition SetTrustBundle_field ::
    "protowire \<Rightarrow> dec \<Rightarrow> SetTrustBundle \<Rightarrow> (dec \<times> SetTrustBundle) option" where
  "SetTrustBundle_field pw d c =
     (if d_num d = 1 then fld (dec_uvarint pw d) (\<lambda>v. c\<lparr>st_Version := v\<rparr>)
      else if d_num d = 2
           then sub (dec_bytes pw d) (unmarshalTrustedCA pw) (\<lambda>v. st_CAs_update (\<lambda>ys. ys @ [v]) c) c
      else if d_num d = 3 then fld (dec_uvarint pw d) (\<lambda>v. c\<lparr>st_IssuerFingerprint := v\<rparr>)
      else fld (dec_skipUnknown pw d) (\<lambda>_. c))"

definition SetTrustBundle_at :: "i64 \<Rightarrow> SetTrustBundle" where
  "SetTrustBundle_at at = \<lparr>st_ProposedAtUnixMS = at, st_Version = 0, st_CAs = [], st_IssuerFingerprint = 0\<rparr>"

definition decode_SetTrustBundle ::
    "protowire \<Rightarrow> i64 \<Rightarrow> bytes \<Rightarrow> SetTrustBundle option option" where
  "decode_SetTrustBundle pw at b = dec_msg pw (SetTrustBundle_field pw) b (SetTrustBundle_at at)"

definition sized_SetTrustBundle :: "protowire \<Rightarrow> SetTrustBundle \<Rightarrow> bool" where
  "sized_SetTrustBundle pw c \<longleftrightarrow>
     (\<forall>p \<in> set (st_CAs c). sized_TrustedCA pw p \<and> go_sized (marshalTrustedCA pw p))"

definition encode_SetNodeDraining :: "protowire \<Rightarrow> SetNodeDraining \<Rightarrow> bytes" where
  "encode_SetNodeDraining pw c =
     (let b = [];
          b = putString pw b 1 (nd_NodeID c);
          b = (if nd_Draining c then putUvarint pw b 2 1 else b)
      in b)"

definition SetNodeDraining_field ::
    "protowire \<Rightarrow> dec \<Rightarrow> SetNodeDraining \<Rightarrow> (dec \<times> SetNodeDraining) option" where
  "SetNodeDraining_field pw d c =
     (if d_num d = 1 then fld (dec_str pw d) (\<lambda>v. c\<lparr>nd_NodeID := v\<rparr>)
      else if d_num d = 2 then fld (dec_bool pw d) (\<lambda>v. c\<lparr>nd_Draining := v\<rparr>)
      else fld (dec_skipUnknown pw d) (\<lambda>_. c))"

definition SetNodeDraining_at :: "i64 \<Rightarrow> SetNodeDraining" where
  "SetNodeDraining_at at = \<lparr>nd_ProposedAtUnixMS = at, nd_NodeID = [], nd_Draining = False\<rparr>"

definition decode_SetNodeDraining ::
    "protowire \<Rightarrow> i64 \<Rightarrow> bytes \<Rightarrow> SetNodeDraining option option" where
  "decode_SetNodeDraining pw at b = dec_msg pw (SetNodeDraining_field pw) b (SetNodeDraining_at at)"

definition sized_SetNodeDraining :: "protowire \<Rightarrow> SetNodeDraining \<Rightarrow> bool" where
  "sized_SetNodeDraining pw c \<longleftrightarrow>
     go_sized (nd_NodeID c)"

definition encode_SetNodeReplacedBy :: "protowire \<Rightarrow> SetNodeReplacedBy \<Rightarrow> bytes" where
  "encode_SetNodeReplacedBy pw c =
     (let b = [];
          b = putString pw b 1 (nb_NodeID c);
          b = putString pw b 2 (nb_ReplacedBy c)
      in b)"

definition SetNodeReplacedBy_field ::
    "protowire \<Rightarrow> dec \<Rightarrow> SetNodeReplacedBy \<Rightarrow> (dec \<times> SetNodeReplacedBy) option" where
  "SetNodeReplacedBy_field pw d c =
     (if d_num d = 1 then fld (dec_str pw d) (\<lambda>v. c\<lparr>nb_NodeID := v\<rparr>)
      else if d_num d = 2 then fld (dec_str pw d) (\<lambda>v. c\<lparr>nb_ReplacedBy := v\<rparr>)
      else fld (dec_skipUnknown pw d) (\<lambda>_. c))"

definition SetNodeReplacedBy_at :: "i64 \<Rightarrow> SetNodeReplacedBy" where
  "SetNodeReplacedBy_at at = \<lparr>nb_ProposedAtUnixMS = at, nb_NodeID = [], nb_ReplacedBy = []\<rparr>"

definition decode_SetNodeReplacedBy ::
    "protowire \<Rightarrow> i64 \<Rightarrow> bytes \<Rightarrow> SetNodeReplacedBy option option" where
  "decode_SetNodeReplacedBy pw at b = dec_msg pw (SetNodeReplacedBy_field pw) b (SetNodeReplacedBy_at at)"

definition sized_SetNodeReplacedBy :: "protowire \<Rightarrow> SetNodeReplacedBy \<Rightarrow> bool" where
  "sized_SetNodeReplacedBy pw c \<longleftrightarrow>
     go_sized (nb_NodeID c) \<and>
     go_sized (nb_ReplacedBy c)"

definition encode_ReEncodeObject :: "protowire \<Rightarrow> ReEncodeObject \<Rightarrow> bytes" where
  "encode_ReEncodeObject pw c =
     (let b = [];
          b = putString pw b 1 (re_Bucket c);
          b = putString pw b 2 (re_Key c);
          b = putID pw b 3 (re_VersionID c);
          b = putID pw b 4 (re_DataID c);
          b = putUvarint pw b 5 (ucast (re_ECDataShards c));
          b = putUvarint pw b 6 (ucast (re_ECParityShards c));
          b = putRepeated pw b 7 (re_ShardChecksums c)
      in b)"

definition ReEncodeObject_field ::
    "protowire \<Rightarrow> dec \<Rightarrow> ReEncodeObject \<Rightarrow> (dec \<times> ReEncodeObject) option" where
  "ReEncodeObject_field pw d c =
     (if d_num d = 1 then fld (dec_str pw d) (\<lambda>v. c\<lparr>re_Bucket := v\<rparr>)
      else if d_num d = 2 then fld (dec_str pw d) (\<lambda>v. c\<lparr>re_Key := v\<rparr>)
      else if d_num d = 3 then fld (dec_id pw d) (\<lambda>v. c\<lparr>re_VersionID := v\<rparr>)
      else if d_num d = 4 then fld (dec_id pw d) (\<lambda>v. c\<lparr>re_DataID := v\<rparr>)
      else if d_num d = 5 then fld (dec_uint32 pw d) (\<lambda>v. c\<lparr>re_ECDataShards := v\<rparr>)
      else if d_num d = 6 then fld (dec_uint32 pw d) (\<lambda>v. c\<lparr>re_ECParityShards := v\<rparr>)
      else if d_num d = 7 then fld (dec_bytes pw d) (\<lambda>v. re_ShardChecksums_update (\<lambda>ys. ys @ [v]) c)
      else fld (dec_skipUnknown pw d) (\<lambda>_. c))"

definition ReEncodeObject_at :: "i64 \<Rightarrow> ReEncodeObject" where
  "ReEncodeObject_at at = \<lparr>re_ProposedAtUnixMS = at, re_Bucket = [], re_Key = [], re_VersionID = 0, re_DataID = 0,
       re_ECDataShards = 0, re_ECParityShards = 0, re_ShardChecksums = []\<rparr>"

definition decode_ReEncodeObject ::
    "protowire \<Rightarrow> i64 \<Rightarrow> bytes \<Rightarrow> ReEncodeObject option option" where
  "decode_ReEncodeObject pw at b = dec_msg pw (ReEncodeObject_field pw) b (ReEncodeObject_at at)"

definition sized_ReEncodeObject :: "protowire \<Rightarrow> ReEncodeObject \<Rightarrow> bool" where
  "sized_ReEncodeObject pw c \<longleftrightarrow>
     go_sized (re_Bucket c) \<and>
     go_sized (re_Key c) \<and>
     (\<forall>v \<in> set (re_ShardChecksums c). go_sized v)"

section \<open>The envelope\<close>

definition proposalFormatVersion :: u64 where
  "proposalFormatVersion = 1"

text \<open>Envelope field numbers.\<close>

definition propAt :: nat where "propAt = 2"
definition propCreateBucket :: nat where "propCreateBucket = 3"
definition propDeleteBucket :: nat where "propDeleteBucket = 4"
definition propSetVersioning :: nat where "propSetVersioning = 5"
definition propPutObject :: nat where "propPutObject = 6"
definition propDeleteObject :: nat where "propDeleteObject = 7"
definition propDeleteVersion :: nat where "propDeleteVersion = 8"
definition propUpdateRetention :: nat where "propUpdateRetention = 9"
definition propUpdateLegalHold :: nat where "propUpdateLegalHold = 10"
definition propCreateUpload :: nat where "propCreateUpload = 11"
definition propUploadPart :: nat where "propUploadPart = 12"
definition propCompleteUpload :: nat where "propCompleteUpload = 13"
definition propAbortUpload :: nat where "propAbortUpload = 14"
definition propSetLayout :: nat where "propSetLayout = 15"
definition propRegisterNode :: nat where "propRegisterNode = 16"
definition propSetNodeDraining :: nat where "propSetNodeDraining = 17"
definition propSetNodeReplacedBy :: nat where "propSetNodeReplacedBy = 18"
definition propReEncodeObject :: nat where "propReEncodeObject = 19"
definition propSetObjectLock :: nat where "propSetObjectLock = 20"
definition propSetEncryption :: nat where "propSetEncryption = 21"
definition propBeginKEKRotation :: nat where "propBeginKEKRotation = 22"
definition propRewrapDEK :: nat where "propRewrapDEK = 23"
definition propCompleteKEKRot :: nat where "propCompleteKEKRot = 24"
definition propSetNodeLeafCA :: nat where "propSetNodeLeafCA = 25"
definition propSetTrustBundle :: nat where "propSetTrustBundle = 26"
definition propSetNodeVersion :: nat where "propSetNodeVersion = 27"

definition propMax :: nat where "propMax = propSetNodeVersion"

lemmas prop_defs = propAt_def propCreateBucket_def propDeleteBucket_def propSetVersioning_def
  propPutObject_def propDeleteObject_def propDeleteVersion_def propUpdateRetention_def
  propUpdateLegalHold_def propCreateUpload_def propUploadPart_def propCompleteUpload_def
  propAbortUpload_def propSetLayout_def propRegisterNode_def propSetNodeDraining_def
  propSetNodeReplacedBy_def propReEncodeObject_def propSetObjectLock_def propSetEncryption_def
  propBeginKEKRotation_def propRewrapDEK_def propCompleteKEKRot_def propSetNodeLeafCA_def
  propSetTrustBundle_def propSetNodeVersion_def propMax_def

fun command_num :: "proposal \<Rightarrow> nat" where
  "command_num (P_CreateBucket c) = propCreateBucket"
| "command_num (P_DeleteBucket c) = propDeleteBucket"
| "command_num (P_SetBucketVersioning c) = propSetVersioning"
| "command_num (P_SetObjectLockConfiguration c) = propSetObjectLock"
| "command_num (P_PutObject c) = propPutObject"
| "command_num (P_DeleteObject c) = propDeleteObject"
| "command_num (P_DeleteVersion c) = propDeleteVersion"
| "command_num (P_UpdateRetention c) = propUpdateRetention"
| "command_num (P_UpdateLegalHold c) = propUpdateLegalHold"
| "command_num (P_CreateMultipartUpload c) = propCreateUpload"
| "command_num (P_UploadPart c) = propUploadPart"
| "command_num (P_CompleteMultipartUpload c) = propCompleteUpload"
| "command_num (P_AbortMultipartUpload c) = propAbortUpload"
| "command_num (P_SetEncryptionPosture c) = propSetEncryption"
| "command_num (P_BeginKEKRotation c) = propBeginKEKRotation"
| "command_num (P_RewrapDEK c) = propRewrapDEK"
| "command_num (P_CompleteKEKRotation c) = propCompleteKEKRot"
| "command_num (P_SetClusterLayout c) = propSetLayout"
| "command_num (P_RegisterNode c) = propRegisterNode"
| "command_num (P_SetNodeLeafCA c) = propSetNodeLeafCA"
| "command_num (P_SetNodeVersion c) = propSetNodeVersion"
| "command_num (P_SetTrustBundle c) = propSetTrustBundle"
| "command_num (P_SetNodeDraining c) = propSetNodeDraining"
| "command_num (P_SetNodeReplacedBy c) = propSetNodeReplacedBy"
| "command_num (P_ReEncodeObject c) = propReEncodeObject"

fun command_bytes :: "protowire \<Rightarrow> proposal \<Rightarrow> bytes" where
  "command_bytes pw (P_CreateBucket c) = encode_CreateBucket pw c"
| "command_bytes pw (P_DeleteBucket c) = encode_DeleteBucket pw c"
| "command_bytes pw (P_SetBucketVersioning c) = encode_SetBucketVersioning pw c"
| "command_bytes pw (P_SetObjectLockConfiguration c) = encode_SetObjectLockConfiguration pw c"
| "command_bytes pw (P_PutObject c) = encode_PutObject pw c"
| "command_bytes pw (P_DeleteObject c) = encode_DeleteObject pw c"
| "command_bytes pw (P_DeleteVersion c) = encode_DeleteVersion pw c"
| "command_bytes pw (P_UpdateRetention c) = encode_UpdateRetention pw c"
| "command_bytes pw (P_UpdateLegalHold c) = encode_UpdateLegalHold pw c"
| "command_bytes pw (P_CreateMultipartUpload c) = encode_CreateMultipartUpload pw c"
| "command_bytes pw (P_UploadPart c) = encode_UploadPart pw c"
| "command_bytes pw (P_CompleteMultipartUpload c) = encode_CompleteMultipartUpload pw c"
| "command_bytes pw (P_AbortMultipartUpload c) = encode_AbortMultipartUpload pw c"
| "command_bytes pw (P_SetEncryptionPosture c) = encode_SetEncryptionPosture pw c"
| "command_bytes pw (P_BeginKEKRotation c) = encode_BeginKEKRotation pw c"
| "command_bytes pw (P_RewrapDEK c) = encode_RewrapDEK pw c"
| "command_bytes pw (P_CompleteKEKRotation c) = encode_CompleteKEKRotation pw c"
| "command_bytes pw (P_SetClusterLayout c) = encode_SetClusterLayout pw c"
| "command_bytes pw (P_RegisterNode c) = encode_RegisterNode pw c"
| "command_bytes pw (P_SetNodeLeafCA c) = encode_SetNodeLeafCA pw c"
| "command_bytes pw (P_SetNodeVersion c) = encode_SetNodeVersion pw c"
| "command_bytes pw (P_SetTrustBundle c) = encode_SetTrustBundle pw c"
| "command_bytes pw (P_SetNodeDraining c) = encode_SetNodeDraining pw c"
| "command_bytes pw (P_SetNodeReplacedBy c) = encode_SetNodeReplacedBy pw c"
| "command_bytes pw (P_ReEncodeObject c) = encode_ReEncodeObject pw c"

definition EncodeProposal :: "protowire \<Rightarrow> proposal \<Rightarrow> bytes" where
  "EncodeProposal pw p =
     (let atMS = proposed_at p; num = command_num p; cmd = command_bytes pw p;
          b = [];
          b = putUvarint pw b 1 proposalFormatVersion;
          b = putUvarint pw b propAt atMS;
          b = AppendTag pw b num BytesType;
          b = AppendBytes pw b cmd
      in b)"

record envelope =
  env_at :: i64
  env_num :: nat
  env_cmd :: bytes
  env_seen :: bool

definition envelope_field ::
    "protowire \<Rightarrow> dec \<Rightarrow> envelope \<Rightarrow> (dec \<times> envelope) option" where
  "envelope_field pw d e =
     (if d_num d = 1 then fld (dec_uint32 pw d) (\<lambda>_. e)
      else if d_num d = propAt then fld (dec_int64 pw d) (\<lambda>v. e\<lparr>env_at := v\<rparr>)
      else if d_num d \<ge> propCreateBucket \<and> d_num d \<le> propMax
      then if env_seen e then Some (dec_fail d, e)
           else fld (dec_bytes pw d) (\<lambda>v. e\<lparr>env_seen := True, env_num := d_num d, env_cmd := v\<rparr>)
      else Some (dec_fail d, e))"

abbreviation as_proposal :: "('r \<Rightarrow> proposal) \<Rightarrow> 'r option option \<Rightarrow> proposal option option" where
  "as_proposal c x \<equiv> map_option (map_option c) x"

definition decodeCommand ::
    "protowire \<Rightarrow> nat \<Rightarrow> i64 \<Rightarrow> bytes \<Rightarrow> proposal option option" where
  "decodeCommand pw num atMS b =
     (if num = propCreateBucket then as_proposal P_CreateBucket (decode_CreateBucket pw atMS b)
      else if num = propDeleteBucket then as_proposal P_DeleteBucket (decode_DeleteBucket pw atMS b)
      else if num = propSetVersioning then as_proposal P_SetBucketVersioning (decode_SetBucketVersioning pw atMS b)
      else if num = propSetObjectLock then as_proposal P_SetObjectLockConfiguration (decode_SetObjectLockConfiguration pw atMS b)
      else if num = propPutObject then as_proposal P_PutObject (decode_PutObject pw atMS b)
      else if num = propDeleteObject then as_proposal P_DeleteObject (decode_DeleteObject pw atMS b)
      else if num = propDeleteVersion then as_proposal P_DeleteVersion (decode_DeleteVersion pw atMS b)
      else if num = propUpdateRetention then as_proposal P_UpdateRetention (decode_UpdateRetention pw atMS b)
      else if num = propUpdateLegalHold then as_proposal P_UpdateLegalHold (decode_UpdateLegalHold pw atMS b)
      else if num = propCreateUpload then as_proposal P_CreateMultipartUpload (decode_CreateMultipartUpload pw atMS b)
      else if num = propUploadPart then as_proposal P_UploadPart (decode_UploadPart pw atMS b)
      else if num = propCompleteUpload then as_proposal P_CompleteMultipartUpload (decode_CompleteMultipartUpload pw atMS b)
      else if num = propAbortUpload then as_proposal P_AbortMultipartUpload (decode_AbortMultipartUpload pw atMS b)
      else if num = propSetEncryption then as_proposal P_SetEncryptionPosture (decode_SetEncryptionPosture pw atMS b)
      else if num = propBeginKEKRotation then as_proposal P_BeginKEKRotation (decode_BeginKEKRotation pw atMS b)
      else if num = propRewrapDEK then as_proposal P_RewrapDEK (decode_RewrapDEK pw atMS b)
      else if num = propCompleteKEKRot then as_proposal P_CompleteKEKRotation (decode_CompleteKEKRotation pw atMS b)
      else if num = propSetLayout then as_proposal P_SetClusterLayout (decode_SetClusterLayout pw atMS b)
      else if num = propRegisterNode then as_proposal P_RegisterNode (decode_RegisterNode pw atMS b)
      else if num = propSetNodeLeafCA then as_proposal P_SetNodeLeafCA (decode_SetNodeLeafCA pw atMS b)
      else if num = propSetNodeVersion then as_proposal P_SetNodeVersion (decode_SetNodeVersion pw atMS b)
      else if num = propSetTrustBundle then as_proposal P_SetTrustBundle (decode_SetTrustBundle pw atMS b)
      else if num = propSetNodeDraining then as_proposal P_SetNodeDraining (decode_SetNodeDraining pw atMS b)
      else if num = propSetNodeReplacedBy then as_proposal P_SetNodeReplacedBy (decode_SetNodeReplacedBy pw atMS b)
      else if num = propReEncodeObject then as_proposal P_ReEncodeObject (decode_ReEncodeObject pw atMS b)
      else Some None)"

definition DecodeProposal :: "protowire \<Rightarrow> bytes \<Rightarrow> proposal option option" where
  "DecodeProposal pw b =
     (case dec_msg pw (envelope_field pw) b \<lparr>env_at = 0, env_num = 0, env_cmd = [], env_seen = False\<rparr> of
        None \<Rightarrow> None
      | Some None \<Rightarrow> Some None
      | Some (Some e) \<Rightarrow>
          if \<not> env_seen e then Some None else decodeCommand pw (env_num e) (env_at e) (env_cmd e))"

fun sized_command :: "protowire \<Rightarrow> proposal \<Rightarrow> bool" where
  "sized_command pw (P_CreateBucket c) = sized_CreateBucket pw c"
| "sized_command pw (P_DeleteBucket c) = sized_DeleteBucket pw c"
| "sized_command pw (P_SetBucketVersioning c) = sized_SetBucketVersioning pw c"
| "sized_command pw (P_SetObjectLockConfiguration c) = sized_SetObjectLockConfiguration pw c"
| "sized_command pw (P_PutObject c) = sized_PutObject pw c"
| "sized_command pw (P_DeleteObject c) = sized_DeleteObject pw c"
| "sized_command pw (P_DeleteVersion c) = sized_DeleteVersion pw c"
| "sized_command pw (P_UpdateRetention c) = sized_UpdateRetention pw c"
| "sized_command pw (P_UpdateLegalHold c) = sized_UpdateLegalHold pw c"
| "sized_command pw (P_CreateMultipartUpload c) = sized_CreateMultipartUpload pw c"
| "sized_command pw (P_UploadPart c) = sized_UploadPart pw c"
| "sized_command pw (P_CompleteMultipartUpload c) = sized_CompleteMultipartUpload pw c"
| "sized_command pw (P_AbortMultipartUpload c) = sized_AbortMultipartUpload pw c"
| "sized_command pw (P_SetEncryptionPosture c) = sized_SetEncryptionPosture pw c"
| "sized_command pw (P_BeginKEKRotation c) = sized_BeginKEKRotation pw c"
| "sized_command pw (P_RewrapDEK c) = sized_RewrapDEK pw c"
| "sized_command pw (P_CompleteKEKRotation c) = sized_CompleteKEKRotation pw c"
| "sized_command pw (P_SetClusterLayout c) = sized_SetClusterLayout pw c"
| "sized_command pw (P_RegisterNode c) = sized_RegisterNode pw c"
| "sized_command pw (P_SetNodeLeafCA c) = sized_SetNodeLeafCA pw c"
| "sized_command pw (P_SetNodeVersion c) = sized_SetNodeVersion pw c"
| "sized_command pw (P_SetTrustBundle c) = sized_SetTrustBundle pw c"
| "sized_command pw (P_SetNodeDraining c) = sized_SetNodeDraining pw c"
| "sized_command pw (P_SetNodeReplacedBy c) = sized_SetNodeReplacedBy pw c"
| "sized_command pw (P_ReEncodeObject c) = sized_ReEncodeObject pw c"

text \<open>What an entry of the log can carry.\<close>

definition sized_proposal :: "protowire \<Rightarrow> proposal \<Rightarrow> bool" where
  "sized_proposal pw p \<longleftrightarrow> sized_command pw p \<and> go_sized (command_bytes pw p)"

section \<open>Round trips and termination\<close>

context wire
begin

lemma CompletedPart_roundtrip:
  "go_sized (cp_ETag p) \<Longrightarrow> decodeCompletedPart pw (encode_CompletedPart pw p) = Some (Some p)"
  by (cases p) (simp add: encode_CompletedPart_def decodeCompletedPart_def CompletedPart_field_def fld_def
      Let_def encode_rules decode_rules split del: if_split)

lemma CompletedPart_field_good: "good_field (CompletedPart_field pw) (\<lambda>_. True)"
  unfolding CompletedPart_field_def by (intro good_fieldI good_intros TrueI)

lemma CompletedPart_returns: "decodeCompletedPart pw b \<noteq> None"
  using dec_msg_returns [OF CompletedPart_field_good, where r = "\<lparr>cp_PartNumber = 0, cp_ETag =
  []\<rparr>" and b = b]
  by (auto simp: decodeCompletedPart_def)

lemma CreateBucket_roundtrip:
  "sized_CreateBucket pw c \<Longrightarrow> decode_CreateBucket pw (cb_ProposedAtUnixMS c) (encode_CreateBucket pw c) = Some (Some c)"
  by (cases c)
       (simp add: sized_CreateBucket_def encode_CreateBucket_def decode_CreateBucket_def CreateBucket_at_def
        CreateBucket_field_def fld_def Let_def encode_rules decode_rules split del: if_split)

lemma CreateBucket_field_good: "good_field (CreateBucket_field pw) (\<lambda>_. True)"
  unfolding CreateBucket_field_def by (intro good_fieldI good_intros TrueI)

lemma CreateBucket_returns: "decode_CreateBucket pw at b \<noteq> None"
  using dec_msg_returns [OF CreateBucket_field_good, where r = "CreateBucket_at at" and b = b]
  by (auto simp: decode_CreateBucket_def CreateBucket_at_def)

lemma DeleteBucket_roundtrip:
  "sized_DeleteBucket pw c \<Longrightarrow> decode_DeleteBucket pw (db_ProposedAtUnixMS c) (encode_DeleteBucket pw c) = Some (Some c)"
  by (cases c)
       (simp add: sized_DeleteBucket_def encode_DeleteBucket_def decode_DeleteBucket_def DeleteBucket_at_def
        DeleteBucket_field_def fld_def Let_def encode_rules decode_rules split del: if_split)

lemma DeleteBucket_field_good: "good_field (DeleteBucket_field pw) (\<lambda>_. True)"
  unfolding DeleteBucket_field_def by (intro good_fieldI good_intros TrueI)

lemma DeleteBucket_returns: "decode_DeleteBucket pw at b \<noteq> None"
  using dec_msg_returns [OF DeleteBucket_field_good, where r = "DeleteBucket_at at" and b = b]
  by (auto simp: decode_DeleteBucket_def DeleteBucket_at_def)

lemma SetBucketVersioning_roundtrip:
  "sized_SetBucketVersioning pw c \<Longrightarrow> decode_SetBucketVersioning pw (sv_ProposedAtUnixMS c) (encode_SetBucketVersioning pw c) = Some (Some c)"
  by (cases c)
       (simp add: sized_SetBucketVersioning_def encode_SetBucketVersioning_def decode_SetBucketVersioning_def
        SetBucketVersioning_at_def SetBucketVersioning_field_def fld_def Let_def encode_rules decode_rules
        split del: if_split)

lemma SetBucketVersioning_field_good: "good_field (SetBucketVersioning_field pw) (\<lambda>_. True)"
  unfolding SetBucketVersioning_field_def by (intro good_fieldI good_intros TrueI)

lemma SetBucketVersioning_returns: "decode_SetBucketVersioning pw at b \<noteq> None"
  using dec_msg_returns [OF SetBucketVersioning_field_good, where r = "SetBucketVersioning_at at" and b = b]
  by (auto simp: decode_SetBucketVersioning_def SetBucketVersioning_at_def)

lemma SetObjectLockConfiguration_roundtrip:
  "sized_SetObjectLockConfiguration pw c \<Longrightarrow> decode_SetObjectLockConfiguration pw (ol_ProposedAtUnixMS c) (encode_SetObjectLockConfiguration pw c) = Some (Some c)"
  by (cases c)
       (simp add: sized_SetObjectLockConfiguration_def encode_SetObjectLockConfiguration_def
        decode_SetObjectLockConfiguration_def SetObjectLockConfiguration_at_def
        SetObjectLockConfiguration_field_def fld_def Let_def encode_rules decode_rules split del: if_split)

lemma SetObjectLockConfiguration_field_good: "good_field (SetObjectLockConfiguration_field pw) (\<lambda>_. True)"
  unfolding SetObjectLockConfiguration_field_def by (intro good_fieldI good_intros TrueI)

lemma SetObjectLockConfiguration_returns: "decode_SetObjectLockConfiguration pw at b \<noteq> None"
  using dec_msg_returns [OF SetObjectLockConfiguration_field_good, where r = "SetObjectLockConfiguration_at
  at" and b = b]
  by (auto simp: decode_SetObjectLockConfiguration_def SetObjectLockConfiguration_at_def)

lemma PutObject_UserMetadata_list:
  "sized_map pw m \<Longrightarrow> dec_msg pw (PutObject_field pw) (putMap pw [] 7 m @ b) r =
    dec_msg pw (PutObject_field pw) b (po_UserMetadata_update (\<lambda>m0. m0 ++\<^sub>f m) r)"
  by (rule map_field [where field = "PutObject_field pw" and upd = "po_UserMetadata_update"])
     (simp_all add: PutObject_field_def)

lemma PutObject_ShardChecksums_list:
  "\<forall>v \<in> set vs. go_sized v \<Longrightarrow> dec_msg pw (PutObject_field pw) (putRepeated pw [] 12 vs @ b) r =
    dec_msg pw (PutObject_field pw) b (po_ShardChecksums_update (\<lambda>ys. ys @ vs) r)"
  by (rule blob_list_field [where field = "PutObject_field pw" and upd = "po_ShardChecksums_update"])
     (simp_all add: PutObject_field_def)

lemma PutObject_roundtrip:
  "sized_PutObject pw c \<Longrightarrow> decode_PutObject pw (po_ProposedAtUnixMS c) (encode_PutObject pw c) = Some (Some c)"
  by (cases c)
       (simp add: sized_PutObject_def encode_PutObject_def decode_PutObject_def PutObject_at_def
        PutObject_field_def fld_def Let_def encode_rules decode_rules PutObject_UserMetadata_list
        PutObject_ShardChecksums_list split del: if_split)

lemma PutObject_field_good: "good_field (PutObject_field pw) (\<lambda>_. True)"
  unfolding PutObject_field_def by (intro good_fieldI good_intros TrueI mapEntry_returns)

lemma PutObject_returns: "decode_PutObject pw at b \<noteq> None"
  using dec_msg_returns [OF PutObject_field_good, where r = "PutObject_at at" and b = b]
  by (auto simp: decode_PutObject_def PutObject_at_def)

lemma DeleteObject_roundtrip:
  "sized_DeleteObject pw c \<Longrightarrow> decode_DeleteObject pw (dob_ProposedAtUnixMS c) (encode_DeleteObject pw c) = Some (Some c)"
  by (cases c)
       (simp add: sized_DeleteObject_def encode_DeleteObject_def decode_DeleteObject_def DeleteObject_at_def
        DeleteObject_field_def fld_def Let_def encode_rules decode_rules split del: if_split)

lemma DeleteObject_field_good: "good_field (DeleteObject_field pw) (\<lambda>_. True)"
  unfolding DeleteObject_field_def by (intro good_fieldI good_intros TrueI)

lemma DeleteObject_returns: "decode_DeleteObject pw at b \<noteq> None"
  using dec_msg_returns [OF DeleteObject_field_good, where r = "DeleteObject_at at" and b = b]
  by (auto simp: decode_DeleteObject_def DeleteObject_at_def)

lemma DeleteVersion_roundtrip:
  "sized_DeleteVersion pw c \<Longrightarrow> decode_DeleteVersion pw (dv_ProposedAtUnixMS c) (encode_DeleteVersion pw c) = Some (Some c)"
  by (cases c)
       (simp add: sized_DeleteVersion_def encode_DeleteVersion_def decode_DeleteVersion_def
        DeleteVersion_at_def DeleteVersion_field_def fld_def Let_def encode_rules decode_rules split del:
        if_split)

lemma DeleteVersion_field_good: "good_field (DeleteVersion_field pw) (\<lambda>_. True)"
  unfolding DeleteVersion_field_def by (intro good_fieldI good_intros TrueI)

lemma DeleteVersion_returns: "decode_DeleteVersion pw at b \<noteq> None"
  using dec_msg_returns [OF DeleteVersion_field_good, where r = "DeleteVersion_at at" and b = b]
  by (auto simp: decode_DeleteVersion_def DeleteVersion_at_def)

lemma UpdateRetention_roundtrip:
  "sized_UpdateRetention pw c \<Longrightarrow> decode_UpdateRetention pw (ut_ProposedAtUnixMS c) (encode_UpdateRetention pw c) = Some (Some c)"
  by (cases c)
       (simp add: sized_UpdateRetention_def encode_UpdateRetention_def decode_UpdateRetention_def
        UpdateRetention_at_def UpdateRetention_field_def fld_def Let_def encode_rules decode_rules split del:
        if_split)

lemma UpdateRetention_field_good: "good_field (UpdateRetention_field pw) (\<lambda>_. True)"
  unfolding UpdateRetention_field_def by (intro good_fieldI good_intros TrueI)

lemma UpdateRetention_returns: "decode_UpdateRetention pw at b \<noteq> None"
  using dec_msg_returns [OF UpdateRetention_field_good, where r = "UpdateRetention_at at" and b = b]
  by (auto simp: decode_UpdateRetention_def UpdateRetention_at_def)

lemma UpdateLegalHold_roundtrip:
  "sized_UpdateLegalHold pw c \<Longrightarrow> decode_UpdateLegalHold pw (ul_ProposedAtUnixMS c) (encode_UpdateLegalHold pw c) = Some (Some c)"
  by (cases c)
       (simp add: sized_UpdateLegalHold_def encode_UpdateLegalHold_def decode_UpdateLegalHold_def
        UpdateLegalHold_at_def UpdateLegalHold_field_def fld_def Let_def encode_rules decode_rules split del:
        if_split)

lemma UpdateLegalHold_field_good: "good_field (UpdateLegalHold_field pw) (\<lambda>_. True)"
  unfolding UpdateLegalHold_field_def by (intro good_fieldI good_intros TrueI)

lemma UpdateLegalHold_returns: "decode_UpdateLegalHold pw at b \<noteq> None"
  using dec_msg_returns [OF UpdateLegalHold_field_good, where r = "UpdateLegalHold_at at" and b = b]
  by (auto simp: decode_UpdateLegalHold_def UpdateLegalHold_at_def)

lemma CreateMultipartUpload_UserMetadata_list:
  "sized_map pw m \<Longrightarrow> dec_msg pw (CreateMultipartUpload_field pw) (putMap pw [] 5 m @ b) r =
    dec_msg pw (CreateMultipartUpload_field pw) b (cm_UserMetadata_update (\<lambda>m0. m0 ++\<^sub>f m) r)"
  by (rule map_field [where field = "CreateMultipartUpload_field pw" and upd = "cm_UserMetadata_update"])
     (simp_all add: CreateMultipartUpload_field_def)

lemma CreateMultipartUpload_roundtrip:
  "sized_CreateMultipartUpload pw c \<Longrightarrow> decode_CreateMultipartUpload pw (cm_ProposedAtUnixMS c) (encode_CreateMultipartUpload pw c) = Some (Some c)"
  by (cases c)
       (simp add: sized_CreateMultipartUpload_def encode_CreateMultipartUpload_def
        decode_CreateMultipartUpload_def CreateMultipartUpload_at_def CreateMultipartUpload_field_def fld_def
        Let_def encode_rules decode_rules CreateMultipartUpload_UserMetadata_list
        CreateMultipartUpload_UserMetadata_list [where b = "[]", unfolded append_Nil2] split del: if_split)

lemma CreateMultipartUpload_field_good: "good_field (CreateMultipartUpload_field pw) (\<lambda>_. True)"
  unfolding CreateMultipartUpload_field_def by (intro good_fieldI good_intros TrueI mapEntry_returns)

lemma CreateMultipartUpload_returns: "decode_CreateMultipartUpload pw at b \<noteq> None"
  using dec_msg_returns [OF CreateMultipartUpload_field_good, where r = "CreateMultipartUpload_at at" and b = b]
  by (auto simp: decode_CreateMultipartUpload_def CreateMultipartUpload_at_def)

lemma UploadPart_ShardChecksums_list:
  "\<forall>v \<in> set vs. go_sized v \<Longrightarrow> dec_msg pw (UploadPart_field pw) (putRepeated pw [] 12 vs @ b) r =
    dec_msg pw (UploadPart_field pw) b (up_ShardChecksums_update (\<lambda>ys. ys @ vs) r)"
  by (rule blob_list_field [where field = "UploadPart_field pw" and upd = "up_ShardChecksums_update"])
     (simp_all add: UploadPart_field_def)

lemma UploadPart_roundtrip:
  "sized_UploadPart pw c \<Longrightarrow> decode_UploadPart pw (up_ProposedAtUnixMS c) (encode_UploadPart pw c) = Some (Some c)"
  by (cases c)
       (simp add: sized_UploadPart_def encode_UploadPart_def decode_UploadPart_def UploadPart_at_def
        UploadPart_field_def fld_def Let_def encode_rules decode_rules UploadPart_ShardChecksums_list split
        del: if_split)

lemma UploadPart_field_good: "good_field (UploadPart_field pw) (\<lambda>_. True)"
  unfolding UploadPart_field_def by (intro good_fieldI good_intros TrueI)

lemma UploadPart_returns: "decode_UploadPart pw at b \<noteq> None"
  using dec_msg_returns [OF UploadPart_field_good, where r = "UploadPart_at at" and b = b]
  by (auto simp: decode_UploadPart_def UploadPart_at_def)

lemma CompleteMultipartUpload_Parts_list:
  "\<forall>p \<in> set ps. go_sized (cp_ETag p) \<and> go_sized (encode_CompletedPart pw p) \<Longrightarrow>
   dec_msg pw (CompleteMultipartUpload_field pw) (putRepeated pw [] 6 (map (encode_CompletedPart pw) ps) @ b) r =
    dec_msg pw (CompleteMultipartUpload_field pw) b (co_Parts_update (\<lambda>ys. ys @ ps) r)"
  by (rule message_list_field [where field = "CompleteMultipartUpload_field pw" and upd = "co_Parts_update"
      and um = "decodeCompletedPart pw"])
     (simp_all add: CompleteMultipartUpload_field_def CompletedPart_roundtrip)

lemma CompleteMultipartUpload_roundtrip:
  "sized_CompleteMultipartUpload pw c \<Longrightarrow> decode_CompleteMultipartUpload pw (co_ProposedAtUnixMS c) (encode_CompleteMultipartUpload pw c) = Some (Some c)"
  by (cases c)
       (simp add: sized_CompleteMultipartUpload_def encode_CompleteMultipartUpload_def
        decode_CompleteMultipartUpload_def CompleteMultipartUpload_at_def CompleteMultipartUpload_field_def
        fld_def Let_def encode_rules decode_rules CompleteMultipartUpload_Parts_list
        CompleteMultipartUpload_Parts_list [where b = "[]", unfolded append_Nil2] split del: if_split)

lemma CompleteMultipartUpload_field_good: "good_field (CompleteMultipartUpload_field pw) (\<lambda>_. True)"
  unfolding CompleteMultipartUpload_field_def by (intro good_fieldI good_intros TrueI CompletedPart_returns)

lemma CompleteMultipartUpload_returns: "decode_CompleteMultipartUpload pw at b \<noteq> None"
  using dec_msg_returns [OF CompleteMultipartUpload_field_good, where r = "CompleteMultipartUpload_at at" and b = b]
  by (auto simp: decode_CompleteMultipartUpload_def CompleteMultipartUpload_at_def)

lemma AbortMultipartUpload_roundtrip:
  "sized_AbortMultipartUpload pw c \<Longrightarrow> decode_AbortMultipartUpload pw (ab_ProposedAtUnixMS c) (encode_AbortMultipartUpload pw c) = Some (Some c)"
  by (cases c)
       (simp add: sized_AbortMultipartUpload_def encode_AbortMultipartUpload_def
        decode_AbortMultipartUpload_def AbortMultipartUpload_at_def AbortMultipartUpload_field_def fld_def
        Let_def encode_rules decode_rules split del: if_split)

lemma AbortMultipartUpload_field_good: "good_field (AbortMultipartUpload_field pw) (\<lambda>_. True)"
  unfolding AbortMultipartUpload_field_def by (intro good_fieldI good_intros TrueI)

lemma AbortMultipartUpload_returns: "decode_AbortMultipartUpload pw at b \<noteq> None"
  using dec_msg_returns [OF AbortMultipartUpload_field_good, where r = "AbortMultipartUpload_at at" and b = b]
  by (auto simp: decode_AbortMultipartUpload_def AbortMultipartUpload_at_def)

lemma SetEncryptionPosture_roundtrip:
  "sized_SetEncryptionPosture pw c \<Longrightarrow> decode_SetEncryptionPosture pw (se_ProposedAtUnixMS c) (encode_SetEncryptionPosture pw c) = Some (Some c)"
  by (cases c)
       (simp add: sized_SetEncryptionPosture_def encode_SetEncryptionPosture_def
        decode_SetEncryptionPosture_def SetEncryptionPosture_at_def SetEncryptionPosture_field_def fld_def
        Let_def encode_rules decode_rules split del: if_split)

lemma SetEncryptionPosture_field_good: "good_field (SetEncryptionPosture_field pw) (\<lambda>_. True)"
  unfolding SetEncryptionPosture_field_def by (intro good_fieldI good_intros TrueI)

lemma SetEncryptionPosture_returns: "decode_SetEncryptionPosture pw at b \<noteq> None"
  using dec_msg_returns [OF SetEncryptionPosture_field_good, where r = "SetEncryptionPosture_at at" and b = b]
  by (auto simp: decode_SetEncryptionPosture_def SetEncryptionPosture_at_def)

lemma BeginKEKRotation_roundtrip:
  "sized_BeginKEKRotation pw c \<Longrightarrow> decode_BeginKEKRotation pw (bk_ProposedAtUnixMS c) (encode_BeginKEKRotation pw c) = Some (Some c)"
  by (cases c)
       (simp add: sized_BeginKEKRotation_def encode_BeginKEKRotation_def decode_BeginKEKRotation_def
        BeginKEKRotation_at_def BeginKEKRotation_field_def fld_def Let_def encode_rules decode_rules split
        del: if_split)

lemma BeginKEKRotation_field_good: "good_field (BeginKEKRotation_field pw) (\<lambda>_. True)"
  unfolding BeginKEKRotation_field_def by (intro good_fieldI good_intros TrueI)

lemma BeginKEKRotation_returns: "decode_BeginKEKRotation pw at b \<noteq> None"
  using dec_msg_returns [OF BeginKEKRotation_field_good, where r = "BeginKEKRotation_at at" and b = b]
  by (auto simp: decode_BeginKEKRotation_def BeginKEKRotation_at_def)

lemma RewrapDEK_roundtrip:
  "sized_RewrapDEK pw c \<Longrightarrow> decode_RewrapDEK pw (rw_ProposedAtUnixMS c) (encode_RewrapDEK pw c) = Some (Some c)"
  by (cases c)
       (simp add: sized_RewrapDEK_def encode_RewrapDEK_def decode_RewrapDEK_def RewrapDEK_at_def
        RewrapDEK_field_def fld_def Let_def encode_rules decode_rules split del: if_split)

lemma RewrapDEK_field_good: "good_field (RewrapDEK_field pw) (\<lambda>_. True)"
  unfolding RewrapDEK_field_def by (intro good_fieldI good_intros TrueI)

lemma RewrapDEK_returns: "decode_RewrapDEK pw at b \<noteq> None"
  using dec_msg_returns [OF RewrapDEK_field_good, where r = "RewrapDEK_at at" and b = b]
  by (auto simp: decode_RewrapDEK_def RewrapDEK_at_def)

lemma CompleteKEKRotation_roundtrip:
  "sized_CompleteKEKRotation pw c \<Longrightarrow> decode_CompleteKEKRotation pw (ck_ProposedAtUnixMS c) (encode_CompleteKEKRotation pw c) = Some (Some c)"
  by (cases c)
       (simp add: sized_CompleteKEKRotation_def encode_CompleteKEKRotation_def decode_CompleteKEKRotation_def
        CompleteKEKRotation_at_def CompleteKEKRotation_field_def fld_def Let_def encode_rules decode_rules
        split del: if_split)

lemma CompleteKEKRotation_field_good: "good_field (CompleteKEKRotation_field pw) (\<lambda>_. True)"
  unfolding CompleteKEKRotation_field_def by (intro good_fieldI good_intros TrueI)

lemma CompleteKEKRotation_returns: "decode_CompleteKEKRotation pw at b \<noteq> None"
  using dec_msg_returns [OF CompleteKEKRotation_field_good, where r = "CompleteKEKRotation_at at" and b = b]
  by (auto simp: decode_CompleteKEKRotation_def CompleteKEKRotation_at_def)

lemma SetClusterLayout_Members_list:
  "\<forall>v \<in> set vs. go_sized v \<and> v \<noteq> [] \<Longrightarrow>
   dec_msg pw (SetClusterLayout_field pw) (putStrings pw [] 3 vs @ b) r =
    dec_msg pw (SetClusterLayout_field pw) b (sl_Members_update (\<lambda>ys. ys @ vs) r)"
  by (rule string_list_field [where field = "SetClusterLayout_field pw" and upd = "sl_Members_update"])
     (simp_all add: SetClusterLayout_field_def)

lemma SetClusterLayout_Nodes_list:
  "\<forall>p \<in> set ps. sized_LayoutNode pw p \<and> go_sized (marshalLayoutNode pw p) \<Longrightarrow>
   dec_msg pw (SetClusterLayout_field pw) (putRepeated pw [] 4 (map (marshalLayoutNode pw) ps) @ b) r =
    dec_msg pw (SetClusterLayout_field pw) b (sl_Nodes_update (\<lambda>ys. ys @ ps) r)"
  by (rule message_list_field [where field = "SetClusterLayout_field pw" and upd = "sl_Nodes_update"
      and um = "unmarshalLayoutNode pw"])
     (simp_all add: SetClusterLayout_field_def LayoutNode_roundtrip)

lemma SetClusterLayout_Previous_list:
  "\<forall>p \<in> set ps. sized_LayoutNode pw p \<and> go_sized (marshalLayoutNode pw p) \<Longrightarrow>
   dec_msg pw (SetClusterLayout_field pw) (putRepeated pw [] 5 (map (marshalLayoutNode pw) ps) @ b) r =
    dec_msg pw (SetClusterLayout_field pw) b (sl_Previous_update (\<lambda>ys. ys @ ps) r)"
  by (rule message_list_field [where field = "SetClusterLayout_field pw" and upd = "sl_Previous_update"
      and um = "unmarshalLayoutNode pw"])
     (simp_all add: SetClusterLayout_field_def LayoutNode_roundtrip)

lemma SetClusterLayout_roundtrip:
  "sized_SetClusterLayout pw c \<Longrightarrow> decode_SetClusterLayout pw (sl_ProposedAtUnixMS c) (encode_SetClusterLayout pw c) = Some (Some c)"
  by (cases c)
       (simp add: sized_SetClusterLayout_def encode_SetClusterLayout_def decode_SetClusterLayout_def
        SetClusterLayout_at_def SetClusterLayout_field_def fld_def Let_def encode_rules decode_rules
        SetClusterLayout_Members_list SetClusterLayout_Nodes_list SetClusterLayout_Previous_list
        SetClusterLayout_Previous_list [where b = "[]", unfolded append_Nil2] split del: if_split)

lemma SetClusterLayout_field_good: "good_field (SetClusterLayout_field pw) (\<lambda>_. True)"
  unfolding SetClusterLayout_field_def by (intro good_fieldI good_intros TrueI LayoutNode_returns)

lemma SetClusterLayout_returns: "decode_SetClusterLayout pw at b \<noteq> None"
  using dec_msg_returns [OF SetClusterLayout_field_good, where r = "SetClusterLayout_at at" and b = b]
  by (auto simp: decode_SetClusterLayout_def SetClusterLayout_at_def)

lemma RegisterNode_roundtrip:
  "sized_RegisterNode pw c \<Longrightarrow> decode_RegisterNode pw (rn_ProposedAtUnixMS c) (encode_RegisterNode pw c) = Some (Some c)"
  by (cases c)
       (simp add: sized_RegisterNode_def encode_RegisterNode_def decode_RegisterNode_def RegisterNode_at_def
        RegisterNode_field_def fld_def Let_def encode_rules decode_rules split del: if_split)

lemma RegisterNode_field_good: "good_field (RegisterNode_field pw) (\<lambda>_. True)"
  unfolding RegisterNode_field_def by (intro good_fieldI good_intros TrueI)

lemma RegisterNode_returns: "decode_RegisterNode pw at b \<noteq> None"
  using dec_msg_returns [OF RegisterNode_field_good, where r = "RegisterNode_at at" and b = b]
  by (auto simp: decode_RegisterNode_def RegisterNode_at_def)

lemma SetNodeLeafCA_roundtrip:
  "sized_SetNodeLeafCA pw c \<Longrightarrow> decode_SetNodeLeafCA pw (nl_ProposedAtUnixMS c) (encode_SetNodeLeafCA pw c) = Some (Some c)"
  by (cases c)
       (simp add: sized_SetNodeLeafCA_def encode_SetNodeLeafCA_def decode_SetNodeLeafCA_def
        SetNodeLeafCA_at_def SetNodeLeafCA_field_def fld_def Let_def encode_rules decode_rules split del:
        if_split)

lemma SetNodeLeafCA_field_good: "good_field (SetNodeLeafCA_field pw) (\<lambda>_. True)"
  unfolding SetNodeLeafCA_field_def by (intro good_fieldI good_intros TrueI)

lemma SetNodeLeafCA_returns: "decode_SetNodeLeafCA pw at b \<noteq> None"
  using dec_msg_returns [OF SetNodeLeafCA_field_good, where r = "SetNodeLeafCA_at at" and b = b]
  by (auto simp: decode_SetNodeLeafCA_def SetNodeLeafCA_at_def)

lemma SetNodeVersion_roundtrip:
  "sized_SetNodeVersion pw c \<Longrightarrow> decode_SetNodeVersion pw (nv_ProposedAtUnixMS c) (encode_SetNodeVersion pw c) = Some (Some c)"
  by (cases c)
       (simp add: sized_SetNodeVersion_def encode_SetNodeVersion_def decode_SetNodeVersion_def
        SetNodeVersion_at_def SetNodeVersion_field_def fld_def Let_def encode_rules decode_rules split del:
        if_split)

lemma SetNodeVersion_field_good: "good_field (SetNodeVersion_field pw) (\<lambda>_. True)"
  unfolding SetNodeVersion_field_def by (intro good_fieldI good_intros TrueI)

lemma SetNodeVersion_returns: "decode_SetNodeVersion pw at b \<noteq> None"
  using dec_msg_returns [OF SetNodeVersion_field_good, where r = "SetNodeVersion_at at" and b = b]
  by (auto simp: decode_SetNodeVersion_def SetNodeVersion_at_def)

lemma SetTrustBundle_CAs_list:
  "\<forall>p \<in> set ps. sized_TrustedCA pw p \<and> go_sized (marshalTrustedCA pw p) \<Longrightarrow>
   dec_msg pw (SetTrustBundle_field pw) (putRepeated pw [] 2 (map (marshalTrustedCA pw) ps) @ b) r =
    dec_msg pw (SetTrustBundle_field pw) b (st_CAs_update (\<lambda>ys. ys @ ps) r)"
  by (rule message_list_field [where field = "SetTrustBundle_field pw" and upd = "st_CAs_update"
      and um = "unmarshalTrustedCA pw"])
     (simp_all add: SetTrustBundle_field_def TrustedCA_roundtrip)

lemma SetTrustBundle_roundtrip:
  "sized_SetTrustBundle pw c \<Longrightarrow> decode_SetTrustBundle pw (st_ProposedAtUnixMS c) (encode_SetTrustBundle pw c) = Some (Some c)"
  by (cases c)
       (simp add: sized_SetTrustBundle_def encode_SetTrustBundle_def decode_SetTrustBundle_def
        SetTrustBundle_at_def SetTrustBundle_field_def fld_def Let_def encode_rules decode_rules
        SetTrustBundle_CAs_list split del: if_split)

lemma SetTrustBundle_field_good: "good_field (SetTrustBundle_field pw) (\<lambda>_. True)"
  unfolding SetTrustBundle_field_def by (intro good_fieldI good_intros TrueI TrustedCA_returns)

lemma SetTrustBundle_returns: "decode_SetTrustBundle pw at b \<noteq> None"
  using dec_msg_returns [OF SetTrustBundle_field_good, where r = "SetTrustBundle_at at" and b = b]
  by (auto simp: decode_SetTrustBundle_def SetTrustBundle_at_def)

lemma SetNodeDraining_roundtrip:
  "sized_SetNodeDraining pw c \<Longrightarrow> decode_SetNodeDraining pw (nd_ProposedAtUnixMS c) (encode_SetNodeDraining pw c) = Some (Some c)"
  by (cases c)
       (simp add: sized_SetNodeDraining_def encode_SetNodeDraining_def decode_SetNodeDraining_def
        SetNodeDraining_at_def SetNodeDraining_field_def fld_def Let_def encode_rules decode_rules split del:
        if_split)

lemma SetNodeDraining_field_good: "good_field (SetNodeDraining_field pw) (\<lambda>_. True)"
  unfolding SetNodeDraining_field_def by (intro good_fieldI good_intros TrueI)

lemma SetNodeDraining_returns: "decode_SetNodeDraining pw at b \<noteq> None"
  using dec_msg_returns [OF SetNodeDraining_field_good, where r = "SetNodeDraining_at at" and b = b]
  by (auto simp: decode_SetNodeDraining_def SetNodeDraining_at_def)

lemma SetNodeReplacedBy_roundtrip:
  "sized_SetNodeReplacedBy pw c \<Longrightarrow> decode_SetNodeReplacedBy pw (nb_ProposedAtUnixMS c) (encode_SetNodeReplacedBy pw c) = Some (Some c)"
  by (cases c)
       (simp add: sized_SetNodeReplacedBy_def encode_SetNodeReplacedBy_def decode_SetNodeReplacedBy_def
        SetNodeReplacedBy_at_def SetNodeReplacedBy_field_def fld_def Let_def encode_rules decode_rules split
        del: if_split)

lemma SetNodeReplacedBy_field_good: "good_field (SetNodeReplacedBy_field pw) (\<lambda>_. True)"
  unfolding SetNodeReplacedBy_field_def by (intro good_fieldI good_intros TrueI)

lemma SetNodeReplacedBy_returns: "decode_SetNodeReplacedBy pw at b \<noteq> None"
  using dec_msg_returns [OF SetNodeReplacedBy_field_good, where r = "SetNodeReplacedBy_at at" and b = b]
  by (auto simp: decode_SetNodeReplacedBy_def SetNodeReplacedBy_at_def)

lemma ReEncodeObject_ShardChecksums_list:
  "\<forall>v \<in> set vs. go_sized v \<Longrightarrow> dec_msg pw (ReEncodeObject_field pw) (putRepeated pw [] 7 vs @ b) r =
    dec_msg pw (ReEncodeObject_field pw) b (re_ShardChecksums_update (\<lambda>ys. ys @ vs) r)"
  by (rule blob_list_field [where field = "ReEncodeObject_field pw" and upd = "re_ShardChecksums_update"])
     (simp_all add: ReEncodeObject_field_def)

lemma ReEncodeObject_roundtrip:
  "sized_ReEncodeObject pw c \<Longrightarrow> decode_ReEncodeObject pw (re_ProposedAtUnixMS c) (encode_ReEncodeObject pw c) = Some (Some c)"
  by (cases c)
       (simp add: sized_ReEncodeObject_def encode_ReEncodeObject_def decode_ReEncodeObject_def
        ReEncodeObject_at_def ReEncodeObject_field_def fld_def Let_def encode_rules decode_rules
        ReEncodeObject_ShardChecksums_list ReEncodeObject_ShardChecksums_list [where b = "[]", unfolded
        append_Nil2] split del: if_split)

lemma ReEncodeObject_field_good: "good_field (ReEncodeObject_field pw) (\<lambda>_. True)"
  unfolding ReEncodeObject_field_def by (intro good_fieldI good_intros TrueI)

lemma ReEncodeObject_returns: "decode_ReEncodeObject pw at b \<noteq> None"
  using dec_msg_returns [OF ReEncodeObject_field_good, where r = "ReEncodeObject_at at" and b = b]
  by (auto simp: decode_ReEncodeObject_def ReEncodeObject_at_def)

lemmas command_roundtrips =
  CreateBucket_roundtrip DeleteBucket_roundtrip SetBucketVersioning_roundtrip
  SetObjectLockConfiguration_roundtrip PutObject_roundtrip DeleteObject_roundtrip DeleteVersion_roundtrip
  UpdateRetention_roundtrip UpdateLegalHold_roundtrip CreateMultipartUpload_roundtrip UploadPart_roundtrip
  CompleteMultipartUpload_roundtrip AbortMultipartUpload_roundtrip SetEncryptionPosture_roundtrip
  BeginKEKRotation_roundtrip RewrapDEK_roundtrip CompleteKEKRotation_roundtrip SetClusterLayout_roundtrip
  RegisterNode_roundtrip SetNodeLeafCA_roundtrip SetNodeVersion_roundtrip SetTrustBundle_roundtrip
  SetNodeDraining_roundtrip SetNodeReplacedBy_roundtrip ReEncodeObject_roundtrip

lemmas command_returns =
  CreateBucket_returns DeleteBucket_returns SetBucketVersioning_returns SetObjectLockConfiguration_returns
  PutObject_returns DeleteObject_returns DeleteVersion_returns UpdateRetention_returns UpdateLegalHold_returns
  CreateMultipartUpload_returns UploadPart_returns CompleteMultipartUpload_returns
  AbortMultipartUpload_returns SetEncryptionPosture_returns BeginKEKRotation_returns RewrapDEK_returns
  CompleteKEKRotation_returns SetClusterLayout_returns RegisterNode_returns SetNodeLeafCA_returns
  SetNodeVersion_returns SetTrustBundle_returns SetNodeDraining_returns SetNodeReplacedBy_returns
  ReEncodeObject_returns

lemma decodeCommand_returns: "decodeCommand pw num atMS b \<noteq> None"
  by (simp add: decodeCommand_def command_returns del: not_None_eq)

lemma command_num_range: "propCreateBucket \<le> command_num p" "command_num p \<le> propMax"
  by (cases p; simp add: prop_defs)+

lemma decodeCommand_command_bytes:
  "sized_command pw p \<Longrightarrow> decodeCommand pw (command_num p) (proposed_at p) (command_bytes pw p) = Some (Some p)"
  by (cases p) (simp_all add: decodeCommand_def prop_defs command_roundtrips)

lemma EncodeProposal_eq:
  "EncodeProposal pw p = putUvarint pw [] 1 1 @ putUvarint pw [] 2 (proposed_at p) @
     AppendTag pw [] (command_num p) BytesType @ AppendBytes pw [] (command_bytes pw p)"
  unfolding EncodeProposal_def Let_def propAt_def proposalFormatVersion_def
  by (simp add: put_append(1) [of "putUvarint pw [] 1 1"] tag_append [of "b @ c" for b c]
      bytes_append [of "b @ c" for b c] del: One_nat_def)

lemma envelope_roundtrip:
  assumes "go_sized (command_bytes pw p)"
  shows "dec_msg pw (envelope_field pw) (EncodeProposal pw p)
      \<lparr>env_at = 0, env_num = 0, env_cmd = [], env_seen = False\<rparr> =
    Some (Some \<lparr>env_at = proposed_at p, env_num = command_num p, env_cmd = command_bytes pw p, env_seen = True\<rparr>)"
proof -
  let ?f = "envelope_field pw"
    and ?c = "AppendTag pw [] (command_num p) BytesType @ AppendBytes pw [] (command_bytes pw p)"
  have n: "valid_num (command_num p)" "command_num p \<noteq> 1" "command_num p \<noteq> propAt"
    using command_num_range [of p] by (auto simp: valid_num_def prop_defs)
  have "dec_msg pw ?f (EncodeProposal pw p) \<lparr>env_at = 0, env_num = 0, env_cmd = [], env_seen = False\<rparr> =
      dec_msg pw ?f ?c \<lparr>env_at = proposed_at p, env_num = 0, env_cmd = [], env_seen = False\<rparr>"
    unfolding EncodeProposal_eq
    by (simp add: decode_rules envelope_field_def fld_def prop_defs dec_uint32_def del: One_nat_def)
  also have "\<dots> = Some (Some \<lparr>env_at = proposed_at p, env_num = command_num p, env_cmd = command_bytes pw p,
      env_seen = True\<rparr>)"
    using bytes_field [where field = ?f and b = "[]", OF n(1)] n assms command_num_range [of p]
    by (simp add: envelope_field_def fld_def)
  finally show ?thesis .
qed

lemma DecodeProposal_EncodeProposal:
  "sized_proposal pw p \<Longrightarrow> DecodeProposal pw (EncodeProposal pw p) = Some (Some p)"
  by (simp add: sized_proposal_def DecodeProposal_def envelope_roundtrip decodeCommand_command_bytes)

lemma envelope_field_good:
  "good_field (envelope_field pw) (\<lambda>e. env_seen e \<longrightarrow> propCreateBucket \<le> env_num e \<and> env_num e \<le> propMax)"
  unfolding envelope_field_def
  by (intro good_fieldI good_intros) (auto simp: good_result_def dec_fail_def)

lemma DecodeProposal_returns: "DecodeProposal pw b \<noteq> None"
  using dec_msg_returns [OF envelope_field_good,
      where r = "\<lparr>env_at = 0, env_num = 0, env_cmd = [], env_seen = False\<rparr>" and b = b]
    decodeCommand_returns
  by (auto simp: DecodeProposal_def)

text \<open>An envelope field this binary does not know is refused, whatever follows it.\<close>

lemma DecodeProposal_unknown_field:
  assumes "valid_num n" and "n > propMax" and "t \<le> 5"
  shows "DecodeProposal pw (AppendTag pw [] n t @ rest) = Some None"
proof -
  have n: "1 \<le> n" "n < 2 ^ 29" using assms by (auto simp: valid_num_def)
  show ?thesis
    unfolding DecodeProposal_def
    using assms(2) by (subst dec_msg_step [OF tag_nonempty [OF n assms(3)] consume_tag [OF n assms(3)]])
      (simp add: envelope_field_def prop_defs dec_fail_def)
qed

end

end
