(* ===== verification/Disk_Journal.thy ===== *)
theory Disk_Journal
  imports Sim_Disk
begin

text \<open>
  A disk that keeps every state it goes through, so that a crash in the middle of an operation is a
  crash at one of these states, and what each operation of the simulated disk does to one file and
  leaves alone of the others.
\<close>

section \<open>A disk that journals its states\<close>

definition journal :: "'d Disk \<Rightarrow> 'd list Disk" where
  "journal ops =
     \<lparr>WriteFile = (\<lambda>ds n x. let (d, e) = WriteFile ops (hd ds) n x in (d # ds, e)),
      Append = (\<lambda>ds n x. let (d, e) = Append ops (hd ds) n x in (d # ds, e)),
      Sync = (\<lambda>ds n. let (d, e) = Sync ops (hd ds) n in (d # ds, e)),
      ReadFile = (\<lambda>ds n. ReadFile ops (hd ds) n),
      ReadFileAt = (\<lambda>ds n off len. ReadFileAt ops (hd ds) n off len),
      Remove = (\<lambda>ds n. let (d, e) = Remove ops (hd ds) n in (d # ds, e)),
      ListNames = (\<lambda>ds. ListNames ops (hd ds))\<rparr>"

section \<open>What an operation does to one file\<close>

definition same_but :: "gostring \<Rightarrow> disk \<Rightarrow> disk \<Rightarrow> bool" where
  "same_but n d d' \<longleftrightarrow> (\<forall>x. x \<noteq> n \<longrightarrow> fmlookup (dk_durable d') x = fmlookup (dk_durable d) x \<and>
     fmlookup (dk_staged d') x = fmlookup (dk_staged d) x)"

text \<open>A crash could leave a file under this name.\<close>

definition possible :: "disk \<Rightarrow> gostring \<Rightarrow> bool" where
  "possible d n \<longleftrightarrow> fmlookup (dk_durable d) n \<noteq> None \<or>
     (case fmlookup (dk_staged d) n of Some st \<Rightarrow> \<not> sc_removed st | None \<Rightarrow> False)"

lemma same_but_refl [simp]: "same_but n d d"
  by (simp add: same_but_def)

lemma same_butD:
  assumes "same_but n d d'" and "x \<noteq> n"
  shows "disk_durable d' x = disk_durable d x" "disk_clean d' x = disk_clean d x" "possible d' x = possible d x"
    "disk_ReadFile d' x = disk_ReadFile d x"
  using assms by (simp_all add: same_but_def disk_durable_def disk_clean_def possible_def disk_ReadFile_def cong: option.case_cong)

lemma possible_clean: "disk_clean d n \<Longrightarrow> possible d n \<longleftrightarrow> disk_durable d n \<noteq> None"
  by (simp add: possible_def disk_clean_def disk_durable_def)

lemma write_effect:
  assumes "ValidPath n"
  obtains d' where "disk_WriteFile d n x = (d', None)" "same_but n d d'" "disk_ReadFile d' n = Inr x"
  using assms by (simp add: disk_WriteFile_def same_but_def disk_ReadFile_def)

lemma append_effect:
  assumes "ValidPath n" and "disk_ReadFile d n = Inr y"
  obtains d' where "disk_Append d n x = (d', None)" "same_but n d d'" "disk_ReadFile d' n = Inr (y @ x)"
  using assms by (simp add: disk_Append_def same_but_def disk_ReadFile_def Let_def split: option.splits if_splits)

lemma sync_effect:
  assumes "ValidPath n"
  obtains d' where "disk_Sync d n = (d', None)" "same_but n d d'" "disk_ReadFile d' n = disk_ReadFile d n"
    "disk_clean d' n" "disk_durable d' n = (case disk_ReadFile d n of Inr y \<Rightarrow> Some y | Inl _ \<Rightarrow> None)"
  using assms
  by (cases "fmlookup (dk_staged d) n")
    (auto simp: disk_Sync_def same_but_def disk_ReadFile_def disk_clean_def disk_durable_def Let_def split: option.splits)

lemma remove_effect:
  assumes "ValidPath n"
  obtains (gone) d' y where "disk_ReadFile d n = Inr y" "disk_Remove d n = (d', None)" "same_but n d d'"
      "disk_ReadFile d' n = Inl ErrNotExist" "disk_durable d' n = disk_durable d n"
    | (missing) "disk_ReadFile d n = Inl ErrNotExist" "disk_Remove d n = (d, Some ErrNotExist)"
  using assms
  by (cases "fmlookup (dk_staged d) n"; cases "fmlookup (dk_durable d) n"; cases "sc_removed (the (fmlookup (dk_staged d) n))")
    (auto simp: disk_Remove_def same_but_def disk_ReadFile_def disk_durable_def)

lemma remove_not_possible:
  assumes "disk_Remove d n = (d', e)" and "possible d' n"
  shows "possible d n"
  using assms by (auto simp: disk_Remove_def possible_def Let_def split: if_splits option.splits)

lemma crash_loop_gone:
  assumes "\<not> possible d n"
  shows "fmlookup (dk_durable (fst (crash_loop names d rng))) n = None"
  using assms
proof (induction names arbitrary: d rng)
  case (Cons a names)
  have step: "fmlookup (dk_durable (fst (crash_loop names (d\<lparr>dk_durable := fmupd a x (dk_durable d)\<rparr>) r))) n = None"
    if "fmlookup (dk_staged d) a = Some st" "\<not> sc_removed st" for st x r
    by (rule Cons.IH) (use Cons.prems that in \<open>auto simp: possible_def\<close>)
  show ?case using Cons.IH [OF Cons.prems] step by (auto simp: case_prod_beta Let_def split: option.split)
qed (simp add: possible_def)

lemma crash_possible: "possible (disk_crash d rng) n \<Longrightarrow> possible d n"
proof (rule ccontr)
  assume p: "possible (disk_crash d rng) n" "\<not> possible d n"
  from p(1) crash_loop_gone [OF p(2)] show False by (simp add: possible_def disk_crash_def)
qed

end
