(* ===== verification/Storage_Properties.thy ===== *)
theory Storage_Properties
  imports Store_Recovery Meta_ProposalCodec Disk_Journal
begin

text \<open>
  What the storage stack promises: the record and proposal codecs, the frames of the log, and
  recovery of the metadata store from the log after a crash.
\<close>

section \<open>Recovery\<close>

text \<open>The file the witnesses log to, and a history of one proposal.\<close>

definition demo_log :: gostring where
  "demo_log = str ''wal''"

abbreviation ref_commit :: "disk \<Rightarrow> Row list \<Rightarrow> disk \<times> bool" where
  "ref_commit \<equiv> RowLog_Commit ref_wire sim_disk demo_log"

definition demo_logged :: "disk Store" where
  "demo_logged = run ref_wire ref_commit [P_CreateBucket demo_create] start_store"

lemma encodable_keys:
  "tx_inv t \<Longrightarrow> encodable pw t \<longleftrightarrow>
     list_all (\<lambda>k. case tx_get t k of Some r \<Rightarrow> sized_row pw r | None \<Rightarrow> True) (keys (tx_mem t))"
  using memKV_inv_finite [of "tx_mem t"]
  by (fastforce simp: encodable_def list_all_iff memKV_keys tx_get_eq split: option.splits)

lemma start_store_inv: "store_inv n (s_kv start_store)"
  by (simp add: NewStore_def SetPersister_def store_inv_new)

lemma demo_commit:
  "snd (Apply_body (P_CreateBucket demo_create) (tx_reset (s_kv start_store))) = Inr R_Nil"
  "batch_fits ref_wire (changeset ref_wire (fst (Apply_body (P_CreateBucket demo_create) (tx_reset (s_kv start_store)))))"
  by code_simp+

lemma demo_logged_ok:
  "ValidPath demo_log" "roomy 0 [P_CreateBucket demo_create]"
  "run_fits ref_wire ref_commit (batch_fits ref_wire) [P_CreateBucket demo_create] start_store"
proof -
  show "ValidPath demo_log" "roomy 0 [P_CreateBucket demo_create]" by code_simp+
  show "run_fits ref_wire ref_commit (batch_fits ref_wire) [P_CreateBucket demo_create] start_store"
    using demo_commit(2) by (simp only: run_fits.simps simp_thms)
qed

lemma demo_logged_encodable: "encodable ref_wire (s_kv demo_logged)"
proof -
  let ?t = "fst (Apply_body (P_CreateBucket demo_create) (tx_reset (s_kv start_store)))"
  have inv: "tx_inv (s_kv start_store)" by (simp add: NewStore_def SetPersister_def newTxKV_def)
  have empty: "encodable ref_wire u" if "tx_mem u = tx_mem (s_kv start_store)" for u
    using that by (simp add: encodable_def tx_get_eq NewStore_def SetPersister_def newTxKV_def)
  have rows: "keys (tx_mem ?t) = [bucketRowKey demo_bucket]" "tx_get ?t (bucketRowKey demo_bucket) =
      Some (RBucket (BucketConfig_zero\<lparr>bc_FormatVersion := 1, bc_Name := demo_bucket, bc_CreatedUnixMS := 1,
        bc_Versioning := VersioningEnabled, bc_ObjectLockEnabled := True\<rparr>))" by code_simp+
  have inv': "tx_inv ?t" using inv by (intro rep.Apply_body_closed) simp
  have "go_sized demo_bucket" by code_simp
  then have "encodable ref_wire ?t"
    by (simp add: encodable_keys [OF inv'] rows sized_BucketConfig_def BucketConfig_zero_def raw_nil
        del: Apply_body.simps)
  then show ?thesis
    using Apply_ok [of ref_wire ref_commit "P_CreateBucket demo_create" start_store]
      empty [OF Apply_error [OF inv, of ref_wire ref_commit "P_CreateBucket demo_create"]]
    by (cases "snd (Apply ref_wire ref_commit (P_CreateBucket demo_create) start_store)")
       (auto simp: demo_logged_def simp del: Apply_body.simps)
qed

text \<open>
  C2: A metadata store that persists through the row log survives any crash between two applies.
  Whatever history of proposals it ran from an empty disk, reopening the log after the crash
  succeeds, and restoring the rows found there, in whatever order the map yields them, gives
  back exactly the rows that were in memory.
\<close>

theorem recovery_restores_store:
  assumes "wire pw" and "ValidPath f" and "roomy n ps"
    and "run_fits pw (RowLog_Commit pw sim_disk f) (batch_fits pw) ps start_store"
    and "s = run pw (RowLog_Commit pw sim_disk f) ps start_store" and "encodable pw (s_kv s)"
  shows "\<exists>d d' m. s_persist s = Some d \<and> OpenRows pw sim_disk (disk_crash d rng) f = Some (d', Inr m) \<and>
    (\<forall>rows. map_of rows = fmlookup m \<longrightarrow> distinct (map fst rows) \<longrightarrow>
      (\<exists>s' :: disk Store. restore_rows pw NewStore rows = Some (Some s') \<and> tx_mem (s_kv s') = tx_mem (s_kv s)))"
proof -
  note rl = sim_row_log [OF assms(1)]
  from run_logged [OF assms(1,2,4,5)] obtain d m where d: "s_persist s = Some d" "disk_log pw f d m"
    "fmlookup m = encoded pw (s_kv s)" by blast
  have "wf_rows (s_kv s)"
    using run_inv [OF start_store_inv assms(3), of pw "RowLog_Commit pw sim_disk f"] assms(5) by (simp add: store_invD(1))
  note restores = restored [OF assms(1) this assms(6) d(3)]
  have "OpenRows pw sim_disk (disk_crash d rng) f = Some (disk_crash d rng, Inr m)"
    by (rule row_log.OpenRows_committed [OF rl row_log.crash_committed [OF rl d(2)]])
  with d(1) restores show ?thesis by blast
qed

theorem recovery_restores_store_witness:
  "\<exists>d d' m. s_persist demo_logged = Some d \<and> OpenRows ref_wire sim_disk (disk_crash d [1, 3]) demo_log = Some (d', Inr m)"
  using recovery_restores_store [OF ref.wire_axioms demo_logged_ok demo_logged_def demo_logged_encodable, of "[1, 3]"]
  by blast

text \<open>
  C5: A crash in the middle of a commit is atomic. After any history, if the machine stops
  between the append and the sync of the next proposal's transaction, whatever part of the
  appended bytes reached the disk, reopening the log finds exactly the rows of before the
  proposal or exactly the rows of after it.
\<close>

theorem crash_in_commit_atomic:
  assumes "wire pw" and "ValidPath f"
    and "run_fits pw (RowLog_Commit pw sim_disk f) (batch_fits pw) ps start_store"
    and "s = run pw (RowLog_Commit pw sim_disk f) ps start_store"
    and "Apply_body p (tx_reset (s_kv s)) = (t, Inr r)" and "batch_fits pw (changeset pw t)"
  shows "\<exists>d d' m. s_persist s = Some d \<and>
    OpenRows pw sim_disk (disk_crash (fst (disk_Append d f (frame (encodeBatch pw (changeset pw t))))) rng) f =
      Some (d', Inr m) \<and> (fmlookup m = encoded pw (s_kv s) \<or> fmlookup m = encoded pw t)"
proof -
  note rl = sim_row_log [OF assms(1)]
  from run_logged [OF assms(1-4)] obtain d m where d: "s_persist s = Some d" "disk_log pw f d m"
    "fmlookup m = encoded pw (s_kv s)" "formatted (s_kv s)" by blast
  have "tracks (tx_get (s_kv s)) t"
    using dirty.Apply_body_closed [OF tracks_reset, of "s_kv s" p] assms(5) by simp
  moreover have "formatted t"
    using fmt.Apply_body_closed [of "tx_reset (s_kv s)" p] d(4) assms(5) by (simp add: formatted_def)
  ultimately have "commit_rows (encoded pw (s_kv s)) (changeset pw t) = encoded pw t"
    by (rule wire.changeset_commit [OF assms(1)])
  then have "fmlookup (foldl commit_fmap m (changeset pw t)) = encoded pw t"
    using d(3) by (simp add: fmlookup_commit)
  with row_log.Commit_crash [OF rl d(2) assms(6), of rng] d(1,3) show ?thesis by (auto simp: sim_disk_def)
qed

theorem crash_in_commit_atomic_witness:
  "\<exists>t d d' m. s_persist start_store = Some d \<and> OpenRows ref_wire sim_disk (disk_crash (fst (disk_Append d demo_log
     (frame (encodeBatch ref_wire (changeset ref_wire t))))) [1, 3]) demo_log = Some (d', Inr m) \<and>
     (fmlookup m = encoded ref_wire (s_kv start_store) \<or> fmlookup m = encoded ref_wire t)"
proof -
  obtain t where t: "Apply_body (P_CreateBucket demo_create) (tx_reset (s_kv start_store)) = (t, Inr R_Nil)"
    using demo_commit(1) by (metis prod.collapse)
  have "batch_fits ref_wire (changeset ref_wire t)" using demo_commit(2) unfolding t by simp
  from crash_in_commit_atomic [OF ref.wire_axioms demo_logged_ok(1) _ _ t this, of "[]" "[1, 3]"] show ?thesis
    by auto
qed

section \<open>The codecs\<close>

text \<open>
  C17: Encoding a row and decoding it under its key gives the row back, unknown fields included,
  for every kind of record the store keeps. The fields fit their encoding, and a layout record has no empty
  name in its list of member names, which the encoder would drop; no code here writes one.
\<close>

theorem row_roundtrip:
  assumes "wire pw" and "wf_row k r" and "sized_row pw r"
  shows "decodeRow pw k (marshalRecord pw r) = Some (Some r)"
  by (rule wire.decodeRow_marshalRecord [OF assms])

definition demo_row :: row where
  "demo_row = RBucket (BucketConfig_zero\<lparr>bc_FormatVersion := 1, bc_Name := demo_bucket, bc_Versioning := VersioningEnabled\<rparr>)"

theorem row_roundtrip_witness:
  "decodeRow ref_wire (bucketRowKey demo_bucket) (marshalRecord ref_wire demo_row) = Some (Some demo_row)"
proof (rule row_roundtrip [OF ref.wire_axioms])
  have "valid_bucket demo_bucket" by code_simp
  then show "wf_row (bucketRowKey demo_bucket) demo_row" by (simp add: demo_row_def)
  show "sized_row ref_wire demo_row"
    by (simp add: demo_row_def sized_BucketConfig_def BucketConfig_zero_def raw_nil) code_simp
qed

text \<open>
  C27: The row decoder returns on every input: corrupt bytes and unknown row kinds give a decode
  error or a record, never a hang.
\<close>

theorem decode_row_terminates:
  assumes "wire pw"
  shows "\<exists>r. decodeRow pw k b = Some r"
  using wire.decodeRow_returns [OF assms, of k b] by blast

theorem decode_row_terminates_witness: "\<exists>r. decodeRow ref_wire [1, 2] [255, 255] = Some r"
  by (rule decode_row_terminates [OF ref.wire_axioms])

text \<open>
  C19: A proposal survives its encoding: what is replicated is what is applied. The fields fit their
  encoding, and a proposal of a layout has no empty member name, which the encoder would drop; no
  proposer here makes one.
\<close>

theorem proposal_roundtrip:
  assumes "wire pw" and "sized_proposal pw p"
  shows "DecodeProposal pw (EncodeProposal pw p) = Some (Some p)"
  by (rule wire.DecodeProposal_EncodeProposal [OF assms])

theorem proposal_roundtrip_witness:
  "DecodeProposal ref_wire (EncodeProposal ref_wire (P_DeleteVersion demo_delete)) = Some (Some (P_DeleteVersion demo_delete))"
  by (rule proposal_roundtrip [OF ref.wire_axioms]) code_simp

text \<open>
  A proposal of a newer binary, in a command field this one does not know, is refused
  whatever follows: a replica never applies half of a command it cannot read.
\<close>

theorem unknown_proposal_refused:
  assumes "wire pw" and "valid_num n" and "n > propMax" and "t \<le> 5"
  shows "DecodeProposal pw (AppendTag pw [] n t @ rest) = Some None"
  by (rule wire.DecodeProposal_unknown_field [OF assms])

theorem unknown_proposal_refused_witness: "DecodeProposal ref_wire (AppendTag ref_wire [] 99 2 @ [0]) = Some None"
  by (rule unknown_proposal_refused [OF ref.wire_axioms]) code_simp+

section \<open>The log\<close>

text \<open>
  A frame is read back whatever follows it, and no proper prefix of a frame is ever taken
  for a record: a torn append is recognised.
\<close>

theorem frame_torn_or_whole:
  assumes "length rec \<le> MaxInt32"
  shows "parseFrame (frame rec @ rest) = Some (rec, length (frame rec)) \<and>
    (\<forall>p. strict_prefix p (frame rec) \<longrightarrow> parseFrame p = None)"
  using parseFrame_frame [OF assms] parseFrame_torn [OF _ assms] by blast

theorem frame_torn_or_whole_witness:
  "parseFrame (frame [1, 2, 3] @ [7]) = Some ([1, 2, 3], length (frame [1, 2, 3])) \<and>
    parseFrame (butlast (frame [1, 2, 3])) = None"
proof -
  have "frame [1, 2, 3] \<noteq> []" by (simp add: frame_def)
  then have "strict_prefix (butlast (frame [1, 2, 3])) (frame [1, 2, 3])"
    by (metis append_butlast_last_id strict_prefixI' )
  then show ?thesis using frame_torn_or_whole [of "[1, 2, 3]" "[7]"] by (simp add: MaxInt32_def)
qed

text \<open>
  A log in which one byte of a record was altered never yields that record, whatever the byte
  became: the checksum changes with every single byte of the payload.
\<close>

theorem corrupt_byte_detected:
  assumes "length rec \<le> MaxInt32" and "i < length rec" and "b \<noteq> rec ! i"
    and "at = length (frame rec) - length rec + i"
  shows "parseFrame ((frame rec)[at := b] @ rest) = None"
  using parseFrame_corrupt [OF assms(1-3), of rest] assms(2,4) by (simp add: frame_def list_update_append)

theorem corrupt_byte_detected_witness: "parseFrame ((frame [1, 2, 3])[6 := 9] @ []) = None"
proof (rule corrupt_byte_detected [where i = 1])
  show "6 = length (frame [1, 2, 3]) - length [1, 2, 3 :: byte] + 1" by code_simp
qed (simp_all add: MaxInt32_def)

text \<open>A crash in the middle of an overwrite can leave any part of the new content.\<close>

lemma overwrite_crash:
  assumes "ValidPath n" and "dk_staged d = fmempty" and "j \<le> length x"
  shows "disk_durable (disk_crash (fst (disk_WriteFile d n x)) [1, j]) n = Some (take j x)"
  using assms by (simp add: disk_WriteFile_def IntN_def Let_def)

lemma log_bytes_take: "\<exists>j \<le> length (log_bytes recs). take j (log_bytes recs) = log_bytes (take i recs)"
proof -
  have "log_bytes recs = log_bytes (take i recs) @ log_bytes (drop i recs)"
    unfolding log_bytes_def by (simp flip: concat_append map_append)
  then show ?thesis by (intro exI [of _ "length (log_bytes (take i recs))"]) simp
qed

text \<open>
  C31: Cutting a torn tail is not atomic, and can lose acknowledged records. Take any disk as a crash leaves it whose log holds any
  records followed by a torn frame. Opening the log returns all the records; but it overwrites the file to cut the tail, and if the
  machine stops again before that overwrite is synced, the next opening may find only the first \<open>i\<close> of the records, for every \<open>i\<close>, none
  included.
\<close>

theorem truncation_may_lose_records:
  assumes "ValidPath n" and "dk_staged d = fmempty" and "disk_durable d n = Some (log_bytes recs @ torn)" and "intact recs"
    and "torn \<noteq> []" and "parseFrame torn = None" and "i \<le> length recs"
  shows "snd (Log_Open sim_disk d n) = Inr recs \<and>
    (\<exists>d' \<in> set (fst (Log_Open (journal sim_disk) [d] n)). \<exists>rng. snd (Log_Open sim_disk (disk_crash d' rng) n) = Inr (take i recs))"
proof -
  have clean: "disk_clean d n" using assms(2) by (simp add: disk_clean_def)
  have all: "snd (Log_Open sim_disk d n) = Inr recs"
    using sim.Log_Open_torn [OF assms(1) clean assms(4), of torn] assms(3,6) by auto
  let ?d = "fst (disk_WriteFile d n (log_bytes recs))"
  have read: "disk_ReadFile d n = Inr (log_bytes recs @ torn)" using assms(1-3) by (simp add: disk_ReadFile_def disk_durable_def)
  have frames: "read_frames (log_bytes recs @ torn) 0 [] = (length (log_bytes recs), recs)"
    using read_frames_log [OF assms(4), of torn "[]" "[]"] assms(6) by simp
  have "?d \<in> set (fst (Log_Open (journal sim_disk) [d] n))"
    using read frames assms(1,5)
    by (auto simp: Log_Open_def journal_def sim_disk_def disk_WriteFile_def case_prod_beta Let_def split: option.split)
  moreover have "\<exists>rng. snd (Log_Open sim_disk (disk_crash ?d rng) n) = Inr (take i recs)"
  proof -
    obtain j where j: "j \<le> length (log_bytes recs)" "take j (log_bytes recs) = log_bytes (take i recs)" using log_bytes_take by blast
    have "disk_durable (disk_crash ?d [1, j]) n = Some (log_bytes (take i recs))"
      using overwrite_crash [OF assms(1,2) j(1)] j(2) by simp
    moreover have "intact (take i recs)" using assms(4) by (auto simp: intact_def dest: in_set_takeD)
    ultimately have "snd (Log_Open sim_disk (disk_crash ?d [1, j]) n) = Inr (take i recs)"
      using sim.Log_Open_torn [OF assms(1), of "disk_crash ?d [1, j]" "take i recs" "[]"] by auto
    then show ?thesis ..
  qed
  ultimately show ?thesis using all by blast
qed

theorem truncation_may_lose_records_witness:
  "\<exists>d d' rng. snd (Log_Open sim_disk d demo_log) = Inr [[1]] \<and> d' \<in> set (fst (Log_Open (journal sim_disk) [d] demo_log)) \<and>
    snd (Log_Open sim_disk (disk_crash d' rng) demo_log) = Inr []"
proof -
  let ?d = "\<lparr>dk_durable = fmupd demo_log (log_bytes [[1]] @ [7]) fmempty, dk_staged = fmempty\<rparr>"
  have "ValidPath demo_log" "parseFrame [7] = None" "intact [[1 :: byte]]" by (code_simp, code_simp, simp add: intact_def MaxInt32_def)
  from truncation_may_lose_records [OF this(1), of ?d "[[1]]" "[7]" 0] this show ?thesis by (auto simp: disk_durable_def)
qed

end
