(* ===== verification/Place.thy ===== *)
theory Place
  imports Meta_Vid "HOL-Library.Multiset"
begin

text \<open>
  Placement (\<^verbatim>\<open>internal/place/place.go\<close>): the partition of a data ID and the nodes that hold a
  partition's shards, by weighted rendezvous hashing spread over zones and hosts.

  FNV-1a, \<^verbatim>\<open>bits.Mul64\<close>, \<^verbatim>\<open>bits.Len64\<close> and \<^verbatim>\<open>slices.SortFunc\<close> are modelled here as far as the code uses
  them. The sort is an insertion sort by the comparison function: on a list whose elements the
  comparison tells apart, every sort gives the same result.
\<close>

section \<open>Hashing\<close>

definition fnv64a :: "bytes \<Rightarrow> u64" where
  "fnv64a bs = foldl (\<lambda>h b. (h XOR ucast b) * 1099511628211) 14695981039346656037 bs"

definition mix :: "u64 \<Rightarrow> u64" where
  "mix x =
     (let x = x XOR drop_bit 33 x;
          x = x * 0xff51afd7ed558ccd;
          x = x XOR drop_bit 33 x;
          x = x * 0xc4ceb9fe1a85ec53;
          x = x XOR drop_bit 33 x
      in x)"

text \<open>\<open>None\<close> is the panic on a zero partition count.\<close>

definition Partition :: "version_id \<Rightarrow> u32 \<Rightarrow> u64 option" where
  "Partition dataID cnt = (if cnt = 0 then None else Some (mix (fnv64a (vid_bytes dataID)) mod ucast cnt))"

lemma be_u64_code [code]: "be_u64 v = map (\<lambda>i. ucast (drop_bit (8 * i) v)) (rev [0..<8])"
  unfolding be_u64_def be_bytes_eq by (rule map_cong [OF refl]) (simp add: byte_of_drop_bit power_mult)

definition rendezvousScore :: "u64 \<Rightarrow> gostring \<Rightarrow> u64" where
  "rendezvousScore pt nid = mix (fnv64a (be_u64 pt @ nid))"

definition bits_Mul64 :: "u64 \<Rightarrow> u64 \<Rightarrow> u64 \<times> u64" where
  "bits_Mul64 x y = (let p = (ucast x :: 128 word) * ucast y in (ucast (drop_bit 64 p), ucast p))"

definition bits_Len64 :: "u64 \<Rightarrow> nat" where
  "bits_Len64 h = length (dropWhile (\<lambda>i. \<not> bit h i) (rev [0..<64]))"

definition ln2Q32 :: u64 where
  "ln2Q32 = 2977044472"

text \<open>One squaring of the loop: the next mantissa and the next fraction bit.\<close>

definition negLn_step :: "u64 \<times> u64 \<Rightarrow> u64 \<times> u64" where
  "negLn_step s =
     (let (x, frac) = s;
          (hi, lo) = bits_Mul64 x x;
          x = push_bit 32 hi OR drop_bit 32 lo;
          frac = push_bit 1 frac
      in if x \<ge> 8589934592 then (drop_bit 1 x, frac OR 1) else (x, frac))"

definition negLn :: "u64 \<Rightarrow> u64" where
  "negLn h =
     (let h = (if h = 0 then 1 else h);
          bl = bits_Len64 h;
          mant = (if bl - 1 \<le> 32 then push_bit (32 - (bl - 1)) h else drop_bit (bl - 1 - 32) h);
          (x, frac) = (negLn_step ^^ 32) (mant, 0);
          negLog2 = push_bit 32 (word_of_nat (65 - bl)) - frac;
          (hi, lo) = bits_Mul64 negLog2 ln2Q32;
          res = push_bit 32 hi OR drop_bit 32 lo
      in if res = 0 then 1 else res)"

definition cmpKey :: "u64 \<Rightarrow> u64 \<Rightarrow> u64 \<Rightarrow> u64 \<Rightarrow> int" where
  "cmpKey wa na wb nb =
     (let (hiA, loA) = bits_Mul64 wa nb; (hiB, loB) = bits_Mul64 wb na
      in if hiA \<noteq> hiB then (if hiA > hiB then -1 else 1)
         else if loA \<noteq> loB then (if loA > loB then -1 else 1)
         else 0)"

section \<open>Sorting\<close>

fun insert_by :: "('a \<Rightarrow> 'a \<Rightarrow> int) \<Rightarrow> 'a \<Rightarrow> 'a list \<Rightarrow> 'a list" where
  "insert_by cmp x [] = [x]"
| "insert_by cmp x (y # ys) = (if cmp y x < 0 then y # insert_by cmp x ys else x # y # ys)"

definition SortFunc :: "('a \<Rightarrow> 'a \<Rightarrow> int) \<Rightarrow> 'a list \<Rightarrow> 'a list" where
  "SortFunc cmp xs = foldr (insert_by cmp) xs []"

section \<open>Layouts\<close>

record PlaceNode =
  pn_ID :: gostring
  pn_Host :: gostring
  pn_Zone :: gostring
  pn_Weight :: u32
  pn_Draining :: bool

record Layout =
  ly_Version :: u64
  ly_PartitionCount :: u32
  ly_Members :: "PlaceNode list"
  ly_Previous :: "PlaceNode list"

datatype place_error = ErrWidth | ErrTooFewNodes | ErrDuplicateMember | PlacePanic

record ranked =
  rk_node :: PlaceNode
  rk_weight :: u64
  rk_negln :: u64
  rk_score :: u64

definition rank_member :: "u64 \<Rightarrow> PlaceNode \<Rightarrow> ranked" where
  "rank_member pt m =
     (let w = ucast (pn_Weight m); w = (if w = 0 then 1 else w); s = rendezvousScore pt (pn_ID m)
      in \<lparr>rk_node = m, rk_weight = w, rk_negln = negLn s, rk_score = s\<rparr>)"

definition ranked_cmp :: "ranked \<Rightarrow> ranked \<Rightarrow> int" where
  "ranked_cmp a b =
     (let c = cmpKey (rk_weight a) (rk_negln a) (rk_weight b) (rk_negln b)
      in if c \<noteq> 0 then c
         else if rk_score a \<noteq> rk_score b then (if rk_score a > rk_score b then -1 else 1)
         else if pn_ID (rk_node a) < pn_ID (rk_node b) then -1
         else if pn_ID (rk_node a) > pn_ID (rk_node b) then 1
         else 0)"

fun adjacent_duplicate :: "gostring list \<Rightarrow> bool" where
  "adjacent_duplicate (x # y # ys) = (x = y \<or> adjacent_duplicate (y # ys))"
| "adjacent_duplicate _ = False"

text \<open>
  The greedy fill. \<open>best_pick\<close> is the inner scan over the ranking; \<open>better\<close> is its replacement
  condition. The maps \<^verbatim>\<open>zoneLoad\<close> and \<^verbatim>\<open>hostLoad\<close> are functions with default zero.
\<close>

record fill_state =
  fs_zoneLoad :: "gostring \<Rightarrow> nat"
  fs_hostLoad :: "gostring \<Rightarrow> nat"
  fs_picked :: "bool list"
  fs_out :: "gostring list"

definition better :: "fill_state \<Rightarrow> PlaceNode \<Rightarrow> PlaceNode \<Rightarrow> bool" where
  "better st c b =
     (if pn_Draining c \<noteq> pn_Draining b then \<not> pn_Draining c
      else let bz = fs_zoneLoad st (pn_Zone b); bh = fs_hostLoad st (pn_Host b);
               cz = fs_zoneLoad st (pn_Zone c); ch = fs_hostLoad st (pn_Host c)
           in cz < bz \<or> cz = bz \<and> ch < bh)"

definition scan_step :: "ranked list \<Rightarrow> fill_state \<Rightarrow> nat option \<Rightarrow> nat \<Rightarrow> nat option" where
  "scan_step rank st best i =
     (if fs_picked st ! i then best
      else case best of
             None \<Rightarrow> Some i
           | Some b \<Rightarrow> if better st (rk_node (rank ! i)) (rk_node (rank ! b)) then Some i else Some b)"

definition best_pick :: "ranked list \<Rightarrow> fill_state \<Rightarrow> nat option" where
  "best_pick rank st = foldl (scan_step rank st) None [0..<length rank]"

definition take_pick :: "ranked list \<Rightarrow> fill_state \<Rightarrow> nat \<Rightarrow> fill_state" where
  "take_pick rank st i =
     (let n = rk_node (rank ! i)
      in \<lparr>fs_zoneLoad = (fs_zoneLoad st)(pn_Zone n := fs_zoneLoad st (pn_Zone n) + 1),
          fs_hostLoad = (fs_hostLoad st)(pn_Host n := fs_hostLoad st (pn_Host n) + 1),
          fs_picked = (fs_picked st)[i := True],
          fs_out = fs_out st @ [pn_ID n]\<rparr>)"

text \<open>\<^verbatim>\<open>rank[-1]\<close>, when nothing is left to pick, is a panic.\<close>

fun fill :: "ranked list \<Rightarrow> nat \<Rightarrow> fill_state \<Rightarrow> place_error + gostring list" where
  "fill rank 0 st = Inr (fs_out st)"
| "fill rank (Suc todo) st =
     (case best_pick rank st of
        None \<Rightarrow> Inl PlacePanic
      | Some i \<Rightarrow> fill rank todo (take_pick rank st i))"

definition fill_start :: "nat \<Rightarrow> fill_state" where
  "fill_start n = \<lparr>fs_zoneLoad = (\<lambda>_. 0), fs_hostLoad = (\<lambda>_. 0), fs_picked = replicate n False, fs_out = []\<rparr>"

definition rank_list :: "u64 \<Rightarrow> PlaceNode list \<Rightarrow> ranked list" where
  "rank_list pt members = SortFunc ranked_cmp (map (rank_member pt) members)"

definition spread :: "u64 \<Rightarrow> PlaceNode list \<Rightarrow> int \<Rightarrow> place_error + gostring list" where
  "spread pt members width =
     (if width \<le> 0 then Inl ErrWidth
      else if int (length members) < width then Inl ErrTooFewNodes
      else let rank = rank_list pt members
           in if adjacent_duplicate (map (pn_ID \<circ> rk_node) rank) then Inl ErrDuplicateMember
              else fill rank (nat width) (fill_start (length rank)))"

definition Layout_Nodes :: "Layout \<Rightarrow> u64 \<Rightarrow> int \<Rightarrow> place_error + gostring list" where
  "Layout_Nodes l pt width = spread pt (ly_Members l) width"

definition ActiveCount :: "Layout \<Rightarrow> nat" where
  "ActiveCount l = foldl (\<lambda>n m. if \<not> pn_Draining m then n + 1 else n) 0 (ly_Members l)"

definition Locate :: "Layout \<Rightarrow> u64 \<Rightarrow> int \<Rightarrow> place_error + gostring list \<times> gostring list option" where
  "Locate l pt width =
     (case spread pt (ly_Members l) width of
        Inl e \<Rightarrow> Inl e
      | Inr newNodes \<Rightarrow>
          if length (ly_Previous l) = 0 then Inr (newNodes, None)
          else case spread pt (ly_Previous l) width of
                 Inl e \<Rightarrow> Inl e
               | Inr oldNodes \<Rightarrow> Inr (newNodes, Some oldNodes))"

text \<open>The unweighted ranking \<^verbatim>\<open>Nodes\<close>.\<close>

record bare_rank =
  br_id :: gostring
  br_score :: u64

definition bare_cmp :: "bare_rank \<Rightarrow> bare_rank \<Rightarrow> int" where
  "bare_cmp a b =
     (if br_score a \<noteq> br_score b then (if br_score a > br_score b then -1 else 1)
      else if br_id a < br_id b then -1
      else if br_id a > br_id b then 1
      else 0)"

definition place_Nodes :: "u64 \<Rightarrow> gostring list \<Rightarrow> int \<Rightarrow> place_error + gostring list" where
  "place_Nodes pt members width =
     (if width \<le> 0 then Inl ErrWidth
      else if int (length members) < width then Inl ErrTooFewNodes
      else let rank = SortFunc bare_cmp (map (\<lambda>m. \<lparr>br_id = m, br_score = rendezvousScore pt m\<rparr>) members)
           in if adjacent_duplicate (map br_id rank) then Inl ErrDuplicateMember
              else Inr (map br_id (take (nat width) rank)))"

end
