(* ===== verification/Place_Properties.thy ===== *)
theory Place_Properties
  imports Place "HOL-Library.Multiset" "HOL-Library.Product_Lexorder"
begin

text \<open>
  What placement promises: the nodes of a partition are distinct, depend on the set of members
  only, and a narrow placement is a prefix of a wide one; draining nodes are a last resort and
  shards spread over zones.
\<close>

section \<open>Sorting by a comparison\<close>

text \<open>
  A comparison of valid elements that is antisymmetric and transitive and tells elements with
  different keys apart: lists with distinct keys have one sorted order.
\<close>

locale comparison =
  fixes cmp :: "'a \<Rightarrow> 'a \<Rightarrow> int" and key :: "'a \<Rightarrow> gostring" and valid :: "'a \<Rightarrow> bool"
  assumes zero_key: "valid a \<Longrightarrow> valid b \<Longrightarrow> cmp a b = 0 \<Longrightarrow> key a = key b"
    and flip: "valid a \<Longrightarrow> valid b \<Longrightarrow> cmp a b > 0 \<Longrightarrow> cmp b a < 0"
    and flip': "valid a \<Longrightarrow> valid b \<Longrightarrow> cmp a b < 0 \<Longrightarrow> \<not> cmp b a < 0"
    and less_trans: "valid a \<Longrightarrow> valid b \<Longrightarrow> valid c \<Longrightarrow> cmp a b < 0 \<Longrightarrow> cmp b c < 0 \<Longrightarrow> cmp a c < 0"
begin

lemma mset_insert_by: "mset (insert_by cmp x ys) = add_mset x (mset ys)"
  by (induction ys) auto

lemma mset_SortFunc [simp]: "mset (SortFunc cmp xs) = mset xs"
  unfolding SortFunc_def by (induction xs) (auto simp: mset_insert_by)

lemma set_insert_by [simp]: "set (insert_by cmp x ys) = insert x (set ys)"
  using arg_cong [OF mset_insert_by, of set_mset x ys] by simp

lemma set_SortFunc [simp]: "set (SortFunc cmp xs) = set xs"
  by (rule mset_eq_setD) simp

lemma length_SortFunc [simp]: "length (SortFunc cmp xs) = length xs"
  by (rule mset_eq_length) simp

lemma distinct_keys_SortFunc: "distinct (map key (SortFunc cmp xs)) = distinct (map key xs)"
  by (rule mset_eq_imp_distinct_iff) simp

lemma insert_by_sorted:
  assumes "sorted_wrt (\<lambda>a b. cmp a b < 0) ys" and "list_all valid (x # ys)" and "key x \<notin> key ` set ys"
  shows "sorted_wrt (\<lambda>a b. cmp a b < 0) (insert_by cmp x ys)"
  using assms
proof (induction ys)
  case (Cons y ys)
  show ?case
  proof (cases "cmp y x < 0")
    case True
    then show ?thesis using Cons by auto
  next
    case False
    have "cmp x y < 0" using False Cons.prems(2,3) zero_key [of y x] flip [of y x] by fastforce
    moreover from this have "cmp x z < 0" if "z \<in> set ys" for z
      using that Cons.prems(1,2) less_trans [of x y z] by (auto simp: list_all_iff)
    ultimately show ?thesis using False Cons.prems(1) by auto
  qed
qed simp

lemma SortFunc_sorted:
  "list_all valid xs \<Longrightarrow> distinct (map key xs) \<Longrightarrow> sorted_wrt (\<lambda>a b. cmp a b < 0) (SortFunc cmp xs)"
proof (induction xs)
  case (Cons x xs)
  then have "sorted_wrt (\<lambda>a b. cmp a b < 0) (insert_by cmp x (SortFunc cmp xs))"
    by (intro insert_by_sorted) (auto simp: list_all_iff)
  then show ?case by (simp add: SortFunc_def)
qed (simp add: SortFunc_def)

lemma sorted_unique:
  assumes "sorted_wrt (\<lambda>a b. cmp a b < 0) xs" and "sorted_wrt (\<lambda>a b. cmp a b < 0) ys"
    and "mset xs = mset ys" and "list_all valid xs"
  shows "xs = ys"
  using assms
proof (induction xs arbitrary: ys)
  case (Cons x xs)
  then obtain y ys' where ys: "ys = y # ys'" by (cases ys) auto
  have "x = y"
  proof (rule ccontr)
    assume "x \<noteq> y"
    with Cons.prems(3) ys have "x \<in> set ys'" "y \<in> set xs" by (metis insert_noteq_member list.set_intros(1) mset.simps(2) set_mset_mset)+
    moreover have "valid y" using Cons.prems(4) \<open>y \<in> set xs\<close> by (auto simp: list_all_iff)
    ultimately show False using Cons.prems(1,2,4) ys flip' [of x y] by auto
  qed
  with Cons ys show ?case by simp
qed simp

lemma SortFunc_unique:
  assumes "mset xs = mset ys" and "list_all valid xs" and "distinct (map key xs)"
  shows "SortFunc cmp xs = SortFunc cmp ys"
proof (rule sorted_unique)
  have "mset (map key xs) = mset (map key ys)" using assms(1) by simp
  then have "distinct (map key ys)" using assms(3) mset_eq_imp_distinct_iff by blast
  moreover have "list_all valid ys" using assms(1,2) by (auto simp: list_all_iff dest: mset_eq_setD)
  ultimately show "sorted_wrt (\<lambda>a b. cmp a b < 0) (SortFunc cmp ys)" by (intro SortFunc_sorted)
  show "sorted_wrt (\<lambda>a b. cmp a b < 0) (SortFunc cmp xs)" using assms(2,3) by (intro SortFunc_sorted)
qed (use assms in \<open>simp_all add: list_all_iff\<close>)

end

section \<open>The comparison of ranked members\<close>

lemma unat_Mul64:
  "unat (fst (bits_Mul64 x y)) = unat x * unat y div 2 ^ 64"
  "unat (snd (bits_Mul64 x y)) = unat x * unat y mod 2 ^ 64"
proof -
  have lt: "unat x * unat y < 2 ^ 128"
    using mult_strict_mono [OF unat_bound [of x] unat_bound [of y]] by simp
  have "unat ((ucast x :: 128 word) * ucast y) = unat x * unat y"
    using lt unat_bound [of x] unat_bound [of y] by (simp add: unat_word_ariths unat_ucast)
  then show "unat (fst (bits_Mul64 x y)) = unat x * unat y div 2 ^ 64"
    "unat (snd (bits_Mul64 x y)) = unat x * unat y mod 2 ^ 64"
    using lt by (simp_all add: bits_Mul64_def Let_def unat_ucast unat_drop_bit less_mult_imp_div_less)
qed

lemma cmpKey_eq:
  "cmpKey wa na wb nb =
     (if unat wb * unat na < unat wa * unat nb then -1 else if unat wa * unat nb < unat wb * unat na then 1 else 0)"
proof -
  let ?A = "unat wa * unat nb" and ?B = "unat wb * unat na"
  have lex: "A < B \<longleftrightarrow> A div k < B div k \<or> A div k = B div k \<and> A mod k < B mod k" for A B k :: nat
    by (metis add_less_cancel_left div_le_mono linorder_not_less mult_div_mod_eq nat_less_le)
  obtain h l h' l' where m: "bits_Mul64 wa nb = (h, l)" "bits_Mul64 wb na = (h', l')" by fastforce
  have u: "unat h = ?A div 2 ^ 64" "unat l = ?A mod 2 ^ 64" "unat h' = ?B div 2 ^ 64" "unat l' = ?B mod 2 ^ 64"
    using unat_Mul64 [of wa nb] unat_Mul64 [of wb na] m by simp_all
  show ?thesis
    unfolding cmpKey_def m prod.case Let_def word_less_nat_alt word_unat_eq_iff u
    using lex [of ?A ?B "2 ^ 64"] lex [of ?B ?A "2 ^ 64"] by (auto simp: not_less_iff_gr_or_eq)
qed

lemma negLn_nonzero: "negLn h \<noteq> 0"
  by (simp add: negLn_def Let_def split: prod.split)

text \<open>Comparing fractions by cross multiplication is transitive, ties included.\<close>

lemma cross_trans:
  fixes a b c :: nat
  assumes "b * na \<le> a * nb" and "c * nb \<le> b * nc" and "0 < nb"
  shows "c * na \<le> a * nc" and "b * na < a * nb \<or> c * nb < b * nc \<Longrightarrow> 0 < na \<Longrightarrow> 0 < nc \<Longrightarrow> c * na < a * nc"
proof -
  have 1: "nb * (c * na) \<le> (b * na) * nc" and 2: "(b * na) * nc \<le> nb * (a * nc)"
    using mult_le_mono1 [OF assms(2), of na] mult_le_mono1 [OF assms(1), of nc] by (simp_all only: ac_simps)
  then have "nb * (c * na) \<le> nb * (a * nc)" by (rule order_trans)
  then show "c * na \<le> a * nc" using assms(3) by simp
  show "c * na < a * nc" if "b * na < a * nb \<or> c * nb < b * nc" "0 < na" "0 < nc"
  proof -
    have "(c * nb) * na < (b * nc) * na \<or> (b * na) * nc < (a * nb) * nc" using that by auto
    then have "nb * (c * na) < (b * na) * nc \<or> (b * na) * nc < nb * (a * nc)" by (simp only: ac_simps)
    then have "nb * (c * na) < nb * (a * nc)" using 1 2 by linarith
    then show ?thesis by simp
  qed
qed

lemma ranked_cmp_cases:
  "ranked_cmp a b < 0 \<longleftrightarrow>
     (let A = unat (rk_weight a) * unat (rk_negln b); B = unat (rk_weight b) * unat (rk_negln a)
      in B < A \<or> B = A \<and> (rk_score a > rk_score b \<or> rk_score a = rk_score b \<and> pn_ID (rk_node a) < pn_ID (rk_node b)))"
  "ranked_cmp a b = 0 \<longleftrightarrow> unat (rk_weight a) * unat (rk_negln b) = unat (rk_weight b) * unat (rk_negln a) \<and>
     rk_score a = rk_score b \<and> pn_ID (rk_node a) = pn_ID (rk_node b)"
  by (auto simp: ranked_cmp_def cmpKey_eq Let_def)

interpretation rk: comparison ranked_cmp "pn_ID \<circ> rk_node" "\<lambda>r. rk_negln r \<noteq> 0"
proof unfold_locales
  fix a b c :: ranked
  assume v: "rk_negln a \<noteq> 0" "rk_negln b \<noteq> 0" "rk_negln c \<noteq> 0"
    and lt: "ranked_cmp a b < 0" "ranked_cmp b c < 0"
  have pos: "0 < unat (rk_negln a)" "0 < unat (rk_negln b)" "0 < unat (rk_negln c)"
    using v by (simp_all add: unat_gt_0)
  have le: "unat (rk_weight b) * unat (rk_negln a) \<le> unat (rk_weight a) * unat (rk_negln b)"
    "unat (rk_weight c) * unat (rk_negln b) \<le> unat (rk_weight b) * unat (rk_negln c)"
    using lt by (auto simp: ranked_cmp_cases Let_def)
  show "ranked_cmp a c < 0"
    using cross_trans [OF le pos(2)] pos lt by (auto simp: ranked_cmp_cases Let_def)
qed (auto simp: ranked_cmp_cases Let_def not_less_iff_gr_or_eq ranked_cmp_def cmpKey_eq split: if_splits)

interpretation br: comparison bare_cmp br_id "\<lambda>_. True"
  by unfold_locales (auto simp: bare_cmp_def split: if_splits)

section \<open>The greedy fill\<close>

text \<open>What the scan minimises: drain status, then zone load, then host load.\<close>

definition pick_key :: "fill_state \<Rightarrow> PlaceNode \<Rightarrow> bool \<times> nat \<times> nat" where
  "pick_key st n = (pn_Draining n, fs_zoneLoad st (pn_Zone n), fs_hostLoad st (pn_Host n))"

lemma better_iff: "better st c b \<longleftrightarrow> pick_key st c < pick_key st b"
  by (cases "pn_Draining c"; cases "pn_Draining b") (auto simp: better_def pick_key_def Let_def)

abbreviation node_at :: "ranked list \<Rightarrow> nat \<Rightarrow> PlaceNode" where
  "node_at rank i \<equiv> rk_node (rank ! i)"

lemma scan_prefix:
  "case foldl (scan_step rank st) None [0..<m] of
     None \<Rightarrow> \<forall>j < m. fs_picked st ! j
   | Some i \<Rightarrow> i < m \<and> \<not> fs_picked st ! i \<and>
       (\<forall>j < m. \<not> fs_picked st ! j \<longrightarrow> pick_key st (node_at rank i) \<le> pick_key st (node_at rank j))"
proof (induction m)
  case (Suc m)
  then show ?case
    by (auto simp: scan_step_def better_iff less_Suc_eq not_less split: option.splits if_splits intro: order_trans)
qed simp

lemma best_pick_Some:
  assumes "best_pick rank st = Some i"
  shows "i < length rank" and "\<not> fs_picked st ! i"
    and "\<And>j. j < length rank \<Longrightarrow> \<not> fs_picked st ! j \<Longrightarrow> pick_key st (node_at rank i) \<le> pick_key st (node_at rank j)"
  using scan_prefix [where m = "length rank" and rank = rank and st = st] assms by (auto simp: best_pick_def)

lemma best_pick_None: "best_pick rank st = None \<Longrightarrow> j < length rank \<Longrightarrow> fs_picked st ! j"
  using scan_prefix [where m = "length rank" and rank = rank and st = st] by (auto simp: best_pick_def)

text \<open>The state after the picks \<open>ps\<close>, and that every pick is the one the scan makes.\<close>

definition after_picks :: "ranked list \<Rightarrow> nat list \<Rightarrow> fill_state" where
  "after_picks rank ps = foldl (take_pick rank) (fill_start (length rank)) ps"

definition greedy :: "ranked list \<Rightarrow> nat list \<Rightarrow> bool" where
  "greedy rank ps \<longleftrightarrow> (\<forall>m < length ps. best_pick rank (after_picks rank (take m ps)) = Some (ps ! m))"

lemma after_picks_snoc: "after_picks rank (ps @ [i]) = take_pick rank (after_picks rank ps) i"
  by (simp add: after_picks_def)

lemma after_picks_eq:
  "set ps \<subseteq> {..<length rank} \<Longrightarrow>
     after_picks rank ps = \<lparr>fs_zoneLoad = (\<lambda>z. length (filter (\<lambda>i. pn_Zone (node_at rank i) = z) ps)),
       fs_hostLoad = (\<lambda>h. length (filter (\<lambda>i. pn_Host (node_at rank i) = h) ps)),
       fs_picked = map (\<lambda>i. i \<in> set ps) [0..<length rank],
       fs_out = map (\<lambda>i. pn_ID (node_at rank i)) ps\<rparr>"
proof (induction ps rule: rev_induct)
  case Nil
  then show ?case by (simp add: after_picks_def fill_start_def map_replicate_const)
next
  case (snoc i ps)
  then show ?case
    by (auto simp: after_picks_snoc take_pick_def Let_def fun_eq_iff intro!: nth_equalityI)
       (auto simp: nth_list_update split: if_splits)
qed

lemma greedy_snoc:
  "greedy rank (ps @ [i]) \<longleftrightarrow> greedy rank ps \<and> best_pick rank (after_picks rank ps) = Some i"
  by (auto simp: greedy_def less_Suc_eq nth_append)

lemma greedy_Nil [simp]: "greedy rank []"
  by (simp add: greedy_def)

lemma greedy_range: "greedy rank ps \<Longrightarrow> set ps \<subseteq> {..<length rank} \<and> distinct ps"
proof (induction ps rule: rev_induct)
  case (snoc i ps)
  then have "greedy rank ps" and b: "best_pick rank (after_picks rank ps) = Some i" by (simp_all add: greedy_snoc)
  with snoc.IH best_pick_Some(1,2) [OF b] show ?case by (auto simp: after_picks_eq)
qed simp

lemma greedy_prefix: "greedy rank ps \<Longrightarrow> greedy rank (take m ps)"
  by (auto simp: greedy_def min_def split: if_splits)

lemma greedy_determined:
  "greedy rank ps \<Longrightarrow> greedy rank qs \<Longrightarrow> length ps \<le> length qs \<Longrightarrow> ps = take (length ps) qs"
proof (induction ps rule: rev_induct)
  case (snoc i ps)
  then have g: "greedy rank ps" "best_pick rank (after_picks rank ps) = Some i" by (simp_all add: greedy_snoc)
  have "ps = take (length ps) qs" using snoc g by simp
  moreover have "best_pick rank (after_picks rank (take (length ps) qs)) = Some (qs ! length ps)"
    using snoc.prems by (simp add: greedy_def)
  ultimately show ?case using g(2) snoc.prems(3) by (simp add: take_Suc_conv_app_nth)
qed simp

text \<open>The fill makes greedy picks as long as there are members left.\<close>

lemma fill_greedy:
  assumes "greedy rank ps" and "length ps + todo \<le> length rank"
  shows "\<exists>qs. length qs = todo \<and> greedy rank (ps @ qs) \<and>
    fill rank todo (after_picks rank ps) = Inr (map (\<lambda>i. pn_ID (node_at rank i)) (ps @ qs))"
  using assms
proof (induction todo arbitrary: ps)
  case 0
  then show ?case using greedy_range [OF 0(1)] by (simp add: after_picks_eq)
next
  case (Suc todo)
  note r = greedy_range [OF Suc.prems(1)]
  have "card (set ps) < card {..<length rank}" using Suc.prems(2) r by (simp add: distinct_card)
  then have "\<not> {..<length rank} \<subseteq> set ps" using card_mono [of "set ps" "{..<length rank}"] by auto
  then obtain j where j: "j < length rank" "j \<notin> set ps" by auto
  obtain i where i: "best_pick rank (after_picks rank ps) = Some i"
    using best_pick_None [of rank "after_picks rank ps" j] j r
    by (cases "best_pick rank (after_picks rank ps)") (auto simp: after_picks_eq)
  then have "greedy rank (ps @ [i])" using Suc.prems(1) by (simp add: greedy_snoc)
  from Suc.IH [OF this] Suc.prems(2) obtain qs where "length qs = todo" "greedy rank ((ps @ [i]) @ qs)"
    "fill rank todo (after_picks rank (ps @ [i])) = Inr (map (\<lambda>i. pn_ID (node_at rank i)) ((ps @ [i]) @ qs))"
    by auto
  then show ?case using i by (intro exI [of _ "i # qs"]) (simp add: after_picks_snoc)
qed

section \<open>The ranking\<close>

lemma adjacent_distinct: "distinct xs \<Longrightarrow> \<not> adjacent_duplicate xs"
  by (induction xs rule: adjacent_duplicate.induct) auto

lemma rank_member_simps [simp]: "rk_node (rank_member pt m) = m" "rk_negln (rank_member pt m) \<noteq> 0"
  by (simp_all add: rank_member_def Let_def negLn_nonzero)

lemma rank_list_nodes: "mset (map rk_node (rank_list pt ms)) = mset ms"
  by (simp add: rank_list_def comp_def flip: image_mset.compositionality) (simp add: image_mset.compositionality comp_def)

lemma length_rank_list [simp]: "length (rank_list pt ms) = length ms"
  using mset_eq_length [OF rank_list_nodes [of pt ms]] by simp

lemma rank_list_distinct: "distinct (map pn_ID ms) \<Longrightarrow> distinct (map (pn_ID \<circ> rk_node) (rank_list pt ms))"
  unfolding rank_list_def rk.distinct_keys_SortFunc by (simp add: comp_def)

lemma rank_list_unique: "mset ms = mset ms' \<Longrightarrow> distinct (map pn_ID ms) \<Longrightarrow> rank_list pt ms = rank_list pt ms'"
  unfolding rank_list_def by (rule rk.SortFunc_unique) (auto simp: list_all_iff comp_def)

lemma spread_greedy:
  assumes "distinct (map pn_ID ms)" and "0 < width" and "width \<le> int (length ms)"
  obtains ps where "greedy (rank_list pt ms) ps" "length ps = nat width"
    "spread pt ms width = Inr (map (\<lambda>i. pn_ID (node_at (rank_list pt ms) i)) ps)"
proof -
  have "\<not> adjacent_duplicate (map (pn_ID \<circ> rk_node) (rank_list pt ms))"
    by (rule adjacent_distinct [OF rank_list_distinct [OF assms(1)]])
  moreover obtain ps where "length ps = nat width" "greedy (rank_list pt ms) ps"
    "fill (rank_list pt ms) (nat width) (fill_start (length ms)) =
       Inr (map (\<lambda>i. pn_ID (node_at (rank_list pt ms) i)) ps)"
    using fill_greedy [of "rank_list pt ms" "[]" "nat width"] assms(2,3)
    by (auto simp: after_picks_def nat_le_iff)
  ultimately show thesis using that [of ps] assms(2,3) by (simp add: spread_def)
qed

section \<open>Draining nodes and zones\<close>

abbreviation active_at :: "ranked list \<Rightarrow> nat set" where
  "active_at rank \<equiv> {i. i < length rank \<and> \<not> pn_Draining (node_at rank i)}"

lemma greedy_active:
  "greedy rank ps \<Longrightarrow> length ps \<le> card (active_at rank) \<Longrightarrow> set ps \<subseteq> active_at rank"
proof (induction ps rule: rev_induct)
  case (snoc i ps)
  then have g: "greedy rank ps" and i: "best_pick rank (after_picks rank ps) = Some i" by (simp_all add: greedy_snoc)
  note r = greedy_range [OF g]
  have "card (set ps) < card (active_at rank)" using snoc.prems(2) r by (simp add: distinct_card)
  then have "\<not> active_at rank \<subseteq> set ps" using card_mono [of "set ps" "active_at rank"] by auto
  then obtain j where j: "j \<in> active_at rank" "j \<notin> set ps" by auto
  have "pick_key (after_picks rank ps) (node_at rank i) \<le> pick_key (after_picks rank ps) (node_at rank j)"
    using best_pick_Some(3) [OF i] j r by (simp add: after_picks_eq)
  then have "\<not> pn_Draining (node_at rank i)" using j by (auto simp: pick_key_def)
  then show ?case using best_pick_Some(1) [OF i] snoc g by simp
qed simp

lemma greedy_zones:
  "greedy rank ps \<Longrightarrow> length ps \<le> card ((\<lambda>i. pn_Zone (node_at rank i)) ` active_at rank) \<Longrightarrow>
     distinct (map (\<lambda>i. pn_Zone (node_at rank i)) ps)"
proof (induction ps rule: rev_induct)
  case (snoc i ps)
  let ?z = "\<lambda>i. pn_Zone (node_at rank i)"
  from snoc have g: "greedy rank ps" and i: "best_pick rank (after_picks rank ps) = Some i" by (simp_all add: greedy_snoc)
  note r = greedy_range [OF g]
  have d: "distinct (map ?z ps)" using snoc g by simp
  then have "card (set (map ?z ps)) < card (?z ` active_at rank)"
    using snoc.prems(2) by (simp only: distinct_card) simp
  then have "\<not> ?z ` active_at rank \<subseteq> set (map ?z ps)"
    using card_mono [of "set (map ?z ps)" "?z ` active_at rank"] by auto
  then obtain j where j: "j \<in> active_at rank" "?z j \<notin> ?z ` set ps" by auto
  have "pick_key (after_picks rank ps) (node_at rank i) \<le> pick_key (after_picks rank ps) (node_at rank j)"
    using best_pick_Some(3) [OF i] j r by (auto simp: after_picks_eq)
  moreover have "filter (\<lambda>i. ?z i = ?z j) ps = []" using j(2) by (simp add: filter_empty_conv) (metis image_eqI)
  ultimately have "filter (\<lambda>i'. ?z i' = ?z i) ps = []"
    using j(1) r by (auto simp: pick_key_def after_picks_eq)
  then show ?case using d by (auto simp: filter_empty_conv)
qed simp

lemma rank_list_filter:
  "length (filter P (map rk_node (rank_list pt ms))) = length (filter P ms)"
  "set (map rk_node (rank_list pt ms)) = set ms"
  using rank_list_nodes [of pt ms] by (metis mset_filter mset_eq_length, metis mset_eq_setD)

lemma node_at_mem: "i < length ms \<Longrightarrow> node_at (rank_list pt ms) i \<in> set ms"
  using rank_list_filter(2) [of pt ms] by (metis imageI length_rank_list nth_mem set_map)

lemma card_active: "card (active_at (rank_list pt ms)) = length (filter (\<lambda>m. \<not> pn_Draining m) ms)"
proof -
  let ?r = "map rk_node (rank_list pt ms)"
  have "{i. i < length (rank_list pt ms) \<and> \<not> pn_Draining (node_at (rank_list pt ms) i)} =
      {i. i < length ?r \<and> \<not> pn_Draining (?r ! i)}" by auto
  then show ?thesis using length_filter_conv_card [of "\<lambda>m. \<not> pn_Draining m" ?r] rank_list_filter(1) by simp
qed

lemma zones_active:
  "(\<lambda>i. pn_Zone (node_at (rank_list pt ms) i)) ` active_at (rank_list pt ms) =
     pn_Zone ` {m \<in> set ms. \<not> pn_Draining m}"
proof -
  let ?r = "rank_list pt ms"
  have "(\<lambda>i. node_at ?r i) ` active_at ?r = {m \<in> set (map rk_node ?r). \<not> pn_Draining m}"
    by (auto simp: set_conv_nth) (metis length_rank_list nth_map)
  then have "pn_Zone ` (\<lambda>i. node_at ?r i) ` active_at ?r = pn_Zone ` {m \<in> set ms. \<not> pn_Draining m}"
    by (simp only: rank_list_filter(2))
  then show ?thesis by (simp only: image_image)
qed

lemma ActiveCount_eq: "ActiveCount l = length (filter (\<lambda>m. \<not> pn_Draining m) (ly_Members l))"
proof -
  have "foldl (\<lambda>n m. if \<not> pn_Draining m then n + 1 else n) k ms = k + length (filter (\<lambda>m. \<not> pn_Draining m) ms)" for k ms
    by (induction ms arbitrary: k) auto
  from this [of 0 "ly_Members l"] show ?thesis unfolding ActiveCount_def by simp
qed

section \<open>What placement promises\<close>

text \<open>
  C37: Placing \<open>width\<close> shards on a layout with distinct members succeeds, on \<open>width\<close> distinct nodes of
  the layout; the result does not depend on the order in which the members are listed; and a
  narrower placement of the same partition is a prefix of it.
\<close>

theorem placement_distinct_stable:
  assumes "distinct (map pn_ID members)" and "0 < width" and "width \<le> int (length members)"
  shows "\<exists>out. spread pt members width = Inr out \<and> length out = nat width \<and> distinct out \<and>
    set out \<subseteq> pn_ID ` set members \<and>
    (\<forall>members'. mset members' = mset members \<longrightarrow> spread pt members' width = Inr out) \<and>
    (\<forall>w. 0 < w \<longrightarrow> w \<le> width \<longrightarrow> spread pt members w = Inr (take (nat w) out))"
proof -
  let ?rank = "rank_list pt members" and ?id = "\<lambda>i. pn_ID (node_at (rank_list pt members) i)"
  obtain ps where ps: "greedy ?rank ps" "length ps = nat width" "spread pt members width = Inr (map ?id ps)"
    using spread_greedy [OF assms] by blast
  note r = greedy_range [OF ps(1)]
  have "inj_on ?id {..<length ?rank}"
    using rank_list_distinct [OF assms(1), of pt] by (auto simp: distinct_conv_nth inj_on_def)
  then have "distinct (map ?id ps)" using r by (auto simp: distinct_map intro: inj_on_subset)
  moreover have "set (map ?id ps) \<subseteq> pn_ID ` set members"
    using r node_at_mem [of _ members pt] by (auto simp: subset_iff intro!: imageI)
  moreover have "spread pt members' width = Inr (map ?id ps)" if "mset members' = mset members" for members'
  proof -
    have "rank_list pt members' = ?rank" using rank_list_unique [OF that [symmetric] assms(1)] by simp
    then have "spread pt members' width = spread pt members width" using mset_eq_length [OF that] by (simp add: spread_def)
    with ps(3) show ?thesis by simp
  qed
  moreover have "spread pt members w = Inr (take (nat w) (map ?id ps))" if w: "0 < w" "w \<le> width" for w
  proof -
    obtain qs where qs: "greedy ?rank qs" "length qs = nat w" "spread pt members w = Inr (map ?id qs)"
      using spread_greedy [OF assms(1) w(1) order_trans [OF w(2) assms(3)]] by blast
    have "qs = take (nat w) ps" using greedy_determined [OF qs(1) ps(1)] qs(2) ps(2) w by simp
    with qs(3) show ?thesis by (simp add: take_map)
  qed
  ultimately show ?thesis using ps by (intro exI [of _ "map ?id ps"]) simp
qed

abbreviation demo_node :: "string \<Rightarrow> string \<Rightarrow> bool \<Rightarrow> PlaceNode" where
  "demo_node i z d \<equiv> \<lparr>pn_ID = str i, pn_Host = str i, pn_Zone = str z, pn_Weight = 0, pn_Draining = d\<rparr>"

definition demo_members :: "PlaceNode list" where
  "demo_members = [demo_node ''n1'' ''a'' False, demo_node ''n2'' ''a'' False, demo_node ''n3'' ''b'' False, demo_node ''n4'' ''c'' True]"

lemma demo_members_distinct: "distinct (map pn_ID demo_members)" "length demo_members = 4"
  by code_simp+

theorem placement_distinct_stable_witness:
  "\<exists>out. spread 7 demo_members 3 = Inr out \<and> length out = 3 \<and> distinct out \<and> spread 7 demo_members 2 = Inr (take 2 out)"
proof -
  from placement_distinct_stable [OF demo_members_distinct(1), of 3 7] demo_members_distinct(2)
  obtain out where o: "spread 7 demo_members 3 = Inr out" "length out = 3" "distinct out"
    and narrow: "\<forall>w. 0 < w \<longrightarrow> w \<le> 3 \<longrightarrow> spread 7 demo_members w = Inr (take (nat w) out)" by auto
  have "spread 7 demo_members 2 = Inr (take 2 out)" using narrow [rule_format, of 2] by simp
  with o show ?thesis by blast
qed

text \<open>
  C38: A layout with enough nodes that are not draining places nothing on a draining node, and
  when those nodes lie in enough zones, no two shards share a zone.
\<close>

theorem placement_spreads:
  assumes "distinct (map pn_ID (ly_Members l))" and "0 < width" and "width \<le> int (ActiveCount l)"
  shows "\<exists>ns. Layout_Nodes l pt width = Inr (map pn_ID ns) \<and> set ns \<subseteq> set (ly_Members l) \<and>
    (\<forall>n. n \<in> set ns \<longrightarrow> \<not> pn_Draining n) \<and>
    (width \<le> int (card (pn_Zone ` {m \<in> set (ly_Members l). \<not> pn_Draining m})) \<longrightarrow> distinct (map pn_Zone ns))"
proof -
  let ?ms = "ly_Members l"
  let ?rank = "rank_list pt ?ms"
  have "width \<le> int (length ?ms)"
    using assms(3) length_filter_le [of "\<lambda>m. \<not> pn_Draining m" ?ms] unfolding ActiveCount_eq by linarith
  then obtain ps where ps: "greedy ?rank ps" "length ps = nat width"
    "spread pt ?ms width = Inr (map (\<lambda>i. pn_ID (node_at ?rank i)) ps)"
    using spread_greedy [OF assms(1,2)] by blast
  have act: "set ps \<subseteq> active_at ?rank"
    by (rule greedy_active [OF ps(1)]) (use ps(2) assms(3) in \<open>unfold card_active ActiveCount_eq, simp add: nat_le_iff\<close>)
  have zones: "distinct (map (\<lambda>i. pn_Zone (node_at ?rank i)) ps)"
    if "width \<le> int (card (pn_Zone ` {m \<in> set ?ms. \<not> pn_Draining m}))"
    by (rule greedy_zones [OF ps(1)]) (use ps(2) that in \<open>unfold zones_active, simp add: nat_le_iff\<close>)
  have "set (map (node_at ?rank) ps) \<subseteq> set ?ms"
    using act node_at_mem [of _ ?ms pt] by (auto simp: subset_iff)
  with act zones show ?thesis
    using ps(3) by (intro exI [of _ "map (node_at ?rank) ps"]) (auto simp: Layout_Nodes_def comp_def)
qed

definition demo_place :: Layout where
  "demo_place = \<lparr>ly_Version = 1, ly_PartitionCount = 64, ly_Members = demo_members, ly_Previous = []\<rparr>"

theorem placement_spreads_witness:
  "\<exists>ns :: PlaceNode list. Layout_Nodes demo_place 7 2 = Inr (map pn_ID ns) \<and> distinct (map pn_Zone ns)"
proof -
  have "ActiveCount demo_place = 3" by code_simp
  moreover have "{m \<in> set demo_members. \<not> pn_Draining m} = set (filter (\<lambda>m. \<not> pn_Draining m) demo_members)" by auto
  moreover have "card (pn_Zone ` set (filter (\<lambda>m. \<not> pn_Draining m) demo_members)) = 2" by code_simp
  ultimately have "\<exists>ns. Layout_Nodes demo_place 7 2 = Inr (map pn_ID ns) \<and> set ns \<subseteq> set (ly_Members demo_place) \<and>
      (\<forall>n. n \<in> set ns \<longrightarrow> \<not> pn_Draining n) \<and> distinct (map pn_Zone ns)"
    using placement_spreads [of demo_place 2 7] demo_members_distinct(1) by (simp add: demo_place_def)
  then show ?thesis by blast
qed

text \<open>
  The check for duplicate members looks at neighbours of the ranking only. Two entries of one
  node with different weights need not be neighbours: the duplicate is accepted and the node is
  given two shards of one object.
\<close>

theorem duplicate_weights_undetected:
  "spread 0 [(demo_node ''a'' ''z'' False)\<lparr>pn_Weight := 9\<rparr>, demo_node ''b'' ''z'' False, demo_node ''a'' ''z'' False] 3 =
     Inr [str ''a'', str ''b'', str ''a'']"
  by code_simp

end
