(* ===== verification/Data_Stream.thy ===== *)
theory Data_Stream
  imports Wal
begin

text \<open>
  The framed object stream (\<^verbatim>\<open>internal/stream\<close>): header, chunks and trailer index, with the
  optional encryption of each chunk.

  Sizes and offsets are integers; where the code's 64-bit arithmetic could wrap (\<^verbatim>\<open>Cover\<close>) the wrap
  is written out, and elsewhere the values are lengths of byte slices. The underlying \<^verbatim>\<open>io.Writer\<close>
  and \<^verbatim>\<open>io.ReaderAt\<close> and the AES-GCM construction are parameters: a writer is its state and a
  function that returns the new state and whether the write succeeded, a reader is a function from an
  offset and a length to the bytes it delivers.
\<close>

datatype stream_error =
    ErrNegativeSize | ErrChunkSize | ErrDEKLength | ErrAESInit | ErrGCMGeometry | ErrSink
  | ErrWriteAfterClose | ErrExceedsDeclared | ErrClosedTwice | ErrTooFewBytes | ErrTrailerOverflow
  | ErrShortRead | ErrBadMagic | ErrCorruptHeader | ErrVersion | ErrUnsupportedFlags | ErrNoKey
  | ErrCorruptFrame | ErrNegativeOffset | ErrCRC | ErrAuthentication | StreamPanic

section \<open>Constants and the header\<close>

definition formatVersion :: u64 where
  "formatVersion = 1"

definition flagCompressed :: u64 where
  "flagCompressed = 1"

definition flagEncrypted :: u64 where
  "flagEncrypted = 2"

definition supportedFlags :: u64 where
  "supportedFlags = flagEncrypted"

definition magic :: bytes where
  "magic = str ''HMF1''"

definition MaxVarintLen64 :: nat where
  "MaxVarintLen64 = 10"

definition maxHeaderLen :: nat where
  "maxHeaderLen = 4 + 4 * MaxVarintLen64"

record header =
  h_flags :: u64
  h_chunkSize :: int
  h_plaintextSize :: int
  h_len :: int

definition appendHeader :: "bytes \<Rightarrow> u64 \<Rightarrow> int \<Rightarrow> int \<Rightarrow> bytes" where
  "appendHeader b flags chunkSize plaintextSize =
     b @ magic @ AppendUvarint formatVersion @ AppendUvarint flags @
       AppendUvarint (word_of_int chunkSize) @ AppendUvarint (word_of_int plaintextSize)"

text \<open>The closure \<^verbatim>\<open>next\<close> over the rest of the header.\<close>

definition header_next :: "bytes \<Rightarrow> stream_error + u64 \<times> bytes" where
  "header_next rest =
     (let (v, n) = Uvarint rest in if n \<le> 0 then Inl ErrCorruptHeader else Inr (v, drop (nat n) rest))"

definition parseHeader :: "bytes \<Rightarrow> stream_error + header" where
  "parseHeader b =
     (if length b < length magic \<or> take 4 b \<noteq> magic then Inl ErrBadMagic
      else bind_res (header_next (drop (length magic) b)) (\<lambda>(version, rest).
        if version \<noteq> formatVersion then Inl ErrVersion
        else bind_res (header_next rest) (\<lambda>(flags, rest).
          if flags AND NOT supportedFlags \<noteq> 0 then Inl ErrUnsupportedFlags
          else bind_res (header_next rest) (\<lambda>(chunkSize, rest).
            bind_res (header_next rest) (\<lambda>(plaintextSize, rest).
              if chunkSize > 0x7FFFFFFFFFFFFFFF \<or> plaintextSize > 0x7FFFFFFFFFFFFFFF then Inl ErrCorruptHeader
              else if uint chunkSize = 0 \<and> uint plaintextSize > 0 then Inl ErrCorruptHeader
              else Inr \<lparr>h_flags = flags, h_chunkSize = uint chunkSize, h_plaintextSize = uint plaintextSize,
                        h_len = int (length b) - int (length rest)\<rparr>)))))"

section \<open>The arithmetic of a frame\<close>

definition DEKLen :: nat where
  "DEKLen = 32"

definition gcmNonceLen :: nat where
  "gcmNonceLen = 12"

definition gcmTagLen :: int where
  "gcmTagLen = 16"

definition transformOverhead :: "bool \<Rightarrow> int \<times> u64" where
  "transformOverhead encrypted = (if encrypted then (gcmTagLen, flagEncrypted) else (0, 0))"

function uvarintLen_loop :: "u64 \<Rightarrow> int \<Rightarrow> int" where
  "uvarintLen_loop v n = (if v \<ge> 0x80 then uvarintLen_loop (drop_bit 7 v) (n + 1) else n)"
  by pat_completeness auto
termination
proof (relation "measure (\<lambda>(v, n). unat v)")
  fix v :: u64 and n :: int
  assume "v \<ge> 0x80"
  then have "0 < unat v" by (simp add: word_le_nat_alt)
  then show "((drop_bit 7 v, n + 1), v, n) \<in> measure (\<lambda>(v, n). unat v)"
    by (simp add: unat_drop_bit)
qed simp

declare uvarintLen_loop.simps [simp del]

definition uvarintLen :: "u64 \<Rightarrow> int" where
  "uvarintLen v = uvarintLen_loop v 1"

definition chunkCount :: "int \<Rightarrow> int \<Rightarrow> int" where
  "chunkCount sz chunkSize = (if sz = 0 then 0 else (sz - 1) div chunkSize + 1)"

definition FrameSize :: "int \<Rightarrow> int \<Rightarrow> bool \<Rightarrow> int" where
  "FrameSize plaintextSize chunkSize encrypted =
     (let (tag, flags) = transformOverhead encrypted;
          size = int (length (appendHeader [] flags chunkSize plaintextSize));
          n = chunkCount plaintextSize chunkSize;
          size = size + plaintextSize + tag * n;
          size = (if n > 0
                  then let last = plaintextSize - (n - 1) * chunkSize
                       in size + (n - 1) * uvarintLen (word_of_int (chunkSize + tag)) +
                            uvarintLen (word_of_int (last + tag))
                  else size)
      in size + 4 * n + 4)"

text \<open>Two's complement wrap-around of a 64-bit signed sum.\<close>

definition wrap64 :: "int \<Rightarrow> int" where
  "wrap64 x = sint (word_of_int x :: i64)"

record Range =
  rg_Off :: int
  rg_Len :: int

definition appendRange :: "Range list \<Rightarrow> Range \<Rightarrow> Range list" where
  "appendRange rs r =
     (let prev = last rs
      in if rg_Off r \<le> rg_Off prev + rg_Len prev
         then butlast rs @ [prev\<lparr>rg_Len := max (rg_Len prev) (rg_Off r + rg_Len r - rg_Off prev)\<rparr>]
         else rs @ [r])"

definition Cover :: "int \<Rightarrow> int \<Rightarrow> int \<Rightarrow> int \<Rightarrow> bool \<Rightarrow> Range list" where
  "Cover plaintextSize chunkSize off len encrypted =
     (let (tag, flags) = transformOverhead encrypted;
          stride = chunkSize + tag;
          n = chunkCount plaintextSize chunkSize;
          headerLen = int (length (appendHeader [] flags chunkSize plaintextSize));
          frameSize = FrameSize plaintextSize chunkSize encrypted;
          trailerStart = headerLen + plaintextSize + tag * n;
          headRead = min (int maxHeaderLen) frameSize;
          off = (if off < 0 then 0 else off);
          end = min (wrap64 (off + len)) plaintextSize;
          out = [\<lparr>rg_Off = 0, rg_Len = headRead\<rparr>];
          out = (if off < end
                 then let first = off div chunkSize;
                          last = (end - 1) div chunkSize;
                          bodyStart = headerLen + first * stride;
                          bodyEnd = min (headerLen + (last + 1) * stride) trailerStart
                      in appendRange out \<lparr>rg_Off = bodyStart, rg_Len = bodyEnd - bodyStart\<rparr>
                 else out)
      in appendRange out \<lparr>rg_Off = trailerStart, rg_Len = frameSize - trailerStart\<rparr>)"

section \<open>Encrypting chunks\<close>

text \<open>
  \<^verbatim>\<open>cipher.AEAD\<close>: its geometry, sealing and opening under a nonce. \<open>gcm dek\<close> is \<^verbatim>\<open>cipher.NewGCM\<close> over
  \<^verbatim>\<open>aes.NewCipher(dek)\<close>; \<open>None\<close> is an initialisation error.
\<close>

record AEAD =
  NonceSize :: nat
  Overhead :: int
  Seal :: "bytes \<Rightarrow> bytes \<Rightarrow> bytes"
  Open :: "bytes \<Rightarrow> bytes \<Rightarrow> bytes option"

definition newChunkCrypter :: "(bytes \<Rightarrow> AEAD option) \<Rightarrow> bytes \<Rightarrow> stream_error + AEAD" where
  "newChunkCrypter gcm dek =
     (if length dek \<noteq> DEKLen then Inl ErrDEKLength
      else case gcm dek of
             None \<Rightarrow> Inl ErrAESInit
           | Some aead \<Rightarrow>
               if NonceSize aead \<noteq> gcmNonceLen \<or> Overhead aead \<noteq> gcmTagLen then Inl ErrGCMGeometry
               else Inr aead)"

definition chunkNonce :: "int \<Rightarrow> bytes" where
  "chunkNonce i = replicate (gcmNonceLen - 8) 0 @ be_u64 (word_of_int i)"

definition crypter_seal :: "AEAD \<Rightarrow> bytes \<Rightarrow> int \<Rightarrow> bytes" where
  "crypter_seal c plaintext i = Seal c (chunkNonce i) plaintext"

definition crypter_open :: "AEAD \<Rightarrow> bytes \<Rightarrow> int \<Rightarrow> bytes option" where
  "crypter_open c ciphertext i = Open c (chunkNonce i) ciphertext"

section \<open>Writing\<close>

record 's Writer =
  sw_sink :: 's
  sw_chunkSize :: int
  sw_declared :: int
  sw_written :: int
  sw_buf :: bytes
  sw_crypter :: "AEAD option"
  sw_lengths :: "u64 list"
  sw_crcs :: "u32 list"
  sw_frameSize :: int
  sw_closed :: bool

definition crypter_for :: "(bytes \<Rightarrow> AEAD option) \<Rightarrow> bytes option \<Rightarrow> stream_error + AEAD option" where
  "crypter_for gcm dek =
     (case dek of None \<Rightarrow> Inr None | Some k \<Rightarrow> bind_res (newChunkCrypter gcm k) (\<lambda>c. Inr (Some c)))"

definition NewWriter ::
    "('s \<Rightarrow> bytes \<Rightarrow> 's \<times> bool) \<Rightarrow> (bytes \<Rightarrow> AEAD option) \<Rightarrow> 's \<Rightarrow> int \<Rightarrow> int \<Rightarrow> bytes option \<Rightarrow> 's \<times> (stream_error + 's Writer)" where
  "NewWriter wr gcm sink plaintextSize chunkSize dek =
     (if plaintextSize < 0 then (sink, Inl ErrNegativeSize)
      else if chunkSize \<le> 0 then (sink, Inl ErrChunkSize)
      else case crypter_for gcm dek of
             Inl e \<Rightarrow> (sink, Inl e)
           | Inr crypter \<Rightarrow>
               let flags = (if crypter = None then 0 else flagEncrypted);
                   hdr = appendHeader [] flags chunkSize plaintextSize;
                   (sink, ok) = wr sink hdr
               in if \<not> ok then (sink, Inl ErrSink)
                  else (sink, Inr \<lparr>sw_sink = sink, sw_chunkSize = chunkSize, sw_declared = plaintextSize, sw_written = 0,
                          sw_buf = [], sw_crypter = crypter, sw_lengths = [], sw_crcs = [],
                          sw_frameSize = int (length hdr), sw_closed = False\<rparr>))"

definition Writer_flush :: "('s \<Rightarrow> bytes \<Rightarrow> 's \<times> bool) \<Rightarrow> 's Writer \<Rightarrow> 's Writer \<times> stream_error option" where
  "Writer_flush wr w =
     (let i = int (length (sw_lengths w));
          stored = (case sw_crypter w of None \<Rightarrow> sw_buf w | Some c \<Rightarrow> crypter_seal c (sw_buf w) i);
          (sink, ok) = wr (sw_sink w) stored
      in if \<not> ok then (w\<lparr>sw_sink := sink\<rparr>, Some ErrSink)
         else (w\<lparr>sw_sink := sink, sw_lengths := sw_lengths w @ [word_of_nat (length stored)],
                 sw_crcs := sw_crcs w @ [crc32c stored],
                 sw_frameSize := sw_frameSize w + int (length stored), sw_buf := []\<rparr>, None))"

text \<open>
  The loop of \<^verbatim>\<open>Write\<close>. A buffer left full by a failed flush is flushed again before more bytes are taken. The
  chunk size is positive (\<^verbatim>\<open>NewWriter\<close>), so the first branch is not reached.
\<close>

lemma Writer_flush_empties: "Writer_flush wr w = (w', None) \<Longrightarrow> sw_buf w' = [] \<and> sw_chunkSize w' = sw_chunkSize w"
  by (auto simp: Writer_flush_def Let_def split: prod.splits if_splits)

function Writer_Write_loop ::
    "('s \<Rightarrow> bytes \<Rightarrow> 's \<times> bool) \<Rightarrow> 's Writer \<Rightarrow> bytes \<Rightarrow> int \<Rightarrow> 's Writer \<times> int \<times> stream_error option" where
  "Writer_Write_loop wr w p n =
     (if p = [] then (w, n, None)
      else
        let tk = min (sw_chunkSize w - int (length (sw_buf w))) (int (length p))
        in if tk < 0 \<or> sw_chunkSize w \<le> 0 then (w, n, Some StreamPanic)
           else
             let w1 = w\<lparr>sw_buf := sw_buf w @ take (nat tk) p, sw_written := sw_written w + tk\<rparr>
             in if int (length (sw_buf w1)) = sw_chunkSize w
                then case Writer_flush wr w1 of
                       (w2, Some e) \<Rightarrow> (w2, n + tk, Some e)
                     | (w2, None) \<Rightarrow> Writer_Write_loop wr w2 (drop (nat tk) p) (n + tk)
                else Writer_Write_loop wr w1 (drop (nat tk) p) (n + tk))"
  by pat_completeness auto
termination
proof (relation "measure (\<lambda>(wr, w, p, n). 2 * length p + (if int (length (sw_buf w)) = sw_chunkSize w then 1 else 0))",
    goal_cases)
  case (2 wr w p n tk w1 w2)
  then have "sw_buf w2 = []" "sw_chunkSize w2 = sw_chunkSize w" using Writer_flush_empties [of wr w1 w2] by simp_all
  with 2 show ?case by (cases "tk = 0") (auto simp: min_def split: if_splits)
next
  case (3 wr w p n tk w1)
  then show ?case by (cases "tk = 0") (auto simp: min_def split: if_splits)
qed simp

declare Writer_Write_loop.simps [simp del]

definition Writer_Write ::
    "('s \<Rightarrow> bytes \<Rightarrow> 's \<times> bool) \<Rightarrow> 's Writer \<Rightarrow> bytes \<Rightarrow> 's Writer \<times> int \<times> stream_error option" where
  "Writer_Write wr w p =
     (if sw_closed w then (w, 0, Some ErrWriteAfterClose)
      else if sw_written w + int (length p) > sw_declared w then (w, 0, Some ErrExceedsDeclared)
      else Writer_Write_loop wr w p 0)"

definition trailer_index :: "u64 list \<Rightarrow> u32 list \<Rightarrow> bytes" where
  "trailer_index lengths crcs = concat (map AppendUvarint lengths) @ concat (map le_u32 crcs)"

definition Writer_Close :: "('s \<Rightarrow> bytes \<Rightarrow> 's \<times> bool) \<Rightarrow> 's Writer \<Rightarrow> 's Writer \<times> stream_error option" where
  "Writer_Close wr w =
     (if sw_closed w then (w, Some ErrClosedTwice)
      else
        let w = w\<lparr>sw_closed := True\<rparr>
        in if sw_written w \<noteq> sw_declared w then (w, Some ErrTooFewBytes)
           else
             let (w, e) = (if length (sw_buf w) > 0 then Writer_flush wr w else (w, None))
             in case e of
                  Some e \<Rightarrow> (w, Some e)
                | None \<Rightarrow>
                    let trailer = trailer_index (sw_lengths w) (sw_crcs w)
                    in if int (length trailer) > 4294967295 then (w, Some ErrTrailerOverflow)
                       else
                         let trailer = trailer @ le_u32 (word_of_nat (length trailer));
                             (sink, ok) = wr (sw_sink w) trailer
                         in if \<not> ok then (w\<lparr>sw_sink := sink\<rparr>, Some ErrSink)
                            else (w\<lparr>sw_sink := sink, sw_frameSize := sw_frameSize w + int (length trailer)\<rparr>, None))"

section \<open>Reading\<close>

definition readAtFull :: "(int \<Rightarrow> nat \<Rightarrow> bytes) \<Rightarrow> int \<Rightarrow> nat \<Rightarrow> stream_error + bytes" where
  "readAtFull r off n = (let p = r off n in if length p < n then Inl ErrShortRead else Inr p)"

record Reader =
  sr_size :: int
  sr_chunk :: int
  sr_tagLen :: int
  sr_crypter :: "AEAD option"
  sr_offsets :: "int list"
  sr_crcs :: "u32 list"

definition plainLen :: "Reader \<Rightarrow> int \<Rightarrow> int" where
  "plainLen fr i =
     (let rest = sr_size fr - i * sr_chunk fr in if rest < sr_chunk fr then rest else sr_chunk fr)"

text \<open>The first trailer loop: chunks \<open>i\<close> to \<open>i + todo\<close>; \<open>offs\<close> holds the offsets so far.\<close>

fun read_offsets :: "Reader \<Rightarrow> nat \<Rightarrow> nat \<Rightarrow> bytes \<Rightarrow> int list \<Rightarrow> stream_error + bytes \<times> int list" where
  "read_offsets fr i 0 trailer offs = Inr (trailer, offs)"
| "read_offsets fr i (Suc todo) trailer offs =
     (let (stored, used) = Uvarint trailer
      in if used \<le> 0 then Inl ErrCorruptFrame
         else if sint stored \<noteq> plainLen fr (int i) + sr_tagLen fr then Inl ErrCorruptFrame
         else read_offsets fr (Suc i) todo (drop (nat used) trailer) (offs @ [last offs + sint stored]))"

definition read_crcs :: "nat \<Rightarrow> bytes \<Rightarrow> u32 list" where
  "read_crcs n trailer = map (\<lambda>i. u32_of_le (take 4 (drop (4 * i) trailer))) [0..<n]"

definition NewReader ::
    "(int \<Rightarrow> nat \<Rightarrow> bytes) \<Rightarrow> (bytes \<Rightarrow> AEAD option) \<Rightarrow> int \<Rightarrow> bytes option \<Rightarrow> stream_error + Reader" where
  "NewReader r gcm frameSize dek =
     (let hdrLen = min (int maxHeaderLen) frameSize
      in if hdrLen < 0 then Inl StreamPanic
         else bind_res (readAtFull r 0 (nat hdrLen)) (\<lambda>front.
           bind_res (parseHeader front) (\<lambda>h.
             bind_res (if h_flags h AND flagEncrypted \<noteq> 0
                       then case dek of
                              None \<Rightarrow> Inl ErrNoKey
                            | Some k \<Rightarrow> bind_res (newChunkCrypter gcm k) (\<lambda>c. Inr (Some c, gcmTagLen))
                       else Inr (None, 0)) (\<lambda>(crypter, tagLen).
               let n = chunkCount (h_plaintextSize h) (h_chunkSize h)
               in if frameSize < h_len h + 4 then Inl ErrCorruptFrame
                  else bind_res (readAtFull r (frameSize - 4) 4) (\<lambda>lenField.
                    let trailerLen = uint (u32_of_le lenField)
                    in if h_len h + trailerLen + 4 > frameSize then Inl ErrCorruptFrame
                       else if n > trailerLen div 5 then Inl ErrCorruptFrame
                       else bind_res (readAtFull r (frameSize - 4 - trailerLen) (nat trailerLen)) (\<lambda>trailer.
                         let fr = \<lparr>sr_size = h_plaintextSize h, sr_chunk = h_chunkSize h, sr_tagLen = tagLen,
                                   sr_crypter = crypter, sr_offsets = [], sr_crcs = []\<rparr>
                         in bind_res (read_offsets fr 0 (nat n) trailer [h_len h]) (\<lambda>(trailer, offsets).
                              if int (length trailer) \<noteq> 4 * n then Inl ErrCorruptFrame
                              else if offsets ! nat n \<noteq> frameSize - 4 - trailerLen then Inl ErrCorruptFrame
                              else Inr (fr\<lparr>sr_offsets := offsets, sr_crcs := read_crcs (nat n) trailer\<rparr>)))))))) "

definition readChunk :: "(int \<Rightarrow> nat \<Rightarrow> bytes) \<Rightarrow> Reader \<Rightarrow> nat \<Rightarrow> stream_error + bytes" where
  "readChunk r fr i =
     bind_res (readAtFull r (sr_offsets fr ! i) (nat (sr_offsets fr ! Suc i - sr_offsets fr ! i))) (\<lambda>stored.
       if crc32c stored \<noteq> sr_crcs fr ! i then Inl ErrCRC
       else case sr_crypter fr of
              None \<Rightarrow> Inr stored
            | Some c \<Rightarrow> (case crypter_open c stored (int i) of None \<Rightarrow> Inl ErrAuthentication | Some plain \<Rightarrow> Inr plain))"

text \<open>
  The loop of \<^verbatim>\<open>ReadAt\<close>: \<open>p\<close> holds the bytes copied so far, \<open>want\<close> is the length of the buffer. The result
  is the bytes and the error; \<open>Some None\<close> is \<^verbatim>\<open>io.EOF\<close>. Not returning is \<open>None\<close>.
\<close>

partial_function (option) ReadAt_loop ::
    "(int \<Rightarrow> nat \<Rightarrow> bytes) \<Rightarrow> Reader \<Rightarrow> nat \<Rightarrow> bytes \<Rightarrow> int \<Rightarrow> (bytes \<times> stream_error option option) option" where
  "ReadAt_loop r fr want p off =
     (if length p < want \<and> off < sr_size fr
      then let i = off div sr_chunk fr
           in case readChunk r fr (nat i) of
                Inl e \<Rightarrow> Some (p, Some (Some e))
              | Inr chunk \<Rightarrow>
                  if off - i * sr_chunk fr > int (length chunk) then Some (p, Some (Some StreamPanic))
                  else let c = take (want - length p) (drop (nat (off - i * sr_chunk fr)) chunk)
                       in ReadAt_loop r fr want (p @ c) (off + int (length c))
      else Some (p, if length p < want then Some None else None))"

definition Reader_ReadAt ::
    "(int \<Rightarrow> nat \<Rightarrow> bytes) \<Rightarrow> Reader \<Rightarrow> nat \<Rightarrow> int \<Rightarrow> (bytes \<times> stream_error option option) option" where
  "Reader_ReadAt r fr want off =
     (if off < 0 then Some ([], Some (Some ErrNegativeOffset)) else ReadAt_loop r fr want [] off)"

end
