(* ===== verification/Data_Stream_Props.thy ===== *)
theory Data_Stream_Props
  imports Data_Stream Wal_Recovery
begin

text \<open>
  A frame read back: the writer produces header, stored chunks and trailer of the written bytes
  however they were split into writes, its size is the one computed in advance, and a reader
  over it returns every range of the plaintext.
\<close>

section \<open>Varint lengths\<close>

lemma length_AppendUvarint_bound: "unat v < 128 ^ n \<Longrightarrow> 0 < n \<Longrightarrow> length (AppendUvarint v) \<le> n"
proof (induction v arbitrary: n rule: AppendUvarint.induct)
  case (1 v)
  show ?case
  proof (cases "v \<ge> 0x80")
    case True
    have "n \<noteq> 1" using True 1(2) by (auto simp: word_le_nat_alt)
    then obtain m where m: "n = Suc m" "0 < m" using 1(3) by (cases n) auto
    have "unat (drop_bit 7 v) < 128 ^ m" using 1(2) m by (simp add: unat_drop_bit less_mult_imp_div_less mult.commute)
    from 1(1) [OF True this m(2)] show ?thesis using True m by (simp add: AppendUvarint.simps [of v])
  qed (use 1(3) in \<open>simp add: AppendUvarint.simps [of v]\<close>)
qed

lemma length_AppendUvarint [simp]: "length (AppendUvarint v) \<le> 10"
proof (rule length_AppendUvarint_bound)
  have "(2 :: nat) ^ 64 \<le> 128 ^ 10" by simp
  then show "unat v < 128 ^ 10" using unat_bound [of v] by simp
qed simp

lemma uvarintLen_loop_eq: "uvarintLen_loop v n = n - 1 + int (length (AppendUvarint v))"
proof (induction v n rule: uvarintLen_loop.induct)
  case (1 v n)
  show ?case
  proof (cases "v \<ge> 0x80")
    case True
    then show ?thesis using 1 by (simp add: uvarintLen_loop.simps [of v n] AppendUvarint.simps [of v])
  qed (simp add: uvarintLen_loop.simps [of v n] AppendUvarint.simps [of v])
qed

lemma uvarintLen_eq: "uvarintLen v = int (length (AppendUvarint v))"
  by (simp add: uvarintLen_def uvarintLen_loop_eq)

section \<open>The header\<close>

lemma header_next_Append [simp]: "header_next (AppendUvarint v @ r) = Inr (v, r)"
  using AppendUvarint_nonempty [of v] by (simp add: header_next_def)

lemma uint_word_of_int_pos: "0 \<le> n \<Longrightarrow> n < 2 ^ 63 \<Longrightarrow> uint (word_of_int n :: u64) = n"
  by (simp add: uint_word_of_int)

lemma magic_simps [simp]: "length magic = 4" "take 4 magic = magic" "magic \<noteq> []"
  by (simp_all add: magic_def str_def)

lemma parseHeader_append:
  assumes "flags = 0 \<or> flags = flagEncrypted" and "0 < cs" "cs < 2 ^ 63" and "0 \<le> ps" "ps < 2 ^ 63"
  shows "parseHeader (appendHeader [] flags cs ps @ r) = Inr \<lparr>h_flags = flags, h_chunkSize = cs, h_plaintextSize = ps,
    h_len = int (length (appendHeader [] flags cs ps))\<rparr>"
proof -
  have flags: "flags AND NOT supportedFlags = 0"
    using assms(1) by (auto simp: supportedFlags_def flagEncrypted_def)
  have u: "uint (word_of_int cs :: u64) = cs" "uint (word_of_int ps :: u64) = ps"
    using assms by (simp_all add: uint_word_of_int_pos)
  then have le: "\<not> (word_of_int cs :: u64) > 0x7FFFFFFFFFFFFFFF" "\<not> (word_of_int ps :: u64) > 0x7FFFFFFFFFFFFFFF"
    using assms(3,5) by (simp_all add: word_less_def)
  show ?thesis
    using assms(2) by (simp add: parseHeader_def appendHeader_def flags u le bind_res_simps)
qed

lemma length_appendHeader: "length (appendHeader [] flags cs ps) \<le> maxHeaderLen"
  using length_AppendUvarint [of formatVersion] length_AppendUvarint [of flags]
    length_AppendUvarint [of "word_of_int cs"] length_AppendUvarint [of "word_of_int ps"]
  by (simp add: appendHeader_def maxHeaderLen_def MaxVarintLen64_def del: length_AppendUvarint)

section \<open>Chunks\<close>

text \<open>The pieces of the plaintext, and what the frame stores for them.\<close>

definition piece :: "nat \<Rightarrow> bytes \<Rightarrow> nat \<Rightarrow> bytes" where
  "piece cs d i = take cs (drop (i * cs) d)"

definition seal_opt :: "AEAD option \<Rightarrow> bytes \<Rightarrow> int \<Rightarrow> bytes" where
  "seal_opt c p i = (case c of None \<Rightarrow> p | Some a \<Rightarrow> crypter_seal a p i)"

definition stored_piece :: "AEAD option \<Rightarrow> nat \<Rightarrow> bytes \<Rightarrow> nat \<Rightarrow> bytes" where
  "stored_piece c cs d i = seal_opt c (piece cs d i) (int i)"

definition stored_pieces :: "AEAD option \<Rightarrow> nat \<Rightarrow> bytes \<Rightarrow> nat \<Rightarrow> bytes list" where
  "stored_pieces c cs d k = map (stored_piece c cs d) [0..<k]"

definition pieces :: "nat \<Rightarrow> bytes \<Rightarrow> nat" where
  "pieces cs d = nat (chunkCount (int (length d)) (int cs))"

lemma stored_pieces_Suc: "stored_pieces c cs d (Suc k) = stored_pieces c cs d k @ [stored_piece c cs d k]"
  by (simp add: stored_pieces_def)

lemma length_stored_pieces [simp]: "length (stored_pieces c cs d k) = k"
  by (simp add: stored_pieces_def)

lemma piece_stable: "Suc i * cs \<le> length d \<Longrightarrow> piece cs (d @ p) i = piece cs d i"
  by (simp add: piece_def)

lemma stored_pieces_stable: "k * cs \<le> length d \<Longrightarrow> stored_pieces c cs (d @ p) k = stored_pieces c cs d k"
proof (induction k)
  case (Suc k)
  then show ?case using piece_stable [of k cs d p] by (simp add: stored_pieces_Suc stored_piece_def)
qed (simp add: stored_pieces_def)

lemma piece_last: "length d \<le> Suc k * cs \<Longrightarrow> piece cs d k = drop (k * cs) d"
  by (simp add: piece_def)

lemma chunkCount_pieces:
  assumes "0 < cs"
  shows "chunkCount (int (length d)) (int cs) = int (pieces cs d)"
proof -
  have "0 \<le> (int (length d) - 1) div int cs" if "d \<noteq> []"
    using assms that by (cases d) (simp_all add: pos_imp_zdiv_nonneg_iff)
  then show ?thesis by (auto simp: pieces_def chunkCount_def)
qed

lemma pieces_eq:
  assumes "0 < cs"
  shows "pieces cs d = (if length d mod cs = 0 then length d div cs else Suc (length d div cs))"
proof (cases "length d = 0")
  case False
  have "chunkCount (int (length d)) (int cs) = int ((length d - 1) div cs + 1)"
    using False by (cases "length d") (simp_all add: chunkCount_def zdiv_int)
  moreover have "(length d - 1) div cs + 1 = (if length d mod cs = 0 then length d div cs else Suc (length d div cs))"
    using False assms div_Suc [of "length d - 1" cs] mod_Suc [of "length d - 1" cs] by (auto split: if_splits)
  ultimately show ?thesis by (simp add: pieces_def)
qed (simp add: pieces_def chunkCount_def)

section \<open>The writer\<close>

text \<open>The writer over a growing byte buffer (\<^verbatim>\<open>bytes.Buffer\<close>).\<close>

definition buf_write :: "bytes \<Rightarrow> bytes \<Rightarrow> bytes \<times> bool" where
  "buf_write s b = (s @ b, True)"

text \<open>The state of a writer that has accepted the bytes \<open>d\<close> after the header \<open>hdr\<close>.\<close>

definition holds :: "bytes \<Rightarrow> nat \<Rightarrow> int \<Rightarrow> AEAD option \<Rightarrow> bytes \<Rightarrow> bytes Writer" where
  "holds hdr cs declared c d =
     (let k = length d div cs; ps = stored_pieces c cs d k in
      \<lparr>sw_sink = hdr @ concat ps, sw_chunkSize = int cs, sw_declared = declared, sw_written = int (length d),
       sw_buf = drop (k * cs) d, sw_crypter = c, sw_lengths = map (\<lambda>p. word_of_nat (length p)) ps,
       sw_crcs = map crc32c ps, sw_frameSize = int (length (hdr @ concat ps)), sw_closed = False\<rparr>)"

lemma holds_simps [simp]:
  "length (sw_buf (holds hdr cs dc c d)) = length d mod cs"
  "sw_chunkSize (holds hdr cs dc c d) = int cs"
  "sw_written (holds hdr cs dc c d) = int (length d)"
  "sw_declared (holds hdr cs dc c d) = dc"
  "sw_closed (holds hdr cs dc c d) = False"
  by (simp_all add: holds_def Let_def minus_div_mult_eq_mod)

lemma flush_eq:
  "Writer_flush buf_write \<lparr>sw_sink = s, sw_chunkSize = cs, sw_declared = dc, sw_written = n, sw_buf = b, sw_crypter = c,
      sw_lengths = ls, sw_crcs = rs, sw_frameSize = fs, sw_closed = cl\<rparr> =
   (let stored = seal_opt c b (int (length ls))
    in (\<lparr>sw_sink = s @ stored, sw_chunkSize = cs, sw_declared = dc, sw_written = n, sw_buf = [], sw_crypter = c,
         sw_lengths = ls @ [word_of_nat (length stored)], sw_crcs = rs @ [crc32c stored],
         sw_frameSize = fs + int (length stored), sw_closed = cl\<rparr>, None))"
  by (cases c) (simp_all add: Writer_flush_def buf_write_def seal_opt_def Let_def)

lemma holds_fill:
  fixes d q :: bytes
  assumes "0 < cs" and "length d mod cs + length q < cs"
  shows "(holds hdr cs dc c d)\<lparr>sw_buf := sw_buf (holds hdr cs dc c d) @ q, sw_written := int (length d) + int (length q)\<rparr>
         = holds hdr cs dc c (d @ q)"
proof -
  have k: "(length d + length q) div cs = length d div cs"
  proof -
    have "length d + length q = length d div cs * cs + (length d mod cs + length q)" by simp
    then show ?thesis using assms by (metis add.right_neutral div_less div_mult_self3 less_nat_zero_code)
  qed
  have "length d div cs * cs \<le> length d" by simp
  then show ?thesis by (simp add: holds_def Let_def k stored_pieces_stable)
qed

lemma holds_flush:
  fixes d q :: bytes
  assumes "0 < cs" and "length d mod cs + length q = cs"
  shows "Writer_flush buf_write ((holds hdr cs dc c d)\<lparr>sw_buf := sw_buf (holds hdr cs dc c d) @ q, sw_written := int (length d) + int (length q)\<rparr>)
         = (holds hdr cs dc c (d @ q), None)"
proof -
  let ?k = "length d div cs"
  have len: "length (d @ q) = Suc ?k * cs"
  proof -
    have "length d + length q = ?k * cs + (length d mod cs + length q)" by simp
    also have "\<dots> = Suc ?k * cs" unfolding assms(2) by simp
    finally show ?thesis by simp
  qed
  then have k: "length (d @ q) div cs = Suc ?k" using assms(1) by (simp del: mult_Suc)
  have le: "?k * cs \<le> length d" by simp
  have p: "piece cs (d @ q) ?k = drop (?k * cs) d @ q"
    using piece_last [of "d @ q" ?k cs] len le by simp
  have st: "stored_pieces c cs (d @ q) ?k = stored_pieces c cs d ?k" using le by (rule stored_pieces_stable)
  have e: "drop (Suc ?k * cs) (d @ q) = []" using len by simp
  show ?thesis
    unfolding holds_def Let_def k stored_pieces_Suc st e
    by (simp add: flush_eq Let_def stored_piece_def p)
qed

lemma Write_loop_step:
  assumes "p \<noteq> []" and "min (sw_chunkSize w - int (length (sw_buf w))) (int (length p)) = int tk" and "0 < sw_chunkSize w"
  shows "Writer_Write_loop wr w p n =
    (let w' = w\<lparr>sw_buf := sw_buf w @ take tk p, sw_written := sw_written w + int tk\<rparr>
     in if int (length (sw_buf w')) = sw_chunkSize w
        then case Writer_flush wr w' of
               (w, Some e) \<Rightarrow> (w, n + int tk, Some e)
             | (w, None) \<Rightarrow> Writer_Write_loop wr w (drop tk p) (n + int tk)
        else Writer_Write_loop wr w' (drop tk p) (n + int tk))"
  unfolding Writer_Write_loop.simps [of wr w p n] assms(2) Let_def using assms(1,3) by (simp cong: if_cong)

lemma Write_loop_holds:
  assumes "0 < cs"
  shows "Writer_Write_loop buf_write (holds hdr cs dc c d) p n = (holds hdr cs dc c (d @ p), n + int (length p), None)"
proof (induction "length p" arbitrary: d p n rule: less_induct)
  case less
  let ?w = "holds hdr cs dc c d"
  define tk where "tk = min (cs - length d mod cs) (length p)"
  show ?case
  proof (cases "p = []")
    case False
    have "length d mod cs < cs" using assms by simp
    then have tk: "min (sw_chunkSize ?w - int (length (sw_buf ?w))) (int (length p)) = int tk" "0 < tk" "tk \<le> length p"
      using False by (auto simp: tk_def min_def)
    have q: "length (take tk p) = tk" "int (length p) = int tk + int (length (drop tk p))" using tk(3) by simp_all
    have step: "Writer_Write_loop buf_write ?w p n =
      Writer_Write_loop buf_write (holds hdr cs dc c (d @ take tk p)) (drop tk p) (n + int tk)"
    proof (cases "length d mod cs + tk = cs")
      case True
      then show ?thesis
        using holds_flush [OF assms, of d "take tk p" hdr dc c] of_nat_eq_iff [of "length d mod cs + tk" cs, where 'a = int]
        by (simp add: Write_loop_step [OF False tk(1)] assms q(1) Let_def min_absorb2 tk(3))
    next
      case neq: False
      then have "length d mod cs + tk < cs" using \<open>length d mod cs < cs\<close> by (simp add: tk_def)
      moreover have "(length d + tk) mod cs \<noteq> cs" using mod_less_divisor [OF assms, of "length d + tk"] by simp
      ultimately show ?thesis
        using holds_fill [OF assms, of d "take tk p" hdr dc c]
        by (simp add: Write_loop_step [OF False tk(1)] assms q(1) Let_def min_absorb2 tk(3))
    qed
    have "length (drop tk p) < length p" using tk(2) False by simp
    from less [OF this] show ?thesis using step q(2) by (simp del: length_drop)
  qed (simp add: Writer_Write_loop.simps)
qed

definition trailer_of :: "AEAD option \<Rightarrow> nat \<Rightarrow> bytes \<Rightarrow> bytes" where
  "trailer_of c cs d =
     (let ps = stored_pieces c cs d (pieces cs d)
      in trailer_index (map (\<lambda>p. word_of_nat (length p)) ps) (map crc32c ps))"

definition frame_of :: "bytes \<Rightarrow> AEAD option \<Rightarrow> nat \<Rightarrow> bytes \<Rightarrow> bytes" where
  "frame_of hdr c cs d =
     hdr @ concat (stored_pieces c cs d (pieces cs d)) @ trailer_of c cs d @ le_u32 (word_of_nat (length (trailer_of c cs d)))"

lemma flush_rest:
  assumes "0 < cs"
  shows "\<exists>w. (if length (sw_buf (holds hdr cs dc c d)) > 0 then Writer_flush buf_write ((holds hdr cs dc c d)\<lparr>sw_closed := True\<rparr>)
      else ((holds hdr cs dc c d)\<lparr>sw_closed := True\<rparr>, None)) = (w, None) \<and>
    sw_sink w = hdr @ concat (stored_pieces c cs d (pieces cs d)) \<and> trailer_index (sw_lengths w) (sw_crcs w) = trailer_of c cs d \<and>
    sw_frameSize w = int (length (hdr @ concat (stored_pieces c cs d (pieces cs d))))"
proof (cases "length d mod cs = 0")
  case True
  then have "pieces cs d = length d div cs" using assms(1) by (simp add: pieces_eq)
  then show ?thesis using True by (simp only: holds_simps) (simp add: holds_def Let_def trailer_of_def)
next
  case False
  let ?k = "length d div cs"
  have k: "pieces cs d = Suc ?k" using assms(1) False by (simp add: pieces_eq)
  have "length d < Suc ?k * cs" using assms(1) by (simp add: dividend_less_div_times)
  then have p: "piece cs d ?k = drop (?k * cs) d" by (intro piece_last) simp
  show ?thesis
    using False by (simp only: holds_simps) (simp add: holds_def Let_def flush_eq trailer_of_def k stored_pieces_Suc stored_piece_def p)
qed

lemma Close_holds:
  assumes "0 < cs"
  shows "int (length d) \<noteq> dc \<Longrightarrow> \<exists>w. Writer_Close buf_write (holds hdr cs dc c d) = (w, Some ErrTooFewBytes)"
    and "int (length (trailer_of c cs d)) > 4294967295 \<Longrightarrow>
      \<exists>w. Writer_Close buf_write (holds hdr cs (int (length d)) c d) = (w, Some ErrTrailerOverflow)"
    and "int (length (trailer_of c cs d)) \<le> 4294967295 \<Longrightarrow>
      \<exists>w. Writer_Close buf_write (holds hdr cs (int (length d)) c d) = (w, None) \<and>
        sw_sink w = frame_of hdr c cs d \<and> sw_frameSize w = int (length (frame_of hdr c cs d))"
proof -
  show "\<exists>w. Writer_Close buf_write (holds hdr cs dc c d) = (w, Some ErrTooFewBytes)" if "int (length d) \<noteq> dc"
    using that by (simp add: Writer_Close_def Let_def)
  obtain w where w: "(if length (sw_buf (holds hdr cs (int (length d)) c d)) > 0
      then Writer_flush buf_write ((holds hdr cs (int (length d)) c d)\<lparr>sw_closed := True\<rparr>)
      else ((holds hdr cs (int (length d)) c d)\<lparr>sw_closed := True\<rparr>, None)) = (w, None)"
    "sw_sink w = hdr @ concat (stored_pieces c cs d (pieces cs d))" "trailer_index (sw_lengths w) (sw_crcs w) = trailer_of c cs d"
    "sw_frameSize w = int (length (hdr @ concat (stored_pieces c cs d (pieces cs d))))"
    using flush_rest [OF assms] by blast
  have sel: "sw_buf (v\<lparr>sw_closed := True\<rparr>) = sw_buf v" "sw_written (v\<lparr>sw_closed := True\<rparr>) = sw_written v"
    "sw_declared (v\<lparr>sw_closed := True\<rparr>) = sw_declared v" for v :: "bytes Writer"
    by simp_all
  have close: "Writer_Close buf_write (holds hdr cs (int (length d)) c d) =
      (if int (length (trailer_of c cs d)) > 4294967295 then (w, Some ErrTrailerOverflow)
       else (w\<lparr>sw_sink := frame_of hdr c cs d, sw_frameSize := int (length (frame_of hdr c cs d))\<rparr>, None))"
    unfolding Writer_Close_def Let_def
    by (simp only: sel holds_simps w(1) [unfolded holds_simps] if_False simp_thms prod.case option.case)
      (simp add: w(2-4) buf_write_def frame_of_def)
  show "\<exists>w. Writer_Close buf_write (holds hdr cs (int (length d)) c d) = (w, Some ErrTrailerOverflow)"
    if "int (length (trailer_of c cs d)) > 4294967295"
    using that by (simp add: close)
  show "\<exists>w. Writer_Close buf_write (holds hdr cs (int (length d)) c d) = (w, None) \<and>
      sw_sink w = frame_of hdr c cs d \<and> sw_frameSize w = int (length (frame_of hdr c cs d))"
    if "int (length (trailer_of c cs d)) \<le> 4294967295"
    using that by (simp add: close)
qed

section \<open>Sealed chunks\<close>

text \<open>What the frame relies on of AES-GCM: its geometry, and that a sealed chunk opens to the plaintext.\<close>

definition lawful :: "AEAD \<Rightarrow> bool" where
  "lawful c \<longleftrightarrow> NonceSize c = gcmNonceLen \<and> Overhead c = gcmTagLen \<and>
     (\<forall>nonce p. Open c nonce (Seal c nonce p) = Some p \<and> int (length (Seal c nonce p)) = int (length p) + gcmTagLen)"

definition lawful_opt :: "AEAD option \<Rightarrow> bool" where
  "lawful_opt c \<longleftrightarrow> (case c of None \<Rightarrow> True | Some a \<Rightarrow> lawful a)"

definition tag_of :: "AEAD option \<Rightarrow> int" where
  "tag_of c = fst (transformOverhead (c \<noteq> None))"

lemma tag_of_simps [simp]: "tag_of None = 0" "tag_of (Some a) = 16"
  by (simp_all add: tag_of_def transformOverhead_def gcmTagLen_def)

lemma length_stored_piece:
  "lawful_opt c \<Longrightarrow> int (length (stored_piece c cs d i)) = int (length (piece cs d i)) + tag_of c"
  by (cases c) (auto simp: lawful_opt_def lawful_def stored_piece_def seal_opt_def crypter_seal_def gcmTagLen_def)

lemma length_piece: "length (piece cs d i) = min cs (length d - i * cs)"
  by (simp add: piece_def)

lemma pieces_bounds:
  assumes "0 < cs" and "i < pieces cs d"
  shows "i * cs < length d"
proof -
  have "i * cs \<le> length d - 1" if "length d mod cs = 0"
  proof -
    have "Suc i * cs \<le> length d div cs * cs" using assms that by (intro mult_le_mono1) (simp add: pieces_eq)
    also have "\<dots> \<le> length d" by simp
    finally show ?thesis using assms(1) by simp
  qed
  moreover have "i * cs < length d" if "length d mod cs \<noteq> 0"
  proof -
    have "i * cs \<le> length d div cs * cs" using assms that by (intro mult_le_mono1) (simp add: pieces_eq)
    then show ?thesis using that div_mult_mod_eq [of "length d" cs] by linarith
  qed
  moreover have "0 < length d" using assms by (cases "d = []") (simp_all add: pieces_eq)
  ultimately show ?thesis by linarith
qed

lemma pieces_cover: "0 < cs \<Longrightarrow> length d \<le> pieces cs d * cs"
  using dividend_less_div_times [of cs "length d"] by (auto simp: pieces_eq algebra_simps mod_eq_0_iff_dvd)

lemma pieces_div: "0 < cs \<Longrightarrow> i < length d \<Longrightarrow> i div cs < pieces cs d"
  using pieces_cover [of cs d] by (simp add: div_less_iff_less_mult)

section \<open>The reader\<close>

text \<open>\<open>r\<close> delivers the bytes of \<open>F\<close> for the reads that \<open>P\<close> names; what it does elsewhere is open.\<close>

definition serves :: "(int \<Rightarrow> nat \<Rightarrow> bytes) \<Rightarrow> (int \<Rightarrow> int \<Rightarrow> bool) \<Rightarrow> bytes \<Rightarrow> bool" where
  "serves r P F \<longleftrightarrow> (\<forall>off n. 0 \<le> off \<and> off + int n \<le> int (length F) \<and> P off (int n) \<longrightarrow> r off n = take n (drop (nat off) F))"

lemma readAtFull_serves:
  assumes "serves r P F" and "P off (int n)" and "F = a @ b @ z" and "off = int (length a)" and "n = length b"
  shows "readAtFull r off n = Inr b"
proof -
  have "r off n = take n (drop (nat off) F)" using assms by (simp add: serves_def)
  then show ?thesis using assms by (simp add: readAtFull_def Let_def)
qed

lemma plainLen_piece:
  assumes "i * cs < length d" and "sr_size fr = int (length d)" and "sr_chunk fr = int cs"
  shows "plainLen fr (int i) = int (length (piece cs d i))"
  using assms by (auto simp: plainLen_def length_piece Let_def min_def of_nat_diff of_nat_mult [symmetric] simp del: of_nat_mult)

definition offset_of :: "bytes \<Rightarrow> AEAD option \<Rightarrow> nat \<Rightarrow> bytes \<Rightarrow> nat \<Rightarrow> int" where
  "offset_of hdr c cs d i = int (length hdr + length (concat (stored_pieces c cs d i)))"

lemma read_offsets_trailer:
  assumes "0 < cs" and "lawful_opt c" and "int cs + 16 < 2 ^ 63"
    and "sr_size fr = int (length d)" "sr_chunk fr = int cs" "sr_tagLen fr = tag_of c"
    and "i + todo = pieces cs d"
  shows "read_offsets fr i todo (concat (map (\<lambda>j. AppendUvarint (word_of_nat (length (stored_piece c cs d j)))) [i..<i + todo]) @ rest)
      (map (offset_of hdr c cs d) [0..<Suc i]) = Inr (rest, map (offset_of hdr c cs d) [0..<Suc (i + todo)])"
  using assms(7)
proof (induction todo arbitrary: i)
  case (Suc todo)
  let ?p = "stored_piece c cs d i"
  have i: "i * cs < length d" using Suc.prems by (intro pieces_bounds [OF assms(1)]) simp
  have len: "int (length ?p) = plainLen fr (int i) + tag_of c"
    by (simp add: length_stored_piece [OF assms(2)] plainLen_piece [OF i assms(4,5)])
  have "int (length ?p) \<le> int cs + 16"
    using length_stored_piece [OF assms(2), of cs d i] by (cases c) (simp_all add: length_piece)
  then have "int (length ?p) < 2 ^ 63" using assms(3) by linarith
  then have s: "sint (word_of_nat (length ?p) :: u64) = int (length ?p)"
    using sint_word_of_int [of "int (length ?p)"] by simp
  have "[i..<i + Suc todo] = i # [Suc i..<Suc i + todo]" by (simp add: upt_conv_Cons)
  moreover have "offset_of hdr c cs d (Suc i) = offset_of hdr c cs d i + int (length ?p)"
    by (simp add: offset_of_def stored_pieces_Suc)
  ultimately show ?case
    using Suc.IH [of "Suc i"] Suc.prems AppendUvarint_nonempty [of "word_of_nat (length ?p)"]
    by (simp add: len s assms(6) del: upt_Suc) (simp add: len)
qed simp

lemma length_concat_le_u32 [simp]: "length (concat (map le_u32 xs)) = 4 * length xs"
  by (induction xs) simp_all

lemma read_crcs_concat: "length crcs = n \<Longrightarrow> read_crcs n (concat (map le_u32 crcs)) = crcs"
proof (rule nth_equalityI)
  fix i assume n: "length crcs = n" and i: "i < length (read_crcs n (concat (map le_u32 crcs)))"
  then have i': "i < length crcs" by (simp add: read_crcs_def)
  have "concat (map le_u32 crcs) = concat (map le_u32 (take i crcs)) @ le_u32 (crcs ! i) @ concat (map le_u32 (drop (Suc i) crcs))"
    using id_take_nth_drop [OF i'] by (metis concat.simps(2) concat_append list.simps(9) map_append)
  moreover have "length (concat (map le_u32 (take i crcs))) = 4 * i"
    using i' by simp
  ultimately show "read_crcs n (concat (map le_u32 crcs)) ! i = crcs ! i"
    using i' n by (simp add: read_crcs_def)
qed (simp add: read_crcs_def)

definition frame_header :: "AEAD option \<Rightarrow> nat \<Rightarrow> bytes \<Rightarrow> bytes" where
  "frame_header c cs d = appendHeader [] (if c = None then 0 else flagEncrypted) (int cs) (int (length d))"

definition reader_of :: "AEAD option \<Rightarrow> nat \<Rightarrow> bytes \<Rightarrow> Reader" where
  "reader_of c cs d =
     \<lparr>sr_size = int (length d), sr_chunk = int cs, sr_tagLen = tag_of c, sr_crypter = c,
      sr_offsets = map (offset_of (frame_header c cs d) c cs d) [0..<Suc (pieces cs d)],
      sr_crcs = map crc32c (stored_pieces c cs d (pieces cs d))\<rparr>"

lemma trailer_of_eq:
  "trailer_of c cs d =
     concat (map (\<lambda>j. AppendUvarint (word_of_nat (length (stored_piece c cs d j)))) [0..<pieces cs d]) @
     concat (map le_u32 (map crc32c (stored_pieces c cs d (pieces cs d))))"
  by (simp add: trailer_of_def trailer_index_def stored_pieces_def comp_def Let_def)

lemma trailer_bounds:
  "5 * pieces cs d \<le> length (trailer_of c cs d)" "length (trailer_of c cs d) \<le> 14 * pieces cs d"
proof -
  have "k \<le> length (concat (map (\<lambda>j. AppendUvarint (f j)) [0..<k])) \<and> length (concat (map (\<lambda>j. AppendUvarint (f j)) [0..<k])) \<le> 10 * k"
    for k and f :: "nat \<Rightarrow> u64"
  proof (induction k)
    case (Suc k)
    then show ?case using length_AppendUvarint [of "f k"] AppendUvarint_nonempty [of "f k"]
      by (cases "AppendUvarint (f k)") simp_all
  qed simp
  note this [of "pieces cs d" "\<lambda>j. word_of_nat (length (stored_piece c cs d j))"]
  moreover have "length (concat (map le_u32 (map crc32c (stored_pieces c cs d (pieces cs d))))) = 4 * pieces cs d"
    by (simp only: length_concat_le_u32 length_map length_stored_pieces)
  ultimately show "5 * pieces cs d \<le> length (trailer_of c cs d)" "length (trailer_of c cs d) \<le> 14 * pieces cs d"
    by (simp_all add: trailer_of_eq)
qed

lemma NewReader_frame:
  assumes "0 < cs" and "lawful_opt c" and "int cs + 16 < 2 ^ 63" and "int (length d) < 2 ^ 63"
    and "length (trailer_of c cs d) < 2 ^ 32" and "crypter_for gcm dek = Inr c"
    and "serves r P F" and F: "F = frame_of (frame_header c cs d) c cs d"
    and P: "P 0 (int (min maxHeaderLen (length F)))" "P (int (length F) - 4) 4"
      "P (int (length F) - 4 - int (length (trailer_of c cs d))) (int (length (trailer_of c cs d)))"
  shows "NewReader r gcm (int (length F)) dek = Inr (reader_of c cs d)"
proof -
  let ?h = "frame_header c cs d" and ?n = "pieces cs d" and ?t = "trailer_of c cs d"
  let ?L = "length ?t" and ?body = "concat (stored_pieces c cs d (pieces cs d))"
  have F': "F = ?h @ ?body @ ?t @ le_u32 (word_of_nat ?L)" unfolding F frame_of_def by simp
  have lF: "length F = length ?h + length ?body + ?L + 4" unfolding F' by simp
  define hl where "hl = min maxHeaderLen (length F)"
  have hl: "length ?h \<le> hl" using length_appendHeader lF by (simp add: hl_def frame_header_def)
  have front: "readAtFull r 0 hl = Inr (take hl F)"
    by (rule readAtFull_serves [OF assms(7), of _ _ "[]" _ "drop hl F"]) (use P in \<open>simp_all add: hl_def\<close>)
  have "take hl F = ?h @ take (hl - length ?h) (drop (length ?h) F)"
    using hl by (simp add: F')
  then have hdr: "parseHeader (take hl F) = Inr \<lparr>h_flags = (if c = None then 0 else flagEncrypted), h_chunkSize = int cs,
      h_plaintextSize = int (length d), h_len = int (length ?h)\<rparr>"
    using parseHeader_append [of "if c = None then 0 else flagEncrypted" "int cs" "int (length d)"] assms(1,3,4)
    by (simp add: frame_header_def)
  have lenf: "readAtFull r (int (length F) - 4) 4 = Inr (le_u32 (word_of_nat ?L))"
    by (rule readAtFull_serves [OF assms(7), of _ _ "?h @ ?body @ ?t" _ "[]"]) (use P in \<open>simp_all add: F'\<close>)
  have tr: "readAtFull r (int (length F) - 4 - int ?L) ?L = Inr ?t"
    by (rule readAtFull_serves [OF assms(7), of _ _ "?h @ ?body" _ "le_u32 (word_of_nat ?L)"]) (use P in \<open>simp_all add: F'\<close>)
  have uL: "uint (word_of_nat ?L :: u32) = int ?L"
    using assms(5) by (simp add: unsigned_of_nat take_bit_nat_eq_self)
  have key: "(if (if c = None then 0 else flagEncrypted) AND flagEncrypted \<noteq> 0
      then case dek of None \<Rightarrow> Inl ErrNoKey | Some k \<Rightarrow> bind_res (newChunkCrypter gcm k) (\<lambda>c. Inr (Some c, gcmTagLen))
      else Inr (None, 0)) = Inr (c, tag_of c)"
    using assms(6) by (auto simp: crypter_for_def flagEncrypted_def gcmTagLen_def bind_res_Inr_iff split: option.splits)
  have n: "chunkCount (int (length d)) (int cs) = int ?n"
    by (rule chunkCount_pieces [OF assms(1)])
  let ?fr = "\<lparr>sr_size = int (length d), sr_chunk = int cs, sr_tagLen = tag_of c, sr_crypter = c, sr_offsets = [], sr_crcs = []\<rparr>"
  let ?crcs = "concat (map le_u32 (map crc32c (stored_pieces c cs d ?n)))"
  have offs: "read_offsets ?fr 0 ?n ?t [int (length ?h)] = Inr (?crcs, map (offset_of ?h c cs d) [0..<Suc ?n])"
    using read_offsets_trailer [OF assms(1,2,3), of ?fr d 0 ?n ?crcs ?h]
    by (simp add: trailer_of_eq offset_of_def stored_pieces_def)
  have crcs: "read_crcs ?n ?crcs = map crc32c (stored_pieces c cs d ?n)" "int (length ?crcs) = 4 * int ?n"
    by (rule read_crcs_concat, simp) (simp only: length_concat_le_u32 length_map length_stored_pieces)
  have off_n: "map (offset_of ?h c cs d) [0..<Suc ?n] ! ?n = int (length F) - 4 - int ?L"
    by (simp add: lF offset_of_def nth_append)
  have guards: "\<not> int (length F) < int (length ?h) + 4" "\<not> int (length ?h) + int ?L + 4 > int (length F)"
    "\<not> int ?n > int ?L div 5"
    using lF trailer_bounds(1) [of cs d c] by (simp_all add: zdiv_int [symmetric] not_less less_eq_div_iff_mult_less_eq)
  have min: "min (int maxHeaderLen) (int (length F)) = int hl" by (simp add: hl_def)
  show ?thesis
    unfolding NewReader_def min Let_def
    by (simp only: nat_int of_nat_less_0_iff if_False front bind_res_simps hdr header.select_convs key prod.case
        guards lenf uL u32_of_le_u32 n tr offs crcs off_n simp_thms reader_of_def Reader.update_convs)
qed

lemma readChunk_frame:
  assumes "lawful_opt c" and "i < pieces cs d" and "serves r P (frame_of (frame_header c cs d) c cs d)"
    and "P (offset_of (frame_header c cs d) c cs d i) (int (length (stored_piece c cs d i)))"
  shows "readChunk r (reader_of c cs d) i = Inr (piece cs d i)"
proof -
  let ?h = "frame_header c cs d" and ?p = "stored_piece c cs d i" and ?n = "pieces cs d"
  have split: "stored_pieces c cs d ?n = stored_pieces c cs d i @ ?p # map (stored_piece c cs d) [Suc i..<?n]"
    using assms(2) upt_add_eq_append [of 0 i "?n - i"] by (simp add: stored_pieces_def upt_conv_Cons)
  have offs: "sr_offsets (reader_of c cs d) ! i = offset_of ?h c cs d i"
    "sr_offsets (reader_of c cs d) ! Suc i = offset_of ?h c cs d i + int (length ?p)"
    using assms(2) by (simp_all add: reader_of_def offset_of_def stored_pieces_Suc del: upt_Suc)
  have "readAtFull r (offset_of ?h c cs d i) (length ?p) = Inr ?p"
    by (rule readAtFull_serves [OF assms(3,4), of "?h @ concat (stored_pieces c cs d i)"])
      (simp_all add: frame_of_def split offset_of_def)
  moreover have "sr_crcs (reader_of c cs d) ! i = crc32c ?p" "sr_crypter (reader_of c cs d) = c"
    using assms(2) by (simp_all add: reader_of_def stored_pieces_def)
  ultimately have "readChunk r (reader_of c cs d) i =
      (case c of None \<Rightarrow> Inr ?p | Some a \<Rightarrow>
         (case crypter_open a ?p (int i) of None \<Rightarrow> Inl ErrAuthentication | Some plain \<Rightarrow> Inr plain))"
    by (simp add: readChunk_def offs)
  then show ?thesis
    using assms(1) by (cases c)
      (simp_all add: stored_piece_def seal_opt_def crypter_open_def crypter_seal_def lawful_opt_def lawful_def)
qed

text \<open>
  The step both read loops of the data path take: the part of the buffer that the piece under the offset fills.
\<close>

lemma piece_read_step:
  fixes d :: bytes
  assumes "0 < cs" and "off < length d" and "0 < m"
  defines "q \<equiv> take m (drop (off mod cs) (piece cs d (off div cs)))"
  shows "off mod cs \<le> length (piece cs d (off div cs))" and "0 < length q" and "length q \<le> m"
    and "q @ take (m - length q) (drop (off + length q) d) = take m (drop off d)"
    and "length q + (length d - (off + length q)) = length d - off"
proof -
  have mod: "off mod cs < cs" "off div cs * cs + off mod cs = off" using assms(1) by simp_all
  then show "off mod cs \<le> length (piece cs d (off div cs))"
    unfolding length_piece min.bounded_iff using assms(2) by (intro conjI) linarith+
  have q: "q = take (min m (cs - off mod cs)) (drop off d)"
    using mod by (simp add: q_def piece_def drop_take add.commute)
  then show "0 < length q" "length q \<le> m" using assms mod(1) by simp_all
  have "take m (drop off d) = take (length q) (drop off d) @ take (m - length q) (drop (off + length q) d)"
    using \<open>length q \<le> m\<close> take_add [of "length q" "m - length q" "drop off d"]
    by (simp only: le_add_diff_inverse drop_drop add.commute [of off])
  moreover have "take (length q) (drop off d) = q" using q by (simp add: min_def split: if_splits)
  ultimately show "q @ take (m - length q) (drop (off + length q) d) = take m (drop off d)" by simp
  have "length q \<le> length d - off" using q by simp
  then show "length q + (length d - (off + length q)) = length d - off" using assms(2) by linarith
qed

lemma ReadAt_loop_frame:
  assumes "0 < cs" and "lawful_opt c" and "serves r P (frame_of (frame_header c cs d) c cs d)"
    and P: "\<And>x. off0 \<le> x \<Longrightarrow> x < off0 + want \<Longrightarrow> x < length d \<Longrightarrow>
      P (offset_of (frame_header c cs d) c cs d (x div cs)) (int (length (stored_piece c cs d (x div cs))))"
  shows "length p \<le> want \<Longrightarrow> off = off0 + length p \<Longrightarrow> ReadAt_loop r (reader_of c cs d) want p (int off) =
    Some (p @ take (want - length p) (drop off d), if length p + (length d - off) < want then Some None else None)"
proof (induction "want - length p" arbitrary: p off rule: less_induct)
  case less
  let ?fr = "reader_of c cs d"
  have fr: "sr_size ?fr = int (length d)" "sr_chunk ?fr = int cs" by (simp_all add: reader_of_def)
  show ?case
  proof (cases "length p < want \<and> off < length d")
    case True
    let ?i = "off div cs" and ?m = "want - length p"
    define q where "q = take ?m (drop (off mod cs) (piece cs d ?i))"
    have m: "0 < ?m" using True by simp
    note step = piece_read_step [OF assms(1) conjunct2 [OF True] m, folded q_def]
    have i: "?i < pieces cs d" using True assms(1) by (intro pieces_div) simp_all
    have "?i * cs + off mod cs = off" by simp
    then have rest: "int off - int ?i * int cs = int (off mod cs)"
      by (metis add_diff_cancel_left' of_nat_add of_nat_mult)
    have "readChunk r ?fr ?i = Inr (piece cs d ?i)"
      using True less.prems by (intro readChunk_frame [OF assms(2) i assms(3)] P) simp_all
    then have "ReadAt_loop r ?fr want p (int off) = ReadAt_loop r ?fr want (p @ q) (int (off + length q))"
      using True step(1)
      by (subst ReadAt_loop.simps) (simp add: fr zdiv_int [symmetric] rest Let_def q_def)
    also have "\<dots> = Some ((p @ q) @ take (want - length (p @ q)) (drop (off + length q) d),
        if length (p @ q) + (length d - (off + length q)) < want then Some None else None)"
      by (intro less) (simp_all only: length_append, use step True less.prems in \<open>linarith+\<close>)
    also have "(p @ q) @ take (want - length (p @ q)) (drop (off + length q) d) = p @ take ?m (drop off d)"
      using step(4) by (simp add: diff_diff_left)
    also have "length (p @ q) + (length d - (off + length q)) = length p + (length d - off)"
      using step(5) by simp
    finally show ?thesis .
  next
    case False
    then show ?thesis using less.prems by (subst ReadAt_loop.simps) (auto simp: fr)
  qed
qed

section \<open>The size in advance\<close>

lemma length_concat_stored:
  assumes "lawful_opt c"
  shows "int (length (concat (stored_pieces c cs d k))) = int (min (k * cs) (length d)) + tag_of c * int k"
proof (induction k)
  case (Suc k)
  then show ?case
    using length_stored_piece [OF assms, of cs d k] by (simp add: stored_pieces_Suc length_piece algebra_simps)
qed (simp add: stored_pieces_def)

lemma FrameSize_frame:
  assumes "0 < cs" and "lawful_opt c"
  shows "FrameSize (int (length d)) (int cs) (c \<noteq> None) = int (length (frame_of (frame_header c cs d) c cs d))"
proof -
  let ?n = "pieces cs d" and ?L = "\<lambda>j. AppendUvarint (word_of_nat (length (stored_piece c cs d j)))"
  have full: "int (length (stored_piece c cs d j)) = int cs + tag_of c" if "Suc j * cs \<le> length d" for j
    using that length_stored_piece [OF assms(2), of cs d j] by (simp add: length_piece)
  have fulls: "int (length (concat (map ?L [0..<k]))) = int k * uvarintLen (word_of_int (int cs + tag_of c))"
    if "k * cs \<le> length d" for k
    using that
  proof (induction k)
    case (Suc k)
    from Suc.prems have "word_of_nat (length (stored_piece c cs d k)) = (word_of_int (int cs + tag_of c) :: u64)"
      using full [of k] by (metis of_int_of_nat_eq)
    with Suc show ?case by (simp add: uvarintLen_eq algebra_simps)
  qed simp
  have trailer: "int (length (concat (map ?L [0..<?n]))) =
      (if ?n > 0 then (int ?n - 1) * uvarintLen (word_of_int (int cs + tag_of c)) +
         uvarintLen (word_of_int (int (length d) - (int ?n - 1) * int cs + tag_of c)) else 0)"
  proof (cases ?n)
    case (Suc k)
    have k: "k * cs < length d" "length d \<le> Suc k * cs"
      using pieces_bounds [OF assms(1), of k d] pieces_cover [OF assms(1), of d] Suc by simp_all
    then have "int (length (stored_piece c cs d k)) = int (length d) - int k * int cs + tag_of c"
      using length_stored_piece [OF assms(2), of cs d k] by (simp add: length_piece of_nat_diff)
    then have "word_of_nat (length (stored_piece c cs d k)) = (word_of_int (int (length d) - int k * int cs + tag_of c) :: u64)"
      by (metis of_int_of_nat_eq)
    then show ?thesis using fulls [of k] k(1) Suc by (simp add: uvarintLen_eq)
  qed simp
  have body: "int (length (concat (stored_pieces c cs d ?n))) = int (length d) + tag_of c * int ?n"
    using length_concat_stored [OF assms(2), of cs d ?n] pieces_cover [OF assms(1), of d] by (simp add: min_def)
  have "transformOverhead (c \<noteq> None) = (tag_of c, if c = None then 0 else flagEncrypted)"
    by (cases c) (simp_all add: transformOverhead_def gcmTagLen_def)
  then have "FrameSize (int (length d)) (int cs) (c \<noteq> None) =
      int (length (frame_header c cs d)) + int (length (concat (stored_pieces c cs d ?n))) +
        int (length (concat (map ?L [0..<?n]))) + 4 * int ?n + 4"
    unfolding trailer body by (simp add: FrameSize_def Let_def chunkCount_pieces [OF assms(1)] frame_header_def)
  then show ?thesis by (simp add: frame_of_def trailer_of_eq del: map_map)
qed

section \<open>The ranges a read needs\<close>

definition covers :: "Range list \<Rightarrow> int \<Rightarrow> int \<Rightarrow> bool" where
  "covers rs off n \<longleftrightarrow> (\<exists>g \<in> set rs. rg_Off g \<le> off \<and> off + n \<le> rg_Off g + rg_Len g)"

lemma appendRange_keeps: "rs \<noteq> [] \<Longrightarrow> covers rs off n \<Longrightarrow> covers (appendRange rs r) off n"
proof -
  assume "rs \<noteq> []" and c: "covers rs off n"
  then have rs: "rs = butlast rs @ [last rs]" by simp
  have c': "covers (butlast rs @ [last rs]) off n" using c rs by simp
  consider g where "g \<in> set (butlast rs)" "rg_Off g \<le> off" "off + n \<le> rg_Off g + rg_Len g"
    | "rg_Off (last rs) \<le> off" "off + n \<le> rg_Off (last rs) + rg_Len (last rs)"
    using c' unfolding covers_def by auto
  then show ?thesis
  proof cases
    case 1
    then show ?thesis by (auto simp: covers_def appendRange_def Let_def dest: in_set_butlastD)
  next
    case 2
    then show ?thesis using \<open>rs \<noteq> []\<close> by (auto simp: covers_def appendRange_def Let_def intro: bexI [OF _ last_in_set])
  qed
qed

lemma appendRange_adds:
  assumes "rg_Off (last rs) \<le> rg_Off r" and "rg_Off r \<le> off" and "off + n \<le> rg_Off r + rg_Len r"
  shows "covers (appendRange rs r) off n"
  using assms by (auto simp: covers_def appendRange_def Let_def)

lemma last_appendRange: "rs \<noteq> [] \<Longrightarrow> rg_Off (last (appendRange rs r)) \<le> max (rg_Off (last rs)) (rg_Off r)"
  by (auto simp: appendRange_def Let_def)

lemma appendRange_nonempty [simp]: "appendRange rs r \<noteq> []"
  by (simp add: appendRange_def Let_def)

lemma offset_of_eq:
  assumes "0 < cs" "lawful_opt c" "i < pieces cs d"
  shows "offset_of hdr c cs d i = int (length hdr) + int i * (int cs + tag_of c)"
proof -
  have "i * cs < length d" using pieces_bounds assms by blast
  then show ?thesis
    using length_concat_stored [OF assms(2), of cs d i] by (simp add: offset_of_def algebra_simps)
qed

lemma offset_of_le:
  "i < n \<Longrightarrow> offset_of hdr c cs d i + int (length (stored_piece c cs d i)) \<le> offset_of hdr c cs d n"
  by (induction n) (auto simp: offset_of_def stored_pieces_Suc less_Suc_eq)

lemma length_stored_le: "lawful_opt c \<Longrightarrow> int (length (stored_piece c cs d i)) \<le> int cs + tag_of c"
  by (simp add: length_stored_piece length_piece)

lemma offset_of_end:
  assumes "0 < cs" "lawful_opt c"
  shows "offset_of hdr c cs d (pieces cs d) = int (length hdr) + int (length d) + tag_of c * int (pieces cs d)"
  using length_concat_stored [OF assms(2), of cs d "pieces cs d"] pieces_cover [OF assms(1), of d]
  by (simp add: offset_of_def min_def)

lemma Cover_covers:
  assumes "0 < cs" "lawful_opt c" and "int off + int len < 2 ^ 63"
    and F: "F = frame_of (frame_header c cs d) c cs d"
  defines "P \<equiv> covers (Cover (int (length d)) (int cs) (int off) (int len) (c \<noteq> None))"
  shows "P 0 (int (min maxHeaderLen (length F)))" and "P (int (length F) - 4) 4"
    and "P (int (length F) - 4 - int (length (trailer_of c cs d))) (int (length (trailer_of c cs d)))"
    and "off \<le> x \<Longrightarrow> x < off + len \<Longrightarrow> x < length d \<Longrightarrow>
      P (offset_of (frame_header c cs d) c cs d (x div cs)) (int (length (stored_piece c cs d (x div cs))))"
proof -
  let ?h = "frame_header c cs d" and ?n = "pieces cs d" and ?off = "offset_of (frame_header c cs d) c cs d"
  let ?upto = "min (off + len) (length d)"
  define head where "head = [\<lparr>rg_Off = 0, rg_Len = min (int maxHeaderLen) (int (length F))\<rparr>]"
  define start where "start = int (length ?h) + int (off div cs) * (int cs + tag_of c)"
  define stop where "stop = min (int (length ?h) + (int ((?upto - 1) div cs) + 1) * (int cs + tag_of c)) (?off ?n)"
  define body where "body = (if off < ?upto then appendRange head \<lparr>rg_Off = start, rg_Len = stop - start\<rparr> else head)"
  have oh: "transformOverhead (c \<noteq> None) = (tag_of c, if c = None then 0 else flagEncrypted)"
    by (cases c) (simp_all add: transformOverhead_def gcmTagLen_def)
  have size: "FrameSize (int (length d)) (int cs) (c \<noteq> None) = int (length F)"
    unfolding F by (rule FrameSize_frame [OF assms(1,2)])
  have w: "min (wrap64 (int off + int len)) (int (length d)) = int ?upto"
    using assms(3) sint_word_of_int [of "int (off + len)"] by (simp only: wrap64_def of_nat_add of_nat_min)
  have o: "(if int off < 0 then 0 else int off) = int off" by simp
  have e: "(int ?upto - 1) div int cs = int ((?upto - 1) div cs)" if "off < ?upto"
    using that by (cases ?upto) (simp_all add: zdiv_int)
  have "Cover (int (length d)) (int cs) (int off) (int len) (c \<noteq> None) =
      appendRange body \<lparr>rg_Off = ?off ?n, rg_Len = int (length F) - ?off ?n\<rparr>"
    unfolding Cover_def oh Let_def prod.case size chunkCount_pieces [OF assms(1)] offset_of_end [OF assms(1,2)] o w of_nat_less_iff
    by (cases "off < ?upto")
      (simp_all only: e if_True if_False simp_thms body_def head_def start_def stop_def frame_header_def zdiv_int [symmetric]
        offset_of_end [OF assms(1,2)])
  then have P: "P = covers (appendRange body \<lparr>rg_Off = ?off ?n, rg_Len = int (length F) - ?off ?n\<rparr>)"
    by (simp add: P_def)
  have lF: "int (length F) = ?off ?n + int (length (trailer_of c cs d)) + 4"
    by (simp add: F frame_of_def offset_of_def)
  have body: "body \<noteq> []" "covers head y z \<Longrightarrow> covers body y z" for y z
    by (auto simp: body_def head_def intro: appendRange_keeps)
  have "start \<le> ?off ?n" if "off < ?upto"
  proof -
    have i: "off div cs < ?n" using that by (intro pieces_div [OF assms(1)]) simp
    then show ?thesis
      using offset_of_eq [OF assms(1,2) i, of ?h] offset_of_le [OF i, of ?h c cs d] by (simp add: start_def)
  qed
  then have lastb: "rg_Off (last body) \<le> ?off ?n"
    using last_appendRange [of head "\<lparr>rg_Off = start, rg_Len = stop - start\<rparr>"]
    by (auto simp: body_def head_def offset_of_def)
  show "P 0 (int (min maxHeaderLen (length F)))"
    unfolding P by (intro appendRange_keeps body) (simp add: covers_def head_def)
  show "P (int (length F) - 4) 4"
    unfolding P by (rule appendRange_adds) (use lastb lF in simp_all)
  show "P (int (length F) - 4 - int (length (trailer_of c cs d))) (int (length (trailer_of c cs d)))"
    unfolding P by (rule appendRange_adds) (use lastb lF in simp_all)
  show "P (?off (x div cs)) (int (length (stored_piece c cs d (x div cs))))" if "off \<le> x" "x < off + len" "x < length d"
  proof -
    let ?i = "x div cs" and ?stride = "int cs + tag_of c"
    have ne: "off < ?upto" and le: "off div cs \<le> ?i" "?i \<le> (?upto - 1) div cs"
      using that by (auto intro: div_le_mono)
    have i: "?i < ?n" using that(3) by (rule pieces_div [OF assms(1)])
    have tag: "0 \<le> ?stride" by (cases c) simp_all
    have "int (off div cs) * ?stride \<le> int ?i * ?stride" "(int ?i + 1) * ?stride \<le> (int ((?upto - 1) div cs) + 1) * ?stride"
      using le by (auto intro!: mult_right_mono tag)
    then have "start \<le> ?off ?i" "?off ?i + int (length (stored_piece c cs d ?i)) \<le> stop"
      using offset_of_eq [OF assms(1,2) i, of ?h] offset_of_le [OF i, of ?h c cs d] length_stored_le [OF assms(2), of cs d ?i]
      by (simp_all add: start_def stop_def algebra_simps)
    moreover have "rg_Off (last head) \<le> start" using tag by (simp add: head_def start_def)
    ultimately have "covers body (?off ?i) (int (length (stored_piece c cs d ?i)))"
      using ne by (simp add: body_def appendRange_adds)
    then show ?thesis unfolding P by (rule appendRange_keeps [OF body(1)])
  qed
qed

end
