(* ===== verification/Stream_Properties.thy ===== *)
theory Stream_Properties
  imports Data_Stream_Props
begin

text \<open>
  What the framed stream promises: a frame written in any pieces reads back at any range, its size is
  the one computed before a byte is written, and the ranges \<^verbatim>\<open>Cover\<close> names are enough to serve a
  ranged read.
\<close>

section \<open>A whole write and a whole read\<close>

fun Write_all :: "bytes Writer \<Rightarrow> bytes list \<Rightarrow> bytes Writer \<times> stream_error option" where
  "Write_all w [] = (w, None)"
| "Write_all w (p # ps) =
     (case Writer_Write buf_write w p of (w, _, Some e) \<Rightarrow> (w, Some e) | (w, _, None) \<Rightarrow> Write_all w ps)"

text \<open>\<^verbatim>\<open>NewWriter\<close>, the writes, \<^verbatim>\<open>Close\<close>: the bytes of the frame.\<close>

definition write_frame ::
    "(bytes \<Rightarrow> AEAD option) \<Rightarrow> bytes option \<Rightarrow> int \<Rightarrow> int \<Rightarrow> bytes list \<Rightarrow> stream_error + bytes" where
  "write_frame gcm dek chunkSize declared ps =
     (case NewWriter buf_write gcm [] declared chunkSize dek of
        (_, Inl e) \<Rightarrow> Inl e
      | (_, Inr w) \<Rightarrow>
          (case Write_all w ps of
             (_, Some e) \<Rightarrow> Inl e
           | (w, None) \<Rightarrow>
               (case Writer_Close buf_write w of (_, Some e) \<Rightarrow> Inl e | (w, None) \<Rightarrow> Inr (sw_sink w))))"

text \<open>\<^verbatim>\<open>NewReader\<close> over \<open>r\<close> and one \<^verbatim>\<open>ReadAt\<close>.\<close>

definition read_frame ::
    "(bytes \<Rightarrow> AEAD option) \<Rightarrow> bytes option \<Rightarrow> (int \<Rightarrow> nat \<Rightarrow> bytes) \<Rightarrow> int \<Rightarrow> nat \<Rightarrow> int
       \<Rightarrow> (bytes \<times> stream_error option option) option" where
  "read_frame gcm dek r frameSize want off =
     (case NewReader r gcm frameSize dek of
        Inl e \<Rightarrow> Some ([], Some (Some e))
      | Inr rd \<Rightarrow> Reader_ReadAt r rd want off)"

definition serve :: "bytes \<Rightarrow> int \<Rightarrow> nat \<Rightarrow> bytes" where
  "serve F off n = take n (drop (nat off) F)"

text \<open>\<^verbatim>\<open>aes.NewCipher\<close> takes every 32-byte key, and each cipher is lawful.\<close>

definition gcm_lawful :: "(bytes \<Rightarrow> AEAD option) \<Rightarrow> bool" where
  "gcm_lawful gcm \<longleftrightarrow> (\<forall>k. length k = DEKLen \<longrightarrow> (\<exists>a. gcm k = Some a \<and> lawful a))"

lemma crypter_for_lawful:
  assumes "gcm_lawful gcm" and "\<And>k. dek = Some k \<Longrightarrow> length k = DEKLen"
  obtains c where "crypter_for gcm dek = Inr c" "lawful_opt c" "c = None \<longleftrightarrow> dek = None"
proof (cases dek)
  case None
  then show thesis by (intro that [of None]) (simp_all add: crypter_for_def lawful_opt_def)
next
  case (Some k)
  with assms obtain a where "gcm k = Some a" "lawful a" by (auto simp: gcm_lawful_def)
  then show thesis using Some assms(2) [of k]
    by (intro that [of "Some a"]) (simp_all add: crypter_for_def newChunkCrypter_def lawful_opt_def lawful_def)
qed

lemma crypter_for_Inr:
  assumes "gcm_lawful gcm" and "crypter_for gcm dek = Inr c"
  shows "lawful_opt c" and "c = None \<longleftrightarrow> dek = None"
  using assms by (auto simp: crypter_for_def newChunkCrypter_def bind_res_Inr_iff lawful_opt_def gcm_lawful_def
      split: option.splits if_splits)

lemma NewWriter_holds:
  assumes "0 < cs" and "crypter_for gcm dek = Inr c"
  shows "NewWriter buf_write gcm [] (int (length d)) (int cs) dek =
    (frame_header c cs d, Inr (holds (frame_header c cs d) cs (int (length d)) c []))"
  using assms by (simp add: NewWriter_def buf_write_def frame_header_def holds_def stored_pieces_def Let_def)

lemma Write_all_holds:
  assumes "0 < cs"
  shows "int (length (d @ concat ps)) \<le> dc \<Longrightarrow> Write_all (holds hdr cs dc c d) ps = (holds hdr cs dc c (d @ concat ps), None)"
proof (induction ps arbitrary: d)
  case (Cons p ps)
  then show ?case using Write_loop_holds [OF assms, of hdr dc c d p 0] by (auto simp: Writer_Write_def)
qed simp

lemma Write_all_short:
  assumes "0 < cs" and "dc < int (length (d @ concat ps))" "int (length d) \<le> dc"
  shows "\<exists>w. Write_all (holds hdr cs dc c d) ps = (w, Some ErrExceedsDeclared)"
  using assms(2,3)
proof (induction ps arbitrary: d)
  case (Cons p ps)
  then show ?case using Write_loop_holds [OF assms(1), of hdr dc c d p 0] Cons.IH [of "d @ p"]
    by (auto simp: Writer_Write_def)
qed simp

lemma write_frame_eq:
  assumes "0 < cs" and "crypter_for gcm dek = Inr c" and "d = concat ps" and "14 * pieces cs d < 2 ^ 32"
  shows "write_frame gcm dek (int cs) (int (length d)) ps = Inr (frame_of (frame_header c cs d) c cs d)"
proof -
  have "int (length (trailer_of c cs d)) \<le> 4294967295" using trailer_bounds(2) [of c cs d] assms(4) by simp
  from Close_holds(3) [OF assms(1) this, of "frame_header c cs d"] show ?thesis
    using Write_all_holds [OF assms(1), of "[]" ps "int (length d)" "frame_header c cs d" c]
    by (auto simp: write_frame_def NewWriter_holds [OF assms(1,2)] assms(3))
qed

section \<open>Properties\<close>

text \<open>
  C39: A frame reads back what was written. However the plaintext is split into writes, and with or without
  encryption, writing it produces a frame, and a reader over the frame returns for every offset and buffer size exactly
  the bytes of the plaintext in that range, with end of file when and only when the buffer was not filled.
\<close>

theorem stream_roundtrip:
  assumes "gcm_lawful gcm" and "\<And>k. dek = Some k \<Longrightarrow> length k = DEKLen"
    and "0 < cs" and "int cs + 16 < 2 ^ 63" and "int (length (concat ps)) < 2 ^ 63"
    and "14 * chunkCount (int (length (concat ps))) (int cs) < 2 ^ 32"
  shows "\<exists>F. write_frame gcm dek (int cs) (int (length (concat ps))) ps = Inr F \<and>
    read_frame gcm dek (serve F) (int (length F)) want (int off) =
      Some (take want (drop off (concat ps)), if length (concat ps) - off < want then Some None else None)"
proof -
  obtain c where c: "crypter_for gcm dek = Inr c" "lawful_opt c" by (rule crypter_for_lawful [OF assms(1,2)])
  let ?d = "concat ps" and ?F = "frame_of (frame_header c cs (concat ps)) c cs (concat ps)"
  have n: "14 * pieces cs ?d < 2 ^ 32" using assms(6) by (simp add: chunkCount_pieces [OF assms(3)])
  then have t: "length (trailer_of c cs ?d) < 2 ^ 32" using trailer_bounds(2) [of c cs ?d] by simp
  have s: "serves (serve ?F) (\<lambda>_ _. True) ?F" by (simp add: serves_def serve_def)
  have "NewReader (serve ?F) gcm (int (length ?F)) dek = Inr (reader_of c cs ?d)"
    by (rule NewReader_frame [OF assms(3) c(2) assms(4,5) t c(1) s refl]) simp_all
  then show ?thesis
    using write_frame_eq [OF assms(3) c(1) refl n] ReadAt_loop_frame [OF assms(3) c(2) s, where p = "[]" and off = off and want = want]
    by (simp add: read_frame_def Reader_ReadAt_def)
qed

text \<open>A cipher for the witnesses: the stored chunk is the plaintext and sixteen zero bytes.\<close>

definition pad_gcm :: "bytes \<Rightarrow> AEAD option" where
  "pad_gcm k = Some \<lparr>NonceSize = 12, Overhead = 16, Seal = (\<lambda>n p. p @ replicate 16 0),
     Open = (\<lambda>n s. Some (take (length s - 16) s))\<rparr>"

lemma pad_gcm_lawful: "gcm_lawful pad_gcm"
  by (simp add: gcm_lawful_def lawful_def pad_gcm_def gcmNonceLen_def gcmTagLen_def)

theorem stream_roundtrip_witness:
  "\<exists>F. write_frame pad_gcm (Some (replicate 32 7)) 2 3 [[1], [2, 3]] = Inr F \<and>
    read_frame pad_gcm (Some (replicate 32 7)) (serve F) (int (length F)) 5 1 = Some ([2, 3], Some None)"
  using stream_roundtrip [OF pad_gcm_lawful, of "Some (replicate 32 7)" 2 "[[1], [2, 3]]" 5 1]
  by (simp add: DEKLen_def chunkCount_def numeral_eq_Suc)

text \<open>
  The size of a frame is known before it is written: whenever a frame is completed, its length is what
  \<^verbatim>\<open>FrameSize\<close> computes from the declared size, the chunk size and whether the object is encrypted.
\<close>

theorem frame_size_predicted:
  assumes "gcm_lawful gcm" and "write_frame gcm dek chunkSize declared ps = Inr F"
  shows "int (length F) = FrameSize declared chunkSize (dek \<noteq> None)"
proof -
  from assms(2) obtain c where pos: "0 \<le> declared" "0 < chunkSize" and c: "crypter_for gcm dek = Inr c"
    by (auto simp: write_frame_def NewWriter_def split: if_splits sum.splits)
  then obtain n cs where n: "declared = int n" "chunkSize = int cs" "0 < cs"
    by (metis nonneg_int_cases order_less_imp_le of_nat_0_less_iff)
  obtain hdr where new: "NewWriter buf_write gcm [] declared chunkSize dek = (hdr, Inr (holds hdr cs declared c []))"
    using pos c by (simp add: NewWriter_def buf_write_def holds_def stored_pieces_def Let_def n)
  have le: "int (length (concat ps)) \<le> declared"
    using assms(2) Write_all_short [OF n(3), of declared "[]" ps hdr c] pos
    by (force simp: write_frame_def new)
  then have all: "Write_all (holds hdr cs declared c []) ps = (holds hdr cs declared c (concat ps), None)"
    using Write_all_holds [OF n(3), of "[]" ps declared hdr c] by simp
  then have eq: "declared = int (length (concat ps))"
    using assms(2) Close_holds(1) [OF n(3), of "concat ps" declared hdr c] by (force simp: write_frame_def new)
  have hdr: "hdr = frame_header c cs (concat ps)"
    using new NewWriter_holds [OF n(3) c, of "concat ps"] by (simp add: eq n(2))
  let ?d = "concat ps"
  show ?thesis
  proof (cases "int (length (trailer_of c cs ?d)) \<le> 4294967295")
    case True
    from Close_holds(3) [OF n(3) this, of hdr] assms(2) have "F = frame_of hdr c cs ?d"
      by (auto simp: write_frame_def new [unfolded eq] all [unfolded eq] eq)
    then show ?thesis
      using FrameSize_frame [OF n(3) crypter_for_Inr(1) [OF assms(1) c], of ?d] crypter_for_Inr(2) [OF assms(1) c]
      by (simp add: eq n(2) hdr)
  next
    case False
    then show ?thesis using Close_holds(2) [OF n(3), of c "concat ps" hdr] assms(2) by (auto simp: write_frame_def new [unfolded eq] all [unfolded eq] eq)
  qed
qed

lemma write_frame_plain_ex:
  "0 < cs \<Longrightarrow> 14 * pieces cs (concat ps) < 2 ^ 32 \<Longrightarrow> \<exists>F. write_frame gcm None (int cs) (int (length (concat ps))) ps = Inr F"
  using write_frame_eq [of cs gcm None None "concat ps" ps] by (simp add: crypter_for_def)

theorem frame_size_predicted_witness:
  "\<exists>F. write_frame pad_gcm None 2 5 [[9, 8, 7], [6, 5]] = Inr F \<and> length F = 32"
proof -
  obtain F where F: "write_frame pad_gcm None 2 5 [[9, 8, 7], [6, 5]] = Inr F"
    using write_frame_plain_ex [of 2 "[[9, 8, 7], [6, 5]]" pad_gcm] by (auto simp: pieces_def chunkCount_def)
  have "FrameSize 5 2 False = 32" by code_simp
  with frame_size_predicted [OF pad_gcm_lawful F] F show ?thesis by auto
qed

text \<open>
  C40: The ranges of \<^verbatim>\<open>Cover\<close> are enough. A reader over storage that delivers the bytes of the frame only
  inside those ranges, and anything at all elsewhere, returns the requested range of the plaintext.
\<close>

theorem cover_suffices:
  assumes "gcm_lawful gcm" and "\<And>k. dek = Some k \<Longrightarrow> length k = DEKLen"
    and "0 < cs" and "int cs + 16 < 2 ^ 63" and "int (length (concat ps)) < 2 ^ 63"
    and "14 * chunkCount (int (length (concat ps))) (int cs) < 2 ^ 32"
    and "int off + int want < 2 ^ 63"
    and "write_frame gcm dek (int cs) (int (length (concat ps))) ps = Inr F"
    and "serves r (covers (Cover (int (length (concat ps))) (int cs) (int off) (int want) (dek \<noteq> None))) F"
  shows "read_frame gcm dek r (int (length F)) want (int off) =
      Some (take want (drop off (concat ps)), if length (concat ps) - off < want then Some None else None)"
proof -
  obtain c where c: "crypter_for gcm dek = Inr c" "lawful_opt c" "c = None \<longleftrightarrow> dek = None"
    by (rule crypter_for_lawful [OF assms(1,2)])
  let ?d = "concat ps" and ?F = "frame_of (frame_header c cs (concat ps)) c cs (concat ps)"
  have n: "14 * pieces cs ?d < 2 ^ 32" using assms(6) by (simp add: chunkCount_pieces [OF assms(3)])
  then have t: "length (trailer_of c cs ?d) < 2 ^ 32" using trailer_bounds(2) [of c cs ?d] by simp
  have F: "F = ?F" using write_frame_eq [OF assms(3) c(1) refl n] assms(8) by simp
  note cover = Cover_covers [OF assms(3) c(2) assms(7) F]
  have s: "serves r (covers (Cover (int (length ?d)) (int cs) (int off) (int want) (c \<noteq> None))) F"
    using assms(9) c(3) by simp
  have "NewReader r gcm (int (length F)) dek = Inr (reader_of c cs ?d)"
    by (rule NewReader_frame [OF assms(3) c(2) assms(4,5) t c(1) s F cover(1,2,3)])
  then show ?thesis
    using ReadAt_loop_frame [OF assms(3) c(2) s [unfolded F] cover(4), where p = "[]" and off = off and want = want]
    by (simp add: read_frame_def Reader_ReadAt_def)
qed

definition sparse :: "Range list \<Rightarrow> bytes \<Rightarrow> int \<Rightarrow> nat \<Rightarrow> bytes" where
  "sparse rs F off n = (if covers rs off (int n) then serve F off n else [])"

theorem cover_suffices_witness:
  "\<exists>F. write_frame pad_gcm None 4 200 [replicate 200 7] = Inr F \<and>
     read_frame pad_gcm None (sparse (Cover 200 4 150 3 False) F) (int (length F)) 3 150 = Some ([7, 7, 7], None)"
proof -
  obtain F where F: "write_frame pad_gcm None 4 200 [replicate 200 7] = Inr F"
    using write_frame_plain_ex [of 4 "[replicate 200 7]" pad_gcm] by (auto simp: pieces_def chunkCount_def)
  have "serves (sparse (Cover 200 4 150 3 False) F) (covers (Cover 200 4 150 3 False)) F"
    by (simp add: serves_def sparse_def serve_def)
  then show ?thesis
    using cover_suffices [OF pad_gcm_lawful, of None 4 "[replicate 200 7]" 150 3 F "sparse (Cover 200 4 150 3 False) F"] F
    by (simp add: chunkCount_def numeral_3_eq_3)
qed

end
