(* ===== verification/Erasure.thy ===== *)
theory Erasure
  imports Data_Stream Wire "HOL-Library.Signed_Division"
begin

text \<open>
  The erasure-coding engine (\<^verbatim>\<open>internal/ec\<close>): storage profiles, the shard header, the stripe
  geometry, the encoder, the reader and the rebuild of lost shards.

  Reed-Solomon (\<^verbatim>\<open>klauspost/reedsolomon\<close>), the protobuf wire functions and SHA-256 are parameters.
  A sink is a state with a write function that says whether the write succeeded, a shard is a function
  from an offset and a length to the bytes it delivers, as in the model of the stream. A running hash is the list of bytes
  it was fed. Go's \<^verbatim>\<open>int\<close> has 64 bits; products and differences of header values are wrapped, divisions round
  towards zero.
\<close>

datatype ec_error =
    EcUnknownProfile | EcParams | EcStriping | EcEmptyFrame | EcSinkCount | EcCodec | EcSinkWrite | EcWriteAfterClose
  | EcExceedsDeclared | EcClosedTwice | EcTooFewBytes | EcEncode | EcShortRead | EcBadMagic | EcCorruptHeader
  | EcMisplaced | EcSlots | EcMixed | EcNoShards | EcTooFewShards | EcNegativeOffset | EcReconstruct | EcRebuildSlots
  | EcChecksumSlots | EcSourceAndTarget | EcNoRedundancy | EcSourceChecksum | EcRebuiltChecksum | EcPanic

section \<open>Profiles\<close>

record Profile =
  pf_Name :: gostring
  pf_Data :: int
  pf_Parity :: int

definition mk_profile :: "string \<Rightarrow> int \<Rightarrow> int \<Rightarrow> Profile" where
  "mk_profile n k m = \<lparr>pf_Name = str n, pf_Data = k, pf_Parity = m\<rparr>"

definition Profiles :: "Profile list" where
  "Profiles = [mk_profile ''1+0'' 1 0, mk_profile ''1+1'' 1 1, mk_profile ''2+1'' 2 1, mk_profile ''3+2'' 3 2,
     mk_profile ''4+2'' 4 2]"

definition AutoProfile :: "int \<Rightarrow> Profile" where
  "AutoProfile nodes =
     (if nodes \<le> 1 then Profiles ! 0
      else if nodes = 2 then Profiles ! 1
      else if nodes \<le> 4 then Profiles ! 2
      else if nodes = 5 then Profiles ! 3
      else Profiles ! 4)"

definition ProfileByName :: "gostring \<Rightarrow> ec_error + Profile" where
  "ProfileByName name =
     (case find (\<lambda>p. pf_Name p = name) Profiles of None \<Rightarrow> Inl EcUnknownProfile | Some p \<Rightarrow> Inr p)"

definition SmallObjectThreshold :: int where
  "SmallObjectThreshold = 131072"

definition Profile_Nodes :: "Profile \<Rightarrow> int" where
  "Profile_Nodes p = pf_Data p + pf_Parity p"

definition Profile_Params :: "Profile \<Rightarrow> int \<Rightarrow> int \<times> int" where
  "Profile_Params p plaintextSize =
     (if plaintextSize < SmallObjectThreshold \<and> pf_Data p > 1 then (1, pf_Parity p) else (pf_Data p, pf_Parity p))"

section \<open>The shard header\<close>

record shardHeader =
  sh_id :: version_id
  sh_index :: int
  sh_k :: int
  sh_m :: int
  sh_sliceSize :: int
  sh_frameSize :: int

definition shardMagic :: bytes where
  "shardMagic = str ''HMS1''"

definition shardFormatVersion :: u64 where
  "shardFormatVersion = 1"

definition put_varint :: "protowire \<Rightarrow> nat \<Rightarrow> u64 \<Rightarrow> bytes \<Rightarrow> bytes" where
  "put_varint pw num v p = AppendVarint pw (AppendTag pw p num VarintType) v"

definition shard_message :: "protowire \<Rightarrow> shardHeader \<Rightarrow> bytes" where
  "shard_message pw h =
     (let p = put_varint pw 1 shardFormatVersion [];
          p = AppendBytes pw (AppendTag pw p 2 BytesType) (vid_bytes (sh_id h));
          p = put_varint pw 3 (word_of_int (sh_index h)) p;
          p = put_varint pw 4 (word_of_int (sh_k h)) p;
          p = put_varint pw 5 (word_of_int (sh_m h)) p;
          p = put_varint pw 6 (word_of_int (sh_sliceSize h)) p
      in put_varint pw 7 (word_of_int (sh_frameSize h)) p)"

definition encodeShard :: "protowire \<Rightarrow> shardHeader \<Rightarrow> bytes" where
  "encodeShard pw h =
     (let p = shard_message pw h in shardMagic @ le_u32 (word_of_nat (length p)) @ p)"

definition readFull :: "(int \<Rightarrow> nat \<Rightarrow> bytes) \<Rightarrow> int \<Rightarrow> nat \<Rightarrow> ec_error + bytes" where
  "readFull r off n = (let p = r off n in if length p < n then Inl EcShortRead else Inr p)"

definition validateParams :: "int \<Rightarrow> int \<Rightarrow> ec_error option" where
  "validateParams k m =
     (if k < 1 \<or> m < 0 \<or> wrap64 (k + m) > 256 then Some EcParams
      else if m = 0 \<and> k \<noteq> 1 then Some EcStriping
      else None)"

definition set_field :: "nat \<Rightarrow> u64 \<Rightarrow> shardHeader \<times> u64 \<Rightarrow> shardHeader \<times> u64" where
  "set_field num v hv =
     (let (h, version) = hv
      in if num = 1 then (h, v)
         else if num = 3 then (h\<lparr>sh_index := sint v\<rparr>, version)
         else if num = 4 then (h\<lparr>sh_k := sint v\<rparr>, version)
         else if num = 5 then (h\<lparr>sh_m := sint v\<rparr>, version)
         else if num = 6 then (h\<lparr>sh_sliceSize := sint v\<rparr>, version)
         else if num = 7 then (h\<lparr>sh_frameSize := sint v\<rparr>, version)
         else (h, version))"

text \<open>The field loop of \<^verbatim>\<open>decodeShard\<close>; the second component is \<^verbatim>\<open>version\<close>. Not returning is \<open>None\<close>.\<close>

partial_function (option) shard_fields ::
    "protowire \<Rightarrow> bytes \<Rightarrow> shardHeader \<times> u64 \<Rightarrow> (ec_error + shardHeader \<times> u64) option" where
  "shard_fields pw p hv =
     (if p = [] then Some (Inr hv)
      else case ConsumeTag pw p of
             None \<Rightarrow> Some (Inl EcCorruptHeader)
           | Some t \<Rightarrow>
               (let num = fst t; typ = fst (snd t); p = drop (snd (snd t)) p
                in if num = 2 \<and> typ = BytesType
                   then case ConsumeBytes pw p of
                          None \<Rightarrow> Some (Inl EcCorruptHeader)
                        | Some b \<Rightarrow>
                            if length (fst b) \<noteq> 16 then Some (Inl EcCorruptHeader)
                            else shard_fields pw (drop (snd b) p) (fst hv\<lparr>sh_id := vid_of_bytes (fst b)\<rparr>, snd hv)
                   else if typ = VarintType
                   then case ConsumeVarint pw p of
                          None \<Rightarrow> Some (Inl EcCorruptHeader)
                        | Some v \<Rightarrow> shard_fields pw (drop (snd v) p) (set_field num (fst v) hv)
                   else case ConsumeFieldValue pw num typ p of
                          None \<Rightarrow> Some (Inl EcCorruptHeader)
                        | Some n \<Rightarrow> shard_fields pw (drop n p) hv))"

definition shardHeader_zero :: shardHeader where
  "shardHeader_zero = \<lparr>sh_id = 0, sh_index = 0, sh_k = 0, sh_m = 0, sh_sliceSize = 0, sh_frameSize = 0\<rparr>"

definition check_header :: "shardHeader \<times> u64 \<Rightarrow> ec_error + shardHeader" where
  "check_header hv =
     (let (h, version) = hv
      in if version = 0 then Inl EcCorruptHeader
         else case validateParams (sh_k h) (sh_m h) of
                Some e \<Rightarrow> Inl e
              | None \<Rightarrow>
                  if sh_index h < 0 \<or> sh_index h \<ge> wrap64 (sh_k h + sh_m h) \<or> sh_sliceSize h \<le> 0 \<or> sh_frameSize h \<le> 0
                  then Inl EcCorruptHeader else Inr h)"

definition decodeShard :: "protowire \<Rightarrow> (int \<Rightarrow> nat \<Rightarrow> bytes) \<Rightarrow> (ec_error + shardHeader \<times> int) option" where
  "decodeShard pw r =
     (case readFull r 0 8 of
        Inl e \<Rightarrow> Some (Inl e)
      | Inr front \<Rightarrow>
          if take 4 front \<noteq> shardMagic then Some (Inl EcBadMagic)
          else
            let hdrLen = uint (u32_of_le (drop 4 front))
            in if hdrLen > 1048576 then Some (Inl EcCorruptHeader)
               else case readFull r 8 (nat hdrLen) of
                      Inl e \<Rightarrow> Some (Inl e)
                    | Inr p \<Rightarrow>
                        map_option (\<lambda>res. bind_res res (\<lambda>hv. bind_res (check_header hv) (\<lambda>h. Inr (h, 8 + hdrLen))))
                          (shard_fields pw p (shardHeader_zero, 0)))"

record Header =
  hd_ID :: version_id
  hd_Index :: int
  hd_Data :: int
  hd_Parity :: int
  hd_SliceSize :: int
  hd_FrameSize :: int
  hd_PayloadOffset :: int

definition ReadHeader :: "protowire \<Rightarrow> (int \<Rightarrow> nat \<Rightarrow> bytes) \<Rightarrow> (ec_error + Header) option" where
  "ReadHeader pw r =
     map_option (\<lambda>res. bind_res res (\<lambda>(h, payload).
        Inr \<lparr>hd_ID = sh_id h, hd_Index = sh_index h, hd_Data = sh_k h, hd_Parity = sh_m h, hd_SliceSize = sh_sliceSize h,
             hd_FrameSize = sh_frameSize h, hd_PayloadOffset = payload\<rparr>)) (decodeShard pw r)"

section \<open>Stripe geometry\<close>

record geometry =
  g_k :: int
  g_m :: int
  g_sliceSize :: int
  g_frameSize :: int

text \<open>
  The product \<^verbatim>\<open>int64(k) * sliceSize\<close> that the geometry divides by. Zero is a division panic, which the callers below
  test for before they use the geometry.
\<close>

definition stripeBytes :: "geometry \<Rightarrow> int" where
  "stripeBytes g = wrap64 (g_k g * g_sliceSize g)"

definition fullStripes :: "geometry \<Rightarrow> int" where
  "fullStripes g = g_frameSize g sdiv stripeBytes g"

definition lastLen :: "geometry \<Rightarrow> int" where
  "lastLen g =
     (let rem = g_frameSize g smod stripeBytes g in if rem = 0 then 0 else (rem - 1) sdiv g_k g + 1)"

definition stripes :: "geometry \<Rightarrow> int" where
  "stripes g = (let n = fullStripes g in if lastLen g > 0 then n + 1 else n)"

definition stripeSlice :: "geometry \<Rightarrow> int \<Rightarrow> int \<times> int" where
  "stripeSlice g si =
     (if si < fullStripes g then (g_sliceSize g, wrap64 (si * g_sliceSize g))
      else (lastLen g, wrap64 (fullStripes g * g_sliceSize g)))"

definition geometry_stripeData :: "geometry \<Rightarrow> int \<Rightarrow> int" where
  "geometry_stripeData g si =
     (if si < fullStripes g then stripeBytes g
      else wrap64 (g_frameSize g - wrap64 (wrap64 (fullStripes g * g_k g) * g_sliceSize g)))"

section \<open>Encoding\<close>

text \<open>
  \<^verbatim>\<open>reedsolomon.Encoder\<close>. \<open>Encode\<close> fills the parity slices behind the data slices; the two rebuilds fill the missing
  (\<open>None\<close>) slices. \<open>None\<close> as a result is an error. \<open>New k m\<close> is \<^verbatim>\<open>reedsolomon.New\<close>.
\<close>

record RS =
  Encode :: "bytes list \<Rightarrow> bytes list option"
  ReconstructData :: "bytes option list \<Rightarrow> bytes option list option"
  ReconstructAll :: "bytes option list \<Rightarrow> bytes option list option"

record 's EcWriter =
  ew_geo :: geometry
  ew_rs :: "RS option"
  ew_sinks :: "'s list"
  ew_hashes :: "bytes list"
  ew_stripe :: bytes
  ew_parity :: bytes
  ew_written :: int
  ew_closed :: bool

text \<open>One buffer to each sink and its hash (\<^verbatim>\<open>io.MultiWriter\<close>), up to the first failing sink.\<close>

fun write_sinks :: "('s \<Rightarrow> bytes \<Rightarrow> 's \<times> bool) \<Rightarrow> bytes list \<Rightarrow> 's list \<Rightarrow> bytes list \<Rightarrow> 's list \<times> bytes list \<times> bool" where
  "write_sinks wr (b # bs) (s # ss) (h # hs) =
     (let (s', ok) = wr s b
      in if \<not> ok then (s' # ss, h # hs, False)
         else let (ss', hs', ok) = write_sinks wr bs ss hs in (s' # ss', (h @ b) # hs', ok))"
| "write_sinks wr _ ss hs = (ss, hs, True)"

definition shard_header :: "version_id \<Rightarrow> geometry \<Rightarrow> nat \<Rightarrow> shardHeader" where
  "shard_header i g j =
     \<lparr>sh_id = i, sh_index = int j, sh_k = g_k g, sh_m = g_m g, sh_sliceSize = g_sliceSize g, sh_frameSize = g_frameSize g\<rparr>"

definition new_codec :: "(int \<Rightarrow> int \<Rightarrow> RS option) \<Rightarrow> int \<Rightarrow> int \<Rightarrow> ec_error + RS option" where
  "new_codec New k m =
     (if m > 0 then case New k m of None \<Rightarrow> Inl EcCodec | Some rs \<Rightarrow> Inr (Some rs) else Inr None)"

definition ec_NewWriter ::
    "('s \<Rightarrow> bytes \<Rightarrow> 's \<times> bool) \<Rightarrow> protowire \<Rightarrow> (int \<Rightarrow> int \<Rightarrow> RS option) \<Rightarrow> int \<Rightarrow> version_id \<Rightarrow> int \<Rightarrow> int \<Rightarrow> int \<Rightarrow> 's list
       \<Rightarrow> 's list \<times> (ec_error + 's EcWriter)" where
  "ec_NewWriter wr pw New sliceSize i k m frameSize shards =
     (case validateParams k m of
        Some e \<Rightarrow> (shards, Inl e)
      | None \<Rightarrow>
          if frameSize \<le> 0 then (shards, Inl EcEmptyFrame)
          else if int (length shards) \<noteq> wrap64 (k + m) then (shards, Inl EcSinkCount)
          else
            let g = \<lparr>g_k = k, g_m = m, g_sliceSize = sliceSize, g_frameSize = frameSize\<rparr>
            in case new_codec New k m of
                 Inl e \<Rightarrow> (shards, Inl e)
               | Inr rs \<Rightarrow>
                   let (sinks, hashes, ok) =
                         write_sinks wr (map (\<lambda>j. encodeShard pw (shard_header i g j)) [0..<length shards]) shards
                           (replicate (length shards) [])
                   in if \<not> ok then (sinks, Inl EcSinkWrite)
                      else (sinks, Inr \<lparr>ew_geo = g, ew_rs = rs, ew_sinks = sinks, ew_hashes = hashes, ew_stripe = [],
                              ew_parity = replicate (nat (m * sliceSize)) 0, ew_written = 0, ew_closed = False\<rparr>))"

text \<open>The slices \<^verbatim>\<open>b[i*l : (i+1)*l]\<close> for \<open>i\<close> below \<open>n\<close>.\<close>

definition slice_up :: "nat \<Rightarrow> nat \<Rightarrow> bytes \<Rightarrow> bytes list" where
  "slice_up n l b = map (\<lambda>i. take l (drop (i * l) b)) [0..<n]"

definition encodeStripe :: "('s \<Rightarrow> bytes \<Rightarrow> 's \<times> bool) \<Rightarrow> 's EcWriter \<Rightarrow> int \<Rightarrow> 's EcWriter \<times> ec_error option" where
  "encodeStripe wr w l =
     (let k = nat (g_k (ew_geo w)); m = nat (g_m (ew_geo w));
          bufs = slice_up k (nat l) (ew_stripe w) @ slice_up m (nat l) (ew_parity w)
      in case (case ew_rs w of None \<Rightarrow> Some bufs | Some rs \<Rightarrow> Encode rs bufs) of
           None \<Rightarrow> (w, Some EcEncode)
         | Some bufs \<Rightarrow>
             let (sinks, hashes, ok) = write_sinks wr bufs (ew_sinks w) (ew_hashes w);
                 w = w\<lparr>ew_sinks := sinks, ew_hashes := hashes,
                        ew_parity := concat (drop k bufs) @ drop (m * nat l) (ew_parity w)\<rparr>
             in if \<not> ok then (w, Some EcSinkWrite) else (w\<lparr>ew_stripe := []\<rparr>, None))"

text \<open>
  The loop of \<^verbatim>\<open>Write\<close>. A stripe left full by a failed write is encoded again before more bytes are taken. The stripe
  size of a writer is positive (\<^verbatim>\<open>validateParams\<close>, and a constant slice size), so the first branch is not reached.
\<close>

lemma encodeStripe_empties: "encodeStripe wr w l = (w', None) \<Longrightarrow> ew_stripe w' = [] \<and> ew_geo w' = ew_geo w"
  by (auto simp: encodeStripe_def Let_def split: prod.splits option.splits if_splits)

function ec_Write_loop ::
    "('s \<Rightarrow> bytes \<Rightarrow> 's \<times> bool) \<Rightarrow> 's EcWriter \<Rightarrow> bytes \<Rightarrow> int \<Rightarrow> 's EcWriter \<times> int \<times> ec_error option" where
  "ec_Write_loop wr w p n =
     (if p = [] then (w, n, None)
      else
        let full = stripeBytes (ew_geo w);
            tk = min (full - int (length (ew_stripe w))) (int (length p))
        in if tk < 0 \<or> full \<le> 0 then (w, n, Some EcPanic)
           else
             let w1 = w\<lparr>ew_stripe := ew_stripe w @ take (nat tk) p, ew_written := ew_written w + tk\<rparr>
             in if length (ew_stripe w1) = nat full
                then case encodeStripe wr w1 (g_sliceSize (ew_geo w)) of
                       (w2, Some e) \<Rightarrow> (w2, n + tk, Some e)
                     | (w2, None) \<Rightarrow> ec_Write_loop wr w2 (drop (nat tk) p) (n + tk)
                else ec_Write_loop wr w1 (drop (nat tk) p) (n + tk))"
  by pat_completeness auto
termination
proof (relation "measure (\<lambda>(wr, w, p, n). 2 * length p + (if int (length (ew_stripe w)) = stripeBytes (ew_geo w) then 1 else 0))",
    goal_cases)
  case (2 wr w p n full tk w1 w2)
  then have "ew_stripe w2 = []" "ew_geo w2 = ew_geo w" using encodeStripe_empties [of wr w1 _ w2] by simp_all
  with 2 show ?case by (cases "tk = 0") (auto simp: min_def split: if_splits)
next
  case (3 wr w p n full tk w1)
  then show ?case by (cases "tk = 0") (auto simp: min_def split: if_splits)
qed simp

declare ec_Write_loop.simps [simp del]

definition ec_Write :: "('s \<Rightarrow> bytes \<Rightarrow> 's \<times> bool) \<Rightarrow> 's EcWriter \<Rightarrow> bytes \<Rightarrow> 's EcWriter \<times> int \<times> ec_error option" where
  "ec_Write wr w p =
     (if ew_closed w then (w, 0, Some EcWriteAfterClose)
      else if ew_written w + int (length p) > g_frameSize (ew_geo w) then (w, 0, Some EcExceedsDeclared)
      else ec_Write_loop wr w p 0)"

definition ec_Close :: "('s \<Rightarrow> bytes \<Rightarrow> 's \<times> bool) \<Rightarrow> 's EcWriter \<Rightarrow> 's EcWriter \<times> ec_error option" where
  "ec_Close wr w =
     (if ew_closed w then (w, Some EcClosedTwice)
      else
        let w = w\<lparr>ew_closed := True\<rparr>
        in if ew_written w \<noteq> g_frameSize (ew_geo w) then (w, Some EcTooFewBytes)
           else if length (ew_stripe w) > 0
           then let l = lastLen (ew_geo w);
                    pad = nat (g_k (ew_geo w) * l - int (length (ew_stripe w)))
                in encodeStripe wr (w\<lparr>ew_stripe := ew_stripe w @ replicate pad 0\<rparr>) l
           else (w, None))"

definition Checksums :: "(bytes \<Rightarrow> bytes) \<Rightarrow> 's EcWriter \<Rightarrow> bytes list" where
  "Checksums sha256 w = map sha256 (ew_hashes w)"

section \<open>Reading any k shards\<close>

type_synonym shard = "int \<Rightarrow> nat \<Rightarrow> bytes"

record EcReader =
  er_geo :: geometry
  er_id :: version_id
  er_rs :: "RS option"
  er_shards :: "shard option list"
  er_offs :: "int list"
  er_cachedIdx :: int
  er_cached :: bytes

text \<open>The variables of the loop that opens the shards: \<^verbatim>\<open>present\<close>, \<^verbatim>\<open>r.geo\<close>, \<^verbatim>\<open>r.id\<close>, \<^verbatim>\<open>r.offs\<close>.\<close>

record open_state =
  os_present :: int
  os_geo :: geometry
  os_id :: version_id
  os_offs :: "int list"

definition header_geometry :: "shardHeader \<Rightarrow> geometry" where
  "header_geometry h =
     \<lparr>g_k = sh_k h, g_m = sh_m h, g_sliceSize = sh_sliceSize h, g_frameSize = sh_frameSize h\<rparr>"

text \<open>One present shard \<open>i\<close> of \<open>n\<close> slots, with its decoded header and payload offset.\<close>

definition open_shard :: "nat \<Rightarrow> nat \<Rightarrow> shardHeader \<times> int \<Rightarrow> open_state \<Rightarrow> ec_error + open_state" where
  "open_shard n i ho st =
     (let (h, off) = ho; g = header_geometry h
      in if sh_index h \<noteq> int i then Inl EcMisplaced
         else if os_present st = 0
         then if int n \<noteq> sh_k h + sh_m h then Inl EcSlots
              else Inr \<lparr>os_present = 1, os_geo = g, os_id = sh_id h,
                        os_offs = (replicate (nat (sh_k h + sh_m h)) (- 1))[i := off]\<rparr>
         else if g \<noteq> os_geo st \<or> sh_id h \<noteq> os_id st then Inl EcMixed
         else Inr (st\<lparr>os_present := os_present st + 1, os_offs := (os_offs st)[i := off]\<rparr>))"

fun open_loop ::
    "protowire \<Rightarrow> nat \<Rightarrow> nat \<Rightarrow> shard option list \<Rightarrow> open_state \<Rightarrow> (ec_error + open_state) option" where
  "open_loop pw n i [] st = Some (Inr st)"
| "open_loop pw n i (None # ss) st = open_loop pw n (Suc i) ss st"
| "open_loop pw n i (Some s # ss) st =
     (case decodeShard pw s of
        None \<Rightarrow> None
      | Some (Inl e) \<Rightarrow> Some (Inl e)
      | Some (Inr ho) \<Rightarrow>
          (case open_shard n i ho st of
             Inl e \<Rightarrow> Some (Inl e)
           | Inr st \<Rightarrow> open_loop pw n (Suc i) ss st))"

definition open_start :: open_state where
  "open_start = \<lparr>os_present = 0, os_geo = \<lparr>g_k = 0, g_m = 0, g_sliceSize = 0, g_frameSize = 0\<rparr>, os_id = 0, os_offs = []\<rparr>"

definition open_finish ::
    "(int \<Rightarrow> int \<Rightarrow> RS option) \<Rightarrow> shard option list \<Rightarrow> open_state \<Rightarrow> ec_error + EcReader" where
  "open_finish New shards st =
     (if os_present st = 0 then Inl EcNoShards
      else if os_present st < g_k (os_geo st) then Inl EcTooFewShards
      else bind_res (new_codec New (g_k (os_geo st)) (g_m (os_geo st))) (\<lambda>rs.
        Inr \<lparr>er_geo = os_geo st, er_id = os_id st, er_rs = rs, er_shards = shards, er_offs = os_offs st,
             er_cachedIdx = - 1, er_cached = []\<rparr>))"

definition ec_NewReader ::
    "protowire \<Rightarrow> (int \<Rightarrow> int \<Rightarrow> RS option) \<Rightarrow> shard option list \<Rightarrow> (ec_error + EcReader) option" where
  "ec_NewReader pw New shards =
     map_option (\<lambda>res. bind_res res (open_finish New shards)) (open_loop pw (length shards) 0 shards open_start)"

text \<open>The closure \<^verbatim>\<open>read\<close>: the slice of shard \<open>i\<close>. A negative length and a missing shard are panics.\<close>

definition read_slice :: "EcReader \<Rightarrow> int \<times> int \<Rightarrow> nat \<Rightarrow> ec_error + bytes" where
  "read_slice r ls i =
     (case er_shards r ! i of
        None \<Rightarrow> Inl EcPanic
      | Some s \<Rightarrow>
          if fst ls < 0 then Inl EcPanic else readFull s (wrap64 (er_offs r ! i + snd ls)) (nat (fst ls)))"

fun read_each :: "(nat \<Rightarrow> ec_error + bytes) \<Rightarrow> nat list \<Rightarrow> ec_error + bytes option list" where
  "read_each rd [] = Inr []"
| "read_each rd (i # js) =
     (case rd i of
        Inl e \<Rightarrow> Inl e
      | Inr b \<Rightarrow> (case read_each rd js of Inl e \<Rightarrow> Inl e | Inr bs \<Rightarrow> Inr (Some b # bs)))"

text \<open>The gathering loop: the slices of the first \<open>k\<close> present shards, the others missing.\<close>

fun gather :: "(nat \<Rightarrow> ec_error + bytes) \<Rightarrow> (nat \<Rightarrow> bool) \<Rightarrow> int \<Rightarrow> int \<Rightarrow> nat list \<Rightarrow> ec_error + bytes option list" where
  "gather rd absent k got [] = Inr []"
| "gather rd absent k got (i # js) =
     (if absent i \<or> got = k
      then (case gather rd absent k got js of Inl e \<Rightarrow> Inl e | Inr bs \<Rightarrow> Inr (None # bs))
      else case rd i of
             Inl e \<Rightarrow> Inl e
           | Inr b \<Rightarrow> (case gather rd absent k (got + 1) js of Inl e \<Rightarrow> Inl e | Inr bs \<Rightarrow> Inr (Some b # bs)))"

definition stripe_slices :: "EcReader \<Rightarrow> int \<Rightarrow> ec_error + bytes option list" where
  "stripe_slices r si =
     (let g = er_geo r; k = nat (g_k g); n = nat (g_k g + g_m g); ls = stripeSlice g si
      in if \<not> (\<exists>i < k. er_offs r ! i < 0)
         then bind_res (read_each (read_slice r ls) [0..<k]) (\<lambda>bs. Inr (bs @ replicate (n - k) None))
         else bind_res (gather (read_slice r ls) (\<lambda>i. er_offs r ! i < 0) (g_k g) 0 [0..<n]) (\<lambda>bs.
           case er_rs r of
             None \<Rightarrow> Inl EcPanic
           | Some rs \<Rightarrow> (case ReconstructData rs bs of None \<Rightarrow> Inl EcReconstruct | Some bs \<Rightarrow> Inr bs)))"

text \<open>\<^verbatim>\<open>bytes.Join\<close> of the data slices, a nil slice being empty.\<close>

definition join_data :: "nat \<Rightarrow> bytes option list \<Rightarrow> bytes" where
  "join_data k bs = concat (map (\<lambda>b. case b of None \<Rightarrow> [] | Some x \<Rightarrow> x) (take k bs))"

definition ec_stripeData :: "EcReader \<Rightarrow> int \<Rightarrow> EcReader \<times> (ec_error + bytes)" where
  "ec_stripeData r si =
     (if si = er_cachedIdx r then (r, Inr (er_cached r))
      else case stripe_slices r si of
             Inl e \<Rightarrow> (r, Inl e)
           | Inr bs \<Rightarrow>
               let data = join_data (nat (g_k (er_geo r))) bs; n = geometry_stripeData (er_geo r) si
               in if n < 0 \<or> n > int (length data) then (r, Inl EcPanic)
                  else let data = take (nat n) data in (r\<lparr>er_cachedIdx := si, er_cached := data\<rparr>, Inr data))"

partial_function (option) ec_ReadAt_loop ::
    "EcReader \<Rightarrow> nat \<Rightarrow> bytes \<Rightarrow> int \<Rightarrow> (EcReader \<times> bytes \<times> ec_error option option) option" where
  "ec_ReadAt_loop r want p off =
     (if length p < want \<and> off < g_frameSize (er_geo r)
      then let sb = stripeBytes (er_geo r)
           in if sb = 0 then Some (r, p, Some (Some EcPanic))
              else let si = off sdiv sb; res = ec_stripeData r si
                   in case snd res of
                        Inl e \<Rightarrow> Some (fst res, p, Some (Some e))
                      | Inr data \<Rightarrow>
                          (let d = wrap64 (off - wrap64 (si * sb))
                           in if d < 0 \<or> d > int (length data) then Some (fst res, p, Some (Some EcPanic))
                              else let c = take (want - length p) (drop (nat d) data)
                                   in ec_ReadAt_loop (fst res) want (p @ c) (off + int (length c)))
      else Some (r, p, if length p < want then Some None else None))"

definition ec_ReadAt :: "EcReader \<Rightarrow> nat \<Rightarrow> int \<Rightarrow> (EcReader \<times> bytes \<times> ec_error option option) option" where
  "ec_ReadAt r want off =
     (if off < 0 then Some (r, [], Some (Some EcNegativeOffset)) else ec_ReadAt_loop r want [] off)"

section \<open>Rebuilding lost shards\<close>

text \<open>
  The rebuild targets (\<open>None\<close> where there is none), and the hashes: the bytes each hash was fed, \<open>None\<close> for a nil
  hash.
\<close>

record 's rebuild_state =
  rb_sinks :: "'s option list"
  rb_hashes :: "bytes option list"

definition feed :: "nat \<Rightarrow> bytes \<Rightarrow> 's rebuild_state \<Rightarrow> 's rebuild_state" where
  "feed i b st =
     st\<lparr>rb_hashes := (rb_hashes st)[i := Some ((case rb_hashes st ! i of None \<Rightarrow> [] | Some h \<Rightarrow> h) @ b)]\<rparr>"

text \<open>\<^verbatim>\<open>sinks[i].Write\<close>: the target, then its hash.\<close>

definition emit :: "('s \<Rightarrow> bytes \<Rightarrow> 's \<times> bool) \<Rightarrow> nat \<Rightarrow> 's \<Rightarrow> bytes \<Rightarrow> 's rebuild_state \<Rightarrow> 's rebuild_state \<times> bool" where
  "emit wr i s b st =
     (let (s', ok) = wr s b; st = st\<lparr>rb_sinks := (rb_sinks st)[i := Some s']\<rparr>
      in if ok then (feed i b st, True) else (st, False))"

fun rebuild_headers ::
    "('s \<Rightarrow> bytes \<Rightarrow> 's \<times> bool) \<Rightarrow> protowire \<Rightarrow> EcReader \<Rightarrow> nat list \<Rightarrow> 's rebuild_state \<Rightarrow> 's rebuild_state \<times> ec_error option" where
  "rebuild_headers wr pw r [] st = (st, None)"
| "rebuild_headers wr pw r (i # js) st =
     (case er_shards r ! i of
        Some s \<Rightarrow>
          (case readFull s 0 (nat (er_offs r ! i)) of
             Inl e \<Rightarrow> (st, Some e)
           | Inr hdr \<Rightarrow> rebuild_headers wr pw r js (feed i hdr st))
      | None \<Rightarrow>
          (case rb_sinks st ! i of
             None \<Rightarrow> rebuild_headers wr pw r js st
           | Some s \<Rightarrow>
               (case emit wr i s (encodeShard pw (shard_header (er_id r) (er_geo r) i)) st of
                  (st, False) \<Rightarrow> (st, Some EcSinkWrite)
                | (st, True) \<Rightarrow> rebuild_headers wr pw r js st)))"

text \<open>The survivors' slices of one stripe, hashed as they are read.\<close>

fun read_survivors ::
    "EcReader \<Rightarrow> int \<times> int \<Rightarrow> nat list \<Rightarrow> 's rebuild_state \<Rightarrow> 's rebuild_state \<times> (ec_error + bytes option list)" where
  "read_survivors r ls [] st = (st, Inr [])"
| "read_survivors r ls (i # js) st =
     (case er_shards r ! i of
        None \<Rightarrow>
          (case read_survivors r ls js st of (st, Inl e) \<Rightarrow> (st, Inl e) | (st, Inr bs) \<Rightarrow> (st, Inr (None # bs)))
      | Some s \<Rightarrow>
          (case read_slice r ls i of
             Inl e \<Rightarrow> (st, Inl e)
           | Inr b \<Rightarrow>
               (case read_survivors r ls js (feed i b st) of
                  (st, Inl e) \<Rightarrow> (st, Inl e)
                | (st, Inr bs) \<Rightarrow> (st, Inr (Some b # bs)))))"

fun emit_slices ::
    "('s \<Rightarrow> bytes \<Rightarrow> 's \<times> bool) \<Rightarrow> bytes option list \<Rightarrow> nat list \<Rightarrow> 's rebuild_state \<Rightarrow> 's rebuild_state \<times> ec_error option" where
  "emit_slices wr bs [] st = (st, None)"
| "emit_slices wr bs (i # js) st =
     (case rb_sinks st ! i of
        None \<Rightarrow> emit_slices wr bs js st
      | Some s \<Rightarrow>
          (case emit wr i s (case bs ! i of None \<Rightarrow> [] | Some b \<Rightarrow> b) st of
             (st, False) \<Rightarrow> (st, Some EcSinkWrite)
           | (st, True) \<Rightarrow> emit_slices wr bs js st))"

definition rebuild_stripe ::
    "('s \<Rightarrow> bytes \<Rightarrow> 's \<times> bool) \<Rightarrow> RS \<Rightarrow> EcReader \<Rightarrow> int \<Rightarrow> 's rebuild_state \<Rightarrow> 's rebuild_state \<times> ec_error option" where
  "rebuild_stripe wr rs r si st =
     (let n = length (er_shards r)
      in case read_survivors r (stripeSlice (er_geo r) si) [0..<n] st of
           (st, Inl e) \<Rightarrow> (st, Some e)
         | (st, Inr bs) \<Rightarrow>
             (case ReconstructAll rs bs of
                None \<Rightarrow> (st, Some EcReconstruct)
              | Some bs \<Rightarrow> emit_slices wr bs [0..<n] st))"

fun rebuild_stripes ::
    "('s \<Rightarrow> bytes \<Rightarrow> 's \<times> bool) \<Rightarrow> RS \<Rightarrow> EcReader \<Rightarrow> nat list \<Rightarrow> 's rebuild_state \<Rightarrow> 's rebuild_state \<times> ec_error option" where
  "rebuild_stripes wr rs r [] st = (st, None)"
| "rebuild_stripes wr rs r (si # sis) st =
     (case rebuild_stripe wr rs r (int si) st of
        (st, Some e) \<Rightarrow> (st, Some e)
      | (st, None) \<Rightarrow> rebuild_stripes wr rs r sis st)"

text \<open>The final verdict over the indices, in order.\<close>

fun verdict ::
    "(bytes \<Rightarrow> bytes) \<Rightarrow> shard option list \<Rightarrow> bytes list \<Rightarrow> bytes option list \<Rightarrow> nat list \<Rightarrow> ec_error option" where
  "verdict sha256 shards checksums hashes [] = None"
| "verdict sha256 shards checksums hashes (i # js) =
     (case hashes ! i of
        None \<Rightarrow> verdict sha256 shards checksums hashes js
      | Some h \<Rightarrow>
          if length (checksums ! i) = 0 then verdict sha256 shards checksums hashes js
          else if sha256 h \<noteq> checksums ! i
          then Some (if shards ! i \<noteq> None then EcSourceChecksum else EcRebuiltChecksum)
          else verdict sha256 shards checksums hashes js)"

definition both_roles :: "shard option list \<Rightarrow> 's option list \<Rightarrow> bool" where
  "both_roles shards targets \<longleftrightarrow> (\<exists>i < length shards. targets ! i \<noteq> None \<and> shards ! i \<noteq> None)"

text \<open>The result is the targets and the error; not returning is \<open>None\<close>.\<close>

definition Reconstruct ::
    "('s \<Rightarrow> bytes \<Rightarrow> 's \<times> bool) \<Rightarrow> protowire \<Rightarrow> (int \<Rightarrow> int \<Rightarrow> RS option) \<Rightarrow> (bytes \<Rightarrow> bytes) \<Rightarrow> shard option list \<Rightarrow>
       bytes list option \<Rightarrow> 's option list \<Rightarrow> ('s option list \<times> ec_error option) option" where
  "Reconstruct wr pw New sha256 shards checksums targets =
     (if length targets \<noteq> length shards then Some (targets, Some EcRebuildSlots)
      else if (case checksums of None \<Rightarrow> False | Some cs \<Rightarrow> length cs \<noteq> length shards) then Some (targets, Some EcChecksumSlots)
      else if both_roles shards targets then Some (targets, Some EcSourceAndTarget)
      else case ec_NewReader pw New shards of
             None \<Rightarrow> None
           | Some (Inl e) \<Rightarrow> Some (targets, Some e)
           | Some (Inr r) \<Rightarrow>
               (case er_rs r of
                  None \<Rightarrow> Some (targets, Some EcNoRedundancy)
                | Some rs \<Rightarrow>
                    (let n = length shards
                     in case rebuild_headers wr pw r [0..<n] \<lparr>rb_sinks = targets, rb_hashes = replicate n None\<rparr> of
                          (st, Some e) \<Rightarrow> Some (rb_sinks st, Some e)
                        | (st, None) \<Rightarrow>
                            if stripeBytes (er_geo r) = 0 then Some (rb_sinks st, Some EcPanic)
                            else
                              (case rebuild_stripes wr rs r [0..<nat (stripes (er_geo r))] st of
                                 (st, Some e) \<Rightarrow> Some (rb_sinks st, Some e)
                               | (st, None) \<Rightarrow>
                                   Some (rb_sinks st,
                                     case checksums of
                                       None \<Rightarrow> None
                                     | Some cs \<Rightarrow> verdict sha256 shards cs (rb_hashes st) [0..<n])))))"

end
