(* ===== verification/Erasure_Props.thy ===== *)
theory Erasure_Props
  imports Erasure Data_Stream_Props
begin

text \<open>
  Striping read back: the bytes of every shard as a function of the frame, the encoder that
  produces them, and the reader and the rebuild that work from any \<open>k\<close> of them.
\<close>

section \<open>Geometry\<close>

lemma wrap64_id: "0 \<le> x \<Longrightarrow> x < 2 ^ 63 \<Longrightarrow> wrap64 x = x"
  by (simp add: wrap64_def sint_word_of_int)

lemma wrap64_nat: "int n < 2 ^ 63 \<Longrightarrow> wrap64 (int n) = int n"
  by (rule wrap64_id) simp

lemma sdiv_nat: "int a sdiv int b = int (a div b)"
  using zdiv_int [of a b] by (cases "a = 0"; cases "b = 0") (simp_all add: signed_divide_int_def)

lemma smod_nat: "int a smod int b = int (a mod b)"
  using zmod_int [of a b] by (cases "a = 0") (simp_all add: signed_modulo_int_def)

definition geo :: "nat \<Rightarrow> nat \<Rightarrow> nat \<Rightarrow> nat \<Rightarrow> geometry" where
  "geo k m ss n = \<lparr>g_k = int k, g_m = int m, g_sliceSize = int ss, g_frameSize = int n\<rparr>"

lemma geo_simps [simp]:
  "g_k (geo k m ss n) = int k" "g_m (geo k m ss n) = int m" "g_sliceSize (geo k m ss n) = int ss"
  "g_frameSize (geo k m ss n) = int n"
  by (simp_all add: geo_def)

definition slen :: "nat \<Rightarrow> bytes \<Rightarrow> nat" where
  "slen k q = (length q + k - 1) div k"

definition fits :: "nat \<Rightarrow> nat \<Rightarrow> nat \<Rightarrow> bool" where
  "fits k ss n \<longleftrightarrow> 0 < k \<and> 0 < ss \<and> int (k * ss) < 2 ^ 63 \<and> int n + 2097152 < 2 ^ 63"

lemma stripeBytes_geo: "fits k ss n \<Longrightarrow> stripeBytes (geo k m ss n) = int (k * ss)"
  by (simp add: stripeBytes_def fits_def wrap64_id)

lemma fullStripes_geo: "fits k ss n \<Longrightarrow> fullStripes (geo k m ss n) = int (n div (k * ss))"
  by (simp add: fullStripes_def stripeBytes_geo sdiv_nat del: of_nat_mult)

lemma lastLen_geo: "fits k ss n \<Longrightarrow> lastLen (geo k m ss n) = int ((n mod (k * ss) + k - 1) div k)"
proof -
  assume f: "fits k ss n"
  let ?r = "n mod (k * ss)"
  have "lastLen (geo k m ss n) = (if ?r = 0 then 0 else (int (?r - 1)) sdiv int k + 1)"
    using f by (cases ?r) (simp_all add: lastLen_def stripeBytes_geo smod_nat del: of_nat_mult)
  also have "\<dots> = int ((?r + k - 1) div k)"
  proof (cases ?r)
    case (Suc r)
    have "(Suc r + k - 1) div k = r div k + 1" using f by (simp add: fits_def)
    then show ?thesis using Suc by (simp add: sdiv_nat)
  qed (use f in \<open>simp add: fits_def\<close>)
  finally show ?thesis .
qed

lemma slen_pos_iff: "0 < k \<Longrightarrow> 0 < slen k q \<longleftrightarrow> q \<noteq> []"
  by (cases q) (simp_all add: slen_def div_greater_zero_iff)

lemma slen_full: "0 < k \<Longrightarrow> length q = k * ss \<Longrightarrow> slen k q = ss"
proof -
  assume "0 < k" "length q = k * ss"
  then have "length q + k - 1 = (k - 1) + k * ss" by simp
  then show ?thesis using \<open>0 < k\<close> by (simp only: slen_def div_mult_self2) simp
qed

lemma slen_covers: "0 < k \<Longrightarrow> length q \<le> k * slen k q"
proof -
  assume k: "0 < k"
  have "length q + k - 1 < k * slen k q + k"
    using dividend_less_times_div [OF k, of "length q + k - 1"] by (simp add: slen_def algebra_simps)
  then show ?thesis using k by simp
qed

lemma slen_le: "0 < k \<Longrightarrow> length q \<le> k * ss \<Longrightarrow> slen k q \<le> ss"
proof -
  assume "0 < k" "length q \<le> k * ss"
  then have "(length q + k - 1) div k \<le> ((k - 1) + k * ss) div k" by (intro div_le_mono) simp
  also have "\<dots> = ss" using \<open>0 < k\<close> by (simp only: div_mult_self2) simp
  finally show ?thesis by (simp add: slen_def)
qed

lemma pieces_full: "0 < cs \<Longrightarrow> i < length d div cs \<Longrightarrow> i < pieces cs d \<and> length (piece cs d i) = cs"
proof -
  assume cs: "0 < cs" and i: "i < length d div cs"
  then have "Suc i * cs \<le> length d div cs * cs" by (intro mult_le_mono1) simp
  also have "\<dots> \<le> length d" by simp
  finally show ?thesis using cs i by (auto simp: length_piece pieces_eq)
qed

lemma pieces_last:
  assumes "0 < cs" and "i < pieces cs d" and "\<not> i < length d div cs"
  shows "i = length d div cs" and "length (piece cs d i) = length d mod cs"
proof -
  show i: "i = length d div cs" using assms by (auto simp: pieces_eq split: if_splits)
  then show "length (piece cs d i) = length d mod cs"
    using mod_less_divisor [OF assms(1), of "length d"] by (simp add: length_piece minus_div_mult_eq_mod min_absorb2)
qed

lemma stripes_geo:
  assumes "fits k ss (length F)"
  shows "stripes (geo k m ss (length F)) = int (pieces (k * ss) F)"
proof -
  have "0 < k * ss" "0 < k" using assms by (simp_all add: fits_def)
  then show ?thesis
    by (simp add: stripes_def Let_def fullStripes_geo [OF assms] lastLen_geo [OF assms] pieces_eq div_greater_zero_iff) auto
qed

lemma stripeSlice_geo:
  assumes "fits k ss (length F)" and "si < pieces (k * ss) F"
  shows "stripeSlice (geo k m ss (length F)) (int si) = (int (slen k (piece (k * ss) F si)), int (si * ss))"
proof -
  let ?sb = "k * ss"
  have pos: "0 < ?sb" "0 < k" using assms(1) by (simp_all add: fits_def)
  have "si * ss \<le> si * ?sb" using pos by simp
  also have "\<dots> < length F" by (rule pieces_bounds [OF pos(1) assms(2)])
  finally have "si * ss < length F" .
  then have w: "wrap64 (int si * int ss) = int (si * ss)"
    using assms(1) wrap64_nat [of "si * ss"] unfolding fits_def of_nat_mult [symmetric] by linarith
  show ?thesis
  proof (cases "si < length F div ?sb")
    case True
    then show ?thesis using pos w pieces_full [OF pos(1) True]
      by (simp add: stripeSlice_def fullStripes_geo [OF assms(1)] slen_full)
  next
    case False
    note l = pieces_last [OF pos(1) assms(2) False]
    then show ?thesis using w
      by (simp add: stripeSlice_def fullStripes_geo [OF assms(1)] lastLen_geo [OF assms(1)] slen_def)
  qed
qed

lemma geometry_stripeData_geo:
  assumes "fits k ss (length F)" and "si < pieces (k * ss) F"
  shows "geometry_stripeData (geo k m ss (length F)) (int si) = int (length (piece (k * ss) F si))"
proof -
  let ?sb = "k * ss" and ?f = "length F div (k * ss)"
  have pos: "0 < ?sb" "0 < k" using assms(1) by (simp_all add: fits_def)
  show ?thesis
  proof (cases "si < ?f")
    case True
    then show ?thesis using pieces_full [OF pos(1) True]
      by (simp add: geometry_stripeData_def fullStripes_geo [OF assms(1)] stripeBytes_geo [OF assms(1)])
  next
    case False
    have "?f * k * ss \<le> length F" "?f * k \<le> ?f * k * ss" using pos by (simp_all add: mult.assoc)
    then have w: "wrap64 (int (?f * k)) = int (?f * k)" "wrap64 (int (?f * k * ss)) = int (?f * k * ss)"
      using assms(1) wrap64_nat [of "?f * k"] wrap64_nat [of "?f * k * ss"] unfolding fits_def by linarith+
    have "int (length F) - int (?f * k * ss) = int (length F mod ?sb)"
      using \<open>?f * k * ss \<le> length F\<close> by (simp add: minus_div_mult_eq_mod [symmetric] mult.assoc of_nat_diff)
    moreover have "wrap64 (int (length F mod ?sb)) = int (length F mod ?sb)"
      using assms(1) wrap64_nat [of "length F mod ?sb"] mod_less_eq_dividend [of "length F" ?sb] unfolding fits_def by linarith
    moreover note w
    ultimately have "wrap64 (int (length F) - wrap64 (wrap64 (int ?f * int k) * int ss)) = int (length F mod ?sb)"
      by (simp only: of_nat_mult [symmetric])
    then show ?thesis using False pieces_last [OF pos(1) assms(2) False]
      by (simp add: geometry_stripeData_def fullStripes_geo [OF assms(1)])
  qed
qed

section \<open>What the codec promises\<close>

text \<open>
  \<open>k\<close> data slices of one length are encoded to \<open>m\<close> parity slices of that length, whatever the parity buffers held before;
  from any \<open>k\<close> of the slices the others come back.
\<close>

definition slices :: "nat \<Rightarrow> nat \<Rightarrow> bytes list \<Rightarrow> bool" where
  "slices n l X \<longleftrightarrow> length X = n \<and> (\<forall>x \<in> set X. length x = l)"

definition surviving :: "nat \<Rightarrow> bytes list \<Rightarrow> bytes option list \<Rightarrow> bool" where
  "surviving k X S \<longleftrightarrow> length S = length X \<and> (\<forall>i < length X. S ! i = None \<or> S ! i = Some (X ! i)) \<and>
     k \<le> length (filter (\<lambda>s. s \<noteq> None) S)"

definition rs_codec :: "nat \<Rightarrow> nat \<Rightarrow> RS \<Rightarrow> (bytes list \<Rightarrow> bytes list) \<Rightarrow> bool" where
  "rs_codec k m rs par \<longleftrightarrow>
     (\<forall>l D P. 0 < l \<and> slices k l D \<and> slices m l P \<longrightarrow>
        slices m l (par D) \<and> Encode rs (D @ P) = Some (D @ par D) \<and>
        (\<forall>S. surviving k (D @ par D) S \<longrightarrow>
           (\<exists>S'. ReconstructData rs S = Some S' \<and> take k S' = map Some D) \<and>
           ReconstructAll rs S = Some (map Some (D @ par D))))"

definition rs_lawful :: "(int \<Rightarrow> int \<Rightarrow> RS option) \<Rightarrow> nat \<Rightarrow> nat \<Rightarrow> bool" where
  "rs_lawful New k m \<longleftrightarrow> (0 < m \<longrightarrow> (\<exists>rs par. New (int k) (int m) = Some rs \<and> rs_codec k m rs par))"

text \<open>The codec of a writer or reader: none for the single copy.\<close>

definition codec :: "nat \<Rightarrow> nat \<Rightarrow> RS option \<Rightarrow> (bytes list \<Rightarrow> bytes list) \<Rightarrow> bool" where
  "codec k m rs par \<longleftrightarrow>
     (case rs of None \<Rightarrow> m = 0 \<and> k = 1 \<and> par = (\<lambda>_. []) | Some rs \<Rightarrow> 0 < m \<and> rs_codec k m rs par)"

definition params :: "nat \<Rightarrow> nat \<Rightarrow> bool" where
  "params k m \<longleftrightarrow> 0 < k \<and> k + m \<le> 256 \<and> (m = 0 \<longrightarrow> k = 1)"

lemma validateParams_params: "params k m \<Longrightarrow> validateParams (int k) (int m) = None"
  using wrap64_nat [of "k + m"] by (auto simp: validateParams_def params_def)

lemma new_codec_lawful:
  assumes "rs_lawful New k m" and "params k m"
  obtains rs par where "new_codec New (int k) (int m) = Inr rs" "codec k m rs par"
proof (cases "m = 0")
  case True
  then show thesis using assms(2) by (intro that [of None "\<lambda>_. []"]) (simp_all add: new_codec_def codec_def params_def)
next
  case False
  then obtain rs par where "New (int k) (int m) = Some rs" "rs_codec k m rs par"
    using assms unfolding rs_lawful_def params_def by blast
  then show thesis using False by (intro that [of "Some rs" par]) (simp_all add: new_codec_def codec_def)
qed

lemma rs_codecD:
  assumes "rs_codec k m rs par" and "0 < l" and "slices k l D"
  shows "slices m l (par D)" and "slices m l P \<Longrightarrow> Encode rs (D @ P) = Some (D @ par D)"
    and "surviving k (D @ par D) S \<Longrightarrow> \<exists>S'. ReconstructData rs S = Some S' \<and> take k S' = map Some D"
    and "surviving k (D @ par D) S \<Longrightarrow> ReconstructAll rs S = Some (map Some (D @ par D))"
proof -
  have "slices m l (replicate m (replicate l 0))" by (simp add: slices_def)
  with assms show "slices m l (par D)" "slices m l P \<Longrightarrow> Encode rs (D @ P) = Some (D @ par D)"
    "surviving k (D @ par D) S \<Longrightarrow> \<exists>S'. ReconstructData rs S = Some S' \<and> take k S' = map Some D"
    "surviving k (D @ par D) S \<Longrightarrow> ReconstructAll rs S = Some (map Some (D @ par D))"
    unfolding rs_codec_def by blast+
qed

lemma codec_parity: "codec k m rs par \<Longrightarrow> 0 < l \<Longrightarrow> slices k l D \<Longrightarrow> slices m l (par D)"
  by (cases rs) (auto simp: codec_def slices_def dest: rs_codecD(1) [unfolded slices_def])

section \<open>The slices of a stripe\<close>

lemma slices_slice_up: "n * l \<le> length b \<Longrightarrow> slices n l (slice_up n l b)"
proof -
  assume n: "n * l \<le> length b"
  have "min l (length b - i * l) = l" if "i < n" for i
    using n mult_le_mono1 [of "Suc i" n l] that by simp
  then show ?thesis by (auto simp: slices_def slice_up_def min.commute)
qed

lemma concat_slice_up: "concat (slice_up n l b) = take (n * l) b"
proof (induction n)
  case (Suc n)
  then show ?case using take_add [of "n * l" l b] by (simp add: slice_up_def add.commute)
qed (simp add: slice_up_def)

definition padded :: "nat \<Rightarrow> bytes \<Rightarrow> bytes" where
  "padded k q = q @ replicate (k * slen k q - length q) 0"

lemma length_padded: "0 < k \<Longrightarrow> length (padded k q) = k * slen k q"
  using slen_covers [of k q] by (simp add: padded_def)

lemma padded_full: "0 < k \<Longrightarrow> length q = k * ss \<Longrightarrow> padded k q = q"
  by (simp add: padded_def slen_full)

definition stripe_data :: "nat \<Rightarrow> bytes \<Rightarrow> bytes list" where
  "stripe_data k q = slice_up k (slen k q) (padded k q)"

definition stripe_all :: "nat \<Rightarrow> (bytes list \<Rightarrow> bytes list) \<Rightarrow> bytes \<Rightarrow> bytes list" where
  "stripe_all k par q = stripe_data k q @ par (stripe_data k q)"

lemma stripe_data_slices: "0 < k \<Longrightarrow> slices k (slen k q) (stripe_data k q)"
  by (simp add: stripe_data_def slices_slice_up length_padded)

lemma stripe_all_slices: "codec k m rs par \<Longrightarrow> 0 < k \<Longrightarrow> q \<noteq> [] \<Longrightarrow> slices (k + m) (slen k q) (stripe_all k par q)"
  using codec_parity [of k m rs par "slen k q" "stripe_data k q"] stripe_data_slices [of k q]
  by (auto simp: stripe_all_def slices_def slen_pos_iff)

lemma concat_stripe_data: "0 < k \<Longrightarrow> take (length q) (concat (stripe_data k q)) = q"
  by (simp add: stripe_data_def concat_slice_up length_padded) (simp add: padded_def)

text \<open>What shard \<open>i\<close> holds of stripe \<open>si\<close>, and the whole file behind its header.\<close>

definition column :: "nat \<Rightarrow> (bytes list \<Rightarrow> bytes list) \<Rightarrow> nat \<Rightarrow> bytes \<Rightarrow> nat \<Rightarrow> nat \<Rightarrow> bytes" where
  "column k par sb F i si = stripe_all k par (piece sb F si) ! i"

definition columns :: "nat \<Rightarrow> (bytes list \<Rightarrow> bytes list) \<Rightarrow> nat \<Rightarrow> bytes \<Rightarrow> nat \<Rightarrow> nat \<Rightarrow> bytes" where
  "columns k par sb F n i = concat (map (column k par sb F i) [0..<n])"

lemma columns_Suc: "columns k par sb F (Suc n) i = columns k par sb F n i @ column k par sb F i n"
  by (simp add: columns_def)

lemma columns_stable:
  "n * sb \<le> length d \<Longrightarrow> columns k par sb (d @ p) n i = columns k par sb d n i"
proof (induction n)
  case (Suc n)
  then show ?case using piece_stable [of n sb d p] by (simp add: columns_Suc column_def)
qed (simp add: columns_def)

section \<open>The encoder\<close>

lemma concat_full: "\<forall>p \<in> set ps. length p = l \<Longrightarrow> length (concat ps) = length ps * l"
  by (induction ps) auto

lemma write_sinks_buf:
  "length ss = length bs \<Longrightarrow> length hs = length bs \<Longrightarrow>
     write_sinks buf_write bs ss hs = (map2 (@) ss bs, map2 (@) hs bs, True)"
proof (induction bs arbitrary: ss hs)
  case (Cons b bs)
  then show ?case by (cases ss; cases hs) (simp_all add: buf_write_def)
qed simp

lemma encodeStripe_buf:
  assumes "codec k m (ew_rs w) par" and "g_k (ew_geo w) = int k" "g_m (ew_geo w) = int m" and "0 < l"
    and "length (ew_stripe w) = k * l" and "m * l \<le> length (ew_parity w)"
    and "length (ew_sinks w) = k + m" "length (ew_hashes w) = k + m"
  shows "\<exists>pb. length pb = length (ew_parity w) \<and>
    encodeStripe buf_write w (int l) =
      (let X = slice_up k l (ew_stripe w) @ par (slice_up k l (ew_stripe w))
       in (w\<lparr>ew_sinks := map2 (@) (ew_sinks w) X, ew_hashes := map2 (@) (ew_hashes w) X, ew_parity := pb, ew_stripe := []\<rparr>, None))"
proof -
  let ?D = "slice_up k l (ew_stripe w)" and ?P = "slice_up m l (ew_parity w)"
  have D: "slices k l ?D" "slices m l ?P" using assms by (simp_all add: slices_slice_up)
  have par: "slices m l (par ?D)" by (rule codec_parity [OF assms(1,4) D(1)])
  have enc: "(case ew_rs w of None \<Rightarrow> Some (?D @ ?P) | Some rs \<Rightarrow> Encode rs (?D @ ?P)) = Some (?D @ par ?D)"
    using assms(1,4) D rs_codecD(2) by (auto simp: codec_def slice_up_def split: option.splits)
  have len: "length (?D @ par ?D) = k + m" "length ?D = k" using D(1) par by (simp_all add: slices_def)
  have "length (concat (par ?D)) = m * l"
    using concat_full [of "par ?D" l] par by (simp add: slices_def)
  then have pb: "length (concat (drop k (?D @ par ?D)) @ drop (m * l) (ew_parity w)) = length (ew_parity w)"
    using assms(6) len(2) by simp
  have ws: "write_sinks buf_write (?D @ par ?D) (ew_sinks w) (ew_hashes w) =
      (map2 (@) (ew_sinks w) (?D @ par ?D), map2 (@) (ew_hashes w) (?D @ par ?D), True)"
    using assms(7,8) len(1) by (intro write_sinks_buf) simp_all
  show ?thesis
    unfolding encodeStripe_def Let_def assms(2,3) nat_int enc option.case ws prod.case
    by (rule exI, rule conjI, rule pb) simp
qed

text \<open>The front of shard \<open>i\<close>, and a writer that has accepted the bytes \<open>d\<close>.\<close>

definition front :: "protowire \<Rightarrow> version_id \<Rightarrow> geometry \<Rightarrow> nat \<Rightarrow> bytes" where
  "front pw v g i = encodeShard pw (shard_header v g i)"

definition files ::
    "protowire \<Rightarrow> version_id \<Rightarrow> geometry \<Rightarrow> nat \<Rightarrow> nat \<Rightarrow> (bytes list \<Rightarrow> bytes list) \<Rightarrow> nat \<Rightarrow> bytes \<Rightarrow> nat \<Rightarrow> bytes list" where
  "files pw v g k m par sb d n = map (\<lambda>i. front pw v g i @ columns k par sb d n i) [0..<k + m]"

definition accepted ::
    "protowire \<Rightarrow> version_id \<Rightarrow> geometry \<Rightarrow> nat \<Rightarrow> nat \<Rightarrow> nat \<Rightarrow> RS option \<Rightarrow> (bytes list \<Rightarrow> bytes list) \<Rightarrow> bytes EcWriter \<Rightarrow> bytes \<Rightarrow> bool" where
  "accepted pw v g k m ss rs par w d \<longleftrightarrow>
     (let n = length d div (k * ss); fs = files pw v g k m par (k * ss) d n
      in ew_geo w = g \<and> ew_rs w = rs \<and> ew_sinks w = fs \<and> ew_hashes w = fs \<and> ew_stripe w = drop (n * (k * ss)) d \<and>
         length (ew_parity w) = m * ss \<and> ew_written w = int (length d) \<and> \<not> ew_closed w)"

lemma files_step:
  assumes "codec k m rs par" and "0 < k" and "piece sb d n \<noteq> []" and "padded k (piece sb d n) = b"
  shows "map2 (@) (files pw v g k m par sb d n) (slice_up k (slen k (piece sb d n)) b @ par (slice_up k (slen k (piece sb d n)) b))
    = files pw v g k m par sb d (Suc n)"
proof (rule nth_equalityI)
  have X: "slice_up k (slen k (piece sb d n)) b @ par (slice_up k (slen k (piece sb d n)) b) = stripe_all k par (piece sb d n)"
    using assms(4) by (simp add: stripe_all_def stripe_data_def)
  have len: "length (stripe_all k par (piece sb d n)) = k + m"
    using stripe_all_slices [OF assms(1,2,3)] by (simp add: slices_def)
  show "length (map2 (@) (files pw v g k m par sb d n) (slice_up k (slen k (piece sb d n)) b @ par (slice_up k (slen k (piece sb d n)) b)))
      = length (files pw v g k m par sb d (Suc n))"
    unfolding X by (simp add: files_def len)
  fix i assume "i < length (map2 (@) (files pw v g k m par sb d n) (slice_up k (slen k (piece sb d n)) b @ par (slice_up k (slen k (piece sb d n)) b)))"
  then have "i < k + m" unfolding X by (simp add: files_def len)
  then show "map2 (@) (files pw v g k m par sb d n) (slice_up k (slen k (piece sb d n)) b @ par (slice_up k (slen k (piece sb d n)) b)) ! i
      = files pw v g k m par sb d (Suc n) ! i"
    unfolding X by (simp add: files_def len columns_Suc column_def del: upt_Suc)
qed

lemma files_stable: "n * sb \<le> length d \<Longrightarrow> files pw v g k m par sb (d @ p) n = files pw v g k m par sb d n"
  by (simp add: files_def columns_stable)

lemma encodeStripe_accepted:
  assumes "codec k m rs par" and "g = geo k m ss fs" and "fits k ss fs"
    and "ew_geo w = g" "ew_rs w = rs" "ew_sinks w = files pw v g k m par (k * ss) d n" "ew_hashes w = ew_sinks w"
    and "length (ew_parity w) = m * ss" and "ew_stripe w = padded k (piece (k * ss) d n)"
    and "piece (k * ss) d n \<noteq> []" and "l = slen k (piece (k * ss) d n)"
  shows "\<exists>pb. length pb = m * ss \<and>
    encodeStripe buf_write w (int l) = (w\<lparr>ew_sinks := files pw v g k m par (k * ss) d (Suc n),
      ew_hashes := files pw v g k m par (k * ss) d (Suc n), ew_parity := pb, ew_stripe := []\<rparr>, None)"
proof -
  have k: "0 < k" using assms(3) by (simp add: fits_def)
  have l: "0 < l" "l \<le> ss" using assms(10,11) k slen_le [of k "piece (k * ss) d n" ss] by (simp_all add: slen_pos_iff length_piece)
  have "\<exists>pb. length pb = length (ew_parity w) \<and> encodeStripe buf_write w (int l) =
      (let X = slice_up k l (ew_stripe w) @ par (slice_up k l (ew_stripe w))
       in (w\<lparr>ew_sinks := map2 (@) (ew_sinks w) X, ew_hashes := map2 (@) (ew_hashes w) X, ew_parity := pb, ew_stripe := []\<rparr>, None))"
    by (rule encodeStripe_buf [where m = m])
      (use assms l k in \<open>simp_all add: length_padded files_def\<close>)
  then show ?thesis
    using files_step [OF assms(1) k assms(10) refl, of pw v g]
    by (auto simp: Let_def assms(6-9,11))
qed

lemma ec_Write_step:
  assumes "p \<noteq> []" and "min (stripeBytes (ew_geo w) - int (length (ew_stripe w))) (int (length p)) = int tk" and "0 < stripeBytes (ew_geo w)"
  shows "ec_Write_loop wr w p n =
    (let w' = w\<lparr>ew_stripe := ew_stripe w @ take tk p, ew_written := ew_written w + int tk\<rparr>
     in if int (length (ew_stripe w')) = stripeBytes (ew_geo w)
        then case encodeStripe wr w' (g_sliceSize (ew_geo w)) of
               (w, Some e) \<Rightarrow> (w, n + int tk, Some e)
             | (w, None) \<Rightarrow> ec_Write_loop wr w (drop tk p) (n + int tk)
        else ec_Write_loop wr w' (drop tk p) (n + int tk))"
proof -
  have "length xs = nat (stripeBytes (ew_geo w)) \<longleftrightarrow> int (length xs) = stripeBytes (ew_geo w)" for xs :: bytes
    using assms(3) by auto
  then show ?thesis
    unfolding ec_Write_loop.simps [of wr w p n] Let_def assms(2) using assms(1,3) by (simp cong: if_cong del: length_append)
qed

lemma accepted_more:
  assumes "codec k m rs par" and "g = geo k m ss fs" and "fits k ss fs" and "accepted pw v g k m ss rs par w d"
    and "p \<noteq> []"
  shows "\<exists>w' tk. 0 < tk \<and> tk \<le> length p \<and> accepted pw v g k m ss rs par w' (d @ take tk p) \<and>
    ec_Write_loop buf_write w p n = ec_Write_loop buf_write w' (drop tk p) (n + int tk)"
proof -
  let ?sb = "k * ss" and ?q = "length d div (k * ss)"
  note acc = assms(4) [unfolded accepted_def Let_def]
  have sb: "0 < ?sb" "0 < k" using assms(3) by (simp_all add: fits_def)
  have sbg: "stripeBytes (ew_geo w) = int ?sb" using acc stripeBytes_geo [OF assms(3), of m] assms(2) by simp
  have st: "length (ew_stripe w) = length d mod ?sb" using acc by (simp add: minus_div_mult_eq_mod)
  have lt: "length d mod ?sb < ?sb" using sb by simp
  define tk where "tk = min (?sb - length d mod ?sb) (length p)"
  have tk: "min (stripeBytes (ew_geo w) - int (length (ew_stripe w))) (int (length p)) = int tk" "0 < tk" "tk \<le> length p"
    using assms(5) lt unfolding sbg st tk_def by (auto simp: min_def simp del: of_nat_mult)
  define w' where "w' = w\<lparr>ew_stripe := ew_stripe w @ take tk p, ew_written := ew_written w + int tk\<rparr>"
  have le: "?q * ?sb \<le> length d" by simp
  have step: "ec_Write_loop buf_write w p n =
      (if length d mod ?sb + tk = ?sb
       then case encodeStripe buf_write w' (int ss) of
              (w, Some e) \<Rightarrow> (w, n + int tk, Some e)
            | (w, None) \<Rightarrow> ec_Write_loop buf_write w (drop tk p) (n + int tk)
       else ec_Write_loop buf_write w' (drop tk p) (n + int tk))"
  proof -
    have "(int (length (ew_stripe w')) = stripeBytes (ew_geo w)) = (length d mod ?sb + tk = ?sb)"
      using tk(3) unfolding sbg w'_def by (simp add: st del: of_nat_mult of_nat_add) 
    moreover have "g_sliceSize (ew_geo w) = int ss" using acc assms(2) by simp
    ultimately show ?thesis
      using ec_Write_step [OF assms(5) tk(1), of buf_write n] sb sbg by (simp add: w'_def [symmetric] Let_def)
  qed
  let ?d = "d @ take tk p"
  have lenq: "length ?d = ?q * ?sb + (length d mod ?sb + tk)"
    using tk(3) div_mult_mod_eq [of "length d" ?sb] by (simp only: length_append length_take min_absorb2)
  show ?thesis
  proof (cases "length d mod ?sb + tk = ?sb")
    case True
    then have len: "length ?d = Suc ?q * ?sb" using lenq by simp
    then have q': "length ?d div ?sb = Suc ?q" using sb(1) by (simp del: mult_Suc length_append)
    have p: "piece ?sb ?d ?q = drop (?q * ?sb) d @ take tk p" using len piece_last [of ?d ?q ?sb] le by simp
    have lp: "length (piece ?sb ?d ?q) = ?sb" using len sb by (simp add: length_piece del: length_append)
    have w: "ew_geo w' = g" "ew_rs w' = rs" "ew_sinks w' = files pw v g k m par ?sb ?d ?q" "ew_hashes w' = ew_sinks w'"
      "length (ew_parity w') = m * ss"
      using acc by (simp_all add: w'_def files_stable [OF le])
    have stp: "ew_stripe w' = padded k (piece ?sb ?d ?q)"
      using acc padded_full [OF sb(2) lp] by (simp add: w'_def p)
    have ne: "piece ?sb ?d ?q \<noteq> []" using lp sb by auto
    have "\<exists>pb. length pb = m * ss \<and> encodeStripe buf_write w' (int ss) =
        (w'\<lparr>ew_sinks := files pw v g k m par ?sb ?d (Suc ?q), ew_hashes := files pw v g k m par ?sb ?d (Suc ?q),
            ew_parity := pb, ew_stripe := []\<rparr>, None)"
      by (rule encodeStripe_accepted [OF assms(1,2,3) w stp ne slen_full [OF sb(2) lp, symmetric]])
    then obtain pb where pb: "length pb = m * ss" "encodeStripe buf_write w' (int ss) =
        (w'\<lparr>ew_sinks := files pw v g k m par ?sb ?d (Suc ?q), ew_hashes := files pw v g k m par ?sb ?d (Suc ?q),
            ew_parity := pb, ew_stripe := []\<rparr>, None)" by blast
    then have "accepted pw v g k m ss rs par (fst (encodeStripe buf_write w' (int ss))) ?d"
      using acc tk(3) len [THEN eq_imp_le] unfolding accepted_def Let_def q' pb(2) fst_conv
      by (simp add: w'_def del: mult_Suc)
    then show ?thesis using step pb True tk by (intro exI [of _ "fst (encodeStripe buf_write w' (int ss))"] exI [of _ tk]) simp
  next
    case False
    then have "length d mod ?sb + tk < ?sb" using lt by (simp add: tk_def)
    then have q': "length ?d div ?sb = ?q" unfolding lenq using sb(1) by (simp add: div_mult_self3)
    have "accepted pw v g k m ss rs par w' ?d"
      using acc tk(3) unfolding accepted_def Let_def q' by (simp add: w'_def files_stable [OF le])
    then show ?thesis using step False tk by (intro exI [of _ w'] exI [of _ tk]) simp
  qed
qed

lemma ec_Write_loop_accepted:
  assumes "codec k m rs par" and "g = geo k m ss fs" and "fits k ss fs"
  shows "accepted pw v g k m ss rs par w d \<Longrightarrow>
    \<exists>w'. accepted pw v g k m ss rs par w' (d @ p) \<and> ec_Write_loop buf_write w p n = (w', n + int (length p), None)"
proof (induction "length p" arbitrary: w d p n rule: less_induct)
  case less
  show ?case
  proof (cases "p = []")
    case False
    obtain w' tk where w': "0 < tk" "tk \<le> length p" "accepted pw v g k m ss rs par w' (d @ take tk p)"
      "ec_Write_loop buf_write w p n = ec_Write_loop buf_write w' (drop tk p) (n + int tk)"
      using accepted_more [OF assms less.prems False] by blast
    have "length (drop tk p) < length p" using w'(1) False by simp
    from less.hyps [OF this w'(3), of "n + int tk"] show ?thesis using w'(2,4) by auto
  qed (use less.prems in \<open>simp add: ec_Write_loop.simps\<close>)
qed

lemma ec_Close_accepted:
  assumes "codec k m rs par" and "g = geo k m ss (length F)" and "fits k ss (length F)" and "accepted pw v g k m ss rs par w F"
  defines "fs \<equiv> files pw v g k m par (k * ss) F (pieces (k * ss) F)"
  shows "\<exists>w'. ec_Close buf_write w = (w', None) \<and> ew_sinks w' = fs \<and> ew_hashes w' = fs"
proof -
  let ?sb = "k * ss" and ?q = "length F div (k * ss)"
  note acc = assms(4) [unfolded accepted_def Let_def]
  have sb: "0 < ?sb" "0 < k" using assms(3) by (simp_all add: fits_def)
  have st: "length (ew_stripe w) = length F mod ?sb" using acc by (simp add: minus_div_mult_eq_mod)
  show ?thesis
  proof (cases "length F mod ?sb = 0")
    case True
    then have "pieces ?sb F = ?q" using pieces_eq [OF sb(1), of F] by simp
    then show ?thesis using acc True st assms(2) by (simp add: ec_Close_def Let_def fs_def)
  next
    case False
    then have n: "pieces ?sb F = Suc ?q" using pieces_eq [OF sb(1), of F] by simp
    have "length F < Suc ?q * ?sb" using sb(1) by (simp add: dividend_less_div_times)
    then have p: "piece ?sb F ?q = drop (?q * ?sb) F" by (intro piece_last) simp
    then have l: "lastLen g = int (slen k (piece ?sb F ?q))"
      by (simp add: assms(2) lastLen_geo [OF assms(3)] slen_def minus_div_mult_eq_mod)
    let ?w = "w\<lparr>ew_closed := True, ew_stripe := padded k (piece ?sb F ?q)\<rparr>"
    have nd: "nat (int a - int b) = a - b" for a b by arith
    have stp: "ew_stripe w = piece ?sb F ?q" using acc p by simp
    have "nat (int k * int (slen k (piece ?sb F ?q)) - int (length (ew_stripe w))) = k * slen k (piece ?sb F ?q) - length (piece ?sb F ?q)"
      by (simp only: of_nat_mult [symmetric] nd stp)
    then have pad: "ew_stripe w @ replicate (nat (int k * int (slen k (piece ?sb F ?q)) - int (length (ew_stripe w)))) 0 = padded k (piece ?sb F ?q)"
      using acc p by (simp add: padded_def)
    have "ec_Close buf_write w = encodeStripe buf_write ?w (int (slen k (piece ?sb F ?q)))"
      using acc False st l pad assms(2) by (simp add: ec_Close_def Let_def)
    moreover have "piece ?sb F ?q \<noteq> []" using p st acc False by auto
    then have "\<exists>pb. length pb = m * ss \<and> encodeStripe buf_write ?w (int (slen k (piece ?sb F ?q))) =
        (?w\<lparr>ew_sinks := files pw v g k m par ?sb F (Suc ?q), ew_hashes := files pw v g k m par ?sb F (Suc ?q),
            ew_parity := pb, ew_stripe := []\<rparr>, None)"
      by (intro encodeStripe_accepted [OF assms(1,2,3)]) (use acc in simp_all)
    ultimately show ?thesis by (auto simp: fs_def n)
  qed
qed

section \<open>The header read back\<close>

text \<open>The wire format is compact: no varint and no low tag takes more than ten bytes.\<close>

definition compact_wire :: "protowire \<Rightarrow> bool" where
  "compact_wire pw \<longleftrightarrow> (\<forall>v. length (AppendVarint pw [] v) \<le> 10) \<and>
     (\<forall>n t. n < 16 \<and> t \<le> 5 \<longrightarrow> length (AppendTag pw [] n t) \<le> 10) \<and>
     (\<forall>x. length x < 128 \<longrightarrow> length (AppendBytes pw [] x) \<le> 10 + length x)"

context wire
begin

lemma put_varint_append: "put_varint pw n v p = p @ put_varint pw n v []"
  using varint_append [of "AppendTag pw p n VarintType"] varint_append [of "AppendTag pw [] n VarintType"] tag_append [of p]
  by (simp add: put_varint_def)

lemma shard_fields_Nil: "shard_fields pw [] hv = Some (Inr hv)"
  by (subst shard_fields.simps) simp

lemma shard_fields_varint:
  assumes "1 \<le> n" "n < 2 ^ 29"
  shows "shard_fields pw (put_varint pw n v [] @ r) hv = shard_fields pw r (set_field n v hv)"
proof -
  have e: "put_varint pw n v [] @ r = AppendTag pw [] n VarintType @ AppendVarint pw [] v @ r"
    unfolding put_varint_def by (subst varint_append) simp
  have t: "VarintType \<le> 5" "VarintType \<noteq> BytesType" by (simp_all add: type_defs)
  show ?thesis
    unfolding e using consume_tag [OF assms t(1)] consume_varint [of v r] tag_nonempty [OF assms t(1), of "[]"] t(2)
    by (subst shard_fields.simps) (simp add: Let_def)
qed

lemma shard_fields_id:
  "shard_fields pw (AppendBytes pw (AppendTag pw [] 2 BytesType) (vid_bytes i) @ r) (h, v) =
     shard_fields pw r (h\<lparr>sh_id := i\<rparr>, v)"
proof -
  have e: "AppendBytes pw (AppendTag pw [] 2 BytesType) (vid_bytes i) @ r = AppendTag pw [] 2 BytesType @ AppendBytes pw [] (vid_bytes i) @ r"
    by (subst bytes_append) simp
  have t: "BytesType \<le> 5" by (simp add: type_defs)
  have n: "(1 :: nat) \<le> 2" "(2 :: nat) < 2 ^ 29" by simp_all
  have "go_sized (vid_bytes i)" by (simp add: go_sized_def)
  then show ?thesis
    unfolding e using consume_tag [OF n t] consume_bytes [of "vid_bytes i" r] tag_nonempty [OF n t, of "[]"]
    by (subst shard_fields.simps) (simp add: Let_def)
qed

lemma shard_message_eq:
  "shard_message pw h =
     put_varint pw 1 shardFormatVersion [] @ AppendBytes pw (AppendTag pw [] 2 BytesType) (vid_bytes (sh_id h)) @
     put_varint pw 3 (word_of_int (sh_index h)) [] @ put_varint pw 4 (word_of_int (sh_k h)) [] @
     put_varint pw 5 (word_of_int (sh_m h)) [] @ put_varint pw 6 (word_of_int (sh_sliceSize h)) [] @
     put_varint pw 7 (word_of_int (sh_frameSize h)) []"
proof -
  have "AppendBytes pw (AppendTag pw p 2 BytesType) x = p @ AppendBytes pw (AppendTag pw [] 2 BytesType) x" for p x
    using bytes_append [of "AppendTag pw p 2 BytesType"] bytes_append [of "AppendTag pw [] 2 BytesType"] tag_append [of p] by simp
  then show ?thesis
    unfolding shard_message_def Let_def by (metis (no_types) append_assoc put_varint_append)
qed

lemma shard_fields_message:
  assumes "\<And>x. x \<in> {sh_index h, sh_k h, sh_m h, sh_sliceSize h, sh_frameSize h} \<Longrightarrow> 0 \<le> x \<and> x < 2 ^ 63"
  shows "shard_fields pw (shard_message pw h) (shardHeader_zero, 0) = Some (Inr (h, shardFormatVersion))"
proof -
  have s: "sint (word_of_int x :: u64) = x" if "x \<in> {sh_index h, sh_k h, sh_m h, sh_sliceSize h, sh_frameSize h}" for x
    using assms [OF that] by (simp add: sint_word_of_int)
  have last: "shard_fields pw (put_varint pw 7 v []) hv = Some (Inr (set_field 7 v hv))" for v hv
    using shard_fields_varint [of 7 v "[]" hv] by (simp add: shard_fields_Nil)
  show ?thesis
    unfolding shard_message_eq
    by (simp add: shard_fields_varint shard_fields_id last set_field_def s shardHeader_zero_def)
qed

lemma length_shard_message: "compact_wire pw \<Longrightarrow> length (shard_message pw h) \<le> 200"
proof -
  assume c: "compact_wire pw"
  have v: "length (put_varint pw n v []) \<le> 20" if "n < 16" for n v
  proof -
    have "length (AppendTag pw [] n VarintType) \<le> 10" "length (AppendVarint pw [] v) \<le> 10"
      using c that by (simp_all add: compact_wire_def type_defs)
    then show ?thesis unfolding put_varint_def by (subst varint_append) simp
  qed
  have b: "length (AppendBytes pw (AppendTag pw [] 2 BytesType) (vid_bytes x)) \<le> 36" for x
  proof -
    have "length (vid_bytes x) < 128 \<Longrightarrow> length (AppendBytes pw [] (vid_bytes x)) \<le> 10 + length (vid_bytes x)"
      using c unfolding compact_wire_def by blast
    moreover have "length (AppendTag pw [] 2 BytesType) \<le> 10" using c by (simp add: compact_wire_def type_defs)
    ultimately show ?thesis by (subst bytes_append) simp
  qed
  show ?thesis
    using v [of 1 shardFormatVersion] b [of "sh_id h"] v [of 3 "word_of_int (sh_index h)"] v [of 4 "word_of_int (sh_k h)"]
      v [of 5 "word_of_int (sh_m h)"] v [of 6 "word_of_int (sh_sliceSize h)"] v [of 7 "word_of_int (sh_frameSize h)"]
    unfolding shard_message_eq by simp
qed

lemma decodeShard_front:
  assumes "compact_wire pw" and "serves r (\<lambda>_ _. True) (encodeShard pw h @ z)"
    and "\<And>x. x \<in> {sh_index h, sh_k h, sh_m h, sh_sliceSize h, sh_frameSize h} \<Longrightarrow> 0 \<le> x \<and> x < 2 ^ 63"
    and "check_header (h, shardFormatVersion) = Inr h"
  shows "decodeShard pw r = Some (Inr (h, int (length (encodeShard pw h))))"
proof -
  let ?p = "shard_message pw h"
  have len: "length ?p \<le> 200" by (rule length_shard_message [OF assms(1)])
  have enc: "encodeShard pw h = (shardMagic @ le_u32 (word_of_nat (length ?p))) @ ?p" by (simp add: encodeShard_def Let_def)
  have magic: "length shardMagic = 4" by (simp add: shardMagic_def str_def)
  have full: "readFull r (int (length a)) (length b) = Inr b" if "encodeShard pw h @ z = a @ b @ c" for a b c
    using that assms(2) by (simp add: readFull_def serves_def Let_def)
  have r1: "readFull r 0 8 = Inr (shardMagic @ le_u32 (word_of_nat (length ?p)))"
    using full [of "[]" "shardMagic @ le_u32 (word_of_nat (length ?p))" "?p @ z"] magic by (simp add: enc)
  have r2: "readFull r 8 (length ?p) = Inr ?p"
    using full [of "shardMagic @ le_u32 (word_of_nat (length ?p))" ?p z] magic by (simp add: enc)
  have fields: "shard_fields pw ?p (shardHeader_zero, 0) = Some (Inr (h, shardFormatVersion))"
    by (rule shard_fields_message) (rule assms(3))
  have u: "uint (word_of_nat (length ?p) :: u32) = int (length ?p)"
    using len by (simp add: unsigned_of_nat take_bit_nat_eq_self)
  show ?thesis
    using len r2 fields by (simp add: decodeShard_def r1 magic u assms(4)) (simp add: enc magic)
qed

end

section \<open>The reader\<close>

text \<open>The shards of a frame, some of them lost: at least \<open>k\<close> of the files are served.\<close>

definition survive :: "nat \<Rightarrow> bytes list \<Rightarrow> shard option list \<Rightarrow> bool" where
  "survive k fs S \<longleftrightarrow> length S = length fs \<and>
     (\<forall>i < length fs. \<forall>s. S ! i = Some s \<longrightarrow> serves s (\<lambda>_ _. True) (fs ! i)) \<and>
     k \<le> length (filter (\<lambda>s. s \<noteq> None) S)"

definition encodable :: "protowire \<Rightarrow> nat \<Rightarrow> nat \<Rightarrow> nat \<Rightarrow> RS option \<Rightarrow> (bytes list \<Rightarrow> bytes list) \<Rightarrow> bytes \<Rightarrow> bool" where
  "encodable pw k m ss rs par F \<longleftrightarrow>
     wire pw \<and> compact_wire pw \<and> params k m \<and> codec k m rs par \<and> fits k ss (length F) \<and> F \<noteq> []"

lemma encodableD:
  assumes "encodable pw k m ss rs par F"
  shows "wire pw" "compact_wire pw" "params k m" "codec k m rs par" "fits k ss (length F)" "F \<noteq> []" "0 < k" "0 < ss" "0 < k * ss"
  using assms by (simp_all add: encodable_def fits_def)

lemma decode_file:
  assumes "encodable pw k m ss rs par F" and "i < k + m" and "serves s (\<lambda>_ _. True) (front pw v (geo k m ss (length F)) i @ z)"
  shows "decodeShard pw s = Some (Inr (shard_header v (geo k m ss (length F)) i, int (length (front pw v (geo k m ss (length F)) i))))"
proof -
  note e = encodableD [OF assms(1)]
  let ?h = "shard_header v (geo k m ss (length F)) i"
  have km: "int k + int m \<le> 256" "int i < int k + int m" using e(3) assms(2) by (simp_all add: params_def)
  have "int ss \<le> int (k * ss)" using e(7) by (simp del: of_nat_mult)
  then have fit: "int ss < 2 ^ 63" "int (length F) < 2 ^ 63" "0 < length F"
    using e(5,6) unfolding fits_def by (linarith, simp_all)
  have wrap: "wrap64 (int k + int m) = int k + int m" using km by (intro wrap64_id) simp_all
  show ?thesis
    unfolding front_def
  proof (rule wire.decodeShard_front [OF e(1,2)])
    show "serves s (\<lambda>_ _. True) (encodeShard pw ?h @ z)" using assms(3) by (simp add: front_def)
    show "0 \<le> x \<and> x < 2 ^ 63" if "x \<in> {sh_index ?h, sh_k ?h, sh_m ?h, sh_sliceSize ?h, sh_frameSize ?h}" for x
      using that km fit by (auto simp: shard_header_def)
    show "check_header (?h, shardFormatVersion) = Inr ?h"
      using km fit wrap validateParams_params [OF e(3)] e(8)
      by (simp add: check_header_def shard_header_def shardFormatVersion_def)
  qed
qed

text \<open>The state of the opening loop before slot \<open>i\<close>: the survivors counted, and their payload offsets.\<close>

definition survivors :: "'a option list \<Rightarrow> nat" where
  "survivors S = length (filter (\<lambda>s. s \<noteq> None) S)"

definition payload_offs :: "protowire \<Rightarrow> version_id \<Rightarrow> geometry \<Rightarrow> shard option list \<Rightarrow> nat \<Rightarrow> int list" where
  "payload_offs pw v g S i =
     map (\<lambda>j. if j < i \<and> S ! j \<noteq> None then int (length (front pw v g j)) else - 1) [0..<length S]"

definition opened :: "protowire \<Rightarrow> version_id \<Rightarrow> geometry \<Rightarrow> shard option list \<Rightarrow> nat \<Rightarrow> open_state \<Rightarrow> bool" where
  "opened pw v g S i st \<longleftrightarrow> os_present st = int (survivors (take i S)) \<and>
     (survivors (take i S) > 0 \<longrightarrow> os_geo st = g \<and> os_id st = v \<and> os_offs st = payload_offs pw v g S i)"

lemma survivors_upt: "length (filter (\<lambda>i. S ! i \<noteq> None) [0..<length S]) = survivors S"
proof -
  have "filter (\<lambda>s. s \<noteq> None) (map (\<lambda>i. S ! i) [0..<length S]) = map (\<lambda>i. S ! i) (filter (\<lambda>i. S ! i \<noteq> None) [0..<length S])"
    by (simp add: filter_map comp_def)
  then show ?thesis by (metis length_map map_nth survivors_def)
qed

lemma survivors_Suc: "i < length S \<Longrightarrow> survivors (take (Suc i) S) = survivors (take i S) + (if S ! i = None then 0 else 1)"
  by (simp add: survivors_def take_Suc_conv_app_nth)

lemma payload_offs_skip: "i < length S \<Longrightarrow> S ! i = None \<Longrightarrow> payload_offs pw v g S (Suc i) = payload_offs pw v g S i"
  by (auto simp: payload_offs_def less_Suc_eq)

lemma payload_offs_add:
  "i < length S \<Longrightarrow> S ! i \<noteq> None \<Longrightarrow> payload_offs pw v g S (Suc i) = (payload_offs pw v g S i)[i := int (length (front pw v g i))]"
  by (rule nth_equalityI) (auto simp: payload_offs_def nth_list_update less_Suc_eq)

lemma payload_offs_none: "survivors (take i S) = 0 \<Longrightarrow> payload_offs pw v g S i = replicate (length S) (- 1)"
proof (rule nth_equalityI)
  fix j assume s: "survivors (take i S) = 0" and j: "j < length (payload_offs pw v g S i)"
  then have "S ! j \<in> set (take i S)" if "j < i"
    using that unfolding payload_offs_def by (auto simp: in_set_conv_nth intro!: exI [of _ j])
  then have "S ! j = None" if "j < i" using s that by (auto simp: survivors_def filter_empty_conv)
  then show "payload_offs pw v g S i ! j = replicate (length S) (- 1) ! j" using j by (auto simp: payload_offs_def)
qed (simp add: payload_offs_def)

lemma open_shard_opened:
  assumes "opened pw v g S i st" and "i < length S" "S ! i \<noteq> None" and "int (length S) = g_k g + g_m g"
  shows "\<exists>st'. open_shard (length S) i (shard_header v g i, int (length (front pw v g i))) st = Inr st' \<and> opened pw v g S (Suc i) st'"
proof (cases "survivors (take i S) = 0")
  case True
  have n: "nat (g_k g + g_m g) = length S" using assms(4) by simp
  show ?thesis
    using assms True payload_offs_none [OF True, of pw v g] n
    by (simp add: open_shard_def opened_def shard_header_def header_geometry_def survivors_Suc payload_offs_add)
next
  case False
  then show ?thesis
    using assms by (auto simp: open_shard_def opened_def shard_header_def header_geometry_def survivors_Suc payload_offs_add)
qed

lemma open_loop_opened:
  assumes "encodable pw k m ss rs par F" and "g = geo k m ss (length F)" and "length S = k + m"
    and "\<And>j s. j < k + m \<Longrightarrow> S ! j = Some s \<Longrightarrow> \<exists>z. serves s (\<lambda>_ _. True) (front pw v g j @ z)"
  shows "i \<le> length S \<Longrightarrow> opened pw v g S i st \<Longrightarrow>
    \<exists>st'. open_loop pw (length S) i (drop i S) st = Some (Inr st') \<and> opened pw v g S (length S) st'"
proof (induction "length S - i" arbitrary: i st)
  case (Suc n)
  then have i: "i < length S" by simp
  then have d: "drop i S = S ! i # drop (Suc i) S" by (simp add: Cons_nth_drop_Suc)
  show ?case
  proof (cases "S ! i")
    case None
    then have "opened pw v g S (Suc i) st"
      using Suc.prems i by (simp add: opened_def survivors_Suc payload_offs_skip)
    then show ?thesis using Suc.hyps(1) [of "Suc i" st] Suc.hyps(2) i by (simp add: d None)
  next
    case (Some s)
    have dec: "decodeShard pw s = Some (Inr (shard_header v g i, int (length (front pw v g i))))"
    proof -
      have "i < k + m" using i assms(3) by simp
      moreover from this obtain z where "serves s (\<lambda>_ _. True) (front pw v g i @ z)" using assms(4) Some by blast
      ultimately show ?thesis using decode_file [OF assms(1), of i s v z] by (simp add: assms(2))
    qed
    have "\<exists>st'. open_shard (length S) i (shard_header v g i, int (length (front pw v g i))) st = Inr st' \<and> opened pw v g S (Suc i) st'"
      using Suc.prems(2) i Some assms(2,3) by (intro open_shard_opened) simp_all
    then show ?thesis using Suc.hyps(1) [of "Suc i"] Suc.hyps(2) i by (auto simp: d Some dec)
  qed
qed simp

definition opened_reader ::
    "protowire \<Rightarrow> version_id \<Rightarrow> geometry \<Rightarrow> RS option \<Rightarrow> shard option list \<Rightarrow> EcReader" where
  "opened_reader pw v g rs S =
     \<lparr>er_geo = g, er_id = v, er_rs = rs, er_shards = S, er_offs = payload_offs pw v g S (length S), er_cachedIdx = - 1, er_cached = []\<rparr>"

lemma ec_NewReader_survivors:
  assumes "encodable pw k m ss rs par F" and "g = geo k m ss (length F)" and "length S = k + m"
    and "\<And>j s. j < k + m \<Longrightarrow> S ! j = Some s \<Longrightarrow> \<exists>z. serves s (\<lambda>_ _. True) (front pw v g j @ z)"
    and "k \<le> survivors S" and "new_codec New (int k) (int m) = Inr rs"
  shows "ec_NewReader pw New S = Some (Inr (opened_reader pw v g rs S))"
proof -
  have "opened pw v g S 0 open_start" by (simp add: opened_def open_start_def survivors_def)
  from open_loop_opened [OF assms(1-4) _ this] obtain st where st:
    "open_loop pw (length S) 0 S open_start = Some (Inr st)" "opened pw v g S (length S) st" by auto
  moreover have "0 < k" using assms(1) by (simp add: encodableD)
  ultimately show ?thesis
    using assms(5,6) by (simp add: ec_NewReader_def open_finish_def opened_def opened_reader_def assms(2))
qed

section \<open>Reading stripes\<close>

lemma column_length:
  assumes "encodable pw k m ss rs par F" and "si < pieces (k * ss) F" and "i < k + m"
  shows "length (column k par (k * ss) F i si) = slen k (piece (k * ss) F si)"
proof -
  note e = encodableD [OF assms(1)]
  have "piece (k * ss) F si \<noteq> []" using pieces_bounds [OF e(9) assms(2)] e(7,8) by (auto simp: piece_def)
  from stripe_all_slices [OF e(4,7) this] show ?thesis using assms(3) by (auto simp: column_def slices_def)
qed

lemma columns_length:
  assumes "encodable pw k m ss rs par F" and "si < pieces (k * ss) F" and "i < k + m"
  shows "length (columns k par (k * ss) F si i) = si * ss"
proof -
  note e = encodableD [OF assms(1)]
  have full: "length (column k par (k * ss) F i j) = ss" if "j < si" for j
  proof -
    have "Suc j * (k * ss) \<le> si * (k * ss)" using that by (intro mult_le_mono1) simp
    also have "\<dots> < length F" by (rule pieces_bounds [OF e(9) assms(2)])
    finally have "length (piece (k * ss) F j) = k * ss" by (simp add: length_piece)
    moreover have "j < pieces (k * ss) F" using that assms(2) by simp
    ultimately show ?thesis using column_length [OF assms(1) _ assms(3)] slen_full [OF e(7)] by metis
  qed
  then show ?thesis using concat_full [of "map (column k par (k * ss) F i) [0..<si]" ss] by (simp add: columns_def)
qed

definition shard_file :: "protowire \<Rightarrow> version_id \<Rightarrow> nat \<Rightarrow> nat \<Rightarrow> nat \<Rightarrow> (bytes list \<Rightarrow> bytes list) \<Rightarrow> bytes \<Rightarrow> nat \<Rightarrow> bytes" where
  "shard_file pw v k m ss par F i =
     front pw v (geo k m ss (length F)) i @ columns k par (k * ss) F (pieces (k * ss) F) i"

text \<open>The shards \<open>S\<close> that survive of the encoded frame: at least \<open>k\<close>, each serving its file.\<close>

definition survived :: "protowire \<Rightarrow> version_id \<Rightarrow> nat \<Rightarrow> nat \<Rightarrow> nat \<Rightarrow> (bytes list \<Rightarrow> bytes list) \<Rightarrow> bytes \<Rightarrow> shard option list \<Rightarrow> bool" where
  "survived pw v k m ss par F S \<longleftrightarrow> length S = k + m \<and> k \<le> survivors S \<and>
     (\<forall>i < k + m. \<forall>s. S ! i = Some s \<longrightarrow> serves s (\<lambda>_ _. True) (shard_file pw v k m ss par F i))"

definition reader_ok :: "protowire \<Rightarrow> version_id \<Rightarrow> nat \<Rightarrow> nat \<Rightarrow> nat \<Rightarrow> RS option \<Rightarrow> bytes \<Rightarrow> shard option list \<Rightarrow> EcReader \<Rightarrow> bool" where
  "reader_ok pw v k m ss rs F S r \<longleftrightarrow>
     (let g = geo k m ss (length F)
      in er_geo r = g \<and> er_rs r = rs \<and> er_shards r = S \<and> er_offs r = payload_offs pw v g S (length S) \<and> er_id r = v \<and>
         (er_cachedIdx r = - 1 \<or>
          (\<exists>si < pieces (k * ss) F. er_cachedIdx r = int si \<and> er_cached r = piece (k * ss) F si)))"

lemma readFull_at:
  assumes "serves s (\<lambda>_ _. True) (a @ b @ c)"
  shows "readFull s (int (length a)) (length b) = Inr b"
  using assms by (simp add: readFull_def serves_def Let_def)

lemma length_front: "wire pw \<Longrightarrow> compact_wire pw \<Longrightarrow> length (front pw v g i) \<le> 208"
  using wire.length_shard_message [of pw "shard_header v g i"]
  by (simp add: front_def encodeShard_def Let_def shardMagic_def str_def)

lemma shard_file_split:
  assumes "si < pieces (k * ss) F"
  shows "\<exists>c. shard_file pw v k m ss par F i =
    (front pw v (geo k m ss (length F)) i @ columns k par (k * ss) F si i) @ column k par (k * ss) F i si @ c"
proof -
  have "[0..<pieces (k * ss) F] = [0..<si] @ si # [Suc si..<pieces (k * ss) F]"
    using assms upt_add_eq_append [of 0 si "pieces (k * ss) F - si"] by (simp add: upt_conv_Cons)
  then show ?thesis by (simp add: shard_file_def columns_def)
qed

lemma read_slice_column:
  assumes "encodable pw k m ss rs par F" and "survived pw v k m ss par F S" and "reader_ok pw v k m ss rs F S r"
    and "si < pieces (k * ss) F" and "i < k + m" and "S ! i \<noteq> None"
  shows "read_slice r (stripeSlice (geo k m ss (length F)) (int si)) i = Inr (column k par (k * ss) F i si)"
proof -
  note e = encodableD [OF assms(1)]
  let ?f = "front pw v (geo k m ss (length F)) i" and ?cs = "columns k par (k * ss) F si i"
  obtain s where s: "S ! i = Some s" using assms(6) by auto
  have sv: "length S = k + m" "serves s (\<lambda>_ _. True) (shard_file pw v k m ss par F i)"
    using assms(2,5) s by (auto simp: survived_def)
  obtain c where c: "shard_file pw v k m ss par F i = (?f @ ?cs) @ column k par (k * ss) F i si @ c"
    using shard_file_split [OF assms(4)] by blast
  have ls: "stripeSlice (geo k m ss (length F)) (int si) = (int (length (column k par (k * ss) F i si)), int (length ?cs))"
    using stripeSlice_geo [OF e(5) assms(4)] column_length [OF assms(1,4,5)] columns_length [OF assms(1,4,5)] by simp
  have "si * ss \<le> si * (k * ss)" using e(7) by simp
  also have "\<dots> < length F" by (rule pieces_bounds [OF e(9) assms(4)])
  finally have "length (?f @ ?cs) \<le> 208 + length F"
    using columns_length [OF assms(1,4,5)] length_front [OF e(1,2), of v "geo k m ss (length F)" i] by simp
  then have "int (length (?f @ ?cs)) < 2 ^ 63" using e(5) unfolding fits_def by linarith
  then have w: "wrap64 (int (length ?f) + int (length ?cs)) = int (length (?f @ ?cs))"
    using wrap64_nat [of "length (?f @ ?cs)"] by simp
  have off: "er_offs r ! i = int (length ?f)" "er_shards r ! i = Some s"
    using assms(3,5) s sv(1) by (simp_all add: reader_ok_def payload_offs_def Let_def)
  show ?thesis
    using readFull_at [OF sv(2) [unfolded c]] unfolding read_slice_def off ls fst_conv snd_conv w by simp
qed

lemma read_each_Inr: "(\<And>i. i \<in> set js \<Longrightarrow> rd i = Inr (X i)) \<Longrightarrow> read_each rd js = Inr (map (\<lambda>i. Some (X i)) js)"
  by (induction js) simp_all

lemma gather_Inr:
  assumes "\<And>i. i \<in> set js \<Longrightarrow> \<not> absent i \<Longrightarrow> rd i = Inr (X i)"
  shows "got \<le> k \<Longrightarrow> \<exists>bs. gather rd absent (int k) (int got) js = Inr bs \<and> length bs = length js \<and>
    (\<forall>j < length js. bs ! j = None \<or> bs ! j = Some (X (js ! j))) \<and>
    survivors bs = min (k - got) (length (filter (\<lambda>i. \<not> absent i) js))"
  using assms
proof (induction js arbitrary: got)
  case (Cons i js)
  show ?case
  proof (cases "absent i \<or> got = k")
    case True
    from Cons.IH [OF Cons.prems(1)] Cons.prems(2) obtain bs where
      "gather rd absent (int k) (int got) js = Inr bs" "length bs = length js"
      "\<forall>j < length js. bs ! j = None \<or> bs ! j = Some (X (js ! j))"
      "survivors bs = min (k - got) (length (filter (\<lambda>i. \<not> absent i) js))" by auto
    then show ?thesis using True by (auto simp: nth_Cons' survivors_def)
  next
    case False
    then have "Suc got \<le> k" using Cons.prems(1) by simp
    from Cons.IH [OF this] Cons.prems(2) obtain bs where
      "gather rd absent (int k) (int got + 1) js = Inr bs" "length bs = length js"
      "\<forall>j < length js. bs ! j = None \<or> bs ! j = Some (X (js ! j))"
      "survivors bs = min (k - Suc got) (length (filter (\<lambda>i. \<not> absent i) js))" by (auto simp: add.commute)
    moreover have "rd i = Inr (X i)" using Cons.prems(2) False by simp
    ultimately show ?thesis using False \<open>Suc got \<le> k\<close> by (auto simp: nth_Cons' survivors_def)
  qed
qed (simp add: survivors_def)

lemma stripe_slices_data:
  assumes "encodable pw k m ss rs par F" and "survived pw v k m ss par F S" and "reader_ok pw v k m ss rs F S r"
    and "si < pieces (k * ss) F"
  shows "\<exists>bs. stripe_slices r (int si) = Inr bs \<and> take k bs = map Some (stripe_data k (piece (k * ss) F si))"
proof -
  note e = encodableD [OF assms(1)]
  let ?X = "stripe_all k par (piece (k * ss) F si)" and ?D = "stripe_data k (piece (k * ss) F si)"
  let ?rd = "read_slice r (stripeSlice (geo k m ss (length F)) (int si))"
  have g: "er_geo r = geo k m ss (length F)" "er_rs r = rs" using assms(3) by (simp_all add: reader_ok_def Let_def)
  have S: "length S = k + m" "k \<le> survivors S" using assms(2) by (simp_all add: survived_def)
  have off: "er_offs r ! i < 0 \<longleftrightarrow> S ! i = None" if "i < k + m" for i
    using assms(3) that S(1) by (simp add: reader_ok_def payload_offs_def Let_def)
  have rd: "?rd i = Inr (?X ! i)" if "i < k + m" "S ! i \<noteq> None" for i
    using read_slice_column [OF assms that] by (simp add: column_def)
  have lenD: "length ?D = k" using stripe_data_slices [OF e(7)] by (simp add: slices_def)
  have nth: "map (\<lambda>i. Some (?X ! i)) [0..<k] = map Some ?D"
    by (rule nth_equalityI) (simp_all add: lenD stripe_all_def nth_append)
  have nat: "nat (g_k (er_geo r)) = k" "nat (g_k (er_geo r) + g_m (er_geo r)) = k + m" by (simp_all add: g)
  show ?thesis
  proof (cases "\<exists>i < k. er_offs r ! i < 0")
    case False
    then have "read_each ?rd [0..<k] = Inr (map Some ?D)"
      using read_each_Inr [of "[0..<k]" ?rd "\<lambda>i. ?X ! i"] rd off unfolding nth by auto
    then show ?thesis using False lenD unfolding stripe_slices_def Let_def nat g(1) by simp
  next
    case True
    then obtain i0 where "i0 < k" "S ! i0 = None" using off by auto
    then have "m \<noteq> 0"
    proof -
      assume i0: "i0 < k" "S ! i0 = None"
      have "survivors S < length S"
        unfolding survivors_def using i0 S(1) nth_mem [of i0 S] by (intro length_filter_less [of "S ! i0"]) simp_all
      then show "m \<noteq> 0" using S by simp
    qed
    then obtain rs' where rs': "rs = Some rs'" "rs_codec k m rs' par" using e(4) by (cases rs) (auto simp: codec_def)
    have "\<exists>bs. gather ?rd (\<lambda>i. er_offs r ! i < 0) (int k) (int 0) [0..<k + m] = Inr bs \<and> length bs = length [0..<k + m] \<and>
        (\<forall>j < length [0..<k + m]. bs ! j = None \<or> bs ! j = Some (?X ! ([0..<k + m] ! j))) \<and>
        survivors bs = min (k - 0) (length (filter (\<lambda>i. \<not> er_offs r ! i < 0) [0..<k + m]))"
      by (rule gather_Inr) (use rd off in auto)
    then obtain bs where bs: "gather ?rd (\<lambda>i. er_offs r ! i < 0) (int k) 0 [0..<k + m] = Inr bs" "length bs = k + m"
      "\<forall>j < k + m. bs ! j = None \<or> bs ! j = Some (?X ! j)"
      "survivors bs = min k (length (filter (\<lambda>i. \<not> er_offs r ! i < 0) [0..<k + m]))" by auto
    have "length (filter (\<lambda>i. \<not> er_offs r ! i < 0) [0..<k + m]) = survivors S"
    proof -
      have "filter (\<lambda>i. \<not> er_offs r ! i < 0) [0..<k + m] = filter (\<lambda>i. S ! i \<noteq> None) [0..<length S]"
        using S(1) by (intro filter_cong) (use off in auto)
      then show ?thesis by (simp only: survivors_upt)
    qed
    have ne: "piece (k * ss) F si \<noteq> []" using pieces_bounds [OF e(9) assms(4)] e(7,8) by (auto simp: piece_def)
    then have l: "0 < slen k (piece (k * ss) F si)" using e(7) by (simp add: slen_pos_iff)
    have lenX: "length ?X = k + m" using stripe_all_slices [OF e(4,7) ne] by (simp add: slices_def)
    have "surviving k (?D @ par ?D) bs"
      using bs \<open>length (filter (\<lambda>i. \<not> er_offs r ! i < 0) [0..<k + m]) = survivors S\<close> S(2) lenX
      by (simp add: surviving_def stripe_all_def survivors_def)
    then obtain bs' where "ReconstructData rs' bs = Some bs'" "take k bs' = map Some ?D"
      using rs_codecD(3) [OF rs'(2) l stripe_data_slices [OF e(7)]] by blast
    then show ?thesis using True bs(1) unfolding stripe_slices_def Let_def nat g by (simp add: rs'(1) nat_int_add)
  qed
qed

lemma ec_stripeData_piece:
  assumes "encodable pw k m ss rs par F" and "survived pw v k m ss par F S" and "reader_ok pw v k m ss rs F S r"
    and "si < pieces (k * ss) F"
  shows "\<exists>r'. ec_stripeData r (int si) = (r', Inr (piece (k * ss) F si)) \<and> reader_ok pw v k m ss rs F S r'"
proof (cases "int si = er_cachedIdx r")
  case True
  then show ?thesis using assms(3) by (auto simp: ec_stripeData_def reader_ok_def Let_def)
next
  case False
  note e = encodableD [OF assms(1)]
  let ?q = "piece (k * ss) F si"
  obtain bs where bs: "stripe_slices r (int si) = Inr bs" "take k bs = map Some (stripe_data k ?q)"
    using stripe_slices_data [OF assms] by blast
  have g: "er_geo r = geo k m ss (length F)" using assms(3) by (simp add: reader_ok_def Let_def)
  have join: "join_data k bs = concat (stripe_data k ?q)" by (simp add: join_data_def bs(2) comp_def)
  have len: "length ?q \<le> length (concat (stripe_data k ?q))"
    using slen_covers [OF e(7), of ?q] by (simp add: stripe_data_def concat_slice_up length_padded [OF e(7)])
  have "ec_stripeData r (int si) = (r\<lparr>er_cachedIdx := int si, er_cached := ?q\<rparr>, Inr ?q)"
    using False bs(1) len concat_stripe_data [OF e(7), of ?q] geometry_stripeData_geo [OF e(5) assms(4), of m]
    by (simp add: ec_stripeData_def Let_def g join)
  moreover have "reader_ok pw v k m ss rs F S (r\<lparr>er_cachedIdx := int si, er_cached := ?q\<rparr>)"
    using assms(3,4) by (auto simp: reader_ok_def Let_def)
  ultimately show ?thesis by blast
qed

lemma ec_ReadAt_loop_frame:
  assumes "encodable pw k m ss rs par F" and "survived pw v k m ss par F S"
  shows "reader_ok pw v k m ss rs F S r \<Longrightarrow> length p \<le> want \<Longrightarrow>
    \<exists>r'. ec_ReadAt_loop r want p (int off) =
      Some (r', p @ take (want - length p) (drop off F), if length p + (length F - off) < want then Some None else None) \<and>
      reader_ok pw v k m ss rs F S r'"
proof (induction "want - length p" arbitrary: r p off rule: less_induct)
  case less
  note e = encodableD [OF assms(1)]
  let ?sb = "k * ss"
  have g: "er_geo r = geo k m ss (length F)" using less.prems(1) by (simp add: reader_ok_def Let_def)
  show ?case
  proof (cases "length p < want \<and> off < length F")
    case True
    let ?i = "off div ?sb" and ?m = "want - length p"
    define q where "q = take ?m (drop (off mod ?sb) (piece ?sb F ?i))"
    have m: "0 < ?m" using True by simp
    note step = piece_read_step [OF e(9) conjunct2 [OF True] m, folded q_def]
    have i: "?i < pieces ?sb F" using True by (intro pieces_div [OF e(9)]) simp
    obtain r' where r': "ec_stripeData r (int ?i) = (r', Inr (piece ?sb F ?i))" "reader_ok pw v k m ss rs F S r'"
      using ec_stripeData_piece [OF assms less.prems(1) i] by blast
    have fit: "int (length F) < 2 ^ 63" using e(5) by (simp add: fits_def)
    have "?i * ?sb \<le> off" "off - ?i * ?sb = off mod ?sb" by (simp_all add: minus_div_mult_eq_mod)
    then have w1: "wrap64 (int (?i * ?sb)) = int (?i * ?sb)" and w2: "int off - int (?i * ?sb) = int (off mod ?sb)"
      using True fit wrap64_nat [of "?i * ?sb"] by (linarith, simp add: of_nat_diff [symmetric] del: of_nat_mult)
    have w3: "wrap64 (int (off mod ?sb)) = int (off mod ?sb)"
      using True fit mod_less_eq_dividend [of off ?sb] wrap64_nat [of "off mod ?sb"] by linarith
    have "ec_ReadAt_loop r want p (int off) = ec_ReadAt_loop r' want (p @ q) (int (off + length q))"
      using True step(1) e(9) r'(1)
      by (subst ec_ReadAt_loop.simps)
        (simp add: g stripeBytes_geo [OF e(5)] sdiv_nat Let_def q_def w1 w2 w3 of_nat_mult [symmetric] del: of_nat_mult)
    moreover have "want - length (p @ q) < want - length p" "length (p @ q) \<le> want"
      unfolding length_append using step(2,3) True less.prems by linarith+
    from less.hyps [OF this(1) r'(2) this(2), of "off + length q"] obtain r'' where
      "ec_ReadAt_loop r' want (p @ q) (int (off + length q)) =
        Some (r'', (p @ q) @ take (want - length (p @ q)) (drop (off + length q) F),
          if length (p @ q) + (length F - (off + length q)) < want then Some None else None)"
      "reader_ok pw v k m ss rs F S r''" by blast
    moreover have "(p @ q) @ take (want - length (p @ q)) (drop (off + length q) F) = p @ take ?m (drop off F)"
      using step(4) by (simp add: diff_diff_left)
    moreover have "length (p @ q) + (length F - (off + length q)) = length p + (length F - off)"
      using step(5) by simp
    ultimately show ?thesis by metis
  next
    case False
    then show ?thesis using less.prems by (subst ec_ReadAt_loop.simps) (auto simp: g)
  qed
qed

end
