(* ===== verification/Erasure_Rebuild.thy ===== *)
theory Erasure_Rebuild
  imports Erasure_Props
begin

text \<open>
  The rebuild of lost shards: it writes the bytes the encoder wrote, and what it hashed is what it
  read and wrote.
\<close>

section \<open>The state of a rebuild\<close>

text \<open>\<open>T\<close> are the targets, \<open>A i\<close> what target \<open>i\<close> has been written, \<open>H i\<close> what hash \<open>i\<close> has been fed.\<close>

definition rb :: "nat \<Rightarrow> (nat \<Rightarrow> bool) \<Rightarrow> (nat \<Rightarrow> bytes) \<Rightarrow> (nat \<Rightarrow> bytes option) \<Rightarrow> bytes rebuild_state" where
  "rb n T A H = \<lparr>rb_sinks = map (\<lambda>i. if T i then Some (A i) else None) [0..<n], rb_hashes = map H [0..<n]\<rparr>"

definition fed :: "bytes option \<Rightarrow> bytes \<Rightarrow> bytes option" where
  "fed h b = Some ((case h of None \<Rightarrow> [] | Some x \<Rightarrow> x) @ b)"

lemma map_upt_update: "i < n \<Longrightarrow> (map f [0..<n])[i := x] = map (f(i := x)) [0..<n]"
  by (rule nth_equalityI) (auto simp: nth_list_update)

lemma feed_rb: "i < n \<Longrightarrow> feed i b (rb n T A H) = rb n T A (H(i := fed (H i) b))"
  by (simp add: feed_def rb_def map_upt_update fed_def)

lemma emit_rb:
  assumes "i < n" and "T i"
  shows "emit buf_write i (A i) b (rb n T A H) = (rb n T (A(i := A i @ b)) (H(i := fed (H i) b)), True)"
proof -
  have "(map (\<lambda>i. if T i then Some (A i) else None) [0..<n])[i := Some (A i @ b)] =
      map (\<lambda>j. if T j then Some ((A(i := A i @ b)) j) else None) [0..<n]"
    using assms by (intro nth_equalityI) (auto simp: nth_list_update)
  then have "(rb n T A H)\<lparr>rb_sinks := (rb_sinks (rb n T A H))[i := Some (A i @ b)]\<rparr> = rb n T (A(i := A i @ b)) H"
    by (simp add: rb_def)
  then show ?thesis
    using assms(1) by (simp add: emit_def buf_write_def Let_def feed_rb)
qed

lemma rb_sinks_nth: "i < n \<Longrightarrow> rb_sinks (rb n T A H) ! i = (if T i then Some (A i) else None)"
  by (simp add: rb_def)

lemma rb_cong: "(\<And>i. i < n \<Longrightarrow> T i \<Longrightarrow> A i = A' i) \<Longrightarrow> (\<And>i. i < n \<Longrightarrow> H i = H' i) \<Longrightarrow> rb n T A H = rb n T A' H'"
  by (auto simp: rb_def)

section \<open>The loops\<close>

lemma rebuild_headers_rb:
  assumes "\<And>i. i < n \<Longrightarrow> er_shards r ! i \<noteq> None \<Longrightarrow> \<not> T i \<and> readFull (the (er_shards r ! i)) 0 (nat (er_offs r ! i)) = Inr (hdr i)"
    and "\<And>i. encodeShard pw (shard_header (er_id r) (er_geo r) i) = hdr i"
  shows "distinct js \<Longrightarrow> set js \<subseteq> {..<n} \<Longrightarrow> rebuild_headers buf_write pw r js (rb n T A H) =
    (rb n T (\<lambda>i. if i \<in> set js \<and> T i then A i @ hdr i else A i)
       (\<lambda>i. if i \<in> set js \<and> (T i \<or> er_shards r ! i \<noteq> None) then fed (H i) (hdr i) else H i), None)"
proof (induction js arbitrary: A H)
  case (Cons j js)
  have j: "j < n" "j \<notin> set js" "distinct js" "set js \<subseteq> {..<n}" using Cons.prems by auto
  show ?case
  proof (cases "er_shards r ! j")
    case (Some s)
    then show ?thesis
      using assms(1) [OF j(1)] Cons.IH [OF j(3,4)] j
      by (auto simp: feed_rb intro!: rb_cong)
  next
    case None
    then show ?thesis
      using Cons.IH [OF j(3,4)] j emit_rb [of j n T A "hdr j" H]
      by (cases "T j") (auto simp: rb_sinks_nth assms(2) intro!: rb_cong)
  qed
qed simp

lemma read_survivors_rb:
  assumes "\<And>i. i < n \<Longrightarrow> er_shards r ! i \<noteq> None \<Longrightarrow> read_slice r ls i = Inr (X i)"
  shows "distinct js \<Longrightarrow> set js \<subseteq> {..<n} \<Longrightarrow> read_survivors r ls js (rb n T A H) =
    (rb n T A (\<lambda>i. if i \<in> set js \<and> er_shards r ! i \<noteq> None then fed (H i) (X i) else H i),
     Inr (map (\<lambda>i. if er_shards r ! i = None then None else Some (X i)) js))"
proof (induction js arbitrary: H)
  case (Cons j js)
  have j: "j < n" "j \<notin> set js" "distinct js" "set js \<subseteq> {..<n}" using Cons.prems by auto
  show ?case
  proof (cases "er_shards r ! j")
    case (Some s)
    then show ?thesis using assms [OF j(1)] Cons.IH [OF j(3,4)] j by (auto simp: feed_rb intro!: rb_cong)
  next
    case None
    then show ?thesis using Cons.IH [OF j(3,4)] by (auto intro!: rb_cong)
  qed
qed simp

lemma emit_slices_rb:
  assumes "\<And>i. i < n \<Longrightarrow> T i \<Longrightarrow> bs ! i = Some (X i)"
  shows "distinct js \<Longrightarrow> set js \<subseteq> {..<n} \<Longrightarrow> emit_slices buf_write bs js (rb n T A H) =
    (rb n T (\<lambda>i. if i \<in> set js \<and> T i then A i @ X i else A i) (\<lambda>i. if i \<in> set js \<and> T i then fed (H i) (X i) else H i), None)"
proof (induction js arbitrary: A H)
  case (Cons j js)
  have j: "j < n" "j \<notin> set js" "distinct js" "set js \<subseteq> {..<n}" using Cons.prems by auto
  show ?case
    using Cons.IH [OF j(3,4)] j assms [OF j(1)] emit_rb [of j n T A "X j" H]
    by (cases "T j") (auto simp: rb_sinks_nth intro!: rb_cong)
qed simp

lemma rebuild_stripe_rb:
  assumes "length (er_shards r) = n" and "\<And>i. i < n \<Longrightarrow> T i \<Longrightarrow> er_shards r ! i = None"
    and "\<And>i. i < n \<Longrightarrow> er_shards r ! i \<noteq> None \<Longrightarrow> read_slice r (stripeSlice (er_geo r) si) i = Inr (X i)"
    and "ReconstructAll rs (map (\<lambda>i. if er_shards r ! i = None then None else Some (X i)) [0..<n]) = Some bs"
    and "\<And>i. i < n \<Longrightarrow> T i \<Longrightarrow> bs ! i = Some (X i)"
  shows "rebuild_stripe buf_write rs r si (rb n T A H) =
    (rb n T (\<lambda>i. A i @ X i) (\<lambda>i. if T i \<or> er_shards r ! i \<noteq> None then fed (H i) (X i) else H i), None)"
proof -
  have 1: "read_survivors r (stripeSlice (er_geo r) si) [0..<n] (rb n T A H) =
      (rb n T A (\<lambda>i. if i \<in> set [0..<n] \<and> er_shards r ! i \<noteq> None then fed (H i) (X i) else H i),
       Inr (map (\<lambda>i. if er_shards r ! i = None then None else Some (X i)) [0..<n]))"
    by (rule read_survivors_rb [OF assms(3)]) auto
  have 2: "emit_slices buf_write bs [0..<n] (rb n T A H) =
      (rb n T (\<lambda>i. if i \<in> set [0..<n] \<and> T i then A i @ X i else A i)
        (\<lambda>i. if i \<in> set [0..<n] \<and> T i then fed (H i) (X i) else H i), None)" for H
    by (rule emit_slices_rb [OF assms(5)]) auto
  show ?thesis
    by (simp only: rebuild_stripe_def Let_def assms(1,4) 1 2 prod.case sum.case option.case)
      (auto intro!: rb_cong simp: assms(2))
qed

text \<open>A hash fed in pieces.\<close>

lemma fed_Some: "fed (Some h) b = Some (h @ b)"
  by (simp add: fed_def)

lemma rebuild_stripes_rb:
  assumes "\<And>si A H. si \<in> set sis \<Longrightarrow> rebuild_stripe buf_write rs r (int si) (rb n T A H) =
    (rb n T (\<lambda>i. A i @ X i si) (\<lambda>i. if P i then fed (H i) (X i si) else H i), None)"
  shows "rebuild_stripes buf_write rs r sis (rb n T A (\<lambda>i. if P i then Some (h i) else None)) =
    (rb n T (\<lambda>i. A i @ concat (map (X i) sis)) (\<lambda>i. if P i then Some (h i @ concat (map (X i) sis)) else None), None)"
  using assms
proof (induction sis arbitrary: A h)
  case (Cons si sis)
  have "(\<lambda>i. if P i then fed (if P i then Some (h i) else None) (X i si) else if P i then Some (h i) else None) =
    (\<lambda>i. if P i then Some (h i @ X i si) else None)"
    by (auto simp: fed_Some)
  then have "rebuild_stripe buf_write rs r (int si) (rb n T A (\<lambda>i. if P i then Some (h i) else None)) =
      (rb n T (\<lambda>i. A i @ X i si) (\<lambda>i. if P i then Some (h i @ X i si) else None), None)"
    using Cons.prems [of si] by simp
  then show ?case using Cons.IH [OF Cons.prems] by (simp cong: if_cong)
qed (simp cong: if_cong)

section \<open>The whole rebuild\<close>

lemma verdict_ok:
  assumes "\<And>i h. i \<in> set js \<Longrightarrow> hs ! i = Some h \<Longrightarrow> sha256 h = cs ! i"
  shows "verdict sha256 S cs hs js = None"
  using assms by (induction js) (auto split: option.split)

lemma survived_surviving:
  assumes "encodable pw k m ss rs par F" and "survived pw v k m ss par F S" and "si < pieces (k * ss) F"
  shows "surviving k (stripe_all k par (piece (k * ss) F si))
    (map (\<lambda>i. if S ! i = None then None else Some (column k par (k * ss) F i si)) [0..<k + m])"
proof -
  note e = encodableD [OF assms(1)]
  have ne: "piece (k * ss) F si \<noteq> []" using pieces_bounds [OF e(9) assms(3)] e(7,8) by (auto simp: piece_def)
  have len: "length (stripe_all k par (piece (k * ss) F si)) = k + m"
    using stripe_all_slices [OF e(4,7) ne] by (simp add: slices_def)
  have S: "length S = k + m" "k \<le> survivors S" using assms(2) by (simp_all add: survived_def)
  have "length (filter (\<lambda>s. s \<noteq> None) (map (\<lambda>i. if S ! i = None then None else Some (column k par (k * ss) F i si)) [0..<k + m]))
      = length (filter (\<lambda>i. S ! i \<noteq> None) [0..<k + m])"
    by (simp add: filter_map comp_def cong: filter_cong)
  also have "\<dots> = survivors S" using S(1) survivors_upt [of S] by simp
  finally show ?thesis using S(2) len by (simp add: surviving_def column_def)
qed

lemma Reconstruct_rebuilds:
  assumes "encodable pw k m ss rs par F" and "survived pw v k m ss par F S" and "new_codec New (int k) (int m) = Inr rs" and "0 < m"
    and "\<And>i. i < k + m \<Longrightarrow> T i \<Longrightarrow> S ! i = None"
  shows "Reconstruct buf_write pw New sha256 S (Some (map (\<lambda>i. sha256 (shard_file pw v k m ss par F i)) [0..<k + m]))
      (map (\<lambda>i. if T i then Some [] else None) [0..<k + m]) =
    Some (map (\<lambda>i. if T i then Some (shard_file pw v k m ss par F i) else None) [0..<k + m], None)"
proof -
  note e = encodableD [OF assms(1)]
  define g where "g = geo k m ss (length F)"
  let ?n = "k + m" and ?f = "shard_file pw v k m ss par F" and ?X = "column k par (k * ss) F" and ?N = "pieces (k * ss) F"
  let ?r = "opened_reader pw v g rs S"
  have S: "length S = ?n" "k \<le> survivors S" "\<And>i s. i < ?n \<Longrightarrow> S ! i = Some s \<Longrightarrow> serves s (\<lambda>_ _. True) (?f i)"
    using assms(2) by (auto simp: survived_def)
  have new: "ec_NewReader pw New S = Some (Inr ?r)"
    by (rule ec_NewReader_survivors [OF assms(1) g_def S(1) _ S(2) assms(3)])
      (use S(3) in \<open>auto simp: shard_file_def g_def [symmetric]\<close>)
  have ok: "reader_ok pw v k m ss rs F S ?r" by (simp add: reader_ok_def opened_reader_def g_def Let_def)
  obtain rs' where rs': "rs = Some rs'" "rs_codec k m rs' par" using e(4) assms(4) by (cases rs) (auto simp: codec_def)
  have hdr: "readFull (the (S ! i)) 0 (nat (er_offs ?r ! i)) = Inr (front pw v g i)" if "i < ?n" "S ! i \<noteq> None" for i
  proof -
    from that(2) obtain s where s: "S ! i = Some s" by auto
    have "serves s (\<lambda>_ _. True) ([] @ front pw v g i @ columns k par (k * ss) F ?N i)"
      using S(3) [OF that(1) s] by (simp add: shard_file_def g_def)
    from readFull_at [OF this] show ?thesis
      using that S(1) s by (simp add: opened_reader_def payload_offs_def)
  qed
  have sel: "er_shards ?r = S" "er_geo ?r = g" "er_id ?r = v" "er_rs ?r = rs" by (simp_all add: opened_reader_def)
  have rsel: "er_rs ?r = Some rs'" using sel(4) rs'(1) by simp
  let ?P = "\<lambda>i. T i \<or> er_shards ?r ! i \<noteq> None"
  have "rebuild_headers buf_write pw ?r [0..<?n] (rb ?n T (\<lambda>_. []) (\<lambda>_. None)) =
      (rb ?n T (\<lambda>i. if i \<in> set [0..<?n] \<and> T i then [] @ front pw v g i else [])
        (\<lambda>i. if i \<in> set [0..<?n] \<and> ?P i then fed None (front pw v g i) else None), None)"
    by (rule rebuild_headers_rb) (use assms(5) hdr in \<open>auto simp: sel front_def\<close>)
  also have "rb ?n T (\<lambda>i. if i \<in> set [0..<?n] \<and> T i then [] @ front pw v g i else [])
        (\<lambda>i. if i \<in> set [0..<?n] \<and> ?P i then fed None (front pw v g i) else None) =
      rb ?n T (front pw v g) (\<lambda>i. if ?P i then Some (front pw v g i) else None)"
    by (rule rb_cong) (auto simp: fed_def)
  finally have headers: "rebuild_headers buf_write pw ?r [0..<?n] (rb ?n T (\<lambda>_. []) (\<lambda>_. None)) =
      (rb ?n T (front pw v g) (\<lambda>i. if ?P i then Some (front pw v g i) else None), None)" .
  have stripe: "rebuild_stripe buf_write rs' ?r (int si) (rb ?n T A H) =
      (rb ?n T (\<lambda>i. A i @ ?X i si) (\<lambda>i. if ?P i then fed (H i) (?X i si) else H i), None)" if "si \<in> set [0..<?N]" for si A H
  proof -
    let ?q = "piece (k * ss) F si"
    have si: "si < ?N" using that by simp
    have ne: "?q \<noteq> []" using pieces_bounds [OF e(9) si] e(7,8) by (auto simp: piece_def)
    then have l: "0 < slen k ?q" using e(7) by (simp add: slen_pos_iff)
    have "ReconstructAll rs' (map (\<lambda>i. if S ! i = None then None else Some (?X i si)) [0..<?n]) = Some (map Some (stripe_all k par ?q))"
      using rs_codecD(4) [OF rs'(2) l stripe_data_slices [OF e(7)]] survived_surviving [OF assms(1,2) si]
      by (simp add: stripe_all_def)
    moreover have "length (stripe_all k par ?q) = ?n" using stripe_all_slices [OF e(4,7) ne] by (simp add: slices_def)
    ultimately show ?thesis
      using assms(5) S(1) read_slice_column [OF assms(1,2) ok si, folded g_def]
      by (intro rebuild_stripe_rb [where bs = "map Some (stripe_all k par ?q)"]) (auto simp: sel column_def)
  qed
  have N: "[0..<nat (stripes g)] = [0..<?N]" using stripes_geo [OF e(5), of m] by (simp add: g_def)
  have f: "?f = (\<lambda>i. front pw v g i @ concat (map (?X i) [0..<?N]))"
    by (simp add: fun_eq_iff shard_file_def columns_def g_def)
  have body: "rebuild_stripes buf_write rs' ?r [0..<nat (stripes g)]
        (rb ?n T (front pw v g) (\<lambda>i. if ?P i then Some (front pw v g i) else None)) =
      (rb ?n T ?f (\<lambda>i. if ?P i then Some (?f i) else None), None)"
    unfolding N f by (rule rebuild_stripes_rb [OF stripe])
  have v: "verdict sha256 S (map (\<lambda>i. sha256 (?f i)) [0..<?n]) (rb_hashes (rb ?n T ?f (\<lambda>i. if ?P i then Some (?f i) else None))) [0..<?n] = None"
    by (rule verdict_ok) (auto simp: rb_def split: if_splits)
  have roles: "\<not> both_roles S (map (\<lambda>i. if T i then Some [] else None) [0..<?n])"
    using assms(5) S(1) by (auto simp: both_roles_def)
  have start: "\<lparr>rb_sinks = map (\<lambda>i. if T i then Some [] else None) [0..<?n], rb_hashes = replicate ?n None\<rparr> = rb ?n T (\<lambda>_. []) (\<lambda>_. None)"
    by (simp add: rb_def map_replicate_const)
  have sb: "stripeBytes g \<noteq> 0" using stripeBytes_geo [OF e(5), of m] e(9) by (simp add: g_def)
  show ?thesis
    by (simp only: Reconstruct_def new option.case sum.case rsel Let_def S(1) length_map length_upt diff_zero if_False simp_thms
        roles start headers prod.case sel(2) sb body v) (simp add: rb_def)
qed

section \<open>What was hashed\<close>

text \<open>
  Whatever the shards hold: a target's hash was fed exactly what the target was written, and it exists once the header
  of the target is out (the indices \<open>D\<close>).
\<close>

definition tracked :: "nat \<Rightarrow> (nat \<Rightarrow> bool) \<Rightarrow> nat set \<Rightarrow> bytes rebuild_state \<Rightarrow> bool" where
  "tracked n T D st \<longleftrightarrow> length (rb_sinks st) = n \<and> length (rb_hashes st) = n \<and>
     (\<forall>i < n. (rb_sinks st ! i \<noteq> None) = T i \<and>
        (T i \<longrightarrow> rb_sinks st ! i = Some (case rb_hashes st ! i of None \<Rightarrow> [] | Some h \<Rightarrow> h)) \<and>
        (i \<in> D \<and> T i \<longrightarrow> rb_hashes st ! i \<noteq> None))"

lemma tracked_feed: "tracked n T D st \<Longrightarrow> i < n \<Longrightarrow> \<not> T i \<Longrightarrow> tracked n T D (feed i b st)"
  by (auto simp: tracked_def feed_def nth_list_update)

lemma tracked_emit:
  assumes "tracked n T D st" and "i < n" and "rb_sinks st ! i = Some s"
  shows "\<exists>st'. emit buf_write i s b st = (st', True) \<and> tracked n T (insert i D) st'"
  using assms by (auto simp: tracked_def emit_def feed_def buf_write_def nth_list_update)

lemma tracked_skip: "tracked n T D st \<Longrightarrow> \<not> T i \<Longrightarrow> tracked n T (insert i D) st"
  by (auto simp: tracked_def)

lemma tracked_headers:
  assumes "\<And>i. i < n \<Longrightarrow> er_shards r ! i \<noteq> None \<Longrightarrow> \<not> T i"
  shows "tracked n T D st \<Longrightarrow> set js \<subseteq> {..<n} \<Longrightarrow> rebuild_headers buf_write pw r js st = (st', None) \<Longrightarrow> tracked n T (D \<union> set js) st'"
proof (induction js arbitrary: D st)
  case (Cons j js)
  have j: "j < n" "set js \<subseteq> {..<n}" using Cons.prems by auto
  show ?case
  proof (cases "er_shards r ! j")
    case (Some s)
    then obtain hdr where "rebuild_headers buf_write pw r js (feed j hdr st) = (st', None)"
      using Cons.prems(3) by (auto split: sum.splits)
    moreover have "\<not> T j" using assms j Some by auto
    ultimately show ?thesis using Cons.IH [of "insert j D" "feed j hdr st"] Cons.prems(1) j
      by (simp add: tracked_feed tracked_skip)
  next
    case None
    show ?thesis
    proof (cases "rb_sinks st ! j")
      case None
      then have "\<not> T j" using Cons.prems(1) j by (auto simp: tracked_def)
      then show ?thesis
        using Cons.IH [of "insert j D" st] Cons.prems j None \<open>er_shards r ! j = None\<close> by (simp add: tracked_skip)
    next
      case (Some s)
      obtain st1 where st1: "emit buf_write j s (encodeShard pw (shard_header (er_id r) (er_geo r) j)) st = (st1, True)"
        "tracked n T (insert j D) st1"
        using tracked_emit [OF Cons.prems(1) j(1) Some] by blast
      then show ?thesis using Cons.IH [OF st1(2) j(2)] Cons.prems(3) None Some by simp
    qed
  qed
qed simp

lemma tracked_survivors:
  assumes "\<And>i. i < n \<Longrightarrow> er_shards r ! i \<noteq> None \<Longrightarrow> \<not> T i"
  shows "tracked n T D st \<Longrightarrow> set js \<subseteq> {..<n} \<Longrightarrow> read_survivors r ls js st = (st', res) \<Longrightarrow> tracked n T D st'"
proof (induction js arbitrary: st st' res)
  case (Cons j js)
  have j: "j < n" "set js \<subseteq> {..<n}" using Cons.prems by auto
  show ?case
  proof (cases "er_shards r ! j")
    case None
    then show ?thesis using Cons.IH [OF Cons.prems(1) j(2)] Cons.prems(3) by (auto split: prod.splits sum.splits)
  next
    case (Some s)
    then have "\<not> T j" using assms j by auto
    then have "tracked n T D (feed j b st)" for b using Cons.prems(1) j by (simp add: tracked_feed)
    then show ?thesis using Cons.IH [OF _ j(2)] Cons.prems(1,3) Some by (auto split: prod.splits sum.splits)
  qed
qed simp

lemma tracked_slices:
  "tracked n T D st \<Longrightarrow> set js \<subseteq> {..<n} \<Longrightarrow> emit_slices buf_write bs js st = (st', e) \<Longrightarrow> tracked n T D st'"
proof (induction js arbitrary: st)
  case (Cons j js)
  have j: "j < n" "set js \<subseteq> {..<n}" using Cons.prems by auto
  show ?case
  proof (cases "rb_sinks st ! j")
    case None
    then show ?thesis using Cons.IH [OF Cons.prems(1) j(2)] Cons.prems(3) by simp
  next
    case (Some s)
    obtain st1 where st1: "emit buf_write j s (case bs ! j of None \<Rightarrow> [] | Some b \<Rightarrow> b) st = (st1, True)" "tracked n T (insert j D) st1"
      using tracked_emit [OF Cons.prems(1) j(1) Some] by blast
    then have "tracked n T D st1" by (auto simp: tracked_def)
    then show ?thesis using Cons.IH [OF _ j(2)] Cons.prems(3) Some st1(1) by simp
  qed
qed simp

lemma tracked_stripes:
  assumes "\<And>i. i < n \<Longrightarrow> er_shards r ! i \<noteq> None \<Longrightarrow> \<not> T i" and "length (er_shards r) = n"
  shows "tracked n T D st \<Longrightarrow> rebuild_stripes buf_write rs r sis st = (st', e) \<Longrightarrow> tracked n T D st'"
proof (induction sis arbitrary: st)
  case (Cons si sis)
  have js: "set [0..<n] \<subseteq> {..<n}" by auto
  obtain st2 res where surv: "read_survivors r (stripeSlice (er_geo r) (int si)) [0..<n] st = (st2, res)" by fastforce
  have t2: "tracked n T D st2" by (rule tracked_survivors [OF assms(1) Cons.prems(1) js surv])
  obtain st1 e1 where st1: "rebuild_stripe buf_write rs r (int si) st = (st1, e1)" by fastforce
  have "tracked n T D st1"
  proof (cases res)
    case (Inl x)
    then show ?thesis using st1 t2 surv by (simp add: rebuild_stripe_def assms(2))
  next
    case (Inr bs)
    then show ?thesis
      using st1 t2 surv tracked_slices [OF t2 js] by (cases "ReconstructAll rs bs") (auto simp: rebuild_stripe_def assms(2))
  qed
  then show ?case using Cons.IH [of st1] Cons.prems(2) st1 by (cases e1) auto
qed simp

lemma verdict_None:
  "verdict sha256 S cs hs js = None \<Longrightarrow> i \<in> set js \<Longrightarrow> hs ! i = Some h \<Longrightarrow> cs ! i \<noteq> [] \<Longrightarrow> sha256 h = cs ! i"
  by (induction js) (auto split: option.splits if_splits)

lemma Reconstruct_checked:
  assumes "Reconstruct buf_write pw New sha256 S (Some cs) targets = Some (out, None)"
    and "\<And>t. t \<in> set targets \<Longrightarrow> t = None \<or> t = Some []" and "i < length targets" "targets ! i \<noteq> None" and "cs ! i \<noteq> []"
  shows "\<exists>b. out ! i = Some b \<and> sha256 b = cs ! i"
proof -
  let ?n = "length S" and ?T = "\<lambda>i. targets ! i \<noteq> None"
  from assms(1) obtain r rs st st1 where len: "length targets = ?n" "\<not> both_roles S targets"
    and r: "ec_NewReader pw New S = Some (Inr r)"
    and hd: "rebuild_headers buf_write pw r [0..<?n] \<lparr>rb_sinks = targets, rb_hashes = replicate ?n None\<rparr> = (st1, None)"
    and body: "rebuild_stripes buf_write rs r [0..<nat (stripes (er_geo r))] st1 = (st, None)"
    and v: "verdict sha256 S cs (rb_hashes st) [0..<?n] = None" and out: "out = rb_sinks st"
    unfolding Reconstruct_def Let_def by (auto split: if_splits option.splits sum.splits prod.splits)
  have sh: "er_shards r = S"
    using r by (auto simp: ec_NewReader_def open_finish_def bind_res_Inr_iff split: if_splits)
  have roles: "\<not> ?T i" if "i < ?n" "er_shards r ! i \<noteq> None" for i
    using that len(2) by (auto simp: both_roles_def sh)
  have "tracked ?n ?T {} \<lparr>rb_sinks = targets, rb_hashes = replicate ?n None\<rparr>"
  proof -
    have "targets ! j = Some []" if "j < ?n" "targets ! j \<noteq> None" for j
      using that assms(2) [of "targets ! j"] len(1) by auto
    then show ?thesis using len(1) by (auto simp: tracked_def)
  qed
  moreover have "set [0..<?n] \<subseteq> {..<?n}" by auto
  ultimately have "tracked ?n ?T ({} \<union> set [0..<?n]) st1" using tracked_headers [where T = ?T, OF roles] hd by blast
  from tracked_stripes [where T = ?T, OF roles _ this body] have t: "tracked ?n ?T ({} \<union> set [0..<?n]) st" by (simp add: sh)
  then obtain h where "rb_hashes st ! i = Some h" "rb_sinks st ! i = Some h"
    using assms(3,4) len(1) by (force simp: tracked_def)
  then show ?thesis using verdict_None [OF v] assms(3,5) len(1) by (auto simp: out)
qed

end
