(* ===== verification/Erasure_Properties.thy ===== *)
theory Erasure_Properties
  imports Erasure_Rebuild Stream_Properties Wire_Ref
begin

text \<open>
  What the data path promises of an object: the plaintext goes through the frame into the shards,
  any \<open>m\<close> of which may be lost, and comes back at every range; lost shards are rebuilt bit for
  bit; and a rebuild never writes a shard that contradicts its recorded checksum.
\<close>

section \<open>Writing all shards\<close>

fun ec_Write_all :: "bytes EcWriter \<Rightarrow> bytes list \<Rightarrow> bytes EcWriter \<times> ec_error option" where
  "ec_Write_all w [] = (w, None)"
| "ec_Write_all w (p # ps) =
     (case ec_Write buf_write w p of (w, _, Some e) \<Rightarrow> (w, Some e) | (w, _, None) \<Rightarrow> ec_Write_all w ps)"

text \<open>\<^verbatim>\<open>NewWriter\<close> over empty files, the writes, \<^verbatim>\<open>Close\<close>.\<close>

definition write_shards ::
    "protowire \<Rightarrow> (int \<Rightarrow> int \<Rightarrow> RS option) \<Rightarrow> nat \<Rightarrow> version_id \<Rightarrow> nat \<Rightarrow> nat \<Rightarrow> int \<Rightarrow> bytes list \<Rightarrow> ec_error + bytes EcWriter" where
  "write_shards pw New ss v k m frameSize ps =
     (case ec_NewWriter buf_write pw New (int ss) v (int k) (int m) frameSize (replicate (k + m) []) of
        (_, Inl e) \<Rightarrow> Inl e
      | (_, Inr w) \<Rightarrow>
          (case ec_Write_all w ps of
             (_, Some e) \<Rightarrow> Inl e
           | (w, None) \<Rightarrow> (case ec_Close buf_write w of (_, Some e) \<Rightarrow> Inl e | (w, None) \<Rightarrow> Inr w)))"

lemma ec_NewWriter_accepted:
  assumes "encodable pw k m ss rs par F" and "new_codec New (int k) (int m) = Inr rs"
  shows "\<exists>s w. ec_NewWriter buf_write pw New (int ss) v (int k) (int m) (int (length F)) (replicate (k + m) []) = (s, Inr w) \<and>
    accepted pw v (geo k m ss (length F)) k m ss rs par w []"
proof -
  note e = encodableD [OF assms(1)]
  let ?g = "geo k m ss (length F)"
  have wrap: "wrap64 (int k + int m) = int (k + m)"
    using e(3) wrap64_nat [of "k + m"] by (simp add: params_def)
  let ?fs = "map (\<lambda>j. encodeShard pw (shard_header v ?g j)) [0..<k + m]"
  have ws: "write_sinks buf_write ?fs (replicate (k + m) []) (replicate (k + m) []) = (?fs, ?fs, True)"
    by (subst write_sinks_buf) (auto intro!: nth_equalityI)
  show ?thesis
    using e(6) ws by (simp add: ec_NewWriter_def validateParams_params [OF e(3)] wrap assms(2) geo_def [symmetric] accepted_def
        files_def columns_def front_def nat_mult_distrib Let_def)
qed

lemma ec_Write_all_accepted:
  assumes "codec k m rs par" and "g = geo k m ss n" and "fits k ss n"
  shows "accepted pw v g k m ss rs par w d \<Longrightarrow> length (d @ concat ps) \<le> n \<Longrightarrow>
    \<exists>w'. ec_Write_all w ps = (w', None) \<and> accepted pw v g k m ss rs par w' (d @ concat ps)"
proof (induction ps arbitrary: w d)
  case (Cons p ps)
  obtain w1 where w1: "accepted pw v g k m ss rs par w1 (d @ p)" "ec_Write_loop buf_write w p 0 = (w1, int (length p), None)"
    using ec_Write_loop_accepted [OF assms Cons.prems(1), of p 0] by auto
  moreover have "\<not> ew_closed w" "ew_written w = int (length d)" "g_frameSize (ew_geo w) = int n"
    using Cons.prems(1) assms(2) by (simp_all add: accepted_def Let_def)
  ultimately show ?case using Cons.IH [OF w1(1)] Cons.prems(2) by (simp add: ec_Write_def)
qed simp

lemma write_shards_files:
  assumes "encodable pw k m ss rs par F" and "new_codec New (int k) (int m) = Inr rs" and "concat ps = F"
  shows "\<exists>w. write_shards pw New ss v k m (int (length F)) ps = Inr w \<and>
    ew_sinks w = map (shard_file pw v k m ss par F) [0..<k + m] \<and> ew_hashes w = ew_sinks w"
proof -
  note e = encodableD [OF assms(1)]
  let ?g = "geo k m ss (length F)"
  obtain s w where w: "ec_NewWriter buf_write pw New (int ss) v (int k) (int m) (int (length F)) (replicate (k + m) []) = (s, Inr w)"
    "accepted pw v ?g k m ss rs par w []"
    using ec_NewWriter_accepted [OF assms(1,2)] by blast
  obtain w1 where w1: "ec_Write_all w ps = (w1, None)" "accepted pw v ?g k m ss rs par w1 F"
    using ec_Write_all_accepted [OF e(4) refl e(5) w(2), of ps] assms(3) by auto
  obtain w2 where w2: "ec_Close buf_write w1 = (w2, None)" "ew_sinks w2 = files pw v ?g k m par (k * ss) F (pieces (k * ss) F)"
    "ew_hashes w2 = files pw v ?g k m par (k * ss) F (pieces (k * ss) F)"
    using ec_Close_accepted [OF e(4) refl e(5) w1(2)] by blast
  then show ?thesis using w(1) w1(1) by (simp add: write_shards_def files_def shard_file_def)
qed

section \<open>Losing and reading shards\<close>

text \<open>The files with the named ones gone.\<close>

definition lose :: "nat list \<Rightarrow> bytes list \<Rightarrow> shard option list" where
  "lose lost fs = map (\<lambda>i. if i \<in> set lost then None else Some (serve (fs ! i))) [0..<length fs]"

lemma survivors_lose:
  assumes "length lost \<le> m" and "length fs = k + m"
  shows "k \<le> survivors (lose lost fs)"
proof -
  have "survivors (lose lost fs) = card ({..<k + m} - set lost)"
  proof -
    have "survivors (lose lost fs) = length (filter (\<lambda>i. i \<notin> set lost) [0..<k + m])"
      by (simp add: survivors_def lose_def filter_map comp_def assms(2) cong: filter_cong)
    also have "\<dots> = card (set (filter (\<lambda>i. i \<notin> set lost) [0..<k + m]))" by (rule distinct_card [symmetric]) simp
    also have "set (filter (\<lambda>i. i \<notin> set lost) [0..<k + m]) = {..<k + m} - set lost" by auto
    finally show ?thesis .
  qed
  moreover have "card {..<k + m} - card (set lost) \<le> card ({..<k + m} - set lost)" by (rule diff_card_le_card_Diff) simp
  moreover have "card (set lost) \<le> m" using card_length [of lost] assms(1) by linarith
  ultimately show ?thesis by simp
qed

lemma survived_lose:
  assumes "length lost \<le> m" and "fs = map (shard_file pw v k m ss par F) [0..<k + m]"
  shows "survived pw v k m ss par F (lose lost fs)"
  using survivors_lose [OF assms(1), of fs k] assms(2)
  by (auto simp: survived_def lose_def serves_def serve_def split: if_splits)

text \<open>\<^verbatim>\<open>stream.NewReader\<close> over \<^verbatim>\<open>ec.NewReader\<close>, and one ranged read of the plaintext.\<close>

definition through :: "EcReader \<Rightarrow> int \<Rightarrow> nat \<Rightarrow> bytes" where
  "through r off n = (case ec_ReadAt r n off of None \<Rightarrow> [] | Some (_, p, _) \<Rightarrow> p)"

definition read_object ::
    "protowire \<Rightarrow> (int \<Rightarrow> int \<Rightarrow> RS option) \<Rightarrow> (bytes \<Rightarrow> AEAD option) \<Rightarrow> bytes option \<Rightarrow> shard option list \<Rightarrow> nat \<Rightarrow> int
       \<Rightarrow> (ec_error + (bytes \<times> stream_error option option)) option" where
  "read_object pw New gcm dek shards want off =
     (case ec_NewReader pw New shards of
        None \<Rightarrow> None
      | Some (Inl e) \<Rightarrow> Some (Inl e)
      | Some (Inr r) \<Rightarrow> map_option Inr (read_frame gcm dek (through r) (g_frameSize (er_geo r)) want off))"

lemma through_serves:
  assumes "encodable pw k m ss rs par F" and "survived pw v k m ss par F S" and "reader_ok pw v k m ss rs F S r"
  shows "serves (through r) (\<lambda>_ _. True) F"
proof -
  have "through r off n = take n (drop (nat off) F)" if "0 \<le> off" for off n
    using ec_ReadAt_loop_frame [OF assms, of "[]" n "nat off"] that by (auto simp: through_def ec_ReadAt_def)
  then show ?thesis by (simp add: serves_def)
qed

lemma frame_of_nonempty: "frame_of hdr c cs d \<noteq> []"
proof -
  have "length (frame_of hdr c cs d) \<noteq> 0" by (simp add: frame_of_def)
  then show ?thesis by auto
qed

section \<open>A header that passes the checks\<close>

text \<open>
  The checks of a shard header do not bound the slice size: with \<open>k = 4\<close> and slices of \<open>2 ^ 62\<close> bytes the header is
  accepted, and the stripe size the reader divides by is zero.
\<close>

lemma zero_stripe_accepted:
  "\<exists>h. check_header (h, shardFormatVersion) = Inr h \<and> stripeBytes (header_geometry h) = 0"
proof -
  let ?h = "\<lparr>sh_id = 1, sh_index = 0, sh_k = 4, sh_m = 2, sh_sliceSize = 2 ^ 62, sh_frameSize = 1\<rparr>"
  have "check_header (?h, shardFormatVersion) = Inr ?h" "stripeBytes (header_geometry ?h) = 0" by code_simp+
  then show ?thesis by blast
qed

section \<open>Properties\<close>

text \<open>
  C9: An object survives the loss of any \<open>m\<close> of its \<open>k + m\<close> shards. The plaintext, split into any writes and with or
  without encryption, is framed; the frame, split into any writes, is erasure-coded; and from the shards that are left a
  ranged read returns exactly the bytes of the plaintext in the range.
\<close>

theorem object_survives_shard_loss:
  assumes "gcm_lawful gcm" and "\<And>key. dek = Some key \<Longrightarrow> length key = DEKLen" and "wire pw" and "compact_wire pw"
    and "rs_lawful New k m" and "params k m"
    and "0 < cs" "int cs + 16 < 2 ^ 63" "int (length (concat ps)) < 2 ^ 63"
    and "14 * chunkCount (int (length (concat ps))) (int cs) < 2 ^ 32"
    and "0 < ss" "int (k * ss) < 2 ^ 63" "FrameSize (int (length (concat ps))) (int cs) (dek \<noteq> None) + 2097152 < 2 ^ 63"
    and "write_frame gcm dek (int cs) (int (length (concat ps))) ps = Inr F" and "concat fps = F" and "length lost \<le> m"
  shows "\<exists>w. write_shards pw New ss v k m (int (length F)) fps = Inr w \<and>
    read_object pw New gcm dek (lose lost (ew_sinks w)) want (int off) =
      Some (Inr (take want (drop off (concat ps)), if length (concat ps) - off < want then Some None else None))"
proof -
  let ?d = "concat ps"
  obtain c where c: "crypter_for gcm dek = Inr c" "lawful_opt c" "c = None \<longleftrightarrow> dek = None"
    by (rule crypter_for_lawful [OF assms(1,2)])
  have n: "14 * pieces cs ?d < 2 ^ 32" using assms(10) by (simp add: chunkCount_pieces [OF assms(7)])
  then have t: "length (trailer_of c cs ?d) < 2 ^ 32" using trailer_bounds(2) [of c cs ?d] by simp
  have F: "F = frame_of (frame_header c cs ?d) c cs ?d"
    using write_frame_eq [OF assms(7) c(1) refl n] assms(14) by simp
  obtain rs par where rs: "new_codec New (int k) (int m) = Inr rs" "codec k m rs par"
    by (rule new_codec_lawful [OF assms(5,6)])
  have "int (length F) + 2097152 < 2 ^ 63"
    using assms(13) FrameSize_frame [OF assms(7) c(2), of ?d] c(3) by (simp add: F)
  then have enc: "encodable pw k m ss rs par F"
    using assms(3,4,6,11,12) rs(2) frame_of_nonempty by (simp add: encodable_def fits_def params_def F)
  obtain w where w: "write_shards pw New ss v k m (int (length F)) fps = Inr w"
    "ew_sinks w = map (shard_file pw v k m ss par F) [0..<k + m]"
    using write_shards_files [OF enc rs(1) assms(15)] by blast
  define g where "g = geo k m ss (length F)"
  let ?S = "lose lost (ew_sinks w)"
  have sv: "survived pw v k m ss par F ?S" using survived_lose [OF assms(16)] w(2) by simp
  let ?r = "opened_reader pw v g rs ?S"
  have new: "ec_NewReader pw New ?S = Some (Inr ?r)"
    by (rule ec_NewReader_survivors [OF enc g_def _ _ _ rs(1)])
      (use sv in \<open>auto simp: survived_def shard_file_def g_def [symmetric]\<close>)
  have "reader_ok pw v k m ss rs F ?S ?r" by (simp add: reader_ok_def opened_reader_def g_def Let_def)
  from through_serves [OF enc sv this] have s: "serves (through ?r) (\<lambda>_ _. True) F" .
  have "NewReader (through ?r) gcm (int (length F)) dek = Inr (reader_of c cs ?d)"
    by (rule NewReader_frame [OF assms(7) c(2) assms(8,9) t c(1) s F]) simp_all
  then have "read_frame gcm dek (through ?r) (int (length F)) want (int off) =
      Some (take want (drop off ?d), if length ?d - off < want then Some None else None)"
    using ReadAt_loop_frame [OF assms(7) c(2) s [unfolded F], where p = "[]" and off = off and want = want]
    by (simp add: read_frame_def Reader_ReadAt_def)
  then show ?thesis using w(1) new by (simp add: read_object_def opened_reader_def g_def)
qed

text \<open>A 2+1 code for the witnesses: the parity slice is the bitwise sum of the data slices.\<close>

definition xor_slice :: "bytes \<Rightarrow> bytes \<Rightarrow> bytes" where
  "xor_slice a b = map2 (XOR) a b"

definition xor_fill :: "bytes option list \<Rightarrow> bytes option list option" where
  "xor_fill S =
     (case S of
        [Some a, Some b, _] \<Rightarrow> Some [Some a, Some b, Some (xor_slice a b)]
      | [Some a, None, Some p] \<Rightarrow> Some [Some a, Some (xor_slice a p), Some p]
      | [None, Some b, Some p] \<Rightarrow> Some [Some (xor_slice b p), Some b, Some p]
      | _ \<Rightarrow> None)"

definition xor_rs :: RS where
  "xor_rs = \<lparr>Encode = (\<lambda>bs. Some [bs ! 0, bs ! 1, xor_slice (bs ! 0) (bs ! 1)]), ReconstructData = xor_fill, ReconstructAll = xor_fill\<rparr>"

definition xor_new :: "int \<Rightarrow> int \<Rightarrow> RS option" where
  "xor_new k m = (if k = 2 \<and> m = 1 then Some xor_rs else None)"

lemma length_xor_slice [simp]: "length (xor_slice a b) = min (length a) (length b)"
  by (simp add: xor_slice_def)

lemma xor_slice_cancel: "length a = length b \<Longrightarrow> xor_slice a (xor_slice a b) = b" "length a = length b \<Longrightarrow> xor_slice b (xor_slice a b) = a"
proof -
  have x: "p XOR (p XOR q) = q" "q XOR (p XOR q) = p" for p q :: byte
    by (simp_all add: xor.assoc [symmetric]) (simp add: xor.commute [of q] xor.assoc)
  show "length a = length b \<Longrightarrow> xor_slice a (xor_slice a b) = b" "length a = length b \<Longrightarrow> xor_slice b (xor_slice a b) = a"
    by (auto simp: xor_slice_def x intro!: nth_equalityI)
qed

lemma xor_lawful: "rs_lawful xor_new 2 1"
proof -
  have "rs_codec 2 1 xor_rs (\<lambda>D. [xor_slice (D ! 0) (D ! 1)])"
    unfolding rs_codec_def
  proof (intro allI impI)
    fix l and D P :: "bytes list" assume h: "0 < l \<and> slices 2 l D \<and> slices 1 l P"
    then obtain a b where D: "D = [a, b]" "length a = l" "length b = l"
      by (auto simp: slices_def length_Suc_conv numeral_2_eq_2)
    obtain p where P: "P = [p]" using h by (auto simp: slices_def length_Suc_conv)
    have fill: "xor_fill S = Some (map Some [a, b, xor_slice a b])" if "surviving 2 [a, b, xor_slice a b] S" for S
    proof -
      have "length S = Suc (Suc (Suc 0))" using that by (simp add: surviving_def)
      then obtain x y z where S: "S = [x, y, z]" by (auto simp: length_Suc_conv)
      have "x = None \<or> x = Some a" "y = None \<or> y = Some b" "z = None \<or> z = Some (xor_slice a b)"
        using that by (auto simp: surviving_def S dest: spec [of _ 0] spec [of _ 1] spec [of _ 2])
      moreover have "2 \<le> length (filter (\<lambda>s. s \<noteq> None) [x, y, z])" using that by (simp add: surviving_def S)
      ultimately show ?thesis using D by (auto simp: S xor_fill_def xor_slice_cancel split: if_splits)
    qed
    show "slices 1 l [xor_slice (D ! 0) (D ! 1)] \<and> Encode xor_rs (D @ P) = Some (D @ [xor_slice (D ! 0) (D ! 1)]) \<and>
      (\<forall>S. surviving 2 (D @ [xor_slice (D ! 0) (D ! 1)]) S \<longrightarrow>
        (\<exists>S'. ReconstructData xor_rs S = Some S' \<and> take 2 S' = map Some D) \<and>
        ReconstructAll xor_rs S = Some (map Some (D @ [xor_slice (D ! 0) (D ! 1)])))"
      using fill D P by (simp add: slices_def xor_rs_def)
  qed
  then show ?thesis by (auto simp: rs_lawful_def xor_new_def)
qed

lemma length_varint_enc: "n < 128 ^ j \<Longrightarrow> 0 < j \<Longrightarrow> length (varint_enc n) \<le> j"
proof (induction n arbitrary: j rule: varint_enc.induct)
  case (1 n)
  show ?case
  proof (cases "n < 128")
    case True
    then show ?thesis using 1(3) by (simp add: varint_enc.simps [of n])
  next
    case False
    then obtain i where i: "j = Suc i" "0 < i" using 1(2,3) by (cases j; cases "j - 1") auto
    then have "n div 128 < 128 ^ i" using 1(2) by (simp add: less_mult_imp_div_less mult.commute)
    from 1(1) [OF False this i(2)] show ?thesis using False i by (simp add: varint_enc.simps [of n])
  qed
qed

lemma ref_compact: "compact_wire ref_wire"
proof -
  have "length (varint_enc (unat v)) \<le> 10" for v :: u64
    using unat_bound [of v] by (intro length_varint_enc) simp_all
  moreover have "length (varint_enc n) \<le> 10" if "n < 128" for n
    using that length_varint_enc [of n 1] by simp
  ultimately show ?thesis by (simp add: compact_wire_def ref_wire_def)
qed

lemma params_2_1: "params 2 1"
  by (simp add: params_def)

theorem object_survives_shard_loss_witness:
  "\<exists>F w. write_frame pad_gcm (Some (replicate 32 7)) 2 3 [[1], [2, 3]] = Inr F \<and>
    write_shards ref_wire xor_new 4 5 2 1 (int (length F)) [take 9 F, drop 9 F] = Inr w \<and>
    read_object ref_wire xor_new pad_gcm (Some (replicate 32 7)) (lose [0] (ew_sinks w)) 5 1 = Some (Inr ([2, 3], Some None))"
proof -
  have "crypter_for pad_gcm (Some (replicate 32 7)) = Inr (pad_gcm (replicate 32 7))"
    by (simp add: crypter_for_def newChunkCrypter_def pad_gcm_def DEKLen_def gcmNonceLen_def gcmTagLen_def)
  from write_frame_eq [OF _ this, of 2 "[1, 2, 3]" "[[1], [2, 3]]"]
  obtain F where F: "write_frame pad_gcm (Some (replicate 32 7)) 2 3 [[1], [2, 3]] = Inr F"
    by (auto simp: pieces_def chunkCount_def)
  have "FrameSize 3 2 True = 57" by code_simp
  then show ?thesis
    using object_survives_shard_loss [OF pad_gcm_lawful _ ref.wire_axioms ref_compact xor_lawful params_2_1,
        of "Some (replicate 32 7)" 2 "[[1], [2, 3]]" 4 F "[take 9 F, drop 9 F]" "[0]" 5 5 1] F
    by (simp add: DEKLen_def chunkCount_def)
qed

text \<open>
  C10: Rebuilding is exact. From the shards that are left, any set of lost shards is rebuilt to the very bytes the encoder
  wrote, and the rebuild accepts the checksums recorded when the object was written.
\<close>

theorem reconstruct_rebuilds:
  assumes "wire pw" and "compact_wire pw" and "rs_lawful New k m" and "params k m" and "0 < m" and "fits k ss (length F)" and "F \<noteq> []"
    and "concat fps = F" and "length lost \<le> m" and "write_shards pw New ss v k m (int (length F)) fps = Inr w"
  shows "Reconstruct buf_write pw New sha256 (lose lost (ew_sinks w)) (Some (Checksums sha256 w))
      (map (\<lambda>i. if i \<in> set lost then Some [] else None) [0..<k + m]) =
    Some (map (\<lambda>i. if i \<in> set lost then Some (ew_sinks w ! i) else None) [0..<k + m], None)"
proof -
  obtain rs par where rs: "new_codec New (int k) (int m) = Inr rs" "codec k m rs par"
    by (rule new_codec_lawful [OF assms(3,4)])
  then have enc: "encodable pw k m ss rs par F" using assms by (simp add: encodable_def)
  have w: "ew_sinks w = map (shard_file pw v k m ss par F) [0..<k + m]" "ew_hashes w = ew_sinks w"
    using write_shards_files [OF enc rs(1) assms(8), of v] assms(10) by simp_all
  have cs: "Checksums sha256 w = map (\<lambda>i. sha256 (shard_file pw v k m ss par F i)) [0..<k + m]"
    using w by (simp add: Checksums_def)
  have sv: "survived pw v k m ss par F (lose lost (ew_sinks w))" by (rule survived_lose [OF assms(9) w(1)])
  have none: "lose lost (ew_sinks w) ! i = None" if "i < k + m" "i \<in> set lost" for i
    using that by (simp add: lose_def w(1))
  have "map (\<lambda>i. if i \<in> set lost then Some (ew_sinks w ! i) else None) [0..<k + m] =
      map (\<lambda>i. if i \<in> set lost then Some (shard_file pw v k m ss par F i) else None) [0..<k + m]"
    by (simp add: w(1))
  then show ?thesis
    unfolding cs using Reconstruct_rebuilds [OF enc sv rs(1) assms(5), of "\<lambda>i. i \<in> set lost", OF none] by simp
qed

text \<open>A small object on three shards.\<close>

lemma demo_shards:
  obtains w rs par where "write_shards ref_wire xor_new 4 5 2 1 10 [[1, 2, 3], [4, 5, 6, 7, 8, 9, 10]] = Inr w"
proof -
  obtain rs par where rs: "new_codec xor_new (int 2) (int 1) = Inr rs" "codec 2 1 rs par"
    by (rule new_codec_lawful [OF xor_lawful params_2_1])
  then have "encodable ref_wire 2 1 4 rs par [1, 2, 3, 4, 5, 6, 7, 8, 9, 10]"
    using ref.wire_axioms ref_compact params_2_1 by (simp add: encodable_def fits_def)
  from write_shards_files [OF this rs(1), of "[[1, 2, 3], [4, 5, 6, 7, 8, 9, 10]]" 5] show thesis by (auto intro: that)
qed

theorem reconstruct_rebuilds_witness:
  "\<exists>w. write_shards ref_wire xor_new 4 5 2 1 10 [[1, 2, 3], [4, 5, 6, 7, 8, 9, 10]] = Inr w \<and>
    Reconstruct buf_write ref_wire xor_new (take 4) (lose [1] (ew_sinks w)) (Some (Checksums (take 4) w)) [None, Some [], None] =
      Some ([None, Some (ew_sinks w ! 1), None], None)"
proof -
  obtain w where w: "write_shards ref_wire xor_new 4 5 2 1 10 [[1, 2, 3], [4, 5, 6, 7, 8, 9, 10]] = Inr w" by (rule demo_shards)
  then show ?thesis
    using reconstruct_rebuilds [OF ref.wire_axioms ref_compact xor_lawful params_2_1, of 4 "[1, 2, 3, 4, 5, 6, 7, 8, 9, 10]"
        "[[1, 2, 3], [4, 5, 6, 7, 8, 9, 10]]" "[1]" 5 w "take 4"]
    by (simp add: fits_def upt_rec)
qed

text \<open>
  C11: A rebuild never launders corruption. Whatever the surviving shards hold, when \<^verbatim>\<open>Reconstruct\<close> returns success every
  shard it wrote has the checksum recorded for it.
\<close>

theorem reconstruct_never_launders:
  assumes "Reconstruct buf_write pw New sha256 shards (Some checksums) targets = Some (out, None)"
    and "\<And>t. t \<in> set targets \<Longrightarrow> t = None \<or> t = Some []" and "i < length targets" "targets ! i \<noteq> None" and "checksums ! i \<noteq> []"
  shows "\<exists>b. out ! i = Some b \<and> sha256 b = checksums ! i"
  by (rule Reconstruct_checked [OF assms])

theorem reconstruct_never_launders_witness:
  "\<exists>w out b. write_shards ref_wire xor_new 4 5 2 1 10 [[1, 2, 3], [4, 5, 6, 7, 8, 9, 10]] = Inr w \<and>
    Reconstruct buf_write ref_wire xor_new (\<lambda>b. take 4 b @ [1]) (lose [1] (ew_sinks w)) (Some (Checksums (\<lambda>b. take 4 b @ [1]) w))
      [None, Some [], None] = Some (out, None) \<and>
    out ! 1 = Some b \<and> take 4 b @ [1] = Checksums (\<lambda>b. take 4 b @ [1]) w ! 1"
proof -
  obtain rs par where rs: "new_codec xor_new (int 2) (int 1) = Inr rs" "codec 2 1 rs par"
    by (rule new_codec_lawful [OF xor_lawful params_2_1])
  let ?F = "[1, 2, 3, 4, 5, 6, 7, 8, 9, 10] :: bytes" and ?h = "\<lambda>b :: bytes. take 4 b @ [1]"
  have enc: "encodable ref_wire 2 1 4 rs par ?F"
    using ref.wire_axioms ref_compact params_2_1 rs by (simp add: encodable_def fits_def)
  obtain w where w: "write_shards ref_wire xor_new 4 5 2 1 10 [[1, 2, 3], [4, 5, 6, 7, 8, 9, 10]] = Inr w"
    "ew_sinks w = map (shard_file ref_wire 5 2 1 4 par ?F) [0..<2 + 1]" "ew_hashes w = ew_sinks w"
    using write_shards_files [OF enc rs(1), of "[[1, 2, 3], [4, 5, 6, 7, 8, 9, 10]]" 5] by auto
  have "\<exists>out. Reconstruct buf_write ref_wire xor_new ?h (lose [1] (ew_sinks w)) (Some (Checksums ?h w)) [None, Some [], None] = Some (out, None)"
    using Reconstruct_rebuilds [OF enc survived_lose [OF _ w(2), of "[1]"] rs(1), of "\<lambda>i. i = 1" ?h] w(2,3)
    by (simp add: Checksums_def comp_def lose_def upt_rec)
  then obtain out where out: "Reconstruct buf_write ref_wire xor_new ?h (lose [1] (ew_sinks w)) (Some (Checksums ?h w)) [None, Some [], None] = Some (out, None)"
    by blast
  have "Checksums ?h w ! 1 \<noteq> []" using w(2,3) by (simp add: Checksums_def)
  with reconstruct_never_launders [OF out, of 1] have "\<exists>b. out ! 1 = Some b \<and> ?h b = Checksums ?h w ! 1" by auto
  with w(1) out show ?thesis by blast
qed

end
