(* ===== verification/Datapath_Wire.thy ===== *)
theory Datapath_Wire
  imports Wire
begin

text \<open>
  The messages of the data channel (\<^verbatim>\<open>internal/datapath/datapath.go\<close>, \<^verbatim>\<open>internal/datapath/wire.go\<close>):
  the channel envelope, the nine commands and their decoders.

  The encode helpers of the package are those of the metadata codecs, line for line, and are taken
  from there; the decoders are not: they walk a command with \<^verbatim>\<open>fieldScan\<close> and a callback that
  returns the number of bytes used, zero for an unknown field and a negative number for a malformed
  one. A decoder that does not return is \<open>None\<close>, its errors are a sum.
\<close>

section \<open>Messages\<close>

record shardKey =
  sk_id :: version_id
  sk_index :: u32

record chunkMsg =
  cm_key :: shardKey
  cm_offset :: u64
  cm_data :: bytes
  cm_stream :: u64

record commitMsg =
  co_key :: shardKey
  co_length :: u64
  co_checksum :: bytes
  co_stream :: u64

record writeAckMsg =
  wa_key :: shardKey
  wa_staged :: u64
  wa_committed :: bool
  wa_errMsg :: gostring
  wa_stream :: u64

record readMsg =
  rm_reqID :: u64
  rm_key :: shardKey
  rm_offset :: u64
  rm_length :: u64

record readResultMsg =
  rr_reqID :: u64
  rr_data :: bytes
  rr_errMsg :: gostring

record deleteMsg =
  de_reqID :: u64
  de_key :: shardKey

record deleteAckMsg =
  da_reqID :: u64
  da_errMsg :: gostring

record verifyMsg =
  vm_reqID :: u64
  vm_key :: shardKey

record verifyAckMsg =
  va_reqID :: u64
  va_committed :: bool
  va_checksum :: bytes
  va_length :: u64
  va_errMsg :: gostring

definition zeroKey :: shardKey where
  "zeroKey = \<lparr>sk_id = 0, sk_index = 0\<rparr>"

definition msgChunk :: nat where "msgChunk = 2"
definition msgCommit :: nat where "msgCommit = 3"
definition msgWriteAck :: nat where "msgWriteAck = 4"
definition msgRead :: nat where "msgRead = 5"
definition msgReadResult :: nat where "msgReadResult = 6"
definition msgDelete :: nat where "msgDelete = 7"
definition msgDeleteAck :: nat where "msgDeleteAck = 8"
definition msgVerify :: nat where "msgVerify = 9"
definition msgVerifyAck :: nat where "msgVerifyAck = 10"

lemmas msg_nums = msgChunk_def msgCommit_def msgWriteAck_def msgRead_def msgReadResult_def msgDelete_def
  msgDeleteAck_def msgVerify_def msgVerifyAck_def

definition wireVersion :: u64 where "wireVersion = 1"
definition envelopeVersion :: u64 where "envelopeVersion = 1"
definition ChannelRaft :: u64 where "ChannelRaft = 1"
definition ChannelData :: u64 where "ChannelData = 2"

section \<open>Encoding\<close>

definition Wrap :: "protowire \<Rightarrow> u64 \<Rightarrow> bytes \<Rightarrow> bytes" where
  "Wrap pw channel payload =
     (let b = putUvarint pw [] 1 envelopeVersion;
          b = putUvarint pw b 2 channel
      in putBytes pw b 3 payload)"

definition encodeMessage :: "protowire \<Rightarrow> nat \<Rightarrow> bytes \<Rightarrow> bytes" where
  "encodeMessage pw num cmd =
     (let b = putUvarint pw [] 1 wireVersion in putBytes pw b num cmd)"

definition chunk_cmd :: "protowire \<Rightarrow> chunkMsg \<Rightarrow> bytes" where
  "chunk_cmd pw m =
     (let c = putBytes pw [] 1 (vid_bytes (sk_id (cm_key m)));
          c = putUvarint pw c 2 (ucast (sk_index (cm_key m)));
          c = putUvarint pw c 3 (cm_offset m);
          c = putBytes pw c 4 (cm_data m)
      in putUvarint pw c 5 (cm_stream m))"

definition encodeChunk :: "protowire \<Rightarrow> chunkMsg \<Rightarrow> bytes" where
  "encodeChunk pw m = encodeMessage pw msgChunk (chunk_cmd pw m)"

definition commit_cmd :: "protowire \<Rightarrow> commitMsg \<Rightarrow> bytes" where
  "commit_cmd pw m =
     (let c = putBytes pw [] 1 (vid_bytes (sk_id (co_key m)));
          c = putUvarint pw c 2 (ucast (sk_index (co_key m)));
          c = putUvarint pw c 3 (co_length m);
          c = putBytes pw c 4 (co_checksum m)
      in putUvarint pw c 5 (co_stream m))"

definition encodeCommit :: "protowire \<Rightarrow> commitMsg \<Rightarrow> bytes" where
  "encodeCommit pw m = encodeMessage pw msgCommit (commit_cmd pw m)"

definition writeAck_cmd :: "protowire \<Rightarrow> writeAckMsg \<Rightarrow> bytes" where
  "writeAck_cmd pw m =
     (let c = putBytes pw [] 1 (vid_bytes (sk_id (wa_key m)));
          c = putUvarint pw c 2 (ucast (sk_index (wa_key m)));
          c = putUvarint pw c 3 (wa_staged m);
          c = putBool pw c 4 (wa_committed m);
          c = putString pw c 5 (wa_errMsg m)
      in putUvarint pw c 6 (wa_stream m))"

definition encodeWriteAck :: "protowire \<Rightarrow> writeAckMsg \<Rightarrow> bytes" where
  "encodeWriteAck pw m = encodeMessage pw msgWriteAck (writeAck_cmd pw m)"

definition read_cmd :: "protowire \<Rightarrow> readMsg \<Rightarrow> bytes" where
  "read_cmd pw m =
     (let c = putUvarint pw [] 1 (rm_reqID m);
          c = putBytes pw c 2 (vid_bytes (sk_id (rm_key m)));
          c = putUvarint pw c 3 (ucast (sk_index (rm_key m)));
          c = putUvarint pw c 4 (rm_offset m)
      in putUvarint pw c 5 (rm_length m))"

definition encodeRead :: "protowire \<Rightarrow> readMsg \<Rightarrow> bytes" where
  "encodeRead pw m = encodeMessage pw msgRead (read_cmd pw m)"

definition readResult_cmd :: "protowire \<Rightarrow> readResultMsg \<Rightarrow> bytes" where
  "readResult_cmd pw m =
     (let c = putUvarint pw [] 1 (rr_reqID m);
          c = putBytes pw c 2 (rr_data m)
      in putString pw c 3 (rr_errMsg m))"

definition encodeReadResult :: "protowire \<Rightarrow> readResultMsg \<Rightarrow> bytes" where
  "encodeReadResult pw m = encodeMessage pw msgReadResult (readResult_cmd pw m)"

definition delete_cmd :: "protowire \<Rightarrow> deleteMsg \<Rightarrow> bytes" where
  "delete_cmd pw m =
     (let c = putUvarint pw [] 1 (de_reqID m);
          c = putBytes pw c 2 (vid_bytes (sk_id (de_key m)))
      in putUvarint pw c 3 (ucast (sk_index (de_key m))))"

definition encodeDelete :: "protowire \<Rightarrow> deleteMsg \<Rightarrow> bytes" where
  "encodeDelete pw m = encodeMessage pw msgDelete (delete_cmd pw m)"

definition deleteAck_cmd :: "protowire \<Rightarrow> deleteAckMsg \<Rightarrow> bytes" where
  "deleteAck_cmd pw m =
     (let c = putUvarint pw [] 1 (da_reqID m)
      in putString pw c 2 (da_errMsg m))"

definition encodeDeleteAck :: "protowire \<Rightarrow> deleteAckMsg \<Rightarrow> bytes" where
  "encodeDeleteAck pw m = encodeMessage pw msgDeleteAck (deleteAck_cmd pw m)"

definition verify_cmd :: "protowire \<Rightarrow> verifyMsg \<Rightarrow> bytes" where
  "verify_cmd pw m =
     (let c = putUvarint pw [] 1 (vm_reqID m);
          c = putBytes pw c 2 (vid_bytes (sk_id (vm_key m)))
      in putUvarint pw c 3 (ucast (sk_index (vm_key m))))"

definition encodeVerify :: "protowire \<Rightarrow> verifyMsg \<Rightarrow> bytes" where
  "encodeVerify pw m = encodeMessage pw msgVerify (verify_cmd pw m)"

definition verifyAck_cmd :: "protowire \<Rightarrow> verifyAckMsg \<Rightarrow> bytes" where
  "verifyAck_cmd pw m =
     (let c = putUvarint pw [] 1 (va_reqID m);
          c = putBool pw c 2 (va_committed m);
          c = putBytes pw c 3 (va_checksum m);
          c = putUvarint pw c 4 (va_length m)
      in putString pw c 5 (va_errMsg m))"

definition encodeVerifyAck :: "protowire \<Rightarrow> verifyAckMsg \<Rightarrow> bytes" where
  "encodeVerifyAck pw m = encodeMessage pw msgVerifyAck (verifyAck_cmd pw m)"

section \<open>Decoding\<close>

datatype wire_error =
    EnvelopeTag
  | EnvelopeField nat
  | EnvelopeVersion u64
  | MessageTag
  | TwoCommands
  | UnknownCommand nat
  | MessageField nat
  | MessageVersion u64
  | NoCommand
  | FieldTag
  | FieldValue nat

text \<open>A value and the number of bytes used, negative for a malformed field.\<close>

definition consumeUvarint :: "protowire \<Rightarrow> bytes \<Rightarrow> nat \<Rightarrow> u64 \<times> int" where
  "consumeUvarint pw b typ =
     (if typ \<noteq> VarintType then (0, - 1)
      else case ConsumeVarint pw b of None \<Rightarrow> (0, - 1) | Some (v, n) \<Rightarrow> (v, int n))"

definition consumeBytes :: "protowire \<Rightarrow> bytes \<Rightarrow> nat \<Rightarrow> bytes \<times> int" where
  "consumeBytes pw b typ =
     (if typ \<noteq> BytesType then ([], - 1)
      else case ConsumeBytes pw b of None \<Rightarrow> ([], - 1) | Some (v, n) \<Rightarrow> (v, int n))"

definition consumeField :: "protowire \<Rightarrow> nat \<Rightarrow> nat \<Rightarrow> bytes \<Rightarrow> int" where
  "consumeField pw num typ b = (case ConsumeFieldValue pw num typ b of None \<Rightarrow> - 1 | Some n \<Rightarrow> int n)"

definition consumeID :: "protowire \<Rightarrow> bytes \<Rightarrow> nat \<Rightarrow> version_id \<Rightarrow> version_id \<times> int" where
  "consumeID pw b typ i =
     (let (v, n) = consumeBytes pw b typ
      in if n < 0 \<or> length v \<noteq> 16 then (i, - 1) else (vid_of_bytes v, n))"

text \<open>The envelope: the version, the channel and the payload read so far.\<close>

partial_function (option) Unwrap_loop ::
    "protowire \<Rightarrow> bytes \<Rightarrow> u64 \<Rightarrow> u64 \<Rightarrow> bytes \<Rightarrow> (wire_error + u64 \<times> u64 \<times> bytes) option" where
  "Unwrap_loop pw msg version channel payload =
     (if length msg = 0 then Some (Inr (version, channel, payload))
      else case ConsumeTag pw msg of
             None \<Rightarrow> Some (Inl EnvelopeTag)
           | Some (num, typ, n) \<Rightarrow>
               let msg = drop n msg;
                   v = (if num = 1 then consumeUvarint pw msg typ else (version, 0));
                   c = (if num = 2 then consumeUvarint pw msg typ else (channel, 0));
                   p = (if num = 3 then consumeBytes pw msg typ else (payload, 0));
                   n = (if num = 1 then snd v else if num = 2 then snd c else if num = 3 then snd p
                        else consumeField pw num typ msg)
               in if n < 0 then Some (Inl (EnvelopeField num))
                  else Unwrap_loop pw (drop (nat n) msg) (fst v) (fst c) (fst p))"

definition Unwrap :: "protowire \<Rightarrow> bytes \<Rightarrow> (wire_error + u64 \<times> bytes) option" where
  "Unwrap pw msg =
     (case Unwrap_loop pw msg 0 0 [] of
        None \<Rightarrow> None
      | Some (Inl e) \<Rightarrow> Some (Inl e)
      | Some (Inr (version, channel, payload)) \<Rightarrow>
          if version = 0 \<or> version > envelopeVersion then Some (Inl (EnvelopeVersion version))
          else Some (Inr (channel, payload)))"

partial_function (option) decodeMessage_loop ::
    "protowire \<Rightarrow> bytes \<Rightarrow> u64 \<Rightarrow> nat \<Rightarrow> bytes \<Rightarrow> (wire_error + u64 \<times> nat \<times> bytes) option" where
  "decodeMessage_loop pw b version cmd body =
     (if length b = 0 then Some (Inr (version, cmd, body))
      else case ConsumeTag pw b of
             None \<Rightarrow> Some (Inl MessageTag)
           | Some (num, typ, n) \<Rightarrow>
               let b = drop n b
               in if num = 1
                  then let (version, n) = consumeUvarint pw b typ
                       in if n < 0 then Some (Inl (MessageField num))
                          else decodeMessage_loop pw (drop (nat n) b) version cmd body
                  else if msgChunk \<le> num \<and> num \<le> msgVerifyAck
                  then if cmd \<noteq> 0 then Some (Inl TwoCommands)
                       else let (body, n) = consumeBytes pw b typ
                            in if n < 0 then Some (Inl (MessageField num))
                               else decodeMessage_loop pw (drop (nat n) b) version num body
                  else Some (Inl (UnknownCommand num)))"

definition decodeMessage :: "protowire \<Rightarrow> bytes \<Rightarrow> (wire_error + nat \<times> bytes) option" where
  "decodeMessage pw b =
     (case decodeMessage_loop pw b 0 0 [] of
        None \<Rightarrow> None
      | Some (Inl e) \<Rightarrow> Some (Inl e)
      | Some (Inr (version, cmd, body)) \<Rightarrow>
          if version = 0 \<or> version > wireVersion then Some (Inl (MessageVersion version))
          else if cmd = 0 then Some (Inl NoCommand)
          else Some (Inr (cmd, body)))"

partial_function (option) fieldScan ::
    "protowire \<Rightarrow> (nat \<Rightarrow> nat \<Rightarrow> bytes \<Rightarrow> 'm \<Rightarrow> 'm \<times> int) \<Rightarrow> bytes \<Rightarrow> 'm \<Rightarrow> (wire_error + 'm) option" where
  "fieldScan pw fn b m =
     (if length b = 0 then Some (Inr m)
      else case ConsumeTag pw b of
             None \<Rightarrow> Some (Inl FieldTag)
           | Some (num, typ, n) \<Rightarrow>
               let b = drop n b;
                   m' = fst (fn num typ b m);
                   used = snd (fn num typ b m);
                   n = (if used \<noteq> 0 then used else consumeField pw num typ b)
               in if n < 0 then Some (Inl (FieldValue num)) else fieldScan pw fn (drop (nat n) b) m')"

text \<open>An assignment from a consume function, and no case of the switch.\<close>

definition asg :: "'v \<times> int \<Rightarrow> ('v \<Rightarrow> 'm) \<Rightarrow> 'm \<times> int" where
  "asg x f = (f (fst x), snd x)"

definition key_id :: "protowire \<Rightarrow> bytes \<Rightarrow> nat \<Rightarrow> shardKey \<Rightarrow> (shardKey \<Rightarrow> 'm) \<Rightarrow> 'm \<times> int" where
  "key_id pw b typ k f = asg (consumeID pw b typ (sk_id k)) (\<lambda>i. f (k\<lparr>sk_id := i\<rparr>))"

definition key_index :: "protowire \<Rightarrow> bytes \<Rightarrow> nat \<Rightarrow> shardKey \<Rightarrow> (shardKey \<Rightarrow> 'm) \<Rightarrow> 'm \<times> int" where
  "key_index pw b typ k f = asg (consumeUvarint pw b typ) (\<lambda>v. f (k\<lparr>sk_index := ucast v\<rparr>))"

definition chunk_field :: "protowire \<Rightarrow> nat \<Rightarrow> nat \<Rightarrow> bytes \<Rightarrow> chunkMsg \<Rightarrow> chunkMsg \<times> int" where
  "chunk_field pw num typ b m =
     (if num = 1 then key_id pw b typ (cm_key m) (\<lambda>k. m\<lparr>cm_key := k\<rparr>)
      else if num = 2 then key_index pw b typ (cm_key m) (\<lambda>k. m\<lparr>cm_key := k\<rparr>)
      else if num = 3 then asg (consumeUvarint pw b typ) (\<lambda>v. m\<lparr>cm_offset := v\<rparr>)
      else if num = 4 then asg (consumeBytes pw b typ) (\<lambda>v. m\<lparr>cm_data := v\<rparr>)
      else if num = 5 then asg (consumeUvarint pw b typ) (\<lambda>v. m\<lparr>cm_stream := v\<rparr>)
      else (m, 0))"

definition decodeChunk :: "protowire \<Rightarrow> bytes \<Rightarrow> (wire_error + chunkMsg) option" where
  "decodeChunk pw b = fieldScan pw (chunk_field pw) b \<lparr>cm_key = zeroKey, cm_offset = 0, cm_data = [], cm_stream = 0\<rparr>"

definition commit_field :: "protowire \<Rightarrow> nat \<Rightarrow> nat \<Rightarrow> bytes \<Rightarrow> commitMsg \<Rightarrow> commitMsg \<times> int" where
  "commit_field pw num typ b m =
     (if num = 1 then key_id pw b typ (co_key m) (\<lambda>k. m\<lparr>co_key := k\<rparr>)
      else if num = 2 then key_index pw b typ (co_key m) (\<lambda>k. m\<lparr>co_key := k\<rparr>)
      else if num = 3 then asg (consumeUvarint pw b typ) (\<lambda>v. m\<lparr>co_length := v\<rparr>)
      else if num = 4 then asg (consumeBytes pw b typ) (\<lambda>v. m\<lparr>co_checksum := v\<rparr>)
      else if num = 5 then asg (consumeUvarint pw b typ) (\<lambda>v. m\<lparr>co_stream := v\<rparr>)
      else (m, 0))"

definition decodeCommit :: "protowire \<Rightarrow> bytes \<Rightarrow> (wire_error + commitMsg) option" where
  "decodeCommit pw b =
     fieldScan pw (commit_field pw) b \<lparr>co_key = zeroKey, co_length = 0, co_checksum = [], co_stream = 0\<rparr>"

definition writeAck_field :: "protowire \<Rightarrow> nat \<Rightarrow> nat \<Rightarrow> bytes \<Rightarrow> writeAckMsg \<Rightarrow> writeAckMsg \<times> int" where
  "writeAck_field pw num typ b m =
     (if num = 1 then key_id pw b typ (wa_key m) (\<lambda>k. m\<lparr>wa_key := k\<rparr>)
      else if num = 2 then key_index pw b typ (wa_key m) (\<lambda>k. m\<lparr>wa_key := k\<rparr>)
      else if num = 3 then asg (consumeUvarint pw b typ) (\<lambda>v. m\<lparr>wa_staged := v\<rparr>)
      else if num = 4 then asg (consumeUvarint pw b typ) (\<lambda>v. m\<lparr>wa_committed := v \<noteq> 0\<rparr>)
      else if num = 5 then asg (consumeBytes pw b typ) (\<lambda>v. m\<lparr>wa_errMsg := v\<rparr>)
      else if num = 6 then asg (consumeUvarint pw b typ) (\<lambda>v. m\<lparr>wa_stream := v\<rparr>)
      else (m, 0))"

definition decodeWriteAck :: "protowire \<Rightarrow> bytes \<Rightarrow> (wire_error + writeAckMsg) option" where
  "decodeWriteAck pw b =
     fieldScan pw (writeAck_field pw) b
       \<lparr>wa_key = zeroKey, wa_staged = 0, wa_committed = False, wa_errMsg = [], wa_stream = 0\<rparr>"

definition read_field :: "protowire \<Rightarrow> nat \<Rightarrow> nat \<Rightarrow> bytes \<Rightarrow> readMsg \<Rightarrow> readMsg \<times> int" where
  "read_field pw num typ b m =
     (if num = 1 then asg (consumeUvarint pw b typ) (\<lambda>v. m\<lparr>rm_reqID := v\<rparr>)
      else if num = 2 then key_id pw b typ (rm_key m) (\<lambda>k. m\<lparr>rm_key := k\<rparr>)
      else if num = 3 then key_index pw b typ (rm_key m) (\<lambda>k. m\<lparr>rm_key := k\<rparr>)
      else if num = 4 then asg (consumeUvarint pw b typ) (\<lambda>v. m\<lparr>rm_offset := v\<rparr>)
      else if num = 5 then asg (consumeUvarint pw b typ) (\<lambda>v. m\<lparr>rm_length := v\<rparr>)
      else (m, 0))"

definition decodeRead :: "protowire \<Rightarrow> bytes \<Rightarrow> (wire_error + readMsg) option" where
  "decodeRead pw b =
     fieldScan pw (read_field pw) b \<lparr>rm_reqID = 0, rm_key = zeroKey, rm_offset = 0, rm_length = 0\<rparr>"

definition readResult_field :: "protowire \<Rightarrow> nat \<Rightarrow> nat \<Rightarrow> bytes \<Rightarrow> readResultMsg \<Rightarrow> readResultMsg \<times> int" where
  "readResult_field pw num typ b m =
     (if num = 1 then asg (consumeUvarint pw b typ) (\<lambda>v. m\<lparr>rr_reqID := v\<rparr>)
      else if num = 2 then asg (consumeBytes pw b typ) (\<lambda>v. m\<lparr>rr_data := v\<rparr>)
      else if num = 3 then asg (consumeBytes pw b typ) (\<lambda>v. m\<lparr>rr_errMsg := v\<rparr>)
      else (m, 0))"

definition decodeReadResult :: "protowire \<Rightarrow> bytes \<Rightarrow> (wire_error + readResultMsg) option" where
  "decodeReadResult pw b = fieldScan pw (readResult_field pw) b \<lparr>rr_reqID = 0, rr_data = [], rr_errMsg = []\<rparr>"

definition delete_field :: "protowire \<Rightarrow> nat \<Rightarrow> nat \<Rightarrow> bytes \<Rightarrow> deleteMsg \<Rightarrow> deleteMsg \<times> int" where
  "delete_field pw num typ b m =
     (if num = 1 then asg (consumeUvarint pw b typ) (\<lambda>v. m\<lparr>de_reqID := v\<rparr>)
      else if num = 2 then key_id pw b typ (de_key m) (\<lambda>k. m\<lparr>de_key := k\<rparr>)
      else if num = 3 then key_index pw b typ (de_key m) (\<lambda>k. m\<lparr>de_key := k\<rparr>)
      else (m, 0))"

definition decodeDelete :: "protowire \<Rightarrow> bytes \<Rightarrow> (wire_error + deleteMsg) option" where
  "decodeDelete pw b = fieldScan pw (delete_field pw) b \<lparr>de_reqID = 0, de_key = zeroKey\<rparr>"

definition deleteAck_field :: "protowire \<Rightarrow> nat \<Rightarrow> nat \<Rightarrow> bytes \<Rightarrow> deleteAckMsg \<Rightarrow> deleteAckMsg \<times> int" where
  "deleteAck_field pw num typ b m =
     (if num = 1 then asg (consumeUvarint pw b typ) (\<lambda>v. m\<lparr>da_reqID := v\<rparr>)
      else if num = 2 then asg (consumeBytes pw b typ) (\<lambda>v. m\<lparr>da_errMsg := v\<rparr>)
      else (m, 0))"

definition decodeDeleteAck :: "protowire \<Rightarrow> bytes \<Rightarrow> (wire_error + deleteAckMsg) option" where
  "decodeDeleteAck pw b = fieldScan pw (deleteAck_field pw) b \<lparr>da_reqID = 0, da_errMsg = []\<rparr>"

definition verify_field :: "protowire \<Rightarrow> nat \<Rightarrow> nat \<Rightarrow> bytes \<Rightarrow> verifyMsg \<Rightarrow> verifyMsg \<times> int" where
  "verify_field pw num typ b m =
     (if num = 1 then asg (consumeUvarint pw b typ) (\<lambda>v. m\<lparr>vm_reqID := v\<rparr>)
      else if num = 2 then key_id pw b typ (vm_key m) (\<lambda>k. m\<lparr>vm_key := k\<rparr>)
      else if num = 3 then key_index pw b typ (vm_key m) (\<lambda>k. m\<lparr>vm_key := k\<rparr>)
      else (m, 0))"

definition decodeVerify :: "protowire \<Rightarrow> bytes \<Rightarrow> (wire_error + verifyMsg) option" where
  "decodeVerify pw b = fieldScan pw (verify_field pw) b \<lparr>vm_reqID = 0, vm_key = zeroKey\<rparr>"

definition verifyAck_field :: "protowire \<Rightarrow> nat \<Rightarrow> nat \<Rightarrow> bytes \<Rightarrow> verifyAckMsg \<Rightarrow> verifyAckMsg \<times> int" where
  "verifyAck_field pw num typ b m =
     (if num = 1 then asg (consumeUvarint pw b typ) (\<lambda>v. m\<lparr>va_reqID := v\<rparr>)
      else if num = 2 then asg (consumeUvarint pw b typ) (\<lambda>v. m\<lparr>va_committed := v \<noteq> 0\<rparr>)
      else if num = 3 then asg (consumeBytes pw b typ) (\<lambda>v. m\<lparr>va_checksum := v\<rparr>)
      else if num = 4 then asg (consumeUvarint pw b typ) (\<lambda>v. m\<lparr>va_length := v\<rparr>)
      else if num = 5 then asg (consumeBytes pw b typ) (\<lambda>v. m\<lparr>va_errMsg := v\<rparr>)
      else (m, 0))"

definition decodeVerifyAck :: "protowire \<Rightarrow> bytes \<Rightarrow> (wire_error + verifyAckMsg) option" where
  "decodeVerifyAck pw b =
     fieldScan pw (verifyAck_field pw) b
       \<lparr>va_reqID = 0, va_committed = False, va_checksum = [], va_length = 0, va_errMsg = []\<rparr>"

section \<open>The message set\<close>

datatype data_message =
    DChunk chunkMsg
  | DCommit commitMsg
  | DWriteAck writeAckMsg
  | DRead readMsg
  | DReadResult readResultMsg
  | DDelete deleteMsg
  | DDeleteAck deleteAckMsg
  | DVerify verifyMsg
  | DVerifyAck verifyAckMsg

fun encode_data :: "protowire \<Rightarrow> data_message \<Rightarrow> bytes" where
  "encode_data pw (DChunk m) = encodeChunk pw m"
| "encode_data pw (DCommit m) = encodeCommit pw m"
| "encode_data pw (DWriteAck m) = encodeWriteAck pw m"
| "encode_data pw (DRead m) = encodeRead pw m"
| "encode_data pw (DReadResult m) = encodeReadResult pw m"
| "encode_data pw (DDelete m) = encodeDelete pw m"
| "encode_data pw (DDeleteAck m) = encodeDeleteAck pw m"
| "encode_data pw (DVerify m) = encodeVerify pw m"
| "encode_data pw (DVerifyAck m) = encodeVerifyAck pw m"

text \<open>The decoding half of \<^verbatim>\<open>HandleData\<close>: split off the command and decode it with its decoder.\<close>

definition decode_data :: "protowire \<Rightarrow> bytes \<Rightarrow> (wire_error + data_message) option" where
  "decode_data pw payload =
     (case decodeMessage pw payload of
        None \<Rightarrow> None
      | Some (Inl e) \<Rightarrow> Some (Inl e)
      | Some (Inr (cmd, body)) \<Rightarrow>
          (if cmd = msgChunk then map_option (map_sum id DChunk) (decodeChunk pw body)
           else if cmd = msgCommit then map_option (map_sum id DCommit) (decodeCommit pw body)
           else if cmd = msgWriteAck then map_option (map_sum id DWriteAck) (decodeWriteAck pw body)
           else if cmd = msgRead then map_option (map_sum id DRead) (decodeRead pw body)
           else if cmd = msgReadResult then map_option (map_sum id DReadResult) (decodeReadResult pw body)
           else if cmd = msgDelete then map_option (map_sum id DDelete) (decodeDelete pw body)
           else if cmd = msgDeleteAck then map_option (map_sum id DDeleteAck) (decodeDeleteAck pw body)
           else if cmd = msgVerify then map_option (map_sum id DVerify) (decodeVerify pw body)
           else map_option (map_sum id DVerifyAck) (decodeVerifyAck pw body)))"

end
