(* ===== verification/Datapath_Codec.thy ===== *)
theory Datapath_Codec
  imports Datapath_Wire Wire_Ref
begin

text \<open>
  The data channel codec is sound: every message that fits in memory is read back as it was written,
  through the command decoder and through the channel envelope, and the decoders return on every
  input whatever its bytes are.
\<close>

text \<open>The command bytes of a message, and the number they are sent under.\<close>

fun data_cmd :: "protowire \<Rightarrow> data_message \<Rightarrow> nat \<times> bytes" where
  "data_cmd pw (DChunk m) = (msgChunk, chunk_cmd pw m)"
| "data_cmd pw (DCommit m) = (msgCommit, commit_cmd pw m)"
| "data_cmd pw (DWriteAck m) = (msgWriteAck, writeAck_cmd pw m)"
| "data_cmd pw (DRead m) = (msgRead, read_cmd pw m)"
| "data_cmd pw (DReadResult m) = (msgReadResult, readResult_cmd pw m)"
| "data_cmd pw (DDelete m) = (msgDelete, delete_cmd pw m)"
| "data_cmd pw (DDeleteAck m) = (msgDeleteAck, deleteAck_cmd pw m)"
| "data_cmd pw (DVerify m) = (msgVerify, verify_cmd pw m)"
| "data_cmd pw (DVerifyAck m) = (msgVerifyAck, verifyAck_cmd pw m)"

text \<open>
  The byte strings of the message are Go slices, and so are its command and its encoding. The three
  replies without a key are empty when all their fields are zero, and an empty command is not sent:
  their request numbers start at one.
\<close>

fun sized_fields :: "data_message \<Rightarrow> bool" where
  "sized_fields (DChunk m) = go_sized (cm_data m)"
| "sized_fields (DCommit m) = go_sized (co_checksum m)"
| "sized_fields (DWriteAck m) = go_sized (wa_errMsg m)"
| "sized_fields (DReadResult m) = (rr_reqID m \<noteq> 0 \<and> go_sized (rr_data m) \<and> go_sized (rr_errMsg m))"
| "sized_fields (DDeleteAck m) = (da_reqID m \<noteq> 0 \<and> go_sized (da_errMsg m))"
| "sized_fields (DVerifyAck m) = (va_reqID m \<noteq> 0 \<and> go_sized (va_checksum m) \<and> go_sized (va_errMsg m))"
| "sized_fields _ = True"

definition sized_data :: "protowire \<Rightarrow> data_message \<Rightarrow> bool" where
  "sized_data pw m \<longleftrightarrow> sized_fields m \<and> go_sized (snd (data_cmd pw m)) \<and> go_sized (encode_data pw m)"

lemma encode_data_cmd: "encode_data pw m = encodeMessage pw (fst (data_cmd pw m)) (snd (data_cmd pw m))"
  by (cases m) (simp_all add: encodeChunk_def encodeCommit_def encodeWriteAck_def encodeRead_def encodeReadResult_def
      encodeDelete_def encodeDeleteAck_def encodeVerify_def encodeVerifyAck_def)

lemma fieldScan_Nil [simp]: "fieldScan pw fn [] m = Some (Inr m)"
  by (subst fieldScan.simps) simp

context wire
begin

section \<open>One field of a command\<close>

text \<open>An encoded value is never empty, or two values would be read back from the same bytes.\<close>

lemma varint_nonempty: "AppendVarint pw [] v \<noteq> []"
proof
  assume "AppendVarint pw [] v = []"
  then have "ConsumeVarint pw (AppendVarint pw [] (v + 1)) = Some (v, 0)"
    using consume_varint [of v "AppendVarint pw [] (v + 1)"] by simp
  then show False using consume_varint [of "v + 1" "[]"] by simp
qed

lemma bytes_nonempty: "AppendBytes pw [] x \<noteq> []" if "go_sized x"
proof
  assume e: "AppendBytes pw [] x = []"
  let ?y = "if x = [] then [0] else [] :: bytes"
  have y: "?y \<noteq> x" "go_sized ?y" by (simp_all add: go_sized_def)
  have "ConsumeBytes pw (AppendBytes pw [] ?y) = Some (x, 0)"
    using consume_bytes [OF that, of "AppendBytes pw [] ?y"] e by simp
  then show False using consume_bytes [OF y(2), of "[]"] y(1) by simp
qed

lemma consume_values [simp]:
  "consumeUvarint pw (AppendVarint pw [] v @ b) VarintType = (v, int (length (AppendVarint pw [] v)))"
  "go_sized x \<Longrightarrow> consumeBytes pw (AppendBytes pw [] x @ b) BytesType = (x, int (length (AppendBytes pw [] x)))"
  "consumeID pw (AppendBytes pw [] (vid_bytes i) @ b) BytesType j = (i, int (length (AppendBytes pw [] (vid_bytes i))))"
proof -
  show y: "consumeBytes pw (AppendBytes pw [] x @ b) BytesType = (x, int (length (AppendBytes pw [] x)))"
    if "go_sized x" for x using that by (simp add: consumeBytes_def consume_bytes)
  show "consumeUvarint pw (AppendVarint pw [] v @ b) VarintType = (v, int (length (AppendVarint pw [] v)))"
    by (simp add: consumeUvarint_def consume_varint)
  have "go_sized (vid_bytes i)" by (simp add: go_sized_def)
  from y [OF this]
  show "consumeID pw (AppendBytes pw [] (vid_bytes i) @ b) BytesType j = (i, int (length (AppendBytes pw [] (vid_bytes i))))"
    by (simp add: consumeID_def)
qed

lemma scan_tag:
  assumes "valid_num n" and "t \<le> 5" and "snd (fn n t (x @ b) m) = int (length x)" and "x \<noteq> []"
  shows "fieldScan pw fn (AppendTag pw [] n t @ x @ b) m = fieldScan pw fn b (fst (fn n t (x @ b) m))"
proof -
  have v: "1 \<le> n" "n < 2 ^ 29" using assms(1) by (simp_all add: valid_num_def)
  have ne: "AppendTag pw [] n t @ x @ b \<noteq> []" by (rule tag_nonempty [OF v assms(2)])
  show ?thesis
    by (subst fieldScan.simps) (use ne assms(3,4) consume_tag [OF v assms(2), of "x @ b"] in \<open>simp add: Let_def\<close>)
qed

lemma scan_uvarint:
  assumes "valid_num n" and "snd (fn n VarintType (AppendVarint pw [] v @ b) m) = int (length (AppendVarint pw [] v))"
    and "v = 0 \<longrightarrow> fst (fn n VarintType (AppendVarint pw [] v @ b) m) = m"
  shows "fieldScan pw fn (putUvarint pw [] n v @ b) m = fieldScan pw fn b (fst (fn n VarintType (AppendVarint pw [] v @ b) m))"
proof (cases "v = 0")
  case False
  then have "putUvarint pw [] n v @ b = AppendTag pw [] n VarintType @ AppendVarint pw [] v @ b"
    by (simp add: putUvarint_def varint_append [of "AppendTag pw [] n VarintType"])
  then show ?thesis using scan_tag [where fn = fn and x = "AppendVarint pw [] v", OF assms(1) _ assms(2)] varint_nonempty by (simp add: VarintType_def)
qed (use assms(3) in \<open>simp add: putUvarint_def\<close>)

lemma scan_bytes:
  assumes "valid_num n" and "go_sized x" and "snd (fn n BytesType (AppendBytes pw [] x @ b) m) = int (length (AppendBytes pw [] x))"
    and "x = [] \<longrightarrow> fst (fn n BytesType (AppendBytes pw [] x @ b) m) = m"
  shows "fieldScan pw fn (putBytes pw [] n x @ b) m = fieldScan pw fn b (fst (fn n BytesType (AppendBytes pw [] x @ b) m))"
proof (cases "x = []")
  case False
  then have "putBytes pw [] n x @ b = AppendTag pw [] n BytesType @ AppendBytes pw [] x @ b"
    by (simp add: putBytes_def bytes_append [of "AppendTag pw [] n BytesType"])
  then show ?thesis using scan_tag [where fn = fn and x = "AppendBytes pw [] x", OF assms(1) _ assms(3)] bytes_nonempty [OF assms(2)] by (simp add: BytesType_def)
qed (use assms(4) in \<open>simp add: putBytes_def\<close>)

lemma string_is_bytes: "putString pw b n x = putBytes pw b n x"
  by (simp add: putString_def putBytes_def string_bytes)

lemma vid_bytes_fits [simp]: "go_sized (vid_bytes i)" "vid_bytes i \<noteq> []"
proof -
  show "go_sized (vid_bytes i)" by (simp add: go_sized_def)
  show "vid_bytes i \<noteq> []" using length_vid_bytes [of i] by (metis list.size(3) zero_neq_numeral)
qed

lemmas scan_rules = scan_uvarint scan_bytes scan_uvarint [where b = "[]", simplified] scan_bytes [where b = "[]", simplified]

lemmas consume_ends = consume_values [where b = "[]", simplified]

lemmas field_defs = chunk_field_def commit_field_def writeAck_field_def read_field_def readResult_field_def
  delete_field_def deleteAck_field_def verify_field_def verifyAck_field_def key_id_def key_index_def asg_def zeroKey_def

lemma of_bool_nonzero: "(of_bool x :: u64) \<noteq> 0 \<longleftrightarrow> x"
  by simp

section \<open>Every command is read back\<close>

lemmas cmd_rules = Let_def bool_uvarint string_is_bytes put_splits scan_rules consume_ends field_defs

lemma chunk_cmd_decoded: "go_sized (cm_data m) \<Longrightarrow> decodeChunk pw (chunk_cmd pw m) = Some (Inr m)"
  by (cases m; cases "cm_key m") (simp add: decodeChunk_def chunk_cmd_def cmd_rules)

lemma commit_cmd_decoded: "go_sized (co_checksum m) \<Longrightarrow> decodeCommit pw (commit_cmd pw m) = Some (Inr m)"
  by (cases m; cases "co_key m") (simp add: decodeCommit_def commit_cmd_def cmd_rules)

lemma writeAck_cmd_decoded: "go_sized (wa_errMsg m) \<Longrightarrow> decodeWriteAck pw (writeAck_cmd pw m) = Some (Inr m)"
  by (cases m; cases "wa_key m") (simp add: decodeWriteAck_def writeAck_cmd_def cmd_rules)

lemma read_cmd_decoded: "decodeRead pw (read_cmd pw m) = Some (Inr m)"
  by (cases m; cases "rm_key m") (simp add: decodeRead_def read_cmd_def cmd_rules)

lemma readResult_cmd_decoded:
  "go_sized (rr_data m) \<Longrightarrow> go_sized (rr_errMsg m) \<Longrightarrow> decodeReadResult pw (readResult_cmd pw m) = Some (Inr m)"
  by (cases m) (simp add: decodeReadResult_def readResult_cmd_def cmd_rules)

lemma delete_cmd_decoded: "decodeDelete pw (delete_cmd pw m) = Some (Inr m)"
  by (cases m; cases "de_key m") (simp add: decodeDelete_def delete_cmd_def cmd_rules)

lemma deleteAck_cmd_decoded: "go_sized (da_errMsg m) \<Longrightarrow> decodeDeleteAck pw (deleteAck_cmd pw m) = Some (Inr m)"
  by (cases m) (simp add: decodeDeleteAck_def deleteAck_cmd_def cmd_rules)

lemma verify_cmd_decoded: "decodeVerify pw (verify_cmd pw m) = Some (Inr m)"
  by (cases m; cases "vm_key m") (simp add: decodeVerify_def verify_cmd_def cmd_rules)

lemma verifyAck_cmd_decoded:
  "go_sized (va_checksum m) \<Longrightarrow> go_sized (va_errMsg m) \<Longrightarrow> decodeVerifyAck pw (verifyAck_cmd pw m) = Some (Inr m)"
  by (cases m) (simp add: decodeVerifyAck_def verifyAck_cmd_def cmd_rules)

section \<open>The envelopes\<close>

text \<open>One step of either loop over a field that carries the value \<open>x\<close>.\<close>

lemma put_nonzero:
  "v \<noteq> 0 \<Longrightarrow> putUvarint pw [] n v = AppendTag pw [] n VarintType @ AppendVarint pw [] v"
  "x \<noteq> [] \<Longrightarrow> putBytes pw [] n x = AppendTag pw [] n BytesType @ AppendBytes pw [] x"
  by (simp_all add: putUvarint_def putBytes_def varint_append [of "AppendTag pw [] n VarintType"]
      bytes_append [of "AppendTag pw [] n BytesType"])

lemma tag_read:
  assumes "valid_num n" and "t \<le> 5"
  shows "ConsumeTag pw (AppendTag pw [] n t @ b) = Some (n, t, length (AppendTag pw [] n t))"
    and "AppendTag pw [] n t \<noteq> []"
  using assms consume_tag [of n t b] tag_nonempty [of n t "[]"] by (auto simp: valid_num_def)

lemma types_small [simp]: "VarintType \<le> 5" "BytesType \<le> 5"
  by (simp_all add: type_defs)

lemma decodeMessage_encodeMessage:
  assumes "msgChunk \<le> num" and "num \<le> msgVerifyAck" and "go_sized c" and "c \<noteq> []"
  shows "decodeMessage pw (encodeMessage pw num c) = Some (Inr (num, c))"
proof -
  have v: "valid_num num" "num \<noteq> 1" "num \<noteq> 0" using assms(1,2) by (auto simp: valid_num_def msg_nums)
  have e: "encodeMessage pw num c = AppendTag pw [] 1 VarintType @ AppendVarint pw [] 1 @ AppendTag pw [] num BytesType @ AppendBytes pw [] c"
    using assms(4) by (simp add: encodeMessage_def wireVersion_def Let_def put_splits(1,3) put_nonzero del: One_nat_def)
  have "decodeMessage_loop pw (encodeMessage pw num c) 0 0 [] =
      decodeMessage_loop pw (AppendTag pw [] num BytesType @ AppendBytes pw [] c) 1 0 []"
    unfolding e by (subst decodeMessage_loop.simps) (use tag_read [of 1 VarintType] in \<open>simp add: Let_def\<close>)
  also have "\<dots> = decodeMessage_loop pw [] 1 num c"
    by (subst decodeMessage_loop.simps)
      (use tag_read [OF v(1), of BytesType] v assms consume_ends(2) [OF assms(3)] in \<open>simp add: Let_def\<close>)
  also have "\<dots> = Some (Inr (1, num, c))" by (subst decodeMessage_loop.simps) simp
  finally show ?thesis using v by (simp add: decodeMessage_def wireVersion_def)
qed

lemma Unwrap_Wrap:
  assumes "go_sized payload" and "payload \<noteq> []"
  shows "Unwrap pw (Wrap pw channel payload) = Some (Inr (channel, payload))"
proof -
  have w: "Wrap pw channel payload = AppendTag pw [] 1 VarintType @ AppendVarint pw [] 1 @ putUvarint pw [] 2 channel @
      AppendTag pw [] 3 BytesType @ AppendBytes pw [] payload"
    using assms(2) by (simp add: Wrap_def envelopeVersion_def Let_def put_splits(1,3) put_nonzero del: One_nat_def)
  have "Unwrap_loop pw (Wrap pw channel payload) 0 0 [] =
      Unwrap_loop pw (putUvarint pw [] 2 channel @ AppendTag pw [] 3 BytesType @ AppendBytes pw [] payload) 1 0 []"
    unfolding w by (subst Unwrap_loop.simps) (use tag_read [of 1 VarintType] in \<open>simp add: Let_def\<close>)
  also have "\<dots> = Unwrap_loop pw (AppendTag pw [] 3 BytesType @ AppendBytes pw [] payload) 1 channel []"
  proof (cases "channel = 0")
    case False
    then show ?thesis unfolding put_nonzero(1) [OF False] append_assoc
      by (subst Unwrap_loop.simps) (use tag_read [of 2 VarintType] in \<open>simp add: Let_def\<close>)
  qed (simp add: putUvarint_def)
  also have "\<dots> = Unwrap_loop pw [] 1 channel payload"
    by (subst Unwrap_loop.simps)
      (use tag_read [of 3 BytesType] consume_ends(2) [OF assms(1)] in \<open>simp add: Let_def\<close>)
  also have "\<dots> = Some (Inr (1, channel, payload))" by (subst Unwrap_loop.simps) simp
  finally show ?thesis by (simp add: Unwrap_def envelopeVersion_def)
qed

lemma cmd_nonempty: "sized_fields m \<Longrightarrow> snd (data_cmd pw m) \<noteq> []"
proof -
  have "putBytes pw [] n (vid_bytes i) \<noteq> []" if "valid_num n" for n i
    using that put_nonzero(2) tag_read(2) by simp
  moreover have "putUvarint pw [] n v \<noteq> []" if "valid_num n" and "v \<noteq> 0" for n v
    using that put_nonzero(1) tag_read(2) by simp
  ultimately show "sized_fields m \<Longrightarrow> snd (data_cmd pw m) \<noteq> []"
    by (cases m) (simp_all add: chunk_cmd_def commit_cmd_def writeAck_cmd_def read_cmd_def readResult_cmd_def delete_cmd_def
        deleteAck_cmd_def verify_cmd_def verifyAck_cmd_def Let_def put_splits)
qed

lemma decode_encode_data:
  assumes "sized_data pw m"
  shows "decode_data pw (encode_data pw m) = Some (Inr m)"
proof -
  have s: "sized_fields m" "go_sized (snd (data_cmd pw m))" using assms by (simp_all add: sized_data_def)
  have "msgChunk \<le> fst (data_cmd pw m)" "fst (data_cmd pw m) \<le> msgVerifyAck" by (cases m; simp add: msg_nums)+
  from decodeMessage_encodeMessage [OF this s(2) cmd_nonempty [OF s(1)]]
  have d: "decodeMessage pw (encode_data pw m) = Some (Inr (data_cmd pw m))" by (simp add: encode_data_cmd)
  show ?thesis
    using s(1) unfolding decode_data_def d
    by (cases m) (simp_all add: msg_nums chunk_cmd_decoded commit_cmd_decoded writeAck_cmd_decoded read_cmd_decoded
        readResult_cmd_decoded delete_cmd_decoded deleteAck_cmd_decoded verify_cmd_decoded verifyAck_cmd_decoded)
qed

lemma encode_data_nonempty: "encode_data pw m \<noteq> []"
  by (simp add: encode_data_cmd encodeMessage_def Let_def put_splits wireVersion_def put_nonzero tag_read(2))

section \<open>Every decoder returns\<close>

text \<open>Induction over a buffer that is consumed tag by tag.\<close>

lemma tag_induct:
  assumes "\<And>b. (\<And>num ty n k. b \<noteq> [] \<Longrightarrow> ConsumeTag pw b = Some (num, ty, n) \<Longrightarrow> P (drop k (drop n b))) \<Longrightarrow> P b"
  shows "P b"
proof (induction b rule: length_induct)
  case (1 b)
  show ?case
  proof (rule assms)
    fix num ty n k
    assume b: "b \<noteq> []" and tag: "ConsumeTag pw b = Some (num, ty, n)"
    have "0 < n" "n \<le> length b" using tag_bounds [OF tag] by auto
    with b have "length (drop k (drop n b)) < length b" by auto
    with 1 show "P (drop k (drop n b))" by blast
  qed
qed

lemma fieldScan_returns: "\<exists>r. fieldScan pw fn b m = Some r"
proof (induction b arbitrary: m rule: tag_induct)
  case (1 b)
  then show ?case by (subst fieldScan.simps) (auto simp: Let_def split: option.split)
qed

lemma decodeMessage_loop_returns: "\<exists>r. decodeMessage_loop pw b version cmd body = Some r"
proof (induction b arbitrary: version cmd body rule: tag_induct)
  case (1 b)
  then show ?case by (subst decodeMessage_loop.simps) (auto simp: Let_def case_prod_beta split: option.split)
qed

lemma Unwrap_loop_returns: "\<exists>r. Unwrap_loop pw b version channel payload = Some r"
proof (induction b arbitrary: version channel payload rule: tag_induct)
  case (1 b)
  then show ?case by (subst Unwrap_loop.simps) (auto simp: Let_def split: option.split)
qed

lemma decoders_return:
  "\<exists>r. decodeChunk pw b = Some r" "\<exists>r. decodeCommit pw b = Some r" "\<exists>r. decodeWriteAck pw b = Some r"
  "\<exists>r. decodeRead pw b = Some r" "\<exists>r. decodeReadResult pw b = Some r" "\<exists>r. decodeDelete pw b = Some r"
  "\<exists>r. decodeDeleteAck pw b = Some r" "\<exists>r. decodeVerify pw b = Some r" "\<exists>r. decodeVerifyAck pw b = Some r"
  by (simp_all only: decodeChunk_def decodeCommit_def decodeWriteAck_def decodeRead_def decodeReadResult_def
        decodeDelete_def decodeDeleteAck_def decodeVerify_def decodeVerifyAck_def fieldScan_returns)

lemma decode_data_returns: "\<exists>r. decode_data pw b = Some r" "\<exists>r. Unwrap pw b = Some r"
proof -
  have "\<exists>r. decodeMessage pw b = Some r"
    using decodeMessage_loop_returns [of b 0 0 "[]"] by (auto simp: decodeMessage_def split: sum.splits)
  then obtain r where r: "decodeMessage pw b = Some r" ..
  show "\<exists>r. decode_data pw b = Some r"
  proof (cases r)
    case (Inr x)
    obtain cmd c where x: "x = (cmd, c)" by fastforce
    show ?thesis
      unfolding decode_data_def r Inr x option.case sum.case prod.case
      using decoders_return [of c] by (simp split: if_split)
  qed (simp add: decode_data_def r)
  show "\<exists>r. Unwrap pw b = Some r"
    using Unwrap_loop_returns [of b 0 0 "[]"] by (auto simp: Unwrap_def split: sum.splits)
qed

end

end
