(* ===== verification/Datapath.thy ===== *)
theory Datapath
  imports Datapath_Wire Sim_Disk
begin

text \<open>
  The shard transfer service of a node (\<^verbatim>\<open>internal/datapath\<close>: \<^verbatim>\<open>service.go\<close>, \<^verbatim>\<open>write.go\<close>, \<^verbatim>\<open>read.go\<close>).

  The state of a \<^verbatim>\<open>Service\<close> is a record with the disk it writes to; a handler returns the new state
  and what it did to the outside, in order: messages sent and callbacks called. A message is sent as
  a value of \<open>data_message\<close>; \<open>transmit\<close> is the bytes the transport gets. Callbacks are always called last, so
  whatever they call next is the next operation. A timer is a flag: it is pending or not, and firing it clears
  the flag first. \<^verbatim>\<open>crypto/sha256\<close> and the text of a disk error are functions of the configuration, and a
  running hash is the bytes written to it.
\<close>

section \<open>File names\<close>

text \<open>\<^verbatim>\<open>hex.EncodeToString\<close> and the verb \<^verbatim>\<open>%d\<close> on unsigned numbers.\<close>

definition hex_digit :: "nat \<Rightarrow> byte" where
  "hex_digit n = (if n < 10 then word_of_nat (48 + n) else word_of_nat (87 + n))"

definition hex_string :: "bytes \<Rightarrow> gostring" where
  "hex_string bs = concat (map (\<lambda>b. [hex_digit (unat b div 16), hex_digit (unat b mod 16)]) bs)"

fun dec_string :: "nat \<Rightarrow> gostring" where
  "dec_string n = (if n < 10 then [word_of_nat (48 + n)] else dec_string (n div 10) @ [word_of_nat (48 + n mod 10)])"

declare dec_string.simps [simp del]

definition ShardFileName :: "shardKey \<Rightarrow> gostring" where
  "ShardFileName k = str ''shards/'' @ hex_string (vid_bytes (sk_id k)) @ str ''-'' @ dec_string (unat (sk_index k))"

definition markerName :: "gostring \<Rightarrow> gostring" where
  "markerName name = name @ str ''.ok''"

definition shardKey_String :: "shardKey \<Rightarrow> gostring" where
  "shardKey_String k = hex_string (vid_bytes (sk_id k)) @ str '' shard '' @ dec_string (unat (sk_index k))"

section \<open>The service\<close>

definition chunkSize :: u64 where "chunkSize = 65536"
definition windowBytes :: int where "windowBytes = 1048576"
definition maxAttempts :: nat where "maxAttempts = 20"
definition maxReadLength :: u64 where "maxReadLength = 1048576"

type_synonym NodeID = gostring
type_synonym writeKey = "NodeID \<times> shardKey"

record 'd Config =
  cf_Disk :: "'d Disk"
  cf_sha256 :: "bytes \<Rightarrow> bytes"
  cf_errText :: "disk_error \<Rightarrow> gostring"

record staging =
  sg_stream :: u64
  sg_staged :: u64
  sg_hash :: bytes

text \<open>\<open>ws_onWindow\<close> and \<open>ws_done\<close> say whether the callback is set.\<close>

record WriteStream =
  ws_to :: NodeID
  ws_key :: shardKey
  ws_stream :: u64
  ws_buf :: bytes
  ws_base :: u64
  ws_sent :: u64
  ws_committing :: bool
  ws_length :: u64
  ws_checksum :: bytes
  ws_timer :: bool
  ws_attempts :: nat
  ws_finished :: bool
  ws_onWindow :: bool
  ws_done :: bool

text \<open>An outstanding read, delete or verify: the three structs have these fields.\<close>

record pending =
  pe_to :: NodeID
  pe_reqID :: u64
  pe_msg :: data_message
  pe_timer :: bool
  pe_attempts :: nat

record 'd Service =
  sv_disk :: 'd
  sv_staging :: "(shardKey, staging) fmap"
  sv_writes :: "(writeKey, WriteStream) fmap"
  sv_reads :: "(u64, pending) fmap"
  sv_deletes :: "(u64, pending) fmap"
  sv_verifies :: "(u64, pending) fmap"
  sv_nextReq :: u64

definition Service_New :: "'d \<Rightarrow> 'd Service" where
  "Service_New d = \<lparr>sv_disk = d, sv_staging = fmempty, sv_writes = fmempty, sv_reads = fmempty,
     sv_deletes = fmempty, sv_verifies = fmempty, sv_nextReq = 0\<rparr>"

datatype op_error =
    PeerError gostring
  | OverAcknowledged
  | Aborted
  | Unreachable

record VerifyResult =
  vr_Committed :: bool
  vr_Checksum :: bytes
  vr_Length :: i64

datatype out =
    Send NodeID data_message
  | WindowOpen writeKey
  | WriteDone writeKey "op_error option"
  | FetchDone u64 "op_error + bytes"
  | DeleteDone u64 "op_error option"
  | VerifyDone u64 "op_error + VerifyResult"

fun transmit :: "protowire \<Rightarrow> out \<Rightarrow> (NodeID \<times> bytes) option" where
  "transmit pw (Send to m) = Some (to, Wrap pw ChannelData (encode_data pw m))"
| "transmit pw _ = None"

section \<open>Receiving a shard\<close>

definition committed :: "'d Config \<Rightarrow> 'd Service \<Rightarrow> shardKey \<Rightarrow> bool" where
  "committed c s key =
     (case ReadFileAt (cf_Disk c) (sv_disk s) (markerName (ShardFileName key)) 0 0 of Inl _ \<Rightarrow> False | Inr _ \<Rightarrow> True)"

definition ack :: "NodeID \<Rightarrow> shardKey \<Rightarrow> u64 \<Rightarrow> bool \<Rightarrow> gostring \<Rightarrow> u64 \<Rightarrow> out" where
  "ack to key staged com err stream =
     Send to (DWriteAck \<lparr>wa_key = key, wa_staged = staged, wa_committed = com, wa_errMsg = err, wa_stream = stream\<rparr>)"

definition abandon ::
    "'d Config \<Rightarrow> 'd Service \<Rightarrow> NodeID \<Rightarrow> shardKey \<Rightarrow> u64 \<Rightarrow> gostring \<Rightarrow> gostring \<Rightarrow> 'd Service \<times> out list" where
  "abandon c s from' key stream name msg =
     (let s = s\<lparr>sv_staging := fmdrop key (sv_staging s)\<rparr>;
          s = (case Remove (cf_Disk c) (sv_disk s) name of
                 (d, None) \<Rightarrow> s\<lparr>sv_disk := fst (Sync (cf_Disk c) d name)\<rparr>
               | (d, Some _) \<Rightarrow> s\<lparr>sv_disk := d\<rparr>)
      in (s, [ack from' key 0 False msg stream]))"

text \<open>The third case of \<^verbatim>\<open>handleChunk\<close>: the first chunk of a new incarnation replaces what is staged.\<close>

definition first_chunk :: "'d Config \<Rightarrow> 'd Service \<Rightarrow> NodeID \<Rightarrow> chunkMsg \<Rightarrow> 'd Service \<times> out list" where
  "first_chunk c s from' m =
     (let key = cm_key m
      in case WriteFile (cf_Disk c) (sv_disk s) (ShardFileName key) (cm_data m) of
           (d, Some e) \<Rightarrow> (s\<lparr>sv_disk := d\<rparr>, [ack from' key 0 False (cf_errText c e) (cm_stream m)])
         | (d, None) \<Rightarrow>
             let g = \<lparr>sg_stream = cm_stream m, sg_staged = word_of_nat (length (cm_data m)), sg_hash = cm_data m\<rparr>
             in (s\<lparr>sv_disk := d, sv_staging := fmupd key g (sv_staging s)\<rparr>,
                 [ack from' key (sg_staged g) False [] (sg_stream g)]))"

definition handleChunk :: "'d Config \<Rightarrow> 'd Service \<Rightarrow> NodeID \<Rightarrow> chunkMsg \<Rightarrow> 'd Service \<times> out list" where
  "handleChunk c s from' m =
     (let key = cm_key m;
          name = ShardFileName key;
          st = fmlookup (sv_staging s) key
      in if st = None \<and> committed c s key then (s, [ack from' key 0 True [] (cm_stream m)])
         else case st of
                Some g \<Rightarrow>
                  if sg_stream g = cm_stream m
                  then if cm_offset m = sg_staged g
                       then (case Append (cf_Disk c) (sv_disk s) name (cm_data m) of
                               (d, Some e) \<Rightarrow>
                                 abandon c (s\<lparr>sv_disk := d\<rparr>) from' key (sg_stream g) name (str ''appending: '' @ cf_errText c e)
                             | (d, None) \<Rightarrow>
                                 let g = g\<lparr>sg_hash := sg_hash g @ cm_data m,
                                           sg_staged := sg_staged g + word_of_nat (length (cm_data m))\<rparr>
                                 in (s\<lparr>sv_disk := d, sv_staging := fmupd key g (sv_staging s)\<rparr>,
                                     [ack from' key (sg_staged g) False [] (sg_stream g)]))
                       else (s, [ack from' key (sg_staged g) False [] (sg_stream g)])
                  else if cm_offset m = 0 \<and> sg_stream g < cm_stream m then first_chunk c s from' m
                  else (s, [])
              | None \<Rightarrow> if cm_offset m = 0 then first_chunk c s from' m else (s, []))"

definition handleCommit :: "'d Config \<Rightarrow> 'd Service \<Rightarrow> NodeID \<Rightarrow> commitMsg \<Rightarrow> 'd Service \<times> out list" where
  "handleCommit c s from' m =
     (let key = co_key m;
          name = ShardFileName key;
          marker = markerName name
      in if co_length m = 0 then abandon c s from' key (co_stream m) name (str ''zero-length shard refused'')
         else case fmlookup (sv_staging s) key of
                None \<Rightarrow> (s, if committed c s key then [ack from' key 0 True [] (co_stream m)] else [])
              | Some g \<Rightarrow>
                  if co_stream m \<noteq> sg_stream g then (s, [])
                  else if sg_staged g \<noteq> co_length m then (s, [ack from' key (sg_staged g) False [] (sg_stream g)])
                  else if cf_sha256 c (sg_hash g) \<noteq> co_checksum m
                  then abandon c s from' key (sg_stream g) name (str ''staged shard fails its checksum'')
                  else case Sync (cf_Disk c) (sv_disk s) name of
                         (d, Some e) \<Rightarrow>
                           abandon c (s\<lparr>sv_disk := d\<rparr>) from' key (sg_stream g) name (str ''syncing shard: '' @ cf_errText c e)
                       | (d, None) \<Rightarrow>
                           case WriteFile (cf_Disk c) d marker [] of
                             (d, Some e) \<Rightarrow>
                               abandon c (s\<lparr>sv_disk := d\<rparr>) from' key (sg_stream g) name
                                 (str ''writing commit marker: '' @ cf_errText c e)
                           | (d, None) \<Rightarrow>
                               case Sync (cf_Disk c) d marker of
                                 (d, Some e) \<Rightarrow>
                                   abandon c (s\<lparr>sv_disk := d\<rparr>) from' key (sg_stream g) name
                                     (str ''syncing commit marker: '' @ cf_errText c e)
                               | (d, None) \<Rightarrow>
                                   (s\<lparr>sv_disk := d, sv_staging := fmdrop key (sv_staging s)\<rparr>,
                                    [ack from' key 0 True [] (sg_stream g)]))"

section \<open>Serving reads, deletes and verifies\<close>

definition readResult :: "NodeID \<Rightarrow> u64 \<Rightarrow> bytes \<Rightarrow> gostring \<Rightarrow> out" where
  "readResult to req data err = Send to (DReadResult \<lparr>rr_reqID = req, rr_data = data, rr_errMsg = err\<rparr>)"

definition handleRead :: "'d Config \<Rightarrow> 'd Service \<Rightarrow> NodeID \<Rightarrow> readMsg \<Rightarrow> out list" where
  "handleRead c s from' m =
     (if \<not> committed c s (rm_key m)
      then [readResult from' (rm_reqID m) [] (str ''no committed shard '' @ shardKey_String (rm_key m))]
      else if maxReadLength < rm_length m
      then [readResult from' (rm_reqID m) []
              (str ''read of '' @ dec_string (unat (rm_length m)) @ str '' bytes exceeds the '' @
               dec_string (unat maxReadLength) @ str '' limit'')]
      else case ReadFileAt (cf_Disk c) (sv_disk s) (ShardFileName (rm_key m)) (rm_offset m) (rm_length m) of
             Inl e \<Rightarrow> [readResult from' (rm_reqID m) [] (cf_errText c e)]
           | Inr data \<Rightarrow> [readResult from' (rm_reqID m) data []])"

text \<open>The loop of \<^verbatim>\<open>handleDelete\<close> over the two files; \<^verbatim>\<open>errors.Is(err, fs.ErrNotExist)\<close> goes on.\<close>

fun delete_files :: "'d Config \<Rightarrow> gostring list \<Rightarrow> 'd \<Rightarrow> 'd \<times> disk_error option" where
  "delete_files c [] d = (d, None)"
| "delete_files c (f # fs) d =
     (case Remove (cf_Disk c) d f of
        (d, Some ErrNotExist) \<Rightarrow> delete_files c fs d
      | (d, Some e) \<Rightarrow> (d, Some e)
      | (d, None) \<Rightarrow>
          (case Sync (cf_Disk c) d f of
             (d, Some e) \<Rightarrow> (d, Some e)
           | (d, None) \<Rightarrow> delete_files c fs d))"

definition deleteAck :: "NodeID \<Rightarrow> u64 \<Rightarrow> gostring \<Rightarrow> out" where
  "deleteAck to req err = Send to (DDeleteAck \<lparr>da_reqID = req, da_errMsg = err\<rparr>)"

definition handleDelete :: "'d Config \<Rightarrow> 'd Service \<Rightarrow> NodeID \<Rightarrow> deleteMsg \<Rightarrow> 'd Service \<times> out list" where
  "handleDelete c s from' m =
     (let name = ShardFileName (de_key m)
      in case delete_files c [markerName name, name] (sv_disk s) of
           (d, Some e) \<Rightarrow> (s\<lparr>sv_disk := d\<rparr>, [deleteAck from' (de_reqID m) (cf_errText c e)])
         | (d, None) \<Rightarrow> (s\<lparr>sv_disk := d\<rparr>, [deleteAck from' (de_reqID m) []]))"

definition verifyAck :: "NodeID \<Rightarrow> u64 \<Rightarrow> bool \<Rightarrow> bytes \<Rightarrow> u64 \<Rightarrow> gostring \<Rightarrow> out" where
  "verifyAck to req com cks len err =
     Send to (DVerifyAck \<lparr>va_reqID = req, va_committed = com, va_checksum = cks, va_length = len, va_errMsg = err\<rparr>)"

definition handleVerify :: "'d Config \<Rightarrow> 'd Service \<Rightarrow> NodeID \<Rightarrow> verifyMsg \<Rightarrow> out list" where
  "handleVerify c s from' m =
     (if \<not> committed c s (vm_key m) then [verifyAck from' (vm_reqID m) False [] 0 []]
      else case ReadFile (cf_Disk c) (sv_disk s) (ShardFileName (vm_key m)) of
             Inl e \<Rightarrow> [verifyAck from' (vm_reqID m) False [] 0 (cf_errText c e)]
           | Inr data \<Rightarrow> [verifyAck from' (vm_reqID m) True (cf_sha256 c data) (word_of_nat (length data)) []])"

section \<open>Sending a shard\<close>

text \<open>
  The loop of \<^verbatim>\<open>pump\<close>. An iteration that would slice out of range panics (\<open>None\<close>); any other one
  moves \<open>sent - base\<close> up.
\<close>

definition ws_start :: "WriteStream \<Rightarrow> u64" where
  "ws_start w = ws_sent w - ws_base w"

definition ws_len :: "WriteStream \<Rightarrow> u64" where
  "ws_len w = word_of_nat (length (ws_buf w))"

definition ws_stop :: "WriteStream \<Rightarrow> u64" where
  "ws_stop w = min (ws_start w + chunkSize) (ws_len w)"

definition ws_chunk :: "WriteStream \<Rightarrow> out" where
  "ws_chunk w = Send (ws_to w) (DChunk \<lparr>cm_key = ws_key w, cm_offset = ws_sent w,
     cm_data = take (unat (ws_stop w) - unat (ws_start w)) (drop (unat (ws_start w)) (ws_buf w)), cm_stream = ws_stream w\<rparr>)"

function pump_loop :: "WriteStream \<Rightarrow> out list \<Rightarrow> (WriteStream \<times> out list) option" where
  "pump_loop w os =
     (if ws_sent w < ws_base w + ws_len w
      then if ws_stop w < ws_start w then None
           else pump_loop (w\<lparr>ws_sent := ws_base w + ws_stop w\<rparr>) (os @ [ws_chunk w])
      else Some (w, os))"
  by pat_completeness auto
termination
proof (relation "measure (\<lambda>(w, os). 2 ^ 64 - unat (ws_start w))", goal_cases)
  case (2 w os)
  have ne: "ws_start w \<noteq> ws_len w"
  proof
    assume "ws_start w = ws_len w"
    then have "ws_sent w = ws_base w + ws_len w" by (simp add: ws_start_def algebra_simps)
    with 2(1) show False by simp
  qed
  have "ws_stop w \<noteq> ws_start w" using ne by (auto simp: ws_stop_def min_def chunkSize_def)
  with 2(2) have "ws_start w < ws_stop w" by (simp add: not_less order.strict_iff_order)
  moreover have "ws_start (w\<lparr>ws_sent := ws_base w + ws_stop w\<rparr>) = ws_stop w" by (simp add: ws_start_def)
  moreover have "unat (ws_stop w) < 2 ^ 64" using unat_bound [of "ws_stop w"] by simp
  ultimately show ?case by (simp add: word_less_nat_alt)
qed simp

declare pump_loop.simps [simp del]

definition pump :: "WriteStream \<Rightarrow> (WriteStream \<times> out list) option" where
  "pump w =
     (case pump_loop w [] of
        None \<Rightarrow> None
      | Some (w, os) \<Rightarrow>
          if ws_committing w \<and> ws_sent w = ws_length w
          then Some (w, os @ [Send (ws_to w) (DCommit \<lparr>co_key = ws_key w, co_length = ws_length w,
                                                    co_checksum = ws_checksum w, co_stream = ws_stream w\<rparr>)])
          else Some (w, os))"

definition ws_rearm :: "WriteStream \<Rightarrow> WriteStream" where
  "ws_rearm w = w\<lparr>ws_timer := True\<rparr>"

text \<open>The stream's part of \<^verbatim>\<open>finish\<close>; the service forgets a finished stream (\<open>put_stream\<close>).\<close>

definition ws_finish :: "WriteStream \<Rightarrow> op_error option \<Rightarrow> WriteStream \<times> out list" where
  "ws_finish w err =
     (w\<lparr>ws_finished := True, ws_timer := False, ws_buf := []\<rparr>,
      if ws_done w then [WriteDone (ws_to w, ws_key w) err] else [])"

definition Window :: "WriteStream \<Rightarrow> int" where
  "Window w = (if ws_finished w then 0 else windowBytes - int (length (ws_buf w)))"

definition ws_Write :: "WriteStream \<Rightarrow> bytes \<Rightarrow> (WriteStream \<times> out list) option" where
  "ws_Write w p =
     (if ws_finished w then Some (w, [])
      else if ws_committing w then None
      else if Window w < int (length p) then None
      else pump (w\<lparr>ws_buf := ws_buf w @ p\<rparr>))"

definition ws_Commit :: "WriteStream \<Rightarrow> i64 \<Rightarrow> bytes \<Rightarrow> (WriteStream \<times> out list) option" where
  "ws_Commit w len checksum =
     (if ws_finished w then Some (w, [])
      else if ws_committing w then None
      else if len \<noteq> ws_base w + ws_len w then None
      else pump (w\<lparr>ws_committing := True, ws_length := len, ws_checksum := checksum\<rparr>))"

definition ws_handleAck :: "WriteStream \<Rightarrow> writeAckMsg \<Rightarrow> (WriteStream \<times> out list) option" where
  "ws_handleAck w m =
     (if ws_finished w \<or> wa_stream m \<noteq> ws_stream w then Some (w, [])
      else if wa_errMsg m \<noteq> [] then Some (ws_finish w (Some (PeerError (wa_errMsg m))))
      else if wa_committed m then Some (ws_finish w None)
      else if ws_base w + ws_len w < wa_staged m then Some (ws_finish w (Some OverAcknowledged))
      else if ws_base w < wa_staged m
      then let d = unat (wa_staged m - ws_base w);
               w' = ws_rearm (w\<lparr>ws_buf := drop d (ws_buf w), ws_base := wa_staged m, ws_attempts := 0\<rparr>)
           in if length (ws_buf w) < d then None
              else case pump w' of
                     None \<Rightarrow> None
                   | Some (w', os) \<Rightarrow>
                       Some (w', os @ (if ws_onWindow w' \<and> \<not> ws_committing w' then [WindowOpen (ws_to w', ws_key w')] else []))
      else Some (w, []))"

definition ws_Abort :: "WriteStream \<Rightarrow> WriteStream \<times> out list" where
  "ws_Abort w = (if ws_finished w then (w, []) else ws_finish w (Some Aborted))"

definition ws_onTimer :: "WriteStream \<Rightarrow> (WriteStream \<times> out list) option" where
  "ws_onTimer w =
     (if ws_finished w then Some (w, [])
      else if length (ws_buf w) = 0 \<and> \<not> ws_committing w then Some (ws_rearm w, [])
      else let w = w\<lparr>ws_attempts := ws_attempts w + 1\<rparr>
           in if maxAttempts \<le> ws_attempts w then Some (ws_finish w (Some Unreachable))
              else case pump (w\<lparr>ws_sent := ws_base w\<rparr>) of
                     None \<Rightarrow> None
                   | Some (w, os) \<Rightarrow> Some (ws_rearm w, os))"

text \<open>The pending timer fires.\<close>

definition ws_fire :: "WriteStream \<Rightarrow> (WriteStream \<times> out list) option" where
  "ws_fire w = (if ws_timer w then ws_onTimer (w\<lparr>ws_timer := False\<rparr>) else Some (w, []))"

definition put_stream :: "'d Service \<Rightarrow> writeKey \<Rightarrow> WriteStream \<Rightarrow> 'd Service" where
  "put_stream s wk w = s\<lparr>sv_writes := (if ws_finished w then fmdrop wk else fmupd wk w) (sv_writes s)\<rparr>"

definition NewWrite :: "'d Service \<Rightarrow> NodeID \<Rightarrow> shardKey \<Rightarrow> bool \<Rightarrow> bool \<Rightarrow> ('d Service \<times> WriteStream) option" where
  "NewWrite s to key onWindow done' =
     (if fmlookup (sv_writes s) (to, key) \<noteq> None then None
      else
        let s = s\<lparr>sv_nextReq := sv_nextReq s + 1\<rparr>;
            w = ws_rearm \<lparr>ws_to = to, ws_key = key, ws_stream = sv_nextReq s, ws_buf = [], ws_base = 0, ws_sent = 0,
                  ws_committing = False, ws_length = 0, ws_checksum = [], ws_timer = False, ws_attempts = 0,
                  ws_finished = False, ws_onWindow = onWindow, ws_done = done'\<rparr>
        in Some (s\<lparr>sv_writes := fmupd (to, key) w (sv_writes s)\<rparr>, w))"

section \<open>Reads, deletes and verifies\<close>

text \<open>Start a request, resend it on the timer, give up after \<^verbatim>\<open>maxAttempts\<close> silent intervals.\<close>

definition new_pending :: "NodeID \<Rightarrow> u64 \<Rightarrow> data_message \<Rightarrow> pending" where
  "new_pending to req msg = \<lparr>pe_to = to, pe_reqID = req, pe_msg = msg, pe_timer = True, pe_attempts = 0\<rparr>"

definition Service_Fetch :: "'d Service \<Rightarrow> NodeID \<Rightarrow> shardKey \<Rightarrow> i64 \<Rightarrow> i64 \<Rightarrow> 'd Service \<times> out list" where
  "Service_Fetch s to key off len =
     (let req = sv_nextReq s + 1;
          msg = DRead \<lparr>rm_reqID = req, rm_key = key, rm_offset = off, rm_length = len\<rparr>
      in (s\<lparr>sv_nextReq := req, sv_reads := fmupd req (new_pending to req msg) (sv_reads s)\<rparr>, [Send to msg]))"

definition Service_Delete :: "'d Service \<Rightarrow> NodeID \<Rightarrow> shardKey \<Rightarrow> 'd Service \<times> out list" where
  "Service_Delete s to key =
     (let req = sv_nextReq s + 1;
          msg = DDelete \<lparr>de_reqID = req, de_key = key\<rparr>
      in (s\<lparr>sv_nextReq := req, sv_deletes := fmupd req (new_pending to req msg) (sv_deletes s)\<rparr>, [Send to msg]))"

definition Service_Verify :: "'d Service \<Rightarrow> NodeID \<Rightarrow> shardKey \<Rightarrow> 'd Service \<times> out list" where
  "Service_Verify s to key =
     (let req = sv_nextReq s + 1;
          msg = DVerify \<lparr>vm_reqID = req, vm_key = key\<rparr>
      in (s\<lparr>sv_nextReq := req, sv_verifies := fmupd req (new_pending to req msg) (sv_verifies s)\<rparr>, [Send to msg]))"

definition fetch_finish :: "'d Service \<Rightarrow> pending \<Rightarrow> readResultMsg \<Rightarrow> 'd Service \<times> out list" where
  "fetch_finish s f m =
     (s\<lparr>sv_reads := fmdrop (pe_reqID f) (sv_reads s)\<rparr>,
      [FetchDone (pe_reqID f) (if rr_errMsg m \<noteq> [] then Inl (PeerError (rr_errMsg m)) else Inr (rr_data m))])"

definition delete_finish :: "'d Service \<Rightarrow> pending \<Rightarrow> gostring \<Rightarrow> 'd Service \<times> out list" where
  "delete_finish s p errMsg =
     (s\<lparr>sv_deletes := fmdrop (pe_reqID p) (sv_deletes s)\<rparr>,
      [DeleteDone (pe_reqID p) (if errMsg \<noteq> [] then Some (PeerError errMsg) else None)])"

definition verify_finish :: "'d Service \<Rightarrow> pending \<Rightarrow> verifyAckMsg \<Rightarrow> 'd Service \<times> out list" where
  "verify_finish s p m =
     (s\<lparr>sv_verifies := fmdrop (pe_reqID p) (sv_verifies s)\<rparr>,
      [VerifyDone (pe_reqID p)
         (if va_errMsg m \<noteq> [] then Inl (PeerError (va_errMsg m))
          else Inr \<lparr>vr_Committed = va_committed m, vr_Checksum = va_checksum m, vr_Length = va_length m\<rparr>)])"

definition fetch_onTimer :: "'d Service \<Rightarrow> u64 \<Rightarrow> 'd Service \<times> out list" where
  "fetch_onTimer s req =
     (case fmlookup (sv_reads s) req of
        None \<Rightarrow> (s, [])
      | Some f \<Rightarrow>
          let f = f\<lparr>pe_attempts := pe_attempts f + 1\<rparr>
          in if maxAttempts \<le> pe_attempts f
             then (s\<lparr>sv_reads := fmdrop req (sv_reads s)\<rparr>, [FetchDone req (Inl Unreachable)])
             else (s\<lparr>sv_reads := fmupd req (f\<lparr>pe_timer := True\<rparr>) (sv_reads s)\<rparr>, [Send (pe_to f) (pe_msg f)]))"

definition delete_onTimer :: "'d Service \<Rightarrow> u64 \<Rightarrow> 'd Service \<times> out list" where
  "delete_onTimer s req =
     (case fmlookup (sv_deletes s) req of
        None \<Rightarrow> (s, [])
      | Some p \<Rightarrow>
          let p = p\<lparr>pe_attempts := pe_attempts p + 1\<rparr>
          in if maxAttempts \<le> pe_attempts p
             then (s\<lparr>sv_deletes := fmdrop req (sv_deletes s)\<rparr>, [DeleteDone req (Some Unreachable)])
             else (s\<lparr>sv_deletes := fmupd req (p\<lparr>pe_timer := True\<rparr>) (sv_deletes s)\<rparr>, [Send (pe_to p) (pe_msg p)]))"

definition verify_onTimer :: "'d Service \<Rightarrow> u64 \<Rightarrow> 'd Service \<times> out list" where
  "verify_onTimer s req =
     (case fmlookup (sv_verifies s) req of
        None \<Rightarrow> (s, [])
      | Some p \<Rightarrow>
          let p = p\<lparr>pe_attempts := pe_attempts p + 1\<rparr>
          in if maxAttempts \<le> pe_attempts p
             then (s\<lparr>sv_verifies := fmdrop req (sv_verifies s)\<rparr>, [VerifyDone req (Inl Unreachable)])
             else (s\<lparr>sv_verifies := fmupd req (p\<lparr>pe_timer := True\<rparr>) (sv_verifies s)\<rparr>, [Send (pe_to p) (pe_msg p)]))"

section \<open>Dispatch\<close>

text \<open>Not returning, a panic of the loop, or a message that does not decode, which changes nothing.\<close>

datatype fault = Hang | Panic | Malformed wire_error

fun dispatch :: "'d Config \<Rightarrow> 'd Service \<Rightarrow> NodeID \<Rightarrow> data_message \<Rightarrow> fault + ('d Service \<times> out list)" where
  "dispatch c s from' (DChunk m) = Inr (handleChunk c s from' m)"
| "dispatch c s from' (DCommit m) = Inr (handleCommit c s from' m)"
| "dispatch c s from' (DWriteAck m) =
     (case fmlookup (sv_writes s) (from', wa_key m) of
        None \<Rightarrow> Inr (s, [])
      | Some w \<Rightarrow>
          (case ws_handleAck w m of
             None \<Rightarrow> Inl Panic
           | Some (w, os) \<Rightarrow> Inr (put_stream s (from', wa_key m) w, os)))"
| "dispatch c s from' (DRead m) = Inr (s, handleRead c s from' m)"
| "dispatch c s from' (DReadResult m) =
     Inr (case fmlookup (sv_reads s) (rr_reqID m) of None \<Rightarrow> (s, []) | Some f \<Rightarrow> fetch_finish s f m)"
| "dispatch c s from' (DDelete m) = Inr (handleDelete c s from' m)"
| "dispatch c s from' (DDeleteAck m) =
     Inr (case fmlookup (sv_deletes s) (da_reqID m) of None \<Rightarrow> (s, []) | Some p \<Rightarrow> delete_finish s p (da_errMsg m))"
| "dispatch c s from' (DVerify m) = Inr (s, handleVerify c s from' m)"
| "dispatch c s from' (DVerifyAck m) =
     Inr (case fmlookup (sv_verifies s) (va_reqID m) of None \<Rightarrow> (s, []) | Some p \<Rightarrow> verify_finish s p m)"

definition HandleData :: "protowire \<Rightarrow> 'd Config \<Rightarrow> 'd Service \<Rightarrow> NodeID \<Rightarrow> bytes \<Rightarrow> fault + ('d Service \<times> out list)" where
  "HandleData pw c s from' payload =
     (case decode_data pw payload of
        None \<Rightarrow> Inl Hang
      | Some (Inl e) \<Rightarrow> Inl (Malformed e)
      | Some (Inr m) \<Rightarrow> dispatch c s from' m)"

end
