(* ===== verification/Datapath_Names.thy ===== *)
theory Datapath_Names
  imports Datapath
begin

text \<open>
  The file names of the shard store: every name is a valid path, two shards never share a file, and
  no commit marker is the file of a shard.
\<close>

section \<open>Numbers and bytes in text\<close>

lemma unat_ascii: "n < 256 \<Longrightarrow> unat (word_of_nat n :: byte) = n"
  by (simp add: unat_of_nat)

lemma unat_hex_digit: "a < 16 \<Longrightarrow> unat (hex_digit a) = (if a < 10 then 48 + a else 87 + a)"
  using unat_ascii [of "48 + a"] unat_ascii [of "87 + a"] by (simp add: hex_digit_def)

lemma hex_digit_inject: "a < 16 \<Longrightarrow> b < 16 \<Longrightarrow> hex_digit a = hex_digit b \<Longrightarrow> a = b"
proof -
  assume "a < 16" "b < 16" "hex_digit a = hex_digit b"
  then have "(if a < 10 then 48 + a else 87 + a) = (if b < 10 then 48 + b else 87 + b)"
    by (simp only: unat_hex_digit [symmetric])
  then show "a = b" by (auto split: if_splits)
qed

lemma hex_string_Cons: "hex_string (b # bs) = hex_digit (unat b div 16) # hex_digit (unat b mod 16) # hex_string bs"
  by (simp add: hex_string_def)

lemma hex_byte_inject:
  assumes "hex_digit (unat a div 16) = hex_digit (unat b div 16)" and "hex_digit (unat a mod 16) = hex_digit (unat b mod 16)"
  shows "a = (b :: byte)"
proof -
  have "unat a div 16 < 16" "unat b div 16 < 16" using unat_byte_less [of a] unat_byte_less [of b] by linarith+
  then have "unat a div 16 = unat b div 16" using hex_digit_inject assms(1) by blast
  moreover have "unat a mod 16 = unat b mod 16" by (rule hex_digit_inject [OF _ _ assms(2)]) simp_all
  ultimately have "unat a = unat b" by (metis div_mult_mod_eq)
  then show ?thesis by (simp add: word_unat_eq_iff)
qed

lemma hex_string_inject: "length xs = length ys \<Longrightarrow> hex_string xs = hex_string ys \<Longrightarrow> xs = ys"
  by (induction xs ys rule: list_induct2) (auto simp: hex_string_Cons dest: hex_byte_inject)

lemma length_hex_string [simp]: "length (hex_string bs) = 2 * length bs"
  by (induction bs) (simp_all add: hex_string_Cons, simp add: hex_string_def)

text \<open>The value of a decimal numeral.\<close>

definition dec_value :: "gostring \<Rightarrow> nat" where
  "dec_value s = foldl (\<lambda>a b. a * 10 + (unat b - 48)) 0 s"

lemma dec_value_dec_string [simp]: "dec_value (dec_string n) = n"
proof (induction n rule: dec_string.induct)
  case (1 n)
  have "unat (word_of_nat (48 + k) :: byte) = 48 + k" if "k < 10" for k using that by (intro unat_ascii) simp
  with 1 show ?case by (subst dec_string.simps) (auto simp: dec_value_def)
qed

lemma dec_string_inject: "dec_string a = dec_string b \<Longrightarrow> a = b"
  by (metis dec_value_dec_string)

lemma dec_string_digits: "\<forall>b \<in> set (dec_string n). 48 \<le> b \<and> b \<le> 57"
proof (induction n rule: dec_string.induct)
  case (1 n)
  have "48 \<le> (word_of_nat (48 + k) :: byte) \<and> (word_of_nat (48 + k) :: byte) \<le> 57" if "k < 10" for k
    using that unat_ascii [of "48 + k"] by (simp add: word_le_nat_alt)
  with 1 show ?case by (subst dec_string.simps) auto
qed

lemma dec_string_nonempty [simp]: "dec_string n \<noteq> []"
  by (subst dec_string.simps) simp

lemma hex_string_digits: "b \<in> set (hex_string bs) \<Longrightarrow> b < 0x80 \<and> b \<noteq> of_char (CHR ''/'')"
proof -
  have "hex_digit a < 0x80 \<and> hex_digit a \<noteq> of_char (CHR ''/'')" if "a < 16" for a
    using that unat_hex_digit [OF that] by (auto simp: word_less_nat_alt word_unat_eq_iff split: if_splits)
  moreover have "unat (x :: byte) div 16 < 16" "unat x mod 16 < 16" for x using unat_byte_less [of x] by linarith+
  ultimately show "b \<in> set (hex_string bs) \<Longrightarrow> b < 0x80 \<and> b \<noteq> of_char (CHR ''/'')"
    by (induction bs) (auto simp: hex_string_Cons, auto simp: hex_string_def)
qed

section \<open>Names\<close>

lemma append_same_length: "length a = length b \<Longrightarrow> a @ x = b @ y \<longleftrightarrow> a = b \<and> x = y"
  by simp

lemma ShardFileName_inject [simp]: "ShardFileName k = ShardFileName k' \<longleftrightarrow> k = k'"
proof
  assume e: "ShardFileName k = ShardFileName k'"
  have l: "length (hex_string (vid_bytes (sk_id k))) = length (hex_string (vid_bytes (sk_id k')))" by simp
  from e l have h: "hex_string (vid_bytes (sk_id k)) = hex_string (vid_bytes (sk_id k'))"
    "dec_string (unat (sk_index k)) = dec_string (unat (sk_index k'))"
    by (auto simp: ShardFileName_def append_same_length)
  have "sk_id k = sk_id k'" using hex_string_inject [OF _ h(1)] by simp
  moreover have "sk_index k = sk_index k'" using dec_string_inject [OF h(2)] by (simp add: word_unat_eq_iff)
  ultimately show "k = k'" by simp
qed simp

lemma markerName_inject [simp]: "markerName a = markerName b \<longleftrightarrow> a = b"
  by (simp add: markerName_def)

lemma marker_not_shard [simp]: "markerName n \<noteq> ShardFileName k" "ShardFileName k \<noteq> markerName n"
proof -
  have "last (ShardFileName k) \<in> set (dec_string (unat (sk_index k)))" by (simp add: ShardFileName_def)
  then have "last (ShardFileName k) \<le> 57" using dec_string_digits by blast
  moreover have "last (markerName n) = 107" by (simp add: markerName_def str_def)
  ultimately show "markerName n \<noteq> ShardFileName k" by auto
  then show "ShardFileName k \<noteq> markerName n" by metis
qed

lemma utf8_ascii: "(\<And>b. b \<in> set s \<Longrightarrow> b < 0x80) \<Longrightarrow> utf8_valid s"
  by (induction s) auto

lemma path_element: "of_char (CHR ''/'') \<notin> set s \<Longrightarrow> path_elements_ok e s \<longleftrightarrow> e @ s \<notin> {[], str ''.'', str ''..''}"
  by (induction s arbitrary: e) auto

lemma ValidPath_shards:
  assumes "\<And>b. b \<in> set s \<Longrightarrow> b < 0x80 \<and> b \<noteq> of_char (CHR ''/'')" and "2 < length s"
  shows "ValidPath (str ''shards/'' @ s)"
proof -
  have "utf8_valid (str ''shards/'' @ s)" by (rule utf8_ascii) (use assms(1) in \<open>auto simp: str_def\<close>)
  moreover have "of_char (CHR ''/'') \<notin> set s" using assms(1) by blast
  then have "path_elements_ok [] s" using assms(2) by (auto simp: path_element str_def)
  ultimately show ?thesis by (simp add: ValidPath_def str_def)
qed

lemma dec_string_plain: "b \<in> set (dec_string n) \<Longrightarrow> b < 0x80 \<and> b \<noteq> of_char (CHR ''/'')"
  using dec_string_digits [of n] by (auto simp: word_less_nat_alt word_le_nat_alt)

lemma names_valid [simp]: "ValidPath (ShardFileName k)" "ValidPath (markerName (ShardFileName k))"
  unfolding ShardFileName_def markerName_def append_assoc
  by (rule ValidPath_shards; auto simp: str_def dest: hex_string_digits dec_string_plain)+

end
