(* ===== verification/Datapath_Receive.thy ===== *)
theory Datapath_Receive
  imports Datapath_Names Disk_Journal
begin

text \<open>
  The receiving side of a shard transfer over the simulated disk. A handler runs on a journal of the
  disk, which keeps every state the disk goes through, so that a crash in the middle of a handler is a crash
  at one of these states.

  The invariant has two parts. Of the disk, at every moment: a commit marker that a crash could leave
  behind stands beside a shard file with nothing staged, whose bytes satisfy \<open>Q\<close>. Of the service, between handlers:
  a shard in transfer has no marker, its file holds the hashed bytes, and its staging satisfies \<open>P\<close>.
  \<open>P\<close> and \<open>Q\<close> are what a client of this theory wants to know of staged and of committed bytes.
\<close>

section \<open>The service on a journal\<close>

definition node_config :: "(bytes \<Rightarrow> bytes) \<Rightarrow> (disk_error \<Rightarrow> gostring) \<Rightarrow> disk list Config" where
  "node_config sha tx = \<lparr>cf_Disk = journal sim_disk, cf_sha256 = sha, cf_errText = tx\<rparr>"

abbreviation marker_of :: "shardKey \<Rightarrow> gostring" where
  "marker_of k \<equiv> markerName (ShardFileName k)"

lemma node_config_simps [simp]:
  "WriteFile (cf_Disk (node_config sha tx)) (d # ds) n x = (let (d', e) = disk_WriteFile d n x in (d' # d # ds, e))"
  "Append (cf_Disk (node_config sha tx)) (d # ds) n x = (let (d', e) = disk_Append d n x in (d' # d # ds, e))"
  "Sync (cf_Disk (node_config sha tx)) (d # ds) n = (let (d', e) = disk_Sync d n in (d' # d # ds, e))"
  "Remove (cf_Disk (node_config sha tx)) (d # ds) n = (let (d', e) = disk_Remove d n in (d' # d # ds, e))"
  "ReadFile (cf_Disk (node_config sha tx)) (d # ds) n = disk_ReadFile d n"
  "ReadFileAt (cf_Disk (node_config sha tx)) (d # ds) n off len = disk_ReadFileAt d n off len"
  "cf_sha256 (node_config sha tx) = sha" "cf_errText (node_config sha tx) = tx"
  by (simp_all add: node_config_def journal_def sim_disk_def)

section \<open>The invariant\<close>

definition shards_sound :: "(shardKey \<Rightarrow> bytes \<Rightarrow> bool) \<Rightarrow> disk \<Rightarrow> bool" where
  "shards_sound Q d \<longleftrightarrow> (\<forall>k. possible d (marker_of k) \<longrightarrow>
     (\<exists>x. disk_clean d (ShardFileName k) \<and> disk_durable d (ShardFileName k) = Some x \<and> Q k x))"

definition staging_sound :: "(shardKey \<Rightarrow> staging \<Rightarrow> bool) \<Rightarrow> disk \<Rightarrow> (shardKey, staging) fmap \<Rightarrow> bool" where
  "staging_sound P d S \<longleftrightarrow> (\<forall>k. disk_clean d (marker_of k) \<and>
     (\<forall>g. fmlookup S k = Some g \<longrightarrow>
        disk_durable d (marker_of k) = None \<and> disk_ReadFile d (ShardFileName k) = Inr (sg_hash g) \<and> P k g))"

definition sound ::
    "(shardKey \<Rightarrow> staging \<Rightarrow> bool) \<Rightarrow> (shardKey \<Rightarrow> bytes \<Rightarrow> bool) \<Rightarrow> disk list Service \<Rightarrow> bool" where
  "sound P Q s \<longleftrightarrow> sv_disk s \<noteq> [] \<and> (\<forall>d \<in> set (sv_disk s). shards_sound Q d) \<and>
     staging_sound P (hd (sv_disk s)) (sv_staging s)"

lemma soundI:
  assumes "shards_sound Q d" and "\<forall>d \<in> set ds. shards_sound Q d" and "staging_sound P d (sv_staging s)"
  shows "sound P Q (s\<lparr>sv_disk := d # ds\<rparr>)"
  using assms by (simp add: sound_def)

lemma shards_sound_touch:
  assumes "shards_sound Q d" and "same_but (ShardFileName k) d d'" and "\<not> possible d (marker_of k)"
  shows "shards_sound Q d'"
  unfolding shards_sound_def
proof (intro allI impI)
  fix j assume p: "possible d' (marker_of j)"
  then have j: "possible d (marker_of j)" using same_butD(3) [OF assms(2)] by simp
  then have "j \<noteq> k" using assms(3) by auto
  then have "ShardFileName j \<noteq> ShardFileName k" by simp
  with j assms(1) show "\<exists>x. disk_clean d' (ShardFileName j) \<and> disk_durable d' (ShardFileName j) = Some x \<and> Q j x"
    using same_butD [OF assms(2)] by (simp add: shards_sound_def)
qed

lemma shards_sound_marker:
  assumes "shards_sound Q d" and "same_but (marker_of k) d d'"
    and "possible d' (marker_of k) \<Longrightarrow> possible d (marker_of k) \<or>
      (\<exists>x. disk_clean d (ShardFileName k) \<and> disk_durable d (ShardFileName k) = Some x \<and> Q k x)"
  shows "shards_sound Q d'"
  unfolding shards_sound_def
proof (intro allI impI)
  fix j assume p: "possible d' (marker_of j)"
  have "\<exists>x. disk_clean d (ShardFileName j) \<and> disk_durable d (ShardFileName j) = Some x \<and> Q j x"
  proof (cases "j = k")
    case True
    with p assms(1,3) show ?thesis by (auto simp: shards_sound_def)
  next
    case False
    then have "possible d (marker_of j)" using p same_butD(3) [OF assms(2), of "marker_of j"] by simp
    with assms(1) show ?thesis by (simp add: shards_sound_def)
  qed
  then show "\<exists>x. disk_clean d' (ShardFileName j) \<and> disk_durable d' (ShardFileName j) = Some x \<and> Q j x"
    using same_butD [OF assms(2), of "ShardFileName j"] by simp
qed

lemma shards_sound_crash: "shards_sound Q d \<Longrightarrow> shards_sound Q (disk_crash d rng)"
  unfolding shards_sound_def
proof (intro allI impI)
  fix k assume s: "\<forall>k. possible d (marker_of k) \<longrightarrow>
      (\<exists>x. disk_clean d (ShardFileName k) \<and> disk_durable d (ShardFileName k) = Some x \<and> Q k x)"
    and "possible (disk_crash d rng) (marker_of k)"
  then obtain x where "disk_clean d (ShardFileName k)" "disk_durable d (ShardFileName k) = Some x" "Q k x"
    using crash_possible by blast
  then show "\<exists>x. disk_clean (disk_crash d rng) (ShardFileName k) \<and> disk_durable (disk_crash d rng) (ShardFileName k) = Some x \<and> Q k x"
    using sim.crash_clean [of d "ShardFileName k" rng] by auto
qed

text \<open>The staging is untouched but for one shard, which may be dropped, or replaced when its file is.\<close>

lemma staging_sound_drop:
  assumes "staging_sound P d S" and "same_but (ShardFileName k) d d'"
  shows "staging_sound P d' (fmdrop k S)"
  using assms(1) same_butD [OF assms(2)] by (auto simp: staging_sound_def)

lemma staging_sound_update:
  assumes "staging_sound P d S" and "same_but (ShardFileName k) d d'" and "disk_durable d (marker_of k) = None"
    and "disk_ReadFile d' (ShardFileName k) = Inr (sg_hash g)" and "P k g"
  shows "staging_sound P d' (fmupd k g S)"
  using assms(1,3-5) same_butD [OF assms(2)] by (auto simp: staging_sound_def)

lemma staging_sound_marker:
  assumes "staging_sound P d S" and "same_but (marker_of k) d d'" and "disk_clean d' (marker_of k)" and "fmlookup S k = None"
  shows "staging_sound P d' S"
  unfolding staging_sound_def
proof (intro allI)
  fix j
  show "disk_clean d' (marker_of j) \<and> (\<forall>g. fmlookup S j = Some g \<longrightarrow> disk_durable d' (marker_of j) = None \<and>
      disk_ReadFile d' (ShardFileName j) = Inr (sg_hash g) \<and> P j g)"
    using assms(1,3,4) same_butD [OF assms(2), of "marker_of j"] same_butD [OF assms(2), of "ShardFileName j"]
    by (cases "j = k") (simp_all add: staging_sound_def)
qed

lemma staging_soundD:
  assumes "staging_sound P d S"
  shows "disk_clean d (marker_of k)" and "fmlookup S k = Some g \<Longrightarrow> disk_durable d (marker_of k) = None"
    and "fmlookup S k = Some g \<Longrightarrow> disk_ReadFile d (ShardFileName k) = Inr (sg_hash g)" and "fmlookup S k = Some g \<Longrightarrow> P k g"
  using assms by (simp_all add: staging_sound_def)

lemma committed_iff:
  assumes "sv_disk s = d # ds" and "disk_clean d (marker_of k)"
  shows "committed (node_config sha tx) s k \<longleftrightarrow> disk_durable d (marker_of k) \<noteq> None"
  using assms by (auto simp: committed_def disk_ReadFileAt_def disk_clean_def disk_durable_def i64_less_def
      split: option.split)

section \<open>The handlers keep it\<close>

lemma same_but_trans: "same_but n d d' \<Longrightarrow> same_but n d' d'' \<Longrightarrow> same_but n d d''"
  by (simp add: same_but_def)

lemma soundE:
  assumes "sound P Q s"
  obtains d ds where "sv_disk s = d # ds" "shards_sound Q d" "\<forall>d \<in> set ds. shards_sound Q d" "staging_sound P d (sv_staging s)"
  using assms by (cases "sv_disk s") (auto simp: sound_def)

lemma abandon_sound:
  assumes "sound P Q s" and "sv_disk s = d # ds" and "\<not> possible d (marker_of k)"
  shows "sound P Q (fst (abandon (node_config sha tx) s from' k stream (ShardFileName k) msg))"
proof -
  have s: "shards_sound Q d" "\<forall>d \<in> set ds. shards_sound Q d" "staging_sound P d (sv_staging s)"
    using assms(1,2) by (auto simp: sound_def)
  have v: "ValidPath (ShardFileName k)" by simp
  from v show ?thesis
  proof (cases rule: remove_effect [of _ d])
    case (gone d1 y)
    obtain d2 where d2: "disk_Sync d1 (ShardFileName k) = (d2, None)" "same_but (ShardFileName k) d1 d2"
      by (rule sync_effect [OF v])
    have d1: "shards_sound Q d1" "\<not> possible d1 (marker_of k)"
      using shards_sound_touch [OF s(1) gone(3) assms(3)] same_butD(3) [OF gone(3), of "marker_of k"] assms(3) by simp_all
    have "shards_sound Q d2" by (rule shards_sound_touch [OF d1(1) d2(2) d1(2)])
    moreover have "staging_sound P d2 (fmdrop k (sv_staging s))"
      by (rule staging_sound_drop [OF s(3) same_but_trans [OF gone(3) d2(2)]])
    ultimately show ?thesis using s d1(1) by (simp add: abandon_def assms(2) gone(2) d2(1) sound_def)
  next
    case missing
    then show ?thesis using s staging_sound_drop [OF s(3) same_but_refl, of k] by (simp add: abandon_def assms(2) sound_def)
  qed
qed

lemma first_chunk_sound:
  assumes "sound P Q s" and "sv_disk s = d # ds" and "disk_durable d (marker_of (cm_key m)) = None"
    and "P (cm_key m) \<lparr>sg_stream = cm_stream m, sg_staged = word_of_nat (length (cm_data m)), sg_hash = cm_data m\<rparr>"
  shows "sound P Q (fst (first_chunk (node_config sha tx) s from' m))"
proof -
  have s: "shards_sound Q d" "\<forall>d \<in> set ds. shards_sound Q d" "staging_sound P d (sv_staging s)"
    using assms(1,2) by (auto simp: sound_def)
  obtain d1 where d1: "disk_WriteFile d (ShardFileName (cm_key m)) (cm_data m) = (d1, None)"
      "same_but (ShardFileName (cm_key m)) d d1" "disk_ReadFile d1 (ShardFileName (cm_key m)) = Inr (cm_data m)"
    by (rule write_effect [of "ShardFileName (cm_key m)"]) simp_all
  have "\<not> possible d (marker_of (cm_key m))" using assms(3) possible_clean [OF staging_soundD(1) [OF s(3)]] by simp
  then have "shards_sound Q d1" by (rule shards_sound_touch [OF s(1) d1(2)])
  moreover have "staging_sound P d1 (fmupd (cm_key m) \<lparr>sg_stream = cm_stream m, sg_staged = word_of_nat (length (cm_data m)), sg_hash = cm_data m\<rparr> (sv_staging s))"
    by (rule staging_sound_update [OF s(3) d1(2) assms(3) _ assms(4)]) (simp add: d1(3))
  ultimately show ?thesis using s by (simp add: first_chunk_def assms(2) d1(1) sound_def Let_def)
qed

lemma handleChunk_sound:
  assumes "sound P Q s"
    and first: "cm_offset m = 0 \<Longrightarrow>
      P (cm_key m) \<lparr>sg_stream = cm_stream m, sg_staged = word_of_nat (length (cm_data m)), sg_hash = cm_data m\<rparr>"
    and next': "\<And>g. P (cm_key m) g \<Longrightarrow> sg_stream g = cm_stream m \<Longrightarrow> sg_staged g = cm_offset m \<Longrightarrow>
      P (cm_key m) (g\<lparr>sg_hash := sg_hash g @ cm_data m, sg_staged := sg_staged g + word_of_nat (length (cm_data m))\<rparr>)"
  shows "sound P Q (fst (handleChunk (node_config sha tx) s from' m))"
proof -
  obtain d ds where d: "sv_disk s = d # ds" and s: "shards_sound Q d" "\<forall>d \<in> set ds. shards_sound Q d" "staging_sound P d (sv_staging s)"
    by (rule soundE [OF assms(1)])
  note com = committed_iff [OF d staging_soundD(1) [OF s(3)], where k = "cm_key m" and sha = sha and tx = tx]
  show ?thesis
  proof (cases "fmlookup (sv_staging s) (cm_key m)")
    case None
    then show ?thesis
      using assms(1) first_chunk_sound [OF assms(1) d _ first] com by (auto simp: handleChunk_def Let_def)
  next
    case (Some g)
    note g = staging_soundD(2-4) [OF s(3) Some]
    show ?thesis
    proof (cases "sg_stream g = cm_stream m \<and> cm_offset m = sg_staged g")
      case True
      obtain d1 where d1: "disk_Append d (ShardFileName (cm_key m)) (cm_data m) = (d1, None)"
          "same_but (ShardFileName (cm_key m)) d d1" "disk_ReadFile d1 (ShardFileName (cm_key m)) = Inr (sg_hash g @ cm_data m)"
        by (rule append_effect [OF _ g(2)]) simp_all
      have "\<not> possible d (marker_of (cm_key m))" using g(1) possible_clean [OF staging_soundD(1) [OF s(3)]] by simp
      then have "shards_sound Q d1" by (rule shards_sound_touch [OF s(1) d1(2)])
      moreover have "staging_sound P d1 (fmupd (cm_key m) (g\<lparr>sg_hash := sg_hash g @ cm_data m,
          sg_staged := sg_staged g + word_of_nat (length (cm_data m))\<rparr>) (sv_staging s))"
        by (rule staging_sound_update [OF s(3) d1(2) g(1) _ next' [OF g(3)]]) (use d1(3) True in simp_all)
      ultimately show ?thesis using s True by (simp add: handleChunk_def Some d d1(1) sound_def Let_def)
    next
      case False
      then show ?thesis
        using assms(1) first_chunk_sound [OF assms(1) d g(1) first] by (auto simp: handleChunk_def Some Let_def)
    qed
  qed
qed

lemma handleCommit_sound:
  assumes "sound P Q s" and "co_length m = 0 \<Longrightarrow> \<not> committed (node_config sha tx) s (co_key m)"
    and done': "\<And>g. co_length m \<noteq> 0 \<Longrightarrow> P (co_key m) g \<Longrightarrow> sg_stream g = co_stream m \<Longrightarrow> sg_staged g = co_length m \<Longrightarrow>
      sha (sg_hash g) = co_checksum m \<Longrightarrow> Q (co_key m) (sg_hash g)"
  shows "sound P Q (fst (handleCommit (node_config sha tx) s from' m))"
proof -
  let ?n = "ShardFileName (co_key m)"
  obtain d ds where d: "sv_disk s = d # ds" and s: "shards_sound Q d" "\<forall>d \<in> set ds. shards_sound Q d" "staging_sound P d (sv_staging s)"
    by (rule soundE [OF assms(1)])
  note clean = staging_soundD(1) [OF s(3), of "co_key m"]
  note com = committed_iff [OF d clean, where sha = sha and tx = tx]
  have aband: "sound P Q (fst (abandon (node_config sha tx) s from' (co_key m) stream ?n msg))"
    if "disk_durable d (marker_of (co_key m)) = None" for stream msg
    by (rule abandon_sound [OF assms(1) d]) (use that possible_clean [OF clean] in simp)
  show ?thesis
  proof (cases "fmlookup (sv_staging s) (co_key m)")
    case None
    then show ?thesis using assms(1,2) aband com by (auto simp: handleCommit_def Let_def)
  next
    case (Some g)
    note g = staging_soundD(2-4) [OF s(3) Some]
    show ?thesis
    proof (cases "co_length m \<noteq> 0 \<and> co_stream m = sg_stream g \<and> sg_staged g = co_length m \<and> sha (sg_hash g) = co_checksum m")
      case True
      obtain d1 where d1: "disk_Sync d ?n = (d1, None)" "same_but ?n d d1" "disk_clean d1 ?n" "disk_durable d1 ?n = Some (sg_hash g)"
        by (rule sync_effect [of ?n d]) (use g(2) in simp_all)
      obtain d2 where d2: "disk_WriteFile d1 (marker_of (co_key m)) [] = (d2, None)" "same_but (marker_of (co_key m)) d1 d2"
        by (rule write_effect [of "marker_of (co_key m)"]) simp_all
      obtain d3 where d3: "disk_Sync d2 (marker_of (co_key m)) = (d3, None)" "same_but (marker_of (co_key m)) d2 d3" "disk_clean d3 (marker_of (co_key m))"
        by (rule sync_effect [of "marker_of (co_key m)" d2]) simp_all
      have q: "Q (co_key m) (sg_hash g)" by (rule done' [OF _ g(3)]) (use True in simp_all)
      have np: "\<not> possible d (marker_of (co_key m))" using g(1) possible_clean [OF clean] by simp
      have s1: "shards_sound Q d1" by (rule shards_sound_touch [OF s(1) d1(2) np])
      have s2: "shards_sound Q d2" by (rule shards_sound_marker [OF s1 d2(2)]) (use d1(3,4) q in blast)
      have s3: "shards_sound Q d3"
        by (rule shards_sound_marker [OF s2 d3(2)])
          (use d1(3,4) q same_butD(1,2) [OF d2(2), of ?n] in auto)
      have "staging_sound P d3 (fmdrop (co_key m) (sv_staging s))"
        by (rule staging_sound_marker [OF staging_sound_drop [OF s(3) d1(2)] same_but_trans [OF d2(2) d3(2)] d3(3)]) simp
      then show ?thesis using s s1 s2 s3 True by (simp add: handleCommit_def Some d d1(1) d2(1) d3(1) sound_def Let_def)
    next
      case False
      then show ?thesis using assms(1) aband [OF g(1)] by (auto simp: handleCommit_def Some Let_def)
    qed
  qed
qed

lemma handleDelete_sound:
  assumes "sound P Q s" and "fmlookup (sv_staging s) (de_key m) = None"
  shows "sound P Q (fst (handleDelete (node_config sha tx) s from' m))"
proof -
  let ?n = "ShardFileName (de_key m)" and ?m = "marker_of (de_key m)"
  obtain d ds where d: "sv_disk s = d # ds" and s: "shards_sound Q d" "\<forall>d \<in> set ds. shards_sound Q d" "staging_sound P d (sv_staging s)"
    by (rule soundE [OF assms(1)])
  have del_shard: "\<exists>d' ds'. delete_files (node_config sha tx) [?n] (e # es) = (d' # ds', None) \<and> (\<forall>d \<in> set (d' # ds'). shards_sound Q d) \<and>
      staging_sound P d' (sv_staging s)"
    if e: "shards_sound Q e" "\<not> possible e ?m" "staging_sound P e (sv_staging s)" "\<forall>d \<in> set es. shards_sound Q d" for e es
  proof -
    have v: "ValidPath ?n" by simp
    from v show ?thesis
    proof (cases rule: remove_effect [of _ e])
      case (gone d1 y)
      obtain d2 where d2: "disk_Sync d1 ?n = (d2, None)" "same_but ?n d1 d2" by (rule sync_effect [OF v])
      have d1: "shards_sound Q d1" "\<not> possible d1 ?m"
        using shards_sound_touch [OF e(1) gone(3) e(2)] same_butD(3) [OF gone(3), of ?m] e(2) by simp_all
      have "shards_sound Q d2" by (rule shards_sound_touch [OF d1(1) d2(2) d1(2)])
      moreover have "staging_sound P d2 (sv_staging s)"
        using staging_sound_drop [OF e(3) same_but_trans [OF gone(3) d2(2)]] fmdrop_idle [of "de_key m" "sv_staging s"] assms(2)
        by (simp add: fmdom_notI)
      ultimately show ?thesis using e d1(1) by (simp add: gone(2) d2(1))
    next
      case missing
      then show ?thesis using e by simp
    qed
  qed
  have vm: "ValidPath ?m" by simp
  then have "\<exists>d' ds'. delete_files (node_config sha tx) [?m, ?n] (d # ds) = (d' # ds', None) \<and> (\<forall>d \<in> set (d' # ds'). shards_sound Q d) \<and>
      staging_sound P d' (sv_staging s)"
  proof (cases rule: remove_effect [of _ d])
    case (gone d1 y)
    obtain d2 where d2: "disk_Sync d1 ?m = (d2, None)" "same_but ?m d1 d2" "disk_clean d2 ?m" "disk_durable d2 ?m = None"
      by (rule sync_effect [of ?m d1]) (use gone(4) in simp_all)
    have s1: "shards_sound Q d1" by (rule shards_sound_marker [OF s(1) gone(3)]) (use remove_not_possible [OF gone(2)] in blast)
    have np: "\<not> possible d2 ?m" using possible_clean [OF d2(3)] d2(4) by simp
    have s2: "shards_sound Q d2" by (rule shards_sound_marker [OF s1 d2(2)]) (use np in blast)
    have "staging_sound P d2 (sv_staging s)"
      by (rule staging_sound_marker [OF s(3) same_but_trans [OF gone(3) d2(2)] d2(3) assms(2)])
    from del_shard [OF s2 np this, of "d1 # d # ds"] s s1 show ?thesis by (simp add: gone(2) d2(1))
  next
    case missing
    have "\<not> possible d ?m"
      using missing(1) possible_clean [OF staging_soundD(1) [OF s(3)]] staging_soundD(1) [OF s(3), of "de_key m"]
      by (auto simp: disk_ReadFile_def disk_clean_def disk_durable_def split: option.splits)
    from del_shard [OF s(1) this s(3), of "d # ds"] s show ?thesis by (simp add: missing(2))
  qed
  then show ?thesis by (auto simp: handleDelete_def d Let_def sound_def simp del: delete_files.simps)
qed

section \<open>A node\<close>

text \<open>
  The messages the invariant needs to exclude: a commit of length zero for a shard that is committed, and a
  delete of a shard while it is being staged.
\<close>

fun admissible :: "'d Config \<Rightarrow> 'd Service \<Rightarrow> data_message \<Rightarrow> bool" where
  "admissible c s (DCommit m) = (co_length m = 0 \<longrightarrow> \<not> committed c s (co_key m))"
| "admissible c s (DDelete m) = (fmlookup (sv_staging s) (de_key m) = None)"
| "admissible c s _ = True"

text \<open>What a message has to guarantee for \<open>P\<close> and \<open>Q\<close>.\<close>

fun upholds ::
    "(shardKey \<Rightarrow> staging \<Rightarrow> bool) \<Rightarrow> (shardKey \<Rightarrow> bytes \<Rightarrow> bool) \<Rightarrow> (bytes \<Rightarrow> bytes) \<Rightarrow> data_message \<Rightarrow> bool" where
  "upholds P Q sha (DChunk m) =
     ((cm_offset m = 0 \<longrightarrow>
         P (cm_key m) \<lparr>sg_stream = cm_stream m, sg_staged = word_of_nat (length (cm_data m)), sg_hash = cm_data m\<rparr>) \<and>
      (\<forall>g. P (cm_key m) g \<and> sg_stream g = cm_stream m \<and> sg_staged g = cm_offset m \<longrightarrow>
         P (cm_key m) (g\<lparr>sg_hash := sg_hash g @ cm_data m, sg_staged := sg_staged g + word_of_nat (length (cm_data m))\<rparr>)))"
| "upholds P Q sha (DCommit m) =
     (\<forall>g. co_length m \<noteq> 0 \<and> P (co_key m) g \<and> sg_stream g = co_stream m \<and> sg_staged g = co_length m \<and> sha (sg_hash g) = co_checksum m \<longrightarrow>
        Q (co_key m) (sg_hash g))"
| "upholds P Q sha _ = True"

lemma sound_cong: "sv_disk s' = sv_disk s \<Longrightarrow> sv_staging s' = sv_staging s \<Longrightarrow> sound P Q s \<Longrightarrow> sound P Q s'"
  by (simp add: sound_def)

lemma dispatch_sound:
  assumes "sound P Q s" and "admissible (node_config sha tx) s m" and "upholds P Q sha m"
    and "dispatch (node_config sha tx) s from' m = Inr (s', os)"
  shows "sound P Q s'"
proof (cases m)
  case (DChunk x)
  then have "s' = fst (handleChunk (node_config sha tx) s from' x)" using assms(4) by auto
  then show ?thesis using handleChunk_sound [OF assms(1)] assms(3) DChunk by simp
next
  case (DCommit x)
  then have "s' = fst (handleCommit (node_config sha tx) s from' x)" using assms(4) by auto
  then show ?thesis using handleCommit_sound [OF assms(1), where m = x] assms(2,3) DCommit by simp
next
  case (DDelete x)
  then have "s' = fst (handleDelete (node_config sha tx) s from' x)" using assms(4) by auto
  then show ?thesis using handleDelete_sound [OF assms(1)] assms(2) DDelete by simp
qed (use assms(1,4) in \<open>auto simp: put_stream_def fetch_finish_def delete_finish_def verify_finish_def
    split: option.splits intro: sound_cong [of _ s]\<close>)

text \<open>The journal is cut back between handlers, and a crash ends the process at a state of the running handler.\<close>

definition settle :: "'d list Service \<Rightarrow> 'd list Service" where
  "settle s = s\<lparr>sv_disk := [hd (sv_disk s)]\<rparr>"

lemma settle_sound: "sound P Q s \<Longrightarrow> sound P Q (settle s)"
  by (cases "sv_disk s") (auto simp: sound_def settle_def)

lemma restart_sound:
  assumes "shards_sound Q d"
  shows "sound P Q (Service_New [disk_crash d rng])"
  using shards_sound_crash [OF assms] by (simp add: sound_def Service_New_def staging_sound_def)

lemma sound_at: "sound P Q s \<Longrightarrow> d \<in> set (sv_disk s) \<Longrightarrow> shards_sound Q d"
  by (simp add: sound_def)

text \<open>
  The runs of a node, with the commit messages it received: it takes any message from any peer, its own
  requests change nothing the handlers look at, and it restarts after a crash at any point of a handler.
\<close>

fun seen :: "data_message \<Rightarrow> commitMsg list \<Rightarrow> commitMsg list" where
  "seen (DCommit m) H = m # H"
| "seen _ H = H"

inductive node_run :: "disk list Config \<Rightarrow> disk list Service \<Rightarrow> commitMsg list \<Rightarrow> bool" for c where
  boot: "node_run c (Service_New [newDisk]) []"
| message: "node_run c (settle s') (seen m H)"
    if "node_run c s H" and "admissible c s m" and "dispatch c s from' m = Inr (s', os)"
| request: "node_run c s' H"
    if "node_run c s H" and "sv_disk s' = sv_disk s" and "sv_staging s' = sv_staging s"
| crash: "node_run c (Service_New [disk_crash d rng]) (seen m H)"
    if "node_run c s H" and "admissible c s m" and "dispatch c s from' m = Inr (s', os)" and "d \<in> set (sv_disk s')"

definition vouched :: "(bytes \<Rightarrow> bytes) \<Rightarrow> commitMsg list \<Rightarrow> shardKey \<Rightarrow> bytes \<Rightarrow> bool" where
  "vouched sha H k x \<longleftrightarrow> (\<exists>m \<in> set H. co_key m = k \<and> unat (co_length m) = length x mod 2 ^ 64 \<and> co_checksum m = sha x)"

lemma sound_mono: "sound P Q s \<Longrightarrow> (\<And>k x. Q k x \<Longrightarrow> Q' k x) \<Longrightarrow> sound P Q' s"
  unfolding sound_def shards_sound_def by blast

definition counted :: "shardKey \<Rightarrow> staging \<Rightarrow> bool" where
  "counted k g \<longleftrightarrow> sg_staged g = word_of_nat (length (sg_hash g))"

lemma seen_subset: "set H \<subseteq> set (seen m H)"
  by (cases m) auto

lemma counted_upholds: "upholds counted (vouched sha (seen m H)) sha m"
proof (cases m)
  case (DCommit x)
  have "unat (word_of_nat n :: u64) = n mod 2 ^ 64" for n by (simp add: unat_of_nat)
  then show ?thesis using DCommit by (auto simp: counted_def vouched_def)
qed (auto simp: counted_def)

lemma node_run_sound: "node_run (node_config sha tx) s H \<Longrightarrow> sound counted (vouched sha H) s"
proof (induction rule: node_run.induct)
  case boot
  then show ?case
    by (simp add: sound_def Service_New_def shards_sound_def staging_sound_def newDisk_def possible_def disk_clean_def)
next
  case (message s H m from' s' os)
  have "sound counted (vouched sha (seen m H)) s"
    by (rule sound_mono [OF message.IH]) (use seen_subset [of H m] in \<open>auto simp: vouched_def\<close>)
  from settle_sound [OF dispatch_sound [OF this message.hyps(2) counted_upholds message.hyps(3)]] show ?case .
next
  case (request s H s')
  from sound_cong [OF request.hyps(2,3) request.IH] show ?case .
next
  case (crash s H m from' s' os d rng)
  have "sound counted (vouched sha (seen m H)) s"
    by (rule sound_mono [OF crash.IH]) (use seen_subset [of H m] in \<open>auto simp: vouched_def\<close>)
  from dispatch_sound [OF this crash.hyps(2) counted_upholds crash.hyps(3)]
  show ?case using restart_sound [OF sound_at] crash.hyps(4) by blast
qed

lemma sound_committed:
  assumes "sound P Q s" and "committed (node_config sha tx) s k"
  obtains x where "Q k x" "disk_clean (hd (sv_disk s)) (ShardFileName k)" "disk_durable (hd (sv_disk s)) (ShardFileName k) = Some x"
    "disk_clean (hd (sv_disk s)) (marker_of k)" "disk_durable (hd (sv_disk s)) (marker_of k) \<noteq> None"
proof -
  obtain d ds where d: "sv_disk s = d # ds" and s: "shards_sound Q d" "staging_sound P d (sv_staging s)"
    by (rule soundE [OF assms(1)])
  note m = staging_soundD(1) [OF s(2), of k]
  have "disk_durable d (marker_of k) \<noteq> None" using committed_iff [OF d m] assms(2) by blast
  then show thesis using s(1) m possible_clean [OF m] that d by (auto simp: shards_sound_def)
qed

lemma clean_survives:
  assumes "disk_clean d n" and "disk_durable d n = Some x" and "ValidPath n"
  shows "disk_ReadFile d n = Inr x" "disk_ReadFile (disk_crash d rng) n = Inr x"
  using sim.crash_clean [OF assms(1), of rng] sim.read_clean [OF assms(3)] assms by (simp_all add: sim_disk_def)

end
