(* ===== verification/Datapath_Transfer.thy ===== *)
theory Datapath_Transfer
  imports Datapath_Receive
begin

text \<open>
  One shard transfer between two nodes over the unreliable transport: the write stream of the sender,
  the service of the receiver, and every message the two ever sent, any of which may be delivered again
  at any time or never. The receiver meanwhile serves other shards and may crash at any point of a handler.
\<close>

section \<open>What the stream sends\<close>

text \<open>The stream after \<open>W\<close> was written to it.\<close>

definition stream_ok :: "bytes \<Rightarrow> WriteStream \<Rightarrow> bool" where
  "stream_ok W w \<longleftrightarrow> length W < 2 ^ 63 \<and> unat (ws_base w) \<le> length W \<and> ws_buf w = drop (unat (ws_base w)) W \<and>
     (ws_committing w \<longrightarrow> unat (ws_length w) = length W)"

definition slice_of :: "bytes \<Rightarrow> shardKey \<Rightarrow> u64 \<Rightarrow> chunkMsg \<Rightarrow> bool" where
  "slice_of W k sid m \<longleftrightarrow> cm_key m = k \<and> cm_stream m = sid \<and> unat (cm_offset m) + length (cm_data m) \<le> length W \<and>
     cm_data m = take (length (cm_data m)) (drop (unat (cm_offset m)) W)"

text \<open>What may stand in the network of the stream \<open>w\<close>, acknowledgements aside.\<close>

fun sent_by :: "bytes \<Rightarrow> WriteStream \<Rightarrow> out \<Rightarrow> bool" where
  "sent_by W w (Send to (DChunk m)) = slice_of W (ws_key w) (ws_stream w) m"
| "sent_by W w (Send to (DCommit m)) = (co_key m = ws_key w \<and> co_stream m = ws_stream w \<and> ws_committing w \<and>
     unat (co_length m) = length W)"
| "sent_by W w (Send to m) = False"
| "sent_by W w (WriteDone wk r) = False"
| "sent_by W w _ = True"

lemma unat_plus_small: "unat a + n < 2 ^ 64 \<Longrightarrow> unat (a + word_of_nat n :: u64) = unat a + n"
  by (simp add: unat_word_ariths unat_of_nat)

lemma stream_positions:
  assumes "stream_ok W w"
  shows "unat (ws_len w) = length (ws_buf w)" "unat (ws_base w + ws_len w) = length W" "length (ws_buf w) = length W - unat (ws_base w)"
proof -
  have l: "length (ws_buf w) = length W - unat (ws_base w)" "unat (ws_base w) \<le> length W" "length W < 2 ^ 63"
    using assms by (auto simp: stream_ok_def)
  then have b: "length (ws_buf w) < 2 ^ 64" "unat (ws_base w) + length (ws_buf w) < 2 ^ 64" by auto
  show "length (ws_buf w) = length W - unat (ws_base w)" by (rule l(1))
  show "unat (ws_len w) = length (ws_buf w)" using b(1) by (simp add: ws_len_def unat_of_nat)
  show "unat (ws_base w + ws_len w) = length W"
    unfolding ws_len_def unat_plus_small [OF b(2)] using l by simp
qed

text \<open>The high-water mark is between the acknowledged offset and the end.\<close>

definition within :: "bytes \<Rightarrow> WriteStream \<Rightarrow> bool" where
  "within W w \<longleftrightarrow> unat (ws_base w) \<le> unat (ws_sent w) \<and> unat (ws_sent w) \<le> length W"

lemma chunk_positions:
  assumes "stream_ok W w" and "within W w" and "ws_sent w < ws_base w + ws_len w"
  shows "unat (ws_start w) = unat (ws_sent w) - unat (ws_base w)" and "\<not> ws_stop w < ws_start w"
    and "unat (ws_base w + ws_stop w) = min (unat (ws_sent w) + 65536) (length W)"
    and "unat (ws_stop w) = min (unat (ws_sent w) - unat (ws_base w) + 65536) (length W - unat (ws_base w))"
proof -
  note p = stream_positions [OF assms(1)]
  have lw: "length W < 2 ^ 63" using assms(1) by (simp add: stream_ok_def)
  have w: "unat (ws_base w) \<le> unat (ws_sent w)" "unat (ws_sent w) \<le> length W" using assms(2) by (simp_all add: within_def)
  show st: "unat (ws_start w) = unat (ws_sent w) - unat (ws_base w)"
    using w(1) by (simp add: ws_start_def unat_sub word_le_nat_alt)
  have "unat (ws_start w + word_of_nat 65536) = unat (ws_start w) + 65536"
    by (rule unat_plus_small) (use st w lw in simp)
  then have ad: "unat (ws_start w + chunkSize) = unat (ws_start w) + 65536" by (simp add: chunkSize_def)
  show sp: "unat (ws_stop w) = min (unat (ws_sent w) - unat (ws_base w) + 65536) (length W - unat (ws_base w))"
    using p(1,3) st ad by (auto simp: ws_stop_def min_def word_le_nat_alt)
  show "\<not> ws_stop w < ws_start w" using sp st w by (auto simp: word_less_nat_alt)
  have "unat (ws_base w + word_of_nat (unat (ws_stop w))) = unat (ws_base w) + unat (ws_stop w)"
    by (rule unat_plus_small) (use sp w lw in simp)
  then have "unat (ws_base w + ws_stop w) = unat (ws_base w) + unat (ws_stop w)" by simp
  then show "unat (ws_base w + ws_stop w) = min (unat (ws_sent w) + 65536) (length W)" using sp w by linarith
qed

lemma pump_loop_sends:
  assumes "stream_ok W w" and "within W w" and "\<forall>x \<in> set os. sent_by W w x"
  shows "\<exists>os'. pump_loop w os = Some (w\<lparr>ws_sent := ws_base w + ws_len w\<rparr>, os') \<and> (\<forall>x \<in> set os'. sent_by W w x)"
  using assms
proof (induction w os rule: pump_loop.induct)
  case (1 w os)
  show ?case
  proof (cases "ws_sent w < ws_base w + ws_len w")
    case True
    note c = chunk_positions [OF 1(2,3) True]
    have w: "unat (ws_base w) \<le> unat (ws_sent w)" "unat (ws_sent w) < length W"
      using 1(3) True stream_positions(2) [OF 1(2)] by (simp_all add: within_def word_less_nat_alt)
    have b: "ws_buf w = drop (unat (ws_base w)) W" using 1(2) by (simp add: stream_ok_def)
    have chunk: "sent_by W w (ws_chunk w)"
      using w c(1,4) by (simp add: ws_chunk_def slice_of_def b add.commute)
    let ?w = "w\<lparr>ws_sent := ws_base w + ws_stop w\<rparr>"
    have "stream_ok W ?w" "within W ?w" using 1(2) w c(3) by (simp_all add: stream_ok_def within_def)
    moreover have keep: "sent_by W ?w x = sent_by W w x" for x
      by (cases "(W, ?w, x)" rule: sent_by.cases) auto
    ultimately obtain os' where "pump_loop ?w (os @ [ws_chunk w]) = Some (?w\<lparr>ws_sent := ws_base ?w + ws_len ?w\<rparr>, os')"
        "\<forall>x \<in> set os'. sent_by W ?w x"
      using 1(1) [OF True c(2)] 1(4) chunk by auto
    then show ?thesis using True c(2) keep by (subst pump_loop.simps) (simp add: ws_len_def)
  next
    case False
    then have "ws_sent w = ws_base w + ws_len w"
      using 1(3) stream_positions(2) [OF 1(2)] by (simp add: within_def word_less_nat_alt word_unat_eq_iff)
    then have "w\<lparr>ws_sent := ws_base w + ws_len w\<rparr> = w" by simp
    then show ?thesis using False 1(4) by (subst pump_loop.simps) simp
  qed
qed

lemma sent_by_sent [simp]: "sent_by W (w\<lparr>ws_sent := v\<rparr>) x = sent_by W w x"
  by (cases "(W, w, x)" rule: sent_by.cases) auto

lemma pump_sends:
  assumes "stream_ok W w" and "within W w"
  shows "\<exists>os. pump w = Some (w\<lparr>ws_sent := ws_base w + ws_len w\<rparr>, os) \<and> (\<forall>x \<in> set os. sent_by W w x)"
proof -
  obtain os where os: "pump_loop w [] = Some (w\<lparr>ws_sent := ws_base w + ws_len w\<rparr>, os)" "\<forall>x \<in> set os. sent_by W w x"
    using pump_loop_sends [OF assms, of "[]"] by auto
  have "ws_committing w \<Longrightarrow> unat (ws_length w) = length W" using assms(1) by (simp add: stream_ok_def)
  with os show ?thesis by (simp add: pump_def)
qed

section \<open>The operations of the stream\<close>

definition stream_inv :: "bytes \<Rightarrow> WriteStream \<Rightarrow> bool" where
  "stream_inv W w \<longleftrightarrow> length W < 2 ^ 63 \<and> (\<not> ws_finished w \<longrightarrow> stream_ok W w \<and> ws_sent w = ws_base w + ws_len w)"

text \<open>The same stream later, and what it put out on the way: success is reported for a committed acknowledgement only.\<close>

definition advances :: "bytes \<Rightarrow> WriteStream \<Rightarrow> WriteStream \<Rightarrow> out list \<Rightarrow> bool" where
  "advances W w w' os \<longleftrightarrow> stream_inv W w' \<and> ws_key w' = ws_key w \<and> ws_stream w' = ws_stream w \<and>
     (ws_committing w \<longrightarrow> ws_committing w') \<and> (\<forall>x \<in> set os. sent_by W w' x \<or> (\<exists>wk e. x = WriteDone wk (Some e)))"

lemma stream_inv_within: "stream_inv W w \<Longrightarrow> \<not> ws_finished w \<Longrightarrow> within W w"
  using stream_positions(2) [of W w] by (auto simp: stream_inv_def within_def stream_ok_def)

lemma pump_advances:
  assumes "stream_ok W w" and "within W w" and "pump w = Some (w', os)" and "\<not> ws_finished w"
    and "ws_key w = ws_key v" and "ws_stream w = ws_stream v" and "ws_committing v \<longrightarrow> ws_committing w"
  shows "advances W v w' os"
proof -
  obtain os' where "pump w = Some (w\<lparr>ws_sent := ws_base w + ws_len w\<rparr>, os')" "\<forall>x \<in> set os'. sent_by W w x"
    using pump_sends [OF assms(1,2)] by blast
  then show ?thesis using assms by (auto simp: advances_def stream_inv_def stream_ok_def ws_len_def)
qed

lemma finish_advances:
  "stream_inv W w \<Longrightarrow> ws_finish w (Some e) = (w', os) \<Longrightarrow> advances W w w' os"
  by (auto simp: ws_finish_def advances_def stream_inv_def)

lemma advances_refl: "stream_inv W w \<Longrightarrow> advances W w w []"
  by (simp add: advances_def)

lemma Write_advances:
  assumes "stream_inv W w" and "\<not> ws_finished w" and "ws_Write w p = Some (w', os)" and "length (W @ p) < 2 ^ 63"
  shows "advances (W @ p) w w' os" "\<not> ws_committing w"
proof -
  have ok: "stream_ok W w" using assms(1,2) by (simp add: stream_inv_def)
  show nc: "\<not> ws_committing w" using assms(2,3) by (auto simp: ws_Write_def split: if_splits)
  have pm: "pump (w\<lparr>ws_buf := ws_buf w @ p\<rparr>) = Some (w', os)"
    using assms(2,3) by (auto simp: ws_Write_def split: if_splits)
  have "stream_ok (W @ p) (w\<lparr>ws_buf := ws_buf w @ p\<rparr>)" using ok assms(4) nc by (auto simp: stream_ok_def)
  moreover have "within (W @ p) (w\<lparr>ws_buf := ws_buf w @ p\<rparr>)"
    using stream_inv_within [OF assms(1,2)] by (simp add: within_def)
  ultimately show "advances (W @ p) w w' os" using pm by (rule pump_advances) (simp_all add: assms(2))
qed

lemma Commit_advances:
  assumes "stream_inv W w" and "ws_Commit w len ck = Some (w', os)"
  shows "advances W w w' os"
proof (cases "ws_finished w")
  case False
  have ok: "stream_ok W w" using assms(1) False by (simp add: stream_inv_def)
  have l: "len = ws_base w + ws_len w" and p: "pump (w\<lparr>ws_committing := True, ws_length := len, ws_checksum := ck\<rparr>) = Some (w', os)"
    using assms(2) False by (auto simp: ws_Commit_def split: if_splits)
  have "stream_ok W (w\<lparr>ws_committing := True, ws_length := len, ws_checksum := ck\<rparr>)"
    using ok stream_positions(2) [OF ok] by (simp add: stream_ok_def l)
  moreover have "within W (w\<lparr>ws_committing := True, ws_length := len, ws_checksum := ck\<rparr>)"
    using stream_inv_within [OF assms(1) False] by (simp add: within_def)
  ultimately show ?thesis using p by (rule pump_advances) (simp_all add: False)
qed (use assms in \<open>auto simp: ws_Commit_def advances_refl\<close>)

lemma Abort_advances: "stream_inv W w \<Longrightarrow> ws_Abort w = (w', os) \<Longrightarrow> advances W w w' os"
  by (auto simp: ws_Abort_def advances_refl finish_advances split: if_splits)

lemma stream_inv_cong:
  "stream_inv W w \<Longrightarrow> stream_inv W (w\<lparr>ws_timer := t\<rparr>)" "stream_inv W w \<Longrightarrow> stream_inv W (w\<lparr>ws_attempts := a\<rparr>)"
  by (simp_all add: stream_inv_def stream_ok_def ws_len_def)

lemma sent_by_timer [simp]: "sent_by W (w\<lparr>ws_timer := t\<rparr>) x = sent_by W w x"
  by (cases "(W, w, x)" rule: sent_by.cases) auto

lemma advances_timer: "advances W v w os \<Longrightarrow> advances W v (w\<lparr>ws_timer := t\<rparr>) os"
  by (simp add: advances_def stream_inv_cong)

lemma onTimer_advances:
  assumes "stream_inv W w" and "ws_onTimer w = Some (w', os)"
  shows "advances W w w' os"
proof -
  let ?w = "w\<lparr>ws_attempts := ws_attempts w + 1\<rparr>"
  consider (idle) "w' = w \<and> os = [] \<or> w' = ws_rearm w \<and> os = []"
    | (over) "ws_finish ?w (Some Unreachable) = (w', os)"
    | (again) w1 where "pump (?w\<lparr>ws_sent := ws_base ?w\<rparr>) = Some (w1, os)" "w' = ws_rearm w1" "\<not> ws_finished w"
    using assms(2) by (auto simp: ws_onTimer_def Let_def split: if_splits option.splits)
  then show ?thesis
  proof cases
    case idle
    then show ?thesis using advances_refl [OF assms(1)] advances_timer [OF advances_refl [OF assms(1)], of True]
      by (auto simp: ws_rearm_def)
  next
    case over
    then show ?thesis using finish_advances [OF stream_inv_cong(2) [OF assms(1)]] by (auto simp: advances_def)
  next
    case again
    have ok: "stream_ok W w" using assms(1) again(3) by (simp add: stream_inv_def)
    then have "stream_ok W (?w\<lparr>ws_sent := ws_base ?w\<rparr>)" "within W (?w\<lparr>ws_sent := ws_base ?w\<rparr>)"
      by (simp_all add: stream_ok_def within_def)
    from pump_advances [OF this again(1), of w] again(3) have "advances W w w1 os" by simp
    then show ?thesis unfolding again(2) ws_rearm_def by (rule advances_timer)
  qed
qed

lemma fire_advances: "stream_inv W w \<Longrightarrow> ws_fire w = Some (w', os) \<Longrightarrow> advances W w w' os"
  using onTimer_advances [OF stream_inv_cong(1), of W w False] by (auto simp: ws_fire_def advances_def split: if_splits)

lemma sent_by_window: "sent_by W w (WindowOpen wk)"
  by simp

lemma ack_advances:
  assumes "stream_inv W w" and "ws_handleAck w m = Some (w', os)"
  shows "advances W w w' os \<or>
    wa_committed m \<and> (w', os) = ws_finish w None"
proof -
  let ?w = "ws_rearm (w\<lparr>ws_buf := drop (unat (wa_staged m - ws_base w)) (ws_buf w), ws_base := wa_staged m, ws_attempts := 0\<rparr>)"
  consider (ignored) "w' = w" "os = []" | (failed) e where "ws_finish w (Some e) = (w', os)"
    | (finished) "wa_committed m" "(w', os) = ws_finish w None"
    | (progress) os1 where "\<not> ws_finished w" "pump ?w = Some (w', os1)" "\<not> ws_base w + ws_len w < wa_staged m" "ws_base w < wa_staged m"
        "os = os1 @ (if ws_onWindow w' \<and> \<not> ws_committing w' then [WindowOpen (ws_to w', ws_key w')] else [])"
    using assms(2) by (auto simp: ws_handleAck_def Let_def split: if_splits option.splits)
  then show ?thesis
  proof cases
    case progress
    have ok: "stream_ok W w" and snt: "ws_sent w = ws_base w + ws_len w" using assms(1) progress(1) by (simp_all add: stream_inv_def)
    have st: "unat (ws_base w) < unat (wa_staged m)" "unat (wa_staged m) \<le> length W"
      using progress(3,4) stream_positions(2) [OF ok] by (simp_all add: word_less_nat_alt)
    have "unat (wa_staged m - ws_base w) = unat (wa_staged m) - unat (ws_base w)"
      using st(1) by (simp add: unat_sub word_le_nat_alt)
    then have "stream_ok W ?w" using ok st by (simp add: stream_ok_def ws_rearm_def)
    moreover have "within W ?w" using st snt stream_positions(2) [OF ok] by (simp add: within_def ws_rearm_def)
    ultimately have "advances W w w' os1"
      by (rule pump_advances [OF _ _ progress(2)]) (simp_all add: progress(1) ws_rearm_def)
    then show ?thesis by (auto simp: advances_def progress(5))
  qed (use assms(1) in \<open>auto simp: advances_refl finish_advances\<close>)
qed

end
