(* ===== verification/Datapath_Delivery.thy ===== *)
theory Datapath_Delivery
  imports Datapath_Transfer
begin

text \<open>
  A transfer that reports success has delivered: the runs of a sender and a receiver over a network that
  loses, repeats and reorders messages, with crashes of the receiver, and the invariant that ties the bytes
  written on one side to the bytes on the other side's disk.
\<close>

section \<open>What a handler leaves alone\<close>

text \<open>The shard whose files a message may touch.\<close>

fun about :: "data_message \<Rightarrow> shardKey option" where
  "about (DChunk m) = Some (cm_key m)"
| "about (DCommit m) = Some (co_key m)"
| "about (DDelete m) = Some (de_key m)"
| "about _ = None"

definition outside :: "shardKey \<Rightarrow> disk \<Rightarrow> disk \<Rightarrow> bool" where
  "outside k d d' \<longleftrightarrow> (\<forall>x. x \<noteq> ShardFileName k \<and> x \<noteq> marker_of k \<longrightarrow>
     fmlookup (dk_durable d') x = fmlookup (dk_durable d) x \<and> fmlookup (dk_staged d') x = fmlookup (dk_staged d) x)"

lemma outside_refl [simp]: "outside k d d"
  by (simp add: outside_def)

lemma operations_outside:
  assumes "n = ShardFileName k \<or> n = marker_of k" and "outside k d e"
  shows "disk_WriteFile e n x = (d', r) \<Longrightarrow> outside k d d'" "disk_Append e n x = (d', r) \<Longrightarrow> outside k d d'"
    "disk_Sync e n = (d', r) \<Longrightarrow> outside k d d'" "disk_Remove e n = (d', r) \<Longrightarrow> outside k d d'"
  using assms
  by (auto simp: outside_def disk_WriteFile_def disk_Append_def disk_Sync_def disk_Remove_def Let_def split: if_splits option.splits)

definition confined :: "shardKey \<Rightarrow> disk \<Rightarrow> disk list \<Rightarrow> bool" where
  "confined k d ds \<longleftrightarrow> ds \<noteq> [] \<and> (\<forall>e \<in> set ds. outside k d e)"

lemma confined_step:
  assumes "confined k d ds" and "n = ShardFileName k \<or> n = marker_of k"
  shows "WriteFile (cf_Disk (node_config sha tx)) ds n x = (ds', r) \<Longrightarrow> confined k d ds'"
    "Append (cf_Disk (node_config sha tx)) ds n x = (ds', r) \<Longrightarrow> confined k d ds'"
    "Sync (cf_Disk (node_config sha tx)) ds n = (ds', r) \<Longrightarrow> confined k d ds'"
    "Remove (cf_Disk (node_config sha tx)) ds n = (ds', r) \<Longrightarrow> confined k d ds'"
proof -
  obtain e es where ds: "ds = e # es" "outside k d e" using assms(1) by (cases ds) (auto simp: confined_def)
  note o = operations_outside [OF assms(2) ds(2)]
  show "WriteFile (cf_Disk (node_config sha tx)) ds n x = (ds', r) \<Longrightarrow> confined k d ds'"
    using assms(1) o(1) by (auto simp: ds confined_def split: prod.splits)
  show "Append (cf_Disk (node_config sha tx)) ds n x = (ds', r) \<Longrightarrow> confined k d ds'"
    using assms(1) o(2) by (auto simp: ds confined_def split: prod.splits)
  show "Sync (cf_Disk (node_config sha tx)) ds n = (ds', r) \<Longrightarrow> confined k d ds'"
    using assms(1) o(3) by (auto simp: ds confined_def split: prod.splits)
  show "Remove (cf_Disk (node_config sha tx)) ds n = (ds', r) \<Longrightarrow> confined k d ds'"
    using assms(1) o(4) by (auto simp: ds confined_def split: prod.splits)
qed

lemma abandon_confined:
  assumes "confined k d (sv_disk s)"
  shows "confined k d (sv_disk (fst (abandon (node_config sha tx) s from' k stream (ShardFileName k) msg)))"
proof -
  obtain d1 r where d1: "Remove (cf_Disk (node_config sha tx)) (sv_disk s) (ShardFileName k) = (d1, r)" by fastforce
  obtain d2 r2 where d2: "Sync (cf_Disk (node_config sha tx)) d1 (ShardFileName k) = (d2, r2)" by fastforce
  have "confined k d d1" by (rule confined_step(4) [OF assms _ d1]) simp
  moreover from this have "confined k d d2" by (rule confined_step(3) [OF _ _ d2]) simp
  ultimately show ?thesis by (cases r) (simp_all add: abandon_def d1 d2)
qed

lemma first_chunk_confined:
  assumes "confined (cm_key m) d (sv_disk s)"
  shows "confined (cm_key m) d (sv_disk (fst (first_chunk (node_config sha tx) s from' m)))"
proof -
  obtain d1 r where d1: "WriteFile (cf_Disk (node_config sha tx)) (sv_disk s) (ShardFileName (cm_key m)) (cm_data m) = (d1, r)" by fastforce
  have "confined (cm_key m) d d1" by (rule confined_step(1) [OF assms _ d1]) simp
  then show ?thesis by (cases r) (simp_all add: first_chunk_def d1 Let_def)
qed

lemma handleChunk_confined:
  assumes "confined (cm_key m) d (sv_disk s)"
  shows "confined (cm_key m) d (sv_disk (fst (handleChunk (node_config sha tx) s from' m)))"
proof -
  obtain d1 r where d1: "Append (cf_Disk (node_config sha tx)) (sv_disk s) (ShardFileName (cm_key m)) (cm_data m) = (d1, r)" by fastforce
  have c1: "confined (cm_key m) d d1" by (rule confined_step(2) [OF assms _ d1]) simp
  note a = abandon_confined [where s = "s\<lparr>sv_disk := d1\<rparr>" and k = "cm_key m" and d = d, simplified, OF c1]
  show ?thesis
    using assms c1 a first_chunk_confined [OF assms]
    by (cases r; cases "fmlookup (sv_staging s) (cm_key m)") (simp_all add: handleChunk_def d1 Let_def)
qed

lemma handleCommit_confined:
  assumes "confined (co_key m) d (sv_disk s)"
  shows "confined (co_key m) d (sv_disk (fst (handleCommit (node_config sha tx) s from' m)))"
proof -
  let ?n = "ShardFileName (co_key m)"
  obtain d1 r1 where d1: "Sync (cf_Disk (node_config sha tx)) (sv_disk s) ?n = (d1, r1)" by fastforce
  obtain d2 r2 where d2: "WriteFile (cf_Disk (node_config sha tx)) d1 (markerName ?n) [] = (d2, r2)" by fastforce
  obtain d3 r3 where d3: "Sync (cf_Disk (node_config sha tx)) d2 (markerName ?n) = (d3, r3)" by fastforce
  have c1: "confined (co_key m) d d1" by (rule confined_step(3) [OF assms _ d1]) simp
  then have c2: "confined (co_key m) d d2" by (rule confined_step(1) [OF _ _ d2]) simp
  then have c3: "confined (co_key m) d d3" by (rule confined_step(3) [OF _ _ d3]) simp
  have a: "confined (co_key m) d (sv_disk (fst (abandon (node_config sha tx) (s\<lparr>sv_disk := e\<rparr>) from' (co_key m) stream ?n msg)))"
    if "confined (co_key m) d e" for e stream msg using abandon_confined [where s = "s\<lparr>sv_disk := e\<rparr>"] that by simp
  show ?thesis
    using assms c3 a [OF c1] a [OF c2] a [OF c3] abandon_confined [OF assms]
    by (cases r1; cases r2; cases r3; cases "fmlookup (sv_staging s) (co_key m)")
      (simp_all add: handleCommit_def d1 d2 d3 Let_def)
qed

lemma delete_files_confined:
  assumes "confined k d ds" and "set ns \<subseteq> {ShardFileName k, marker_of k}"
  shows "confined k d (fst (delete_files (node_config sha tx) ns ds))"
  using assms
proof (induction ns arbitrary: ds)
  case (Cons n ns)
  have n: "n = ShardFileName k \<or> n = marker_of k" "set ns \<subseteq> {ShardFileName k, marker_of k}" using Cons.prems(2) by auto
  obtain d1 r1 where d1: "Remove (cf_Disk (node_config sha tx)) ds n = (d1, r1)" by fastforce
  obtain d2 r2 where d2: "Sync (cf_Disk (node_config sha tx)) d1 n = (d2, r2)" by fastforce
  have c1: "confined k d d1" by (rule confined_step(4) [OF Cons.prems(1) n(1) d1])
  have c2: "confined k d d2" by (rule confined_step(3) [OF c1 n(1) d2])
  show ?case using c1 c2 Cons.IH [OF c1 n(2)] Cons.IH [OF c2 n(2)] by (cases r1; cases r2) (auto simp: d1 d2 split: disk_error.split)
qed simp

lemma dispatch_confined:
  assumes "dispatch (node_config sha tx) s from' m = Inr (s', os)" and "about m = Some k" and "sv_disk s = [d]"
  shows "confined k d (sv_disk s')"
proof -
  have c: "confined k d (sv_disk s)" using assms(3) by (simp add: confined_def)
  have del: "confined k d (sv_disk (fst (handleDelete (node_config sha tx) s from' x)))" if "de_key x = k" for x
    using delete_files_confined [OF c, of "[marker_of k, ShardFileName k]" sha tx] that
    by (cases "delete_files (node_config sha tx) [marker_of k, ShardFileName k] (sv_disk s)"; cases "snd (delete_files (node_config sha tx) [marker_of k, ShardFileName k] (sv_disk s))")
      (simp_all add: handleDelete_def Let_def)
  show ?thesis
    using assms(1,2) c del handleChunk_confined [where s = s and d = d] handleCommit_confined [where s = s and d = d]
    by (cases m) (auto, (metis fst_conv)+)
qed

lemma dispatch_idle:
  "dispatch c s from' m = Inr (s', os) \<Longrightarrow> about m = None \<Longrightarrow> sv_disk s' = sv_disk s \<and> sv_staging s' = sv_staging s"
  by (cases m) (auto simp: put_stream_def fetch_finish_def delete_finish_def verify_finish_def split: option.splits)

section \<open>A committed shard stays committed\<close>

definition marked :: "disk \<Rightarrow> shardKey \<Rightarrow> bool" where
  "marked d k \<longleftrightarrow> disk_clean d (marker_of k) \<and> disk_durable d (marker_of k) \<noteq> None"

lemma marked_crash: "marked d k \<Longrightarrow> marked (disk_crash d rng) k"
  using sim.crash_clean [of d "marker_of k" rng] by (simp add: marked_def)

lemma committed_marked:
  assumes "sound P Q s" and "sv_disk s = d # ds"
  shows "committed (node_config sha tx) s k \<longleftrightarrow> marked d k"
proof -
  have "disk_clean d (marker_of k)" using assms staging_soundD(1) [of P d "sv_staging s"] by (simp add: sound_def)
  then show ?thesis using committed_iff [OF assms(2)] by (simp add: marked_def)
qed

lemma marked_outside: "outside j d d' \<Longrightarrow> j \<noteq> k \<Longrightarrow> marked d k \<Longrightarrow> marked d' k"
  by (simp add: outside_def marked_def disk_clean_def disk_durable_def)

lemma committed_idempotent:
  assumes "sound P Q s" and "sv_disk s = [d]" and "marked d k"
  shows "cm_key m = k \<Longrightarrow> handleChunk (node_config sha tx) s from' m = (s, [ack from' k 0 True [] (cm_stream m)])"
    "co_key x = k \<Longrightarrow> co_length x \<noteq> 0 \<Longrightarrow> handleCommit (node_config sha tx) s from' x = (s, [ack from' k 0 True [] (co_stream x)])"
proof -
  have c: "committed (node_config sha tx) s k" using committed_marked [OF assms(1,2)] assms(3) by simp
  have "staging_sound P d (sv_staging s)" using assms(1,2) by (simp add: sound_def)
  then have n: "fmlookup (sv_staging s) k = None"
    using staging_soundD(2) [of P d "sv_staging s" k] assms(3) by (cases "fmlookup (sv_staging s) k") (auto simp: marked_def)
  show "cm_key m = k \<Longrightarrow> handleChunk (node_config sha tx) s from' m = (s, [ack from' k 0 True [] (cm_stream m)])"
    using c n by (simp add: handleChunk_def Let_def)
  show "co_key x = k \<Longrightarrow> co_length x \<noteq> 0 \<Longrightarrow> handleCommit (node_config sha tx) s from' x = (s, [ack from' k 0 True [] (co_stream x)])"
    using c n by (simp add: handleCommit_def Let_def)
qed

lemma marked_kept:
  assumes "sound P Q s" and "sv_disk s = [d]" and "marked d k" and "admissible (node_config sha tx) s m"
    and "\<And>x. m = DDelete x \<Longrightarrow> de_key x \<noteq> k" and "dispatch (node_config sha tx) s from' m = Inr (s', os)" and "e \<in> set (sv_disk s')"
  shows "marked e k"
proof (cases "about m = Some k")
  case True
  have c: "committed (node_config sha tx) s k" using committed_marked [OF assms(1,2)] assms(3) by simp
  have "s' = s"
  proof (cases m)
    case (DChunk x)
    then show ?thesis using True assms(6) committed_idempotent(1) [OF assms(1-3)] by simp
  next
    case (DCommit x)
    then show ?thesis using True assms(4,6) c committed_idempotent(2) [OF assms(1-3)] by auto
  qed (use True assms(5) in auto)
  then show ?thesis using assms(2,3,7) by simp
next
  case False
  show ?thesis
  proof (cases "about m")
    case None
    then show ?thesis using dispatch_idle [OF assms(6)] assms(2,3,7) by simp
  next
    case (Some j)
    then show ?thesis
      using dispatch_confined [OF assms(6) Some assms(2)] assms(3,7) False marked_outside [of j d e k] by (auto simp: confined_def)
  qed
qed

text \<open>Whoever is told \<^verbatim>\<open>committed\<close> is told the truth.\<close>

lemma handleCommit_marked:
  assumes "sound P Q s" and "sv_disk s = [d]" and "handleCommit (node_config sha tx) s from' m = (s', os)"
    and "Send to (DWriteAck a) \<in> set os" and "wa_committed a"
  shows "wa_key a = co_key m \<and> marked (hd (sv_disk s')) (co_key m)"
proof -
  let ?n = "ShardFileName (co_key m)"
  obtain d1 r1 where d1: "disk_Sync d ?n = (d1, r1)" by fastforce
  obtain d2 r2 where d2: "disk_WriteFile d1 (markerName ?n) [] = (d2, r2)" by fastforce
  obtain d3 where d3: "disk_Sync d2 (markerName ?n) = (d3, None)" "disk_clean d3 (marker_of (co_key m))"
      "disk_durable d3 (marker_of (co_key m)) = (case disk_ReadFile d2 (marker_of (co_key m)) of Inr y \<Rightarrow> Some y | Inl _ \<Rightarrow> None)"
    by (rule sync_effect [of "marker_of (co_key m)" d2]) simp_all
  have "disk_ReadFile d2 (marker_of (co_key m)) = Inr []" using write_effect [of "marker_of (co_key m)" d1 "[]"] d2 by auto
  with d3 have m: "marked d3 (co_key m)" by (simp add: marked_def)
  have no: "abandon (node_config sha tx) t from' (co_key m) stream ?n msg \<noteq> (s', os)" for t stream msg
    using assms(4,5) by (auto simp: abandon_def ack_def Let_def)
  have c: "committed (node_config sha tx) s k \<longleftrightarrow> marked d k" for k by (rule committed_marked [OF assms(1,2)])
  have same: "s = s' \<Longrightarrow> hd (sv_disk s') = d" using assms(2) by auto
  show ?thesis
    using assms(3-5) m no c same
    by (cases r1; cases r2; cases "fmlookup (sv_staging s) (co_key m)")
      (auto simp: handleCommit_def assms(2) d1 d2 d3(1) ack_def Let_def split: if_splits)
qed

lemma handleChunk_marked:
  assumes "sound P Q s" and "sv_disk s = [d]" and "handleChunk (node_config sha tx) s from' m = (s', os)"
    and "Send to (DWriteAck a) \<in> set os" and "wa_committed a"
  shows "wa_key a = cm_key m \<and> s' = s \<and> marked d (cm_key m)"
proof -
  have no: "abandon (node_config sha tx) t from' (cm_key m) stream n msg \<noteq> (s', os)" for t stream n msg
    using assms(4,5) by (auto simp: abandon_def ack_def Let_def)
  have nf: "first_chunk (node_config sha tx) s from' m \<noteq> (s', os)"
    using assms(4,5) by (auto simp: first_chunk_def ack_def Let_def split: prod.splits option.splits)
  have c: "committed (node_config sha tx) s k \<longleftrightarrow> marked d k" for k by (rule committed_marked [OF assms(1,2)])
  show ?thesis
    using assms(2-5) no nf c
    by (cases "fmlookup (sv_staging s) (cm_key m)"; cases "disk_Append d (ShardFileName (cm_key m)) (cm_data m)")
      (auto simp: handleChunk_def assms(2) ack_def Let_def split: if_splits option.splits)
qed

section \<open>The runs of a transfer\<close>

text \<open>
  \<open>tr_net\<close> is every message sent for this transfer so far, \<open>tr_written\<close> the bytes the caller wrote, \<open>tr_events\<close> what
  the stream put out.
\<close>

record transfer =
  tr_rx :: "disk list Service"
  tr_w :: WriteStream
  tr_net :: "data_message list"
  tr_written :: bytes
  tr_events :: "out list"

fun sends :: "out list \<Rightarrow> data_message list" where
  "sends [] = []"
| "sends (Send to m # os) = m # sends os"
| "sends (_ # os) = sends os"

definition sender :: "transfer \<Rightarrow> WriteStream \<Rightarrow> out list \<Rightarrow> transfer" where
  "sender T w os = T\<lparr>tr_w := w, tr_net := tr_net T @ sends os, tr_events := tr_events T @ os\<rparr>"

definition data_or_commit :: "data_message \<Rightarrow> bool" where
  "data_or_commit m \<longleftrightarrow> (case m of DChunk _ \<Rightarrow> True | DCommit _ \<Rightarrow> True | _ \<Rightarrow> False)"

inductive transfer_run :: "disk list Config \<Rightarrow> shardKey \<Rightarrow> transfer \<Rightarrow> bool" for c k where
  start: "transfer_run c k \<lparr>tr_rx = s, tr_w = w, tr_net = [], tr_written = [], tr_events = []\<rparr>"
    if "node_run c s H" and "fmlookup (sv_staging s) k = None" and "\<not> committed c s k"
      and "NewWrite (s0 :: disk list Service) to k onWindow done' = Some (s1, w)"
| wrote: "transfer_run c k ((sender T w os)\<lparr>tr_written := tr_written T @ p\<rparr>)"
    if "transfer_run c k T" and "\<not> ws_finished (tr_w T)" and "ws_Write (tr_w T) p = Some (w, os)"
      and "length (tr_written T @ p) < 2 ^ 63"
| committing: "transfer_run c k (sender T w os)"
    if "transfer_run c k T" and "ws_Commit (tr_w T) len ck = Some (w, os)"
| aborted: "transfer_run c k (sender T w os)"
    if "transfer_run c k T" and "ws_Abort (tr_w T) = (w, os)"
| fired: "transfer_run c k (sender T w os)"
    if "transfer_run c k T" and "ws_fire (tr_w T) = Some (w, os)"
| acked: "transfer_run c k (sender T w os)"
    if "transfer_run c k T" and "DWriteAck m \<in> set (tr_net T)" and "wa_key m = k" and "ws_handleAck (tr_w T) m = Some (w, os)"
| deliver: "transfer_run c k (T\<lparr>tr_rx := settle s, tr_net := tr_net T @ sends os\<rparr>)"
    if "transfer_run c k T" and "m \<in> set (tr_net T)" and "data_or_commit m" and "dispatch c (tr_rx T) from' m = Inr (s, os)"
| deliver_crash: "transfer_run c k (T\<lparr>tr_rx := Service_New [disk_crash d rng]\<rparr>)"
    if "transfer_run c k T" and "m \<in> set (tr_net T)" and "data_or_commit m" and "dispatch c (tr_rx T) from' m = Inr (s, os)"
      and "d \<in> set (sv_disk s)"
| other: "transfer_run c k (T\<lparr>tr_rx := settle s\<rparr>)"
    if "transfer_run c k T" and "about m \<noteq> Some k" and "admissible c (tr_rx T) m" and "dispatch c (tr_rx T) from' m = Inr (s, os)"
| other_crash: "transfer_run c k (T\<lparr>tr_rx := Service_New [disk_crash d rng]\<rparr>)"
    if "transfer_run c k T" and "about m \<noteq> Some k" and "admissible c (tr_rx T) m" and "dispatch c (tr_rx T) from' m = Inr (s, os)"
      and "d \<in> set (sv_disk s)"
| request: "transfer_run c k (T\<lparr>tr_rx := s\<rparr>)"
    if "transfer_run c k T" and "sv_disk s = sv_disk (tr_rx T)" and "sv_staging s = sv_staging (tr_rx T)"

section \<open>The invariant of a transfer\<close>

definition staged_prefix :: "shardKey \<Rightarrow> bytes \<Rightarrow> u64 \<Rightarrow> shardKey \<Rightarrow> staging \<Rightarrow> bool" where
  "staged_prefix k W sid j g \<longleftrightarrow> (j = k \<longrightarrow> counted j g \<and> sg_stream g = sid \<and> prefix (sg_hash g) W)"

definition whole :: "shardKey \<Rightarrow> bytes \<Rightarrow> bool \<Rightarrow> shardKey \<Rightarrow> bytes \<Rightarrow> bool" where
  "whole k W com j x \<longleftrightarrow> (j = k \<longrightarrow> x = W \<and> W \<noteq> [] \<and> com)"

fun known :: "bytes \<Rightarrow> WriteStream \<Rightarrow> disk \<Rightarrow> data_message \<Rightarrow> bool" where
  "known W w d (DWriteAck a) = (wa_key a = ws_key w \<and> wa_committed a \<longrightarrow> marked d (ws_key w))"
| "known W w d m = sent_by W w (Send [] m)"

definition success :: "out \<Rightarrow> bool" where
  "success x \<longleftrightarrow> (\<exists>wk. x = WriteDone wk None)"

definition transfer_inv :: "shardKey \<Rightarrow> transfer \<Rightarrow> bool" where
  "transfer_inv k T \<longleftrightarrow> ws_key (tr_w T) = k \<and> stream_inv (tr_written T) (tr_w T) \<and>
     (\<exists>d. sv_disk (tr_rx T) = [d] \<and>
        sound (staged_prefix k (tr_written T) (ws_stream (tr_w T))) (whole k (tr_written T) (ws_committing (tr_w T))) (tr_rx T) \<and>
        (\<forall>m \<in> set (tr_net T). known (tr_written T) (tr_w T) d m) \<and>
        (\<forall>x \<in> set (tr_events T). success x \<longrightarrow> marked d k))"

lemma sends_set: "m \<in> set (sends os) \<longleftrightarrow> (\<exists>to. Send to m \<in> set os)"
  by (induction os rule: sends.induct) auto

lemma sent_by_any: "sent_by W w (Send to m) \<longleftrightarrow> sent_by W w (Send [] m)"
  by (cases m) auto

lemma slice_of_append: "slice_of W k sid m \<Longrightarrow> slice_of (W @ p) k sid m"
  by (simp add: slice_of_def)

text \<open>The stream moves on: what was known stays known.\<close>

lemma known_advances:
  assumes "known W w d m" and "advances W' w w' os" and "W' = W \<or> \<not> ws_committing w \<and> prefix W W'"
  shows "known W' w' d m"
proof (cases m)
  case (DChunk x)
  then show ?thesis using assms by (auto simp: advances_def prefix_def slice_of_append)
qed (use assms in \<open>auto simp: advances_def\<close>)

lemma sound_mono2:
  "sound P Q s \<Longrightarrow> (\<And>k g. P k g \<Longrightarrow> P' k g) \<Longrightarrow> (\<And>k x. Q k x \<Longrightarrow> Q' k x) \<Longrightarrow> sound P' Q' s"
  unfolding sound_def shards_sound_def staging_sound_def by blast

lemma sender_inv:
  assumes "transfer_inv k T" and "advances W' (tr_w T) w os"
    and "W' = tr_written T \<or> \<not> ws_committing (tr_w T) \<and> prefix (tr_written T) W'"
  shows "transfer_inv k ((sender T w os)\<lparr>tr_written := W'\<rparr>)"
proof -
  obtain d where i: "ws_key (tr_w T) = k" "sv_disk (tr_rx T) = [d]"
    "sound (staged_prefix k (tr_written T) (ws_stream (tr_w T))) (whole k (tr_written T) (ws_committing (tr_w T))) (tr_rx T)"
    "\<forall>m \<in> set (tr_net T). known (tr_written T) (tr_w T) d m" "\<forall>x \<in> set (tr_events T). success x \<longrightarrow> marked d k"
    using assms(1) by (auto simp: transfer_inv_def)
  have a: "stream_inv W' w" "ws_key w = k" "ws_stream w = ws_stream (tr_w T)" "ws_committing (tr_w T) \<longrightarrow> ws_committing w"
    and o: "\<And>x. x \<in> set os \<Longrightarrow> sent_by W' w x \<or> (\<exists>wk e. x = WriteDone wk (Some e))"
    using assms(2) i(1) by (auto simp: advances_def)
  have "sound (staged_prefix k W' (ws_stream w)) (whole k W' (ws_committing w)) (tr_rx T)"
  proof (rule sound_mono2 [OF i(3)])
    have "prefix (tr_written T) W'" using assms(3) by auto
    then show "staged_prefix k W' (ws_stream w) j g" if "staged_prefix k (tr_written T) (ws_stream (tr_w T)) j g" for j g
      using that prefix_order.trans by (simp add: staged_prefix_def a(3)) blast
    show "whole k W' (ws_committing w) j x" if "whole k (tr_written T) (ws_committing (tr_w T)) j x" for j x
      using that assms(3) a(4) by (auto simp: whole_def)
  qed
  moreover have "known W' w d m" if "m \<in> set (tr_net T) \<or> m \<in> set (sends os)" for m
  proof (cases "m \<in> set (tr_net T)")
    case True
    then show ?thesis using i(4) known_advances [OF _ assms(2,3)] by blast
  next
    case False
    then have "m \<in> set (sends os)" using that by simp
    then obtain to where to: "Send to m \<in> set os" unfolding sends_set ..
    have "sent_by W' w (Send [] m)" using o [OF to] sent_by_any [of W' w to m] by simp
    then show ?thesis by (cases m) auto
  qed
  moreover have "marked d k" if "x \<in> set (tr_events T @ os)" "success x" for x
    using that i(5) o [of x] by (auto simp: success_def)
  ultimately show ?thesis using i(2) a(1,2) by (simp add: transfer_inv_def sender_def) blast
qed

text \<open>The receiver takes a message and settles, or crashes on the way.\<close>

lemma receiver_inv:
  assumes "transfer_inv k T" and "sv_disk s = [d']"
    and "sound (staged_prefix k (tr_written T) (ws_stream (tr_w T))) (whole k (tr_written T) (ws_committing (tr_w T))) s"
    and "\<And>d. sv_disk (tr_rx T) = [d] \<Longrightarrow> marked d k \<Longrightarrow> marked d' k"
    and "\<forall>m \<in> set ms. known (tr_written T) (tr_w T) d' m"
  shows "transfer_inv k (T\<lparr>tr_rx := s, tr_net := tr_net T @ ms\<rparr>)"
proof -
  obtain d where i: "ws_key (tr_w T) = k" "stream_inv (tr_written T) (tr_w T)" "sv_disk (tr_rx T) = [d]"
    "\<forall>m \<in> set (tr_net T). known (tr_written T) (tr_w T) d m" "\<forall>x \<in> set (tr_events T). success x \<longrightarrow> marked d k"
    using assms(1) by (auto simp: transfer_inv_def)
  have m: "marked d k \<Longrightarrow> marked d' k" by (rule assms(4) [OF i(3)])
  have "known (tr_written T) (tr_w T) d' x" if "known (tr_written T) (tr_w T) d x" for x
    using that m i(1) by (cases x) auto
  then show ?thesis using i m assms(2,3,5) by (auto simp: transfer_inv_def)
qed

lemma deliver_upholds:
  assumes "transfer_inv k T" and "m \<in> set (tr_net T)" and "data_or_commit m"
  shows "upholds (staged_prefix k (tr_written T) (ws_stream (tr_w T))) (whole k (tr_written T) (ws_committing (tr_w T))) sha m"
proof -
  let ?W = "tr_written T" and ?w = "tr_w T"
  have kn: "sent_by ?W ?w (Send [] m)" "ws_key ?w = k" "length ?W < 2 ^ 63"
    using assms by (auto simp: transfer_inv_def stream_inv_def data_or_commit_def split: data_message.splits)
  have unat_len: "unat (word_of_nat n :: u64) = n" if "n < 2 ^ 63" for n using that by (simp add: unat_of_nat)
  show ?thesis
  proof (cases m)
    case (DChunk x)
    then have x: "cm_key x = k" "cm_stream x = ws_stream ?w" "unat (cm_offset x) + length (cm_data x) \<le> length ?W"
      "cm_data x = take (length (cm_data x)) (drop (unat (cm_offset x)) ?W)" using kn by (auto simp: slice_of_def)
    have "prefix (sg_hash g @ cm_data x) ?W"
      if g: "counted k g" "prefix (sg_hash g) ?W" "sg_staged g = cm_offset x" for g
    proof -
      have l: "length (sg_hash g) = unat (cm_offset x)"
        using g unat_len [of "length (sg_hash g)"] prefix_length_le [OF g(2)] kn(3) by (simp add: counted_def)
      have "sg_hash g = take (unat (cm_offset x)) ?W" using g(2) l by (auto simp: prefix_def)
      then have "sg_hash g @ cm_data x = take (unat (cm_offset x) + length (cm_data x)) ?W"
        using x(4) by (metis take_add)
      then show ?thesis by (simp add: take_is_prefix)
    qed
    moreover have "prefix (cm_data x) ?W" if "cm_offset x = 0" using x(4) that by (metis drop0 take_is_prefix unat_0)
    ultimately show ?thesis
      using DChunk x(1,2) by (auto simp: staged_prefix_def counted_def)
  next
    case (DCommit x)
    then have x: "co_key x = k" "ws_committing ?w" "unat (co_length x) = length ?W" using kn by auto
    have "sg_hash g = ?W \<and> ?W \<noteq> []"
      if g: "counted k g" "prefix (sg_hash g) ?W" "sg_staged g = co_length x" "co_length x \<noteq> 0" for g
    proof -
      have "length (sg_hash g) = length ?W"
        using g unat_len [of "length (sg_hash g)"] prefix_length_le [OF g(2)] kn(3) x(3) by (simp add: counted_def)
      moreover have "?W \<noteq> []" using x(3) g(4) by (auto simp: unat_eq_0)
      ultimately show ?thesis using g(2) by (auto simp: prefix_def)
    qed
    then show ?thesis using DCommit x by (auto simp: staged_prefix_def whole_def)
  qed (use assms(3) in \<open>auto simp: data_or_commit_def\<close>)
qed

lemma deliver_admissible:
  assumes "transfer_inv k T" and "m \<in> set (tr_net T)" and "data_or_commit m"
  shows "admissible (node_config sha tx) (tr_rx T) m"
proof (cases m)
  case (DCommit x)
  have kn: "sent_by (tr_written T) (tr_w T) (Send [] m)" "ws_key (tr_w T) = k"
    using assms by (auto simp: transfer_inv_def data_or_commit_def split: data_message.splits)
  then have x: "co_key x = k" "unat (co_length x) = length (tr_written T)" using DCommit by auto
  have snd: "sound (staged_prefix k (tr_written T) (ws_stream (tr_w T))) (whole k (tr_written T) (ws_committing (tr_w T))) (tr_rx T)"
    using assms(1) by (auto simp: transfer_inv_def)
  have "\<not> committed (node_config sha tx) (tr_rx T) k" if "co_length x = 0"
  proof
    assume "committed (node_config sha tx) (tr_rx T) k"
    then obtain y where "whole k (tr_written T) (ws_committing (tr_w T)) k y" using sound_committed [OF snd] by metis
    then show False using x(2) that by (simp add: whole_def)
  qed
  then show ?thesis using DCommit x(1) by simp
qed (use assms(3) in \<open>auto simp: data_or_commit_def\<close>)

text \<open>The replies of the receiver are known.\<close>

lemma replies_known:
  assumes "sound P Q s" and "sv_disk s = [d]" and "dispatch (node_config sha tx) s from' m = Inr (s', os)" and "data_or_commit m"
    and "sv_disk s' \<noteq> []"
  shows "\<forall>r \<in> set (sends os). known W w (hd (sv_disk s')) r"
proof
  fix r assume "r \<in> set (sends os)"
  then obtain to where to: "Send to r \<in> set os" unfolding sends_set ..
  have "\<exists>a. r = DWriteAck a"
    using to assms(3,4)
    by (cases m)
      (auto simp: data_or_commit_def handleChunk_def handleCommit_def first_chunk_def abandon_def ack_def Let_def
        split: if_splits option.splits prod.splits)
  then obtain a where a: "r = DWriteAck a" ..
  have "wa_committed a \<Longrightarrow> marked (hd (sv_disk s')) (wa_key a)"
    using to a assms(3,4) handleCommit_marked [OF assms(1,2)] handleChunk_marked [OF assms(1,2)] assms(2)
    by (cases m) (fastforce simp: data_or_commit_def)+
  then show "known W w (hd (sv_disk s')) r" using a by auto
qed

lemma receive_step:
  assumes "transfer_inv k T" and "admissible (node_config sha tx) (tr_rx T) m" and "\<And>x. m = DDelete x \<Longrightarrow> de_key x \<noteq> k"
    and "upholds (staged_prefix k (tr_written T) (ws_stream (tr_w T))) (whole k (tr_written T) (ws_committing (tr_w T))) sha m"
    and "dispatch (node_config sha tx) (tr_rx T) from' m = Inr (s, os)"
  shows "\<forall>r \<in> set ms. known (tr_written T) (tr_w T) (hd (sv_disk s)) r \<Longrightarrow> transfer_inv k (T\<lparr>tr_rx := settle s, tr_net := tr_net T @ ms\<rparr>)"
    "d \<in> set (sv_disk s) \<Longrightarrow> transfer_inv k (T\<lparr>tr_rx := Service_New [disk_crash d rng]\<rparr>)"
proof -
  let ?P = "staged_prefix k (tr_written T) (ws_stream (tr_w T))" and ?Q = "whole k (tr_written T) (ws_committing (tr_w T))"
  obtain e where e: "sv_disk (tr_rx T) = [e]" "sound ?P ?Q (tr_rx T)" using assms(1) by (auto simp: transfer_inv_def)
  have s: "sound ?P ?Q s" by (rule dispatch_sound [OF e(2) assms(2,4,5)])
  then have ne: "sv_disk s \<noteq> []" by (simp add: sound_def)
  have m: "marked d k" if "marked e k" "d \<in> set (sv_disk s)" for d
    by (rule marked_kept [OF e(2,1) that(1) assms(2) _ assms(5) that(2)]) (rule assms(3))
  show "transfer_inv k (T\<lparr>tr_rx := settle s, tr_net := tr_net T @ ms\<rparr>)"
    if "\<forall>r \<in> set ms. known (tr_written T) (tr_w T) (hd (sv_disk s)) r"
    by (rule receiver_inv [OF assms(1), where d' = "hd (sv_disk s)"])
      (use that m ne e(1) settle_sound [OF s] in \<open>auto simp: settle_def\<close>)
  show "transfer_inv k (T\<lparr>tr_rx := Service_New [disk_crash d rng]\<rparr>)" if d: "d \<in> set (sv_disk s)"
  proof -
    have "transfer_inv k (T\<lparr>tr_rx := Service_New [disk_crash d rng], tr_net := tr_net T @ []\<rparr>)"
    proof (rule receiver_inv [OF assms(1)])
      show "sv_disk (Service_New [disk_crash d rng]) = [disk_crash d rng]" by (simp add: Service_New_def)
      show "sound ?P ?Q (Service_New [disk_crash d rng])" by (rule restart_sound [OF sound_at [OF s d]])
      show "marked (disk_crash d rng) k" if "sv_disk (tr_rx T) = [d0]" "marked d0 k" for d0
        using that e(1) m [OF _ d] marked_crash by auto
    qed simp
    then show ?thesis by simp
  qed
qed

lemma upholds_other:
  "about m \<noteq> Some k \<Longrightarrow> upholds (staged_prefix k W sid) (whole k W com) sha m"
  by (cases m) (auto simp: staged_prefix_def whole_def)

lemma transfer_unchanged: "T\<lparr>tr_rx := s\<rparr> = T\<lparr>tr_rx := s, tr_net := tr_net T @ []\<rparr>"
  by simp

lemma node_run_single: "node_run c s H \<Longrightarrow> \<exists>d. sv_disk s = [d]"
  by (induction rule: node_run.induct) (simp_all add: Service_New_def settle_def)

lemma start_inv:
  assumes "node_run (node_config sha tx) s H" and "fmlookup (sv_staging s) k = None" and "\<not> committed (node_config sha tx) s k"
    and "NewWrite s0 to k ow dn = Some (s1, w)"
  shows "transfer_inv k \<lparr>tr_rx = s, tr_w = w, tr_net = [], tr_written = [], tr_events = []\<rparr>"
proof -
  obtain d where d: "sv_disk s = [d]" using node_run_single [OF assms(1)] by blast
  have s: "sound counted (vouched sha H) s" by (rule node_run_sound [OF assms(1)])
  have st: "staging_sound counted d (sv_staging s)" "shards_sound (vouched sha H) d" using s d by (auto simp: sound_def)
  have np: "\<not> possible d (marker_of k)"
    using possible_clean [OF staging_soundD(1) [OF st(1)]] committed_iff [OF d staging_soundD(1) [OF st(1)]] assms(3) by blast
  have "sound (staged_prefix k [] (ws_stream w)) (whole k [] (ws_committing w)) s"
    using st assms(2) np d by (fastforce simp: sound_def staging_sound_def shards_sound_def staged_prefix_def whole_def)
  moreover have "stream_inv [] w" "ws_key w = k"
    using assms(4) by (auto simp: NewWrite_def Let_def ws_rearm_def stream_inv_def stream_ok_def ws_len_def split: if_splits)
  ultimately show ?thesis using d by (simp add: transfer_inv_def)
qed

lemma transfer_run_inv: "transfer_run (node_config sha tx) k T \<Longrightarrow> transfer_inv k T"
proof (induction rule: transfer_run.induct)
  case (start s H s0 to onWindow done' s1 w)
  then show ?case by (rule start_inv)
next
  case (wrote T p w os)
  have "stream_inv (tr_written T) (tr_w T)" using wrote.IH by (simp add: transfer_inv_def)
  from Write_advances [OF this wrote.hyps(2-4)] show ?case using sender_inv [OF wrote.IH, of "tr_written T @ p"] by simp
next
  case (committing T len ck w os)
  have "stream_inv (tr_written T) (tr_w T)" using committing.IH by (simp add: transfer_inv_def)
  from Commit_advances [OF this committing.hyps(2)] sender_inv [OF committing.IH, of "tr_written T"]
  show ?case by (simp add: sender_def)
next
  case (aborted T w os)
  have "stream_inv (tr_written T) (tr_w T)" using aborted.IH by (simp add: transfer_inv_def)
  from Abort_advances [OF this aborted.hyps(2)] sender_inv [OF aborted.IH, of "tr_written T"]
  show ?case by (simp add: sender_def)
next
  case (fired T w os)
  have "stream_inv (tr_written T) (tr_w T)" using fired.IH by (simp add: transfer_inv_def)
  from fire_advances [OF this fired.hyps(2)] sender_inv [OF fired.IH, of "tr_written T"]
  show ?case by (simp add: sender_def)
next
  case (acked T m w os)
  obtain d where i: "stream_inv (tr_written T) (tr_w T)" "ws_key (tr_w T) = k" "sv_disk (tr_rx T) = [d]"
      "\<forall>m \<in> set (tr_net T). known (tr_written T) (tr_w T) d m"
    using acked.IH by (auto simp: transfer_inv_def)
  from ack_advances [OF i(1) acked.hyps(4)] show ?case
  proof
    assume "advances (tr_written T) (tr_w T) w os"
    from sender_inv [OF acked.IH this] show ?thesis by (simp add: sender_def)
  next
    assume f: "wa_committed m \<and> (w, os) = ws_finish (tr_w T) None"
    then have "marked d k" using i(2,4) acked.hyps(2,3) by fastforce
    moreover have "known (tr_written T) (tr_w T) d x \<Longrightarrow> known (tr_written T) w d x" for x
      using f by (cases x) (auto simp: ws_finish_def)
    ultimately show ?thesis using acked.IH i f by (auto simp: transfer_inv_def sender_def ws_finish_def stream_inv_def split: if_splits)
  qed
next
  case (deliver T m from' s os)
  note a = deliver_admissible [OF deliver.IH deliver.hyps(2,3)] and u = deliver_upholds [OF deliver.IH deliver.hyps(2,3)]
  obtain d where d: "sv_disk (tr_rx T) = [d]"
    "sound (staged_prefix k (tr_written T) (ws_stream (tr_w T))) (whole k (tr_written T) (ws_committing (tr_w T))) (tr_rx T)"
    using deliver.IH by (auto simp: transfer_inv_def)
  have "sv_disk s \<noteq> []" using dispatch_sound [OF d(2) a u deliver.hyps(4)] by (simp add: sound_def)
  from replies_known [OF d(2,1) deliver.hyps(4,3) this] show ?case
    by (intro receive_step(1) [OF deliver.IH a _ u deliver.hyps(4)]) (use deliver.hyps(3) in \<open>auto simp: data_or_commit_def\<close>)
next
  case (deliver_crash T m from' s os d rng)
  show ?case
    by (rule receive_step(2) [OF deliver_crash.IH deliver_admissible [OF deliver_crash.IH deliver_crash.hyps(2,3)] _
          deliver_upholds [OF deliver_crash.IH deliver_crash.hyps(2,3)] deliver_crash.hyps(4,5)])
      (use deliver_crash.hyps(3) in \<open>auto simp: data_or_commit_def\<close>)
next
  case (other T m from' s os)
  show ?case
    by (subst transfer_unchanged, rule receive_step(1) [OF other.IH other.hyps(3) _ upholds_other [OF other.hyps(2)] other.hyps(4)])
      (use other.hyps(2) in auto)
next
  case (other_crash T m from' s os d rng)
  show ?case
    by (rule receive_step(2) [OF other_crash.IH other_crash.hyps(3) _ upholds_other [OF other_crash.hyps(2)] other_crash.hyps(4,5)])
      (use other_crash.hyps(2) in auto)
next
  case (request T s)
  show ?case using request.IH request.hyps(2,3) by (auto simp: transfer_inv_def intro: sound_cong)
qed

end
