(* ===== verification/Datapath_Stream.thy ===== *)
theory Datapath_Stream
  imports Datapath_Transfer
begin

text \<open>
  The life of a write stream, whatever its peer answers: it never panics on a message or a timer, it
  buffers no more than its window, it always has a timer pending until it ends, it reports its outcome exactly
  once, and a peer that stays silent ends it after a bounded number of timer firings.
\<close>

section \<open>Runs of a stream\<close>

text \<open>
  The caller keeps to the interface: it writes what the window allows and commits once, with the length it wrote.
  Acknowledgements are any messages at all.
\<close>

inductive stream_run :: "WriteStream \<Rightarrow> bytes \<Rightarrow> out list \<Rightarrow> bool" where
  opened: "stream_run w [] []"
    if "NewWrite (s :: unit Service) to k onWindow True = Some (s', w)"
| wrote: "stream_run w' (W @ p) (os @ os')"
    if "stream_run w W os" and "\<not> ws_committing w" and "int (length p) \<le> Window w" and "length (W @ p) < 2 ^ 63"
      and "ws_Write w p = Some (w', os')"
| committed: "stream_run w' W (os @ os')"
    if "stream_run w W os" and "\<not> ws_committing w" and "ws_Commit w (word_of_nat (length W)) ck = Some (w', os')"
| acked: "stream_run w' W (os @ os')" if "stream_run w W os" and "ws_handleAck w m = Some (w', os')"
| aborted: "stream_run w' W (os @ os')" if "stream_run w W os" and "ws_Abort w = (w', os')"
| fired: "stream_run w' W (os @ os')" if "stream_run w W os" and "ws_fire w = Some (w', os')"

definition outcomes :: "out list \<Rightarrow> out list" where
  "outcomes os = filter (\<lambda>x. case x of WriteDone _ _ \<Rightarrow> True | _ \<Rightarrow> False) os"

lemma outcomes_append [simp]: "outcomes (xs @ ys) = outcomes xs @ outcomes ys" "outcomes [] = []"
  by (simp_all add: outcomes_def)

text \<open>The invariant of a run: \<open>n\<close> is the number of outcomes reported.\<close>

definition stream_good :: "bytes \<Rightarrow> WriteStream \<Rightarrow> nat \<Rightarrow> bool" where
  "stream_good W w n \<longleftrightarrow> stream_inv W w \<and> int (length (ws_buf w)) \<le> windowBytes \<and> ws_done w \<and> n = of_bool (ws_finished w) \<and>
     (ws_timer w \<longleftrightarrow> \<not> ws_finished w) \<and> (\<not> ws_finished w \<longrightarrow> ws_attempts w < maxAttempts)"

lemma pump_good:
  assumes "stream_ok W w" and "within W w" and "\<not> ws_finished w" and "int (length (ws_buf w)) \<le> windowBytes" and "ws_done w"
    and "ws_attempts w < maxAttempts"
  shows "\<exists>os. pump w = Some (w\<lparr>ws_sent := ws_base w + ws_len w\<rparr>, os) \<and> outcomes os = [] \<and>
    stream_good W (w\<lparr>ws_sent := ws_base w + ws_len w, ws_timer := True\<rparr>) 0"
proof -
  obtain os where os: "pump w = Some (w\<lparr>ws_sent := ws_base w + ws_len w\<rparr>, os)" "\<forall>x \<in> set os. sent_by W w x"
    using pump_sends [OF assms(1,2)] by blast
  have "outcomes os = []" using os(2) by (induction os) (auto simp: outcomes_def split: out.splits)
  moreover have "stream_good W (w\<lparr>ws_sent := ws_base w + ws_len w, ws_timer := True\<rparr>) 0"
    using assms by (simp add: stream_good_def stream_inv_def stream_ok_def ws_len_def)
  ultimately show ?thesis using os(1) by blast
qed

lemma timer_set: "ws_timer w \<Longrightarrow> w\<lparr>ws_timer := True\<rparr> = w"
  by simp

lemma stream_goodD:
  assumes "stream_good W w n" and "\<not> ws_finished w"
  shows "n = 0" "int (length (ws_buf w)) \<le> windowBytes" "ws_done w" "ws_timer w" "ws_attempts w < maxAttempts"
  using assms by (simp_all add: stream_good_def)

lemma good_ok: "stream_good W w n \<Longrightarrow> \<not> ws_finished w \<Longrightarrow> stream_ok W w \<and> within W w \<and> ws_sent w = ws_base w + ws_len w"
  using stream_inv_within [of W w] by (auto simp: stream_good_def stream_inv_def)

lemma finish_good: "stream_good W w n \<Longrightarrow> \<not> ws_finished w \<Longrightarrow> ws_finish w r = (w', os) \<Longrightarrow> stream_good W w' (n + length (outcomes os))"
  by (auto simp: ws_finish_def stream_good_def stream_inv_def outcomes_def)

lemma Write_good:
  assumes "stream_good W w n" and "\<not> ws_committing w" and "int (length p) \<le> Window w" and "length (W @ p) < 2 ^ 63"
  shows "\<exists>w' os. ws_Write w p = Some (w', os) \<and> stream_good (W @ p) w' (n + length (outcomes os))"
proof (cases "ws_finished w")
  case False
  let ?w = "w\<lparr>ws_buf := ws_buf w @ p\<rparr>"
  note g = good_ok [OF assms(1) False]
  have ok: "stream_ok (W @ p) ?w" "within (W @ p) ?w" using g assms(2,4) by (auto simp: stream_ok_def within_def)
  note d = stream_goodD [OF assms(1) False]
  have "int (length (ws_buf ?w)) \<le> windowBytes" using assms(3) False by (simp add: Window_def)
  then obtain os where "pump ?w = Some (?w\<lparr>ws_sent := ws_base ?w + ws_len ?w\<rparr>, os)" "outcomes os = []"
      "stream_good (W @ p) (?w\<lparr>ws_sent := ws_base ?w + ws_len ?w, ws_timer := True\<rparr>) 0"
    using pump_good [OF ok] False d by auto
  then show ?thesis using assms(2,3) False d by (simp add: ws_Write_def timer_set)
next
  case True
  then have "p = []" using assms(3) by (simp add: Window_def)
  then show ?thesis using True assms(1) by (simp add: ws_Write_def)
qed

lemma Commit_good:
  assumes "stream_good W w n" and "\<not> ws_committing w"
  shows "\<exists>w' os. ws_Commit w (word_of_nat (length W)) ck = Some (w', os) \<and> stream_good W w' (n + length (outcomes os))"
proof (cases "ws_finished w")
  case False
  let ?w = "w\<lparr>ws_committing := True, ws_length := word_of_nat (length W), ws_checksum := ck\<rparr>"
  note g = good_ok [OF assms(1) False]
  have l: "word_of_nat (length W) = ws_base w + ws_len w"
    using stream_positions(2) [of W w] g by (auto simp: word_unat_eq_iff unat_of_nat stream_ok_def)
  have ok: "stream_ok W ?w" "within W ?w" using g stream_positions(2) [of W w] by (auto simp: stream_ok_def within_def l)
  note d = stream_goodD [OF assms(1) False]
  obtain os where "pump ?w = Some (?w\<lparr>ws_sent := ws_base ?w + ws_len ?w\<rparr>, os)" "outcomes os = []"
      "stream_good W (?w\<lparr>ws_sent := ws_base ?w + ws_len ?w, ws_timer := True\<rparr>) 0"
    using pump_good [OF ok] False d by auto
  then show ?thesis using assms(2) False d l by (simp add: ws_Commit_def timer_set)
qed (use assms(1) in \<open>simp add: ws_Commit_def\<close>)

lemma ack_good:
  assumes "stream_good W w n"
  shows "\<exists>w' os. ws_handleAck w m = Some (w', os) \<and> stream_good W w' (n + length (outcomes os))"
proof -
  have finish: "\<exists>w' os. ws_handleAck w m = Some (w', os) \<and> stream_good W w' (n + length (outcomes os))"
    if "\<not> ws_finished w" "ws_handleAck w m = Some (ws_finish w r)" for r
    using that(2) finish_good [OF assms that(1)] by (cases "ws_finish w r") simp
  consider (ignored) "ws_finished w \<or> wa_stream m \<noteq> ws_stream w"
    | (error) "\<not> ws_finished w" "wa_stream m = ws_stream w" "wa_errMsg m \<noteq> []"
    | (finished) "\<not> ws_finished w" "wa_stream m = ws_stream w" "wa_errMsg m = []" "wa_committed m"
    | (over) "\<not> ws_finished w" "wa_stream m = ws_stream w" "wa_errMsg m = []" "\<not> wa_committed m" "ws_base w + ws_len w < wa_staged m"
    | (progress) "\<not> ws_finished w" "wa_stream m = ws_stream w" "wa_errMsg m = []" "\<not> wa_committed m" "\<not> ws_base w + ws_len w < wa_staged m" "ws_base w < wa_staged m"
    | (stale) "\<not> ws_finished w" "wa_stream m = ws_stream w" "wa_errMsg m = []" "\<not> wa_committed m" "\<not> ws_base w + ws_len w < wa_staged m" "\<not> ws_base w < wa_staged m"
    by blast
  then show ?thesis
  proof cases
    case ignored
    then show ?thesis using assms by (auto simp: ws_handleAck_def)
  next
    case error
    then show ?thesis by (intro finish) (auto simp: ws_handleAck_def)
  next
    case finished
    then show ?thesis by (intro finish) (auto simp: ws_handleAck_def)
  next
    case over
    then show ?thesis by (intro finish) (auto simp: ws_handleAck_def)
  next
    case progress
    let ?d = "unat (wa_staged m - ws_base w)"
    let ?w = "ws_rearm (w\<lparr>ws_buf := drop ?d (ws_buf w), ws_base := wa_staged m, ws_attempts := 0\<rparr>)"
    note g = good_ok [OF assms progress(1)] and p = stream_positions [OF conjunct1 [OF good_ok [OF assms progress(1)]]]
    have st: "unat (ws_base w) < unat (wa_staged m)" "unat (wa_staged m) \<le> length W"
      using progress(5,6) p(2) by (simp_all add: word_less_nat_alt)
    have d: "?d = unat (wa_staged m) - unat (ws_base w)" using st(1) by (simp add: unat_sub word_le_nat_alt)
    have ok: "stream_ok W ?w" "within W ?w" using g st d p(2) by (auto simp: stream_ok_def within_def ws_rearm_def)
    note gd = stream_goodD [OF assms progress(1)]
    have "int (length (ws_buf ?w)) \<le> windowBytes" using gd(2) by (simp add: ws_rearm_def)
    then obtain os where os: "pump ?w = Some (?w\<lparr>ws_sent := ws_base ?w + ws_len ?w\<rparr>, os)" "outcomes os = []"
        "stream_good W (?w\<lparr>ws_sent := ws_base ?w + ws_len ?w, ws_timer := True\<rparr>) 0"
      using pump_good [OF ok] progress(1) gd by (auto simp: ws_rearm_def maxAttempts_def)
    have nd: "\<not> length (ws_buf w) < ?d" using p(3) d st by simp
    have window: "outcomes [WindowOpen wk] = []" for wk by (simp add: outcomes_def)
    have "ws_timer (?w\<lparr>ws_sent := ws_base ?w + ws_len ?w\<rparr>)" by (simp add: ws_rearm_def)
    from os(3) [unfolded timer_set [OF this]] have "stream_good W (?w\<lparr>ws_sent := ws_base ?w + ws_len ?w\<rparr>) 0" .
    then show ?thesis using progress os(1,2) nd gd(1) window by (simp add: ws_handleAck_def Let_def)
  next
    case stale
    then show ?thesis using assms by (simp add: ws_handleAck_def)
  qed
qed

lemma Abort_good: "stream_good W w n \<Longrightarrow> ws_Abort w = (w', os) \<Longrightarrow> stream_good W w' (n + length (outcomes os))"
  using finish_good [of W w n] by (auto simp: ws_Abort_def split: if_splits)

text \<open>A firing either ends the stream, or, when an answer is owed, counts one more attempt.\<close>

lemma fire_good:
  assumes "stream_good W w n"
  shows "\<exists>w' os. ws_fire w = Some (w', os) \<and> stream_good W w' (n + length (outcomes os)) \<and>
    (\<not> ws_finished w \<and> (ws_buf w \<noteq> [] \<or> ws_committing w) \<longrightarrow>
       (if Suc (ws_attempts w) = maxAttempts then ws_finished w' \<and> os = [WriteDone (ws_to w, ws_key w) (Some Unreachable)]
        else \<not> ws_finished w' \<and> ws_attempts w' = Suc (ws_attempts w) \<and> ws_buf w' = ws_buf w \<and> ws_committing w' = ws_committing w \<and>
             ws_to w' = ws_to w \<and> ws_key w' = ws_key w))"
proof (cases "ws_finished w \<or> ws_buf w = [] \<and> \<not> ws_committing w")
  case True
  then show ?thesis
    using assms by (auto simp: ws_fire_def ws_onTimer_def stream_good_def stream_inv_def stream_ok_def ws_len_def ws_rearm_def)
next
  case False
  let ?w = "w\<lparr>ws_timer := False, ws_attempts := ws_attempts w + 1, ws_sent := ws_base w\<rparr>"
  have nf: "\<not> ws_finished w" "ws_timer w" "ws_attempts w < maxAttempts" "ws_done w" using False assms by (auto simp: stream_good_def)
  note g = good_ok [OF assms nf(1)]
  have ok: "stream_ok W ?w" "within W ?w" using g by (auto simp: stream_ok_def within_def)
  have gd: "n = 0" "int (length (ws_buf w)) \<le> windowBytes" using stream_goodD [OF assms nf(1)] by simp_all
  show ?thesis
  proof (cases "Suc (ws_attempts w) = maxAttempts")
    case True
    then show ?thesis
      using False nf assms by (auto simp: ws_fire_def ws_onTimer_def ws_finish_def stream_good_def stream_inv_def outcomes_def)
  next
    case more: False
    then have "ws_attempts ?w < maxAttempts" using nf(3) by simp
    then obtain os where os: "pump ?w = Some (?w\<lparr>ws_sent := ws_base ?w + ws_len ?w\<rparr>, os)" "outcomes os = []"
        "stream_good W (?w\<lparr>ws_sent := ws_base ?w + ws_len ?w, ws_timer := True\<rparr>) 0"
      using pump_good [OF ok] nf gd by auto
    then show ?thesis using False nf more gd by (auto simp: ws_fire_def ws_onTimer_def Let_def ws_rearm_def)
  qed
qed

lemma stream_run_good: "stream_run w W os \<Longrightarrow> stream_good W w (length (outcomes os))"
proof (induction rule: stream_run.induct)
  case (opened s to k onWindow s' w)
  then show ?case
    by (auto simp: NewWrite_def Let_def ws_rearm_def stream_good_def stream_inv_def stream_ok_def ws_len_def maxAttempts_def windowBytes_def split: if_splits)
next
  case (wrote w W os p w' os')
  from Write_good [OF wrote.IH wrote.hyps(2-4)] wrote.hyps(5) show ?case by simp
next
  case (committed w W os ck w' os')
  from Commit_good [OF committed.IH committed.hyps(2), of ck] committed.hyps(3) show ?case by simp
next
  case (acked w W os m w' os')
  from ack_good [OF acked.IH, of m] acked.hyps(2) show ?case by simp
next
  case (aborted w W os w' os')
  from Abort_good [OF aborted.IH aborted.hyps(2)] show ?case by simp
next
  case (fired w W os w' os')
  from fire_good [OF fired.IH] fired.hyps(2) show ?case by auto
qed

section \<open>A silent peer\<close>

text \<open>The timer fires \<open>n\<close> times with no message in between.\<close>

fun silence :: "nat \<Rightarrow> WriteStream \<Rightarrow> (WriteStream \<times> out list) option" where
  "silence 0 w = Some (w, [])"
| "silence (Suc n) w =
     (case ws_fire w of
        None \<Rightarrow> None
      | Some (w, os) \<Rightarrow> (case silence n w of None \<Rightarrow> None | Some (w, os') \<Rightarrow> Some (w, os @ os')))"

lemma silence_ends:
  assumes "stream_good W w n" and "\<not> ws_finished w" and "ws_buf w \<noteq> [] \<or> ws_committing w"
  shows "\<exists>w' os. silence (maxAttempts - ws_attempts w) w = Some (w', os @ [WriteDone (ws_to w, ws_key w) (Some Unreachable)]) \<and> ws_finished w'"
  using assms
proof (induction "maxAttempts - ws_attempts w" arbitrary: w n)
  case 0
  then show ?case by (simp add: stream_good_def)
next
  case (Suc k)
  obtain w1 os1 where f: "ws_fire w = Some (w1, os1)" "stream_good W w1 (n + length (outcomes os1))"
      and c: "if Suc (ws_attempts w) = maxAttempts then ws_finished w1 \<and> os1 = [WriteDone (ws_to w, ws_key w) (Some Unreachable)]
        else \<not> ws_finished w1 \<and> ws_attempts w1 = Suc (ws_attempts w) \<and> ws_buf w1 = ws_buf w \<and> ws_committing w1 = ws_committing w \<and>
             ws_to w1 = ws_to w \<and> ws_key w1 = ws_key w"
    using fire_good [OF Suc.prems(1)] Suc.prems(2,3) by blast
  show ?case
  proof (cases "Suc (ws_attempts w) = maxAttempts")
    case True
    then have "maxAttempts - ws_attempts w = Suc 0" by simp
    then show ?thesis using c True f(1) by (auto intro!: exI [of _ w1] exI [of _ "[]"])
  next
    case False
    then have c': "\<not> ws_finished w1" "ws_attempts w1 = Suc (ws_attempts w)" "ws_buf w1 \<noteq> [] \<or> ws_committing w1"
        "ws_to w1 = ws_to w" "ws_key w1 = ws_key w"
      using c Suc.prems(3) by auto
    have k: "k = maxAttempts - ws_attempts w1" using Suc.hyps(2) c'(2) by simp
    obtain w' os where "silence (maxAttempts - ws_attempts w1) w1 = Some (w', os @ [WriteDone (ws_to w1, ws_key w1) (Some Unreachable)])" "ws_finished w'"
      using Suc.hyps(1) [OF k f(2) c'(1,3)] by blast
    then show ?thesis
      using f(1) c'(4,5) k Suc.hyps(2) [symmetric] by (auto intro!: exI [of _ w'] exI [of _ "os1 @ os"])
  qed
qed

section \<open>Reads, deletes and verifies end too\<close>

text \<open>A request that is answered by nobody is given up at its twentieth firing, with one report.\<close>

lemma fetch_times_out:
  "fmlookup (sv_reads s) req = Some f \<Longrightarrow> Suc (pe_attempts f) = maxAttempts \<Longrightarrow>
   fetch_onTimer s req = (s\<lparr>sv_reads := fmdrop req (sv_reads s)\<rparr>, [FetchDone req (Inl Unreachable)])"
  by (simp add: fetch_onTimer_def)

fun fetch_silence :: "nat \<Rightarrow> 'd Service \<Rightarrow> u64 \<Rightarrow> 'd Service \<times> out list" where
  "fetch_silence 0 s req = (s, [])"
| "fetch_silence (Suc n) s req =
     (let (s, os) = fetch_onTimer s req; (s, os') = fetch_silence n s req in (s, os @ os'))"

lemma fetch_silence_ends:
  assumes "fmlookup (sv_reads s) req = Some f" and "pe_attempts f + n = maxAttempts" and "0 < n"
  shows "\<exists>os. snd (fetch_silence n s req) = os @ [FetchDone req (Inl Unreachable)] \<and>
    fmlookup (sv_reads (fst (fetch_silence n s req))) req = None \<and> (\<forall>x \<in> set os. x = Send (pe_to f) (pe_msg f))"
  using assms
proof (induction n arbitrary: s f)
  case (Suc n)
  show ?case
  proof (cases n)
    case 0
    then show ?thesis using Suc.prems fetch_times_out [OF Suc.prems(1)] by simp
  next
    case (Suc k)
    let ?f = "f\<lparr>pe_attempts := pe_attempts f + 1, pe_timer := True\<rparr>"
    have t: "fetch_onTimer s req = (s\<lparr>sv_reads := fmupd req ?f (sv_reads s)\<rparr>, [Send (pe_to f) (pe_msg f)])"
      using Suc.prems Suc by (simp add: fetch_onTimer_def)
    have "fmlookup (sv_reads (s\<lparr>sv_reads := fmupd req ?f (sv_reads s)\<rparr>)) req = Some ?f" by simp
    from Suc.IH [OF this] Suc.prems(2) Suc t show ?thesis by (auto simp: case_prod_beta Let_def)
  qed
qed simp

end
