(* ===== verification/Datapath_Properties.thy ===== *)
theory Datapath_Properties
  imports Datapath_Codec Datapath_Delivery Datapath_Stream
begin

text \<open>
  What the data channel promises: messages are read back as sent, a commit marker vouches for the bytes beside
  it, a transfer that reports success has delivered, and a stream always comes to an end. Three theorems show where the
  promise of the marker does not hold.
\<close>

section \<open>Runs by computation\<close>

text \<open>One move of a transfer, with the network addressed by position.\<close>

datatype move = MWrite bytes | MCommit bytes | MDeliver nat | MAck nat

fun play :: "disk list Config \<Rightarrow> shardKey \<Rightarrow> move \<Rightarrow> transfer \<Rightarrow> transfer option" where
  "play c k (MWrite p) T =
     (if ws_finished (tr_w T) \<or> 1000 < int (length (tr_written T @ p)) then None
      else map_option (\<lambda>(w, os). (sender T w os)\<lparr>tr_written := tr_written T @ p\<rparr>) (ws_Write (tr_w T) p))"
| "play c k (MCommit ck) T =
     map_option (\<lambda>(w, os). sender T w os) (ws_Commit (tr_w T) (word_of_nat (length (tr_written T))) ck)"
| "play c k (MDeliver i) T =
     (if i < length (tr_net T) \<and> data_or_commit (tr_net T ! i)
      then case dispatch c (tr_rx T) [1] (tr_net T ! i) of
             Inl _ \<Rightarrow> None
           | Inr (s, os) \<Rightarrow> Some (T\<lparr>tr_rx := settle s, tr_net := tr_net T @ sends os\<rparr>)
      else None)"
| "play c k (MAck i) T =
     (if i < length (tr_net T)
      then case tr_net T ! i of
             DWriteAck m \<Rightarrow> if wa_key m = k then map_option (\<lambda>(w, os). sender T w os) (ws_handleAck (tr_w T) m) else None
           | _ \<Rightarrow> None
      else None)"

lemma play_run:
  assumes "transfer_run c k T" and "play c k mv T = Some T'"
  shows "transfer_run c k T'"
proof (cases mv)
  case (MWrite p)
  then obtain w os where "\<not> ws_finished (tr_w T)" "length (tr_written T @ p) < 2 ^ 63" "ws_Write (tr_w T) p = Some (w, os)"
      "T' = (sender T w os)\<lparr>tr_written := tr_written T @ p\<rparr>"
    using assms(2) by (auto split: if_splits)
  then show ?thesis using transfer_run.wrote [OF assms(1)] by blast
next
  case (MCommit ck)
  then show ?thesis using assms transfer_run.committing by auto
next
  case (MDeliver i)
  then obtain s os where "tr_net T ! i \<in> set (tr_net T)" "data_or_commit (tr_net T ! i)" "dispatch c (tr_rx T) [1] (tr_net T ! i) = Inr (s, os)"
      "T' = T\<lparr>tr_rx := settle s, tr_net := tr_net T @ sends os\<rparr>"
    using assms(2) by (auto split: if_splits sum.splits)
  then show ?thesis using transfer_run.deliver [OF assms(1)] by blast
next
  case (MAck i)
  then obtain m w os where "DWriteAck m \<in> set (tr_net T)" "wa_key m = k" "ws_handleAck (tr_w T) m = Some (w, os)" "T' = sender T w os"
    using assms(2) by (auto split: if_splits data_message.splits) (metis nth_mem)
  then show ?thesis using transfer_run.acked [OF assms(1)] by blast
qed

fun play_all :: "disk list Config \<Rightarrow> shardKey \<Rightarrow> move list \<Rightarrow> transfer \<Rightarrow> transfer option" where
  "play_all c k [] T = Some T"
| "play_all c k (mv # mvs) T = Option.bind (play c k mv T) (play_all c k mvs)"

lemma play_all_run: "transfer_run c k T \<Longrightarrow> play_all c k mvs T = Some T' \<Longrightarrow> transfer_run c k T'"
  by (induction mvs arbitrary: T) (auto simp: bind_eq_Some_conv intro: play_run)

text \<open>A node that takes a list of messages.\<close>

fun receive_all :: "disk list Config \<Rightarrow> data_message list \<Rightarrow> disk list Service \<Rightarrow> commitMsg list \<Rightarrow> (disk list Service \<times> commitMsg list) option" where
  "receive_all c [] s H = Some (s, H)"
| "receive_all c (m # ms) s H =
     (if admissible c s m
      then case dispatch c s [1] m of Inl _ \<Rightarrow> None | Inr (s, os) \<Rightarrow> receive_all c ms (settle s) (seen m H)
      else None)"

lemma receive_all_run: "node_run c s H \<Longrightarrow> receive_all c ms s H = Some (s', H') \<Longrightarrow> node_run c s' H'"
  by (induction ms arbitrary: s H) (auto split: if_splits sum.splits intro: node_run.message)

text \<open>The examples use the identity as checksum, a one-byte error text and one shard.\<close>

definition demo_config :: "disk list Config" where
  "demo_config = node_config (\<lambda>x. x) (\<lambda>_. [33])"

definition demo_start :: transfer where
  "demo_start = \<lparr>tr_rx = Service_New [newDisk], tr_w = snd (the (NewWrite (Service_New [newDisk]) [1] zeroKey False True)),
     tr_net = [], tr_written = [], tr_events = []\<rparr>"

definition demo_moves :: "move list" where
  "demo_moves = [MWrite [7, 8], MCommit [7, 8], MDeliver 0, MDeliver 1, MAck 3]"

definition demo_chunk :: chunkMsg where
  "demo_chunk = \<lparr>cm_key = zeroKey, cm_offset = 0, cm_data = [7, 8], cm_stream = 1\<rparr>"

definition demo_commit :: commitMsg where
  "demo_commit = \<lparr>co_key = zeroKey, co_length = 2, co_checksum = [7, 8], co_stream = 1\<rparr>"

lemma demo_started: "transfer_run demo_config zeroKey demo_start"
proof -
  let ?r = "NewWrite (Service_New [newDisk] :: disk list Service) [1] zeroKey False True"
  have "?r \<noteq> None" by (simp add: NewWrite_def Service_New_def Let_def)
  then have "?r = Some (fst (the ?r), snd (the ?r))" by auto
  then show ?thesis
    unfolding demo_start_def demo_config_def
    by (rule start [OF boot, rotated 2]) (simp_all add: Service_New_def committed_def node_config_def journal_def sim_disk_def
        disk_ReadFileAt_def newDisk_def i64_less_def)
qed

lemma demo_transfer: "map_option tr_events (play_all demo_config zeroKey demo_moves demo_start) =
    Some [Send [1] (DChunk demo_chunk), Send [1] (DCommit demo_commit), WriteDone ([1], zeroKey) None]"
  by code_simp

lemma demo_received: "map_option (\<lambda>(s, H). committed demo_config s zeroKey)
    (receive_all demo_config [DChunk demo_chunk, DCommit demo_commit] (Service_New [newDisk]) []) = Some True"
  by code_simp

section \<open>Messages\<close>

text \<open>
  C32: A message of the data channel is read back as it was sent. For all nine commands, whatever wire library keeps its
  documented promises, the channel envelope gives the payload back under its channel, and \<^verbatim>\<open>HandleData\<close> on the payload does what
  the handler of the message does; no byte string at all makes the decoders hang.
\<close>

theorem data_message_roundtrip:
  assumes "wire pw" and "sized_data pw m"
  shows "Unwrap pw (Wrap pw ChannelData (encode_data pw m)) = Some (Inr (ChannelData, encode_data pw m)) \<and>
    HandleData pw c s from' (encode_data pw m) = dispatch c s from' m \<and>
    HandleData pw c s from' junk \<noteq> Inl Hang \<and> Unwrap pw junk \<noteq> None"
proof -
  have "go_sized (encode_data pw m)" using assms(2) by (simp add: sized_data_def)
  then have "Unwrap pw (Wrap pw ChannelData (encode_data pw m)) = Some (Inr (ChannelData, encode_data pw m))"
    using wire.Unwrap_Wrap [OF assms(1)] wire.encode_data_nonempty [OF assms(1)] by blast
  moreover have "HandleData pw c s from' (encode_data pw m) = dispatch c s from' m"
    by (simp add: HandleData_def wire.decode_encode_data [OF assms])
  moreover obtain r where "decode_data pw junk = Some r" using wire.decode_data_returns(1) [OF assms(1)] by blast
  then have "HandleData pw c s from' junk \<noteq> Inl Hang"
  proof (cases r)
    case (Inr x)
    have "dispatch c s from' x \<noteq> Inl Hang" by (cases x) (auto split: option.splits)
    then show ?thesis using \<open>decode_data pw junk = Some r\<close> Inr by (simp add: HandleData_def)
  qed (simp add: HandleData_def)
  moreover have "Unwrap pw junk \<noteq> None" using wire.decode_data_returns(2) [OF assms(1), of junk] by auto
  ultimately show ?thesis by blast
qed

lemma demo_sized: "sized_data ref_wire (DChunk demo_chunk)"
  by code_simp

theorem data_message_roundtrip_witness:
  "Unwrap ref_wire (Wrap ref_wire ChannelData (encode_data ref_wire (DChunk demo_chunk))) =
     Some (Inr (ChannelData, encode_data ref_wire (DChunk demo_chunk))) \<and>
   HandleData ref_wire demo_config (Service_New [newDisk]) [1] (encode_data ref_wire (DChunk demo_chunk)) =
     dispatch demo_config (Service_New [newDisk]) [1] (DChunk demo_chunk)"
  using data_message_roundtrip [OF ref.wire_axioms demo_sized] by blast

section \<open>The commit marker\<close>

text \<open>
  C13: A commit marker proves the shard, in the runs that contain no commit of length zero for a shard that is already committed and no
  delete of a shard that is being staged. (The handlers accept both, and each breaks the claim, as the section on where the marker lies
  shows.) In such a run, over any other messages from any peers in any order and with crashes at any point of any handler, a shard whose
  marker is present is on disk with nothing staged over it: it reads back the same bytes now and after any crash, and their length and
  checksum are those of a commit message the node received.
\<close>

theorem marker_proves_shard:
  assumes "node_run (node_config sha tx) s H" and "committed (node_config sha tx) s k"
  shows "\<exists>x m. m \<in> set H \<and> co_key m = k \<and> unat (co_length m) = length x mod 2 ^ 64 \<and> co_checksum m = sha x \<and>
    disk_ReadFile (hd (sv_disk s)) (ShardFileName k) = Inr x \<and>
    disk_ReadFile (disk_crash (hd (sv_disk s)) rng) (ShardFileName k) = Inr x \<and>
    committed (node_config sha tx) (Service_New [disk_crash (hd (sv_disk s)) rng]) k"
proof -
  obtain x where x: "vouched sha H k x" "disk_clean (hd (sv_disk s)) (ShardFileName k)" "disk_durable (hd (sv_disk s)) (ShardFileName k) = Some x"
    "disk_clean (hd (sv_disk s)) (marker_of k)" "disk_durable (hd (sv_disk s)) (marker_of k) \<noteq> None"
    by (rule sound_committed [OF node_run_sound [OF assms(1)] assms(2)])
  have "marked (disk_crash (hd (sv_disk s)) rng) k" using marked_crash x(4,5) by (simp add: marked_def)
  then have "committed (node_config sha tx) (Service_New [disk_crash (hd (sv_disk s)) rng]) k"
    using committed_iff [of "Service_New [disk_crash (hd (sv_disk s)) rng]"] by (simp add: marked_def Service_New_def)
  with x clean_survives [OF x(2,3)] show ?thesis by (auto simp: vouched_def)
qed

theorem marker_proves_shard_witness:
  "\<exists>s H x. node_run demo_config s H \<and> disk_ReadFile (disk_crash (hd (sv_disk s)) [1, 1]) (ShardFileName zeroKey) = Inr x"
proof -
  obtain s H where r: "receive_all demo_config [DChunk demo_chunk, DCommit demo_commit] (Service_New [newDisk]) [] = Some (s, H)"
      "committed demo_config s zeroKey"
    using demo_received by (auto simp del: receive_all.simps)
  have n: "node_run demo_config s H" by (rule receive_all_run [OF boot r(1)])
  from marker_proves_shard [OF n [unfolded demo_config_def] r(2) [unfolded demo_config_def]] n show ?thesis by blast
qed

section \<open>Where the marker lies\<close>

text \<open>
  C36: A commit of length zero destroys a committed shard. Whatever node took it, the shard file is gone, durably, while its
  marker stays: every later write of the shard is told at its first chunk that it is committed, and nothing is stored.
\<close>

theorem zero_length_commit_destroys:
  assumes "node_run (node_config sha tx) s H" and "committed (node_config sha tx) s k"
    and "handleCommit (node_config sha tx) s from' \<lparr>co_key = k, co_length = 0, co_checksum = ck, co_stream = sid\<rparr> = (s', os)"
    and "cm_key m = k"
  shows "disk_ReadFile (disk_crash (hd (sv_disk s')) rng) (ShardFileName k) = Inl ErrNotExist \<and>
    handleChunk (node_config sha tx) s' from' m = (s', [ack from' k 0 True [] (cm_stream m)])"
proof -
  let ?n = "ShardFileName k"
  obtain d where d: "sv_disk s = [d]" using node_run_single [OF assms(1)] by blast
  have snd: "sound counted (vouched sha H) s" by (rule node_run_sound [OF assms(1)])
  obtain x where "disk_clean (hd (sv_disk s)) ?n" "disk_durable (hd (sv_disk s)) ?n = Some x"
      "disk_clean (hd (sv_disk s)) (marker_of k)" "disk_durable (hd (sv_disk s)) (marker_of k) \<noteq> None"
    by (rule sound_committed [OF snd assms(2)])
  then have x: "disk_clean d ?n" "disk_durable d ?n = Some x" "disk_clean d (marker_of k)" "disk_durable d (marker_of k) \<noteq> None"
    by (simp_all add: d)
  have r: "disk_ReadFile d ?n = Inr x" using clean_survives(1) [OF x(1,2)] by simp
  have v: "ValidPath ?n" by simp
  from v obtain d1 where d1: "disk_Remove d ?n = (d1, None)" "same_but ?n d d1" "disk_ReadFile d1 ?n = Inl ErrNotExist"
    by (cases rule: remove_effect [of _ d]) (use r in auto)
  obtain d2 where d2: "disk_Sync d1 ?n = (d2, None)" "same_but ?n d1 d2" "disk_clean d2 ?n" "disk_durable d2 ?n = None"
    by (rule sync_effect [OF v, of d1]) (use d1(3) in simp_all)
  have s': "s' = s\<lparr>sv_staging := fmdrop k (sv_staging s), sv_disk := [d2, d1, d]\<rparr>"
    using assms(3) by (simp add: handleCommit_def abandon_def d d1(1) d2(1) Let_def)
  have "disk_ReadFile (disk_crash d2 rng) ?n = Inl ErrNotExist"
    using sim.crash_clean [OF d2(3), of rng] sim.read_clean [OF v] d2(4) by (simp add: sim_disk_def)
  moreover have "committed (node_config sha tx) s' k"
    using committed_iff [of s' d2 "[d1, d]" k] s' x(3,4) same_butD(1,2) [OF same_but_trans [OF d1(2) d2(2)], of "marker_of k"] by simp
  ultimately show ?thesis using assms(4) by (simp add: s' handleChunk_def Let_def)
qed

theorem zero_length_commit_destroys_witness:
  "\<exists>s' os. handleChunk demo_config s' [1] demo_chunk = (s', os) \<and>
     disk_ReadFile (disk_crash (hd (sv_disk s')) []) (ShardFileName zeroKey) = Inl ErrNotExist"
proof -
  obtain s H where r: "receive_all demo_config [DChunk demo_chunk, DCommit demo_commit] (Service_New [newDisk]) [] = Some (s, H)"
      "committed demo_config s zeroKey"
    using demo_received by (auto simp del: receive_all.simps)
  have n: "node_run demo_config s H" by (rule receive_all_run [OF boot r(1)])
  obtain s' os where c: "handleCommit demo_config s [1] \<lparr>co_key = zeroKey, co_length = 0, co_checksum = [], co_stream = 9\<rparr> = (s', os)" by fastforce
  have "cm_key demo_chunk = zeroKey" by (simp add: demo_chunk_def)
  from zero_length_commit_destroys [OF n [unfolded demo_config_def] r(2) [unfolded demo_config_def] c [unfolded demo_config_def] this]
  show ?thesis unfolding demo_config_def by blast
qed

text \<open>
  A delete does not end the transfer it interrupts. The node forgets the file but not the staging: when the rest of the
  shard and its commit arrive, the commit is accepted, for a file that has lost its beginning.
\<close>

theorem delete_during_transfer_truncates:
  "let c = node_config sha tx;
       s = Service_New [newDisk];
       s = fst (handleChunk c s n \<lparr>cm_key = k, cm_offset = 0, cm_data = [1], cm_stream = 1\<rparr>);
       s = fst (handleDelete c s n \<lparr>de_reqID = 1, de_key = k\<rparr>);
       s = fst (handleChunk c s n \<lparr>cm_key = k, cm_offset = 1, cm_data = [2], cm_stream = 1\<rparr>);
       (s, os) = handleCommit c s n \<lparr>co_key = k, co_length = 2, co_checksum = sha [1, 2], co_stream = 1\<rparr>
   in os = [ack n k 0 True [] 1] \<and> committed c s k \<and> disk_ReadFile (hd (sv_disk s)) (ShardFileName k) = Inr [2]"
  by (simp add: Let_def Service_New_def newDisk_def handleChunk_def first_chunk_def handleDelete_def handleCommit_def committed_def
      disk_ReadFileAt_def disk_WriteFile_def disk_Append_def disk_Sync_def disk_Remove_def disk_ReadFile_def i64_less_def)

text \<open>A disk whose \<^verbatim>\<open>Sync\<close> fails for one file.\<close>

definition sync_fails :: "gostring \<Rightarrow> 'd Disk \<Rightarrow> 'd Disk" where
  "sync_fails bad ops = ops\<lparr>Sync := (\<lambda>d n. if n = bad then (d, Some ErrInvalid) else Sync ops d n)\<rparr>"

text \<open>
  A failed sync of the marker leaves the marker. The node reports the failure and removes the shard, but not the marker it
  wrote: the next write of the same shard is told \<^verbatim>\<open>committed\<close> at its first chunk, and there is no shard.
\<close>

theorem failed_marker_sync_acknowledged:
  "let c = \<lparr>cf_Disk = sim_disk, cf_sha256 = sha, cf_errText = tx\<rparr>;
       bad = c\<lparr>cf_Disk := sync_fails (marker_of k) sim_disk\<rparr>;
       s = fst (handleChunk c (Service_New newDisk) n \<lparr>cm_key = k, cm_offset = 0, cm_data = [1], cm_stream = 1\<rparr>);
       (s, os) = handleCommit bad s n \<lparr>co_key = k, co_length = 1, co_checksum = sha [1], co_stream = 1\<rparr>;
       (s', os') = handleChunk c s n \<lparr>cm_key = k, cm_offset = 0, cm_data = [1], cm_stream = 2\<rparr>
   in os = [ack n k 0 False (str ''syncing commit marker: '' @ tx ErrInvalid) 1] \<and>
      os' = [ack n k 0 True [] 2] \<and> disk_ReadFile (sv_disk s') (ShardFileName k) = Inl ErrNotExist"
  by (simp add: Let_def Service_New_def newDisk_def handleChunk_def first_chunk_def handleCommit_def abandon_def committed_def sync_fails_def sim_disk_def
      disk_ReadFileAt_def disk_WriteFile_def disk_Sync_def disk_Remove_def disk_ReadFile_def i64_less_def)

section \<open>A transfer\<close>

text \<open>
  C12: Success means delivered, for a transfer that has its shard to itself. The stream starts with an empty network and a node that
  neither holds the shard's marker nor stages the shard, and during the transfer the node gets no other message about that shard: none
  of another sender or of an earlier stream, and no delete. (A node that already holds the marker answers \<^verbatim>\<open>committed\<close> to the first
  chunk and stores nothing.) The network may lose, delay, repeat and reorder every message of the stream, and the node may crash anywhere
  and serve other shards meanwhile, these without zero-length commits of committed shards and deletes of staged ones. If the stream ever
  reports success, exactly the bytes written are on the node's disk under the shard's name, and they and the marker survive every crash.
\<close>

theorem transfer_delivers:
  assumes "transfer_run (node_config sha tx) k T" and "WriteDone wk None \<in> set (tr_events T)"
  shows "disk_ReadFile (disk_crash (hd (sv_disk (tr_rx T))) rng) (ShardFileName k) = Inr (tr_written T) \<and>
    committed (node_config sha tx) (Service_New [disk_crash (hd (sv_disk (tr_rx T))) rng]) k"
proof -
  let ?P = "staged_prefix k (tr_written T) (ws_stream (tr_w T))" and ?Q = "whole k (tr_written T) (ws_committing (tr_w T))"
  obtain d where i: "sv_disk (tr_rx T) = [d]" "sound ?P ?Q (tr_rx T)" "\<forall>x \<in> set (tr_events T). success x \<longrightarrow> marked d k"
    using transfer_run_inv [OF assms(1)] by (auto simp: transfer_inv_def)
  have m: "marked d k" using i(3) assms(2) unfolding success_def by blast
  then have c: "committed (node_config sha tx) (tr_rx T) k" using committed_marked [OF i(2,1)] by simp
  obtain x where "?Q k x" "disk_clean (hd (sv_disk (tr_rx T))) (ShardFileName k)" "disk_durable (hd (sv_disk (tr_rx T))) (ShardFileName k) = Some x"
    by (rule sound_committed [OF i(2) c])
  then have x: "?Q k x" "disk_clean d (ShardFileName k)" "disk_durable d (ShardFileName k) = Some x" by (simp_all add: i(1))
  have "committed (node_config sha tx) (Service_New [disk_crash d rng]) k"
    using committed_iff [of "Service_New [disk_crash d rng]"] marked_crash [OF m] by (simp add: marked_def Service_New_def)
  then show ?thesis using x clean_survives(2) [OF x(2,3)] i(1) by (simp add: whole_def)
qed

theorem transfer_delivers_witness:
  "\<exists>T :: transfer. WriteDone ([1], zeroKey) None \<in> set (tr_events T) \<and>
     disk_ReadFile (disk_crash (hd (sv_disk (tr_rx T))) [1]) (ShardFileName zeroKey) = Inr (tr_written T)"
proof -
  obtain T where t: "play_all demo_config zeroKey demo_moves demo_start = Some T" "WriteDone ([1], zeroKey) None \<in> set (tr_events T)"
    using demo_transfer by (auto simp del: play_all.simps)
  have "transfer_run demo_config zeroKey T" by (rule play_all_run [OF demo_started t(1)])
  from transfer_delivers [OF this [unfolded demo_config_def] t(2), where rng = "[1]"] t(2) show ?thesis by blast
qed

section \<open>The stream\<close>

text \<open>
  C34: A write stream is well behaved whatever its peer answers: it buffers at most its window, it has a timer pending until it ends, it
  reports its outcome exactly once, when it ends, and neither a message nor a timer makes it panic.
\<close>

theorem stream_well_behaved:
  assumes "stream_run w W os"
  shows "int (length (ws_buf w)) \<le> windowBytes \<and> ws_timer w = (\<not> ws_finished w) \<and>
    length (outcomes os) = of_bool (ws_finished w) \<and> ws_handleAck w m \<noteq> None \<and> ws_fire w \<noteq> None"
proof -
  note g = stream_run_good [OF assms]
  have "ws_handleAck w m \<noteq> None" "ws_fire w \<noteq> None" using ack_good [OF g, of m] fire_good [OF g] by auto
  with g show ?thesis by (simp add: stream_good_def)
qed

definition demo_stream :: WriteStream where
  "demo_stream = snd (the (NewWrite (Service_New ()) [1] zeroKey False True))"

lemma demo_stream_run: "\<exists>w os. stream_run w [7] os \<and> \<not> ws_finished w \<and> (ws_buf w \<noteq> [] \<or> ws_committing w)"
proof -
  have n: "NewWrite (Service_New ()) [1] zeroKey False True \<noteq> None" by (simp add: NewWrite_def Service_New_def Let_def)
  have r: "stream_run demo_stream [] []"
    by (rule opened [of "Service_New ()" "[1]" zeroKey False "fst (the (NewWrite (Service_New ()) [1] zeroKey False True))"])
      (use n in \<open>auto simp: demo_stream_def\<close>)
  have s: "\<not> ws_committing demo_stream" "int (length [7 :: byte]) \<le> Window demo_stream" "\<not> ws_finished demo_stream"
    by (simp_all add: demo_stream_def NewWrite_def Service_New_def Let_def ws_rearm_def Window_def windowBytes_def)
  obtain w os where w: "ws_Write demo_stream [7] = Some (w, os)" "stream_good ([] @ [7]) w (length (outcomes []) + length (outcomes os))"
    using Write_good [OF stream_run_good [OF r] s(1,2)] by auto
  have "stream_run w ([] @ [7]) ([] @ os)" by (rule stream_run.wrote [OF r s(1,2) _ w(1)]) simp
  moreover have "map_option (\<lambda>(w, os). \<not> ws_finished w \<and> ws_buf w \<noteq> []) (ws_Write demo_stream [7]) = Some True" by code_simp
  ultimately show ?thesis using w(1) by auto
qed

theorem stream_well_behaved_witness:
  "\<exists>w os. stream_run w [7] os \<and> int (length (ws_buf w)) \<le> windowBytes \<and> length (outcomes os) = of_bool (ws_finished w)"
proof -
  obtain w os where "stream_run w [7] os" using demo_stream_run by blast
  from stream_well_behaved [OF this] this show ?thesis by blast
qed

text \<open>
  C33: A silent peer ends the stream. From any state in which an answer is owed, with bytes unacknowledged or a commit sent, at most
  twenty firings of the timer without a message end the stream with \<^verbatim>\<open>ErrUnreachable\<close>.
\<close>

theorem silent_peer_ends_stream:
  assumes "stream_run w W os" and "\<not> ws_finished w" and "ws_buf w \<noteq> [] \<or> ws_committing w"
  shows "\<exists>n w' os'. n \<le> maxAttempts \<and> silence n w = Some (w', os' @ [WriteDone (ws_to w, ws_key w) (Some Unreachable)]) \<and> ws_finished w'"
  using silence_ends [OF stream_run_good [OF assms(1)] assms(2,3)] diff_le_self by blast

theorem silent_peer_ends_stream_witness:
  "\<exists>w n w' os'. silence n w = Some (w', os' @ [WriteDone (ws_to w, ws_key w) (Some Unreachable)]) \<and> n \<le> maxAttempts"
proof -
  obtain w os where "stream_run w [7] os" "\<not> ws_finished w" "ws_buf w \<noteq> [] \<or> ws_committing w" using demo_stream_run by blast
  from silent_peer_ends_stream [OF this] show ?thesis by blast
qed

end
