(* ===== verification/Blob.thy ===== *)
theory Blob
  imports Datapath_Receive
begin

text \<open>
  The blob store of a single node (\<^verbatim>\<open>internal/blob/blob.go\<close>): objects as whole files under \<^verbatim>\<open>o/\<close>.

  A reader is the list of what its calls of \<^verbatim>\<open>Read\<close> return, bytes and error; after the last one it is at its end.
\<close>

datatype read_error = EOF | ReadFailed

type_synonym reader = "(bytes \<times> read_error option) list"

datatype blob_error =
    BlobCreate disk_error
  | BlobAppend disk_error
  | BlobRead
  | BlobSync disk_error
  | BlobGet disk_error
  | BlobRemove disk_error
  | BlobRemoveSync disk_error

definition blob_name :: "version_id \<Rightarrow> gostring" where
  "blob_name i = str ''o/'' @ hex_string (vid_bytes i)"

definition blob_discard :: "'d Disk \<Rightarrow> 'd \<Rightarrow> gostring \<Rightarrow> 'd" where
  "blob_discard ops d n = (case Remove ops d n of (d, None) \<Rightarrow> fst (Sync ops d n) | (d, Some _) \<Rightarrow> d)"

text \<open>The copy loop of \<^verbatim>\<open>Put\<close>: the disk, the bytes counted, the error.\<close>

fun Put_loop :: "'d Disk \<Rightarrow> gostring \<Rightarrow> reader \<Rightarrow> 'd \<Rightarrow> i64 \<Rightarrow> 'd \<times> i64 \<times> blob_error option" where
  "Put_loop ops n [] d size' = (d, size', None)"
| "Put_loop ops n ((buf, readErr) # rs) d size' =
     (case (if 0 < length buf then Append ops d n buf else (d, None)) of
        (d, Some e) \<Rightarrow> (blob_discard ops d n, size', Some (BlobAppend e))
      | (d, None) \<Rightarrow>
          let size' = (if 0 < length buf then size' + word_of_nat (length buf) else size')
          in case readErr of
               Some EOF \<Rightarrow> (d, size', None)
             | Some ReadFailed \<Rightarrow> (blob_discard ops d n, size', Some BlobRead)
             | None \<Rightarrow> Put_loop ops n rs d size')"

definition blob_Put :: "'d Disk \<Rightarrow> 'd \<Rightarrow> version_id \<Rightarrow> reader \<Rightarrow> 'd \<times> i64 \<times> blob_error option" where
  "blob_Put ops d i rs =
     (let n = blob_name i
      in case WriteFile ops d n [] of
           (d, Some e) \<Rightarrow> (d, 0, Some (BlobCreate e))
         | (d, None) \<Rightarrow>
             (case Put_loop ops n rs d 0 of
                (d, size', Some e) \<Rightarrow> (d, size', Some e)
              | (d, size', None) \<Rightarrow>
                  (case Sync ops d n of
                     (d, Some e) \<Rightarrow> (blob_discard ops d n, size', Some (BlobSync e))
                   | (d, None) \<Rightarrow> (d, size', None))))"

definition blob_Get :: "'d Disk \<Rightarrow> 'd \<Rightarrow> version_id \<Rightarrow> blob_error + bytes" where
  "blob_Get ops d i = (case ReadFile ops d (blob_name i) of Inl e \<Rightarrow> Inl (BlobGet e) | Inr data \<Rightarrow> Inr data)"

definition blob_Remove :: "'d Disk \<Rightarrow> 'd \<Rightarrow> version_id \<Rightarrow> 'd \<times> blob_error option" where
  "blob_Remove ops d i =
     (let n = blob_name i
      in case Remove ops d n of
           (d, Some e) \<Rightarrow> (d, Some (BlobRemove e))
         | (d, None) \<Rightarrow>
             (case Sync ops d n of
                (d, Some e) \<Rightarrow> (d, Some (BlobRemoveSync e))
              | (d, None) \<Rightarrow> (d, None)))"

section \<open>Names\<close>

lemma blob_name_inject [simp]: "blob_name a = blob_name b \<longleftrightarrow> a = b"
  using hex_string_inject [of "vid_bytes a" "vid_bytes b"] by (auto simp: blob_name_def)

lemma blob_name_valid [simp]: "ValidPath (blob_name i)"
proof -
  have "utf8_valid (blob_name i)"
    unfolding blob_name_def by (rule utf8_ascii) (auto simp: str_def dest: hex_string_digits)
  moreover have "of_char (CHR ''/'') \<notin> set (hex_string (vid_bytes i))" using hex_string_digits by blast
  then have "path_elements_ok [] (hex_string (vid_bytes i))"
    using length_hex_string [of "vid_bytes i"] by (auto simp: path_element str_def simp del: length_hex_string)
  ultimately show ?thesis by (simp add: ValidPath_def blob_name_def str_def)
qed

section \<open>What is stored\<close>

text \<open>What the copy loop takes from a reader, and whether the reader failed.\<close>

fun consumed :: "reader \<Rightarrow> bytes \<times> bool" where
  "consumed [] = ([], False)"
| "consumed ((buf, Some EOF) # rs) = (buf, False)"
| "consumed ((buf, Some ReadFailed) # rs) = (buf, True)"
| "consumed ((buf, None) # rs) = (buf @ fst (consumed rs), snd (consumed rs))"

lemma sim_disk_simps [simp]:
  "WriteFile sim_disk = disk_WriteFile" "Append sim_disk = disk_Append" "Sync sim_disk = disk_Sync"
  "ReadFile sim_disk = disk_ReadFile" "Remove sim_disk = disk_Remove"
  by (simp_all add: sim_disk_def)

lemma discard_effect:
  assumes "ValidPath n" and "disk_ReadFile d n = Inr y"
  shows "same_but n d (blob_discard sim_disk d n) \<and> disk_clean (blob_discard sim_disk d n) n \<and> disk_durable (blob_discard sim_disk d n) n = None"
proof -
  obtain d1 where d1: "disk_Remove d n = (d1, None)" "same_but n d d1" "disk_ReadFile d1 n = Inl ErrNotExist"
    using assms(1) by (cases rule: remove_effect [of _ d]) (use assms(2) in auto)
  obtain d2 where "disk_Sync d1 n = (d2, None)" "same_but n d1 d2" "disk_clean d2 n" "disk_durable d2 n = None"
    by (rule sync_effect [OF assms(1), of d1]) (use d1(3) in simp_all)
  then show ?thesis using d1(1) same_but_trans [OF d1(2)] by (simp add: blob_discard_def)
qed

lemma Put_loop_effect:
  assumes "ValidPath n" and "disk_ReadFile d n = Inr y"
  shows "\<exists>d' e. Put_loop sim_disk n rs d sz = (d', sz + word_of_nat (length (fst (consumed rs))), e) \<and> same_but n d d' \<and>
    (if snd (consumed rs) then e = Some BlobRead \<and> disk_clean d' n \<and> disk_durable d' n = None
     else e = None \<and> disk_ReadFile d' n = Inr (y @ fst (consumed rs)))"
  using assms(2)
proof (induction rs arbitrary: d y sz)
  case (Cons r rs)
  obtain buf er where r: "r = (buf, er)" by fastforce
  obtain d1 where d1: "(if 0 < length buf then disk_Append d n buf else (d, None)) = (d1, None)" "same_but n d d1"
      "disk_ReadFile d1 n = Inr (y @ buf)"
  proof (cases "buf = []")
    case False
    obtain d1 where "disk_Append d n buf = (d1, None)" "same_but n d d1" "disk_ReadFile d1 n = Inr (y @ buf)"
      by (rule append_effect [OF assms(1) Cons.prems])
    then show thesis using False by (intro that) auto
  qed (use Cons.prems that in auto)
  have sz: "(if 0 < length buf then sz + word_of_nat (length buf) else sz) = sz + word_of_nat (length buf)" by auto
  show ?case
  proof (cases er)
    case None
    have "disk_ReadFile d1 n = Inr (y @ buf)" by (rule d1(3))
    from Cons.IH [OF this, of "sz + word_of_nat (length buf)"]
    show ?thesis using d1(1,2) None same_but_trans [OF d1(2)] by (auto simp: r sz Let_def add.assoc split: if_splits)
  next
    case (Some x)
    then show ?thesis
      using d1 discard_effect [OF assms(1) d1(3)] same_but_trans [OF d1(2)] by (cases x) (auto simp: r sz Let_def)
  qed
qed simp

lemma crash_read:
  assumes "ValidPath n" and "disk_clean d n"
  shows "disk_ReadFile (disk_crash d rng) n = (case disk_durable d n of None \<Rightarrow> Inl ErrNotExist | Some x \<Rightarrow> Inr x)"
  using sim.read_clean [OF assms(1)] sim.crash_clean [OF assms(2), of rng] by simp

text \<open>
  C35: \<^verbatim>\<open>Put\<close> is durable when it returns, or leaves nothing behind. Whatever was on the disk and however the source is cut into reads,
  after \<^verbatim>\<open>Put\<close> and any crash \<^verbatim>\<open>Get\<close> returns exactly the bytes of the source, and the size reported is their number; when the
  source fails, \<^verbatim>\<open>Put\<close> reports it and the blob does not exist. No other blob changes.
\<close>

theorem blob_put_durable:
  "\<exists>d' e. blob_Put sim_disk d i rs = (d', word_of_nat (length (fst (consumed rs))), e) \<and>
     e = (if snd (consumed rs) then Some BlobRead else None) \<and>
     blob_Get sim_disk (disk_crash d' rng) i =
       (if snd (consumed rs) then Inl (BlobGet ErrNotExist) else Inr (fst (consumed rs))) \<and>
     (j = i \<or> blob_Get sim_disk d' j = blob_Get sim_disk d j)"
proof -
  let ?n = "blob_name i"
  have v: "ValidPath ?n" by simp
  obtain d1 where d1: "disk_WriteFile d ?n [] = (d1, None)" "same_but ?n d d1" "disk_ReadFile d1 ?n = Inr []"
    by (rule write_effect [OF v])
  obtain d2 e where d2: "Put_loop sim_disk ?n rs d1 0 = (d2, word_of_nat (length (fst (consumed rs))), e)" "same_but ?n d1 d2"
      "if snd (consumed rs) then e = Some BlobRead \<and> disk_clean d2 ?n \<and> disk_durable d2 ?n = None
       else e = None \<and> disk_ReadFile d2 ?n = Inr (fst (consumed rs))"
    using Put_loop_effect [OF v d1(3), of rs 0] by auto
  obtain d3 where d3: "disk_Sync d2 ?n = (d3, None)" "same_but ?n d2 d3" "disk_clean d3 ?n"
      "disk_durable d3 ?n = (case disk_ReadFile d2 ?n of Inr y \<Rightarrow> Some y | Inl _ \<Rightarrow> None)"
    by (rule sync_effect [OF v])
  have other: "j = i \<or> blob_Get sim_disk d' j = blob_Get sim_disk d j" if "same_but ?n d d'" for d'
    using same_butD(4) [OF that, of "blob_name j"] by (cases "j = i") (simp_all add: blob_Get_def)
  have s: "same_but ?n d d2" "same_but ?n d d3" using same_but_trans [OF d1(2) d2(2)] same_but_trans [OF _ d3(2)] by blast+
  show ?thesis
  proof (cases "snd (consumed rs)")
    case True
    then have "blob_Get sim_disk (disk_crash d2 rng) i = Inl (BlobGet ErrNotExist)"
      using d2(3) crash_read [OF v, of d2 rng] by (simp add: blob_Get_def)
    then show ?thesis using True d1(1) d2(1,3) other [OF s(1)] by (auto simp: blob_Put_def Let_def)
  next
    case False
    then have "blob_Get sim_disk (disk_crash d3 rng) i = Inr (fst (consumed rs))"
      using d2(3) d3(3,4) crash_read [OF v, of d3 rng] by (simp add: blob_Get_def)
    then show ?thesis using False d1(1) d2(1,3) d3(1) other [OF s(2)] by (auto simp: blob_Put_def Let_def)
  qed
qed

lemma blob_remove_durable:
  assumes "blob_Remove sim_disk d i = (d', None)"
  shows "blob_Get sim_disk (disk_crash d' rng) i = Inl (BlobGet ErrNotExist)"
proof -
  let ?n = "blob_name i"
  have v: "ValidPath ?n" by simp
  from v show ?thesis
  proof (cases rule: remove_effect [of _ d])
    case (gone d1 y)
    obtain d2 where d2: "disk_Sync d1 ?n = (d2, None)" "disk_clean d2 ?n" "disk_durable d2 ?n = None"
      by (rule sync_effect [OF v, of d1]) (use gone(4) in simp_all)
    then have "d' = d2" using assms gone(2) by (simp add: blob_Remove_def)
    then show ?thesis using d2(2,3) crash_read [OF v, of d2 rng] by (simp add: blob_Get_def)
  next
    case missing
    then show ?thesis using assms by (simp add: blob_Remove_def)
  qed
qed

end
