(* ===== verification/Raft_Record.thy ===== *)
theory Raft_Record
  imports Meta_Persist
begin

text \<open>
  The formats of the consensus layer (\<^verbatim>\<open>internal/raftnode/record.go\<close>): the frame of the write-ahead
  log, the payload of a snapshot, the member record and the transport envelope.

  The messages of \<^verbatim>\<open>go.etcd.io/raft/v3/raftpb\<close> are generated code: their fields are records here, and
  their \<^verbatim>\<open>Marshal\<close> and \<^verbatim>\<open>Unmarshal\<close> methods are the record \<open>raftpb\<close>, a parameter of the codecs.
  \<^verbatim>\<open>Unmarshal\<close> merges into the value it is called on, so it takes that value. The locale \<open>raft_codec\<close>
  states what the library documents: a marshalled value is read back into a zero value.
\<close>

section \<open>The messages of the library\<close>

record HardState =
  hs_Term :: u64
  hs_Vote :: u64
  hs_Commit :: u64

datatype entry_type = EntryNormal | EntryConfChange | EntryConfChangeV2

record Entry =
  e_Term :: u64
  e_Index :: u64
  e_Type :: entry_type
  e_Data :: bytes

record ConfState =
  cs_Voters :: "u64 list"
  cs_Learners :: "u64 list"
  cs_VotersOutgoing :: "u64 list"
  cs_LearnersNext :: "u64 list"
  cs_AutoLeave :: bool

record Snapshot =
  sn_Data :: bytes
  sn_ConfState :: ConfState
  sn_Index :: u64
  sn_Term :: u64

definition zeroHardState :: HardState where
  "zeroHardState = \<lparr>hs_Term = 0, hs_Vote = 0, hs_Commit = 0\<rparr>"

definition zeroEntry :: Entry where
  "zeroEntry = \<lparr>e_Term = 0, e_Index = 0, e_Type = EntryNormal, e_Data = []\<rparr>"

definition zeroConfState :: ConfState where
  "zeroConfState =
     \<lparr>cs_Voters = [], cs_Learners = [], cs_VotersOutgoing = [], cs_LearnersNext = [], cs_AutoLeave = False\<rparr>"

definition zeroSnapshot :: Snapshot where
  "zeroSnapshot = \<lparr>sn_Data = [], sn_ConfState = zeroConfState, sn_Index = 0, sn_Term = 0\<rparr>"

text \<open>A marshalling or unmarshalling error is \<open>None\<close>.\<close>

record raftpb =
  Marshal_HardState :: "HardState \<Rightarrow> bytes option"
  Marshal_Entry :: "Entry \<Rightarrow> bytes option"
  Marshal_Snapshot :: "Snapshot \<Rightarrow> bytes option"
  Unmarshal_HardState :: "HardState \<Rightarrow> bytes \<Rightarrow> HardState option"
  Unmarshal_Entry :: "Entry \<Rightarrow> bytes \<Rightarrow> Entry option"
  Unmarshal_Snapshot :: "Snapshot \<Rightarrow> bytes \<Rightarrow> Snapshot option"
  IsEmptyHardState :: "HardState \<Rightarrow> bool"
  IsEmptySnap :: "Snapshot \<Rightarrow> bool"

section \<open>Records of the log\<close>

definition recordFormatVersion :: u64 where "recordFormatVersion = 1"
definition snapshotFormatVersion :: u64 where "snapshotFormatVersion = 1"
definition envelopeFormatVersion :: u64 where "envelopeFormatVersion = 1"
definition kindRaft :: u64 where "kindRaft = 1"
definition kindAdmit :: u64 where "kindAdmit = 2"

lemmas format_versions = recordFormatVersion_def snapshotFormatVersion_def envelopeFormatVersion_def

record raft_record =
  rec_hs :: HardState
  rec_entries :: "Entry list"
  rec_snap :: Snapshot

definition emptyRecord :: raft_record where
  "emptyRecord = \<lparr>rec_hs = zeroHardState, rec_entries = [], rec_snap = zeroSnapshot\<rparr>"

text \<open>\<open>None\<close> is the panic on a marshalling error.\<close>

definition appendMessage :: "protowire \<Rightarrow> bytes \<Rightarrow> nat \<Rightarrow> bytes option \<Rightarrow> bytes option" where
  "appendMessage pw b num data =
     map_option (\<lambda>data. AppendBytes pw (AppendTag pw b num BytesType) data) data"

fun appendEntries :: "protowire \<Rightarrow> raftpb \<Rightarrow> bytes \<Rightarrow> Entry list \<Rightarrow> bytes option" where
  "appendEntries pw pb b [] = Some b"
| "appendEntries pw pb b (e # es) =
     Option.bind (appendMessage pw b 3 (Marshal_Entry pb e)) (\<lambda>b. appendEntries pw pb b es)"

definition encodeRecord :: "protowire \<Rightarrow> raftpb \<Rightarrow> raft_record \<Rightarrow> bytes option" where
  "encodeRecord pw pb rec =
     (let b = AppendTag pw [] 1 VarintType;
          b = AppendVarint pw b recordFormatVersion
      in Option.bind
           (if \<not> IsEmptyHardState pb (rec_hs rec) then appendMessage pw b 2 (Marshal_HardState pb (rec_hs rec)) else Some b)
           (\<lambda>b. Option.bind (appendEntries pw pb b (rec_entries rec))
             (\<lambda>b. if \<not> IsEmptySnap pb (rec_snap rec) then appendMessage pw b 4 (Marshal_Snapshot pb (rec_snap rec)) else Some b)))"

text \<open>
  The decoders all walk the fields of a message. A step returns the rest of the buffer and the new
  state; its inner \<open>None\<close> is an error, its outer \<open>None\<close> a nested decoder that does not return. The
  walk does not return (\<open>None\<close>) when the consumed lengths are zero for ever.
\<close>

partial_function (option) field_walk ::
    "(bytes \<Rightarrow> 's \<Rightarrow> (bytes \<times> 's) option option) \<Rightarrow> bytes \<Rightarrow> 's \<Rightarrow> 's option option" where
  "field_walk step b s =
     (if length b = 0 then Some (Some s)
      else Option.bind (step b s) (\<lambda>y.
             case y of None \<Rightarrow> Some None | Some x \<Rightarrow> field_walk step (fst x) (snd x)))"

definition record_field :: "raftpb \<Rightarrow> nat \<Rightarrow> bytes \<Rightarrow> raft_record \<Rightarrow> raft_record option" where
  "record_field pb num v rec =
     (if num = 2 then map_option (\<lambda>hs. rec\<lparr>rec_hs := hs\<rparr>) (Unmarshal_HardState pb (rec_hs rec) v)
      else if num = 3 then map_option (\<lambda>e. rec\<lparr>rec_entries := rec_entries rec @ [e]\<rparr>) (Unmarshal_Entry pb zeroEntry v)
      else if num = 4 then map_option (\<lambda>sn. rec\<lparr>rec_snap := sn\<rparr>) (Unmarshal_Snapshot pb (rec_snap rec) v)
      else Some rec)"

definition decodeRecord_step :: "protowire \<Rightarrow> raftpb \<Rightarrow> bytes \<Rightarrow> raft_record \<Rightarrow> (bytes \<times> raft_record) option option" where
  "decodeRecord_step pw pb b rec =
     Some (case ConsumeTag pw b of
        None \<Rightarrow> None
      | Some (num, ty, n) \<Rightarrow>
          let b = drop n b
          in if ty \<noteq> BytesType
             then map_option (\<lambda>n. (drop n b, rec)) (ConsumeFieldValue pw num ty b)
             else case ConsumeBytes pw b of
                    None \<Rightarrow> None
                  | Some (v, n) \<Rightarrow> map_option (\<lambda>rec. (drop n b, rec)) (record_field pb num v rec))"

definition decodeRecord :: "protowire \<Rightarrow> raftpb \<Rightarrow> bytes \<Rightarrow> raft_record option option" where
  "decodeRecord pw pb b = field_walk (decodeRecord_step pw pb) b emptyRecord"

section \<open>Members\<close>

record peerInfo =
  pi_node :: gostring
  pi_dial :: gostring

definition zeroPeer :: peerInfo where
  "zeroPeer = \<lparr>pi_node = [], pi_dial = []\<rparr>"

definition encodeMember :: "protowire \<Rightarrow> u64 \<Rightarrow> peerInfo \<Rightarrow> bytes" where
  "encodeMember pw i info =
     (let b = AppendTag pw [] 1 VarintType;
          b = AppendVarint pw b i;
          b = AppendTag pw b 2 BytesType;
          b = AppendString pw b (pi_node info)
      in if pi_dial info \<noteq> []
         then let b = AppendTag pw b 3 BytesType in AppendString pw b (pi_dial info)
         else b)"

definition decodeMember_step :: "protowire \<Rightarrow> bytes \<Rightarrow> u64 \<times> peerInfo \<Rightarrow> (bytes \<times> u64 \<times> peerInfo) option option" where
  "decodeMember_step pw b m =
     Some (case ConsumeTag pw b of
        None \<Rightarrow> None
      | Some (num, ty, n) \<Rightarrow>
          let b = drop n b; (i, info) = m
          in if num = 1 \<and> ty = VarintType
             then map_option (\<lambda>(v, n). (drop n b, v, info)) (ConsumeVarint pw b)
             else if num = 2 \<and> ty = BytesType
             then map_option (\<lambda>(v, n). (drop n b, i, info\<lparr>pi_node := v\<rparr>)) (ConsumeBytes pw b)
             else if num = 3 \<and> ty = BytesType
             then map_option (\<lambda>(v, n). (drop n b, i, info\<lparr>pi_dial := v\<rparr>)) (ConsumeBytes pw b)
             else map_option (\<lambda>n. (drop n b, i, info)) (ConsumeFieldValue pw num ty b))"

definition decodeMember :: "protowire \<Rightarrow> bytes \<Rightarrow> (u64 \<times> peerInfo) option option" where
  "decodeMember pw b = field_walk (decodeMember_step pw) b (0, zeroPeer)"

section \<open>The transport envelope\<close>

definition encodeEnvelope :: "protowire \<Rightarrow> u64 \<Rightarrow> bytes \<Rightarrow> bytes" where
  "encodeEnvelope pw kind payload =
     (let b = AppendTag pw [] 1 VarintType;
          b = AppendVarint pw b envelopeFormatVersion;
          b = AppendTag pw b 2 VarintType;
          b = AppendVarint pw b kind;
          b = AppendTag pw b 3 BytesType
      in AppendBytes pw b payload)"

definition decodeEnvelope_step :: "protowire \<Rightarrow> bytes \<Rightarrow> u64 \<times> bytes \<Rightarrow> (bytes \<times> u64 \<times> bytes) option option" where
  "decodeEnvelope_step pw b m =
     Some (case ConsumeTag pw b of
        None \<Rightarrow> None
      | Some (num, ty, n) \<Rightarrow>
          let b = drop n b; (kind, payload) = m
          in if num = 2 \<and> ty = VarintType
             then map_option (\<lambda>(v, n). (drop n b, v, payload)) (ConsumeVarint pw b)
             else if num = 3 \<and> ty = BytesType
             then map_option (\<lambda>(v, n). (drop n b, kind, v)) (ConsumeBytes pw b)
             else map_option (\<lambda>n. (drop n b, kind, payload)) (ConsumeFieldValue pw num ty b))"

definition decodeEnvelope :: "protowire \<Rightarrow> bytes \<Rightarrow> (u64 \<times> bytes) option option" where
  "decodeEnvelope pw b = field_walk (decodeEnvelope_step pw) b (0, [])"

section \<open>Snapshots\<close>

definition snapshot_row :: "protowire \<Rightarrow> Row \<Rightarrow> bytes" where
  "snapshot_row pw r =
     (let row = AppendTag pw [] 1 BytesType;
          row = AppendString pw row (row_Key r);
          row = AppendTag pw row 2 BytesType
      in AppendBytes pw row (row_Value r))"

definition encodeSnapshotData ::
    "protowire \<Rightarrow> Row list \<Rightarrow> (u64, peerInfo) fmap \<Rightarrow> u64 fset \<Rightarrow> bytes" where
  "encodeSnapshotData pw rows members removed =
     (let b = AppendTag pw [] 1 VarintType;
          b = AppendVarint pw b snapshotFormatVersion;
          b = foldl (\<lambda>b r. AppendBytes pw (AppendTag pw b 2 BytesType) (snapshot_row pw r)) b rows;
          b = foldl (\<lambda>b i. AppendBytes pw (AppendTag pw b 3 BytesType) (encodeMember pw i (the (fmlookup members i))))
                b (sorted_list_of_set (fset (fmdom members)))
      in foldl (\<lambda>b i. AppendVarint pw (AppendTag pw b 4 VarintType) i) b (sorted_list_of_set (fset removed)))"

definition decodeSnapshotRow_step :: "protowire \<Rightarrow> bytes \<Rightarrow> Row \<Rightarrow> (bytes \<times> Row) option option" where
  "decodeSnapshotRow_step pw b r =
     Some (case ConsumeTag pw b of
        None \<Rightarrow> None
      | Some (num, ty, n) \<Rightarrow>
          let b = drop n b
          in if ty \<noteq> BytesType then None
             else map_option (\<lambda>(v, n). (drop n b,
                    if num = 1 then r\<lparr>row_Key := v\<rparr> else if num = 2 then r\<lparr>row_Value := v\<rparr> else r)) (ConsumeBytes pw b))"

definition decodeSnapshotRow :: "protowire \<Rightarrow> bytes \<Rightarrow> Row option option" where
  "decodeSnapshotRow pw b = field_walk (decodeSnapshotRow_step pw) b \<lparr>row_Key = [], row_Value = []\<rparr>"

record 'p snapshot_state =
  ss_store :: "'p Store"
  ss_members :: "(u64, peerInfo) fmap"
  ss_removed :: "u64 fset"

definition snapshot_field ::
    "protowire \<Rightarrow> nat \<Rightarrow> bytes \<Rightarrow> 'p snapshot_state \<Rightarrow> 'p snapshot_state option option" where
  "snapshot_field pw num v s =
     (if num = 3
      then map_option (map_option (\<lambda>(i, info). s\<lparr>ss_members := fmupd i info (ss_members s)\<rparr>)) (decodeMember pw v)
      else case decodeSnapshotRow pw v of
             None \<Rightarrow> None
           | Some None \<Rightarrow> Some None
           | Some (Some r) \<Rightarrow>
               map_option (map_option (\<lambda>st. s\<lparr>ss_store := st\<rparr>)) (Restore pw (ss_store s) (row_Key r) (row_Value r)))"

definition decodeSnapshotData_step ::
    "protowire \<Rightarrow> bytes \<Rightarrow> 'p snapshot_state \<Rightarrow> (bytes \<times> 'p snapshot_state) option option" where
  "decodeSnapshotData_step pw b s =
     (case ConsumeTag pw b of
        None \<Rightarrow> Some None
      | Some (num, ty, n) \<Rightarrow>
          let b = drop n b
          in if num = 4 \<and> ty = VarintType
             then Some (map_option (\<lambda>(i, n). (drop n b, s\<lparr>ss_removed := finsert i (ss_removed s)\<rparr>)) (ConsumeVarint pw b))
             else if (num = 2 \<or> num = 3) \<and> ty = BytesType
             then case ConsumeBytes pw b of
                    None \<Rightarrow> Some None
                  | Some (v, n) \<Rightarrow> map_option (map_option (\<lambda>s. (drop n b, s))) (snapshot_field pw num v s)
             else Some (map_option (\<lambda>n. (drop n b, s)) (ConsumeFieldValue pw num ty b)))"

definition decodeSnapshotData :: "protowire \<Rightarrow> bytes \<Rightarrow> 'p snapshot_state option option" where
  "decodeSnapshotData pw b =
     field_walk (decodeSnapshotData_step pw) b \<lparr>ss_store = NewStore, ss_members = fmempty, ss_removed = {||}\<rparr>"

end
