(* ===== verification/Raft_Node.thy ===== *)
theory Raft_Node
  imports Raft_Record Meta_ProposalCodec Wal Datapath_Names
begin

text \<open>
  One replica of the metadata plane (\<^verbatim>\<open>internal/raftnode/raftnode.go\<close>): boot, the event handlers, the
  Ready loop, apply, snapshots and the rotation of the log.

  The consensus library \<^verbatim>\<open>go.etcd.io/raft/v3\<close> is third-party code: \<^verbatim>\<open>RawNode\<close> and \<^verbatim>\<open>MemoryStorage\<close> share
  their state, which is the type \<open>'r\<close>, and their methods are the record \<open>raft_lib\<close>, a parameter. So are
  the disk, the wire library and the durable metadata store (\<^verbatim>\<open>MetaPersister\<close>, whose state is \<open>'p\<close> and
  lives in the persister of the store). Together they are the record \<open>seams\<close>.

  A callback is its number. What leaves the node is appended to \<open>n_out\<close>: messages, calls of a
  callback, notifications and armed timers; a callback that calls back into the node is a later step.
  A panic keeps the state in which the node stopped, since the disk outlives it. \<open>None\<close> is a call that does
  not return.
\<close>

section \<open>The library\<close>

datatype conf_change_type = ConfChangeAddNode | ConfChangeRemoveNode | ConfChangeUpdateNode | ConfChangeAddLearnerNode

record ConfChange =
  cc_ID :: u64
  cc_Type :: conf_change_type
  cc_NodeID :: u64
  cc_Context :: bytes

definition zeroConfChange :: ConfChange where
  "zeroConfChange = \<lparr>cc_ID = 0, cc_Type = ConfChangeAddNode, cc_NodeID = 0, cc_Context = []\<rparr>"

record 'm Ready =
  rd_HardState :: HardState
  rd_Entries :: "Entry list"
  rd_Snapshot :: Snapshot
  rd_Messages :: "'m list"
  rd_CommittedEntries :: "Entry list"

datatype message_type = MsgApp | MsgHeartbeat | MsgSnap | MsgOther

text \<open>A method that can fail returns \<open>None\<close>, or a flag that says whether it succeeded.\<close>

record ('r, 'm) raft_lib =
  lib_pb :: raftpb
  Unmarshal_ConfChange :: "ConfChange \<Rightarrow> bytes \<Rightarrow> ConfChange option"
  Marshal_Message :: "'m \<Rightarrow> bytes option"
  Unmarshal_Message :: "bytes \<Rightarrow> 'm option"
  Message_Type :: "'m \<Rightarrow> message_type"
  Message_To :: "'m \<Rightarrow> u64"
  NewMemoryStorage :: 'r
  ApplySnapshot :: "'r \<Rightarrow> Snapshot \<Rightarrow> 'r option"
  StorageAppend :: "'r \<Rightarrow> Entry list \<Rightarrow> 'r option"
  SetHardState :: "'r \<Rightarrow> HardState \<Rightarrow> 'r option"
  InitialState :: "'r \<Rightarrow> HardState option"
  CreateSnapshot :: "'r \<Rightarrow> u64 \<Rightarrow> ConfState \<Rightarrow> bytes \<Rightarrow> ('r \<times> Snapshot) option"
  Compact :: "'r \<Rightarrow> u64 \<Rightarrow> 'r option"
  FirstIndex :: "'r \<Rightarrow> u64 option"
  LastIndex :: "'r \<Rightarrow> u64 option"
  StorageTerm :: "'r \<Rightarrow> u64 \<Rightarrow> u64 option"
  StorageEntries :: "'r \<Rightarrow> u64 \<Rightarrow> u64 \<Rightarrow> Entry list option"
  NewRawNode :: "'r \<Rightarrow> u64 \<Rightarrow> u64 \<Rightarrow> 'r option"
  Bootstrap :: "'r \<Rightarrow> (u64 \<times> bytes) list \<Rightarrow> 'r option"
  Status_Lead :: "'r \<Rightarrow> u64"
  Status_isLeader :: "'r \<Rightarrow> bool"
  Status_Match :: "'r \<Rightarrow> u64 \<Rightarrow> u64 option"
  Tick :: "'r \<Rightarrow> 'r"
  Campaign :: "'r \<Rightarrow> 'r"
  Step :: "'r \<Rightarrow> 'm \<Rightarrow> 'r \<times> bool"
  RawPropose :: "'r \<Rightarrow> bytes \<Rightarrow> 'r \<times> bool"
  RawProposeConfChange :: "'r \<Rightarrow> ConfChange \<Rightarrow> 'r \<times> bool"
  RawApplyConfChange :: "'r \<Rightarrow> ConfChange \<Rightarrow> 'r \<times> ConfState"
  ReportSnapshot :: "'r \<Rightarrow> u64 \<Rightarrow> 'r"
  HasReady :: "'r \<Rightarrow> bool"
  TakeReady :: "'r \<Rightarrow> 'r \<times> 'm Ready"
  Advance :: "'r \<Rightarrow> 'm Ready \<Rightarrow> 'r"

text \<open>\<open>LoadState\<close>: \<open>None\<close> an error, otherwise the rows, the applied index and \<^verbatim>\<open>ok\<close>.\<close>

record 'p MetaPersister =
  CommitAt :: "'p \<Rightarrow> u64 \<Rightarrow> Row list \<Rightarrow> 'p \<times> bool"
  ResetAt :: "'p \<Rightarrow> u64 \<Rightarrow> Row list \<Rightarrow> 'p \<times> bool"
  LoadState :: "'p \<Rightarrow> (Row list \<times> u64 \<times> bool) option"

record ('r, 'm, 'd, 'p) seams =
  sm_wire :: protowire
  sm_raft :: "('r, 'm) raft_lib"
  sm_disk :: "'d Disk"
  sm_db :: "'p MetaPersister"

abbreviation sm_pb :: "('r, 'm, 'd, 'p) seams \<Rightarrow> raftpb" where
  "sm_pb S \<equiv> lib_pb (sm_raft S)"

section \<open>The node\<close>

record NodeConfig =
  nc_ID :: u64
  nc_Peers :: "(u64, gostring) fmap"
  nc_Dials :: "(u64, gostring) fmap"
  nc_Join :: bool
  nc_TickInterval :: i64
  nc_ElectionTicks :: int
  nc_SnapshotEntries :: u64
  nc_OnMembershipChange :: bool
  nc_OnRemoved :: bool

record RaftMember =
  mb_ID :: u64
  mb_Addr :: gostring
  mb_Dial :: gostring
  mb_Learner :: bool

datatype done_result = NotLeader | ProposeFailed | Applied "apply_result res"

datatype event =
    Sent gostring bytes
  | Done nat done_result
  | MembershipChanged "RaftMember list"
  | SelfRemoved
  | ArmedTick i64

text \<open>A time is its distance in nanoseconds from a fixed instant.\<close>

record ('r, 'd, 'p) RaftNode =
  n_cfg :: NodeConfig
  n_raft :: 'r
  n_disk :: 'd
  n_log :: gostring
  n_logSeq :: u64
  n_store :: "'p Store"
  n_applyingIndex :: u64
  n_usePersisted :: bool
  n_persistedIndex :: u64
  n_applied :: u64
  n_snapIndex :: u64
  n_confState :: ConfState
  n_peers :: "(u64, peerInfo) fmap"
  n_removed :: "u64 fset"
  n_waiters :: "(u64, nat list) fmap"
  n_proposing :: "nat list"
  n_confCooldown :: int
  n_confChanged :: bool
  n_admitCooldown :: int
  n_lastHeard :: int
  n_electionAfter :: i64
  n_snapshotsReceived :: int
  n_rand :: "nat list"
  n_out :: "event list"

definition defaultSnapshotEntries :: u64 where "defaultSnapshotEntries = 4096"
definition maxVoters :: nat where "maxVoters = 5"
definition promoteLag :: u64 where "promoteLag = 16"

datatype 'n outcome = Running 'n | Panicked 'n

type_synonym 'n node_run = "'n outcome option"

fun outcome_node :: "'n outcome \<Rightarrow> 'n" where
  "outcome_node (Running n) = n"
| "outcome_node (Panicked n) = n"

definition go_on :: "'n \<Rightarrow> 'n node_run" where
  "go_on n = Some (Running n)"

definition go_panic :: "'n \<Rightarrow> 'n node_run" where
  "go_panic n = Some (Panicked n)"

definition and_then :: "'n node_run \<Rightarrow> ('n \<Rightarrow> 'n node_run) \<Rightarrow> 'n node_run" where
  "and_then x f = Option.bind x (\<lambda>y. case y of Running n \<Rightarrow> f n | Panicked n \<Rightarrow> Some (Panicked n))"

fun each :: "('x \<Rightarrow> 'n \<Rightarrow> 'n node_run) \<Rightarrow> 'x list \<Rightarrow> 'n \<Rightarrow> 'n node_run" where
  "each f [] n = go_on n"
| "each f (x # xs) n = and_then (f x n) (each f xs)"

definition emit_event :: "event \<Rightarrow> ('r, 'd, 'p) RaftNode \<Rightarrow> ('r, 'd, 'p) RaftNode" where
  "emit_event e n = n\<lparr>n_out := n_out n @ [e]\<rparr>"

definition indexed_Commit :: "('r, 'm, 'd, 'p) seams \<Rightarrow> u64 \<Rightarrow> 'p \<Rightarrow> Row list \<Rightarrow> 'p \<times> bool" where
  "indexed_Commit S index p rows = CommitAt (sm_db S) p index rows"

section \<open>Membership\<close>

definition peer_of :: "('r, 'd, 'p) RaftNode \<Rightarrow> u64 \<Rightarrow> peerInfo" where
  "peer_of n i = (case fmlookup (n_peers n) i of Some info \<Rightarrow> info | None \<Rightarrow> zeroPeer)"

definition Members :: "('r, 'd, 'p) RaftNode \<Rightarrow> RaftMember list" where
  "Members n =
     (let member = (\<lambda>l i. \<lparr>mb_ID = i, mb_Addr = pi_node (peer_of n i), mb_Dial = pi_dial (peer_of n i), mb_Learner = l\<rparr>)
      in sort_key mb_ID (map (member False) (cs_Voters (n_confState n)) @ map (member True) (cs_Learners (n_confState n))))"

definition notifyMembership :: "('r, 'd, 'p) RaftNode \<Rightarrow> ('r, 'd, 'p) RaftNode" where
  "notifyMembership n = (if nc_OnMembershipChange (n_cfg n) then emit_event (MembershipChanged (Members n)) n else n)"

definition isMember :: "('r, 'd, 'p) RaftNode \<Rightarrow> u64 \<Rightarrow> bool" where
  "isMember n i \<longleftrightarrow> i \<in> set (cs_Voters (n_confState n)) \<or> i \<in> set (cs_Learners (n_confState n))"

definition Leader :: "('r, 'm, 'd, 'p) seams \<Rightarrow> ('r, 'd, 'p) RaftNode \<Rightarrow> u64 \<times> bool" where
  "Leader S n = (Status_Lead (sm_raft S) (n_raft n), Status_isLeader (sm_raft S) (n_raft n))"

section \<open>The log\<close>

definition logName :: "u64 \<Rightarrow> gostring" where
  "logName seq = str ''raft/log.'' @ dec_string (unat seq)"

definition removeLog :: "('r, 'm, 'd, 'p) seams \<Rightarrow> u64 \<Rightarrow> ('r, 'd, 'p) RaftNode \<Rightarrow> ('r, 'd, 'p) RaftNode node_run" where
  "removeLog S seq n =
     (let (d, e) = Remove (sm_disk S) (n_disk n) (logName seq)
      in case e of
           Some e \<Rightarrow> if e \<noteq> ErrNotExist then go_panic (n\<lparr>n_disk := d\<rparr>) else go_on (n\<lparr>n_disk := d\<rparr>)
         | None \<Rightarrow> let (d, _) = Sync (sm_disk S) d (logName seq) in go_on (n\<lparr>n_disk := d\<rparr>))"

text \<open>\<open>log.Append(encodeRecord(rec))\<close>; a marshalling error panics as an append error does.\<close>

definition append_record ::
    "('r, 'm, 'd, 'p) seams \<Rightarrow> gostring \<Rightarrow> raft_record \<Rightarrow> ('r, 'd, 'p) RaftNode \<Rightarrow> ('r, 'd, 'p) RaftNode node_run" where
  "append_record S name rec n =
     (case encodeRecord (sm_wire S) (sm_pb S) rec of
        None \<Rightarrow> go_panic n
      | Some b \<Rightarrow>
          let (d, e) = Log_Append (sm_disk S) name (n_disk n) b
          in if e \<noteq> None then go_panic (n\<lparr>n_disk := d\<rparr>) else go_on (n\<lparr>n_disk := d\<rparr>))"

definition rotate :: "('r, 'm, 'd, 'p) seams \<Rightarrow> raft_record \<Rightarrow> ('r, 'd, 'p) RaftNode \<Rightarrow> ('r, 'd, 'p) RaftNode node_run" where
  "rotate S rec n =
     (let seq = n_logSeq n + 1
      in and_then (removeLog S seq n) (\<lambda>n.
           case Log_Open (sm_disk S) (n_disk n) (logName seq) of
             (d, Inr []) \<Rightarrow>
               and_then (append_record S (logName seq) rec (n\<lparr>n_disk := d\<rparr>)) (\<lambda>n.
                 let old = n_logSeq n
                 in removeLog S old (n\<lparr>n_log := logName seq, n_logSeq := seq\<rparr>))
           | (d, _) \<Rightarrow> go_panic (n\<lparr>n_disk := d\<rparr>)))"

section \<open>Snapshots\<close>

text \<open>A dump that meets a nil row panics, and so does a reset that fails.\<close>

definition adoptStore ::
    "('r, 'm, 'd, 'p) seams \<Rightarrow> 'p Store \<Rightarrow> u64 \<Rightarrow> ('r, 'd, 'p) RaftNode \<Rightarrow> ('r, 'd, 'p) RaftNode node_run" where
  "adoptStore S store index n =
     (case s_persist (n_store n) of
        None \<Rightarrow> go_on (n\<lparr>n_store := store, n_persistedIndex := index\<rparr>)
      | Some p \<Rightarrow>
          (case Dump (sm_wire S) store of
             None \<Rightarrow> go_panic n
           | Some rows \<Rightarrow>
               let (p, ok) = ResetAt (sm_db S) p index rows
               in if \<not> ok then go_panic (n\<lparr>n_store := (n_store n)\<lparr>s_persist := Some p\<rparr>\<rparr>)
                  else go_on (n\<lparr>n_store := SetPersister store p, n_persistedIndex := index\<rparr>)))"

text \<open>\<open>None\<close> inside is the error of \<^verbatim>\<open>restoreSnapshot\<close>.\<close>

definition restoreSnapshot ::
    "('r, 'm, 'd, 'p) seams \<Rightarrow> Snapshot \<Rightarrow> ('r, 'd, 'p) RaftNode \<Rightarrow> ('r, 'd, 'p) RaftNode node_run option" where
  "restoreSnapshot S snap n =
     (case decodeSnapshotData (sm_wire S) (sn_Data snap) of
        None \<Rightarrow> Some None
      | Some None \<Rightarrow> None
      | Some (Some ss) \<Rightarrow>
          (case ApplySnapshot (sm_raft S) (n_raft n) snap of
             None \<Rightarrow> None
           | Some r \<Rightarrow>
               let n = n\<lparr>n_raft := r\<rparr>; s = sn_Index snap
               in Some (and_then
                    (if \<not> (n_usePersisted n \<and> n_persistedIndex n \<ge> s) then adoptStore S (ss_store ss) s n else go_on n)
                    (\<lambda>n. go_on (notifyMembership (n\<lparr>
                      n_peers := n_peers n ++\<^sub>f ss_members ss,
                      n_removed := n_removed n |\<union>| ss_removed ss,
                      n_applied := s, n_snapIndex := s, n_confState := sn_ConfState snap\<rparr>))))))"

text \<open>\<open>None\<close> is the panic on a storage error.\<close>

definition currentHardState :: "('r, 'm, 'd, 'p) seams \<Rightarrow> HardState \<Rightarrow> ('r, 'd, 'p) RaftNode \<Rightarrow> HardState option" where
  "currentHardState S rdHS n =
     (if \<not> IsEmptyHardState (sm_pb S) rdHS then Some rdHS else InitialState (sm_raft S) (n_raft n))"

text \<open>The uncompacted tail of the log behind the snapshot.\<close>

definition snapshot_tail :: "('r, 'm, 'd, 'p) seams \<Rightarrow> ('r, 'd, 'p) RaftNode \<Rightarrow> Entry list option" where
  "snapshot_tail S n =
     (case LastIndex (sm_raft S) (n_raft n) of
        None \<Rightarrow> None
      | Some lastI \<Rightarrow>
          if lastI > n_applied n then StorageEntries (sm_raft S) (n_raft n) (n_applied n + 1) (lastI + 1) else Some [])"

definition maybeSnapshot :: "('r, 'm, 'd, 'p) seams \<Rightarrow> ('r, 'd, 'p) RaftNode \<Rightarrow> ('r, 'd, 'p) RaftNode node_run" where
  "maybeSnapshot S n =
     (if \<not> n_confChanged n \<and> n_applied n - n_snapIndex n < nc_SnapshotEntries (n_cfg n) then go_on n
      else if n_applied n \<le> n_snapIndex n then go_on n
      else
        let n = n\<lparr>n_confChanged := False\<rparr>
        in case Dump (sm_wire S) (n_store n) of
             None \<Rightarrow> go_panic n
           | Some rows \<Rightarrow>
               (case CreateSnapshot (sm_raft S) (n_raft n) (n_applied n) (n_confState n)
                       (encodeSnapshotData (sm_wire S) rows (n_peers n) (n_removed n)) of
                  None \<Rightarrow> go_panic n
                | Some (r, snap) \<Rightarrow>
                    (case Compact (sm_raft S) r (n_applied n) of
                       None \<Rightarrow> go_panic (n\<lparr>n_raft := r\<rparr>)
                     | Some r \<Rightarrow>
                         let n = n\<lparr>n_raft := r, n_snapIndex := n_applied n\<rparr>
                         in case snapshot_tail S n of
                              None \<Rightarrow> go_panic n
                            | Some tail \<Rightarrow>
                                (case currentHardState S zeroHardState n of
                                   None \<Rightarrow> go_panic n
                                 | Some hs \<Rightarrow> rotate S \<lparr>rec_hs = hs, rec_entries = tail, rec_snap = snap\<rparr> n))))"

section \<open>Proposals and apply\<close>

fun claimIndexes :: "Entry list \<Rightarrow> ('r, 'd, 'p) RaftNode \<Rightarrow> ('r, 'd, 'p) RaftNode" where
  "claimIndexes [] n = n"
| "claimIndexes (e # es) n =
     (case n_proposing n of
        [] \<Rightarrow> n
      | c # cs \<Rightarrow>
          if e_Type e \<noteq> EntryNormal \<or> length (e_Data e) = 0 then claimIndexes es n
          else claimIndexes es
                 (n\<lparr>n_waiters := fmupd (e_Index e) ((case fmlookup (n_waiters n) (e_Index e) of Some ws \<Rightarrow> ws | None \<Rightarrow> []) @ [c])
                                (n_waiters n),
                    n_proposing := cs\<rparr>))"

definition conf_address :: "('r, 'm, 'd, 'p) seams \<Rightarrow> ConfChange \<Rightarrow> ('r, 'd, 'p) RaftNode \<Rightarrow> ('r, 'd, 'p) RaftNode node_run" where
  "conf_address S cc n =
     (case cc_Type cc of
        ConfChangeRemoveNode \<Rightarrow>
          go_on (n\<lparr>n_peers := fmdrop (cc_NodeID cc) (n_peers n), n_removed := finsert (cc_NodeID cc) (n_removed n)\<rparr>)
      | ConfChangeUpdateNode \<Rightarrow> go_on n
      | _ \<Rightarrow>
          if length (cc_Context cc) > 0
          then case decodeMember (sm_wire S) (cc_Context cc) of
                 None \<Rightarrow> None
               | Some None \<Rightarrow> go_panic n
               | Some (Some (i, info)) \<Rightarrow>
                   if i \<noteq> cc_NodeID cc then go_panic n else go_on (n\<lparr>n_peers := fmupd i info (n_peers n)\<rparr>)
          else go_on n)"

definition apply_conf_change :: "('r, 'm, 'd, 'p) seams \<Rightarrow> Entry \<Rightarrow> ('r, 'd, 'p) RaftNode \<Rightarrow> ('r, 'd, 'p) RaftNode node_run" where
  "apply_conf_change S e n =
     (case Unmarshal_ConfChange (sm_raft S) zeroConfChange (e_Data e) of
        None \<Rightarrow> go_panic n
      | Some cc \<Rightarrow>
          and_then (conf_address S cc n) (\<lambda>n.
            let (r, cs) = RawApplyConfChange (sm_raft S) (n_raft n) cc;
                n = notifyMembership (n\<lparr>n_raft := r, n_confState := cs, n_confChanged := True\<rparr>)
            in go_on (if cc_Type cc = ConfChangeRemoveNode \<and> cc_NodeID cc = nc_ID (n_cfg n) \<and> nc_OnRemoved (n_cfg n)
                      then emit_event SelfRemoved n else n)))"

definition settle_waiters :: "u64 \<Rightarrow> apply_result res \<Rightarrow> ('r, 'd, 'p) RaftNode \<Rightarrow> ('r, 'd, 'p) RaftNode" where
  "settle_waiters index res n =
     (let ws = (case fmlookup (n_waiters n) index of Some ws \<Rightarrow> ws | None \<Rightarrow> [])
      in n\<lparr>n_out := n_out n @ map (\<lambda>c. Done c (Applied res)) ws, n_waiters := fmdrop index (n_waiters n)\<rparr>)"

definition apply_normal :: "('r, 'm, 'd, 'p) seams \<Rightarrow> Entry \<Rightarrow> ('r, 'd, 'p) RaftNode \<Rightarrow> ('r, 'd, 'p) RaftNode node_run" where
  "apply_normal S e n =
     (if length (e_Data e) = 0 then go_on n
      else if e_Index e \<le> n_persistedIndex n then go_on n
      else case DecodeProposal (sm_wire S) (e_Data e) of
             None \<Rightarrow> None
           | Some None \<Rightarrow> go_panic n
           | Some (Some p) \<Rightarrow>
               let n = n\<lparr>n_applyingIndex := e_Index e\<rparr>;
                   (st, res) = Apply (sm_wire S) (indexed_Commit S (n_applyingIndex n)) p (n_store n);
                   n = n\<lparr>n_store := st\<rparr>
               in if res = Inl ErrPersist then go_panic n else go_on (settle_waiters (e_Index e) res n))"

definition applyEntry :: "('r, 'm, 'd, 'p) seams \<Rightarrow> Entry \<Rightarrow> ('r, 'd, 'p) RaftNode \<Rightarrow> ('r, 'd, 'p) RaftNode node_run" where
  "applyEntry S e n =
     (let n = n\<lparr>n_applied := e_Index e\<rparr>
      in case e_Type e of
           EntryConfChange \<Rightarrow> apply_conf_change S e n
         | EntryNormal \<Rightarrow> apply_normal S e n
         | EntryConfChangeV2 \<Rightarrow> go_on n)"

section \<open>The Ready loop\<close>

text \<open>Appending the entries and setting the hard state in the memory storage, with their panics.\<close>

definition store_ready :: "('r, 'm, 'd, 'p) seams \<Rightarrow> 'm Ready \<Rightarrow> ('r, 'd, 'p) RaftNode \<Rightarrow> ('r, 'd, 'p) RaftNode node_run" where
  "store_ready S rd n =
     (case StorageAppend (sm_raft S) (n_raft n) (rd_Entries rd) of
        None \<Rightarrow> go_panic n
      | Some r \<Rightarrow>
          let n = n\<lparr>n_raft := r\<rparr>
          in if \<not> IsEmptyHardState (sm_pb S) (rd_HardState rd)
             then case SetHardState (sm_raft S) (n_raft n) (rd_HardState rd) of
                    None \<Rightarrow> go_panic n
                  | Some r \<Rightarrow> go_on (n\<lparr>n_raft := r\<rparr>)
             else go_on n)"

definition persist_ready :: "('r, 'm, 'd, 'p) seams \<Rightarrow> 'm Ready \<Rightarrow> ('r, 'd, 'p) RaftNode \<Rightarrow> ('r, 'd, 'p) RaftNode node_run" where
  "persist_ready S rd n =
     (if \<not> IsEmptySnap (sm_pb S) (rd_Snapshot rd)
      then
        let n = n\<lparr>n_snapshotsReceived := n_snapshotsReceived n + 1\<rparr>
        in and_then (case restoreSnapshot S (rd_Snapshot rd) n of None \<Rightarrow> go_panic n | Some r \<Rightarrow> r) (\<lambda>n.
             and_then (store_ready S rd n) (\<lambda>n.
               case currentHardState S (rd_HardState rd) n of
                 None \<Rightarrow> go_panic n
               | Some hs \<Rightarrow> rotate S \<lparr>rec_hs = hs, rec_entries = rd_Entries rd, rec_snap = rd_Snapshot rd\<rparr> n))
      else if \<not> IsEmptyHardState (sm_pb S) (rd_HardState rd) \<or> length (rd_Entries rd) > 0
      then and_then (append_record S (n_log n)
                       \<lparr>rec_hs = rd_HardState rd, rec_entries = rd_Entries rd, rec_snap = zeroSnapshot\<rparr> n) (store_ready S rd)
      else go_on n)"

definition send_message :: "('r, 'm, 'd, 'p) seams \<Rightarrow> 'm \<Rightarrow> ('r, 'd, 'p) RaftNode \<Rightarrow> ('r, 'd, 'p) RaftNode node_run" where
  "send_message S m n =
     (case fmlookup (n_peers n) (Message_To (sm_raft S) m) of
        None \<Rightarrow> go_on n
      | Some to \<Rightarrow>
          (case Marshal_Message (sm_raft S) m of
             None \<Rightarrow> go_panic n
           | Some data \<Rightarrow>
               let n = emit_event (Sent (pi_node to) (encodeEnvelope (sm_wire S) kindRaft data)) n
               in go_on (if Message_Type (sm_raft S) m = MsgSnap
                         then n\<lparr>n_raft := ReportSnapshot (sm_raft S) (n_raft n) (Message_To (sm_raft S) m)\<rparr> else n)))"

text \<open>One turn of the loop of \<^verbatim>\<open>processReady\<close>.\<close>

definition ready_turn :: "('r, 'm, 'd, 'p) seams \<Rightarrow> ('r, 'd, 'p) RaftNode \<Rightarrow> ('r, 'd, 'p) RaftNode node_run" where
  "ready_turn S n =
     (let (r, rd) = TakeReady (sm_raft S) (n_raft n)
      in and_then (persist_ready S rd (n\<lparr>n_raft := r\<rparr>)) (\<lambda>n.
           let n = claimIndexes (rd_Entries rd) n
           in and_then (each (send_message S) (rd_Messages rd) n) (\<lambda>n.
                and_then (each (applyEntry S) (rd_CommittedEntries rd) n) (\<lambda>n.
                  and_then (maybeSnapshot S n) (\<lambda>n.
                    go_on (n\<lparr>n_raft := Advance (sm_raft S) (n_raft n) rd\<rparr>))))))"

partial_function (option) processReady ::
    "('r, 'm, 'd, 'p) seams \<Rightarrow> ('r, 'd, 'p) RaftNode \<Rightarrow> ('r, 'd, 'p) RaftNode outcome option" where
  "processReady S n =
     (if HasReady (sm_raft S) (n_raft n)
      then Option.bind (ready_turn S n) (\<lambda>y. case y of Running n \<Rightarrow> processReady S n | Panicked n \<Rightarrow> Some (Panicked n))
      else Some (Running n))"

section \<open>Handlers\<close>

definition Propose ::
    "('r, 'm, 'd, 'p) seams \<Rightarrow> proposal \<Rightarrow> nat \<Rightarrow> ('r, 'd, 'p) RaftNode \<Rightarrow> ('r, 'd, 'p) RaftNode node_run" where
  "Propose S p cb n =
     (if \<not> snd (Leader S n) then go_on (emit_event (Done cb NotLeader) n)
      else
        let n = n\<lparr>n_proposing := n_proposing n @ [cb]\<rparr>;
            (r, ok) = RawPropose (sm_raft S) (n_raft n) (EncodeProposal (sm_wire S) p);
            n = n\<lparr>n_raft := r\<rparr>
        in if \<not> ok then go_on (emit_event (Done cb ProposeFailed) (n\<lparr>n_proposing := butlast (n_proposing n)\<rparr>))
           else processReady S n)"

text \<open>The result of a membership call: \<open>False\<close> is an error, returned to the caller.\<close>

definition proposeConfChange ::
    "('r, 'm, 'd, 'p) seams \<Rightarrow> ConfChange \<Rightarrow> ('r, 'd, 'p) RaftNode \<Rightarrow> ('r, 'd, 'p) RaftNode node_run \<times> bool" where
  "proposeConfChange S cc n =
     (if \<not> snd (Leader S n) then (go_on n, False)
      else
        let (r, ok) = RawProposeConfChange (sm_raft S) (n_raft n) cc; n = n\<lparr>n_raft := r\<rparr>
        in if \<not> ok then (go_on n, False)
           else (processReady S (n\<lparr>n_confCooldown := nc_ElectionTicks (n_cfg n)\<rparr>), True))"

definition AddNode ::
    "('r, 'm, 'd, 'p) seams \<Rightarrow> u64 \<Rightarrow> gostring \<Rightarrow> gostring \<Rightarrow> ('r, 'd, 'p) RaftNode \<Rightarrow> ('r, 'd, 'p) RaftNode node_run \<times> bool" where
  "AddNode S i addr dial n =
     (if isMember n i then (go_on n, True)
      else if i |\<in>| n_removed n then (go_on n, False)
      else proposeConfChange S \<lparr>cc_ID = 0, cc_Type = ConfChangeAddLearnerNode, cc_NodeID = i,
             cc_Context = encodeMember (sm_wire S) i \<lparr>pi_node = addr, pi_dial = dial\<rparr>\<rparr> n)"

definition RemoveNode ::
    "('r, 'm, 'd, 'p) seams \<Rightarrow> u64 \<Rightarrow> ('r, 'd, 'p) RaftNode \<Rightarrow> ('r, 'd, 'p) RaftNode node_run \<times> bool" where
  "RemoveNode S i n = proposeConfChange S \<lparr>cc_ID = 0, cc_Type = ConfChangeRemoveNode, cc_NodeID = i, cc_Context = []\<rparr> n"

text \<open>The first learner, by ID, whose log has caught up with the log of the leader.\<close>

definition caught_up :: "('r, 'm, 'd, 'p) seams \<Rightarrow> u64 \<Rightarrow> ('r, 'd, 'p) RaftNode \<Rightarrow> u64 \<Rightarrow> bool" where
  "caught_up S lastI n i =
     (case Status_Match (sm_raft S) (n_raft n) i of
        None \<Rightarrow> False
      | Some match \<Rightarrow> \<not> (match = 0 \<or> match + promoteLag < lastI))"

definition maybePromote :: "('r, 'm, 'd, 'p) seams \<Rightarrow> ('r, 'd, 'p) RaftNode \<Rightarrow> ('r, 'd, 'p) RaftNode node_run" where
  "maybePromote S n =
     (if n_confCooldown n > 0 \<or> length (cs_Voters (n_confState n)) \<ge> maxVoters \<or> length (cs_Learners (n_confState n)) = 0
      then go_on n
      else case LastIndex (sm_raft S) (n_raft n) of
             None \<Rightarrow> go_panic n
           | Some lastI \<Rightarrow>
               (case find (caught_up S lastI n) (sort (cs_Learners (n_confState n))) of
                  None \<Rightarrow> go_on n
                | Some i \<Rightarrow>
                    fst (proposeConfChange S \<lparr>cc_ID = 0, cc_Type = ConfChangeAddNode, cc_NodeID = i,
                           cc_Context = encodeMember (sm_wire S) i (peer_of n i)\<rparr> n)))"

definition maybeRequestAdmission :: "('r, 'm, 'd, 'p) seams \<Rightarrow> ('r, 'd, 'p) RaftNode \<Rightarrow> ('r, 'd, 'p) RaftNode" where
  "maybeRequestAdmission S n =
     (let me = nc_ID (n_cfg n)
      in if \<not> nc_Join (n_cfg n) \<or> isMember n me then n
         else if n_admitCooldown n > 0 then n\<lparr>n_admitCooldown := n_admitCooldown n - 1\<rparr>
         else
           let n = n\<lparr>n_admitCooldown := nc_ElectionTicks (n_cfg n)\<rparr>;
               admit = encodeEnvelope (sm_wire S) kindAdmit (encodeMember (sm_wire S) me (peer_of n me))
           in foldl (\<lambda>n i. if i \<noteq> me then emit_event (Sent (pi_node (peer_of n i)) admit) n else n) n
                (sorted_list_of_set (fset (fmdom (n_peers n)))))"

definition HandleMessage ::
    "('r, 'm, 'd, 'p) seams \<Rightarrow> int \<Rightarrow> bytes \<Rightarrow> ('r, 'd, 'p) RaftNode \<Rightarrow> ('r, 'd, 'p) RaftNode node_run" where
  "HandleMessage S now msg n =
     (case decodeEnvelope (sm_wire S) msg of
        None \<Rightarrow> None
      | Some None \<Rightarrow> go_on n
      | Some (Some (kind, payload)) \<Rightarrow>
          if kind = kindRaft
          then case Unmarshal_Message (sm_raft S) payload of
                 None \<Rightarrow> go_on n
               | Some m \<Rightarrow>
                   let n = (if Message_Type (sm_raft S) m \<in> {MsgApp, MsgHeartbeat, MsgSnap} then n\<lparr>n_lastHeard := now\<rparr> else n);
                       (r, ok) = Step (sm_raft S) (n_raft n) m;
                       n = n\<lparr>n_raft := r\<rparr>
                   in if \<not> ok then go_on n else processReady S n
          else if kind = kindAdmit
          then case decodeMember (sm_wire S) payload of
                 None \<Rightarrow> None
               | Some None \<Rightarrow> go_on n
               | Some (Some (i, info)) \<Rightarrow>
                   if i = 0 then go_on n else fst (AddNode S i (pi_node info) (pi_dial info) n)
          else go_on n)"

text \<open>\<^verbatim>\<open>Rand.IntN\<close> panics on a bound that is not positive; the generator is a tape of draws.\<close>

definition rearmElection :: "('r, 'd, 'p) RaftNode \<Rightarrow> ('r, 'd, 'p) RaftNode node_run" where
  "rearmElection n =
     (let e = nc_ElectionTicks (n_cfg n)
      in if e \<le> 0 then go_panic n
         else let (draw, rng) = IntN (n_rand n) (nat e)
              in go_on (n\<lparr>n_rand := rng,
                   n_electionAfter := word_of_int (e + int draw) * nc_TickInterval (n_cfg n)\<rparr>))"

text \<open>\<^verbatim>\<open>Time.Sub\<close> saturates at the range of \<^verbatim>\<open>Duration\<close>.\<close>

definition time_Sub :: "int \<Rightarrow> int \<Rightarrow> int" where
  "time_Sub a b = max (- (2 ^ 63)) (min (2 ^ 63 - 1) (a - b))"

definition onTick :: "('r, 'm, 'd, 'p) seams \<Rightarrow> int \<Rightarrow> ('r, 'd, 'p) RaftNode \<Rightarrow> ('r, 'd, 'p) RaftNode node_run" where
  "onTick S now n =
     (let n = emit_event (ArmedTick (nc_TickInterval (n_cfg n))) n;
          n = n\<lparr>n_raft := Tick (sm_raft S) (n_raft n)\<rparr>;
          n = (if n_confCooldown n > 0 then n\<lparr>n_confCooldown := n_confCooldown n - 1\<rparr> else n);
          n = maybeRequestAdmission S n
      in and_then
           (if snd (Leader S n) then maybePromote S (n\<lparr>n_lastHeard := now\<rparr>)
            else if time_Sub now (n_lastHeard n) \<ge> sint (n_electionAfter n)
            then rearmElection (n\<lparr>n_raft := Campaign (sm_raft S) (n_raft n), n_lastHeard := now\<rparr>)
            else go_on n)
           (processReady S))"

end
