(* ===== verification/Raft_Boot.thy ===== *)
theory Raft_Boot
  imports Raft_Node
begin

text \<open>
  Boot and disaster recovery: \<^verbatim>\<open>New\<close>, \<^verbatim>\<open>recover\<close>, \<^verbatim>\<open>replay\<close> and \<^verbatim>\<open>openPersistedStore\<close> of
  \<^verbatim>\<open>internal/raftnode/raftnode.go\<close>, and \<^verbatim>\<open>ForceNewCluster\<close> of \<^verbatim>\<open>internal/raftnode/recover.go\<close>.

  A boot comes up, fails with an error or panics; each keeps the node, whose disk outlives it.
\<close>

datatype 'n boot = Up 'n | BootError 'n | BootPanic 'n

definition up :: "'n \<Rightarrow> 'n boot option" where
  "up n = Some (Up n)"

definition boot_error :: "'n \<Rightarrow> 'n boot option" where
  "boot_error n = Some (BootError n)"

definition boot_then :: "'n boot option \<Rightarrow> ('n \<Rightarrow> 'n boot option) \<Rightarrow> 'n boot option" where
  "boot_then x f = Option.bind x (\<lambda>y. case y of Up n \<Rightarrow> f n | _ \<Rightarrow> Some y)"

definition boot_run :: "'n node_run \<Rightarrow> 'n boot option" where
  "boot_run x = map_option (\<lambda>y. case y of Running n \<Rightarrow> Up n | Panicked n \<Rightarrow> BootPanic n) x"

section \<open>The log files of a disk\<close>

text \<open>\<^verbatim>\<open>strconv.ParseUint\<close> in base ten, 64 bits.\<close>

definition ParseUint :: "gostring \<Rightarrow> u64 option" where
  "ParseUint s =
     (if s = [] \<or> list_ex (\<lambda>b. b < 48 \<or> 57 < b) s then None
      else if 2 ^ 64 \<le> dec_value s then None
      else Some (word_of_nat (dec_value s)))"

definition log_prefix :: gostring where
  "log_prefix = str ''raft/log.''"

text \<open>\<open>None\<close> is the error on an alien log file.\<close>

fun log_seqs :: "gostring list \<Rightarrow> u64 list option" where
  "log_seqs [] = Some []"
| "log_seqs (name # names) =
     (if prefix log_prefix name
      then case ParseUint (drop (length log_prefix) name) of
             None \<Rightarrow> None
           | Some seq \<Rightarrow> map_option ((#) seq) (log_seqs names)
      else log_seqs names)"

definition validLog :: "('r, 'm, 'd, 'p) seams \<Rightarrow> bytes list \<Rightarrow> bool \<Rightarrow> bool option" where
  "validLog S records oldest =
     (if oldest then Some True
      else if length records = 0 then Some False
      else map_option (\<lambda>r. case r of None \<Rightarrow> False | Some rec \<Rightarrow> \<not> IsEmptySnap (sm_pb S) (rec_snap rec))
             (decodeRecord (sm_wire S) (sm_pb S) (hd records)))"

section \<open>Boot\<close>

definition replay_record ::
    "('r, 'm, 'd, 'p) seams \<Rightarrow> raft_record \<Rightarrow> ('r, 'd, 'p) RaftNode \<Rightarrow> ('r, 'd, 'p) RaftNode boot option" where
  "replay_record S rec n =
     boot_then
       (if \<not> IsEmptySnap (sm_pb S) (rec_snap rec)
        then case restoreSnapshot S (rec_snap rec) n of None \<Rightarrow> boot_error n | Some r \<Rightarrow> boot_run r
        else up n)
       (\<lambda>n. case StorageAppend (sm_raft S) (n_raft n) (rec_entries rec) of
              None \<Rightarrow> boot_error n
            | Some r \<Rightarrow>
                let n = n\<lparr>n_raft := r\<rparr>
                in if \<not> IsEmptyHardState (sm_pb S) (rec_hs rec)
                   then case SetHardState (sm_raft S) (n_raft n) (rec_hs rec) of
                          None \<Rightarrow> boot_error n
                        | Some r \<Rightarrow> up (n\<lparr>n_raft := r\<rparr>)
                   else up n)"

fun replay_log ::
    "('r, 'm, 'd, 'p) seams \<Rightarrow> bytes list \<Rightarrow> ('r, 'd, 'p) RaftNode \<Rightarrow> ('r, 'd, 'p) RaftNode boot option" where
  "replay_log S [] n = up n"
| "replay_log S (raw # records) n =
     (case decodeRecord (sm_wire S) (sm_pb S) raw of
        None \<Rightarrow> None
      | Some None \<Rightarrow> boot_error n
      | Some (Some rec) \<Rightarrow> boot_then (replay_record S rec n) (replay_log S records))"

text \<open>The loop over the files, newest first; \<open>seqs\<close> are all of them.\<close>

fun recover_from ::
    "('r, 'm, 'd, 'p) seams \<Rightarrow> u64 list \<Rightarrow> u64 list \<Rightarrow> ('r, 'd, 'p) RaftNode \<Rightarrow> ('r, 'd, 'p) RaftNode boot option" where
  "recover_from S seqs [] n = boot_error n"
| "recover_from S seqs (seq # rest) n =
     (case Log_Open (sm_disk S) (n_disk n) (logName seq) of
        (d, Inl e) \<Rightarrow> boot_error (n\<lparr>n_disk := d\<rparr>)
      | (d, Inr records) \<Rightarrow>
          let n = n\<lparr>n_disk := d\<rparr>
          in case validLog S records (rest = []) of
               None \<Rightarrow> None
             | Some False \<Rightarrow> recover_from S seqs rest n
             | Some True \<Rightarrow>
                 boot_then (replay_log S records (n\<lparr>n_log := logName seq, n_logSeq := seq\<rparr>))
                   (\<lambda>n. boot_run (each (\<lambda>other. if other \<noteq> seq then removeLog S other else go_on) seqs n)))"

text \<open>\<^verbatim>\<open>recover\<close>: the node, and whether the disk held no log.\<close>

definition recover ::
    "('r, 'm, 'd, 'p) seams \<Rightarrow> ('r, 'd, 'p) RaftNode \<Rightarrow> ('r, 'd, 'p) RaftNode boot option \<times> bool" where
  "recover S n =
     (case ListNames (sm_disk S) (n_disk n) of
        Inl e \<Rightarrow> (boot_error n, False)
      | Inr names \<Rightarrow>
          (case log_seqs names of
             None \<Rightarrow> (boot_error n, False)
           | Some [] \<Rightarrow>
               (case Log_Open (sm_disk S) (n_disk n) (logName 1) of
                  (d, Inl e) \<Rightarrow> (boot_error (n\<lparr>n_disk := d, n_logSeq := 1\<rparr>), True)
                | (d, Inr _) \<Rightarrow> (up (n\<lparr>n_disk := d, n_logSeq := 1, n_log := logName 1\<rparr>), True))
           | Some seqs \<Rightarrow> (recover_from S (rev (sort seqs)) (rev (sort seqs)) n, False)))"

definition openPersistedStore ::
    "('r, 'm, 'd, 'p) seams \<Rightarrow> 'p option \<Rightarrow> ('r, 'd, 'p) RaftNode \<Rightarrow> ('r, 'd, 'p) RaftNode option" where
  "openPersistedStore S db n =
     (case db of
        None \<Rightarrow> Some n
      | Some p \<Rightarrow>
          let rebuild = n\<lparr>n_store := SetPersister (n_store n) p\<rparr>
          in case LoadState (sm_db S) p of
               Some (rows, idx, True) \<Rightarrow>
                 (case restore_rows (sm_wire S) NewStore (map (\<lambda>r. (row_Key r, row_Value r)) rows) of
                    None \<Rightarrow> None
                  | Some None \<Rightarrow> Some rebuild
                  | Some (Some store) \<Rightarrow>
                      Some (n\<lparr>n_store := SetPersister store p, n_usePersisted := True, n_persistedIndex := idx\<rparr>))
             | _ \<Rightarrow> Some rebuild)"

definition new_node :: "('r, 'm, 'd, 'p) seams \<Rightarrow> NodeConfig \<Rightarrow> 'd \<Rightarrow> nat list \<Rightarrow> ('r, 'd, 'p) RaftNode" where
  "new_node S cfg d rng =
     \<lparr>n_cfg = cfg, n_raft = NewMemoryStorage (sm_raft S), n_disk = d, n_log = [], n_logSeq = 0, n_store = NewStore,
      n_applyingIndex = 0, n_usePersisted = False, n_persistedIndex = 0, n_applied = 0, n_snapIndex = 0,
      n_confState = zeroConfState,
      n_peers = fmmap_keys (\<lambda>i node. \<lparr>pi_node = node, pi_dial = (case fmlookup (nc_Dials cfg) i of Some x \<Rightarrow> x | None \<Rightarrow> [])\<rparr>)
                  (nc_Peers cfg),
      n_removed = {||}, n_waiters = fmempty, n_proposing = [], n_confCooldown = 0, n_confChanged = False,
      n_admitCooldown = 0, n_lastHeard = 0, n_electionAfter = 0, n_snapshotsReceived = 0, n_rand = rng, n_out = []\<rparr>"

text \<open>The founding configuration of a fresh cluster.\<close>

definition found_cluster :: "('r, 'm, 'd, 'p) seams \<Rightarrow> ('r, 'd, 'p) RaftNode \<Rightarrow> ('r, 'd, 'p) RaftNode boot option" where
  "found_cluster S n =
     (let ids = sorted_list_of_set (fset (fmdom (nc_Peers (n_cfg n))))
      in if length ids > maxVoters then boot_error n
         else case Bootstrap (sm_raft S) (n_raft n) (map (\<lambda>i. (i, encodeMember (sm_wire S) i (peer_of n i))) ids) of
                None \<Rightarrow> boot_error n
              | Some r \<Rightarrow> up (n\<lparr>n_raft := r\<rparr>))"

definition NewNode ::
    "('r, 'm, 'd, 'p) seams \<Rightarrow> NodeConfig \<Rightarrow> 'p option \<Rightarrow> 'd \<Rightarrow> nat list \<Rightarrow> int \<Rightarrow> ('r, 'd, 'p) RaftNode boot option" where
  "NewNode S cfg db d rng now =
     (let cfg = (if nc_SnapshotEntries cfg = 0 then cfg\<lparr>nc_SnapshotEntries := defaultSnapshotEntries\<rparr> else cfg)
      in Option.bind (openPersistedStore S db (new_node S cfg d rng)) (\<lambda>n.
           let (b, fresh) = recover S n
           in boot_then b (\<lambda>n.
                case NewRawNode (sm_raft S) (n_raft n) (nc_ID cfg) (n_applied n) of
                  None \<Rightarrow> boot_error n
                | Some r \<Rightarrow>
                    let n = n\<lparr>n_raft := r\<rparr>
                    in boot_then (if fresh \<and> \<not> nc_Join cfg then found_cluster S n else up n) (\<lambda>n.
                         boot_run (and_then (rearmElection (n\<lparr>n_lastHeard := now\<rparr>)) (\<lambda>n.
                           processReady S (emit_event (ArmedTick (nc_TickInterval cfg)) n)))))))"

section \<open>A new cluster from the survivor\<close>

record ('r, 'p) survivor =
  sv_raft :: 'r
  sv_store :: "'p Store"
  sv_peers :: "(u64, peerInfo) fmap"
  sv_gone :: "u64 fset"

record RecoverySummary =
  sum_LastIndex :: u64
  sum_Removed :: "RaftMember list"

text \<open>A step: \<open>None\<close> does not return, \<open>Some None\<close> is the error.\<close>

definition survivor_record ::
    "('r, 'm, 'd, 'p) seams \<Rightarrow> raft_record \<Rightarrow> ('r, 'p) survivor \<Rightarrow> ('r, 'p) survivor option option" where
  "survivor_record S rec v =
     (let stored = (\<lambda>v. case StorageAppend (sm_raft S) (sv_raft v) (rec_entries rec) of
                          None \<Rightarrow> None
                        | Some r \<Rightarrow>
                            if \<not> IsEmptyHardState (sm_pb S) (rec_hs rec)
                            then map_option (\<lambda>r. v\<lparr>sv_raft := r\<rparr>) (SetHardState (sm_raft S) r (rec_hs rec))
                            else Some (v\<lparr>sv_raft := r\<rparr>))
      in if \<not> IsEmptySnap (sm_pb S) (rec_snap rec)
         then case decodeSnapshotData (sm_wire S) (sn_Data (rec_snap rec)) of
                None \<Rightarrow> None
              | Some None \<Rightarrow> Some None
              | Some (Some ss) \<Rightarrow>
                  (case ApplySnapshot (sm_raft S) (sv_raft v) (rec_snap rec) of
                     None \<Rightarrow> Some None
                   | Some r \<Rightarrow>
                       Some (stored \<lparr>sv_raft = r, sv_store = ss_store ss, sv_peers = ss_members ss, sv_gone = ss_removed ss\<rparr>))
         else Some (stored v))"

fun survivor_records ::
    "('r, 'm, 'd, 'p) seams \<Rightarrow> bytes list \<Rightarrow> ('r, 'p) survivor \<Rightarrow> ('r, 'p) survivor option option" where
  "survivor_records S [] v = Some (Some v)"
| "survivor_records S (raw # records) v =
     (case decodeRecord (sm_wire S) (sm_pb S) raw of
        None \<Rightarrow> None
      | Some None \<Rightarrow> Some None
      | Some (Some rec) \<Rightarrow>
          (case survivor_record S rec v of
             None \<Rightarrow> None
           | Some None \<Rightarrow> Some None
           | Some (Some v) \<Rightarrow> survivor_records S records v))"

definition survivor_conf ::
    "('r, 'm, 'd, 'p) seams \<Rightarrow> ConfChange \<Rightarrow> ('r, 'p) survivor \<Rightarrow> ('r, 'p) survivor option" where
  "survivor_conf S cc v =
     (case cc_Type cc of
        ConfChangeRemoveNode \<Rightarrow>
          Some (v\<lparr>sv_peers := fmdrop (cc_NodeID cc) (sv_peers v), sv_gone := finsert (cc_NodeID cc) (sv_gone v)\<rparr>)
      | ConfChangeUpdateNode \<Rightarrow> Some v
      | _ \<Rightarrow>
          if length (cc_Context cc) > 0
          then map_option (\<lambda>m. case m of
                 Some (i, info) \<Rightarrow> if i = cc_NodeID cc then v\<lparr>sv_peers := fmupd i info (sv_peers v)\<rparr> else v
               | None \<Rightarrow> v) (decodeMember (sm_wire S) (cc_Context cc))
          else Some v)"

definition survivor_entry ::
    "('r, 'm, 'd, 'p) seams \<Rightarrow> Entry \<Rightarrow> ('r, 'p) survivor \<Rightarrow> ('r, 'p) survivor option option" where
  "survivor_entry S e v =
     (if e_Type e = EntryNormal \<and> length (e_Data e) > 0
      then case DecodeProposal (sm_wire S) (e_Data e) of
             None \<Rightarrow> None
           | Some None \<Rightarrow> Some None
           | Some (Some p) \<Rightarrow>
               Some (Some (v\<lparr>sv_store := fst (Apply (sm_wire S) (indexed_Commit S 0) p (sv_store v))\<rparr>))
      else if e_Type e = EntryConfChange
      then case Unmarshal_ConfChange (sm_raft S) zeroConfChange (e_Data e) of
             None \<Rightarrow> Some None
           | Some cc \<Rightarrow> map_option Some (survivor_conf S cc v)
      else Some (Some v))"

fun survivor_entries ::
    "('r, 'm, 'd, 'p) seams \<Rightarrow> Entry list \<Rightarrow> ('r, 'p) survivor \<Rightarrow> ('r, 'p) survivor option option" where
  "survivor_entries S [] v = Some (Some v)"
| "survivor_entries S (e # es) v =
     (case survivor_entry S e v of
        None \<Rightarrow> None
      | Some None \<Rightarrow> Some None
      | Some (Some v) \<Rightarrow> survivor_entries S es v)"

text \<open>
  The newest valid log, loaded as boot does; \<open>seqs\<close> are newest first. The first component is the
  disk.
\<close>

fun survivor_load ::
    "('r, 'm, 'd, 'p) seams \<Rightarrow> u64 list \<Rightarrow> 'd \<Rightarrow> ('d \<times> bytes list option) option" where
  "survivor_load S [] d = Some (d, None)"
| "survivor_load S (seq # rest) d =
     (case Log_Open (sm_disk S) d (logName seq) of
        (d, Inl e) \<Rightarrow> Some (d, None)
      | (d, Inr records) \<Rightarrow>
          (case validLog S records (rest = []) of
             None \<Rightarrow> None
           | Some False \<Rightarrow> survivor_load S rest d
           | Some True \<Rightarrow> Some (d, Some records)))"

text \<open>The whole log applied: the survivor, the hard state, the last index and its term.\<close>

definition survivor_state ::
    "('r, 'm, 'd, 'p) seams \<Rightarrow> bytes list \<Rightarrow> (('r, 'p) survivor \<times> HardState \<times> u64 \<times> u64) option option" where
  "survivor_state S records =
     (case survivor_records S records
             \<lparr>sv_raft = NewMemoryStorage (sm_raft S), sv_store = NewStore, sv_peers = fmempty, sv_gone = {||}\<rparr> of
        None \<Rightarrow> None
      | Some None \<Rightarrow> Some None
      | Some (Some v) \<Rightarrow>
          (case (InitialState (sm_raft S) (sv_raft v), FirstIndex (sm_raft S) (sv_raft v), LastIndex (sm_raft S) (sv_raft v)) of
             (Some hs, Some first, Some lastI) \<Rightarrow>
               let close = (\<lambda>v. map_option (\<lambda>t. (v, hs, lastI, t)) (StorageTerm (sm_raft S) (sv_raft v) lastI))
               in if lastI \<ge> first
                  then case StorageEntries (sm_raft S) (sv_raft v) first (lastI + 1) of
                         None \<Rightarrow> Some None
                       | Some ents \<Rightarrow>
                           (case survivor_entries S ents v of
                              None \<Rightarrow> None
                            | Some None \<Rightarrow> Some None
                            | Some (Some v) \<Rightarrow> Some (close v))
                  else Some (close v)
           | _ \<Rightarrow> Some None))"

fun remove_logs :: "'d Disk \<Rightarrow> u64 list \<Rightarrow> 'd \<Rightarrow> 'd \<times> bool" where
  "remove_logs ops [] d = (d, True)"
| "remove_logs ops (seq # seqs) d =
     (case Remove ops d (logName seq) of
        (d, Some e) \<Rightarrow> (d, False)
      | (d, None) \<Rightarrow> let (d, _) = Sync ops d (logName seq) in remove_logs ops seqs d)"

text \<open>The record of the new history; \<open>None\<close> is the panic of the dump.\<close>

definition survivor_frame ::
    "('r, 'm, 'd, 'p) seams \<Rightarrow> u64 \<Rightarrow> peerInfo \<Rightarrow> ('r, 'p) survivor \<times> HardState \<times> u64 \<times> u64 \<Rightarrow> raft_record option" where
  "survivor_frame S me self x =
     (let (v, hs, lastI, lastTerm) = x
      in map_option (\<lambda>rows.
           \<lparr>rec_hs = \<lparr>hs_Term = hs_Term hs, hs_Vote = hs_Vote hs, hs_Commit = lastI\<rparr>,
            rec_entries = [],
            rec_snap = \<lparr>sn_Data = encodeSnapshotData (sm_wire S) rows (fmupd me self fmempty) (sv_gone v),
              sn_ConfState = zeroConfState\<lparr>cs_Voters := [me]\<rparr>, sn_Index = lastI, sn_Term = lastTerm\<rparr>\<rparr>)
         (Dump (sm_wire S) (sv_store v)))"

definition survivor_summary :: "u64 \<Rightarrow> ('r, 'p) survivor \<times> HardState \<times> u64 \<times> u64 \<Rightarrow> RecoverySummary" where
  "survivor_summary me x =
     (let (v, _, lastI, _) = x
      in \<lparr>sum_LastIndex = lastI,
          sum_Removed = map (\<lambda>i. let info = the (fmlookup (sv_peers v) i)
              in \<lparr>mb_ID = i, mb_Addr = pi_node info, mb_Dial = pi_dial info, mb_Learner = False\<rparr>)
            (filter (\<lambda>i. i \<noteq> me) (sorted_list_of_set (fset (fmdom (sv_peers v)))))\<rparr>)"

datatype force_result = Recovered RecoverySummary | ForceError | ForcePanic

text \<open>Writing the new log file \<open>newSeq\<close>, then removing the old ones.\<close>

definition force_write ::
    "('r, 'm, 'd, 'p) seams \<Rightarrow> u64 list \<Rightarrow> raft_record \<Rightarrow> RecoverySummary \<Rightarrow> 'd \<Rightarrow> 'd \<times> force_result" where
  "force_write S seqs rec summary d =
     (let newSeq = last seqs + 1
      in case Log_Open (sm_disk S) d (logName newSeq) of
           (d, Inr []) \<Rightarrow>
             (case encodeRecord (sm_wire S) (sm_pb S) rec of
                None \<Rightarrow> (d, ForcePanic)
              | Some b \<Rightarrow>
                  (case Log_Append (sm_disk S) (logName newSeq) d b of
                     (d, Some e) \<Rightarrow> (d, ForceError)
                   | (d, None) \<Rightarrow>
                       (case remove_logs (sm_disk S) seqs d of
                          (d, False) \<Rightarrow> (d, ForceError)
                        | (d, True) \<Rightarrow> (d, Recovered summary))))
         | (d, _) \<Rightarrow> (d, ForceError))"

definition ForceNewCluster ::
    "('r, 'm, 'd, 'p) seams \<Rightarrow> u64 \<Rightarrow> gostring \<Rightarrow> gostring \<Rightarrow> 'd \<Rightarrow> ('d \<times> force_result) option" where
  "ForceNewCluster S me node dial d =
     (case ListNames (sm_disk S) d of
        Inl e \<Rightarrow> Some (d, ForceError)
      | Inr names \<Rightarrow>
          (case map_option sort (log_seqs names) of
             None \<Rightarrow> Some (d, ForceError)
           | Some [] \<Rightarrow> Some (d, ForceError)
           | Some seqs \<Rightarrow>
               (case survivor_load S (rev seqs) d of
                  None \<Rightarrow> None
                | Some (d, None) \<Rightarrow> Some (d, ForceError)
                | Some (d, Some records) \<Rightarrow>
                    (case survivor_state S records of
                       None \<Rightarrow> None
                     | Some None \<Rightarrow> Some (d, ForceError)
                     | Some (Some x) \<Rightarrow>
                         (case survivor_frame S me \<lparr>pi_node = node, pi_dial = dial\<rparr> x of
                            None \<Rightarrow> Some (d, ForcePanic)
                          | Some rec \<Rightarrow> Some (force_write S seqs rec (survivor_summary me x) d))))))"

end
