(* ===== verification/Raft_Codec.thy ===== *)
theory Raft_Codec
  imports Raft_Record Datapath_Codec
begin

text \<open>
  The codecs of the consensus layer are sound: a log record, a member, an envelope and a snapshot of
  a whole metadata store are read back as they were written, and the decoders return on every input.
\<close>

section \<open>Walking fields\<close>

lemma field_walk_Nil [simp]: "field_walk step [] s = Some (Some s)"
  by (subst field_walk.simps) simp

lemma field_walk_next:
  "step (f @ b) s = Some (Some (b, s')) \<Longrightarrow> f \<noteq> [] \<Longrightarrow> field_walk step (f @ b) s = field_walk step b s'"
  by (subst field_walk.simps) simp

text \<open>A walk whose steps return and consume returns.\<close>

lemma field_walk_returns:
  assumes "\<And>b s. b \<noteq> [] \<Longrightarrow> \<exists>y. step b s = Some y \<and> (\<forall>b' s'. y = Some (b', s') \<longrightarrow> length b' < length b)"
  shows "field_walk step b s \<noteq> None"
proof (induction b arbitrary: s rule: length_induct)
  case (1 b)
  show ?case
  proof (cases "b = []")
    case False
    from assms [OF this, of s] obtain y where y: "step b s = Some y" "\<And>b' s'. y = Some (b', s') \<Longrightarrow> length b' < length b"
      by blast
    with 1 False show ?thesis by (subst field_walk.simps) (auto split: option.split)
  qed simp
qed

text \<open>What every step does with its tag.\<close>

definition at_tag ::
    "protowire \<Rightarrow> (nat \<Rightarrow> nat \<Rightarrow> bytes \<Rightarrow> (bytes \<times> 's) option option) \<Rightarrow> bytes \<Rightarrow> (bytes \<times> 's) option option" where
  "at_tag pw rest b =
     (case ConsumeTag pw b of None \<Rightarrow> Some None | Some (num, ty, n) \<Rightarrow> rest num ty (drop n b))"

context wire
begin

lemma at_tag_consumes:
  assumes "\<And>num ty b. \<exists>y. rest num ty b = Some y \<and> (\<forall>b' s'. y = Some (b', s') \<longrightarrow> length b' \<le> length b)"
  shows "b \<noteq> [] \<Longrightarrow> \<exists>y. at_tag pw rest b = Some y \<and> (\<forall>b' s'. y = Some (b', s') \<longrightarrow> length b' < length b)"
proof -
  assume "b \<noteq> []"
  show ?thesis
  proof (cases "ConsumeTag pw b")
    case None
    then show ?thesis by (simp add: at_tag_def)
  next
    case (Some x)
    obtain num ty n where x: "x = (num, ty, n)" by (cases x)
    from tag_bounds [of b num ty n] Some x have n: "0 < n" "n \<le> length b" by auto
    from assms [of num ty "drop n b"] obtain y where y: "rest num ty (drop n b) = Some y"
      "\<And>b' s'. y = Some (b', s') \<Longrightarrow> length b' \<le> length (drop n b)"
      by blast
    have "length b' < length b" if "y = Some (b', s')" for b' s' using y(2) [OF that] n by simp
    with y(1) Some x show ?thesis by (auto simp: at_tag_def)
  qed
qed

lemma at_tag_append:
  assumes "valid_num num" and "ty \<le> 5"
  shows "at_tag pw rest (AppendTag pw [] num ty @ b) = rest num ty b"
  using tag_read [OF assms] by (simp add: at_tag_def)

text \<open>The fields of the encoders, tag and value.\<close>

definition vfield :: "nat \<Rightarrow> u64 \<Rightarrow> bytes" where
  "vfield num v = AppendTag pw [] num VarintType @ AppendVarint pw [] v"

definition bfield :: "nat \<Rightarrow> bytes \<Rightarrow> bytes" where
  "bfield num v = AppendTag pw [] num BytesType @ AppendBytes pw [] v"

lemma field_folds:
  "AppendVarint pw (AppendTag pw b num VarintType) v = b @ vfield num v"
  "AppendBytes pw (AppendTag pw b num BytesType) x = b @ bfield num x"
  "AppendString pw (AppendTag pw b num BytesType) x = b @ bfield num x"
  by (simp_all add: vfield_def bfield_def string_bytes varint_append [of "b @ AppendTag pw [] num VarintType"]
      bytes_append [of "b @ AppendTag pw [] num BytesType"] tag_append [of b num])

lemma fields_nonempty: "valid_num num \<Longrightarrow> vfield num v \<noteq> []" "valid_num num \<Longrightarrow> bfield num x \<noteq> []"
  using tag_read(2) [of num VarintType] tag_read(2) [of num BytesType] by (simp_all add: vfield_def bfield_def)

lemma walk_vfield:
  assumes "valid_num num" and "\<And>b s. step b s = at_tag pw (rest s) b"
    and "rest s num VarintType (AppendVarint pw [] v @ b) = Some (Some (b, s'))"
  shows "field_walk step (vfield num v @ b) s = field_walk step b s'"
proof (rule field_walk_next)
  show "step (vfield num v @ b) s = Some (Some (b, s'))"
    by (simp add: vfield_def at_tag_append assms)
qed (rule fields_nonempty [OF assms(1)])

lemma walk_bfield:
  assumes "valid_num num" and "\<And>b s. step b s = at_tag pw (rest s) b"
    and "rest s num BytesType (AppendBytes pw [] x @ b) = Some (Some (b, s'))"
  shows "field_walk step (bfield num x @ b) s = field_walk step b s'"
proof (rule field_walk_next)
  show "step (bfield num x @ b) s = Some (Some (b, s'))"
    by (simp add: bfield_def at_tag_append assms)
qed (rule fields_nonempty [OF assms(1)])

section \<open>Members, envelopes and rows\<close>

text \<open>The steps of the decoders behind their tag.\<close>

definition member_rest where
  "member_rest m num ty b = Some (let (i, info) = m
     in if num = 1 \<and> ty = VarintType then map_option (\<lambda>(v, n). (drop n b, v, info)) (ConsumeVarint pw b)
        else if num = 2 \<and> ty = BytesType then map_option (\<lambda>(v, n). (drop n b, i, info\<lparr>pi_node := v\<rparr>)) (ConsumeBytes pw b)
        else if num = 3 \<and> ty = BytesType then map_option (\<lambda>(v, n). (drop n b, i, info\<lparr>pi_dial := v\<rparr>)) (ConsumeBytes pw b)
        else map_option (\<lambda>n. (drop n b, i, info)) (ConsumeFieldValue pw num ty b))"

lemma member_step: "decodeMember_step pw b m = at_tag pw (member_rest m) b"
  by (simp add: decodeMember_step_def at_tag_def member_rest_def Let_def split: option.split)

lemmas walk_member = walk_vfield [where step = "decodeMember_step pw", OF _ member_step]
  walk_bfield [where step = "decodeMember_step pw", OF _ member_step]

lemma member_fields:
  "field_walk (decodeMember_step pw) (vfield 1 v @ b) (i, info) = field_walk (decodeMember_step pw) b (v, info)"
  "go_sized x \<Longrightarrow> field_walk (decodeMember_step pw) (bfield 2 x @ b) (i, info) =
     field_walk (decodeMember_step pw) b (i, info\<lparr>pi_node := x\<rparr>)"
  "go_sized x \<Longrightarrow> field_walk (decodeMember_step pw) (bfield 3 x @ b) (i, info) =
     field_walk (decodeMember_step pw) b (i, info\<lparr>pi_dial := x\<rparr>)"
  by (rule walk_member; simp add: member_rest_def consume_varint consume_bytes type_defs)+

lemma encodeMember_eq: "encodeMember pw i info = vfield 1 i @ bfield 2 (pi_node info) @
    (if pi_dial info \<noteq> [] then bfield 3 (pi_dial info) else [])"
  by (simp add: encodeMember_def Let_def field_folds)

lemma decodeMember_encodeMember:
  assumes "go_sized (pi_node info)" and "go_sized (pi_dial info)"
  shows "decodeMember pw (encodeMember pw i info) = Some (Some (i, info))"
  using assms member_fields(2,3) [where b = "[]", simplified]
  by (cases info) (simp add: encodeMember_eq decodeMember_def zeroPeer_def member_fields del: One_nat_def)

text \<open>The step of the envelope and of the snapshot row, likewise.\<close>

definition envelope_rest where
  "envelope_rest m num ty b = Some (let (kind, payload) = m
     in if num = 2 \<and> ty = VarintType then map_option (\<lambda>(v, n). (drop n b, v, payload)) (ConsumeVarint pw b)
        else if num = 3 \<and> ty = BytesType then map_option (\<lambda>(v, n). (drop n b, kind, v)) (ConsumeBytes pw b)
        else map_option (\<lambda>n. (drop n b, kind, payload)) (ConsumeFieldValue pw num ty b))"

lemma envelope_step: "decodeEnvelope_step pw b m = at_tag pw (envelope_rest m) b"
  by (simp add: decodeEnvelope_step_def at_tag_def envelope_rest_def Let_def split: option.split)

lemmas walk_envelope = walk_vfield [where step = "decodeEnvelope_step pw", OF _ envelope_step]
  walk_bfield [where step = "decodeEnvelope_step pw", OF _ envelope_step]

lemma envelope_fields:
  "field_walk (decodeEnvelope_step pw) (vfield 1 v @ b) m = field_walk (decodeEnvelope_step pw) b m"
  "field_walk (decodeEnvelope_step pw) (vfield 2 v @ b) (k, x) = field_walk (decodeEnvelope_step pw) b (v, x)"
  "go_sized y \<Longrightarrow> field_walk (decodeEnvelope_step pw) (bfield 3 y @ b) (k, x) = field_walk (decodeEnvelope_step pw) b (k, y)"
  by (rule walk_envelope; simp add: envelope_rest_def consume_varint consume_bytes field_varint case_prod_beta type_defs
      field_varint [unfolded VarintType_def])+

lemma decodeEnvelope_encodeEnvelope:
  assumes "go_sized payload"
  shows "decodeEnvelope pw (encodeEnvelope pw kind payload) = Some (Some (kind, payload))"
  using envelope_fields(3) [where b = "[]", simplified, OF assms]
  by (simp add: decodeEnvelope_def encodeEnvelope_def Let_def field_folds envelope_fields del: One_nat_def)

definition row_rest where
  "row_rest r num ty b = Some (if ty \<noteq> BytesType then None
     else map_option (\<lambda>(v, n). (drop n b,
        if num = (1 :: nat) then r\<lparr>row_Key := v\<rparr> else if num = 2 then r\<lparr>row_Value := v\<rparr> else r)) (ConsumeBytes pw b))"

lemma row_step: "decodeSnapshotRow_step pw b r = at_tag pw (row_rest r) b"
  by (simp add: decodeSnapshotRow_step_def at_tag_def row_rest_def Let_def split: option.split)

lemmas walk_row = walk_bfield [where step = "decodeSnapshotRow_step pw", OF _ row_step]

lemma row_fields:
  "go_sized x \<Longrightarrow> field_walk (decodeSnapshotRow_step pw) (bfield 1 x @ b) r =
     field_walk (decodeSnapshotRow_step pw) b (r\<lparr>row_Key := x\<rparr>)"
  "go_sized x \<Longrightarrow> field_walk (decodeSnapshotRow_step pw) (bfield 2 x @ b) r =
     field_walk (decodeSnapshotRow_step pw) b (r\<lparr>row_Value := x\<rparr>)"
  by (rule walk_row; simp add: row_rest_def consume_bytes)+

lemma decodeSnapshotRow_row:
  assumes "go_sized (row_Key r)" and "go_sized (row_Value r)"
  shows "decodeSnapshotRow pw (snapshot_row pw r) = Some (Some r)"
  using assms row_fields(2) [where b = "[]", simplified]
  by (cases r) (simp add: decodeSnapshotRow_def snapshot_row_def Let_def field_folds row_fields del: One_nat_def)

section \<open>Snapshots\<close>

definition snapshot_rest where
  "snapshot_rest s num ty b =
     (if num = 4 \<and> ty = VarintType
      then Some (map_option (\<lambda>(i, n). (drop n b, s\<lparr>ss_removed := finsert i (ss_removed s)\<rparr>)) (ConsumeVarint pw b))
      else if (num = 2 \<or> num = 3) \<and> ty = BytesType
      then case ConsumeBytes pw b of
             None \<Rightarrow> Some None
           | Some (v, n) \<Rightarrow> map_option (map_option (\<lambda>s. (drop n b, s))) (snapshot_field pw num v s)
      else Some (map_option (\<lambda>n. (drop n b, s)) (ConsumeFieldValue pw num ty b)))"

lemma snapshot_step: "decodeSnapshotData_step pw b s = at_tag pw (snapshot_rest s) b"
  by (simp add: decodeSnapshotData_step_def at_tag_def snapshot_rest_def Let_def split: option.split)

lemmas walk_snapshot = walk_vfield [where step = "decodeSnapshotData_step pw", OF _ snapshot_step]
  walk_bfield [where step = "decodeSnapshotData_step pw", OF _ snapshot_step]

abbreviation walk_snap :: "bytes \<Rightarrow> 'p snapshot_state \<Rightarrow> 'p snapshot_state option option" where
  "walk_snap \<equiv> field_walk (decodeSnapshotData_step pw)"

lemma snapshot_fields:
  "walk_snap (vfield 1 v @ b) s = walk_snap b s"
  "walk_snap (vfield 4 v @ b) s = walk_snap b (s\<lparr>ss_removed := finsert v (ss_removed s)\<rparr>)"
  "go_sized x \<Longrightarrow> num = 2 \<or> num = 3 \<Longrightarrow> snapshot_field pw num x s = Some (Some s') \<Longrightarrow>
     walk_snap (bfield num x @ b) s = walk_snap b s'"
  by (rule walk_snapshot; auto simp: snapshot_rest_def consume_varint consume_bytes type_defs
      field_varint [unfolded VarintType_def])+

text \<open>A row, a member and their encodings fit in memory.\<close>

definition row_fits :: "Row \<Rightarrow> bool" where
  "row_fits r \<longleftrightarrow> go_sized (row_Key r) \<and> go_sized (row_Value r) \<and> go_sized (snapshot_row pw r)"

definition member_fits :: "u64 \<Rightarrow> peerInfo \<Rightarrow> bool" where
  "member_fits i info \<longleftrightarrow> go_sized (pi_node info) \<and> go_sized (pi_dial info) \<and> go_sized (encodeMember pw i info)"

lemma walk_rows:
  assumes "restore_rows pw (ss_store s) (map (\<lambda>r. (row_Key r, row_Value r)) rows) = Some (Some st)"
    and "list_all row_fits rows"
  shows "walk_snap (concat (map (\<lambda>r. bfield 2 (snapshot_row pw r)) rows) @ b) s = walk_snap b (s\<lparr>ss_store := st\<rparr>)"
  using assms
proof (induction rows arbitrary: s)
  case (Cons r rows)
  then obtain st1 where st1: "Restore pw (ss_store s) (row_Key r) (row_Value r) = Some (Some st1)"
    "restore_rows pw st1 (map (\<lambda>r. (row_Key r, row_Value r)) rows) = Some (Some st)"
    by (auto split: option.splits)
  have fits: "go_sized (row_Key r)" "go_sized (row_Value r)" "go_sized (snapshot_row pw r)"
    using Cons.prems(2) by (simp_all add: row_fits_def)
  have "snapshot_field pw 2 (snapshot_row pw r) s = Some (Some (s\<lparr>ss_store := st1\<rparr>))"
    by (simp add: snapshot_field_def decodeSnapshotRow_row fits st1)
  from snapshot_fields(3) [OF fits(3) _ this] Cons.IH [of "s\<lparr>ss_store := st1\<rparr>"] st1(2) Cons.prems(2)
  show ?case by simp
next
  case Nil
  then show ?case by (cases s) simp
qed

lemma walk_members:
  assumes "list_all (\<lambda>i. member_fits i (f i)) ids"
  shows "walk_snap (concat (map (\<lambda>i. bfield 3 (encodeMember pw i (f i))) ids) @ b) s =
    walk_snap b (s\<lparr>ss_members := foldl (\<lambda>m i. fmupd i (f i) m) (ss_members s) ids\<rparr>)"
  using assms
proof (induction ids arbitrary: s)
  case (Cons i ids)
  have fits: "go_sized (pi_node (f i))" "go_sized (pi_dial (f i))" "go_sized (encodeMember pw i (f i))"
    using Cons.prems by (simp_all add: member_fits_def)
  have "snapshot_field pw 3 (encodeMember pw i (f i)) s = Some (Some (s\<lparr>ss_members := fmupd i (f i) (ss_members s)\<rparr>))"
    by (simp add: snapshot_field_def decodeMember_encodeMember fits)
  from snapshot_fields(3) [OF fits(3) _ this] Cons show ?case by simp
qed simp

lemma walk_removed:
  "walk_snap (concat (map (vfield 4) ids) @ b) s =
    walk_snap b (s\<lparr>ss_removed := foldl (\<lambda>r i. finsert i r) (ss_removed s) ids\<rparr>)"
  by (induction ids arbitrary: s) (simp_all add: snapshot_fields)

lemma foldl_append: "foldl (\<lambda>b x. b @ f x) b xs = b @ concat (map f xs)"
  by (induction xs arbitrary: b) simp_all

lemma encodeSnapshotData_eq:
  "encodeSnapshotData pw rows members removed =
     vfield 1 snapshotFormatVersion @ concat (map (\<lambda>r. bfield 2 (snapshot_row pw r)) rows) @
     concat (map (\<lambda>i. bfield 3 (encodeMember pw i (the (fmlookup members i)))) (sorted_list_of_set (fset (fmdom members)))) @
     concat (map (vfield 4) (sorted_list_of_set (fset removed)))"
  by (simp add: encodeSnapshotData_def Let_def field_folds foldl_append)

lemma foldl_finsert: "foldl (\<lambda>r i. finsert i r) r (sorted_list_of_set (fset x)) = r |\<union>| (x :: u64 fset)"
proof -
  have "fset (foldl (\<lambda>r i. finsert i r) r xs) = fset r \<union> set xs" for xs :: "u64 list"
    by (induction xs arbitrary: r) auto
  then show ?thesis by (simp add: fset_inject [symmetric])
qed

lemma foldl_members: "foldl (\<lambda>m i. fmupd i (the (fmlookup x i)) m) fmempty (sorted_list_of_set (fset (fmdom x))) = (x :: (u64, peerInfo) fmap)"
proof -
  have "fmlookup (foldl (\<lambda>m i. fmupd i (f i) m) m ids) k = (if k \<in> set ids then Some (f k) else fmlookup m k)"
    for ids :: "u64 list" and f :: "u64 \<Rightarrow> peerInfo" and m k
    by (induction ids arbitrary: m) auto
  then show ?thesis by (intro fmap_ext) (auto simp: fmlookup_dom_iff)
qed

lemma decodeSnapshotData_encode:
  assumes "restore_rows pw NewStore (map (\<lambda>r. (row_Key r, row_Value r)) rows) = Some (Some st)"
    and "list_all row_fits rows" and "\<And>i info. fmlookup members i = Some info \<Longrightarrow> member_fits i info"
  shows "decodeSnapshotData pw (encodeSnapshotData pw rows members removed) =
    Some (Some \<lparr>ss_store = st, ss_members = members, ss_removed = removed\<rparr>)"
proof -
  have m: "list_all (\<lambda>i. member_fits i (the (fmlookup members i))) (sorted_list_of_set (fset (fmdom members)))"
    using assms(3) by (auto simp: list_all_iff fmlookup_dom_iff)
  show ?thesis
    using walk_removed [of "sorted_list_of_set (fset removed)" "[]" "\<lparr>ss_store = st, ss_members = members, ss_removed = {||}\<rparr>"]
    by (simp add: decodeSnapshotData_def encodeSnapshotData_eq snapshot_fields(1) walk_rows [OF _ assms(2)] assms(1)
        walk_members [OF m] foldl_finsert foldl_members del: One_nat_def)
qed

end

section \<open>Log records\<close>

text \<open>What \<^verbatim>\<open>raftpb\<close> promises.\<close>

locale raft_codec = wire pw for pw +
  fixes pb :: raftpb
  assumes unmarshal_hs: "Marshal_HardState pb hs = Some b \<Longrightarrow> Unmarshal_HardState pb zeroHardState b = Some hs"
    and unmarshal_entry: "Marshal_Entry pb e = Some b \<Longrightarrow> Unmarshal_Entry pb zeroEntry b = Some e"
    and unmarshal_snap: "Marshal_Snapshot pb sn = Some b \<Longrightarrow> Unmarshal_Snapshot pb zeroSnapshot b = Some sn"
    and empty_hs: "IsEmptyHardState pb hs \<longleftrightarrow> hs = zeroHardState"
    and empty_snap: "IsEmptySnap pb sn \<longleftrightarrow> sn_Index sn = 0"
begin

text \<open>The marshalled parts of a record fit in memory.\<close>

definition record_fits :: "raft_record \<Rightarrow> bool" where
  "record_fits rec \<longleftrightarrow>
     pred_option go_sized (Marshal_HardState pb (rec_hs rec)) \<and>
     list_all (\<lambda>e. pred_option go_sized (Marshal_Entry pb e)) (rec_entries rec) \<and>
     pred_option go_sized (Marshal_Snapshot pb (rec_snap rec))"

definition record_rest where
  "record_rest rec num ty b = Some (if ty \<noteq> BytesType
     then map_option (\<lambda>n. (drop n b, rec)) (ConsumeFieldValue pw num ty b)
     else case ConsumeBytes pw b of
            None \<Rightarrow> None
          | Some (v, n) \<Rightarrow> map_option (\<lambda>rec. (drop n b, rec)) (record_field pb num v rec))"

lemma record_step: "decodeRecord_step pw pb b rec = at_tag pw (record_rest rec) b"
  by (simp add: decodeRecord_step_def at_tag_def record_rest_def Let_def split: option.split)

lemmas walk_record = walk_vfield [where step = "decodeRecord_step pw pb", OF _ record_step]
  walk_bfield [where step = "decodeRecord_step pw pb", OF _ record_step]

abbreviation walk_rec :: "bytes \<Rightarrow> raft_record \<Rightarrow> raft_record option option" where
  "walk_rec \<equiv> field_walk (decodeRecord_step pw pb)"

lemma record_fields:
  "walk_rec (vfield 1 v @ b) rec = walk_rec b rec"
  "go_sized x \<Longrightarrow> valid_num num \<Longrightarrow> record_field pb num x rec = Some rec' \<Longrightarrow> walk_rec (bfield num x @ b) rec = walk_rec b rec'"
  by (rule walk_record; simp add: record_rest_def consume_bytes type_defs field_varint [unfolded VarintType_def])+

lemma walk_entries:
  assumes "appendEntries pw pb b es = Some b'" and "list_all (\<lambda>e. pred_option go_sized (Marshal_Entry pb e)) es"
  shows "\<exists>x. b' = b @ x \<and> (\<forall>c rec. walk_rec (x @ c) rec = walk_rec c (rec\<lparr>rec_entries := rec_entries rec @ es\<rparr>))"
  using assms
proof (induction es arbitrary: b)
  case (Cons e es)
  then obtain d where d: "Marshal_Entry pb e = Some d" "go_sized d"
    and next': "appendEntries pw pb (b @ bfield 3 d) es = Some b'"
    by (auto simp: appendMessage_def field_folds Option.bind_eq_Some_conv)
  obtain x where x: "b' = (b @ bfield 3 d) @ x"
    "\<And>c rec. walk_rec (x @ c) rec = walk_rec c (rec\<lparr>rec_entries := rec_entries rec @ es\<rparr>)"
    using Cons.IH [OF next'] Cons.prems(2) by auto
  have "record_field pb 3 d rec = Some (rec\<lparr>rec_entries := rec_entries rec @ [e]\<rparr>)" for rec
    using unmarshal_entry [OF d(1)] by (simp add: record_field_def)
  from record_fields(2) [OF d(2) _ this] x show ?case by (intro exI [of _ "bfield 3 d @ x"]) simp
qed simp

lemma decodeRecord_encodeRecord:
  assumes "encodeRecord pw pb rec = Some b" and "record_fits rec"
    and "sn_Index (rec_snap rec) = 0 \<longrightarrow> rec_snap rec = zeroSnapshot"
  shows "decodeRecord pw pb b = Some (Some rec)"
proof -
  let ?v = "vfield 1 recordFormatVersion"
  obtain b1 b2 where b1: "(if \<not> IsEmptyHardState pb (rec_hs rec) then appendMessage pw ?v 2 (Marshal_HardState pb (rec_hs rec)) else Some ?v) = Some b1"
    and b2: "appendEntries pw pb b1 (rec_entries rec) = Some b2"
    and b: "(if \<not> IsEmptySnap pb (rec_snap rec) then appendMessage pw b2 4 (Marshal_Snapshot pb (rec_snap rec)) else Some b2) = Some b"
    using assms(1) by (simp only: encodeRecord_def Let_def field_folds append_Nil Option.bind_eq_Some_conv) blast
  let ?r1 = "emptyRecord\<lparr>rec_hs := rec_hs rec\<rparr>"
  have hs: "\<exists>x. b1 = ?v @ x \<and> (\<forall>c. walk_rec (x @ c) emptyRecord = walk_rec c ?r1)"
  proof (cases "IsEmptyHardState pb (rec_hs rec)")
    case True
    then show ?thesis using b1 by (simp add: empty_hs emptyRecord_def)
  next
    case False
    with b1 obtain d where d: "Marshal_HardState pb (rec_hs rec) = Some d" "b1 = ?v @ bfield 2 d"
      by (auto simp: appendMessage_def field_folds)
    have "record_field pb 2 d emptyRecord = Some ?r1" "go_sized d"
      using unmarshal_hs [OF d(1)] assms(2) d(1) by (simp_all add: record_field_def emptyRecord_def record_fits_def)
    with d(2) show ?thesis using record_fields(2) by (intro exI [of _ "bfield 2 d"]) simp
  qed
  obtain y where y: "b2 = b1 @ y" "\<And>c r. walk_rec (y @ c) r = walk_rec c (r\<lparr>rec_entries := rec_entries r @ rec_entries rec\<rparr>)"
    using walk_entries [OF b2] assms(2) by (auto simp: record_fits_def)
  let ?r2 = "?r1\<lparr>rec_entries := rec_entries rec\<rparr>"
  have sn: "\<exists>z. b = b2 @ z \<and> walk_rec z ?r2 = Some (Some (?r2\<lparr>rec_snap := rec_snap rec\<rparr>))"
  proof (cases "IsEmptySnap pb (rec_snap rec)")
    case True
    then show ?thesis using b assms(3) by (simp add: empty_snap emptyRecord_def)
  next
    case False
    with b obtain d where d: "Marshal_Snapshot pb (rec_snap rec) = Some d" "b = b2 @ bfield 4 d"
      by (auto simp: appendMessage_def field_folds)
    have "record_field pb 4 d ?r2 = Some (?r2\<lparr>rec_snap := rec_snap rec\<rparr>)" "go_sized d"
      using unmarshal_snap [OF d(1)] assms(2) d(1) by (simp_all add: record_field_def emptyRecord_def record_fits_def)
    with d(2) show ?thesis using record_fields(2) [where b = "[]"] by (intro exI [of _ "bfield 4 d"]) simp
  qed
  obtain x z where x: "b1 = ?v @ x" "\<And>c. walk_rec (x @ c) emptyRecord = walk_rec c ?r1"
    and z: "b = b2 @ z" "walk_rec z ?r2 = Some (Some (?r2\<lparr>rec_snap := rec_snap rec\<rparr>))"
    using hs sn by blast
  have "walk_rec b emptyRecord = Some (Some (?r2\<lparr>rec_snap := rec_snap rec\<rparr>))"
    using x y z by (simp add: record_fields(1) emptyRecord_def del: One_nat_def)
  then show ?thesis by (cases rec) (simp add: decodeRecord_def emptyRecord_def)
qed

end

end
