(* ===== verification/Raft_Log.thy ===== *)
theory Raft_Log
  imports Raft_Boot Raft_Codec Disk_Journal Wal_Recovery
begin

text \<open>
  The log files of a replica across a crash: which file a boot chooses, and that a rotation of the
  log can be interrupted anywhere.
\<close>

section \<open>Names\<close>

lemma logName_inject [simp]: "logName a = logName b \<longleftrightarrow> a = b"
  by (auto simp: logName_def word_unat_eq_iff dest: dec_string_inject)

lemma prefix_logName [simp]: "prefix log_prefix (logName s)"
  by (simp add: logName_def log_prefix_def)

lemma ParseUint_dec_string [simp]: "ParseUint (dec_string (unat (s :: u64))) = Some s"
proof -
  have "\<not> list_ex (\<lambda>b. b < 48 \<or> 57 < b) (dec_string (unat s))"
    using dec_string_digits [of "unat s"] by (auto simp: list_ex_iff)
  moreover have "\<not> 2 ^ 64 \<le> unat s" using unat_bound [of s] by simp
  ultimately show ?thesis by (simp add: ParseUint_def)
qed

lemma ParseUint_logName [simp]: "ParseUint (drop (length log_prefix) (logName s)) = Some s"
  by (simp add: logName_def log_prefix_def)

lemma ValidPath_logName [simp]: "ValidPath (logName s)"
proof -
  have v: "utf8_valid (logName s)"
    by (rule utf8_ascii) (use dec_string_plain in \<open>auto simp: logName_def str_def\<close>)
  have "of_char (CHR ''/'') \<notin> set (str ''log.'' @ dec_string (unat s))"
    using dec_string_plain by (auto simp: str_def)
  from path_element [OF this, of "[]"] have "path_elements_ok [] (str ''log.'' @ dec_string (unat s))"
    by (auto simp: str_def)
  then have "path_elements_ok [] (logName s)" by (simp add: logName_def str_def)
  with v show ?thesis by (simp add: ValidPath_def)
qed

lemma log_seqs_names:
  assumes "\<forall>name \<in> set names. prefix log_prefix name \<longrightarrow> name \<in> range logName" and "distinct names"
  shows "\<exists>seqs. log_seqs names = Some seqs \<and> distinct seqs \<and> set seqs = {s. logName s \<in> set names}"
  using assms
proof (induction names)
  case (Cons name names)
  then obtain seqs where seqs: "log_seqs names = Some seqs" "distinct seqs" "set seqs = {s. logName s \<in> set names}"
    by auto
  show ?case
  proof (cases "prefix log_prefix name")
    case True
    then obtain s where s: "name = logName s" using Cons.prems(1) by auto
    with seqs Cons.prems(2) show ?thesis by auto
  next
    case False
    then have "{s. logName s \<in> set (name # names)} = {s. logName s \<in> set names}" by auto
    with False seqs show ?thesis by simp
  qed
qed simp

section \<open>What a restart finds\<close>

text \<open>The names on a disk with nothing staged.\<close>

lemma disk_List_clean:
  assumes "dk_staged d = fmempty"
  shows "set (disk_List d) = {n. disk_durable d n \<noteq> None}" "distinct (disk_List d)"
  using assms by (auto simp: disk_List_def disk_durable_def fmlookup_dom_iff)

lemma disk_crash_staged [simp]: "dk_staged (disk_crash d rng) = fmempty"
  by (simp add: disk_crash_def)

text \<open>The log files that a crash could leave.\<close>

definition log_files :: "disk \<Rightarrow> u64 set \<Rightarrow> bool" where
  "log_files d Q \<longleftrightarrow> (\<forall>name. prefix log_prefix name \<longrightarrow> possible d name \<longrightarrow> name \<in> logName ` Q)"

lemma log_files_crash: "log_files d Q \<Longrightarrow> log_files (disk_crash d rng) Q"
  using crash_possible by (auto simp: log_files_def)

lemma log_files_touch:
  assumes "log_files d Q" and "same_but (logName s) d d'" and "s \<in> Q"
  shows "log_files d' Q"
  unfolding log_files_def
proof (intro allI impI)
  fix name assume p: "prefix log_prefix name" "possible d' name"
  show "name \<in> logName ` Q"
  proof (cases "name = logName s")
    case False
    then have "possible d name" using same_butD(3) [OF assms(2) False] p(2) by simp
    with p(1) assms(1) show ?thesis by (simp add: log_files_def)
  qed (simp add: assms(3))
qed

lemma log_filesD: "log_files d Q \<Longrightarrow> possible d (logName s) \<Longrightarrow> s \<in> Q"
  by (auto simp: log_files_def dest: spec [of _ "logName s"])

lemma restart_seqs:
  assumes "log_files d Q" and "dk_staged d = fmempty"
  shows "\<exists>seqs. log_seqs (disk_List d) = Some seqs \<and> sort seqs = sorted_list_of_set {s \<in> Q. disk_durable d (logName s) \<noteq> None}"
proof -
  have p: "possible d name \<longleftrightarrow> disk_durable d name \<noteq> None" for name
    using assms(2) by (simp add: possible_def disk_durable_def)
  have "\<forall>name \<in> set (disk_List d). prefix log_prefix name \<longrightarrow> name \<in> range logName"
    using assms(1) by (auto simp: log_files_def p disk_List_clean [OF assms(2)])
  from log_seqs_names [OF this disk_List_clean(2) [OF assms(2)]] obtain seqs
    where s: "log_seqs (disk_List d) = Some seqs" "distinct seqs" "set seqs = {s. logName s \<in> set (disk_List d)}"
    by blast
  have "set seqs = {s \<in> Q. disk_durable d (logName s) \<noteq> None}"
    using s(3) log_filesD [OF assms(1)] by (auto simp: disk_List_clean [OF assms(2)] p)
  moreover have "sort seqs = sorted_list_of_set (set seqs)"
    using s(2) by (metis sorted_list_of_set_sort_remdups distinct_remdups_id)
  ultimately show ?thesis using s(1) by auto
qed

text \<open>The log that a boot on this disk would load, on a fresh journal.\<close>

definition restart_log :: "('r, 'm, disk list, 'p) seams \<Rightarrow> disk \<Rightarrow> bytes list option" where
  "restart_log S d =
     Option.bind (log_seqs (disk_List d)) (\<lambda>seqs. Option.bind (survivor_load S (rev (sort seqs)) [d]) snd)"

lemma Log_Open_journal:
  assumes "Log_Open ops d n = (d', r)"
  shows "\<exists>ds'. Log_Open (journal ops) (d # ds) n = (d' # ds', r)"
  using assms
  by (auto simp: Log_Open_def journal_def case_prod_beta Let_def split: sum.splits disk_error.splits option.splits if_splits)

lemma Log_Open_journal_torn:
  assumes "disk_clean d n" and "ValidPath n" and "intact recs"
    and "case_option [] id (disk_durable d n) = log_bytes recs @ torn" and "torn = [] \<or> parseFrame torn = None"
  shows "\<exists>d' ds'. Log_Open (journal sim_disk) (d # ds) n = (d' # ds', Inr recs) \<and> same_but n d d'"
proof -
  obtain d' where d': "Log_Open sim_disk d n = (d', Inr recs)"
    using sim.Log_Open_torn [OF assms(2,1,3-5)] by auto
  have "same_but n d d'"
    using d' by (auto simp: Log_Open_def sim_disk_def disk_WriteFile_def disk_Sync_def same_but_def case_prod_beta Let_def
        split: sum.splits disk_error.splits option.splits if_splits)
  with Log_Open_journal [OF d'] show ?thesis by blast
qed

lemma restart_one:
  assumes journaled: "sm_disk S = journal sim_disk"
    and "log_files d Q" and "dk_staged d = fmempty" and "{s \<in> Q. disk_durable d (logName s) \<noteq> None} = {a}"
    and "disk_durable d (logName a) = Some (log_bytes recs)" and "intact recs"
  shows "restart_log S d = Some recs"
proof -
  obtain seqs where "log_seqs (disk_List d) = Some seqs" "sort seqs = [a]"
    using restart_seqs [OF assms(2,3)] assms(4) by auto
  moreover obtain d' ds' where "Log_Open (journal sim_disk) [d] (logName a) = (d' # ds', Inr recs)"
    using Log_Open_journal_torn [of d "logName a" recs "[]" "[]"] assms by (auto simp: disk_clean_def)
  ultimately show ?thesis by (simp add: restart_log_def journaled validLog_def)
qed

text \<open>Beside the old file stands a new one that holds a part of its opening frame, or all of it.\<close>

lemma restart_two:
  assumes journaled: "sm_disk S = journal sim_disk"
    and "log_files d Q" and "dk_staged d = fmempty" and "{s \<in> Q. disk_durable d (logName s) \<noteq> None} = {a, b}" and "a < b"
    and "disk_durable d (logName a) = Some (log_bytes recs)" and "intact recs"
    and "disk_durable d (logName b) = Some p" and "prefix p (frame x)" and "length x \<le> MaxInt32"
    and "validLog S [x] False = Some True"
  shows "restart_log S d = Some recs \<or> restart_log S d = Some [x]"
proof -
  have "sorted_list_of_set {a, b} = [a, b]" using assms(5) by (auto simp: less_le)
  then obtain seqs where seqs: "log_seqs (disk_List d) = Some seqs" "rev (sort seqs) = [b, a]"
    using restart_seqs [OF assms(2,3)] assms(4) by auto
  have clean: "disk_clean d n" for n using assms(3) by (simp add: disk_clean_def)
  show ?thesis
  proof (cases "p = frame x")
    case True
    then obtain d' ds' where "Log_Open (journal sim_disk) [d] (logName b) = (d' # ds', Inr [x])"
      using Log_Open_journal_torn [of d "logName b" "[x]" "[]" "[]"] assms clean
      by (auto simp: log_bytes_def intact_def)
    then show ?thesis using seqs assms(11) by (simp add: restart_log_def journaled)
  next
    case False
    then have "p = [] \<or> parseFrame p = None"
      using assms(9,10) parseFrame_torn [of p x] by (auto simp: strict_prefix_def)
    then obtain d' ds' where b: "Log_Open (journal sim_disk) [d] (logName b) = (d' # ds', Inr [])"
      and s: "same_but (logName b) d d'"
      using Log_Open_journal_torn [of d "logName b" "[]" p "[]"] assms clean by auto
    have "disk_clean d' (logName a)" "disk_durable d' (logName a) = Some (log_bytes recs)"
      using same_butD [OF s, of "logName a"] assms(5,6) clean by auto
    then obtain d2 ds2 where "Log_Open (journal sim_disk) (d' # ds') (logName a) = (d2 # ds2, Inr recs)"
      using Log_Open_journal_torn [of d' "logName a" recs "[]" ds'] assms(7) by auto
    then show ?thesis using seqs b by (simp add: restart_log_def journaled validLog_def)
  qed
qed

section \<open>Writing a new log file\<close>

text \<open>The disk of a replica: one log file, which holds the records.\<close>

definition node_log :: "disk \<Rightarrow> u64 \<Rightarrow> bytes list \<Rightarrow> bool" where
  "node_log d seq recs \<longleftrightarrow> log_files d {seq} \<and> (\<forall>s. disk_clean d (logName s)) \<and>
     disk_durable d (logName seq) = Some (log_bytes recs) \<and> intact recs"

text \<open>After a crash at this state a boot loads the old records or the new frame.\<close>

definition old_or_new :: "('r, 'm, disk list, 'p) seams \<Rightarrow> bytes list \<Rightarrow> bytes \<Rightarrow> disk \<Rightarrow> bool" where
  "old_or_new S recs x d \<longleftrightarrow>
     (\<forall>rng. restart_log S (disk_crash d rng) = Some recs \<or> restart_log S (disk_crash d rng) = Some [x])"

lemma crash_keeps: "disk_clean d n \<Longrightarrow> disk_durable (disk_crash d rng) n = disk_durable d n"
  using sim.crash_clean by blast

lemma crash_removed:
  assumes "fmlookup (dk_staged d) n = Some st" and "sc_removed st"
  shows "disk_durable (disk_crash d rng) n = disk_durable d n"
proof -
  have "fmlookup (dk_durable (fst (crash_loop names d rng))) n = fmlookup (dk_durable d) n" for names
    using assms by (induction names arbitrary: d rng) (auto simp: case_prod_beta Let_def split: option.split)
  then show ?thesis by (simp add: disk_durable_def disk_crash_def)
qed

lemma node_log_restart:
  assumes "sm_disk S = journal sim_disk" and "node_log d seq recs"
  shows "restart_log S (disk_crash d rng) = Some recs"
proof (rule restart_one [OF assms(1)])
  show "log_files (disk_crash d rng) {seq}" using assms(2) log_files_crash by (simp add: node_log_def)
  show durable: "disk_durable (disk_crash d rng) (logName seq) = Some (log_bytes recs)"
    using assms(2) crash_keeps by (simp add: node_log_def)
  then show "{s \<in> {seq}. disk_durable (disk_crash d rng) (logName s) \<noteq> None} = {seq}" by auto
qed (use assms(2) in \<open>simp_all add: node_log_def\<close>)

text \<open>The states of a disk while a frame is appended to a new file \<open>b\<close> and the old file \<open>a\<close> is removed.\<close>

lemma two_files_restart:
  assumes "sm_disk S = journal sim_disk" and "log_files d {a, b}" and "a < b"
    and "disk_durable (disk_crash d rng) (logName a) = Some (log_bytes recs)" and "intact recs"
    and "disk_durable (disk_crash d rng) (logName b) = None \<or>
      (\<exists>p. prefix p (frame x) \<and> disk_durable (disk_crash d rng) (logName b) = Some p)"
    and "length x \<le> MaxInt32" and "validLog S [x] False = Some True"
  shows "restart_log S (disk_crash d rng) = Some recs \<or> restart_log S (disk_crash d rng) = Some [x]"
  using assms(6)
proof (elim disjE exE conjE)
  assume "disk_durable (disk_crash d rng) (logName b) = None"
  then have "{s \<in> {a, b}. disk_durable (disk_crash d rng) (logName s) \<noteq> None} = {a}" using assms(4) by auto
  from restart_one [OF assms(1) log_files_crash [OF assms(2)] _ this assms(4,5)] show ?thesis by simp
next
  fix p assume p: "prefix p (frame x)" "disk_durable (disk_crash d rng) (logName b) = Some p"
  then have "{s \<in> {a, b}. disk_durable (disk_crash d rng) (logName s) \<noteq> None} = {a, b}" using assms(4) by auto
  from restart_two [OF assms(1) log_files_crash [OF assms(2)] _ this assms(3-5) p(2,1) assms(7,8)] show ?thesis by simp
qed

lemma log_files_mono: "log_files d Q \<Longrightarrow> Q \<subseteq> R \<Longrightarrow> log_files d R"
  by (auto simp: log_files_def)

lemma missing_file:
  assumes "log_files d Q" and "b \<notin> Q"
  shows "disk_durable d (logName b) = None" and "disk_ReadFile d (logName b) = Inl ErrNotExist"
    and "disk_Remove d (logName b) = (d, Some ErrNotExist)"
proof -
  have "\<not> possible d (logName b)" using assms log_filesD by blast
  then show "disk_durable d (logName b) = None" "disk_ReadFile d (logName b) = Inl ErrNotExist"
    "disk_Remove d (logName b) = (d, Some ErrNotExist)"
    by (auto simp: possible_def disk_durable_def disk_ReadFile_def disk_Remove_def Let_def split: option.splits)
qed

text \<open>Appending the first frame to the new file, state by state.\<close>

lemma new_file:
  assumes "sm_disk S = journal sim_disk" and "node_log d a recs" and "a < b" and "length x \<le> MaxInt32"
    and "validLog S [x] False = Some True"
  shows "\<exists>d1 d2. Log_Append (journal sim_disk) (logName b) (d # ds) x = (d2 # d1 # d # ds, None) \<and>
    old_or_new S recs x d1 \<and> old_or_new S recs x d2 \<and> log_files d2 {a, b} \<and> (\<forall>s. disk_clean d2 (logName s)) \<and>
    disk_durable d2 (logName a) = Some (log_bytes recs) \<and> disk_durable d2 (logName b) = Some (frame x)"
proof -
  let ?a = "logName a" and ?b = "logName b"
  have d: "log_files d {a}" "\<And>s. disk_clean d (logName s)" "disk_durable d ?a = Some (log_bytes recs)" "intact recs"
    using assms(2) by (simp_all add: node_log_def)
  have ab: "a \<noteq> b" and none: "disk_durable d ?b = None" using assms(3) missing_file(1) [OF d(1), of b] by auto
  obtain d1 where d1: "disk_Append d ?b (frame x) = (d1, None)" and s1: "same_but ?b d d1"
    by (simp add: disk_Append_def same_but_def Let_def)
  obtain d2 e where d2: "disk_Sync d1 ?b = (d2, e)" by fastforce
  have s2: "same_but ?b d1 d2"
    using sync_effect [of ?b d1] d2 by auto
  have r2: "e = None" "disk_clean d2 ?b" "disk_durable d2 ?b = Some (frame x)"
    using sim.append_sync [of ?b d "frame x" d2 e] d(2) d1 d2 none by (simp_all add: sim_disk_def)
  have a1: "disk_clean d1 ?a" "disk_durable d1 ?a = Some (log_bytes recs)"
    and a2: "disk_clean d2 ?a" "disk_durable d2 ?a = Some (log_bytes recs)"
    using same_butD [OF s1, of ?a] same_butD [OF s2, of ?a] d ab by auto
  have f1: "log_files d1 {a, b}" using log_files_touch [OF log_files_mono [OF d(1)] s1] by simp
  then have f2: "log_files d2 {a, b}" using log_files_touch [OF _ s2] by simp
  have "old_or_new S recs x d1"
    unfolding old_or_new_def
  proof
    fix rng
    have "disk_durable (disk_crash d1 rng) ?b = None \<or> (\<exists>p. prefix p (frame x) \<and> disk_durable (disk_crash d1 rng) ?b = Some p)"
      using disk_append_crash [of ?b d "frame x" rng] d(2) d1 none by (simp del: disk_crash_simps)
    then show "restart_log S (disk_crash d1 rng) = Some recs \<or> restart_log S (disk_crash d1 rng) = Some [x]"
      using two_files_restart [OF assms(1) f1 assms(3) _ d(4) _ assms(4,5)] crash_keeps [OF a1(1)] a1(2) by (simp del: disk_crash_simps)
  qed
  moreover have "old_or_new S recs x d2"
    unfolding old_or_new_def
    using two_files_restart [OF assms(1) f2 assms(3) _ d(4) _ assms(4,5)] crash_keeps [OF a2(1)] a2(2)
      crash_keeps [OF r2(2)] r2(3) by (auto simp del: disk_crash_simps)
  moreover have "disk_clean d2 (logName s)" for s
    using r2(2) same_butD(2) [OF s1, of "logName s"] same_butD(2) [OF s2, of "logName s"] d(2) by (cases "s = b") auto
  moreover have "Log_Append (journal sim_disk) ?b (d # ds) x = (d2 # d1 # d # ds, None)"
    using d1 d2 r2(1) by (simp add: Log_Append_def journal_def sim_disk_def)
  ultimately show ?thesis using f2 a2 r2 by blast
qed

text \<open>Removing the old file.\<close>

lemma old_file:
  assumes "sm_disk S = journal sim_disk" and "a < b" and "length x \<le> MaxInt32" and "validLog S [x] False = Some True"
    and "log_files d {a, b}" and "\<forall>s. disk_clean d (logName s)" and "disk_durable d (logName a) = Some (log_bytes recs)"
    and "disk_durable d (logName b) = Some (frame x)" and "intact recs"
  shows "\<exists>d3 d4. disk_Remove d (logName a) = (d3, None) \<and> disk_Sync d3 (logName a) = (d4, None) \<and>
    old_or_new S recs x d3 \<and> node_log d4 b [x]"
proof -
  let ?a = "logName a" and ?b = "logName b"
  have clean: "disk_clean d (logName s)" for s using assms(6) by blast
  have ab: "a \<noteq> b" using assms(2) by auto
  define d3 where "d3 = d\<lparr>dk_staged := fmupd ?a \<lparr>sc_data = [], sc_keep = 0, sc_removed = True\<rparr> (dk_staged d)\<rparr>"
  have d3: "disk_Remove d ?a = (d3, None)"
    using clean [of a] assms(7) by (simp add: disk_Remove_def d3_def disk_clean_def disk_durable_def Let_def)
  have s3: "same_but ?a d d3" by (simp add: d3_def same_but_def)
  obtain d4 where d4: "disk_Sync d3 ?a = (d4, None)" and s4: "same_but ?a d3 d4"
    and gone: "disk_durable d4 ?a = None" "disk_clean d4 ?a"
    by (rule sync_effect [of ?a d3]) (auto simp: d3_def disk_ReadFile_def)
  have b3: "disk_clean d3 ?b" "disk_durable d3 ?b = Some (frame x)" and b4: "disk_durable d4 ?b = Some (frame x)"
    using same_butD [OF s3, of ?b] same_butD [OF s4, of ?b] ab assms(8) clean by auto
  have f3: "log_files d3 {a, b}" using log_files_touch [OF assms(5) s3] by simp
  have "disk_durable (disk_crash d3 rng) ?a = Some (log_bytes recs)" for rng
    using crash_removed [of d3 ?a _ rng] assms(7) by (simp add: d3_def disk_durable_def del: disk_crash_simps)
  then have "old_or_new S recs x d3"
    unfolding old_or_new_def
    using two_files_restart [OF assms(1) f3 assms(2) _ assms(9) _ assms(3,4)] crash_keeps [OF b3(1)] b3(2)
    by (auto simp del: disk_crash_simps)
  moreover have "log_files d4 {b}"
    unfolding log_files_def
  proof (intro allI impI)
    fix name assume p: "prefix log_prefix name" "possible d4 name"
    then have "name \<noteq> ?a" using gone possible_clean by auto
    moreover have "name \<in> logName ` {a, b}"
      using log_files_touch [OF f3 s4] p by (simp add: log_files_def)
    ultimately show "name \<in> logName ` {b}" by auto
  qed
  moreover have "disk_clean d4 (logName s)" for s
    using gone(2) same_butD(2) [OF s3, of "logName s"] same_butD(2) [OF s4, of "logName s"] clean by (cases "s = a") auto
  ultimately show ?thesis
    using d3 d4 b4 assms(3) by (auto simp: node_log_def log_bytes_def intact_def)
qed

section \<open>Rotation\<close>

lemma node_log_states: "sm_disk S = journal sim_disk \<Longrightarrow> node_log d a recs \<Longrightarrow> old_or_new S recs x d"
  "sm_disk S = journal sim_disk \<Longrightarrow> node_log d b [x] \<Longrightarrow> old_or_new S recs x d"
  by (simp_all add: old_or_new_def node_log_restart del: disk_crash_simps)

lemma open_missing:
  assumes "node_log d a recs" and "a < b"
  shows "Log_Open (journal sim_disk) (d # ds) (logName b) = (d # ds, Inr [])"
  using missing_file(2) [of d "{a}" b] assms
  by (simp add: node_log_def Log_Open_def journal_def sim_disk_def)

lemma rotate_states:
  assumes "sm_disk S = journal sim_disk" and "node_log d a recs" and "a < a + 1" and "n_disk n = d # ds" and "n_logSeq n = a"
    and "encodeRecord (sm_wire S) (sm_pb S) rec = Some x" and "length x \<le> MaxInt32" and "validLog S [x] False = Some True"
  shows "\<exists>d4 dn. rotate S rec n = go_on (n\<lparr>n_disk := d4 # dn @ ds, n_log := logName (a + 1), n_logSeq := a + 1\<rparr>) \<and>
    node_log d4 (a + 1) [x] \<and> (\<forall>d' \<in> set (d4 # dn). old_or_new S recs x d')"
proof -
  let ?b = "a + 1"
  obtain d1 d2 where a: "Log_Append (journal sim_disk) (logName ?b) (d # d # ds) x = (d2 # d1 # d # d # ds, None)"
    and o: "old_or_new S recs x d1" "old_or_new S recs x d2" and f2: "log_files d2 {a, ?b}" "\<forall>s. disk_clean d2 (logName s)"
      "disk_durable d2 (logName a) = Some (log_bytes recs)" "disk_durable d2 (logName ?b) = Some (frame x)"
    using new_file [OF assms(1-3,7,8), of "d # ds"] by blast
  have i: "intact recs" using assms(2) by (simp add: node_log_def)
  obtain d3 d4 where r: "disk_Remove d2 (logName a) = (d3, None)" "disk_Sync d3 (logName a) = (d4, None)"
    and o3: "old_or_new S recs x d3" and l4: "node_log d4 ?b [x]"
    using old_file [OF assms(1,3,7,8) f2 i] by blast
  have rm: "disk_Remove d (logName ?b) = (d, Some ErrNotExist)"
    using missing_file(3) [of d "{a}" ?b] assms(2,3) by (simp add: node_log_def)
  have j: "Remove (journal sim_disk) (e # es) m = (let (e', r) = disk_Remove e m in (e' # e # es, r))"
    "Sync (journal sim_disk) (e # es) m = (let (e', r) = disk_Sync e m in (e' # e # es, r))" for e es m
    by (simp_all add: journal_def sim_disk_def)
  have "rotate S rec n = go_on (n\<lparr>n_disk := d4 # ([d3, d2, d1, d, d] @ ds), n_log := logName ?b, n_logSeq := ?b\<rparr>)"
    using assms(1,4-6) a r rm open_missing [OF assms(2,3), of "d # ds"]
    by (simp add: rotate_def removeLog_def append_record_def go_on_def and_then_def j Let_def)
  moreover have "old_or_new S recs x d" "old_or_new S recs x d4"
    using node_log_states assms(1,2) l4 by blast+
  ultimately show ?thesis using o o3 l4 by (intro exI [of _ d4] exI [of _ "[d3, d2, d1, d, d]"]) simp
qed

lemma force_write_states:
  assumes "sm_disk S = journal sim_disk" and "node_log d a recs" and "a < a + 1"
    and "encodeRecord (sm_wire S) (sm_pb S) rec = Some x" and "length x \<le> MaxInt32" and "validLog S [x] False = Some True"
  shows "\<exists>d4 dn. force_write S [a] rec summary (d # ds) = (d4 # dn @ ds, Recovered summary) \<and>
    node_log d4 (a + 1) [x] \<and> (\<forall>d' \<in> set (d4 # dn). old_or_new S recs x d')"
proof -
  let ?b = "a + 1"
  obtain d1 d2 where a: "Log_Append (journal sim_disk) (logName ?b) (d # ds) x = (d2 # d1 # d # ds, None)"
    and o: "old_or_new S recs x d1" "old_or_new S recs x d2" and f2: "log_files d2 {a, ?b}" "\<forall>s. disk_clean d2 (logName s)"
      "disk_durable d2 (logName a) = Some (log_bytes recs)" "disk_durable d2 (logName ?b) = Some (frame x)"
    using new_file [OF assms(1-3,5,6), of ds] by blast
  have i: "intact recs" using assms(2) by (simp add: node_log_def)
  obtain d3 d4 where r: "disk_Remove d2 (logName a) = (d3, None)" "disk_Sync d3 (logName a) = (d4, None)"
    and o3: "old_or_new S recs x d3" and l4: "node_log d4 ?b [x]"
    using old_file [OF assms(1,3,5,6) f2 i] by blast
  have "remove_logs (journal sim_disk) [a] (d2 # d1 # d # ds) = (d4 # ([d3, d2, d1, d] @ ds), True)"
    using r by (simp add: journal_def sim_disk_def)
  then have "force_write S [a] rec summary (d # ds) = (d4 # ([d3, d2, d1, d] @ ds), Recovered summary)"
    using assms(1,4) a open_missing [OF assms(2,3), of ds] by (simp add: force_write_def Let_def)
  moreover have "old_or_new S recs x d" "old_or_new S recs x d4"
    using node_log_states assms(1,2) l4 by blast+
  ultimately show ?thesis using o o3 l4 by (intro exI [of _ d4] exI [of _ "[d3, d2, d1, d]"]) simp
qed

text \<open>Appending a record to the current file.\<close>

lemma append_node_log:
  assumes "node_log d seq recs" and "length b \<le> MaxInt32"
  shows "\<exists>d1 d2. Log_Append (journal sim_disk) (logName seq) (d # ds) b = (d2 # d1 # d # ds, None) \<and> node_log d2 seq (recs @ [b])"
proof -
  let ?a = "logName seq"
  have d: "log_files d {seq}" "\<And>s. disk_clean d (logName s)" "disk_durable d ?a = Some (log_bytes recs)" "intact recs"
    using assms(1) by (simp_all add: node_log_def)
  obtain d1 where d1: "disk_Append d ?a (frame b) = (d1, None)" and s1: "same_but ?a d d1"
    by (simp add: disk_Append_def same_but_def Let_def)
  obtain d2 e where d2: "disk_Sync d1 ?a = (d2, e)" by fastforce
  have s2: "same_but ?a d1 d2" using sync_effect [of ?a d1] d2 by auto
  have r: "e = None" "disk_clean d2 ?a" "disk_durable d2 ?a = Some (log_bytes recs @ frame b)"
    using sim.append_sync [of ?a d "frame b" d2 e] d d1 d2 by (simp_all add: sim_disk_def)
  have "log_files d2 {seq}" using log_files_touch [OF log_files_touch [OF d(1) s1] s2] by simp
  moreover have "disk_clean d2 (logName s)" for s
    using r(2) same_butD(2) [OF s1, of "logName s"] same_butD(2) [OF s2, of "logName s"] d(2) by (cases "s = seq") auto
  moreover have "Log_Append (journal sim_disk) ?a (d # ds) b = (d2 # d1 # d # ds, None)"
    using d1 d2 r(1) by (simp add: Log_Append_def journal_def sim_disk_def)
  ultimately show ?thesis using r d(4) assms(2) by (auto simp: node_log_def)
qed

section \<open>The choice of boot\<close>

text \<open>\<^verbatim>\<open>recover\<close> replays the log that the loader of \<^verbatim>\<open>ForceNewCluster\<close> would load.\<close>

lemma recover_from_load:
  assumes "survivor_load S rest (n_disk n) = Some (d, Some records)"
  shows "\<exists>seq \<in> set rest. recover_from S seqs rest n =
    boot_then (replay_log S records (n\<lparr>n_disk := d, n_log := logName seq, n_logSeq := seq\<rparr>))
      (\<lambda>n. boot_run (each (\<lambda>other. if other \<noteq> seq then removeLog S other else go_on) seqs n))"
  using assms
proof (induction rest arbitrary: n)
  case (Cons seq rest)
  obtain d1 r where o: "Log_Open (sm_disk S) (n_disk n) (logName seq) = (d1, r)" by fastforce
  with Cons.prems obtain recs where r: "r = Inr recs" by (cases r) simp_all
  show ?case
  proof (cases "validLog S recs (rest = [])")
    case None
    with Cons.prems o r show ?thesis by simp
  next
    case (Some v)
    show ?thesis
    proof (cases v)
      case True
      with Some Cons.prems o r show ?thesis by simp
    next
      case False
      with Some Cons.prems o r have "survivor_load S rest (n_disk (n\<lparr>n_disk := d1\<rparr>)) = Some (d, Some records)" by simp
      from Cons.IH [OF this] False Some o r show ?thesis by auto
    qed
  qed
qed simp

end
