(* ===== verification/Raft_Apply.thy ===== *)
theory Raft_Apply
  imports Raft_Boot
begin

text \<open>
  What the operations of a replica keep: the removed members only grow, what left the node is never
  taken back, and the two ways of booting end in the same metadata.
\<close>

section \<open>Runs\<close>

lemma and_then_simps [simp]:
  "and_then None f = None"
  "and_then (go_on n) f = f n"
  "and_then (go_panic n) f = go_panic n"
  by (simp_all add: and_then_def go_on_def go_panic_def)

lemma go_inject [simp]:
  "go_on n = Some y \<longleftrightarrow> y = Running n" "go_panic n = Some y \<longleftrightarrow> y = Panicked n"
  "go_on n = go_on m \<longleftrightarrow> n = m" "go_on n \<noteq> go_panic m" "go_panic n \<noteq> go_on m"
  by (auto simp: go_on_def go_panic_def)

lemma and_then_Some: "and_then x f = Some y \<longleftrightarrow>
    (\<exists>n. x = Some (Running n) \<and> f n = Some y) \<or> (\<exists>n. x = Some (Panicked n) \<and> y = Panicked n)"
  by (cases x) (auto simp: and_then_def split: outcome.splits)

section \<open>Later states of a node\<close>

definition later :: "('r, 'd, 'p) RaftNode \<Rightarrow> ('r, 'd, 'p) RaftNode \<Rightarrow> bool" where
  "later n n' \<longleftrightarrow> n_cfg n' = n_cfg n \<and> n_removed n |\<subseteq>| n_removed n' \<and> prefix (n_out n) (n_out n')"

lemma later_refl [simp]: "later n n"
  by (simp add: later_def)

lemma later_trans: "later n n' \<Longrightarrow> later n' n'' \<Longrightarrow> later n n''"
  by (auto simp: later_def intro: prefix_order.trans)

text \<open>The state in which a run ends, running or not, is a later one.\<close>

definition leads :: "('r, 'd, 'p) RaftNode \<Rightarrow> ('r, 'd, 'p) RaftNode node_run \<Rightarrow> bool" where
  "leads n x \<longleftrightarrow> (\<forall>y. x = Some y \<longrightarrow> later n (outcome_node y))"

lemma leads_simps [simp]: "leads n None" "leads n (go_on n') \<longleftrightarrow> later n n'" "leads n (go_panic n') \<longleftrightarrow> later n n'"
  by (simp_all add: leads_def go_on_def go_panic_def)

lemma leadsD: "leads n x \<Longrightarrow> x = Some y \<Longrightarrow> later n (outcome_node y)"
  by (simp add: leads_def)

lemma leads_later: "later n m \<Longrightarrow> leads m x \<Longrightarrow> leads n x"
  by (auto simp: leads_def intro: later_trans)

lemma leads_then:
  assumes "leads n x" and "\<And>m. x = Some (Running m) \<Longrightarrow> leads m (f m)"
  shows "leads n (and_then x f)"
  unfolding leads_def
proof (intro allI impI)
  fix y assume "and_then x f = Some y"
  then consider m where "x = Some (Running m)" "f m = Some y" | m where "x = Some (Panicked m)" "y = Panicked m"
    by (auto simp: and_then_Some)
  then show "later n (outcome_node y)"
  proof cases
    case 1
    then have "later n m" "later m (outcome_node y)"
      using leadsD [OF assms(1)] leadsD [OF assms(2)] by fastforce+
    then show ?thesis by (rule later_trans)
  qed (use leadsD [OF assms(1)] in fastforce)
qed

lemma leads_each: "(\<And>x m. leads m (f x m)) \<Longrightarrow> leads n (each f xs n)"
  by (induction xs arbitrary: n) (auto intro: leads_then)

lemma later_updates [simp]:
  "later n (n\<lparr>n_disk := a\<rparr>)" "later n (n\<lparr>n_raft := b\<rparr>)" "later n (n\<lparr>n_store := c\<rparr>)"
  "later n (n\<lparr>n_store := c, n_persistedIndex := i\<rparr>)" "later n (n\<lparr>n_log := e, n_logSeq := s\<rparr>)"
  "later n (n\<lparr>n_confChanged := f\<rparr>)" "later n (n\<lparr>n_raft := b, n_snapIndex := i\<rparr>)" "later n (n\<lparr>n_applied := i\<rparr>)"
  "later n (n\<lparr>n_snapshotsReceived := k\<rparr>)" "later n (n\<lparr>n_lastHeard := k\<rparr>)" "later n (n\<lparr>n_proposing := w\<rparr>)"
  "later n (n\<lparr>n_confCooldown := k\<rparr>)" "later n (n\<lparr>n_admitCooldown := k\<rparr>)" "later n (n\<lparr>n_applyingIndex := i\<rparr>)"
  by (simp_all add: later_def)

lemma later_installed [simp]:
  "later n (n\<lparr>n_peers := p, n_removed := n_removed n |\<union>| q, n_applied := i, n_snapIndex := j, n_confState := c\<rparr>)"
  "later n (n\<lparr>n_raft := r, n_confState := c, n_confChanged := True\<rparr>)"
  by (auto simp: later_def)

lemma later_emit [simp]: "later n m \<Longrightarrow> later n (emit_event e m)"
  by (auto simp: later_def emit_event_def)

lemma later_notify [simp]: "later n m \<Longrightarrow> later n (notifyMembership m)"
  by (simp add: notifyMembership_def)

lemma leads_removeLog: "leads n (removeLog S seq n)"
  by (simp add: removeLog_def Let_def split: prod.split option.split)

lemma leads_append_record: "leads n (append_record S name rec n)"
  by (simp add: append_record_def Let_def split: prod.split option.split)

lemma leads_rotate: "leads n (rotate S rec n)"
proof -
  have "leads m (and_then (append_record S nm rec (m\<lparr>n_disk := d\<rparr>)) (\<lambda>k. removeLog S (n_logSeq k) (k\<lparr>n_log := nm, n_logSeq := seq\<rparr>)))"
    for m nm d seq
    by (intro leads_then leads_later [OF _ leads_append_record] leads_later [OF _ leads_removeLog]) simp_all
  then show ?thesis
    unfolding rotate_def Let_def
    by (intro leads_then leads_removeLog) (simp split: prod.split sum.split list.split)
qed

lemma leads_adoptStore: "leads n (adoptStore S store index n)"
  by (simp add: adoptStore_def Let_def split: prod.split option.split)

lemma leads_restoreSnapshot: "restoreSnapshot S snap n = Some r \<Longrightarrow> leads n r"
  by (auto simp: restoreSnapshot_def Let_def leads_later [OF _ leads_adoptStore] split: option.splits intro!: leads_then)

lemma leads_maybeSnapshot: "leads n (maybeSnapshot S n)"
proof -
  have *: "leads n (rotate S rec (n\<lparr>n_confChanged := False, n_raft := r, n_snapIndex := i\<rparr>))" for rec r i
    by (rule leads_later [OF _ leads_rotate]) (simp add: later_def)
  show ?thesis by (simp add: maybeSnapshot_def Let_def * split: option.split prod.split) (simp add: later_def)
qed

lemma claimIndexes_keeps:
  "n_cfg (claimIndexes es n) = n_cfg n" "n_removed (claimIndexes es n) = n_removed n" "n_out (claimIndexes es n) = n_out n"
  "n_disk (claimIndexes es n) = n_disk n" "n_log (claimIndexes es n) = n_log n" "n_logSeq (claimIndexes es n) = n_logSeq n"
  by (induction es n rule: claimIndexes.induct) (simp_all split: list.split)

lemma later_claimIndexes [simp]: "later n (claimIndexes es n)"
  by (simp add: later_def claimIndexes_keeps)

lemma leads_conf_address: "leads n (conf_address S cc n)"
  by (auto simp: conf_address_def later_def split: conf_change_type.split option.split)

lemma leads_apply_conf_change: "leads n (apply_conf_change S e n)"
  by (auto simp: apply_conf_change_def Let_def split: option.split prod.split intro!: leads_then leads_conf_address)

lemma later_settle [simp]: "later n (settle_waiters i res n)"
  by (simp add: settle_waiters_def later_def Let_def)

lemma leads_apply_normal: "leads n (apply_normal S e n)"
  by (auto simp: apply_normal_def Let_def later_def settle_waiters_def split: option.split prod.split)

lemma leads_applyEntry: "leads n (applyEntry S e n)"
  by (simp add: applyEntry_def Let_def leads_later [OF _ leads_apply_conf_change] leads_later [OF _ leads_apply_normal]
      split: entry_type.split)

lemma leads_store_ready: "leads n (store_ready S rd n)"
  by (simp add: store_ready_def Let_def split: option.split)

lemma leads_install:
  "leads n (case restoreSnapshot S sn (n\<lparr>n_snapshotsReceived := k\<rparr>) of None \<Rightarrow> go_panic (n\<lparr>n_snapshotsReceived := k\<rparr>) | Some r \<Rightarrow> r)"
  using leads_later [OF later_updates(9) leads_restoreSnapshot] by (auto split: option.split)

lemma leads_persist_ready: "leads n (persist_ready S rd n)"
proof -
  have "leads m (case currentHardState S hs m of None \<Rightarrow> go_panic m | Some hs \<Rightarrow> rotate S (rec hs) m)" for m hs rec
    by (auto split: option.split intro: leads_rotate)
  then show ?thesis
    by (simp add: persist_ready_def Let_def leads_then leads_install leads_store_ready leads_append_record)
qed

lemma leads_send_message: "leads n (send_message S m n)"
  by (auto simp: send_message_def Let_def split: option.split) (simp add: later_def emit_event_def)

lemma leads_ready_turn: "leads n (ready_turn S n)"
proof -
  have *: "leads m (each (send_message S) ms (claimIndexes es m))" for m ms es
    by (rule leads_later [OF later_claimIndexes leads_each [OF leads_send_message]])
  have "leads n (and_then (persist_ready S rd (n\<lparr>n_raft := r\<rparr>)) f)" if "\<And>m. leads m (f m)" for r rd f
    by (rule leads_then [OF leads_later [OF _ leads_persist_ready]]) (simp_all add: that)
  then show ?thesis
    unfolding ready_turn_def Let_def
    by (simp add: case_prod_beta leads_then * leads_each leads_applyEntry leads_maybeSnapshot)
qed

lemma leads_processReady: "leads n (processReady S n)"
proof -
  have "later n (outcome_node y)" if "processReady S n = Some y" for y
  proof (rule processReady.raw_induct [OF _ that])
    fix process S n y
    assume IH: "\<And>S n y. process S n = Some y \<Longrightarrow> later n (outcome_node y)"
      and body: "(if HasReady (sm_raft S) (n_raft n)
        then Option.bind (ready_turn S n) (\<lambda>y. case y of Running n \<Rightarrow> process S n | Panicked n \<Rightarrow> Some (Panicked n))
        else Some (Running n)) = Some y"
    show "later n (outcome_node y)"
    proof (cases "HasReady (sm_raft S) (n_raft n)")
      case True
      with body obtain z where z: "ready_turn S n = Some z"
        "(case z of Running n \<Rightarrow> process S n | Panicked n \<Rightarrow> Some (Panicked n)) = Some y"
        by (auto simp: Option.bind_eq_Some_conv)
      have "later n (outcome_node z)" by (rule leadsD [OF leads_ready_turn z(1)])
      then show ?thesis using z(2) IH by (cases z) (auto intro: later_trans)
    qed (use body in auto)
  qed
  then show ?thesis by (simp add: leads_def)
qed

section \<open>Handlers\<close>

lemma leads_Propose: "leads n (Propose S p cb n)"
  by (auto simp: Propose_def Let_def later_def emit_event_def split: prod.split intro: leads_later [OF _ leads_processReady])

lemma leads_proposeConfChange: "leads n (fst (proposeConfChange S cc n))"
  by (auto simp: proposeConfChange_def Let_def later_def split: prod.split intro: leads_later [OF _ leads_processReady])

lemma leads_AddNode: "leads n (fst (AddNode S i a d n))"
  by (simp add: AddNode_def leads_proposeConfChange)

lemma leads_RemoveNode: "leads n (fst (RemoveNode S i n))"
  by (simp add: RemoveNode_def leads_proposeConfChange)

lemma leads_maybePromote: "leads n (maybePromote S n)"
  by (simp add: maybePromote_def leads_proposeConfChange split: option.split)

lemma later_maybeRequestAdmission: "later n (maybeRequestAdmission S n)"
proof -
  have "later n (foldl (\<lambda>n i. if i \<noteq> me then emit_event (Sent (pi_node (peer_of n i)) x) n else n) m ids)" if "later n m" for m me x ids
    using that by (induction ids arbitrary: m) simp_all
  then show ?thesis by (simp add: maybeRequestAdmission_def Let_def)
qed

lemma leads_HandleMessage: "leads n (HandleMessage S now msg n)"
  by (auto simp: HandleMessage_def Let_def later_def leads_AddNode split: prod.split option.split
      intro: leads_later [OF _ leads_processReady])

lemma leads_rearmElection: "leads n (rearmElection (n\<lparr>n_raft := r, n_lastHeard := t\<rparr>))"
  by (simp add: rearmElection_def Let_def later_def split: prod.split)

lemma leads_onTick: "leads n (onTick S now n)"
proof -
  let ?a = "(emit_event (ArmedTick (nc_TickInterval (n_cfg n))) n)"
  let ?b = "?a\<lparr>n_raft := Tick (sm_raft S) (n_raft ?a)\<rparr>"
  let ?c = "if n_confCooldown ?b > 0 then ?b\<lparr>n_confCooldown := n_confCooldown ?b - 1\<rparr> else ?b"
  have "later n ?c" by (simp add: later_def emit_event_def)
  then have m: "later n (maybeRequestAdmission S ?c)" by (rule later_trans [OF _ later_maybeRequestAdmission])
  have "leads k (if snd (Leader S k) then maybePromote S (k\<lparr>n_lastHeard := now\<rparr>)
      else if time_Sub now (n_lastHeard k) \<ge> sint (n_electionAfter k)
      then rearmElection (k\<lparr>n_raft := Campaign (sm_raft S) (n_raft k), n_lastHeard := now\<rparr>) else go_on k)" for k
    by (simp add: leads_rearmElection leads_later [OF _ leads_maybePromote])
  from leads_later [OF m leads_then [OF this leads_processReady]] show ?thesis
    by (simp only: onTick_def Let_def)
qed

text \<open>One event of the loop of a node that does not panic, and the states it leads to.\<close>

inductive node_step :: "('r, 'm, 'd, 'p) seams \<Rightarrow> ('r, 'd, 'p) RaftNode \<Rightarrow> ('r, 'd, 'p) RaftNode \<Rightarrow> bool" for S where
  step_propose: "Propose S p cb n = Some (Running n') \<Longrightarrow> node_step S n n'"
| step_message: "HandleMessage S now msg n = Some (Running n') \<Longrightarrow> node_step S n n'"
| step_tick: "onTick S now n = Some (Running n') \<Longrightarrow> node_step S n n'"
| step_add: "fst (AddNode S i addr dial n) = Some (Running n') \<Longrightarrow> node_step S n n'"
| step_remove: "fst (RemoveNode S i n) = Some (Running n') \<Longrightarrow> node_step S n n'"

inductive_cases node_stepE: "node_step S n n'"

lemma node_step_later: "node_step S n n' \<Longrightarrow> later n n'"
  by (induction rule: node_step.induct)
    (auto dest: leadsD [OF leads_Propose] leadsD [OF leads_HandleMessage] leadsD [OF leads_onTick]
      leadsD [OF leads_AddNode] leadsD [OF leads_RemoveNode])

lemma node_steps_later: "(node_step S)\<^sup>*\<^sup>* n n' \<Longrightarrow> later n n'"
  by (induction rule: rtranclp_induct) (auto dest: node_step_later intro: later_trans)

end
