(* ===== verification/Raft_Tiers.thy ===== *)
theory Raft_Tiers
  imports Raft_Apply
begin

text \<open>
  The two ways of booting agree: a replica that trusts its durable store and skips the entries the
  store already holds ends in the same metadata and the same membership as one that rebuilds from the
  log.
\<close>

section \<open>An apply does not depend on the persister\<close>

abbreviation meta_rows :: "('r, 'd, 'p) RaftNode \<Rightarrow> row memKV" where
  "meta_rows n \<equiv> tx_mem (s_kv (n_store n))"

lemma Apply_same:
  assumes "tx_mem (s_kv s) = tx_mem (s_kv s')" and "\<And>p rows. snd (commit p rows)" and "\<And>p rows. snd (commit' p rows)"
  shows "tx_mem (s_kv (fst (Apply pw commit p s))) = tx_mem (s_kv (fst (Apply pw commit' p s')))"
    and "snd (Apply pw commit p s) = snd (Apply pw commit' p s')"
proof -
  have reset: "tx_reset (s_kv s) = tx_reset (s_kv s')" using assms(1) by (simp add: tx_reset_def)
  obtain t r where b: "Apply_body p (tx_reset (s_kv s)) = (t, r)" by fastforce
  have b': "Apply_body p (tx_reset (s_kv s')) = (t, r)" using b reset by simp
  show "tx_mem (s_kv (fst (Apply pw commit p s))) = tx_mem (s_kv (fst (Apply pw commit' p s')))"
    "snd (Apply pw commit p s) = snd (Apply pw commit' p s')"
    using assms(2,3) by (simp_all add: Apply_eq [OF b] Apply_eq [OF b'] split: sum.split option.split)
qed

section \<open>Membership does not depend on the metadata\<close>

definition same_conf :: "('r, 'd, 'p) RaftNode \<Rightarrow> ('r, 'd, 'p) RaftNode \<Rightarrow> bool" where
  "same_conf a b \<longleftrightarrow> n_cfg a = n_cfg b \<and> n_raft a = n_raft b \<and> n_peers a = n_peers b \<and>
     n_removed a = n_removed b \<and> n_confState a = n_confState b"

text \<open>The two nodes change their membership by the same update.\<close>

definition moves :: "(('r, 'd, 'p) RaftNode \<Rightarrow> ('r, 'd, 'p) RaftNode node_run) \<Rightarrow> ('r, 'd, 'p) RaftNode \<Rightarrow> ('r, 'd, 'p) RaftNode \<Rightarrow> bool" where
  "moves f a b \<longleftrightarrow> (\<forall>a'. f a = Some (Running a') \<longrightarrow>
     (\<exists>b'. f b = Some (Running b') \<and> same_conf a' b' \<and> n_store a' = n_store a \<and> n_store b' = n_store b \<and>
        n_persistedIndex a' = n_persistedIndex a \<and> n_persistedIndex b' = n_persistedIndex b))"

lemma movesI:
  assumes "f a = go_on a' \<Longrightarrow> f b = go_on b' \<and> same_conf a' b' \<and> n_store a' = n_store a \<and> n_store b' = n_store b \<and>
      n_persistedIndex a' = n_persistedIndex a \<and> n_persistedIndex b' = n_persistedIndex b"
    and "f a = go_on a' \<or> (\<exists>n. f a = go_panic n) \<or> f a = None"
  shows "moves f a b"
  unfolding moves_def
proof (intro allI impI)
  fix x assume x: "f a = Some (Running x)"
  with assms(2) have f: "f a = go_on a'" by (auto simp: go_on_def go_panic_def)
  with x have "x = a'" by (simp add: go_on_def)
  with assms(1) [OF f] show "\<exists>b'. f b = Some (Running b') \<and> same_conf x b' \<and> n_store x = n_store a \<and> n_store b' = n_store b \<and>
      n_persistedIndex x = n_persistedIndex a \<and> n_persistedIndex b' = n_persistedIndex b"
    by (intro exI [of _ b']) (simp add: go_on_def)
qed

lemma same_conf_updates:
  "same_conf a b \<Longrightarrow> same_conf (a\<lparr>n_peers := fmupd i x (n_peers a)\<rparr>) (b\<lparr>n_peers := fmupd i x (n_peers b)\<rparr>)"
  "same_conf a b \<Longrightarrow> same_conf (a\<lparr>n_peers := fmdrop i (n_peers a), n_removed := finsert i (n_removed a)\<rparr>)
     (b\<lparr>n_peers := fmdrop i (n_peers b), n_removed := finsert i (n_removed b)\<rparr>)"
  by (simp_all add: same_conf_def)

lemma conf_add_moves:
  assumes "same_conf a b" and "cc_Type cc = ConfChangeAddNode \<or> cc_Type cc = ConfChangeAddLearnerNode"
  shows "moves (conf_address S cc) a b"
proof (cases "cc_Context cc = []")
  case True
  with assms show ?thesis by (intro movesI [of _ _ a _ b]) (auto simp: conf_address_def)
next
  case False
  show ?thesis
  proof (cases "decodeMember (sm_wire S) (cc_Context cc)")
    case None
    with False assms(2) show ?thesis by (auto simp: moves_def conf_address_def)
  next
    case (Some m)
    show ?thesis
    proof (cases m)
      case None
      with Some False assms(2) show ?thesis by (auto simp: moves_def conf_address_def)
    next
      case (Some x)
      obtain i info where x: "x = (i, info)" by (cases x)
      with Some \<open>decodeMember (sm_wire S) (cc_Context cc) = Some m\<close> False assms(2)
      have f: "conf_address S cc n = (if i \<noteq> cc_NodeID cc then go_panic n else go_on (n\<lparr>n_peers := fmupd i info (n_peers n)\<rparr>))" for n
        by (auto simp: conf_address_def)
      show ?thesis
        by (rule movesI [of _ _ "a\<lparr>n_peers := fmupd i info (n_peers a)\<rparr>" _ "b\<lparr>n_peers := fmupd i info (n_peers b)\<rparr>"])
          (use same_conf_updates [OF assms(1)] in \<open>auto simp: f split: if_splits\<close>)
    qed
  qed
qed

lemma conf_address_moves:
  assumes "same_conf a b"
  shows "moves (conf_address S cc) a b"
proof (cases "cc_Type cc")
  case ConfChangeRemoveNode
  then show ?thesis
    by (intro movesI [of _ _ "a\<lparr>n_peers := fmdrop (cc_NodeID cc) (n_peers a), n_removed := finsert (cc_NodeID cc) (n_removed a)\<rparr>"
          _ "b\<lparr>n_peers := fmdrop (cc_NodeID cc) (n_peers b), n_removed := finsert (cc_NodeID cc) (n_removed b)\<rparr>"])
      (simp_all add: conf_address_def same_conf_updates [OF assms])
next
  case ConfChangeUpdateNode
  then show ?thesis by (intro movesI [of _ _ a _ b]) (simp_all add: conf_address_def assms)
next
  case ConfChangeAddNode
  then show ?thesis by (intro conf_add_moves [OF assms]) simp
next
  case ConfChangeAddLearnerNode
  then show ?thesis by (intro conf_add_moves [OF assms]) simp
qed

lemma conf_address_same:
  assumes "conf_address S cc a = Some (Running a')" and "same_conf a b"
  shows "\<exists>b'. conf_address S cc b = Some (Running b') \<and> same_conf a' b' \<and> n_store a' = n_store a \<and> n_store b' = n_store b \<and>
    n_persistedIndex a' = n_persistedIndex a \<and> n_persistedIndex b' = n_persistedIndex b"
  using conf_address_moves [OF assms(2), of S cc] assms(1) by (simp add: moves_def)

lemma notified_keeps:
  "n_cfg (notifyMembership n) = n_cfg n" "n_raft (notifyMembership n) = n_raft n" "n_peers (notifyMembership n) = n_peers n"
  "n_removed (notifyMembership n) = n_removed n" "n_confState (notifyMembership n) = n_confState n"
  "n_store (notifyMembership n) = n_store n" "n_persistedIndex (notifyMembership n) = n_persistedIndex n"
  "n_disk (notifyMembership n) = n_disk n"
  by (simp_all add: notifyMembership_def emit_event_def)

lemma emitted_keeps:
  "n_cfg (emit_event e n) = n_cfg n" "n_raft (emit_event e n) = n_raft n" "n_peers (emit_event e n) = n_peers n"
  "n_removed (emit_event e n) = n_removed n" "n_confState (emit_event e n) = n_confState n"
  "n_store (emit_event e n) = n_store n" "n_persistedIndex (emit_event e n) = n_persistedIndex n" "n_disk (emit_event e n) = n_disk n"
  by (simp_all add: emit_event_def)

text \<open>The rest of a configuration change.\<close>

definition conf_applied :: "('r, 'm, 'd, 'p) seams \<Rightarrow> ConfChange \<Rightarrow> ('r, 'd, 'p) RaftNode \<Rightarrow> ('r, 'd, 'p) RaftNode" where
  "conf_applied S cc n =
     (let n = notifyMembership (n\<lparr>n_raft := fst (RawApplyConfChange (sm_raft S) (n_raft n) cc),
          n_confState := snd (RawApplyConfChange (sm_raft S) (n_raft n) cc), n_confChanged := True\<rparr>)
      in if cc_Type cc = ConfChangeRemoveNode \<and> cc_NodeID cc = nc_ID (n_cfg n) \<and> nc_OnRemoved (n_cfg n)
         then emit_event SelfRemoved n else n)"

lemma apply_conf_change_eq: "apply_conf_change S e n =
    (case Unmarshal_ConfChange (sm_raft S) zeroConfChange (e_Data e) of
       None \<Rightarrow> go_panic n | Some cc \<Rightarrow> and_then (conf_address S cc n) (\<lambda>n. go_on (conf_applied S cc n)))"
  by (simp add: apply_conf_change_def conf_applied_def Let_def case_prod_beta cong: option.case_cong)

lemma conf_applied_keeps:
  "n_store (conf_applied S cc n) = n_store n" "n_persistedIndex (conf_applied S cc n) = n_persistedIndex n"
  "n_disk (conf_applied S cc n) = n_disk n" "n_removed (conf_applied S cc n) = n_removed n"
  "n_cfg (conf_applied S cc n) = n_cfg n" "n_peers (conf_applied S cc n) = n_peers n"
  "n_raft (conf_applied S cc n) = fst (RawApplyConfChange (sm_raft S) (n_raft n) cc)"
  "n_confState (conf_applied S cc n) = snd (RawApplyConfChange (sm_raft S) (n_raft n) cc)"
  by (simp_all add: conf_applied_def Let_def notified_keeps emitted_keeps)

lemma conf_applied_same: "same_conf a b \<Longrightarrow> same_conf (conf_applied S cc a) (conf_applied S cc b)"
  by (simp add: same_conf_def conf_applied_keeps)

lemma apply_conf_change_same:
  assumes "apply_conf_change S e a = Some (Running a')" and "same_conf a b"
  shows "\<exists>b'. apply_conf_change S e b = Some (Running b') \<and> same_conf a' b' \<and> n_store a' = n_store a \<and> n_store b' = n_store b \<and>
    n_persistedIndex a' = n_persistedIndex a \<and> n_persistedIndex b' = n_persistedIndex b"
proof -
  from assms(1) obtain cc a1 where cc: "Unmarshal_ConfChange (sm_raft S) zeroConfChange (e_Data e) = Some cc"
    and a1: "conf_address S cc a = Some (Running a1)" "a' = conf_applied S cc a1"
    by (auto simp: apply_conf_change_eq and_then_Some split: option.splits)
  from conf_address_same [OF a1(1) assms(2)] obtain b1 where b1: "conf_address S cc b = Some (Running b1)" "same_conf a1 b1"
    "n_store a1 = n_store a" "n_store b1 = n_store b"
    "n_persistedIndex a1 = n_persistedIndex a" "n_persistedIndex b1 = n_persistedIndex b"
    by blast
  have "apply_conf_change S e b = Some (Running (conf_applied S cc b1))"
    using cc b1(1) by (simp add: apply_conf_change_eq and_then_Some)
  then show ?thesis
    using b1 a1(2) conf_applied_same [OF b1(2)] by (simp add: conf_applied_keeps)
qed

section \<open>Entries\<close>

definition commits :: "('r, 'm, 'd, 'p) seams \<Rightarrow> bool" where
  "commits S \<longleftrightarrow> (\<forall>p i rows. snd (CommitAt (sm_db S) p i rows))"

lemma settle_keeps:
  "same_conf (settle_waiters i r n) m \<longleftrightarrow> same_conf n m" "same_conf m (settle_waiters i r n) \<longleftrightarrow> same_conf m n"
  "n_store (settle_waiters i r n) = n_store n" "n_persistedIndex (settle_waiters i r n) = n_persistedIndex n"
  by (simp_all add: settle_waiters_def same_conf_def Let_def)

lemma apply_normal_same:
  assumes "commits S" and "apply_normal S e a = Some (Running a')" and "same_conf a b" and "meta_rows a = meta_rows b"
    and "n_persistedIndex a < e_Index e" and "n_persistedIndex b < e_Index e"
  shows "\<exists>b'. apply_normal S e b = Some (Running b') \<and> same_conf a' b' \<and> meta_rows a' = meta_rows b' \<and>
    n_persistedIndex a' = n_persistedIndex a \<and> n_persistedIndex b' = n_persistedIndex b"
proof -
  have ok: "snd (indexed_Commit S i p rows)" for i p rows using assms(1) by (simp add: commits_def indexed_Commit_def)
  have eq: "tx_mem (s_kv (fst (Apply (sm_wire S) (indexed_Commit S i) p (n_store a)))) =
      tx_mem (s_kv (fst (Apply (sm_wire S) (indexed_Commit S i) p (n_store b))))"
    "snd (Apply (sm_wire S) (indexed_Commit S i) p (n_store a)) = snd (Apply (sm_wire S) (indexed_Commit S i) p (n_store b))"
    for i p
    by (rule Apply_same [OF assms(4)]; rule ok)+
  have upd: "same_conf (a\<lparr>n_applyingIndex := i, n_store := s\<rparr>) (b\<lparr>n_applyingIndex := i, n_store := t\<rparr>)" for i s t
    using assms(3) by (simp add: same_conf_def)
  from assms(2,5) consider "e_Data e = []" "a' = a"
    | p where "e_Data e \<noteq> []" "DecodeProposal (sm_wire S) (e_Data e) = Some (Some p)"
    by (auto simp: apply_normal_def split: if_splits option.splits)
  then show ?thesis
  proof cases
    case 1
    with assms(3,4) show ?thesis by (simp add: apply_normal_def)
  next
    case 2
    let ?A = "Apply (sm_wire S) (indexed_Commit S (e_Index e)) p (n_store a)"
    let ?B = "Apply (sm_wire S) (indexed_Commit S (e_Index e)) p (n_store b)"
    have r: "snd ?A \<noteq> Inl ErrPersist" and
      a': "a' = settle_waiters (e_Index e) (snd ?A) (a\<lparr>n_applyingIndex := e_Index e, n_store := fst ?A\<rparr>)"
      using assms(2,5) 2 by (auto simp: apply_normal_def Let_def case_prod_beta split: if_splits)
    have "apply_normal S e b = go_on (settle_waiters (e_Index e) (snd ?B) (b\<lparr>n_applyingIndex := e_Index e, n_store := fst ?B\<rparr>))"
      using assms(6) 2 r eq(2) by (simp add: apply_normal_def Let_def case_prod_beta)
    then show ?thesis using eq a' upd by (simp add: settle_keeps)
  qed
qed

lemma same_conf_applied: "same_conf (a\<lparr>n_applied := i\<rparr>) (b\<lparr>n_applied := j\<rparr>) \<longleftrightarrow> same_conf a b"
  by (simp add: same_conf_def)

text \<open>Entries above both indexes: the metadata stays the same.\<close>

lemma entry_same:
  assumes "commits S" and "applyEntry S e a = Some (Running a')" and "same_conf a b" and "meta_rows a = meta_rows b"
    and "n_persistedIndex a < e_Index e" and "n_persistedIndex b < e_Index e"
  shows "\<exists>b'. applyEntry S e b = Some (Running b') \<and> same_conf a' b' \<and> meta_rows a' = meta_rows b' \<and>
    n_persistedIndex a' = n_persistedIndex a \<and> n_persistedIndex b' = n_persistedIndex b"
proof (cases "e_Type e")
  case EntryNormal
  with apply_normal_same [OF assms(1), of e "a\<lparr>n_applied := e_Index e\<rparr>" a' "b\<lparr>n_applied := e_Index e\<rparr>"] assms
  show ?thesis by (simp add: applyEntry_def Let_def same_conf_applied)
next
  case EntryConfChange
  with apply_conf_change_same [of S e "a\<lparr>n_applied := e_Index e\<rparr>" a' "b\<lparr>n_applied := e_Index e\<rparr>"] assms
  show ?thesis by (auto simp: applyEntry_def Let_def same_conf_applied)
next
  case EntryConfChangeV2
  with assms show ?thesis by (auto simp: applyEntry_def Let_def same_conf_applied)
qed

text \<open>Entries that the durable store already holds: only the membership moves.\<close>

lemma entry_skipped:
  assumes "applyEntry S e a = Some (Running a')" and "same_conf a b" and "e_Index e \<le> n_persistedIndex b"
  shows "\<exists>b'. applyEntry S e b = Some (Running b') \<and> same_conf a' b' \<and> n_store b' = n_store b \<and>
    n_persistedIndex a' = n_persistedIndex a \<and> n_persistedIndex b' = n_persistedIndex b"
proof (cases "e_Type e")
  case EntryNormal
  have "same_conf a' (b\<lparr>n_applied := e_Index e\<rparr>) \<and> n_persistedIndex a' = n_persistedIndex a"
    using assms(1,2) EntryNormal
    by (auto simp: applyEntry_def apply_normal_def Let_def settle_waiters_def same_conf_def case_prod_beta split: if_splits option.splits)
  with EntryNormal assms(3) show ?thesis by (simp add: applyEntry_def apply_normal_def Let_def)
next
  case EntryConfChange
  with apply_conf_change_same [of S e "a\<lparr>n_applied := e_Index e\<rparr>" a' "b\<lparr>n_applied := e_Index e\<rparr>"] assms
  show ?thesis by (auto simp: applyEntry_def Let_def same_conf_applied)
next
  case EntryConfChangeV2
  with assms show ?thesis by (auto simp: applyEntry_def Let_def same_conf_applied)
qed

lemma each_Running: "each f (x # xs) n = Some (Running n') \<longleftrightarrow> (\<exists>m. f x n = Some (Running m) \<and> each f xs m = Some (Running n'))"
  by (auto simp: and_then_Some)

lemma entries_same:
  assumes "commits S" and "each (applyEntry S) es a = Some (Running a')" and "same_conf a b" and "meta_rows a = meta_rows b"
    and "\<forall>e \<in> set es. n_persistedIndex a < e_Index e \<and> n_persistedIndex b < e_Index e"
  shows "\<exists>b'. each (applyEntry S) es b = Some (Running b') \<and> same_conf a' b' \<and> meta_rows a' = meta_rows b'"
  using assms(2-5)
proof (induction es arbitrary: a b)
  case (Cons e es)
  from Cons.prems(1) obtain a1 where a1: "applyEntry S e a = Some (Running a1)" "each (applyEntry S) es a1 = Some (Running a')"
    by (auto simp only: each_Running)
  obtain b1 where b1: "applyEntry S e b = Some (Running b1)" "same_conf a1 b1" "meta_rows a1 = meta_rows b1"
    "n_persistedIndex a1 = n_persistedIndex a" "n_persistedIndex b1 = n_persistedIndex b"
    using entry_same [OF assms(1) a1(1) Cons.prems(2,3)] Cons.prems(4) by auto
  from Cons.IH [OF a1(2) b1(2,3)] b1 Cons.prems(4) show ?case by (auto simp only: each_Running list.set)
qed simp

lemma entries_skipped:
  assumes "each (applyEntry S) es a = Some (Running a')" and "same_conf a b" and "\<forall>e \<in> set es. e_Index e \<le> n_persistedIndex b"
  shows "\<exists>b'. each (applyEntry S) es b = Some (Running b') \<and> same_conf a' b' \<and> n_store b' = n_store b \<and>
    n_persistedIndex a' = n_persistedIndex a \<and> n_persistedIndex b' = n_persistedIndex b"
  using assms
proof (induction es arbitrary: a b)
  case (Cons e es)
  from Cons.prems(1) obtain a1 where a1: "applyEntry S e a = Some (Running a1)" "each (applyEntry S) es a1 = Some (Running a')"
    by (auto simp only: each_Running)
  obtain b1 where b1: "applyEntry S e b = Some (Running b1)" "same_conf a1 b1" "n_store b1 = n_store b"
    "n_persistedIndex a1 = n_persistedIndex a" "n_persistedIndex b1 = n_persistedIndex b"
    using entry_skipped [OF a1(1) Cons.prems(2)] Cons.prems(3) by auto
  from Cons.IH [OF a1(2) b1(2)] b1 Cons.prems(3) show ?case by (auto simp only: each_Running list.set)
qed simp

lemma and_then_assoc: "and_then (and_then x f) g = and_then x (\<lambda>n. and_then (f n) g)"
  by (cases x) (simp_all add: and_then_def split: outcome.split)

lemma each_append: "each f (xs @ ys) n = and_then (each f xs n) (each f ys)"
proof (induction xs arbitrary: n)
  case (Cons x xs)
  then have "each f (xs @ ys) = (\<lambda>n. and_then (each f xs n) (each f ys))" by (intro ext)
  then show ?case by (simp add: and_then_assoc)
qed simp

end
