(* ===== verification/Raft_Ref.thy ===== *)
theory Raft_Ref
  imports Raft_Codec Wire_Ref
begin

text \<open>
  A reference implementation of the marshalling of \<^verbatim>\<open>raftpb\<close> over the reference wire format, with the field
  numbers of \<^verbatim>\<open>raft.proto\<close>, which shows that the promises of the locale \<open>raft_codec\<close> can be kept.
  A byte string that no Go slice can hold is not marshalled.
\<close>

datatype pb_value = Varint u64 | Blob_value bytes

definition pb_rest ::
    "protowire \<Rightarrow> (nat \<Rightarrow> pb_value \<Rightarrow> 's \<Rightarrow> 's option) \<Rightarrow> 's \<Rightarrow> nat \<Rightarrow> nat \<Rightarrow> bytes \<Rightarrow> (bytes \<times> 's) option option" where
  "pb_rest pw f s num ty b =
     Some (if ty = VarintType
       then Option.bind (ConsumeVarint pw b) (\<lambda>(v, n). map_option (\<lambda>s. (drop n b, s)) (f num (Varint v) s))
       else if ty = BytesType
       then Option.bind (ConsumeBytes pw b) (\<lambda>(v, n). map_option (\<lambda>s. (drop n b, s)) (f num (Blob_value v) s))
       else map_option (\<lambda>n. (drop n b, s)) (ConsumeFieldValue pw num ty b))"

definition pb_step :: "protowire \<Rightarrow> (nat \<Rightarrow> pb_value \<Rightarrow> 's \<Rightarrow> 's option) \<Rightarrow> bytes \<Rightarrow> 's \<Rightarrow> (bytes \<times> 's) option option" where
  "pb_step pw f b s = at_tag pw (pb_rest pw f s) b"

definition pb_merge :: "protowire \<Rightarrow> (nat \<Rightarrow> pb_value \<Rightarrow> 's \<Rightarrow> 's option) \<Rightarrow> 's \<Rightarrow> bytes \<Rightarrow> 's option" where
  "pb_merge pw f s b = Option.bind (field_walk (pb_step pw f) b s) (\<lambda>x. x)"

definition pb_varint :: "protowire \<Rightarrow> nat \<Rightarrow> u64 \<Rightarrow> bytes" where
  "pb_varint pw num v = AppendTag pw [] num VarintType @ AppendVarint pw [] v"

definition pb_bytes :: "protowire \<Rightarrow> nat \<Rightarrow> bytes \<Rightarrow> bytes" where
  "pb_bytes pw num v = AppendTag pw [] num BytesType @ AppendBytes pw [] v"

section \<open>The messages\<close>

fun hs_field :: "nat \<Rightarrow> pb_value \<Rightarrow> HardState \<Rightarrow> HardState option" where
  "hs_field num (Varint v) s = Some (if num = 1 then s\<lparr>hs_Term := v\<rparr> else if num = 2 then s\<lparr>hs_Vote := v\<rparr>
     else if num = 3 then s\<lparr>hs_Commit := v\<rparr> else s)"
| "hs_field num _ s = Some s"

definition entry_code :: "entry_type \<Rightarrow> u64" where
  "entry_code t = (case t of EntryNormal \<Rightarrow> 0 | EntryConfChange \<Rightarrow> 1 | EntryConfChangeV2 \<Rightarrow> 2)"

definition entry_type_of :: "u64 \<Rightarrow> entry_type" where
  "entry_type_of v = (if v = 0 then EntryNormal else if v = 1 then EntryConfChange else EntryConfChangeV2)"

fun pb_entry_field :: "nat \<Rightarrow> pb_value \<Rightarrow> Entry \<Rightarrow> Entry option" where
  "pb_entry_field num (Varint v) s = Some (if num = 1 then s\<lparr>e_Type := entry_type_of v\<rparr> else if num = 2 then s\<lparr>e_Term := v\<rparr>
     else if num = 3 then s\<lparr>e_Index := v\<rparr> else s)"
| "pb_entry_field num (Blob_value v) s = Some (if num = 4 then s\<lparr>e_Data := v\<rparr> else s)"

fun cs_field :: "nat \<Rightarrow> pb_value \<Rightarrow> ConfState \<Rightarrow> ConfState option" where
  "cs_field num (Varint v) s = Some (if num = 1 then s\<lparr>cs_Voters := cs_Voters s @ [v]\<rparr>
     else if num = 2 then s\<lparr>cs_Learners := cs_Learners s @ [v]\<rparr>
     else if num = 3 then s\<lparr>cs_VotersOutgoing := cs_VotersOutgoing s @ [v]\<rparr>
     else if num = 4 then s\<lparr>cs_LearnersNext := cs_LearnersNext s @ [v]\<rparr>
     else if num = 5 then s\<lparr>cs_AutoLeave := (v \<noteq> 0)\<rparr> else s)"
| "cs_field num _ s = Some s"

fun metadata_field :: "protowire \<Rightarrow> nat \<Rightarrow> pb_value \<Rightarrow> Snapshot \<Rightarrow> Snapshot option" where
  "metadata_field pw num (Varint v) s = Some (if num = 2 then s\<lparr>sn_Index := v\<rparr> else if num = 3 then s\<lparr>sn_Term := v\<rparr> else s)"
| "metadata_field pw num (Blob_value v) s =
     (if num = 1 then map_option (\<lambda>c. s\<lparr>sn_ConfState := c\<rparr>) (pb_merge pw cs_field (sn_ConfState s) v) else Some s)"

fun snap_field :: "protowire \<Rightarrow> nat \<Rightarrow> pb_value \<Rightarrow> Snapshot \<Rightarrow> Snapshot option" where
  "snap_field pw num (Blob_value v) s =
     (if num = 1 then Some (s\<lparr>sn_Data := v\<rparr>) else if num = 2 then pb_merge pw (metadata_field pw) s v else Some s)"
| "snap_field pw num _ s = Some s"

definition marshal_hs :: "protowire \<Rightarrow> HardState \<Rightarrow> bytes" where
  "marshal_hs pw s = pb_varint pw 1 (hs_Term s) @ pb_varint pw 2 (hs_Vote s) @ pb_varint pw 3 (hs_Commit s)"

definition marshal_entry :: "protowire \<Rightarrow> Entry \<Rightarrow> bytes" where
  "marshal_entry pw s = pb_varint pw 1 (entry_code (e_Type s)) @ pb_varint pw 2 (e_Term s) @ pb_varint pw 3 (e_Index s) @
     (if e_Data s = [] then [] else pb_bytes pw 4 (e_Data s))"

definition marshal_cs :: "protowire \<Rightarrow> ConfState \<Rightarrow> bytes" where
  "marshal_cs pw s = concat (map (pb_varint pw 1) (cs_Voters s)) @ concat (map (pb_varint pw 2) (cs_Learners s)) @
     concat (map (pb_varint pw 3) (cs_VotersOutgoing s)) @ concat (map (pb_varint pw 4) (cs_LearnersNext s)) @
     pb_varint pw 5 (of_bool (cs_AutoLeave s))"

definition marshal_metadata :: "protowire \<Rightarrow> Snapshot \<Rightarrow> bytes" where
  "marshal_metadata pw s = pb_bytes pw 1 (marshal_cs pw (sn_ConfState s)) @ pb_varint pw 2 (sn_Index s) @ pb_varint pw 3 (sn_Term s)"

definition marshal_snap :: "protowire \<Rightarrow> Snapshot \<Rightarrow> bytes" where
  "marshal_snap pw s = (if sn_Data s = [] then [] else pb_bytes pw 1 (sn_Data s)) @ pb_bytes pw 2 (marshal_metadata pw s)"

definition ref_pb :: raftpb where
  "ref_pb =
     \<lparr>Marshal_HardState = (\<lambda>s. Some (marshal_hs ref_wire s)),
      Marshal_Entry = (\<lambda>s. if go_sized (e_Data s) then Some (marshal_entry ref_wire s) else None),
      Marshal_Snapshot = (\<lambda>s. if go_sized (sn_Data s) \<and> go_sized (marshal_cs ref_wire (sn_ConfState s)) \<and>
          go_sized (marshal_metadata ref_wire s) then Some (marshal_snap ref_wire s) else None),
      Unmarshal_HardState = (\<lambda>s b. pb_merge ref_wire hs_field s b),
      Unmarshal_Entry = (\<lambda>s b. pb_merge ref_wire pb_entry_field s b),
      Unmarshal_Snapshot = (\<lambda>s b. pb_merge ref_wire (snap_field ref_wire) s b),
      IsEmptyHardState = (\<lambda>s. s = zeroHardState),
      IsEmptySnap = (\<lambda>s. sn_Index s = 0)\<rparr>"

section \<open>Reading back\<close>

context wire
begin

lemma pb_varint_read:
  "valid_num num \<Longrightarrow> f num (Varint v) s = Some s' \<Longrightarrow>
   field_walk (pb_step pw f) (pb_varint pw num v @ b) s = field_walk (pb_step pw f) b s'"
  using walk_vfield [of num "pb_step pw f" "pb_rest pw f" s v b s'] by (simp add: pb_step_def pb_rest_def pb_varint_def vfield_def consume_varint)

lemma pb_bytes_read:
  "valid_num num \<Longrightarrow> go_sized x \<Longrightarrow> f num (Blob_value x) s = Some s' \<Longrightarrow>
   field_walk (pb_step pw f) (pb_bytes pw num x @ b) s = field_walk (pb_step pw f) b s'"
  using walk_bfield [of num "pb_step pw f" "pb_rest pw f" s x b s']
  by (simp add: pb_step_def pb_rest_def pb_bytes_def bfield_def consume_bytes type_defs)

lemmas pb_reads = pb_varint_read pb_bytes_read pb_varint_read [where b = "[]", simplified] pb_bytes_read [where b = "[]", simplified]

lemma hs_read: "pb_merge pw hs_field zeroHardState (marshal_hs pw s) = Some s"
  by (cases s) (simp add: pb_merge_def marshal_hs_def pb_reads zeroHardState_def)

lemma entry_code_inverse [simp]: "entry_type_of (entry_code t) = t"
  by (cases t) (simp_all add: entry_type_of_def entry_code_def)

lemma entry_read: "go_sized (e_Data s) \<Longrightarrow> pb_merge pw pb_entry_field zeroEntry (marshal_entry pw s) = Some s"
  by (cases s) (simp add: pb_merge_def marshal_entry_def pb_reads zeroEntry_def)

lemma list_read:
  assumes "valid_num num" and "\<And>s v. f num (Varint v) s = Some (upd (\<lambda>xs. xs @ [v]) s)" and "\<And>g h s. upd g (upd h s) = upd (\<lambda>x. g (h x)) s"
    and "\<And>s. upd (\<lambda>x. x) s = s"
  shows "field_walk (pb_step pw f) (concat (map (pb_varint pw num) vs) @ b) s = field_walk (pb_step pw f) b (upd (\<lambda>xs. xs @ vs) s)"
  by (induction vs arbitrary: s) (simp_all add: assms pb_varint_read)

lemma cs_lists:
  "field_walk (pb_step pw cs_field) (concat (map (pb_varint pw 1) vs) @ b) s = field_walk (pb_step pw cs_field) b (cs_Voters_update (\<lambda>xs. xs @ vs) s)"
  "field_walk (pb_step pw cs_field) (concat (map (pb_varint pw 2) vs) @ b) s = field_walk (pb_step pw cs_field) b (cs_Learners_update (\<lambda>xs. xs @ vs) s)"
  "field_walk (pb_step pw cs_field) (concat (map (pb_varint pw 3) vs) @ b) s = field_walk (pb_step pw cs_field) b (cs_VotersOutgoing_update (\<lambda>xs. xs @ vs) s)"
  "field_walk (pb_step pw cs_field) (concat (map (pb_varint pw 4) vs) @ b) s = field_walk (pb_step pw cs_field) b (cs_LearnersNext_update (\<lambda>xs. xs @ vs) s)"
  by (rule list_read; simp add: comp_def)+

lemma cs_read: "pb_merge pw cs_field zeroConfState (marshal_cs pw s) = Some s"
  by (cases s) (simp add: pb_merge_def marshal_cs_def cs_lists pb_reads zeroConfState_def del: One_nat_def)

lemma metadata_read:
  assumes "go_sized (marshal_cs pw (sn_ConfState s))" and "sn_ConfState z = zeroConfState"
  shows "pb_merge pw (metadata_field pw) z (marshal_metadata pw s) =
    Some (z\<lparr>sn_ConfState := sn_ConfState s, sn_Index := sn_Index s, sn_Term := sn_Term s\<rparr>)"
  by (simp add: pb_merge_def [of pw "metadata_field pw"] marshal_metadata_def pb_reads assms cs_read)

lemma snap_read:
  assumes "go_sized (sn_Data s)" and "go_sized (marshal_cs pw (sn_ConfState s))" and "go_sized (marshal_metadata pw s)"
  shows "pb_merge pw (snap_field pw) zeroSnapshot (marshal_snap pw s) = Some s"
  using assms
  by (cases s; cases "sn_Data s = []") (simp_all add: pb_merge_def [of pw "snap_field pw"] marshal_snap_def pb_reads metadata_read zeroSnapshot_def)

end

interpretation ref_raft: raft_codec ref_wire ref_pb
  by unfold_locales (auto simp: ref_pb_def ref.hs_read ref.entry_read ref.snap_read split: if_splits)

end
