(* ===== verification/Raft_Properties.thy ===== *)
theory Raft_Properties
  imports Raft_Log Raft_Tiers Raft_Ref Storage_Properties
begin

text \<open>
  The properties of the consensus layer, with a small scripted library to instantiate them: its state
  is the list of the batches it will hand out.
\<close>

section \<open>A scripted library\<close>

definition script_raft :: "(bytes Ready list, bytes) raft_lib" where
  "script_raft =
     \<lparr>lib_pb = ref_pb, Unmarshal_ConfChange = (\<lambda>c b. None), Marshal_Message = Some, Unmarshal_Message = Some,
      Message_Type = (\<lambda>m. MsgOther), Message_To = (\<lambda>m. 2), NewMemoryStorage = [], ApplySnapshot = (\<lambda>r s. Some r),
      StorageAppend = (\<lambda>r es. Some r), SetHardState = (\<lambda>r h. Some r), InitialState = (\<lambda>r. Some \<lparr>hs_Term = 1, hs_Vote = 1, hs_Commit = 0\<rparr>),
      CreateSnapshot = (\<lambda>r i c x. Some (r, \<lparr>sn_Data = x, sn_ConfState = c, sn_Index = i, sn_Term = 1\<rparr>)),
      Compact = (\<lambda>r i. Some r), FirstIndex = (\<lambda>r. Some 4), LastIndex = (\<lambda>r. Some 3), StorageTerm = (\<lambda>r i. Some 1),
      StorageEntries = (\<lambda>r a b. Some []), NewRawNode = (\<lambda>r i a. Some r), Bootstrap = (\<lambda>r ps. Some r),
      Status_Lead = (\<lambda>r. 0), Status_isLeader = (\<lambda>r. False), Status_Match = (\<lambda>r i. None), Tick = (\<lambda>r. r),
      Campaign = (\<lambda>r. r), Step = (\<lambda>r m. (r, True)), RawPropose = (\<lambda>r b. (r, True)),
      RawProposeConfChange = (\<lambda>r c. (r, True)), RawApplyConfChange = (\<lambda>r c. (r, zeroConfState)),
      ReportSnapshot = (\<lambda>r i. r), HasReady = (\<lambda>r. r \<noteq> []), TakeReady = (\<lambda>r. (tl r, hd r)), Advance = (\<lambda>r rd. r)\<rparr>"

text \<open>A durable store that keeps its rows in memory.\<close>

definition script_db :: "(Row list \<times> u64) MetaPersister" where
  "script_db = \<lparr>CommitAt = (\<lambda>p i rows. ((fst p @ rows, i), True)), ResetAt = (\<lambda>p i rows. ((rows, i), True)),
     LoadState = (\<lambda>p. Some (fst p, snd p, True))\<rparr>"

definition script :: "(bytes Ready list, bytes, disk list, Row list \<times> u64) seams" where
  "script = \<lparr>sm_wire = ref_wire, sm_raft = script_raft, sm_disk = journal sim_disk, sm_db = script_db\<rparr>"

lemma script_simps [simp]:
  "sm_wire script = ref_wire" "lib_pb script_raft = ref_pb" "sm_disk script = journal sim_disk" "sm_raft script = script_raft"
  "sm_db script = script_db"
  by (simp_all add: script_def script_raft_def)

definition script_config :: NodeConfig where
  "script_config = \<lparr>nc_ID = 1, nc_Peers = fmempty, nc_Dials = fmempty, nc_Join = False, nc_TickInterval = 1000,
     nc_ElectionTicks = 10, nc_SnapshotEntries = 4096, nc_OnMembershipChange = False, nc_OnRemoved = False\<rparr>"

section \<open>Snapshots\<close>

text \<open>Every row of the dump and every member fits in memory with its encoding.\<close>

definition snapshot_fits :: "protowire \<Rightarrow> Row list \<Rightarrow> (u64, peerInfo) fmap \<Rightarrow> bool" where
  "snapshot_fits pw rows members \<longleftrightarrow>
     list_all (\<lambda>r. go_sized (row_Key r) \<and> go_sized (row_Value r) \<and> go_sized (snapshot_row pw r)) rows \<and>
     fmpred (\<lambda>i info. go_sized (pi_node info) \<and> go_sized (pi_dial info) \<and> go_sized (encodeMember pw i info)) members"

lemma dump_restored:
  assumes "wire pw" and "wf_rows (s_kv s)" and "encodable pw (s_kv s)" and "Dump pw s = Some rows"
  shows "\<exists>st :: 'q Store. restore_rows pw NewStore (map (\<lambda>r. (row_Key r, row_Value r)) rows) = Some (Some st) \<and>
    tx_mem (s_kv st) = tx_mem (s_kv s)"
proof (rule wire.restore_fresh [OF assms(1-3)])
  have inv: "tx_inv (s_kv s)" by (rule wf_rows_inv [OF assms(2)])
  let ?ks = "sorted_list_of_set (dom (tx_get (s_kv s)))"
  have rows: "map (\<lambda>r. (row_Key r, row_Value r)) rows = map (\<lambda>k. (k, marshalRecord pw (the (tx_get (s_kv s) k)))) ?ks"
    using wire.Dump_eq [OF assms(1) inv] assms(4) by auto
  have fin: "finite (dom (tx_get (s_kv s)))" using memKV_inv_finite [OF inv] by (simp add: tx_get_eq)
  show "distinct (map fst (map (\<lambda>r. (row_Key r, row_Value r)) rows))" unfolding rows by (simp add: comp_def)
  show "map_of (map (\<lambda>r. (row_Key r, row_Value r)) rows) = encoded pw (s_kv s)"
    unfolding rows using fin by (auto simp: map_of_map_keys encoded_def fun_eq_iff map_of_map_restrict restrict_map_def)
qed

lemma snapshot_decoded:
  assumes "wire pw" and "wf_rows (s_kv s)" and "encodable pw (s_kv s)" and "Dump pw s = Some rows"
    and "snapshot_fits pw rows members"
  shows "\<exists>ss :: 'q snapshot_state. decodeSnapshotData pw (encodeSnapshotData pw rows members removed) = Some (Some ss) \<and>
    tx_mem (s_kv (ss_store ss)) = tx_mem (s_kv s) \<and> ss_members ss = members \<and> ss_removed ss = removed"
proof -
  obtain st :: "'q Store" where st: "restore_rows pw NewStore (map (\<lambda>r. (row_Key r, row_Value r)) rows) = Some (Some st)"
    "tx_mem (s_kv st) = tx_mem (s_kv s)"
    using dump_restored [OF assms(1-4)] by blast
  have "list_all (wire.row_fits pw) rows" "\<And>i info. fmlookup members i = Some info \<Longrightarrow> wire.member_fits pw i info"
    using assms(5) by (auto simp: snapshot_fits_def list_all_iff fmpred_iff wire.row_fits_def [OF assms(1)] wire.member_fits_def [OF assms(1)])
  from wire.decodeSnapshotData_encode [OF assms(1) st(1) this, of members removed] st(2) show ?thesis by simp
qed

text \<open>
  C18: A snapshot carries the whole replica: the payload built from the dump of a store, the address
  book and the tombstones decodes to a store with the same rows, the same address book and the same tombstones.
\<close>

theorem snapshot_roundtrip:
  assumes "wire pw" and "wf_rows (s_kv s)" and "encodable pw (s_kv s)" and "Dump pw s = Some rows"
    and "snapshot_fits pw rows members"
  shows "\<exists>ss :: 'q snapshot_state. decodeSnapshotData pw (encodeSnapshotData pw rows members removed) = Some (Some ss) \<and>
    tx_mem (s_kv (ss_store ss)) = tx_mem (s_kv s) \<and> ss_members ss = members \<and> ss_removed ss = removed"
  using snapshot_decoded [OF assms] .

text \<open>A replica with one bucket and one other member.\<close>

definition script_store :: "unit Store" where
  "script_store = \<lparr>s_kv = demo_kv1, s_persist = None\<rparr>"

definition script_members :: "(u64, peerInfo) fmap" where
  "script_members = fmupd 2 \<lparr>pi_node = str ''b'', pi_dial = []\<rparr> fmempty"

lemma demo_kv1_encodable: "encodable ref_wire demo_kv1"
proof -
  have inv: "tx_inv demo_kv1" using demo_inv(1) [of 0] store_invD(1) wf_rows_inv by blast
  have rows: "keys (tx_mem demo_kv1) = [bucketRowKey demo_bucket]" "tx_get demo_kv1 (bucketRowKey demo_bucket) =
      Some (RBucket (BucketConfig_zero\<lparr>bc_FormatVersion := 1, bc_Name := demo_bucket, bc_CreatedUnixMS := 1,
        bc_Versioning := VersioningEnabled, bc_ObjectLockEnabled := True\<rparr>))" by code_simp+
  have "go_sized demo_bucket" by code_simp
  then show ?thesis
    by (simp add: encodable_keys [OF inv] rows sized_BucketConfig_def BucketConfig_zero_def raw_nil)
qed

lemma demo_store_ok:
  "wf_rows (s_kv script_store)" "encodable ref_wire (s_kv script_store)"
  "\<exists>rows. Dump ref_wire script_store = Some rows \<and> snapshot_fits ref_wire rows script_members"
proof -
  show "wf_rows (s_kv script_store)" "encodable ref_wire (s_kv script_store)"
    using demo_inv(1) [of 0] store_invD(1) demo_kv1_encodable by (auto simp: script_store_def)
  have "case Dump ref_wire script_store of Some rows \<Rightarrow> snapshot_fits ref_wire rows script_members | None \<Rightarrow> False"
    by code_simp
  then show "\<exists>rows. Dump ref_wire script_store = Some rows \<and> snapshot_fits ref_wire rows script_members"
    by (auto split: option.splits)
qed

theorem snapshot_roundtrip_witness:
  "\<exists>rows (ss :: unit snapshot_state). decodeSnapshotData ref_wire (encodeSnapshotData ref_wire rows script_members {|7|}) = Some (Some ss) \<and>
    tx_mem (s_kv (ss_store ss)) = tx_mem demo_kv1 \<and> ss_removed ss = {|7|}"
proof -
  obtain rows where r: "Dump ref_wire script_store = Some rows" "snapshot_fits ref_wire rows script_members"
    using demo_store_ok(3) by blast
  from snapshot_roundtrip [OF ref.wire_axioms demo_store_ok(1,2) r, of "{|7|}"]
  show ?thesis by (auto simp: script_store_def)
qed

section \<open>The log across a crash\<close>

text \<open>A record with a snapshot is a valid opening frame.\<close>

lemma frame_valid:
  assumes "raft_codec (sm_wire S) (sm_pb S)" and "encodeRecord (sm_wire S) (sm_pb S) rec = Some x"
    and "raft_codec.record_fits (sm_pb S) rec" and "sn_Index (rec_snap rec) \<noteq> 0"
  shows "decodeRecord (sm_wire S) (sm_pb S) x = Some (Some rec)" "validLog S [x] False = Some True"
proof -
  show d: "decodeRecord (sm_wire S) (sm_pb S) x = Some (Some rec)"
    using raft_codec.decodeRecord_encodeRecord [OF assms(1-3)] assms(4) by blast
  show "validLog S [x] False = Some True"
    using d raft_codec.empty_snap [OF assms(1)] assms(4) by (simp add: validLog_def)
qed

text \<open>
  C7: Rotating the log can be interrupted anywhere. From a disk with one log file, the rotation ends with
  one new file that holds the new frame, and after a crash at any state the disk went through, whatever
  the crash tears or loses, a boot loads either all the old records or exactly the new frame, and the new frame
  decodes to the record that was written.
\<close>

theorem rotation_crash_safe:
  assumes "raft_codec (sm_wire S) (sm_pb S)" and "sm_disk S = journal sim_disk"
    and "node_log d seq recs" and "n_disk n = [d]" and "n_logSeq n = seq" and "seq < seq + 1"
    and "encodeRecord (sm_wire S) (sm_pb S) rec = Some x" and "length x \<le> MaxInt32"
    and "raft_codec.record_fits (sm_pb S) rec" and "sn_Index (rec_snap rec) \<noteq> 0"
  shows "\<exists>n'. rotate S rec n = Some (Running n') \<and> n_logSeq n' = seq + 1 \<and> node_log (hd (n_disk n')) (seq + 1) [x] \<and>
    decodeRecord (sm_wire S) (sm_pb S) x = Some (Some rec) \<and>
    (\<forall>d' \<in> set (n_disk n'). \<forall>rng. restart_log S (disk_crash d' rng) \<in> {Some recs, Some [x]})"
proof -
  note v = frame_valid [OF assms(1,7,9,10)]
  obtain d4 dn where r: "rotate S rec n = go_on (n\<lparr>n_disk := d4 # dn @ [], n_log := logName (seq + 1), n_logSeq := seq + 1\<rparr>)"
    "node_log d4 (seq + 1) [x]" "\<forall>d' \<in> set (d4 # dn). old_or_new S recs x d'"
    using rotate_states [OF assms(2,3,6) _ assms(5,7,8) v(2)] assms(4) by blast
  then show ?thesis using v(1) by (intro exI [of _ "n\<lparr>n_disk := d4 # dn, n_log := logName (seq + 1), n_logSeq := seq + 1\<rparr>"])
      (simp add: old_or_new_def go_on_def)
qed

definition demo_disk :: disk where
  "demo_disk = \<lparr>dk_durable = fmupd (logName 1) (log_bytes [[1]]) fmempty, dk_staged = fmempty\<rparr>"

lemma demo_disk_log: "node_log demo_disk 1 [[1]]"
  by (auto simp: node_log_def log_files_def possible_def demo_disk_def disk_clean_def disk_durable_def intact_def MaxInt32_def
      split: if_splits)

definition demo_record :: raft_record where
  "demo_record = \<lparr>rec_hs = \<lparr>hs_Term = 1, hs_Vote = 1, hs_Commit = 3\<rparr>, rec_entries = [],
     rec_snap = \<lparr>sn_Data = [9], sn_ConfState = zeroConfState\<lparr>cs_Voters := [1, 2]\<rparr>, sn_Index = 3, sn_Term = 1\<rparr>\<rparr>"

definition script_node :: "(bytes Ready list, disk list, Row list \<times> u64) RaftNode" where
  "script_node = (new_node script script_config [demo_disk] [])\<lparr>n_logSeq := 1, n_log := logName 1, n_peers := script_members\<rparr>"

lemma demo_record_ok:
  "\<exists>x. encodeRecord ref_wire ref_pb demo_record = Some x \<and> length x \<le> MaxInt32" "ref_raft.record_fits demo_record"
proof -
  have "case encodeRecord ref_wire ref_pb demo_record of Some x \<Rightarrow> int (length x) \<le> 2147483647 | None \<Rightarrow> False" by code_simp
  then show "\<exists>x. encodeRecord ref_wire ref_pb demo_record = Some x \<and> length x \<le> MaxInt32"
    by (auto simp: MaxInt32_def split: option.splits)
  have "case Marshal_HardState ref_pb (rec_hs demo_record) of Some b \<Rightarrow> go_sized b | None \<Rightarrow> True"
    "case Marshal_Snapshot ref_pb (rec_snap demo_record) of Some b \<Rightarrow> go_sized b | None \<Rightarrow> True"
    by code_simp+
  then show "ref_raft.record_fits demo_record"
    by (simp add: ref_raft.record_fits_def demo_record_def split: option.splits)
qed

lemma demo_node_simps: "n_disk script_node = [demo_disk]" "n_logSeq script_node = 1" "n_log script_node = logName 1"
  by (simp_all add: script_node_def new_node_def)

lemma script_codec: "raft_codec (sm_wire script) (sm_pb script)"
  using ref_raft.raft_codec_axioms by simp

theorem rotation_crash_safe_witness:
  "\<exists>x n'. rotate script demo_record script_node = Some (Running n') \<and> node_log (hd (n_disk n')) 2 [x]"
proof -
  obtain x where x: "encodeRecord ref_wire ref_pb demo_record = Some x" "length x \<le> MaxInt32" using demo_record_ok(1) by blast
  show ?thesis
    using rotation_crash_safe [OF script_codec _ demo_disk_log demo_node_simps(1,2), where rec = demo_record and x = x] x demo_record_ok(2)
    by (fastforce simp: demo_record_def)
qed

section \<open>Durable before it leaves\<close>

text \<open>
  What leaves the node apart from the local report of the membership: messages, answers to proposals and the report of its own removal.
\<close>

fun departure :: "event \<Rightarrow> bool" where
  "departure (MembershipChanged ms) = False"
| "departure _ = True"

text \<open>
  What counts in a turn: everything, except that a turn which installs a snapshot reports the membership of that snapshot before it
  writes the log.
\<close>

definition departed :: "('r, 'm, 'd, 'p) seams \<Rightarrow> 'm Ready \<Rightarrow> ('r, 'd, 'p) RaftNode \<Rightarrow> event list" where
  "departed S rd n = (if IsEmptySnap (sm_pb S) (rd_Snapshot rd) then n_out n else filter departure (n_out n))"

definition keeps_disk :: "('r, 'd, 'p) RaftNode \<Rightarrow> ('r, 'd, 'p) RaftNode node_run \<Rightarrow> bool" where
  "keeps_disk n x \<longleftrightarrow> (\<forall>y. x = Some y \<longrightarrow> n_disk (outcome_node y) = n_disk n \<and>
     n_log (outcome_node y) = n_log n \<and> n_logSeq (outcome_node y) = n_logSeq n)"

lemma keeps_disk_simps [simp]:
  "keeps_disk n None" "keeps_disk n (go_on m) \<longleftrightarrow> n_disk m = n_disk n \<and> n_log m = n_log n \<and> n_logSeq m = n_logSeq n"
  "keeps_disk n (go_panic m) \<longleftrightarrow> n_disk m = n_disk n \<and> n_log m = n_log n \<and> n_logSeq m = n_logSeq n"
  by (simp_all add: keeps_disk_def go_on_def go_panic_def)

lemma keeps_disk_then:
  assumes "keeps_disk n x" and "\<And>m. x = Some (Running m) \<Longrightarrow> keeps_disk m (f m)"
  shows "keeps_disk n (and_then x f)"
  using assms by (cases x) (auto simp: keeps_disk_def and_then_def split: outcome.splits)

lemma keeps_disk_each: "(\<And>x m. keeps_disk m (f x m)) \<Longrightarrow> keeps_disk n (each f xs n)"
  by (induction xs arbitrary: n) (auto intro: keeps_disk_then)

lemma emit_disk [simp]: "n_log (emit_event e n) = n_log n" "n_logSeq (emit_event e n) = n_logSeq n" "n_disk (emit_event e n) = n_disk n"
  by (simp_all add: emit_event_def)

lemma notify_disk [simp]: "n_log (notifyMembership n) = n_log n" "n_logSeq (notifyMembership n) = n_logSeq n"
  "n_disk (notifyMembership n) = n_disk n"
  by (simp_all add: notifyMembership_def)

lemma keeps_disk_send: "keeps_disk n (send_message S m n)"
  by (simp add: send_message_def Let_def split: option.split)

lemma keeps_disk_conf: "keeps_disk n (conf_address S cc n)"
  by (auto simp: conf_address_def split: conf_change_type.split option.split)

lemma keeps_disk_apply: "keeps_disk n (applyEntry S e n)"
proof -
  have "keeps_disk m (apply_conf_change S e m)" for m
    by (auto simp: apply_conf_change_def Let_def split: option.split prod.split intro!: keeps_disk_then keeps_disk_conf)
  from this [of "n\<lparr>n_applied := e_Index e\<rparr>"] show ?thesis
    by (auto simp: applyEntry_def apply_normal_def settle_waiters_def Let_def keeps_disk_def split: entry_type.split option.split prod.split)
qed

lemma keeps_disk_store: "keeps_disk n (store_ready S rd n)" "\<And>y. store_ready S rd n = Some y \<Longrightarrow> n_out (outcome_node y) = n_out n"
  by (auto simp: store_ready_def Let_def split: option.splits if_splits)

lemma adoptStore_keeps:
  "adoptStore S st i m = Some y \<Longrightarrow> n_disk (outcome_node y) = n_disk m \<and> n_log (outcome_node y) = n_log m \<and>
     n_logSeq (outcome_node y) = n_logSeq m \<and> n_out (outcome_node y) = n_out m"
  by (auto simp: adoptStore_def Let_def go_on_def go_panic_def split: option.splits prod.splits if_splits)

lemma keeps_disk_restore:
  assumes "restoreSnapshot S snap n = Some x"
  shows "keeps_disk n x" and "\<And>y. x = Some y \<Longrightarrow> filter departure (n_out (outcome_node y)) = filter departure (n_out n)"
proof -
  have n: "filter departure (n_out (notifyMembership m)) = filter departure (n_out m)" for m
    by (simp add: notifyMembership_def emit_event_def)
  show "keeps_disk n x"
    using assms by (auto simp: restoreSnapshot_def Let_def keeps_disk_def and_then_Some split: option.splits if_splits
        dest!: adoptStore_keeps)
  show "x = Some y \<Longrightarrow> filter departure (n_out (outcome_node y)) = filter departure (n_out n)" for y
    using assms by (auto simp: restoreSnapshot_def Let_def and_then_Some n split: option.splits if_splits dest!: adoptStore_keeps)
qed

text \<open>Rotating the log and taking a snapshot emit nothing.\<close>

definition silent :: "('r, 'd, 'p) RaftNode \<Rightarrow> ('r, 'd, 'p) RaftNode node_run \<Rightarrow> bool" where
  "silent n x \<longleftrightarrow> (\<forall>y. x = Some y \<longrightarrow> n_out (outcome_node y) = n_out n)"

lemma silent_simps [simp]:
  "silent n None" "silent n (go_on m) \<longleftrightarrow> n_out m = n_out n" "silent n (go_panic m) \<longleftrightarrow> n_out m = n_out n"
  by (simp_all add: silent_def go_on_def go_panic_def)

lemma silent_then:
  assumes "silent n x" and "\<And>m. x = Some (Running m) \<Longrightarrow> n_out m = n_out n \<Longrightarrow> silent n (f m)"
  shows "silent n (and_then x f)"
  using assms by (cases x) (auto simp: silent_def and_then_def split: outcome.splits)

lemma silent_removeLog: "n_out m = n_out n \<Longrightarrow> silent n (removeLog S seq m)"
  by (simp add: removeLog_def Let_def case_prod_beta split: option.split)

lemma silent_append: "n_out m = n_out n \<Longrightarrow> silent n (append_record S name rec m)"
  by (simp add: append_record_def Let_def case_prod_beta split: option.split)

lemma silent_rotate: "n_out m = n_out n \<Longrightarrow> silent n (rotate S rec m)"
  by (auto simp: rotate_def Let_def intro!: silent_then silent_removeLog silent_append split: prod.split sum.split list.split)

lemma silent_maybeSnapshot: "silent n (maybeSnapshot S n)"
  by (simp add: maybeSnapshot_def Let_def silent_rotate split: option.split prod.split)

lemma rotate_encodes:
  assumes "rotate S rec n = Some (Running m)"
  shows "\<exists>x. encodeRecord (sm_wire S) (sm_pb S) rec = Some x"
proof (cases "encodeRecord (sm_wire S) (sm_pb S) rec")
  case None
  then have "append_record S name rec k = Some (Panicked k)" for name k by (simp add: append_record_def go_panic_def)
  then have "(case Log_Open (sm_disk S) d name of (d, Inr []) \<Rightarrow> and_then (append_record S name rec (k\<lparr>n_disk := d\<rparr>)) f
      | (d, _) \<Rightarrow> go_panic (k\<lparr>n_disk := d\<rparr>)) \<noteq> Some (Running m)" for d name k f
    by (cases "Log_Open (sm_disk S) d name") (simp add: and_then_Some go_panic_def split: sum.split list.split)
  with assms show ?thesis by (simp add: rotate_def and_then_Some Let_def)
qed simp

lemmas rotate_out = silent_rotate [OF refl, unfolded silent_def, rule_format]

lemmas maybeSnapshot_out = silent_maybeSnapshot [unfolded silent_def, rule_format]

lemma persist_append:
  assumes "sm_disk S = journal sim_disk" and "node_log d seq recs" and "n_disk n = d # ds" and "n_log n = logName seq"
    and "IsEmptySnap (sm_pb S) (rd_Snapshot rd)" and "\<not> IsEmptyHardState (sm_pb S) (rd_HardState rd) \<or> rd_Entries rd \<noteq> []"
    and "encodeRecord (sm_wire S) (sm_pb S) \<lparr>rec_hs = rd_HardState rd, rec_entries = rd_Entries rd, rec_snap = zeroSnapshot\<rparr> = Some b"
    and "length b \<le> MaxInt32" and "persist_ready S rd n = Some y"
  shows "n_out (outcome_node y) = n_out n \<and> n_logSeq (outcome_node y) = n_logSeq n \<and>
    (\<exists>d2 ds'. n_disk (outcome_node y) = d2 # ds' \<and> node_log d2 seq (recs @ [b]))"
proof -
  obtain d1 d2 where a: "Log_Append (journal sim_disk) (logName seq) (d # ds) b = (d2 # d1 # d # ds, None)" "node_log d2 seq (recs @ [b])"
    using append_node_log [OF assms(2,8)] by blast
  let ?n = "n\<lparr>n_disk := d2 # d1 # d # ds\<rparr>"
  have "store_ready S rd ?n = Some y"
    using assms(1,3-7,9) a(1) by (auto simp: persist_ready_def append_record_def)
  with keeps_disk_store [where S = S and rd = rd and n = ?n] a(2) show ?thesis by (auto simp: keeps_disk_def)
qed

text \<open>The record of a turn fits in a frame, with the hard state of the turn or one that the library stores.\<close>

definition turn_fits :: "('r, 'm, 'd, 'p) seams \<Rightarrow> 'm Ready \<Rightarrow> bool" where
  "turn_fits S rd \<longleftrightarrow>
     (\<forall>hs x snap. (hs = rd_HardState rd \<or> (\<exists>r. InitialState (sm_raft S) r = Some hs)) \<longrightarrow> snap \<in> {rd_Snapshot rd, zeroSnapshot} \<longrightarrow>
        encodeRecord (sm_wire S) (sm_pb S) \<lparr>rec_hs = hs, rec_entries = rd_Entries rd, rec_snap = snap\<rparr> = Some x \<longrightarrow>
        length x \<le> MaxInt32 \<and> raft_codec.record_fits (sm_pb S) \<lparr>rec_hs = hs, rec_entries = rd_Entries rd, rec_snap = snap\<rparr>)"

text \<open>
  The records \<open>recs'\<close> hold what the turn brought: a snapshot opens a new log together with the entries and a hard state, the one
  of the turn if it has one; a hard state or entries are one more record; otherwise there is nothing to hold.
\<close>

definition turn_logged :: "('r, 'm, 'd, 'p) seams \<Rightarrow> 'm Ready \<Rightarrow> bytes list \<Rightarrow> bytes list \<Rightarrow> bool" where
  "turn_logged S rd recs recs' \<longleftrightarrow>
     (if \<not> IsEmptySnap (sm_pb S) (rd_Snapshot rd)
      then \<exists>x hs. recs' = [x] \<and> (\<not> IsEmptyHardState (sm_pb S) (rd_HardState rd) \<longrightarrow> hs = rd_HardState rd) \<and>
             decodeRecord (sm_wire S) (sm_pb S) x = Some (Some \<lparr>rec_hs = hs, rec_entries = rd_Entries rd, rec_snap = rd_Snapshot rd\<rparr>)
      else if \<not> IsEmptyHardState (sm_pb S) (rd_HardState rd) \<or> rd_Entries rd \<noteq> []
      then \<exists>x. recs' = recs @ [x] \<and>
             decodeRecord (sm_wire S) (sm_pb S) x = Some (Some \<lparr>rec_hs = rd_HardState rd, rec_entries = rd_Entries rd, rec_snap = zeroSnapshot\<rparr>)
      else recs' = recs)"

lemma persist_snapshot:
  assumes "raft_codec (sm_wire S) (sm_pb S)" and "sm_disk S = journal sim_disk" and "node_log d seq recs" and "n_disk n = [d]"
    and "n_logSeq n = seq" and "seq < seq + 1" and "turn_fits S rd" and "\<not> IsEmptySnap (sm_pb S) (rd_Snapshot rd)"
    and "persist_ready S rd n = Some y"
  shows "departed S rd (outcome_node y) = departed S rd n"
    and "\<And>m. y = Running m \<Longrightarrow> \<exists>recs'. turn_logged S rd recs recs' \<and> node_log (hd (n_disk m)) (n_logSeq m) recs'"
proof -
  let ?rec = "\<lambda>hs. \<lparr>rec_hs = hs, rec_entries = rd_Entries rd, rec_snap = rd_Snapshot rd\<rparr>"
  define n0 where "n0 = n\<lparr>n_snapshotsReceived := n_snapshotsReceived n + 1\<rparr>"
  have n0: "n_disk n0 = [d]" "n_logSeq n0 = seq" "n_out n0 = n_out n" using assms(4,5) by (simp_all add: n0_def)
  define stored where "stored = and_then (case restoreSnapshot S (rd_Snapshot rd) n0 of None \<Rightarrow> go_panic n0 | Some r \<Rightarrow> r) (store_ready S rd)"
  have run: "and_then stored (\<lambda>n. case currentHardState S (rd_HardState rd) n of None \<Rightarrow> go_panic n | Some hs \<Rightarrow> rotate S (?rec hs) n) = Some y"
    using assms(8,9) unfolding stored_def n0_def by (simp add: persist_ready_def Let_def and_then_assoc)
  have kept: "n_disk (outcome_node z) = [d]" "n_logSeq (outcome_node z) = seq"
    "filter departure (n_out (outcome_node z)) = filter departure (n_out n)" if z: "stored = Some z" for z
  proof -
    have "keeps_disk n0 stored"
      unfolding stored_def using keeps_disk_restore(1) by (intro keeps_disk_then keeps_disk_store) (auto split: option.split)
    with z n0 show "n_disk (outcome_node z) = [d]" "n_logSeq (outcome_node z) = seq" by (simp_all add: keeps_disk_def)
    show "filter departure (n_out (outcome_node z)) = filter departure (n_out n)"
      using z n0(3) keeps_disk_restore(2) [of S "rd_Snapshot rd" n0] keeps_disk_store(2) [of S rd]
      by (auto simp: stored_def and_then_Some split: option.splits)
  qed
  from run consider k where "stored = Some (Panicked k)" "y = Panicked k"
    | k where "stored = Some (Running k)" "(case currentHardState S (rd_HardState rd) k of None \<Rightarrow> go_panic k | Some hs \<Rightarrow> rotate S (?rec hs) k) = Some y"
    unfolding and_then_Some by blast
  then consider k where "stored = Some (Panicked k)" "y = Panicked k"
    | k where "stored = Some (Running k)" "currentHardState S (rd_HardState rd) k = None" "y = Panicked k"
    | k hs where "stored = Some (Running k)" "currentHardState S (rd_HardState rd) k = Some hs" "rotate S (?rec hs) k = Some y"
    by cases (auto simp: go_panic_def split: option.splits)
  then have "departed S rd (outcome_node y) = departed S rd n \<and>
    (\<forall>m. y = Running m \<longrightarrow> (\<exists>recs'. turn_logged S rd recs recs' \<and> node_log (hd (n_disk m)) (n_logSeq m) recs'))"
  proof cases
    case (3 k hs)
    have k: "n_disk k = [d]" "n_logSeq k = seq" "filter departure (n_out k) = filter departure (n_out n)"
      using kept [OF 3(1)] by simp_all
    have hs: "hs = rd_HardState rd \<or> (\<exists>r. InitialState (sm_raft S) r = Some hs)"
      "\<not> IsEmptyHardState (sm_pb S) (rd_HardState rd) \<longrightarrow> hs = rd_HardState rd"
      using 3(2) by (auto simp: currentHardState_def split: if_splits)
    have "\<exists>recs'. turn_logged S rd recs recs' \<and> node_log (hd (n_disk m)) (n_logSeq m) recs'" if m: "y = Running m" for m
    proof -
      obtain x where x: "encodeRecord (sm_wire S) (sm_pb S) (?rec hs) = Some x"
        using rotate_encodes 3(3) m by blast
      have fit: "length x \<le> MaxInt32" "raft_codec.record_fits (sm_pb S) (?rec hs)"
        using assms(7) hs(1) x by (auto simp: turn_fits_def)
      have "sn_Index (rec_snap (?rec hs)) \<noteq> 0" using raft_codec.empty_snap [OF assms(1)] assms(8) by simp
      note v = frame_valid [OF assms(1) x fit(2) this]
      obtain d4 dn where "rotate S (?rec hs) k = go_on (k\<lparr>n_disk := d4 # dn @ [], n_log := logName (seq + 1), n_logSeq := seq + 1\<rparr>)"
        "node_log d4 (seq + 1) [x]"
        using rotate_states [OF assms(2,3,6) _ k(2) x fit(1) v(2)] k(1) by blast
      then show ?thesis using 3(3) m v(1) hs(2) assms(8) by (auto simp: go_on_def turn_logged_def)
    qed
    then show ?thesis using rotate_out [OF 3(3)] k(3) assms(8) by (auto simp: departed_def)
  qed (use kept assms(8) in \<open>auto simp: departed_def\<close>)
  then show "departed S rd (outcome_node y) = departed S rd n"
    "\<And>m. y = Running m \<Longrightarrow> \<exists>recs'. turn_logged S rd recs recs' \<and> node_log (hd (n_disk m)) (n_logSeq m) recs'" by blast+
qed

lemma persist_logged:
  assumes "raft_codec (sm_wire S) (sm_pb S)" and "sm_disk S = journal sim_disk" and "node_log d seq recs" and "n_disk n = [d]"
    and "n_log n = logName seq" and "n_logSeq n = seq" and "seq < seq + 1" and "turn_fits S rd" and "persist_ready S rd n = Some y"
  shows "departed S rd (outcome_node y) = departed S rd n"
    and "\<And>m. y = Running m \<Longrightarrow> \<exists>recs'. turn_logged S rd recs recs' \<and> node_log (hd (n_disk m)) (n_logSeq m) recs'"
proof -
  have "departed S rd (outcome_node y) = departed S rd n \<and>
    (\<forall>m. y = Running m \<longrightarrow> (\<exists>recs'. turn_logged S rd recs recs' \<and> node_log (hd (n_disk m)) (n_logSeq m) recs'))"
  proof (cases "IsEmptySnap (sm_pb S) (rd_Snapshot rd)")
    case False
    from persist_snapshot [OF assms(1-4,6-8) False assms(9)] show ?thesis by blast
  next
    case empty: True
    let ?rec = "\<lparr>rec_hs = rd_HardState rd, rec_entries = rd_Entries rd, rec_snap = zeroSnapshot\<rparr>"
    show ?thesis
    proof (cases "\<not> IsEmptyHardState (sm_pb S) (rd_HardState rd) \<or> rd_Entries rd \<noteq> []")
      case False
      with empty assms(3,4,6,9) show ?thesis by (auto simp: persist_ready_def departed_def turn_logged_def go_on_def)
    next
      case True
      show ?thesis
      proof (cases "encodeRecord (sm_wire S) (sm_pb S) ?rec")
        case None
        with empty True assms(9) show ?thesis by (auto simp: persist_ready_def append_record_def departed_def go_panic_def and_then_def)
      next
        case (Some b)
        have fit: "length b \<le> MaxInt32" "raft_codec.record_fits (sm_pb S) ?rec" using assms(8) Some by (auto simp: turn_fits_def)
        have "decodeRecord (sm_wire S) (sm_pb S) b = Some (Some ?rec)"
          using raft_codec.decodeRecord_encodeRecord [OF assms(1) Some fit(2)] by simp
        with persist_append [OF assms(2,3) _ assms(5) empty True Some fit(1) assms(9), of "[]"] assms(4,6) empty True
        show ?thesis by (auto simp: departed_def turn_logged_def)
      qed
    qed
  qed
  then show "departed S rd (outcome_node y) = departed S rd n"
    "\<And>m. y = Running m \<Longrightarrow> \<exists>recs'. turn_logged S rd recs recs' \<and> node_log (hd (n_disk m)) (n_logSeq m) recs'" by blast+
qed

text \<open>What a turn does once its record is written: it claims the indexes, sends the messages and applies what is committed.\<close>

definition send_and_apply :: "('r, 'm, 'd, 'p) seams \<Rightarrow> 'm Ready \<Rightarrow> ('r, 'd, 'p) RaftNode \<Rightarrow> ('r, 'd, 'p) RaftNode node_run" where
  "send_and_apply S rd n =
     and_then (each (send_message S) (rd_Messages rd) (claimIndexes (rd_Entries rd) n)) (each (applyEntry S) (rd_CommittedEntries rd))"

lemma send_and_apply_disk: "send_and_apply S rd m = Some x \<Longrightarrow> n_disk (outcome_node x) = n_disk m"
proof -
  have "keeps_disk (claimIndexes (rd_Entries rd) m) (send_and_apply S rd m)"
    unfolding send_and_apply_def by (intro keeps_disk_then keeps_disk_each keeps_disk_send keeps_disk_apply)
  then show "send_and_apply S rd m = Some x \<Longrightarrow> n_disk (outcome_node x) = n_disk m" by (simp add: keeps_disk_def claimIndexes_keeps)
qed

lemma ready_turn_eq:
  assumes "TakeReady (sm_raft S) (n_raft n) = (r, rd)"
  shows "ready_turn S n = and_then (persist_ready S rd (n\<lparr>n_raft := r\<rparr>)) (\<lambda>m. and_then (send_and_apply S rd m)
    (\<lambda>k. and_then (maybeSnapshot S k) (\<lambda>k. go_on (k\<lparr>n_raft := Advance (sm_raft S) (n_raft k) rd\<rparr>))))"
  using assms by (simp add: ready_turn_def send_and_apply_def and_then_assoc Let_def)

text \<open>
  C6: A turn of the Ready loop is durable before anything leaves the node. Take any turn, whether it installs a snapshot, brings a
  hard state and entries, or nothing to write. If it let a message, an answer to a proposal or the report of the own removal out (or, in a
  turn without a snapshot, a report of the membership), then the write step came first and let none of them out, and the whole output of the
  turn was produced by the sends and applies behind it, during which the disk was not touched, and none by the snapshot step at the end. At
  that disk a crash, whatever is torn or lost, leaves a log from which a boot loads what the turn brought: the snapshot with the entries and
  a hard state in a new log, or the old records followed by the hard state and the entries, or the old records when there was nothing to
  write. The report of the membership of an installed snapshot is not covered: it is made before the log is written. (The records of the
  turn fit in memory and the number of the log file does not wrap.)
\<close>

theorem durable_before_sent:
  assumes "raft_codec (sm_wire S) (sm_pb S)" and "sm_disk S = journal sim_disk" and "node_log d seq recs" and "n_disk n = [d]"
    and "n_log n = logName seq" and "n_logSeq n = seq" and "seq < seq + 1" and "TakeReady (sm_raft S) (n_raft n) = (r, rd)"
    and "turn_fits S rd" and "ready_turn S n = Some y" and "departed S rd (outcome_node y) \<noteq> departed S rd n"
  shows "\<exists>m k recs'. persist_ready S rd (n\<lparr>n_raft := r\<rparr>) = Some (Running m) \<and> departed S rd m = departed S rd n \<and>
    send_and_apply S rd m = Some k \<and> n_disk (outcome_node k) = n_disk m \<and> n_out (outcome_node y) = n_out (outcome_node k) \<and>
    turn_logged S rd recs recs' \<and> (\<forall>rng. restart_log S (disk_crash (hd (n_disk m)) rng) = Some recs')"
proof -
  let ?n = "n\<lparr>n_raft := r\<rparr>"
  have d: "departed S rd ?n = departed S rd n" by (simp add: departed_def)
  obtain z where z: "persist_ready S rd ?n = Some z" using assms(10) by (auto simp: ready_turn_eq [OF assms(8)] and_then_Some)
  note p = persist_logged [OF assms(1-3) _ _ _ assms(7,9) z]
  have z': "departed S rd (outcome_node z) = departed S rd n" using p(1) assms(4-6) d by simp
  from z z' assms(10,11) obtain m where m: "z = Running m" by (cases z) (auto simp: ready_turn_eq [OF assms(8)] and_then_def)
  obtain recs' where r: "turn_logged S rd recs recs'" "node_log (hd (n_disk m)) (n_logSeq m) recs'"
    using p(2) [OF _ _ _ m] assms(4-6) by auto
  have rest: "and_then (send_and_apply S rd m) (\<lambda>k. and_then (maybeSnapshot S k) (\<lambda>k. go_on (k\<lparr>n_raft := Advance (sm_raft S) (n_raft k) rd\<rparr>))) = Some y"
    using assms(10) z m by (simp add: ready_turn_eq [OF assms(8)] and_then_def)
  obtain k where k: "send_and_apply S rd m = Some k" using rest by (auto simp: and_then_Some)
  have "n_out (outcome_node y) = n_out (outcome_node k)"
    using rest k by (auto simp: and_then_Some dest!: maybeSnapshot_out)
  then show ?thesis
    using z m z' k r send_and_apply_disk [OF k] node_log_restart [OF assms(2) r(2)] by auto
qed

definition script_entry :: Entry where
  "script_entry = \<lparr>e_Term = 1, e_Index = 4, e_Type = EntryNormal, e_Data = [5]\<rparr>"

definition demo_ready :: "bytes Ready" where
  "demo_ready = \<lparr>rd_HardState = zeroHardState, rd_Entries = [script_entry], rd_Snapshot = zeroSnapshot, rd_Messages = [[8]],
     rd_CommittedEntries = []\<rparr>"

definition demo_ready_node :: "(bytes Ready list, disk list, Row list \<times> u64) RaftNode" where
  "demo_ready_node = script_node\<lparr>n_raft := [demo_ready]\<rparr>"

lemma demo_turn_fits: "turn_fits script demo_ready"
proof -
  have "case encodeRecord ref_wire ref_pb \<lparr>rec_hs = hs, rec_entries = [script_entry], rec_snap = zeroSnapshot\<rparr> of
      Some x \<Rightarrow> int (length x) \<le> 2147483647 | None \<Rightarrow> False"
    "case Marshal_HardState ref_pb hs of Some b \<Rightarrow> go_sized b | None \<Rightarrow> True"
    if "hs = zeroHardState \<or> hs = \<lparr>hs_Term = 1, hs_Vote = 1, hs_Commit = 0\<rparr>" for hs
    using that by (elim disjE; simp only:; code_simp)+
  moreover have "case Marshal_Entry ref_pb script_entry of Some b \<Rightarrow> go_sized b | None \<Rightarrow> True"
    "case Marshal_Snapshot ref_pb zeroSnapshot of Some b \<Rightarrow> go_sized b | None \<Rightarrow> True" by code_simp+
  ultimately show ?thesis
    by (fastforce simp: turn_fits_def demo_ready_def script_raft_def MaxInt32_def ref_raft.record_fits_def split: option.splits)
qed

theorem durable_before_sent_witness:
  "\<exists>b y. ready_turn script demo_ready_node = Some y \<and> filter departure (n_out (outcome_node y)) \<noteq> [] \<and>
    (\<exists>m. persist_ready script demo_ready (demo_ready_node\<lparr>n_raft := []\<rparr>) = Some (Running m) \<and>
      restart_log script (disk_crash (hd (n_disk m)) [1, 2]) = Some [[1], b])"
proof -
  have e: "IsEmptySnap ref_pb zeroSnapshot" "IsEmptyHardState ref_pb zeroHardState"
    by (simp_all add: ref_pb_def zeroSnapshot_def)
  let ?rec = "\<lparr>rec_hs = rd_HardState demo_ready, rec_entries = rd_Entries demo_ready, rec_snap = zeroSnapshot\<rparr>"
  have "case encodeRecord ref_wire ref_pb ?rec of Some x \<Rightarrow> int (length x) \<le> 2147483647 | None \<Rightarrow> False" by code_simp
  then obtain b where b: "encodeRecord ref_wire ref_pb ?rec = Some b" "length b \<le> MaxInt32"
    by (auto simp: MaxInt32_def split: option.splits)
  obtain d1 d2 where a: "Log_Append (journal sim_disk) (logName 1) [demo_disk] b = (d2 # d1 # [demo_disk], None)"
    using append_node_log [OF demo_disk_log b(2)] by blast
  obtain y where y: "ready_turn script demo_ready_node = Some y" "n_out demo_ready_node = []" "filter departure (n_out (outcome_node y)) \<noteq> []"
    using b(1) a e
    by (simp add: ready_turn_def demo_ready_node_def script_node_def new_node_def script_raft_def demo_ready_def persist_ready_def
        append_record_def store_ready_def send_message_def script_members_def maybeSnapshot_def script_config_def emit_event_def Let_def)
  have t: "TakeReady (sm_raft script) (n_raft demo_ready_node) = ([], demo_ready)"
    by (simp add: script_raft_def demo_ready_node_def)
  have "departed script demo_ready (outcome_node y) \<noteq> departed script demo_ready demo_ready_node"
    using y(2,3) by (auto simp: departed_def)
  from durable_before_sent [OF script_codec _ demo_disk_log _ _ _ _ t demo_turn_fits y(1) this] y(1,3) e(1)
  show ?thesis by (fastforce simp: demo_ready_node_def demo_node_simps turn_logged_def demo_ready_def)
qed

end
