(* ===== verification/Meta_DB.thy ===== *)
theory Meta_DB
  imports Raft_Boot Meta_Views
begin

text \<open>
  The durable metadata store of a clustered replica (\<^verbatim>\<open>internal/sys/metadb.go\<close>): the adapter that keeps
  rows and the applied index in BadgerDB.

  The database is third-party code: its state is the type \<open>'b\<close> and the record \<open>badger\<close>, a parameter, holds what the
  adapter calls. A transaction function only sets and deletes keys, so it is the list of these calls; \<open>Update\<close> returns
  the new state and whether the transaction was committed. An iteration returns the items, or \<open>None\<close> on an error. The
  locale \<open>badger_db\<close> states what the adapter relies on: a committed transaction takes effect as a whole, a failed one
  not at all, and an iteration visits every key once.

  The locale \<open>meta_db\<close> states the contract of \<^verbatim>\<open>MetaPersister\<close>, which the replica relies on; the adapter is an
  interpretation of it.
\<close>

section \<open>The adapter\<close>

type_synonym txn_call = "gostring \<times> bytes option"

record 'b badger =
  Update :: "'b \<Rightarrow> txn_call list \<Rightarrow> 'b \<times> bool"
  DropAll :: "'b \<Rightarrow> 'b \<times> bool"
  Items :: "'b \<Rightarrow> (gostring \<times> bytes) list option"

definition appliedIndexKey :: gostring where
  "appliedIndexKey = 0 # str ''raft.applied-index''"

text \<open>\<^verbatim>\<open>txn.Delete\<close> for a row without a value, \<^verbatim>\<open>txn.Set\<close> for the others.\<close>

definition txn_row :: "Row \<Rightarrow> txn_call" where
  "txn_row r = (row_Key r, if row_Value r = [] then None else Some (row_Value r))"

definition MetaDB_CommitAt :: "'b badger \<Rightarrow> 'b \<Rightarrow> u64 \<Rightarrow> Row list \<Rightarrow> 'b \<times> bool" where
  "MetaDB_CommitAt B b appliedIndex rows =
     Update B b (map txn_row rows @ [(appliedIndexKey, Some (be_bytes 8 (unat appliedIndex)))])"

definition MetaDB_ResetAt :: "'b badger \<Rightarrow> 'b \<Rightarrow> u64 \<Rightarrow> Row list \<Rightarrow> 'b \<times> bool" where
  "MetaDB_ResetAt B b appliedIndex rows =
     (let (b, ok) = DropAll B b in if \<not> ok then (b, False) else MetaDB_CommitAt B b appliedIndex rows)"

text \<open>The loop over the items; \<open>None\<close> is the error on a malformed index.\<close>

fun load_items :: "(gostring \<times> bytes) list \<Rightarrow> Row list \<times> u64 \<times> bool \<Rightarrow> (Row list \<times> u64 \<times> bool) option" where
  "load_items [] acc = Some acc"
| "load_items ((key, value) # items) (rows, appliedIndex, ok) =
     (if key = appliedIndexKey
      then if length value \<noteq> 8 then None
           else load_items items (rows, word_of_nat (be_nat value), True)
      else load_items items (rows @ [\<lparr>row_Key = key, row_Value = value\<rparr>], appliedIndex, ok))"

definition MetaDB_LoadState :: "'b badger \<Rightarrow> 'b \<Rightarrow> (Row list \<times> u64 \<times> bool) option" where
  "MetaDB_LoadState B b = Option.bind (Items B b) (\<lambda>items. load_items items ([], 0, False))"

definition MetaDB_Commit :: "'b badger \<Rightarrow> 'b \<Rightarrow> Row list \<Rightarrow> 'b \<times> bool" where
  "MetaDB_Commit B b rows = Update B b (map txn_row rows)"

text \<open>The startup replay of a single node: \<open>None\<close> is an error, of the database or of the visitor.\<close>

fun load_visit :: "(gostring \<Rightarrow> bytes \<Rightarrow> 'a \<Rightarrow> 'a option) \<Rightarrow> (gostring \<times> bytes) list \<Rightarrow> 'a \<Rightarrow> 'a option" where
  "load_visit fn [] x = Some x"
| "load_visit fn ((key, value) # items) x =
     (if key = appliedIndexKey then load_visit fn items x
      else case fn key value x of None \<Rightarrow> None | Some x \<Rightarrow> load_visit fn items x)"

definition MetaDB_Load :: "'b badger \<Rightarrow> (gostring \<Rightarrow> bytes \<Rightarrow> 'a \<Rightarrow> 'a option) \<Rightarrow> 'b \<Rightarrow> 'a \<Rightarrow> 'a option" where
  "MetaDB_Load B fn b x = Option.bind (Items B b) (\<lambda>items. load_visit fn items x)"

definition MetaDB :: "'b badger \<Rightarrow> 'b MetaPersister" where
  "MetaDB B = \<lparr>CommitAt = MetaDB_CommitAt B, ResetAt = MetaDB_ResetAt B, LoadState = MetaDB_LoadState B\<rparr>"

section \<open>The contracts\<close>

definition txn_step :: "(gostring \<rightharpoonup> bytes) \<Rightarrow> txn_call \<Rightarrow> (gostring \<rightharpoonup> bytes)" where
  "txn_step m c = m(fst c := snd c)"

locale badger_db =
  fixes B :: "'b badger" and contents :: "'b \<Rightarrow> gostring \<rightharpoonup> bytes" and readable :: "'b \<Rightarrow> bool"
  assumes update_readable: "readable b \<Longrightarrow> readable (fst (Update B b calls))"
    and update_ok: "snd (Update B b calls) \<Longrightarrow> contents (fst (Update B b calls)) = foldl txn_step (contents b) calls"
    and update_failed: "\<not> snd (Update B b calls) \<Longrightarrow> contents (fst (Update B b calls)) = contents b"
    and dropped: "snd (DropAll B b) \<Longrightarrow> readable (fst (DropAll B b)) \<and> contents (fst (DropAll B b)) = Map.empty"
    and items: "readable b \<Longrightarrow> \<exists>xs. Items B b = Some xs \<and> distinct (map fst xs) \<and> map_of xs = contents b"

text \<open>Rows of the metadata keyspace: no key begins with a NUL byte.\<close>

definition meta_rows_only :: "Row list \<Rightarrow> bool" where
  "meta_rows_only rows \<longleftrightarrow> (\<forall>r \<in> set rows. take 1 (row_Key r) \<noteq> [0])"

text \<open>
  \<open>held\<close> are the rows that a boot would load, \<open>at_index\<close> the index it would find, \<open>good\<close> the states that can be read.
\<close>

locale meta_db =
  fixes db :: "'p MetaPersister" and held :: "'p \<Rightarrow> gostring \<rightharpoonup> bytes" and at_index :: "'p \<Rightarrow> u64 option" and good :: "'p \<Rightarrow> bool"
  assumes commit_ok: "good p \<Longrightarrow> meta_rows_only rows \<Longrightarrow> snd (CommitAt db p i rows) \<Longrightarrow>
      good (fst (CommitAt db p i rows)) \<and> held (fst (CommitAt db p i rows)) = commit_rows (held p) rows \<and>
      at_index (fst (CommitAt db p i rows)) = Some i"
    and reset_ok: "meta_rows_only rows \<Longrightarrow> snd (ResetAt db p i rows) \<Longrightarrow>
      good (fst (ResetAt db p i rows)) \<and> held (fst (ResetAt db p i rows)) = commit_rows Map.empty rows \<and>
      at_index (fst (ResetAt db p i rows)) = Some i"
    and load: "good p \<Longrightarrow> \<exists>rows. LoadState db p = Some (rows, case_option 0 id (at_index p), at_index p \<noteq> None) \<and>
      distinct (map row_Key rows) \<and> map_of (map (\<lambda>r. (row_Key r, row_Value r)) rows) = held p"

section \<open>The adapter keeps the contract\<close>

definition db_held :: "('b \<Rightarrow> gostring \<rightharpoonup> bytes) \<Rightarrow> 'b \<Rightarrow> gostring \<rightharpoonup> bytes" where
  "db_held contents b = (contents b)(appliedIndexKey := None)"

definition db_index :: "('b \<Rightarrow> gostring \<rightharpoonup> bytes) \<Rightarrow> 'b \<Rightarrow> u64 option" where
  "db_index contents b = map_option (\<lambda>v. word_of_nat (be_nat v)) (contents b appliedIndexKey)"

definition db_good :: "('b \<Rightarrow> gostring \<rightharpoonup> bytes) \<Rightarrow> ('b \<Rightarrow> bool) \<Rightarrow> 'b \<Rightarrow> bool" where
  "db_good contents readable b \<longleftrightarrow> readable b \<and> pred_option (\<lambda>v. length v = 8) (contents b appliedIndexKey)"

lemma appliedIndexKey_meta: "meta_rows_only rows \<Longrightarrow> r \<in> set rows \<Longrightarrow> row_Key r \<noteq> appliedIndexKey"
  by (auto simp: meta_rows_only_def appliedIndexKey_def)

lemma txn_rows: "foldl txn_step m (map txn_row rows) = commit_rows m rows"
  by (induction rows arbitrary: m) (auto simp: commit_rows_def commit_row_def txn_step_def txn_row_def)

lemma commit_rows_other: "k \<notin> row_Key ` set rows \<Longrightarrow> commit_rows m rows k = m k"
  by (induction rows arbitrary: m) (auto simp: commit_rows_def commit_row_def)

lemma commit_rows_upd: "k \<notin> row_Key ` set rows \<Longrightarrow> commit_rows (m(k := v)) rows = (commit_rows m rows)(k := v)"
proof (induction rows arbitrary: m)
  case (Cons r rows)
  then have "commit_row (m(k := v)) r = (commit_row m r)(k := v)" by (auto simp: commit_row_def fun_upd_twist)
  then have "commit_rows (m(k := v)) (r # rows) = commit_rows ((commit_row m r)(k := v)) rows"
    by (simp only: commit_rows_def foldl.simps)
  also have "\<dots> = (commit_rows (commit_row m r) rows)(k := v)" by (rule Cons.IH) (use Cons.prems in simp)
  finally show ?case by (simp only: commit_rows_def foldl.simps)
qed (simp add: commit_rows_def)

lemma load_items_eq:
  assumes "distinct (map fst xs)" and "pred_option (\<lambda>v. length v = 8) (map_of xs appliedIndexKey)"
  shows "load_items xs (rows, i, ok) =
    Some (rows @ map (\<lambda>(k, v). \<lparr>row_Key = k, row_Value = v\<rparr>) (filter (\<lambda>x. fst x \<noteq> appliedIndexKey) xs),
      (case map_of xs appliedIndexKey of None \<Rightarrow> i | Some v \<Rightarrow> word_of_nat (be_nat v)),
      ok \<or> map_of xs appliedIndexKey \<noteq> None)"
  using assms
proof (induction xs arbitrary: rows i ok)
  case (Cons x xs)
  obtain k v where x: "x = (k, v)" by fastforce
  show ?case
  proof (cases "k = appliedIndexKey")
    case True
    then have "map_of xs appliedIndexKey = None" using Cons.prems(1) x by (simp add: map_of_eq_None_iff)
    with True Cons x show ?thesis by simp
  next
    case False
    with Cons x show ?thesis by simp
  qed
qed simp

lemma map_of_filtered: "map_of (filter (\<lambda>x. fst x \<noteq> a) xs) = (map_of xs)(a := None)"
  by (induction xs) (auto simp: fun_eq_iff)

context badger_db
begin

lemma MetaDB_commit:
  assumes "readable b" and "meta_rows_only rows" and "snd (MetaDB_CommitAt B b i rows)"
  shows "db_good contents readable (fst (MetaDB_CommitAt B b i rows)) \<and>
    db_held contents (fst (MetaDB_CommitAt B b i rows)) = commit_rows (db_held contents b) rows \<and>
    db_index contents (fst (MetaDB_CommitAt B b i rows)) = Some i"
proof -
  have "appliedIndexKey \<notin> row_Key ` set rows" using appliedIndexKey_meta [OF assms(2)] by force
  moreover have "contents (fst (MetaDB_CommitAt B b i rows)) =
      (commit_rows (contents b) rows)(appliedIndexKey \<mapsto> be_bytes 8 (unat i))"
    using update_ok [of b] assms(3) by (simp add: MetaDB_CommitAt_def txn_rows txn_step_def)
  moreover have "unat i mod 18446744073709551616 = unat i" using unat_bound [of i] by simp
  ultimately show ?thesis
    using update_readable [OF assms(1)]
    by (simp add: db_good_def db_held_def db_index_def MetaDB_CommitAt_def commit_rows_upd be_nat_be_bytes del: be_bytes.simps)
qed

lemma MetaDB_loads:
  assumes "db_good contents readable b"
  shows "\<exists>rows. MetaDB_LoadState B b = Some (rows, case_option 0 id (db_index contents b), db_index contents b \<noteq> None) \<and>
    distinct (map row_Key rows) \<and> map_of (map (\<lambda>r. (row_Key r, row_Value r)) rows) = db_held contents b"
proof -
  obtain xs where xs: "Items B b = Some xs" "distinct (map fst xs)" "map_of xs = contents b"
    using items assms by (auto simp: db_good_def)
  let ?ys = "filter (\<lambda>x. fst x \<noteq> appliedIndexKey) xs"
  let ?rows = "map (\<lambda>(k, v). \<lparr>row_Key = k, row_Value = v\<rparr>) ?ys"
  have "map (\<lambda>r. (row_Key r, row_Value r)) ?rows = ?ys" "map row_Key ?rows = map fst ?ys"
    by (auto simp: comp_def case_prod_beta)
  moreover have "distinct (map fst ?ys)" using xs(2) by (rule distinct_map_filter)
  moreover have "MetaDB_LoadState B b = Some (?rows, case_option 0 id (db_index contents b), db_index contents b \<noteq> None)"
    using xs assms load_items_eq [OF xs(2), of "[]" 0 False]
    by (auto simp: MetaDB_LoadState_def db_good_def db_index_def split: option.split)
  ultimately show ?thesis using xs(3) by (intro exI [of _ ?rows]) (simp only: map_of_filtered db_held_def simp_thms)
qed

end

sublocale badger_db \<subseteq> adapter: meta_db "MetaDB B" "db_held contents" "db_index contents" "db_good contents readable"
proof unfold_locales
  fix p :: 'b and rows i
  show "db_good contents readable p \<Longrightarrow> meta_rows_only rows \<Longrightarrow> snd (CommitAt (MetaDB B) p i rows) \<Longrightarrow>
      db_good contents readable (fst (CommitAt (MetaDB B) p i rows)) \<and>
      db_held contents (fst (CommitAt (MetaDB B) p i rows)) = commit_rows (db_held contents p) rows \<and>
      db_index contents (fst (CommitAt (MetaDB B) p i rows)) = Some i"
    using MetaDB_commit [of p rows i] by (simp add: MetaDB_def db_good_def)
  show "db_good contents readable (fst (ResetAt (MetaDB B) p i rows)) \<and>
      db_held contents (fst (ResetAt (MetaDB B) p i rows)) = commit_rows Map.empty rows \<and>
      db_index contents (fst (ResetAt (MetaDB B) p i rows)) = Some i"
    if "meta_rows_only rows" "snd (ResetAt (MetaDB B) p i rows)"
  proof -
    obtain b ok where d: "DropAll B p = (b, ok)" by fastforce
    with that(2) have ok: "ok" "snd (MetaDB_CommitAt B b i rows)"
      by (auto simp: MetaDB_def MetaDB_ResetAt_def split: if_splits)
    then have b: "readable b" "contents b = Map.empty" using dropped [of p] d by auto
    from MetaDB_commit [OF b(1) that(1) ok(2)] b(2) d ok(1) show ?thesis
      by (simp add: MetaDB_def MetaDB_ResetAt_def db_held_def)
  qed
  show "db_good contents readable p \<Longrightarrow>
      \<exists>rows. LoadState (MetaDB B) p = Some (rows, case_option 0 id (db_index contents p), db_index contents p \<noteq> None) \<and>
        distinct (map row_Key rows) \<and> map_of (map (\<lambda>r. (row_Key r, row_Value r)) rows) = db_held contents p"
    using MetaDB_loads by (simp add: MetaDB_def)
qed

section \<open>A database in memory\<close>

text \<open>An ordered map, whose transactions never fail.\<close>

definition mem_badger :: "(gostring, bytes) fmap badger" where
  "mem_badger =
     \<lparr>Update = (\<lambda>m calls. (foldl (\<lambda>m (k, v). case v of None \<Rightarrow> fmdrop k m | Some v \<Rightarrow> fmupd k v m) m calls, True)),
      DropAll = (\<lambda>m. (fmempty, True)),
      Items = (\<lambda>m. Some (map (\<lambda>k. (k, the (fmlookup m k))) (sorted_list_of_set (fset (fmdom m)))))\<rparr>"

lemma mem_update:
  "fmlookup (foldl (\<lambda>m (k, v). case v of None \<Rightarrow> fmdrop k m | Some v \<Rightarrow> fmupd k v m) m calls) = foldl txn_step (fmlookup m) calls"
proof (induction calls arbitrary: m)
  case (Cons c calls)
  have "fmlookup (case c of (k, v) \<Rightarrow> case v of None \<Rightarrow> fmdrop k m | Some v \<Rightarrow> fmupd k v m) = txn_step (fmlookup m) c"
    by (cases c) (auto simp: txn_step_def fun_eq_iff split: option.split)
  with Cons show ?case by (simp del: split_paired_All)
qed simp

interpretation membadger: badger_db mem_badger fmlookup "\<lambda>_. True"
proof unfold_locales
  fix m :: "(gostring, bytes) fmap"
  let ?xs = "map (\<lambda>k. (k, the (fmlookup m k))) (sorted_list_of_set (fset (fmdom m)))"
  have "map_of ?xs k = fmlookup m k" for k
    by (auto simp: map_of_map_keys map_of_map_restrict restrict_map_def fmlookup_dom_iff)
  then have "distinct (map fst ?xs) \<and> map_of ?xs = fmlookup m" by (simp add: comp_def fun_eq_iff)
  then show "\<exists>xs. Items mem_badger m = Some xs \<and> distinct (map fst xs) \<and> map_of xs = fmlookup m"
    by (auto simp: mem_badger_def)
qed (auto simp: mem_badger_def mem_update fun_eq_iff)

section \<open>The rows of an apply\<close>

text \<open>Every key an apply writes is in the metadata keyspace.\<close>

definition dirty_meta :: "kv \<Rightarrow> bool" where
  "dirty_meta t \<longleftrightarrow> (\<forall>k \<in> set (tx_dirtyKeys t). take 1 k \<noteq> [0])"

interpretation metakeys: all_writes_closed dirty_meta "\<lambda>_. True" "\<lambda>k. take 1 k \<noteq> [0]"
proof unfold_locales
  show "take 1 x \<noteq> [0]" if "prefix (uploadRowKey b q v) x" for b q v x
    using that by (auto simp: prefix_def uploadRowKey_def str_def)
qed (auto simp: dirty_meta_def tx_set_def tx_delete_def tx_record_def Let_def row_key_defs str_def
    clusterLayoutKey_def encryptionPostureKey_def trustBundleKey_def nodeRowKey_def split: if_splits)

lemma apply_rows_meta: "meta_rows_only (changeset pw (fst (Apply_body p (tx_reset t))))"
proof -
  have "dirty_meta (fst (Apply_body p (tx_reset t)))"
    by (rule metakeys.Apply_body_closed) (simp add: dirty_meta_def tx_reset_def)
  then show ?thesis by (auto simp: meta_rows_only_def changeset_def dirty_row_def dirty_meta_def)
qed

lemma wf_row_key: "wf_row k r \<Longrightarrow> take 1 k \<noteq> [0]"
  by (cases r) (auto simp: row_key_defs str_def clusterLayoutKey_def encryptionPostureKey_def trustBundleKey_def nodeRowKey_def
      uploadRowKey_def partRowKey_def)

text \<open>The dump of a store, written to an empty database, is the store.\<close>

lemma dump_held:
  assumes "wire pw" and "wf_rows (s_kv s)" and "formatted (s_kv s)" and "Dump pw s = Some rows"
  shows "commit_rows Map.empty rows = encoded pw (s_kv s)" and "meta_rows_only rows"
proof -
  let ?t = "s_kv s"
  let ?ks = "sorted_list_of_set (dom (tx_get ?t))"
  have inv: "tx_inv ?t" by (rule wf_rows_inv [OF assms(2)])
  have fin: "finite (dom (tx_get ?t))" using memKV_inv_finite [OF inv] by (simp add: tx_get_eq)
  have rows: "rows = map (dirty_row pw ?t) ?ks"
    using wire.Dump_eq [OF assms(1) inv] assms(4) fin by (auto simp: dirty_row_def)
  have "\<And>k r. tx_get ?t k = Some r \<Longrightarrow> marshalRecord pw r \<noteq> []"
    using assms(3) wire.marshalRecord_nonempty [OF assms(1)] by (auto simp: formatted_def)
  from commit_rows_dirty [OF this, where m = Map.empty and ks = ?ks] fin
  show "commit_rows Map.empty rows = encoded pw ?t" by (auto simp: rows encoded_def fun_eq_iff)
  show "meta_rows_only rows"
    using fin wf_row_key wf_rowsD [OF assms(2)] by (auto simp: meta_rows_only_def rows dirty_row_def)
qed

end
