(* ===== verification/Raft_Durable.thy ===== *)
theory Raft_Durable
  imports Raft_Tiers Meta_DB
begin

text \<open>
  A replica and its durable store: what the store holds after a boot and after every applied entry, and what the next
  boot makes of it.
\<close>

section \<open>One life of a replica\<close>

text \<open>
  \<open>life S a es b\<close>: the replica came up as \<open>a\<close> and has applied the entries \<open>es\<close> when it reaches \<open>b\<close>. Between two applies
  anything may happen that leaves the metadata store alone: messages, ticks, turns of the Ready loop, proposals.
\<close>

inductive life :: "('r, 'm, 'd, 'p) seams \<Rightarrow> ('r, 'd, 'p) RaftNode \<Rightarrow> Entry list \<Rightarrow> ('r, 'd, 'p) RaftNode \<Rightarrow> bool"
  for S :: "('r, 'm, 'd, 'p) seams" and a :: "('r, 'd, 'p) RaftNode" where
  came_up: "life S a [] a"
| applied: "life S a es b \<Longrightarrow> n_store b' = n_store b \<Longrightarrow> n_persistedIndex b' = n_persistedIndex b \<Longrightarrow>
    applyEntry S e b' = Some (Running c) \<Longrightarrow> life S a (es @ [e]) c"

text \<open>What an entry does to the store.\<close>

definition entry_store :: "('r, 'm, 'd, 'p) seams \<Rightarrow> Entry \<Rightarrow> u64 \<Rightarrow> 'p Store \<Rightarrow> 'p Store" where
  "entry_store S e i s =
     (if e_Type e = EntryNormal \<and> e_Data e \<noteq> [] \<and> i < e_Index e
      then case DecodeProposal (sm_wire S) (e_Data e) of
             Some (Some p) \<Rightarrow> fst (Apply (sm_wire S) (indexed_Commit S (e_Index e)) p s)
           | _ \<Rightarrow> s
      else s)"

lemma conf_address_store:
  assumes "conf_address S cc n = Some (Running n')"
  shows "n_store n' = n_store n" "n_persistedIndex n' = n_persistedIndex n"
  using assms by (auto simp: conf_address_def split: conf_change_type.splits option.splits if_splits)

lemma applyEntry_store:
  assumes "applyEntry S e n = Some (Running n')"
  shows "n_store n' = entry_store S e (n_persistedIndex n) (n_store n)" "n_persistedIndex n' = n_persistedIndex n"
    and "e_Type e = EntryNormal \<Longrightarrow> e_Data e \<noteq> [] \<Longrightarrow> n_persistedIndex n < e_Index e \<Longrightarrow>
      \<exists>p. DecodeProposal (sm_wire S) (e_Data e) = Some (Some p) \<and>
        snd (Apply (sm_wire S) (indexed_Commit S (e_Index e)) p (n_store n)) \<noteq> Inl ErrPersist"
proof -
  have "n_store n' = entry_store S e (n_persistedIndex n) (n_store n) \<and> n_persistedIndex n' = n_persistedIndex n \<and>
    (e_Type e = EntryNormal \<longrightarrow> e_Data e \<noteq> [] \<longrightarrow> n_persistedIndex n < e_Index e \<longrightarrow>
      (\<exists>p. DecodeProposal (sm_wire S) (e_Data e) = Some (Some p) \<and>
        snd (Apply (sm_wire S) (indexed_Commit S (e_Index e)) p (n_store n)) \<noteq> Inl ErrPersist))"
  proof (cases "e_Type e")
    case EntryNormal
    with assms show ?thesis
      by (auto simp: applyEntry_def apply_normal_def entry_store_def Let_def case_prod_beta settle_keeps
          split: if_splits option.splits)
  next
    case EntryConfChange
    with assms show ?thesis
      by (auto simp: applyEntry_def apply_conf_change_eq entry_store_def Let_def and_then_Some conf_applied_keeps
          conf_address_store split: option.splits)
  next
    case EntryConfChangeV2
    with assms show ?thesis by (auto simp: applyEntry_def entry_store_def Let_def)
  qed
  then show "n_store n' = entry_store S e (n_persistedIndex n) (n_store n)" "n_persistedIndex n' = n_persistedIndex n"
    "e_Type e = EntryNormal \<Longrightarrow> e_Data e \<noteq> [] \<Longrightarrow> n_persistedIndex n < e_Index e \<Longrightarrow>
      \<exists>p. DecodeProposal (sm_wire S) (e_Data e) = Some (Some p) \<and>
        snd (Apply (sm_wire S) (indexed_Commit S (e_Index e)) p (n_store n)) \<noteq> Inl ErrPersist"
    by blast+
qed

text \<open>The rows after an entry depend on the rows before it only.\<close>

lemma entry_store_same:
  assumes "commits S" and "tx_mem (s_kv s) = tx_mem (s_kv s')" and "i < e_Index e" and "j < e_Index e"
  shows "tx_mem (s_kv (entry_store S e i s)) = tx_mem (s_kv (entry_store S e j s'))"
proof -
  have ok: "snd (indexed_Commit S k p rows)" for k p rows using assms(1) by (simp add: commits_def indexed_Commit_def)
  show ?thesis
    using assms(2-4) Apply_same(1) [OF assms(2) ok ok] by (auto simp: entry_store_def split: option.split)
qed

lemma each_snoc: "each f (xs @ [x]) n = Some (Running n') \<longleftrightarrow> (\<exists>m. each f xs n = Some (Running m) \<and> f x m = Some (Running n'))"
  by (auto simp: each_append and_then_Some)

lemma each_persistedIndex: "each (applyEntry S) es n = Some (Running n') \<Longrightarrow> n_persistedIndex n' = n_persistedIndex n"
proof (induction es arbitrary: n)
  case (Cons e es)
  then obtain m where "applyEntry S e n = Some (Running m)" "each (applyEntry S) es m = Some (Running n')"
    by (auto simp only: each_Running)
  then show ?case using Cons.IH [of m] applyEntry_store(2) by metis
qed simp

lemma life_persistedIndex: "life S a es b \<Longrightarrow> n_persistedIndex b = n_persistedIndex a"
  by (induction rule: life.induct) (auto dest: applyEntry_store(2))

text \<open>The rows of a life are those of a plain replay of its entries.\<close>

lemma life_rows:
  assumes "commits S" and "life S a es b" and "each (applyEntry S) es c = Some (Running c')" and "meta_rows a = meta_rows c"
    and "\<forall>e \<in> set es. n_persistedIndex a < e_Index e \<and> n_persistedIndex c < e_Index e"
  shows "meta_rows b = meta_rows c'"
  using assms(2,3,5)
proof (induction arbitrary: c' rule: life.induct)
  case came_up
  then show ?case using assms(4) by simp
next
  case (applied es b b1 e d)
  obtain m where m: "each (applyEntry S) es c = Some (Running m)" "applyEntry S e m = Some (Running c')"
    using applied.prems(1) by (auto simp only: each_snoc)
  have i: "n_persistedIndex b1 < e_Index e" "n_persistedIndex m < e_Index e"
    using applied.prems(2) applied.hyps(3) life_persistedIndex [OF applied.hyps(1)] each_persistedIndex [OF m(1)] by auto
  have "meta_rows b = meta_rows m" using applied.IH [OF m(1)] applied.prems(2) by simp
  then have "tx_mem (s_kv (n_store b1)) = tx_mem (s_kv (n_store m))" using applied.hyps(2) by simp
  from entry_store_same [OF assms(1) this i] show ?case
    using applyEntry_store(1) [OF applied.hyps(4)] applyEntry_store(1) [OF m(2)] by simp
qed

section \<open>Replaying the log\<close>

text \<open>Records behind the first one of a log carry no snapshot.\<close>

definition tail_records :: "('r, 'm, 'd, 'p) seams \<Rightarrow> bytes list \<Rightarrow> bool" where
  "tail_records S recs \<longleftrightarrow> (\<forall>raw \<in> set recs. \<forall>rec. decodeRecord (sm_wire S) (sm_pb S) raw = Some (Some rec) \<longrightarrow>
     IsEmptySnap (sm_pb S) (rec_snap rec))"

text \<open>What a replica keeps beside the library: it starts with the same of both.\<close>

definition twins :: "('r, 'd, 'p) RaftNode \<Rightarrow> ('r, 'd, 'p) RaftNode \<Rightarrow> bool" where
  "twins a b \<longleftrightarrow> same_conf a b \<and> n_applied a = n_applied b"

lemma boot_then_Up: "boot_then x f = Some (Up y) \<longleftrightarrow> (\<exists>n. x = Some (Up n) \<and> f n = Some (Up y))"
  by (cases x) (auto simp: boot_then_def split: boot.splits)

lemma boot_run_Up: "boot_run x = Some (Up n) \<longleftrightarrow> x = Some (Running n)"
  by (cases x; cases "the x") (auto simp: boot_run_def)

text \<open>The part of a record that goes to the storage of the library.\<close>

definition replay_stored :: "('r, 'm, 'd, 'p) seams \<Rightarrow> raft_record \<Rightarrow> 'r \<Rightarrow> 'r option" where
  "replay_stored S rec r =
     Option.bind (StorageAppend (sm_raft S) r (rec_entries rec)) (\<lambda>r.
       if IsEmptyHardState (sm_pb S) (rec_hs rec) then Some r else SetHardState (sm_raft S) r (rec_hs rec))"

lemma replay_record_Up:
  "replay_record S rec n = Some (Up n') \<longleftrightarrow>
     (\<exists>m r. (if \<not> IsEmptySnap (sm_pb S) (rec_snap rec)
            then case restoreSnapshot S (rec_snap rec) n of None \<Rightarrow> boot_error n | Some x \<Rightarrow> boot_run x else up n) = Some (Up m) \<and>
       replay_stored S rec (n_raft m) = Some r \<and> n' = m\<lparr>n_raft := r\<rparr>)"
  unfolding replay_record_def boot_then_Up
  by (intro ex_cong1 conj_cong refl) (auto simp: replay_stored_def Let_def boot_error_def up_def split: option.splits bind_splits)

lemma replay_log_Cons:
  "replay_log S (raw # recs) n = Some (Up n') \<longleftrightarrow>
     (\<exists>rec m. decodeRecord (sm_wire S) (sm_pb S) raw = Some (Some rec) \<and> replay_record S rec n = Some (Up m) \<and>
        replay_log S recs m = Some (Up n'))"
  by (auto simp: boot_then_Up boot_error_def split: option.splits)

lemma boot_then_assoc: "boot_then (boot_then x f) g = boot_then x (\<lambda>n. boot_then (f n) g)"
  by (cases x) (simp_all add: boot_then_def split: boot.split)

lemma boot_then_error: "boot_then (boot_error n) f = boot_error n" "boot_then None f = None"
  by (simp_all add: boot_then_def boot_error_def)

lemma replay_log_append: "replay_log S (xs @ ys) n = boot_then (replay_log S xs n) (replay_log S ys)"
proof (induction xs arbitrary: n)
  case (Cons x xs)
  then have "replay_log S (xs @ ys) = (\<lambda>n. boot_then (replay_log S xs n) (replay_log S ys))" by (intro ext)
  then show ?case by (simp add: boot_then_assoc boot_then_error split: option.split)
qed (simp add: up_def boot_then_def)

text \<open>Records without a snapshot only reach the library, and the library does not see the metadata.\<close>

lemma replay_tail:
  assumes "tail_records S recs" and "replay_log S recs n = Some (Up n')"
  shows "\<exists>r. n' = n\<lparr>n_raft := r\<rparr> \<and> (\<forall>m. n_raft m = n_raft n \<longrightarrow> replay_log S recs m = Some (Up (m\<lparr>n_raft := r\<rparr>)))"
  using assms
proof (induction recs arbitrary: n)
  case Nil
  then have n': "n' = n" by (simp add: up_def)
  show ?case by (intro exI [of _ "n_raft n"]) (auto simp: n' up_def intro: RaftNode.equality)
next
  case (Cons raw recs)
  obtain rec m where m: "decodeRecord (sm_wire S) (sm_pb S) raw = Some (Some rec)" "replay_record S rec n = Some (Up m)"
    "replay_log S recs m = Some (Up n')"
    using Cons.prems(2) by (auto simp only: replay_log_Cons)
  have empty: "IsEmptySnap (sm_pb S) (rec_snap rec)" using Cons.prems(1) m(1) by (simp add: tail_records_def)
  obtain r where r: "replay_stored S rec (n_raft n) = Some r" "m = n\<lparr>n_raft := r\<rparr>"
    using m(2) empty by (auto simp: replay_record_Up up_def)
  have tr: "tail_records S recs" using Cons.prems(1) by (simp add: tail_records_def)
  from Cons.IH [OF tr m(3)] obtain r' where r': "n' = m\<lparr>n_raft := r'\<rparr>"
    "\<And>k. n_raft k = n_raft m \<Longrightarrow> replay_log S recs k = Some (Up (k\<lparr>n_raft := r'\<rparr>))" by blast
  have "replay_log S (raw # recs) k = Some (Up (k\<lparr>n_raft := r'\<rparr>))" if "n_raft k = n_raft n" for k
  proof -
    have "replay_record S rec k = Some (Up (k\<lparr>n_raft := r\<rparr>))"
      using that r(1) empty by (auto simp: replay_record_Up up_def)
    moreover have "replay_log S recs (k\<lparr>n_raft := r\<rparr>) = Some (Up (k\<lparr>n_raft := r'\<rparr>))"
      using r'(2) [of "k\<lparr>n_raft := r\<rparr>"] r(2) by simp
    ultimately show ?thesis using m(1) by (auto simp only: replay_log_Cons)
  qed
  then show ?case using r'(1) r(2) by auto
qed

text \<open>Installing a snapshot, when the store is taken from it and when the durable store is kept.\<close>

definition installed :: "Snapshot \<Rightarrow> 'p snapshot_state \<Rightarrow> ('r, 'd, 'p) RaftNode \<Rightarrow> ('r, 'd, 'p) RaftNode" where
  "installed snap ss n = notifyMembership (n\<lparr>n_peers := n_peers n ++\<^sub>f ss_members ss, n_removed := n_removed n |\<union>| ss_removed ss,
     n_applied := sn_Index snap, n_snapIndex := sn_Index snap, n_confState := sn_ConfState snap\<rparr>)"

lemma notified_applied: "n_applied (notifyMembership n) = n_applied n" "n_usePersisted (notifyMembership n) = n_usePersisted n"
  by (simp_all add: notifyMembership_def emit_event_def)

lemma installed_keeps:
  "n_store (installed snap ss n) = n_store n" "n_persistedIndex (installed snap ss n) = n_persistedIndex n"
  "n_applied (installed snap ss n) = sn_Index snap" "n_raft (installed snap ss n) = n_raft n"
  by (simp_all add: installed_def notified_keeps notified_applied)

lemma installed_twins: "same_conf a b \<Longrightarrow> twins (installed snap ss a) (installed snap ss b)"
  by (simp add: installed_def twins_def same_conf_def notified_keeps notified_applied)

lemma restore_adopts:
  assumes "restoreSnapshot S snap n = Some (Some (Running k))" and "\<not> n_usePersisted n"
  shows "\<exists>ss r st. decodeSnapshotData (sm_wire S) (sn_Data snap) = Some (Some ss) \<and> ApplySnapshot (sm_raft S) (n_raft n) snap = Some r \<and>
    k = installed snap ss (n\<lparr>n_raft := r, n_store := st, n_persistedIndex := sn_Index snap\<rparr>) \<and> s_kv st = s_kv (ss_store ss) \<and>
    (case s_persist (n_store n) of None \<Rightarrow> True
     | Some p \<Rightarrow> \<exists>rows. Dump (sm_wire S) (ss_store ss) = Some rows \<and> snd (ResetAt (sm_db S) p (sn_Index snap) rows) \<and>
         s_persist st = Some (fst (ResetAt (sm_db S) p (sn_Index snap) rows)))"
proof -
  obtain ss r m where ss: "decodeSnapshotData (sm_wire S) (sn_Data snap) = Some (Some ss)" "ApplySnapshot (sm_raft S) (n_raft n) snap = Some r"
    and m: "adoptStore S (ss_store ss) (sn_Index snap) (n\<lparr>n_raft := r\<rparr>) = Some (Running m)"
    and k: "k = notifyMembership (m\<lparr>n_peers := n_peers m ++\<^sub>f ss_members ss, n_removed := n_removed m |\<union>| ss_removed ss,
       n_applied := sn_Index snap, n_snapIndex := sn_Index snap, n_confState := sn_ConfState snap\<rparr>)"
    using assms by (auto simp: restoreSnapshot_def Let_def and_then_Some split: option.splits)
  show ?thesis
  proof (cases "s_persist (n_store n)")
    case None
    then have "m = n\<lparr>n_raft := r, n_store := ss_store ss, n_persistedIndex := sn_Index snap\<rparr>" using m by (simp add: adoptStore_def)
    with None ss k show ?thesis by (intro exI [of _ ss] exI [of _ r] exI [of _ "ss_store ss"]) (simp add: installed_def)
  next
    case (Some p)
    then obtain rows where rows: "Dump (sm_wire S) (ss_store ss) = Some rows" "snd (ResetAt (sm_db S) p (sn_Index snap) rows)"
      and "m = n\<lparr>n_raft := r, n_store := SetPersister (ss_store ss) (fst (ResetAt (sm_db S) p (sn_Index snap) rows)), n_persistedIndex := sn_Index snap\<rparr>"
      using m by (auto simp: adoptStore_def Let_def case_prod_beta split: option.splits if_splits)
    with Some ss k show ?thesis
      by (intro exI [of _ ss] exI [of _ r] exI [of _ "SetPersister (ss_store ss) (fst (ResetAt (sm_db S) p (sn_Index snap) rows))"])
        (simp add: installed_def SetPersister_def)
  qed
qed

lemma restore_keeps:
  assumes "decodeSnapshotData (sm_wire S) (sn_Data snap) = Some (Some ss)" and "ApplySnapshot (sm_raft S) (n_raft n) snap = Some r"
    and "n_usePersisted n" and "sn_Index snap \<le> n_persistedIndex n"
  shows "restoreSnapshot S snap n = Some (Some (Running (installed snap ss (n\<lparr>n_raft := r\<rparr>))))"
  using assms by (simp add: restoreSnapshot_def installed_def Let_def go_on_def and_then_def)

text \<open>The shape of a replay: the first record may bring a snapshot, the others do not.\<close>

lemma replay_shape:
  assumes "tail_records S (tl recs)" and "\<not> tail_records S recs" and "replay_log S recs n = Some (Up a)"
  shows "\<exists>snap k r. restoreSnapshot S snap n = Some (Some (Running k)) \<and> a = k\<lparr>n_raft := r\<rparr> \<and>
    (\<forall>m k'. restoreSnapshot S snap m = Some (Some (Running k')) \<longrightarrow> n_raft k' = n_raft k \<longrightarrow>
      replay_log S recs m = Some (Up (k'\<lparr>n_raft := r\<rparr>)))"
proof -
  obtain raw rest where recs: "recs = raw # rest" using assms(2) by (cases recs) (auto simp: tail_records_def)
  obtain rec m1 where m1: "decodeRecord (sm_wire S) (sm_pb S) raw = Some (Some rec)" "replay_record S rec n = Some (Up m1)"
    "replay_log S rest m1 = Some (Up a)"
    using assms(3) unfolding recs by (auto simp only: replay_log_Cons)
  have snap: "\<not> IsEmptySnap (sm_pb S) (rec_snap rec)" using assms(1,2) m1(1) by (auto simp: recs tail_records_def)
  obtain k r1 where k: "restoreSnapshot S (rec_snap rec) n = Some (Some (Running k))" "replay_stored S rec (n_raft k) = Some r1"
    "m1 = k\<lparr>n_raft := r1\<rparr>"
    using m1(2) snap by (auto simp: replay_record_Up boot_error_def boot_run_Up split: option.splits)
  obtain r where r: "a = m1\<lparr>n_raft := r\<rparr>" "\<And>m. n_raft m = n_raft m1 \<Longrightarrow> replay_log S rest m = Some (Up (m\<lparr>n_raft := r\<rparr>))"
    using replay_tail [OF _ m1(3)] assms(1) by (auto simp: recs)
  have "replay_log S recs m = Some (Up (k'\<lparr>n_raft := r\<rparr>))"
    if k': "restoreSnapshot S (rec_snap rec) m = Some (Some (Running k'))" "n_raft k' = n_raft k" for m k'
  proof -
    have "replay_record S rec m = Some (Up (k'\<lparr>n_raft := r1\<rparr>))"
      using k' k(2) snap by (auto simp: replay_record_Up boot_run_Up)
    moreover have "replay_log S rest (k'\<lparr>n_raft := r1\<rparr>) = Some (Up (k'\<lparr>n_raft := r\<rparr>))"
      using r(2) [of "k'\<lparr>n_raft := r1\<rparr>"] k(3) by simp
    ultimately show ?thesis unfolding recs replay_log_Cons using m1(1) by blast
  qed
  then show ?thesis using k r(1) by auto
qed

lemma tail_records_append: "tail_records S (xs @ ys) \<longleftrightarrow> tail_records S xs \<and> tail_records S ys"
  by (auto simp: tail_records_def)

section \<open>The durable store holds the metadata\<close>

text \<open>The boot of a replica up to the point where the library is started: the durable store is opened, the log replayed.\<close>

definition boot_from ::
    "('r, 'm, 'd, 'p) seams \<Rightarrow> 'p option \<Rightarrow> bytes list \<Rightarrow> ('r, 'd, 'p) RaftNode \<Rightarrow> ('r, 'd, 'p) RaftNode boot option" where
  "boot_from S db records n = Option.bind (openPersistedStore S db n) (replay_log S records)"

context meta_db
begin

text \<open>Memory and database agree, and nothing stands in the way of the next commit.\<close>

definition stored :: "protowire \<Rightarrow> 'p Store \<Rightarrow> 'p \<Rightarrow> bool" where
  "stored pw s p \<longleftrightarrow> s_persist s = Some p \<and> good p \<and> held p = encoded pw (s_kv s) \<and> tx_inv (s_kv s) \<and> formatted (s_kv s)"

lemma stored_Apply:
  assumes "wire pw" and "stored pw s p" and "snd (Apply pw (\<lambda>p. CommitAt db p i) c s) \<noteq> Inl ErrPersist"
  shows "\<exists>p'. stored pw (fst (Apply pw (\<lambda>p. CommitAt db p i) c s)) p' \<and>
    (at_index p' = Some i \<or> p' = p \<and> tx_mem (s_kv (fst (Apply pw (\<lambda>p. CommitAt db p i) c s))) = tx_mem (s_kv s))"
proof -
  let ?commit = "\<lambda>p. CommitAt db p i"
  have s: "s_persist s = Some p" "good p" "held p = encoded pw (s_kv s)" "tx_inv (s_kv s)" "formatted (s_kv s)"
    using assms(2) by (simp_all add: stored_def)
  obtain t r where b: "Apply_body c (tx_reset (s_kv s)) = (t, r)" by fastforce
  have kept: "tx_inv (s_kv (fst (Apply pw ?commit c s)))" "formatted (s_kv (fst (Apply pw ?commit c s)))"
    using Apply_inv Apply_formatted s(4,5) by blast+
  have u: "undoes (tx_mem (s_kv s)) t"
    using undo.Apply_body_closed [OF undoes_reset [OF s(4)], of c] by (simp add: b)
  have tr: "tracks (tx_get (s_kv s)) t"
    using dirty.Apply_body_closed [OF tracks_reset, of "s_kv s" c] by (simp add: b)
  have m: "meta_rows_only (changeset pw t)" using apply_rows_meta [of pw c "s_kv s"] by (simp add: b)
  have enc: "encoded pw x = encoded pw y" if "tx_mem x = tx_mem y" for x y
    using that by (simp add: encoded_def tx_get_eq fun_eq_iff)
  show ?thesis
  proof (cases r)
    case (Inl e)
    then have "fst (Apply pw ?commit c s) = s\<lparr>s_kv := tx_rollback t\<rparr>" by (simp add: Apply_eq [OF b])
    with kept s undoes_rollback [OF u] enc [OF undoes_rollback [OF u]] show ?thesis
      by (intro exI [of _ p]) (simp add: stored_def)
  next
    case (Inr x)
    show ?thesis
    proof (cases "tx_dirtyKeys t = []")
      case True
      have a: "fst (Apply pw ?commit c s) = s\<lparr>s_kv := t\<rparr>" using Inr True s(1) by (simp add: Apply_eq [OF b])
      have "tx_get t = tx_get (s_kv s)" using tr True by (simp add: tracks_def fun_eq_iff)
      then have "tx_mem t = tx_mem (s_kv s)" using memKV_eqI kept(1) s(4) a by (simp add: tx_get_eq)
      with enc [OF this] a kept s show ?thesis by (intro exI [of _ p]) (simp add: stored_def)
    next
      case False
      let ?p = "fst (CommitAt db p i (changeset pw t))"
      have ok: "snd (CommitAt db p i (changeset pw t))" "fst (Apply pw ?commit c s) = s\<lparr>s_kv := t, s_persist := Some ?p\<rparr>"
        using assms(3) Inr False s(1) unfolding Apply_eq [OF b] by (simp_all split: if_splits)
      have "formatted t" using kept(2) ok(2) by simp
      then have "commit_rows (encoded pw (s_kv s)) (changeset pw t) = encoded pw t"
        using wire.changeset_commit [OF assms(1) tr] by simp
      then have "good ?p" "held ?p = encoded pw t" "at_index ?p = Some i"
        using commit_ok [OF s(2) m ok(1)] s(3) by auto
      moreover have "tx_inv t" "formatted t" using kept unfolding ok(2) by simp_all
      ultimately have "stored pw (s\<lparr>s_kv := t, s_persist := Some ?p\<rparr>) ?p" by (simp add: stored_def)
      then show ?thesis unfolding ok(2) using \<open>at_index ?p = Some i\<close> by blast
    qed
  qed
qed

text \<open>Applying an entry.\<close>

lemma stored_entry:
  assumes "wire (sm_wire S)" and "sm_db S = db" and "stored (sm_wire S) (n_store n) p" and "applyEntry S e n = Some (Running n')"
  shows "\<exists>p'. stored (sm_wire S) (n_store n') p' \<and>
    (at_index p' = Some (e_Index e) \<or> p' = p \<and> meta_rows n' = meta_rows n)"
proof (cases "e_Type e = EntryNormal \<and> e_Data e \<noteq> [] \<and> n_persistedIndex n < e_Index e")
  case True
  then obtain c where c: "DecodeProposal (sm_wire S) (e_Data e) = Some (Some c)"
    "snd (Apply (sm_wire S) (indexed_Commit S (e_Index e)) c (n_store n)) \<noteq> Inl ErrPersist"
    using applyEntry_store(3) [OF assms(4)] by blast
  have i: "indexed_Commit S (e_Index e) = (\<lambda>p. CommitAt db p (e_Index e))"
    by (intro ext) (simp add: indexed_Commit_def assms(2))
  from stored_Apply [OF assms(1,3), of "e_Index e" c] c True i applyEntry_store(1) [OF assms(4)]
  show ?thesis by (simp add: entry_store_def)
next
  case False
  then have "n_store n' = n_store n" using applyEntry_store(1) [OF assms(4)] by (auto simp: entry_store_def)
  with assms(3) show ?thesis by auto
qed

text \<open>
  During a life the database holds the metadata, and its index separates the entries: what came after it changed nothing.
\<close>

lemma stored_life:
  assumes "wire (sm_wire S)" and "sm_db S = db" and "stored (sm_wire S) (n_store a) p0" and "life S a es b"
    and "case at_index p0 of None \<Rightarrow> True | Some i \<Rightarrow> i = n_applied a"
    and "sorted_wrt (<) (n_applied a # map e_Index es)"
  shows "\<exists>p xs ys c. stored (sm_wire S) (n_store b) p \<and> es = xs @ ys \<and> life S a xs c \<and> meta_rows c = meta_rows b \<and>
    (case at_index p of None \<Rightarrow> xs = [] \<and> at_index p0 = None
     | Some i \<Rightarrow> n_applied a \<le> i \<and> (\<forall>e \<in> set xs. e_Index e \<le> i) \<and> (\<forall>e \<in> set ys. i < e_Index e) \<and>
        (xs \<noteq> [] \<longrightarrow> i = e_Index (List.last xs)) \<and> (xs = [] \<longrightarrow> i = n_applied a))"
  using assms(4,6)
proof (induction rule: life.induct)
  case came_up
  then show ?case using assms(3,5) by (intro exI [of _ p0] exI [of _ "[]"] exI [of _ a]) (auto split: option.split intro: life.came_up)
next
  case (applied es b b' e c)
  have sorted: "sorted_wrt (<) (n_applied a # map e_Index es)" "\<forall>x \<in> set es. e_Index x < e_Index e" "n_applied a < e_Index e"
    using applied.prems by (auto simp: sorted_wrt_append)
  from applied.IH [OF sorted(1)] obtain p xs ys d where IH: "stored (sm_wire S) (n_store b) p" "es = xs @ ys" "life S a xs d"
    "meta_rows d = meta_rows b"
    "case at_index p of None \<Rightarrow> xs = [] \<and> at_index p0 = None
     | Some i \<Rightarrow> n_applied a \<le> i \<and> (\<forall>e \<in> set xs. e_Index e \<le> i) \<and> (\<forall>e \<in> set ys. i < e_Index e) \<and>
        (xs \<noteq> [] \<longrightarrow> i = e_Index (List.last xs)) \<and> (xs = [] \<longrightarrow> i = n_applied a)"
    by blast
  have "stored (sm_wire S) (n_store b') p" using IH(1) applied.hyps(2) by simp
  from stored_entry [OF assms(1,2) this applied.hyps(4)] obtain p' where p': "stored (sm_wire S) (n_store c) p'"
    "at_index p' = Some (e_Index e) \<or> p' = p \<and> meta_rows c = meta_rows b'" by blast
  show ?case
  proof (cases "at_index p' = Some (e_Index e)")
    case True
    have "life S a (es @ [e]) c" by (rule life.applied [OF applied.hyps])
    with True p'(1) sorted(2,3) show ?thesis
      by (intro exI [of _ p'] exI [of _ "es @ [e]"] exI [of _ "[]"] exI [of _ c]) (auto simp: less_imp_le)
  next
    case False
    then have k: "p' = p" "meta_rows c = meta_rows b" using p'(2) applied.hyps(2) by auto
    have "i < e_Index e" if "at_index p = Some i" for i
      using IH(2,5) that sorted(2,3) by (cases xs rule: rev_cases) auto
    then show ?thesis using IH k p'(1)
      by (intro exI [of _ p'] exI [of _ xs] exI [of _ "ys @ [e]"] exI [of _ d]) (auto split: option.splits)
  qed
qed

lemma open_fresh:
  assumes "sm_db S = db" and "good p" and "at_index p = None"
  shows "openPersistedStore S (Some p) n = Some (n\<lparr>n_store := SetPersister (n_store n) p\<rparr>)"
  using load [OF assms(2)] assms(1,3) by (auto simp: openPersistedStore_def Let_def)

lemma open_trusted:
  assumes "sm_db S = db" and "wire (sm_wire S)" and "stored (sm_wire S) s p" and "wf_rows (s_kv s)" and "encodable (sm_wire S) (s_kv s)"
    and "at_index p = Some i"
  shows "\<exists>st. openPersistedStore S (Some p) n = Some (n\<lparr>n_store := SetPersister st p, n_usePersisted := True, n_persistedIndex := i\<rparr>) \<and>
    tx_mem (s_kv st) = tx_mem (s_kv s)"
proof -
  obtain rows where rows: "LoadState db p = Some (rows, i, True)" "distinct (map row_Key rows)"
    "map_of (map (\<lambda>r. (row_Key r, row_Value r)) rows) = held p"
    using load [of p] assms(3,6) by (auto simp: stored_def)
  have "map_of (map (\<lambda>r. (row_Key r, row_Value r)) rows) = encoded (sm_wire S) (s_kv s)" using rows(3) assms(3) by (simp add: stored_def)
  moreover have "distinct (map fst (map (\<lambda>r. (row_Key r, row_Value r)) rows))" using rows(2) by (simp add: comp_def)
  ultimately obtain st :: "'p Store" where "restore_rows (sm_wire S) NewStore (map (\<lambda>r. (row_Key r, row_Value r)) rows) = Some (Some st)"
    "tx_mem (s_kv st) = tx_mem (s_kv s)"
    using wire.restore_fresh [OF assms(2,4,5)] by blast
  with rows(1) assms(1) show ?thesis by (auto simp: openPersistedStore_def Let_def)
qed

text \<open>The first boot, on a database that holds nothing.\<close>

lemma stored_boot:
  assumes "sm_db S = db" and "wire (sm_wire S)" and "good p" and "held p = Map.empty" and "at_index p = None"
    and "n_store n = NewStore" and "\<not> n_usePersisted n" and "n_persistedIndex n = n_applied n"
    and "tail_records S (tl recs)" and "boot_from S (Some p) recs n = Some (Up a)"
    and "wf_rows (s_kv (n_store a))" and "formatted (s_kv (n_store a))"
  shows "n_persistedIndex a = n_applied a"
    and "\<exists>p0. stored (sm_wire S) (n_store a) p0 \<and> (case at_index p0 of None \<Rightarrow> tail_records S recs | Some i \<Rightarrow> i = n_applied a)"
proof -
  let ?n = "n\<lparr>n_store := SetPersister (n_store n) p\<rparr>"
  have run: "replay_log S recs ?n = Some (Up a)"
    using assms(10) by (simp add: boot_from_def open_fresh [OF assms(1,3,5)])
  have "n_persistedIndex a = n_applied a \<and>
    (\<exists>p0. stored (sm_wire S) (n_store a) p0 \<and> (case at_index p0 of None \<Rightarrow> tail_records S recs | Some i \<Rightarrow> i = n_applied a))"
  proof (cases "tail_records S recs")
    case True
    then obtain r where a: "a = ?n\<lparr>n_raft := r\<rparr>" using replay_tail [OF True run] by blast
    have "encoded (sm_wire S) newTxKV = Map.empty" by (simp add: encoded_def fun_eq_iff newTxKV_def tx_get_eq)
    with a assms(3-6,8,11,12) True show ?thesis
      by (intro conjI exI [of _ p]) (simp_all add: stored_def SetPersister_def NewStore_def wf_rows_inv)
  next
    case False
    obtain snap k r where k: "restoreSnapshot S snap ?n = Some (Some (Running k))" "a = k\<lparr>n_raft := r\<rparr>"
      using replay_shape [OF assms(9) False run] by blast
    obtain ss r' st rows where st: "k = installed snap ss (?n\<lparr>n_raft := r', n_store := st, n_persistedIndex := sn_Index snap\<rparr>)"
      "s_kv st = s_kv (ss_store ss)" "Dump (sm_wire S) (ss_store ss) = Some rows" "snd (ResetAt db p (sn_Index snap) rows)"
      "s_persist st = Some (fst (ResetAt db p (sn_Index snap) rows))"
      using restore_adopts [OF k(1)] assms(1,7) by (auto simp: SetPersister_def)
    have a: "n_store a = st" "n_persistedIndex a = sn_Index snap" "n_applied a = sn_Index snap" by (simp_all add: k(2) st(1) installed_keeps)
    have "wf_rows (s_kv (ss_store ss))" "formatted (s_kv (ss_store ss))" using a(1) st(2) assms(11,12) by simp_all
    note d = dump_held [OF assms(2) this st(3)]
    from reset_ok [OF d(2) st(4)] d(1) st(2,5) a assms(11,12) show ?thesis
      by (intro conjI exI [of _ "fst (ResetAt db p (sn_Index snap) rows)"]) (simp_all add: stored_def wf_rows_inv)
  qed
  then show "n_persistedIndex a = n_applied a"
    "\<exists>p0. stored (sm_wire S) (n_store a) p0 \<and> (case at_index p0 of None \<Rightarrow> tail_records S recs | Some i \<Rightarrow> i = n_applied a)" by blast+
qed

text \<open>
  The next boot. The same log, continued by records without a snapshot, is replayed with the durable store and, for comparison, without
  one: the two come up as twins, and the durable store is at least as far as the snapshot.
\<close>

lemma trusted_boot:
  assumes "sm_db S = db" and "wire (sm_wire S)" and "stored (sm_wire S) s p" and "wf_rows (s_kv s)" and "encodable (sm_wire S) (s_kv s)"
    and "at_index p = Some i" and "\<not> n_usePersisted n" and "tail_records S (tl recs)"
    and "boot_from S None recs n = Some (Up c)" and "n_applied c \<le> i" and "n_applied n \<le> i"
  shows "\<exists>b. boot_from S (Some p) recs n = Some (Up b) \<and> same_conf c b \<and> n_persistedIndex b = i \<and> meta_rows b = tx_mem (s_kv s)"
proof -
  obtain st where st: "openPersistedStore S (Some p) n = Some (n\<lparr>n_store := SetPersister st p, n_usePersisted := True, n_persistedIndex := i\<rparr>)"
    "tx_mem (s_kv st) = tx_mem (s_kv s)"
    using open_trusted [OF assms(1-6)] by blast
  let ?n = "n\<lparr>n_store := SetPersister st p, n_usePersisted := True, n_persistedIndex := i\<rparr>"
  have boot: "boot_from S (Some p) recs n = replay_log S recs ?n" by (simp add: boot_from_def st(1))
  have run: "replay_log S recs n = Some (Up c)" using assms(9) by (simp add: boot_from_def openPersistedStore_def)
  have rows: "meta_rows ?n = tx_mem (s_kv s)" using st(2) by (simp add: SetPersister_def)
  show ?thesis
  proof (cases "tail_records S recs")
    case True
    then obtain r where "c = n\<lparr>n_raft := r\<rparr>" "replay_log S recs ?n = Some (Up (?n\<lparr>n_raft := r\<rparr>))"
      using replay_tail [OF True run] by auto
    with rows show ?thesis unfolding boot by (auto simp: same_conf_def)
  next
    case False
    obtain snap k r where k: "restoreSnapshot S snap n = Some (Some (Running k))" "c = k\<lparr>n_raft := r\<rparr>"
      and tl: "\<And>m k'. restoreSnapshot S snap m = Some (Some (Running k')) \<Longrightarrow> n_raft k' = n_raft k \<Longrightarrow>
        replay_log S recs m = Some (Up (k'\<lparr>n_raft := r\<rparr>))"
      using replay_shape [OF assms(8) False run] by blast
    obtain ss r' st' where ss: "decodeSnapshotData (sm_wire S) (sn_Data snap) = Some (Some ss)"
      "ApplySnapshot (sm_raft S) (n_raft n) snap = Some r'"
      and k': "k = installed snap ss (n\<lparr>n_raft := r', n_store := st', n_persistedIndex := sn_Index snap\<rparr>)"
      using restore_adopts [OF k(1) assms(7)] by blast
    have "sn_Index snap \<le> i" using assms(10) by (simp add: k(2) k' installed_keeps)
    then have "restoreSnapshot S snap ?n = Some (Some (Running (installed snap ss (?n\<lparr>n_raft := r'\<rparr>))))"
      using restore_keeps [OF ss(1), of ?n r'] ss(2) by simp
    from tl [OF this] have "replay_log S recs ?n = Some (Up ((installed snap ss (?n\<lparr>n_raft := r'\<rparr>))\<lparr>n_raft := r\<rparr>))"
      by (simp add: k' installed_keeps)
    moreover have "twins k (installed snap ss (?n\<lparr>n_raft := r'\<rparr>))"
      unfolding k' by (rule installed_twins) (simp add: same_conf_def)
    ultimately show ?thesis using rows unfolding boot k(2) by (auto simp: twins_def same_conf_def installed_keeps)
  qed
qed

text \<open>A log that starts with the same record starts from the same metadata.\<close>

lemma same_start:
  assumes "\<not> n_usePersisted n" and "\<not> n_usePersisted m" and "n_store n = NewStore" and "n_store m = NewStore"
    and "n_applied n = n_applied m" and "n_persistedIndex m = n_applied m"
    and "tail_records S (tl recs @ newer)" and "sm_db S = db" and "good p" and "at_index p = None"
    and "boot_from S (Some p) recs n = Some (Up a)" and "boot_from S None (recs @ newer) m = Some (Up c)"
  shows "meta_rows c = meta_rows a \<and> n_applied c = n_applied a \<and> n_persistedIndex c = n_applied c"
proof -
  let ?n = "n\<lparr>n_store := SetPersister (n_store n) p\<rparr>"
  have run: "replay_log S recs ?n = Some (Up a)" using assms(11) by (simp add: boot_from_def open_fresh [OF assms(8-10)])
  obtain c1 where c1: "replay_log S recs m = Some (Up c1)" "replay_log S newer c1 = Some (Up c)"
    using assms(12) by (auto simp: boot_from_def openPersistedStore_def replay_log_append boot_then_Up)
  have t: "tail_records S (tl recs)" "tail_records S newer" using assms(7) by (simp_all add: tail_records_append)
  obtain r where c: "c = c1\<lparr>n_raft := r\<rparr>" using replay_tail [OF t(2) c1(2)] by blast
  have "meta_rows c1 = meta_rows a \<and> n_applied c1 = n_applied a \<and> n_persistedIndex c1 = n_applied c1"
  proof (cases "tail_records S recs")
    case True
    obtain r1 r2 where "a = ?n\<lparr>n_raft := r1\<rparr>" "c1 = m\<lparr>n_raft := r2\<rparr>"
      using replay_tail [OF True run] replay_tail [OF True c1(1)] by blast
    with assms(3-6) show ?thesis by (simp add: SetPersister_def)
  next
    case False
    then obtain raw rest rec where raw: "recs = raw # rest" "decodeRecord (sm_wire S) (sm_pb S) raw = Some (Some rec)"
      "\<not> IsEmptySnap (sm_pb S) (rec_snap rec)" "tail_records S rest"
      using t(1) by (cases recs) (auto simp: tail_records_def)
    have adopted: "\<exists>ss. decodeSnapshotData (sm_wire S) (sn_Data (rec_snap rec)) = Some (Some (ss :: 'p snapshot_state)) \<and>
        meta_rows y = tx_mem (s_kv (ss_store ss)) \<and> n_applied y = sn_Index (rec_snap rec) \<and> n_persistedIndex y = sn_Index (rec_snap rec)"
      if y: "replay_log S recs x = Some (Up y)" "\<not> n_usePersisted x" for x y
    proof -
      obtain x1 where x1: "replay_record S rec x = Some (Up x1)" "replay_log S rest x1 = Some (Up y)"
        using y(1) raw(2) unfolding raw(1) by (auto simp only: replay_log_Cons)
      obtain k r where k: "restoreSnapshot S (rec_snap rec) x = Some (Some (Running k))" "x1 = k\<lparr>n_raft := r\<rparr>"
        using x1(1) raw(3) by (auto simp: replay_record_Up boot_error_def boot_run_Up split: option.splits)
      from restore_adopts [OF k(1) y(2)] replay_tail [OF raw(4) x1(2)] k(2) show ?thesis by (auto simp: installed_keeps)
    qed
    from adopted [OF run] adopted [OF c1(1)] assms(1,2) show ?thesis by auto
  qed
  then show ?thesis by (simp add: c)
qed

end

section \<open>The two tiers agree\<close>

text \<open>From a durable store that holds what the first entries did, the replay of all the entries ends like the rebuild.\<close>

lemma tiers_meet:
  assumes "commits S" and "each (applyEntry S) xs c = Some (Running c1)" and "each (applyEntry S) ys c1 = Some (Running c')"
    and "same_conf c b" and "meta_rows b = meta_rows c1"
    and "\<forall>e \<in> set xs. e_Index e \<le> n_persistedIndex b" and "\<forall>e \<in> set ys. n_persistedIndex b < e_Index e"
    and "n_persistedIndex c \<le> n_persistedIndex b"
  shows "\<exists>b'. each (applyEntry S) (xs @ ys) b = Some (Running b') \<and> meta_rows b' = meta_rows c' \<and> same_conf c' b'"
proof -
  obtain b1 where b1: "each (applyEntry S) xs b = Some (Running b1)" "same_conf c1 b1" "n_store b1 = n_store b"
    "n_persistedIndex c1 = n_persistedIndex c" "n_persistedIndex b1 = n_persistedIndex b"
    using entries_skipped [OF assms(2,4,6)] by blast
  have m: "meta_rows c1 = meta_rows b1" using assms(5) b1(3) by simp
  have i: "\<forall>e \<in> set ys. n_persistedIndex c1 < e_Index e \<and> n_persistedIndex b1 < e_Index e"
    using assms(7,8) b1(4,5) by (auto intro: le_less_trans)
  obtain b' where b': "each (applyEntry S) ys b1 = Some (Running b')" "same_conf c' b'" "meta_rows c' = meta_rows b'"
    using entries_same [OF assms(1,3) b1(2) m i] by blast
  then show ?thesis using b1(1) by (auto simp: each_append and_then_Some)
qed

lemma boot_tiers:
  assumes "meta_db (sm_db S) held at_index good" and "wire (sm_wire S)" and "commits S"
    and "good p" and "held p = Map.empty" and "at_index p = None"
    and "boot_from S (Some p) recs (new_node S cfg d rng) = Some (Up a0)"
    and "wf_rows (s_kv (n_store a0))" and "formatted (s_kv (n_store a0))"
    and "life S a0 es1 a1" and "s_persist (n_store a1) = Some p1"
    and "wf_rows (s_kv (n_store a1))" and "encodable (sm_wire S) (s_kv (n_store a1))"
    and "tail_records S (tl recs @ newer)"
    and "boot_from S None (recs @ newer) (new_node S cfg' d' rng') = Some (Up c0)"
    and "each (applyEntry S) (es1 @ es2) c0 = Some (Running c)"
    and "sorted_wrt (<) (n_applied a0 # map e_Index (es1 @ es2))"
  shows "\<exists>b0 b. boot_from S (Some p1) (recs @ newer) (new_node S cfg' d' rng') = Some (Up b0) \<and>
    each (applyEntry S) (es1 @ es2) b0 = Some (Running b) \<and> meta_rows b = meta_rows c \<and> same_conf c b"
proof -
  let ?n = "new_node S cfg d rng" and ?m = "new_node S cfg' d' rng'"
  have fresh: "n_store ?n = NewStore" "\<not> n_usePersisted ?n" "n_persistedIndex ?n = n_applied ?n" "n_applied ?n = 0"
    "n_store ?m = NewStore" "\<not> n_usePersisted ?m" "n_persistedIndex ?m = n_applied ?m" "n_applied ?m = 0"
    by (simp_all add: new_node_def)
  have tl: "tail_records S (tl recs)" "tail_records S (tl (recs @ newer))"
    using assms(14) by (cases recs; cases newer; simp add: tail_records_append; simp add: tail_records_def)+
  obtain p0 where pa: "n_persistedIndex a0 = n_applied a0" and p0: "meta_db.stored held good (sm_wire S) (n_store a0) p0"
    "case at_index p0 of None \<Rightarrow> tail_records S recs | Some i \<Rightarrow> i = n_applied a0"
    using meta_db.stored_boot [OF assms(1) refl assms(2,4-6) fresh(1-3) tl(1) assms(7-9)] by blast
  have c0: "meta_rows c0 = meta_rows a0" "n_applied c0 = n_applied a0" "n_persistedIndex c0 = n_applied c0"
    using meta_db.same_start [OF assms(1) fresh(2,6,1,5) _ fresh(7) assms(14) refl assms(4,6,7,15)] fresh(4,8) by simp_all
  have sorted: "sorted_wrt (<) (n_applied a0 # map e_Index es1)" "\<forall>e \<in> set (es1 @ es2). n_applied a0 < e_Index e"
    using assms(17) by (auto simp: sorted_wrt_append)
  have "case at_index p0 of None \<Rightarrow> True | Some i \<Rightarrow> i = n_applied a0" using p0(2) by (auto split: option.splits)
  from meta_db.stored_life [OF assms(1,2) refl p0(1) assms(10) this sorted(1)] assms(11)
  obtain xs ys x where st: "meta_db.stored held good (sm_wire S) (n_store a1) p1" and es: "es1 = xs @ ys"
    and x: "life S a0 xs x" "meta_rows x = meta_rows a1"
    and idx: "case at_index p1 of None \<Rightarrow> xs = [] \<and> at_index p0 = None
     | Some i \<Rightarrow> n_applied a0 \<le> i \<and> (\<forall>e \<in> set xs. e_Index e \<le> i) \<and> (\<forall>e \<in> set ys. i < e_Index e) \<and>
        (xs \<noteq> [] \<longrightarrow> i = e_Index (List.last xs)) \<and> (xs = [] \<longrightarrow> i = n_applied a0)"
    by (auto simp: meta_db.stored_def [OF assms(1)])
  obtain cx where cx: "each (applyEntry S) xs c0 = Some (Running cx)" "each (applyEntry S) (ys @ es2) cx = Some (Running c)"
    using assms(16) by (auto simp: es each_append and_then_Some and_then_assoc)
  have above: "\<forall>e \<in> set xs. n_persistedIndex a0 < e_Index e \<and> n_persistedIndex c0 < e_Index e"
    using sorted(2) pa c0(2,3) by (simp add: es)
  have rows: "meta_rows x = meta_rows cx" using life_rows [OF assms(3) x(1) cx(1) c0(1) [symmetric] above] .
  show ?thesis
  proof (cases "at_index p1")
    case None
    have empty: "tail_records S (recs @ newer)" using None idx p0(2) assms(14) by (auto simp: tail_records_append)
    let ?b = "?m\<lparr>n_store := SetPersister (n_store ?m) p1\<rparr>"
    have g: "good p1" using st by (simp add: meta_db.stored_def [OF assms(1)])
    have "replay_log S (recs @ newer) ?m = Some (Up c0)" using assms(15) by (simp add: boot_from_def openPersistedStore_def)
    from replay_tail [OF empty this] obtain r where r: "c0 = ?m\<lparr>n_raft := r\<rparr>" "replay_log S (recs @ newer) ?b = Some (Up (?b\<lparr>n_raft := r\<rparr>))"
      by auto
    have "boot_from S (Some p1) (recs @ newer) ?m = Some (Up (?b\<lparr>n_raft := r\<rparr>))"
      using r(2) by (simp add: boot_from_def meta_db.open_fresh [OF assms(1) refl g None])
    moreover have "\<exists>b. each (applyEntry S) (es1 @ es2) (?b\<lparr>n_raft := r\<rparr>) = Some (Running b) \<and> same_conf c b \<and> meta_rows c = meta_rows b"
      by (rule entries_same [OF assms(3,16)]) (use sorted(2) c0(2,3) r(1) in \<open>auto simp: same_conf_def SetPersister_def\<close>)
    ultimately show ?thesis by auto
  next
    case (Some i)
    have i: "n_applied a0 \<le> i" "\<forall>e \<in> set xs. e_Index e \<le> i" "\<forall>e \<in> set ys. i < e_Index e" using Some idx by auto
    have "i < e_Index e" if "e \<in> set es2" for e
      using Some idx assms(17) that by (cases xs rule: rev_cases) (auto simp: es sorted_wrt_append)
    then have above2: "\<forall>e \<in> set (ys @ es2). i < e_Index e" using i(3) by auto
    obtain b0 where b0: "boot_from S (Some p1) (recs @ newer) ?m = Some (Up b0)" "same_conf c0 b0" "n_persistedIndex b0 = i"
      "meta_rows b0 = meta_rows a1"
      using meta_db.trusted_boot [OF assms(1) refl assms(2) st assms(12,13) Some fresh(6) tl(2) assms(15)] i(1) c0(2) fresh(8) by auto
    have "meta_rows b0 = meta_rows cx" using b0(4) x(2) rows by simp
    from tiers_meet [OF assms(3) cx b0(2) this] i(1,2) above2 b0(1,3) c0(2,3) show ?thesis by (auto simp: es)
  qed
qed

end
