(* ===== verification/Raft_Members.thy ===== *)
theory Raft_Members
  imports Raft_Properties Raft_Durable
begin

text \<open>
  The properties of a replica that are not about its log: the two tiers of boot, the answers to proposals, the
  tombstones of removed members, and the disaster exit.
\<close>

section \<open>The two tiers of boot\<close>

text \<open>
  C8: Booting from the durable store and rebuilding from the log agree. A replica comes up on an empty durable store and a log
  \<open>recs\<close> and applies the entries \<open>es1\<close>, with anything in between that leaves its metadata alone; then it stops, and its durable store is
  as the last commit left it. At its next boot the log is \<open>recs\<close> with further records behind it. A boot with that durable store succeeds
  whenever one without a durable store does, then applies the entries \<open>es1 @ es2\<close> that the log hands out again, and ends with the rows,
  the address book, the tombstones and the configuration of the replica that rebuilt everything from the log. (Only the first record of a
  log carries a snapshot; the indexes of the entries increase from that of the snapshot on; the rows are well-formed and fit in memory;
  no commit fails.)
\<close>

theorem tiers_agree:
  assumes "meta_db (sm_db S) held at_index good" and "wire (sm_wire S)" and "commits S"
    and "good p" and "held p = Map.empty" and "at_index p = None"
    and "boot_from S (Some p) recs (new_node S cfg d rng) = Some (Up a0)"
    and "wf_rows (s_kv (n_store a0))" and "formatted (s_kv (n_store a0))"
    and "life S a0 es1 a1" and "s_persist (n_store a1) = Some p1"
    and "wf_rows (s_kv (n_store a1))" and "encodable (sm_wire S) (s_kv (n_store a1))"
    and "tail_records S (tl recs @ newer)"
    and "boot_from S None (recs @ newer) (new_node S cfg' d' rng') = Some (Up c0)"
    and "each (applyEntry S) (es1 @ es2) c0 = Some (Running c)"
    and "sorted_wrt (<) (n_applied a0 # map e_Index (es1 @ es2))"
  shows "\<exists>b0 b. boot_from S (Some p1) (recs @ newer) (new_node S cfg' d' rng') = Some (Up b0) \<and>
    each (applyEntry S) (es1 @ es2) b0 = Some (Running b) \<and> meta_rows b = meta_rows c \<and>
    n_peers b = n_peers c \<and> n_removed b = n_removed c \<and> n_confState b = n_confState c"
  using boot_tiers [OF assms] by (auto simp: same_conf_def)

text \<open>A replica over the adapter and a database in memory.\<close>

definition durable_script :: "(bytes Ready list, bytes, disk list, (gostring, bytes) fmap) seams" where
  "durable_script = \<lparr>sm_wire = ref_wire, sm_raft = script_raft, sm_disk = journal sim_disk, sm_db = MetaDB mem_badger\<rparr>"

lemma durable_script_simps [simp]: "sm_wire durable_script = ref_wire" "sm_db durable_script = MetaDB mem_badger"
  by (simp_all add: durable_script_def)

lemma durable_script_commits: "commits durable_script"
  by (simp add: commits_def MetaDB_def MetaDB_CommitAt_def mem_badger_def)

definition demo_create2 :: CreateBucket where
  "demo_create2 = demo_create\<lparr>cb_Bucket := str ''xyz''\<rparr>"

definition create_entry :: "u64 \<Rightarrow> u64 \<Rightarrow> CreateBucket \<Rightarrow> Entry" where
  "create_entry t i c = \<lparr>e_Term = t, e_Index = i, e_Type = EntryNormal, e_Data = EncodeProposal ref_wire (P_CreateBucket c)\<rparr>"

lemma demo_decodes:
  "DecodeProposal ref_wire (EncodeProposal ref_wire (P_CreateBucket demo_create)) = Some (Some (P_CreateBucket demo_create))"
  "DecodeProposal ref_wire (EncodeProposal ref_wire (P_CreateBucket demo_create2)) = Some (Some (P_CreateBucket demo_create2))"
  by (rule wire.DecodeProposal_EncodeProposal [OF ref.wire_axioms]; code_simp)+

lemma demo_data: "EncodeProposal ref_wire (P_CreateBucket demo_create) \<noteq> []" "EncodeProposal ref_wire (P_CreateBucket demo_create2) \<noteq> []"
  by code_simp+

lemma commits_result:
  assumes "commits S" and "Apply_body c (tx_reset (s_kv s)) = (t, Inr x)"
  shows "snd (Apply pw (indexed_Commit S i) c s) = Inr x" "s_kv (fst (Apply pw (indexed_Commit S i) c s)) = t"
  using assms(1) by (simp_all add: Apply_eq [OF assms(2)] commits_def indexed_Commit_def split: option.split)

text \<open>What applying an entry of the demonstration does.\<close>

lemma create_applied:
  assumes "commits S" and "sm_wire S = ref_wire" and "Apply_body (P_CreateBucket c) (tx_reset (s_kv (n_store n))) = (t, Inr R_Nil)"
    and "DecodeProposal ref_wire (EncodeProposal ref_wire (P_CreateBucket c)) = Some (Some (P_CreateBucket c))"
    and "EncodeProposal ref_wire (P_CreateBucket c) \<noteq> []" and "n_persistedIndex n < i"
  shows "\<exists>n'. applyEntry S (create_entry tm i c) n = Some (Running n') \<and> s_kv (n_store n') = t \<and> n_persistedIndex n' = n_persistedIndex n"
  using commits_result [OF assms(1,3), of ref_wire i] assms(2,4,5) assms(6) [folded not_le]
  by (simp add: applyEntry_def apply_normal_def create_entry_def Let_def case_prod_beta settle_waiters_def)

lemma demo_resets: "tx_reset newTxKV = newTxKV" "\<exists>t. Apply_body (P_CreateBucket demo_create2) (tx_reset demo_kv1) = (t, Inr R_Nil)"
proof -
  show "tx_reset newTxKV = newTxKV" by (simp add: tx_reset_def newTxKV_def)
  have "snd (Apply_body (P_CreateBucket demo_create2) (tx_reset demo_kv1)) = Inr R_Nil" by code_simp
  then show "\<exists>t. Apply_body (P_CreateBucket demo_create2) (tx_reset demo_kv1) = (t, Inr R_Nil)" by (metis prod.collapse)
qed

lemma stored_persist: "meta_db db held at_index good \<Longrightarrow> meta_db.stored held good pw s p \<Longrightarrow> s_persist s = Some p"
  by (simp add: meta_db.stored_def)

theorem tiers_agree_witness:
  "\<exists>p1 b0 b. boot_from durable_script (Some p1) [] (new_node durable_script script_config [demo_disk] []) = Some (Up b0) \<and>
    each (applyEntry durable_script) [create_entry 1 1 demo_create, create_entry 1 2 demo_create2] b0 = Some (Running b) \<and>
    tx_get (s_kv (n_store b)) (bucketRowKey demo_bucket) \<noteq> None"
proof -
  let ?S = durable_script and ?n = "new_node durable_script script_config [demo_disk] []"
  let ?e1 = "create_entry 1 1 demo_create" and ?e2 = "create_entry 1 2 demo_create2"
  let ?a0 = "?n\<lparr>n_store := SetPersister NewStore fmempty\<rparr>"
  note db = membadger.adapter.meta_db_axioms
  have n: "n_store ?n = NewStore" "n_persistedIndex ?n = 0" "n_applied ?n = 0" "s_kv NewStore = newTxKV"
    by (simp_all add: new_node_def NewStore_def)
  have fresh: "db_good fmlookup (\<lambda>_. True) fmempty" "db_held fmlookup fmempty = Map.empty" "db_index fmlookup fmempty = None"
    by (simp_all add: db_good_def db_held_def db_index_def fun_eq_iff)
  have up: "boot_from ?S (Some fmempty) [] ?n = Some (Up ?a0)" "boot_from ?S None [] ?n = Some (Up ?n)"
    using membadger.adapter.open_fresh [of ?S fmempty ?n] fresh n(1) by (simp_all add: boot_from_def up_def openPersistedStore_def)
  have kv: "s_kv (n_store ?a0) = newTxKV" by (simp add: SetPersister_def n(4))
  note c1 = create_applied [OF durable_script_commits durable_script_simps(1) _ demo_decodes(1) demo_data(1), of _ demo_kv1 1 1]
  note c2 = create_applied [OF durable_script_commits durable_script_simps(1) _ demo_decodes(2) demo_data(2), where i = 2 and tm = 1]
  have created: "Apply_body (P_CreateBucket demo_create) (tx_reset newTxKV) = (demo_kv1, Inr R_Nil)"
    unfolding demo_resets(1) by (rule demo_create_ok)
  obtain a1 where a1: "applyEntry ?S ?e1 ?a0 = Some (Running a1)" "s_kv (n_store a1) = demo_kv1"
    using c1 [of ?a0, unfolded kv, OF created] n(2) by auto
  obtain m1 where m1: "applyEntry ?S ?e1 ?n = Some (Running m1)" "s_kv (n_store m1) = demo_kv1" "n_persistedIndex m1 = 0"
    using c1 [of ?n, unfolded n(1,4), OF created] n(2) by auto
  obtain t where t: "Apply_body (P_CreateBucket demo_create2) (tx_reset demo_kv1) = (t, Inr R_Nil)" using demo_resets(2) by blast
  obtain m2 where m2: "applyEntry ?S ?e2 m1 = Some (Running m2)" "s_kv (n_store m2) = t" using c2 [of m1 t, unfolded m1(2), OF t] m1(3) by auto
  have life: "life ?S ?a0 [?e1] a1" using life.applied [OF life.came_up refl refl a1(1)] by simp
  have "membadger.adapter.stored ref_wire (n_store ?a0) fmempty"
    using fresh(1,2) by (simp add: membadger.adapter.stored_def SetPersister_def NewStore_def encoded_def formatted_def newTxKV_def
        tx_get_eq fun_eq_iff)
  from membadger.adapter.stored_entry [of ?S ?a0 fmempty, OF _ _ _ a1(1)] this
  obtain p1 where p1: "s_persist (n_store a1) = Some p1"
    using ref.wire_axioms stored_persist [OF db] by auto
  have wf: "wf_rows demo_kv1" "wf_rows newTxKV" "formatted newTxKV" "encodable ref_wire demo_kv1"
    using demo_inv(1) [of 0] store_invD(1) start_store_inv [of 0] demo_kv1_encodable
    by (auto simp: SetPersister_def NewStore_def formatted_def newTxKV_def tx_get_eq)
  have two: "each (applyEntry ?S) ([?e1] @ [?e2]) ?n = Some (Running m2)" using m1(1) m2(1) by (simp add: and_then_Some)
  have sorted: "sorted_wrt (<) (n_applied ?a0 # map e_Index ([?e1] @ [?e2]))" by (simp add: n(3) create_entry_def)
  have up2: "boot_from ?S None ([] @ []) ?n = Some (Up ?n)" using up(2) by simp
  have "tail_records ?S (tl [] @ [])" by (simp add: tail_records_def)
  note r = tiers_agree [OF db [folded durable_script_simps(2)] _ durable_script_commits fresh up(1) _ _ life p1 _ _ this up2 two sorted]
  obtain b0 b where b: "boot_from ?S (Some p1) [] ?n = Some (Up b0)" "each (applyEntry ?S) [?e1, ?e2] b0 = Some (Running b)"
    "meta_rows b = meta_rows m2"
    using r wf kv a1(2) ref.wire_axioms by auto
  have "tx_get t (bucketRowKey demo_bucket) \<noteq> None"
  proof -
    have "tx_get (fst (Apply_body (P_CreateBucket demo_create2) (tx_reset demo_kv1))) (bucketRowKey demo_bucket) \<noteq> None" by code_simp
    then show ?thesis unfolding t fst_conv .
  qed
  then have "tx_get (s_kv (n_store b)) (bucketRowKey demo_bucket) \<noteq> None" using m2(2) b(3) by (simp add: tx_get_eq)
  with b show ?thesis by blast
qed

section \<open>Answers to proposals\<close>

text \<open>
  C30: A callback may be answered with the outcome of somebody else's proposal. A leader that appended its own proposal at an
  index and then lost the leadership keeps the callback under that index; when the entry of another leader
  commits there, whatever it proposes, the callback gets the result of that entry.
\<close>

theorem stale_waiter_answered:
  assumes "n_proposing n = [c]" and "fmlookup (n_waiters n) i = None" and "n_persistedIndex n < i"
    and "e_Index e1 = i" and "e_Type e1 = EntryNormal" and "e_Data e1 \<noteq> []"
    and "e_Index e2 = i" and "e_Type e2 = EntryNormal" and "e_Data e2 \<noteq> []"
    and "DecodeProposal (sm_wire S) (e_Data e2) = Some (Some q)"
    and "Apply (sm_wire S) (indexed_Commit S i) q (n_store n) = (st, r)" and "r \<noteq> Inl ErrPersist"
  shows "\<exists>n'. applyEntry S e2 (claimIndexes [e2] (claimIndexes [e1] n)) = Some (Running n') \<and>
    n_out n' = n_out n @ [Done c (Applied r)]"
  using assms(1,2,4-) assms(3) [folded not_le] by (simp add: applyEntry_def apply_normal_def settle_waiters_def Let_def)

text \<open>The proposal for the bucket \<open>abc\<close> is reported done, and the bucket does not exist.\<close>

theorem stale_waiter_answered_witness:
  "\<exists>n'. applyEntry script (create_entry 2 1 demo_create2) (claimIndexes [create_entry 2 1 demo_create2]
      (claimIndexes [create_entry 1 1 demo_create] (script_node\<lparr>n_proposing := [7]\<rparr>))) = Some (Running n') \<and>
    n_out n' = [Done 7 (Applied (Inr R_Nil))] \<and>
    GetBucket (s_kv (fst (Apply ref_wire (indexed_Commit script 1) (P_CreateBucket demo_create2) NewStore))) demo_bucket = Inr None"
proof -
  have s: "n_store script_node = NewStore" "n_persistedIndex script_node = 0" "n_waiters script_node = fmempty" "n_out script_node = []"
    by (simp_all add: script_node_def new_node_def)
  have r: "snd (Apply ref_wire (indexed_Commit script 1) (P_CreateBucket demo_create2) NewStore) = Inr R_Nil"
    and g: "GetBucket (s_kv (fst (Apply ref_wire (indexed_Commit script 1) (P_CreateBucket demo_create2) NewStore))) demo_bucket = Inr None"
    by code_simp+
  obtain st where "Apply ref_wire (indexed_Commit script 1) (P_CreateBucket demo_create2) NewStore = (st, Inr R_Nil)"
    using r by (metis prod.collapse)
  with stale_waiter_answered [of "script_node\<lparr>n_proposing := [7]\<rparr>" 7 1 "create_entry 1 1 demo_create" "create_entry 2 1 demo_create2" script
      "P_CreateBucket demo_create2" st "Inr R_Nil"] demo_decodes(2) demo_data s g
  show ?thesis by (simp add: create_entry_def)
qed

section \<open>Removed members\<close>

text \<open>
  C25: A removed member stays out. Whatever events a node handles, an ID it has tombstoned stays
  tombstoned, and as long as the ID is not in the configuration, an admission request for it, from the wire or from
  the operator, changes nothing.
\<close>

theorem removed_never_readmitted:
  assumes "wire (sm_wire S)" and "(node_step S)\<^sup>*\<^sup>* n n'" and "i |\<in>| n_removed n" and "\<not> isMember n' i"
    and "go_sized (pi_node info)" and "go_sized (pi_dial info)" and "go_sized (encodeMember (sm_wire S) i info)"
  shows "i |\<in>| n_removed n' \<and> AddNode S i (pi_node info) (pi_dial info) n' = (go_on n', False) \<and>
    HandleMessage S now (encodeEnvelope (sm_wire S) kindAdmit (encodeMember (sm_wire S) i info)) n' = go_on n'"
proof -
  have r: "i |\<in>| n_removed n'" using node_steps_later [OF assms(2)] assms(3) by (auto simp: later_def)
  then have a: "AddNode S i (pi_node info) (pi_dial info) n' = (go_on n', False)" using assms(4) by (simp add: AddNode_def)
  moreover have "HandleMessage S now (encodeEnvelope (sm_wire S) kindAdmit (encodeMember (sm_wire S) i info)) n' = go_on n'"
    using a wire.decodeEnvelope_encodeEnvelope [OF assms(1,7)] wire.decodeMember_encodeMember [OF assms(1,5,6)]
    by (simp add: HandleMessage_def kindAdmit_def kindRaft_def)
  ultimately show ?thesis using r by blast
qed

theorem removed_never_readmitted_witness:
  "HandleMessage script 5 (encodeEnvelope ref_wire kindAdmit (encodeMember ref_wire 7 \<lparr>pi_node = [1], pi_dial = []\<rparr>))
    (script_node\<lparr>n_removed := {|7|}\<rparr>) = go_on (script_node\<lparr>n_removed := {|7|}\<rparr>)"
proof -
  let ?n = "script_node\<lparr>n_removed := {|7|}\<rparr>"
  have m: "\<not> isMember ?n 7" by (simp add: isMember_def script_node_def new_node_def zeroConfState_def)
  have g: "go_sized (encodeMember ref_wire 7 \<lparr>pi_node = [1], pi_dial = []\<rparr>)" "go_sized [1 :: byte]" by code_simp+
  from removed_never_readmitted [of script ?n ?n 7 "\<lparr>pi_node = [1], pi_dial = []\<rparr>"] m g ref.wire_axioms show ?thesis by simp
qed

section \<open>The disaster exit\<close>

text \<open>A stopped disk with one log file is loaded as it is.\<close>

lemma survivor_loads:
  assumes "sm_disk S = journal sim_disk" and "node_log d seq recs" and "dk_staged d = fmempty"
  shows "map_option sort (log_seqs (disk_List d)) = Some [seq]" "survivor_load S [seq] [d] = Some ([d], Some recs)"
proof -
  have n: "log_files d {seq}" "disk_durable d (logName seq) = Some (log_bytes recs)" "intact recs" "disk_clean d (logName seq)"
    using assms(2) by (simp_all add: node_log_def)
  have "{s \<in> {seq}. disk_durable d (logName s) \<noteq> None} = {seq}" using n(2) by auto
  with restart_seqs [OF n(1) assms(3)] show "map_option sort (log_seqs (disk_List d)) = Some [seq]" by auto
  have "read_frames (log_bytes recs) 0 [] = (length (log_bytes recs), recs)"
    using read_frames_log [OF n(3), of "[]" "[]" "[]"] by simp
  moreover have "ReadFile (journal sim_disk) [d] (logName seq) = Inr (log_bytes recs)"
    using sim.read_clean [of "logName seq" d] n by (simp add: journal_def)
  ultimately have "Log_Open (journal sim_disk) [d] (logName seq) = ([d], Inr recs)" by (simp add: Log_Open_def)
  then show "survivor_load S [seq] [d] = Some ([d], Some recs)" using assms(1) by (simp add: validLog_def)
qed

text \<open>
  C24: \<^verbatim>\<open>ForceNewCluster\<close> leaves a cluster of one. On the stopped disk of a survivor whose log replays to the state
  \<open>v\<close>, it succeeds, and the only log left holds one frame: the node alone as voter, the last index of its log as
  snapshot index and commit index, and a snapshot that decodes to every row of \<open>v\<close>, to an address book of the node alone and to the
  tombstones of \<open>v\<close>. A crash anywhere on the way leaves the old log or that frame.
\<close>

theorem force_new_cluster_of_one:
  assumes "raft_codec (sm_wire S) (sm_pb S)" and "sm_disk S = journal sim_disk"
    and "node_log d seq recs" and "dk_staged d = fmempty" and "seq < seq + 1"
    and "survivor_state S recs = Some (Some (v, hs, lastI, lastTerm))" and "lastI \<noteq> 0"
    and "wf_rows (s_kv (sv_store v))" and "encodable (sm_wire S) (s_kv (sv_store v))"
    and "self = \<lparr>pi_node = node, pi_dial = dial\<rparr>" and "survivor_frame S me self (v, hs, lastI, lastTerm) = Some rec"
    and "snapshot_fits (sm_wire S) (the (Dump (sm_wire S) (sv_store v))) (fmupd me self fmempty)"
    and "encodeRecord (sm_wire S) (sm_pb S) rec = Some x" and "length x \<le> MaxInt32" and "raft_codec.record_fits (sm_pb S) rec"
  shows "\<exists>ds sm (ss :: 'q snapshot_state).
    ForceNewCluster S me node dial [d] = Some (ds, Recovered sm) \<and> sum_LastIndex sm = lastI \<and>
    node_log (hd ds) (seq + 1) [x] \<and> decodeRecord (sm_wire S) (sm_pb S) x = Some (Some rec) \<and>
    cs_Voters (sn_ConfState (rec_snap rec)) = [me] \<and> cs_Learners (sn_ConfState (rec_snap rec)) = [] \<and>
    sn_Index (rec_snap rec) = lastI \<and> hs_Commit (rec_hs rec) = lastI \<and>
    decodeSnapshotData (sm_wire S) (sn_Data (rec_snap rec)) = Some (Some ss) \<and>
    tx_mem (s_kv (ss_store ss)) = tx_mem (s_kv (sv_store v)) \<and> ss_members ss = fmupd me self fmempty \<and> ss_removed ss = sv_gone v \<and>
    (\<forall>d' \<in> set ds. \<forall>rng. restart_log S (disk_crash d' rng) \<in> {Some recs, Some [x]})"
proof -
  obtain rows where rows: "Dump (sm_wire S) (sv_store v) = Some rows" and rec: "rec =
      \<lparr>rec_hs = \<lparr>hs_Term = hs_Term hs, hs_Vote = hs_Vote hs, hs_Commit = lastI\<rparr>, rec_entries = [],
       rec_snap = \<lparr>sn_Data = encodeSnapshotData (sm_wire S) rows (fmupd me self fmempty) (sv_gone v),
         sn_ConfState = zeroConfState\<lparr>cs_Voters := [me]\<rparr>, sn_Index = lastI, sn_Term = lastTerm\<rparr>\<rparr>"
    using assms(11) by (auto simp: survivor_frame_def)
  have i: "sn_Index (rec_snap rec) \<noteq> 0" using assms(7) by (simp add: rec)
  note v = frame_valid [OF assms(1,13,15) i]
  have w: "wire (sm_wire S)" using assms(1) by (rule raft_codec.axioms)
  obtain ss :: "'q snapshot_state" where ss: "decodeSnapshotData (sm_wire S) (sn_Data (rec_snap rec)) = Some (Some ss)"
    "tx_mem (s_kv (ss_store ss)) = tx_mem (s_kv (sv_store v))" "ss_members ss = fmupd me self fmempty" "ss_removed ss = sv_gone v"
    using snapshot_decoded [OF w assms(8,9) rows, of "fmupd me self fmempty" "sv_gone v"] assms(12) rows by (auto simp: rec)
  obtain d4 dn where f: "force_write S [seq] rec (survivor_summary me (v, hs, lastI, lastTerm)) [d] =
      (d4 # dn @ [], Recovered (survivor_summary me (v, hs, lastI, lastTerm)))"
    "node_log d4 (seq + 1) [x]" "\<forall>d' \<in> set (d4 # dn). old_or_new S recs x d'"
    using force_write_states [OF assms(2,3,5,13,14) v(2)] by blast
  have l: "ListNames (sm_disk S) [d] = Inr (disk_List d)" using assms(2) by (simp add: journal_def sim_disk_def)
  have "ForceNewCluster S me node dial [d] = Some (d4 # dn, Recovered (survivor_summary me (v, hs, lastI, lastTerm)))"
    using f(1) assms(6,10,11) by (simp add: ForceNewCluster_def l survivor_loads [OF assms(2-4)] del: survivor_load.simps)
  moreover have "sum_LastIndex (survivor_summary me (v, hs, lastI, lastTerm)) = lastI" by (simp add: survivor_summary_def)
  moreover have "\<forall>d' \<in> set (d4 # dn). \<forall>rng. restart_log S (disk_crash d' rng) \<in> {Some recs, Some [x]}"
    using f(3) by (simp add: old_or_new_def)
  ultimately show ?thesis using f(2) v(1) ss by (intro exI [of _ "d4 # dn"] exI [of _ "survivor_summary me (v, hs, lastI, lastTerm)"] exI [of _ ss])
      (simp add: rec zeroConfState_def)
qed

text \<open>The survivor: a log whose one record holds a snapshot of the demonstration store.\<close>

definition demo_rows :: "Row list" where
  "demo_rows = the (Dump ref_wire script_store)"

definition last_record :: "(u64, peerInfo) fmap \<Rightarrow> u64 list \<Rightarrow> raft_record" where
  "last_record members voters = \<lparr>rec_hs = \<lparr>hs_Term = 1, hs_Vote = 1, hs_Commit = 3\<rparr>, rec_entries = [],
     rec_snap = \<lparr>sn_Data = encodeSnapshotData ref_wire demo_rows members {|7|},
       sn_ConfState = zeroConfState\<lparr>cs_Voters := voters\<rparr>, sn_Index = 3, sn_Term = 1\<rparr>\<rparr>"

definition demo_self :: peerInfo where
  "demo_self = \<lparr>pi_node = str ''a'', pi_dial = []\<rparr>"

lemma last_record_ok:
  "\<exists>x. encodeRecord ref_wire ref_pb (last_record script_members [1, 2]) = Some x \<and> length x \<le> MaxInt32"
  "\<exists>x. encodeRecord ref_wire ref_pb (last_record (fmupd 1 demo_self fmempty) [1]) = Some x \<and> length x \<le> MaxInt32"
  "ref_raft.record_fits (last_record script_members [1, 2])"
  "ref_raft.record_fits (last_record (fmupd 1 demo_self fmempty) [1])"
  "snapshot_fits ref_wire demo_rows (fmupd 1 demo_self fmempty)"
proof -
  have "case encodeRecord ref_wire ref_pb (last_record script_members [1, 2]) of Some x \<Rightarrow> int (length x) \<le> 2147483647 | None \<Rightarrow> False"
    "case encodeRecord ref_wire ref_pb (last_record (fmupd 1 demo_self fmempty) [1]) of Some x \<Rightarrow> int (length x) \<le> 2147483647 | None \<Rightarrow> False"
    by code_simp+
  then show "\<exists>x. encodeRecord ref_wire ref_pb (last_record script_members [1, 2]) = Some x \<and> length x \<le> MaxInt32"
    "\<exists>x. encodeRecord ref_wire ref_pb (last_record (fmupd 1 demo_self fmempty) [1]) = Some x \<and> length x \<le> MaxInt32"
    by (auto simp: MaxInt32_def split: option.splits)
  have "case Marshal_HardState ref_pb (rec_hs (last_record script_members [1, 2])) of Some b \<Rightarrow> go_sized b | None \<Rightarrow> True"
    "case Marshal_Snapshot ref_pb (rec_snap (last_record script_members [1, 2])) of Some b \<Rightarrow> go_sized b | None \<Rightarrow> True"
    "case Marshal_Snapshot ref_pb (rec_snap (last_record (fmupd 1 demo_self fmempty) [1])) of Some b \<Rightarrow> go_sized b | None \<Rightarrow> True"
    by code_simp+
  then show "ref_raft.record_fits (last_record script_members [1, 2])" "ref_raft.record_fits (last_record (fmupd 1 demo_self fmempty) [1])"
    by (simp_all add: ref_raft.record_fits_def last_record_def split: option.splits)
  show "snapshot_fits ref_wire demo_rows (fmupd 1 demo_self fmempty)" by code_simp
qed

theorem force_new_cluster_of_one_witness:
  "\<exists>d x ds sm. node_log d 1 [x] \<and> ForceNewCluster script 1 (str ''a'') [] [d] = Some (ds, Recovered sm) \<and> sum_LastIndex sm = 3"
proof -
  obtain x0 where x0: "encodeRecord ref_wire ref_pb (last_record script_members [1, 2]) = Some x0" "length x0 \<le> MaxInt32"
    using last_record_ok(1) by blast
  obtain x where x: "encodeRecord ref_wire ref_pb (last_record (fmupd 1 demo_self fmempty) [1]) = Some x" "length x \<le> MaxInt32"
    using last_record_ok(2) by blast
  let ?d = "\<lparr>dk_durable = fmupd (logName 1) (log_bytes [x0]) fmempty, dk_staged = fmempty\<rparr>"
  have d: "node_log ?d 1 [x0]"
    using x0(2) by (auto simp: node_log_def log_files_def possible_def disk_clean_def disk_durable_def intact_def split: if_splits)
  have dec: "decodeRecord ref_wire ref_pb x0 = Some (Some (last_record script_members [1, 2]))"
    using ref_raft.decodeRecord_encodeRecord [OF x0(1) last_record_ok(3)] by (simp add: last_record_def)
  have rows: "Dump ref_wire script_store = Some demo_rows" "snapshot_fits ref_wire demo_rows script_members"
    using demo_store_ok(3) by (auto simp: demo_rows_def)
  obtain ss :: "(Row list \<times> u64) snapshot_state" where
    ss: "decodeSnapshotData ref_wire (encodeSnapshotData ref_wire demo_rows script_members {|7|}) = Some (Some ss)"
    "tx_mem (s_kv (ss_store ss)) = tx_mem demo_kv1" "ss_removed ss = {|7|}"
    using snapshot_decoded [OF ref.wire_axioms demo_store_ok(1,2) rows, of "{|7|}"] by (auto simp: script_store_def)
  define v where "v = \<lparr>sv_raft = ([] :: bytes Ready list), sv_store = ss_store ss, sv_peers = ss_members ss, sv_gone = ss_removed ss\<rparr>"
  have st: "survivor_state script [x0] = Some (Some (v, \<lparr>hs_Term = 1, hs_Vote = 1, hs_Commit = 0\<rparr>, 3, 1))"
    using dec ss(1) by (simp add: survivor_state_def survivor_record_def script_raft_def ref_pb_def last_record_def v_def zeroHardState_def)
  have wf: "wf_rows (s_kv (sv_store v))" "encodable ref_wire (s_kv (sv_store v))" "tx_inv (s_kv (sv_store v))"
    using demo_store_ok(1,2) ss(2) by (simp_all add: v_def wf_rows_def encodable_def tx_get_eq script_store_def)
  have dump: "Dump ref_wire (sv_store v) = Some demo_rows"
    using wire.Dump_eq [OF ref.wire_axioms wf(3)] wire.Dump_eq [OF ref.wire_axioms, of script_store] rows(1) ss(2) wf(3)
    by (simp add: v_def script_store_def tx_get_eq)
  have fr: "survivor_frame script 1 demo_self (v, \<lparr>hs_Term = 1, hs_Vote = 1, hs_Commit = 0\<rparr>, 3, 1) = Some (last_record (fmupd 1 demo_self fmempty) [1])"
    using dump ss(3) by (simp add: survivor_frame_def last_record_def v_def)
  have pre: "sm_disk script = journal sim_disk" "dk_staged ?d = fmempty" "(1 :: u64) < 1 + 1" "(3 :: u64) \<noteq> 0"
    "encodable (sm_wire script) (s_kv (sv_store v))" "demo_self = \<lparr>pi_node = str ''a'', pi_dial = []\<rparr>"
    "snapshot_fits (sm_wire script) (the (Dump (sm_wire script) (sv_store v))) (fmupd 1 demo_self fmempty)"
    "encodeRecord (sm_wire script) (sm_pb script) (last_record (fmupd 1 demo_self fmempty) [1]) = Some x"
    "raft_codec.record_fits (sm_pb script) (last_record (fmupd 1 demo_self fmempty) [1])"
    using wf(2) dump x(1) last_record_ok(4,5) by (simp_all add: demo_self_def)
  from force_new_cluster_of_one [OF script_codec pre(1) d pre(2,3) st pre(4) wf(1) pre(5,6) fr pre(7,8) x(2) pre(9)] d
  show ?thesis by auto
qed

end
