(* ===== verification/Spec2Isabelle.thy ===== *)
theory Spec2Isabelle
  imports Meta_Run Object_Effects Listing_Properties System_Properties Storage_Properties Place_Properties
    Stream_Properties Erasure_Properties Datapath_Properties Blob
    Raft_Members
begin

text \<open>
  Hamster is an S3-compatible object store. A coordinator splits an object into erasure-coded
  shards on several nodes and commits its metadata through Raft; every replica applies the same
  proposals to the same deterministic metadata store, and persists the rows each one changed.
  This development verifies the metadata core and its storage (\<^verbatim>\<open>src/internal/meta\<close>,
  \<^verbatim>\<open>src/internal/wal\<close> and the crash-faithful disk of \<^verbatim>\<open>src/internal/sim\<close>), the placement of shards
  (\<^verbatim>\<open>src/internal/place\<close>), the framed object stream (\<^verbatim>\<open>src/internal/stream\<close>), erasure coding
  (\<^verbatim>\<open>src/internal/ec\<close>), the transfer of shards between nodes (\<^verbatim>\<open>src/internal/datapath\<close>), the blob store of a single
  node (\<^verbatim>\<open>src/internal/blob\<close>) and the replica that drives the consensus library over its log (\<^verbatim>\<open>src/internal/raftnode\<close>).

  \<^bold>\<open>Parts and theories.\<close>

  \<^item> \<open>Hamster_Prelude\<close>: Go integers as words (\<^verbatim>\<open>int64\<close> is a 64-bit word read with \<open>sint\<close> where it is
    ordered), byte strings, big-endian bytes, errors as the left side of a sum.
  \<^item> \<open>Meta_Vid\<close> (\<^verbatim>\<open>meta/vid.go\<close>), \<open>Meta_Keys\<close> (\<^verbatim>\<open>meta/keys.go\<close>), \<open>Meta_KV\<close> (\<^verbatim>\<open>meta/kv.go\<close> and the
    recording store of \<^verbatim>\<open>meta/persist.go\<close>): version identifiers, the row-key encoding, and the sorted
    in-memory store with its undo log. The locale \<open>ordered_kv\<close> is the interface of a store with an
    ordered scan, interpreted on \<open>memKV\<close> and on \<open>txKV\<close>.
  \<^item> \<open>Go_Time\<close>: what the code uses of \<^verbatim>\<open>time.AddDate\<close>. \<open>Meta_Records\<close>, \<open>Meta_Proposals\<close>, \<open>Meta_Reads\<close>,
    \<open>Meta_Apply\<close>, \<open>Meta_Multipart\<close>, \<open>Meta_Dispatch\<close>: the records, the proposals, the reads, one definition
    per apply function of \<^verbatim>\<open>meta/apply.go\<close> and \<^verbatim>\<open>meta/multipart.go\<close>, and the dispatch. The store is passed
    explicitly; a failed type assertion is the error \<open>Panic\<close>.
  \<^item> \<open>Wire\<close>, \<open>Meta_Codec\<close>, \<open>Meta_ProposalCodec\<close> (\<^verbatim>\<open>meta/codec.go\<close>, \<^verbatim>\<open>meta/proposal_codec.go\<close>): the encoders
    and decoders. The package \<^verbatim>\<open>protowire\<close> is a parameter; the locale \<open>wire\<close> states what it promises,
    and \<open>Wire_Ref\<close> keeps the promises with a reference implementation. The decode loop is a partial
    function that is proved to return.
  \<^item> \<open>Meta_Persist\<close> (\<^verbatim>\<open>meta/persist.go\<close>, \<^verbatim>\<open>meta/dispatch.go\<close>): transactions with rollback and changeset, the
    locale \<open>persister\<close> for the interface of the durable side, restoring and dumping.
  \<^item> \<open>Sim_Disk\<close> (\<^verbatim>\<open>sim/disk.go\<close>, \<^verbatim>\<open>seam/seam.go\<close>): the disk with staged changes and crashes, and the
    locale \<open>seam_disk\<close> for what an appending client relies on. \<open>Wal\<close> (\<^verbatim>\<open>wal/wal.go\<close>, \<^verbatim>\<open>wal/rows.go\<close>): frames
    with CRC-32C, the log and the row log.
  \<^item> \<open>Place\<close> (\<^verbatim>\<open>place/place.go\<close>): partitions, the weighted rendezvous ranking in 64-bit fixed point, and
    the greedy spread over zones and hosts. The locale \<open>comparison\<close> holds the laws of a three-way comparison and what
    sorting by one gives; it is interpreted on both rankings of the code.
  \<^item> \<open>Data_Stream\<close> (\<^verbatim>\<open>stream/\<close>): the frame of an object: header, chunks, trailer index, and the ranges a ranged read
    fetches. AES-GCM and the reader and writer underneath are parameters; \<open>gcm_lawful\<close> states that a sealed chunk opens.
  \<^item> \<open>Erasure\<close> (\<^verbatim>\<open>ec/\<close>): profiles, shard headers, stripe geometry, encoder, reader with its one-stripe cache, and the rebuild.
    Reed-Solomon and SHA-256 are parameters; \<open>rs_lawful\<close> states that any \<open>k\<close> slices give back the others.
  \<^item> \<open>Datapath_Wire\<close> (\<^verbatim>\<open>datapath/datapath.go\<close>, \<^verbatim>\<open>datapath/wire.go\<close>): the channel envelope and the nine messages.
    \<open>Datapath\<close> (\<^verbatim>\<open>datapath/service.go\<close>, \<^verbatim>\<open>datapath/write.go\<close>, \<^verbatim>\<open>datapath/read.go\<close>): the service with its handlers, the write
    stream, reads, deletes and verifies with their retries. A handler returns the new state and what it sent and called.
  \<^item> \<open>Blob\<close> (\<^verbatim>\<open>blob/blob.go\<close>): whole objects as files, with its claim. \<open>Disk_Journal\<close>: a disk that remembers every state it went
    through, so that a claim can quantify over the point of a crash inside an operation.
  \<^item> \<open>Raft_Record\<close> (\<^verbatim>\<open>raftnode/record.go\<close>): log records, address-book entries, envelopes and snapshot payloads. The messages of \<^verbatim>\<open>raftpb\<close>
    are parameters; \<open>Raft_Codec\<close> states their laws in the locale \<open>raft_codec\<close> and proves the round trips, \<open>Raft_Ref\<close> interprets it.
    \<open>Raft_Node\<close> (\<^verbatim>\<open>raftnode/raftnode.go\<close>): the replica as a record, one definition per method, and the Ready loop as a partial function;
    the consensus library is the parameter record \<open>raft_lib\<close>, callbacks are numbers, and what the node sends or calls is a trace.
    \<open>Raft_Boot\<close> (\<^verbatim>\<open>New\<close>, \<^verbatim>\<open>recover\<close> and \<^verbatim>\<open>raftnode/recover.go\<close>): the choice of the log, its replay, and the disaster exit.
  \<^item> \<open>Meta_DB\<close> (\<^verbatim>\<open>sys/metadb.go\<close>): the adapter that keeps rows and applied index in BadgerDB. The database is a parameter with the laws of
    the locale \<open>badger_db\<close>; the locale \<open>meta_db\<close> states what a replica relies on, and the adapter keeps it for every lawful database.

  \<^bold>\<open>What is shown.\<close>

  \<^item> \<open>Meta_Views\<close> reads the rows as maps (buckets, versions per key, current records, uploads);
    \<open>Meta_Invariant\<close> states the store invariant over them; \<open>Meta_Object_Steps\<close>, \<open>Meta_Upload_Steps\<close>,
    \<open>Meta_System_Steps\<close> give the effect of each apply function on the views, and \<open>Meta_Run\<close> that every
    successful apply keeps the invariant and none panics. \<open>Meta_Txn\<close> shows once, in a locale over
    what single writes keep, that all apply functions keep it.
  \<^item> \<open>Meta_Lock\<close> and \<open>Meta_History\<close> carry object lock through histories of proposals that may fail.
    \<open>Object_Properties\<close>, \<open>Object_Effects\<close>, \<open>Listing_Properties\<close>, \<open>System_Properties\<close> hold the claims:
    WORM protection, atomicity, the effect of writes and deletes on reads, the listings against
    reference listings, the enable-only and compare-and-swap system rows.
  \<^item> \<open>Wal_Recovery\<close> and \<open>Store_Recovery\<close> compose store, row log and disk: memory mirrors what a
    restart finds, across crashes. \<open>Storage_Properties\<close> holds the claims, with those on the codecs.
  \<^item> \<open>Place_Properties\<close>: placement is node-distinct, independent of the listing order and prefix-stable, avoids draining
    nodes and spreads over zones; and the duplicate check it does not have. \<open>Data_Stream_Props\<close> carries the writer's state as
    a function of the bytes accepted so far and the reader over a predicate of the reads it may issue;
    \<open>Stream_Properties\<close> holds the round trip, the size known in advance and the sufficiency of \<^verbatim>\<open>Cover\<close>.
  \<^item> \<open>Erasure_Props\<close>: the bytes of each shard as a function of the frame, the encoder that writes them and the reader that
    needs any \<open>k\<close>. \<open>Erasure_Rebuild\<close>: the rebuild writes those bytes, and hashes what it writes. \<open>Erasure_Properties\<close>:
    plaintext to frame to shards and back after losses, exact rebuild, no laundering of corruption.
  \<^item> \<open>Datapath_Codec\<close>: messages are read back, decoders return. \<open>Datapath_Names\<close>: no two shards share a file.
    \<open>Datapath_Receive\<close>: the invariant of a node that receives shards, over the journal of its disk so that a crash may hit any
    point of a handler, for any two predicates on staged and on committed bytes. \<open>Datapath_Transfer\<close>, \<open>Datapath_Delivery\<close>: the
    sender, and the runs of sender and receiver over a network that loses, repeats and reorders. \<open>Datapath_Stream\<close>: the life of a
    stream. \<open>Datapath_Properties\<close> holds the claims, three of which show where a commit marker outlives its shard.
  \<^item> \<open>Raft_Log\<close>: which log a boot loads from the files a crash leaves, and the states of the disk during a rotation. \<open>Raft_Apply\<close>: the steps of a
    node as an inductive relation and what no step takes back. \<open>Raft_Tiers\<close>: entries applied to two nodes of the same configuration.
    \<open>Raft_Durable\<close>: what the durable store holds after a boot and after each applied entry, and what the next boot makes of it.
    \<open>Raft_Properties\<close> holds the claims on the log and its snapshots, \<open>Raft_Members\<close> those on the two tiers of boot, on answers to
    proposals, on removed members and on the disaster exit.
  \<^item> \<open>Meta_Demo\<close> is a small concrete history that the witnesses evaluate.

  \<^bold>\<open>Bounds.\<close> The invariant carries a number \<open>n\<close> of version-ID bumps that still fit below \<open>2 ^ 128\<close>;
  a minted identifier leaves room for \<open>2 ^ 79\<close> of them, so the hypotheses \<open>vid_room\<close> and \<open>roomy\<close> hold of
  any history that can be run. Encoded values are assumed to fit a Go slice (\<open>2 ^ 63\<close> bytes) and
  records of the log to fit \<^verbatim>\<open>MaxInt32\<close>; the code does not check the latter.

  \<^bold>\<open>Not modelled.\<close> The text of errors; the aliasing of byte slices (the store copies what it
  keeps); the PRNG and the clock, whose outputs are inputs of the model; the inside of the consensus library, of which
  only the calls are modelled, and callbacks of a replica that call it again before they return; the remaining packages,
  which move bytes over sockets and files or wrap third-party libraries (cryptography, HTTP).
\<close>

end
